(* ===== verification/Prelude.thy ===== *)
theory Prelude
  imports
    Main
    "HOL-Library.List_Lexorder"
    "HOL-Library.Char_ord"
    "HOL-Library.Product_Lexorder"
begin

text \<open>
  What every component of the development shares: the exceptions the code raises, results that
  are either an exception or a value, Python's notion of a blank string, instants, and the three
  SQL statements the repositories are written with (a lookup by key, an update guarded by a
  condition, an ordered selection), with the lemmas the component proofs use about them.

  Conventions. A Python \<open>str\<close> is a HOL \<open>string\<close> whose characters stand for the code points
  below 256. A timezone-aware \<open>datetime\<close> is an \<open>instant\<close>: the number of microseconds since
  the epoch, in UTC, which is what the code's \<open>_utc\<close> and \<open>_normalize_utc\<close> normalise to; checks
  of a Python type (\<open>type(x) is not int\<close>, a naive \<open>datetime\<close>) are carried by the HOL types.
  An SQL table is the list of its rows in insertion order.
\<close>

named_theorems row_simps "lookups and updates of table rows"

section \<open>Exceptions and results\<close>

text \<open>One constructor per exception class of the modelled code, with the message it carries.\<close>

datatype exn =
    ValueError string
  | TypeError string
  | RuntimeError string
  | KeyError string
  | IntegrityError string
  | AttemptConflict string
  | AttemptFenceLost string
  | AttemptDecodeError string
  | RunStateConflict string
  | RunStateDecodeError string
  | RunStateSecretError string
  | DecisionIdentityConflict string "string option"
  | DecisionStateConflict string
  | DecisionDecodeError string
  | DecisionNotFound string
  | DecisionConflict string
  | DecisionValidationError string
  | DecisionAuthorizationError string
  | SideEffectConflict string
  | SideEffectDecodeError string
  | SystemAuditIntegrityError string int
  | ContinuationRecoveryError string
  | ManagedRunBusy string
  | ScheduledFireConflict string
  | EvolutionRepositoryConflict string
  | EvolutionRepositoryDecodeError string
  | EvolutionAssignmentConflict string
  | EvolutionRuntimeUnavailable string
  | RunAssignmentUnavailable string
  | LookupError string
  | OverflowError string
  | WorkspaceStateConflict string

type_synonym 'a result = "exn + 'a"

text \<open>Sequencing: the first exception wins, as an uncaught \<open>raise\<close> does.\<close>

fun and_then :: "'e + 'a \<Rightarrow> ('a \<Rightarrow> 'e + 'b) \<Rightarrow> 'e + 'b" where
  "and_then (Inl e) f = Inl e"
| "and_then (Inr x) f = f x"

lemma and_then_Inr_iff [simp]:
  "and_then r f = Inr y \<longleftrightarrow> (\<exists>x. r = Inr x \<and> f x = Inr y)"
  by (cases r) auto

lemma and_then_Inl_iff:
  "and_then r f = Inl e \<longleftrightarrow> r = Inl e \<or> (\<exists>x. r = Inr x \<and> f x = Inl e)"
  by (cases r) auto

lemma and_then_assoc: "and_then (and_then r f) g = and_then r (\<lambda>x. and_then (f x) g)"
  by (cases r) auto

text \<open>\<open>if not c: raise e\<close>.\<close>

definition raise_unless :: "bool \<Rightarrow> exn \<Rightarrow> unit result" where
  "raise_unless c e = (if c then Inr () else Inl e)"

lemma raise_unless_Inr [simp]: "raise_unless c e = Inr u \<longleftrightarrow> c"
  by (simp add: raise_unless_def)

lemma raise_unless_Inl [simp]: "raise_unless c e = Inl e' \<longleftrightarrow> \<not> c \<and> e' = e"
  by (auto simp: raise_unless_def)

text \<open>
  \<open>except_integrity\<close> is the code's \<open>except sqlite3.IntegrityError as exc: raise E from exc\<close>.
\<close>

fun except_integrity :: "exn \<Rightarrow> 'a result \<Rightarrow> 'a result" where
  "except_integrity e (Inl (IntegrityError m)) = Inl e"
| "except_integrity e r = r"

lemma except_integrity_Inr [simp]: "except_integrity e r = Inr x \<longleftrightarrow> r = Inr x"
  by (cases "(e, r)" rule: except_integrity.cases) auto

lemma except_integrity_on_Inr [simp]: "except_integrity e (Inr x) = Inr x"
  by simp

text \<open>\<open>catch_integrity r h\<close> runs the handler of \<open>except sqlite3.IntegrityError\<close>.\<close>

fun catch_integrity :: "'a result \<Rightarrow> 'a result \<Rightarrow> 'a result" where
  "catch_integrity (Inl (IntegrityError m)) h = h"
| "catch_integrity r h = r"

lemma catch_integrity_Inr:
  "catch_integrity r h = Inr x \<longleftrightarrow> r = Inr x \<or> (\<exists>m. r = Inl (IntegrityError m)) \<and> h = Inr x"
  by (cases "(r, h)" rule: catch_integrity.cases) auto

text \<open>
  \<open>atomically\<close> is the effect of \<open>with unit_of_work(): ...; commit()\<close> on the durable state: the
  body's state becomes durable when it ends normally, and an exception leaves the durable state
  as it was. Theory \<open>Unit_Of_Work\<close> derives it from the class that owns the transaction.
\<close>

definition atomically :: "('s \<Rightarrow> ('a \<times> 's) result) \<Rightarrow> 's \<Rightarrow> 'a result \<times> 's" where
  "atomically body s =
     (case body s of Inl e \<Rightarrow> (Inl e, s) | Inr (x, s') \<Rightarrow> (Inr x, s'))"

lemma atomically_Inr_iff [simp]:
  "atomically body s = (Inr x, s') \<longleftrightarrow> body s = Inr (x, s')"
  by (auto simp: atomically_def split: sum.splits)

lemma atomically_error_keeps: "fst (atomically body s) = Inl e \<Longrightarrow> snd (atomically body s) = s"
  by (auto simp: atomically_def split: sum.splits)

lemma atomically_snd:
  "snd (atomically body s) = (case body s of Inl e \<Rightarrow> s | Inr (x, s') \<Rightarrow> s')"
  by (auto simp: atomically_def split: sum.splits)

section \<open>Time\<close>

type_synonym instant = int

definition seconds :: "int \<Rightarrow> int" where
  "seconds n = n * 1000000"

lemma seconds_pos [simp]: "0 < seconds n \<longleftrightarrow> 0 < n"
  by (simp add: seconds_def)

section \<open>Text\<close>

text \<open>
  The characters \<open>str.strip\<close> removes, among the code points below 256: tab to carriage return,
  the four information separators, space, next line and no-break space.
\<close>

definition is_space :: "char \<Rightarrow> bool" where
  "is_space c =
     (let n = (of_char c :: nat)
      in (9 \<le> n \<and> n \<le> 13) \<or> (28 \<le> n \<and> n \<le> 32) \<or> n = 133 \<or> n = 160)"

definition lstrip :: "string \<Rightarrow> string" where
  "lstrip s = dropWhile is_space s"

definition rstrip :: "string \<Rightarrow> string" where
  "rstrip s = rev (dropWhile is_space (rev s))"

definition strip :: "string \<Rightarrow> string" where
  "strip s = rstrip (lstrip s)"

text \<open>\<open>not value.strip()\<close>\<close>

definition blank :: "string \<Rightarrow> bool" where
  "blank s = (strip s = [])"

lemma blank_iff: "blank s \<longleftrightarrow> (\<forall>c \<in> set s. is_space c)"
proof
  assume "\<forall>c \<in> set s. is_space c"
  then show "blank s"
    by (auto simp: blank_def strip_def rstrip_def lstrip_def dest: set_dropWhileD)
next
  assume "blank s"
  then have all: "\<forall>c \<in> set (dropWhile is_space s). is_space c"
    by (simp add: blank_def strip_def rstrip_def lstrip_def)
  have "dropWhile is_space s = []"
  proof (rule ccontr)
    assume ne: "dropWhile is_space s \<noteq> []"
    then have "\<not> is_space (hd (dropWhile is_space s))" by (rule hd_dropWhile)
    with all ne show False by simp
  qed
  then show "\<forall>c \<in> set s. is_space c" by simp
qed

lemma blank_Nil [simp]: "blank []"
  by (simp add: blank_iff)

lemma blank_code [code]: "blank s = list_all is_space s"
  by (simp add: blank_iff list_all_iff)

definition opt_nonblank :: "string option \<Rightarrow> bool" where
  "opt_nonblank v = (case v of None \<Rightarrow> True | Some s \<Rightarrow> \<not> blank s)"

text \<open>The pattern \<open>^[0-9a-f]{64}$\<close> of the hash fields.\<close>

definition is_hex_digit :: "char \<Rightarrow> bool" where
  "is_hex_digit c =
     (let n = (of_char c :: nat) in (48 \<le> n \<and> n \<le> 57) \<or> (97 \<le> n \<and> n \<le> 102))"

definition hex64 :: "string \<Rightarrow> bool" where
  "hex64 s = (length s = 64 \<and> list_all is_hex_digit s)"

text \<open>
  The pattern \<open>^[A-Za-z0-9][A-Za-z0-9_.:-]{0,255}$\<close> of opaque identifiers and correlation ids.
\<close>

definition is_alnum :: "char \<Rightarrow> bool" where
  "is_alnum c =
     (let n = (of_char c :: nat)
      in (48 \<le> n \<and> n \<le> 57) \<or> (65 \<le> n \<and> n \<le> 90) \<or> (97 \<le> n \<and> n \<le> 122))"

definition is_identifier :: "string \<Rightarrow> bool" where
  "is_identifier s =
     (case s of [] \<Rightarrow> False
      | c # cs \<Rightarrow> is_alnum c \<and> length cs \<le> 255 \<and>
                  list_all (\<lambda>d. is_alnum d \<or> d \<in> set ''_.:-'') cs)"

text \<open>The pattern \<open>^[a-z][a-z0-9_.-]{0,127}$\<close> of stable codes.\<close>

definition is_lower :: "char \<Rightarrow> bool" where
  "is_lower c = (let n = (of_char c :: nat) in 97 \<le> n \<and> n \<le> 122)"

definition is_digit :: "char \<Rightarrow> bool" where
  "is_digit c = (let n = (of_char c :: nat) in 48 \<le> n \<and> n \<le> 57)"

definition is_stable_code :: "string \<Rightarrow> bool" where
  "is_stable_code s =
     (case s of [] \<Rightarrow> False
      | c # cs \<Rightarrow> is_lower c \<and> length cs \<le> 127 \<and>
                  list_all (\<lambda>d. is_lower d \<or> is_digit d \<or> d \<in> set ''_.-'') cs)"

text \<open>Code equations that look at the bits of a character instead of its code point.\<close>

lemma of_char_less_32:
  "(of_char (Char b0 b1 b2 b3 b4 b5 b6 b7) :: nat) < 32 \<longleftrightarrow> \<not> b5 \<and> \<not> b6 \<and> \<not> b7"
  by (cases b0; cases b1; cases b2; cases b3; cases b4; cases b5; cases b6; cases b7; simp)

lemma of_char_less_128:
  "(of_char (Char b0 b1 b2 b3 b4 b5 b6 b7) :: nat) < 128 \<longleftrightarrow> \<not> b7"
  by (cases b0; cases b1; cases b2; cases b3; cases b4; cases b5; cases b6; cases b7; simp)

lemma is_hex_digit_code [code]:
  "is_hex_digit (Char b0 b1 b2 b3 b4 b5 b6 b7) = (Char b0 b1 b2 b3 b4 b5 b6 b7 \<in> set ''0123456789abcdef'')"
  by (cases b0; cases b1; cases b2; cases b3; cases b4; cases b5; cases b6; cases b7; simp add: is_hex_digit_def)

section \<open>Rows of a table\<close>

text \<open>\<open>SELECT * ... WHERE key = ?\<close> with \<open>fetchone\<close>: the first row with that key.\<close>

definition row_by :: "('r \<Rightarrow> 'k) \<Rightarrow> 'k \<Rightarrow> 'r list \<Rightarrow> 'r option" where
  "row_by key k rows = find (\<lambda>r. key r = k) rows"

text \<open>\<open>UPDATE ... SET f WHERE p\<close> and its \<open>rowcount\<close>.\<close>

definition update_rows :: "('r \<Rightarrow> bool) \<Rightarrow> ('r \<Rightarrow> 'r) \<Rightarrow> 'r list \<Rightarrow> 'r list" where
  "update_rows p f rows = map (\<lambda>r. if p r then f r else r) rows"

definition count_rows :: "('r \<Rightarrow> bool) \<Rightarrow> 'r list \<Rightarrow> nat" where
  "count_rows p rows = length (filter p rows)"

text \<open>\<open>SELECT ... WHERE p ORDER BY k LIMIT n\<close>.\<close>

definition select_ordered :: "('r \<Rightarrow> bool) \<Rightarrow> ('r \<Rightarrow> 'k::linorder) \<Rightarrow> 'r list \<Rightarrow> 'r list" where
  "select_ordered p k rows = sort_key k (filter p rows)"

definition first_of :: "'r list \<Rightarrow> 'r option" where
  "first_of rows = (case rows of [] \<Rightarrow> None | r # _ \<Rightarrow> Some r)"

lemma row_by_Nil [simp]: "row_by key k [] = None"
  by (simp add: row_by_def)

lemma row_by_Cons [simp]:
  "row_by key k (r # rows) = (if key r = k then Some r else row_by key k rows)"
  by (simp add: row_by_def)

lemma row_by_SomeD: "row_by key k rows = Some r \<Longrightarrow> r \<in> set rows \<and> key r = k"
  by (auto simp: row_by_def find_Some_iff)

lemma row_by_None_iff [row_simps]: "row_by key k rows = None \<longleftrightarrow> k \<notin> key ` set rows"
  by (auto simp: row_by_def find_None_iff)

lemma row_by_unique:
  assumes "distinct (map key rows)" and "r \<in> set rows" and "key r = k"
  shows "row_by key k rows = Some r"
  using assms by (induction rows) (auto simp: rev_image_eqI)

lemma row_by_append [row_simps]:
  "row_by key k (xs @ ys) =
     (case row_by key k xs of None \<Rightarrow> row_by key k ys | Some r \<Rightarrow> Some r)"
  by (induction xs) (auto split: option.splits)

lemma row_by_update_rows [row_simps]:
  assumes "\<And>r. key (f r) = key r"
  shows "row_by key k (update_rows p f rows) =
           map_option (\<lambda>r. if p r then f r else r) (row_by key k rows)"
  using assms by (induction rows) (auto simp: update_rows_def)

lemma map_update_rows [row_simps]:
  assumes "\<And>r. p r \<Longrightarrow> g (f r) = g r"
  shows "map g (update_rows p f rows) = map g rows"
  using assms by (auto simp: update_rows_def)

lemma set_update_rows: "set (update_rows p f rows) = (\<lambda>r. if p r then f r else r) ` set rows"
  by (simp add: update_rows_def)

lemma length_update_rows [simp]: "length (update_rows p f rows) = length rows"
  by (simp add: update_rows_def)

lemma update_rows_none: "count_rows p rows = 0 \<Longrightarrow> update_rows p f rows = rows"
  by (auto simp: count_rows_def update_rows_def filter_empty_conv intro!: map_idI)

text \<open>An update by primary key with further guards touches exactly the row it names, or none.\<close>

lemma count_rows_by_key:
  assumes "distinct (map key rows)"
  shows "count_rows (\<lambda>r. key r = k \<and> g r) rows =
           (case row_by key k rows of None \<Rightarrow> 0 | Some r \<Rightarrow> if g r then 1 else 0)"
  using assms
proof (induction rows)
  case Nil
  then show ?case by (simp add: count_rows_def)
next
  case (Cons r rows)
  show ?case
  proof (cases "key r = k")
    case True
    with Cons.prems have "k \<notin> key ` set rows" by simp
    then have "filter (\<lambda>r. key r = k \<and> g r) rows = []"
      by (auto simp: filter_empty_conv)
    with True show ?thesis by (simp add: count_rows_def)
  next
    case False
    with Cons show ?thesis by (simp add: count_rows_def)
  qed
qed

lemma first_of_select_Some:
  "first_of (select_ordered p k rows) = Some r \<Longrightarrow> r \<in> set rows \<and> p r"
proof -
  assume "first_of (select_ordered p k rows) = Some r"
  then obtain rs where "sort_key k (filter p rows) = r # rs"
    by (auto simp: first_of_def select_ordered_def split: list.splits)
  then have "r \<in> set (sort_key k (filter p rows))"
    by (metis list.set_intros(1))
  then show ?thesis by simp
qed

lemma first_of_select_None:
  "first_of (select_ordered p k rows) = None \<longleftrightarrow> (\<forall>r \<in> set rows. \<not> p r)"
proof -
  have "first_of (select_ordered p k rows) = None \<longleftrightarrow> filter p rows = []"
    by (auto simp: first_of_def select_ordered_def split: list.splits)
       (metis set_empty set_sort)
  then show ?thesis by (simp add: filter_empty_conv)
qed

text \<open>A generic bound: what is appended to a table keeps earlier rows in place.\<close>

lemma distinct_map_snoc:
  "distinct (map key (rows @ [r])) \<longleftrightarrow> distinct (map key rows) \<and> key r \<notin> key ` set rows"
  by auto

text \<open>An update guarded by a unique key touches one row.\<close>

lemma update_one_row:
  assumes "distinct (map key rows)" "r \<in> set rows" "key r = k" "g r"
  shows "count_rows (\<lambda>x. key x = k \<and> g x) rows = 1"
    and "update_rows (\<lambda>x. key x = k \<and> g x) f rows = update_rows (\<lambda>x. x = r) f rows"
proof -
  have row: "row_by key k rows = Some r" by (rule row_by_unique [OF assms(1,2,3)])
  then show "count_rows (\<lambda>x. key x = k \<and> g x) rows = 1"
    using assms(4) by (simp add: count_rows_by_key [OF assms(1)])
  have "x = r" if "x \<in> set rows" "key x = k" for x using row_by_unique [OF assms(1) that] row by simp
  then have "(key x = k \<and> g x) = (x = r)" if "x \<in> set rows" for x using that assms(3,4) by auto
  then show "update_rows (\<lambda>x. key x = k \<and> g x) f rows = update_rows (\<lambda>x. x = r) f rows"
    by (simp add: update_rows_def cong: map_cong)
qed

section \<open>Evolving systems\<close>

text \<open>
  The interface between a step relation and what is proved of all its runs: an invariant the steps
  keep, and a preorder on states that each step from a good state respects.
\<close>

locale evolving_system =
  fixes step :: "'s \<Rightarrow> 's \<Rightarrow> bool" and inv :: "'s \<Rightarrow> bool" and evo :: "'s \<Rightarrow> 's \<Rightarrow> bool"
  assumes step_inv: "inv s \<Longrightarrow> step s s' \<Longrightarrow> inv s'"
    and step_evo: "inv s \<Longrightarrow> step s s' \<Longrightarrow> evo s s'"
    and evo_refl: "evo s s"
    and evo_trans: "evo s s' \<Longrightarrow> evo s' s'' \<Longrightarrow> evo s s''"
begin

lemma steps_inv_evo:
  assumes "step\<^sup>*\<^sup>* s s'" and "inv s"
  shows "inv s' \<and> evo s s'"
  using assms by (induction rule: rtranclp_induct) (auto intro: step_inv step_evo evo_refl evo_trans)

end

text \<open>
  An authority that can be lost: what is lost stays lost along the preorder, and a lost authority is
  not held. So it is not held in any later state either.
\<close>

locale revocable_authority = evolving_system step inv evo
  for step :: "'s \<Rightarrow> 's \<Rightarrow> bool" and inv evo +
  fixes holds :: "'s \<Rightarrow> 'k \<Rightarrow> bool" and lost :: "'s \<Rightarrow> 'k \<Rightarrow> bool"
  assumes lost_evo: "inv s \<Longrightarrow> inv s' \<Longrightarrow> evo s s' \<Longrightarrow> lost s k \<Longrightarrow> lost s' k"
    and lost_not_held: "inv s \<Longrightarrow> lost s k \<Longrightarrow> \<not> holds s k"
begin

lemma lost_forever:
  assumes "inv s" "lost s k" "step\<^sup>*\<^sup>* s s'"
  shows "\<not> holds s' k"
  using steps_inv_evo [OF assms(3,1)] lost_evo [OF assms(1)] lost_not_held assms(2) by blast

end

text \<open>
  A store of versioned entries with a compare-and-swap: a swap happens only at the version it names and
  moves the entry to the next one, and no step lowers a version. So of all swaps that name one version
  of one entry, at most one ever happens.
\<close>

locale versioned_store = evolving_system step inv evo
  for step :: "'s \<Rightarrow> 's \<Rightarrow> bool" and inv evo +
  fixes version_of :: "'s \<Rightarrow> 'k \<Rightarrow> int option" and swap :: "'k \<Rightarrow> int \<Rightarrow> 'x \<Rightarrow> 's \<Rightarrow> 's option"
  assumes swap_version: "inv s \<Longrightarrow> swap k v x s = Some s' \<Longrightarrow> version_of s k = Some v \<and> version_of s' k = Some (v + 1)"
    and swap_inv: "inv s \<Longrightarrow> swap k v x s = Some s' \<Longrightarrow> inv s'"
    and evo_version: "inv s \<Longrightarrow> inv s' \<Longrightarrow> evo s s' \<Longrightarrow> version_of s k = Some v \<Longrightarrow> \<exists>v'. version_of s' k = Some v' \<and> v \<le> v'"
begin

lemma swap_once:
  assumes "inv s" "swap k v x s = Some s'" "step\<^sup>*\<^sup>* s' s''"
  shows "swap k v y s'' = None"
proof (rule ccontr)
  assume "swap k v y s'' \<noteq> None"
  then obtain t where t: "swap k v y s'' = Some t" by auto
  have i: "inv s'" using assms(1,2) by (rule swap_inv)
  then have j: "inv s''" "evo s' s''" using steps_inv_evo [OF assms(3)] by auto
  have "version_of s' k = Some (v + 1)" using swap_version [OF assms(1,2)] by simp
  with evo_version [OF i j] obtain v' where "version_of s'' k = Some v'" "v + 1 \<le> v'" by blast
  with swap_version [OF j(1) t] show False by simp
qed

end

end
