(* ===== verification/Canonical.thy ===== *)
theory Canonical
  imports Prelude "HOL-Library.Multiset"
begin

text \<open>
  \<open>models/canonical.py\<close>: JSON values, the canonical bytes every durable hash is taken of, and the
  redacted error the ledgers store. SHA-256 is a parameter (\<open>sha :: string \<Rightarrow> string\<close>, from bytes
  to lowercase hexadecimal): nothing here depends on more than its being a function.
\<close>

section \<open>JSON values\<close>

text \<open>
  A float is its \<open>repr\<close> text, which is what \<open>json.dumps\<close> writes; the three non-finite values are
  the texts \<open>nan\<close>, \<open>inf\<close> and \<open>-inf\<close>. An object is the list of its items in insertion order.
\<close>

datatype json =
    JNull
  | JBool bool
  | JInt int
  | JFloat string
  | JStr string
  | JList "json list"
  | JObj "(string \<times> json) list"

record redacted_error =
  err_code :: string
  err_message :: string
  err_retryable :: bool
  err_details_hash :: "string option"

definition finite_float :: "string \<Rightarrow> bool" where
  "finite_float t = (t \<notin> {''nan'', ''inf'', ''-inf''})"

text \<open>\<open>_normalize_json_value\<close> accepts a value iff every float in it is finite.\<close>

fun normalizable :: "json \<Rightarrow> bool" where
  "normalizable (JFloat t) = finite_float t"
| "normalizable (JList vs) = (\<forall>v \<in> set vs. normalizable v)"
| "normalizable (JObj kvs) = (\<forall>kv \<in> set kvs. normalizable (snd kv))"
| "normalizable _ = True"

section \<open>json.dumps with sorted keys and no spaces\<close>

definition digit_char :: "nat \<Rightarrow> char" where
  "digit_char n = (if n < 10 then char_of (48 + n) else char_of (87 + n))"

fun nat_text :: "nat \<Rightarrow> string" where
  "nat_text n = (if n < 10 then [digit_char n] else nat_text (n div 10) @ [digit_char (n mod 10)])"

declare nat_text.simps [simp del]

definition int_text :: "int \<Rightarrow> string" where
  "int_text i = (if i < 0 then CHR ''-'' # nat_text (nat (- i)) else nat_text (nat i))"

definition escape_char :: "char \<Rightarrow> string" where
  "escape_char c =
     (let n = (of_char c :: nat) in
      if c = CHR 0x22 then [CHR 0x5C, CHR 0x22]
      else if c = CHR 0x5C then [CHR 0x5C, CHR 0x5C]
      else if n = 10 then [CHR 0x5C, CHR ''n'']
      else if n = 13 then [CHR 0x5C, CHR ''r'']
      else if n = 9 then [CHR 0x5C, CHR ''t'']
      else if n = 12 then [CHR 0x5C, CHR ''f'']
      else if n = 8 then [CHR 0x5C, CHR ''b'']
      else if n < 32 then [CHR 0x5C, CHR ''u'', CHR ''0'', CHR ''0'', digit_char (n div 16), digit_char (n mod 16)]
      else [c])"

lemma escape_char_code [code]:
  "escape_char (Char b0 b1 b2 b3 b4 b5 b6 b7) =
     (let c = Char b0 b1 b2 b3 b4 b5 b6 b7; n = (of_char c :: nat) in
      if b5 \<or> b6 \<or> b7
      then (if c = CHR 0x22 then [CHR 0x5C, CHR 0x22] else if c = CHR 0x5C then [CHR 0x5C, CHR 0x5C] else [c])
      else if c = CHR 0x0A then [CHR 0x5C, CHR ''n'']
      else if c = CHR 0x0D then [CHR 0x5C, CHR ''r'']
      else if c = CHR 0x09 then [CHR 0x5C, CHR ''t'']
      else if c = CHR 0x0C then [CHR 0x5C, CHR ''f'']
      else if c = CHR 0x08 then [CHR 0x5C, CHR ''b'']
      else [CHR 0x5C, CHR ''u'', CHR ''0'', CHR ''0'', digit_char (n div 16), digit_char (n mod 16)])"
  by (cases b0; cases b1; cases b2; cases b3; cases b4; cases b5; cases b6; cases b7;
      simp add: escape_char_def Let_def)

definition json_string :: "string \<Rightarrow> string" where
  "json_string s = CHR 0x22 # concat (map escape_char s) @ [CHR 0x22]"

fun join_with :: "char \<Rightarrow> string list \<Rightarrow> string" where
  "join_with sep [] = []"
| "join_with sep [s] = s"
| "join_with sep (s # t # ss) = s @ sep # join_with sep (t # ss)"

definition object_text :: "(string \<times> string) list \<Rightarrow> string" where
  "object_text kts =
     CHR ''{'' # join_with (CHR '','') (map (\<lambda>(k, t). json_string k @ CHR '':'' # t) (sort_key fst kts))
       @ ''}''"

primrec dumps :: "json \<Rightarrow> string" where
  "dumps JNull = ''null''"
| "dumps (JBool b) = (if b then ''true'' else ''false'')"
| "dumps (JInt i) = int_text i"
| "dumps (JFloat t) = t"
| "dumps (JStr s) = json_string s"
| "dumps (JList vs) = CHR ''['' # join_with (CHR '','') (map dumps vs) @ '']''"
| "dumps (JObj kvs) = object_text (map (map_prod id dumps) kvs)"

text \<open>\<open>.encode("utf-8")\<close>, on code points below 256.\<close>

definition utf8_char :: "char \<Rightarrow> string" where
  "utf8_char c =
     (let n = (of_char c :: nat) in
      if n < 128 then [c] else [char_of (192 + n div 64), char_of (128 + n mod 64)])"

lemma utf8_char_code [code]:
  "utf8_char (Char b0 b1 b2 b3 b4 b5 b6 b7) =
     (let c = Char b0 b1 b2 b3 b4 b5 b6 b7; n = (of_char c :: nat) in
      if \<not> b7 then [c] else [char_of (192 + n div 64), char_of (128 + n mod 64)])"
  unfolding utf8_char_def Let_def of_char_less_128 ..

definition utf8 :: "string \<Rightarrow> string" where
  "utf8 s = concat (map utf8_char s)"

definition canonical_json_bytes :: "json \<Rightarrow> string result" where
  "canonical_json_bytes v =
     (if normalizable v then Inr (utf8 (dumps v))
      else Inl (ValueError ''canonical JSON numbers must be finite''))"

definition canonical_sha256 :: "(string \<Rightarrow> string) \<Rightarrow> json \<Rightarrow> string result" where
  "canonical_sha256 sha v = and_then (canonical_json_bytes v) (\<lambda>b. Inr (sha b))"

section \<open>The bytes do not depend on the order of the keys\<close>

lemma mset_eq_short:
  assumes "mset xs = mset ys" and "length xs \<le> 1"
  shows "xs = ys"
proof (cases xs)
  case Nil
  with assms(1) show ?thesis by simp
next
  case (Cons x xs')
  with assms(2) have "xs = [x]" by simp
  with assms(1) show ?thesis by (metis mset_single_iff)
qed

lemma sort_key_fst_mset_eq:
  assumes "mset xs = mset ys" and "distinct (map fst xs)"
  shows "sort_key fst xs = sort_key (fst :: 'a::linorder \<times> 'b \<Rightarrow> 'a) ys"
proof (rule properties_for_sort_key)
  show "mset (sort_key fst ys) = mset xs"
    using assms(1) by simp
  show "sorted (map fst (sort_key fst ys))"
    by simp
  fix k
  assume "k \<in> set (sort_key fst ys)"
  have dy: "distinct (map fst ys)"
    using assms by (metis mset_map mset_eq_imp_distinct_iff)
  have len: "length (filter (\<lambda>x. fst k = fst x) zs) \<le> 1"
    if "distinct (map fst zs)" for zs :: "('a \<times> 'b) list"
    using that by (induction zs) (auto simp: image_iff filter_empty_conv)
  have m: "mset (filter (\<lambda>x. fst k = fst x) (sort_key fst ys)) = mset (filter (\<lambda>x. fst k = fst x) xs)"
    using assms(1) by (simp add: mset_filter)
  have "length (filter (\<lambda>x. fst k = fst x) xs) \<le> 1"
    using assms(2) by (rule len)
  with m show "filter (\<lambda>x. fst k = fst x) (sort_key fst ys) = filter (\<lambda>x. fst k = fst x) xs"
    by (metis mset_eq_short)
qed

lemma dumps_object_perm:
  assumes "mset kvs = mset kvs'" and "distinct (map fst kvs)"
  shows "dumps (JObj kvs) = dumps (JObj kvs')"
proof -
  let ?t = "map_prod id dumps :: string \<times> json \<Rightarrow> string \<times> string"
  have "mset (map ?t kvs) = mset (map ?t kvs')"
    using assms(1) by (simp only: mset_map)
  moreover have "distinct (map fst (map ?t kvs))"
    using assms(2) by (simp add: comp_def)
  ultimately have "sort_key fst (map ?t kvs) = sort_key fst (map ?t kvs')"
    by (rule sort_key_fst_mset_eq)
  then show ?thesis by (simp add: object_text_def)
qed

lemma canonical_object_perm:
  assumes "mset kvs = mset kvs'" and "distinct (map fst kvs)"
  shows "canonical_json_bytes (JObj kvs) = canonical_json_bytes (JObj kvs')"
proof -
  have "set kvs = set kvs'"
    using assms(1) by (rule mset_eq_setD)
  then show ?thesis
    using dumps_object_perm [OF assms] by (simp add: canonical_json_bytes_def)
qed

end
