(* ===== verification/Attempt_Model.thy ===== *)
theory Attempt_Model
  imports Canonical
begin

text \<open>
  \<open>models/attempt.py\<close>: the execution attempt a worker leases, the outcome it reports, and the
  shape checks pydantic runs on both. An attempt row carries the fields of \<open>AttemptLeaseV1\<close> and the
  \<open>correlation_id\<close> column of its table.
\<close>

datatype attempt_status = Claimable | Claimed | Suspended | Succeeded | Failed | DeadLetter

datatype attempt_disposition = DSucceeded | DFailed | DRetry | DSuspended

record attempt_lease =
  at_id :: string
  at_schema_version :: int
  at_memorial :: string
  at_no :: int
  at_status :: attempt_status
  at_owner :: "string option"
  at_fence :: int
  at_expires :: "instant option"
  at_heartbeat :: "instant option"
  at_available :: instant
  at_max :: int
  at_failure :: "redacted_error option"
  at_version :: int
  at_created :: instant
  at_updated :: instant
  at_correlation :: "string option"

record attempt_outcome =
  out_disposition :: attempt_disposition
  out_completed_at :: instant
  out_failure :: "redacted_error option"
  out_retry_at :: "instant option"

text \<open>The status in \<open>('claimable','claimed','suspended')\<close>, the statuses that still hold the run.\<close>

definition active :: "attempt_lease \<Rightarrow> bool" where
  "active a = (at_status a \<in> {Claimable, Claimed, Suspended})"

definition status_failed :: "attempt_status \<Rightarrow> bool" where
  "status_failed s = (s \<in> {Failed, DeadLetter})"

text \<open>\<open>AttemptLeaseV1.validate_shape\<close>.\<close>

definition attempt_shape :: "attempt_lease \<Rightarrow> bool" where
  "attempt_shape a =
     (at_no a \<le> at_max a \<and>
      at_created a \<le> at_updated a \<and>
      (if at_status a = Claimed
       then at_owner a \<noteq> None \<and> at_expires a \<noteq> None \<and> at_heartbeat a \<noteq> None \<and> 0 < at_fence a \<and>
            the (at_heartbeat a) < the (at_expires a)
       else at_owner a = None \<and> at_expires a = None) \<and>
      (status_failed (at_status a) \<longleftrightarrow> at_failure a \<noteq> None))"

text \<open>The whole model: field constraints, field validators and the shape.\<close>

definition valid_attempt :: "attempt_lease \<Rightarrow> bool" where
  "valid_attempt a =
     (\<not> blank (at_id a) \<and> at_schema_version a = 1 \<and> \<not> blank (at_memorial a) \<and>
      1 \<le> at_no a \<and> opt_nonblank (at_owner a) \<and> 0 \<le> at_fence a \<and>
      1 \<le> at_max a \<and> 1 \<le> at_version a \<and> attempt_shape a)"

text \<open>\<open>AttemptOutcomeV1.validate_shape\<close>.\<close>

definition valid_outcome :: "attempt_outcome \<Rightarrow> bool" where
  "valid_outcome o' =
     (case out_disposition o' of
        DRetry \<Rightarrow> out_failure o' \<noteq> None \<and>
                  (case out_retry_at o' of None \<Rightarrow> False | Some t \<Rightarrow> out_completed_at o' \<le> t)
      | DFailed \<Rightarrow> out_failure o' \<noteq> None \<and> out_retry_at o' = None
      | _ \<Rightarrow> out_failure o' = None \<and> out_retry_at o' = None)"

text \<open>\<open>_decode_attempt\<close>: a stored row either satisfies the v1 contract or raises.\<close>

definition decode_attempt :: "attempt_lease \<Rightarrow> attempt_lease result" where
  "decode_attempt row =
     (if valid_attempt row then Inr row
      else Inl (AttemptDecodeError ''persisted attempt violates the v1 contract''))"

lemma decode_attempt_Inr [simp]: "decode_attempt row = Inr a \<longleftrightarrow> valid_attempt row \<and> a = row"
  by (auto simp: decode_attempt_def)

lemma active_not_failed: "active a \<Longrightarrow> \<not> status_failed (at_status a)"
  by (auto simp: active_def status_failed_def)

lemma valid_attempt_claimedE:
  assumes "valid_attempt a" and "at_status a = Claimed"
  obtains ow ex hb where "at_owner a = Some ow" "at_expires a = Some ex" "at_heartbeat a = Some hb"
    "hb < ex" "0 < at_fence a"
  using assms by (auto simp: valid_attempt_def attempt_shape_def)

end
