(* ===== verification/Run_State_Model.thy ===== *)
theory Run_State_Model
  imports Canonical Complex_Main
begin

text \<open>
  \<open>models/plan_revision.py\<close> and \<open>models/run_state.py\<close>: plan revisions and their lineage, the two
  kinds of durable continuation, the run state that holds one, and the checks pydantic runs on
  them. \<open>sha\<close> stands for SHA-256 and \<open>redact\<close> for \<open>security/redact.py\<close>'s \<open>redact_text\<close>.
\<close>

section \<open>Plan revisions\<close>

record plan_revision =
  rev_id :: string
  rev_parent :: "string option"
  rev_plan_hash :: string
  rev_reason_code :: string
  rev_reason_summary :: string
  rev_artifact_digest :: string
  rev_created :: instant

definition opt_identifier :: "string option \<Rightarrow> bool" where
  "opt_identifier v = (case v of None \<Rightarrow> True | Some s \<Rightarrow> is_identifier s)"

definition redacted_non_blank :: "(string \<Rightarrow> string) \<Rightarrow> string \<Rightarrow> bool" where
  "redacted_non_blank redact v = (strip v \<noteq> [] \<and> redact (strip v) = strip v)"

definition valid_plan_revision :: "(string \<Rightarrow> string) \<Rightarrow> plan_revision \<Rightarrow> bool" where
  "valid_plan_revision redact r =
     (is_identifier (rev_id r) \<and> opt_identifier (rev_parent r) \<and>
      hex64 (rev_plan_hash r) \<and> is_stable_code (rev_reason_code r) \<and>
      length (rev_reason_summary r) \<le> 4096 \<and> redacted_non_blank redact (rev_reason_summary r) \<and>
      hex64 (rev_artifact_digest r) \<and>
      rev_parent r \<noteq> Some (rev_id r) \<and>
      rev_artifact_digest r = rev_plan_hash r)"

text \<open>
  \<open>build_plan_revision\<close>: the hash and the digest are those of the plan's canonical bytes; the
  model's own validators run on the result, and the stored summary is the stripped one.
\<close>

definition build_plan_revision ::
  "(string \<Rightarrow> string) \<Rightarrow> (string \<Rightarrow> string) \<Rightarrow> json \<Rightarrow> string \<Rightarrow> string option \<Rightarrow> string \<Rightarrow> string \<Rightarrow>
   instant \<Rightarrow> plan_revision result" where
  "build_plan_revision sha redact plan revision_id parent reason_code reason_summary created_at =
     and_then (canonical_sha256 sha plan) (\<lambda>digest.
       let safe_reason = redact (strip reason_summary);
           r = \<lparr>rev_id = revision_id, rev_parent = parent, rev_plan_hash = digest,
                rev_reason_code = reason_code, rev_reason_summary = safe_reason,
                rev_artifact_digest = digest, rev_created = created_at\<rparr>
       in if valid_plan_revision redact r
          then Inr (r\<lparr>rev_reason_summary := strip safe_reason\<rparr>)
          else Inl (ValueError ''plan revision is invalid''))"

text \<open>The loop of \<open>validate_plan_revision_lineage\<close>: the identities seen and the previous revision.\<close>

fun lineage_loop ::
  "(string \<Rightarrow> string) \<Rightarrow> string list \<Rightarrow> plan_revision option \<Rightarrow> plan_revision list \<Rightarrow> unit result" where
  "lineage_loop redact seen prev [] = Inr ()"
| "lineage_loop redact seen prev (r # rs) =
     (if \<not> valid_plan_revision redact r
      then Inl (ValueError ''plan revision lineage contains an invalid revision'')
      else if rev_id r \<in> set seen
      then Inl (ValueError ''plan revision lineage contains a duplicate revision'')
      else if rev_parent r \<noteq> map_option rev_id prev
      then Inl (ValueError ''plan revision lineage is disconnected'')
      else if (case prev of None \<Rightarrow> False | Some p \<Rightarrow> rev_created r < rev_created p)
      then Inl (ValueError ''plan revision lineage timestamps move backwards'')
      else lineage_loop redact (rev_id r # seen) (Some r) rs)"

definition validate_plan_revision_lineage ::
  "(string \<Rightarrow> string) \<Rightarrow> plan_revision list \<Rightarrow> unit result" where
  "validate_plan_revision_lineage redact lineage = lineage_loop redact [] None lineage"

section \<open>Continuations and run states\<close>

datatype run_phase =
    PSubmitted | PPlanning | PExecuting | PWaitingDecision | PPaused | PAuditing | PCompleted | PFailed

datatype level = L0 | L1 | L2 | L3

record usage_summary =
  us_prompt_tokens :: int
  us_completion_tokens :: int
  us_total_tokens :: int
  us_cache_read_tokens :: int
  us_cost_cny :: rat
  us_actual_model :: "string option"
  us_upstream_provider :: "string option"

definition zero_usage :: usage_summary where
  "zero_usage =
     \<lparr>us_prompt_tokens = 0, us_completion_tokens = 0, us_total_tokens = 0, us_cache_read_tokens = 0,
      us_cost_cny = 0, us_actual_model = None, us_upstream_provider = None\<rparr>"

datatype message_role = RSystem | RUser | RAssistant | RTool

datatype message_content = CText string | CParts "(string \<times> json) list list"

record chat_message =
  msg_role :: message_role
  msg_content :: message_content
  msg_name :: "string option"
  msg_tool_call_id :: "string option"
  msg_tool_calls :: "(string \<times> json) list list option"
  msg_reasoning :: "string option"

record tool_proposal =
  tp_call_id :: string
  tp_tool_name :: string
  tp_arguments :: "(string \<times> json) list"
  tp_arguments_hash :: string
  tp_tier :: string
  tp_policy_rule :: "string option"
  tp_proposed_at :: instant

record iteration_summary =
  is_iteration :: int
  is_level :: level
  is_output_ref :: "string option"
  is_verdict :: "string option"
  is_issue_class :: "string option"
  is_feedback :: "string option"
  is_usage :: usage_summary
  is_completed_at :: instant

record agent_continuation =
  ac_messages :: "chat_message list"
  ac_pending_tool :: "tool_proposal option"
  ac_iteration :: int
  ac_usage :: usage_summary
  ac_checkpoint :: "string option"
  ac_pending_decision :: "string option"
  ac_resolved_decision :: "string option"
  ac_cursor :: int
  ac_plan_ref :: "string option"
  ac_plan_hash :: "string option"
  ac_plan_revision_id :: "string option"
  ac_plan_revisions :: "plan_revision list"
  ac_plan_snapshot :: "(string \<times> json) list option"
  ac_scheduled_event_id :: "string option"
  ac_scheduled_event_hash :: "string option"

record outer_loop_continuation =
  oc_level :: level
  oc_iteration :: int
  oc_best_output :: "string option"
  oc_feedback :: "string option"
  oc_steer :: "string option"
  oc_history :: "iteration_summary list"
  oc_same_issue_streak :: int
  oc_last_issue_class :: "string option"
  oc_l1_rounds :: int
  oc_l2_rounds :: int
  oc_advice :: "string option"
  oc_usage :: usage_summary
  oc_total_cost :: rat
  oc_checkpoint :: "string option"
  oc_pending_decision :: "string option"
  oc_resolved_decision :: "string option"
  oc_cursor :: int
  oc_plan :: "agent_continuation option"

datatype continuation = Agent agent_continuation | OuterLoop outer_loop_continuation

record run_state =
  rs_memorial :: string
  rs_edict :: string
  rs_schema_version :: int
  rs_phase :: run_phase
  rs_continuation :: continuation
  rs_checkpoint :: "string option"
  rs_cursor :: int
  rs_version :: int
  rs_created :: instant
  rs_updated :: instant

text \<open>Fields both continuations have, and the planning lineage an outer loop carries along.\<close>

fun cont_pending :: "continuation \<Rightarrow> string option" where
  "cont_pending (Agent c) = ac_pending_decision c"
| "cont_pending (OuterLoop c) = oc_pending_decision c"

fun cont_resolved :: "continuation \<Rightarrow> string option" where
  "cont_resolved (Agent c) = ac_resolved_decision c"
| "cont_resolved (OuterLoop c) = oc_resolved_decision c"

fun cont_checkpoint :: "continuation \<Rightarrow> string option" where
  "cont_checkpoint (Agent c) = ac_checkpoint c"
| "cont_checkpoint (OuterLoop c) = oc_checkpoint c"

fun cont_cursor :: "continuation \<Rightarrow> int" where
  "cont_cursor (Agent c) = ac_cursor c"
| "cont_cursor (OuterLoop c) = oc_cursor c"

fun set_decisions :: "string option \<Rightarrow> string option \<Rightarrow> continuation \<Rightarrow> continuation" where
  "set_decisions p r (Agent c) = Agent (c\<lparr>ac_pending_decision := p, ac_resolved_decision := r\<rparr>)"
| "set_decisions p r (OuterLoop c) = OuterLoop (c\<lparr>oc_pending_decision := p, oc_resolved_decision := r\<rparr>)"

fun agent_plan_continuation :: "continuation \<Rightarrow> agent_continuation option" where
  "agent_plan_continuation (Agent c) = Some c"
| "agent_plan_continuation (OuterLoop c) = oc_plan c"

section \<open>Validators\<close>

definition valid_usage :: "usage_summary \<Rightarrow> bool" where
  "valid_usage u =
     (0 \<le> us_prompt_tokens u \<and> 0 \<le> us_completion_tokens u \<and> 0 \<le> us_total_tokens u \<and>
      0 \<le> us_cache_read_tokens u \<and> 0 \<le> us_cost_cny u)"

definition valid_tool_proposal :: "(string \<Rightarrow> string) \<Rightarrow> tool_proposal \<Rightarrow> bool" where
  "valid_tool_proposal sha p =
     (\<not> blank (tp_call_id p) \<and> \<not> blank (tp_tool_name p) \<and> \<not> blank (tp_tier p) \<and>
      opt_nonblank (tp_policy_rule p) \<and> hex64 (tp_arguments_hash p) \<and>
      canonical_sha256 sha (JObj (tp_arguments p)) = Inr (tp_arguments_hash p))"

definition valid_iteration :: "iteration_summary \<Rightarrow> bool" where
  "valid_iteration i =
     (0 \<le> is_iteration i \<and> opt_nonblank (is_verdict i) \<and> valid_usage (is_usage i))"

definition opt_hex64 :: "string option \<Rightarrow> bool" where
  "opt_hex64 v = (case v of None \<Rightarrow> True | Some s \<Rightarrow> hex64 s)"

text \<open>\<open>AgentContinuationV1.validate_plan_binding\<close>.\<close>

definition plan_binding :: "(string \<Rightarrow> string) \<Rightarrow> (string \<Rightarrow> string) \<Rightarrow> agent_continuation \<Rightarrow> bool" where
  "plan_binding sha redact c =
     ((ac_plan_ref c = None \<longleftrightarrow> ac_plan_hash c = None) \<and>
      opt_nonblank (ac_plan_ref c) \<and>
      (if ac_plan_revisions c \<noteq> []
       then validate_plan_revision_lineage redact (ac_plan_revisions c) = Inr () \<and>
            ac_plan_revision_id c = Some (rev_id (last (ac_plan_revisions c))) \<and>
            ac_plan_hash c = Some (rev_plan_hash (last (ac_plan_revisions c))) \<and>
            (case ac_plan_snapshot c of
               None \<Rightarrow> False
             | Some snap \<Rightarrow>
                 canonical_sha256 sha (JObj snap) = Inr (rev_plan_hash (last (ac_plan_revisions c))))
       else ac_plan_revision_id c = None \<and> ac_plan_snapshot c = None) \<and>
      (ac_scheduled_event_id c = None \<longleftrightarrow> ac_scheduled_event_hash c = None) \<and>
      opt_nonblank (ac_scheduled_event_id c))"

definition valid_agent :: "(string \<Rightarrow> string) \<Rightarrow> (string \<Rightarrow> string) \<Rightarrow> agent_continuation \<Rightarrow> bool" where
  "valid_agent sha redact c =
     ((case ac_pending_tool c of None \<Rightarrow> True | Some p \<Rightarrow> valid_tool_proposal sha p) \<and>
      0 \<le> ac_iteration c \<and> valid_usage (ac_usage c) \<and> 0 \<le> ac_cursor c \<and>
      opt_hex64 (ac_plan_hash c) \<and> opt_hex64 (ac_scheduled_event_hash c) \<and>
      plan_binding sha redact c)"

definition valid_outer :: "(string \<Rightarrow> string) \<Rightarrow> (string \<Rightarrow> string) \<Rightarrow> outer_loop_continuation \<Rightarrow> bool" where
  "valid_outer sha redact c =
     (0 \<le> oc_iteration c \<and> list_all valid_iteration (oc_history c) \<and>
      0 \<le> oc_same_issue_streak c \<and> 0 \<le> oc_l1_rounds c \<and> 0 \<le> oc_l2_rounds c \<and>
      valid_usage (oc_usage c) \<and> 0 \<le> oc_total_cost c \<and> 0 \<le> oc_cursor c \<and>
      (case oc_plan c of None \<Rightarrow> True | Some a \<Rightarrow> valid_agent sha redact a))"

fun valid_continuation :: "(string \<Rightarrow> string) \<Rightarrow> (string \<Rightarrow> string) \<Rightarrow> continuation \<Rightarrow> bool" where
  "valid_continuation sha redact (Agent c) = valid_agent sha redact c"
| "valid_continuation sha redact (OuterLoop c) = valid_outer sha redact c"

text \<open>\<open>RunStateV1\<close>: field constraints and \<open>validate_integrity\<close>.\<close>

definition valid_run_state :: "(string \<Rightarrow> string) \<Rightarrow> (string \<Rightarrow> string) \<Rightarrow> run_state \<Rightarrow> bool" where
  "valid_run_state sha redact s =
     (\<not> blank (rs_memorial s) \<and> \<not> blank (rs_edict s) \<and> rs_schema_version s = 1 \<and>
      valid_continuation sha redact (rs_continuation s) \<and>
      0 \<le> rs_cursor s \<and> 1 \<le> rs_version s \<and> rs_created s \<le> rs_updated s \<and>
      rs_cursor s = cont_cursor (rs_continuation s) \<and>
      rs_checkpoint s = cont_checkpoint (rs_continuation s))"

section \<open>Lemmas on lineages and continuations\<close>

text \<open>
  A lineage the validator accepts is a chain: distinct identities, each revision's parent is the
  revision before it, and the creation times never decrease.
\<close>

lemma lineage_loop_chain:
  assumes "lineage_loop redact seen prev rs = Inr ()"
  shows "distinct (map rev_id rs) \<and> set (map rev_id rs) \<inter> set seen = {} \<and>
         (\<forall>i < length rs. valid_plan_revision redact (rs ! i) \<and>
            rev_parent (rs ! i) = (if i = 0 then map_option rev_id prev else Some (rev_id (rs ! (i - 1)))))"
  using assms
proof (induction rs arbitrary: seen prev)
  case Nil
  then show ?case by simp
next
  case (Cons r rs)
  from Cons.prems have ok: "valid_plan_revision redact r" "rev_id r \<notin> set seen"
    "rev_parent r = map_option rev_id prev"
    and rest: "lineage_loop redact (rev_id r # seen) (Some r) rs = Inr ()"
    by (auto split: if_splits)
  have ih: "distinct (map rev_id rs)" "set (map rev_id rs) \<inter> set (rev_id r # seen) = {}"
    and ch: "\<forall>i < length rs. valid_plan_revision redact (rs ! i) \<and>
       rev_parent (rs ! i) = (if i = 0 then Some (rev_id r) else Some (rev_id (rs ! (i - 1))))"
    using Cons.IH [OF rest] by auto
  have "valid_plan_revision redact ((r # rs) ! i) \<and> rev_parent ((r # rs) ! i) =
      (if i = 0 then map_option rev_id prev else Some (rev_id ((r # rs) ! (i - 1))))"
    if "i < length (r # rs)" for i
    using that ok ch by (cases i) (auto simp: nth_Cons split: nat.splits)
  with ih ok show ?case by auto
qed

lemma lineage_loop_sorted:
  assumes "lineage_loop redact seen prev rs = Inr ()"
  shows "sorted (map rev_created rs) \<and>
         (\<forall>p r. prev = Some p \<longrightarrow> r \<in> set rs \<longrightarrow> rev_created p \<le> rev_created r)"
  using assms
proof (induction rs arbitrary: seen prev)
  case Nil
  then show ?case by simp
next
  case (Cons r rs)
  from Cons.prems have rest: "lineage_loop redact (rev_id r # seen) (Some r) rs = Inr ()"
    and le: "\<And>p. prev = Some p \<Longrightarrow> rev_created p \<le> rev_created r"
    by (auto split: if_splits option.splits)
  from Cons.IH [OF rest] le show ?case by fastforce
qed

text \<open>Accepting a longer lineage means accepting every prefix of it.\<close>

lemma lineage_loop_append:
  "lineage_loop redact seen prev (xs @ ys) = Inr () \<Longrightarrow> lineage_loop redact seen prev xs = Inr ()"
  by (induction xs arbitrary: seen prev) (auto split: if_splits)

lemma set_decisions_sel [simp]:
  "cont_pending (set_decisions p r c) = p"
  "cont_resolved (set_decisions p r c) = r"
  "cont_checkpoint (set_decisions p r c) = cont_checkpoint c"
  "cont_cursor (set_decisions p r c) = cont_cursor c"
  by (cases c; simp)+

lemma valid_agent_decisions [simp]:
  "valid_agent sha redact (c\<lparr>ac_pending_decision := p, ac_resolved_decision := r\<rparr>) = valid_agent sha redact c"
  by (cases "ac_plan_snapshot c") (simp_all add: valid_agent_def plan_binding_def)

lemma valid_continuation_set_decisions [simp]:
  "valid_continuation sha redact (set_decisions p r c) = valid_continuation sha redact c"
  by (cases c) (simp_all add: valid_outer_def)

lemma plan_lineage_set_decisions [simp]:
  "map_option ac_plan_revisions (agent_plan_continuation (set_decisions p r c)) =
   map_option ac_plan_revisions (agent_plan_continuation c)"
  by (cases c) simp_all

end
