(* ===== verification/Decision_Model.thy ===== *)
theory Decision_Model
  imports Canonical
begin

text \<open>
  \<open>models/decision.py\<close>: a governance decision request, its resolution, and the checks pydantic
  runs on them. A payload is a Python \<open>dict\<close>, represented by its items in key order, so that HOL
  equality is \<open>dict\<close> equality; no modelled code observes the insertion order.
\<close>

datatype decision_kind = KTool | KOuterLoop | KPlanReview | KGovernedApply

datatype decision_status = Pending | Resolved | Expired | Cancelled

fun kind_value :: "decision_kind \<Rightarrow> string" where
  "kind_value KTool = ''tool''"
| "kind_value KOuterLoop = ''outer_loop''"
| "kind_value KPlanReview = ''plan_review''"
| "kind_value KGovernedApply = ''governed_apply''"

fun status_value :: "decision_status \<Rightarrow> string" where
  "status_value Pending = ''pending''"
| "status_value Resolved = ''resolved''"
| "status_value Expired = ''expired''"
| "status_value Cancelled = ''cancelled''"

type_synonym payload = "(string \<times> json) list"

record decision_request =
  dq_id :: string
  dq_schema_version :: int
  dq_kind :: decision_kind
  dq_edict :: string
  dq_memorial :: string
  dq_key :: string
  dq_payload :: payload
  dq_payload_hash :: string
  dq_requested_by :: string
  dq_expires :: instant
  dq_status :: decision_status
  dq_version :: int
  dq_created :: instant
  dq_updated :: instant

record decision_resolution =
  dr_id :: string
  dr_action :: string
  dr_reason :: string
  dr_payload :: payload
  dr_actor_id :: string
  dr_actor_name :: string
  dr_at :: instant

record request_decision_command =
  rc_kind :: decision_kind
  rc_edict :: string
  rc_memorial :: string
  rc_key :: string
  rc_payload :: payload
  rc_expires :: instant

record resolve_decision_command =
  vc_action :: string
  vc_reason :: string
  vc_payload :: payload
  vc_expected_version :: int

record decision_record =
  rec_request :: decision_request
  rec_resolution :: "decision_resolution option"

text \<open>\<open>DecisionRequestV1\<close>: field constraints and \<open>validate_integrity\<close>.\<close>

definition valid_decision_request :: "(string \<Rightarrow> string) \<Rightarrow> decision_request \<Rightarrow> bool" where
  "valid_decision_request sha r =
     (\<not> blank (dq_id r) \<and> dq_schema_version r = 1 \<and> \<not> blank (dq_edict r) \<and>
      \<not> blank (dq_memorial r) \<and> \<not> blank (dq_key r) \<and> \<not> blank (dq_requested_by r) \<and>
      hex64 (dq_payload_hash r) \<and> 1 \<le> dq_version r \<and>
      canonical_sha256 sha (JObj (dq_payload r)) = Inr (dq_payload_hash r) \<and>
      dq_created r \<le> dq_updated r \<and>
      dq_created r < dq_expires r)"

definition valid_decision_resolution :: "decision_resolution \<Rightarrow> bool" where
  "valid_decision_resolution v =
     (\<not> blank (dr_id v) \<and> \<not> blank (dr_action v) \<and> \<not> blank (dr_reason v) \<and>
      \<not> blank (dr_actor_id v) \<and> \<not> blank (dr_actor_name v))"

definition valid_request_command :: "request_decision_command \<Rightarrow> bool" where
  "valid_request_command c =
     (\<not> blank (rc_edict c) \<and> \<not> blank (rc_memorial c) \<and> \<not> blank (rc_key c))"

definition valid_resolve_command :: "resolve_decision_command \<Rightarrow> bool" where
  "valid_resolve_command c =
     (\<not> blank (vc_action c) \<and> \<not> blank (vc_reason c) \<and> 1 \<le> vc_expected_version c)"

section \<open>Payloads of the actions\<close>

text \<open>
  The strict payload models: no field beyond the declared ones, \<open>schema_version\<close> present and 1,
  an optional field absent or of its type.
\<close>

definition only_keys :: "string list \<Rightarrow> payload \<Rightarrow> bool" where
  "only_keys allowed p = list_all (\<lambda>(k, v). k \<in> set allowed) p"

definition optional_field :: "payload \<Rightarrow> string \<Rightarrow> (json \<Rightarrow> bool) \<Rightarrow> bool" where
  "optional_field p k ok = (case map_of p k of None \<Rightarrow> True | Some v \<Rightarrow> ok v)"

definition required_field :: "payload \<Rightarrow> string \<Rightarrow> (json \<Rightarrow> bool) \<Rightarrow> bool" where
  "required_field p k ok = (case map_of p k of None \<Rightarrow> False | Some v \<Rightarrow> ok v)"

fun json_scope_or_none :: "json \<Rightarrow> bool" where
  "json_scope_or_none JNull = True"
| "json_scope_or_none (JStr s) = (s \<in> {''once'', ''edict'', ''always''})"
| "json_scope_or_none _ = False"

fun json_text_or_none :: "json \<Rightarrow> bool" where
  "json_text_or_none JNull = True"
| "json_text_or_none (JStr s) = True"
| "json_text_or_none _ = False"

fun json_bool :: "json \<Rightarrow> bool" where
  "json_bool (JBool b) = True"
| "json_bool _ = False"

fun json_nonblank :: "json \<Rightarrow> bool" where
  "json_nonblank (JStr s) = (\<not> blank s)"
| "json_nonblank _ = False"

fun json_object :: "json \<Rightarrow> bool" where
  "json_object (JObj kvs) = True"
| "json_object _ = False"

definition versioned_payload :: "string list \<Rightarrow> payload \<Rightarrow> bool" where
  "versioned_payload names p =
     (only_keys (''schema_version'' # names) p \<and>
      required_field p ''schema_version'' (\<lambda>v. v = JInt 1))"

definition tool_approve_payload :: "payload \<Rightarrow> bool" where
  "tool_approve_payload p =
     (versioned_payload [''grant_scope'', ''grant_reason'', ''requested_grant_scope'',
                         ''grant_downgraded'', ''grant_downgrade_reason''] p \<and>
      optional_field p ''grant_scope'' json_scope_or_none \<and>
      optional_field p ''grant_reason'' json_text_or_none \<and>
      optional_field p ''requested_grant_scope'' json_scope_or_none \<and>
      optional_field p ''grant_downgraded'' json_bool \<and>
      optional_field p ''grant_downgrade_reason'' json_text_or_none)"

definition tool_guide_payload :: "payload \<Rightarrow> bool" where
  "tool_guide_payload p =
     (versioned_payload [''guidance''] p \<and> required_field p ''guidance'' json_nonblank)"

definition outer_continue_payload :: "payload \<Rightarrow> bool" where
  "outer_continue_payload p =
     (versioned_payload [''feedback''] p \<and> optional_field p ''feedback'' json_text_or_none)"

definition outer_modify_acceptance_payload :: "payload \<Rightarrow> bool" where
  "outer_modify_acceptance_payload p =
     (versioned_payload [''acceptance''] p \<and> required_field p ''acceptance'' json_object)"

text \<open>\<open>_ACTION_PAYLOAD_MODELS\<close>: the payload model of a kind and an action, or none.\<close>

definition action_payload_model :: "decision_kind \<Rightarrow> string \<Rightarrow> (payload \<Rightarrow> bool) option" where
  "action_payload_model kind action =
     (case kind of
        KTool \<Rightarrow>
          if action = ''approve'' then Some tool_approve_payload
          else if action = ''reject'' then Some (versioned_payload [])
          else if action = ''guide'' then Some tool_guide_payload
          else None
      | KOuterLoop \<Rightarrow>
          if action = ''continue'' then Some outer_continue_payload
          else if action = ''accept_as_is'' then Some (versioned_payload [])
          else if action = ''abort'' then Some (versioned_payload [])
          else if action = ''modify_acceptance'' then Some outer_modify_acceptance_payload
          else None
      | _ \<Rightarrow>
          if action = ''approve'' then Some (versioned_payload [])
          else if action = ''reject'' then Some (versioned_payload [])
          else None)"

definition validate_resolution_payload :: "decision_kind \<Rightarrow> string \<Rightarrow> payload \<Rightarrow> unit result" where
  "validate_resolution_payload kind action p =
     (case action_payload_model kind action of
        None \<Rightarrow> Inl (ValueError ''unsupported action for decision kind'')
      | Some ok \<Rightarrow> if ok p then Inr () else Inl (ValueError ''resolution payload is invalid''))"

text \<open>\<open>DecisionRecordV1.validate_resolution_identity\<close>.\<close>

definition valid_decision_record :: "decision_record \<Rightarrow> bool" where
  "valid_decision_record d =
     ((dq_status (rec_request d) = Resolved \<longleftrightarrow> rec_resolution d \<noteq> None) \<and>
      (case rec_resolution d of
         None \<Rightarrow> True
       | Some v \<Rightarrow> dr_id v = dq_id (rec_request d) \<and>
                   validate_resolution_payload (dq_kind (rec_request d)) (dr_action v) (dr_payload v) = Inr ()))"

lemma validate_resolution_payload_error:
  "validate_resolution_payload k a p = Inl e \<Longrightarrow> \<exists>m. e = ValueError m"
  by (auto simp: validate_resolution_payload_def split: option.splits if_splits)

text \<open>A governed apply can only be approved or rejected.\<close>

lemma governed_apply_actions:
  "validate_resolution_payload KGovernedApply a p = Inr () \<Longrightarrow> a \<in> {''approve'', ''reject''}"
  by (auto simp: validate_resolution_payload_def action_payload_model_def split: if_splits option.splits)

end
