(* ===== verification/Side_Effect_Model.thy ===== *)
theory Side_Effect_Model
  imports Canonical
begin

text \<open>
  \<open>models/side_effect.py\<close>: the intent a run journals before a managed side effect, the receipt it
  journals after it, and their stable identity. \<open>sensitive\<close> stands for
  \<open>security/sensitive_payload.py\<close>'s \<open>contains_raw_sensitive_payload\<close>.
\<close>

datatype side_effect_semantics =
    ProviderIdempotent | ReceiptLookup | WorkspaceOnly | UntrackedExternal | OpaqueCli

datatype side_effect_status = Intended | Receipted | Uncertain

fun semantics_value :: "side_effect_semantics \<Rightarrow> string" where
  "semantics_value ProviderIdempotent = ''provider_idempotent''"
| "semantics_value ReceiptLookup = ''receipt_lookup''"
| "semantics_value WorkspaceOnly = ''workspace_only''"
| "semantics_value UntrackedExternal = ''untracked_external''"
| "semantics_value OpaqueCli = ''opaque_cli''"

definition supported_provider_semantics :: "side_effect_semantics \<Rightarrow> bool" where
  "supported_provider_semantics s = (s \<in> {ProviderIdempotent, ReceiptLookup})"

record side_effect_intent =
  in_id :: string
  in_effect :: string
  in_schema_version :: int
  in_edict :: string
  in_memorial :: string
  in_attempt :: string
  in_owner :: string
  in_fence :: int
  in_sequence :: int
  in_boundary :: string
  in_operation :: string
  in_semantics :: side_effect_semantics
  in_provider_key :: "string option"
  in_metadata :: "(string \<times> json) list"
  in_request_hash :: string
  in_intent_hash :: string
  in_status :: side_effect_status
  in_reason :: "string option"
  in_version :: int
  in_created :: instant
  in_updated :: instant

record side_effect_receipt =
  rt_intent :: string
  rt_effect :: string
  rt_schema_version :: int
  rt_edict :: string
  rt_memorial :: string
  rt_attempt :: string
  rt_owner :: string
  rt_fence :: int
  rt_provider_receipt :: string
  rt_metadata :: "(string \<times> json) list"
  rt_result_hash :: string
  rt_version :: int
  rt_effective :: instant
  rt_recorded :: instant

section \<open>Metadata\<close>

text \<open>\<open>_validate_metadata_shape\<close>, at the depth of the value.\<close>

fun metadata_shape :: "nat \<Rightarrow> json \<Rightarrow> bool" where
  "metadata_shape d (JStr s) = (d \<le> 4 \<and> length s \<le> 4096)"
| "metadata_shape d (JList vs) =
     (d \<le> 4 \<and> length vs \<le> 64 \<and> (\<forall>v \<in> set vs. metadata_shape (Suc d) v))"
| "metadata_shape d (JObj kvs) =
     (d \<le> 4 \<and> length kvs \<le> 32 \<and>
      (\<forall>kv \<in> set kvs. length (fst kv) \<le> 4096 \<and> metadata_shape (Suc d) (snd kv)))"
| "metadata_shape d _ = (d \<le> 4)"

definition safe_metadata :: "(json \<Rightarrow> bool) \<Rightarrow> (string \<times> json) list \<Rightarrow> bool" where
  "safe_metadata sensitive m =
     (\<not> sensitive (JObj m) \<and>
      (case canonical_json_bytes (JObj m) of Inl e \<Rightarrow> False | Inr b \<Rightarrow> length b \<le> 16384) \<and>
      metadata_shape 0 (JObj m))"

section \<open>Identity\<close>

definition identity_payload ::
  "string \<Rightarrow> string \<Rightarrow> string \<Rightarrow> int \<Rightarrow> string \<Rightarrow> string \<Rightarrow> side_effect_semantics \<Rightarrow> string \<Rightarrow> json" where
  "identity_payload effect_id edict_id memorial_id sequence_no boundary operation semantics request_hash =
     JObj [(''effect_id'', JStr effect_id), (''edict_id'', JStr edict_id),
           (''memorial_id'', JStr memorial_id), (''sequence_no'', JInt sequence_no),
           (''boundary'', JStr boundary), (''operation'', JStr operation),
           (''semantics'', JStr (semantics_value semantics)), (''request_hash'', JStr request_hash)]"

definition json_opt_str :: "string option \<Rightarrow> json" where
  "json_opt_str v = (case v of None \<Rightarrow> JNull | Some s \<Rightarrow> JStr s)"

definition intent_payload ::
  "string \<Rightarrow> string \<Rightarrow> string \<Rightarrow> string \<Rightarrow> string \<Rightarrow> string \<Rightarrow> int \<Rightarrow> int \<Rightarrow> string \<Rightarrow> string \<Rightarrow>
   side_effect_semantics \<Rightarrow> string \<Rightarrow> string option \<Rightarrow> json" where
  "intent_payload intent_id effect_id edict_id memorial_id attempt_id owner_id fencing_token
       sequence_no boundary operation semantics request_hash provider_key =
     JObj [(''intent_id'', JStr intent_id), (''effect_id'', JStr effect_id),
           (''edict_id'', JStr edict_id), (''memorial_id'', JStr memorial_id),
           (''attempt_id'', JStr attempt_id), (''owner_id'', JStr owner_id),
           (''fencing_token'', JInt fencing_token), (''sequence_no'', JInt sequence_no),
           (''boundary'', JStr boundary), (''operation'', JStr operation),
           (''semantics'', JStr (semantics_value semantics)), (''request_hash'', JStr request_hash),
           (''provider_idempotency_key'', json_opt_str provider_key)]"

definition intent_identity :: "side_effect_intent \<Rightarrow> json" where
  "intent_identity i =
     identity_payload (in_effect i) (in_edict i) (in_memorial i) (in_sequence i) (in_boundary i)
       (in_operation i) (in_semantics i) (in_request_hash i)"

definition intent_envelope :: "side_effect_intent \<Rightarrow> json" where
  "intent_envelope i =
     intent_payload (in_id i) (in_effect i) (in_edict i) (in_memorial i) (in_attempt i) (in_owner i)
       (in_fence i) (in_sequence i) (in_boundary i) (in_operation i) (in_semantics i)
       (in_request_hash i) (in_provider_key i)"

text \<open>\<open>SideEffectIntentV1\<close>: field constraints and \<open>validate_integrity\<close>.\<close>

definition valid_intent :: "(string \<Rightarrow> string) \<Rightarrow> (json \<Rightarrow> bool) \<Rightarrow> side_effect_intent \<Rightarrow> bool" where
  "valid_intent sha sensitive i =
     (hex64 (in_id i) \<and> in_schema_version i = 1 \<and> \<not> blank (in_effect i) \<and> \<not> blank (in_edict i) \<and>
      \<not> blank (in_memorial i) \<and> \<not> blank (in_attempt i) \<and> \<not> blank (in_owner i) \<and>
      1 \<le> in_fence i \<and> 0 \<le> in_sequence i \<and> \<not> blank (in_boundary i) \<and> \<not> blank (in_operation i) \<and>
      opt_nonblank (in_provider_key i) \<and> opt_nonblank (in_reason i) \<and>
      safe_metadata sensitive (in_metadata i) \<and> hex64 (in_request_hash i) \<and>
      hex64 (in_intent_hash i) \<and> 1 \<le> in_version i \<and>
      in_created i \<le> in_updated i \<and>
      canonical_sha256 sha (JObj (in_metadata i)) = Inr (in_request_hash i) \<and>
      canonical_sha256 sha (intent_identity i) = Inr (in_id i) \<and>
      (if supported_provider_semantics (in_semantics i) then in_provider_key i = Some (in_id i)
       else in_provider_key i = None) \<and>
      canonical_sha256 sha (intent_envelope i) = Inr (in_intent_hash i) \<and>
      (in_status i = Uncertain \<longleftrightarrow> in_reason i \<noteq> None))"

text \<open>\<open>SideEffectReceiptV1\<close>; its \<open>status\<close> and \<open>reason_code\<close> are the constants of the type.\<close>

definition valid_receipt :: "(string \<Rightarrow> string) \<Rightarrow> (json \<Rightarrow> bool) \<Rightarrow> side_effect_receipt \<Rightarrow> bool" where
  "valid_receipt sha sensitive r =
     (hex64 (rt_intent r) \<and> rt_schema_version r = 1 \<and> \<not> blank (rt_effect r) \<and> \<not> blank (rt_edict r) \<and>
      \<not> blank (rt_memorial r) \<and> \<not> blank (rt_attempt r) \<and> \<not> blank (rt_owner r) \<and>
      1 \<le> rt_fence r \<and> \<not> blank (rt_provider_receipt r) \<and>
      safe_metadata sensitive (rt_metadata r) \<and> hex64 (rt_result_hash r) \<and> 2 \<le> rt_version r \<and>
      canonical_sha256 sha (JObj (rt_metadata r)) = Inr (rt_result_hash r) \<and>
      rt_effective r \<le> rt_recorded r)"

section \<open>Building an intent\<close>

definition build_side_effect_intent ::
  "(string \<Rightarrow> string) \<Rightarrow> (json \<Rightarrow> bool) \<Rightarrow> string \<Rightarrow> string \<Rightarrow> string \<Rightarrow> string \<Rightarrow> string \<Rightarrow> int \<Rightarrow> int \<Rightarrow>
   string \<Rightarrow> string \<Rightarrow> side_effect_semantics \<Rightarrow> (string \<times> json) list \<Rightarrow> instant \<Rightarrow> string option \<Rightarrow>
   side_effect_intent result" where
  "build_side_effect_intent sha sensitive effect_id edict_id memorial_id attempt_id owner_id
       fencing_token sequence_no boundary operation semantics metadata created_at provider_key =
     and_then (canonical_sha256 sha (JObj metadata)) (\<lambda>request_hash.
     and_then (canonical_sha256 sha
        (identity_payload effect_id edict_id memorial_id sequence_no boundary operation semantics
           request_hash)) (\<lambda>intent_id.
       if supported_provider_semantics semantics \<and> provider_key \<noteq> None \<and> provider_key \<noteq> Some intent_id
       then Inl (ValueError ''provider idempotency key must equal the stable intent identity'')
       else
         let key = (if supported_provider_semantics semantics then Some intent_id else provider_key)
         in and_then (canonical_sha256 sha
              (intent_payload intent_id effect_id edict_id memorial_id attempt_id owner_id fencing_token
                 sequence_no boundary operation semantics request_hash key)) (\<lambda>intent_hash.
            let i = \<lparr>in_id = intent_id, in_effect = effect_id, in_schema_version = 1,
                     in_edict = edict_id, in_memorial = memorial_id, in_attempt = attempt_id,
                     in_owner = owner_id, in_fence = fencing_token, in_sequence = sequence_no,
                     in_boundary = boundary, in_operation = operation, in_semantics = semantics,
                     in_provider_key = key, in_metadata = metadata, in_request_hash = request_hash,
                     in_intent_hash = intent_hash, in_status = Intended, in_reason = None,
                     in_version = 1, in_created = created_at, in_updated = created_at\<rparr>
            in if valid_intent sha sensitive i then Inr i
               else Inl (ValueError ''side-effect intent is invalid''))))"

lemma built_intent_valid:
  assumes "build_side_effect_intent sha sensitive e ed m a ow f n b op sem md t k = Inr i"
  shows "valid_intent sha sensitive i \<and> in_status i = Intended \<and> in_version i = 1 \<and>
         in_effect i = e \<and> in_memorial i = m \<and> in_sequence i = n \<and> in_attempt i = a \<and>
         in_owner i = ow \<and> in_fence i = f \<and> in_edict i = ed \<and> in_metadata i = md \<and> in_created i = t"
  using assms by (auto simp: build_side_effect_intent_def Let_def split: if_splits)

text \<open>
  The identity of an intent does not depend on who runs it: another attempt, owner or fence, at
  another time, builds the same intent id for the same effect.
\<close>

lemma intent_id_authority_free:
  assumes "build_side_effect_intent sha sensitive e ed m a ow f n b op sem md t k = Inr i"
    and "build_side_effect_intent sha sensitive e ed m a' ow' f' n b op sem md t' k' = Inr j"
  shows "in_id j = in_id i"
  using assms by (auto simp: build_side_effect_intent_def Let_def split: if_splits)

text \<open>The receipt and uncertainty transitions keep the intent's identity fields and hashes.\<close>

lemma identity_of_transition [simp]:
  "intent_identity (i\<lparr>in_status := s, in_reason := r, in_version := v, in_updated := t\<rparr>) = intent_identity i"
  "intent_envelope (i\<lparr>in_status := s, in_reason := r, in_version := v, in_updated := t\<rparr>) = intent_envelope i"
  by (simp_all add: intent_identity_def intent_envelope_def)

end
