(* ===== verification/System_Audit.thy ===== *)
theory System_Audit
  imports Canonical
begin

text \<open>
  \<open>models/system_audit.py\<close> and \<open>storage/system_audit_repo.py\<close>: the append-only, hash-chained log of
  system decisions. A row holds the value its \<open>metadata_json\<close> text decodes to and the text of its
  \<open>created_at\<close>; the hash covers the canonical text of the former and the latter as it is. \<open>sha\<close> stands
  for SHA-256; an event is the decoded row.
\<close>

type_synonym audit_metadata = "(string \<times> json) list"

record audit_row =
  au_sequence :: int
  au_id :: string
  au_schema_version :: string
  au_correlation :: string
  au_actor :: string
  au_action :: string
  au_outcome :: string
  au_reason :: string
  au_subject_kind :: string
  au_subject :: string
  au_metadata :: audit_metadata
  au_previous :: string
  au_hash :: string
  au_created :: string

record audit_request =
  ar_correlation :: string
  ar_actor :: string
  ar_action :: string
  ar_outcome :: string
  ar_reason :: string
  ar_subject_kind :: string
  ar_subject :: string
  ar_metadata :: audit_metadata

record audit_verification =
  av_verified :: bool
  av_count :: nat
  av_start :: "int option"
  av_end :: "int option"
  av_terminal :: string
  av_failure :: "int option"
  av_reason :: string

record audit_export =
  ax_start :: "int option"
  ax_end :: "int option"
  ax_terminal :: string
  ax_events :: "audit_row list"

definition genesis :: string where
  "genesis = replicate 64 (CHR ''0'')"

section \<open>Requests\<close>

text \<open>\<open>SYSTEM_AUDIT_METADATA_KEYS\<close>.\<close>

definition audit_metadata_keys :: "(string \<times> string list) list" where
  "audit_metadata_keys =
     [(''evolution.gate.evaluated'', [''blocking_gate_count'', ''gate_snapshot_version'']),
      (''evolution.promotion.start_canary'', []),
      (''evolution.promotion.promote'', []),
      (''evolution.promotion.rollback'', []),
      (''skill.candidate.proposed'', [''candidate_version'', ''source_channel'']),
      (''skill.candidate.staged'', [''candidate_version'', ''source_channel'']),
      (''auth.token.issued'', [''scope_count'', ''token_type'']),
      (''auth.token.rotated'', [''scope_count'', ''token_type'']),
      (''auth.token.revoked'', [''family_size'', ''token_type'']),
      (''auth.session.denied'', [''token_type'']),
      (''auth.session.rotated'', [''family_size'']),
      (''auth.session.revoked'', [''family_size'']),
      (''estop.engaged'', [''frozen_tool_count'', ''kill_all'', ''network_kill'']),
      (''estop.resumed'', [''frozen_tool_count'', ''kill_all'', ''network_kill'']),
      (''mcp.admission.denied'', []),
      (''mcp.config.created'', []),
      (''mcp.config.updated'', []),
      (''mcp.config.deleted'', []),
      (''policy.session_rule_created'', []),
      (''policy.session_rule_revoked'', []),
      (''secrets.master_key.rotated'', []),
      (''decision.request.denied'', [''kind'']),
      (''decision.resolve.denied'', [''actual_version'', ''expected_version'', ''kind'', ''status'']),
      (''notification.delivery.retry_scheduled'', [''attempt_count'', ''deadline_expired'', ''max_attempts'']),
      (''notification.delivery.dead_lettered'', [''attempt_count'', ''deadline_expired'', ''max_attempts'']),
      (''notification.delivery.delivered'', [''attempt_count'', ''deadline_expired'', ''max_attempts''])]"

fun json_nat :: "json \<Rightarrow> bool" where
  "json_nat (JInt i) = (0 \<le> i)"
| "json_nat _ = False"

fun json_is_bool :: "json \<Rightarrow> bool" where
  "json_is_bool (JBool b) = True"
| "json_is_bool _ = False"

fun json_one_of :: "string list \<Rightarrow> json \<Rightarrow> bool" where
  "json_one_of texts (JStr s) = (s \<in> set texts)"
| "json_one_of texts _ = False"

fun exact_primitive :: "json \<Rightarrow> bool" where
  "exact_primitive (JFloat t) = False"
| "exact_primitive (JList vs) = False"
| "exact_primitive (JObj kvs) = False"
| "exact_primitive _ = True"

text \<open>\<open>_validate_metadata_value\<close>; a key it does not mention accepts any primitive value.\<close>

definition metadata_value_ok :: "string \<Rightarrow> json \<Rightarrow> bool" where
  "metadata_value_ok k v =
     (if k = ''token_type'' then json_one_of [''pat'', ''access'', ''refresh''] v
      else if k \<in> {''blocking_gate_count'', ''candidate_version'', ''family_size'', ''frozen_tool_count'',
                   ''gate_snapshot_version'', ''scope_count'', ''attempt_count'', ''max_attempts'',
                   ''actual_version'', ''expected_version''} then json_nat v
      else if k \<in> {''deadline_expired'', ''kill_all'', ''network_kill''} then json_is_bool v
      else if k = ''kind'' then json_one_of [''tool'', ''outer_loop'', ''plan_review'', ''governed_apply''] v
      else if k = ''status''
      then json_one_of [''pending'', ''resolved'', ''expired'', ''cancelled'', ''missing''] v
      else True)"

definition audit_outcome :: "string \<Rightarrow> bool" where
  "audit_outcome s = (s \<in> {''allowed'', ''denied'', ''succeeded'', ''failed''})"

definition valid_audit_request :: "audit_request \<Rightarrow> bool" where
  "valid_audit_request r =
     (is_identifier (ar_correlation r) \<and> hex64 (ar_actor r) \<and> hex64 (ar_subject r) \<and>
      audit_outcome (ar_outcome r) \<and> is_stable_code (ar_reason r) \<and> is_stable_code (ar_subject_kind r) \<and>
      list_all (\<lambda>(k, v). exact_primitive v) (ar_metadata r) \<and>
      (case map_of audit_metadata_keys (ar_action r) of
         None \<Rightarrow> False
       | Some allowed \<Rightarrow>
           list_all (\<lambda>(k, v). k \<in> set allowed) (ar_metadata r) \<and>
           list_all (\<lambda>(k, v). metadata_value_ok k v) (ar_metadata r)))"

section \<open>Hashes and the validation of one row\<close>

text \<open>\<open>_row_hash_payload\<close> and \<open>hash_system_audit_payload\<close>.\<close>

definition hash_payload :: "audit_row \<Rightarrow> json" where
  "hash_payload r =
     JObj [(''sequence'', JInt (au_sequence r)), (''id'', JStr (au_id r)),
           (''schema_version'', JStr (au_schema_version r)),
           (''correlation_id'', JStr (au_correlation r)), (''actor_digest'', JStr (au_actor r)),
           (''action'', JStr (au_action r)), (''outcome'', JStr (au_outcome r)),
           (''reason_code'', JStr (au_reason r)), (''subject_kind'', JStr (au_subject_kind r)),
           (''subject_digest'', JStr (au_subject r)),
           (''metadata_json'', JStr (dumps (JObj (au_metadata r)))),
           (''previous_hash'', JStr (au_previous r)), (''created_at'', JStr (au_created r))]"

definition payload_text :: "audit_row \<Rightarrow> string" where
  "payload_text r = utf8 (dumps (hash_payload r))"

definition row_hash :: "(string \<Rightarrow> string) \<Rightarrow> audit_row \<Rightarrow> string" where
  "row_hash sha r = sha (payload_text r)"

text \<open>\<open>_row_to_event\<close>: the strict model of an event.\<close>

definition valid_event :: "audit_row \<Rightarrow> bool" where
  "valid_event r =
     (au_schema_version r = ''1'' \<and> 1 \<le> au_sequence r \<and> audit_outcome (au_outcome r) \<and>
      list_all (\<lambda>(k, v). exact_primitive v) (au_metadata r) \<and>
      hex64 (au_actor r) \<and> hex64 (au_subject r) \<and> hex64 (au_previous r) \<and> hex64 (au_hash r))"

definition validate_row ::
  "(string \<Rightarrow> string) \<Rightarrow> int \<Rightarrow> string option \<Rightarrow> audit_row \<Rightarrow> audit_row result" where
  "validate_row sha expected_sequence expected_previous row =
     (if au_sequence row \<noteq> expected_sequence
      then Inl (SystemAuditIntegrityError ''sequence_gap'' expected_sequence)
      else if expected_previous \<noteq> None \<and> au_previous row \<noteq> the expected_previous
      then Inl (SystemAuditIntegrityError ''previous_hash_mismatch'' (au_sequence row))
      else if au_hash row \<noteq> row_hash sha row
      then Inl (SystemAuditIntegrityError ''event_hash_mismatch'' (au_sequence row))
      else if \<not> valid_event row
      then Inl (SystemAuditIntegrityError ''row_invalid'' (au_sequence row))
      else Inr row)"

section \<open>Verification\<close>

text \<open>The loop over the rows: the events before the first failure, and the failure.\<close>

fun verification_loop ::
  "(string \<Rightarrow> string) \<Rightarrow> int \<Rightarrow> string \<Rightarrow> audit_row list \<Rightarrow> (string \<times> int) option \<times> audit_row list" where
  "verification_loop sha n prev [] = (None, [])"
| "verification_loop sha n prev (row # rows) =
     (case validate_row sha n (Some prev) row of
        Inl (SystemAuditIntegrityError reason at) \<Rightarrow> (Some (reason, at), [])
      | Inl e \<Rightarrow> (Some (''row_invalid'', n), [])
      | Inr event \<Rightarrow>
          (let (failure, events) = verification_loop sha (n + 1) (au_hash event) rows
           in (failure, event # events)))"

definition last_event :: "('e \<Rightarrow> 'a) \<Rightarrow> 'a \<Rightarrow> 'e list \<Rightarrow> 'a" where
  "last_event f d events = (if events = [] then d else f (last events))"

definition verification ::
  "(string \<Rightarrow> string) \<Rightarrow> audit_row list \<Rightarrow> audit_verification \<times> audit_row list" where
  "verification sha rows =
     (case verification_loop sha 1 genesis rows of
        (Some (reason, at), events) \<Rightarrow>
          (\<lparr>av_verified = False, av_count = length events,
             av_start = (if rows = [] then None else Some 1),
             av_end = last_event (Some \<circ> au_sequence) None events,
             av_terminal = last_event au_hash genesis events,
             av_failure = Some at, av_reason = reason\<rparr>, events)
      | (None, events) \<Rightarrow>
          (\<lparr>av_verified = True, av_count = length events,
             av_start = (if events = [] then None else Some (au_sequence (hd events))),
             av_end = last_event (Some \<circ> au_sequence) None events,
             av_terminal = last_event au_hash genesis events,
             av_failure = None, av_reason = ''verified''\<rparr>, events))"

definition by_sequence :: "audit_row list \<Rightarrow> audit_row list" where
  "by_sequence rows = select_ordered (\<lambda>_. True) au_sequence rows"

definition verify_system_audit :: "(string \<Rightarrow> string) \<Rightarrow> audit_row list \<Rightarrow> audit_verification" where
  "verify_system_audit sha rows = fst (verification sha (by_sequence rows))"

definition raise_unverified :: "audit_verification \<Rightarrow> unit result" where
  "raise_unverified v =
     (if av_verified v then Inr ()
      else Inl (SystemAuditIntegrityError (av_reason v)
             (case av_failure v of None \<Rightarrow> 1 | Some n \<Rightarrow> if n = 0 then 1 else n)))"

definition export_system_audit :: "(string \<Rightarrow> string) \<Rightarrow> audit_row list \<Rightarrow> audit_export result" where
  "export_system_audit sha rows =
     (case verification sha (by_sequence rows) of
        (v, events) \<Rightarrow> and_then (raise_unverified v) (\<lambda>_.
          Inr \<lparr>ax_start = av_start v, ax_end = av_end v, ax_terminal = av_terminal v, ax_events = events\<rparr>))"

text \<open>The loop at the end of \<open>list_system_audit\<close>, which raises at the first bad row.\<close>

fun list_loop ::
  "(string \<Rightarrow> string) \<Rightarrow> int \<Rightarrow> string \<Rightarrow> audit_row list \<Rightarrow> audit_row list result" where
  "list_loop sha n prev [] = Inr []"
| "list_loop sha n prev (row # rows) =
     and_then (validate_row sha n (Some prev) row) (\<lambda>event.
     and_then (list_loop sha (n + 1) (au_hash event) rows) (\<lambda>events. Inr (event # events)))"

definition list_system_audit ::
  "(string \<Rightarrow> string) \<Rightarrow> int \<Rightarrow> int \<Rightarrow> audit_row list \<Rightarrow> audit_row list result" where
  "list_system_audit sha after limit rows =
     (if after < 0 then Inl (ValueError ''after must be a non-negative integer'')
      else if \<not> (1 \<le> limit \<and> limit \<le> 1000) then Inl (ValueError ''limit must be between 1 and 1000'')
      else and_then
        (if 0 < after
         then (case verification sha (select_ordered (\<lambda>r. au_sequence r \<le> after) au_sequence rows) of
                 (v, prefix) \<Rightarrow> and_then (raise_unverified v) (\<lambda>_.
                    if prefix = [] \<or> au_sequence (last prefix) \<noteq> after
                    then Inl (SystemAuditIntegrityError ''missing_anchor'' after)
                    else Inr (au_hash (last prefix))))
         else Inr genesis) (\<lambda>previous_hash.
        list_loop sha (after + 1) previous_hash
          (take (nat limit) (select_ordered (\<lambda>r. after < au_sequence r) au_sequence rows))))"

section \<open>Append\<close>

text \<open>The constraints and the no-replace trigger of \<open>system_audit_events\<close>.\<close>

definition insert_audit :: "audit_row \<Rightarrow> audit_row list \<Rightarrow> audit_row list result" where
  "insert_audit row rows =
     (if \<exists>r \<in> set rows. au_sequence r = au_sequence row \<or> au_id r = au_id row \<or> au_hash r = au_hash row
      then Inl (IntegrityError ''system audit events are append-only'')
      else if \<not> (0 < au_sequence row \<and> au_schema_version row = ''1'' \<and> length (au_actor row) = 64 \<and>
                 audit_outcome (au_outcome row) \<and> length (au_subject row) = 64 \<and>
                 length (au_previous row) = 64 \<and> length (au_hash row) = 64)
      then Inl (IntegrityError ''CHECK constraint failed: system_audit_events'')
      else Inr (rows @ [row]))"

text \<open>
  The tail's sequence and hash, after validating the tail and its predecessor; sequence 0 and the
  genesis hash when the log is empty.
\<close>

definition validated_tail :: "(string \<Rightarrow> string) \<Rightarrow> audit_row list \<Rightarrow> (int \<times> string) result" where
  "validated_tail sha rows =
     (case first_of (rev (by_sequence rows)) of
        None \<Rightarrow> Inr (0, genesis)
      | Some tail \<Rightarrow>
          and_then
            (if au_sequence tail = 1 then Inr (Some genesis)
             else if 1 < au_sequence tail
             then (case row_by au_sequence (au_sequence tail - 1) rows of
                     None \<Rightarrow> Inl (SystemAuditIntegrityError ''sequence_gap'' (au_sequence tail - 1))
                   | Some predecessor \<Rightarrow>
                       and_then (validate_row sha (au_sequence tail - 1) None predecessor)
                         (\<lambda>event. Inr (Some (au_hash event))))
             else Inr None) (\<lambda>expected_previous.
          and_then (validate_row sha (au_sequence tail) expected_previous tail) (\<lambda>event.
            Inr (au_sequence tail, au_hash event))))"

text \<open>The row an append writes after sequence \<open>n\<close> and hash \<open>prev\<close>.\<close>

definition new_audit_row ::
  "(string \<Rightarrow> string) \<Rightarrow> string \<Rightarrow> string \<Rightarrow> audit_request \<Rightarrow> int \<Rightarrow> string \<Rightarrow> audit_row" where
  "new_audit_row sha new_id now_iso req n prev =
     (let row = \<lparr>au_sequence = n + 1, au_id = new_id, au_schema_version = ''1'',
                 au_correlation = ar_correlation req, au_actor = ar_actor req, au_action = ar_action req,
                 au_outcome = ar_outcome req, au_reason = ar_reason req,
                 au_subject_kind = ar_subject_kind req, au_subject = ar_subject req,
                 au_metadata = ar_metadata req, au_previous = prev, au_hash = [], au_created = now_iso\<rparr>
      in row\<lparr>au_hash := row_hash sha row\<rparr>)"

definition append_system_audit ::
  "(string \<Rightarrow> string) \<Rightarrow> string \<Rightarrow> string \<Rightarrow> audit_request \<Rightarrow> audit_row list \<Rightarrow>
   (audit_row \<times> audit_row list) result" where
  "append_system_audit sha new_id now_iso req rows =
     and_then (validated_tail sha rows) (\<lambda>(n, prev).
     and_then (insert_audit (new_audit_row sha new_id now_iso req n prev) rows) (\<lambda>rows'.
       case row_by au_sequence (n + 1) rows' of
         None \<Rightarrow> Inl (SystemAuditIntegrityError ''append_missing'' (n + 1))
       | Some stored \<Rightarrow>
           and_then (validate_row sha (n + 1) (Some prev) stored) (\<lambda>event. Inr (event, rows'))))"

section \<open>The chain, abstractly\<close>

text \<open>A log is a chain from sequence \<open>n\<close> and hash \<open>prev\<close>.\<close>

fun chain :: "(string \<Rightarrow> string) \<Rightarrow> int \<Rightarrow> string \<Rightarrow> audit_row list \<Rightarrow> bool" where
  "chain sha n prev [] = True"
| "chain sha n prev (r # rs) =
     (au_sequence r = n \<and> au_previous r = prev \<and> au_hash r = row_hash sha r \<and> valid_event r \<and>
      chain sha (n + 1) (au_hash r) rs)"

lemma validate_row_Inr:
  "validate_row sha n p row = Inr e \<longleftrightarrow>
     e = row \<and> au_sequence row = n \<and> (\<forall>h. p = Some h \<longrightarrow> au_previous row = h) \<and>
     au_hash row = row_hash sha row \<and> valid_event row"
  by (cases p) (simp_all add: validate_row_def eq_commute [of row e])

lemma validate_row_Inl:
  "validate_row sha n p row = Inl e \<Longrightarrow> \<exists>reason at. e = SystemAuditIntegrityError reason at"
  by (auto simp: validate_row_def split: if_splits)

lemma verification_loop_ok:
  "fst (verification_loop sha n prev rows) = None \<longleftrightarrow> chain sha n prev rows"
proof (induction rows arbitrary: n prev)
  case Nil
  then show ?case by simp
next
  case (Cons row rows)
  show ?case
  proof (cases "validate_row sha n (Some prev) row")
    case (Inl e)
    then obtain reason at where "e = SystemAuditIntegrityError reason at"
      using validate_row_Inl by blast
    moreover have "\<not> chain sha n prev (row # rows)"
      using Inl validate_row_Inr [of sha n "Some prev" row row] by auto
    ultimately show ?thesis using Inl by simp
  next
    case (Inr e)
    then have "chain sha n prev (row # rows) \<longleftrightarrow> chain sha (n + 1) (au_hash row) rows" and "e = row"
      by (simp_all add: validate_row_Inr)
    then show ?thesis
      using Inr Cons.IH [of "n + 1" "au_hash row"] by (simp add: case_prod_beta)
  qed
qed

lemma verification_loop_events:
  "chain sha n prev rows \<Longrightarrow> verification_loop sha n prev rows = (None, rows)"
proof (induction rows arbitrary: n prev)
  case (Cons row rows)
  then have "validate_row sha n (Some prev) row = Inr row"
    by (simp add: validate_row_Inr)
  moreover have "verification_loop sha (n + 1) (au_hash row) rows = (None, rows)"
    using Cons.prems unfolding chain.simps by (blast intro: Cons.IH)
  ultimately show ?case by simp
qed simp

lemma verification_verified:
  "av_verified (fst (verification sha rows)) \<longleftrightarrow> chain sha 1 genesis rows"
  unfolding verification_loop_ok [symmetric]
  by (auto simp: verification_def split: prod.splits option.splits)

lemma verification_chain:
  assumes "chain sha 1 genesis rows"
  shows "verification sha rows =
    (\<lparr>av_verified = True, av_count = length rows,
      av_start = (if rows = [] then None else Some (au_sequence (hd rows))),
      av_end = last_event (Some \<circ> au_sequence) None rows,
      av_terminal = last_event au_hash genesis rows, av_failure = None, av_reason = ''verified''\<rparr>, rows)"
  using verification_loop_events [OF assms] by (simp add: verification_def)

lemma chain_append:
  "chain sha n prev (xs @ ys) \<longleftrightarrow>
     chain sha n prev xs \<and> chain sha (n + int (length xs)) (last_event au_hash prev xs) ys"
  by (induction xs arbitrary: n prev) (auto simp: last_event_def algebra_simps)

lemma chain_sequence:
  assumes "chain sha n prev rows" and "i < length rows"
  shows "au_sequence (rows ! i) = n + int i"
  using assms
proof (induction rows arbitrary: n prev i)
  case (Cons r rs)
  then show ?case by (cases i) auto
qed simp

lemma chain_sequence_set:
  "chain sha n prev rows \<Longrightarrow> r \<in> set rows \<Longrightarrow> n \<le> au_sequence r \<and> au_sequence r < n + int (length rows)"
  by (auto simp: in_set_conv_nth chain_sequence)

lemma chain_sorted: "chain sha n prev rows \<Longrightarrow> sorted (map au_sequence rows)"
  by (auto simp: sorted_iff_nth_mono chain_sequence)

lemma chain_by_sequence [simp]: "chain sha n prev rows \<Longrightarrow> by_sequence rows = rows"
  by (simp add: by_sequence_def select_ordered_def sort_key_id_if_sorted chain_sorted)

lemma chain_tail_previous:
  assumes "chain sha n prev (rs @ [p, t])"
  shows "au_previous t = au_hash p \<and> au_sequence p = au_sequence t - 1"
  using assms by (auto simp: chain_append)

lemma chain_last:
  assumes "chain sha n prev rows" and "rows \<noteq> []"
  shows "au_sequence (last rows) = n + int (length rows) - 1"
    and "au_hash (last rows) = row_hash sha (last rows)" and "valid_event (last rows)"
proof -
  obtain rs t where rows: "rows = rs @ [t]" using assms(2) by (metis rev_exhaust)
  show "au_sequence (last rows) = n + int (length rows) - 1"
    and "au_hash (last rows) = row_hash sha (last rows)" and "valid_event (last rows)"
    using assms(1) by (auto simp: rows chain_append)
qed

text \<open>On a chain the tail validates, and the append continues from it.\<close>

lemma chain_row_by:
  assumes "chain sha n prev rows" and "r \<in> set rows"
  shows "row_by au_sequence (au_sequence r) rows = Some r"
proof (rule row_by_unique)
  show "distinct (map au_sequence rows)"
    using assms(1) by (auto simp: distinct_conv_nth chain_sequence)
qed (use assms(2) in simp_all)

lemma validated_tail_chain:
  assumes c: "chain sha 1 genesis rows"
  shows "validated_tail sha rows = Inr (int (length rows), last_event au_hash genesis rows)"
proof (cases rows rule: rev_exhaust)
  case Nil
  then show ?thesis
    by (simp add: validated_tail_def first_of_def last_event_def by_sequence_def select_ordered_def)
next
  case (snoc rs t)
  with c have t: "au_sequence t = 1 + int (length rs)" "au_hash t = row_hash sha t" "valid_event t"
    "au_previous t = last_event au_hash genesis rs"
    by (auto simp: chain_append)
  have tail: "first_of (rev (by_sequence rows)) = Some t"
    using chain_by_sequence [OF c] snoc by (simp add: first_of_def)
  show ?thesis
  proof (cases rs rule: rev_exhaust)
    case Nil
    with tail t snoc show ?thesis
      by (simp add: validated_tail_def validate_row_def last_event_def)
  next
    case (snoc rs' p)
    have p: "p \<in> set rows" using snoc \<open>rows = rs @ [t]\<close> by simp
    from c \<open>rows = rs @ [t]\<close> snoc
    have pv: "au_sequence p = int (length rs)" "au_hash p = row_hash sha p" "valid_event p"
      and "au_previous t = au_hash p"
      by (auto simp: chain_append last_event_def)
    moreover have "row_by au_sequence (int (length rs)) rows = Some p"
      using chain_row_by [OF c p] pv(1) by simp
    ultimately show ?thesis
      using tail t snoc \<open>rows = rs @ [t]\<close>
      by (simp add: validated_tail_def validate_row_def last_event_def)
  qed
qed

lemma append_chain:
  assumes c: "chain sha 1 genesis rows"
    and a: "append_system_audit sha new_id now_iso req rows = Inr (event, rows')"
  shows "rows' = rows @ [event] \<and> chain sha 1 genesis rows' \<and>
         au_id event = new_id \<and> au_action event = ar_action req \<and> au_reason event = ar_reason req \<and>
         au_actor event = ar_actor req \<and> au_subject event = ar_subject req \<and>
         au_outcome event = ar_outcome req \<and> au_metadata event = ar_metadata req \<and>
         au_correlation event = ar_correlation req"
proof -
  let ?n = "int (length rows)" and ?prev = "last_event au_hash genesis rows"
  let ?row = "new_audit_row sha new_id now_iso req ?n ?prev"
  have ins: "insert_audit ?row rows = Inr rows'"
    and stored: "\<exists>s. row_by au_sequence (?n + 1) rows' = Some s \<and>
                     validate_row sha (?n + 1) (Some ?prev) s = Inr event"
    using a by (auto simp: append_system_audit_def validated_tail_chain [OF c] split: option.splits)
  have seq: "au_sequence ?row = ?n + 1" by (simp add: new_audit_row_def Let_def)
  have rows': "rows' = rows @ [?row]" using ins by (auto simp: insert_audit_def split: if_splits)
  have "row_by au_sequence (?n + 1) rows = None"
    using chain_sequence_set [OF c] by (force simp: row_by_None_iff)
  then have "row_by au_sequence (?n + 1) rows' = Some ?row"
    by (simp add: rows' row_by_append seq)
  with stored have ev: "event = ?row" and "au_previous ?row = ?prev" "au_hash ?row = row_hash sha ?row"
    "valid_event ?row"
    by (auto simp: validate_row_Inr)
  with c seq show ?thesis by (simp add: rows' chain_append) (simp add: new_audit_row_def Let_def)
qed

end
