(* ===== verification/Python_Time.thy ===== *)
theory Python_Time
  imports Canonical
begin

text \<open>
  The texts Python and pydantic write for an instant in UTC: the proleptic Gregorian date of a day number, the
  time of day, and the two formats built from them, \<open>datetime.isoformat()\<close> and the JSON of a pydantic model.
\<close>

section \<open>Dates\<close>

text \<open>The date of a day counted from the epoch, with years that begin in March so that a leap day comes last.\<close>

definition civil :: "int \<Rightarrow> int \<times> int \<times> int" where
  "civil day =
     (let z = day + 719468; era = z div 146097; doe = z mod 146097;
          yoe = (doe - doe div 1460 + doe div 36524 - doe div 146096) div 365;
          doy = doe - (365 * yoe + yoe div 4 - yoe div 100);
          mp = (5 * doy + 2) div 153;
          d = doy - (153 * mp + 2) div 5 + 1;
          m = (if mp < 10 then mp + 3 else mp - 9);
          y = yoe + era * 400
      in (if m \<le> 2 then y + 1 else y, m, d))"

section \<open>Texts\<close>

definition padded :: "nat \<Rightarrow> int \<Rightarrow> string" where
  "padded w n = (let t = int_text n in replicate (w - length t) (CHR ''0'') @ t)"

definition date_text :: "int \<Rightarrow> string" where
  "date_text day =
     (case civil day of (y, m, d) \<Rightarrow> padded 4 y @ ''-'' @ padded 2 m @ ''-'' @ padded 2 d)"

definition time_text :: "int \<Rightarrow> string" where
  "time_text micros =
     (let us = micros mod 1000000; s = micros div 1000000
      in padded 2 (s div 3600) @ '':'' @ padded 2 (s div 60 mod 60) @ '':'' @ padded 2 (s mod 60) @
         (if us = 0 then [] else ''.'' @ padded 6 us))"

definition instant_text :: "instant \<Rightarrow> string" where
  "instant_text t = date_text (t div 86400000000) @ ''T'' @ time_text (t mod 86400000000)"

definition isoformat :: "instant \<Rightarrow> string" where
  "isoformat t = instant_text t @ ''+00:00''"

definition json_time :: "instant \<Rightarrow> json" where
  "json_time t = JStr (instant_text t @ ''Z'')"

lemma isoformat_examples:
  "isoformat 1709164799000001 = ''2024-02-28T23:59:59.000001+00:00''"
  "json_time (-1000000) = JStr ''1969-12-31T23:59:59Z''"
  by code_simp+

end
