(* ===== verification/Evolution_Model.thy ===== *)
theory Evolution_Model
  imports Python_Time
begin

text \<open>
  \<open>models/evolution_candidate.py\<close> and \<open>models/run_assignment.py\<close>: a candidate for a change of a prompt, a skill, a
  policy, a persona or of code, the graph of its lifecycle, and the assignment of a run to one of its two
  versions; with the checks pydantic runs on them and the JSON they are hashed as.
\<close>

section \<open>Candidates\<close>

datatype candidate_kind = CMemory | CSkill | CPolicy | CPersona | CCode

datatype source_channel = ChApi | ChCli | ChAgent | ChReviewer | ChCurator | ChZip | ChSystem

datatype lifecycle =
    LProposed | LStaged | LEvaluating | LBlocked | LReady | LCanary | LPromoted | LRejected | LRollbackPending
  | LRolledBack | LArchived

datatype gate_name =
    GSchema | GSecurity | GRegression | GSample | GEvidence | GBudget | GRollback | GHumanVeto

fun candidate_kind_value :: "candidate_kind \<Rightarrow> string" where
  "candidate_kind_value CMemory = ''memory''"
| "candidate_kind_value CSkill = ''skill''"
| "candidate_kind_value CPolicy = ''policy''"
| "candidate_kind_value CPersona = ''persona''"
| "candidate_kind_value CCode = ''code''"

fun channel_value :: "source_channel \<Rightarrow> string" where
  "channel_value ChApi = ''api''"
| "channel_value ChCli = ''cli''"
| "channel_value ChAgent = ''agent''"
| "channel_value ChReviewer = ''reviewer''"
| "channel_value ChCurator = ''curator''"
| "channel_value ChZip = ''zip''"
| "channel_value ChSystem = ''system''"

fun lifecycle_value :: "lifecycle \<Rightarrow> string" where
  "lifecycle_value LProposed = ''proposed''"
| "lifecycle_value LStaged = ''staged''"
| "lifecycle_value LEvaluating = ''evaluating''"
| "lifecycle_value LBlocked = ''blocked''"
| "lifecycle_value LReady = ''ready''"
| "lifecycle_value LCanary = ''canary''"
| "lifecycle_value LPromoted = ''promoted''"
| "lifecycle_value LRejected = ''rejected''"
| "lifecycle_value LRollbackPending = ''rollback_pending''"
| "lifecycle_value LRolledBack = ''rolled_back''"
| "lifecycle_value LArchived = ''archived''"

fun gate_value :: "gate_name \<Rightarrow> string" where
  "gate_value GSchema = ''schema''"
| "gate_value GSecurity = ''security''"
| "gate_value GRegression = ''regression''"
| "gate_value GSample = ''sample''"
| "gate_value GEvidence = ''evidence''"
| "gate_value GBudget = ''budget''"
| "gate_value GRollback = ''rollback''"
| "gate_value GHumanVeto = ''human_veto''"

text \<open>\<open>LEGAL_LIFECYCLE_TRANSITIONS\<close>\<close>

fun legal_transitions :: "lifecycle \<Rightarrow> lifecycle list" where
  "legal_transitions LProposed = [LStaged]"
| "legal_transitions LStaged = [LEvaluating]"
| "legal_transitions LEvaluating = [LBlocked, LReady]"
| "legal_transitions LBlocked = [LEvaluating, LRejected]"
| "legal_transitions LReady = [LCanary, LRejected]"
| "legal_transitions LCanary = [LReady, LPromoted, LRejected, LRollbackPending]"
| "legal_transitions LPromoted = [LRollbackPending, LArchived]"
| "legal_transitions LRollbackPending = [LRolledBack]"
| "legal_transitions LRolledBack = [LArchived]"
| "legal_transitions LRejected = [LArchived]"
| "legal_transitions LArchived = []"

definition validate_lifecycle_transition :: "lifecycle \<Rightarrow> lifecycle \<Rightarrow> unit result" where
  "validate_lifecycle_transition source target =
     raise_unless (target \<in> set (legal_transitions source))
       (ValueError (''illegal lifecycle transition: '' @ lifecycle_value source @ '' -> '' @ lifecycle_value target))"

record provenance =
  pv_channel :: source_channel
  pv_uri :: "string option"
  pv_digest :: string
  pv_actor :: string
  pv_actor_name :: string
  pv_edict :: "string option"
  pv_memorial :: "string option"
  pv_producer :: string
  pv_producer_version :: string
  pv_received :: instant

record version_ref =
  vr_version :: string
  vr_artifact :: string
  vr_canonical :: string

record routing_policy =
  rp_basis_points :: int
  rp_seed :: string
  rp_version :: int

record rollback_spec =
  rb_champion :: version_ref
  rb_restore_point :: string
  rb_adapter :: string
  rb_max_seconds :: int

record evolution_contract =
  ct_kind :: candidate_kind
  ct_subject :: string
  ct_governance_hash :: string
  ct_gates :: "gate_name list"
  ct_regression_digest :: string
  ct_sample_digest :: string
  ct_budget_digest :: string
  ct_min_samples :: int
  ct_max_basis_points :: int
  ct_rollback_slo :: int

record evolution_candidate =
  cd_id :: string
  cd_kind :: candidate_kind
  cd_subject :: string
  cd_provenance :: provenance
  cd_base :: version_ref
  cd_candidate :: version_ref
  cd_diff :: string
  cd_contract :: evolution_contract
  cd_contract_hash :: string
  cd_gate_version :: int
  cd_evidence :: "string list"
  cd_routing :: "routing_policy option"
  cd_rollback :: rollback_spec
  cd_lifecycle :: lifecycle
  cd_version :: int
  cd_created :: instant
  cd_updated :: instant

section \<open>JSON\<close>

definition null_or_str :: "string option \<Rightarrow> json" where
  "null_or_str v = (case v of None \<Rightarrow> JNull | Some s \<Rightarrow> JStr s)"

definition provenance_json :: "provenance \<Rightarrow> json" where
  "provenance_json p =
     JObj [(''schema_version'', JInt 1), (''source_channel'', JStr (channel_value (pv_channel p))),
           (''source_uri_redacted'', null_or_str (pv_uri p)), (''source_digest'', JStr (pv_digest p)),
           (''actor_principal_id'', JStr (pv_actor p)), (''actor_display_name'', JStr (pv_actor_name p)),
           (''originating_edict_id'', null_or_str (pv_edict p)), (''originating_memorial_id'', null_or_str (pv_memorial p)),
           (''producer_name'', JStr (pv_producer p)), (''producer_version'', JStr (pv_producer_version p)),
           (''received_at'', json_time (pv_received p))]"

definition version_ref_json :: "version_ref \<Rightarrow> json" where
  "version_ref_json r =
     JObj [(''version'', JStr (vr_version r)), (''artifact_digest'', JStr (vr_artifact r)),
           (''canonical_digest'', JStr (vr_canonical r))]"

definition contract_json :: "evolution_contract \<Rightarrow> json" where
  "contract_json c =
     JObj [(''schema_version'', JInt 1), (''kind'', JStr (candidate_kind_value (ct_kind c))),
           (''subject_key'', JStr (ct_subject c)), (''governance_contract_hash'', JStr (ct_governance_hash c)),
           (''required_gates'', JList (map (\<lambda>g. JStr (gate_value g)) (ct_gates c))),
           (''regression_policy_artifact_digest'', JStr (ct_regression_digest c)),
           (''sample_policy_artifact_digest'', JStr (ct_sample_digest c)),
           (''budget_policy_artifact_digest'', JStr (ct_budget_digest c)),
           (''minimum_canary_samples'', JInt (ct_min_samples c)),
           (''max_canary_allocation_basis_points'', JInt (ct_max_basis_points c)),
           (''rollback_slo_seconds'', JInt (ct_rollback_slo c)), (''automatic_promotion_allowed'', JBool False)]"

definition routing_json :: "routing_policy \<Rightarrow> json" where
  "routing_json r =
     JObj [(''allocation_basis_points'', JInt (rp_basis_points r)), (''allocation_seed_id'', JStr (rp_seed r)),
           (''routing_version'', JInt (rp_version r))]"

section \<open>Validators\<close>

definition valid_provenance :: "provenance \<Rightarrow> bool" where
  "valid_provenance p =
     (hex64 (pv_digest p) \<and> \<not> blank (pv_actor p) \<and> \<not> blank (pv_actor_name p) \<and> \<not> blank (pv_producer p) \<and>
      \<not> blank (pv_producer_version p) \<and> opt_nonblank (pv_uri p) \<and> opt_nonblank (pv_edict p) \<and> opt_nonblank (pv_memorial p))"

definition valid_version_ref :: "version_ref \<Rightarrow> bool" where
  "valid_version_ref r = (\<not> blank (vr_version r) \<and> hex64 (vr_artifact r) \<and> hex64 (vr_canonical r))"

definition valid_routing :: "routing_policy \<Rightarrow> bool" where
  "valid_routing r =
     (0 \<le> rp_basis_points r \<and> rp_basis_points r \<le> 10000 \<and> \<not> blank (rp_seed r) \<and> 1 \<le> rp_version r)"

definition valid_rollback :: "rollback_spec \<Rightarrow> bool" where
  "valid_rollback b =
     (valid_version_ref (rb_champion b) \<and> \<not> blank (rb_restore_point b) \<and> \<not> blank (rb_adapter b) \<and>
      0 < rb_max_seconds b \<and> rb_max_seconds b \<le> 60)"

definition valid_contract :: "evolution_contract \<Rightarrow> bool" where
  "valid_contract c =
     (\<not> blank (ct_subject c) \<and> hex64 (ct_governance_hash c) \<and> ct_gates c \<noteq> [] \<and> distinct (ct_gates c) \<and>
      hex64 (ct_regression_digest c) \<and> hex64 (ct_sample_digest c) \<and> hex64 (ct_budget_digest c) \<and>
      0 < ct_min_samples c \<and> 0 < ct_max_basis_points c \<and> ct_max_basis_points c \<le> 1000 \<and>
      0 < ct_rollback_slo c \<and> ct_rollback_slo c \<le> 60)"

text \<open>\<open>EvolutionCandidateV1\<close>: its fields and \<open>validate_integrity\<close>.\<close>

definition valid_candidate :: "(string \<Rightarrow> string) \<Rightarrow> evolution_candidate \<Rightarrow> bool" where
  "valid_candidate sha c =
     (\<not> blank (cd_id c) \<and> \<not> blank (cd_subject c) \<and> valid_provenance (cd_provenance c) \<and>
      valid_version_ref (cd_base c) \<and> valid_version_ref (cd_candidate c) \<and> hex64 (cd_diff c) \<and>
      valid_contract (cd_contract c) \<and> hex64 (cd_contract_hash c) \<and> 0 \<le> cd_gate_version c \<and>
      list_all (\<lambda>i. \<not> blank i) (cd_evidence c) \<and> distinct (cd_evidence c) \<and>
      (case cd_routing c of None \<Rightarrow> True | Some r \<Rightarrow> valid_routing r) \<and> valid_rollback (cd_rollback c) \<and>
      1 \<le> cd_version c \<and>
      cd_kind c = ct_kind (cd_contract c) \<and> cd_subject c = ct_subject (cd_contract c) \<and>
      canonical_sha256 sha (contract_json (cd_contract c)) = Inr (cd_contract_hash c) \<and>
      rb_champion (cd_rollback c) = cd_base c \<and> cd_created c \<le> cd_updated c \<and>
      (case cd_routing c of None \<Rightarrow> True | Some r \<Rightarrow> rp_basis_points r \<le> ct_max_basis_points (cd_contract c)))"

section \<open>Assignments\<close>

record run_assignment =
  asn_id :: string
  asn_memorial :: string
  asn_candidate :: string
  asn_champion :: version_ref
  asn_selected :: version_ref
  asn_routing_version :: int
  asn_bucket :: int
  asn_created :: instant

record legacy_assignment =
  lg_id :: string
  lg_memorial :: string
  lg_created :: instant

datatype assignment = Governed run_assignment | Legacy legacy_assignment

record overlay =
  ov_assignment :: string
  ov_kind :: "candidate_kind option"
  ov_subject :: "string option"
  ov_artifact :: string
  ov_canonical :: string

definition valid_assignment :: "assignment \<Rightarrow> bool" where
  "valid_assignment a =
     (case a of
        Governed g \<Rightarrow>
          \<not> blank (asn_id g) \<and> \<not> blank (asn_memorial g) \<and> \<not> blank (asn_candidate g) \<and> valid_version_ref (asn_champion g) \<and>
          valid_version_ref (asn_selected g) \<and> 1 \<le> asn_routing_version g \<and> 0 \<le> asn_bucket g \<and> asn_bucket g \<le> 9999
      | Legacy l \<Rightarrow> \<not> blank (lg_id l) \<and> \<not> blank (lg_memorial l))"

definition valid_overlay :: "overlay \<Rightarrow> bool" where
  "valid_overlay v =
     (\<not> blank (ov_assignment v) \<and> opt_nonblank (ov_subject v) \<and> hex64 (ov_artifact v) \<and> hex64 (ov_canonical v) \<and>
      (ov_kind v = None \<longleftrightarrow> ov_subject v = None))"

definition assignment_json :: "assignment \<Rightarrow> json" where
  "assignment_json a =
     (case a of
        Governed g \<Rightarrow>
          JObj [(''assignment_id'', JStr (asn_id g)), (''memorial_id'', JStr (asn_memorial g)),
                (''candidate_id'', JStr (asn_candidate g)), (''champion_ref'', version_ref_json (asn_champion g)),
                (''selected_ref'', version_ref_json (asn_selected g)), (''routing_version'', JInt (asn_routing_version g)),
                (''bucket'', JInt (asn_bucket g)), (''created_at'', json_time (asn_created g))]
      | Legacy l \<Rightarrow>
          JObj [(''mode'', JStr ''legacy_unmanaged''), (''assignment_id'', JStr (lg_id l)),
                (''memorial_id'', JStr (lg_memorial l)), (''created_at'', json_time (lg_created l))])"

definition overlay_json :: "overlay \<Rightarrow> json" where
  "overlay_json v =
     JObj [(''assignment_id'', JStr (ov_assignment v)),
           (''kind'', null_or_str (map_option candidate_kind_value (ov_kind v))), (''subject_key'', null_or_str (ov_subject v)),
           (''artifact_digest'', JStr (ov_artifact v)), (''canonical_digest'', JStr (ov_canonical v))]"

section \<open>The graph\<close>

text \<open>Every JSON value of these models has finite numbers only, so that its hash is defined.\<close>

lemma evolution_json_finite [simp]:
  "normalizable (provenance_json p)" "normalizable (version_ref_json r)" "normalizable (contract_json c)"
  "normalizable (routing_json rp)" "normalizable (assignment_json a)" "normalizable (overlay_json v)"
  by (auto simp: provenance_json_def version_ref_json_def contract_json_def routing_json_def assignment_json_def
      overlay_json_def null_or_str_def json_time_def split: option.split assignment.split)

text \<open>How far a candidate is from the start; every edge but the two that go back raises it.\<close>

fun lifecycle_rank :: "lifecycle \<Rightarrow> nat" where
  "lifecycle_rank LProposed = 0"
| "lifecycle_rank LStaged = 1"
| "lifecycle_rank LEvaluating = 2"
| "lifecycle_rank LBlocked = 3"
| "lifecycle_rank LReady = 3"
| "lifecycle_rank LCanary = 4"
| "lifecycle_rank LPromoted = 5"
| "lifecycle_rank LRollbackPending = 6"
| "lifecycle_rank LRolledBack = 7"
| "lifecycle_rank LRejected = 7"
| "lifecycle_rank LArchived = 8"

lemma transition_rank:
  "t \<in> set (legal_transitions s) \<Longrightarrow> lifecycle_rank s < lifecycle_rank t \<or> (s, t) = (LBlocked, LEvaluating) \<or> (s, t) = (LCanary, LReady)"
  by (cases s) auto

lemma promoted_only_from_canary: "LPromoted \<in> set (legal_transitions s) \<longleftrightarrow> s = LCanary"
  by (cases s) auto

end
