(* ===== verification/Database.thy ===== *)
theory Database
  imports Attempt_Model Run_State_Model Decision_Model Side_Effect_Model System_Audit Evolution_Model
begin

text \<open>
  The tables the durable core works on, one record field each, with the rows \<open>storage/migrations.py\<close>
  declares, and \<open>storage/correlation.py\<close>, which reads across them. A JSON column holds the value its
  text decodes to; a timestamp column holds the instant its ISO text denotes.
\<close>

section \<open>Rows\<close>

datatype task_status =
    TSubmitted | TRunning | TCompleted | TFailed | TCancelled | TScheduled | TPlanning | TAuditing
  | TNeedsReview

datatype schedule_type = SchedImmediate | SchedOnce | SchedCron | SchedInterval

text \<open>\<open>EdictSchedule\<close>; of \<open>at\<close> the instant and the text its JSON has, which keeps the offset it was given with.\<close>

record edict_schedule =
  es_type :: schedule_type
  es_at :: "(instant \<times> string) option"
  es_cron :: "string option"
  es_interval :: "int option"
  es_timezone :: string
  es_skip :: bool

datatype edict_status = EdOpen | EdCompleted | EdCancelled

text \<open>
  \<open>ed_schedule\<close> and \<open>ed_retry_limit\<close> are what \<open>EdictSchedule.model_validate\<close> and \<open>EdictRuntime.model_validate\<close> read from
  the columns \<open>schedule_json\<close> and \<open>runtime_json\<close>: \<open>None\<close> where they raise.
\<close>

record edict_row =
  ed_id :: string
  ed_submitter :: string
  ed_title :: string
  ed_goal :: string
  ed_archived :: bool
  ed_acceptance :: bool
  ed_runtime :: payload
  ed_status :: edict_status
  ed_schedule :: "edict_schedule option"
  ed_retry_limit :: "int option"

record memorial_row =
  mem_id :: string
  mem_edict :: string
  mem_status :: task_status
  mem_dag_node :: "string option"
  mem_summary :: "string option"
  mem_result :: "string option"
  mem_final_output :: "string option"
  mem_usage :: "usage_summary option"
  mem_reasoning :: "string option"
  mem_error :: "string option"
  mem_failure_reason :: "string option"
  mem_completed :: "instant option"
  mem_instruction :: string
  mem_parent :: "string option"
  mem_attempt :: int
  mem_created :: instant
  mem_runtime_override :: "payload option"
  mem_acceptance_override :: "json option"

record run_state_row =
  rr_state :: run_state
  rr_correlation :: "string option"

record decision_row =
  qr_request :: decision_request
  qr_correlation :: "string option"

text \<open>
  A side-effect journal row: the intent columns, the decision of an uncertain effect, and the receipt
  columns, which the table's CHECK makes all null or all present.
\<close>

record receipt_columns =
  rx_attempt :: string
  rx_owner :: string
  rx_fence :: int
  rx_provider_receipt :: string
  rx_metadata :: payload
  rx_result_hash :: string
  rx_effective :: instant
  rx_recorded :: instant

record effect_row =
  ef_intent :: side_effect_intent
  ef_decision :: "string option"
  ef_receipt :: "receipt_columns option"
  ef_correlation :: "string option"

text \<open>
  A value in an SQLite column, by storage class. The outbox keeps its counters as such values,
  because the dispatcher has to retire rows whose counters are not integers.
\<close>

datatype sql_value = SInteger int | SReal rat | SText string | SBlob string

datatype outbox_status = OPending | OClaimed | OPublished | ORetryWait | ODeadLetter

record outbox_row =
  ob_id :: string
  ob_type :: string
  ob_aggregate :: string
  ob_edict :: "string option"
  ob_memorial :: "string option"
  ob_producer :: string
  ob_correlation :: "string option"
  ob_payload :: "json option"
  ob_occurred :: instant
  ob_available :: instant
  ob_status :: outbox_status
  ob_attempts :: sql_value
  ob_max :: sql_value
  ob_owner :: "string option"
  ob_expires :: "instant option"
  ob_error :: "redacted_error option"
  ob_published :: "instant option"
  ob_version :: sql_value

record consumption_row =
  cs_event :: string
  cs_consumer :: string
  cs_hash :: "string option"
  cs_at :: instant

record submission_row =
  sb_principal :: string
  sb_key :: string
  sb_request_hash :: string
  sb_edict :: string
  sb_memorial :: string
  sb_event :: string
  sb_response :: json
  sb_created :: instant

record evidence_row =
  ev_memorial :: string
  ev_correlation :: "string option"

datatype job_status = JobActive | JobPaused | JobCancelled | JobCompleted | JobFailed

record job_row =
  jb_id :: string
  jb_edict :: string
  jb_type :: schedule_type
  jb_cron :: "string option"
  jb_next :: "instant option"
  jb_status :: job_status
  jb_created :: instant
  jb_interval :: "int option"

text \<open>
  The ledger of fires. Its column \<open>error\<close> holds the fingerprint of a fire's envelope, the JSON object a manual fire
  stores there, or the error of a system job.
\<close>

record manual_envelope =
  me_fingerprint :: string
  me_scheduled :: instant
  me_next :: "instant option"

datatype run_note = Note string | Envelope manual_envelope

record schedule_run_row =
  sr_id :: string
  sr_source :: string
  sr_kind :: string
  sr_status :: string
  sr_edict :: "string option"
  sr_note :: "run_note option"
  sr_started :: instant
  sr_finished :: "instant option"

text \<open>The tables of governed evolution. A candidate row also has the hash of its provenance.\<close>

record candidate_row =
  cr_candidate :: evolution_candidate
  cr_provenance_hash :: string

record lifecycle_entry =
  le_id :: string
  le_candidate :: string
  le_version :: int
  le_from :: "lifecycle option"
  le_to :: lifecycle
  le_decision :: "string option"
  le_hash :: string
  le_created :: instant

record routing_row =
  ra_candidate :: string
  ra_version :: int
  ra_basis_points :: int
  ra_seed :: string
  ra_json :: string
  ra_hash :: string

record assignment_row =
  ag_id :: string
  ag_memorial :: string
  ag_candidate :: "string option"
  ag_routing_version :: int
  ag_bucket :: int
  ag_champion :: string
  ag_selected :: string
  ag_overlay_digest :: string
  ag_assignment :: assignment
  ag_hash :: string
  ag_created :: instant

record db =
  db_edicts :: "edict_row list"
  db_memorials :: "memorial_row list"
  db_attempts :: "attempt_lease list"
  db_run_states :: "run_state_row list"
  db_decisions :: "decision_row list"
  db_resolutions :: "decision_resolution list"
  db_effects :: "effect_row list"
  db_outbox :: "outbox_row list"
  db_consumptions :: "consumption_row list"
  db_submissions :: "submission_row list"
  db_evidence :: "evidence_row list"
  db_audit :: "audit_row list"
  db_checkpoints :: "string list"
  db_steers :: "string list"
  db_jobs :: "job_row list"
  db_schedule_runs :: "schedule_run_row list"
  db_candidates :: "candidate_row list"
  db_lifecycle :: "lifecycle_entry list"
  db_routing :: "routing_row list"
  db_assignments :: "assignment_row list"

definition empty_db :: db where
  "empty_db =
     \<lparr>db_edicts = [], db_memorials = [], db_attempts = [], db_run_states = [], db_decisions = [],
      db_resolutions = [], db_effects = [], db_outbox = [], db_consumptions = [], db_submissions = [],
      db_evidence = [], db_audit = [], db_checkpoints = [], db_steers = [], db_jobs = [],
      db_schedule_runs = [], db_candidates = [], db_lifecycle = [], db_routing = [], db_assignments = []\<rparr>"

definition has_edict :: "db \<Rightarrow> string \<Rightarrow> bool" where
  "has_edict d e = list_ex (\<lambda>r. ed_id r = e) (db_edicts d)"

definition has_memorial :: "db \<Rightarrow> string \<Rightarrow> bool" where
  "has_memorial d m = list_ex (\<lambda>r. mem_id r = m) (db_memorials d)"

section \<open>Correlation\<close>

definition require_correlation_id :: "string \<Rightarrow> string result" where
  "require_correlation_id v =
     (if is_identifier v then Inr v
      else Inl (ValueError ''correlation_id must be an opaque identifier''))"

text \<open>The first non-null correlation of a table's rows for the memorial.\<close>

definition first_correlation :: "('r \<Rightarrow> bool) \<Rightarrow> ('r \<Rightarrow> string option) \<Rightarrow> 'r list \<Rightarrow> string option" where
  "first_correlation p c rows = (case first_of (filter (\<lambda>r. p r \<and> c r \<noteq> None) rows) of None \<Rightarrow> None | Some r \<Rightarrow> c r)"

text \<open>The five fallback tables, in the order the loop visits them.\<close>

definition fallback_correlations :: "db \<Rightarrow> string \<Rightarrow> string option list" where
  "fallback_correlations d m =
     [first_correlation (\<lambda>r. dq_memorial (qr_request r) = m) qr_correlation (db_decisions d),
      first_correlation (\<lambda>r. rs_memorial (rr_state r) = m) rr_correlation (db_run_states d),
      first_correlation (\<lambda>r. at_memorial r = m) at_correlation (db_attempts d),
      first_correlation (\<lambda>r. in_memorial (ef_intent r) = m) ef_correlation (db_effects d),
      first_correlation (\<lambda>r. ev_memorial r = m) ev_correlation (db_evidence d)]"

definition correlation_for_memorial ::
  "(string \<Rightarrow> string) \<Rightarrow> db \<Rightarrow> string \<Rightarrow> string option \<Rightarrow> string result" where
  "correlation_for_memorial sha d m explicit =
     (case first_correlation (\<lambda>_. True) ob_correlation
             (select_ordered (\<lambda>r. ob_memorial r = Some m \<and> ob_correlation r \<noteq> None)
                (\<lambda>r. (ob_occurred r, ob_id r)) (db_outbox d)) of
        Some c \<Rightarrow> require_correlation_id c
      | None \<Rightarrow>
          (case explicit of
             Some c \<Rightarrow> require_correlation_id c
           | None \<Rightarrow>
               (case filter (\<lambda>c. c \<noteq> None) (fallback_correlations d m) of
                  Some c # _ \<Rightarrow> require_correlation_id c
                | _ \<Rightarrow> Inr (''legacy:'' @ sha (utf8 m)))))"

lemma require_correlation_id_Inr [simp]: "require_correlation_id v = Inr c \<longleftrightarrow> is_identifier v \<and> c = v"
  by (auto simp: require_correlation_id_def)

lemma has_memorial_iff: "has_memorial d m \<longleftrightarrow> m \<in> mem_id ` set (db_memorials d)"
  by (auto simp: has_memorial_def list_ex_iff)

lemma has_edict_iff: "has_edict d e \<longleftrightarrow> e \<in> ed_id ` set (db_edicts d)"
  by (auto simp: has_edict_def list_ex_iff)

end
