(* ===== verification/Attempt_Ledger.thy ===== *)
theory Attempt_Ledger
  imports Database
begin

text \<open>
  \<open>storage/attempt_ledger.py\<close>: the leases and fencing tokens of execution attempts. Functions whose
  name ends in \<open>current\<close> or that take and return a database run inside the caller's transaction; those
  that own one return the result and the committed database. \<open>new_id\<close> is the ULID an insertion draws,
  \<open>now\<close> the clock reading.
\<close>

section \<open>The table\<close>

definition trim_nonempty :: "string \<Rightarrow> bool" where
  "trim_nonempty s = list_ex (\<lambda>c. c \<noteq> CHR '' '') s"

text \<open>The CHECK constraints of \<open>execution_attempts\<close>.\<close>

definition attempt_checks :: "attempt_lease \<Rightarrow> bool" where
  "attempt_checks a =
     (trim_nonempty (at_id a) \<and> at_schema_version a = 1 \<and> 0 < at_no a \<and> 0 \<le> at_fence a \<and>
      0 < at_max a \<and> at_no a \<le> at_max a \<and> 0 < at_version a \<and>
      (if at_status a = Claimed
       then (case (at_owner a, at_expires a, at_heartbeat a) of
               (Some ow, Some ex, Some hb) \<Rightarrow> trim_nonempty ow \<and> hb < ex \<and> 0 < at_fence a
             | _ \<Rightarrow> False)
       else at_owner a = None \<and> at_expires a = None) \<and>
      (status_failed (at_status a) \<longleftrightarrow> at_failure a \<noteq> None))"

text \<open>The unique index on the memorial of the active rows.\<close>

definition active_unique :: "attempt_lease list \<Rightarrow> bool" where
  "active_unique rows = distinct (map at_memorial (filter active rows))"

definition insert_attempt :: "attempt_lease \<Rightarrow> db \<Rightarrow> db result" where
  "insert_attempt row d =
     (if list_ex (\<lambda>a. at_id a = at_id row \<or> (at_memorial a = at_memorial row \<and> at_no a = at_no row))
           (db_attempts d)
      then Inl (IntegrityError ''execution attempts are immutable by replacement'')
      else if \<not> attempt_checks row then Inl (IntegrityError ''CHECK constraint failed: execution_attempts'')
      else if \<not> has_memorial d (at_memorial row) then Inl (IntegrityError ''FOREIGN KEY constraint failed'')
      else if \<not> active_unique (db_attempts d @ [row]) then Inl (IntegrityError ''UNIQUE constraint failed'')
      else Inr (d\<lparr>db_attempts := db_attempts d @ [row]\<rparr>))"

text \<open>\<open>UPDATE execution_attempts\<close>, giving the \<open>rowcount\<close>.\<close>

definition update_attempts ::
  "(attempt_lease \<Rightarrow> bool) \<Rightarrow> (attempt_lease \<Rightarrow> attempt_lease) \<Rightarrow> db \<Rightarrow> (nat \<times> db) result" where
  "update_attempts p f d =
     (let rows = update_rows p f (db_attempts d)
      in if \<not> list_all (\<lambda>a. p a \<longrightarrow> attempt_checks (f a)) (db_attempts d)
         then Inl (IntegrityError ''CHECK constraint failed: execution_attempts'')
         else if \<not> active_unique rows then Inl (IntegrityError ''UNIQUE constraint failed'')
         else Inr (count_rows p (db_attempts d), d\<lparr>db_attempts := rows\<rparr>))"

definition select_attempt :: "db \<Rightarrow> string \<Rightarrow> attempt_lease option result" where
  "select_attempt d attempt_id =
     (case row_by at_id attempt_id (db_attempts d) of
        None \<Rightarrow> Inr None
      | Some row \<Rightarrow> and_then (decode_attempt row) (\<lambda>a. Inr (Some a)))"

section \<open>Insertions\<close>

definition new_attempt ::
  "string \<Rightarrow> string \<Rightarrow> int \<Rightarrow> int \<Rightarrow> instant \<Rightarrow> int \<Rightarrow> instant \<Rightarrow> string \<Rightarrow> attempt_lease" where
  "new_attempt attempt_id memorial_id no fence available_at max_attempts created_at correlation =
     \<lparr>at_id = attempt_id, at_schema_version = 1, at_memorial = memorial_id, at_no = no,
      at_status = Claimable, at_owner = None, at_fence = fence, at_expires = None, at_heartbeat = None,
      at_available = available_at, at_max = max_attempts, at_failure = None, at_version = 1,
      at_created = created_at, at_updated = created_at, at_correlation = Some correlation\<rparr>"

definition insert_retry_attempt ::
  "(string \<Rightarrow> string) \<Rightarrow> string \<Rightarrow> attempt_lease \<Rightarrow> instant \<Rightarrow> instant \<Rightarrow> db \<Rightarrow> (attempt_lease \<times> db) result" where
  "insert_retry_attempt sha new_id previous available_at created_at d =
     and_then (correlation_for_memorial sha d (at_memorial previous) None) (\<lambda>correlation.
     and_then (insert_attempt
        (new_attempt new_id (at_memorial previous) (at_no previous + 1) (at_fence previous)
           available_at (at_max previous) created_at correlation) d) (\<lambda>d'.
     and_then (select_attempt d' new_id) (\<lambda>created.
       case created of
         None \<Rightarrow> Inl (AttemptConflict ''attempt retry row disappeared'')
       | Some a \<Rightarrow> Inr (a, d'))))"

definition enqueue_initial ::
  "(string \<Rightarrow> string) \<Rightarrow> instant \<Rightarrow> string \<Rightarrow> string \<Rightarrow> instant \<Rightarrow> int \<Rightarrow> string option \<Rightarrow> db \<Rightarrow>
   (attempt_lease \<times> db) result" where
  "enqueue_initial sha now new_id memorial_id available_at max_attempts attempt_id d =
     (if blank memorial_id then Inl (ValueError ''memorial_id must be non-blank'')
      else if \<not> opt_nonblank attempt_id then Inl (ValueError ''attempt_id must be non-blank'')
      else if max_attempts \<le> 0 then Inl (ValueError ''max_attempts must be a positive integer'')
      else
        case row_by mem_id memorial_id (db_memorials d) of
          None \<Rightarrow> Inl (AttemptConflict ''attempt memorial does not exist'')
        | Some memorial \<Rightarrow>
            if mem_dag_node memorial \<noteq> None then Inl (AttemptConflict ''attempt memorial is not a root'')
            else
              case find (\<lambda>a. at_memorial a = memorial_id \<and> at_no a = 1) (db_attempts d) of
                Some row \<Rightarrow>
                  and_then (decode_attempt row) (\<lambda>existing.
                    if at_available existing \<noteq> available_at \<or> at_max existing \<noteq> max_attempts \<or>
                       (attempt_id \<noteq> None \<and> attempt_id \<noteq> Some (at_id existing))
                    then Inl (AttemptConflict ''initial attempt replay does not match durable envelope'')
                    else Inr (existing, d))
              | None \<Rightarrow>
                  let created_at = min now available_at;
                      identity = (case attempt_id of None \<Rightarrow> new_id | Some i \<Rightarrow> i)
                  in and_then (correlation_for_memorial sha d memorial_id None) (\<lambda>correlation.
                     and_then (except_integrity (AttemptConflict ''initial attempt identity conflict'')
                        (insert_attempt
                           (new_attempt identity memorial_id 1 0 available_at max_attempts created_at
                              correlation) d)) (\<lambda>d'.
                     and_then (select_attempt d' identity) (\<lambda>created.
                       case created of
                         None \<Rightarrow> Inl (AttemptConflict ''initial attempt disappeared'')
                       | Some a \<Rightarrow> Inr (a, d')))))"

section \<open>Reading authority\<close>

definition list_dispatchable_memorial_ids :: "instant \<Rightarrow> int \<Rightarrow> db \<Rightarrow> string list result \<times> db" where
  "list_dispatchable_memorial_ids now limit d =
     (if limit \<le> 0 then (Inl (ValueError ''limit must be a positive integer''), d)
      else
        (Inr (map at_memorial (take (nat limit)
           (select_ordered
             (\<lambda>a. (case row_by mem_id (at_memorial a) (db_memorials d) of
                      None \<Rightarrow> False | Some m \<Rightarrow> mem_dag_node m = None) \<and>
                  ((at_status a = Claimable \<and> at_available a \<le> now) \<or>
                   (at_status a = Claimed \<and>
                    (case at_expires a of None \<Rightarrow> False | Some e \<Rightarrow> e \<le> now))))
             (\<lambda>a. (at_available a, at_created a, at_id a)) (db_attempts d)))), d))"

definition require_current :: "string \<Rightarrow> string \<Rightarrow> int \<Rightarrow> instant \<Rightarrow> db \<Rightarrow> unit result" where
  "require_current attempt_id owner_id fencing_token now d =
     (if blank attempt_id then Inl (ValueError ''attempt_id must be non-blank'')
      else if blank owner_id then Inl (ValueError ''owner_id must be non-blank'')
      else if fencing_token \<le> 0 then Inl (ValueError ''fencing_token must be a positive integer'')
      else
        case row_by at_id attempt_id (db_attempts d) of
          None \<Rightarrow> Inl (AttemptFenceLost ''attempt authority is no longer current'')
        | Some row \<Rightarrow>
            (case (at_heartbeat row, at_expires row) of
               (Some hb, Some ex) \<Rightarrow>
                 if at_status row \<noteq> Claimed \<or> at_owner row \<noteq> Some owner_id \<or>
                    at_fence row \<noteq> fencing_token \<or> now < hb \<or> ex \<le> now
                 then Inl (AttemptFenceLost ''attempt authority is no longer current'')
                 else Inr ()
             | _ \<Rightarrow> Inl (AttemptFenceLost ''attempt authority is no longer current'')))"

section \<open>Claims\<close>

definition lease_expired_error :: redacted_error where
  "lease_expired_error =
     \<lparr>err_code = ''attempt_lease_expired'', err_message = ''execution lease expired'',
      err_retryable = True, err_details_hash = None\<rparr>"

text \<open>The row after its lease expired, after it was claimed, and so on: the \<open>SET\<close> clauses.\<close>

definition expired_row :: "bool \<Rightarrow> instant \<Rightarrow> attempt_lease \<Rightarrow> attempt_lease" where
  "expired_row exhausted now a =
     a\<lparr>at_status := (if exhausted then DeadLetter else Failed), at_owner := None, at_expires := None,
       at_failure := Some lease_expired_error, at_version := at_version a + 1, at_updated := now\<rparr>"

definition claimed_row :: "string \<Rightarrow> instant \<Rightarrow> int \<Rightarrow> attempt_lease \<Rightarrow> attempt_lease" where
  "claimed_row owner_id now lease_seconds a =
     a\<lparr>at_status := Claimed, at_owner := Some owner_id, at_fence := at_fence a + 1,
       at_expires := Some (now + seconds lease_seconds), at_heartbeat := Some now,
       at_version := at_version a + 1, at_updated := now\<rparr>"

definition renewed_row :: "instant \<Rightarrow> int \<Rightarrow> attempt_lease \<Rightarrow> attempt_lease" where
  "renewed_row now duration a =
     a\<lparr>at_heartbeat := Some now, at_expires := Some (now + duration),
       at_version := at_version a + 1, at_updated := now\<rparr>"

definition completed_row :: "attempt_status \<Rightarrow> attempt_outcome \<Rightarrow> attempt_lease \<Rightarrow> attempt_lease" where
  "completed_row status outcome a =
     a\<lparr>at_status := status, at_owner := None, at_expires := None, at_failure := out_failure outcome,
       at_version := at_version a + 1, at_updated := out_completed_at outcome\<rparr>"

definition resumed_row :: "instant \<Rightarrow> attempt_lease \<Rightarrow> attempt_lease" where
  "resumed_row available_at a =
     a\<lparr>at_status := Claimable, at_owner := None, at_heartbeat := None, at_expires := None,
       at_available := available_at, at_version := at_version a + 1, at_updated := available_at\<rparr>"

definition expire_claim ::
  "(string \<Rightarrow> string) \<Rightarrow> string \<Rightarrow> attempt_lease \<Rightarrow> instant \<Rightarrow> db \<Rightarrow> (attempt_lease option \<times> db) result" where
  "expire_claim sha new_id current now d =
     (let exhausted = at_max current \<le> at_no current
      in and_then (update_attempts
           (\<lambda>a. at_id a = at_id current \<and> at_status a = Claimed \<and> at_owner a = at_owner current \<and>
                at_fence a = at_fence current \<and> at_version a = at_version current \<and>
                (case at_expires a of None \<Rightarrow> False | Some e \<Rightarrow> e \<le> now))
           (expired_row exhausted now) d) (\<lambda>(n, d').
         if n \<noteq> 1 then Inl (AttemptConflict ''expired attempt changed during reconciliation'')
         else if exhausted then Inr (None, d')
         else and_then (insert_retry_attempt sha new_id current now now d') (\<lambda>(a, d''). Inr (Some a, d''))))"

text \<open>The end of \<open>claim\<close>: the guarded update of a claimable row.\<close>

definition claim_row ::
  "string \<Rightarrow> instant \<Rightarrow> int \<Rightarrow> attempt_lease \<Rightarrow> db \<Rightarrow> (attempt_lease option \<times> db) result" where
  "claim_row owner_id now lease_seconds current d =
     (if now < at_available current then Inr (None, d)
      else and_then (update_attempts
        (\<lambda>a. at_id a = at_id current \<and> at_status a = Claimable \<and> at_version a = at_version current \<and>
             at_available a \<le> now)
        (claimed_row owner_id now lease_seconds) d) (\<lambda>(n, d').
        if n \<noteq> 1 then Inr (None, d')
        else and_then (select_attempt d' (at_id current)) (\<lambda>claimed.
          case claimed of
            None \<Rightarrow> Inl (AttemptConflict ''claimed attempt disappeared'')
          | Some a \<Rightarrow> Inr (Some a, d'))))"

definition claim_body ::
  "(string \<Rightarrow> string) \<Rightarrow> string \<Rightarrow> string \<Rightarrow> string \<Rightarrow> instant \<Rightarrow> int \<Rightarrow> db \<Rightarrow>
   (attempt_lease option \<times> db) result" where
  "claim_body sha new_id memorial_id owner_id now lease_seconds d =
     (if (case row_by mem_id memorial_id (db_memorials d) of
            None \<Rightarrow> False | Some m \<Rightarrow> mem_dag_node m \<noteq> None)
      then Inl (AttemptConflict ''attempt memorial is not a root'')
      else
        case first_of (select_ordered (\<lambda>a. at_memorial a = memorial_id \<and> active a)
               (\<lambda>a. (at_available a, at_created a, at_id a)) (db_attempts d)) of
          None \<Rightarrow> Inr (None, d)
        | Some row \<Rightarrow>
            and_then (decode_attempt row) (\<lambda>current.
              if at_status current = Suspended then Inr (None, d)
              else if at_status current = Claimed
              then (if now < the (at_expires current) then Inr (None, d)
                    else and_then (expire_claim sha new_id current now d) (\<lambda>(replacement, d').
                      case replacement of
                        None \<Rightarrow> Inr (None, d')
                      | Some next \<Rightarrow> claim_row owner_id now lease_seconds next d'))
              else claim_row owner_id now lease_seconds current d))"

definition claim ::
  "(string \<Rightarrow> string) \<Rightarrow> string \<Rightarrow> string \<Rightarrow> string \<Rightarrow> instant \<Rightarrow> int \<Rightarrow> db \<Rightarrow>
   attempt_lease option result \<times> db" where
  "claim sha new_id memorial_id owner_id now lease_seconds d =
     (if blank memorial_id then (Inl (ValueError ''memorial_id must be non-blank''), d)
      else if blank owner_id then (Inl (ValueError ''owner_id must be non-blank''), d)
      else if lease_seconds \<le> 0 then (Inl (ValueError ''lease_seconds must be a positive integer''), d)
      else atomically (\<lambda>d. except_integrity (AttemptConflict ''attempt claim or retry conflict'')
             (claim_body sha new_id memorial_id owner_id now lease_seconds d)) d)"

section \<open>Heartbeat, completion, resumption\<close>

text \<open>The row holds this authority at the instant \<open>t\<close>: the test heartbeat and completion share.\<close>

definition authority_at :: "attempt_lease \<Rightarrow> string \<Rightarrow> int \<Rightarrow> instant \<Rightarrow> bool" where
  "authority_at a owner_id fencing_token t =
     (at_status a = Claimed \<and> at_owner a = Some owner_id \<and> at_fence a = fencing_token \<and>
      (case (at_heartbeat a, at_expires a) of (Some hb, Some ex) \<Rightarrow> hb \<le> t \<and> t < ex | _ \<Rightarrow> False))"

definition heartbeat_body :: "string \<Rightarrow> string \<Rightarrow> int \<Rightarrow> instant \<Rightarrow> db \<Rightarrow> (bool \<times> db) result" where
  "heartbeat_body attempt_id owner_id fencing_token now d =
     and_then (select_attempt d attempt_id) (\<lambda>selected.
       case selected of
         None \<Rightarrow> Inr (False, d)
       | Some current \<Rightarrow>
           if \<not> authority_at current owner_id fencing_token now then Inr (False, d)
           else
             let duration = the (at_expires current) - the (at_heartbeat current)
             in and_then (update_attempts
                  (\<lambda>a. at_id a = attempt_id \<and> authority_at a owner_id fencing_token now \<and>
                       at_version a = at_version current)
                  (renewed_row now duration) d) (\<lambda>(n, d').
                if n = 1
                then and_then (select_attempt d' attempt_id) (\<lambda>durable.
                       if durable = None then Inl (AttemptConflict ''heartbeat attempt disappeared'')
                       else Inr (True, d'))
                else Inr (False, d')))"

definition heartbeat :: "string \<Rightarrow> string \<Rightarrow> int \<Rightarrow> instant \<Rightarrow> db \<Rightarrow> bool result \<times> db" where
  "heartbeat attempt_id owner_id fencing_token now d =
     (if blank attempt_id then (Inl (ValueError ''attempt_id must be non-blank''), d)
      else if blank owner_id then (Inl (ValueError ''owner_id must be non-blank''), d)
      else if fencing_token \<le> 0 then (Inl (ValueError ''fencing_token must be a positive integer''), d)
      else atomically (heartbeat_body attempt_id owner_id fencing_token now) d)"

text \<open>The status an outcome gives the attempt.\<close>

definition completion_status :: "attempt_lease \<Rightarrow> attempt_outcome \<Rightarrow> attempt_status" where
  "completion_status current outcome =
     (case out_disposition outcome of
        DRetry \<Rightarrow> if at_max current \<le> at_no current then DeadLetter else Failed
      | DFailed \<Rightarrow> Failed
      | DSucceeded \<Rightarrow> Succeeded
      | DSuspended \<Rightarrow> Suspended)"

definition complete_current ::
  "(string \<Rightarrow> string) \<Rightarrow> string \<Rightarrow> string \<Rightarrow> string \<Rightarrow> int \<Rightarrow> attempt_outcome \<Rightarrow> db \<Rightarrow> (bool \<times> db) result" where
  "complete_current sha new_id attempt_id owner_id fencing_token outcome d =
     (if blank attempt_id then Inl (ValueError ''attempt_id must be non-blank'')
      else if blank owner_id then Inl (ValueError ''owner_id must be non-blank'')
      else if fencing_token \<le> 0 then Inl (ValueError ''fencing_token must be a positive integer'')
      else and_then (select_attempt d attempt_id) (\<lambda>selected.
        case selected of
          None \<Rightarrow> Inr (False, d)
        | Some current \<Rightarrow>
            if \<not> authority_at current owner_id fencing_token (out_completed_at outcome) then Inr (False, d)
            else
              let retry = out_disposition outcome = DRetry;
                  exhausted = retry \<and> at_max current \<le> at_no current
              in and_then (update_attempts
                   (\<lambda>a. at_id a = attempt_id \<and>
                        authority_at a owner_id fencing_token (out_completed_at outcome) \<and>
                        at_version a = at_version current)
                   (completed_row (completion_status current outcome) outcome) d)
                 (\<lambda>(n, d').
                 if n \<noteq> 1 then Inr (False, d')
                 else if retry \<and> \<not> exhausted
                 then and_then (insert_retry_attempt sha new_id current (the (out_retry_at outcome))
                          (out_completed_at outcome) d') (\<lambda>(a, d''). Inr (True, d''))
                 else Inr (True, d'))))"

definition complete ::
  "(string \<Rightarrow> string) \<Rightarrow> string \<Rightarrow> string \<Rightarrow> string \<Rightarrow> int \<Rightarrow> attempt_outcome \<Rightarrow> db \<Rightarrow> bool result \<times> db" where
  "complete sha new_id attempt_id owner_id fencing_token outcome d =
     atomically (\<lambda>d. except_integrity (AttemptConflict ''attempt retry transition conflict'')
       (complete_current sha new_id attempt_id owner_id fencing_token outcome d)) d"

definition resume_suspended_current ::
  "string \<Rightarrow> string \<Rightarrow> int \<Rightarrow> instant \<Rightarrow> db \<Rightarrow> (bool \<times> db) result" where
  "resume_suspended_current attempt_id memorial_id expected_version available_at d =
     (if blank attempt_id then Inl (ValueError ''attempt_id must be non-blank'')
      else if blank memorial_id then Inl (ValueError ''memorial_id must be non-blank'')
      else if expected_version < 1 then Inl (ValueError ''expected_version must be a positive integer'')
      else and_then (update_attempts
        (\<lambda>a. at_id a = attempt_id \<and> at_memorial a = memorial_id \<and> at_status a = Suspended \<and>
             at_version a = expected_version)
        (resumed_row available_at) d) (\<lambda>(n, d'). Inr (n = 1, d')))"

definition is_suspended :: "string \<Rightarrow> string \<Rightarrow> int \<Rightarrow> db \<Rightarrow> bool result \<times> db" where
  "is_suspended attempt_id memorial_id fencing_token d =
     atomically (\<lambda>d. and_then (select_attempt d attempt_id) (\<lambda>selected.
       Inr ((case selected of
               None \<Rightarrow> False
             | Some a \<Rightarrow> at_memorial a = memorial_id \<and> at_status a = Suspended \<and> at_fence a = fencing_token),
            d))) d"

end
