(* ===== verification/Attempt_Safety.thy ===== *)
theory Attempt_Safety
  imports Attempt_Ledger
begin

text \<open>
  What the attempt ledger promises: the invariant every operation keeps, fencing (one authority per
  memorial, tokens that only grow, a lost authority that never comes back), the retry budget, and the
  effect of each operation.
\<close>

section \<open>Well-formed ledgers\<close>

text \<open>
  A row on its own: it satisfies the v1 contract, it became available no earlier than it was created,
  and its lease, if any, began no earlier either.
\<close>

definition row_ok :: "attempt_lease \<Rightarrow> bool" where
  "row_ok a =
     (valid_attempt a \<and> at_created a \<le> at_available a \<and>
      (case at_heartbeat a of None \<Rightarrow> True | Some hb \<Rightarrow> at_created a \<le> hb))"

text \<open>
  The ledger: identities are unique, every memorial exists and has at most one active attempt, the
  attempts of a memorial agree on the budget, are numbered from 1 without gaps, all but the last are
  terminal, and tokens do not decrease along the numbers.
\<close>

definition siblings_ok :: "attempt_lease \<Rightarrow> attempt_lease \<Rightarrow> bool" where
  "siblings_ok a b =
     (at_memorial a = at_memorial b \<longrightarrow>
        at_max a = at_max b \<and>
        (at_no a < at_no b \<longrightarrow> \<not> active a \<and> at_fence a \<le> at_fence b) \<and>
        (at_no a = at_no b \<longrightarrow> at_id a = at_id b))"

definition ledger_ok :: "db \<Rightarrow> bool" where
  "ledger_ok d =
     (distinct (map at_id (db_attempts d)) \<and>
      (\<forall>a \<in> set (db_attempts d). row_ok a \<and> has_memorial d (at_memorial a)) \<and>
      (\<forall>a \<in> set (db_attempts d). \<forall>b \<in> set (db_attempts d). siblings_ok a b) \<and>
      (\<forall>a \<in> set (db_attempts d). \<forall>n. 1 \<le> n \<and> n < at_no a \<longrightarrow>
         (\<exists>b \<in> set (db_attempts d). at_memorial b = at_memorial a \<and> at_no b = n)))"

lemma ledger_okD:
  assumes "ledger_ok d"
  shows "distinct (map at_id (db_attempts d))"
    and "a \<in> set (db_attempts d) \<Longrightarrow> row_ok a"
    and "a \<in> set (db_attempts d) \<Longrightarrow> valid_attempt a"
    and "a \<in> set (db_attempts d) \<Longrightarrow> has_memorial d (at_memorial a)"
    and "a \<in> set (db_attempts d) \<Longrightarrow> b \<in> set (db_attempts d) \<Longrightarrow> siblings_ok a b"
  using assms by (auto simp: ledger_ok_def row_ok_def)

lemma ledger_ok_numbers:
  "ledger_ok d \<Longrightarrow> a \<in> set (db_attempts d) \<Longrightarrow> 1 \<le> n \<Longrightarrow> n < at_no a \<Longrightarrow>
     \<exists>b \<in> set (db_attempts d). at_memorial b = at_memorial a \<and> at_no b = n"
  by (simp add: ledger_ok_def)

lemma ledger_okI:
  assumes "distinct (map at_id (db_attempts d))"
    and "\<And>a. a \<in> set (db_attempts d) \<Longrightarrow> row_ok a \<and> has_memorial d (at_memorial a)"
    and "\<And>a b. a \<in> set (db_attempts d) \<Longrightarrow> b \<in> set (db_attempts d) \<Longrightarrow> siblings_ok a b"
    and "\<And>a n. a \<in> set (db_attempts d) \<Longrightarrow> 1 \<le> n \<Longrightarrow> n < at_no a \<Longrightarrow>
           \<exists>b \<in> set (db_attempts d). at_memorial b = at_memorial a \<and> at_no b = n"
  shows "ledger_ok d"
  using assms by (simp add: ledger_ok_def)

lemma active_same:
  assumes "ledger_ok d" "a \<in> set (db_attempts d)" "b \<in> set (db_attempts d)"
    and "active a" "active b" "at_memorial a = at_memorial b"
  shows "a = b"
proof -
  have "at_no a = at_no b"
    using ledger_okD(5) [OF assms(1,2,3)] ledger_okD(5) [OF assms(1,3,2)] assms(4-6)
    by (auto simp: siblings_ok_def)
  then have "at_id a = at_id b"
    using ledger_okD(5) [OF assms(1,2,3)] assms(6) by (auto simp: siblings_ok_def)
  then show ?thesis
    using ledger_okD(1) [OF assms(1)] assms(2,3) by (auto simp: distinct_map inj_on_def)
qed

lemma ledger_active_unique:
  assumes "ledger_ok d"
  shows "active_unique (db_attempts d)"
proof -
  have "distinct (filter active (db_attempts d))"
    using ledger_okD(1) [OF assms] by (auto simp: distinct_map)
  moreover have "inj_on at_memorial (set (filter active (db_attempts d)))"
    using active_same [OF assms] by (auto simp: inj_on_def)
  ultimately show ?thesis by (simp add: active_unique_def distinct_map)
qed

lemma valid_attempt_checks:
  assumes "valid_attempt a"
  shows "attempt_checks a"
proof -
  have "is_space (CHR '' '')" by (simp add: is_space_def)
  then have nb: "trim_nonempty s" if "\<not> blank s" for s
    using that unfolding blank_iff trim_nonempty_def list_ex_iff by metis
  show ?thesis
    using assms nb
    by (auto simp: valid_attempt_def attempt_shape_def attempt_checks_def opt_nonblank_def
             split: option.splits)
qed

section \<open>Updates of one row\<close>

text \<open>
  A transition of a row keeps its identity and the budget, never lowers the token, and does not
  reactivate a terminal row.
\<close>

definition transition_ok :: "attempt_lease \<Rightarrow> attempt_lease \<Rightarrow> bool" where
  "transition_ok a b =
     (at_id b = at_id a \<and> at_memorial b = at_memorial a \<and> at_no b = at_no a \<and> at_max b = at_max a \<and>
      at_created b = at_created a \<and> at_fence a \<le> at_fence b \<and> (active b \<longrightarrow> active a) \<and>
      (at_fence b \<noteq> at_fence a \<longrightarrow> active a))"

lemma transition_ok_refl [simp]: "transition_ok a a"
  by (simp add: transition_ok_def)

lemma siblings_ok_transition:
  assumes "siblings_ok a b" "siblings_ok b a" "transition_ok a a'" "transition_ok b b'" "at_id a \<noteq> at_id b"
  shows "siblings_ok a' b'"
  using assms by (auto simp: siblings_ok_def transition_ok_def)

lemma ledger_ok_update:
  assumes ok: "ledger_ok d"
    and tr: "\<And>a. a \<in> set (db_attempts d) \<Longrightarrow> p a \<Longrightarrow> transition_ok a (f a) \<and> row_ok (f a)"
  shows "ledger_ok (d\<lparr>db_attempts := update_rows p f (db_attempts d)\<rparr>)"
proof -
  define g where "g a = (if p a then f a else a)" for a
  have rows: "update_rows p f (db_attempts d) = map g (db_attempts d)"
    by (simp add: update_rows_def g_def)
  have g: "transition_ok a (g a)" "row_ok (g a)" if "a \<in> set (db_attempts d)" for a
    using tr [OF that] ledger_okD(2) [OF ok that] by (auto simp: g_def)
  have ids: "distinct (map at_id (map g (db_attempts d)))"
    using g(1) ledger_okD(1) [OF ok] by (simp add: transition_ok_def comp_def cong: map_cong)
  have sib: "siblings_ok (g a) (g b)"
    if "a \<in> set (db_attempts d)" "b \<in> set (db_attempts d)" for a b
  proof (cases "at_id a = at_id b")
    case True
    then have "a = b" using ledger_okD(1) [OF ok] that by (auto simp: distinct_map inj_on_def)
    then show ?thesis by (simp add: siblings_ok_def)
  next
    case False
    then show ?thesis
      using siblings_ok_transition ledger_okD(5) [OF ok] g(1) that by meson
  qed
  have numbered: "\<exists>b \<in> set (db_attempts d). at_memorial (g b) = at_memorial (g a) \<and> at_no (g b) = n"
    if a: "a \<in> set (db_attempts d)" and n: "1 \<le> n" "n < at_no (g a)" for a n
  proof -
    have "n < at_no a" using n(2) g(1) [OF a] by (simp add: transition_ok_def)
    then obtain b where "b \<in> set (db_attempts d)" "at_memorial b = at_memorial a" "at_no b = n"
      using ok a n(1) unfolding ledger_ok_def by blast
    then show ?thesis
      using g(1) a by (intro bexI [of _ b]) (auto simp: transition_ok_def)
  qed
  have fk: "has_memorial d (at_memorial (g a))" if "a \<in> set (db_attempts d)" for a
    using ledger_okD(4) [OF ok that] g(1) [OF that] by (simp add: transition_ok_def)
  show ?thesis
    unfolding ledger_ok_def rows
    using ids sib numbered g(2) fk
    by (simp add: has_memorial_def del: map_map)
qed

lemma update_attempts_Inr:
  "update_attempts p f d = Inr (n, d') \<Longrightarrow>
     n = count_rows p (db_attempts d) \<and> d' = d\<lparr>db_attempts := update_rows p f (db_attempts d)\<rparr>"
  by (auto simp: update_attempts_def Let_def split: if_splits)

text \<open>Transitions that keep the contract also satisfy the table's constraints, so the update succeeds.\<close>

lemma update_attempts_succeeds:
  assumes ok: "ledger_ok d"
    and tr: "\<And>a. a \<in> set (db_attempts d) \<Longrightarrow> p a \<Longrightarrow> transition_ok a (f a) \<and> row_ok (f a)"
  shows "update_attempts p f d =
           Inr (count_rows p (db_attempts d), d\<lparr>db_attempts := update_rows p f (db_attempts d)\<rparr>)"
proof -
  have "list_all (\<lambda>a. p a \<longrightarrow> attempt_checks (f a)) (db_attempts d)"
    using tr valid_attempt_checks by (auto simp: list_all_iff row_ok_def)
  moreover have "active_unique (update_rows p f (db_attempts d))"
    using ledger_active_unique [OF ledger_ok_update [of d p f, OF ok tr]] by simp
  ultimately show ?thesis by (simp add: update_attempts_def Let_def)
qed

lemma row_by_id:
  "ledger_ok d \<Longrightarrow> a \<in> set (db_attempts d) \<Longrightarrow> row_by at_id (at_id a) (db_attempts d) = Some a"
  by (rule row_by_unique) (simp_all add: ledger_okD)

lemma row_by_id_iff:
  "ledger_ok d \<Longrightarrow>
     row_by at_id i (db_attempts d) = Some a \<longleftrightarrow> a \<in> set (db_attempts d) \<and> at_id a = i"
  using row_by_SomeD row_by_id by metis

lemma select_attempt_eq:
  "ledger_ok d \<Longrightarrow> select_attempt d i = Inr (row_by at_id i (db_attempts d))"
  by (auto simp: select_attempt_def ledger_okD(3) row_by_id_iff row_by_id split: option.splits)

text \<open>An update that names a present row by its id and holds of it changes exactly that row.\<close>

lemma count_one:
  assumes "ledger_ok d" "a \<in> set (db_attempts d)" "g a"
  shows "count_rows (\<lambda>b. at_id b = at_id a \<and> g b) (db_attempts d) = 1"
  using count_rows_by_key [OF ledger_okD(1) [OF assms(1)], of "at_id a" g] row_by_id [OF assms(1,2)] assms(3) by simp

section \<open>Insertions\<close>

lemma insert_attempt_Inr:
  assumes "insert_attempt row d = Inr d'"
  shows "d' = d\<lparr>db_attempts := db_attempts d @ [row]\<rparr>"
    and "at_id row \<notin> at_id ` set (db_attempts d)"
    and "has_memorial d (at_memorial row)"
  using assms by (auto simp: insert_attempt_def list_ex_iff split: if_splits)

text \<open>The attempts of the memorial before an insertion: all terminal, lower numbers, no higher token.\<close>

definition precedes :: "attempt_lease \<Rightarrow> attempt_lease \<Rightarrow> bool" where
  "precedes b row =
     (at_memorial b = at_memorial row \<longrightarrow>
        at_no b < at_no row \<and> \<not> active b \<and> at_fence b \<le> at_fence row \<and> at_max b = at_max row)"

lemma ledger_ok_insert:
  assumes ok: "ledger_ok d" and ins: "insert_attempt row d = Inr d'" and row: "row_ok row"
    and pre: "\<And>b. b \<in> set (db_attempts d) \<Longrightarrow> precedes b row"
    and num: "at_no row = 1 \<or>
              (\<exists>b \<in> set (db_attempts d). at_memorial b = at_memorial row \<and> at_no b = at_no row - 1)"
  shows "ledger_ok d'"
proof -
  note d' = insert_attempt_Inr [OF ins]
  have sib: "siblings_ok b row \<and> siblings_ok row b" if "b \<in> set (db_attempts d)" for b
    using pre [OF that] by (auto simp: siblings_ok_def precedes_def)
  have gap: "\<exists>b \<in> set (db_attempts d). at_memorial b = at_memorial row \<and> at_no b = n"
    if n: "1 \<le> n" "n < at_no row" for n
  proof -
    from num n obtain b where b: "b \<in> set (db_attempts d)" "at_memorial b = at_memorial row"
      "at_no b = at_no row - 1" by auto
    show ?thesis
    proof (cases "n = at_no row - 1")
      case True
      with b show ?thesis by auto
    next
      case False
      with n b(3) have "n < at_no b" by simp
      with ok b(1,2) n(1) show ?thesis unfolding ledger_ok_def by metis
    qed
  qed
  have rows: "set (db_attempts d') = insert row (set (db_attempts d))"
    and mem: "has_memorial d' = has_memorial d"
    by (auto simp: d'(1) has_memorial_def)
  show ?thesis
  proof (rule ledger_okI)
    show "distinct (map at_id (db_attempts d'))"
      using ledger_okD(1) [OF ok] d'(2) by (simp add: d'(1))
    show "row_ok a \<and> has_memorial d' (at_memorial a)" if "a \<in> set (db_attempts d')" for a
      using that row d'(3) ledger_okD(2,4) [OF ok] by (auto simp: rows mem)
    show "siblings_ok a b" if "a \<in> set (db_attempts d')" "b \<in> set (db_attempts d')" for a b
      using that sib ledger_okD(5) [OF ok] by (auto simp: rows siblings_ok_def [of row row])
    show "\<exists>b \<in> set (db_attempts d'). at_memorial b = at_memorial a \<and> at_no b = n"
      if "a \<in> set (db_attempts d')" "1 \<le> n" "n < at_no a" for a n
      using that gap ledger_ok_numbers [OF ok] unfolding rows by blast
  qed
qed

section \<open>The row transitions\<close>

lemma fresh_row_ok:
  assumes "\<not> blank i" "\<not> blank m" "1 \<le> no" "no \<le> mx" "0 \<le> f" "cr \<le> av"
  shows "row_ok (new_attempt i m no f av mx cr c)"
  using assms
  by (simp add: row_ok_def new_attempt_def valid_attempt_def attempt_shape_def opt_nonblank_def
      status_failed_def)

lemma expired_row_ok:
  assumes "row_ok a" "at_status a = Claimed" "the (at_expires a) \<le> now"
  shows "row_ok (expired_row x now a)" "transition_ok a (expired_row x now a)"
  using assms
  by (auto simp: row_ok_def expired_row_def valid_attempt_def attempt_shape_def opt_nonblank_def
      status_failed_def transition_ok_def active_def)

lemma claimed_row_ok:
  assumes "row_ok a" "at_status a = Claimable" "at_available a \<le> now" "0 < l" "\<not> blank ow"
  shows "row_ok (claimed_row ow now l a)" "transition_ok a (claimed_row ow now l a)"
  using assms
  by (auto simp: row_ok_def claimed_row_def valid_attempt_def attempt_shape_def opt_nonblank_def
      status_failed_def transition_ok_def active_def)

lemma authority_at_iff:
  "authority_at a ow f t \<longleftrightarrow>
     at_status a = Claimed \<and> at_owner a = Some ow \<and> at_fence a = f \<and>
     (\<exists>hb ex. at_heartbeat a = Some hb \<and> at_expires a = Some ex \<and> hb \<le> t \<and> t < ex)"
  by (auto simp: authority_at_def split: option.splits)

lemma renewed_row_ok:
  assumes "row_ok a" "authority_at a ow f now" "0 < duration"
  shows "row_ok (renewed_row now duration a)" "transition_ok a (renewed_row now duration a)"
  using assms
  by (auto simp: row_ok_def renewed_row_def valid_attempt_def attempt_shape_def authority_at_iff
      transition_ok_def active_def)

lemma completed_row_ok:
  assumes "row_ok a" "authority_at a ow f (out_completed_at o')" "valid_outcome o'"
  shows "row_ok (completed_row (completion_status a o') o' a)"
    "transition_ok a (completed_row (completion_status a o') o' a)"
  using assms
  by (auto simp: row_ok_def completed_row_def valid_attempt_def attempt_shape_def authority_at_iff
      valid_outcome_def completion_status_def opt_nonblank_def
      status_failed_def transition_ok_def active_def split: attempt_disposition.splits)

lemma resumed_row_ok:
  assumes "row_ok a" "at_status a = Suspended" "at_created a \<le> av"
  shows "row_ok (resumed_row av a)" "transition_ok a (resumed_row av a)"
  using assms
  by (auto simp: row_ok_def resumed_row_def valid_attempt_def attempt_shape_def opt_nonblank_def
      status_failed_def transition_ok_def active_def)

section \<open>Evolution of a ledger\<close>

text \<open>
  What any sequence of operations may do to a row: a transition that, as long as the token stays the
  same, neither grants the lease again nor moves it to another owner.
\<close>

definition row_evolves :: "attempt_lease \<Rightarrow> attempt_lease \<Rightarrow> bool" where
  "row_evolves a b =
     (transition_ok a b \<and>
      (at_fence b = at_fence a \<and> at_status b = Claimed \<longrightarrow> at_status a = Claimed \<and> at_owner b = at_owner a))"

definition evolves :: "db \<Rightarrow> db \<Rightarrow> bool" where
  "evolves d d' = (\<forall>a \<in> set (db_attempts d). \<exists>b \<in> set (db_attempts d'). row_evolves a b)"

lemma row_evolves_refl [simp]: "row_evolves a a"
  by (simp add: row_evolves_def)

lemma row_evolves_trans: "row_evolves a b \<Longrightarrow> row_evolves b c \<Longrightarrow> row_evolves a c"
  by (auto simp: row_evolves_def transition_ok_def)

lemma evolves_refl [simp]: "evolves d d"
  unfolding evolves_def using row_evolves_refl by blast

lemma evolves_mono: "set (db_attempts d) \<subseteq> set (db_attempts d') \<Longrightarrow> evolves d d'"
  unfolding evolves_def using row_evolves_refl by blast

lemma evolves_trans: "evolves d d' \<Longrightarrow> evolves d' d'' \<Longrightarrow> evolves d d''"
  unfolding evolves_def using row_evolves_trans by meson

lemma evolves_update:
  assumes "\<And>a. a \<in> set (db_attempts d) \<Longrightarrow> p a \<Longrightarrow> row_evolves a (f a)"
  shows "evolves d (d\<lparr>db_attempts := update_rows p f (db_attempts d)\<rparr>)"
proof -
  have "row_evolves a (if p a then f a else a)" if "a \<in> set (db_attempts d)" for a
    using assms [OF that] by simp
  then have "\<exists>b \<in> set (update_rows p f (db_attempts d)). row_evolves a b"
    if "a \<in> set (db_attempts d)" for a
    using that unfolding set_update_rows by (metis (mono_tags, lifting) image_eqI)
  then show ?thesis by (simp add: evolves_def)
qed

lemma last_of_active:
  assumes "ledger_ok d" "a \<in> set (db_attempts d)" "active a" "b \<in> set (db_attempts d)"
    and "at_memorial b = at_memorial a" "b \<noteq> a"
  shows "at_no b < at_no a \<and> at_fence b \<le> at_fence a \<and> at_max b = at_max a \<and> \<not> active b"
proof -
  have "at_id b \<noteq> at_id a"
    using ledger_okD(1) [OF assms(1)] assms(2,4,6) unfolding distinct_map inj_on_def by blast
  then have "at_no b \<noteq> at_no a"
    using ledger_okD(5) [OF assms(1,4,2)] assms(5) by (auto simp: siblings_ok_def)
  moreover have "\<not> at_no a < at_no b"
    using ledger_okD(5) [OF assms(1,2,4)] assms(3,5) by (auto simp: siblings_ok_def)
  ultimately have "at_no b < at_no a" by simp
  then show ?thesis
    using ledger_okD(5) [OF assms(1,4,2)] assms(5) by (auto simp: siblings_ok_def)
qed

lemma precedes_after_retiring:
  assumes ok: "ledger_ok d" and a: "a \<in> set (db_attempts d)" "active a"
    and p: "\<And>b. b \<in> set (db_attempts d) \<Longrightarrow> p b \<longleftrightarrow> b = a"
    and f: "transition_ok a (f a)" "\<not> active (f a)" "at_fence (f a) = at_fence a"
    and b: "b \<in> set (update_rows p f (db_attempts d))"
  shows "precedes b (new_attempt i (at_memorial a) (at_no a + 1) (at_fence a) av (at_max a) cr c)"
proof -
  from b obtain b0 where b0: "b0 \<in> set (db_attempts d)" "b = (if b0 = a then f a else b0)"
    using p by (auto simp: set_update_rows)
  show ?thesis
    using last_of_active [OF ok a b0(1)] b0(2) f
    by (auto simp: precedes_def new_attempt_def transition_ok_def split: if_splits)
qed

text \<open>Retiring the active attempt and inserting the next one, as expiry and completion do.\<close>

lemma retire_and_retry:
  fixes p f d
  defines "d1 \<equiv> d\<lparr>db_attempts := update_rows p f (db_attempts d)\<rparr>"
  assumes ok: "ledger_ok d" and a: "a \<in> set (db_attempts d)" "active a"
    and p: "\<And>b. b \<in> set (db_attempts d) \<Longrightarrow> p b \<longleftrightarrow> b = a"
    and f: "transition_ok a (f a)" "row_ok (f a)" "\<not> active (f a)" "at_fence (f a) = at_fence a"
    and budget: "at_no a < at_max a" and t: "cr \<le> av" and i: "\<not> blank i"
    and ins: "insert_retry_attempt sha i a av cr d1 = Inr (r, d2)"
  shows "ledger_ok d2 \<and> evolves d d2 \<and> db_attempts d2 = update_rows p f (db_attempts d) @ [r] \<and>
         (\<exists>c. r = new_attempt i (at_memorial a) (at_no a + 1) (at_fence a) av (at_max a) cr c)"
proof -
  have tr: "transition_ok b (f b) \<and> row_ok (f b)" if "b \<in> set (db_attempts d)" "p b" for b
    using p [OF that(1)] that(2) f by auto
  have ok1: "ledger_ok d1" unfolding d1_def by (rule ledger_ok_update [OF ok tr])
  obtain c where i1: "insert_attempt (new_attempt i (at_memorial a) (at_no a + 1) (at_fence a) av (at_max a) cr c) d1 = Inr d2"
      (is "insert_attempt ?new d1 = _")
    and sel: "select_attempt d2 i = Inr (Some r)"
    using ins by (auto simp: insert_retry_attempt_def split: option.splits)
  have va: "valid_attempt a" using ok a(1) ledger_okD(3) by blast
  have new: "row_ok ?new"
    using va budget t i by (intro fresh_row_ok) (simp_all add: valid_attempt_def)
  have fa: "f a \<in> set (db_attempts d1)"
    using a(1) p [OF a(1)] by (force simp: d1_def set_update_rows)
  have "ledger_ok d2"
  proof (rule ledger_ok_insert [OF ok1 i1 new])
    show "precedes b ?new" if "b \<in> set (db_attempts d1)" for b
    proof (rule precedes_after_retiring [where d = d and p = p and f = f])
      show "b \<in> set (update_rows p f (db_attempts d))" using that by (simp add: d1_def)
    qed (use ok a p f in simp_all)
    show "at_no ?new = 1 \<or> (\<exists>b \<in> set (db_attempts d1). at_memorial b = at_memorial ?new \<and> at_no b = at_no ?new - 1)"
      using fa f(1) by (auto simp: new_attempt_def transition_ok_def)
  qed
  moreover have rows: "db_attempts d2 = db_attempts d1 @ [?new]"
    using insert_attempt_Inr(1) [OF i1] by simp
  moreover have "evolves d d2"
  proof -
    have "evolves d d1" unfolding d1_def
    proof (rule evolves_update)
      show "row_evolves b (f b)" if "b \<in> set (db_attempts d)" "p b" for b
        using p [OF that(1)] that(2) f by (auto simp: row_evolves_def active_def)
    qed
    moreover have "evolves d1 d2"
      using rows by (intro evolves_mono) auto
    ultimately show ?thesis by (rule evolves_trans)
  qed
  moreover have "r = ?new"
  proof -
    have "row_by at_id (at_id ?new) (db_attempts d2) = Some ?new"
      by (rule row_by_id [OF \<open>ledger_ok d2\<close>]) (simp add: rows)
    then show ?thesis
      using sel select_attempt_eq [OF \<open>ledger_ok d2\<close>] by (simp add: new_attempt_def)
  qed
  ultimately show ?thesis by (auto simp: d1_def)
qed

section \<open>What each operation does\<close>

lemma same_id_eq:
  "ledger_ok d \<Longrightarrow> a \<in> set (db_attempts d) \<Longrightarrow> b \<in> set (db_attempts d) \<Longrightarrow> at_id b = at_id a \<Longrightarrow> b = a"
  by (metis option.inject row_by_id)

text \<open>The guarded update of one present row, in every operation that has one.\<close>

lemma update_one:
  assumes ok: "ledger_ok d" and a: "a \<in> set (db_attempts d)" and g: "g a"
    and f: "transition_ok a (f a)" "row_ok (f a)"
    and upd: "update_attempts (\<lambda>b. at_id b = at_id a \<and> g b) f d = Inr (n, d')"
  shows "n = 1 \<and> d' = d\<lparr>db_attempts := update_rows (\<lambda>b. b = a) f (db_attempts d)\<rparr> \<and> ledger_ok d'"
proof -
  have p: "at_id b = at_id a \<and> g b \<longleftrightarrow> b = a" if "b \<in> set (db_attempts d)" for b
    using same_id_eq [OF ok a that] g by auto
  then have rows: "update_rows (\<lambda>b. at_id b = at_id a \<and> g b) f (db_attempts d) =
                   update_rows (\<lambda>b. b = a) f (db_attempts d)"
    by (simp add: update_rows_def cong: map_cong)
  have "ledger_ok (d\<lparr>db_attempts := update_rows (\<lambda>b. b = a) f (db_attempts d)\<rparr>)"
    using ok f by (intro ledger_ok_update) auto
  with update_attempts_Inr [OF upd] rows count_one [OF ok a, of g] g show ?thesis by auto
qed

lemma claim_row_cases:
  assumes ok: "ledger_ok d" and c: "c \<in> set (db_attempts d)" "at_status c = Claimable"
    and l: "0 < l" "\<not> blank ow" and r: "claim_row ow now l c d = Inr (r, d')"
  shows "(r = None \<and> d' = d \<and> now < at_available c) \<or>
         (r = Some (claimed_row ow now l c) \<and> at_available c \<le> now \<and>
          d' = d\<lparr>db_attempts := update_rows (\<lambda>b. b = c) (claimed_row ow now l) (db_attempts d)\<rparr> \<and>
          ledger_ok d' \<and> evolves d d')"
proof (cases "now < at_available c")
  case True
  with r show ?thesis by (simp add: claim_row_def)
next
  case False
  let ?f = "claimed_row ow now l"
  have f: "row_ok (?f c)" "transition_ok c (?f c)"
    using claimed_row_ok [OF _ c(2) _ l(1,2)] ledger_okD(2) [OF ok c(1)] False by auto
  obtain n d1 where upd: "update_attempts (\<lambda>a. at_id a = at_id c \<and>
      (at_status a = Claimable \<and> at_version a = at_version c \<and> at_available a \<le> now)) ?f d = Inr (n, d1)"
    and rest: "(if n \<noteq> 1 then Inr (None, d1) else and_then (select_attempt d1 (at_id c)) (\<lambda>claimed.
       case claimed of None \<Rightarrow> Inl (AttemptConflict ''claimed attempt disappeared'')
       | Some a \<Rightarrow> Inr (Some a, d1))) = Inr (r, d')"
    using r False by (auto simp: claim_row_def)
  have d1: "n = 1" "d1 = d\<lparr>db_attempts := update_rows (\<lambda>b. b = c) ?f (db_attempts d)\<rparr>" "ledger_ok d1"
    using update_one [OF ok c(1) _ f(2,1) upd] False c(2) by auto
  have mem: "?f c \<in> set (db_attempts d1)" using c(1) by (force simp: d1(2) set_update_rows)
  then have "row_by at_id (at_id c) (db_attempts d1) = Some (?f c)"
    using row_by_id [OF d1(3) mem] by (simp add: claimed_row_def)
  then have "r = Some (?f c) \<and> d' = d1"
    using rest d1(1) select_attempt_eq [OF d1(3)] by simp
  moreover have "evolves d d1" unfolding d1(2)
    using f(2) by (intro evolves_update) (auto simp: row_evolves_def claimed_row_def)
  ultimately show ?thesis using d1 False by auto
qed

lemma expire_claim_cases:
  assumes ok: "ledger_ok d" and c: "c \<in> set (db_attempts d)" "at_status c = Claimed"
    and t: "the (at_expires c) \<le> now" and i: "\<not> blank i"
    and r: "expire_claim sha i c now d = Inr (r, d')"
  shows "(at_max c \<le> at_no c \<and> r = None \<and>
          d' = d\<lparr>db_attempts := update_rows (\<lambda>b. b = c) (expired_row True now) (db_attempts d)\<rparr> \<and>
          ledger_ok d' \<and> evolves d d') \<or>
         (at_no c < at_max c \<and> ledger_ok d' \<and> evolves d d' \<and>
          (\<exists>corr. let n = new_attempt i (at_memorial c) (at_no c + 1) (at_fence c) now (at_max c) now corr in
             r = Some n \<and>
             db_attempts d' = update_rows (\<lambda>b. b = c) (expired_row False now) (db_attempts d) @ [n]))"
proof -
  let ?x = "at_max c \<le> at_no c" and ?f = "expired_row (at_max c \<le> at_no c) now"
  have f: "row_ok (?f c)" "transition_ok c (?f c)"
    using expired_row_ok [OF _ c(2) t] ledger_okD(2) [OF ok c(1)] by auto
  have e: "case at_expires c of None \<Rightarrow> False | Some e \<Rightarrow> e \<le> now"
    using t ledger_okD(3) [OF ok c(1)] c(2) by (auto elim: valid_attempt_claimedE)
  obtain n d1 where upd: "update_attempts (\<lambda>a. at_id a = at_id c \<and> (at_status a = Claimed \<and>
      at_owner a = at_owner c \<and> at_fence a = at_fence c \<and> at_version a = at_version c \<and>
      (case at_expires a of None \<Rightarrow> False | Some e \<Rightarrow> e \<le> now))) ?f d = Inr (n, d1)"
    and rest: "n = 1 \<Longrightarrow> (if ?x then Inr (None, d1) else
      and_then (insert_retry_attempt sha i c now now d1) (\<lambda>(a, d''). Inr (Some a, d''))) = Inr (r, d')"
    using r by (auto simp: expire_claim_def Let_def split: if_splits)
  have d1: "n = 1" "d1 = d\<lparr>db_attempts := update_rows (\<lambda>b. b = c) ?f (db_attempts d)\<rparr>" "ledger_ok d1"
    using update_one [OF ok c(1) _ f(2,1) upd] c(2) e by auto
  have na: "active c" "\<not> active (?f c)" "at_fence (?f c) = at_fence c"
    using c(2) by (auto simp: active_def expired_row_def)
  show ?thesis
  proof (cases ?x)
    case True
    have "evolves d d1" unfolding d1(2)
      using f(2) na by (intro evolves_update) (auto simp: row_evolves_def expired_row_def)
    with True rest d1 show ?thesis by auto
  next
    case False
    then obtain a where ins: "insert_retry_attempt sha i c now now d1 = Inr (a, d')" and "r = Some a"
      using rest [OF d1(1)] by auto
    with retire_and_retry [OF ok c(1) na(1) _ f(2,1) na(2,3) _ _ i ins [unfolded d1(2)]] False
    show ?thesis by (auto simp: Let_def)
  qed
qed

text \<open>What a claim that returns an attempt grants.\<close>

definition granted :: "string \<Rightarrow> string \<Rightarrow> instant \<Rightarrow> int \<Rightarrow> db \<Rightarrow> db \<Rightarrow> attempt_lease \<Rightarrow> bool" where
  "granted m ow now l d d' a =
     (a \<in> set (db_attempts d') \<and> at_memorial a = m \<and> at_status a = Claimed \<and> at_owner a = Some ow \<and>
      at_heartbeat a = Some now \<and> at_expires a = Some (now + seconds l) \<and>
      (\<forall>b \<in> set (db_attempts d). at_memorial b = m \<longrightarrow> at_fence b < at_fence a))"

lemma active_fence_max:
  assumes "ledger_ok d" "c \<in> set (db_attempts d)" "active c"
    and "b \<in> set (db_attempts d)" "at_memorial b = at_memorial c"
  shows "at_fence b \<le> at_fence c"
  using last_of_active [OF assms] by (cases "b = c") auto

lemma claim_row_granted:
  assumes ok: "ledger_ok d" and c: "c \<in> set (db_attempts d)" "at_status c = Claimable"
    and l: "0 < l" "\<not> blank ow" and r: "claim_row ow now l c d = Inr (Some a, d')"
  shows "granted (at_memorial c) ow now l d d' a"
proof -
  from claim_row_cases [OF ok c l r] have a: "a = claimed_row ow now l c"
    and d': "d' = d\<lparr>db_attempts := update_rows (\<lambda>b. b = c) (claimed_row ow now l) (db_attempts d)\<rparr>"
    by auto
  have "a \<in> set (db_attempts d')" using c(1) by (force simp: d' a set_update_rows)
  moreover have "at_fence b < at_fence a" if "b \<in> set (db_attempts d)" "at_memorial b = at_memorial c" for b
    using active_fence_max [OF ok c(1) _ that] c(2) by (simp add: a claimed_row_def active_def)
  ultimately show ?thesis by (simp add: granted_def a claimed_row_def)
qed

lemma claim_body_ok:
  assumes ok: "ledger_ok d" and i: "\<not> blank i" "\<not> blank ow" and l: "0 < l"
    and r: "claim_body sha i m ow now l d = Inr (r, d')"
  shows "ledger_ok d' \<and> evolves d d' \<and> (\<forall>a. r = Some a \<longrightarrow> granted m ow now l d d' a)"
proof (cases "first_of (select_ordered (\<lambda>a. at_memorial a = m \<and> active a)
               (\<lambda>a. (at_available a, at_created a, at_id a)) (db_attempts d))")
  case None
  with r ok show ?thesis by (auto simp: claim_body_def split: if_splits)
next
  case (Some c)
  have c: "c \<in> set (db_attempts d)" "at_memorial c = m" "active c"
    using first_of_select_Some [OF Some] by auto
  have v: "decode_attempt c = Inr c" using ledger_okD(3) [OF ok c(1)] by simp
  consider (idle) "r = None" "d' = d"
    | (claimable) "at_status c = Claimable" "claim_row ow now l c d = Inr (r, d')"
    | (expired) rep d1 where "at_status c = Claimed" "the (at_expires c) \<le> now"
        "expire_claim sha i c now d = Inr (rep, d1)"
        "(case rep of None \<Rightarrow> Inr (None, d1) | Some n \<Rightarrow> claim_row ow now l n d1) = Inr (r, d')"
    using r Some v c(3) by (auto simp: claim_body_def active_def split: if_splits)
  then show ?thesis
  proof cases
    case idle
    with ok show ?thesis by simp
  next
    case claimable
    note cases = claim_row_cases [OF ok c(1) claimable(1) l i(2) claimable(2)]
    have "granted m ow now l d d' a" if "r = Some a" for a
      using claim_row_granted [OF ok c(1) claimable(1) l i(2)] claimable(2) that c(2) by simp
    with cases ok show ?thesis by auto
  next
    case expired
    note e = expire_claim_cases [OF ok c(1) expired(1,2) i(1) expired(3)]
    show ?thesis
    proof (cases rep)
      case None
      with e expired(4) show ?thesis by (auto simp: Let_def)
    next
      case (Some n)
      with e obtain corr where
        n: "n = new_attempt i (at_memorial c) (at_no c + 1) (at_fence c) now (at_max c) now corr"
        and d1: "ledger_ok d1" "evolves d d1" "n \<in> set (db_attempts d1)"
        by (auto simp: Let_def)
      have nc: "at_status n = Claimable" "at_memorial n = m" "at_fence n = at_fence c"
        by (simp_all add: n new_attempt_def c(2))
      have cr: "claim_row ow now l n d1 = Inr (r, d')" using expired(4) Some by simp
      note cases = claim_row_cases [OF d1(1,3) nc(1) l i(2) cr]
      have "granted m ow now l d d' a" if "r = Some a" for a
      proof -
        have g: "granted m ow now l d1 d' a"
          using claim_row_granted [OF d1(1,3) nc(1) l i(2)] cr that nc(2) by simp
        have "at_fence b < at_fence a" if "b \<in> set (db_attempts d)" "at_memorial b = m" for b
          using active_fence_max [OF ok c(1,3) that(1)] that(2) c(2) g d1(3) nc
          by (fastforce simp: granted_def)
        with g show ?thesis by (simp add: granted_def)
      qed
      with cases d1 evolves_trans show ?thesis by blast
    qed
  qed
qed

lemma claim_ok:
  assumes "ledger_ok d" "\<not> blank i" "claim sha i m ow now l d = (res, d')"
  shows "ledger_ok d' \<and> evolves d d' \<and> (\<forall>a. res = Inr (Some a) \<longrightarrow> granted m ow now l d d' a)"
proof (cases res)
  case (Inl e)
  with assms show ?thesis
    using atomically_error_keeps [of "\<lambda>d. except_integrity (AttemptConflict ''attempt claim or retry conflict'')
      (claim_body sha i m ow now l d)" d e]
    by (auto simp: claim_def split: if_splits)
next
  case (Inr r)
  with assms have "claim_body sha i m ow now l d = Inr (r, d')" "\<not> blank ow" "0 < l"
    by (auto simp: claim_def split: if_splits)
  with claim_body_ok [OF assms(1,2)] Inr show ?thesis by auto
qed

lemma heartbeat_body_cases:
  assumes ok: "ledger_ok d" and r: "heartbeat_body i ow f now d = Inr (b, d')"
  shows "(\<not> b \<and> d' = d \<and> (\<forall>a \<in> set (db_attempts d). at_id a = i \<longrightarrow> \<not> authority_at a ow f now)) \<or>
         (b \<and> (\<exists>a \<in> set (db_attempts d). at_id a = i \<and> authority_at a ow f now \<and>
            d' = d\<lparr>db_attempts := update_rows (\<lambda>b. b = a)
                    (renewed_row now (the (at_expires a) - the (at_heartbeat a))) (db_attempts d)\<rparr>) \<and>
          ledger_ok d' \<and> evolves d d')"
proof (cases "\<exists>a \<in> set (db_attempts d). at_id a = i \<and> authority_at a ow f now")
  case False
  then have "b = False \<and> d' = d"
    using r row_by_SomeD [of at_id i "db_attempts d"]
    by (auto simp: heartbeat_body_def select_attempt_eq [OF ok] split: option.splits)
  with False show ?thesis by auto
next
  case True
  then obtain a where a: "a \<in> set (db_attempts d)" "at_id a = i" and au: "authority_at a ow f now" by auto
  let ?f = "renewed_row now (the (at_expires a) - the (at_heartbeat a))"
  have dur: "0 < the (at_expires a) - the (at_heartbeat a)" using au by (auto simp: authority_at_iff)
  have fa: "row_ok (?f a)" "transition_ok a (?f a)"
    using renewed_row_ok [OF _ au dur] ledger_okD(2) [OF ok a(1)] by auto
  have sel: "select_attempt d i = Inr (Some a)"
    using row_by_id [OF ok a(1)] a(2) by (simp add: select_attempt_eq [OF ok])
  obtain n d1 where upd: "update_attempts (\<lambda>b. at_id b = at_id a \<and> (authority_at b ow f now \<and>
      at_version b = at_version a)) ?f d = Inr (n, d1)"
    and rest: "n = 1 \<Longrightarrow> b \<and> d' = d1"
    using r sel au a(2) by (auto simp: heartbeat_body_def Let_def split: if_splits)
  have d1: "n = 1" "d1 = d\<lparr>db_attempts := update_rows (\<lambda>b. b = a) ?f (db_attempts d)\<rparr>" "ledger_ok d1"
    using update_one [OF ok a(1) _ fa(2,1) upd] au by auto
  moreover have "evolves d d1" unfolding d1(2)
    using fa(2) au by (intro evolves_update) (auto simp: row_evolves_def renewed_row_def authority_at_iff)
  ultimately show ?thesis using rest a au by auto
qed

lemma heartbeat_ok:
  assumes ok: "ledger_ok d" and h: "heartbeat i ow f now d = (res, d')"
  shows "ledger_ok d' \<and> evolves d d'"
proof (cases res)
  case (Inl e)
  with h ok show ?thesis
    using atomically_error_keeps [of "heartbeat_body i ow f now" d e]
    by (auto simp: heartbeat_def split: if_splits)
next
  case (Inr b)
  with h have "heartbeat_body i ow f now d = Inr (b, d')"
    by (auto simp: heartbeat_def split: if_splits)
  from heartbeat_body_cases [OF ok this] ok show ?thesis by auto
qed

lemma complete_current_cases:
  assumes ok: "ledger_ok d" and o': "valid_outcome o'" and ni: "\<not> blank ni"
    and r: "complete_current sha ni i ow f o' d = Inr (b, d')"
  shows "(\<not> b \<and> d' = d \<and>
          (\<forall>a \<in> set (db_attempts d). at_id a = i \<longrightarrow> \<not> authority_at a ow f (out_completed_at o'))) \<or>
         (b \<and> ledger_ok d' \<and> evolves d d' \<and>
          (\<exists>a \<in> set (db_attempts d). at_id a = i \<and> authority_at a ow f (out_completed_at o') \<and>
             (let rows = update_rows (\<lambda>b. b = a) (completed_row (completion_status a o') o') (db_attempts d)
              in if out_disposition o' = DRetry \<and> at_no a < at_max a
                 then \<exists>c. db_attempts d' = rows @ [new_attempt ni (at_memorial a) (at_no a + 1) (at_fence a)
                              (the (out_retry_at o')) (at_max a) (out_completed_at o') c]
                 else d' = d\<lparr>db_attempts := rows\<rparr>)))"
proof (cases "\<exists>a \<in> set (db_attempts d). at_id a = i \<and> authority_at a ow f (out_completed_at o')")
  case False
  then have "b = False \<and> d' = d"
    using r row_by_SomeD [of at_id i "db_attempts d"]
    by (auto simp: complete_current_def select_attempt_eq [OF ok] split: option.splits if_splits)
  with False show ?thesis by auto
next
  case True
  then obtain a where a: "a \<in> set (db_attempts d)" "at_id a = i"
    and au: "authority_at a ow f (out_completed_at o')" by auto
  let ?f = "completed_row (completion_status a o') o'"
  have fa: "row_ok (?f a)" "transition_ok a (?f a)"
    using completed_row_ok [OF _ au o'] ledger_okD(2) [OF ok a(1)] by auto
  have sel: "select_attempt d i = Inr (Some a)"
    using row_by_id [OF ok a(1)] a(2) by (simp add: select_attempt_eq [OF ok])
  obtain n d1 where upd: "update_attempts (\<lambda>b. at_id b = at_id a \<and>
      (authority_at b ow f (out_completed_at o') \<and> at_version b = at_version a)) ?f d = Inr (n, d1)"
    and rest: "n = 1 \<Longrightarrow> (if out_disposition o' = DRetry \<and> at_no a < at_max a
      then and_then (insert_retry_attempt sha ni a (the (out_retry_at o')) (out_completed_at o') d1)
             (\<lambda>(a, d''). Inr (True, d''))
      else Inr (True, d1)) = Inr (b, d')"
    using r sel au a(2) by (auto simp: complete_current_def Let_def not_le split: if_splits)
  have d1: "n = 1" "d1 = d\<lparr>db_attempts := update_rows (\<lambda>b. b = a) ?f (db_attempts d)\<rparr>" "ledger_ok d1"
    using update_one [OF ok a(1) _ fa(2,1) upd] au by auto
  have st: "active a" "at_fence (?f a) = at_fence a" "at_status (?f a) \<noteq> Claimed"
    using au by (auto simp: active_def authority_at_iff completed_row_def completion_status_def
        split: attempt_disposition.splits)
  show ?thesis
  proof (cases "out_disposition o' = DRetry \<and> at_no a < at_max a")
    case True
    then have na: "\<not> active (?f a)" and rt: "out_completed_at o' \<le> the (out_retry_at o')"
      using o' by (auto simp: active_def completed_row_def completion_status_def valid_outcome_def
          split: option.splits)
    from True rest [OF d1(1)] obtain r where
      ins: "insert_retry_attempt sha ni a (the (out_retry_at o')) (out_completed_at o') d1 = Inr (r, d')"
      and b by auto
    with retire_and_retry [OF ok a(1) st(1) _ fa(2,1) na st(2) _ rt ni ins [unfolded d1(2)]] True a au
    show ?thesis by (auto simp: Let_def)
  next
    case False
    then have "b \<and> d' = d1" using rest [OF d1(1)] by auto
    moreover have "evolves d d1" unfolding d1(2)
      using fa(2) st by (intro evolves_update) (auto simp: row_evolves_def)
    ultimately show ?thesis using False a au d1 by (auto simp: Let_def)
  qed
qed

lemma complete_ok:
  assumes ok: "ledger_ok d" and o': "valid_outcome o'" and ni: "\<not> blank ni"
    and h: "complete sha ni i ow f o' d = (res, d')"
  shows "ledger_ok d' \<and> evolves d d'"
proof (cases res)
  case (Inl e)
  with h ok show ?thesis
    using atomically_error_keeps [of "\<lambda>d. except_integrity (AttemptConflict ''attempt retry transition conflict'')
       (complete_current sha ni i ow f o' d)" d e]
    by (auto simp: complete_def)
next
  case (Inr b)
  with h have "complete_current sha ni i ow f o' d = Inr (b, d')"
    by (auto simp: complete_def)
  from complete_current_cases [OF ok o' ni this] ok show ?thesis by auto
qed

lemma resume_ok:
  assumes ok: "ledger_ok d" and r: "resume_suspended_current i m v av d = Inr (b, d')"
    and t: "\<And>a. a \<in> set (db_attempts d) \<Longrightarrow> at_id a = i \<Longrightarrow> at_created a \<le> av"
  shows "ledger_ok d' \<and> evolves d d'"
proof -
  let ?p = "\<lambda>a. at_id a = i \<and> at_memorial a = m \<and> at_status a = Suspended \<and> at_version a = v"
  obtain n where "update_attempts ?p (resumed_row av) d = Inr (n, d')"
    using r by (auto simp: resume_suspended_current_def split: if_splits)
  then have d': "d' = d\<lparr>db_attempts := update_rows ?p (resumed_row av) (db_attempts d)\<rparr>"
    using update_attempts_Inr by blast
  have f: "row_ok (resumed_row av a)" "transition_ok a (resumed_row av a)"
    if "a \<in> set (db_attempts d)" "?p a" for a
    using resumed_row_ok [of a av] ledger_okD(2) [OF ok that(1)] t that by auto
  have "ledger_ok d'" unfolding d' using f by (intro ledger_ok_update [OF ok]) auto
  moreover have "evolves d d'" unfolding d'
    using f by (intro evolves_update) (auto simp: row_evolves_def resumed_row_def)
  ultimately show ?thesis by simp
qed

lemma enqueue_ok:
  assumes ok: "ledger_ok d" and ni: "\<not> blank ni"
    and r: "enqueue_initial sha now ni m av mx i d = Inr (a, d')"
  shows "ledger_ok d' \<and> evolves d d' \<and> a \<in> set (db_attempts d') \<and> at_memorial a = m \<and> at_no a = 1 \<and>
         at_available a = av \<and> at_max a = mx"
proof (cases "find (\<lambda>a. at_memorial a = m \<and> at_no a = 1) (db_attempts d)")
  case (Some row)
  then have "row \<in> set (db_attempts d)" "at_memorial row = m" "at_no row = 1"
    by (auto simp: find_Some_iff)
  moreover have "a = row" "d' = d" "at_available a = av" "at_max a = mx"
    using r Some by (auto simp: enqueue_initial_def split: if_splits option.splits)
  ultimately show ?thesis using ok by simp
next
  case None
  have none: "at_memorial b \<noteq> m" if b: "b \<in> set (db_attempts d)" for b
  proof
    assume m: "at_memorial b = m"
    have "1 \<le> at_no b" using ledger_okD(3) [OF ok b] by (simp add: valid_attempt_def)
    then have "\<exists>b' \<in> set (db_attempts d). at_memorial b' = m \<and> at_no b' = 1"
      using ledger_ok_numbers [OF ok b, of 1] b m by (cases "at_no b = 1") auto
    with None show False by (auto simp: find_None_iff)
  qed
  let ?i = "case i of None \<Rightarrow> ni | Some j \<Rightarrow> j"
  obtain c where ins: "insert_attempt (new_attempt ?i m 1 0 av mx (min now av) c) d = Inr d'"
      (is "insert_attempt ?new d = _")
    and sel: "select_attempt d' ?i = Inr (Some a)"
    and inp: "\<not> blank m" "0 < mx" "opt_nonblank i"
    using r None by (auto simp: enqueue_initial_def Let_def split: if_splits option.splits)
  have new: "row_ok ?new"
    using inp ni by (intro fresh_row_ok) (auto simp: opt_nonblank_def split: option.splits)
  have ok': "ledger_ok d'"
    by (rule ledger_ok_insert [OF ok ins new]) (use none in \<open>auto simp: precedes_def new_attempt_def\<close>)
  have rows: "db_attempts d' = db_attempts d @ [?new]" using insert_attempt_Inr(1) [OF ins] by simp
  then have "row_by at_id (at_id ?new) (db_attempts d') = Some ?new"
    by (intro row_by_id [OF ok']) simp
  then have "a = ?new" using sel select_attempt_eq [OF ok'] by (simp add: new_attempt_def)
  moreover have "evolves d d'" using rows by (intro evolves_mono) auto
  ultimately show ?thesis using ok' rows by (simp add: new_attempt_def)
qed

section \<open>Runs of the ledger\<close>

text \<open>
  One step: any of the operations, with a non-blank identifier where one is drawn, a valid outcome
  where one is reported and a resumption no earlier than the attempt's creation; or a change of the
  other tables that deletes no memorial.
\<close>

inductive ledger_step :: "(string \<Rightarrow> string) \<Rightarrow> db \<Rightarrow> db \<Rightarrow> bool" for sha where
  enqueue: "\<not> blank ni \<Longrightarrow> enqueue_initial sha now ni m av mx i d = Inr (a, d') \<Longrightarrow> ledger_step sha d d'"
| claim: "\<not> blank ni \<Longrightarrow> claim sha ni m ow now l d = (res, d') \<Longrightarrow> ledger_step sha d d'"
| heartbeat: "heartbeat i ow f now d = (res', d') \<Longrightarrow> ledger_step sha d d'"
| complete: "\<not> blank ni \<Longrightarrow> valid_outcome o' \<Longrightarrow> complete sha ni i ow f o' d = (res', d') \<Longrightarrow>
    ledger_step sha d d'"
| complete_current: "\<not> blank ni \<Longrightarrow> valid_outcome o' \<Longrightarrow>
    complete_current sha ni i ow f o' d = Inr (b, d') \<Longrightarrow> ledger_step sha d d'"
| resume: "resume_suspended_current i m v av d = Inr (b, d') \<Longrightarrow>
    list_all (\<lambda>a. at_id a = i \<longrightarrow> at_created a \<le> av) (db_attempts d) \<Longrightarrow> ledger_step sha d d'"
| other: "db_attempts d' = db_attempts d \<Longrightarrow>
    set (map mem_id (db_memorials d)) \<subseteq> set (map mem_id (db_memorials d')) \<Longrightarrow> ledger_step sha d d'"

inductive_cases ledger_stepE: "ledger_step sha d d'"

lemma ledger_step_ok:
  assumes "ledger_step sha d d'" and ok: "ledger_ok d"
  shows "ledger_ok d' \<and> evolves d d'"
  using assms(1)
proof cases
  case (enqueue ni now m av mx i a)
  then show ?thesis using enqueue_ok [OF ok] by blast
next
  case (claim ni m ow now l res)
  then show ?thesis using claim_ok [OF ok] by blast
next
  case (heartbeat i ow f now res')
  then show ?thesis using heartbeat_ok [OF ok] by blast
next
  case (complete ni o' i ow f res')
  then show ?thesis using complete_ok [OF ok] by blast
next
  case (complete_current ni o' i ow f b)
  then show ?thesis using complete_current_cases [OF ok _ _ complete_current(3)] ok by auto
next
  case (resume i m v av b)
  then show ?thesis using resume_ok [OF ok resume(1)] by (auto simp: list_all_iff)
next
  case other
  then show ?thesis
    using ok by (auto simp: ledger_ok_def has_memorial_iff intro: evolves_mono)
qed

text \<open>\<open>require_current\<close> accepts exactly the authority the row holds.\<close>

lemma require_current_row:
  "require_current i ow f now d = Inr () \<longleftrightarrow>
     \<not> blank i \<and> \<not> blank ow \<and> 0 < f \<and>
     (\<exists>a. row_by at_id i (db_attempts d) = Some a \<and> authority_at a ow f now)"
  by (cases "row_by at_id i (db_attempts d)")
     (auto simp: require_current_def authority_at_def split: option.splits)

lemma require_current_iff:
  "ledger_ok d \<Longrightarrow> require_current i ow f now d = Inr () \<longleftrightarrow>
     \<not> blank i \<and> \<not> blank ow \<and> 0 < f \<and> (\<exists>a \<in> set (db_attempts d). at_id a = i \<and> authority_at a ow f now)"
  unfolding require_current_row using row_by_id_iff by blast

type_synonym authority = "string \<times> string \<times> int"

definition holds_authority :: "db \<Rightarrow> authority \<Rightarrow> bool" where
  "holds_authority d k = (case k of (i, ow, f) \<Rightarrow> \<exists>now. require_current i ow f now d = Inr ())"

text \<open>
  The authority is lost: the attempt's row carries a later token, or the same token without the lease.
\<close>

definition authority_lost :: "db \<Rightarrow> authority \<Rightarrow> bool" where
  "authority_lost d k =
     (case k of (i, ow, f) \<Rightarrow>
        list_ex (\<lambda>a. at_id a = i \<and> (f < at_fence a \<or>
           (f = at_fence a \<and> (at_status a \<noteq> Claimed \<or> at_owner a \<noteq> Some ow)))) (db_attempts d))"

lemma authority_lost_evolves:
  assumes "evolves d d'" "authority_lost d k"
  shows "authority_lost d' k"
proof -
  obtain i ow f where k: "k = (i, ow, f)" by (cases k)
  from assms(2) obtain a where a: "a \<in> set (db_attempts d)" "at_id a = i"
    "f < at_fence a \<or> (f = at_fence a \<and> (at_status a \<noteq> Claimed \<or> at_owner a \<noteq> Some ow))"
    by (auto simp: authority_lost_def k list_ex_iff)
  from assms(1) a(1) obtain b where b: "b \<in> set (db_attempts d')" "row_evolves a b"
    by (auto simp: evolves_def)
  then have "at_id b = i \<and> (f < at_fence b \<or> (f = at_fence b \<and> (at_status b \<noteq> Claimed \<or> at_owner b \<noteq> Some ow)))"
    using a by (auto simp: row_evolves_def transition_ok_def)
  with b(1) show ?thesis by (auto simp: authority_lost_def k list_ex_iff)
qed

lemma authority_lost_not_held:
  assumes ok: "ledger_ok d" and "authority_lost d k"
  shows "\<not> holds_authority d k"
proof -
  obtain i ow f where k: "k = (i, ow, f)" by (cases k)
  from assms(2) obtain a where a: "a \<in> set (db_attempts d)" "at_id a = i"
    "f < at_fence a \<or> (f = at_fence a \<and> (at_status a \<noteq> Claimed \<or> at_owner a \<noteq> Some ow))"
    by (auto simp: authority_lost_def k list_ex_iff)
  have "\<not> authority_at b ow f now" if "b \<in> set (db_attempts d)" "at_id b = i" for b now
    using same_id_eq [OF ok a(1) that(1)] that(2) a(2,3) by (auto simp: authority_at_iff)
  then show ?thesis by (auto simp: holds_authority_def k require_current_iff [OF ok])
qed

interpretation ledger: revocable_authority "ledger_step sha" ledger_ok evolves holds_authority authority_lost
  for sha
proof unfold_locales
  show "ledger_ok d \<Longrightarrow> ledger_step sha d d' \<Longrightarrow> ledger_ok d'"
    and "ledger_ok d \<Longrightarrow> ledger_step sha d d' \<Longrightarrow> evolves d d'" for d d'
    using ledger_step_ok by blast+
  show "evolves d d" for d by simp
  show "evolves d d' \<Longrightarrow> evolves d' d'' \<Longrightarrow> evolves d d''" for d d' d'' by (rule evolves_trans)
  show "ledger_ok d \<Longrightarrow> ledger_ok d' \<Longrightarrow> evolves d d' \<Longrightarrow> authority_lost d k \<Longrightarrow> authority_lost d' k" for d d' k
    by (rule authority_lost_evolves)
  show "ledger_ok d \<Longrightarrow> authority_lost d k \<Longrightarrow> \<not> holds_authority d k" for d k
    by (rule authority_lost_not_held)
qed

section \<open>Success of the transitions\<close>

lemma update_one_succeeds:
  assumes ok: "ledger_ok d" and a: "a \<in> set (db_attempts d)" and g: "g a"
    and f: "transition_ok a (f a)" "row_ok (f a)"
  shows "update_attempts (\<lambda>b. at_id b = at_id a \<and> g b) f d =
           Inr (1, d\<lparr>db_attempts := update_rows (\<lambda>b. b = a) f (db_attempts d)\<rparr>)"
proof -
  have "transition_ok b (f b) \<and> row_ok (f b)" if "b \<in> set (db_attempts d)" "at_id b = at_id a \<and> g b" for b
    using same_id_eq [OF ok a that(1)] that(2) f by simp
  from update_attempts_succeeds [OF ok this] update_one [OF ok a, of g f, OF g f] show ?thesis
    by auto
qed

lemma insert_fresh:
  assumes ok: "ledger_ok d" and row: "row_ok row" and id: "at_id row \<notin> at_id ` set (db_attempts d)"
    and pre: "\<And>b. b \<in> set (db_attempts d) \<Longrightarrow> precedes b row"
    and mem: "has_memorial d (at_memorial row)"
  shows "insert_attempt row d = Inr (d\<lparr>db_attempts := db_attempts d @ [row]\<rparr>)"
proof -
  have "at_memorial row \<notin> at_memorial ` set (filter active (db_attempts d))"
    using pre by (auto simp: precedes_def)
  then have "active_unique (db_attempts d @ [row])"
    using ledger_active_unique [OF ok] by (simp add: active_unique_def)
  moreover have "\<not> list_ex (\<lambda>a. at_id a = at_id row \<or> (at_memorial a = at_memorial row \<and> at_no a = at_no row))
      (db_attempts d)"
    using id pre unfolding list_ex_iff precedes_def by (metis image_eqI less_irrefl)
  moreover have "attempt_checks row" using row valid_attempt_checks by (simp add: row_ok_def)
  ultimately show ?thesis using mem by (simp add: insert_attempt_def)
qed

text \<open>Claiming a claimable attempt whose time has come succeeds.\<close>

lemma claim_row_succeeds:
  assumes ok: "ledger_ok d" and c: "c \<in> set (db_attempts d)" "at_status c = Claimable"
    and t: "at_available c \<le> now" and l: "0 < l" "\<not> blank ow"
  shows "claim_row ow now l c d =
    Inr (Some (claimed_row ow now l c),
         d\<lparr>db_attempts := update_rows (\<lambda>b. b = c) (claimed_row ow now l) (db_attempts d)\<rparr>)"
proof -
  let ?p = "\<lambda>a. at_id a = at_id c \<and> at_status a = Claimable \<and> at_version a = at_version c \<and> at_available a \<le> now"
  let ?f = "claimed_row ow now l"
  have f: "row_ok (?f c)" "transition_ok c (?f c)"
    using claimed_row_ok [OF _ c(2) t l(1,2)] ledger_okD(2) [OF ok c(1)] by auto
  let ?d' = "d\<lparr>db_attempts := update_rows (\<lambda>b. b = c) ?f (db_attempts d)\<rparr>"
  have upd: "update_attempts ?p ?f d = Inr (1, ?d')"
    by (rule update_one_succeeds [where f = ?f, OF ok c(1) _ f(2,1)]) (use c(2) t in simp)
  have ok': "ledger_ok ?d'" using f by (intro ledger_ok_update [OF ok]) auto
  have "?f c \<in> set (db_attempts ?d')" using c(1) by (force simp: set_update_rows)
  then have sel: "select_attempt ?d' (at_id c) = Inr (Some (?f c))"
    using row_by_id [OF ok', of "?f c"] by (simp add: select_attempt_eq [OF ok'] claimed_row_def)
  show ?thesis using t upd sel by (simp add: claim_row_def)
qed

lemma claim_first_active:
  assumes ok: "ledger_ok d" and c: "c \<in> set (db_attempts d)" "at_memorial c = m" "active c"
  shows "first_of (select_ordered (\<lambda>a. at_memorial a = m \<and> active a)
               (\<lambda>a. (at_available a, at_created a, at_id a)) (db_attempts d)) = Some c"
proof (cases "first_of (select_ordered (\<lambda>a. at_memorial a = m \<and> active a)
               (\<lambda>a. (at_available a, at_created a, at_id a)) (db_attempts d))")
  case None
  with c show ?thesis by (auto simp: first_of_select_None)
next
  case (Some x)
  with first_of_select_Some [OF Some] active_same [OF ok _ c(1) _ c(3)] c(2) show ?thesis by auto
qed

definition is_root :: "db \<Rightarrow> string \<Rightarrow> bool" where
  "is_root d m = (case row_by mem_id m (db_memorials d) of None \<Rightarrow> True | Some r \<Rightarrow> mem_dag_node r = None)"

lemma claim_unfold:
  assumes ok: "ledger_ok d" and c: "c \<in> set (db_attempts d)" "at_memorial c = m" "active c" "at_status c \<noteq> Suspended"
    and inp: "\<not> blank m" "\<not> blank ow" "0 < l" "is_root d m"
  shows "claim sha i m ow now l d =
    atomically (\<lambda>d. except_integrity (AttemptConflict ''attempt claim or retry conflict'')
      (if at_status c = Claimed
       then (if now < the (at_expires c) then Inr (None, d)
             else and_then (expire_claim sha i c now d) (\<lambda>(rep, d').
                case rep of None \<Rightarrow> Inr (None, d') | Some n \<Rightarrow> claim_row ow now l n d'))
       else claim_row ow now l c d)) d"
  using inp c(4) claim_first_active [OF ok c(1-3)] ledger_okD(3) [OF ok c(1)]
  by (auto simp: claim_def claim_body_def is_root_def atomically_def decode_attempt_def
      split: option.splits)

lemma expire_claim_succeeds:
  assumes ok: "ledger_ok d" and c: "c \<in> set (db_attempts d)" "at_status c = Claimed"
    and t: "the (at_expires c) \<le> now" and i: "\<not> blank i" "i \<notin> at_id ` set (db_attempts d)"
    and corr: "correlation_for_memorial sha
       (d\<lparr>db_attempts := update_rows (\<lambda>b. b = c) (expired_row False now) (db_attempts d)\<rparr>) (at_memorial c) None = Inr corr"
  shows "\<exists>r d'. expire_claim sha i c now d = Inr (r, d')"
proof -
  let ?x = "at_max c \<le> at_no c"
  let ?f = "expired_row ?x now"
  let ?p = "\<lambda>a. at_id a = at_id c \<and> at_status a = Claimed \<and> at_owner a = at_owner c \<and>
      at_fence a = at_fence c \<and> at_version a = at_version c \<and>
      (case at_expires a of None \<Rightarrow> False | Some e \<Rightarrow> e \<le> now)"
  have f: "row_ok (?f c)" "transition_ok c (?f c)"
    using expired_row_ok [OF _ c(2) t] ledger_okD(2) [OF ok c(1)] by auto
  have e: "case at_expires c of None \<Rightarrow> False | Some e \<Rightarrow> e \<le> now"
    using t ledger_okD(3) [OF ok c(1)] c(2) by (auto elim: valid_attempt_claimedE)
  let ?d1 = "d\<lparr>db_attempts := update_rows (\<lambda>b. b = c) ?f (db_attempts d)\<rparr>"
  have upd: "update_attempts ?p ?f d = Inr (1, ?d1)"
    by (rule update_one_succeeds [where f = ?f, OF ok c(1) _ f(2,1)]) (use c(2) e in simp)
  have ok1: "ledger_ok ?d1" using f by (intro ledger_ok_update [OF ok]) auto
  have na: "active c" "\<not> active (?f c)" "at_fence (?f c) = at_fence c"
    using c(2) by (auto simp: active_def expired_row_def)
  show ?thesis
  proof (cases ?x)
    case True
    with upd show ?thesis by (simp add: expire_claim_def Let_def)
  next
    case False
    let ?new = "new_attempt i (at_memorial c) (at_no c + 1) (at_fence c) now (at_max c) now corr"
    have va: "valid_attempt c" using ledger_okD(3) [OF ok c(1)] .
    have new: "row_ok ?new" using va False i(1) by (intro fresh_row_ok) (auto simp: valid_attempt_def)
    have "map at_id (db_attempts ?d1) = map at_id (db_attempts d)"
      by (simp add: map_update_rows expired_row_def)
    then have ids: "at_id ` set (db_attempts ?d1) = at_id ` set (db_attempts d)"
      by (metis list.set_map)
    have pre: "precedes b ?new" if "b \<in> set (db_attempts ?d1)" for b
    proof (rule precedes_after_retiring [where d = d and p = "\<lambda>b. b = c" and f = ?f])
      show "b \<in> set (update_rows (\<lambda>b. b = c) ?f (db_attempts d))" using that by simp
    qed (use ok c(1) na f(2) in simp_all)
    have ins: "insert_attempt ?new ?d1 = Inr (?d1\<lparr>db_attempts := db_attempts ?d1 @ [?new]\<rparr>)"
    proof (rule insert_fresh [OF ok1 new _ pre])
      show "at_id ?new \<notin> at_id ` set (db_attempts ?d1)" using i(2) ids by (simp add: new_attempt_def)
      show "has_memorial ?d1 (at_memorial ?new)"
        using ledger_okD(4) [OF ok c(1)] by (simp add: new_attempt_def has_memorial_def)
    qed
    let ?d2 = "?d1\<lparr>db_attempts := db_attempts ?d1 @ [?new]\<rparr>"
    have ok2: "ledger_ok ?d2"
    proof (rule ledger_ok_insert [OF ok1 ins new pre])
      have "?f c \<in> set (db_attempts ?d1)" using c(1) by (force simp: set_update_rows)
      then show "at_no ?new = 1 \<or> (\<exists>b \<in> set (db_attempts ?d1). at_memorial b = at_memorial ?new \<and> at_no b = at_no ?new - 1)"
        by (intro disjI2 bexI [of _ "?f c"]) (simp_all add: new_attempt_def expired_row_def)
    qed
    have "row_by at_id i (db_attempts ?d2) = Some ?new"
      using row_by_id [OF ok2, of ?new] by (simp add: new_attempt_def)
    then have "select_attempt ?d2 i = Inr (Some ?new)"
      unfolding select_attempt_eq [OF ok2] by (rule arg_cong)
    then show ?thesis
      using False upd corr ins by (simp add: expire_claim_def insert_retry_attempt_def Let_def)
  qed
qed

section \<open>A concrete ledger\<close>

definition zero_hash :: "string \<Rightarrow> string" where
  "zero_hash s = replicate 64 (CHR ''0'')"

definition demo_memorial :: memorial_row where
  "demo_memorial =
     \<lparr>mem_id = ''m1'', mem_edict = ''e1'', mem_status = TRunning, mem_dag_node = None, mem_summary = None,
      mem_result = None, mem_final_output = None, mem_usage = None, mem_reasoning = None,
      mem_error = None, mem_failure_reason = None, mem_completed = None,
     mem_instruction = ''g'', mem_parent = None, mem_attempt = 1, mem_created = 0, mem_runtime_override = None,
     mem_acceptance_override = None\<rparr>"

definition demo_attempt :: attempt_lease where
  "demo_attempt = new_attempt ''a1'' ''m1'' 1 0 5 2 3 ''c1''"

text \<open>A ledger with one claimable attempt, and the same attempt leased to \<open>w1\<close> from 10 for a second.\<close>

definition demo_ledger :: db where
  "demo_ledger = empty_db\<lparr>db_memorials := [demo_memorial], db_attempts := [demo_attempt]\<rparr>"

definition demo_leased :: db where
  "demo_leased = demo_ledger\<lparr>db_attempts := [claimed_row ''w1'' 10 1 demo_attempt]\<rparr>"

definition demo_spent :: db where
  "demo_spent = demo_ledger\<lparr>db_attempts := [(claimed_row ''w1'' 10 1 demo_attempt)\<lparr>at_max := 1\<rparr>]\<rparr>"

lemmas demo_defs = demo_ledger_def demo_leased_def demo_spent_def demo_attempt_def demo_memorial_def
  empty_db_def new_attempt_def claimed_row_def

lemmas row_defs = row_ok_def valid_attempt_def attempt_shape_def opt_nonblank_def status_failed_def
  blank_code is_space_def

lemma demo_ok: "ledger_ok demo_ledger" "ledger_ok demo_leased" "ledger_ok demo_spent"
  by (simp_all add: ledger_ok_def demo_defs row_defs has_memorial_def siblings_ok_def seconds_def)

definition demo_taken :: "attempt_lease option result \<times> db" where
  "demo_taken = claim zero_hash ''a2'' ''m1'' ''w2'' 2000010 30 demo_leased"

lemma demo_taken_grants:
  "claim zero_hash ''a2'' ''m1'' ''w2'' 2000010 30 demo_leased =
     (Inr (Some (the (projr (fst demo_taken)))), snd demo_taken)"
  "\<not> blank ''a2''"
  "claimed_row ''w1'' 10 1 demo_attempt \<in> set (db_attempts demo_leased)"
  by code_simp+

section \<open>Properties\<close>



lemma stale_fence_rejected:
  assumes ok: "ledger_ok d" and ni: "\<not> blank ni"
    and c: "claim sha ni m ow now l d = (Inr (Some a), d')"
    and x: "x \<in> set (db_attempts d)" "at_memorial x = m" and f: "f \<le> at_fence x"
    and run: "(ledger_step sha)\<^sup>*\<^sup>* d' d''"
  shows "require_current (at_id x) ow' f t d'' \<noteq> Inr ()"
proof -
  have d': "ledger_ok d'" "evolves d d'" "granted m ow now l d d' a" using claim_ok [OF ok ni c] by auto
  obtain b where b: "b \<in> set (db_attempts d')" "row_evolves x b"
    using d'(2) x(1) by (auto simp: evolves_def)
  then have tr: "at_id b = at_id x" "at_memorial b = m" "at_fence x \<le> at_fence b"
    using x(2) by (auto simp: row_evolves_def transition_ok_def)
  have "\<not> (f = at_fence b \<and> at_status b = Claimed)"
  proof
    assume h: "f = at_fence b \<and> at_status b = Claimed"
    then have "b = a"
      using active_same [OF d'(1) b(1), of a] d'(3) tr(2) by (auto simp: granted_def active_def)
    moreover have "at_fence x < at_fence a" using d'(3) x by (auto simp: granted_def)
    ultimately show False using f h by simp
  qed
  then have "authority_lost d' (at_id x, ow', f)"
    using b(1) tr f by (auto simp: authority_lost_def list_ex_iff intro!: bexI [of _ b])
  from ledger.lost_forever [OF d'(1) this run] show ?thesis by (auto simp: holds_authority_def)
qed

text \<open>
  C2: fencing. After a claim on a memorial has been granted, no authority over an attempt of that
  memorial with a token issued before is accepted again, in any state reached later.
\<close>

theorem stale_authority_is_fenced:
  assumes ok: "ledger_ok d" and ni: "\<not> blank ni"
    and c: "claim sha ni m ow now l d = (Inr (Some a), d')"
    and x: "x \<in> set (db_attempts d)" "at_memorial x = m" and f: "f \<le> at_fence x"
    and run: "(ledger_step sha)\<^sup>*\<^sup>* d' d''"
  shows "require_current (at_id x) ow' f t d'' \<noteq> Inr ()"
  by (rule stale_fence_rejected [OF ok ni c x f run])

theorem stale_authority_is_fenced_witness:
  "require_current ''a1'' ''w1'' 1 20 demo_leased = Inr () \<and>
   require_current ''a1'' ''w1'' 1 20 (snd demo_taken) \<noteq> Inr ()"
proof
  show "require_current ''a1'' ''w1'' 1 20 demo_leased = Inr ()" by code_simp
  have "at_memorial (claimed_row ''w1'' 10 1 demo_attempt) = ''m1''"
    "1 \<le> at_fence (claimed_row ''w1'' 10 1 demo_attempt)" by code_simp+
  from stale_authority_is_fenced [OF demo_ok(2) demo_taken_grants(2,1,3) this rtranclp.rtrancl_refl]
  show "require_current ''a1'' ''w1'' 1 20 (snd demo_taken) \<noteq> Inr ()"
    by (simp add: claimed_row_def demo_attempt_def new_attempt_def)
qed

text \<open>
  A granted claim is a lease of exactly the requested length for the requesting owner, its token is
  above every token issued for the memorial before, and it is accepted from the moment it is granted.
\<close>

theorem claim_grants_fresh_token:
  assumes ok: "ledger_ok d" and ni: "\<not> blank ni"
    and c: "claim sha ni m ow now l d = (Inr (Some a), d')"
  shows "granted m ow now l d d' a \<and>
         (\<forall>t. require_current (at_id a) ow (at_fence a) t d' = Inr () \<longleftrightarrow> now \<le> t \<and> t < now + seconds l)"
proof -
  have d': "ledger_ok d'" "granted m ow now l d d' a" using claim_ok [OF ok ni c] by auto
  have inp: "\<not> blank ow" using c by (auto simp: claim_def split: if_splits)
  have a: "a \<in> set (db_attempts d')" "at_status a = Claimed" "at_owner a = Some ow"
    "at_heartbeat a = Some now" "at_expires a = Some (now + seconds l)"
    using d'(2) by (auto simp: granted_def)
  have v: "\<not> blank (at_id a)" "0 < at_fence a"
    using ledger_okD(3) [OF d'(1) a(1)] a(2) by (auto simp: valid_attempt_def attempt_shape_def)
  have "require_current (at_id a) ow (at_fence a) t d' = Inr () \<longleftrightarrow> now \<le> t \<and> t < now + seconds l" for t
    using row_by_id [OF d'(1) a(1)] a v inp by (simp add: require_current_row authority_at_def)
  with d'(2) show ?thesis by simp
qed

theorem claim_grants_fresh_token_witness:
  "granted ''m1'' ''w2'' 2000010 30 demo_leased (snd demo_taken) (the (projr (fst demo_taken)))"
  using claim_grants_fresh_token [OF demo_ok(2) demo_taken_grants(2,1)] by simp

text \<open>
  Two authorities accepted in the same state over attempts of the same memorial are the same
  authority: one attempt, one owner, one token.
\<close>

theorem single_authority_per_memorial:
  assumes ok: "ledger_ok d" and x: "x \<in> set (db_attempts d)" and y: "y \<in> set (db_attempts d)"
    and m: "at_memorial x = at_memorial y"
    and rx: "require_current (at_id x) ow f t d = Inr ()"
    and ry: "require_current (at_id y) ow' f' t' d = Inr ()"
  shows "at_id x = at_id y \<and> ow = ow' \<and> f = f'"
proof -
  have "authority_at x ow f t" "authority_at y ow' f' t'"
    using rx ry row_by_id [OF ok x] row_by_id [OF ok y] by (auto simp: require_current_row)
  moreover from this have "x = y"
    using active_same [OF ok x y _ _ m] by (auto simp: authority_at_iff active_def)
  ultimately show ?thesis by (auto simp: authority_at_iff)
qed

theorem single_authority_per_memorial_witness:
  "require_current ''a1'' ''w1'' 1 20 demo_leased = Inr () \<and>
   at_id (claimed_row ''w1'' 10 1 demo_attempt) = ''a1'' \<and> ''w1'' = ''w1'' \<and> (1::int) = 1"
proof -
  let ?x = "claimed_row ''w1'' 10 1 demo_attempt"
  have r: "require_current (at_id ?x) ''w1'' 1 20 demo_leased = Inr ()"
    "require_current (at_id ?x) ''w1'' 1 500 demo_leased = Inr ()" "at_id ?x = ''a1''" by code_simp+
  with single_authority_per_memorial [OF demo_ok(2) demo_taken_grants(3,3) refl r(1,2)]
  show ?thesis by simp
qed

text \<open>
  Takeover. When the active attempt's lease has run out and the budget allows another attempt, a
  claim retires it as failed with the lease-expiry error, inserts the next attempt under the given id
  and leases that one, with the next token, to the claimant, all in one transaction.
\<close>

theorem claim_takes_over_expired:
  fixes c d now i ow l corr
  defines "d1 \<equiv> d\<lparr>db_attempts := update_rows (\<lambda>b. b = c) (expired_row False now) (db_attempts d)\<rparr>"
    and "n \<equiv> new_attempt i (at_memorial c) (at_no c + 1) (at_fence c) now (at_max c) now corr"
  assumes ok: "ledger_ok d" and c: "c \<in> set (db_attempts d)" "at_status c = Claimed"
    and t: "the (at_expires c) \<le> now" and budget: "at_no c < at_max c"
    and i: "\<not> blank i" "i \<notin> at_id ` set (db_attempts d)"
    and inp: "\<not> blank ow" "0 < l" "is_root d (at_memorial c)"
    and corr: "correlation_for_memorial sha d1 (at_memorial c) None = Inr corr"
  shows "claim sha i (at_memorial c) ow now l d =
           (Inr (Some (claimed_row ow now l n)),
            d1\<lparr>db_attempts := db_attempts d1 @ [claimed_row ow now l n]\<rparr>)"
proof -
  have act: "active c" using c(2) by (simp add: active_def)
  have m: "\<not> blank (at_memorial c)" using ledger_okD(3) [OF ok c(1)] by (simp add: valid_attempt_def)
  obtain r d2 where e: "expire_claim sha i c now d = Inr (r, d2)"
    using expire_claim_succeeds [OF ok c t i corr [unfolded d1_def]] by blast
  have d2: "d2 = d1\<lparr>db_attempts := db_attempts d1 @ [n]\<rparr>" "r = Some n" "ledger_ok d2"
  proof -
    obtain m0 d1' where "update_attempts (\<lambda>a. at_id a = at_id c \<and> (at_status a = Claimed \<and>
        at_owner a = at_owner c \<and> at_fence a = at_fence c \<and> at_version a = at_version c \<and>
        (case at_expires a of None \<Rightarrow> False | Some e \<Rightarrow> e \<le> now))) (expired_row False now) d = Inr (m0, d1')"
      (is "update_attempts (\<lambda>a. at_id a = at_id c \<and> ?g a) _ d = _")
      and rest: "insert_retry_attempt sha i c now now d1' = Inr (the r, d2)" "r = Some (the r)"
      using e budget by (auto simp: expire_claim_def Let_def split: if_splits)
    moreover have "?g c"
      using t ledger_okD(3) [OF ok c(1)] c(2) by (auto elim: valid_attempt_claimedE)
    ultimately have "d1' = d1"
      using update_one [OF ok c(1), of ?g "expired_row False now" m0 d1'] d1_def
        expired_row_ok [OF ledger_okD(2) [OF ok c(1)] c(2) t] by blast
    with rest corr show "d2 = d1\<lparr>db_attempts := db_attempts d1 @ [n]\<rparr>"
      by (auto simp: insert_retry_attempt_def n_def dest!: insert_attempt_Inr(1) split: option.splits)
    from expire_claim_cases [OF ok c t i(1) e] budget \<open>d2 = _\<close> show "r = Some n" "ledger_ok d2"
      by (auto simp: Let_def n_def d1_def)
  qed
  have nm: "n \<in> set (db_attempts d2)" "at_status n = Claimable" "at_available n \<le> now"
    by (simp_all add: d2(1) n_def new_attempt_def)
  have fresh: "b \<noteq> n" if "b \<in> set (db_attempts d1)" for b
  proof -
    have "at_id b \<in> at_id ` set (db_attempts d)"
      using that by (auto simp: d1_def set_update_rows expired_row_def)
    then show ?thesis using i(2) by (auto simp: n_def new_attempt_def)
  qed
  have "update_rows (\<lambda>b. b = n) (claimed_row ow now l) (db_attempts d2) = db_attempts d1 @ [claimed_row ow now l n]"
    using fresh by (auto simp: d2(1) update_rows_def intro!: map_idI)
  then have "claim_row ow now l n d2 =
      Inr (Some (claimed_row ow now l n), d1\<lparr>db_attempts := db_attempts d1 @ [claimed_row ow now l n]\<rparr>)"
    using claim_row_succeeds [OF d2(3) nm inp(2,1)] by (simp add: d2(1))
  then show ?thesis
    using claim_unfold [OF ok c(1) refl act _ m inp] c(2) t e d2(2) by (simp add: atomically_def)
qed

theorem claim_takes_over_expired_witness:
  "fst demo_taken =
     Inr (Some (claimed_row ''w2'' 2000010 30 (new_attempt ''a2'' ''m1'' 2 1 2000010 2 2000010 ''c1'')))"
proof -
  let ?c = "claimed_row ''w1'' 10 1 demo_attempt"
  have p: "at_status ?c = Claimed" "the (at_expires ?c) \<le> 2000010" "at_no ?c < at_max ?c"
    "''a2'' \<notin> at_id ` set (db_attempts demo_leased)" "\<not> blank ''w2''" "(0::int) < 30"
    "is_root demo_leased (at_memorial ?c)"
    "correlation_for_memorial zero_hash
       (demo_leased\<lparr>db_attempts := update_rows (\<lambda>b. b = ?c) (expired_row False 2000010) (db_attempts demo_leased)\<rparr>)
       (at_memorial ?c) None = Inr ''c1''"
    by code_simp+
  have q: "at_memorial ?c = ''m1'' \<and> at_no ?c = 1 \<and> at_fence ?c = 1 \<and> at_max ?c = 2" by code_simp
  from claim_takes_over_expired [OF demo_ok(2) demo_taken_grants(3) p(1-3) demo_taken_grants(2) p(4-8)] q
  show ?thesis by (simp add: demo_taken_def)
qed

text \<open>
  Exhaustion. When the lease of the last attempt of the budget has run out, a claim grants nothing
  and leaves the attempt a dead letter; no further attempt of the memorial can ever be claimed.
\<close>

theorem claim_dead_letters_exhausted:
  assumes ok: "ledger_ok d" and c: "c \<in> set (db_attempts d)" "at_status c = Claimed"
    and t: "the (at_expires c) \<le> now" and budget: "at_max c \<le> at_no c"
    and inp: "\<not> blank ow" "0 < l" "is_root d (at_memorial c)"
  shows "claim sha i (at_memorial c) ow now l d =
           (Inr None, d\<lparr>db_attempts := update_rows (\<lambda>b. b = c) (expired_row True now) (db_attempts d)\<rparr>) \<and>
         (\<forall>b \<in> set (db_attempts (snd (claim sha i (at_memorial c) ow now l d))).
            at_memorial b = at_memorial c \<longrightarrow> \<not> active b)"
proof -
  have act: "active c" using c(2) by (simp add: active_def)
  have m: "\<not> blank (at_memorial c)" using ledger_okD(3) [OF ok c(1)] by (simp add: valid_attempt_def)
  let ?g = "\<lambda>a. at_status a = Claimed \<and> at_owner a = at_owner c \<and> at_fence a = at_fence c \<and>
      at_version a = at_version c \<and> (case at_expires a of None \<Rightarrow> False | Some e \<Rightarrow> e \<le> now)"
  have g: "?g c" using t ledger_okD(3) [OF ok c(1)] c(2) by (auto elim: valid_attempt_claimedE)
  have f: "row_ok (expired_row True now c)" "transition_ok c (expired_row True now c)"
    using expired_row_ok [OF ledger_okD(2) [OF ok c(1)] c(2) t] by auto
  have "update_attempts (\<lambda>a. at_id a = at_id c \<and> ?g a) (expired_row True now) d =
      Inr (1, d\<lparr>db_attempts := update_rows (\<lambda>b. b = c) (expired_row True now) (db_attempts d)\<rparr>)"
    by (rule update_one_succeeds [where f = "expired_row True now", OF ok c(1) _ f(2,1)]) (use g in simp)
  then have r: "claim sha i (at_memorial c) ow now l d =
      (Inr None, d\<lparr>db_attempts := update_rows (\<lambda>b. b = c) (expired_row True now) (db_attempts d)\<rparr>)"
    using claim_unfold [OF ok c(1) refl act _ m inp] c(2) t budget
    by (simp add: expire_claim_def atomically_def Let_def)
  have "\<not> active b" if "b \<in> set (update_rows (\<lambda>b. b = c) (expired_row True now) (db_attempts d))"
    "at_memorial b = at_memorial c" for b
    using that last_of_active [OF ok c(1) act]
    by (auto simp: set_update_rows expired_row_def active_def [of "_\<lparr>at_status := _\<rparr>"] active_def split: if_splits)
  with r show ?thesis by simp
qed

theorem claim_dead_letters_exhausted_witness:
  "map at_status (db_attempts (snd (claim zero_hash ''a2'' ''m1'' ''w2'' 2000010 30 demo_spent))) = [DeadLetter]"
proof -
  let ?c = "(claimed_row ''w1'' 10 1 demo_attempt)\<lparr>at_max := 1\<rparr>"
  have p: "?c \<in> set (db_attempts demo_spent)" "at_status ?c = Claimed" "the (at_expires ?c) \<le> 2000010"
    "at_max ?c \<le> at_no ?c" "\<not> blank ''w2''" "(0::int) < 30" "is_root demo_spent (at_memorial ?c)"
    by code_simp+
  have q: "at_memorial ?c = ''m1''" by code_simp
  from claim_dead_letters_exhausted [OF demo_ok(3) p, of zero_hash "''a2''"] q
  show ?thesis by (simp add: update_rows_def demo_spent_def expired_row_def)
qed

text \<open>
  Progress. A claimable attempt whose time has come, of an existing root memorial, is granted to
  the first owner who claims it.
\<close>

theorem claim_available_attempt:
  assumes ok: "ledger_ok d" and c: "c \<in> set (db_attempts d)" "at_status c = Claimable"
    and t: "at_available c \<le> now" and inp: "\<not> blank ow" "0 < l" "is_root d (at_memorial c)"
  shows "claim sha i (at_memorial c) ow now l d =
           (Inr (Some (claimed_row ow now l c)),
            d\<lparr>db_attempts := update_rows (\<lambda>b. b = c) (claimed_row ow now l) (db_attempts d)\<rparr>)"
proof -
  have act: "active c" using c(2) by (simp add: active_def)
  have m: "\<not> blank (at_memorial c)" using ledger_okD(3) [OF ok c(1)] by (simp add: valid_attempt_def)
  show ?thesis
    using claim_unfold [OF ok c(1) refl act _ m inp] claim_row_succeeds [OF ok c t inp(2,1)] c(2)
    by (simp add: atomically_def)
qed

theorem claim_available_attempt_witness:
  "claim zero_hash ''a2'' ''m1'' ''w1'' 10 1 demo_ledger =
     (Inr (Some (claimed_row ''w1'' 10 1 demo_attempt)), demo_leased)"
proof -
  have p: "demo_attempt \<in> set (db_attempts demo_ledger)" "at_status demo_attempt = Claimable"
    "at_available demo_attempt \<le> 10" "\<not> blank ''w1''" "(0::int) < 1" "is_root demo_ledger (at_memorial demo_attempt)"
    by code_simp+
  have q: "at_memorial demo_attempt = ''m1''" by code_simp
  from claim_available_attempt [OF demo_ok(1) p, of zero_hash "''a2''"] q
  show ?thesis by (simp add: demo_leased_def update_rows_def demo_ledger_def)
qed

text \<open>
  Completion. Reporting an outcome succeeds exactly when the reporter holds the lease at the
  completion time. On success the attempt has the status the outcome asks for, no owner and no lease,
  and a retry within the budget leaves the next attempt claimable from the retry time, with the token
  carried over; without authority nothing changes.
\<close>

theorem complete_requires_authority:
  assumes ok: "ledger_ok d" and o': "valid_outcome o'" and ni: "\<not> blank ni"
    and r: "complete_current sha ni i ow f o' d = Inr (b, d')"
  shows "(b \<longleftrightarrow> require_current i ow f (out_completed_at o') d = Inr ()) \<and>
         (\<not> b \<longrightarrow> d' = d) \<and>
         (b \<longrightarrow> (\<exists>a \<in> set (db_attempts d). at_id a = i \<and>
            completed_row (completion_status a o') o' a \<in> set (db_attempts d') \<and>
            (\<exists>n \<in> set (db_attempts d'). at_memorial n = at_memorial a \<and> at_status n = Claimable \<and>
               at_no n = at_no a + 1 \<and> at_fence n = f) = (out_disposition o' = DRetry \<and> at_no a < at_max a)))"
proof -
  have inp: "\<not> blank i" "\<not> blank ow" "0 < f"
    using r by (auto simp: complete_current_def split: if_splits)
  note cases = complete_current_cases [OF ok o' ni r]
  show ?thesis
  proof (cases b)
    case False
    with cases inp show ?thesis by (auto simp: require_current_iff [OF ok])
  next
    case True
    with cases obtain a where a: "a \<in> set (db_attempts d)" "at_id a = i" "authority_at a ow f (out_completed_at o')"
      and rows: "let rows = update_rows (\<lambda>b. b = a) (completed_row (completion_status a o') o') (db_attempts d)
              in if out_disposition o' = DRetry \<and> at_no a < at_max a
                 then \<exists>c. db_attempts d' = rows @ [new_attempt ni (at_memorial a) (at_no a + 1) (at_fence a)
                              (the (out_retry_at o')) (at_max a) (out_completed_at o') c]
                 else d' = d\<lparr>db_attempts := rows\<rparr>" by auto
    have act: "active a" "at_fence a = f" using a(3) by (auto simp: authority_at_iff active_def)
    let ?old = "update_rows (\<lambda>b. b = a) (completed_row (completion_status a o') o') (db_attempts d)"
    have fin: "completed_row (completion_status a o') o' a \<in> set (db_attempts d')"
      using rows a(1) by (auto simp: Let_def set_update_rows split: if_splits)
    have none: "\<not> (at_memorial n = at_memorial a \<and> at_no n = at_no a + 1)" if "n \<in> set ?old" for n
      using that last_of_active [OF ok a(1) act(1)]
      by (fastforce simp: set_update_rows completed_row_def split: if_splits)
    have "(\<exists>n \<in> set (db_attempts d'). at_memorial n = at_memorial a \<and> at_status n = Claimable \<and>
               at_no n = at_no a + 1 \<and> at_fence n = f) = (out_disposition o' = DRetry \<and> at_no a < at_max a)"
      using rows none act(2) by (fastforce simp: Let_def new_attempt_def split: if_splits)
    with True a fin inp show ?thesis by (auto simp: require_current_iff [OF ok])
  qed
qed

definition demo_outcome :: attempt_outcome where
  "demo_outcome = \<lparr>out_disposition = DRetry, out_completed_at = 20, out_failure = Some lease_expired_error,
                   out_retry_at = Some 90\<rparr>"

theorem complete_requires_authority_witness:
  "require_current ''a1'' ''w1'' 1 (out_completed_at demo_outcome) demo_leased = Inr ()"
proof -
  have p: "valid_outcome demo_outcome" "\<not> blank ''a2''"
    "complete_current zero_hash ''a2'' ''a1'' ''w1'' 1 demo_outcome demo_leased =
      Inr (True, snd (projr (complete_current zero_hash ''a2'' ''a1'' ''w1'' 1 demo_outcome demo_leased)))"
    by code_simp+
  from complete_requires_authority [OF demo_ok(2) p] show ?thesis by blast
qed



text \<open>
  Terminal statuses are final. Once an attempt has succeeded, failed or become a dead letter, every
  later state still has it, not active, with the same token.
\<close>

theorem terminal_attempt_is_final:
  assumes ok: "ledger_ok d" and run: "(ledger_step sha)\<^sup>*\<^sup>* d d'"
    and a: "a \<in> set (db_attempts d)" "\<not> active a"
  shows "\<exists>b \<in> set (db_attempts d'). at_id b = at_id a \<and> \<not> active b \<and> at_fence b = at_fence a"
proof -
  have "evolves d d'" using ledger.steps_inv_evo [OF run ok] by simp
  then obtain b where "b \<in> set (db_attempts d')" "row_evolves a b" using a(1) by (auto simp: evolves_def)
  with a(2) show ?thesis by (intro bexI [of _ b]) (auto simp: row_evolves_def transition_ok_def)
qed

theorem terminal_attempt_is_final_witness:
  "list_ex (\<lambda>b. at_id b = ''a1'' \<and> \<not> active b \<and> at_fence b = 1)
     (db_attempts (snd (claim zero_hash ''a3'' ''m1'' ''w3'' 90000000 5 (snd demo_taken))))"
proof -
  let ?a = "expired_row False 2000010 (claimed_row ''w1'' 10 1 demo_attempt)"
  have a: "?a \<in> set (db_attempts (snd demo_taken))" "\<not> active ?a" and "\<not> blank ''a3''" by code_simp+
  then have "(ledger_step zero_hash)\<^sup>*\<^sup>* (snd demo_taken)
      (snd (claim zero_hash ''a3'' ''m1'' ''w3'' 90000000 5 (snd demo_taken)))"
    by (intro r_into_rtranclp) (metis ledger_step.claim prod.collapse)
  moreover have "ledger_ok (snd demo_taken)" using claim_ok [OF demo_ok(2) demo_taken_grants(2,1)] by simp
  moreover have "at_id ?a = ''a1'' \<and> at_fence ?a = 1" by code_simp
  ultimately show ?thesis using terminal_attempt_is_final [OF _ _ a] by (simp add: list_ex_iff)
qed

text \<open>
  A heartbeat succeeds exactly for the lease holder within the lease, and then moves the lease to
  start now with the same duration, leaving every other row and the token untouched.
\<close>

theorem heartbeat_renews_lease:
  assumes ok: "ledger_ok d" and r: "heartbeat i ow f now d = (Inr b, d')"
  shows "(b \<longleftrightarrow> require_current i ow f now d = Inr ()) \<and> (\<not> b \<longrightarrow> d' = d) \<and>
         (b \<longrightarrow> (\<exists>a \<in> set (db_attempts d). at_id a = i \<and> at_fence a = f \<and>
            d' = d\<lparr>db_attempts := update_rows (\<lambda>b. b = a)
                    (renewed_row now (the (at_expires a) - the (at_heartbeat a))) (db_attempts d)\<rparr>))"
proof -
  have inp: "\<not> blank i" "\<not> blank ow" "0 < f" and body: "heartbeat_body i ow f now d = Inr (b, d')"
    using r by (auto simp: heartbeat_def split: if_splits)
  from heartbeat_body_cases [OF ok body] inp show ?thesis
    by (auto simp: require_current_iff [OF ok] authority_at_iff)
qed

theorem heartbeat_renews_lease_witness:
  "require_current ''a1'' ''w1'' 1 500 demo_leased = Inr ()"
proof -
  have "heartbeat ''a1'' ''w1'' 1 500 demo_leased = (Inr True, snd (heartbeat ''a1'' ''w1'' 1 500 demo_leased))"
    by code_simp
  from heartbeat_renews_lease [OF demo_ok(2) this] show ?thesis by blast
qed

section \<open>A gap in the resumption\<close>

text \<open>
  \<open>resume_suspended_current\<close> stores its \<open>available_at\<close> as \<open>updated_at\<close> without comparing it with the
  row's \<open>created_at\<close>: with an earlier instant (a clock that moved backwards) it reports success and
  leaves a row that violates the v1 contract, so that every later read of the attempt raises.
\<close>

theorem resume_before_creation_breaks_row:
  fixes d :: db
  defines "d \<equiv> demo_ledger\<lparr>db_attempts := [demo_attempt\<lparr>at_status := Suspended\<rparr>]\<rparr>"
  shows "(\<exists>d'. resume_suspended_current ''a1'' ''m1'' 1 2 d = Inr (True, d') \<and>
           select_attempt d' ''a1'' = Inl (AttemptDecodeError ''persisted attempt violates the v1 contract'') \<and>
           fst (claim zero_hash ''a2'' ''m1'' ''w1'' 10 1 d') =
             Inl (AttemptDecodeError ''persisted attempt violates the v1 contract''))"
proof -
  let ?d = "demo_ledger\<lparr>db_attempts := [demo_attempt\<lparr>at_status := Suspended\<rparr>]\<rparr>"
  have "resume_suspended_current ''a1'' ''m1'' 1 2 ?d =
          Inr (True, snd (projr (resume_suspended_current ''a1'' ''m1'' 1 2 ?d)))"
    "select_attempt (snd (projr (resume_suspended_current ''a1'' ''m1'' 1 2 ?d))) ''a1'' =
       Inl (AttemptDecodeError ''persisted attempt violates the v1 contract'')"
    "fst (claim zero_hash ''a2'' ''m1'' ''w1'' 10 1 (snd (projr (resume_suspended_current ''a1'' ''m1'' 1 2 ?d)))) =
       Inl (AttemptDecodeError ''persisted attempt violates the v1 contract'')"
    by code_simp+
  then show ?thesis unfolding d_def by blast
qed

end
