(* ===== verification/Run_State_Repo.thy ===== *)
theory Run_State_Repo
  imports Database
begin

text \<open>
  \<open>storage/run_state_repo.py\<close>: the durable run states, their creation and their compare-and-swap.
  \<open>secret\<close> stands for \<open>contains_raw_sensitive_payload\<close> on the dumped state.
\<close>

section \<open>Requirements on a state\<close>

definition require_secret_free :: "(run_state \<Rightarrow> bool) \<Rightarrow> run_state \<Rightarrow> unit result" where
  "require_secret_free secret s =
     raise_unless (\<not> secret s) (RunStateSecretError ''raw secret is not allowed in durable RunState'')"

definition require_valid_plan_lineage ::
  "(string \<Rightarrow> string) \<Rightarrow> (string \<Rightarrow> string) \<Rightarrow> run_state \<Rightarrow> unit result" where
  "require_valid_plan_lineage sha redact s =
     (case agent_plan_continuation (rs_continuation s) of
        None \<Rightarrow> Inr ()
      | Some c \<Rightarrow> raise_unless (valid_agent sha redact c)
                    (RunStateConflict ''invalid RunState plan revision lineage''))"

definition plan_lineage :: "run_state \<Rightarrow> plan_revision list" where
  "plan_lineage s =
     (case agent_plan_continuation (rs_continuation s) of None \<Rightarrow> [] | Some c \<Rightarrow> ac_plan_revisions c)"

definition require_immutable_plan_lineage :: "run_state \<Rightarrow> run_state \<Rightarrow> unit result" where
  "require_immutable_plan_lineage current candidate =
     (let cur = plan_lineage current; cand = plan_lineage candidate
      in raise_unless
           (\<not> (length cand < length cur \<or> length cand > length cur + 1 \<or> take (length cur) cand \<noteq> cur))
           (RunStateConflict ''RunState plan revision lineage is immutable''))"

definition scheduled_binding :: "run_state \<Rightarrow> string option \<times> string option" where
  "scheduled_binding s =
     (case agent_plan_continuation (rs_continuation s) of
        None \<Rightarrow> (None, None)
      | Some c \<Rightarrow> (ac_scheduled_event_id c, ac_scheduled_event_hash c))"

definition require_immutable_scheduled_event_binding :: "run_state \<Rightarrow> run_state \<Rightarrow> unit result" where
  "require_immutable_scheduled_event_binding current candidate =
     raise_unless (scheduled_binding candidate = scheduled_binding current)
       (RunStateConflict ''RunState scheduled event binding is immutable'')"

definition decision_binding_ok :: "run_state \<Rightarrow> bool" where
  "decision_binding_ok s =
     (let pending = cont_pending (rs_continuation s); resolved = cont_resolved (rs_continuation s)
      in \<not> (resolved \<noteq> None \<and> blank (the resolved)) \<and>
         \<not> (pending \<noteq> None \<and> (blank (the pending) \<or> resolved \<noteq> None)) \<and>
         (if rs_phase s = PWaitingDecision then pending \<noteq> None else pending = None))"

definition require_decision_binding :: "run_state \<Rightarrow> unit result" where
  "require_decision_binding s =
     raise_unless (decision_binding_ok s) (RunStateConflict ''invalid RunState decision binding'')"

definition memorial_bound :: "db \<Rightarrow> string \<Rightarrow> string \<Rightarrow> bool" where
  "memorial_bound d m e =
     (case row_by mem_id m (db_memorials d) of None \<Rightarrow> False | Some r \<Rightarrow> mem_edict r = e)"

definition require_memorial_binding :: "db \<Rightarrow> string \<Rightarrow> string \<Rightarrow> unit result" where
  "require_memorial_binding d m e =
     raise_unless (memorial_bound d m e)
       (RunStateConflict ''memorial does not belong to the RunState edict'')"

text \<open>\<open>canonical_json_bytes\<close> accepts a continuation when the JSON inside it has finite numbers only.\<close>

definition message_finite :: "chat_message \<Rightarrow> bool" where
  "message_finite m =
     ((case msg_content m of CText t \<Rightarrow> True | CParts ps \<Rightarrow> list_all (\<lambda>p. normalizable (JObj p)) ps) \<and>
      (case msg_tool_calls m of None \<Rightarrow> True | Some cs \<Rightarrow> list_all (\<lambda>c. normalizable (JObj c)) cs))"

definition agent_finite :: "agent_continuation \<Rightarrow> bool" where
  "agent_finite c =
     (list_all message_finite (ac_messages c) \<and>
      (case ac_pending_tool c of None \<Rightarrow> True | Some p \<Rightarrow> normalizable (JObj (tp_arguments p))) \<and>
      (case ac_plan_snapshot c of None \<Rightarrow> True | Some p \<Rightarrow> normalizable (JObj p)))"

fun continuation_finite :: "continuation \<Rightarrow> bool" where
  "continuation_finite (Agent c) = agent_finite c"
| "continuation_finite (OuterLoop c) = (case oc_plan c of None \<Rightarrow> True | Some a \<Rightarrow> agent_finite a)"

definition require_encodable :: "run_state \<Rightarrow> unit result" where
  "require_encodable s =
     raise_unless (continuation_finite (rs_continuation s))
       (ValueError ''canonical JSON numbers must be finite'')"

section \<open>The table\<close>

definition row_memorial :: "run_state_row \<Rightarrow> string" where
  "row_memorial r = rs_memorial (rr_state r)"

text \<open>The constraints of \<open>run_states\<close> and the continuation-shape triggers.\<close>

definition run_state_checks :: "run_state \<Rightarrow> bool" where
  "run_state_checks s =
     (rs_schema_version s = 1 \<and> 0 \<le> rs_cursor s \<and> 0 < rs_version s \<and>
      cont_checkpoint (rs_continuation s) = rs_checkpoint s \<and> cont_cursor (rs_continuation s) = rs_cursor s)"

definition insert_run_state :: "run_state_row \<Rightarrow> db \<Rightarrow> db result" where
  "insert_run_state row d =
     (if list_ex (\<lambda>r. row_memorial r = row_memorial row) (db_run_states d)
      then Inl (IntegrityError ''run states are immutable by replacement'')
      else if \<not> run_state_checks (rr_state row)
      then Inl (IntegrityError ''run state continuation has invalid top-level shape'')
      else if \<not> (has_memorial d (row_memorial row) \<and> has_edict d (rs_edict (rr_state row)))
      then Inl (IntegrityError ''FOREIGN KEY constraint failed'')
      else Inr (d\<lparr>db_run_states := db_run_states d @ [row]\<rparr>))"

definition update_run_states ::
  "(run_state_row \<Rightarrow> bool) \<Rightarrow> (run_state_row \<Rightarrow> run_state_row) \<Rightarrow> db \<Rightarrow> (nat \<times> db) result" where
  "update_run_states p f d =
     (if \<not> list_all (\<lambda>r. p r \<longrightarrow> run_state_checks (rr_state (f r))) (db_run_states d)
      then Inl (IntegrityError ''run state continuation has invalid top-level shape'')
      else if \<not> list_all (\<lambda>r. p r \<longrightarrow> has_edict d (rs_edict (rr_state (f r)))) (db_run_states d)
      then Inl (IntegrityError ''FOREIGN KEY constraint failed'')
      else Inr (count_rows p (db_run_states d), d\<lparr>db_run_states := update_rows p f (db_run_states d)\<rparr>))"

definition decode_state :: "(string \<Rightarrow> string) \<Rightarrow> (string \<Rightarrow> string) \<Rightarrow> run_state \<Rightarrow> run_state result" where
  "decode_state sha redact s =
     (if rs_schema_version s \<noteq> 1 then Inl (RunStateDecodeError ''unsupported RunState schema_version'')
      else if valid_run_state sha redact s then Inr s
      else Inl (RunStateDecodeError ''persisted RunState violates the v1 contract''))"

section \<open>Operations\<close>

definition load :: "(string \<Rightarrow> string) \<Rightarrow> (string \<Rightarrow> string) \<Rightarrow> string \<Rightarrow> db \<Rightarrow> run_state option result" where
  "load sha redact m d =
     (case row_by row_memorial m (db_run_states d) of
        None \<Rightarrow> Inr None
      | Some r \<Rightarrow> and_then (decode_state sha redact (rr_state r)) (\<lambda>s. Inr (Some s)))"

fun decode_all :: "(string \<Rightarrow> string) \<Rightarrow> (string \<Rightarrow> string) \<Rightarrow> run_state_row list \<Rightarrow> run_state list result" where
  "decode_all sha redact [] = Inr []"
| "decode_all sha redact (r # rs) =
     and_then (decode_state sha redact (rr_state r)) (\<lambda>s.
     and_then (decode_all sha redact rs) (\<lambda>ss. Inr (s # ss)))"

definition list_for_edict ::
  "(string \<Rightarrow> string) \<Rightarrow> (string \<Rightarrow> string) \<Rightarrow> string \<Rightarrow> db \<Rightarrow> run_state list result" where
  "list_for_edict sha redact e d =
     decode_all sha redact (select_ordered (\<lambda>r. rs_edict (rr_state r) = e)
       (\<lambda>r. (- rs_updated (rr_state r), row_memorial r)) (db_run_states d))"

record run_summary =
  sm_edict :: string
  sm_title :: string
  sm_memorial :: string
  sm_phase :: run_phase
  sm_updated :: instant

text \<open>The run is active, and its edict is not archived and, when a submitter is named, theirs.\<close>

definition visible_edict :: "string option \<Rightarrow> edict_row \<Rightarrow> bool" where
  "visible_edict submitter e =
     ((case submitter of None \<Rightarrow> True | Some s \<Rightarrow> ed_submitter e = s) \<and> \<not> ed_archived e)"

definition edict_title :: "edict_row \<Rightarrow> string" where
  "edict_title e = (if ed_title e = [] then ed_goal e else ed_title e)"

definition active_run :: "string option \<Rightarrow> db \<Rightarrow> run_state_row \<Rightarrow> bool" where
  "active_run submitter d r =
     ((case row_by ed_id (rs_edict (rr_state r)) (db_edicts d) of
         None \<Rightarrow> False | Some e \<Rightarrow> visible_edict submitter e) \<and>
      rs_phase (rr_state r) \<notin> {PCompleted, PFailed})"

definition list_active_for_submitter ::
  "(string \<Rightarrow> string) \<Rightarrow> (string \<Rightarrow> string) \<Rightarrow> string option \<Rightarrow> int \<Rightarrow> db \<Rightarrow> run_summary list result" where
  "list_active_for_submitter sha redact submitter limit d =
     (if \<not> opt_nonblank submitter then Inl (ValueError ''submitter must not be blank'')
      else if limit \<le> 0 then Inl (ValueError ''limit must be a positive integer'')
      else and_then (decode_all sha redact (take (nat limit) (select_ordered (active_run submitter d)
               (\<lambda>r. (- rs_updated (rr_state r), row_memorial r)) (db_run_states d)))) (\<lambda>states.
        Inr (map (\<lambda>s. \<lparr>sm_edict = rs_edict s,
                       sm_title = (case row_by ed_id (rs_edict s) (db_edicts d) of
                                     None \<Rightarrow> [] | Some e \<Rightarrow> edict_title e),
                       sm_memorial = rs_memorial s, sm_phase = rs_phase s, sm_updated = rs_updated s\<rparr>) states)))"

definition count_active_for_submitter :: "string option \<Rightarrow> db \<Rightarrow> nat result" where
  "count_active_for_submitter submitter d =
     (if \<not> opt_nonblank submitter then Inl (ValueError ''submitter must not be blank'')
      else Inr (count_rows (active_run submitter d) (db_run_states d)))"

definition create ::
  "(string \<Rightarrow> string) \<Rightarrow> (string \<Rightarrow> string) \<Rightarrow> (run_state \<Rightarrow> bool) \<Rightarrow> run_state \<Rightarrow> db \<Rightarrow> (run_state \<times> db) result" where
  "create sha redact secret s d =
     and_then (raise_unless (rs_version s = 1) (ValueError ''new RunState must start at version 1'')) (\<lambda>_.
     and_then (require_decision_binding s) (\<lambda>_.
     and_then (require_valid_plan_lineage sha redact s) (\<lambda>_.
     and_then (require_memorial_binding d (rs_memorial s) (rs_edict s)) (\<lambda>_.
     and_then (require_secret_free secret s) (\<lambda>_.
     and_then (correlation_for_memorial sha d (rs_memorial s) None) (\<lambda>correlation.
     and_then (require_encodable s) (\<lambda>_.
     and_then (except_integrity (RunStateConflict ''RunState identity conflict'')
        (insert_run_state \<lparr>rr_state = s, rr_correlation = Some correlation\<rparr> d)) (\<lambda>d'.
       Inr (s, d')))))))))"

text \<open>The checks a swap and a recovery share, after they compared the edict.\<close>

definition candidate_checks ::
  "(run_state \<Rightarrow> bool) \<Rightarrow> run_state \<Rightarrow> run_state \<Rightarrow> db \<Rightarrow> unit result" where
  "candidate_checks secret current s d =
     and_then (require_memorial_binding d (rs_memorial s) (rs_edict s)) (\<lambda>_.
     and_then (raise_unless (rs_schema_version current = rs_schema_version s)
        (RunStateConflict ''RunState schema_version is immutable'')) (\<lambda>_.
     and_then (raise_unless (rs_created current = rs_created s)
        (RunStateConflict ''RunState created_at is immutable'')) (\<lambda>_.
     and_then (require_immutable_plan_lineage current s) (\<lambda>_.
     and_then (raise_unless (\<not> rs_updated s < rs_updated current)
        (RunStateConflict ''RunState updated_at must not move backwards'')) (\<lambda>_.
     and_then (require_secret_free secret s) (\<lambda>_.
       require_encodable s))))))"

text \<open>The \<open>UPDATE\<close>: the columns it sets, from the saved state.\<close>

definition stored_state :: "bool \<Rightarrow> run_state \<Rightarrow> run_state_row \<Rightarrow> run_state_row" where
  "stored_state with_edict saved r =
     r\<lparr>rr_state := (rr_state r)\<lparr>rs_edict := (if with_edict then rs_edict saved else rs_edict (rr_state r)),
        rs_phase := rs_phase saved, rs_continuation := rs_continuation saved,
        rs_checkpoint := rs_checkpoint saved, rs_cursor := rs_cursor saved,
        rs_version := rs_version saved, rs_updated := rs_updated saved\<rparr>\<rparr>"

definition swap_state ::
  "(string \<Rightarrow> string) \<Rightarrow> (string \<Rightarrow> string) \<Rightarrow> bool \<Rightarrow> string \<Rightarrow> string \<Rightarrow> run_state \<Rightarrow> int \<Rightarrow> db \<Rightarrow>
   (run_state \<times> db) result" where
  "swap_state sha redact with_edict conflict disappeared s expected_version d =
     (let saved = s\<lparr>rs_version := expected_version + 1\<rparr>
      in and_then (update_run_states
             (\<lambda>r. row_memorial r = rs_memorial saved \<and> rs_version (rr_state r) = expected_version)
             (stored_state with_edict saved) d) (\<lambda>(n, d').
           if n \<noteq> 1 then Inl (RunStateConflict conflict)
           else and_then (load sha redact (rs_memorial s) d') (\<lambda>durable.
             case durable of
               None \<Rightarrow> Inl (RunStateConflict disappeared)
             | Some t \<Rightarrow> Inr (t, d'))))"

definition compare_and_swap ::
  "(string \<Rightarrow> string) \<Rightarrow> (string \<Rightarrow> string) \<Rightarrow> (run_state \<Rightarrow> bool) \<Rightarrow> run_state \<Rightarrow> int \<Rightarrow> db \<Rightarrow>
   (run_state \<times> db) result" where
  "compare_and_swap sha redact secret s expected_version d =
     and_then (raise_unless (rs_version s = expected_version)
        (ValueError ''RunState input version must equal expected_version'')) (\<lambda>_.
     and_then (require_decision_binding s) (\<lambda>_.
     and_then (load sha redact (rs_memorial s) d) (\<lambda>loaded.
       case loaded of
         None \<Rightarrow> Inl (RunStateConflict ''RunState compare-and-swap conflict'')
       | Some current \<Rightarrow>
           and_then (require_immutable_scheduled_event_binding current s) (\<lambda>_.
           and_then (require_valid_plan_lineage sha redact s) (\<lambda>_.
           and_then (raise_unless (rs_edict current = rs_edict s)
              (RunStateConflict ''RunState edict_id is immutable'')) (\<lambda>_.
           and_then (candidate_checks secret current s d) (\<lambda>_.
             swap_state sha redact False ''RunState compare-and-swap conflict''
               ''RunState disappeared after compare-and-swap'' s expected_version d)))))))"

definition recover_terminal_identity ::
  "(string \<Rightarrow> string) \<Rightarrow> (string \<Rightarrow> string) \<Rightarrow> (run_state \<Rightarrow> bool) \<Rightarrow> run_state \<Rightarrow> int \<Rightarrow> db \<Rightarrow>
   (run_state \<times> db) result" where
  "recover_terminal_identity sha redact secret s expected_version d =
     and_then (raise_unless (rs_phase s = PFailed)
        (ValueError ''RunState identity recovery requires a failed state'')) (\<lambda>_.
     and_then (raise_unless (rs_version s = expected_version)
        (ValueError ''RunState input version must equal expected_version'')) (\<lambda>_.
     and_then (require_decision_binding s) (\<lambda>_.
     and_then (load sha redact (rs_memorial s) d) (\<lambda>loaded.
       case loaded of
         None \<Rightarrow> Inl (RunStateConflict ''RunState recovery compare-and-swap conflict'')
       | Some current \<Rightarrow>
           and_then (raise_unless (rs_version current = expected_version)
              (RunStateConflict ''RunState recovery compare-and-swap conflict'')) (\<lambda>_.
           and_then (require_immutable_scheduled_event_binding current s) (\<lambda>_.
           and_then (require_valid_plan_lineage sha redact s) (\<lambda>_.
           and_then (raise_unless (rs_edict current \<noteq> rs_edict s)
              (RunStateConflict ''RunState recovery requires an identity mismatch'')) (\<lambda>_.
           and_then (candidate_checks secret current s d) (\<lambda>_.
             swap_state sha redact True ''RunState recovery compare-and-swap conflict''
               ''RunState disappeared after recovery'' s expected_version d)))))))))"

end
