(* ===== verification/Run_State_Safety.thy ===== *)
theory Run_State_Safety
  imports Run_State_Repo
begin

text \<open>
  What the run-state repository promises: stored states decode and bind their decisions, versions only
  grow and each is swapped at most once, and the identity, the creation time, the plan lineage and the
  scheduled-event binding of a run are never rewritten.
\<close>

section \<open>Well-formed tables and their evolution\<close>

definition states_ok :: "(string \<Rightarrow> string) \<Rightarrow> (string \<Rightarrow> string) \<Rightarrow> db \<Rightarrow> bool" where
  "states_ok sha redact d =
     (distinct (map row_memorial (db_run_states d)) \<and>
      (\<forall>r \<in> set (db_run_states d). valid_run_state sha redact (rr_state r) \<and> decision_binding_ok (rr_state r)))"

definition state_evolves :: "run_state \<Rightarrow> run_state \<Rightarrow> bool" where
  "state_evolves s t =
     (rs_memorial t = rs_memorial s \<and> rs_created t = rs_created s \<and> rs_version s \<le> rs_version t \<and>
      rs_updated s \<le> rs_updated t \<and> take (length (plan_lineage s)) (plan_lineage t) = plan_lineage s \<and>
      scheduled_binding t = scheduled_binding s)"

definition states_evolve :: "db \<Rightarrow> db \<Rightarrow> bool" where
  "states_evolve d d' =
     (\<forall>r \<in> set (db_run_states d). \<exists>r' \<in> set (db_run_states d'). state_evolves (rr_state r) (rr_state r'))"

lemma state_evolves_refl [simp]: "state_evolves s s"
  by (simp add: state_evolves_def)

lemma state_evolves_trans: "state_evolves s t \<Longrightarrow> state_evolves t u \<Longrightarrow> state_evolves s u"
proof -
  assume a: "state_evolves s t" "state_evolves t u"
  let ?l = plan_lineage
  have "length (take (length (?l s)) (?l t)) = length (?l s)"
    using a(1) by (simp add: state_evolves_def del: length_take)
  then have "length (?l s) \<le> length (?l t)" by simp
  then have "take (length (?l s)) (?l u) = take (length (?l s)) (take (length (?l t)) (?l u))"
    by (simp add: min_def)
  also have "\<dots> = ?l s" using a by (simp add: state_evolves_def)
  finally show ?thesis using a by (simp add: state_evolves_def)
qed

lemma states_evolve_refl [simp]: "states_evolve d d"
  unfolding states_evolve_def using state_evolves_refl by blast

lemma states_evolve_mono: "set (db_run_states d) \<subseteq> set (db_run_states d') \<Longrightarrow> states_evolve d d'"
  unfolding states_evolve_def using state_evolves_refl by blast

lemma states_evolve_trans: "states_evolve d d' \<Longrightarrow> states_evolve d' d'' \<Longrightarrow> states_evolve d d''"
  unfolding states_evolve_def using state_evolves_trans by meson

lemma states_row:
  "states_ok sha redact d \<Longrightarrow> r \<in> set (db_run_states d) \<Longrightarrow> row_by row_memorial (row_memorial r) (db_run_states d) = Some r"
  by (rule row_by_unique) (simp_all add: states_ok_def)

lemma load_eq:
  assumes "states_ok sha redact d"
  shows "load sha redact m d = Inr (map_option rr_state (row_by row_memorial m (db_run_states d)))"
proof (cases "row_by row_memorial m (db_run_states d)")
  case (Some r)
  then have "valid_run_state sha redact (rr_state r)"
    using assms row_by_SomeD [OF Some] by (auto simp: states_ok_def)
  with Some show ?thesis by (simp add: load_def decode_state_def valid_run_state_def)
qed (simp add: load_def)

lemma load_SomeD:
  assumes "load sha redact m d = Inr (Some s)"
  shows "\<exists>r \<in> set (db_run_states d). row_memorial r = m \<and> rr_state r = s" and "valid_run_state sha redact s"
  using assms
  by (auto simp: load_def decode_state_def split: option.splits if_splits dest!: row_by_SomeD)

section \<open>The swap\<close>

lemma stored_state_memorial [simp]: "row_memorial (stored_state w s r) = row_memorial r"
  by (simp add: stored_state_def row_memorial_def)

lemma swap_state_Inr:
  assumes dist: "distinct (map row_memorial (db_run_states d))"
    and sw: "swap_state sha redact w c1 c2 s v d = Inr (t, d')"
  shows "\<exists>r \<in> set (db_run_states d). row_memorial r = rs_memorial s \<and> rs_version (rr_state r) = v \<and>
           (let saved = s\<lparr>rs_version := v + 1\<rparr>
            in d' = d\<lparr>db_run_states := update_rows (\<lambda>x. x = r) (stored_state w saved) (db_run_states d)\<rparr> \<and>
               t = rr_state (stored_state w saved r)) \<and>
           valid_run_state sha redact t"
proof -
  let ?saved = "s\<lparr>rs_version := v + 1\<rparr>"
  let ?p = "\<lambda>r. row_memorial r = rs_memorial ?saved \<and> rs_version (rr_state r) = v"
  have mem: "rs_memorial ?saved = rs_memorial s" by simp
  obtain n d1 where upd: "update_run_states ?p (stored_state w ?saved) d = Inr (n, d1)"
    and rest: "(if n \<noteq> 1 then Inl (RunStateConflict c1)
         else and_then (load sha redact (rs_memorial s) d1) (\<lambda>durable.
           case durable of None \<Rightarrow> Inl (RunStateConflict c2) | Some t \<Rightarrow> Inr (t, d1))) = Inr (t, d')"
    using sw unfolding swap_state_def Let_def and_then_Inr_iff by (elim exE conjE) (simp split: prod.split_asm)
  have n: "n = 1" using rest by (cases "n = 1") simp_all
  have ld: "load sha redact (rs_memorial s) d1 = Inr (Some t)" and d': "d' = d1"
    using rest by (auto simp: n split: option.splits)
  have d1: "d1 = d\<lparr>db_run_states := update_rows ?p (stored_state w ?saved) (db_run_states d)\<rparr>"
    and one: "count_rows ?p (db_run_states d) = 1"
    using upd unfolding update_run_states_def n by (simp_all only: split: if_split_asm) simp_all
  obtain r where r: "row_by row_memorial (rs_memorial s) (db_run_states d) = Some r"
    and v: "rs_version (rr_state r) = v"
    using one unfolding mem count_rows_by_key [OF dist] by (cases "row_by row_memorial (rs_memorial s) (db_run_states d)")
      (simp_all split: if_split_asm)
  have rin: "r \<in> set (db_run_states d)" "row_memorial r = rs_memorial s"
    using row_by_SomeD [OF r] by auto
  have "?p x \<longleftrightarrow> x = r" if "x \<in> set (db_run_states d)" for x
    using r rin(2) v row_by_unique [OF dist that, of "rs_memorial s"] by auto
  then have rows: "update_rows ?p (stored_state w ?saved) (db_run_states d) =
                   update_rows (\<lambda>x. x = r) (stored_state w ?saved) (db_run_states d)"
    by (simp add: update_rows_def cong: map_cong)
  have "row_by row_memorial (rs_memorial s) (db_run_states d1) = Some (stored_state w ?saved r)"
    using r rin(2) v by (simp add: d1 row_by_update_rows)
  then have "t = rr_state (stored_state w ?saved r)"
    using ld by (auto simp: load_def decode_state_def split: if_splits)
  with rin v d1 rows d' load_SomeD(2) [OF ld] show ?thesis by (auto simp: Let_def)
qed

lemma candidate_checks_evolve:
  assumes "candidate_checks secret cur s d = Inr ()" "scheduled_binding s = scheduled_binding cur"
    and "rs_memorial s = rs_memorial cur" "rs_version cur = v"
  shows "state_evolves cur (s\<lparr>rs_version := v + 1\<rparr>)" "rs_schema_version cur = rs_schema_version s"
    "rs_created cur = rs_created s" "memorial_bound d (rs_memorial s) (rs_edict s)"
  using assms
  by (auto simp: candidate_checks_def state_evolves_def require_immutable_plan_lineage_def Let_def
      require_memorial_binding_def plan_lineage_def scheduled_binding_def)

text \<open>A successful swap replaces the row at the named version by the given state at the next one.\<close>

definition swapped :: "run_state_row \<Rightarrow> run_state \<Rightarrow> db \<Rightarrow> db \<Rightarrow> bool" where
  "swapped r t d d' =
     (r \<in> set (db_run_states d) \<and>
      d' = d\<lparr>db_run_states := update_rows (\<lambda>x. x = r) (\<lambda>x. x\<lparr>rr_state := t\<rparr>) (db_run_states d)\<rparr> \<and>
      state_evolves (rr_state r) t)"

lemma stored_state_eq:
  assumes "rs_memorial s = rs_memorial (rr_state r)" "rs_schema_version s = rs_schema_version (rr_state r)"
    and "rs_created s = rs_created (rr_state r)" "w \<or> rs_edict s = rs_edict (rr_state r)"
  shows "stored_state w s r = r\<lparr>rr_state := s\<rparr>"
  using assms by (auto simp: stored_state_def intro!: run_state_row.equality run_state.equality)

lemma compare_and_swap_Inr:
  assumes ok: "states_ok sha redact d"
    and cas: "compare_and_swap sha redact secret s v d = Inr (t, d')"
  shows "t = s\<lparr>rs_version := v + 1\<rparr> \<and> rs_version s = v \<and> valid_run_state sha redact t \<and> decision_binding_ok t \<and>
         (\<exists>r. swapped r t d d' \<and> row_memorial r = rs_memorial s \<and> rs_version (rr_state r) = v \<and>
              rs_edict (rr_state r) = rs_edict s)"
proof -
  have dist: "distinct (map row_memorial (db_run_states d))" using ok by (simp add: states_ok_def)
  obtain cur where ld: "load sha redact (rs_memorial s) d = Inr (Some cur)"
    and v: "rs_version s = v" and db: "decision_binding_ok s" and sb: "scheduled_binding s = scheduled_binding cur"
    and ed: "rs_edict cur = rs_edict s" and cc: "candidate_checks secret cur s d = Inr ()"
    and sw: "swap_state sha redact False ''RunState compare-and-swap conflict''
               ''RunState disappeared after compare-and-swap'' s v d = Inr (t, d')"
    using cas by (auto simp: compare_and_swap_def require_decision_binding_def
        require_immutable_scheduled_event_binding_def split: option.splits)
  from swap_state_Inr [OF dist sw] obtain r where r: "r \<in> set (db_run_states d)"
      "row_memorial r = rs_memorial s" "rs_version (rr_state r) = v"
    and d': "d' = d\<lparr>db_run_states := update_rows (\<lambda>x. x = r) (stored_state False (s\<lparr>rs_version := v + 1\<rparr>)) (db_run_states d)\<rparr>"
    and t: "t = rr_state (stored_state False (s\<lparr>rs_version := v + 1\<rparr>) r)" and val: "valid_run_state sha redact t"
    by (auto simp: Let_def)
  have cur: "cur = rr_state r" using ld states_row [OF ok r(1)] r(2) by (simp add: load_eq [OF ok])
  note ev = candidate_checks_evolve [OF cc sb]
  have mem: "rs_memorial s = rs_memorial cur" using r(2) cur by (simp add: row_memorial_def)
  have st: "stored_state False (s\<lparr>rs_version := v + 1\<rparr>) r = r\<lparr>rr_state := s\<lparr>rs_version := v + 1\<rparr>\<rparr>"
    using ev [OF mem] r(3) cur ed mem by (intro stored_state_eq) auto
  have rows: "update_rows (\<lambda>x. x = r) (stored_state False (s\<lparr>rs_version := v + 1\<rparr>)) (db_run_states d) =
      update_rows (\<lambda>x. x = r) (\<lambda>x. x\<lparr>rr_state := s\<lparr>rs_version := v + 1\<rparr>\<rparr>) (db_run_states d)"
    using st by (auto simp: update_rows_def)
  have "decision_binding_ok (s\<lparr>rs_version := v + 1\<rparr>)" using db by (simp add: decision_binding_ok_def Let_def)
  then show ?thesis
    using ev(1) [OF mem] r cur d' rows t st v val ed by (auto simp: swapped_def intro!: exI [of _ r])
qed

lemma swapped_keeps:
  assumes ok: "states_ok sha redact d" and sw: "swapped r t d d'"
    and t: "valid_run_state sha redact t" "decision_binding_ok t"
  shows "states_ok sha redact d' \<and> states_evolve d d' \<and> r\<lparr>rr_state := t\<rparr> \<in> set (db_run_states d')"
proof -
  have r: "r \<in> set (db_run_states d)" and ev: "state_evolves (rr_state r) t"
    and d': "db_run_states d' = update_rows (\<lambda>x. x = r) (\<lambda>x. x\<lparr>rr_state := t\<rparr>) (db_run_states d)"
    using sw by (auto simp: swapped_def)
  have "map row_memorial (db_run_states d') = map row_memorial (db_run_states d)"
    unfolding d' using ev by (intro map_update_rows) (auto simp: row_memorial_def state_evolves_def)
  then have "states_ok sha redact d'"
    using ok t by (auto simp: states_ok_def d' set_update_rows)
  moreover have "states_evolve d d'"
    unfolding states_evolve_def d' set_update_rows
  proof
    fix x assume x: "x \<in> set (db_run_states d)"
    show "\<exists>r' \<in> (\<lambda>x. if x = r then x\<lparr>rr_state := t\<rparr> else x) ` set (db_run_states d). state_evolves (rr_state x) (rr_state r')"
      using x ev by (intro bexI [of _ "if x = r then x\<lparr>rr_state := t\<rparr> else x"]) auto
  qed
  moreover have "r\<lparr>rr_state := t\<rparr> \<in> set (db_run_states d')"
    using r by (force simp: d' set_update_rows)
  ultimately show ?thesis by simp
qed

lemma recover_Inr:
  assumes ok: "states_ok sha redact d"
    and rec: "recover_terminal_identity sha redact secret s v d = Inr (t, d')"
  shows "t = s\<lparr>rs_version := v + 1\<rparr> \<and> rs_phase t = PFailed \<and> valid_run_state sha redact t \<and> decision_binding_ok t \<and>
         memorial_bound d (rs_memorial t) (rs_edict t) \<and>
         (\<exists>r. swapped r t d d' \<and> row_memorial r = rs_memorial s \<and> rs_version (rr_state r) = v \<and>
              rs_edict (rr_state r) \<noteq> rs_edict s)"
proof -
  have dist: "distinct (map row_memorial (db_run_states d))" using ok by (simp add: states_ok_def)
  obtain cur where ld: "load sha redact (rs_memorial s) d = Inr (Some cur)"
    and v: "rs_version s = v" "rs_version cur = v" and ph: "rs_phase s = PFailed"
    and db: "decision_binding_ok s" and sb: "scheduled_binding s = scheduled_binding cur"
    and ed: "rs_edict cur \<noteq> rs_edict s" and cc: "candidate_checks secret cur s d = Inr ()"
    and sw: "swap_state sha redact True ''RunState recovery compare-and-swap conflict''
               ''RunState disappeared after recovery'' s v d = Inr (t, d')"
    using rec by (auto simp: recover_terminal_identity_def require_decision_binding_def
        require_immutable_scheduled_event_binding_def split: option.splits)
  from swap_state_Inr [OF dist sw] obtain r where r: "r \<in> set (db_run_states d)"
      "row_memorial r = rs_memorial s" "rs_version (rr_state r) = v"
    and d': "d' = d\<lparr>db_run_states := update_rows (\<lambda>x. x = r) (stored_state True (s\<lparr>rs_version := v + 1\<rparr>)) (db_run_states d)\<rparr>"
    and t: "t = rr_state (stored_state True (s\<lparr>rs_version := v + 1\<rparr>) r)" and val: "valid_run_state sha redact t"
    by (auto simp: Let_def)
  have cur: "cur = rr_state r" using ld states_row [OF ok r(1)] r(2) by (simp add: load_eq [OF ok])
  note ev = candidate_checks_evolve [OF cc sb]
  have mem: "rs_memorial s = rs_memorial cur" using r(2) cur by (simp add: row_memorial_def)
  have st: "stored_state True (s\<lparr>rs_version := v + 1\<rparr>) r = r\<lparr>rr_state := s\<lparr>rs_version := v + 1\<rparr>\<rparr>"
    using ev [OF mem] r(3) cur mem by (intro stored_state_eq) auto
  have rows: "update_rows (\<lambda>x. x = r) (stored_state True (s\<lparr>rs_version := v + 1\<rparr>)) (db_run_states d) =
      update_rows (\<lambda>x. x = r) (\<lambda>x. x\<lparr>rr_state := s\<lparr>rs_version := v + 1\<rparr>\<rparr>) (db_run_states d)"
    using st by (auto simp: update_rows_def)
  have "decision_binding_ok (s\<lparr>rs_version := v + 1\<rparr>)" using db by (simp add: decision_binding_ok_def Let_def)
  then show ?thesis
    using ev(1,4) [OF mem] r cur d' rows t st v val ed ph by (auto simp: swapped_def intro!: exI [of _ r])
qed

lemma create_Inr:
  assumes "create sha redact secret s d = Inr (t, d')"
  shows "t = s \<and> rs_version s = 1 \<and> decision_binding_ok s \<and> memorial_bound d (rs_memorial s) (rs_edict s) \<and>
         \<not> secret s \<and> rs_memorial s \<notin> row_memorial ` set (db_run_states d) \<and>
         (\<exists>c. d' = d\<lparr>db_run_states := db_run_states d @ [\<lparr>rr_state = s, rr_correlation = Some c\<rparr>]\<rparr>)"
  using assms
  by (auto simp: create_def require_decision_binding_def require_memorial_binding_def require_secret_free_def
      insert_run_state_def row_memorial_def list_ex_iff split: if_splits)

section \<open>Runs of the repository\<close>

text \<open>
  One transaction on the run states: a creation (of a validated model value, as the type of the argument
  demands), a swap, a recovery, or work on other tables.
\<close>

inductive run_step ::
  "(string \<Rightarrow> string) \<Rightarrow> (string \<Rightarrow> string) \<Rightarrow> (run_state \<Rightarrow> bool) \<Rightarrow> db \<Rightarrow> db \<Rightarrow> bool" for sha redact secret where
  rs_create: "valid_run_state sha redact s \<Longrightarrow> create sha redact secret s d = Inr (t, d') \<Longrightarrow>
    run_step sha redact secret d d'"
| rs_swap: "compare_and_swap sha redact secret s v d = Inr (t, d') \<Longrightarrow> run_step sha redact secret d d'"
| rs_recover: "recover_terminal_identity sha redact secret s v d = Inr (t, d') \<Longrightarrow> run_step sha redact secret d d'"
| rs_other: "db_run_states d' = db_run_states d \<Longrightarrow> run_step sha redact secret d d'"

inductive_cases run_stepE: "run_step sha redact secret d d'"

lemma create_keeps:
  assumes ok: "states_ok sha redact d" and s: "valid_run_state sha redact s"
    and c: "create sha redact secret s d = Inr (t, d')"
  shows "states_ok sha redact d' \<and> states_evolve d d'"
proof -
  obtain c where d': "db_run_states d' = db_run_states d @ [\<lparr>rr_state = s, rr_correlation = Some c\<rparr>]"
    and new: "rs_memorial s \<notin> row_memorial ` set (db_run_states d)" and b: "decision_binding_ok s"
    using create_Inr [OF c] by auto
  have "states_ok sha redact d'"
    using ok new b s unfolding states_ok_def d' distinct_map_snoc by (auto simp: row_memorial_def)
  moreover have "states_evolve d d'"
    by (rule states_evolve_mono) (auto simp: d')
  ultimately show ?thesis by simp
qed

lemma run_step_keeps:
  assumes ok: "states_ok sha redact d" and st: "run_step sha redact secret d d'"
  shows "states_ok sha redact d' \<and> states_evolve d d'"
  using st
proof cases
  case (rs_create s t)
  then show ?thesis using create_keeps [OF ok] by blast
next
  case (rs_swap s v t)
  from compare_and_swap_Inr [OF ok this] show ?thesis using swapped_keeps [OF ok] by blast
next
  case (rs_recover s v t)
  from recover_Inr [OF ok this] show ?thesis using swapped_keeps [OF ok] by blast
next
  case rs_other
  then show ?thesis using ok by (simp add: states_ok_def states_evolve_mono)
qed

definition stored_version :: "db \<Rightarrow> string \<Rightarrow> int option" where
  "stored_version d m = map_option (\<lambda>r. rs_version (rr_state r)) (row_by row_memorial m (db_run_states d))"

definition swap_of ::
  "(string \<Rightarrow> string) \<Rightarrow> (string \<Rightarrow> string) \<Rightarrow> (run_state \<Rightarrow> bool) \<Rightarrow> string \<Rightarrow> int \<Rightarrow> run_state \<Rightarrow> db \<Rightarrow> db option" where
  "swap_of sha redact secret m v s d =
     (case compare_and_swap sha redact secret (s\<lparr>rs_memorial := m\<rparr>) v d of Inl e \<Rightarrow> None | Inr (t, d') \<Rightarrow> Some d')"

lemma states_row_of:
  assumes "states_ok sha redact d" "r \<in> set (db_run_states d)" "row_memorial r = m"
  shows "row_by row_memorial m (db_run_states d) = Some r"
  using states_row [OF assms(1,2)] assms(3) by simp

lemma states_evolve_row:
  assumes "states_ok sha redact d'" "states_evolve d d'" "row_by row_memorial m (db_run_states d) = Some r"
  shows "\<exists>r'. row_by row_memorial m (db_run_states d') = Some r' \<and> state_evolves (rr_state r) (rr_state r')"
proof -
  have r: "r \<in> set (db_run_states d)" "row_memorial r = m" using row_by_SomeD [OF assms(3)] by auto
  obtain r' where r': "r' \<in> set (db_run_states d')" and ev: "state_evolves (rr_state r) (rr_state r')"
    using assms(2) r(1) unfolding states_evolve_def by blast
  have "row_memorial r' = m" using ev r(2) by (simp add: row_memorial_def state_evolves_def)
  with states_row_of [OF assms(1) r'] ev show ?thesis by blast
qed

lemma swap_versions:
  assumes ok: "states_ok sha redact d" and cas: "compare_and_swap sha redact secret s v d = Inr (t, d')"
  shows "stored_version d (rs_memorial s) = Some v \<and> stored_version d' (rs_memorial s) = Some (v + 1)"
proof -
  from compare_and_swap_Inr [OF ok cas] obtain r where sw: "swapped r t d d'" and t: "t = s\<lparr>rs_version := v + 1\<rparr>"
    and r: "row_memorial r = rs_memorial s" "rs_version (rr_state r) = v"
    and val: "valid_run_state sha redact t" "decision_binding_ok t" by blast
  have rin: "r \<in> set (db_run_states d)" using sw by (simp add: swapped_def)
  have k: "states_ok sha redact d'" and r': "r\<lparr>rr_state := t\<rparr> \<in> set (db_run_states d')"
    using swapped_keeps [OF ok sw val] by auto
  have m: "row_memorial (r\<lparr>rr_state := t\<rparr>) = rs_memorial s" by (simp add: row_memorial_def t)
  show ?thesis
    using states_row_of [OF ok rin r(1)] states_row_of [OF k r' m] r(2) by (simp add: stored_version_def t)
qed

interpretation run_states: versioned_store "run_step sha redact secret" "states_ok sha redact" states_evolve
  stored_version "swap_of sha redact secret"
  for sha redact secret
proof unfold_locales
  show "states_ok sha redact d \<Longrightarrow> run_step sha redact secret d d' \<Longrightarrow> states_ok sha redact d'"
    and "states_ok sha redact d \<Longrightarrow> run_step sha redact secret d d' \<Longrightarrow> states_evolve d d'" for d d'
    using run_step_keeps by blast+
  show "states_evolve d d" for d by simp
  show "states_evolve d d' \<Longrightarrow> states_evolve d' d'' \<Longrightarrow> states_evolve d d''" for d d' d''
    by (rule states_evolve_trans)
  show "states_ok sha redact d \<Longrightarrow> swap_of sha redact secret m v s d = Some d' \<Longrightarrow>
      stored_version d m = Some v \<and> stored_version d' m = Some (v + 1)" for d d' m v s
    using swap_versions [of sha redact d secret "s\<lparr>rs_memorial := m\<rparr>" v _ d']
    by (auto simp: swap_of_def split: sum.splits)
  show "states_ok sha redact d \<Longrightarrow> swap_of sha redact secret m v s d = Some d' \<Longrightarrow> states_ok sha redact d'" for d d' m v s
    using run_step_keeps [OF _ rs_swap [of sha redact secret "s\<lparr>rs_memorial := m\<rparr>" v d _ d']]
    by (auto simp: swap_of_def split: sum.splits)
  show "states_ok sha redact d \<Longrightarrow> states_ok sha redact d' \<Longrightarrow> states_evolve d d' \<Longrightarrow> stored_version d m = Some v \<Longrightarrow>
      \<exists>v'. stored_version d' m = Some v' \<and> v \<le> v'" for d d' m v
    using states_evolve_row [of sha redact d' d m] by (fastforce simp: stored_version_def state_evolves_def)
qed

section \<open>A small run\<close>

definition demo_usage :: usage_summary where
  "demo_usage = \<lparr>us_prompt_tokens = 0, us_completion_tokens = 0, us_total_tokens = 0,
     us_cache_read_tokens = 0, us_cost_cny = 0, us_actual_model = None, us_upstream_provider = None\<rparr>"

definition demo_agent :: agent_continuation where
  "demo_agent = \<lparr>ac_messages = [], ac_pending_tool = None, ac_iteration = 0, ac_usage = demo_usage,
     ac_checkpoint = None, ac_pending_decision = None, ac_resolved_decision = None, ac_cursor = 0,
     ac_plan_ref = None, ac_plan_hash = None, ac_plan_revision_id = None, ac_plan_revisions = [],
     ac_plan_snapshot = None, ac_scheduled_event_id = None, ac_scheduled_event_hash = None\<rparr>"

definition demo_state :: run_state where
  "demo_state = \<lparr>rs_memorial = ''m1'', rs_edict = ''e1'', rs_schema_version = 1, rs_phase = PExecuting,
     rs_continuation = Agent demo_agent, rs_checkpoint = None, rs_cursor = 0, rs_version = 1,
     rs_created = 5, rs_updated = 5\<rparr>"

definition demo_edict :: edict_row where
  "demo_edict = \<lparr>ed_id = ''e1'', ed_submitter = ''u'', ed_title = ''t'', ed_goal = ''g'', ed_archived = False,
     ed_acceptance = False, ed_runtime = [], ed_status = EdOpen, ed_schedule = None, ed_retry_limit = Some 0\<rparr>"

definition demo_run_memorial :: memorial_row where
  "demo_run_memorial = \<lparr>mem_id = ''m1'', mem_edict = ''e1'', mem_status = TRunning, mem_dag_node = None,
     mem_summary = None, mem_result = None, mem_final_output = None, mem_usage = None, mem_reasoning = None,
     mem_error = None, mem_failure_reason = None, mem_completed = None,
     mem_instruction = ''g'', mem_parent = None, mem_attempt = 1, mem_created = 0, mem_runtime_override = None,
     mem_acceptance_override = None\<rparr>"

definition demo_runs :: db where
  "demo_runs = empty_db\<lparr>db_edicts := [demo_edict], db_memorials := [demo_run_memorial],
     db_run_states := [\<lparr>rr_state = demo_state, rr_correlation = Some ''c1''\<rparr>]\<rparr>"

lemmas demo_run_defs = demo_runs_def empty_db_def demo_edict_def demo_run_memorial_def demo_state_def
  demo_agent_def demo_usage_def

lemma demo_state_valid: "valid_run_state id id demo_state" "decision_binding_ok demo_state"
  by (simp_all add: demo_run_defs valid_run_state_def valid_agent_def valid_usage_def opt_hex64_def plan_binding_def
      opt_nonblank_def blank_code is_space_def Let_def decision_binding_ok_def)

lemma demo_runs_ok: "states_ok id id demo_runs"
  using demo_state_valid by (simp add: states_ok_def demo_runs_def)

lemmas swap_defs = compare_and_swap_def require_decision_binding_def load_def decode_state_def
  require_immutable_scheduled_event_binding_def require_valid_plan_lineage_def candidate_checks_def
  require_memorial_binding_def memorial_bound_def require_immutable_plan_lineage_def require_secret_free_def
  require_encodable_def swap_state_def update_run_states_def Let_def

lemma swap_succeeds:
  assumes ok: "states_ok sha redact d" and cur: "load sha redact (rs_memorial s) d = Inr (Some cur)"
    and val: "valid_run_state sha redact s" and bind: "decision_binding_ok s"
    and same: "rs_version s = rs_version cur" "rs_edict s = rs_edict cur" "rs_created s = rs_created cur"
      "scheduled_binding s = scheduled_binding cur" "rs_updated cur \<le> rs_updated s"
    and lin: "plan_lineage s = plan_lineage cur \<or> (\<exists>r. plan_lineage s = plan_lineage cur @ [r])"
    and env: "memorial_bound d (rs_memorial s) (rs_edict s)" "has_edict d (rs_edict s)" "\<not> secret s"
      "continuation_finite (rs_continuation s)"
  shows "\<exists>d'. compare_and_swap sha redact secret s (rs_version s) d = Inr (s\<lparr>rs_version := rs_version s + 1\<rparr>, d')"
proof -
  let ?saved = "s\<lparr>rs_version := rs_version s + 1\<rparr>"
  let ?p = "\<lambda>r. row_memorial r = rs_memorial ?saved \<and> rs_version (rr_state r) = rs_version s"
  let ?d' = "d\<lparr>db_run_states := update_rows ?p (stored_state False ?saved) (db_run_states d)\<rparr>"
  have dist: "distinct (map row_memorial (db_run_states d))" using ok by (simp add: states_ok_def)
  obtain r where r: "row_by row_memorial (rs_memorial s) (db_run_states d) = Some r" and rc: "rr_state r = cur"
    using cur by (auto simp: load_eq [OF ok])
  have rin: "r \<in> set (db_run_states d)" "row_memorial r = rs_memorial s" using row_by_SomeD [OF r] by auto
  have vc: "valid_run_state sha redact cur" using ok rin(1) rc by (auto simp: states_ok_def)
  have eq: "stored_state False ?saved r = r\<lparr>rr_state := ?saved\<rparr>"
    using rin(2) rc same vc val by (intro stored_state_eq) (auto simp: row_memorial_def valid_run_state_def)
  have only: "x = r" if "x \<in> set (db_run_states d)" "?p x" for x
    using row_by_unique [OF dist that(1), of "rs_memorial s"] that(2) r by simp
  have chk: "run_state_checks ?saved" using val by (auto simp: run_state_checks_def valid_run_state_def)
  have upd: "update_run_states ?p (stored_state False ?saved) d = Inr (count_rows ?p (db_run_states d), ?d')"
    using only eq chk env(2) unfolding update_run_states_def list_all_iff by force
  have one: "count_rows ?p (db_run_states d) = 1"
    using r rc same(1) by (simp add: count_rows_by_key [OF dist])
  have row': "row_by row_memorial (rs_memorial s) (db_run_states ?d') = Some (r\<lparr>rr_state := ?saved\<rparr>)"
    using r rin(2) rc same(1) eq by (simp add: row_by_update_rows)
  have vs: "valid_run_state sha redact ?saved" "rs_schema_version s = 1"
    using val by (auto simp: valid_run_state_def)
  have ld: "load sha redact (rs_memorial s) ?d' = Inr (Some ?saved)"
    unfolding load_def row' using vs by (simp add: decode_state_def)
  have sw: "swap_state sha redact False c1 c2 s (rs_version s) d = Inr (?saved, ?d')" for c1 c2
    unfolding swap_state_def Let_def upd one using ld by simp
  have "require_valid_plan_lineage sha redact s = Inr ()"
    using val by (cases "rs_continuation s")
      (auto simp: require_valid_plan_lineage_def valid_run_state_def valid_outer_def split: option.splits)
  moreover have "require_immutable_plan_lineage cur s = Inr ()"
    using lin by (auto simp: require_immutable_plan_lineage_def Let_def)
  moreover have "rs_schema_version cur = rs_schema_version s" using vc vs by (simp add: valid_run_state_def)
  ultimately have "candidate_checks secret cur s d = Inr ()"
    using same env by (simp add: candidate_checks_def require_memorial_binding_def require_secret_free_def
        require_encodable_def)
  then show ?thesis
    unfolding compare_and_swap_def
    using cur bind same sw \<open>require_valid_plan_lineage sha redact s = Inr ()\<close>
    by (simp add: require_decision_binding_def require_immutable_scheduled_event_binding_def)
qed

lemma demo_swap:
  "\<exists>d'. compare_and_swap id id (\<lambda>_. False) demo_state 1 demo_runs = Inr (demo_state\<lparr>rs_version := 2\<rparr>, d')"
proof -
  have ld: "load id id (rs_memorial demo_state) demo_runs = Inr (Some demo_state)"
    unfolding load_eq [OF demo_runs_ok] by (simp add: demo_runs_def row_memorial_def)
  have "memorial_bound demo_runs (rs_memorial demo_state) (rs_edict demo_state)"
    "has_edict demo_runs (rs_edict demo_state)" "continuation_finite (rs_continuation demo_state)"
    by (simp_all add: memorial_bound_def has_edict_def demo_run_defs agent_finite_def)
  from swap_succeeds [OF demo_runs_ok ld demo_state_valid, of "\<lambda>_. False"] this
  show ?thesis by (simp add: demo_state_def)
qed

section \<open>Properties\<close>



text \<open>
  A compare-and-swap at version \<open>v\<close> succeeds at most once per run: after one has succeeded, every
  later compare-and-swap of that memorial naming \<open>v\<close> fails, whatever happens in between.
\<close>

theorem compare_and_swap_at_most_once:
  assumes "states_ok sha redact d" and "compare_and_swap sha redact secret s v d = Inr (t, d')"
    and "(run_step sha redact secret)\<^sup>*\<^sup>* d' d''" and "rs_memorial s' = rs_memorial s"
  shows "\<exists>e. compare_and_swap sha redact secret s' v d'' = Inl e"
proof -
  have self: "s'\<lparr>rs_memorial := rs_memorial s\<rparr> = s'" using assms(4) by (cases s') simp
  have "swap_of sha redact secret (rs_memorial s) v s d = Some d'"
    using assms(2) by (simp add: swap_of_def)
  from run_states.swap_once [OF assms(1) this assms(3), of s']
  show ?thesis by (auto simp: swap_of_def self split: sum.splits)
qed

theorem compare_and_swap_at_most_once_witness:
  "\<exists>d'. compare_and_swap id id (\<lambda>_. False) demo_state 1 demo_runs = Inr (demo_state\<lparr>rs_version := 2\<rparr>, d') \<and>
        (\<exists>e. compare_and_swap id id (\<lambda>_. False) demo_state 1 d' = Inl e)"
proof -
  obtain d' where d': "compare_and_swap id id (\<lambda>_. False) demo_state 1 demo_runs = Inr (demo_state\<lparr>rs_version := 2\<rparr>, d')"
    using demo_swap by blast
  from compare_and_swap_at_most_once [OF demo_runs_ok this rtranclp.rtrancl_refl refl] d' show ?thesis by blast
qed

text \<open>
  A successful compare-and-swap stores exactly the given state one version higher, and nothing else:
  reading the memorial back returns it, every other memorial reads as before, and the other tables are
  untouched.
\<close>

theorem compare_and_swap_stores:
  assumes ok: "states_ok sha redact d" and cas: "compare_and_swap sha redact secret s v d = Inr (t, d')"
  shows "t = s\<lparr>rs_version := v + 1\<rparr> \<and>
         load sha redact (rs_memorial s) d' = Inr (Some (s\<lparr>rs_version := v + 1\<rparr>)) \<and>
         (\<forall>m. m \<noteq> rs_memorial s \<longrightarrow> load sha redact m d' = load sha redact m d) \<and>
         d' = d\<lparr>db_run_states := db_run_states d'\<rparr>"
proof -
  from compare_and_swap_Inr [OF ok cas] obtain r where sw: "swapped r t d d'" and t: "t = s\<lparr>rs_version := v + 1\<rparr>"
    and r: "row_memorial r = rs_memorial s"
    and val: "valid_run_state sha redact t" "decision_binding_ok t" by blast
  have d': "d' = d\<lparr>db_run_states := update_rows (\<lambda>x. x = r) (\<lambda>x. x\<lparr>rr_state := t\<rparr>) (db_run_states d)\<rparr>"
    using sw by (simp add: swapped_def)
  have k: "states_ok sha redact d'" and r': "r\<lparr>rr_state := t\<rparr> \<in> set (db_run_states d')"
    using swapped_keeps [OF ok sw val] by auto
  have here: "row_by row_memorial (rs_memorial s) (db_run_states d') = Some (r\<lparr>rr_state := t\<rparr>)"
    using states_row_of [OF k r'] by (simp add: row_memorial_def t)
  have other: "row_by row_memorial m (update_rows (\<lambda>x. x = r) (\<lambda>x. x\<lparr>rr_state := t\<rparr>) rows) = row_by row_memorial m rows"
    if "m \<noteq> rs_memorial s" for m rows
    using that r by (induction rows) (auto simp: update_rows_def row_memorial_def t)
  have other': "row_by row_memorial m (db_run_states d') = row_by row_memorial m (db_run_states d)"
    if "m \<noteq> rs_memorial s" for m using other [OF that] d' by simp
  have "d' = d\<lparr>db_run_states := db_run_states d'\<rparr>" using d' by simp
  with here other' t show ?thesis unfolding load_eq [OF ok] load_eq [OF k] by simp
qed

theorem compare_and_swap_stores_witness:
  "\<exists>d'. load id id ''m1'' d' = Inr (Some (demo_state\<lparr>rs_version := 2\<rparr>)) \<and> load id id ''m2'' d' = Inr None"
proof -
  obtain d' where d': "compare_and_swap id id (\<lambda>_. False) demo_state 1 demo_runs = Inr (demo_state\<lparr>rs_version := 2\<rparr>, d')"
    using demo_swap by blast
  have "load id id ''m2'' demo_runs = Inr None"
    unfolding load_eq [OF demo_runs_ok] by (simp add: demo_run_defs row_memorial_def)
  then have "load id id ''m1'' d' = Inr (Some (demo_state\<lparr>rs_version := 2\<rparr>)) \<and> load id id ''m2'' d' = Inr None"
    using compare_and_swap_stores [OF demo_runs_ok d'] by (simp add: demo_state_def)
  then show ?thesis by blast
qed

text \<open>
  What a run is can never be rewritten: once a state is stored for a memorial, every later state of it
  has the same creation time and the same scheduled-event binding, its plan revisions extend the earlier
  ones, and its version and update time have not decreased.
\<close>

theorem run_history_is_append_only:
  assumes ok: "states_ok sha redact d" and run: "(run_step sha redact secret)\<^sup>*\<^sup>* d d'"
    and ld: "load sha redact m d = Inr (Some s)"
  shows "\<exists>t. load sha redact m d' = Inr (Some t) \<and> rs_created t = rs_created s \<and>
             scheduled_binding t = scheduled_binding s \<and>
             (\<exists>more. plan_lineage t = plan_lineage s @ more) \<and>
             rs_version s \<le> rs_version t \<and> rs_updated s \<le> rs_updated t"
proof -
  have k: "states_ok sha redact d'" and ev: "states_evolve d d'"
    using run_states.steps_inv_evo [OF run ok] by auto
  obtain r where r: "row_by row_memorial m (db_run_states d) = Some r" "rr_state r = s"
    using ld by (auto simp: load_eq [OF ok])
  from states_evolve_row [OF k ev r(1)] obtain r' where r': "row_by row_memorial m (db_run_states d') = Some r'"
    and e: "state_evolves s (rr_state r')" using r(2) by blast
  have "plan_lineage (rr_state r') = plan_lineage s @ drop (length (plan_lineage s)) (plan_lineage (rr_state r'))"
    using e append_take_drop_id [of "length (plan_lineage s)" "plan_lineage (rr_state r')"]
    by (simp add: state_evolves_def)
  with e r' show ?thesis by (auto simp: load_eq [OF k] state_evolves_def)
qed

theorem run_history_is_append_only_witness:
  "\<exists>d' t. compare_and_swap id id (\<lambda>_. False) demo_state 1 demo_runs = Inr (demo_state\<lparr>rs_version := 2\<rparr>, d') \<and>
          load id id ''m1'' d' = Inr (Some t) \<and> rs_created t = 5 \<and> 1 \<le> rs_version t"
proof -
  obtain d' where d': "compare_and_swap id id (\<lambda>_. False) demo_state 1 demo_runs = Inr (demo_state\<lparr>rs_version := 2\<rparr>, d')"
    using demo_swap by blast
  have run: "(run_step id id (\<lambda>_. False))\<^sup>*\<^sup>* demo_runs d'" using rs_swap [OF d'] by (rule r_into_rtranclp)
  have ld: "load id id ''m1'' demo_runs = Inr (Some demo_state)"
    unfolding load_eq [OF demo_runs_ok] by (simp add: demo_runs_def row_memorial_def demo_state_def)
  from run_history_is_append_only [OF demo_runs_ok run ld] d' show ?thesis by (auto simp: demo_state_def)
qed

text \<open>
  A legitimate compare-and-swap succeeds. When the caller holds the stored version, keeps the
  immutable fields, extends the plan lineage by at most one revision, and its state is valid, bound,
  encodable and free of raw secrets, the swap returns the next version.
\<close>

theorem compare_and_swap_progress:
  assumes "states_ok sha redact d" and "load sha redact (rs_memorial s) d = Inr (Some cur)"
    and "valid_run_state sha redact s" and "decision_binding_ok s"
    and "rs_version s = rs_version cur" "rs_edict s = rs_edict cur" "rs_created s = rs_created cur"
      "scheduled_binding s = scheduled_binding cur" "rs_updated cur \<le> rs_updated s"
    and "plan_lineage s = plan_lineage cur \<or> (\<exists>r. plan_lineage s = plan_lineage cur @ [r])"
    and "memorial_bound d (rs_memorial s) (rs_edict s)" "has_edict d (rs_edict s)" "\<not> secret s"
      "continuation_finite (rs_continuation s)"
  shows "\<exists>d'. compare_and_swap sha redact secret s (rs_version s) d = Inr (s\<lparr>rs_version := rs_version s + 1\<rparr>, d')"
  using assms by (rule swap_succeeds)

theorem compare_and_swap_progress_witness:
  "\<exists>d'. compare_and_swap id id (\<lambda>_. False) (demo_state\<lparr>rs_updated := 9\<rparr>) 1 demo_runs =
          Inr (demo_state\<lparr>rs_updated := 9, rs_version := 2\<rparr>, d')"
proof -
  let ?s = "demo_state\<lparr>rs_updated := 9\<rparr>"
  have ld: "load id id (rs_memorial ?s) demo_runs = Inr (Some demo_state)"
    unfolding load_eq [OF demo_runs_ok] by (simp add: demo_runs_def row_memorial_def)
  have v: "valid_run_state id id ?s" "decision_binding_ok ?s"
    using demo_state_valid by (auto simp: valid_run_state_def decision_binding_ok_def Let_def demo_state_def)
  have "memorial_bound demo_runs (rs_memorial ?s) (rs_edict ?s)" "has_edict demo_runs (rs_edict ?s)"
    "continuation_finite (rs_continuation ?s)"
    by (simp_all add: memorial_bound_def has_edict_def demo_run_defs agent_finite_def)
  from compare_and_swap_progress [OF demo_runs_ok ld v _ _ _ _ _ _ this(1,2) _ this(3), of "\<lambda>_. False"]
  show ?thesis by (simp add: demo_state_def scheduled_binding_def plan_lineage_def)
qed

end
