(* ===== verification/Canonical_Injective.thy ===== *)
theory Canonical_Injective
  imports Canonical
begin

text \<open>
  The canonical bytes determine the value: two JSON values in normal form with the same canonical
  bytes are equal. So, up to collisions of the hash, equal payload hashes mean equal payloads. The
  proof treats every piece of the text as a code word that can be split off what follows it.
\<close>

section \<open>Normal forms\<close>

text \<open>
  What \<open>repr\<close> writes for a finite float: only digits, signs, a point and an exponent mark, and at
  least one of the last two.
\<close>

definition number_char :: "char \<Rightarrow> bool" where
  "number_char c = (c \<in> set ''0123456789+-.e'')"

definition float_text :: "string \<Rightarrow> bool" where
  "float_text t = (list_all number_char t \<and> list_ex (\<lambda>c. c \<in> set ''.e'') t)"

text \<open>Keys of an object strictly increasing: the form in which a \<open>dict\<close> is represented.\<close>

fun wf_json :: "json \<Rightarrow> bool" where
  "wf_json (JFloat t) = float_text t"
| "wf_json (JList vs) = (\<forall>v \<in> set vs. wf_json v)"
| "wf_json (JObj kvs) = (sorted_wrt (<) (map fst kvs) \<and> (\<forall>kv \<in> set kvs. wf_json (snd kv)))"
| "wf_json _ = True"

section \<open>Characters\<close>

lemma digit_char_inj: "m < 16 \<Longrightarrow> n < 16 \<Longrightarrow> digit_char m = digit_char n \<Longrightarrow> m = n"
proof -
  assume mn: "m < 16" "n < 16" and e: "digit_char m = digit_char n"
  have inj: "char_of a = (char_of b :: char) \<Longrightarrow> a < 256 \<Longrightarrow> b < 256 \<Longrightarrow> a = b" for a b :: nat
    by (metis of_char_of mod_less numeral_eq_Suc)
  show "m = n"
    using mn e inj [of "48 + m" "48 + n"] inj [of "48 + m" "87 + n"] inj [of "87 + m" "48 + n"]
      inj [of "87 + m" "87 + n"]
    by (auto simp: digit_char_def split: if_splits)
qed

text \<open>The length of an escaped character can be read off its first two characters.\<close>

definition escape_length :: "string \<Rightarrow> nat" where
  "escape_length s =
     (if s ! 0 \<noteq> CHR 0x5C then 1 else if s ! 1 \<noteq> CHR ''u'' then 2 else 6)"

lemma escape_length_escape: "escape_length (escape_char c @ x) = length (escape_char c)"
  by (simp add: escape_length_def escape_char_def Let_def)

lemma escape_char_inj: "escape_char c = escape_char d \<Longrightarrow> c = d"
proof -
  assume e: "escape_char c = escape_char d"
  let ?m = "of_char c :: nat" and ?n = "of_char d :: nat"
  have unicode: "c = d" if "?m < 32" "?n < 32" "digit_char (?m div 16) = digit_char (?n div 16)"
    "digit_char (?m mod 16) = digit_char (?n mod 16)"
  proof -
    have "?m div 16 = ?n div 16" "?m mod 16 = ?n mod 16"
      using that by (auto intro!: digit_char_inj)
    then have "?m = ?n" by (metis mult_div_mod_eq)
    then show ?thesis by simp
  qed
  have cd: "c = char_of ?m" "d = char_of ?n" by simp_all
  show "c = d"
    using e unicode cd by (auto simp: escape_char_def Let_def split: if_splits)
qed

lemma escape_char_split:
  assumes "escape_char c @ x = escape_char d @ y"
  shows "c = d \<and> x = y"
proof -
  have "length (escape_char c) = length (escape_char d)"
    using escape_length_escape [of c x] escape_length_escape [of d y] assms by simp
  with assms escape_char_inj show ?thesis by simp
qed

lemma escape_char_start: "\<exists>a as. escape_char c = a # as \<and> a \<noteq> CHR 0x22"
  by (auto simp: escape_char_def Let_def)

lemma escaped_split:
  "concat (map escape_char a) @ CHR 0x22 # x = concat (map escape_char b) @ CHR 0x22 # y \<Longrightarrow> a = b \<and> x = y"
proof (induction a arbitrary: b)
  case Nil
  then show ?case
    using escape_char_start [of "hd b"] by (cases b) auto
next
  case (Cons c a)
  show ?case
  proof (cases b)
    case Nil
    with Cons.prems escape_char_start [of c] show ?thesis by auto
  next
    case (Cons d b')
    with Cons.prems have "escape_char c @ (concat (map escape_char a) @ CHR 0x22 # x) =
        escape_char d @ (concat (map escape_char b') @ CHR 0x22 # y)" by simp
    from escape_char_split [OF this] Cons.IH [of b'] Cons show ?thesis by simp
  qed
qed

lemma json_string_split: "json_string a @ x = json_string b @ y \<Longrightarrow> a = b \<and> x = y"
  using escaped_split [of a x b y] by (simp add: json_string_def)

section \<open>Numbers\<close>

lemma nat_text_unfold:
  "nat_text n = (if n < 10 then [digit_char n] else nat_text (n div 10) @ [digit_char (n mod 10)])"
  by (rule nat_text.simps)

lemma digit_number_char: "n < 10 \<Longrightarrow> number_char (digit_char n) \<and> digit_char n \<notin> set ''.e-''"
proof -
  assume n: "n < 10"
  have "list_all (\<lambda>n. number_char (digit_char n) \<and> digit_char n \<notin> set ''.e-'') [0..<10]" by code_simp
  with n show ?thesis by (simp add: list_all_iff)
qed

lemma nat_text_chars: "c \<in> set (nat_text n) \<Longrightarrow> number_char c \<and> c \<notin> set ''.e-''"
proof (induction n rule: nat_text.induct)
  case (1 n)
  show ?case
  proof (cases "n < 10")
    case True
    with 1 show ?thesis using digit_number_char [of n] nat_text_unfold [of n] by simp
  next
    case False
    then have "c \<in> set (nat_text (n div 10)) \<or> c = digit_char (n mod 10)"
      using 1(2) nat_text_unfold [of n] by auto
    with 1(1) [OF False] digit_number_char [of "n mod 10"] show ?thesis by auto
  qed
qed

lemma nat_text_nonempty [simp]: "nat_text n \<noteq> []"
  by (subst nat_text_unfold) simp

lemma nat_text_inj: "nat_text m = nat_text n \<Longrightarrow> m = n"
proof (induction m arbitrary: n rule: nat_text.induct)
  case (1 m)
  consider "m < 10" "n < 10" | "m < 10" "\<not> n < 10" | "\<not> m < 10" "n < 10" | "\<not> m < 10" "\<not> n < 10" by blast
  then show ?case
  proof cases
    case 1
    with "1.prems" nat_text_unfold [of m] nat_text_unfold [of n] show ?thesis
      by (auto intro: digit_char_inj)
  next
    case 2
    with "1.prems" nat_text_unfold [of m] nat_text_unfold [of n] nat_text_nonempty [of "n div 10"] show ?thesis
      by (simp add: append_eq_Cons_conv Cons_eq_append_conv)
  next
    case 3
    with "1.prems" nat_text_unfold [of m] nat_text_unfold [of n] nat_text_nonempty [of "m div 10"] show ?thesis
      by (simp add: append_eq_Cons_conv Cons_eq_append_conv)
  next
    case 4
    with "1.prems" nat_text_unfold [of m] nat_text_unfold [of n]
    have "nat_text (m div 10) = nat_text (n div 10)" "digit_char (m mod 10) = digit_char (n mod 10)" by auto
    moreover from this have "m mod 10 = n mod 10" by (intro digit_char_inj) simp_all
    ultimately show ?thesis using "1.IH" [OF 4(1)] by (metis mult_div_mod_eq)
  qed
qed

lemma nat_text_not_minus: "nat_text n \<noteq> CHR ''-'' # t"
proof
  assume "nat_text n = CHR ''-'' # t"
  then have "CHR ''-'' \<in> set (nat_text n)" by simp
  from nat_text_chars [OF this] show False by simp
qed

lemma int_text_inj:
  assumes "int_text i = int_text j"
  shows "i = j"
proof (cases "i < 0"; cases "j < 0")
  assume "i < 0" "j < 0"
  with assms have "nat (- i) = nat (- j)" by (intro nat_text_inj) (simp add: int_text_def)
  with \<open>i < 0\<close> \<open>j < 0\<close> show ?thesis by simp
next
  assume "\<not> i < 0" "\<not> j < 0"
  with assms have "nat i = nat j" by (intro nat_text_inj) (simp add: int_text_def)
  with \<open>\<not> i < 0\<close> \<open>\<not> j < 0\<close> show ?thesis by simp
next
  assume "i < 0" "\<not> j < 0"
  with assms nat_text_not_minus show ?thesis by (metis int_text_def)
next
  assume "\<not> i < 0" "j < 0"
  with assms nat_text_not_minus show ?thesis by (metis int_text_def)
qed

lemma int_text_chars:
  "list_all number_char (int_text i)" "\<not> list_ex (\<lambda>c. c \<in> set ''.e'') (int_text i)"
proof -
  have m: "number_char (CHR ''-'')" by (simp add: number_char_def)
  have n: "list_all number_char (nat_text n)" "list_all (\<lambda>c. c \<notin> set ''.e'') (nat_text n)" for n
    using nat_text_chars [of _ n] by (auto simp: list_all_iff)
  show "list_all number_char (int_text i)" using m n(1) by (simp add: int_text_def)
  have "list_all (\<lambda>c. c \<notin> set ''.e'') (int_text i)" using n(2) by (simp add: int_text_def)
  then show "\<not> list_ex (\<lambda>c. c \<in> set ''.e'') (int_text i)"
    unfolding list_all_iff list_ex_iff by blast
qed

section \<open>Splitting a value off the text\<close>

text \<open>What may follow a value: nothing, a comma or a closing bracket.\<close>

definition delimited :: "string \<Rightarrow> bool" where
  "delimited r = (r = [] \<or> hd r \<in> set '',]}'')"

lemma number_split:
  assumes "list_all number_char a" "list_all number_char b" "delimited r" "delimited s" "a @ r = b @ s"
  shows "a = b \<and> r = s"
proof -
  have stop: "takeWhile number_char (t @ q) = t" if "list_all number_char t" "delimited q" for t q
  proof -
    have "\<not> number_char (hd q)" if "q \<noteq> []"
      using \<open>delimited q\<close> that by (auto simp: delimited_def number_char_def)
    then have "takeWhile number_char q = []" by (cases q) auto
    with \<open>list_all number_char t\<close> show ?thesis
      by (subst takeWhile_append2) (auto simp: list_all_iff)
  qed
  have "a = b" using stop [of a r] stop [of b s] assms by metis
  with assms(5) show ?thesis by simp
qed

lemma delimited_comma [simp]: "delimited (CHR '','' # r)" "delimited (CHR '']'' # r)" "delimited (CHR ''}'' # r)"
  "delimited []"
  by (simp_all add: delimited_def)

text \<open>The first character tells what kind of value follows.\<close>

fun value_tag :: "json \<Rightarrow> nat" where
  "value_tag JNull = 0"
| "value_tag (JBool b) = (if b then 1 else 2)"
| "value_tag (JInt i) = 3"
| "value_tag (JFloat t) = 3"
| "value_tag (JStr s) = 4"
| "value_tag (JList vs) = 5"
| "value_tag (JObj kvs) = 6"

definition char_tag :: "char \<Rightarrow> nat" where
  "char_tag c =
     (if c = CHR ''n'' then 0 else if c = CHR ''t'' then 1 else if c = CHR ''f'' then 2
      else if number_char c then 3 else if c = CHR 0x22 then 4 else if c = CHR ''['' then 5
      else if c = CHR ''{'' then 6 else 7)"

lemma number_char_tag: "number_char c \<Longrightarrow> char_tag c = 3"
  by (auto simp: char_tag_def number_char_def)

lemma number_text_tag: "list_all number_char t \<Longrightarrow> t \<noteq> [] \<Longrightarrow> char_tag (hd t) = 3"
  by (cases t) (auto intro: number_char_tag)

lemma dumps_tag: "wf_json v \<Longrightarrow> dumps v \<noteq> [] \<and> char_tag (hd (dumps v)) = value_tag v"
proof (cases v)
  case (JInt i)
  then show ?thesis
    using number_text_tag [OF int_text_chars(1) [of i]] by (simp add: int_text_def)
next
  case (JFloat t)
  moreover assume "wf_json v"
  ultimately show ?thesis
    using number_text_tag [of t] by (cases t) (auto simp: float_text_def)
qed (simp_all add: char_tag_def number_char_def json_string_def object_text_def)

lemma same_tag:
  assumes "wf_json v" "wf_json w" "dumps v @ r = dumps w @ s"
  shows "value_tag v = value_tag w"
proof -
  have "hd (dumps v) = hd (dumps w)"
    using dumps_tag [OF assms(1)] dumps_tag [OF assms(2)] assms(3) by (metis hd_append2)
  with dumps_tag [OF assms(1)] dumps_tag [OF assms(2)] show ?thesis by metis
qed

section \<open>Sequences\<close>

lemma join_with_Cons: "join_with c (x # xs) = x @ concat (map (\<lambda>y. c # y) xs)"
  by (induction xs arbitrary: x) auto

text \<open>An encoder that can be split off delimited text, from elements of a set.\<close>

definition splits :: "('a \<Rightarrow> string) \<Rightarrow> 'a set \<Rightarrow> 'a set \<Rightarrow> bool" where
  "splits enc A B =
     (\<forall>x \<in> A. \<forall>y \<in> B. \<forall>r s. delimited r \<longrightarrow> delimited s \<longrightarrow> enc x @ r = enc y @ s \<longrightarrow> x = y \<and> r = s)"

lemma splitsD:
  "splits enc A B \<Longrightarrow> x \<in> A \<Longrightarrow> y \<in> B \<Longrightarrow> delimited r \<Longrightarrow> delimited s \<Longrightarrow> enc x @ r = enc y @ s \<Longrightarrow>
     x = y \<and> r = s"
  unfolding splits_def by blast

lemma tail_split:
  assumes "splits enc (set xs) (set ys)" "close \<in> set '']}''"
    and "concat (map (\<lambda>x. CHR '','' # enc x) xs) @ close # r = concat (map (\<lambda>y. CHR '','' # enc y) ys) @ close # s"
  shows "xs = ys \<and> r = s"
  using assms
proof (induction xs arbitrary: ys)
  case Nil
  then show ?case by (cases ys) auto
next
  case (Cons x xs)
  then obtain y ys' where ys: "ys = y # ys'" by (cases ys) auto
  have d: "delimited (concat (map (\<lambda>x. CHR '','' # enc x) zs) @ close # t)" for zs t
    using Cons.prems(2) by (cases zs) (auto simp: delimited_def)
  have "enc x @ (concat (map (\<lambda>x. CHR '','' # enc x) xs) @ close # r) =
        enc y @ (concat (map (\<lambda>y. CHR '','' # enc y) ys') @ close # s)"
    using Cons.prems(3) ys by simp
  from splitsD [OF Cons.prems(1) _ _ d d this] ys
  have xy: "x = y" and rest: "concat (map (\<lambda>x. CHR '','' # enc x) xs) @ close # r =
      concat (map (\<lambda>y. CHR '','' # enc y) ys') @ close # s" by auto
  have "splits enc (set xs) (set ys')" using Cons.prems(1) ys unfolding splits_def by auto
  from Cons.IH [OF this Cons.prems(2) rest] xy ys show ?case by simp
qed

lemma join_split:
  assumes sp: "splits enc (set xs) (set ys)" and c: "close \<in> set '']}''"
    and ne: "\<And>z. z \<in> set xs \<union> set ys \<Longrightarrow> enc z \<noteq> [] \<and> hd (enc z) \<noteq> close"
    and e: "join_with (CHR '','') (map enc xs) @ close # r = join_with (CHR '','') (map enc ys) @ close # s"
  shows "xs = ys \<and> r = s"
proof (cases xs; cases ys)
  assume "xs = []" "ys = []"
  with e show ?thesis by simp
next
  fix y ys' assume "xs = []" "ys = y # ys'"
  with e ne [of y] show ?thesis by (cases "enc y") (auto simp: join_with_Cons)
next
  fix x xs' assume "xs = x # xs'" "ys = []"
  with e ne [of x] show ?thesis by (cases "enc x") (auto simp: join_with_Cons)
next
  fix x xs' y ys' assume "xs = x # xs'" "ys = y # ys'"
  with e tail_split [OF sp c] show ?thesis by (simp add: join_with_Cons comp_def)
qed

section \<open>The value is determined\<close>

definition item_text :: "string \<times> json \<Rightarrow> string" where
  "item_text kv = json_string (fst kv) @ CHR '':'' # dumps (snd kv)"

lemma dumps_object:
  assumes "wf_json (JObj kvs)"
  shows "dumps (JObj kvs) = CHR ''{'' # join_with (CHR '','') (map item_text kvs) @ ''}''"
proof -
  have "sorted (map fst (map (map_prod id dumps) kvs))"
    using assms by (simp add: comp_def strict_sorted_imp_sorted)
  then have "sort_key fst (map (map_prod id dumps) kvs) = map (map_prod id dumps) kvs"
    by (rule sort_key_id_if_sorted)
  then show ?thesis
    by (simp add: object_text_def item_text_def [abs_def] comp_def case_prod_beta)
qed

lemma dumps_not_close: "wf_json v \<Longrightarrow> c \<in> set '']}'' \<Longrightarrow> hd (dumps v) \<noteq> c"
  using dumps_tag [of v] by (cases v) (auto simp: char_tag_def number_char_def split: if_splits)

lemma item_splits:
  assumes "\<And>kv. kv \<in> A \<Longrightarrow> splits dumps {snd kv} (snd ` B)"
  shows "splits item_text A B"
  unfolding splits_def
proof (intro ballI allI impI)
  fix x y r s
  assume xy: "x \<in> A" "y \<in> B" and d: "delimited r" "delimited s" and e: "item_text x @ r = item_text y @ s"
  have "fst x = fst y" and rest: "dumps (snd x) @ r = dumps (snd y) @ s"
    using e json_string_split [of "fst x" "CHR '':'' # dumps (snd x) @ r" "fst y" "CHR '':'' # dumps (snd y) @ s"]
    by (auto simp: item_text_def)
  moreover have "snd x = snd y \<and> r = s"
    using splitsD [OF assms [OF xy(1)] _ _ d rest] xy(2) by simp
  ultimately show "x = y \<and> r = s" by (simp add: prod_eq_iff)
qed

lemma dumps_split:
  "wf_json v \<Longrightarrow> wf_json w \<Longrightarrow> delimited r \<Longrightarrow> delimited s \<Longrightarrow> dumps v @ r = dumps w @ s \<Longrightarrow> v = w \<and> r = s"
proof (induction v arbitrary: w r s)
  case JNull
  with same_tag [of JNull w r s] show ?case by (cases w) (auto split: if_splits)
next
  case (JBool b)
  with same_tag [of "JBool b" w r s] show ?case by (cases w) (auto split: if_splits)
next
  case (JInt i)
  then have "value_tag w = 3" using same_tag [of "JInt i" w r s] by simp
  then consider j where "w = JInt j" | t where "w = JFloat t" by (cases w) (auto split: if_splits)
  then show ?case
  proof cases
    case 1
    with JInt number_split [of "int_text i" "int_text j" r s] int_text_chars(1) int_text_inj show ?thesis by auto
  next
    case 2
    with JInt number_split [of "int_text i" t r s] int_text_chars(1) [of i] int_text_chars(2) [of i] show ?thesis
      by (auto simp: float_text_def)
  qed
next
  case (JFloat t)
  then have "value_tag w = 3" using same_tag [of "JFloat t" w r s] by simp
  then consider j where "w = JInt j" | u where "w = JFloat u" by (cases w) (auto split: if_splits)
  then show ?case
  proof cases
    case 1
    with JFloat number_split [of t "int_text j" r s] int_text_chars(1) [of j] int_text_chars(2) [of j] show ?thesis
      by (auto simp: float_text_def)
  next
    case 2
    with JFloat number_split [of t u r s] show ?thesis by (auto simp: float_text_def)
  qed
next
  case (JStr a)
  then obtain b where "w = JStr b" using same_tag [of "JStr a" w r s] by (cases w) (auto split: if_splits)
  with JStr json_string_split [of a r b s] show ?case by simp
next
  case (JList vs)
  then obtain ws where w: "w = JList ws" using same_tag [of "JList vs" w r s] by (cases w) (auto split: if_splits)
  have sp: "splits dumps (set vs) (set ws)"
    unfolding splits_def
  proof (intro ballI allI impI)
    fix x y p q
    assume "x \<in> set vs" "y \<in> set ws" "delimited p" "delimited q" "dumps x @ p = dumps y @ q"
    then show "x = y \<and> p = q" using JList.IH [of x y p q] JList.prems(1,2) w by simp
  qed
  have ne: "dumps z \<noteq> [] \<and> hd (dumps z) \<noteq> CHR '']''" if "z \<in> set vs \<union> set ws" for z
    using dumps_tag [of z] dumps_not_close [of z] that JList.prems(1,2) w by auto
  show ?case
    using join_split [OF sp _ ne, of r s] JList.prems(5) w by simp
next
  case (JObj kvs)
  then obtain lws where w: "w = JObj lws" using same_tag [of "JObj kvs" w r s] by (cases w) (auto split: if_splits)
  have sp: "splits item_text (set kvs) (set lws)"
  proof (rule item_splits)
    fix kv assume kv: "kv \<in> set kvs"
    show "splits dumps {snd kv} (snd ` set lws)"
      unfolding splits_def using JObj.IH [OF kv, of "snd kv"] JObj.prems(1,2) w kv
      by (auto simp: snds.simps)
  qed
  have ne: "item_text z \<noteq> [] \<and> hd (item_text z) \<noteq> CHR ''}''" for z
    by (simp add: item_text_def json_string_def)
  show ?case
    using join_split [OF sp _ ne, of r s] JObj.prems(5) dumps_object [OF JObj.prems(1)]
      dumps_object [OF JObj.prems(2) [unfolded w]] w by simp
qed

lemma dumps_inj: "wf_json v \<Longrightarrow> wf_json w \<Longrightarrow> dumps v = dumps w \<Longrightarrow> v = w"
  using dumps_split [of v w "[]" "[]"] by simp

section \<open>Bytes\<close>

lemma utf8_char_inj: "utf8_char c @ x = utf8_char d @ y \<Longrightarrow> c = d \<and> x = y"
proof -
  assume e: "utf8_char c @ x = utf8_char d @ y"
  let ?m = "of_char c :: nat" and ?n = "of_char d :: nat"
  have lt: "(of_char z :: nat) < 256" for z :: char by (simp add: of_char_def)
  have code: "a = b" if "char_of a = (char_of b :: char)" "a < 256" "b < 256" for a b :: nat
    using that by (metis of_char_of mod_less numeral_eq_Suc)
  have hi: "\<not> (192 + k div 64) mod 256 < 128" if "k < 256" for k :: nat
  proof -
    have "k div 64 < 4" using that by (simp add: div_less_iff_less_mult)
    then show ?thesis by simp
  qed
  have high: "(of_char (hd (utf8_char z)) :: nat) < 128 \<longleftrightarrow> (of_char z :: nat) < 128" for z
    using hi [OF lt [of z]] by (simp add: utf8_char_def Let_def)
  have ne: "utf8_char z \<noteq> []" for z by (simp add: utf8_char_def Let_def)
  have "hd (utf8_char c) = hd (utf8_char d)"
    using arg_cong [OF e, of hd] by (simp add: ne)
  then have "?m < 128 \<longleftrightarrow> ?n < 128" using high [of c] high [of d] by simp
  moreover have "c = d \<and> x = y" if "128 \<le> ?m" "128 \<le> ?n"
  proof -
    from e that have "char_of (192 + ?m div 64) = (char_of (192 + ?n div 64) :: char)"
      "char_of (128 + ?m mod 64) = (char_of (128 + ?n mod 64) :: char)" and xy: "x = y"
      by (simp_all add: utf8_char_def Let_def)
    then have "?m div 64 = ?n div 64" "?m mod 64 = ?n mod 64"
      using code [of "192 + ?m div 64" "192 + ?n div 64"] code [of "128 + ?m mod 64" "128 + ?n mod 64"] lt [of c] lt [of d] by auto
    then have "?m = ?n" by (metis mult_div_mod_eq)
    with xy show ?thesis by simp
  qed
  ultimately show "c = d \<and> x = y" using e by (auto simp: utf8_char_def Let_def split: if_splits)
qed

lemma utf8_inj: "utf8 a = utf8 b \<Longrightarrow> a = b"
proof (induction a arbitrary: b)
  case Nil
  then show ?case by (cases b) (auto simp: utf8_def utf8_char_def Let_def split: if_splits)
next
  case (Cons c a)
  then obtain d b' where b: "b = d # b'"
    by (cases b) (auto simp: utf8_def utf8_char_def Let_def split: if_splits)
  have "utf8_char c @ utf8 a = utf8_char d @ utf8 b'" using Cons.prems b by (simp add: utf8_def)
  from utf8_char_inj [OF this] Cons.IH b show ?case by auto
qed

text \<open>
  C33: canonical JSON is injective. Two values in normal form (object keys in order, floats as \<open>repr\<close>
  writes them) that have the same canonical bytes are equal, so a payload hash stands for one payload
  as far as the hash itself has no collision.
\<close>

theorem canonical_bytes_injective:
  assumes "wf_json v" and "wf_json w"
    and "canonical_json_bytes v = Inr b" and "canonical_json_bytes w = Inr b"
  shows "v = w"
proof -
  have "utf8 (dumps v) = b" "utf8 (dumps w) = b"
    using assms(3,4) by (simp_all add: canonical_json_bytes_def split: if_splits)
  then have "dumps v = dumps w" by (metis utf8_inj)
  with assms(1,2) show ?thesis by (rule dumps_inj)
qed

theorem canonical_bytes_injective_witness:
  "canonical_json_bytes (JObj [(''a'', JInt (-12)), (''b'', JStr ''1'')]) \<noteq>
   canonical_json_bytes (JObj [(''a'', JInt (-12)), (''b'', JInt 1)])"
proof
  let ?v = "JObj [(''a'', JInt (-12)), (''b'', JStr ''1'')]" and ?w = "JObj [(''a'', JInt (-12)), (''b'', JInt 1)]"
  assume eq: "canonical_json_bytes ?v = canonical_json_bytes ?w"
  have wf: "wf_json ?v" "wf_json ?w" by code_simp+
  have v: "canonical_json_bytes ?v = Inr (projr (canonical_json_bytes ?v))" by code_simp
  from canonical_bytes_injective [OF wf v] v eq have "?v = ?w" by simp
  then show False by simp
qed

end
