(* ===== verification/Audit_Chain.thy ===== *)
theory Audit_Chain
  imports System_Audit Canonical_Injective
begin

text \<open>
  What the audit log promises: logs built by appends verify, appends neither change nor drop earlier
  events, and two logs that verify with the same terminal hash are the same log, unless the hash has
  a collision among the texts it was applied to.
\<close>

section \<open>The hashed text determines the row\<close>

definition sorted_payload :: "audit_row \<Rightarrow> (string \<times> json) list" where
  "sorted_payload r =
     [(''action'', JStr (au_action r)), (''actor_digest'', JStr (au_actor r)),
      (''correlation_id'', JStr (au_correlation r)), (''created_at'', JStr (au_created r)),
      (''id'', JStr (au_id r)), (''metadata_json'', JStr (dumps (JObj (au_metadata r)))),
      (''outcome'', JStr (au_outcome r)), (''previous_hash'', JStr (au_previous r)),
      (''reason_code'', JStr (au_reason r)), (''schema_version'', JStr (au_schema_version r)),
      (''sequence'', JInt (au_sequence r)), (''subject_digest'', JStr (au_subject r)),
      (''subject_kind'', JStr (au_subject_kind r))]"

lemma hash_payload_sorted: "dumps (hash_payload r) = dumps (JObj (sorted_payload r))"
  unfolding hash_payload_def sorted_payload_def
  by (rule dumps_object_perm) (simp_all add: add_mset_commute)

definition payload_keys :: "string list" where
  "payload_keys =
     [''action'', ''actor_digest'', ''correlation_id'', ''created_at'', ''id'', ''metadata_json'', ''outcome'',
      ''previous_hash'', ''reason_code'', ''schema_version'', ''sequence'', ''subject_digest'', ''subject_kind'']"

lemma sorted_payload_wf: "wf_json (JObj (sorted_payload r))"
proof -
  have "map fst (sorted_payload r) = payload_keys" by (simp add: sorted_payload_def payload_keys_def)
  moreover have "sorted_wrt (<) payload_keys" by code_simp
  moreover have "\<forall>kv \<in> set (sorted_payload r). wf_json (snd kv)" by (simp add: sorted_payload_def)
  ultimately show ?thesis by simp
qed

text \<open>The metadata is in normal form, as a \<open>dict\<close> of primitive values is.\<close>

definition metadata_normal :: "audit_row \<Rightarrow> bool" where
  "metadata_normal r = wf_json (JObj (au_metadata r))"

lemma payload_text_inj:
  assumes "payload_text r = payload_text r'" "metadata_normal r" "metadata_normal r'" "au_hash r = au_hash r'"
  shows "r = r'"
proof -
  have "dumps (JObj (sorted_payload r)) = dumps (JObj (sorted_payload r'))"
    using utf8_inj [OF assms(1) [unfolded payload_text_def]] by (simp only: hash_payload_sorted)
  from dumps_inj [OF sorted_payload_wf sorted_payload_wf this]
  have eq: "sorted_payload r = sorted_payload r'" by simp
  then have "dumps (JObj (au_metadata r)) = dumps (JObj (au_metadata r'))" by (simp add: sorted_payload_def)
  from dumps_inj [OF assms(2,3) [unfolded metadata_normal_def] this]
  have "au_metadata r = au_metadata r'" by simp
  with eq assms(4) show ?thesis by (intro audit_row.equality) (simp_all add: sorted_payload_def)
qed

section \<open>Chains with the same end\<close>

lemma chains_agree:
  assumes "chain sha 1 genesis xs" "chain sha 1 genesis ys"
    and "last_event au_hash genesis xs = last_event au_hash genesis ys"
    and "\<forall>r \<in> set xs \<union> set ys. metadata_normal r"
    and inj: "inj_on sha (payload_text ` U)" and U: "set xs \<subseteq> U" "set ys \<subseteq> U"
    and gen: "genesis \<notin> sha ` payload_text ` U"
  shows "xs = ys"
  using assms(1-4) U
proof (induction xs arbitrary: ys rule: rev_induct)
  case Nil
  show ?case
  proof (cases ys rule: rev_exhaust)
    case (snoc ys' y)
    then have "au_hash y = genesis" "au_hash y = sha (payload_text y)" "y \<in> U"
      using Nil.prems by (auto simp: last_event_def chain_append row_hash_def)
    with gen have False by (metis image_eqI)
    then show ?thesis ..
  qed simp
next
  case (snoc x xs)
  show ?case
  proof (cases ys rule: rev_exhaust)
    case Nil
    then have "au_hash x = genesis" "au_hash x = sha (payload_text x)" "x \<in> U"
      using snoc.prems by (auto simp: last_event_def chain_append row_hash_def)
    with gen have False by (metis image_eqI)
    then show ?thesis ..
  next
    case (snoc ys' y)
    note ys = this
    have h: "au_hash x = au_hash y" "au_hash x = sha (payload_text x)" "au_hash y = sha (payload_text y)"
      and prev: "au_previous x = last_event au_hash genesis xs" "au_previous y = last_event au_hash genesis ys'"
      and xy: "x \<in> U" "y \<in> U"
      and cs: "chain sha 1 genesis xs" "chain sha 1 genesis ys'"
      using snoc.prems ys by (auto simp: last_event_def [of _ _ "_ @ [_]"] chain_append row_hash_def)
    have "payload_text x = payload_text y"
      using inj h xy by (metis image_eqI inj_onD)
    then have eq: "x = y" using payload_text_inj h(1) snoc.prems(4) ys by simp
    have "xs = ys'"
    proof (rule snoc.IH [OF cs])
      show "last_event au_hash genesis xs = last_event au_hash genesis ys'" using prev eq by simp
    qed (use snoc.prems ys in auto)
    with eq ys show ?thesis by simp
  qed
qed

section \<open>Properties\<close>

text \<open>
  C32: the audit log is tamper-evident. Two logs that both verify and report the same terminal hash
  hold the same events in the same order, provided the hash function has no collision on the texts of
  their rows and never yields the genesis value on them.
\<close>

theorem audit_log_tamper_evident:
  assumes v: "av_verified (verify_system_audit sha rows)" "av_verified (verify_system_audit sha rows')"
    and t: "av_terminal (verify_system_audit sha rows) = av_terminal (verify_system_audit sha rows')"
    and n: "\<forall>r \<in> set rows \<union> set rows'. metadata_normal r"
    and inj: "inj_on sha (payload_text ` (set rows \<union> set rows'))"
    and gen: "genesis \<notin> sha ` payload_text ` (set rows \<union> set rows')"
  shows "by_sequence rows = by_sequence rows'"
proof -
  have c: "chain sha 1 genesis (by_sequence rows)" "chain sha 1 genesis (by_sequence rows')"
    using v by (simp_all add: verify_system_audit_def verification_verified)
  have s: "set (by_sequence r) = set r" for r by (simp add: by_sequence_def select_ordered_def)
  have "last_event au_hash genesis (by_sequence rows) = last_event au_hash genesis (by_sequence rows')"
    using t verification_chain [OF c(1)] verification_chain [OF c(2)] by (simp add: verify_system_audit_def)
  from chains_agree [OF c this _ inj _ _ gen] n show ?thesis by (simp add: s)
qed

text \<open>Logs built by appends alone.\<close>

inductive audit_log :: "(string \<Rightarrow> string) \<Rightarrow> audit_row list \<Rightarrow> bool" for sha where
  empty: "audit_log sha []"
| append: "audit_log sha rows \<Longrightarrow> append_system_audit sha i t req rows = Inr (e, rows') \<Longrightarrow> audit_log sha rows'"

lemma audit_log_chain: "audit_log sha rows \<Longrightarrow> chain sha 1 genesis rows"
  by (induction rule: audit_log.induct) (use append_chain in auto)

text \<open>
  A log built by appends verifies, with the number of its rows as the event count, and exports its
  rows in the order of the appends; each append adds its event at the end and changes no other row.
\<close>

theorem appended_log_verifies:
  assumes log: "audit_log sha rows" and a: "append_system_audit sha i t req rows = Inr (e, rows')"
  shows "rows' = rows @ [e] \<and> av_verified (verify_system_audit sha rows') \<and>
         av_count (verify_system_audit sha rows') = Suc (length rows) \<and>
         au_sequence e = int (length rows) + 1 \<and>
         map_sum id ax_events (export_system_audit sha rows') = Inr rows'"
proof -
  have c: "chain sha 1 genesis rows" "rows' = rows @ [e]" "chain sha 1 genesis rows'"
    using append_chain [OF audit_log_chain [OF log] a] audit_log_chain [OF log] by auto
  then have s: "au_sequence e = int (length rows) + 1" by (simp add: chain_append)
  show ?thesis
    using c s verification_chain [OF c(3)] chain_by_sequence [OF c(3)]
    by (simp add: verify_system_audit_def export_system_audit_def raise_unverified_def)
qed

lemma append_succeeds:
  assumes log: "audit_log sha rows" and req: "valid_audit_request req" and sha: "\<And>x. hex64 (sha x)"
    and fresh: "i \<notin> au_id ` set rows"
      "au_hash (new_audit_row sha i t req (int (length rows)) (last_event au_hash genesis rows)) \<notin> au_hash ` set rows"
  shows "\<exists>e. append_system_audit sha i t req rows = Inr (e, rows @ [e]) \<and>
             au_action e = ar_action req \<and> au_reason e = ar_reason req"
proof -
  let ?n = "int (length rows)" and ?prev = "last_event au_hash genesis rows"
  let ?row = "new_audit_row sha i t req ?n ?prev"
  have c: "chain sha 1 genesis rows" by (rule audit_log_chain [OF log])
  have row: "au_sequence ?row = ?n + 1" "au_id ?row = i" "au_previous ?row = ?prev"
    "au_hash ?row = row_hash sha ?row" "au_schema_version ?row = ''1''" "au_actor ?row = ar_actor req"
    "au_subject ?row = ar_subject req" "au_outcome ?row = ar_outcome req" "au_metadata ?row = ar_metadata req"
    "au_action ?row = ar_action req" "au_reason ?row = ar_reason req"
    by (simp_all add: new_audit_row_def Let_def row_hash_def payload_text_def hash_payload_def)
  have prev: "hex64 ?prev"
  proof (cases "rows = []")
    case True
    have "hex64 genesis" by code_simp
    with True show ?thesis by (simp add: last_event_def)
  next
    case False
    with chain_last(2) [OF c] sha show ?thesis by (simp add: last_event_def row_hash_def)
  qed
  have v: "valid_event ?row"
    using req prev sha by (simp add: valid_event_def row valid_audit_request_def) (simp add: row_hash_def sha)
  have none: "row_by au_sequence (?n + 1) rows = None"
    using chain_sequence_set [OF c] by (force simp: row_by_None_iff)
  have "au_sequence r \<noteq> au_sequence ?row \<and> au_id r \<noteq> au_id ?row \<and> au_hash r \<noteq> au_hash ?row"
    if "r \<in> set rows" for r
    using chain_sequence_set [OF c that] fresh that row(1,2) by (auto simp: image_iff)
  then have "insert_audit ?row rows = Inr (rows @ [?row])"
    using v by (auto simp: insert_audit_def valid_event_def hex64_def)
  moreover have "row_by au_sequence (?n + 1) (rows @ [?row]) = Some ?row"
    using none row(1) by (simp add: row_by_append)
  moreover have "validate_row sha (?n + 1) (Some ?prev) ?row = Inr ?row"
    using row(1,3,4) v by (simp add: validate_row_Inr)
  ultimately show ?thesis
    using row(10,11) by (simp add: append_system_audit_def validated_tail_chain [OF c])
qed

text \<open>
  An append to such a log succeeds whenever the request is valid, the event id and the new hash are
  not in the log yet, and the hash function yields digests.
\<close>

theorem append_to_log_succeeds:
  assumes log: "audit_log sha rows" and req: "valid_audit_request req" and sha: "\<And>x. hex64 (sha x)"
    and fresh: "i \<notin> au_id ` set rows"
      "au_hash (new_audit_row sha i t req (int (length rows)) (last_event au_hash genesis rows)) \<notin> au_hash ` set rows"
  shows "\<exists>e. append_system_audit sha i t req rows = Inr (e, rows @ [e]) \<and>
             au_action e = ar_action req \<and> au_reason e = ar_reason req"
  by (rule append_succeeds [OF assms])

section \<open>Concrete logs\<close>

definition toy_digest :: "string \<Rightarrow> string" where
  "toy_digest s = replicate 64 (CHR ''a'')"

definition demo_request :: audit_request where
  "demo_request =
     \<lparr>ar_correlation = ''c1'', ar_actor = replicate 64 (CHR ''1''), ar_action = ''decision.request.denied'',
      ar_outcome = ''denied'', ar_reason = ''decision_identity_conflict'', ar_subject_kind = ''decision_request'',
      ar_subject = replicate 64 (CHR ''2''), ar_metadata = [(''kind'', JStr ''tool'')]\<rparr>"

definition demo_log :: "audit_row list" where
  "demo_log = snd (projr (append_system_audit toy_digest ''E1'' ''t3'' demo_request []))"

lemma by_sequence_single: "by_sequence [r] = [r]"
  by (simp add: by_sequence_def select_ordered_def)

lemma toy_digest_hex: "hex64 (toy_digest s)"
  by (simp add: hex64_def toy_digest_def is_hex_digit_def list_all_iff)

lemma demo_request_valid: "valid_audit_request demo_request"
  by code_simp

lemma demo_append:
  "append_system_audit toy_digest ''E1'' ''t3'' demo_request [] = Inr (hd demo_log, demo_log)"
  using append_succeeds [where sha = toy_digest and i = "''E1''" and t = "''t3''", OF audit_log.empty demo_request_valid toy_digest_hex]
  by (auto simp: demo_log_def)

lemma demo_log_facts:
  "demo_log = [hd demo_log]" "chain toy_digest 1 genesis demo_log" "metadata_normal (hd demo_log)"
  using append_chain [of toy_digest "[]", OF _ demo_append]
  by (auto simp: metadata_normal_def demo_request_def)

text \<open>The same event with another reason, and a digest that tells the two apart.\<close>

definition tampered_log :: "audit_row list" where
  "tampered_log = [(hd demo_log)\<lparr>au_reason := ''other''\<rparr>]"

definition two_digest :: "string \<Rightarrow> string" where
  "two_digest s = (if s = payload_text (hd demo_log) then replicate 64 (CHR ''a'') else replicate 64 (CHR ''b''))"

lemma demo_log_reason: "au_reason (hd demo_log) = ''decision_identity_conflict''"
  using append_succeeds [where sha = toy_digest and i = "''E1''" and t = "''t3''", OF audit_log.empty demo_request_valid toy_digest_hex] demo_append
  by (auto simp: demo_request_def)

theorem audit_log_tamper_evident_witness:
  "av_verified (verify_system_audit two_digest demo_log) \<and>
   \<not> (av_verified (verify_system_audit two_digest tampered_log) \<and>
      av_terminal (verify_system_audit two_digest demo_log) = av_terminal (verify_system_audit two_digest tampered_log))"
proof -
  have one: "demo_log = [hd demo_log]" by (rule demo_log_facts(1))
  have "chain toy_digest 1 genesis [hd demo_log]" using demo_log_facts(2) one by simp
  then have "chain two_digest 1 genesis [hd demo_log]"
    by (simp add: row_hash_def two_digest_def toy_digest_def)
  moreover have "by_sequence demo_log = [hd demo_log]"
    using one by (metis by_sequence_single)
  ultimately have v: "av_verified (verify_system_audit two_digest demo_log)"
    by (simp add: verify_system_audit_def verification_verified)
  have both: "set demo_log \<union> set tampered_log = {hd demo_log, (hd demo_log)\<lparr>au_reason := ''other''\<rparr>}"
    using one by (metis list.simps(15) empty_set insert_is_Un tampered_log_def)
  have n: "\<forall>r \<in> set demo_log \<union> set tampered_log. metadata_normal r"
    unfolding both using demo_log_facts(3) by (simp add: metadata_normal_def)
  have inj: "inj_on two_digest (payload_text ` (set demo_log \<union> set tampered_log))"
    unfolding both by (auto simp: two_digest_def)
  have gen: "genesis \<notin> two_digest ` payload_text ` (set demo_log \<union> set tampered_log)"
    unfolding both by (auto simp: two_digest_def genesis_def)
  have "by_sequence demo_log \<noteq> by_sequence tampered_log"
    using demo_log_reason \<open>by_sequence demo_log = [hd demo_log]\<close>
    by (auto simp: tampered_log_def by_sequence_single dest: arg_cong [of _ _ au_reason])
  with audit_log_tamper_evident [OF v _ _ n inj gen] v show ?thesis by blast
qed

theorem appended_log_verifies_witness: "av_verified (verify_system_audit toy_digest demo_log)"
  using appended_log_verifies [OF audit_log.empty demo_append] by simp

theorem append_to_log_succeeds_witness:
  "\<exists>e. append_system_audit toy_digest ''E1'' ''t3'' demo_request [] = Inr (e, [e]) \<and>
       au_action e = ''decision.request.denied'' \<and> au_reason e = ''decision_identity_conflict''"
proof -
  from append_to_log_succeeds [where sha = toy_digest and i = "''E1''" and t = "''t3''", OF audit_log.empty demo_request_valid toy_digest_hex]
  show ?thesis by (simp add: demo_request_def)
qed

end
