(* ===== verification/Unit_Of_Work.thy ===== *)
theory Unit_Of_Work
  imports Prelude
begin

text \<open>
  \<open>storage/unit_of_work.py\<close>: the object that owns one explicit transaction on the storage's connection.
  The connection is the durable state, the state its open transaction sees, and whether one is open; the
  reentrant lock is the number of times the caller holds it. The theorems justify \<open>atomically\<close>, by which
  the services of the other theories commit.
\<close>

record 's uow =
  uw_durable :: 's
  uw_working :: 's
  uw_in_tx :: bool
  uw_lock :: nat
  uw_entered :: bool
  uw_completed :: bool

text \<open>The connection's own \<open>commit\<close> and \<open>rollback\<close>, which do nothing outside a transaction.\<close>

definition conn_commit :: "'s uow \<Rightarrow> 's uow" where
  "conn_commit u = u\<lparr>uw_durable := (if uw_in_tx u then uw_working u else uw_durable u), uw_in_tx := False\<rparr>"

definition conn_rollback :: "'s uow \<Rightarrow> 's uow" where
  "conn_rollback u = u\<lparr>uw_working := (if uw_in_tx u then uw_durable u else uw_working u), uw_in_tx := False\<rparr>"

text \<open>
  A writing statement on the connection. Outside a transaction the driver opens one first.
\<close>

definition conn_execute :: "('s \<Rightarrow> 's) \<Rightarrow> 's uow \<Rightarrow> 's uow" where
  "conn_execute f u =
     u\<lparr>uw_working := f (if uw_in_tx u then uw_working u else uw_durable u), uw_in_tx := True\<rparr>"

definition uow_enter :: "'s uow \<Rightarrow> unit result \<times> 's uow" where
  "uow_enter u =
     (if uw_entered u then (Inl (RuntimeError ''nested unit of work is not supported''), u)
      else
        let u' = u\<lparr>uw_lock := Suc (uw_lock u)\<rparr>
        in if uw_in_tx u'
           then (Inl (RuntimeError ''nested SQLite transaction is not supported''), u'\<lparr>uw_lock := uw_lock u' - 1\<rparr>)
           else (Inr (), u'\<lparr>uw_working := uw_durable u', uw_in_tx := True, uw_entered := True,
                           uw_completed := False\<rparr>))"

definition require_active :: "'s uow \<Rightarrow> unit result" where
  "require_active u =
     (if \<not> uw_entered u \<or> uw_completed u then Inl (RuntimeError ''unit of work is not active'') else Inr ())"

definition uow_connection :: "'s uow \<Rightarrow> unit result" where
  "uow_connection u =
     (if \<not> uw_entered u then Inl (RuntimeError ''unit of work is not active'') else Inr ())"

definition uow_commit :: "'s uow \<Rightarrow> unit result \<times> 's uow" where
  "uow_commit u =
     (case require_active u of
        Inl e \<Rightarrow> (Inl e, u)
      | Inr _ \<Rightarrow> (Inr (), (conn_commit u)\<lparr>uw_completed := True\<rparr>))"

definition uow_rollback :: "'s uow \<Rightarrow> unit result \<times> 's uow" where
  "uow_rollback u =
     (case require_active u of
        Inl e \<Rightarrow> (Inl e, u)
      | Inr _ \<Rightarrow> (Inr (), (if uw_in_tx u then conn_rollback u else u)\<lparr>uw_completed := True\<rparr>))"

definition uow_exit :: "'s uow \<Rightarrow> 's uow" where
  "uow_exit u =
     (let u' = (if \<not> uw_completed u \<or> uw_in_tx u then conn_rollback u else u)
      in u'\<lparr>uw_entered := False, uw_lock := uw_lock u' - 1\<rparr>)"

text \<open>\<open>with uow: body\<close>: the exit runs whether the body returns or raises, and never swallows the exception.\<close>

definition with_uow :: "('s uow \<Rightarrow> 'a result \<times> 's uow) \<Rightarrow> 's uow \<Rightarrow> 'a result \<times> 's uow" where
  "with_uow body u =
     (case uow_enter u of
        (Inl e, u') \<Rightarrow> (Inl e, u')
      | (Inr _, u') \<Rightarrow> (case body u' of (r, u'') \<Rightarrow> (r, uow_exit u'')))"

text \<open>Between transactions: no transaction is open and the object is not entered.\<close>

definition idle :: "'s uow \<Rightarrow> bool" where
  "idle u = (\<not> uw_entered u \<and> \<not> uw_in_tx u)"

section \<open>Bodies\<close>

text \<open>
  The shape of a service method: statements, then a commit as the last one; when a statement raises, the
  commit is not reached, whatever had been written so far (\<open>f\<close> gives the result and what was written).
\<close>

definition commit_at_end :: "('s \<Rightarrow> 'a result \<times> 's) \<Rightarrow> 's uow \<Rightarrow> 'a result \<times> 's uow" where
  "commit_at_end f u =
     (let (r, s) = f (uw_working u); u' = conn_execute (\<lambda>_. s) u
      in case r of
           Inl e \<Rightarrow> (Inl e, u')
         | Inr x \<Rightarrow> (case uow_commit u' of (Inl e, u'') \<Rightarrow> (Inl e, u'') | (Inr _, u'') \<Rightarrow> (Inr x, u'')))"

text \<open>The shape of a denial: an audit record is committed, then the method raises; and what runs after it.\<close>

definition commit_then :: "('s \<Rightarrow> 's) \<Rightarrow> ('s \<Rightarrow> 's) \<Rightarrow> exn \<Rightarrow> 's uow \<Rightarrow> 'a result \<times> 's uow" where
  "commit_then f g e u =
     (case uow_commit (conn_execute f u) of
        (Inl e', u') \<Rightarrow> (Inl e', u')
      | (Inr _, u') \<Rightarrow> (Inl e, conn_execute g u'))"

lemmas uow_defs = with_uow_def uow_enter_def uow_commit_def uow_exit_def require_active_def
  conn_commit_def conn_rollback_def conn_execute_def idle_def Let_def

section \<open>Properties\<close>

text \<open>
  C34: a \<open>with\<close> block whose body commits as its last statement is atomic. Its result is the body's; the
  durable state becomes what the body wrote when the body ends normally and stays as it was when the
  body raises, however much had been written; the lock is given back and the connection is left idle.
\<close>

theorem with_uow_atomic:
  fixes f :: "'s \<Rightarrow> 'a result \<times> 's"
  assumes idle: "idle u"
  shows "let (r, u') = with_uow (commit_at_end f) u;
             (r', s) = atomically (\<lambda>s. case f s of (Inl e, _) \<Rightarrow> Inl e | (Inr x, t) \<Rightarrow> Inr (x, t)) (uw_durable u)
         in r = r' \<and> uw_durable u' = s \<and> idle u' \<and> uw_lock u' = uw_lock u"
proof (cases "f (uw_durable u)")
  case (Pair r s)
  with idle show ?thesis
    by (cases r) (simp_all add: commit_at_end_def atomically_def uow_defs)
qed

theorem with_uow_atomic_witness:
  "let u = \<lparr>uw_durable = (0::int), uw_working = 0, uw_in_tx = False, uw_lock = 0, uw_entered = False,
             uw_completed = False\<rparr>;
       f = (\<lambda>s. (Inl (ValueError ''late'') :: unit result, s + 5))
   in uw_durable (snd (with_uow (commit_at_end f) u)) = 0"
proof -
  let ?u = "\<lparr>uw_durable = (0::int), uw_working = 0, uw_in_tx = False, uw_lock = 0, uw_entered = False,
             uw_completed = False\<rparr>"
  have "idle ?u" by (simp add: idle_def)
  from with_uow_atomic [OF this, of "\<lambda>s. (Inl (ValueError ''late'') :: unit result, s + 5)"]
  show ?thesis by (simp add: Let_def case_prod_beta atomically_def)
qed

text \<open>
  What is committed before a raise is durable, and what is written after the commit in the same
  block is not: the exit rolls it back.
\<close>

theorem with_uow_commit_then_raise:
  assumes idle: "idle u"
  shows "fst (with_uow (commit_then f g e) u) = (Inl e :: 'a result) \<and>
         uw_durable (snd (with_uow (commit_then f g e :: 's uow \<Rightarrow> 'a result \<times> 's uow) u)) = f (uw_durable u) \<and>
         idle (snd (with_uow (commit_then f g e :: 's uow \<Rightarrow> 'a result \<times> 's uow) u)) \<and>
         uw_lock (snd (with_uow (commit_then f g e :: 's uow \<Rightarrow> 'a result \<times> 's uow) u)) = uw_lock u"
  using idle by (simp add: commit_then_def uow_defs)

theorem with_uow_commit_then_raise_witness:
  "let u = \<lparr>uw_durable = (0::int), uw_working = 0, uw_in_tx = False, uw_lock = 0, uw_entered = False,
             uw_completed = False\<rparr>
   in uw_durable (snd (with_uow (commit_then (\<lambda>s. s + 1) (\<lambda>s. s + 10) (ValueError ''denied'') ::
        int uow \<Rightarrow> unit result \<times> int uow) u)) = 1"
proof -
  let ?u = "\<lparr>uw_durable = (0::int), uw_working = 0, uw_in_tx = False, uw_lock = 0, uw_entered = False,
             uw_completed = False\<rparr>"
  have "idle ?u" by (simp add: idle_def)
  from with_uow_commit_then_raise [OF this, where f = "\<lambda>s. s + 1" and g = "\<lambda>s. s + 10" and e = "ValueError ''denied''" and ?'a = unit]
  show ?thesis by (simp add: Let_def)
qed

text \<open>
  Nesting is refused without losing the lock. Entering while a transaction is open raises and leaves
  the lock, the transaction and both states exactly as they were.
\<close>

theorem uow_enter_nested:
  assumes "uw_entered u \<or> uw_in_tx u"
  shows "\<exists>m. uow_enter u = (Inl (RuntimeError m), u)"
  using assms by (auto simp: uow_enter_def Let_def)

theorem uow_enter_nested_witness:
  "\<exists>m. uow_enter \<lparr>uw_durable = (0::int), uw_working = 7, uw_in_tx = True, uw_lock = 1, uw_entered = False,
                   uw_completed = False\<rparr> =
     (Inl (RuntimeError m), \<lparr>uw_durable = 0, uw_working = 7, uw_in_tx = True, uw_lock = 1, uw_entered = False,
                   uw_completed = False\<rparr>)"
  by (rule uow_enter_nested) simp

end
