(* ===== verification/Event_Bus.thy ===== *)
theory Event_Bus
  imports Decision_Model "HOL-Library.AList"
begin

text \<open>
  \<open>models/events.py\<close> and \<open>bus/event_bus.py\<close>: event envelopes and the in-process bus. A handler is known
  by its identity; \<open>run\<close> says what invoking it does to the world, and whether it raises. Best-effort
  background tasks (\<open>fire\<close>) run the same loop as \<open>emit\<close>; logging has no effect on the state.
\<close>

record event_envelope =
  ee_id :: string
  ee_type :: string
  ee_edict :: "string option"
  ee_memorial :: "string option"
  ee_attempt :: int
  ee_timestamp :: instant
  ee_producer :: string
  ee_payload :: payload

definition make_event ::
  "string \<Rightarrow> instant \<Rightarrow> string \<Rightarrow> string option \<Rightarrow> string option \<Rightarrow> string \<Rightarrow> payload option \<Rightarrow> int \<Rightarrow> event_envelope" where
  "make_event i now event_type edict memorial producer p attempt =
     \<lparr>ee_id = i, ee_type = event_type, ee_edict = edict, ee_memorial = memorial, ee_attempt = attempt,
      ee_timestamp = now, ee_producer = producer, ee_payload = (case p of None \<Rightarrow> [] | Some q \<Rightarrow> q)\<rparr>"

record handler_entry =
  he_consumer :: string
  he_handler :: nat
  he_priority :: int

record local_handler_entry =
  lh_handler :: nat
  lh_priority :: int

record event_bus =
  eb_handlers :: "(string \<times> handler_entry list) list"
  eb_local :: "(string \<times> local_handler_entry list) list"

record dispatch_result =
  dp_consumer :: string
  dp_error :: "exn option"

definition empty_bus :: event_bus where
  "empty_bus = \<lparr>eb_handlers = [], eb_local = []\<rparr>"

text \<open>\<open>dict.get(key, ())\<close>\<close>

definition entries_of :: "(string \<times> 'e list) list \<Rightarrow> string \<Rightarrow> 'e list" where
  "entries_of m k = (case map_of m k of None \<Rightarrow> [] | Some es \<Rightarrow> es)"

section \<open>Registration\<close>

definition consumer_name_is_registered :: "event_bus \<Rightarrow> string \<Rightarrow> string \<Rightarrow> bool" where
  "consumer_name_is_registered bus event_type consumer =
     (if event_type = ''*''
      then list_ex (\<lambda>(k, es). list_ex (\<lambda>e. he_consumer e = consumer) es) (eb_handlers bus)
      else list_ex (\<lambda>e. he_consumer e = consumer)
             (entries_of (eb_handlers bus) ''*'' @ entries_of (eb_handlers bus) event_type))"

definition bus_on :: "string \<Rightarrow> nat \<Rightarrow> string \<Rightarrow> int \<Rightarrow> event_bus \<Rightarrow> event_bus result" where
  "bus_on event_type handler consumer priority bus =
     (if blank consumer then Inl (ValueError ''consumer_name must be non-blank'')
      else if consumer_name_is_registered bus event_type consumer
      then Inl (ValueError ''consumer_name is already registered'')
      else Inr (bus\<lparr>eb_handlers := AList.update event_type
             (sort_key he_priority (entries_of (eb_handlers bus) event_type @
                [\<lparr>he_consumer = consumer, he_handler = handler, he_priority = priority\<rparr>]))
             (eb_handlers bus)\<rparr>))"

definition bus_off :: "string \<Rightarrow> nat \<Rightarrow> event_bus \<Rightarrow> event_bus" where
  "bus_off event_type handler bus =
     bus\<lparr>eb_handlers := AList.update event_type
       (filter (\<lambda>e. he_handler e \<noteq> handler) (entries_of (eb_handlers bus) event_type)) (eb_handlers bus)\<rparr>"

definition bus_on_local :: "string \<Rightarrow> nat \<Rightarrow> int \<Rightarrow> event_bus \<Rightarrow> event_bus" where
  "bus_on_local event_type handler priority bus =
     bus\<lparr>eb_local := AList.update event_type
       (sort_key lh_priority (entries_of (eb_local bus) event_type @ [\<lparr>lh_handler = handler, lh_priority = priority\<rparr>]))
       (eb_local bus)\<rparr>"

definition bus_off_local :: "string \<Rightarrow> nat \<Rightarrow> event_bus \<Rightarrow> event_bus" where
  "bus_off_local event_type handler bus =
     bus\<lparr>eb_local := AList.update event_type
       (filter (\<lambda>e. lh_handler e \<noteq> handler) (entries_of (eb_local bus) event_type)) (eb_local bus)\<rparr>"

definition local_subscriber_count :: "event_bus \<Rightarrow> string \<Rightarrow> nat" where
  "local_subscriber_count bus event_type = length (entries_of (eb_local bus) event_type)"

section \<open>Delivery\<close>

definition entries_for :: "event_bus \<Rightarrow> string \<Rightarrow> handler_entry list" where
  "entries_for bus event_type =
     (if event_type = ''*'' then entries_of (eb_handlers bus) event_type
      else sort_key he_priority (entries_of (eb_handlers bus) ''*'' @ entries_of (eb_handlers bus) event_type))"

text \<open>The entries of a best-effort delivery: priority and handler, named consumers first among equals.\<close>

definition best_effort_entries_for :: "event_bus \<Rightarrow> string \<Rightarrow> (int \<times> nat) list" where
  "best_effort_entries_for bus event_type =
     sort_key fst (map (\<lambda>e. (he_priority e, he_handler e)) (entries_for bus event_type) @
                   map (\<lambda>e. (lh_priority e, lh_handler e)) (entries_of (eb_local bus) event_type))"

fun dispatch_loop ::
  "(nat \<Rightarrow> event_envelope \<Rightarrow> 'w \<Rightarrow> exn option \<times> 'w) \<Rightarrow> event_envelope \<Rightarrow> string list \<Rightarrow> handler_entry list \<Rightarrow> 'w \<Rightarrow>
   dispatch_result list \<times> 'w" where
  "dispatch_loop run event skipped [] w = ([], w)"
| "dispatch_loop run event skipped (entry # entries) w =
     (if he_consumer entry \<in> set skipped then dispatch_loop run event skipped entries w
      else let (err, w1) = run (he_handler entry) event w;
               (results, w2) = dispatch_loop run event skipped entries w1
           in (\<lparr>dp_consumer = he_consumer entry, dp_error = err\<rparr> # results, w2))"

definition bus_dispatch ::
  "(nat \<Rightarrow> event_envelope \<Rightarrow> 'w \<Rightarrow> exn option \<times> 'w) \<Rightarrow> event_bus \<Rightarrow> event_envelope \<Rightarrow> string list \<Rightarrow> 'w \<Rightarrow>
   dispatch_result list \<times> 'w" where
  "bus_dispatch run bus event skip w = dispatch_loop run event skip (entries_for bus (ee_type event)) w"

fun run_handlers ::
  "(nat \<Rightarrow> event_envelope \<Rightarrow> 'w \<Rightarrow> exn option \<times> 'w) \<Rightarrow> event_envelope \<Rightarrow> (int \<times> nat) list \<Rightarrow> 'w \<Rightarrow> 'w" where
  "run_handlers run event [] w = w"
| "run_handlers run event ((p, h) # es) w = run_handlers run event es (snd (run h event w))"

definition bus_emit ::
  "(nat \<Rightarrow> event_envelope \<Rightarrow> 'w \<Rightarrow> exn option \<times> 'w) \<Rightarrow> event_bus \<Rightarrow> event_envelope \<Rightarrow> 'w \<Rightarrow> 'w" where
  "bus_emit run bus event w = run_handlers run event (best_effort_entries_for bus (ee_type event)) w"

section \<open>The registry\<close>

text \<open>
  Buses built by registrations. Names under one type, together with the wildcard's, never repeat, and
  the entries of a type stay sorted by priority.
\<close>

definition bus_ok :: "event_bus \<Rightarrow> bool" where
  "bus_ok bus =
     (distinct (map fst (eb_handlers bus)) \<and>
      (\<forall>t. sorted (map he_priority (entries_of (eb_handlers bus) t)) \<and>
           distinct (map he_consumer (entries_of (eb_handlers bus) t)) \<and>
           (t \<noteq> ''*'' \<longrightarrow> he_consumer ` set (entries_of (eb_handlers bus) ''*'') \<inter>
                          he_consumer ` set (entries_of (eb_handlers bus) t) = {})))"

inductive registry :: "event_bus \<Rightarrow> bool" where
  registry_empty: "registry empty_bus"
| registry_on: "registry bus \<Longrightarrow> bus_on t h c p bus = Inr bus' \<Longrightarrow> registry bus'"
| registry_off: "registry bus \<Longrightarrow> registry (bus_off t h bus)"
| registry_on_local: "registry bus \<Longrightarrow> registry (bus_on_local t h p bus)"
| registry_off_local: "registry bus \<Longrightarrow> registry (bus_off_local t h bus)"

lemma entries_of_update [simp]:
  "entries_of (AList.update k es m) t = (if t = k then es else entries_of m t)"
  by (simp add: entries_of_def update_conv')

lemma entries_of_member: "e \<in> set (entries_of m t) \<Longrightarrow> \<exists>es. (t, es) \<in> set m \<and> e \<in> set es"
  by (cases "map_of m t") (auto simp: entries_of_def dest: map_of_SomeD)

lemma registered_iff:
  assumes "distinct (map fst (eb_handlers bus))"
  shows "consumer_name_is_registered bus t c \<longleftrightarrow>
     (\<exists>s. (t = ''*'' \<or> s \<in> {''*'', t}) \<and> c \<in> he_consumer ` set (entries_of (eb_handlers bus) s))"
proof (cases "t = ''*''")
  case True
  have "entries_of (eb_handlers bus) k = es" if "(k, es) \<in> set (eb_handlers bus)" for k es
    using that assms by (simp add: entries_of_def)
  with True show ?thesis
    by (fastforce simp: consumer_name_is_registered_def list_ex_iff dest: entries_of_member)
next
  case False
  then show ?thesis by (auto simp: consumer_name_is_registered_def list_ex_iff)
qed

lemma distinct_map_sort_key [simp]: "distinct (map f (sort_key k xs)) = distinct (map f xs)"
  by (simp add: distinct_map)

lemma filter_sorted_distinct:
  "sorted (map f xs) \<Longrightarrow> sorted (map f (filter p xs))" "distinct (map g xs) \<Longrightarrow> distinct (map g (filter p xs))"
  by (simp_all add: sorted_filter distinct_map_filter)

lemma bus_ok_on:
  assumes ok: "bus_ok bus" and on: "bus_on t h c p bus = Inr bus'"
  shows "bus_ok bus'"
proof -
  let ?e = "\<lparr>he_consumer = c, he_handler = h, he_priority = p\<rparr>"
  let ?H = "entries_of (eb_handlers bus)"
  have bus': "bus' = bus\<lparr>eb_handlers := AList.update t (sort_key he_priority (?H t @ [?e])) (eb_handlers bus)\<rparr>"
    and new: "\<not> consumer_name_is_registered bus t c"
    using on by (auto simp: bus_on_def split: if_splits)
  have d: "distinct (map fst (eb_handlers bus))" using ok by (simp add: bus_ok_def)
  have fresh: "c \<notin> he_consumer ` set (?H s)" if "t = ''*'' \<or> s \<in> {''*'', t}" for s
    using new that unfolding registered_iff [OF d] by blast
  have H: "distinct (map he_consumer (?H s))" "sorted (map he_priority (?H s))"
    "s \<noteq> ''*'' \<Longrightarrow> he_consumer ` set (?H ''*'') \<inter> he_consumer ` set (?H s) = {}" for s
    using ok by (auto simp: bus_ok_def)
  have dt: "distinct (map he_consumer (sort_key he_priority (?H t @ [?e])))"
    using H(1) [of t] fresh [of t] by simp
  have "he_consumer ` set (entries_of (eb_handlers bus') ''*'') \<inter> he_consumer ` set (entries_of (eb_handlers bus') s) = {}"
    if "s \<noteq> ''*''" for s
    using H(3) [OF that] fresh that by (auto simp: bus')
  moreover have "distinct (map fst (eb_handlers bus'))" using d by (simp add: bus' distinct_update)
  ultimately show ?thesis using H dt by (simp add: bus_ok_def bus')
qed

lemma bus_ok_off:
  assumes ok: "bus_ok bus"
  shows "bus_ok (bus_off t h bus)"
proof -
  let ?H = "entries_of (eb_handlers bus)" and ?H' = "entries_of (eb_handlers (bus_off t h bus))"
  have sub: "set (?H' s) \<subseteq> set (?H s)" for s by (auto simp: bus_off_def)
  have H: "distinct (map he_consumer (?H s))" "sorted (map he_priority (?H s))"
    "s \<noteq> ''*'' \<Longrightarrow> he_consumer ` set (?H ''*'') \<inter> he_consumer ` set (?H s) = {}" for s
    using ok by (auto simp: bus_ok_def)
  have "he_consumer ` set (?H' ''*'') \<inter> he_consumer ` set (?H' s) = {}" if "s \<noteq> ''*''" for s
    using H(3) [OF that] sub [of "''*''"] sub [of s] by blast
  moreover have "distinct (map he_consumer (?H' s))" "sorted (map he_priority (?H' s))" for s
    using H(1,2) by (simp_all add: bus_off_def filter_sorted_distinct)
  moreover have "distinct (map fst (eb_handlers (bus_off t h bus)))"
    using ok by (simp add: bus_off_def bus_ok_def distinct_update)
  ultimately show ?thesis unfolding bus_ok_def by blast
qed

lemma registry_ok: "registry bus \<Longrightarrow> bus_ok bus"
proof (induction rule: registry.induct)
  case registry_empty
  show ?case by (simp add: bus_ok_def empty_bus_def entries_of_def)
next
  case (registry_on bus t h c p bus')
  then show ?case using bus_ok_on by blast
next
  case (registry_off bus t h)
  then show ?case by (simp add: bus_ok_off)
qed (simp_all add: bus_ok_def bus_on_local_def bus_off_local_def)

section \<open>Dispatch\<close>

lemma dispatch_consumers:
  "map dp_consumer (fst (dispatch_loop run event skipped es w)) =
   filter (\<lambda>c. c \<notin> set skipped) (map he_consumer es)"
proof (induction es arbitrary: w)
  case (Cons a es)
  obtain err w1 where r: "run (he_handler a) event w = (err, w1)" by fastforce
  obtain rs w2 where l: "dispatch_loop run event skipped es w1 = (rs, w2)" by fastforce
  show ?case using Cons.IH [of w] Cons.IH [of w1] by (simp add: r l)
qed simp

lemma entries_for_names:
  "set (map he_consumer (entries_for bus t)) =
     he_consumer ` (set (entries_of (eb_handlers bus) ''*'') \<union> set (entries_of (eb_handlers bus) t))"
  by (auto simp: entries_for_def)

lemma entries_for_ok:
  assumes "bus_ok bus"
  shows "distinct (map he_consumer (entries_for bus t)) \<and> sorted (map he_priority (entries_for bus t))"
proof (cases "t = ''*''")
  case True
  then show ?thesis using assms by (simp add: bus_ok_def entries_for_def)
next
  case False
  then have "distinct (map he_consumer (entries_of (eb_handlers bus) ''*'' @ entries_of (eb_handlers bus) t))"
    using assms by (simp add: bus_ok_def)
  with False show ?thesis by (simp add: entries_for_def)
qed

text \<open>
  One dispatch of an event invokes every consumer registered for its type or for all types exactly
  once, in priority order, except the ones it is told to skip, and reports each outcome under its name,
  whatever the handlers do.
\<close>

theorem dispatch_invokes_each_once:
  assumes "registry bus"
  shows "map dp_consumer (fst (bus_dispatch run bus event skip w)) =
           filter (\<lambda>c. c \<notin> set skip) (map he_consumer (entries_for bus (ee_type event))) \<and>
         distinct (map dp_consumer (fst (bus_dispatch run bus event skip w))) \<and>
         sorted (map he_priority (entries_for bus (ee_type event))) \<and>
         set (map he_consumer (entries_for bus (ee_type event))) =
           he_consumer ` (set (entries_of (eb_handlers bus) ''*'') \<union> set (entries_of (eb_handlers bus) (ee_type event)))"
  using entries_for_ok [OF registry_ok [OF assms], of "ee_type event"]
  by (auto simp: bus_dispatch_def dispatch_consumers entries_for_names simp del: set_map)

definition demo_bus :: event_bus where
  "demo_bus = \<lparr>eb_handlers = [(''t'', [\<lparr>he_consumer = ''a'', he_handler = 1, he_priority = 5\<rparr>]),
     (''*'', [\<lparr>he_consumer = ''b'', he_handler = 2, he_priority = 3\<rparr>])], eb_local = []\<rparr>"

lemma demo_bus_registry: "registry demo_bus"
proof -
  let ?b = "\<lparr>eb_handlers = [(''t'', [\<lparr>he_consumer = ''a'', he_handler = 1, he_priority = 5\<rparr>])], eb_local = []\<rparr>"
  have "bus_on ''t'' 1 ''a'' 5 empty_bus = Inr ?b" "bus_on ''*'' 2 ''b'' 3 ?b = Inr demo_bus"
    by (simp_all add: bus_on_def empty_bus_def demo_bus_def consumer_name_is_registered_def entries_of_def
        blank_code is_space_def)
  then show ?thesis using registry_on [OF registry_on [OF registry_empty]] by blast
qed

theorem dispatch_invokes_each_once_witness:
  "map dp_consumer (fst (bus_dispatch (\<lambda>h e w. (None, w)) demo_bus (make_event ''e1'' 0 ''t'' None None ''p'' None 1) [''a''] ())) = [''b'']"
proof -
  let ?e = "make_event ''e1'' 0 ''t'' None None ''p'' None 1"
  have "map dp_consumer (fst (bus_dispatch (\<lambda>h e w. (None, w)) demo_bus ?e [''a''] ())) =
        filter (\<lambda>c. c \<notin> set [''a'']) (map he_consumer (entries_for demo_bus (ee_type ?e)))"
    by (rule conjunct1 [OF dispatch_invokes_each_once [OF demo_bus_registry]])
  also have "\<dots> = [''b'']"
    by (simp add: entries_for_def demo_bus_def make_event_def entries_of_def)
  finally show ?thesis .
qed

end
