(* ===== verification/Outbox_Repo.thy ===== *)
theory Outbox_Repo
  imports Database Event_Bus
begin

text \<open>
  \<open>storage/outbox_repo.py\<close>: the durable outbox that carries events out of a transaction, its claims,
  its acknowledgements and the record of which consumer has handled which event, and the idempotency
  records of submissions. Every dispatch operation runs in its own unit of work (\<open>atomically\<close>).
\<close>

section \<open>Storage classes\<close>

text \<open>\<open>CASE WHEN typeof(v) = 'integer' THEN v + 1 ELSE v END\<close>\<close>

fun bump :: "sql_value \<Rightarrow> sql_value" where
  "bump (SInteger n) = SInteger (n + 1)"
| "bump v = v"

text \<open>SQLite's order of values: numbers before text before blobs.\<close>

fun sql_le :: "sql_value \<Rightarrow> sql_value \<Rightarrow> bool" where
  "sql_le (SInteger m) (SInteger n) = (m \<le> n)"
| "sql_le (SInteger m) (SReal q) = (of_int m \<le> q)"
| "sql_le (SReal p) (SInteger n) = (p \<le> of_int n)"
| "sql_le (SReal p) (SReal q) = (p \<le> q)"
| "sql_le (SInteger m) _ = True"
| "sql_le (SReal p) _ = True"
| "sql_le (SText s) (SText t) = (s \<le> t)"
| "sql_le (SText s) (SBlob t) = True"
| "sql_le (SText s) _ = False"
| "sql_le (SBlob s) (SBlob t) = (s \<le> t)"
| "sql_le (SBlob s) _ = False"

text \<open>
  \<open>version + 1\<close> where the statement's guard makes the version equal to an integer parameter. A column of
  integer affinity holds no real or text equal to an integer, so such a version is an integer.
\<close>

section \<open>Adding an event\<close>

definition explicit_correlation :: "payload \<Rightarrow> string option result" where
  "explicit_correlation p =
     (case map_of p ''correlation_id'' of
        None \<Rightarrow> Inr None
      | Some JNull \<Rightarrow> Inr None
      | Some (JStr s) \<Rightarrow> Inr (Some s)
      | Some _ \<Rightarrow> Inl (ValueError ''event correlation_id must be text''))"

definition event_correlation :: "(string \<Rightarrow> string) \<Rightarrow> event_envelope \<Rightarrow> db \<Rightarrow> string result" where
  "event_correlation sha e d =
     and_then (explicit_correlation (ee_payload e)) (\<lambda>explicit.
       case ee_memorial e of
         Some m \<Rightarrow> correlation_for_memorial sha d m explicit
       | None \<Rightarrow> require_correlation_id
           (case explicit of
              Some c \<Rightarrow> if c = [] then ''event:'' @ sha (utf8 (ee_id e)) else c
            | None \<Rightarrow> ''event:'' @ sha (utf8 (ee_id e))))"

definition new_outbox_row :: "event_envelope \<Rightarrow> string \<Rightarrow> outbox_row" where
  "new_outbox_row e correlation =
     \<lparr>ob_id = ee_id e, ob_type = ee_type e,
      ob_aggregate = (if ee_edict e \<noteq> None then ''edict'' else ''system''),
      ob_edict = ee_edict e, ob_memorial = ee_memorial e, ob_producer = ee_producer e,
      ob_correlation = Some correlation, ob_payload = Some (JObj (ee_payload e)),
      ob_occurred = ee_timestamp e, ob_available = ee_timestamp e, ob_status = OPending,
      ob_attempts = SInteger 0, ob_max = SInteger 20, ob_owner = None, ob_expires = None,
      ob_error = None, ob_published = None, ob_version = SInteger 1\<rparr>"

text \<open>The primary key and the foreign keys of \<open>outbox_events\<close>.\<close>

definition insert_outbox :: "outbox_row \<Rightarrow> db \<Rightarrow> db result" where
  "insert_outbox row d =
     (if list_ex (\<lambda>r. ob_id r = ob_id row) (db_outbox d)
      then Inl (IntegrityError ''UNIQUE constraint failed'')
      else if (case ob_edict row of None \<Rightarrow> False | Some e \<Rightarrow> \<not> has_edict d e) \<or>
              (case ob_memorial row of None \<Rightarrow> False | Some m \<Rightarrow> \<not> has_memorial d m)
      then Inl (IntegrityError ''FOREIGN KEY constraint failed'')
      else Inr (d\<lparr>db_outbox := db_outbox d @ [row]\<rparr>))"

definition outbox_add :: "(string \<Rightarrow> string) \<Rightarrow> event_envelope \<Rightarrow> db \<Rightarrow> db result" where
  "outbox_add sha e d =
     and_then (event_correlation sha e d) (\<lambda>correlation.
     and_then (raise_unless (normalizable (JObj (ee_payload e)))
        (ValueError ''canonical JSON numbers must be finite'')) (\<lambda>_.
       insert_outbox (new_outbox_row e correlation) d))"

section \<open>Reading\<close>

text \<open>\<open>_select_outbox_record\<close>: a row without a stored correlation gets a derived one.\<close>

definition select_outbox_record :: "(string \<Rightarrow> string) \<Rightarrow> db \<Rightarrow> string \<Rightarrow> outbox_row option result" where
  "select_outbox_record sha d i =
     (case row_by ob_id i (db_outbox d) of
        None \<Rightarrow> Inr None
      | Some r \<Rightarrow>
          and_then (case ob_correlation r of
                      Some c \<Rightarrow> Inr c
                    | None \<Rightarrow> (case ob_memorial r of
                                 Some m \<Rightarrow> correlation_for_memorial sha d m None
                               | None \<Rightarrow> Inr (''event:'' @ sha (utf8 (ob_id r))))) (\<lambda>c.
            Inr (Some (r\<lparr>ob_correlation := Some c\<rparr>))))"

definition submission_identities_for_edict :: "string \<Rightarrow> db \<Rightarrow> (string \<times> string) list" where
  "submission_identities_for_edict e d =
     map (\<lambda>r. (ob_id r, the (ob_memorial r)))
       (select_ordered (\<lambda>r. ob_type r = ''edict.submitted'' \<and> ob_edict r = Some e \<and> ob_memorial r \<noteq> None)
          (\<lambda>r. (ob_occurred r, ob_id r)) (db_outbox d))"

definition get_submission :: "string \<Rightarrow> string \<Rightarrow> db \<Rightarrow> submission_row option" where
  "get_submission principal_id key d = row_by (\<lambda>s. (sb_principal s, sb_key s)) (principal_id, key) (db_submissions d)"

definition add_submission :: "submission_row \<Rightarrow> db \<Rightarrow> db result" where
  "add_submission s d =
     (if list_ex (\<lambda>r. (sb_principal r = sb_principal s \<and> sb_key r = sb_key s) \<or> sb_event r = sb_event s) (db_submissions d)
      then Inl (IntegrityError ''UNIQUE constraint failed'')
      else if length (sb_request_hash s) \<noteq> 64 then Inl (IntegrityError ''CHECK constraint failed'')
      else if \<not> (has_edict d (sb_edict s) \<and> has_memorial d (sb_memorial s) \<and>
                 list_ex (\<lambda>r. ob_id r = sb_event s) (db_outbox d))
      then Inl (IntegrityError ''FOREIGN KEY constraint failed'')
      else Inr (d\<lparr>db_submissions := db_submissions d @ [s]\<rparr>))"

section \<open>Claiming\<close>

definition claimable :: "instant \<Rightarrow> outbox_row \<Rightarrow> bool" where
  "claimable now r =
     ((ob_status r \<in> {OPending, ORetryWait} \<and> ob_available r \<le> now) \<or>
      (ob_status r = OClaimed \<and> (case ob_expires r of None \<Rightarrow> False | Some t \<Rightarrow> t \<le> now)))"

definition claimed_outbox_row :: "string \<Rightarrow> instant \<Rightarrow> outbox_row \<Rightarrow> outbox_row" where
  "claimed_outbox_row owner expires r =
     r\<lparr>ob_status := OClaimed, ob_attempts := bump (ob_attempts r), ob_owner := Some owner,
       ob_expires := Some expires, ob_version := bump (ob_version r)\<rparr>"

text \<open>One candidate: the guarded update and the row it returns.\<close>

definition claim_candidate ::
  "(string \<Rightarrow> string) \<Rightarrow> string \<Rightarrow> instant \<Rightarrow> instant \<Rightarrow> outbox_row \<Rightarrow> db \<Rightarrow> (outbox_row option \<times> db) result" where
  "claim_candidate sha owner now expires cand d =
     (let p = (\<lambda>r. ob_id r = ob_id cand \<and> ob_version r = ob_version cand \<and> claimable now r);
          d' = d\<lparr>db_outbox := update_rows p (claimed_outbox_row owner expires) (db_outbox d)\<rparr>
      in if count_rows p (db_outbox d) \<noteq> 1 then Inr (None, d')
         else and_then (select_outbox_record sha d' (ob_id cand)) (\<lambda>row. Inr (row, d')))"

fun claim_candidates ::
  "(string \<Rightarrow> string) \<Rightarrow> string \<Rightarrow> instant \<Rightarrow> instant \<Rightarrow> outbox_row list \<Rightarrow> db \<Rightarrow> (outbox_row list \<times> db) result" where
  "claim_candidates sha owner now expires [] d = Inr ([], d)"
| "claim_candidates sha owner now expires (c # cs) d =
     and_then (claim_candidate sha owner now expires c d) (\<lambda>(row, d1).
     and_then (claim_candidates sha owner now expires cs d1) (\<lambda>(rows, d2).
       Inr ((case row of None \<Rightarrow> rows | Some r \<Rightarrow> r # rows), d2)))"

definition outbox_candidates :: "instant \<Rightarrow> int \<Rightarrow> db \<Rightarrow> outbox_row list" where
  "outbox_candidates now limit d =
     take (nat limit) (select_ordered (claimable now) (\<lambda>r. (ob_available r, ob_occurred r, ob_id r)) (db_outbox d))"

definition claim_batch ::
  "(string \<Rightarrow> string) \<Rightarrow> string \<Rightarrow> instant \<Rightarrow> int \<Rightarrow> int \<Rightarrow> db \<Rightarrow> outbox_row list result \<times> db" where
  "claim_batch sha owner now limit lease_seconds d =
     (if blank owner then (Inl (ValueError ''owner_id must be non-blank''), d)
      else if limit \<le> 0 then (Inl (ValueError ''limit must be positive''), d)
      else if lease_seconds \<le> 0 then (Inl (ValueError ''lease_seconds must be a positive integer''), d)
      else atomically (claim_candidates sha owner now (now + seconds lease_seconds) (outbox_candidates now limit d)) d)"

section \<open>Acknowledging\<close>

text \<open>The guard of \<open>mark_published\<close> and \<open>mark_failed\<close>, and the one of \<open>mark_poisoned\<close>.\<close>

definition holds_event :: "string \<Rightarrow> string \<Rightarrow> sql_value \<Rightarrow> outbox_row \<Rightarrow> bool" where
  "holds_event i owner v r =
     (ob_id r = i \<and> ob_status r = OClaimed \<and> ob_owner r = Some owner \<and> ob_version r = v)"

definition update_outbox ::
  "(outbox_row \<Rightarrow> bool) \<Rightarrow> (outbox_row \<Rightarrow> outbox_row) \<Rightarrow> db \<Rightarrow> (bool \<times> db) result" where
  "update_outbox p f d =
     Inr (count_rows p (db_outbox d) = 1, d\<lparr>db_outbox := update_rows p f (db_outbox d)\<rparr>)"

definition published_row :: "instant \<Rightarrow> outbox_row \<Rightarrow> outbox_row" where
  "published_row now r =
     r\<lparr>ob_status := OPublished, ob_owner := None, ob_expires := None, ob_error := None,
       ob_published := Some now, ob_version := bump (ob_version r)\<rparr>"

definition mark_published :: "string \<Rightarrow> string \<Rightarrow> int \<Rightarrow> instant \<Rightarrow> db \<Rightarrow> bool result \<times> db" where
  "mark_published i owner v now =
     atomically (update_outbox (holds_event i owner (SInteger v)) (published_row now))"

definition failed_row :: "redacted_error \<Rightarrow> instant \<Rightarrow> outbox_row \<Rightarrow> outbox_row" where
  "failed_row err available r =
     r\<lparr>ob_status := (if sql_le (ob_max r) (ob_attempts r) then ODeadLetter else ORetryWait),
       ob_available := available, ob_owner := None, ob_expires := None, ob_error := Some err,
       ob_version := bump (ob_version r)\<rparr>"

definition mark_failed ::
  "string \<Rightarrow> string \<Rightarrow> int \<Rightarrow> redacted_error \<Rightarrow> instant \<Rightarrow> db \<Rightarrow> bool result \<times> db" where
  "mark_failed i owner v err available =
     atomically (update_outbox (holds_event i owner (SInteger v)) (failed_row err available))"

definition poisoned_row :: "redacted_error \<Rightarrow> instant \<Rightarrow> outbox_row \<Rightarrow> outbox_row" where
  "poisoned_row err now r =
     r\<lparr>ob_status := ODeadLetter, ob_available := now, ob_owner := None, ob_expires := None, ob_error := Some err\<rparr>"

definition mark_poisoned ::
  "string \<Rightarrow> string \<Rightarrow> sql_value \<Rightarrow> redacted_error \<Rightarrow> instant \<Rightarrow> db \<Rightarrow> bool result \<times> db" where
  "mark_poisoned i owner v err now =
     atomically (update_outbox (holds_event i owner v) (poisoned_row err now))"

section \<open>Consumptions\<close>

definition insert_consumption :: "consumption_row \<Rightarrow> db \<Rightarrow> (bool \<times> db) result" where
  "insert_consumption c d =
     (if list_ex (\<lambda>r. cs_event r = cs_event c \<and> cs_consumer r = cs_consumer c) (db_consumptions d)
      then Inr (False, d)
      else if \<not> list_ex (\<lambda>r. ob_id r = cs_event c) (db_outbox d)
      then Inl (IntegrityError ''FOREIGN KEY constraint failed'')
      else Inr (True, d\<lparr>db_consumptions := db_consumptions d @ [c]\<rparr>))"

definition record_consumption ::
  "string \<Rightarrow> string \<Rightarrow> string option \<Rightarrow> instant \<Rightarrow> db \<Rightarrow> bool result \<times> db" where
  "record_consumption i consumer result_hash now d =
     (if blank consumer then (Inl (ValueError ''consumer_name must be non-blank''), d)
      else atomically (insert_consumption
             \<lparr>cs_event = i, cs_consumer = consumer, cs_hash = result_hash, cs_at = now\<rparr>) d)"

definition consumed_consumers :: "string \<Rightarrow> db \<Rightarrow> string list" where
  "consumed_consumers i d =
     map cs_consumer (select_ordered (\<lambda>r. cs_event r = i) cs_consumer (db_consumptions d))"

section \<open>Lemmas\<close>

lemma outbox_add_Inr:
  assumes "outbox_add sha e d = Inr d'"
  shows "\<exists>c. d' = d\<lparr>db_outbox := db_outbox d @ [new_outbox_row e c]\<rparr> \<and> event_correlation sha e d = Inr c \<and>
             ee_id e \<notin> ob_id ` set (db_outbox d)"
proof -
  obtain c where c: "event_correlation sha e d = Inr c" and i: "insert_outbox (new_outbox_row e c) d = Inr d'"
    using assms by (auto simp: outbox_add_def)
  have "ob_id (new_outbox_row e c) = ee_id e" by (simp add: new_outbox_row_def)
  with c i show ?thesis unfolding insert_outbox_def list_ex_iff by (simp split: if_split_asm) force
qed

end
