(* ===== verification/Outbox_Dispatcher.thy ===== *)
theory Outbox_Dispatcher
  imports Outbox_Repo
begin

text \<open>
  \<open>application/outbox.py\<close>: the dispatcher that leases outbox rows, rebuilds their events and delivers
  them to the consumers of the bus. Durations given as floats are rationals; \<open>error_text\<close> is how Python
  renders an exception (its class and its message).
\<close>

section \<open>Configuration\<close>

record dispatcher =
  dc_owner :: string
  dc_lease_seconds :: int
  dc_base_backoff :: rat
  dc_max_backoff :: rat
  dc_poll_interval :: rat
  dc_shutdown_timeout :: rat

definition new_dispatcher :: "string \<Rightarrow> int \<Rightarrow> rat \<Rightarrow> rat \<Rightarrow> rat \<Rightarrow> rat \<Rightarrow> dispatcher result" where
  "new_dispatcher owner lease_seconds base_backoff max_backoff poll_interval shutdown_timeout =
     (if blank owner then Inl (ValueError ''owner_id must be non-blank'')
      else if lease_seconds \<le> 0 then Inl (ValueError ''lease_seconds must be positive'')
      else if base_backoff \<le> 0 then Inl (ValueError ''base_backoff_seconds must be finite and positive'')
      else if max_backoff \<le> 0 then Inl (ValueError ''max_backoff_seconds must be finite and positive'')
      else if poll_interval \<le> 0 then Inl (ValueError ''poll_interval_seconds must be finite and positive'')
      else if shutdown_timeout \<le> 0 then Inl (ValueError ''shutdown_timeout_seconds must be finite and positive'')
      else if max_backoff < base_backoff
      then Inl (ValueError ''max_backoff_seconds must be at least base_backoff_seconds'')
      else Inr \<lparr>dc_owner = owner, dc_lease_seconds = lease_seconds, dc_base_backoff = base_backoff,
                dc_max_backoff = max_backoff, dc_poll_interval = poll_interval, dc_shutdown_timeout = shutdown_timeout\<rparr>)"

definition backoff_seconds :: "dispatcher \<Rightarrow> int \<Rightarrow> rat" where
  "backoff_seconds c attempt_count =
     (let exponent = min (max (attempt_count - 1) 0) 30
      in min (dc_base_backoff c * 2 ^ nat exponent) (dc_max_backoff c))"

text \<open>\<open>timedelta(seconds=x)\<close>: the nearest number of microseconds, ties to the even one.\<close>

definition round_half_even :: "rat \<Rightarrow> int" where
  "round_half_even x =
     (let f = \<lfloor>x\<rfloor>; r = x - of_int f
      in if r < 1 / 2 then f else if r > 1 / 2 then f + 1 else if even f then f else f + 1)"

definition timedelta_seconds :: "rat \<Rightarrow> int" where
  "timedelta_seconds x = round_half_even (x * 1000000)"

section \<open>Validation of a row\<close>

definition exact_positive_integer :: "sql_value \<Rightarrow> string \<Rightarrow> int result" where
  "exact_positive_integer v name =
     (case v of
        SInteger n \<Rightarrow> if n \<le> 0 then Inl (ValueError (name @ '' must be positive'')) else Inr n
      | _ \<Rightarrow> Inl (ValueError (name @ '' must be an integer'')))"

definition validate_dispatch_control :: "outbox_row \<Rightarrow> unit result" where
  "validate_dispatch_control r =
     and_then (exact_positive_integer (ob_attempts r) ''attempt_count'') (\<lambda>attempts.
     and_then (exact_positive_integer (ob_max r) ''max_attempts'') (\<lambda>max_attempts.
     and_then (exact_positive_integer (ob_version r) ''version'') (\<lambda>_.
       raise_unless (attempts \<le> max_attempts) (ValueError ''attempt_count must not exceed max_attempts''))))"

definition required_text :: "string \<Rightarrow> string \<Rightarrow> string result" where
  "required_text v name = (if blank v then Inl (ValueError (name @ '' must be non-blank'')) else Inr v)"

definition optional_text :: "string option \<Rightarrow> string \<Rightarrow> string option result" where
  "optional_text v name = (case v of None \<Rightarrow> Inr None | Some s \<Rightarrow> and_then (required_text s name) (\<lambda>s. Inr (Some s)))"

text \<open>\<open>dict.setdefault\<close> on a payload, whose items are in key order.\<close>

definition setdefault :: "payload \<Rightarrow> string \<Rightarrow> json \<Rightarrow> payload" where
  "setdefault p k v = (if map_of p k = None then insort_key fst (k, v) p else p)"

definition payload_of :: "outbox_row \<Rightarrow> payload result" where
  "payload_of r =
     (case ob_payload r of
        None \<Rightarrow> Inl (ValueError ''payload_json is not valid JSON'')
      | Some (JObj p) \<Rightarrow>
          if normalizable (JObj p) then Inr p else Inl (ValueError ''payload numbers must be finite'')
      | Some _ \<Rightarrow> Inl (TypeError ''payload_json must contain an object''))"

definition sql_int :: "sql_value \<Rightarrow> int" where
  "sql_int v = (case v of SInteger n \<Rightarrow> n | _ \<Rightarrow> 0)"

definition event_from_record :: "outbox_row \<Rightarrow> event_envelope result" where
  "event_from_record r =
     and_then (required_text (ob_id r) ''event_id'') (\<lambda>event_id.
     and_then (required_text (ob_type r) ''event_type'') (\<lambda>event_type.
     and_then (required_text (ob_aggregate r) ''aggregate_type'') (\<lambda>aggregate_type.
     and_then (required_text (ob_producer r) ''producer'') (\<lambda>producer.
     and_then (optional_text (ob_edict r) ''edict_id'') (\<lambda>edict_id.
     and_then (optional_text (ob_memorial r) ''memorial_id'') (\<lambda>memorial_id.
     and_then (raise_unless (memorial_id = None \<or> edict_id \<noteq> None) (ValueError ''memorial_id requires edict_id'')) (\<lambda>_.
     and_then (raise_unless (aggregate_type = (if edict_id \<noteq> None then ''edict'' else ''system''))
        (ValueError ''aggregate_type does not match envelope identity'')) (\<lambda>_.
     and_then (payload_of r) (\<lambda>p.
       Inr \<lparr>ee_id = event_id, ee_type = event_type, ee_edict = edict_id, ee_memorial = memorial_id,
            ee_attempt = sql_int (ob_attempts r), ee_timestamp = ob_occurred r, ee_producer = producer,
            ee_payload = setdefault p ''correlation_id''
              (case ob_correlation r of None \<Rightarrow> JNull | Some c \<Rightarrow> JStr c)\<rparr>)))))))))"

section \<open>Dispatching\<close>

text \<open>\<open>_bounded_error_hash\<close>\<close>

definition bounded_error_hash :: "(string \<Rightarrow> string) \<Rightarrow> (exn \<Rightarrow> string \<times> string) \<Rightarrow> exn \<Rightarrow> string" where
  "bounded_error_hash sha error_text e =
     (let (error_type, detail) = error_text e in sha (utf8 (error_type @ '':'' @ take 4096 detail)))"

definition mark_failure ::
  "(string \<Rightarrow> string) \<Rightarrow> (exn \<Rightarrow> string \<times> string) \<Rightarrow> dispatcher \<Rightarrow> instant \<Rightarrow> outbox_row \<Rightarrow> exn \<Rightarrow> string \<Rightarrow> string \<Rightarrow> bool \<Rightarrow>
   db \<Rightarrow> bool result \<times> db" where
  "mark_failure sha error_text c now r e code message retryable =
     mark_failed (ob_id r) (dc_owner c) (sql_int (ob_version r))
       \<lparr>err_code = code, err_message = message, err_retryable = retryable,
        err_details_hash = Some (bounded_error_hash sha error_text e)\<rparr>
       (now + timedelta_seconds (backoff_seconds c (sql_int (ob_attempts r))))"

text \<open>The loop over the report: successes are recorded, errors collected.\<close>

fun record_results :: "string \<Rightarrow> instant \<Rightarrow> dispatch_result list \<Rightarrow> db \<Rightarrow> exn list result \<times> db" where
  "record_results i now [] d = (Inr [], d)"
| "record_results i now (x # xs) d =
     (case dp_error x of
        Some e \<Rightarrow> (case record_results i now xs d of
                     (Inl e', d') \<Rightarrow> (Inl e', d')
                   | (Inr es, d') \<Rightarrow> (Inr (e # es), d'))
      | None \<Rightarrow> (case record_consumption i (dp_consumer x) None now d of
                   (Inl e', d') \<Rightarrow> (Inl e', d')
                 | (Inr _, d') \<Rightarrow> record_results i now xs d'))"

definition ignore :: "'a result \<times> db \<Rightarrow> unit result \<times> db" where
  "ignore x = (map_sum id (\<lambda>_. ()) (fst x), snd x)"

definition dispatch_record ::
  "(string \<Rightarrow> string) \<Rightarrow> (exn \<Rightarrow> string \<times> string) \<Rightarrow> (nat \<Rightarrow> event_envelope \<Rightarrow> db \<Rightarrow> exn option \<times> db) \<Rightarrow> event_bus \<Rightarrow>
   dispatcher \<Rightarrow> instant \<Rightarrow> outbox_row \<Rightarrow> db \<Rightarrow> unit result \<times> db" where
  "dispatch_record sha error_text run bus c now r d =
     (case validate_dispatch_control r of
        Inl e \<Rightarrow> ignore (mark_poisoned (ob_id r) (dc_owner c) (ob_version r)
                   \<lparr>err_code = ''malformed_outbox_event'', err_message = ''durable dispatch control is invalid'',
                    err_retryable = False, err_details_hash = Some (bounded_error_hash sha error_text e)\<rparr> now d)
      | Inr _ \<Rightarrow>
        (case event_from_record r of
           Inl e \<Rightarrow> ignore (mark_failure sha error_text c now r e ''malformed_outbox_event''
                      ''durable event envelope is invalid'' False d)
         | Inr event \<Rightarrow>
             (let skip = consumed_consumers (ob_id r) d;
                  (results, d1) = bus_dispatch run bus event skip d
              in (case record_results (ob_id r) now results d1 of
                    (Inl e, d2) \<Rightarrow> (Inl e, d2)
                  | (Inr (e # _), d2) \<Rightarrow>
                      ignore (mark_failure sha error_text c now r e ''consumer_dispatch_failed''
                        ''one or more consumers failed'' True d2)
                  | (Inr [], d2) \<Rightarrow>
                      ignore (mark_published (ob_id r) (dc_owner c) (sql_int (ob_version r)) now d2)))))"

text \<open>\<open>clock i\<close> is what the clock reads when the event \<open>i\<close> is acknowledged.\<close>

fun dispatch_records ::
  "(string \<Rightarrow> string) \<Rightarrow> (exn \<Rightarrow> string \<times> string) \<Rightarrow> (nat \<Rightarrow> event_envelope \<Rightarrow> db \<Rightarrow> exn option \<times> db) \<Rightarrow> event_bus \<Rightarrow>
   dispatcher \<Rightarrow> (string \<Rightarrow> instant) \<Rightarrow> outbox_row list \<Rightarrow> db \<Rightarrow> unit result \<times> db" where
  "dispatch_records sha error_text run bus c clock [] d = (Inr (), d)"
| "dispatch_records sha error_text run bus c clock (r # rs) d =
     (case dispatch_record sha error_text run bus c (clock (ob_id r)) r d of
        (Inl e, d') \<Rightarrow> (Inl e, d')
      | (Inr _, d') \<Rightarrow> dispatch_records sha error_text run bus c clock rs d')"

definition drain_once ::
  "(string \<Rightarrow> string) \<Rightarrow> (exn \<Rightarrow> string \<times> string) \<Rightarrow> (nat \<Rightarrow> event_envelope \<Rightarrow> db \<Rightarrow> exn option \<times> db) \<Rightarrow> event_bus \<Rightarrow>
   dispatcher \<Rightarrow> instant \<Rightarrow> (string \<Rightarrow> instant) \<Rightarrow> int \<Rightarrow> db \<Rightarrow> nat result \<times> db" where
  "drain_once sha error_text run bus c now clock limit d =
     (case claim_batch sha (dc_owner c) now limit (dc_lease_seconds c) d of
        (Inl e, d1) \<Rightarrow> (Inl e, d1)
      | (Inr records, d1) \<Rightarrow>
          (case dispatch_records sha error_text run bus c clock records d1 of
             (Inl e, d2) \<Rightarrow> (Inl e, d2)
           | (Inr _, d2) \<Rightarrow> (Inr (length records), d2)))"

end
