(* ===== verification/Outbox_Safety.thy ===== *)
theory Outbox_Safety
  imports Outbox_Dispatcher
begin

text \<open>
  What the outbox promises: a lease on an event is worth nothing once the event has moved on, a batch
  claim takes exactly the due events, an event is published only when every consumer has handled it,
  and retries back off within their bounds.
\<close>

section \<open>Rows and how they move\<close>

definition outbox_ok :: "db \<Rightarrow> bool" where
  "outbox_ok d = distinct (map ob_id (db_outbox d))"

definition settled :: "outbox_row \<Rightarrow> bool" where
  "settled r = (ob_status r \<in> {OPublished, ODeadLetter})"

definition row_advances :: "outbox_row \<Rightarrow> outbox_row \<Rightarrow> bool" where
  "row_advances r r' =
     (ob_id r' = ob_id r \<and> ob_type r' = ob_type r \<and> ob_payload r' = ob_payload r \<and>
      (\<forall>n. ob_version r = SInteger n \<longrightarrow> (\<exists>m. ob_version r' = SInteger m \<and> n \<le> m)) \<and>
      (settled r \<longrightarrow> r' = r))"

definition outbox_evolves :: "db \<Rightarrow> db \<Rightarrow> bool" where
  "outbox_evolves d d' = (\<forall>r \<in> set (db_outbox d). \<exists>r' \<in> set (db_outbox d'). row_advances r r')"

lemma row_advances_refl [simp]: "row_advances r r"
  by (simp add: row_advances_def)

lemma row_advances_trans: "row_advances a b \<Longrightarrow> row_advances b c \<Longrightarrow> row_advances a c"
  unfolding row_advances_def by (metis order_trans sql_value.inject(1))

lemma outbox_evolves_mono: "set (db_outbox d) \<subseteq> set (db_outbox d') \<Longrightarrow> outbox_evolves d d'"
  unfolding outbox_evolves_def using row_advances_refl by blast

lemma outbox_evolves_refl [simp]: "outbox_evolves d d"
  by (rule outbox_evolves_mono) simp

lemma outbox_evolves_trans: "outbox_evolves d d' \<Longrightarrow> outbox_evolves d' d'' \<Longrightarrow> outbox_evolves d d''"
  unfolding outbox_evolves_def using row_advances_trans by meson

lemma outbox_update:
  assumes ok: "outbox_ok d" and adv: "\<And>r. p r \<Longrightarrow> row_advances r (f r)"
    and d': "db_outbox d' = update_rows p f (db_outbox d)"
  shows "outbox_ok d' \<and> outbox_evolves d d'"
proof -
  have "map ob_id (db_outbox d') = map ob_id (db_outbox d)"
    unfolding d' using adv by (intro map_update_rows) (simp add: row_advances_def)
  then have "outbox_ok d'" using ok by (simp add: outbox_ok_def)
  moreover have "outbox_evolves d d'"
    unfolding outbox_evolves_def d' set_update_rows
  proof
    fix x assume "x \<in> set (db_outbox d)"
    then show "\<exists>r' \<in> (\<lambda>r. if p r then f r else r) ` set (db_outbox d). row_advances x r'"
      using adv [of x] by (intro bexI [of _ "if p x then f x else x"]) auto
  qed
  ultimately show ?thesis by simp
qed

lemma claimed_advances: "claimable now r \<Longrightarrow> row_advances r (claimed_outbox_row owner e r)"
  by (cases "ob_version r") (auto simp: row_advances_def claimed_outbox_row_def claimable_def settled_def)

lemma held_advances:
  assumes "holds_event i owner v r"
  shows "row_advances r (published_row now r)" "row_advances r (failed_row err t r)" "row_advances r (poisoned_row err now r)"
proof -
  have "\<not> settled r" using assms by (simp add: settled_def holds_event_def)
  then show "row_advances r (published_row now r)" "row_advances r (failed_row err t r)" "row_advances r (poisoned_row err now r)"
    by (simp_all add: row_advances_def published_row_def failed_row_def poisoned_row_def)
qed

section \<open>Steps\<close>

inductive outbox_step :: "(string \<Rightarrow> string) \<Rightarrow> db \<Rightarrow> db \<Rightarrow> bool" for sha where
  os_add: "outbox_add sha e d = Inr d' \<Longrightarrow> outbox_step sha d d'"
| os_claim: "claim_batch sha owner now limit lease d = (res, d') \<Longrightarrow> outbox_step sha d d'"
| os_published: "mark_published i owner v now d = (res, d') \<Longrightarrow> outbox_step sha d d'"
| os_failed: "mark_failed i owner v err t d = (res, d') \<Longrightarrow> outbox_step sha d d'"
| os_poisoned: "mark_poisoned i owner w err now d = (res, d') \<Longrightarrow> outbox_step sha d d'"
| os_other: "db_outbox d' = db_outbox d \<Longrightarrow> outbox_step sha d d'"

inductive_cases outbox_stepE: "outbox_step sha d d'"

lemma claim_candidate_rows:
  assumes "claim_candidate sha owner now e c d = Inr (row, d')"
  shows "d' = d\<lparr>db_outbox := update_rows (\<lambda>r. ob_id r = ob_id c \<and> ob_version r = ob_version c \<and> claimable now r)
                  (claimed_outbox_row owner e) (db_outbox d)\<rparr>"
  using assms by (auto simp: claim_candidate_def Let_def split: if_splits)

lemma claim_candidates_keeps:
  "claim_candidates sha owner now e cs d = Inr (rows, d') \<Longrightarrow> outbox_ok d \<Longrightarrow> outbox_ok d' \<and> outbox_evolves d d'"
proof (induction cs arbitrary: d rows)
  case (Cons c cs)
  from Cons.prems(1) obtain row d1 rows1 where c1: "claim_candidate sha owner now e c d = Inr (row, d1)"
    and c2: "claim_candidates sha owner now e cs d1 = Inr (rows1, d')"
    by (fastforce split: prod.splits)
  have "outbox_ok d1 \<and> outbox_evolves d d1"
    by (rule outbox_update [OF Cons.prems(2)]) (auto intro: claimed_advances simp: claim_candidate_rows [OF c1])
  with Cons.IH [OF c2] show ?case using outbox_evolves_trans by blast
qed simp

lemma update_outbox_keeps:
  assumes "outbox_ok d" "\<And>r. p r \<Longrightarrow> row_advances r (f r)" "atomically (update_outbox p f) d = (res, d')"
  shows "outbox_ok d' \<and> outbox_evolves d d'"
  by (rule outbox_update [OF assms(1,2)]) (use assms(3) in \<open>auto simp: atomically_def update_outbox_def\<close>)

lemma outbox_step_keeps:
  assumes ok: "outbox_ok d" and st: "outbox_step sha d d'"
  shows "outbox_ok d' \<and> outbox_evolves d d'"
  using st
proof cases
  case (os_add e)
  then obtain c where d': "db_outbox d' = db_outbox d @ [new_outbox_row e c]" and n: "ee_id e \<notin> ob_id ` set (db_outbox d)"
    using outbox_add_Inr by force
  have "outbox_ok d'" using ok n by (simp add: outbox_ok_def d' new_outbox_row_def)
  moreover have "outbox_evolves d d'" by (rule outbox_evolves_mono) (auto simp: d')
  ultimately show ?thesis by simp
next
  case (os_claim owner now limit lease res)
  show ?thesis
  proof (cases "d' = d")
    case False
    then obtain rows where "claim_candidates sha owner now (now + seconds lease) (outbox_candidates now limit d) d = Inr (rows, d')"
      using os_claim by (auto simp: claim_batch_def atomically_def split: if_splits sum.splits)
    from claim_candidates_keeps [OF this ok] show ?thesis .
  qed (simp add: ok)
next
  case (os_published i owner v now res)
  from update_outbox_keeps [OF ok held_advances(1) this [unfolded mark_published_def]] show ?thesis .
next
  case (os_failed i owner v err t res)
  from update_outbox_keeps [OF ok held_advances(2) this [unfolded mark_failed_def]] show ?thesis .
next
  case (os_poisoned i owner w err now res)
  from update_outbox_keeps [OF ok held_advances(3) this [unfolded mark_poisoned_def]] show ?thesis .
next
  case os_other
  then show ?thesis using ok by (simp add: outbox_ok_def outbox_evolves_mono)
qed

section \<open>Leases\<close>

text \<open>A lease names the event, the owner and the version the claim returned.\<close>

type_synonym lease = "string \<times> string \<times> int"

definition holds_lease :: "db \<Rightarrow> lease \<Rightarrow> bool" where
  "holds_lease d k = (\<exists>r \<in> set (db_outbox d). case k of (i, owner, v) \<Rightarrow> holds_event i owner (SInteger v) r)"

definition lease_lost :: "db \<Rightarrow> lease \<Rightarrow> bool" where
  "lease_lost d k = (\<exists>r \<in> set (db_outbox d). case k of (i, owner, v) \<Rightarrow>
     ob_id r = i \<and> (\<exists>n. ob_version r = SInteger n \<and> v < n))"

lemma outbox_same_id:
  "outbox_ok d \<Longrightarrow> r \<in> set (db_outbox d) \<Longrightarrow> r' \<in> set (db_outbox d) \<Longrightarrow> ob_id r = ob_id r' \<Longrightarrow> r = r'"
  using row_by_unique [of ob_id "db_outbox d"] by (metis option.inject outbox_ok_def)

interpretation outbox: revocable_authority "outbox_step sha" outbox_ok outbox_evolves holds_lease lease_lost
  for sha
proof unfold_locales
  show "outbox_ok d \<Longrightarrow> outbox_step sha d d' \<Longrightarrow> outbox_ok d'"
    and "outbox_ok d \<Longrightarrow> outbox_step sha d d' \<Longrightarrow> outbox_evolves d d'" for d d'
    using outbox_step_keeps by blast+
  show "outbox_evolves d d" for d by simp
  show "outbox_evolves d d' \<Longrightarrow> outbox_evolves d' d'' \<Longrightarrow> outbox_evolves d d''" for d d' d''
    by (rule outbox_evolves_trans)
  show "outbox_evolves d d' \<Longrightarrow> lease_lost d k \<Longrightarrow> lease_lost d' k" for d d' k
  proof -
    assume ev: "outbox_evolves d d'" and l: "lease_lost d k"
    obtain i owner v where k: "k = (i, owner, v)" by (cases k)
    obtain r n where r: "r \<in> set (db_outbox d)" "ob_id r = i" "ob_version r = SInteger n" "v < n"
      using l by (auto simp: lease_lost_def k)
    obtain r' where r': "r' \<in> set (db_outbox d')" and adv: "row_advances r r'"
      using ev r(1) by (auto simp: outbox_evolves_def)
    have "ob_id r' = i" "\<exists>m. ob_version r' = SInteger m \<and> n \<le> m"
      using adv r by (auto simp: row_advances_def)
    with r' r(4) show ?thesis by (force simp: lease_lost_def k)
  qed
  show "outbox_ok d \<Longrightarrow> lease_lost d k \<Longrightarrow> \<not> holds_lease d k" for d k
    using outbox_same_id by (fastforce simp: lease_lost_def holds_lease_def holds_event_def)
qed

lemma update_outbox_none:
  assumes "\<And>r. r \<in> set (db_outbox d) \<Longrightarrow> \<not> p r"
  shows "atomically (update_outbox p f) d = (Inr False, d)"
proof -
  have z: "count_rows p (db_outbox d) = 0" using assms by (simp add: count_rows_def filter_empty_conv)
  show ?thesis unfolding atomically_def update_outbox_def z update_rows_none [OF z] by simp
qed

lemma not_held_rejects:
  assumes "\<not> holds_lease d (i, owner, v)"
  shows "mark_published i owner v now d = (Inr False, d)" "mark_failed i owner v err t d = (Inr False, d)"
    "mark_poisoned i owner (SInteger v) err now d = (Inr False, d)"
proof -
  have none: "\<not> holds_event i owner (SInteger v) r" if "r \<in> set (db_outbox d)" for r
    using assms that by (auto simp: holds_lease_def)
  show "mark_published i owner v now d = (Inr False, d)" "mark_failed i owner v err t d = (Inr False, d)"
    "mark_poisoned i owner (SInteger v) err now d = (Inr False, d)"
    unfolding mark_published_def mark_failed_def mark_poisoned_def
    by (rule update_outbox_none, rule none, assumption)+
qed

section \<open>Batch claims\<close>

lemma candidates_props:
  assumes "outbox_ok d"
  shows "set (outbox_candidates now limit d) \<subseteq> set (db_outbox d)"
    "\<forall>c \<in> set (outbox_candidates now limit d). claimable now c"
    "distinct (map ob_id (outbox_candidates now limit d))"
proof -
  let ?s = "select_ordered (claimable now) (\<lambda>r. (ob_available r, ob_occurred r, ob_id r)) (db_outbox d)"
  have sub: "set (outbox_candidates now limit d) \<subseteq> set ?s" by (auto simp: outbox_candidates_def dest: in_set_takeD)
  then show "set (outbox_candidates now limit d) \<subseteq> set (db_outbox d)"
    "\<forall>c \<in> set (outbox_candidates now limit d). claimable now c"
    by (auto simp: select_ordered_def)
  have "distinct (map ob_id ?s)"
    using assms by (simp add: outbox_ok_def select_ordered_def distinct_map_filter)
  then show "distinct (map ob_id (outbox_candidates now limit d))"
    unfolding outbox_candidates_def take_map [symmetric] by simp
qed

lemma claim_one_candidate:
  assumes ok: "outbox_ok d" and c: "c \<in> set (db_outbox d)" "claimable now c" "ob_correlation c = Some k"
  shows "claim_candidate sha owner now e c d =
           Inr (Some (claimed_outbox_row owner e c),
                d\<lparr>db_outbox := update_rows (\<lambda>r. r = c) (claimed_outbox_row owner e) (db_outbox d)\<rparr>)"
proof -
  let ?p = "\<lambda>r. ob_id r = ob_id c \<and> ob_version r = ob_version c \<and> claimable now r"
  let ?f = "claimed_outbox_row owner e"
  have dist: "distinct (map ob_id (db_outbox d))" using ok by (simp add: outbox_ok_def)
  have row: "row_by ob_id (ob_id c) (db_outbox d) = Some c" using row_by_unique [OF dist c(1)] by simp
  have one: "count_rows ?p (db_outbox d) = 1"
    using row c(2) by (simp add: count_rows_by_key [OF dist])
  have p: "?p r \<longleftrightarrow> r = c" if "r \<in> set (db_outbox d)" for r
    using outbox_same_id [OF ok that c(1)] c(2) by auto
  then have rows: "update_rows ?p ?f (db_outbox d) = update_rows (\<lambda>r. r = c) ?f (db_outbox d)"
    by (simp add: update_rows_def cong: map_cong)
  have "row_by ob_id (ob_id c) (update_rows (\<lambda>r. r = c) ?f (db_outbox d)) = Some (?f c)"
    using row by (simp add: row_by_update_rows claimed_outbox_row_def)
  then show ?thesis
    unfolding claim_candidate_def Let_def one rows
    using c(3) by (simp add: select_outbox_record_def claimed_outbox_row_def)
qed

lemma claim_candidates_result:
  assumes "outbox_ok d" "set cs \<subseteq> set (db_outbox d)" "distinct (map ob_id cs)"
    and "\<forall>c \<in> set cs. claimable now c \<and> ob_correlation c \<noteq> None"
  shows "claim_candidates sha owner now e cs d =
           Inr (map (claimed_outbox_row owner e) cs,
                d\<lparr>db_outbox := update_rows (\<lambda>r. r \<in> set cs) (claimed_outbox_row owner e) (db_outbox d)\<rparr>)"
  using assms
proof (induction cs arbitrary: d)
  case Nil
  have "update_rows (\<lambda>r. False) f rows = rows" for f :: "outbox_row \<Rightarrow> outbox_row" and rows
    by (simp add: update_rows_def)
  then show ?case by simp
next
  case (Cons c cs)
  let ?f = "claimed_outbox_row owner e"
  let ?d1 = "d\<lparr>db_outbox := update_rows (\<lambda>r. r = c) ?f (db_outbox d)\<rparr>"
  obtain k where k: "ob_correlation c = Some k" using Cons.prems(4) by auto
  have c1: "claim_candidate sha owner now e c d = Inr (Some (?f c), ?d1)"
    using Cons.prems k by (intro claim_one_candidate) auto
  have ids: "ob_id x \<noteq> ob_id c" if "x \<in> set cs" for x using Cons.prems(3) that by (auto simp: image_iff)
  have ok1: "outbox_ok ?d1" using Cons.prems(1)
    by (simp add: outbox_ok_def map_update_rows claimed_outbox_row_def)
  have sub: "set cs \<subseteq> set (db_outbox ?d1)"
  proof
    fix x assume x: "x \<in> set cs"
    then have "x \<noteq> c" "x \<in> set (db_outbox d)" using ids Cons.prems(2) by auto
    then show "x \<in> set (db_outbox ?d1)" by (force simp: set_update_rows)
  qed
  have "?f c \<notin> set cs" using ids [of "?f c"] by (auto simp: claimed_outbox_row_def)
  then have rows: "update_rows (\<lambda>r. r \<in> set cs) ?f (update_rows (\<lambda>r. r = c) ?f (db_outbox d)) =
      update_rows (\<lambda>r. r \<in> set (c # cs)) ?f (db_outbox d)"
    by (simp add: update_rows_def)
  have "claim_candidates sha owner now e cs ?d1 =
      Inr (map ?f cs, ?d1\<lparr>db_outbox := update_rows (\<lambda>r. r \<in> set cs) ?f (db_outbox ?d1)\<rparr>)"
    using Cons.IH [OF ok1 sub] Cons.prems(3,4) by simp
  then show ?case using rows by (simp add: c1)
qed

lemma claim_batch_result:
  fixes now :: instant
  assumes ok: "outbox_ok d" and args: "\<not> blank owner" "0 < limit" "0 < lease"
    and corr: "\<forall>r \<in> set (db_outbox d). ob_correlation r \<noteq> None"
  defines "cs \<equiv> outbox_candidates now limit d" and "f \<equiv> claimed_outbox_row owner (now + seconds lease)"
  shows "claim_batch sha owner now limit lease d =
           (Inr (map f cs), d\<lparr>db_outbox := update_rows (\<lambda>r. r \<in> set cs) f (db_outbox d)\<rparr>)"
proof -
  have "claim_candidates sha owner now (now + seconds lease) cs d =
      Inr (map f cs, d\<lparr>db_outbox := update_rows (\<lambda>r. r \<in> set cs) f (db_outbox d)\<rparr>)"
    unfolding f_def using candidates_props [OF ok, of now limit, folded cs_def] corr
    by (intro claim_candidates_result [OF ok]) auto
  then show ?thesis using args by (simp add: claim_batch_def atomically_def cs_def)
qed

section \<open>Deliveries\<close>

lemma consumed_iff: "c \<in> set (consumed_consumers i d) \<longleftrightarrow> (\<exists>r \<in> set (db_consumptions d). cs_event r = i \<and> cs_consumer r = c)"
  by (auto simp: consumed_consumers_def select_ordered_def)

lemma record_consumption_facts:
  assumes "record_consumption i c h now d = (res, d')"
  shows "db_outbox d' = db_outbox d" "set (db_consumptions d) \<subseteq> set (db_consumptions d')"
    "\<And>b. res = Inr b \<Longrightarrow> c \<in> set (consumed_consumers i d')"
  using assms unfolding consumed_iff
  by (auto simp: record_consumption_def insert_consumption_def atomically_def list_ex_iff split: if_splits)

lemma record_results_facts:
  "record_results i now xs d = (res, d') \<Longrightarrow>
     db_outbox d' = db_outbox d \<and> set (db_consumptions d) \<subseteq> set (db_consumptions d') \<and>
     (\<forall>es. res = Inr es \<longrightarrow> es = [] \<longrightarrow> (\<forall>x \<in> set xs. dp_error x = None \<and> dp_consumer x \<in> set (consumed_consumers i d')))"
proof (induction xs arbitrary: d res)
  case (Cons x xs)
  show ?case
  proof (cases "dp_error x")
    case (Some e)
    obtain r1 d1 where "record_results i now xs d = (r1, d1)" by fastforce
    with Cons Some show ?thesis by (auto split: sum.splits)
  next
    case None
    obtain r1 d1 where r1: "record_consumption i (dp_consumer x) None now d = (r1, d1)" by fastforce
    note f = record_consumption_facts [OF r1]
    show ?thesis
    proof (cases r1)
      case (Inl e)
      then show ?thesis using Cons.prems None r1 f by auto
    next
      case (Inr b)
      then have rest: "record_results i now xs d1 = (res, d')" using Cons.prems None r1 by simp
      have c: "dp_consumer x \<in> set (consumed_consumers i d1)" using f(3) Inr by simp
      with Cons.IH [OF rest] f None show ?thesis unfolding consumed_iff by auto
    qed
  qed
qed simp

text \<open>What is asked of the handlers: they leave the event's own outbox row and all consumptions alone.\<close>

definition handlers_keep :: "string \<Rightarrow> (nat \<Rightarrow> event_envelope \<Rightarrow> db \<Rightarrow> exn option \<times> db) \<Rightarrow> bool" where
  "handlers_keep i run =
     (\<forall>h e d. row_by ob_id i (db_outbox (snd (run h e d))) = row_by ob_id i (db_outbox d) \<and>
              set (db_consumptions d) \<subseteq> set (db_consumptions (snd (run h e d))))"

lemma dispatch_keeps:
  assumes "handlers_keep i run"
  shows "row_by ob_id i (db_outbox (snd (dispatch_loop run e sk es d))) = row_by ob_id i (db_outbox d) \<and>
         set (db_consumptions d) \<subseteq> set (db_consumptions (snd (dispatch_loop run e sk es d)))"
proof (induction es arbitrary: d)
  case (Cons a es)
  obtain err d1 where r: "run (he_handler a) e d = (err, d1)" by fastforce
  have "row_by ob_id i (db_outbox d1) = row_by ob_id i (db_outbox d)" "set (db_consumptions d) \<subseteq> set (db_consumptions d1)"
    using assms r by (auto simp: handlers_keep_def dest!: spec [of _ "he_handler a"] spec [of _ e] spec [of _ d])
  with Cons.IH [of d] Cons.IH [of d1] show ?case by (auto simp: r split: prod.splits)
qed simp

lemma ignoreD: "ignore x = (res, d') \<Longrightarrow> d' = snd x"
  by (simp add: ignore_def)

lemma update_outbox_snd:
  "snd (atomically (update_outbox p f) d) = d\<lparr>db_outbox := update_rows p f (db_outbox d)\<rparr>"
  by (simp add: atomically_def update_outbox_def)

text \<open>A failure or a poisoning never publishes.\<close>

lemma unpublished_update:
  assumes "\<And>r. ob_id (f r) = ob_id r" "\<And>r. ob_status (f r) \<noteq> OPublished"
    and "row_by ob_id i (db_outbox d) = Some x" "ob_status x \<noteq> OPublished"
    and "row_by ob_id i (db_outbox (snd (atomically (update_outbox p f) d))) = Some x'"
  shows "ob_status x' \<noteq> OPublished"
  using assms by (auto simp: update_outbox_snd row_by_update_rows split: if_split_asm)

lemma failure_unpublished:
  assumes "row_by ob_id i (db_outbox d) = Some x" "ob_status x \<noteq> OPublished"
  shows "row_by ob_id i (db_outbox (snd (mark_failure sha et c now r e code msg rt d))) = Some x' \<Longrightarrow> ob_status x' \<noteq> OPublished"
    and "row_by ob_id i (db_outbox (snd (mark_poisoned j o1 v err t d))) = Some x' \<Longrightarrow> ob_status x' \<noteq> OPublished"
  unfolding mark_failure_def mark_failed_def mark_poisoned_def
  by (rule unpublished_update [OF _ _ assms]; simp add: failed_row_def poisoned_row_def)+

lemma event_type_of: "event_from_record r = Inr e \<Longrightarrow> ee_type e = ob_type r"
  by (auto simp: event_from_record_def required_text_def split: if_splits)

lemma dispatch_published:
  assumes run: "handlers_keep (ob_id r) run" and dis: "dispatch_record sha error_text run bus c now r d = (res, d')"
    and before: "row_by ob_id (ob_id r) (db_outbox d) = Some x" "ob_status x \<noteq> OPublished"
    and after: "row_by ob_id (ob_id r) (db_outbox d') = Some x'" "ob_status x' = OPublished"
  shows "\<exists>e d1 d2 results. event_from_record r = Inr e \<and>
           bus_dispatch run bus e (consumed_consumers (ob_id r) d) d = (results, d1) \<and>
           record_results (ob_id r) now results d1 = (Inr [], d2) \<and> db_consumptions d' = db_consumptions d2"
proof (cases "validate_dispatch_control r")
  case (Inl e)
  with dis have "d' = snd (mark_poisoned (ob_id r) (dc_owner c) (ob_version r)
      \<lparr>err_code = ''malformed_outbox_event'', err_message = ''durable dispatch control is invalid'',
       err_retryable = False, err_details_hash = Some (bounded_error_hash sha error_text e)\<rparr> now d)"
    by (simp add: dispatch_record_def ignoreD)
  with failure_unpublished(2) [OF before] after show ?thesis by metis
next
  case valid: (Inr u)
  show ?thesis
  proof (cases "event_from_record r")
    case (Inl e)
    with dis valid have "d' = snd (mark_failure sha error_text c now r e ''malformed_outbox_event'' ''durable event envelope is invalid'' False d)"
      by (simp add: dispatch_record_def ignoreD)
    with failure_unpublished(1) [OF before] after show ?thesis by metis
  next
    case ev: (Inr e)
    obtain results d1 where bd: "bus_dispatch run bus e (consumed_consumers (ob_id r) d) d = (results, d1)" by fastforce
    obtain rr d2 where rr: "record_results (ob_id r) now results d1 = (rr, d2)" by fastforce
    have row2: "row_by ob_id (ob_id r) (db_outbox d2) = Some x"
      using record_results_facts [OF rr] dispatch_keeps [OF run, of e "consumed_consumers (ob_id r) d" "entries_for bus (ee_type e)" d]
        bd before(1) by (simp add: bus_dispatch_def)
    consider (err) f where "rr = Inl f" | (failures) f fs where "rr = Inr (f # fs)" | (clean) "rr = Inr []"
      by (metis list.exhaust sum.exhaust)
    then show ?thesis
    proof cases
      case err
      with dis valid ev bd rr have "d' = d2" by (simp add: dispatch_record_def)
      with row2 before after show ?thesis by simp
    next
      case failures
      with dis valid ev bd rr have "d' = snd (mark_failure sha error_text c now r f ''consumer_dispatch_failed'' ''one or more consumers failed'' True d2)"
        by (simp add: dispatch_record_def ignoreD)
      with failure_unpublished(1) [OF row2 before(2)] after show ?thesis by metis
    next
      case clean
      with dis valid ev bd rr have "d' = snd (mark_published (ob_id r) (dc_owner c) (sql_int (ob_version r)) now d2)"
        by (simp add: dispatch_record_def ignoreD)
      then have "db_consumptions d' = db_consumptions d2" by (simp add: mark_published_def update_outbox_snd)
      with ev bd rr clean show ?thesis by blast
    qed
  qed
qed

section \<open>A small outbox\<close>

definition demo_row :: outbox_row where
  "demo_row = \<lparr>ob_id = ''e1'', ob_type = ''t'', ob_aggregate = ''system'', ob_edict = None, ob_memorial = None,
     ob_producer = ''p'', ob_correlation = Some ''c1'', ob_payload = Some (JObj []), ob_occurred = 0,
     ob_available = 0, ob_status = OPending, ob_attempts = SInteger 0, ob_max = SInteger 2, ob_owner = None,
     ob_expires = None, ob_error = None, ob_published = None, ob_version = SInteger 1\<rparr>"

definition demo_outbox :: db where
  "demo_outbox = empty_db\<lparr>db_outbox := [demo_row]\<rparr>"

definition demo_claimed :: db where
  "demo_claimed = demo_outbox\<lparr>db_outbox := [claimed_outbox_row ''w1'' 1000000 demo_row]\<rparr>"

lemma demo_outbox_ok: "outbox_ok demo_outbox" "outbox_ok demo_claimed"
  by (simp_all add: outbox_ok_def demo_outbox_def demo_claimed_def empty_db_def)

lemma demo_candidates: "outbox_candidates 0 5 demo_outbox = [demo_row]"
  by (simp add: outbox_candidates_def demo_outbox_def empty_db_def select_ordered_def claimable_def demo_row_def)

lemma not_blank_w1: "\<not> blank ''w1''"
  by (simp add: blank_code is_space_def)

lemma demo_claim: "claim_batch sha ''w1'' 0 5 1 demo_outbox = (Inr [claimed_outbox_row ''w1'' 1000000 demo_row], demo_claimed)"
proof -
  have c: "\<forall>r \<in> set (db_outbox demo_outbox). ob_correlation r \<noteq> None" by (simp add: demo_outbox_def empty_db_def demo_row_def)
  have rows: "db_outbox demo_outbox = [demo_row]" by (simp add: demo_outbox_def)
  from claim_batch_result [OF demo_outbox_ok(1) not_blank_w1 _ _ c, of 5 1 sha 0]
  show ?thesis unfolding demo_candidates by (simp add: rows demo_claimed_def update_rows_def seconds_def)
qed

section \<open>Properties\<close>

text \<open>
  A batch claim takes exactly the due events. On a store whose events carry their correlation, a call
  with sane arguments succeeds, returns the first \<open>limit\<close> claimable rows by availability, occurrence and
  id, each leased to the caller with one more attempt, and leaves every other row as it was.
\<close>

theorem claim_batch_takes_due_events:
  fixes now :: instant
  assumes "outbox_ok d" "\<not> blank owner" "0 < limit" "0 < lease"
    and "\<forall>r \<in> set (db_outbox d). ob_correlation r \<noteq> None"
  defines "due \<equiv> filter (claimable now) (db_outbox d)"
  defines "taken \<equiv> take (nat limit) (sort_key (\<lambda>r. (ob_available r, ob_occurred r, ob_id r)) due)"
  shows "claim_batch sha owner now limit lease d =
           (Inr (map (claimed_outbox_row owner (now + seconds lease)) taken),
            d\<lparr>db_outbox := map (\<lambda>r. if r \<in> set taken then claimed_outbox_row owner (now + seconds lease) r else r) (db_outbox d)\<rparr>)"
  using claim_batch_result [OF assms(1-5), of sha now]
  by (simp add: outbox_candidates_def select_ordered_def update_rows_def due_def taken_def)

theorem claim_batch_takes_due_events_witness:
  "fst (claim_batch id ''w1'' 0 5 1 demo_outbox) = Inr [claimed_outbox_row ''w1'' 1000000 demo_row]"
proof -
  have c: "\<forall>r \<in> set (db_outbox demo_outbox). ob_correlation r \<noteq> None" by (simp add: demo_outbox_def empty_db_def demo_row_def)
  have f: "filter (claimable 0) (db_outbox demo_outbox) = [demo_row]"
    by (simp add: demo_outbox_def empty_db_def claimable_def demo_row_def)
  show ?thesis
    unfolding claim_batch_takes_due_events [OF demo_outbox_ok(1) not_blank_w1 _ _ c, of 5 1 id 0, simplified] f
    by (simp add: seconds_def)
qed

text \<open>
  A stale lease is powerless. Once a batch claim has returned an event at version \<open>n\<close>, no earlier
  holder, whatever its name, can publish, fail or poison the event with an older version: in every later
  state the acknowledgement reports failure and changes nothing.
\<close>

theorem stale_outbox_lease_rejected:
  assumes ok: "outbox_ok d" and claim: "claim_batch sha owner now limit lease d = (Inr records, d1)"
    and corr: "\<forall>r \<in> set (db_outbox d). ob_correlation r \<noteq> None"
    and rec: "r \<in> set records" "ob_version r = SInteger n" "v < n"
    and run: "(outbox_step sha)\<^sup>*\<^sup>* d1 d2"
  shows "mark_published (ob_id r) other v t d2 = (Inr False, d2) \<and>
         mark_failed (ob_id r) other v err t d2 = (Inr False, d2) \<and>
         mark_poisoned (ob_id r) other (SInteger v) err t d2 = (Inr False, d2)"
proof -
  have args: "\<not> blank owner" "0 < limit" "0 < lease"
    using claim by (auto simp: claim_batch_def split: if_splits)
  let ?cs = "outbox_candidates now limit d" and ?f = "claimed_outbox_row owner (now + seconds lease)"
  have d1: "d1 = d\<lparr>db_outbox := update_rows (\<lambda>r. r \<in> set ?cs) ?f (db_outbox d)\<rparr>" and recs: "records = map ?f ?cs"
    using claim claim_batch_result [OF ok args corr, of sha now] by simp_all
  obtain c where c: "c \<in> set ?cs" "r = ?f c" using rec(1) recs by auto
  have "c \<in> set (db_outbox d)" using candidates_props(1) [OF ok] c(1) by blast
  then have "r \<in> set (db_outbox d1)" using c by (force simp: d1 set_update_rows)
  then have "lease_lost d1 (ob_id r, other, v)" using rec(2,3) by (auto simp: lease_lost_def)
  moreover have "outbox_ok d1" using outbox_step_keeps [OF ok os_claim [OF claim]] by simp
  ultimately have "\<not> holds_lease d2 (ob_id r, other, v)" using outbox.lost_forever [OF _ _ run] by blast
  then show ?thesis by (simp add: not_held_rejects)
qed

theorem stale_outbox_lease_rejected_witness:
  "mark_published ''e1'' ''w0'' 1 0 demo_claimed = (Inr False, demo_claimed)"
proof -
  have c: "\<forall>r \<in> set (db_outbox demo_outbox). ob_correlation r \<noteq> None" by (simp add: demo_outbox_def empty_db_def demo_row_def)
  have "ob_version (claimed_outbox_row ''w1'' 1000000 demo_row) = SInteger 2" "ob_id (claimed_outbox_row ''w1'' 1000000 demo_row) = ''e1''"
    by (simp_all add: claimed_outbox_row_def demo_row_def)
  with stale_outbox_lease_rejected [OF demo_outbox_ok(1) demo_claim c, of "claimed_outbox_row ''w1'' 1000000 demo_row" 2 1 id demo_claimed "''w0''" 0]
  show ?thesis by simp
qed

text \<open>
  C35: An event is published only after every consumer has handled it. If dispatching a record moved its
  row to \<open>published\<close>, then every consumer registered for the event's type or for all types has its
  consumption of the event on record, provided the handlers leave the outbox row and the recorded
  consumptions alone.
\<close>

theorem published_only_when_consumed:
  assumes "handlers_keep (ob_id r) run" and "dispatch_record sha error_text run bus c now r d = (res, d')"
    and "row_by ob_id (ob_id r) (db_outbox d) = Some x" "ob_status x \<noteq> OPublished"
    and "row_by ob_id (ob_id r) (db_outbox d') = Some x'" "ob_status x' = OPublished"
  shows "\<forall>entry \<in> set (entries_for bus (ob_type r)). he_consumer entry \<in> set (consumed_consumers (ob_id r) d')"
proof
  fix entry assume entry: "entry \<in> set (entries_for bus (ob_type r))"
  obtain e d1 d2 results where e: "event_from_record r = Inr e"
    and bd: "bus_dispatch run bus e (consumed_consumers (ob_id r) d) d = (results, d1)"
    and rr: "record_results (ob_id r) now results d1 = (Inr [], d2)" and d': "db_consumptions d' = db_consumptions d2"
    using dispatch_published [OF assms] by blast
  have ent: "entries_for bus (ee_type e) = entries_for bus (ob_type r)" using event_type_of [OF e] by simp
  note facts = record_results_facts [OF rr]
  have mono: "set (db_consumptions d) \<subseteq> set (db_consumptions d1)"
    using dispatch_keeps [OF assms(1), of e "consumed_consumers (ob_id r) d" "entries_for bus (ee_type e)" d] bd
    by (simp add: bus_dispatch_def)
  have names: "map dp_consumer results = filter (\<lambda>n. n \<notin> set (consumed_consumers (ob_id r) d)) (map he_consumer (entries_for bus (ob_type r)))"
    using dispatch_consumers [of run e "consumed_consumers (ob_id r) d" "entries_for bus (ob_type r)" d] bd
    by (simp add: bus_dispatch_def ent)
  have "he_consumer entry \<in> set (consumed_consumers (ob_id r) d2)"
  proof (cases "he_consumer entry \<in> set (consumed_consumers (ob_id r) d)")
    case True
    then show ?thesis using facts mono unfolding consumed_iff by blast
  next
    case False
    then have "he_consumer entry \<in> set (map dp_consumer results)" unfolding names using entry by simp
    then show ?thesis using facts by auto
  qed
  then show "he_consumer entry \<in> set (consumed_consumers (ob_id r) d')" by (simp add: consumed_iff d')
qed

definition demo_dispatcher :: dispatcher where
  "demo_dispatcher = \<lparr>dc_owner = ''w1'', dc_lease_seconds = 1, dc_base_backoff = 1, dc_max_backoff = 300,
     dc_poll_interval = 1, dc_shutdown_timeout = 5\<rparr>"

definition demo_delivered :: "unit result \<times> db" where
  "demo_delivered = dispatch_record id (\<lambda>_. ([], [])) (\<lambda>h e d. (None, d)) demo_bus demo_dispatcher 7
     (claimed_outbox_row ''w1'' 1000000 demo_row) demo_claimed"

lemma demo_delivered_row:
  "map_option ob_status (row_by ob_id ''e1'' (db_outbox (snd demo_delivered))) = Some OPublished"
proof -
  let ?r = "claimed_outbox_row ''w1'' 1000000 demo_row"
  let ?e = "make_event ''e1'' 0 ''t'' None None ''p'' (Some [(''correlation_id'', JStr ''c1'')]) 1"
  have v: "validate_dispatch_control ?r = Inr ()"
    by (simp add: validate_dispatch_control_def claimed_outbox_row_def demo_row_def exact_positive_integer_def)
  have e: "event_from_record ?r = Inr ?e"
    by (simp add: event_from_record_def claimed_outbox_row_def demo_row_def required_text_def optional_text_def
        blank_code is_space_def payload_of_def setdefault_def make_event_def sql_int_def)
  have b: "bus_dispatch (\<lambda>h e d. (None, d)) demo_bus ?e (consumed_consumers (ob_id ?r) demo_claimed) demo_claimed =
      ([\<lparr>dp_consumer = ''b'', dp_error = None\<rparr>, \<lparr>dp_consumer = ''a'', dp_error = None\<rparr>], demo_claimed)"
    by (simp add: bus_dispatch_def entries_for_def entries_of_def demo_bus_def consumed_consumers_def select_ordered_def
        make_event_def demo_claimed_def demo_outbox_def empty_db_def)
  show ?thesis
    unfolding demo_delivered_def dispatch_record_def v e
    by (simp add: b, simp add: claimed_outbox_row_def demo_row_def demo_claimed_def demo_outbox_def empty_db_def
        record_consumption_def insert_consumption_def atomically_def ignore_def mark_published_def update_outbox_def
        update_rows_def holds_event_def demo_dispatcher_def published_row_def sql_int_def blank_code is_space_def)
qed

theorem published_only_when_consumed_witness:
  "''a'' \<in> set (consumed_consumers ''e1'' (snd demo_delivered)) \<and> ''b'' \<in> set (consumed_consumers ''e1'' (snd demo_delivered))"
proof -
  let ?r = "claimed_outbox_row ''w1'' 1000000 demo_row"
  obtain x' where x': "row_by ob_id ''e1'' (db_outbox (snd demo_delivered)) = Some x'" "ob_status x' = OPublished"
    using demo_delivered_row by auto
  have id: "ob_id ?r = ''e1''" "ob_type ?r = ''t''" "ob_status ?r \<noteq> OPublished"
    by (simp_all add: claimed_outbox_row_def demo_row_def)
  have row: "row_by ob_id (ob_id ?r) (db_outbox demo_claimed) = Some ?r" by (simp add: demo_claimed_def)
  have run: "dispatch_record id (\<lambda>_. ([], [])) (\<lambda>h e d. (None, d)) demo_bus demo_dispatcher 7 ?r demo_claimed =
      (fst demo_delivered, snd demo_delivered)" by (simp add: demo_delivered_def)
  have keep: "handlers_keep (ob_id ?r) (\<lambda>h e d. (None, d))" by (simp add: handlers_keep_def)
  have names: "set (map he_consumer (entries_for demo_bus ''t'')) = {''a'', ''b''}"
    unfolding entries_for_names by (auto simp: entries_of_def demo_bus_def)
  have "\<forall>entry \<in> set (entries_for demo_bus ''t''). he_consumer entry \<in> set (consumed_consumers ''e1'' (snd demo_delivered))"
    using published_only_when_consumed [OF keep run row id(3) x'(1) [folded id(1)] x'(2)] unfolding id .
  then have "set (map he_consumer (entries_for demo_bus ''t'')) \<subseteq> set (consumed_consumers ''e1'' (snd demo_delivered))"
    by auto
  then show ?thesis unfolding names by simp
qed

text \<open>
  A record whose counters are malformed or exhausted reaches no consumer. When its row is still
  leased by the dispatcher, dispatching it only moves that row to \<open>dead_letter\<close>, with the error stored.
\<close>

theorem malformed_record_is_dead_lettered:
  assumes ok: "outbox_ok d" and bad: "validate_dispatch_control r = Inl e"
    and row: "x \<in> set (db_outbox d)" "holds_event (ob_id r) (dc_owner c) (ob_version r) x"
  shows "\<exists>err. err_retryable err = False \<and> dispatch_record sha error_text run bus c now r d =
           (Inr (), d\<lparr>db_outbox := map (\<lambda>y. if y = x then poisoned_row err now y else y) (db_outbox d)\<rparr>)"
proof -
  have same: "holds_event (ob_id r) (dc_owner c) (ob_version r) y \<longleftrightarrow> y = x" if "y \<in> set (db_outbox d)" for y
    using outbox_same_id [OF ok that row(1)] row(2) by (auto simp: holds_event_def)
  then have "update_rows (holds_event (ob_id r) (dc_owner c) (ob_version r)) f (db_outbox d) =
      map (\<lambda>y. if y = x then f y else y) (db_outbox d)" for f
    by (simp add: update_rows_def cong: map_cong)
  then show ?thesis using bad
    by (intro exI [of _ "\<lparr>err_code = ''malformed_outbox_event'', err_message = ''durable dispatch control is invalid'',
          err_retryable = False, err_details_hash = Some (bounded_error_hash sha error_text e)\<rparr>"])
       (simp add: dispatch_record_def ignore_def mark_poisoned_def atomically_def update_outbox_def)
qed

theorem malformed_record_is_dead_lettered_witness:
  "\<exists>d' x. dispatch_record id (\<lambda>_. ([], [])) (\<lambda>h e d. (None, d)) demo_bus demo_dispatcher 7
            (claimed_outbox_row ''w1'' 1000000 demo_row\<lparr>ob_attempts := SInteger 3\<rparr>)
            (demo_claimed\<lparr>db_outbox := [claimed_outbox_row ''w1'' 1000000 demo_row\<lparr>ob_attempts := SInteger 3\<rparr>]\<rparr>) = (Inr (), d') \<and>
          db_outbox d' = [x] \<and> ob_status x = ODeadLetter"
proof -
  let ?r = "claimed_outbox_row ''w1'' 1000000 demo_row\<lparr>ob_attempts := SInteger 3\<rparr>"
  let ?d = "demo_claimed\<lparr>db_outbox := [?r]\<rparr>"
  have bad: "validate_dispatch_control ?r = Inl (ValueError ''attempt_count must not exceed max_attempts'')"
    by (simp add: validate_dispatch_control_def exact_positive_integer_def claimed_outbox_row_def demo_row_def raise_unless_def)
  have ok: "outbox_ok ?d" "?r \<in> set (db_outbox ?d)" by (simp_all add: outbox_ok_def)
  have held: "holds_event (ob_id ?r) (dc_owner demo_dispatcher) (ob_version ?r) ?r"
    by (simp add: holds_event_def claimed_outbox_row_def demo_dispatcher_def)
  from malformed_record_is_dead_lettered [OF ok(1) bad ok(2) held, of id "\<lambda>_. ([], [])" "\<lambda>h e d. (None, d)" demo_bus 7]
  show ?thesis by (fastforce simp: poisoned_row_def)
qed

text \<open>
  Retries back off within their bounds. For a dispatcher its constructor accepted, the delay before
  the next attempt lies between the base and the maximum, never shrinks as attempts grow, and doubles
  from the base until it reaches the maximum.
\<close>

theorem backoff_bounds:
  assumes "new_dispatcher owner lease base mx poll shutdown = Inr c"
  shows "base \<le> backoff_seconds c n \<and> backoff_seconds c n \<le> mx \<and>
         (m \<le> n \<longrightarrow> backoff_seconds c m \<le> backoff_seconds c n) \<and>
         (1 \<le> n \<and> n \<le> 31 \<and> base * 2 ^ nat (n - 1) \<le> mx \<longrightarrow> backoff_seconds c n = base * 2 ^ nat (n - 1))"
proof -
  have b: "0 < base" "base \<le> mx" and c: "dc_base_backoff c = base" "dc_max_backoff c = mx"
    using assms by (auto simp: new_dispatcher_def split: if_splits)
  have "base * 1 \<le> base * 2 ^ k" for k :: nat using b(1) by (intro mult_left_mono) auto
  then have lower: "base \<le> backoff_seconds c n" using b by (simp add: backoff_seconds_def Let_def c)
  have "backoff_seconds c m \<le> backoff_seconds c n" if "m \<le> n"
  proof -
    have "nat (min (max (m - 1) 0) 30) \<le> nat (min (max (n - 1) 0) 30)" using that by simp
    then have "base * 2 ^ nat (min (max (m - 1) 0) 30) \<le> base * 2 ^ nat (min (max (n - 1) 0) 30)"
      using b(1) by (intro mult_left_mono power_increasing) auto
    then show ?thesis by (auto simp: backoff_seconds_def Let_def c min_def)
  qed
  moreover have "backoff_seconds c n = base * 2 ^ nat (n - 1)" if "1 \<le> n" "n \<le> 31" "base * 2 ^ nat (n - 1) \<le> mx"
    using that by (simp add: backoff_seconds_def Let_def c)
  ultimately show ?thesis using lower by (simp add: backoff_seconds_def Let_def c)
qed

theorem backoff_bounds_witness:
  "backoff_seconds demo_dispatcher 4 = 8 \<and> backoff_seconds demo_dispatcher 20 \<le> 300"
proof -
  have n: "new_dispatcher ''w1'' 1 1 300 1 5 = Inr demo_dispatcher"
    by (simp add: new_dispatcher_def not_blank_w1 demo_dispatcher_def)
  from backoff_bounds [OF n, of 4] backoff_bounds [OF n, of 20] show ?thesis by simp
qed

end
