(* ===== verification/Decision_Repo.thy ===== *)
theory Decision_Repo
  imports Run_State_Repo
begin

text \<open>
  \<open>storage/decision_repo.py\<close>: durable governance decisions. A request is added once per memorial, kind
  and key; it is resolved or expired by a compare-and-swap on its version and deadline.
\<close>

section \<open>Decoding\<close>

definition row_id :: "decision_row \<Rightarrow> string" where
  "row_id r = dq_id (qr_request r)"

text \<open>The columns of the joined edict.\<close>

definition edict_of :: "db \<Rightarrow> decision_row \<Rightarrow> edict_row option" where
  "edict_of d r = row_by ed_id (dq_edict (qr_request r)) (db_edicts d)"

definition decode_record :: "(string \<Rightarrow> string) \<Rightarrow> db \<Rightarrow> decision_row \<Rightarrow> decision_record result" where
  "decode_record sha d r =
     (let rec = \<lparr>rec_request = qr_request r, rec_resolution = row_by dr_id (row_id r) (db_resolutions d)\<rparr>
      in if valid_decision_request sha (rec_request rec) \<and>
            (case rec_resolution rec of None \<Rightarrow> True | Some v \<Rightarrow> valid_decision_resolution v) \<and>
            valid_decision_record rec
         then Inr rec
         else Inl (DecisionDecodeError ''persisted decision violates the v1 contract''))"

fun decode_records :: "(string \<Rightarrow> string) \<Rightarrow> db \<Rightarrow> decision_row list \<Rightarrow> decision_record list result" where
  "decode_records sha d [] = Inr []"
| "decode_records sha d (r # rs) =
     and_then (decode_record sha d r) (\<lambda>x. and_then (decode_records sha d rs) (\<lambda>xs. Inr (x # xs)))"

text \<open>\<open>_SELECT_RECORD ... WHERE p\<close>: the inner join keeps the requests whose edict exists and satisfies \<open>q\<close>.\<close>

definition joined :: "db \<Rightarrow> (edict_row \<Rightarrow> bool) \<Rightarrow> decision_row \<Rightarrow> bool" where
  "joined d q r = (case edict_of d r of None \<Rightarrow> False | Some e \<Rightarrow> q e)"

definition decode_first :: "(string \<Rightarrow> string) \<Rightarrow> db \<Rightarrow> decision_row option \<Rightarrow> decision_record option result" where
  "decode_first sha d row =
     (case row of None \<Rightarrow> Inr None | Some r \<Rightarrow> and_then (decode_record sha d r) (\<lambda>x. Inr (Some x)))"

section \<open>Reads\<close>

definition decision_get :: "(string \<Rightarrow> string) \<Rightarrow> string \<Rightarrow> db \<Rightarrow> decision_record option result" where
  "decision_get sha i d =
     decode_first sha d (first_of (filter (\<lambda>r. row_id r = i \<and> joined d (\<lambda>_. True) r) (db_decisions d)))"

definition get_for_submitter ::
  "(string \<Rightarrow> string) \<Rightarrow> string \<Rightarrow> string \<Rightarrow> db \<Rightarrow> decision_record option result" where
  "get_for_submitter sha i submitter d =
     (if blank submitter then Inl (ValueError ''submitter must not be blank'')
      else decode_first sha d (first_of (filter (\<lambda>r. row_id r = i \<and> joined d (\<lambda>e. ed_submitter e = submitter) r) (db_decisions d))))"

definition by_creation :: "decision_row \<Rightarrow> instant \<times> string" where
  "by_creation r = (dq_created (qr_request r), row_id r)"

definition decisions_for_edict :: "(string \<Rightarrow> string) \<Rightarrow> string \<Rightarrow> db \<Rightarrow> decision_record list result" where
  "decisions_for_edict sha e d =
     decode_records sha d (select_ordered (\<lambda>r. dq_edict (qr_request r) = e \<and> joined d (\<lambda>_. True) r) by_creation (db_decisions d))"

definition pending_of_kind :: "decision_kind option \<Rightarrow> decision_row \<Rightarrow> bool" where
  "pending_of_kind kind r =
     (dq_status (qr_request r) = Pending \<and> (case kind of None \<Rightarrow> True | Some k \<Rightarrow> dq_kind (qr_request r) = k))"

definition requests_of :: "decision_record list result \<Rightarrow> decision_request list result" where
  "requests_of x = and_then x (\<lambda>rs. Inr (map rec_request rs))"

definition list_pending :: "(string \<Rightarrow> string) \<Rightarrow> decision_kind option \<Rightarrow> db \<Rightarrow> decision_request list result" where
  "list_pending sha kind d =
     requests_of (decode_records sha d
       (select_ordered (\<lambda>r. pending_of_kind kind r \<and> joined d (\<lambda>_. True) r) by_creation (db_decisions d)))"

definition list_pending_owned ::
  "(string \<Rightarrow> string) \<Rightarrow> string \<Rightarrow> decision_kind option \<Rightarrow> int \<Rightarrow> db \<Rightarrow> decision_request list result" where
  "list_pending_owned sha submitter kind limit d =
     (if blank submitter then Inl (ValueError ''submitter must not be blank'')
      else if limit \<le> 0 then Inl (ValueError ''limit must be a positive integer'')
      else requests_of (decode_records sha d (take (nat limit)
        (select_ordered (\<lambda>r. pending_of_kind kind r \<and> joined d (\<lambda>e. ed_submitter e = submitter) r) by_creation (db_decisions d)))))"

record decision_summary =
  ds_id :: string
  ds_edict :: string
  ds_title :: string
  ds_memorial :: string
  ds_kind :: decision_kind
  ds_expires :: instant
  ds_created :: instant

definition summary_of :: "db \<Rightarrow> decision_record \<Rightarrow> decision_summary" where
  "summary_of d x =
     (let q = rec_request x
      in \<lparr>ds_id = dq_id q, ds_edict = dq_edict q,
          ds_title = (case row_by ed_id (dq_edict q) (db_edicts d) of None \<Rightarrow> [] | Some e \<Rightarrow> edict_title e),
          ds_memorial = dq_memorial q, ds_kind = dq_kind q, ds_expires = dq_expires q, ds_created = dq_created q\<rparr>)"

definition pending_visible :: "string option \<Rightarrow> db \<Rightarrow> decision_row \<Rightarrow> bool" where
  "pending_visible submitter d r = (dq_status (qr_request r) = Pending \<and> joined d (visible_edict submitter) r)"

definition list_pending_for_submitter ::
  "(string \<Rightarrow> string) \<Rightarrow> string option \<Rightarrow> int \<Rightarrow> db \<Rightarrow> decision_summary list result" where
  "list_pending_for_submitter sha submitter limit d =
     (if \<not> opt_nonblank submitter then Inl (ValueError ''submitter must not be blank'')
      else if limit \<le> 0 then Inl (ValueError ''limit must be a positive integer'')
      else and_then (decode_records sha d (take (nat limit)
             (select_ordered (pending_visible submitter d)
                (\<lambda>r. (dq_expires (qr_request r), by_creation r)) (db_decisions d))))
           (\<lambda>xs. Inr (map (summary_of d) xs)))"

definition count_pending_for_submitter :: "string option \<Rightarrow> db \<Rightarrow> nat result" where
  "count_pending_for_submitter submitter d =
     (if \<not> opt_nonblank submitter then Inl (ValueError ''submitter must not be blank'')
      else Inr (count_rows (pending_visible submitter d) (db_decisions d)))"

definition list_due :: "(string \<Rightarrow> string) \<Rightarrow> instant \<Rightarrow> int \<Rightarrow> db \<Rightarrow> decision_request list result" where
  "list_due sha now limit d =
     (if limit \<le> 0 then Inl (ValueError ''limit must be a positive integer'')
      else requests_of (decode_records sha d (take (nat limit)
        (select_ordered (\<lambda>r. dq_status (qr_request r) = Pending \<and> dq_expires (qr_request r) \<le> now \<and> joined d (\<lambda>_. True) r)
           (\<lambda>r. (dq_expires (qr_request r), row_id r)) (db_decisions d)))))"

section \<open>The tables\<close>

text \<open>\<open>length(trim(v)) > 0\<close>: SQLite's \<open>trim\<close> removes spaces only.\<close>

definition sql_nonblank :: "string \<Rightarrow> bool" where
  "sql_nonblank v = list_ex (\<lambda>c. c \<noteq> CHR '' '') v"

definition identity_of :: "decision_row \<Rightarrow> string \<times> decision_kind \<times> string" where
  "identity_of r = (dq_memorial (qr_request r), dq_kind (qr_request r), dq_key (qr_request r))"

definition decision_checks :: "decision_request \<Rightarrow> bool" where
  "decision_checks q =
     (dq_schema_version q = 1 \<and> sql_nonblank (dq_key q) \<and> hex64 (dq_payload_hash q) \<and>
      sql_nonblank (dq_requested_by q) \<and> 0 < dq_version q)"

definition insert_decision :: "decision_row \<Rightarrow> db \<Rightarrow> db result" where
  "insert_decision row d =
     (if list_ex (\<lambda>r. row_id r = row_id row \<or> identity_of r = identity_of row) (db_decisions d)
      then Inl (IntegrityError ''decision requests are immutable by replacement'')
      else if \<not> decision_checks (qr_request row) then Inl (IntegrityError ''CHECK constraint failed: decision_requests'')
      else if \<not> (has_edict d (dq_edict (qr_request row)) \<and> has_memorial d (dq_memorial (qr_request row)))
      then Inl (IntegrityError ''FOREIGN KEY constraint failed'')
      else Inr (d\<lparr>db_decisions := db_decisions d @ [row]\<rparr>))"

definition insert_resolution :: "decision_resolution \<Rightarrow> db \<Rightarrow> db result" where
  "insert_resolution v d =
     (if list_ex (\<lambda>r. dr_id r = dr_id v) (db_resolutions d)
      then Inl (IntegrityError ''decision resolutions are immutable by replacement'')
      else if \<not> (sql_nonblank (dr_action v) \<and> sql_nonblank (dr_reason v) \<and> sql_nonblank (dr_actor_id v) \<and> sql_nonblank (dr_actor_name v))
      then Inl (IntegrityError ''CHECK constraint failed: decision_resolutions'')
      else if \<not> list_ex (\<lambda>r. row_id r = dr_id v) (db_decisions d)
      then Inl (IntegrityError ''FOREIGN KEY constraint failed'')
      else Inr (d\<lparr>db_resolutions := db_resolutions d @ [v]\<rparr>))"

text \<open>\<open>SET status = ..., version = version + 1, updated_at = ...\<close>\<close>

definition closed_row :: "decision_status \<Rightarrow> instant \<Rightarrow> decision_row \<Rightarrow> decision_row" where
  "closed_row status moment r =
     r\<lparr>qr_request := (qr_request r)\<lparr>dq_status := status, dq_version := dq_version (qr_request r) + 1, dq_updated := moment\<rparr>\<rparr>"

definition update_decisions :: "(decision_row \<Rightarrow> bool) \<Rightarrow> (decision_row \<Rightarrow> decision_row) \<Rightarrow> db \<Rightarrow> nat \<times> db" where
  "update_decisions p f d = (count_rows p (db_decisions d), d\<lparr>db_decisions := update_rows p f (db_decisions d)\<rparr>)"

section \<open>Writes\<close>

definition require_decision_memorial :: "db \<Rightarrow> string \<Rightarrow> string \<Rightarrow> unit result" where
  "require_decision_memorial d m e =
     raise_unless (memorial_bound d m e)
       (DecisionIdentityConflict ''memorial does not belong to the decision edict'' None)"

definition existing_request :: "(string \<Rightarrow> string) \<Rightarrow> decision_request \<Rightarrow> db \<Rightarrow> decision_record option result" where
  "existing_request sha q d =
     decode_first sha d (first_of (filter
       (\<lambda>r. identity_of r = (dq_memorial q, dq_kind q, dq_key q) \<and> joined d (\<lambda>_. True) r) (db_decisions d)))"

definition same_payload :: "decision_request \<Rightarrow> decision_request \<Rightarrow> decision_request result" where
  "same_payload existing q =
     (if dq_payload_hash existing \<noteq> dq_payload_hash q
      then Inl (DecisionIdentityConflict ''decision request identity payload hash conflict'' (Some (dq_id existing)))
      else Inr existing)"

definition add_or_get ::
  "(string \<Rightarrow> string) \<Rightarrow> decision_request \<Rightarrow> string option \<Rightarrow> db \<Rightarrow> (decision_request \<times> db) result" where
  "add_or_get sha q correlation d =
     and_then (raise_unless (dq_status q = Pending \<and> dq_version q = 1)
        (ValueError ''new decisions must be pending at version 1'')) (\<lambda>_.
     and_then (require_decision_memorial d (dq_memorial q) (dq_edict q)) (\<lambda>_.
     and_then (correlation_for_memorial sha d (dq_memorial q) correlation) (\<lambda>durable_correlation.
     and_then (existing_request sha q d) (\<lambda>existing.
       case existing of
         Some x \<Rightarrow> and_then (same_payload (rec_request x) q) (\<lambda>e. Inr (e, d))
       | None \<Rightarrow>
           and_then (raise_unless (normalizable (JObj (dq_payload q)))
              (ValueError ''canonical JSON numbers must be finite'')) (\<lambda>_.
           catch_integrity
             (and_then (insert_decision \<lparr>qr_request = q, qr_correlation = Some durable_correlation\<rparr> d) (\<lambda>d'. Inr (q, d')))
             (and_then (existing_request sha q d) (\<lambda>again.
                case again of
                  None \<Rightarrow> Inl (DecisionIdentityConflict ''decision request identity conflict'' None)
                | Some x \<Rightarrow> and_then (same_payload (rec_request x) q) (\<lambda>e. Inr (e, d)))))))))"

definition resolve_guard :: "decision_request \<Rightarrow> int \<Rightarrow> instant \<Rightarrow> string option" where
  "resolve_guard q expected_version now =
     (if dq_status q \<noteq> Pending then Some (status_value (dq_status q))
      else if dq_version q \<noteq> expected_version then Some ''stale_version''
      else if dq_expires q \<le> now then Some ''deadline_elapsed''
      else None)"

definition pending_at :: "string \<Rightarrow> int \<Rightarrow> decision_row \<Rightarrow> bool" where
  "pending_at i v r = (row_id r = i \<and> dq_status (qr_request r) = Pending \<and> dq_version (qr_request r) = v)"

text \<open>The exception after an update that hit no row: the current state says why.\<close>

definition lost_resolution :: "(string \<Rightarrow> string) \<Rightarrow> string \<Rightarrow> int \<Rightarrow> instant \<Rightarrow> db \<Rightarrow> exn" where
  "lost_resolution sha i expected_version now d =
     (case decision_get sha i d of
        Inl e \<Rightarrow> e
      | Inr None \<Rightarrow> DecisionStateConflict ''not_found''
      | Inr (Some cur) \<Rightarrow>
          DecisionStateConflict (case resolve_guard (rec_request cur) expected_version now of
             Some reason \<Rightarrow> reason | None \<Rightarrow> ''cas_lost''))"

definition repo_resolve ::
  "(string \<Rightarrow> string) \<Rightarrow> decision_resolution \<Rightarrow> int \<Rightarrow> instant \<Rightarrow> db \<Rightarrow> (decision_record \<times> db) result" where
  "repo_resolve sha v expected_version now d =
     and_then (decision_get sha (dr_id v) d) (\<lambda>found.
       case found of
         None \<Rightarrow> Inl (DecisionStateConflict ''not_found'')
       | Some rec \<Rightarrow>
           and_then (validate_resolution_payload (dq_kind (rec_request rec)) (dr_action v) (dr_payload v)) (\<lambda>_.
           case resolve_guard (rec_request rec) expected_version now of
             Some reason \<Rightarrow> Inl (DecisionStateConflict reason)
           | None \<Rightarrow>
               (let (n, d1) = update_decisions
                      (\<lambda>r. pending_at (dr_id v) expected_version r \<and> now < dq_expires (qr_request r))
                      (closed_row Resolved (dr_at v)) d
                in if n \<noteq> 1
                   then Inl (lost_resolution sha (dr_id v) expected_version now d1)
                   else and_then (raise_unless (normalizable (JObj (dr_payload v)))
                          (ValueError ''canonical JSON numbers must be finite'')) (\<lambda>_.
                        and_then (insert_resolution v d1) (\<lambda>d2.
                        and_then (decision_get sha (dr_id v) d2) (\<lambda>saved.
                          case saved of
                            None \<Rightarrow> Inl (DecisionStateConflict ''not_found'')
                          | Some x \<Rightarrow> Inr (x, d2)))))))"

definition repo_expire ::
  "(string \<Rightarrow> string) \<Rightarrow> string \<Rightarrow> int \<Rightarrow> instant \<Rightarrow> db \<Rightarrow> (decision_request option \<times> db) result" where
  "repo_expire sha i expected_version now d =
     (let (n, d1) = update_decisions
            (\<lambda>r. pending_at i expected_version r \<and> dq_expires (qr_request r) \<le> now) (closed_row Expired now) d
      in if n \<noteq> 1 then Inr (None, d1)
         else and_then (decision_get sha i d1) (\<lambda>x.
           case x of
             None \<Rightarrow> Inl (DecisionStateConflict ''not_found'')
           | Some rec \<Rightarrow> Inr (Some (rec_request rec), d1)))"

end
