(* ===== verification/Decision_Service.thy ===== *)
theory Decision_Service
  imports Decision_Repo Outbox_Repo
begin

text \<open>
  \<open>governance/decision_service.py\<close>: the authority over decision requests. Each operation opens a unit of
  work; a denial commits an audit event before it raises, any other exception rolls back. Inside the unit
  of work an exception therefore carries the state that stays durable.
\<close>

section \<open>Callers and units of work\<close>

record principal =
  pr_id :: string
  pr_display_name :: string
  pr_scopes :: "string list"

record auth_context =
  ax_principal :: principal
  ax_correlation :: string

text \<open>Identifiers and the clock reading an operation draws.\<close>

record fresh =
  fr_decision :: string
  fr_event :: string
  fr_audit :: string
  fr_audit_time :: string

type_synonym 'a work = "(exn \<times> db) + ('a \<times> db)"

text \<open>\<open>rollback d r\<close>: an exception of \<open>r\<close> leaves the durable state \<open>d\<close> the unit of work began with.\<close>

definition rollback :: "db \<Rightarrow> ('a \<times> db) result \<Rightarrow> 'a work" where
  "rollback d r = (case r of Inl e \<Rightarrow> Inl (e, d) | Inr x \<Rightarrow> Inr x)"

definition reading :: "db \<Rightarrow> db \<Rightarrow> 'a result \<Rightarrow> 'a work" where
  "reading d w r = (case r of Inl e \<Rightarrow> Inl (e, d) | Inr x \<Rightarrow> Inr (x, w))"

definition finish :: "'a work \<Rightarrow> 'a result \<times> db" where
  "finish w = (case w of Inl (e, d) \<Rightarrow> (Inl e, d) | Inr (x, d) \<Rightarrow> (Inr x, d))"

lemma finish_Inr [simp]: "finish w = (Inr x, d) \<longleftrightarrow> w = Inr (x, d)"
  by (auto simp: finish_def split: sum.splits)

lemma rollback_Inr [simp]: "rollback d r = Inr x \<longleftrightarrow> r = Inr x"
  by (auto simp: rollback_def split: sum.splits)

lemma reading_Inr [simp]: "reading d w r = Inr x \<longleftrightarrow> (\<exists>v. r = Inr v \<and> x = (v, w))"
  by (auto simp: reading_def split: sum.splits)

section \<open>Denials\<close>

definition digest :: "(string \<Rightarrow> string) \<Rightarrow> string \<Rightarrow> string" where
  "digest sha v = sha (utf8 v)"

definition denial_request ::
  "(string \<Rightarrow> string) \<Rightarrow> auth_context \<Rightarrow> string \<Rightarrow> string \<Rightarrow> string \<Rightarrow> payload \<Rightarrow> audit_request" where
  "denial_request sha auth action reason i metadata =
     \<lparr>ar_correlation = ax_correlation auth, ar_actor = digest sha (pr_id (ax_principal auth)), ar_action = action,
      ar_outcome = ''denied'', ar_reason = reason, ar_subject_kind = ''decision_request'',
      ar_subject = digest sha i, ar_metadata = metadata\<rparr>"

definition append_audit :: "(string \<Rightarrow> string) \<Rightarrow> fresh \<Rightarrow> audit_request \<Rightarrow> db \<Rightarrow> db result" where
  "append_audit sha fr req d =
     and_then (raise_unless (valid_audit_request req) (ValueError ''invalid system audit request'')) (\<lambda>_.
     and_then (append_system_audit sha (fr_audit fr) (fr_audit_time fr) req (db_audit d)) (\<lambda>(event, rows).
       Inr (d\<lparr>db_audit := rows\<rparr>)))"

text \<open>Append the audit event, commit, raise \<open>e\<close>.\<close>

definition deny_with :: "(string \<Rightarrow> string) \<Rightarrow> fresh \<Rightarrow> audit_request \<Rightarrow> exn \<Rightarrow> db \<Rightarrow> 'a work" where
  "deny_with sha fr req e d =
     (case append_audit sha fr req d of Inl e' \<Rightarrow> Inl (e', d) | Inr d' \<Rightarrow> Inl (e, d'))"

definition opt_item :: "string \<Rightarrow> json option \<Rightarrow> payload" where
  "opt_item k v = (case v of None \<Rightarrow> [] | Some j \<Rightarrow> [(k, j)])"

definition resolution_denial ::
  "(string \<Rightarrow> string) \<Rightarrow> auth_context \<Rightarrow> string \<Rightarrow> string \<Rightarrow> decision_kind option \<Rightarrow> string \<Rightarrow> int option \<Rightarrow> int option \<Rightarrow>
   audit_request" where
  "resolution_denial sha auth i reason kind status expected_version actual_version =
     denial_request sha auth ''decision.resolve.denied'' reason i
       (opt_item ''actual_version'' (map_option JInt actual_version) @
        opt_item ''expected_version'' (map_option JInt expected_version) @
        opt_item ''kind'' (map_option (JStr \<circ> kind_value) kind) @ [(''status'', JStr status)])"

definition conflict_code :: "string \<Rightarrow> string" where
  "conflict_code reason =
     (if reason = ''cancelled'' then ''decision_cancelled''
      else if reason = ''deadline_elapsed'' then ''decision_expired''
      else if reason = ''expired'' then ''decision_expired''
      else if reason = ''resolved'' then ''decision_already_resolved''
      else if reason = ''stale_version'' then ''decision_stale''
      else ''decision_conflict'')"

section \<open>Requests\<close>

definition new_request ::
  "(string \<Rightarrow> string) \<Rightarrow> fresh \<Rightarrow> request_decision_command \<Rightarrow> auth_context \<Rightarrow> instant \<Rightarrow> decision_request result" where
  "new_request sha fr c auth now =
     and_then (raise_unless (now < rc_expires c) (DecisionValidationError ''invalid_decision_expiry'')) (\<lambda>_.
     and_then (canonical_sha256 sha (JObj (rc_payload c))) (\<lambda>payload_hash.
       let q = \<lparr>dq_id = fr_decision fr, dq_schema_version = 1, dq_kind = rc_kind c, dq_edict = rc_edict c,
                dq_memorial = rc_memorial c, dq_key = rc_key c, dq_payload = rc_payload c,
                dq_payload_hash = payload_hash, dq_requested_by = pr_id (ax_principal auth),
                dq_expires = rc_expires c, dq_status = Pending, dq_version = 1, dq_created = now, dq_updated = now\<rparr>
       in if valid_decision_request sha q then Inr q else Inl (ValueError ''decision request is invalid'')))"

definition request_denial ::
  "(string \<Rightarrow> string) \<Rightarrow> request_decision_command \<Rightarrow> auth_context \<Rightarrow> decision_request \<Rightarrow> string option \<Rightarrow> audit_request" where
  "request_denial sha c auth q existing =
     denial_request sha auth ''decision.request.denied'' ''decision_identity_conflict''
       (case existing of Some i \<Rightarrow> if i = [] then dq_id q else i | None \<Rightarrow> dq_id q) [(''kind'', JStr (kind_value (rc_kind c)))]"

text \<open>\<open>except DecisionIdentityConflict as exc\<close>: the existing request it names.\<close>

fun identity_conflict :: "exn \<Rightarrow> string option option" where
  "identity_conflict (DecisionIdentityConflict m existing) = Some existing"
| "identity_conflict e = None"

fun state_conflict :: "exn \<Rightarrow> string option" where
  "state_conflict (DecisionStateConflict reason) = Some reason"
| "state_conflict e = None"

definition add_request ::
  "(string \<Rightarrow> string) \<Rightarrow> fresh \<Rightarrow> decision_request \<Rightarrow> request_decision_command \<Rightarrow> auth_context \<Rightarrow> db \<Rightarrow> decision_request work" where
  "add_request sha fr q c auth d =
     (case add_or_get sha q (Some (ax_correlation auth)) d of
        Inr x \<Rightarrow> Inr x
      | Inl e \<Rightarrow>
          (case identity_conflict e of
             Some existing \<Rightarrow>
               deny_with sha fr (request_denial sha c auth q existing) (DecisionConflict ''decision_identity_conflict'') d
           | None \<Rightarrow> Inl (e, d)))"

definition request_decision ::
  "(string \<Rightarrow> string) \<Rightarrow> fresh \<Rightarrow> request_decision_command \<Rightarrow> auth_context \<Rightarrow> instant \<Rightarrow> db \<Rightarrow> decision_request result \<times> db" where
  "request_decision sha fr c auth now d =
     (case new_request sha fr c auth now of
        Inl e \<Rightarrow> (Inl e, d)
      | Inr q \<Rightarrow> finish (add_request sha fr q c auth d))"

text \<open>
  \<open>request_in_transaction\<close> works on the caller's open unit of work: the state it returns is the working
  state, which the caller commits or not, also when it raises.
\<close>

definition request_in_transaction ::
  "(string \<Rightarrow> string) \<Rightarrow> fresh \<Rightarrow> request_decision_command \<Rightarrow> auth_context \<Rightarrow> instant \<Rightarrow> db \<Rightarrow> decision_request result \<times> db" where
  "request_in_transaction sha fr c auth now d =
     (case new_request sha fr c auth now of
        Inl e \<Rightarrow> (Inl e, d)
      | Inr q \<Rightarrow>
          (case add_or_get sha q (Some (ax_correlation auth)) d of
             Inr (r, d') \<Rightarrow> (Inr r, d')
           | Inl e \<Rightarrow>
               (case identity_conflict e of
                  Some existing \<Rightarrow>
                    (case append_audit sha fr (request_denial sha c auth q existing) d of
                       Inl e' \<Rightarrow> (Inl e', d)
                     | Inr d' \<Rightarrow> (Inl (DecisionConflict ''decision_identity_conflict''), d'))
                | None \<Rightarrow> (Inl e, d))))"

section \<open>Requests bound to a run\<close>

definition plan_review_matches :: "(string \<Rightarrow> string) \<Rightarrow> payload \<Rightarrow> agent_continuation \<Rightarrow> bool result" where
  "plan_review_matches sha p a =
     (if ac_pending_tool a = None \<and> ac_plan_ref a \<noteq> None \<and> ac_plan_hash a \<noteq> None \<and>
         map_of p ''plan_ref'' = map_option JStr (ac_plan_ref a) \<and>
         map_of p ''plan_hash'' = map_option JStr (ac_plan_hash a)
      then (case map_of p ''plan'' of
              Some (JObj plan) \<Rightarrow> and_then (canonical_sha256 sha (JObj plan)) (\<lambda>h. Inr (Some h = ac_plan_hash a))
            | _ \<Rightarrow> Inr False)
      else Inr False)"

definition continuation_matches_kind ::
  "(string \<Rightarrow> string) \<Rightarrow> request_decision_command \<Rightarrow> continuation \<Rightarrow> bool result" where
  "continuation_matches_kind sha c cont =
     (case (rc_kind c, cont) of
        (KTool, Agent a) \<Rightarrow> Inr (ac_pending_tool a \<noteq> None \<and> ac_plan_ref a = None)
      | (KOuterLoop, OuterLoop l) \<Rightarrow> Inr True
      | (KPlanReview, Agent a) \<Rightarrow> plan_review_matches sha (rc_payload c) a
      | _ \<Rightarrow> Inr False)"

fun set_pending :: "string option \<Rightarrow> continuation \<Rightarrow> continuation" where
  "set_pending p (Agent c) = Agent (c\<lparr>ac_pending_decision := p\<rparr>)"
| "set_pending p (OuterLoop c) = OuterLoop (c\<lparr>oc_pending_decision := p\<rparr>)"

text \<open>The pending tool's proposal time becomes the creation time of the saved request.\<close>

fun set_proposed_at :: "instant \<Rightarrow> continuation \<Rightarrow> continuation" where
  "set_proposed_at t (Agent c) = Agent (c\<lparr>ac_pending_tool := map_option (\<lambda>p. p\<lparr>tp_proposed_at := t\<rparr>) (ac_pending_tool c)\<rparr>)"
| "set_proposed_at t (OuterLoop c) = OuterLoop c"

definition terminal_phase :: "decision_record \<Rightarrow> run_phase" where
  "terminal_phase rec =
     (if dq_kind (rec_request rec) \<noteq> KPlanReview then PExecuting
      else if dq_status (rec_request rec) = Resolved \<and>
              (case rec_resolution rec of None \<Rightarrow> False | Some v \<Rightarrow> dr_action v = ''approve'')
      then PPlanning else PFailed)"

definition run_state_conflict :: exn where
  "run_state_conflict = DecisionConflict ''decision_run_state_conflict''"

definition require_terminal_replay ::
  "(string \<Rightarrow> string) \<Rightarrow> (string \<Rightarrow> string) \<Rightarrow> decision_request \<Rightarrow> decision_request \<Rightarrow> run_state \<Rightarrow> db \<Rightarrow> unit result" where
  "require_terminal_replay sha redact saved requested s d =
     and_then (decision_get sha (dq_id saved) d) (\<lambda>found.
       case found of
         None \<Rightarrow> Inl run_state_conflict
       | Some rec \<Rightarrow>
           and_then (load sha redact (dq_memorial saved) d) (\<lambda>loaded.
             case loaded of
               None \<Rightarrow> Inl run_state_conflict
             | Some current \<Rightarrow>
                 (let business = set_proposed_at (dq_created saved) (rs_continuation s);
                      normalized = s\<lparr>rs_version := rs_version current, rs_created := rs_created current,
                                     rs_updated := rs_updated current\<rparr>;
                      waiting = normalized\<lparr>rs_phase := PWaitingDecision,
                                           rs_continuation := set_decisions (Some (dq_id saved)) None business\<rparr>;
                      resumed = normalized\<lparr>rs_phase := terminal_phase rec,
                                           rs_continuation := set_decisions None (Some (dq_id saved)) business\<rparr>
                  in raise_unless
                       (dq_payload_hash saved = dq_payload_hash requested \<and> (current = waiting \<or> current = resumed))
                       run_state_conflict)))"

definition bind_state :: "decision_request \<Rightarrow> run_state \<Rightarrow> run_state" where
  "bind_state saved s =
     s\<lparr>rs_continuation := set_proposed_at (dq_created saved) (set_pending (Some (dq_id saved)) (rs_continuation s)),
       rs_created := dq_created saved, rs_updated := dq_created saved\<rparr>"

definition already_waiting :: "decision_request \<Rightarrow> run_state \<Rightarrow> run_state \<Rightarrow> bool" where
  "already_waiting saved current bound =
     (current = bound \<or>
      (rs_phase current = PWaitingDecision \<and> cont_pending (rs_continuation current) = Some (dq_id saved) \<and>
       current = bound\<lparr>rs_created := rs_created current, rs_updated := rs_updated current, rs_version := rs_version current\<rparr>))"

definition resumable :: "run_state \<Rightarrow> bool" where
  "resumable current =
     (rs_phase current = PExecuting \<and> cont_pending (rs_continuation current) = None \<and>
      cont_resolved (rs_continuation current) \<noteq> None)"

text \<open>Store the waiting state: create it, keep it, or swap it in.\<close>

definition store_waiting ::
  "(string \<Rightarrow> string) \<Rightarrow> (string \<Rightarrow> string) \<Rightarrow> (run_state \<Rightarrow> bool) \<Rightarrow> decision_request \<Rightarrow> run_state \<Rightarrow> db \<Rightarrow> (unit \<times> db) result" where
  "store_waiting sha redact secret saved bound d =
     and_then (load sha redact (rs_memorial bound) d) (\<lambda>loaded.
       case loaded of
         None \<Rightarrow> and_then (create sha redact secret bound d) (\<lambda>(_, d'). Inr ((), d'))
       | Some current \<Rightarrow>
           if already_waiting saved current bound then Inr ((), d)
           else if resumable current
           then and_then (compare_and_swap sha redact secret
                  (bound\<lparr>rs_created := rs_created current, rs_updated := max (rs_updated bound) (rs_updated current),
                         rs_version := rs_version current\<rparr>) (rs_version current) d) (\<lambda>(_, d'). Inr ((), d'))
           else Inl run_state_conflict)"

text \<open>The request, once the run state is known to fit the command.\<close>

definition waiting_request ::
  "(string \<Rightarrow> string) \<Rightarrow> fresh \<Rightarrow> request_decision_command \<Rightarrow> run_state \<Rightarrow> auth_context \<Rightarrow> instant \<Rightarrow> decision_request result" where
  "waiting_request sha fr c s auth now =
     and_then (continuation_matches_kind sha c (rs_continuation s)) (\<lambda>matches.
     and_then (raise_unless (rs_phase s = PWaitingDecision \<and> rs_edict s = rc_edict c \<and>
        rs_memorial s = rc_memorial c \<and> matches) (DecisionValidationError ''invalid_decision_run_state'')) (\<lambda>_.
       new_request sha fr c auth now))"

definition request_with_run_state ::
  "(string \<Rightarrow> string) \<Rightarrow> (string \<Rightarrow> string) \<Rightarrow> (run_state \<Rightarrow> bool) \<Rightarrow> fresh \<Rightarrow> request_decision_command \<Rightarrow> run_state \<Rightarrow>
   auth_context \<Rightarrow> instant \<Rightarrow> db \<Rightarrow> decision_request result \<times> db" where
  "request_with_run_state sha redact secret fr c s auth now d =
     (case waiting_request sha fr c s auth now of
        Inl e \<Rightarrow> (Inl e, d)
      | Inr q \<Rightarrow>
          finish (and_then (add_request sha fr q c auth d) (\<lambda>(saved, d1).
            if dq_status saved \<noteq> Pending
            then and_then (reading d d1 (require_terminal_replay sha redact saved q s d1)) (\<lambda>(_, d2). Inr (saved, d2))
            else and_then (rollback d (store_waiting sha redact secret saved (bind_state saved s) d1))
                   (\<lambda>(_, d2). Inr (saved, d2)))))"

section \<open>Releasing a suspended run\<close>

definition released_state :: "decision_record \<Rightarrow> run_state \<Rightarrow> run_state" where
  "released_state rec current =
     current\<lparr>rs_phase := terminal_phase rec,
       rs_continuation := set_decisions None (Some (dq_id (rec_request rec))) (rs_continuation current),
       rs_updated := max (rs_updated current)
         (case rec_resolution rec of Some v \<Rightarrow> dr_at v | None \<Rightarrow> dq_updated (rec_request rec))\<rparr>"

definition release_body ::
  "(string \<Rightarrow> string) \<Rightarrow> (string \<Rightarrow> string) \<Rightarrow> (run_state \<Rightarrow> bool) \<Rightarrow> string \<Rightarrow> decision_status set \<Rightarrow> db \<Rightarrow>
   (run_state \<times> db) result" where
  "release_body sha redact secret i allowed d =
     and_then (decision_get sha i d) (\<lambda>found.
       case found of
         None \<Rightarrow> Inl run_state_conflict
       | Some rec \<Rightarrow>
           if dq_kind (rec_request rec) = KGovernedApply \<or> dq_status (rec_request rec) \<notin> allowed
           then Inl run_state_conflict
           else and_then (load sha redact (dq_memorial (rec_request rec)) d) (\<lambda>loaded.
             case loaded of
               None \<Rightarrow> Inl run_state_conflict
             | Some current \<Rightarrow>
                 if rs_phase current = terminal_phase rec \<and> cont_pending (rs_continuation current) = None \<and>
                    cont_resolved (rs_continuation current) = Some i
                 then Inr (current, d)
                 else if rs_phase current \<noteq> PWaitingDecision \<or> cont_pending (rs_continuation current) \<noteq> Some i
                 then Inl run_state_conflict
                 else compare_and_swap sha redact secret (released_state rec current) (rs_version current) d))"

definition mark_run_state_resolved ::
  "(string \<Rightarrow> string) \<Rightarrow> (string \<Rightarrow> string) \<Rightarrow> (run_state \<Rightarrow> bool) \<Rightarrow> string \<Rightarrow> db \<Rightarrow> run_state result \<times> db" where
  "mark_run_state_resolved sha redact secret i = atomically (release_body sha redact secret i {Resolved})"

definition mark_run_state_terminal ::
  "(string \<Rightarrow> string) \<Rightarrow> (string \<Rightarrow> string) \<Rightarrow> (run_state \<Rightarrow> bool) \<Rightarrow> string \<Rightarrow> db \<Rightarrow> run_state result \<times> db" where
  "mark_run_state_terminal sha redact secret i =
     atomically (release_body sha redact secret i {Resolved, Expired, Cancelled})"

section \<open>Resolutions\<close>

text \<open>\<open>tools/policy_store.py\<close>'s \<open>assert_can_grant\<close> with scope \<open>always\<close>; its message when it raises.\<close>

definition grant_refusal :: "string \<Rightarrow> string option" where
  "grant_refusal tool =
     (if tool \<in> {''shell_exec'', ''bash''}
      then Some (''Cannot grant '' @ [CHR 39] @ ''always'' @ [CHR 39] @ '' scope to bash-family tool '' @ [CHR 39] @ tool @ [CHR 39])
      else None)"

text \<open>\<open>str(payload.get("tool_name") or "")\<close>: what is not text never renders as one of the refused names.\<close>

definition tool_name_of :: "payload \<Rightarrow> string" where
  "tool_name_of p = (case map_of p ''tool_name'' of Some (JStr s) \<Rightarrow> s | _ \<Rightarrow> [])"

definition requested_scope :: "payload \<Rightarrow> string" where
  "requested_scope p = (case map_of p ''grant_scope'' of Some (JStr s) \<Rightarrow> if s = [] then ''once'' else s | _ \<Rightarrow> ''once'')"

definition normalize_tool_resolution ::
  "decision_request \<Rightarrow> resolve_decision_command \<Rightarrow> resolve_decision_command" where
  "normalize_tool_resolution q c =
     (if dq_kind q \<noteq> KTool \<or> vc_action c \<noteq> ''approve'' then c
      else
        (let scope = requested_scope (vc_payload c);
             refusal = (if scope = ''always'' then grant_refusal (tool_name_of (dq_payload q)) else None);
             effective = (if refusal = None then scope else ''once'')
         in c\<lparr>vc_payload :=
              [(''grant_downgrade_reason'', (case refusal of None \<Rightarrow> JNull | Some m \<Rightarrow> JStr m)),
               (''grant_downgraded'', JBool (refusal \<noteq> None)),
               (''grant_reason'', (case map_of (vc_payload c) ''grant_reason'' of None \<Rightarrow> JNull | Some v \<Rightarrow> v)),
               (''grant_scope'', JStr effective),
               (''requested_grant_scope'', JStr scope),
               (''schema_version'', JInt 1)]\<rparr>))"

definition resolution_conflict :: "decision_record \<Rightarrow> resolve_decision_command \<Rightarrow> instant \<Rightarrow> string option" where
  "resolution_conflict rec c now = resolve_guard (rec_request rec) (vc_expected_version c) now"

definition resolution_of ::
  "string \<Rightarrow> resolve_decision_command \<Rightarrow> auth_context \<Rightarrow> instant \<Rightarrow> decision_resolution result" where
  "resolution_of i c auth now =
     (let v = \<lparr>dr_id = i, dr_action = vc_action c, dr_reason = vc_reason c, dr_payload = vc_payload c,
               dr_actor_id = pr_id (ax_principal auth), dr_actor_name = pr_display_name (ax_principal auth), dr_at = now\<rparr>
      in if valid_decision_resolution v then Inr v else Inl (ValueError ''decision resolution is invalid''))"

definition resolved_event ::
  "fresh \<Rightarrow> auth_context \<Rightarrow> instant \<Rightarrow> decision_resolution \<Rightarrow> decision_record \<Rightarrow> event_envelope" where
  "resolved_event fr auth now v resolved =
     (let q = rec_request resolved
      in \<lparr>ee_id = fr_event fr, ee_type = ''decision.resolved'', ee_edict = Some (dq_edict q),
          ee_memorial = Some (dq_memorial q), ee_attempt = 1, ee_timestamp = now,
          ee_producer = ''governance.decision_service.v1'',
          ee_payload = [(''action'', JStr (dr_action v)), (''correlation_id'', JStr (ax_correlation auth)),
                        (''decision_request_id'', JStr (dr_id v)), (''kind'', JStr (kind_value (dq_kind q))),
                        (''request_version'', JInt (dq_version q)), (''schema_version'', JInt 1)]\<rparr>)"

definition deny_resolution ::
  "(string \<Rightarrow> string) \<Rightarrow> fresh \<Rightarrow> auth_context \<Rightarrow> string \<Rightarrow> string \<Rightarrow> decision_record option \<Rightarrow> int option \<Rightarrow> exn \<Rightarrow> db \<Rightarrow> 'a work" where
  "deny_resolution sha fr auth i reason rec expected_version =
     deny_with sha fr (case rec of
         None \<Rightarrow> resolution_denial sha auth i reason None ''missing'' expected_version None
       | Some x \<Rightarrow> resolution_denial sha auth i reason (Some (dq_kind (rec_request x)))
                    (status_value (dq_status (rec_request x))) expected_version (Some (dq_version (rec_request x))))"

definition resolve_accepted ::
  "(string \<Rightarrow> string) \<Rightarrow> fresh \<Rightarrow> string \<Rightarrow> resolve_decision_command \<Rightarrow> auth_context \<Rightarrow> instant \<Rightarrow> decision_record \<Rightarrow> db \<Rightarrow>
   decision_resolution work" where
  "resolve_accepted sha fr i c auth now rec d =
     and_then (reading d d (resolution_of i c auth now)) (\<lambda>(v, _).
       case repo_resolve sha v (vc_expected_version c) now d of
         Inl e \<Rightarrow>
           (case state_conflict e of
              None \<Rightarrow> Inl (e, d)
            | Some reason \<Rightarrow>
                (let code = (if reason = ''not_found'' then ''decision_not_found'' else conflict_code reason)
                 in deny_resolution sha fr auth i code (Some rec) (Some (vc_expected_version c))
                      (if code = ''decision_not_found'' then DecisionNotFound code else DecisionConflict code) d))
       | Inr (resolved, d1) \<Rightarrow>
           (case outbox_add sha (resolved_event fr auth now v resolved) d1 of
              Inl e \<Rightarrow> Inl (e, d)
            | Inr d2 \<Rightarrow> Inr (v, d2)))"

definition resolve_work ::
  "(string \<Rightarrow> string) \<Rightarrow> fresh \<Rightarrow> string \<Rightarrow> resolve_decision_command \<Rightarrow> auth_context \<Rightarrow> instant \<Rightarrow> db \<Rightarrow> decision_resolution work" where
  "resolve_work sha fr i c auth now d =
     (case decision_get sha i d of
        Inl e \<Rightarrow> Inl (e, d)
      | Inr None \<Rightarrow>
          deny_resolution sha fr auth i ''decision_not_found'' None (Some (vc_expected_version c))
            (DecisionNotFound ''decision_not_found'') d
      | Inr (Some rec) \<Rightarrow>
          if dq_kind (rec_request rec) = KGovernedApply \<and> ''workspace:apply'' \<notin> set (pr_scopes (ax_principal auth))
          then deny_resolution sha fr auth i ''workspace_apply_scope_required'' (Some rec) (Some (vc_expected_version c))
                 (DecisionAuthorizationError ''workspace_apply_scope_required'') d
          else (case validate_resolution_payload (dq_kind (rec_request rec)) (vc_action c) (vc_payload c) of
                  Inl e \<Rightarrow>
                    deny_resolution sha fr auth i ''invalid_decision_resolution'' (Some rec) (Some (vc_expected_version c))
                      (DecisionValidationError ''invalid_decision_resolution'') d
                | Inr _ \<Rightarrow>
                    (let c' = normalize_tool_resolution (rec_request rec) c
                     in (case resolution_conflict rec c' now of
                           Some reason \<Rightarrow>
                             deny_resolution sha fr auth i (conflict_code reason) (Some rec) (Some (vc_expected_version c'))
                               (DecisionConflict (conflict_code reason)) d
                         | None \<Rightarrow> resolve_accepted sha fr i c' auth now rec d))))"

definition resolve_decision ::
  "(string \<Rightarrow> string) \<Rightarrow> fresh \<Rightarrow> string \<Rightarrow> resolve_decision_command \<Rightarrow> auth_context \<Rightarrow> instant \<Rightarrow> db \<Rightarrow>
   decision_resolution result \<times> db" where
  "resolve_decision sha fr i c auth now d = finish (resolve_work sha fr i c auth now d)"

definition deny_invalid_resolution ::
  "(string \<Rightarrow> string) \<Rightarrow> fresh \<Rightarrow> string \<Rightarrow> auth_context \<Rightarrow> db \<Rightarrow> unit result \<times> db" where
  "deny_invalid_resolution sha fr i auth d =
     (case decision_get sha i d of
        Inl e \<Rightarrow> (Inl e, d)
      | Inr rec \<Rightarrow>
          (case append_audit sha fr (case rec of
                 None \<Rightarrow> resolution_denial sha auth i ''invalid_decision_resolution'' None ''missing'' None None
               | Some x \<Rightarrow> resolution_denial sha auth i ''invalid_decision_resolution'' (Some (dq_kind (rec_request x)))
                            (status_value (dq_status (rec_request x))) None (Some (dq_version (rec_request x)))) d of
             Inl e \<Rightarrow> (Inl e, d)
           | Inr d' \<Rightarrow> (Inr (), d')))"

section \<open>Expiry\<close>

definition expired_event :: "string \<Rightarrow> instant \<Rightarrow> decision_request \<Rightarrow> event_envelope" where
  "expired_event event_id now q =
     \<lparr>ee_id = event_id, ee_type = ''decision.expired'', ee_edict = Some (dq_edict q),
      ee_memorial = Some (dq_memorial q), ee_attempt = 1, ee_timestamp = now,
      ee_producer = ''governance.decision_service.v1'',
      ee_payload = [(''decision_request_id'', JStr (dq_id q)), (''kind'', JStr (kind_value (dq_kind q))),
                    (''request_version'', JInt (dq_version q)), (''schema_version'', JInt 1)]\<rparr>"

text \<open>\<open>event_ids\<close> gives the fresh event identifier drawn for each request.\<close>

fun expire_loop ::
  "(string \<Rightarrow> string) \<Rightarrow> (string \<Rightarrow> string) \<Rightarrow> instant \<Rightarrow> decision_request list \<Rightarrow> db \<Rightarrow> (int \<times> db) result" where
  "expire_loop sha event_ids now [] d = Inr (0, d)"
| "expire_loop sha event_ids now (q # qs) d =
     and_then (repo_expire sha (dq_id q) (dq_version q) now d) (\<lambda>(expired, d1).
       case expired of
         None \<Rightarrow> expire_loop sha event_ids now qs d1
       | Some e \<Rightarrow>
           and_then (outbox_add sha (expired_event (event_ids (dq_id e)) now e) d1) (\<lambda>d2.
           and_then (expire_loop sha event_ids now qs d2) (\<lambda>(n, d3). Inr (n + 1, d3))))"

definition expire_due ::
  "(string \<Rightarrow> string) \<Rightarrow> (string \<Rightarrow> string) \<Rightarrow> instant \<Rightarrow> int \<Rightarrow> db \<Rightarrow> int result \<times> db" where
  "expire_due sha event_ids now limit =
     atomically (\<lambda>d. and_then (list_due sha now limit d) (\<lambda>due. expire_loop sha event_ids now due d))"

end
