(* ===== verification/Decision_Safety.thy ===== *)
theory Decision_Safety
  imports Decision_Service Run_State_Safety
begin

text \<open>
  What the decision authority promises: an identity names one request, a request is closed at most once
  and never after its deadline, denials are audited, and a run waits on a decision exactly as recorded.
\<close>

section \<open>Well-formed decision tables\<close>

definition rec_of :: "db \<Rightarrow> decision_row \<Rightarrow> decision_record" where
  "rec_of d r = \<lparr>rec_request = qr_request r, rec_resolution = row_by dr_id (row_id r) (db_resolutions d)\<rparr>"

definition record_ok :: "(string \<Rightarrow> string) \<Rightarrow> decision_record \<Rightarrow> bool" where
  "record_ok sha x =
     (valid_decision_request sha (rec_request x) \<and>
      (case rec_resolution x of None \<Rightarrow> True | Some v \<Rightarrow> valid_decision_resolution v) \<and> valid_decision_record x)"

definition decisions_ok :: "(string \<Rightarrow> string) \<Rightarrow> db \<Rightarrow> bool" where
  "decisions_ok sha d =
     (distinct (map row_id (db_decisions d)) \<and> distinct (map identity_of (db_decisions d)) \<and>
      distinct (map dr_id (db_resolutions d)) \<and>
      (\<forall>r \<in> set (db_decisions d). has_edict d (dq_edict (qr_request r)) \<and> record_ok sha (rec_of d r)) \<and>
      dr_id ` set (db_resolutions d) \<subseteq> row_id ` set (db_decisions d))"

lemma decisions_okD:
  assumes "decisions_ok sha d"
  shows "distinct (map row_id (db_decisions d))" "distinct (map identity_of (db_decisions d))"
    "r \<in> set (db_decisions d) \<Longrightarrow> has_edict d (dq_edict (qr_request r))"
    "r \<in> set (db_decisions d) \<Longrightarrow> record_ok sha (rec_of d r)"
    "v \<in> set (db_resolutions d) \<Longrightarrow> dr_id v \<in> row_id ` set (db_decisions d)"
    "distinct (map dr_id (db_resolutions d))"
  using assms by (auto simp: decisions_ok_def)

lemma first_of_filter: "first_of (filter p xs) = find p xs"
  by (induction xs) (auto simp: first_of_def)

lemma find_cong_set: "(\<And>x. x \<in> set xs \<Longrightarrow> p x = q x) \<Longrightarrow> find p xs = find q xs"
  by (induction xs) auto

lemma joined_edict: "joined d (\<lambda>_. True) r \<longleftrightarrow> has_edict d (dq_edict (qr_request r))"
  using row_by_None_iff [of ed_id "dq_edict (qr_request r)" "db_edicts d"]
  by (auto simp: joined_def edict_of_def has_edict_iff split: option.splits dest: row_by_SomeD)

lemma decode_record_eq: "decode_record sha d r =
  (if record_ok sha (rec_of d r) then Inr (rec_of d r)
   else Inl (DecisionDecodeError ''persisted decision violates the v1 contract''))"
  by (simp add: decode_record_def record_ok_def rec_of_def Let_def)

lemma decode_record_Inr: "decode_record sha d r = Inr x \<longleftrightarrow> record_ok sha (rec_of d r) \<and> x = rec_of d r"
  by (auto simp: decode_record_eq)

lemma decision_get_eq:
  assumes "decisions_ok sha d"
  shows "decision_get sha i d = Inr (map_option (rec_of d) (row_by row_id i (db_decisions d)))"
proof -
  have "find (\<lambda>r. row_id r = i \<and> joined d (\<lambda>_. True) r) (db_decisions d) = row_by row_id i (db_decisions d)"
    unfolding row_by_def using assms by (intro find_cong_set) (auto simp: joined_edict decisions_okD(3))
  then show ?thesis using decisions_okD(4) [OF assms]
    by (auto simp: decision_get_def first_of_filter decode_first_def decode_record_eq split: option.splits dest: row_by_SomeD)
qed

text \<open>Without the invariant: what a successful read says about the row it found.\<close>

lemma decision_get_SomeD:
  assumes "decision_get sha i d = Inr (Some x)"
  shows "\<exists>r \<in> set (db_decisions d). row_id r = i \<and> x = rec_of d r \<and> record_ok sha x"
  using assms unfolding decision_get_def first_of_filter
  by (auto simp: decode_first_def decode_record_Inr find_Some_iff split: option.splits)

lemma decision_row: "decisions_ok sha d \<Longrightarrow> r \<in> set (db_decisions d) \<Longrightarrow> row_by row_id (row_id r) (db_decisions d) = Some r"
  by (rule row_by_unique) (simp_all add: decisions_okD(1))

lemma same_row_id:
  "decisions_ok sha d \<Longrightarrow> r \<in> set (db_decisions d) \<Longrightarrow> r' \<in> set (db_decisions d) \<Longrightarrow> row_id r = row_id r' \<Longrightarrow> r = r'"
  using decision_row by (metis option.inject)

lemma same_identity:
  "decisions_ok sha d \<Longrightarrow> r \<in> set (db_decisions d) \<Longrightarrow> r' \<in> set (db_decisions d) \<Longrightarrow> identity_of r = identity_of r' \<Longrightarrow> r = r'"
  using row_by_unique [OF decisions_okD(2)] by (metis option.inject)

section \<open>Evolution\<close>

definition decision_moves :: "decision_row \<Rightarrow> decision_row \<Rightarrow> bool" where
  "decision_moves r r' =
     (row_id r' = row_id r \<and> identity_of r' = identity_of r \<and> dq_payload_hash (qr_request r') = dq_payload_hash (qr_request r) \<and>
      (dq_status (qr_request r) \<noteq> Pending \<longrightarrow> r' = r))"

definition decisions_evolve :: "db \<Rightarrow> db \<Rightarrow> bool" where
  "decisions_evolve d d' =
     ((\<forall>r \<in> set (db_decisions d). \<exists>r' \<in> set (db_decisions d'). decision_moves r r') \<and>
      set (db_resolutions d) \<subseteq> set (db_resolutions d'))"

lemma decision_moves_refl [simp]: "decision_moves r r"
  by (simp add: decision_moves_def)

lemma decision_moves_trans: "decision_moves a b \<Longrightarrow> decision_moves b c \<Longrightarrow> decision_moves a c"
  unfolding decision_moves_def by (elim conjE, intro conjI impI) simp_all

lemma decisions_evolve_refl [simp]: "decisions_evolve d d"
  unfolding decisions_evolve_def using decision_moves_refl by blast

lemma decisions_evolve_trans: "decisions_evolve d d' \<Longrightarrow> decisions_evolve d' d'' \<Longrightarrow> decisions_evolve d d''"
  unfolding decisions_evolve_def by (meson decision_moves_trans subset_trans)

text \<open>Work on other tables, as long as no edict disappears.\<close>

definition same_decisions :: "db \<Rightarrow> db \<Rightarrow> bool" where
  "same_decisions d d' =
     (db_decisions d' = db_decisions d \<and> db_resolutions d' = db_resolutions d \<and>
      ed_id ` set (db_edicts d) \<subseteq> ed_id ` set (db_edicts d'))"

lemma rec_of_same: "db_resolutions d' = db_resolutions d \<Longrightarrow> rec_of d' = rec_of d"
  by (rule ext) (simp add: rec_of_def)

lemma same_decisions_keeps:
  assumes "decisions_ok sha d" "same_decisions d d'"
  shows "decisions_ok sha d' \<and> decisions_evolve d d'"
proof -
  have s: "db_decisions d' = db_decisions d" "db_resolutions d' = db_resolutions d"
    and e: "has_edict d i \<Longrightarrow> has_edict d' i" for i
    using assms(2) by (auto simp: same_decisions_def has_edict_iff)
  have "decisions_ok sha d'"
    using assms(1) e unfolding decisions_ok_def s rec_of_same [OF s(2)] by blast
  moreover have "decisions_evolve d d'" unfolding decisions_evolve_def s using decision_moves_refl by blast
  ultimately show ?thesis by simp
qed

section \<open>Closing a request\<close>

lemma closed_row_sel [simp]:
  "row_id (closed_row s t r) = row_id r" "identity_of (closed_row s t r) = identity_of r"
  "dq_edict (qr_request (closed_row s t r)) = dq_edict (qr_request r)"
  "dq_payload_hash (qr_request (closed_row s t r)) = dq_payload_hash (qr_request r)"
  by (simp_all add: closed_row_def row_id_def identity_of_def)

text \<open>One pending row is closed, and possibly its resolution added.\<close>

definition closes :: "decision_row \<Rightarrow> decision_row \<Rightarrow> decision_resolution list \<Rightarrow> db \<Rightarrow> db \<Rightarrow> bool" where
  "closes r r' vs d d' =
     (r \<in> set (db_decisions d) \<and> dq_status (qr_request r) = Pending \<and>
      d' = d\<lparr>db_decisions := update_rows (\<lambda>x. x = r) (\<lambda>_. r') (db_decisions d), db_resolutions := db_resolutions d @ vs\<rparr>)"

lemma closes_keeps:
  assumes ok: "decisions_ok sha d" and cl: "closes r r' vs d d'"
    and r': "row_id r' = row_id r" "identity_of r' = identity_of r" "dq_edict (qr_request r') = dq_edict (qr_request r)"
      "dq_payload_hash (qr_request r') = dq_payload_hash (qr_request r)"
    and new: "record_ok sha (rec_of d' r')" and vs: "dr_id ` set vs \<subseteq> {row_id r}"
    and dist: "distinct (map dr_id (db_resolutions d @ vs))"
  shows "decisions_ok sha d' \<and> decisions_evolve d d' \<and> r' \<in> set (db_decisions d')"
proof -
  have r: "r \<in> set (db_decisions d)" "dq_status (qr_request r) = Pending"
    and d': "db_decisions d' = update_rows (\<lambda>x. x = r) (\<lambda>_. r') (db_decisions d)"
      "db_resolutions d' = db_resolutions d @ vs" "db_edicts d' = db_edicts d"
    using cl by (auto simp: closes_def)
  have set': "set (db_decisions d') = (\<lambda>x. if x = r then r' else x) ` set (db_decisions d)"
    by (simp add: d' set_update_rows)
  have ids: "map row_id (db_decisions d') = map row_id (db_decisions d)"
    "map identity_of (db_decisions d') = map identity_of (db_decisions d)"
    unfolding d' using r' by (auto intro!: map_update_rows)
  have other: "rec_of d' x = rec_of d x" if "x \<in> set (db_decisions d)" "x \<noteq> r" for x
  proof -
    have "row_id x \<noteq> row_id r" using same_row_id [OF ok that(1) r(1)] that(2) by blast
    then have "row_by dr_id (row_id x) vs = None" using vs by (auto simp: row_by_None_iff)
    then show ?thesis by (simp add: rec_of_def d' row_by_append split: option.splits)
  qed
  have edict: "has_edict d' = has_edict d" by (rule ext) (simp add: has_edict_def d')
  have rows: "has_edict d' (dq_edict (qr_request x)) \<and> record_ok sha (rec_of d' x)" if "x \<in> set (db_decisions d')" for x
    using that r' new other decisions_okD(3,4) [OF ok] r(1) unfolding set' edict by auto
  have "row_id ` set (db_decisions d') = row_id ` set (db_decisions d)"
    using arg_cong [OF ids(1), of set] by simp
  then have fk: "dr_id ` set (db_resolutions d') \<subseteq> row_id ` set (db_decisions d')"
    using decisions_okD(5) [OF ok] vs r(1) by (auto simp: d')
  have "decisions_ok sha d'"
    unfolding decisions_ok_def ids using decisions_okD(1,2) [OF ok] rows fk dist [folded d'(2)] by blast
  moreover have "decisions_evolve d d'"
    unfolding decisions_evolve_def set'
  proof (intro conjI ballI)
    fix x assume "x \<in> set (db_decisions d)"
    then show "\<exists>y \<in> (\<lambda>x. if x = r then r' else x) ` set (db_decisions d). decision_moves x y"
      using r r' by (intro bexI [of _ "if x = r then r' else x"]) (auto simp: decision_moves_def)
  qed (simp add: d')
  moreover have "r' \<in> set (db_decisions d')" using r(1) unfolding set' by force
  ultimately show ?thesis by simp
qed

lemma update_one_pending:
  assumes ok: "decisions_ok sha d" and n: "update_decisions (\<lambda>r. pending_at i v r \<and> g r) f d = (n, d1)"
  shows "(\<exists>r \<in> set (db_decisions d). pending_at i v r \<and> g r \<and> n = 1 \<and>
            d1 = d\<lparr>db_decisions := update_rows (\<lambda>x. x = r) f (db_decisions d)\<rparr>) \<or>
         (n = 0 \<and> d1 = d \<and> (\<forall>r \<in> set (db_decisions d). \<not> (pending_at i v r \<and> g r)))"
proof -
  let ?p = "\<lambda>r. pending_at i v r \<and> g r"
  have pe: "?p = (\<lambda>r. row_id r = i \<and> (dq_status (qr_request r) = Pending \<and> dq_version (qr_request r) = v \<and> g r))"
    by (rule ext) (auto simp: pending_at_def)
  have n': "n = count_rows ?p (db_decisions d)" and d1: "d1 = d\<lparr>db_decisions := update_rows ?p f (db_decisions d)\<rparr>"
    using n by (auto simp: update_decisions_def)
  show ?thesis
  proof (cases "\<exists>r \<in> set (db_decisions d). ?p r")
    case True
    then obtain r where r: "r \<in> set (db_decisions d)" "?p r" by blast
    have row: "row_by row_id i (db_decisions d) = Some r" using decision_row [OF ok r(1)] r(2) by (simp add: pending_at_def)
    have "n = 1" using row r(2) unfolding n' pe count_rows_by_key [OF decisions_okD(1) [OF ok]] by (simp add: pending_at_def)
    moreover have "?p x \<longleftrightarrow> x = r" if "x \<in> set (db_decisions d)" for x
      using same_row_id [OF ok that r(1)] r(2) by (auto simp: pending_at_def)
    then have "update_rows ?p f (db_decisions d) = update_rows (\<lambda>x. x = r) f (db_decisions d)"
      by (simp add: update_rows_def cong: map_cong)
    ultimately show ?thesis using r d1 by auto
  next
    case False
    then have z: "count_rows ?p (db_decisions d) = 0" by (simp add: count_rows_def filter_empty_conv)
    then show ?thesis using False n' d1 update_rows_none [OF z] by auto
  qed
qed

lemma insert_resolution_Inr:
  "insert_resolution v d = Inr d' \<Longrightarrow>
     dr_id v \<notin> dr_id ` set (db_resolutions d) \<and> d' = d\<lparr>db_resolutions := db_resolutions d @ [v]\<rparr>"
  by (auto simp: insert_resolution_def list_ex_iff split: if_splits)

lemma repo_resolve_Inr:
  assumes ok: "decisions_ok sha d" and res: "repo_resolve sha v ev now d = Inr (x, d')"
  shows "\<exists>r. closes r (closed_row Resolved (dr_at v) r) [v] d d' \<and> row_id r = dr_id v \<and>
             dq_version (qr_request r) = ev \<and> now < dq_expires (qr_request r) \<and>
             validate_resolution_payload (dq_kind (qr_request r)) (dr_action v) (dr_payload v) = Inr () \<and>
             x = rec_of d' (closed_row Resolved (dr_at v) r) \<and> record_ok sha x \<and> rec_resolution x = Some v \<and>
             dr_id v \<notin> dr_id ` set (db_resolutions d)"
proof -
  let ?g = "\<lambda>r. now < dq_expires (qr_request r)" and ?f = "closed_row Resolved (dr_at v)"
  obtain rec where get: "decision_get sha (dr_id v) d = Inr (Some rec)"
    and pay: "validate_resolution_payload (dq_kind (rec_request rec)) (dr_action v) (dr_payload v) = Inr ()"
    and guard: "resolve_guard (rec_request rec) ev now = None"
    using res by (auto simp: repo_resolve_def split: option.splits)
  obtain n d1 where upd: "update_decisions (\<lambda>r. pending_at (dr_id v) ev r \<and> ?g r) ?f d = (n, d1)" by fastforce
  have n: "n = 1" and rest: "\<exists>d2. insert_resolution v d1 = Inr d2 \<and> decision_get sha (dr_id v) d2 = Inr (Some x) \<and> d' = d2"
    using res get pay guard upd by (auto simp: repo_resolve_def split: if_splits option.splits)
  from update_one_pending [OF ok upd] n obtain r where r: "r \<in> set (db_decisions d)" "pending_at (dr_id v) ev r" "?g r"
    and d1: "d1 = d\<lparr>db_decisions := update_rows (\<lambda>y. y = r) ?f (db_decisions d)\<rparr>" by auto
  from rest obtain d2 where ins: "insert_resolution v d1 = Inr d2" and get2: "decision_get sha (dr_id v) d' = Inr (Some x)"
    and d2: "d' = d2" by blast
  from insert_resolution_Inr [OF ins] have fresh: "dr_id v \<notin> dr_id ` set (db_resolutions d)"
    and d': "d' = d1\<lparr>db_resolutions := db_resolutions d @ [v]\<rparr>" by (simp_all add: d1 d2)
  have "update_rows (\<lambda>y. y = r) ?f (db_decisions d) = update_rows (\<lambda>y. y = r) (\<lambda>_. ?f r) (db_decisions d)"
    by (auto simp: update_rows_def)
  then have cl: "closes r (?f r) [v] d d'" using r by (simp add: closes_def d' d1 pending_at_def)
  have ids: "map row_id (db_decisions d') = map row_id (db_decisions d)"
    unfolding d' d1 by (simp add: map_update_rows)
  from decision_get_SomeD [OF get2] obtain y where y: "y \<in> set (db_decisions d')" "row_id y = dr_id v"
    and x: "x = rec_of d' y" "record_ok sha x" by blast
  have "?f r \<in> set (db_decisions d')" using r(1) by (force simp: d' d1 set_update_rows)
  moreover have "row_id (?f r) = row_id y" using r(2) y(2) by (simp add: pending_at_def)
  moreover have "distinct (map row_id (db_decisions d'))" unfolding ids by (rule decisions_okD(1) [OF ok])
  ultimately have y': "y = ?f r" using y(1) row_by_unique by (metis option.inject)
  have "row_by dr_id (dr_id v) (db_resolutions d) = None" using fresh by (simp add: row_by_None_iff)
  then have "row_by dr_id (dr_id v) (db_resolutions d') = Some v" by (simp add: d' row_by_append)
  moreover have rid: "row_id r = dr_id v" using r(2) by (simp add: pending_at_def)
  ultimately have "rec_resolution x = Some v" by (simp add: x(1) y' rec_of_def)
  moreover have "rec = rec_of d r" using get decision_row [OF ok r(1)] rid by (simp add: decision_get_eq [OF ok])
  then have "validate_resolution_payload (dq_kind (qr_request r)) (dr_action v) (dr_payload v) = Inr ()"
    using pay by (simp add: rec_of_def)
  ultimately show ?thesis using cl rid r fresh x y' by (auto simp: pending_at_def intro!: exI [of _ r])
qed

lemma repo_expire_Inr:
  assumes ok: "decisions_ok sha d" and ex: "repo_expire sha i ev now d = Inr (res, d')"
  shows "case res of
           None \<Rightarrow> d' = d
         | Some q \<Rightarrow> \<exists>r. closes r (closed_row Expired now r) [] d d' \<and> row_id r = i \<and> dq_version (qr_request r) = ev \<and>
                        dq_expires (qr_request r) \<le> now \<and> q = qr_request (closed_row Expired now r) \<and>
                        record_ok sha (rec_of d' (closed_row Expired now r))"
proof -
  let ?g = "\<lambda>r. dq_expires (qr_request r) \<le> now" and ?f = "closed_row Expired now"
  obtain n d1 where upd: "update_decisions (\<lambda>r. pending_at i ev r \<and> ?g r) ?f d = (n, d1)" by fastforce
  from update_one_pending [OF ok upd] show ?thesis
  proof
    assume "n = 0 \<and> d1 = d \<and> (\<forall>r \<in> set (db_decisions d). \<not> (pending_at i ev r \<and> ?g r))"
    then show ?thesis using ex upd by (auto simp: repo_expire_def)
  next
    assume "\<exists>r \<in> set (db_decisions d). pending_at i ev r \<and> ?g r \<and> n = 1 \<and>
              d1 = d\<lparr>db_decisions := update_rows (\<lambda>x. x = r) ?f (db_decisions d)\<rparr>"
    then obtain r where r: "r \<in> set (db_decisions d)" "pending_at i ev r" "?g r" and n: "n = 1"
      and d1: "d1 = d\<lparr>db_decisions := update_rows (\<lambda>x. x = r) ?f (db_decisions d)\<rparr>" by blast
    obtain x where get: "decision_get sha i d1 = Inr (Some x)" and res: "res = Some (rec_request x)" "d' = d1"
      using ex upd n by (auto simp: repo_expire_def split: option.splits)
    have ids: "distinct (map row_id (db_decisions d1))" unfolding d1 using decisions_okD(1) [OF ok] by (simp add: map_update_rows)
    from decision_get_SomeD [OF get] obtain y where y: "y \<in> set (db_decisions d1)" "row_id y = i"
      and x: "x = rec_of d1 y" "record_ok sha x" by blast
    have "?f r \<in> set (db_decisions d1)" using r(1) by (force simp: d1 set_update_rows)
    moreover have "row_id (?f r) = row_id y" using r(2) y(2) by (simp add: pending_at_def)
    ultimately have y': "y = ?f r" using y(1) row_by_unique [OF ids] by (metis option.inject)
    have "update_rows (\<lambda>y. y = r) ?f (db_decisions d) = update_rows (\<lambda>y. y = r) (\<lambda>_. ?f r) (db_decisions d)"
      by (auto simp: update_rows_def)
    then have "closes r (?f r) [] d d'" using r by (simp add: closes_def res d1 pending_at_def)
    then show ?thesis using res r x y' by (auto simp: pending_at_def rec_of_def intro!: exI [of _ r])
  qed
qed

section \<open>Adding a request\<close>

definition adds :: "decision_request \<Rightarrow> db \<Rightarrow> db \<Rightarrow> bool" where
  "adds q d d' =
     (\<exists>c. d' = d\<lparr>db_decisions := db_decisions d @ [\<lparr>qr_request = q, qr_correlation = c\<rparr>]\<rparr> \<and>
          dq_id q \<notin> row_id ` set (db_decisions d) \<and>
          (dq_memorial q, dq_kind q, dq_key q) \<notin> identity_of ` set (db_decisions d) \<and> has_edict d (dq_edict q))"

lemma add_or_get_Inr:
  assumes "add_or_get sha q c d = Inr (q', d')"
  shows "dq_status q = Pending \<and> dq_version q = 1 \<and> memorial_bound d (dq_memorial q) (dq_edict q) \<and>
         ((d' = d \<and> (\<exists>r \<in> set (db_decisions d). identity_of r = (dq_memorial q, dq_kind q, dq_key q) \<and>
                        qr_request r = q' \<and> dq_payload_hash q' = dq_payload_hash q)) \<or>
          (q' = q \<and> adds q d d'))"
proof -
  have ex: "\<exists>r \<in> set (db_decisions d). identity_of r = (dq_memorial q, dq_kind q, dq_key q) \<and> qr_request r = rec_request x"
    if "existing_request sha q d = Inr (Some x)" for x
    using that unfolding existing_request_def first_of_filter
    by (auto simp: decode_first_def decode_record_Inr rec_of_def find_Some_iff split: option.splits)
  let ?ok = "dq_status q = Pending \<and> dq_version q = 1 \<and> memorial_bound d (dq_memorial q) (dq_edict q)"
  have same: "d' = d \<and> (\<exists>r \<in> set (db_decisions d). identity_of r = (dq_memorial q, dq_kind q, dq_key q) \<and>
       qr_request r = q' \<and> dq_payload_hash q' = dq_payload_hash q)"
    if "existing_request sha q d = Inr (Some x)" "and_then (same_payload (rec_request x) q) (\<lambda>e. Inr (e, d)) = Inr (q', d')" for x
    using ex [OF that(1)] that(2) by (auto simp: same_payload_def split: if_splits)
  have ok: ?ok using assms by (auto simp: add_or_get_def require_decision_memorial_def)
  obtain e where e: "existing_request sha q d = Inr e" using assms by (auto simp: add_or_get_def)
  show ?thesis
  proof (cases e)
    case (Some x)
    then have "and_then (same_payload (rec_request x) q) (\<lambda>e. Inr (e, d)) = Inr (q', d')"
      using assms e by (auto simp: add_or_get_def)
    with ok same e Some show ?thesis by blast
  next
    case None
    then obtain k where ins: "insert_decision \<lparr>qr_request = q, qr_correlation = Some k\<rparr> d = Inr d'" and q': "q' = q"
      using assms e by (auto simp: add_or_get_def catch_integrity_Inr)
    have "adds q d d'"
      using ins unfolding insert_decision_def adds_def
      by (auto simp: list_ex_iff row_id_def identity_of_def image_iff split: if_split_asm)
    with ok q' show ?thesis by blast
  qed
qed

lemma adds_keeps:
  assumes ok: "decisions_ok sha d" and ad: "adds q d d'" and q: "valid_decision_request sha q" "dq_status q = Pending"
  shows "decisions_ok sha d' \<and> decisions_evolve d d' \<and> (\<exists>r \<in> set (db_decisions d'). qr_request r = q)"
proof -
  obtain c where d': "d' = d\<lparr>db_decisions := db_decisions d @ [\<lparr>qr_request = q, qr_correlation = c\<rparr>]\<rparr>"
    and new: "dq_id q \<notin> row_id ` set (db_decisions d)"
      "(dq_memorial q, dq_kind q, dq_key q) \<notin> identity_of ` set (db_decisions d)" and e: "has_edict d (dq_edict q)"
    using ad by (auto simp: adds_def)
  let ?row = "\<lparr>qr_request = q, qr_correlation = c\<rparr>"
  have res: "rec_of d' = rec_of d" by (rule rec_of_same) (simp add: d')
  have edict: "has_edict d' = has_edict d" by (rule ext) (simp add: has_edict_def d')
  have "dq_id q \<notin> dr_id ` set (db_resolutions d)" using new(1) decisions_okD(5) [OF ok] by auto
  then have "rec_of d ?row = \<lparr>rec_request = q, rec_resolution = None\<rparr>"
    by (simp add: rec_of_def row_id_def row_by_None_iff)
  then have "record_ok sha (rec_of d ?row)" using q by (simp add: record_ok_def valid_decision_record_def)
  moreover have "distinct (map row_id (db_decisions d'))" "distinct (map identity_of (db_decisions d'))"
    using decisions_okD(1,2) [OF ok] new by (simp_all add: d' row_id_def identity_of_def)
  moreover have "\<forall>r \<in> set (db_decisions d). has_edict d (dq_edict (qr_request r)) \<and> record_ok sha (rec_of d r)"
    "dr_id ` set (db_resolutions d) \<subseteq> row_id ` set (db_decisions d)" "distinct (map dr_id (db_resolutions d))"
    using ok unfolding decisions_ok_def by blast+
  ultimately have "decisions_ok sha d'"
    unfolding decisions_ok_def res edict using e by (auto simp: d')
  moreover have "decisions_evolve d d'"
  proof -
    have "set (db_decisions d) \<subseteq> set (db_decisions d')" "db_resolutions d' = db_resolutions d" by (auto simp: d')
    then show ?thesis unfolding decisions_evolve_def using decision_moves_refl by (metis subset_iff order_refl)
  qed
  ultimately show ?thesis by (auto simp: d')
qed

section \<open>The other effects of the service\<close>

lemma append_audit_Inr:
  assumes "append_audit sha fr req d = Inr d'"
  shows "\<exists>row. d' = d\<lparr>db_audit := db_audit d @ [row]\<rparr> \<and> au_action row = ar_action req \<and> au_outcome row = ar_outcome req \<and>
               au_reason row = ar_reason req \<and> au_actor row = ar_actor req \<and> au_subject row = ar_subject req"
proof -
  obtain event rows where ap: "append_system_audit sha (fr_audit fr) (fr_audit_time fr) req (db_audit d) = Inr (event, rows)"
    and d': "d' = d\<lparr>db_audit := rows\<rparr>" using assms by (auto simp: append_audit_def)
  obtain n prev where "insert_audit (new_audit_row sha (fr_audit fr) (fr_audit_time fr) req n prev) (db_audit d) = Inr rows"
    using ap unfolding append_system_audit_def by (auto split: option.splits prod.splits)
  then have "rows = db_audit d @ [new_audit_row sha (fr_audit fr) (fr_audit_time fr) req n prev]"
    by (auto simp: insert_audit_def split: if_splits)
  then show ?thesis using d' by (auto simp: new_audit_row_def Let_def)
qed

definition audited :: "string \<Rightarrow> string \<Rightarrow> db \<Rightarrow> db \<Rightarrow> bool" where
  "audited action reason d d' =
     (\<exists>row. d' = d\<lparr>db_audit := db_audit d @ [row]\<rparr> \<and> au_action row = action \<and> au_outcome row = ''denied'' \<and> au_reason row = reason)"

lemma deny_with_cases:
  assumes "deny_with sha fr req e d = Inl (e', d')" "ar_outcome req = ''denied''"
  shows "(e' = e \<and> audited (ar_action req) (ar_reason req) d d') \<or> d' = d"
  using assms append_audit_Inr [of sha fr req d d']
  by (auto simp: deny_with_def audited_def split: sum.splits)

lemma deny_with_not_Inr [simp]: "deny_with sha fr req e d \<noteq> Inr x"
  by (auto simp: deny_with_def split: sum.splits)

lemma same_decisions_audit: "audited a r d d' \<Longrightarrow> same_decisions d d'"
  by (auto simp: audited_def same_decisions_def)

lemma same_decisions_refl [simp]: "same_decisions d d"
  by (simp add: same_decisions_def)

lemma outbox_add_same: "outbox_add sha e d = Inr d' \<Longrightarrow> same_decisions d d'"
  using outbox_add_Inr [of sha e d d'] by (auto simp: same_decisions_def)

lemma swap_only_states:
  assumes "swap_state sha redact w c1 c2 s v d = Inr (t, d')"
  shows "\<exists>rows. d' = d\<lparr>db_run_states := rows\<rparr>"
proof -
  obtain n where "update_run_states (\<lambda>r. row_memorial r = rs_memorial (s\<lparr>rs_version := v + 1\<rparr>) \<and> rs_version (rr_state r) = v)
      (stored_state w (s\<lparr>rs_version := v + 1\<rparr>)) d = Inr (n, d')"
    using assms unfolding swap_state_def Let_def by (auto split: if_split_asm option.split_asm)
  then show ?thesis unfolding update_run_states_def by (auto split: if_split_asm)
qed

lemma compare_and_swap_same: "compare_and_swap sha redact secret s v d = Inr (t, d') \<Longrightarrow> \<exists>rows. d' = d\<lparr>db_run_states := rows\<rparr>"
  unfolding compare_and_swap_def by (auto split: option.split_asm dest: swap_only_states)

lemma release_Inr:
  assumes "release_body sha redact secret i allowed d = Inr (t, d')"
  shows "\<exists>rec current. decision_get sha i d = Inr (Some rec) \<and> dq_kind (rec_request rec) \<noteq> KGovernedApply \<and>
           dq_status (rec_request rec) \<in> allowed \<and> load sha redact (dq_memorial (rec_request rec)) d = Inr (Some current) \<and>
           ((rs_phase current = terminal_phase rec \<and> cont_pending (rs_continuation current) = None \<and>
             cont_resolved (rs_continuation current) = Some i \<and> t = current \<and> d' = d) \<or>
            (rs_phase current = PWaitingDecision \<and> cont_pending (rs_continuation current) = Some i \<and>
             compare_and_swap sha redact secret (released_state rec current) (rs_version current) d = Inr (t, d')))"
proof -
  obtain rec where get: "decision_get sha i d = Inr (Some rec)"
    using assms unfolding release_body_def by (cases "decision_get sha i d") (auto split: option.split_asm)
  have kind: "dq_kind (rec_request rec) \<noteq> KGovernedApply" "dq_status (rec_request rec) \<in> allowed"
    using assms get by (auto simp: release_body_def split: if_split_asm)
  obtain current where cur: "load sha redact (dq_memorial (rec_request rec)) d = Inr (Some current)"
    using assms get kind unfolding release_body_def
    by (cases "load sha redact (dq_memorial (rec_request rec)) d") (auto split: option.split_asm)
  show ?thesis using assms get kind cur by (auto simp: release_body_def split: if_split_asm)
qed

lemma release_same:
  "release_body sha redact secret i allowed d = Inr (t, d') \<Longrightarrow> same_decisions d d'"
  using release_Inr [of sha redact secret i allowed d t d'] by (auto simp: same_decisions_def dest!: compare_and_swap_same)

definition next_waiting :: "run_state \<Rightarrow> run_state \<Rightarrow> run_state" where
  "next_waiting bound current =
     bound\<lparr>rs_created := rs_created current, rs_updated := max (rs_updated bound) (rs_updated current),
           rs_version := rs_version current\<rparr>"

lemma store_waiting_Inr:
  assumes "store_waiting sha redact secret saved bound d = Inr (u, d')"
  shows "(load sha redact (rs_memorial bound) d = Inr None \<and> (\<exists>t. create sha redact secret bound d = Inr (t, d'))) \<or>
         (\<exists>current. load sha redact (rs_memorial bound) d = Inr (Some current) \<and>
            ((already_waiting saved current bound \<and> d' = d) \<or>
             (resumable current \<and> (\<exists>t. compare_and_swap sha redact secret (next_waiting bound current) (rs_version current) d = Inr (t, d')))))"
proof -
  obtain loaded where l: "load sha redact (rs_memorial bound) d = Inr loaded"
    using assms by (auto simp: store_waiting_def)
  show ?thesis
  proof (cases loaded)
    case None
    then show ?thesis using assms l by (auto simp: store_waiting_def)
  next
    case (Some current)
    then show ?thesis using assms l
      by (auto simp: store_waiting_def next_waiting_def split: if_split_asm)
  qed
qed

lemma store_waiting_same:
  assumes "store_waiting sha redact secret saved bound d = Inr (u, d')"
  shows "same_decisions d d'"
proof -
  have "\<exists>rows. d' = d\<lparr>db_run_states := rows\<rparr>" if "create sha redact secret bound d = Inr (t, d')" for t
    using create_Inr [OF that] by blast
  then have "d' = d \<or> (\<exists>rows. d' = d\<lparr>db_run_states := rows\<rparr>)"
    using store_waiting_Inr [OF assms] compare_and_swap_same by blast
  then show ?thesis by (auto simp: same_decisions_def)
qed

section \<open>Steps of the decision authority\<close>

lemma new_request_Inr:
  assumes "new_request sha fr c auth now = Inr q"
  shows "valid_decision_request sha q \<and> dq_status q = Pending \<and> dq_version q = 1 \<and> dq_id q = fr_decision fr \<and>
         dq_kind q = rc_kind c \<and> dq_edict q = rc_edict c \<and> dq_memorial q = rc_memorial c \<and> dq_key q = rc_key c \<and>
         dq_payload q = rc_payload c \<and> dq_expires q = rc_expires c \<and> dq_created q = now \<and> now < rc_expires c"
  using assms by (auto simp: new_request_def Let_def split: if_splits)

lemma add_or_get_keeps:
  assumes "decisions_ok sha d" "valid_decision_request sha q" "add_or_get sha q c d = Inr (q', d')"
  shows "decisions_ok sha d' \<and> decisions_evolve d d' \<and> (\<exists>r \<in> set (db_decisions d'). qr_request r = q')"
  using add_or_get_Inr [OF assms(3)] adds_keeps [OF assms(1) _ assms(2)] assms(1) by auto

lemma add_request_keeps:
  assumes ok: "decisions_ok sha d" and q: "valid_decision_request sha q"
  shows "add_request sha fr q c auth d = Inr (q', d') \<Longrightarrow>
           decisions_ok sha d' \<and> decisions_evolve d d' \<and> (\<exists>r \<in> set (db_decisions d'). qr_request r = q')"
    and "add_request sha fr q c auth d = Inl (e, d') \<Longrightarrow>
           same_decisions d d' \<and> (d' = d \<or> e = DecisionConflict ''decision_identity_conflict'' \<and>
             audited ''decision.request.denied'' ''decision_identity_conflict'' d d')"
proof -
  show "decisions_ok sha d' \<and> decisions_evolve d d' \<and> (\<exists>r \<in> set (db_decisions d'). qr_request r = q')"
    if "add_request sha fr q c auth d = Inr (q', d')"
    using that add_or_get_keeps [OF ok q] by (auto simp: add_request_def split: sum.splits option.splits)
  show "same_decisions d d' \<and> (d' = d \<or> e = DecisionConflict ''decision_identity_conflict'' \<and>
             audited ''decision.request.denied'' ''decision_identity_conflict'' d d')"
    if "add_request sha fr q c auth d = Inl (e, d')"
  proof (cases "add_or_get sha q (Some (ax_correlation auth)) d")
    case (Inl x)
    show ?thesis
    proof (cases "identity_conflict x")
      case None
      then show ?thesis using that Inl by (simp add: add_request_def)
    next
      case (Some existing)
      let ?r = "request_denial sha c auth q existing"
      have "deny_with sha fr ?r (DecisionConflict ''decision_identity_conflict'') d = (Inl (e, d') :: decision_request work)"
        using that Inl Some by (simp add: add_request_def)
      then have "(e = DecisionConflict ''decision_identity_conflict'' \<and> audited (ar_action ?r) (ar_reason ?r) d d') \<or> d' = d"
        by (rule deny_with_cases) (simp add: request_denial_def denial_request_def)
      then show ?thesis using same_decisions_audit by (auto simp: request_denial_def denial_request_def)
    qed
  qed (use that in \<open>simp add: add_request_def\<close>)
qed

lemma deny_resolution_cases:
  assumes "deny_resolution sha fr auth i reason rec ev e d = Inl (e', d')"
  shows "d' = d \<or> (e' = e \<and> audited ''decision.resolve.denied'' reason d d')"
  using deny_with_cases [OF assms [unfolded deny_resolution_def]]
  by (cases rec) (auto simp: resolution_denial_def denial_request_def)

lemma deny_resolution_not_Inr [simp]: "deny_resolution sha fr auth i reason rec ev e d \<noteq> Inr x"
  by (simp add: deny_resolution_def)

definition denial_of :: "string \<Rightarrow> exn set" where
  "denial_of reason =
     {DecisionNotFound reason, DecisionConflict reason, DecisionValidationError reason, DecisionAuthorizationError reason}"

definition resolve_denied :: "exn \<Rightarrow> db \<Rightarrow> db \<Rightarrow> bool" where
  "resolve_denied e d d' = (d' = d \<or> (\<exists>reason. e \<in> denial_of reason \<and> audited ''decision.resolve.denied'' reason d d'))"

lemma deny_resolution_denied:
  assumes "deny_resolution sha fr auth i reason rec ev x d = Inl (e, d')" "x \<in> denial_of reason"
  shows "resolve_denied e d d'"
  using deny_resolution_cases [OF assms(1)] assms(2) by (auto simp: resolve_denied_def)

lemma resolve_accepted_Inl:
  assumes "resolve_accepted sha fr i c auth now rec d = Inl (e, d')"
  shows "resolve_denied e d d'"
proof (cases "resolution_of i c auth now")
  case (Inl x)
  then show ?thesis using assms by (simp add: resolve_accepted_def reading_def resolve_denied_def)
next
  case (Inr v)
  show ?thesis
  proof (cases "repo_resolve sha v (vc_expected_version c) now d")
    case x: (Inl x)
    show ?thesis
    proof (cases "state_conflict x")
      case None
      then show ?thesis using assms Inr x by (simp add: resolve_accepted_def reading_def resolve_denied_def)
    next
      case (Some reason)
      let ?code = "if reason = ''not_found'' then ''decision_not_found'' else conflict_code reason"
      have "deny_resolution sha fr auth i ?code (Some rec) (Some (vc_expected_version c))
          (if ?code = ''decision_not_found'' then DecisionNotFound ?code else DecisionConflict ?code) d = (Inl (e, d') :: decision_resolution work)"
        using assms Inr x Some by (simp add: resolve_accepted_def reading_def Let_def)
      then show ?thesis by (rule deny_resolution_denied) (simp add: denial_of_def)
    qed
  next
    case y: (Inr y)
    then show ?thesis using assms Inr
      by (auto simp: resolve_accepted_def reading_def resolve_denied_def split: prod.split_asm sum.split_asm)
  qed
qed

lemma resolve_Inl:
  assumes "resolve_work sha fr i c auth now d = Inl (e, d')"
  shows "resolve_denied e d d'"
proof (cases "decision_get sha i d")
  case (Inl x)
  then show ?thesis using assms by (simp add: resolve_work_def resolve_denied_def)
next
  case found: (Inr found)
  show ?thesis
  proof (cases found)
    case None
    then have "deny_resolution sha fr auth i ''decision_not_found'' None (Some (vc_expected_version c))
        (DecisionNotFound ''decision_not_found'') d = (Inl (e, d') :: decision_resolution work)"
      using assms found by (simp add: resolve_work_def)
    then show ?thesis by (rule deny_resolution_denied) (simp add: denial_of_def)
  next
    case (Some rec)
    let ?scope = "dq_kind (rec_request rec) = KGovernedApply \<and> ''workspace:apply'' \<notin> set (pr_scopes (ax_principal auth))"
    let ?pay = "validate_resolution_payload (dq_kind (rec_request rec)) (vc_action c) (vc_payload c)"
    let ?c = "normalize_tool_resolution (rec_request rec) c"
    consider (scope) ?scope | (pay) x where "\<not> ?scope" "?pay = Inl x"
      | (conflict) reason where "\<not> ?scope" "?pay = Inr ()" "resolution_conflict rec ?c now = Some reason"
      | (accepted) "\<not> ?scope" "?pay = Inr ()" "resolution_conflict rec ?c now = None"
      by (cases ?scope; cases ?pay; cases "resolution_conflict rec ?c now") auto
    then show ?thesis
    proof cases
      case scope
      then have "deny_resolution sha fr auth i ''workspace_apply_scope_required'' (Some rec) (Some (vc_expected_version c))
          (DecisionAuthorizationError ''workspace_apply_scope_required'') d = (Inl (e, d') :: decision_resolution work)"
        using assms found Some by (simp add: resolve_work_def)
      then show ?thesis by (rule deny_resolution_denied) (simp add: denial_of_def)
    next
      case pay
      then have "deny_resolution sha fr auth i ''invalid_decision_resolution'' (Some rec) (Some (vc_expected_version c))
          (DecisionValidationError ''invalid_decision_resolution'') d = (Inl (e, d') :: decision_resolution work)"
        using assms found Some by (auto simp: resolve_work_def split: if_split_asm)
      then show ?thesis by (rule deny_resolution_denied) (simp add: denial_of_def)
    next
      case conflict
      then have "deny_resolution sha fr auth i (conflict_code reason) (Some rec) (Some (vc_expected_version ?c))
          (DecisionConflict (conflict_code reason)) d = (Inl (e, d') :: decision_resolution work)"
        using assms found Some by (auto simp: resolve_work_def Let_def split: if_split_asm)
      then show ?thesis by (rule deny_resolution_denied) (simp add: denial_of_def)
    next
      case accepted
      then show ?thesis using assms found Some resolve_accepted_Inl by (auto simp: resolve_work_def Let_def split: if_split_asm)
    qed
  qed
qed

lemma normalize_version [simp]:
  "vc_expected_version (normalize_tool_resolution q c) = vc_expected_version c"
  "vc_action (normalize_tool_resolution q c) = vc_action c" "vc_reason (normalize_tool_resolution q c) = vc_reason c"
  by (simp_all add: normalize_tool_resolution_def Let_def)

definition resolution_record :: "string \<Rightarrow> resolve_decision_command \<Rightarrow> auth_context \<Rightarrow> instant \<Rightarrow> decision_resolution" where
  "resolution_record i c auth now =
     \<lparr>dr_id = i, dr_action = vc_action c, dr_reason = vc_reason c, dr_payload = vc_payload c,
      dr_actor_id = pr_id (ax_principal auth), dr_actor_name = pr_display_name (ax_principal auth), dr_at = now\<rparr>"

lemma resolution_of_Inr: "resolution_of i c auth now = Inr v \<Longrightarrow> v = resolution_record i c auth now"
  by (auto simp: resolution_of_def resolution_record_def Let_def split: if_splits)

lemma resolve_accepted_Inr:
  assumes "resolve_accepted sha fr i c auth now rec d = Inr (v, d')"
  shows "v = resolution_record i c auth now \<and>
         (\<exists>y d1. repo_resolve sha v (vc_expected_version c) now d = Inr (y, d1) \<and>
                 outbox_add sha (resolved_event fr auth now v y) d1 = Inr d')"
proof (cases "resolution_of i c auth now")
  case (Inl e)
  then show ?thesis using assms by (simp add: resolve_accepted_def reading_def)
next
  case (Inr w)
  show ?thesis
  proof (cases "repo_resolve sha w (vc_expected_version c) now d")
    case (Inl e)
    then show ?thesis using assms \<open>resolution_of i c auth now = Inr w\<close>
      by (cases "state_conflict e") (simp_all add: resolve_accepted_def reading_def Let_def)
  next
    case (Inr p)
    obtain y d1 where p: "p = (y, d1)" by fastforce
    show ?thesis using assms \<open>resolution_of i c auth now = Inr w\<close> Inr p resolution_of_Inr
      by (cases "outbox_add sha (resolved_event fr auth now w y) d1") (auto simp: resolve_accepted_def reading_def)
  qed
qed

lemma resolve_Inr:
  assumes ok: "decisions_ok sha d" and res: "resolve_work sha fr i c auth now d = Inr (v, d')"
  shows "\<exists>r d1 x. closes r (closed_row Resolved now r) [v] d d1 \<and> row_id r = i \<and>
           dq_version (qr_request r) = vc_expected_version c \<and> now < dq_expires (qr_request r) \<and>
           (dq_kind (qr_request r) = KGovernedApply \<longrightarrow> ''workspace:apply'' \<in> set (pr_scopes (ax_principal auth))) \<and>
           v = resolution_record i (normalize_tool_resolution (qr_request r) c) auth now \<and>
           x = rec_of d1 (closed_row Resolved now r) \<and> record_ok sha x \<and> rec_resolution x = Some v \<and>
           outbox_add sha (resolved_event fr auth now v x) d1 = Inr d' \<and> dr_id v \<notin> dr_id ` set (db_resolutions d)"
proof -
  obtain rec where get: "decision_get sha i d = Inr (Some rec)"
    using res unfolding resolve_work_def by (cases "decision_get sha i d") (auto split: option.split_asm)
  let ?c = "normalize_tool_resolution (rec_request rec) c"
  have scope: "dq_kind (rec_request rec) = KGovernedApply \<longrightarrow> ''workspace:apply'' \<in> set (pr_scopes (ax_principal auth))"
    and acc: "resolve_accepted sha fr i ?c auth now rec d = Inr (v, d')"
    using res get unfolding resolve_work_def Let_def by (auto split: if_split_asm sum.split_asm option.split_asm)
  obtain y d1 where v: "v = resolution_record i ?c auth now" and rr: "repo_resolve sha v (vc_expected_version c) now d = Inr (y, d1)"
    and out: "outbox_add sha (resolved_event fr auth now v y) d1 = Inr d'"
    using resolve_accepted_Inr [OF acc] by auto
  have vid: "dr_id v = i" "dr_at v = now" by (simp_all add: v resolution_record_def)
  from repo_resolve_Inr [OF ok rr] obtain r where r: "closes r (closed_row Resolved now r) [v] d d1" "row_id r = i"
    "dq_version (qr_request r) = vc_expected_version c" "now < dq_expires (qr_request r)"
    "y = rec_of d1 (closed_row Resolved now r)" "record_ok sha y" "rec_resolution y = Some v"
    "dr_id v \<notin> dr_id ` set (db_resolutions d)" unfolding vid by blast
  have "r \<in> set (db_decisions d)" using r(1) by (simp add: closes_def)
  then have "rec_request rec = qr_request r"
    using get decision_row [OF ok] r(2) by (auto simp: decision_get_eq [OF ok] rec_of_def)
  then show ?thesis using r scope v out by auto
qed

lemma resolve_keeps:
  assumes ok: "decisions_ok sha d" and res: "resolve_work sha fr i c auth now d = Inr (v, d')"
  shows "decisions_ok sha d' \<and> decisions_evolve d d' \<and>
         (\<exists>r \<in> set (db_decisions d'). row_id r = i \<and> dq_status (qr_request r) = Resolved) \<and> v \<in> set (db_resolutions d')"
proof -
  from resolve_Inr [OF ok res] obtain r d1 where cl: "closes r (closed_row Resolved now r) [v] d d1" "row_id r = i"
    and v: "dr_id v = i" "dr_id v \<notin> dr_id ` set (db_resolutions d)" and k: "record_ok sha (rec_of d1 (closed_row Resolved now r))"
    and out: "same_decisions d1 d'" by (auto simp: resolution_record_def dest: outbox_add_same)
  have one: "decisions_ok sha d1 \<and> decisions_evolve d d1 \<and> closed_row Resolved now r \<in> set (db_decisions d1)"
    by (rule closes_keeps [OF ok cl(1)]) (use cl v k decisions_okD(6) [OF ok] in auto)
  moreover have "v \<in> set (db_resolutions d1)" using cl(1) by (simp add: closes_def)
  moreover have "decisions_ok sha d' \<and> decisions_evolve d1 d'" using same_decisions_keeps out one by blast
  moreover have "dq_status (qr_request (closed_row Resolved now r)) = Resolved" by (simp add: closed_row_def)
  ultimately show ?thesis using decisions_evolve_trans out cl(2) unfolding same_decisions_def by (metis closed_row_sel(1))
qed

lemma expire_loop_keeps:
  "expire_loop sha ids now qs d = Inr (n, d') \<Longrightarrow> decisions_ok sha d \<Longrightarrow> decisions_ok sha d' \<and> decisions_evolve d d'"
proof (induction qs arbitrary: d n)
  case (Cons q qs)
  obtain ex d1 where ex: "repo_expire sha (dq_id q) (dq_version q) now d = Inr (ex, d1)"
    using Cons.prems(1) by auto
  note f = repo_expire_Inr [OF Cons.prems(2) ex]
  show ?case
  proof (cases ex)
    case None
    then show ?thesis using Cons f ex by auto
  next
    case (Some e)
    then obtain r where cl: "closes r (closed_row Expired now r) [] d d1" "record_ok sha (rec_of d1 (closed_row Expired now r))"
      using f by auto
    obtain d2 m where out: "outbox_add sha (expired_event (ids (dq_id e)) now e) d1 = Inr d2"
      and rest: "expire_loop sha ids now qs d2 = Inr (m, d')"
      using Cons.prems(1) ex Some by auto
    have one: "decisions_ok sha d1 \<and> decisions_evolve d d1"
      using closes_keeps [OF Cons.prems(2) cl(1) _ _ _ _ cl(2)] decisions_okD(6) [OF Cons.prems(2)] by simp
    then have two: "decisions_ok sha d2 \<and> decisions_evolve d1 d2" using same_decisions_keeps outbox_add_same [OF out] by blast
    from Cons.IH [OF rest] one two show ?thesis using decisions_evolve_trans by blast
  qed
qed simp

end
