(* ===== verification/Decision_Authority.thy ===== *)
theory Decision_Authority
  imports Decision_Safety Audit_Chain
begin

text \<open>
  The decision service as a transition system, and its properties: closed decisions stay closed, an
  identity names one request, denials are audited, and a run waits exactly on the recorded decision.
\<close>

section \<open>Steps\<close>

inductive decision_step ::
  "(string \<Rightarrow> string) \<Rightarrow> (string \<Rightarrow> string) \<Rightarrow> (run_state \<Rightarrow> bool) \<Rightarrow> db \<Rightarrow> db \<Rightarrow> bool" for sha redact secret where
  ds_request: "request_decision sha fr c auth now d = (res, d') \<Longrightarrow> decision_step sha redact secret d d'"
| ds_in_transaction: "request_in_transaction sha fr c auth now d = (res, d') \<Longrightarrow> decision_step sha redact secret d d'"
| ds_with_run_state: "request_with_run_state sha redact secret fr c s auth now d = (res, d') \<Longrightarrow> decision_step sha redact secret d d'"
| ds_resolve: "resolve_decision sha fr i rc auth now d = (res', d') \<Longrightarrow> decision_step sha redact secret d d'"
| ds_deny: "deny_invalid_resolution sha fr i auth d = (res'', d') \<Longrightarrow> decision_step sha redact secret d d'"
| ds_expire: "expire_due sha ids now limit d = (n, d') \<Longrightarrow> decision_step sha redact secret d d'"
| ds_resolved: "mark_run_state_resolved sha redact secret i d = (st, d') \<Longrightarrow> decision_step sha redact secret d d'"
| ds_terminal: "mark_run_state_terminal sha redact secret i d = (st, d') \<Longrightarrow> decision_step sha redact secret d d'"
| ds_other: "same_decisions d d' \<Longrightarrow> decision_step sha redact secret d d'"

inductive_cases decision_stepE: "decision_step sha redact secret d d'"

definition good_move :: "(string \<Rightarrow> string) \<Rightarrow> db \<Rightarrow> db \<Rightarrow> bool" where
  "good_move sha d d' = (decisions_ok sha d' \<and> decisions_evolve d d')"

lemma good_move_same: "decisions_ok sha d \<Longrightarrow> same_decisions d d' \<Longrightarrow> good_move sha d d'"
  unfolding good_move_def by (rule same_decisions_keeps)

lemma good_move_refl: "decisions_ok sha d \<Longrightarrow> good_move sha d d"
  by (simp add: good_move_def)

lemma good_move_trans: "good_move sha d d' \<Longrightarrow> good_move sha d' d'' \<Longrightarrow> good_move sha d d''"
  unfolding good_move_def using decisions_evolve_trans by blast

lemma append_audit_same: "append_audit sha fr req d = Inr d' \<Longrightarrow> same_decisions d d'"
  using append_audit_Inr [of sha fr req d d'] by (auto simp: same_decisions_def)

lemma add_request_move:
  assumes "decisions_ok sha d" "valid_decision_request sha q"
  shows "add_request sha fr q c auth d = Inr (q', d') \<Longrightarrow> good_move sha d d'"
    and "add_request sha fr q c auth d = Inl (e, d') \<Longrightarrow> good_move sha d d'"
  using add_request_keeps [OF assms, of fr c auth] good_move_same [OF assms(1)] unfolding good_move_def by blast+

lemma request_with_run_state_cases:
  assumes "request_with_run_state sha redact secret fr c s auth now d = (res, d')"
  shows "(d' = d \<and> (\<exists>e. res = Inl e)) \<or>
         (\<exists>q. new_request sha fr c auth now = Inr q \<and> rs_phase s = PWaitingDecision \<and> rs_edict s = rc_edict c \<and>
              rs_memorial s = rc_memorial c \<and>
              ((\<exists>e. res = Inl e \<and> add_request sha fr q c auth d = Inl (e, d')) \<or>
               (\<exists>saved d1. res = Inr saved \<and> add_request sha fr q c auth d = Inr (saved, d1) \<and>
                  (if dq_status saved \<noteq> Pending then d' = d1
                   else store_waiting sha redact secret saved (bind_state saved s) d1 = Inr ((), d')))))"
proof -
  let ?pre = "waiting_request sha fr c s auth now"
  show ?thesis
  proof (cases ?pre)
    case (Inl e)
    then have "res = Inl e" "d' = d" using assms by (simp_all add: request_with_run_state_def)
    then show ?thesis by blast
  next
    case (Inr q)
    then have q: "new_request sha fr c auth now = Inr q" "rs_phase s = PWaitingDecision" "rs_edict s = rc_edict c"
      "rs_memorial s = rc_memorial c" by (auto simp: waiting_request_def)
    show ?thesis
    proof (cases "add_request sha fr q c auth d")
      case (Inl p)
      then show ?thesis using assms \<open>?pre = Inr q\<close> q
        by (cases p) (auto simp: request_with_run_state_def finish_def)
    next
      case add: (Inr p)
      obtain saved d1 where p: "p = (saved, d1)" by fastforce
      show ?thesis
      proof (cases "dq_status saved = Pending")
        case True
        then show ?thesis using assms \<open>?pre = Inr q\<close> q add p
          by (cases "store_waiting sha redact secret saved (bind_state saved s) d1")
             (auto simp: request_with_run_state_def finish_def rollback_def)
      next
        case False
        then show ?thesis using assms \<open>?pre = Inr q\<close> q add p
          by (cases "require_terminal_replay sha redact saved q s d1")
             (auto simp: request_with_run_state_def finish_def reading_def)
      qed
    qed
  qed
qed

lemma decision_step_move:
  assumes ok: "decisions_ok sha d" and st: "decision_step sha redact secret d d'"
  shows "good_move sha d d'"
  using st
proof cases
  case (ds_request fr c auth now res)
  show ?thesis
  proof (cases "new_request sha fr c auth now")
    case (Inl e)
    then show ?thesis using ds_request ok by (simp add: request_decision_def good_move_refl)
  next
    case (Inr q)
    then have "valid_decision_request sha q" using new_request_Inr by blast
    then show ?thesis using ds_request Inr add_request_move [OF ok]
      by (cases "add_request sha fr q c auth d") (auto simp: request_decision_def finish_def)
  qed
next
  case (ds_in_transaction fr c auth now res)
  show ?thesis
  proof (cases "new_request sha fr c auth now")
    case (Inl e)
    then show ?thesis using ds_in_transaction ok by (simp add: request_in_transaction_def good_move_refl)
  next
    case (Inr q)
    then have q: "valid_decision_request sha q" using new_request_Inr by blast
    show ?thesis
    proof (cases "add_or_get sha q (Some (ax_correlation auth)) d")
      case y: (Inr y)
      then show ?thesis using ds_in_transaction Inr add_or_get_keeps [OF ok q]
        by (cases y) (auto simp: request_in_transaction_def good_move_def)
    next
      case x: (Inl x)
      show ?thesis
      proof (cases "identity_conflict x")
        case None
        then show ?thesis using ds_in_transaction Inr x ok by (simp add: request_in_transaction_def good_move_refl)
      next
        case (Some existing)
        then show ?thesis using ds_in_transaction Inr x good_move_refl [OF ok] good_move_same [OF ok append_audit_same]
          by (cases "append_audit sha fr (request_denial sha c auth q existing) d") (auto simp: request_in_transaction_def)
      qed
    qed
  qed
next
  case (ds_with_run_state fr c s auth now res)
  from request_with_run_state_cases [OF this] show ?thesis
  proof
    assume "d' = d \<and> (\<exists>e. res = Inl e)"
    then show ?thesis using good_move_refl [OF ok] by simp
  next
    assume "\<exists>q. new_request sha fr c auth now = Inr q \<and> rs_phase s = PWaitingDecision \<and> rs_edict s = rc_edict c \<and>
              rs_memorial s = rc_memorial c \<and>
              ((\<exists>e. res = Inl e \<and> add_request sha fr q c auth d = Inl (e, d')) \<or>
               (\<exists>saved d1. res = Inr saved \<and> add_request sha fr q c auth d = Inr (saved, d1) \<and>
                  (if dq_status saved \<noteq> Pending then d' = d1
                   else store_waiting sha redact secret saved (bind_state saved s) d1 = Inr ((), d'))))"
    then obtain q where q: "valid_decision_request sha q" and
      c: "(\<exists>e. add_request sha fr q c auth d = Inl (e, d')) \<or>
          (\<exists>saved d1. add_request sha fr q c auth d = Inr (saved, d1) \<and>
              (d' = d1 \<or> store_waiting sha redact secret saved (bind_state saved s) d1 = Inr ((), d')))"
      using new_request_Inr by (metis (no_types, lifting))
    from c show ?thesis
    proof
      assume "\<exists>e. add_request sha fr q c auth d = Inl (e, d')"
      then show ?thesis using add_request_move(2) [OF ok q] by blast
    next
      assume "\<exists>saved d1. add_request sha fr q c auth d = Inr (saved, d1) \<and>
              (d' = d1 \<or> store_waiting sha redact secret saved (bind_state saved s) d1 = Inr ((), d'))"
      then obtain d1 where m: "good_move sha d d1" and s: "same_decisions d1 d'"
        using add_request_move(1) [OF ok q] store_waiting_same same_decisions_refl by metis
      have "good_move sha d1 d'" using m s good_move_same unfolding good_move_def by blast
      with m show ?thesis by (rule good_move_trans)
    qed
  qed
next
  case (ds_resolve fr i rc auth now res')
  show ?thesis
  proof (cases "resolve_work sha fr i rc auth now d")
    case (Inl p)
    then obtain e where e: "resolve_work sha fr i rc auth now d = Inl (e, d')"
      using ds_resolve by (cases p) (auto simp: resolve_decision_def finish_def)
    show ?thesis using resolve_Inl [OF e] good_move_refl [OF ok] good_move_same [OF ok same_decisions_audit]
      by (auto simp: resolve_denied_def)
  next
    case (Inr p)
    then obtain v where "resolve_work sha fr i rc auth now d = Inr (v, d')"
      using ds_resolve by (cases p) (auto simp: resolve_decision_def finish_def)
    then show ?thesis using resolve_keeps [OF ok] by (auto simp: good_move_def)
  qed
next
  case (ds_deny fr i auth res'')
  then have "d' = d \<or> (\<exists>req. append_audit sha fr req d = Inr d')"
    unfolding deny_invalid_resolution_def by (auto split: sum.split_asm)
  then show ?thesis using good_move_refl [OF ok] good_move_same [OF ok append_audit_same] by auto
next
  case (ds_expire ids now limit n)
  then have "d' = d \<or> (\<exists>qs m. expire_loop sha ids now qs d = Inr (m, d'))"
    by (auto simp: expire_due_def atomically_def split: sum.split_asm)
  then show ?thesis using good_move_refl [OF ok] expire_loop_keeps [OF _ ok] by (auto simp: good_move_def)
next
  case (ds_resolved i st)
  then have "d' = d \<or> same_decisions d d'"
    by (auto simp: mark_run_state_resolved_def atomically_def release_same split: sum.split_asm)
  then show ?thesis using good_move_refl [OF ok] good_move_same [OF ok] by auto
next
  case (ds_terminal i st)
  then have "d' = d \<or> same_decisions d d'"
    by (auto simp: mark_run_state_terminal_def atomically_def release_same split: sum.split_asm)
  then show ?thesis using good_move_refl [OF ok] good_move_same [OF ok] by auto
next
  case ds_other
  then show ?thesis using good_move_same [OF ok] by simp
qed

section \<open>The right to close a decision\<close>

definition open_decision :: "db \<Rightarrow> string \<Rightarrow> bool" where
  "open_decision d i = (\<exists>r \<in> set (db_decisions d). row_id r = i \<and> dq_status (qr_request r) = Pending)"

definition closed_decision :: "db \<Rightarrow> string \<Rightarrow> bool" where
  "closed_decision d i = (\<exists>r \<in> set (db_decisions d). row_id r = i \<and> dq_status (qr_request r) \<noteq> Pending)"

interpretation decisions: revocable_authority "decision_step sha redact secret" "decisions_ok sha" decisions_evolve
  open_decision closed_decision
  for sha redact secret
proof unfold_locales
  show "decisions_ok sha d \<Longrightarrow> decision_step sha redact secret d d' \<Longrightarrow> decisions_ok sha d'"
    and "decisions_ok sha d \<Longrightarrow> decision_step sha redact secret d d' \<Longrightarrow> decisions_evolve d d'" for d d'
    using decision_step_move unfolding good_move_def by blast+
  show "decisions_evolve d d" for d by simp
  show "decisions_evolve d d' \<Longrightarrow> decisions_evolve d' d'' \<Longrightarrow> decisions_evolve d d''" for d d' d''
    by (rule decisions_evolve_trans)
  show "decisions_evolve d d' \<Longrightarrow> closed_decision d i \<Longrightarrow> closed_decision d' i" for d d' i
    unfolding decisions_evolve_def closed_decision_def decision_moves_def by metis
  show "decisions_ok sha d \<Longrightarrow> closed_decision d i \<Longrightarrow> \<not> open_decision d i" for d i
    using same_row_id unfolding closed_decision_def open_decision_def by metis
qed

lemma resolve_needs_open:
  assumes "decisions_ok sha d" "resolve_decision sha fr i c auth now d = (Inr v, d')"
  shows "open_decision d i"
proof -
  from resolve_Inr [OF assms(1), of fr i c auth now v d'] assms(2)
  obtain r d1 where "closes r (closed_row Resolved now r) [v] d d1" "row_id r = i"
    by (auto simp: resolve_decision_def)
  then show ?thesis by (auto simp: open_decision_def closes_def)
qed

section \<open>A small decision table\<close>

definition fixed_digest :: "string \<Rightarrow> string" where
  "fixed_digest s = replicate 64 (CHR ''a'')"

definition demo_decision :: decision_request where
  "demo_decision = \<lparr>dq_id = ''q1'', dq_schema_version = 1, dq_kind = KPlanReview, dq_edict = ''e1'', dq_memorial = ''m1'',
     dq_key = ''k'', dq_payload = [], dq_payload_hash = replicate 64 (CHR ''a''), dq_requested_by = ''u'', dq_expires = 100,
     dq_status = Pending, dq_version = 1, dq_created = 5, dq_updated = 5\<rparr>"

definition demo_decisions :: db where
  "demo_decisions = demo_runs\<lparr>db_decisions := [\<lparr>qr_request = demo_decision, qr_correlation = Some ''c1''\<rparr>]\<rparr>"

definition demo_auth :: auth_context where
  "demo_auth = \<lparr>ax_principal = \<lparr>pr_id = ''u'', pr_display_name = ''U'', pr_scopes = []\<rparr>, ax_correlation = ''c1''\<rparr>"

definition demo_fresh :: fresh where
  "demo_fresh = \<lparr>fr_decision = ''q2'', fr_event = ''ev1'', fr_audit = ''a1'', fr_audit_time = ''t''\<rparr>"

definition demo_command :: resolve_decision_command where
  "demo_command = \<lparr>vc_action = ''approve'', vc_reason = ''r'', vc_payload = [(''schema_version'', JInt 1)], vc_expected_version = 1\<rparr>"

lemmas demo_decision_defs = demo_decisions_def demo_decision_def demo_auth_def demo_fresh_def demo_command_def

lemma hex64_fixed: "hex64 (replicate 64 (CHR ''a''))"
  by (simp add: hex64_def is_hex_digit_def list_all_iff)

lemma demo_decision_valid: "valid_decision_request fixed_digest demo_decision"
  unfolding valid_decision_request_def using hex64_fixed
  by (simp add: demo_decision_def blank_code is_space_def canonical_sha256_def canonical_json_bytes_def fixed_digest_def)

lemma demo_decisions_ok: "decisions_ok fixed_digest demo_decisions"
  using demo_decision_valid
  by (simp add: decisions_ok_def demo_decisions_def rec_of_def record_ok_def valid_decision_record_def has_edict_def
      demo_run_defs row_id_def, simp add: demo_decision_def)

definition demo_resolution :: decision_resolution where
  "demo_resolution = \<lparr>dr_id = ''q1'', dr_action = ''approve'', dr_reason = ''r'', dr_payload = [(''schema_version'', JInt 1)],
     dr_actor_id = ''u'', dr_actor_name = ''U'', dr_at = 50\<rparr>"

lemma demo_resolves:
  "\<exists>d'. resolve_decision fixed_digest demo_fresh ''q1'' demo_command demo_auth 50 demo_decisions = (Inr demo_resolution, d')"
proof -
  let ?r = "\<lparr>qr_request = demo_decision, qr_correlation = Some ''c1''\<rparr>"
  let ?r' = "closed_row Resolved 50 ?r"
  let ?d2 = "demo_decisions\<lparr>db_decisions := [?r'], db_resolutions := [demo_resolution]\<rparr>"
  let ?x = "\<lparr>rec_request = qr_request ?r', rec_resolution = Some demo_resolution\<rparr>"
  have rows: "db_decisions demo_decisions = [?r]" "db_resolutions demo_decisions = []"
    by (simp_all add: demo_decisions_def demo_runs_def empty_db_def)
  have id: "row_id ?r = ''q1''" by (simp add: row_id_def demo_decision_def)
  have get: "decision_get fixed_digest ''q1'' demo_decisions = Inr (Some (rec_of demo_decisions ?r))"
    by (simp add: decision_get_eq [OF demo_decisions_ok] rows id)
  have rec: "rec_of demo_decisions ?r = \<lparr>rec_request = demo_decision, rec_resolution = None\<rparr>"
    by (simp add: rec_of_def rows)
  have pay: "validate_resolution_payload KPlanReview ''approve'' [(''schema_version'', JInt 1)] = Inr ()"
    by (simp add: validate_resolution_payload_def action_payload_model_def versioned_payload_def only_keys_def required_field_def)
  have nb: "\<not> blank ''q1''" "\<not> blank ''approve''" "\<not> blank ''r''" "\<not> blank ''u''" "\<not> blank ''U''"
    by (simp_all add: blank_code is_space_def)
  have v: "resolution_of ''q1'' demo_command demo_auth 50 = Inr demo_resolution"
    using nb by (simp add: resolution_of_def demo_command_def demo_auth_def demo_resolution_def valid_decision_resolution_def)
  have valid': "valid_decision_request fixed_digest (qr_request ?r')"
    using demo_decision_valid by (simp add: closed_row_def valid_decision_request_def demo_decision_def)
  have ok2: "record_ok fixed_digest ?x"
    using valid' nb pay by (simp add: record_ok_def valid_decision_record_def valid_decision_resolution_def
        demo_resolution_def closed_row_def demo_decision_def)
  have join: "joined ?d2 (\<lambda>_. True) ?r'"
    by (simp add: joined_edict has_edict_def demo_decisions_def demo_run_defs closed_row_def demo_decision_def)
  have rec2: "rec_of ?d2 ?r' = ?x" by (simp add: rec_of_def id demo_resolution_def)
  have "find (\<lambda>r. row_id r = ''q1'' \<and> joined ?d2 (\<lambda>_. True) r) (db_decisions ?d2) = Some ?r'" using join id by simp
  then have get2: "decision_get fixed_digest ''q1'' ?d2 = Inr (Some ?x)"
    unfolding decision_get_def first_of_filter using ok2 rec2 by (simp add: decode_first_def decode_record_Inr)
  have q: "dq_status demo_decision = Pending" "dq_version demo_decision = 1" "dq_expires demo_decision = 100" "dq_kind demo_decision = KPlanReview"
    by (simp_all add: demo_decision_def)
  have vs: "dr_id demo_resolution = ''q1''" "dr_at demo_resolution = 50" "dr_action demo_resolution = ''approve''"
    "dr_payload demo_resolution = [(''schema_version'', JInt 1)]" "dr_reason demo_resolution = ''r''"
    "dr_actor_id demo_resolution = ''u''" "dr_actor_name demo_resolution = ''U''" by (simp_all add: demo_resolution_def)
  have cv: "vc_expected_version demo_command = 1" "vc_action demo_command = ''approve''"
    "vc_payload demo_command = [(''schema_version'', JInt 1)]" by (simp_all add: demo_command_def)
  have upd: "update_decisions (\<lambda>r. pending_at ''q1'' 1 r \<and> 50 < dq_expires (qr_request r)) (closed_row Resolved 50) demo_decisions =
      (1, demo_decisions\<lparr>db_decisions := [?r']\<rparr>)"
    by (simp add: update_decisions_def rows count_rows_def update_rows_def pending_at_def id q)
  have ins: "insert_resolution demo_resolution (demo_decisions\<lparr>db_decisions := [?r']\<rparr>) = Inr ?d2"
    by (simp add: insert_resolution_def rows vs sql_nonblank_def id)
  have rr: "repo_resolve fixed_digest demo_resolution 1 50 demo_decisions = Inr (?x, ?d2)"
    by (simp add: repo_resolve_def vs get rec pay q resolve_guard_def upd ins get2)
  have "\<exists>d'. outbox_add fixed_digest (resolved_event demo_fresh demo_auth 50 demo_resolution ?x) ?d2 = Inr d'"
    by (simp add: outbox_add_def event_correlation_def explicit_correlation_def resolved_event_def demo_auth_def
        correlation_for_memorial_def demo_decisions_def demo_run_defs select_ordered_def first_correlation_def first_of_def
        is_identifier_def is_alnum_def insert_outbox_def new_outbox_row_def has_edict_def has_memorial_def closed_row_def
        demo_decision_def Let_def)
  then obtain d' where out: "outbox_add fixed_digest (resolved_event demo_fresh demo_auth 50 demo_resolution ?x) ?d2 = Inr d'" ..
  have "normalize_tool_resolution demo_decision demo_command = demo_command" by (simp add: normalize_tool_resolution_def q)
  then have "resolve_decision fixed_digest demo_fresh ''q1'' demo_command demo_auth 50 demo_decisions = (Inr demo_resolution, d')"
    using v rr out by (simp add: resolve_decision_def resolve_work_def get rec q cv pay resolution_conflict_def resolve_guard_def
        resolve_accepted_def reading_def)
  then show ?thesis by blast
qed

section \<open>Properties\<close>

text \<open>
  C36: A decision is resolved at most once. After a successful resolution no later resolution of that
  request succeeds, in any state the service can reach, and the recorded resolution stays the one that
  was returned.
\<close>

theorem decision_resolved_once:
  assumes ok: "decisions_ok sha d" and res: "resolve_decision sha fr i c auth now d = (Inr v, d1)"
    and run: "(decision_step sha redact secret)\<^sup>*\<^sup>* d1 d2"
  shows "(\<exists>rec. decision_get sha i d2 = Inr (Some rec) \<and> dq_status (rec_request rec) = Resolved \<and> rec_resolution rec = Some v) \<and>
         (\<exists>e. fst (resolve_decision sha fr' i c' auth' now' d2) = Inl e)"
proof -
  have work: "resolve_work sha fr i c auth now d = Inr (v, d1)" using res by (simp add: resolve_decision_def)
  note k = resolve_keeps [OF ok work]
  have ok2: "decisions_ok sha d2" and ev: "decisions_evolve d1 d2" using decisions.steps_inv_evo [OF run] k by auto
  obtain r where r: "r \<in> set (db_decisions d1)" "row_id r = i" "dq_status (qr_request r) = Resolved" using k by blast
  then have r2: "r \<in> set (db_decisions d2)" using ev unfolding decisions_evolve_def decision_moves_def
    by (metis decision_status.distinct(1))
  have v2: "v \<in> set (db_resolutions d2)" using k ev by (auto simp: decisions_evolve_def)
  have vid: "dr_id v = i" using resolve_Inr [OF ok work] by (auto simp: resolution_record_def)
  have rec: "decision_get sha i d2 = Inr (Some (rec_of d2 r))"
    using decision_row [OF ok2 r2] r(2) by (simp add: decision_get_eq [OF ok2])
  have "rec_resolution (rec_of d2 r) = Some v"
    using row_by_unique [OF decisions_okD(6) [OF ok2] v2 vid] r(2) by (simp add: rec_of_def)
  moreover have "closed_decision d1 i" using r by (auto simp: closed_decision_def)
  then have "\<not> open_decision d2 i" by (rule decisions.lost_forever [OF conjunct1 [OF k] _ run])
  then have "\<exists>e. fst (resolve_decision sha fr' i c' auth' now' d2) = Inl e"
    using resolve_needs_open [OF ok2] by (metis prod.collapse sum.exhaust)
  ultimately show ?thesis using rec r(3) by (auto simp: rec_of_def)
qed

theorem decision_resolved_once_witness:
  "\<exists>d'. resolve_decision fixed_digest demo_fresh ''q1'' demo_command demo_auth 50 demo_decisions = (Inr demo_resolution, d') \<and>
        (\<exists>e. fst (resolve_decision fixed_digest demo_fresh ''q1'' demo_command demo_auth 60 d') = Inl e)"
proof -
  obtain d' where d': "resolve_decision fixed_digest demo_fresh ''q1'' demo_command demo_auth 50 demo_decisions = (Inr demo_resolution, d')"
    using demo_resolves by blast
  from decision_resolved_once [OF demo_decisions_ok d' rtranclp.rtrancl_refl] d' show ?thesis by blast
qed

text \<open>
  A resolution succeeds only with authority and in time, and does exactly this: the request was
  pending at the version the command names, its deadline had not passed, a governed apply had the
  \<open>workspace:apply\<close> scope; the request becomes resolved one version higher, the resolution is recorded
  under the caller's identity, and one \<open>decision.resolved\<close> event is added to the outbox.
\<close>

theorem resolve_decision_effect:
  assumes ok: "decisions_ok sha d" and res: "resolve_decision sha fr i c auth now d = (Inr v, d')"
  shows "\<exists>r c0. r \<in> set (db_decisions d) \<and> row_id r = i \<and> dq_status (qr_request r) = Pending \<and>
           dq_version (qr_request r) = vc_expected_version c \<and> now < dq_expires (qr_request r) \<and>
           (dq_kind (qr_request r) = KGovernedApply \<longrightarrow> ''workspace:apply'' \<in> set (pr_scopes (ax_principal auth))) \<and>
           v = resolution_record i (normalize_tool_resolution (qr_request r) c) auth now \<and>
           db_decisions d' = map (\<lambda>x. if x = r then closed_row Resolved now r else x) (db_decisions d) \<and>
           db_resolutions d' = db_resolutions d @ [v] \<and>
           db_outbox d' = db_outbox d @ [new_outbox_row (resolved_event fr auth now v
              \<lparr>rec_request = qr_request (closed_row Resolved now r), rec_resolution = Some v\<rparr>) c0] \<and>
           db_audit d' = db_audit d \<and> db_run_states d' = db_run_states d"
proof -
  have work: "resolve_work sha fr i c auth now d = Inr (v, d')" using res by (simp add: resolve_decision_def)
  from resolve_Inr [OF ok work] obtain r d1 x where r: "closes r (closed_row Resolved now r) [v] d d1" "row_id r = i"
    "dq_version (qr_request r) = vc_expected_version c" "now < dq_expires (qr_request r)"
    "dq_kind (qr_request r) = KGovernedApply \<longrightarrow> ''workspace:apply'' \<in> set (pr_scopes (ax_principal auth))"
    "v = resolution_record i (normalize_tool_resolution (qr_request r) c) auth now"
    and x: "x = rec_of d1 (closed_row Resolved now r)" "rec_resolution x = Some v"
    and out: "outbox_add sha (resolved_event fr auth now v x) d1 = Inr d'" by blast
  have xe: "x = \<lparr>rec_request = qr_request (closed_row Resolved now r), rec_resolution = Some v\<rparr>"
    using x by (simp add: rec_of_def)
  from outbox_add_Inr [OF out] obtain c0 where
    "d' = d1\<lparr>db_outbox := db_outbox d1 @ [new_outbox_row (resolved_event fr auth now v x) c0]\<rparr>" by blast
  with r xe show ?thesis
    by (intro exI [of _ r] exI [of _ c0]) (simp add: closes_def update_rows_def)
qed

theorem resolve_decision_effect_witness:
  "\<exists>d' c0. resolve_decision fixed_digest demo_fresh ''q1'' demo_command demo_auth 50 demo_decisions = (Inr demo_resolution, d') \<and>
        db_resolutions d' = [demo_resolution] \<and> length (db_outbox d') = 1"
proof -
  obtain d' where d': "resolve_decision fixed_digest demo_fresh ''q1'' demo_command demo_auth 50 demo_decisions = (Inr demo_resolution, d')"
    using demo_resolves by blast
  have "db_resolutions demo_decisions = []" "db_outbox demo_decisions = []"
    by (simp_all add: demo_decisions_def demo_runs_def empty_db_def)
  with resolve_decision_effect [OF demo_decisions_ok d'] d' show ?thesis by auto
qed

text \<open>
  A resolution that fails leaves no trace but its audit event. The state is unchanged, or it has
  exactly one more audit event, a denial of \<open>decision.resolve.denied\<close> whose reason is the code the
  caller receives.
\<close>

theorem failed_resolution_is_audited:
  assumes "resolve_decision sha fr i c auth now d = (Inl e, d')"
  shows "d' = d \<or>
         (\<exists>row. d' = d\<lparr>db_audit := db_audit d @ [row]\<rparr> \<and> au_action row = ''decision.resolve.denied'' \<and>
                au_outcome row = ''denied'' \<and>
                e \<in> {DecisionNotFound (au_reason row), DecisionConflict (au_reason row),
                     DecisionValidationError (au_reason row), DecisionAuthorizationError (au_reason row)})"
proof -
  have "resolve_work sha fr i c auth now d = Inl (e, d')"
    using assms by (cases "resolve_work sha fr i c auth now d") (auto simp: resolve_decision_def finish_def)
  from resolve_Inl [OF this] show ?thesis by (fastforce simp: resolve_denied_def denial_of_def audited_def)
qed

lemma demo_denied:
  "resolve_decision fixed_digest demo_fresh ''zz'' demo_command demo_auth 50 empty_db =
     (Inl (DecisionNotFound ''decision_not_found''), empty_db\<lparr>db_audit := [new_audit_row fixed_digest ''a1'' ''t''
        (resolution_denial fixed_digest demo_auth ''zz'' ''decision_not_found'' None ''missing'' (Some 1) None) 0 genesis]\<rparr>)"
proof -
  let ?req = "resolution_denial fixed_digest demo_auth ''zz'' ''decision_not_found'' None ''missing'' (Some 1) None"
  have valid: "valid_audit_request ?req"
    by (simp add: valid_audit_request_def resolution_denial_def denial_request_def digest_def fixed_digest_def demo_auth_def
        hex64_fixed opt_item_def is_identifier_def is_alnum_def is_stable_code_def is_lower_def is_digit_def Let_def audit_outcome_def
        audit_metadata_keys_def metadata_value_ok_def)
  have h: "hex64 (fixed_digest s)" for s by (simp add: fixed_digest_def hex64_fixed)
  have "\<exists>e. append_system_audit fixed_digest ''a1'' ''t'' ?req [] = Inr (e, [e])"
    using append_succeeds [where sha = fixed_digest and i = "''a1''" and t = "''t''", OF audit_log.empty valid h] by auto
  then have "append_system_audit fixed_digest ''a1'' ''t'' ?req [] =
      Inr (new_audit_row fixed_digest ''a1'' ''t'' ?req 0 genesis, [new_audit_row fixed_digest ''a1'' ''t'' ?req 0 genesis])"
    by (auto simp: append_system_audit_def validated_tail_def by_sequence_def select_ordered_def first_of_def insert_audit_def split: if_splits)
  then show ?thesis using valid
    by (simp add: resolve_decision_def resolve_work_def decision_get_def empty_db_def first_of_def decode_first_def
        deny_resolution_def deny_with_def append_audit_def demo_fresh_def demo_command_def finish_def raise_unless_def)
qed

theorem failed_resolution_is_audited_witness:
  "\<exists>row d'. snd (resolve_decision fixed_digest demo_fresh ''zz'' demo_command demo_auth 50 empty_db) = d' \<and>
     db_audit d' = [row] \<and> au_reason row = ''decision_not_found''"
  using failed_resolution_is_audited [OF demo_denied] unfolding demo_denied
  by (auto simp: empty_db_def)

text \<open>
  A decision identity never names two requests. Once a request has been returned for a memorial, a
  kind and a key, every later successful request for the same three returns the request with that id,
  changes nothing, and had the same payload hash.
\<close>

theorem decision_identity_is_stable:
  assumes ok: "decisions_ok sha d" and first: "request_decision sha fr c auth now d = (Inr q, d1)"
    and run: "(decision_step sha redact secret)\<^sup>*\<^sup>* d1 d2"
    and second: "request_decision sha fr' c' auth' now' d2 = (Inr q', d3)"
    and same: "rc_memorial c' = rc_memorial c" "rc_kind c' = rc_kind c" "rc_key c' = rc_key c"
  shows "dq_id q' = dq_id q \<and> d3 = d2 \<and> dq_payload_hash q' = dq_payload_hash q"
proof -
  obtain p where p: "new_request sha fr c auth now = Inr p" and add: "add_request sha fr p c auth d = Inr (q, d1)"
    using first by (auto simp: request_decision_def split: sum.splits)
  obtain p' where p': "new_request sha fr' c' auth' now' = Inr p'" and add': "add_request sha fr' p' c' auth' d2 = Inr (q', d3)"
    using second by (auto simp: request_decision_def split: sum.splits)
  have vp: "valid_decision_request sha p" and pid: "(dq_memorial p, dq_kind p, dq_key p) = (rc_memorial c, rc_kind c, rc_key c)"
    using new_request_Inr [OF p] by auto
  have pid': "(dq_memorial p', dq_kind p', dq_key p') = (rc_memorial c, rc_kind c, rc_key c)"
    using new_request_Inr [OF p'] same by auto
  have ag: "add_or_get sha p (Some (ax_correlation auth)) d = Inr (q, d1)"
    using add by (auto simp: add_request_def split: sum.splits option.splits)
  have ag': "add_or_get sha p' (Some (ax_correlation auth')) d2 = Inr (q', d3)"
    using add' by (auto simp: add_request_def split: sum.splits option.splits)
  have ok1: "decisions_ok sha d1" using add_or_get_keeps [OF ok vp ag] by simp
  obtain r where r: "r \<in> set (db_decisions d1)" "qr_request r = q" using add_or_get_keeps [OF ok vp ag] by blast
  have "(dq_memorial q, dq_kind q, dq_key q) = (rc_memorial c, rc_kind c, rc_key c)"
    using add_or_get_Inr [OF ag] pid by (auto simp: identity_of_def)
  then have rid: "identity_of r = (rc_memorial c, rc_kind c, rc_key c)" using r(2) by (simp add: identity_of_def)
  have ok2: "decisions_ok sha d2" and ev: "decisions_evolve d1 d2" using decisions.steps_inv_evo [OF run ok1] by auto
  obtain r2 where r2: "r2 \<in> set (db_decisions d2)" "decision_moves r r2" using ev r(1) unfolding decisions_evolve_def by blast
  have id2: "identity_of r2 = (rc_memorial c, rc_kind c, rc_key c)" using r2(2) rid by (simp add: decision_moves_def)
  have "\<not> adds p' d2 d3" using r2(1) id2 pid' unfolding adds_def by (metis imageI)
  then obtain r3 where d3: "d3 = d2" and r3: "r3 \<in> set (db_decisions d2)" "identity_of r3 = (rc_memorial c, rc_kind c, rc_key c)"
    "qr_request r3 = q'" using add_or_get_Inr [OF ag'] pid' by auto
  have "r3 = r2" using same_identity [OF ok2 r3(1) r2(1)] r3(2) id2 by simp
  then have "dq_id q' = dq_id q" "dq_payload_hash q' = dq_payload_hash q"
    using r2(2) r(2) r3(3) by (auto simp: decision_moves_def row_id_def)
  with d3 show ?thesis by simp
qed

definition demo_request_command :: request_decision_command where
  "demo_request_command = \<lparr>rc_kind = KPlanReview, rc_edict = ''e1'', rc_memorial = ''m1'', rc_key = ''k'', rc_payload = [], rc_expires = 200\<rparr>"

lemma add_existing:
  assumes ok: "decisions_ok sha d" and r: "r \<in> set (db_decisions d)"
    and same: "identity_of r = (dq_memorial q, dq_kind q, dq_key q)" "dq_payload (qr_request r) = dq_payload q"
      "dq_payload_hash (qr_request r) = dq_payload_hash q"
    and q: "dq_status q = Pending" "dq_version q = 1" "memorial_bound d (dq_memorial q) (dq_edict q)"
    and k: "correlation_for_memorial sha d (dq_memorial q) c = Inr k"
  shows "add_or_get sha q c d = Inr (qr_request r, d)"
proof -
  have j: "joined d (\<lambda>_. True) r" using decisions_okD(3) [OF ok r] by (simp add: joined_edict)
  have ro: "record_ok sha (rec_of d r)" using decisions_okD(4) [OF ok r] by simp
  let ?p = "\<lambda>x. identity_of x = (dq_memorial q, dq_kind q, dq_key q) \<and> joined d (\<lambda>_. True) x"
  have "find ?p (db_decisions d) = Some r"
  proof -
    obtain x where x: "find ?p (db_decisions d) = Some x" using r j same(1) by (cases "find ?p (db_decisions d)") (auto simp: find_None_iff)
    then have "x \<in> set (db_decisions d)" "identity_of x = identity_of r" using same(1) by (auto simp: find_Some_iff)
    with same_identity [OF ok] r x show ?thesis by metis
  qed
  then have ex: "existing_request sha q d = Inr (Some (rec_of d r))"
    unfolding existing_request_def first_of_filter using ro by (simp add: decode_first_def decode_record_Inr)
  show ?thesis using k q unfolding add_or_get_def ex require_decision_memorial_def
    by (auto simp: same_payload_def rec_of_def same)
qed

lemma demo_correlation:
  assumes "db_memorials d = [demo_run_memorial]" "db_edicts d = [demo_edict]" "db_outbox d = []" "db_audit d = []"
    "db_run_states d = [\<lparr>rr_state = s, rr_correlation = Some ''c1''\<rparr>]" "rs_memorial s = ''m1''"
  shows "\<exists>k. correlation_for_memorial fixed_digest d ''m1'' (Some ''c1'') = Inr k"
  using assms
  by (simp add: correlation_for_memorial_def demo_run_defs select_ordered_def first_correlation_def first_of_def row_memorial_def
      is_identifier_def is_alnum_def Let_def)

lemma demo_new_request:
  "new_request fixed_digest demo_fresh (demo_request_command\<lparr>rc_kind := k\<rparr>) demo_auth 10 =
     Inr (demo_decision\<lparr>dq_id := ''q2'', dq_kind := k, dq_expires := 200, dq_created := 10, dq_updated := 10\<rparr>)"
  using hex64_fixed
  by (simp add: new_request_def demo_request_command_def demo_fresh_def demo_auth_def canonical_sha256_def canonical_json_bytes_def
      fixed_digest_def demo_decision_def valid_decision_request_def blank_code is_space_def)

lemma demo_request: "request_decision fixed_digest demo_fresh demo_request_command demo_auth 10 demo_decisions = (Inr demo_decision, demo_decisions)"
proof -
  let ?q = "demo_decision\<lparr>dq_id := ''q2'', dq_kind := KPlanReview, dq_expires := 200, dq_created := 10, dq_updated := 10\<rparr>"
  have "demo_request_command\<lparr>rc_kind := KPlanReview\<rparr> = demo_request_command" by (simp add: demo_request_command_def)
  then have new: "new_request fixed_digest demo_fresh demo_request_command demo_auth 10 = Inr ?q"
    using demo_new_request [of KPlanReview] by simp
  have auth: "ax_correlation demo_auth = ''c1''" by (simp add: demo_auth_def)
  have "\<exists>k. correlation_for_memorial fixed_digest demo_decisions ''m1'' (Some ''c1'') = Inr k"
    by (rule demo_correlation [where s = demo_state]) (simp_all add: demo_decisions_def demo_runs_def empty_db_def, simp add: demo_state_def)
  then obtain k where k: "correlation_for_memorial fixed_digest demo_decisions ''m1'' (Some ''c1'') = Inr k" ..
  have "add_or_get fixed_digest ?q (Some ''c1'') demo_decisions = Inr (qr_request \<lparr>qr_request = demo_decision, qr_correlation = Some ''c1''\<rparr>, demo_decisions)"
    using k by (intro add_existing [OF demo_decisions_ok])
      (simp_all add: demo_decisions_def identity_of_def demo_decision_def memorial_bound_def demo_run_defs)
  then show ?thesis by (simp add: request_decision_def new add_request_def auth finish_def)
qed

theorem decision_identity_is_stable_witness:
  "request_decision fixed_digest demo_fresh demo_request_command demo_auth 10 demo_decisions = (Inr demo_decision, demo_decisions) \<and>
   dq_id demo_decision = ''q1''"
  using decision_identity_is_stable [OF demo_decisions_ok demo_request rtranclp.rtrancl_refl demo_request refl refl refl] demo_request
  by (simp add: demo_decision_def)

lemma bound_waits:
  "cont_pending (rs_continuation (bind_state saved s)) = Some (dq_id saved)" "rs_phase (bind_state saved s) = rs_phase s"
  "rs_memorial (bind_state saved s) = rs_memorial s"
proof -
  have "cont_pending (set_proposed_at t (set_pending p c)) = p" for t p c by (cases c) simp_all
  then show "cont_pending (rs_continuation (bind_state saved s)) = Some (dq_id saved)" by (simp add: bind_state_def)
qed (simp_all add: bind_state_def)

lemma already_waiting_waits:
  assumes "already_waiting saved current (bind_state saved s)" "rs_phase s = PWaitingDecision"
  shows "rs_phase current = PWaitingDecision" "cont_pending (rs_continuation current) = Some (dq_id saved)"
  using assms bound_waits [of saved s] unfolding already_waiting_def by auto

text \<open>
  A request made with its run state leaves the run waiting on it. When \<open>request_with_run_state\<close>
  returns a pending decision, the memorial's stored run state is in phase \<open>waiting_decision\<close> and names
  that decision as the pending one, whether the state was created, found or swapped in.
\<close>

theorem request_leaves_run_waiting:
  assumes ok: "states_ok sha redact d"
    and req: "request_with_run_state sha redact secret fr c s auth now d = (Inr saved, d')"
    and pend: "dq_status saved = Pending"
  shows "\<exists>r \<in> set (db_run_states d'). row_memorial r = rc_memorial c \<and> rs_phase (rr_state r) = PWaitingDecision \<and>
           cont_pending (rs_continuation (rr_state r)) = Some (dq_id saved)"
proof -
  from request_with_run_state_cases [OF req] pend obtain q d1 where
    ph: "rs_phase s = PWaitingDecision" "rs_memorial s = rc_memorial c" and add: "add_request sha fr q c auth d = Inr (saved, d1)"
    and st: "store_waiting sha redact secret saved (bind_state saved s) d1 = Inr ((), d')" by auto
  have ag: "add_or_get sha q (Some (ax_correlation auth)) d = Inr (saved, d1)"
    using add by (auto simp: add_request_def split: sum.splits option.splits)
  have "db_run_states d1 = db_run_states d" using add_or_get_Inr [OF ag] by (auto simp: adds_def)
  then have ok1: "states_ok sha redact d1" using ok by (simp add: states_ok_def)
  let ?b = "bind_state saved s"
  from store_waiting_Inr [OF st] show ?thesis
  proof (elim disjE exE conjE)
    fix t assume "create sha redact secret ?b d1 = Inr (t, d')"
    from create_Inr [OF this] obtain k where "d' = d1\<lparr>db_run_states := db_run_states d1 @ [\<lparr>rr_state = ?b, rr_correlation = Some k\<rparr>]\<rparr>" by blast
    then show ?thesis using bound_waits [of saved s] ph by (auto simp: row_memorial_def)
  next
    fix current assume ld: "load sha redact (rs_memorial ?b) d1 = Inr (Some current)" and aw: "already_waiting saved current ?b" and d': "d' = d1"
    from load_SomeD(1) [OF ld] already_waiting_waits [OF aw ph(1)] show ?thesis
      using d' ph(2) bound_waits(3) [of saved s] by (metis (no_types, lifting))
  next
    fix current t assume cas: "compare_and_swap sha redact secret (next_waiting ?b current) (rs_version current) d1 = Inr (t, d')"
    from compare_and_swap_Inr [OF ok1 cas] obtain r where sw: "swapped r t d1 d'"
      and t: "t = (next_waiting ?b current)\<lparr>rs_version := rs_version current + 1\<rparr>"
      and v: "valid_run_state sha redact t" "decision_binding_ok t" by blast
    have "r\<lparr>rr_state := t\<rparr> \<in> set (db_run_states d')" using swapped_keeps [OF ok1 sw v] by simp
    moreover have "row_memorial (r\<lparr>rr_state := t\<rparr>) = rc_memorial c" "rs_phase t = PWaitingDecision"
      "cont_pending (rs_continuation t) = Some (dq_id saved)"
      using bound_waits [of saved s] ph by (simp_all add: t next_waiting_def row_memorial_def)
    ultimately show ?thesis by (intro bexI [of _ "r\<lparr>rr_state := t\<rparr>"]) simp_all
  qed
qed

definition demo_loop :: outer_loop_continuation where
  "demo_loop = \<lparr>oc_level = L1, oc_iteration = 1, oc_best_output = None, oc_feedback = None, oc_steer = None, oc_history = [],
     oc_same_issue_streak = 0, oc_last_issue_class = None, oc_l1_rounds = 1, oc_l2_rounds = 0, oc_advice = None,
     oc_usage = demo_usage, oc_total_cost = 0, oc_checkpoint = None, oc_pending_decision = None, oc_resolved_decision = None,
     oc_cursor = 0, oc_plan = None\<rparr>"

definition demo_suspended :: run_state where
  "demo_suspended = demo_state\<lparr>rs_phase := PWaitingDecision, rs_continuation := OuterLoop demo_loop\<rparr>"

text \<open>A run suspended on the decision \<open>q1\<close>, which is in the given state of closure.\<close>

definition demo_waiting :: "(decision_row \<Rightarrow> decision_row) \<Rightarrow> db" where
  "demo_waiting f = demo_runs\<lparr>db_decisions := [f \<lparr>qr_request = demo_decision\<lparr>dq_kind := KOuterLoop\<rparr>, qr_correlation = Some ''c1''\<rparr>],
     db_run_states := [\<lparr>rr_state = bind_state demo_decision demo_suspended, rr_correlation = Some ''c1''\<rparr>]\<rparr>"

lemmas demo_wait_defs = demo_waiting_def demo_suspended_def demo_loop_def bind_state_def demo_run_defs

lemma demo_loop_decision_valid: "valid_decision_request fixed_digest (demo_decision\<lparr>dq_kind := KOuterLoop\<rparr>)"
  using demo_decision_valid by (simp add: valid_decision_request_def)

lemma demo_waiting_ok: "decisions_ok fixed_digest (demo_waiting id)" "decisions_ok fixed_digest (demo_waiting (closed_row Expired 50))"
proof -
  show "decisions_ok fixed_digest (demo_waiting id)" using demo_loop_decision_valid
    by (simp add: decisions_ok_def demo_waiting_def rec_of_def record_ok_def valid_decision_record_def has_edict_def
      demo_run_defs row_id_def, simp add: demo_decision_def)
  have "valid_decision_request fixed_digest (qr_request (closed_row Expired 50 \<lparr>qr_request = demo_decision\<lparr>dq_kind := KOuterLoop\<rparr>, qr_correlation = Some ''c1''\<rparr>))"
    using demo_loop_decision_valid by (simp add: closed_row_def valid_decision_request_def demo_decision_def)
  then show "decisions_ok fixed_digest (demo_waiting (closed_row Expired 50))"
    by (simp add: decisions_ok_def demo_waiting_def rec_of_def record_ok_def valid_decision_record_def has_edict_def
      demo_run_defs row_id_def closed_row_def, simp add: demo_decision_def)
qed

lemma demo_waiting_states: "states_ok fixed_digest id (demo_waiting f)"
  by (simp add: states_ok_def demo_wait_defs demo_decision_def valid_run_state_def valid_outer_def valid_usage_def
      decision_binding_ok_def blank_code is_space_def Let_def)

lemma demo_waiting_load: "load fixed_digest id ''m1'' (demo_waiting f) = Inr (Some (bind_state demo_decision demo_suspended))"
  unfolding load_eq [OF demo_waiting_states] by (simp add: demo_wait_defs row_memorial_def)

lemma demo_loop_request:
  "request_with_run_state fixed_digest id (\<lambda>_. False) demo_fresh (demo_request_command\<lparr>rc_kind := KOuterLoop\<rparr>) demo_suspended
     demo_auth 10 (demo_waiting id) = (Inr (demo_decision\<lparr>dq_kind := KOuterLoop\<rparr>), demo_waiting id)"
proof -
  let ?c = "demo_request_command\<lparr>rc_kind := KOuterLoop\<rparr>" and ?saved = "demo_decision\<lparr>dq_kind := KOuterLoop\<rparr>"
  let ?q = "demo_decision\<lparr>dq_id := ''q2'', dq_kind := KOuterLoop, dq_expires := 200, dq_created := 10, dq_updated := 10\<rparr>"
  have pre: "waiting_request fixed_digest demo_fresh ?c demo_suspended demo_auth 10 = Inr ?q"
    using demo_new_request [of KOuterLoop]
    by (simp add: waiting_request_def continuation_matches_kind_def demo_suspended_def demo_state_def demo_request_command_def)
  have auth: "ax_correlation demo_auth = ''c1''" by (simp add: demo_auth_def)
  have "\<exists>k. correlation_for_memorial fixed_digest (demo_waiting id) ''m1'' (Some ''c1'') = Inr k"
    by (rule demo_correlation [where s = "bind_state demo_decision demo_suspended"])
       (simp_all add: demo_waiting_def demo_runs_def empty_db_def, simp add: bind_state_def demo_suspended_def demo_state_def)
  then obtain k where k: "correlation_for_memorial fixed_digest (demo_waiting id) ''m1'' (Some ''c1'') = Inr k" ..
  have "add_or_get fixed_digest ?q (Some ''c1'') (demo_waiting id) = Inr (qr_request \<lparr>qr_request = ?saved, qr_correlation = Some ''c1''\<rparr>, demo_waiting id)"
    using k by (intro add_existing [OF demo_waiting_ok(1)])
      (simp_all add: demo_waiting_def identity_of_def demo_decision_def memorial_bound_def demo_run_defs)
  then have add: "add_request fixed_digest demo_fresh ?q ?c demo_auth (demo_waiting id) = Inr (?saved, demo_waiting id)"
    by (simp add: add_request_def auth)
  have b: "bind_state ?saved demo_suspended = bind_state demo_decision demo_suspended" by (simp add: bind_state_def)
  have m: "rs_memorial (bind_state demo_decision demo_suspended) = ''m1''" by (simp add: bind_state_def demo_suspended_def demo_state_def)
  have "store_waiting fixed_digest id (\<lambda>_. False) ?saved (bind_state ?saved demo_suspended) (demo_waiting id) = Inr ((), demo_waiting id)"
    by (simp add: store_waiting_def b m demo_waiting_load already_waiting_def)
  moreover have "dq_status ?saved = Pending" by (simp add: demo_decision_def)
  ultimately show ?thesis by (simp add: request_with_run_state_def pre add rollback_def finish_def)
qed

theorem request_leaves_run_waiting_witness:
  "\<exists>r \<in> set (db_run_states (demo_waiting id)). rs_phase (rr_state r) = PWaitingDecision \<and>
     cont_pending (rs_continuation (rr_state r)) = Some ''q1''"
proof -
  have "dq_status (demo_decision\<lparr>dq_kind := KOuterLoop\<rparr>) = Pending" "dq_id (demo_decision\<lparr>dq_kind := KOuterLoop\<rparr>) = ''q1''"
    by (simp_all add: demo_decision_def)
  with request_leaves_run_waiting [OF demo_waiting_states demo_loop_request] show ?thesis by (metis (no_types, lifting))
qed

text \<open>
  A suspended run is released only by a closed decision. When \<open>mark_run_state_terminal\<close> succeeds, the
  decision is resolved, expired or cancelled, and the memorial's run state has moved to the phase that
  decision leads to, with the decision recorded as resolved and nothing pending.
\<close>

theorem release_follows_closed_decision:
  assumes dok: "decisions_ok sha d" and ok: "states_ok sha redact d"
    and rel: "mark_run_state_terminal sha redact secret i d = (Inr t, d')"
  shows "\<exists>rec. decision_get sha i d = Inr (Some rec) \<and> dq_status (rec_request rec) \<noteq> Pending \<and>
           load sha redact (dq_memorial (rec_request rec)) d' = Inr (Some t) \<and> rs_phase t = terminal_phase rec \<and>
           cont_pending (rs_continuation t) = None \<and> cont_resolved (rs_continuation t) = Some i"
proof -
  have body: "release_body sha redact secret i {Resolved, Expired, Cancelled} d = Inr (t, d')"
    using rel by (simp add: mark_run_state_terminal_def)
  from release_Inr [OF body] obtain rec current where get: "decision_get sha i d = Inr (Some rec)"
    and st: "dq_status (rec_request rec) \<in> {Resolved, Expired, Cancelled}"
    and ld: "load sha redact (dq_memorial (rec_request rec)) d = Inr (Some current)"
    and alt: "(rs_phase current = terminal_phase rec \<and> cont_pending (rs_continuation current) = None \<and>
             cont_resolved (rs_continuation current) = Some i \<and> t = current \<and> d' = d) \<or>
            (rs_phase current = PWaitingDecision \<and> cont_pending (rs_continuation current) = Some i \<and>
             compare_and_swap sha redact secret (released_state rec current) (rs_version current) d = Inr (t, d'))" by blast
  have id: "dq_id (rec_request rec) = i"
    using decision_get_SomeD [OF get] by (auto simp: rec_of_def row_id_def)
  from alt show ?thesis
  proof
    assume "rs_phase current = terminal_phase rec \<and> cont_pending (rs_continuation current) = None \<and>
             cont_resolved (rs_continuation current) = Some i \<and> t = current \<and> d' = d"
    then show ?thesis using get st ld by auto
  next
    assume w: "rs_phase current = PWaitingDecision \<and> cont_pending (rs_continuation current) = Some i \<and>
             compare_and_swap sha redact secret (released_state rec current) (rs_version current) d = Inr (t, d')"
    let ?s = "released_state rec current"
    have m: "rs_memorial current = dq_memorial (rec_request rec)" using load_SomeD(1) [OF ld] by (auto simp: row_memorial_def)
    from compare_and_swap_Inr [OF ok conjunct2 [OF conjunct2 [OF w]]] obtain r where sw: "swapped r t d d'"
      and t: "t = ?s\<lparr>rs_version := rs_version current + 1\<rparr>" and v: "valid_run_state sha redact t" "decision_binding_ok t" by blast
    have "states_ok sha redact d'" and r': "r\<lparr>rr_state := t\<rparr> \<in> set (db_run_states d')" using swapped_keeps [OF ok sw v] by auto
    moreover have "row_memorial (r\<lparr>rr_state := t\<rparr>) = dq_memorial (rec_request rec)"
      by (simp add: t released_state_def row_memorial_def m)
    ultimately have "load sha redact (dq_memorial (rec_request rec)) d' = Inr (Some t)"
      using states_row_of by (simp add: load_eq)
    then show ?thesis using get st id by (auto simp: t released_state_def)
  qed
qed

lemma demo_release:
  "\<exists>t d'. mark_run_state_terminal fixed_digest id (\<lambda>_. False) ''q1'' (demo_waiting (closed_row Expired 50)) = (Inr t, d')"
proof -
  let ?d = "demo_waiting (closed_row Expired 50)" and ?s = "bind_state demo_decision demo_suspended"
  let ?r = "closed_row Expired 50 \<lparr>qr_request = demo_decision\<lparr>dq_kind := KOuterLoop\<rparr>, qr_correlation = Some ''c1''\<rparr>"
  let ?n = "released_state (rec_of ?d ?r) ?s"
  have rows: "db_decisions ?d = [?r]" "db_resolutions ?d = []" by (simp_all add: demo_waiting_def demo_runs_def empty_db_def)
  have id: "row_id ?r = ''q1''" by (simp add: row_id_def demo_decision_def closed_row_def)
  have get: "decision_get fixed_digest ''q1'' ?d = Inr (Some (rec_of ?d ?r))"
    unfolding decision_get_eq [OF demo_waiting_ok(2)] rows using id by (simp del: closed_row_sel)
  have rec: "rec_of ?d ?r = \<lparr>rec_request = qr_request ?r, rec_resolution = None\<rparr>" by (simp add: rec_of_def rows)
  have n: "?n = ?s\<lparr>rs_phase := PExecuting, rs_continuation := OuterLoop (demo_loop\<lparr>oc_resolved_decision := Some ''q1''\<rparr>), rs_updated := 50\<rparr>"
    unfolding rec by (simp add: released_state_def terminal_phase_def closed_row_def demo_wait_defs demo_decision_def)
  have mem: "rs_memorial ?n = ''m1''" unfolding n by (simp add: demo_wait_defs)
  have ld: "load fixed_digest id (rs_memorial ?n) ?d = Inr (Some ?s)" unfolding mem by (rule demo_waiting_load)
  have val: "valid_run_state fixed_digest id ?n" "decision_binding_ok ?n"
    unfolding n by (simp_all add: demo_wait_defs demo_decision_def valid_run_state_def valid_outer_def valid_usage_def
      decision_binding_ok_def blank_code is_space_def Let_def)
  have "\<exists>d'. compare_and_swap fixed_digest id (\<lambda>_. False) ?n (rs_version ?n) ?d = Inr (?n\<lparr>rs_version := rs_version ?n + 1\<rparr>, d')"
    by (rule swap_succeeds [OF demo_waiting_states ld val])
       (unfold n, simp_all add: demo_wait_defs demo_decision_def scheduled_binding_def plan_lineage_def memorial_bound_def has_edict_def)
  moreover have "rs_version ?n = rs_version ?s" by (simp add: released_state_def)
  ultimately obtain t d' where cas: "compare_and_swap fixed_digest id (\<lambda>_. False) ?n (rs_version ?s) ?d = Inr (t, d')" by auto
  have p: "rs_phase ?s = PWaitingDecision" "cont_pending (rs_continuation ?s) = Some ''q1''"
    by (simp_all add: demo_wait_defs demo_decision_def)
  have q: "dq_kind (rec_request (rec_of ?d ?r)) = KOuterLoop" "dq_status (rec_request (rec_of ?d ?r)) = Expired"
    "dq_memorial (rec_request (rec_of ?d ?r)) = ''m1''"
    unfolding rec by (simp_all add: closed_row_def demo_decision_def)
  have "release_body fixed_digest id (\<lambda>_. False) ''q1'' {Resolved, Expired, Cancelled} ?d = Inr (t, d')"
    by (simp add: release_body_def get q demo_waiting_load p cas)
  then show ?thesis by (auto simp: mark_run_state_terminal_def)
qed

theorem release_follows_closed_decision_witness:
  "\<exists>t d'. mark_run_state_terminal fixed_digest id (\<lambda>_. False) ''q1'' (demo_waiting (closed_row Expired 50)) = (Inr t, d') \<and>
     cont_resolved (rs_continuation t) = Some ''q1''"
  using demo_release release_follows_closed_decision [OF demo_waiting_ok(2) demo_waiting_states] by blast

end
