(* ===== verification/Side_Effect_Journal.thy ===== *)
theory Side_Effect_Journal
  imports Attempt_Ledger
begin

text \<open>
  \<open>storage/side_effect_journal.py\<close>: the durable record of managed side effects. An intent is journalled
  before the effect, a receipt after it, or an uncertainty with the decision that will settle it.
  Functions that end in \<open>current\<close> run in the caller's transaction.
\<close>

section \<open>The table\<close>

text \<open>The CHECK constraints of \<open>side_effect_journal\<close>.\<close>

definition effect_shape :: "effect_row \<Rightarrow> bool" where
  "effect_shape r =
     (case in_status (ef_intent r) of
        Intended \<Rightarrow> in_reason (ef_intent r) = None \<and> ef_decision r = None \<and> ef_receipt r = None
      | Uncertain \<Rightarrow> (case in_reason (ef_intent r) of None \<Rightarrow> False | Some s \<Rightarrow> trim_nonempty s) \<and>
                     ef_decision r \<noteq> None \<and> ef_receipt r = None
      | Receipted \<Rightarrow> in_reason (ef_intent r) = None \<and> ef_decision r = None \<and>
                     (case ef_receipt r of
                        None \<Rightarrow> False
                      | Some c \<Rightarrow> trim_nonempty (rx_owner c) \<and> 0 < rx_fence c \<and>
                                  trim_nonempty (rx_provider_receipt c) \<and> hex64 (rx_result_hash c)))"

definition effect_checks :: "effect_row \<Rightarrow> bool" where
  "effect_checks r =
     (let i = ef_intent r
      in hex64 (in_id i) \<and> trim_nonempty (in_effect i) \<and> in_schema_version i = 1 \<and>
         trim_nonempty (in_owner i) \<and> 0 < in_fence i \<and> 0 \<le> in_sequence i \<and>
         trim_nonempty (in_boundary i) \<and> trim_nonempty (in_operation i) \<and>
         (if supported_provider_semantics (in_semantics i) then in_provider_key i = Some (in_id i)
          else in_provider_key i = None) \<and>
         hex64 (in_request_hash i) \<and> hex64 (in_intent_hash i) \<and> 0 < in_version i \<and> effect_shape r)"

definition effect_references :: "db \<Rightarrow> effect_row \<Rightarrow> bool" where
  "effect_references d r =
     (has_edict d (in_edict (ef_intent r)) \<and> has_memorial d (in_memorial (ef_intent r)) \<and>
      list_ex (\<lambda>a. at_id a = in_attempt (ef_intent r)) (db_attempts d) \<and>
      (case ef_decision r of None \<Rightarrow> True | Some q \<Rightarrow> list_ex (\<lambda>x. dq_id (qr_request x) = q) (db_decisions d)) \<and>
      (case ef_receipt r of None \<Rightarrow> True | Some c \<Rightarrow> list_ex (\<lambda>a. at_id a = rx_attempt c) (db_attempts d)))"

text \<open>The rows an intent may not coincide with: the lookup of \<open>begin_intent_current\<close> and the trigger share it.\<close>

definition same_effect :: "side_effect_intent \<Rightarrow> effect_row \<Rightarrow> bool" where
  "same_effect i r =
     (in_id (ef_intent r) = in_id i \<or> in_effect (ef_intent r) = in_effect i \<or>
      (in_memorial (ef_intent r) = in_memorial i \<and> in_sequence (ef_intent r) = in_sequence i))"

definition insert_effect :: "effect_row \<Rightarrow> db \<Rightarrow> db result" where
  "insert_effect row d =
     (if list_ex (same_effect (ef_intent row)) (db_effects d)
      then Inl (IntegrityError ''side-effect intents are immutable by replacement'')
      else if \<not> effect_checks row then Inl (IntegrityError ''CHECK constraint failed: side_effect_journal'')
      else if \<not> effect_references d row then Inl (IntegrityError ''FOREIGN KEY constraint failed'')
      else if in_provider_key (ef_intent row) \<noteq> None \<and>
              list_ex (\<lambda>r. in_boundary (ef_intent r) = in_boundary (ef_intent row) \<and>
                           in_provider_key (ef_intent r) = in_provider_key (ef_intent row)) (db_effects d)
      then Inl (IntegrityError ''UNIQUE constraint failed'')
      else Inr (d\<lparr>db_effects := db_effects d @ [row]\<rparr>))"

text \<open>
  \<open>UPDATE side_effect_journal\<close>, giving the \<open>rowcount\<close>. The statements of this module leave the identity
  columns alone, so the immutability trigger never fires on them.
\<close>

definition update_effects ::
  "(effect_row \<Rightarrow> bool) \<Rightarrow> (effect_row \<Rightarrow> effect_row) \<Rightarrow> db \<Rightarrow> (nat \<times> db) result" where
  "update_effects p f d =
     (if \<not> list_all (\<lambda>r. p r \<longrightarrow> effect_checks (f r)) (db_effects d)
      then Inl (IntegrityError ''CHECK constraint failed: side_effect_journal'')
      else if \<not> list_all (\<lambda>r. p r \<longrightarrow> effect_references d (f r)) (db_effects d)
      then Inl (IntegrityError ''FOREIGN KEY constraint failed'')
      else Inr (count_rows p (db_effects d), d\<lparr>db_effects := update_rows p f (db_effects d)\<rparr>))"

section \<open>Reading\<close>

definition decode_intent ::
  "(string \<Rightarrow> string) \<Rightarrow> (json \<Rightarrow> bool) \<Rightarrow> effect_row \<Rightarrow> side_effect_intent result" where
  "decode_intent sha sensitive r =
     (if valid_intent sha sensitive (ef_intent r) then Inr (ef_intent r)
      else Inl (SideEffectDecodeError ''persisted side-effect intent violates v1''))"

definition receipt_of :: "side_effect_intent \<Rightarrow> receipt_columns \<Rightarrow> side_effect_receipt" where
  "receipt_of i c =
     \<lparr>rt_intent = in_id i, rt_effect = in_effect i, rt_schema_version = in_schema_version i,
      rt_edict = in_edict i, rt_memorial = in_memorial i, rt_attempt = rx_attempt c, rt_owner = rx_owner c,
      rt_fence = rx_fence c, rt_provider_receipt = rx_provider_receipt c, rt_metadata = rx_metadata c,
      rt_result_hash = rx_result_hash c, rt_version = in_version i, rt_effective = rx_effective c,
      rt_recorded = rx_recorded c\<rparr>"

definition decode_receipt ::
  "(string \<Rightarrow> string) \<Rightarrow> (json \<Rightarrow> bool) \<Rightarrow> effect_row \<Rightarrow> side_effect_receipt option result" where
  "decode_receipt sha sensitive r =
     (if in_status (ef_intent r) \<noteq> Receipted then Inr None
      else case ef_receipt r of
             None \<Rightarrow> Inl (SideEffectDecodeError ''receipt_metadata_json is not text'')
           | Some c \<Rightarrow>
               if in_reason (ef_intent r) = None \<and> valid_receipt sha sensitive (receipt_of (ef_intent r) c)
               then Inr (Some (receipt_of (ef_intent r) c))
               else Inl (SideEffectDecodeError ''persisted side-effect receipt violates v1''))"

definition load_effect ::
  "(string \<Rightarrow> string) \<Rightarrow> (json \<Rightarrow> bool) \<Rightarrow> (effect_row \<Rightarrow> bool) \<Rightarrow> db \<Rightarrow> side_effect_intent option result" where
  "load_effect sha sensitive p d =
     (case find p (db_effects d) of
        None \<Rightarrow> Inr None
      | Some r \<Rightarrow> and_then (decode_intent sha sensitive r) (\<lambda>i. Inr (Some i)))"

definition load_intent_current ::
  "(string \<Rightarrow> string) \<Rightarrow> (json \<Rightarrow> bool) \<Rightarrow> string \<Rightarrow> db \<Rightarrow> side_effect_intent option result" where
  "load_intent_current sha sensitive i = load_effect sha sensitive (\<lambda>r. in_id (ef_intent r) = i)"

definition load_by_position_current ::
  "(string \<Rightarrow> string) \<Rightarrow> (json \<Rightarrow> bool) \<Rightarrow> string \<Rightarrow> int \<Rightarrow> db \<Rightarrow> side_effect_intent option result" where
  "load_by_position_current sha sensitive m n =
     load_effect sha sensitive (\<lambda>r. in_memorial (ef_intent r) = m \<and> in_sequence (ef_intent r) = n)"

definition load_by_effect_current ::
  "(string \<Rightarrow> string) \<Rightarrow> (json \<Rightarrow> bool) \<Rightarrow> string \<Rightarrow> db \<Rightarrow> side_effect_intent option result" where
  "load_by_effect_current sha sensitive e = load_effect sha sensitive (\<lambda>r. in_effect (ef_intent r) = e)"

definition load_receipt_current ::
  "(string \<Rightarrow> string) \<Rightarrow> (json \<Rightarrow> bool) \<Rightarrow> string \<Rightarrow> db \<Rightarrow> side_effect_receipt option result" where
  "load_receipt_current sha sensitive i d =
     (case find (\<lambda>r. in_id (ef_intent r) = i) (db_effects d) of
        None \<Rightarrow> Inr None
      | Some r \<Rightarrow> decode_receipt sha sensitive r)"

definition uncertainty_decision_id_current :: "string \<Rightarrow> db \<Rightarrow> string option" where
  "uncertainty_decision_id_current i d =
     (case find (\<lambda>r. in_id (ef_intent r) = i) (db_effects d) of None \<Rightarrow> None | Some r \<Rightarrow> ef_decision r)"

section \<open>Authority\<close>

text \<open>\<open>_require_current_authority\<close>: a lost fence becomes a journal conflict.\<close>

fun except_fence_lost :: "exn \<Rightarrow> 'a result \<Rightarrow> 'a result" where
  "except_fence_lost e (Inl (AttemptFenceLost m)) = Inl e"
| "except_fence_lost e r = r"

definition require_current_authority :: "string \<Rightarrow> string \<Rightarrow> int \<Rightarrow> instant \<Rightarrow> db \<Rightarrow> unit result" where
  "require_current_authority attempt_id owner_id fencing_token now d =
     except_fence_lost (SideEffectConflict ''side-effect execution fence is no longer current'')
       (require_current attempt_id owner_id fencing_token now d)"

definition require_current_origin :: "side_effect_intent \<Rightarrow> db \<Rightarrow> unit result" where
  "require_current_origin i d =
     (if (case row_by mem_id (in_memorial i) (db_memorials d) of
            None \<Rightarrow> True | Some m \<Rightarrow> mem_edict m \<noteq> in_edict i) \<or>
         (case row_by at_id (in_attempt i) (db_attempts d) of
            None \<Rightarrow> True | Some a \<Rightarrow> at_memorial a \<noteq> in_memorial i)
      then Inl (SideEffectConflict ''side-effect root identity conflict'')
      else require_current_authority (in_attempt i) (in_owner i) (in_fence i) (in_created i) d)"

definition require_current_receipt :: "side_effect_receipt \<Rightarrow> db \<Rightarrow> unit result" where
  "require_current_receipt r d =
     (if (case row_by at_id (rt_attempt r) (db_attempts d) of
            None \<Rightarrow> True | Some a \<Rightarrow> at_memorial a \<noteq> rt_memorial r)
      then Inl (SideEffectConflict ''side-effect receipt root conflict'')
      else require_current_authority (rt_attempt r) (rt_owner r) (rt_fence r) (rt_recorded r) d)"

text \<open>
  The lineage from the origin's attempt up to the current one: every attempt number in between is
  present and failed.
\<close>

definition failed_lineage :: "db \<Rightarrow> string \<Rightarrow> int \<Rightarrow> int \<Rightarrow> bool" where
  "failed_lineage d m origin_no current_no =
     (let lineage = filter (\<lambda>a. at_memorial a = m \<and> origin_no \<le> at_no a \<and> at_no a < current_no) (db_attempts d)
      in int (length lineage) = current_no - origin_no \<and> list_all (\<lambda>a. at_status a = Failed) lineage)"

definition require_reconciliation_authority_current ::
  "side_effect_intent \<Rightarrow> string \<Rightarrow> string \<Rightarrow> int \<Rightarrow> instant \<Rightarrow> db \<Rightarrow> unit result" where
  "require_reconciliation_authority_current origin attempt_id owner_id fencing_token now d =
     and_then (require_current_authority attempt_id owner_id fencing_token now d) (\<lambda>_.
       case (row_by at_id (in_attempt origin) (db_attempts d), row_by at_id attempt_id (db_attempts d)) of
         (Some origin_row, Some current_row) \<Rightarrow>
           if at_memorial origin_row \<noteq> in_memorial origin \<or> at_memorial current_row \<noteq> in_memorial origin \<or>
              at_fence origin_row < in_fence origin \<or> fencing_token < at_fence origin_row
           then Inl (SideEffectConflict ''side-effect reconciliation root or origin conflict'')
           else
             (let exact_origin = (attempt_id = in_attempt origin \<and> owner_id = in_owner origin \<and>
                                  fencing_token = in_fence origin);
                  reclaimed_origin = (attempt_id = in_attempt origin \<and> in_fence origin < fencing_token);
                  descendant = (at_no origin_row < at_no current_row \<and> in_fence origin < fencing_token \<and>
                                failed_lineage d (in_memorial origin) (at_no origin_row) (at_no current_row))
              in raise_unless (exact_origin \<or> reclaimed_origin \<or> descendant)
                   (SideEffectConflict ''side-effect reconciliation authority is unrelated''))
       | _ \<Rightarrow> Inl (SideEffectConflict ''side-effect reconciliation root or origin conflict''))"

section \<open>Intents\<close>

definition new_effect_row :: "side_effect_intent \<Rightarrow> string \<Rightarrow> effect_row" where
  "new_effect_row i correlation =
     \<lparr>ef_intent = i\<lparr>in_schema_version := 1, in_status := Intended, in_reason := None, in_version := 1\<rparr>,
      ef_decision = None, ef_receipt = None, ef_correlation = Some correlation\<rparr>"

text \<open>
  Several rows can match the lookup only when none of them equals the intent, and then every choice of
  the one that is fetched ends in the same conflict.
\<close>

definition begin_intent_current ::
  "(string \<Rightarrow> string) \<Rightarrow> (json \<Rightarrow> bool) \<Rightarrow> side_effect_intent \<Rightarrow> db \<Rightarrow> (side_effect_intent \<times> db) result" where
  "begin_intent_current sha sensitive i d =
     (if in_status i \<noteq> Intended \<or> in_version i \<noteq> 1
      then Inl (ValueError ''new side-effect intent must be intended at version 1'')
      else case find (same_effect i) (db_effects d) of
        Some row \<Rightarrow>
          and_then (decode_intent sha sensitive row) (\<lambda>existing.
            if existing = i then Inr (existing, d)
            else Inl (SideEffectConflict ''side-effect intent identity conflict''))
      | None \<Rightarrow>
          and_then (require_current_origin i d) (\<lambda>_.
          and_then (correlation_for_memorial sha d (in_memorial i) None) (\<lambda>correlation.
          and_then (canonical_json_bytes (JObj (in_metadata i))) (\<lambda>_.
          and_then (except_integrity (SideEffectConflict ''side-effect intent identity conflict'')
             (insert_effect (new_effect_row i correlation) d)) (\<lambda>d'.
            Inr (i, d'))))))"

definition begin_intent ::
  "(string \<Rightarrow> string) \<Rightarrow> (json \<Rightarrow> bool) \<Rightarrow> side_effect_intent \<Rightarrow> db \<Rightarrow> side_effect_intent result \<times> db" where
  "begin_intent sha sensitive i = atomically (begin_intent_current sha sensitive i)"

section \<open>Receipts\<close>

definition columns_of :: "side_effect_receipt \<Rightarrow> receipt_columns" where
  "columns_of r =
     \<lparr>rx_attempt = rt_attempt r, rx_owner = rt_owner r, rx_fence = rt_fence r,
      rx_provider_receipt = rt_provider_receipt r, rx_metadata = rt_metadata r,
      rx_result_hash = rt_result_hash r, rx_effective = rt_effective r, rx_recorded = rt_recorded r\<rparr>"

definition receipted_row :: "side_effect_receipt \<Rightarrow> effect_row \<Rightarrow> effect_row" where
  "receipted_row r row =
     row\<lparr>ef_intent := (ef_intent row)\<lparr>in_status := Receipted, in_version := in_version (ef_intent row) + 1,
                                       in_updated := rt_recorded r\<rparr>,
         ef_receipt := Some (columns_of r)\<rparr>"

text \<open>The guard both updates share: the intent is still intended at the version the caller read.\<close>

definition intended_at :: "string \<Rightarrow> int \<Rightarrow> effect_row \<Rightarrow> bool" where
  "intended_at i v r =
     (in_id (ef_intent r) = i \<and> in_status (ef_intent r) = Intended \<and> in_version (ef_intent r) = v)"

definition receipt_matches :: "side_effect_receipt \<Rightarrow> int \<Rightarrow> side_effect_intent \<Rightarrow> bool" where
  "receipt_matches r expected_version i =
     (in_status i = Intended \<and> in_version i = expected_version \<and> rt_version r = expected_version + 1 \<and>
      rt_effect r = in_effect i \<and> rt_edict r = in_edict i \<and> rt_memorial r = in_memorial i)"

definition store_receipt ::
  "(string \<Rightarrow> string) \<Rightarrow> (json \<Rightarrow> bool) \<Rightarrow> side_effect_receipt \<Rightarrow> int \<Rightarrow> db \<Rightarrow> (side_effect_receipt \<times> db) result" where
  "store_receipt sha sensitive r expected_version d =
     and_then (canonical_json_bytes (JObj (rt_metadata r))) (\<lambda>_.
     and_then (update_effects (intended_at (rt_intent r) expected_version) (receipted_row r) d) (\<lambda>(n, d').
       if n \<noteq> 1 then Inl (SideEffectConflict ''side-effect receipt compare-and-swap conflict'')
       else and_then (load_receipt_current sha sensitive (rt_intent r) d') (\<lambda>durable.
         case durable of
           None \<Rightarrow> Inl (SideEffectConflict ''side-effect receipt disappeared'')
         | Some x \<Rightarrow> Inr (x, d'))))"

definition record_receipt_current ::
  "(string \<Rightarrow> string) \<Rightarrow> (json \<Rightarrow> bool) \<Rightarrow> side_effect_receipt \<Rightarrow> int \<Rightarrow> db \<Rightarrow> (side_effect_receipt \<times> db) result" where
  "record_receipt_current sha sensitive r expected_version d =
     (case find (\<lambda>x. in_id (ef_intent x) = rt_intent r) (db_effects d) of
        None \<Rightarrow> Inl (SideEffectConflict ''side-effect receipt intent is missing'')
      | Some row \<Rightarrow>
          and_then (decode_receipt sha sensitive row) (\<lambda>existing.
            case existing of
              Some e \<Rightarrow>
                if e = r \<and> expected_version < rt_version e then Inr (e, d)
                else Inl (SideEffectConflict ''side-effect receipt conflict'')
            | None \<Rightarrow>
                and_then (decode_intent sha sensitive row) (\<lambda>i.
                and_then (raise_unless (receipt_matches r expected_version i)
                   (SideEffectConflict ''side-effect receipt identity or version conflict'')) (\<lambda>_.
                and_then (require_current_receipt r d) (\<lambda>_.
                  store_receipt sha sensitive r expected_version d)))))"

definition record_receipt ::
  "(string \<Rightarrow> string) \<Rightarrow> (json \<Rightarrow> bool) \<Rightarrow> side_effect_receipt \<Rightarrow> int \<Rightarrow> db \<Rightarrow> side_effect_receipt result \<times> db" where
  "record_receipt sha sensitive r expected_version =
     atomically (record_receipt_current sha sensitive r expected_version)"

section \<open>Uncertainty\<close>

definition uncertain_row :: "string \<Rightarrow> string \<Rightarrow> instant \<Rightarrow> effect_row \<Rightarrow> effect_row" where
  "uncertain_row reason decision_id updated_at row =
     row\<lparr>ef_intent := (ef_intent row)\<lparr>in_status := Uncertain, in_reason := Some reason,
                                       in_version := in_version (ef_intent row) + 1, in_updated := updated_at\<rparr>,
         ef_decision := Some decision_id\<rparr>"

definition mark_uncertain_current ::
  "(string \<Rightarrow> string) \<Rightarrow> (json \<Rightarrow> bool) \<Rightarrow> string \<Rightarrow> string \<Rightarrow> string \<Rightarrow> int \<Rightarrow> int \<Rightarrow> string \<Rightarrow> string \<Rightarrow> instant \<Rightarrow> db \<Rightarrow>
   (side_effect_intent \<times> db) result" where
  "mark_uncertain_current sha sensitive i attempt_id owner_id fencing_token expected_version reason decision_id updated_at d =
     and_then (load_intent_current sha sensitive i d) (\<lambda>loaded.
       case loaded of
         None \<Rightarrow> Inl (SideEffectConflict ''side-effect intent is missing'')
       | Some current \<Rightarrow>
           if in_status current = Uncertain
           then (if in_reason current = Some reason \<and> uncertainty_decision_id_current i d = Some decision_id \<and>
                    expected_version < in_version current
                 then Inr (current, d)
                 else Inl (SideEffectConflict ''side-effect uncertainty conflict''))
           else if in_status current \<noteq> Intended \<or> in_version current \<noteq> expected_version
           then Inl (SideEffectConflict ''side-effect uncertainty version conflict'')
           else
             and_then (require_current_authority attempt_id owner_id fencing_token updated_at d) (\<lambda>_.
             and_then (update_effects (intended_at i expected_version) (uncertain_row reason decision_id updated_at) d)
               (\<lambda>(n, d').
               if n \<noteq> 1 then Inl (SideEffectConflict ''side-effect uncertainty compare-and-swap conflict'')
               else and_then (load_intent_current sha sensitive i d') (\<lambda>durable.
                 case durable of
                   None \<Rightarrow> Inl (SideEffectConflict ''side-effect uncertainty disappeared'')
                 | Some x \<Rightarrow> Inr (x, d')))))"

definition mark_uncertain ::
  "(string \<Rightarrow> string) \<Rightarrow> (json \<Rightarrow> bool) \<Rightarrow> string \<Rightarrow> string \<Rightarrow> string \<Rightarrow> int \<Rightarrow> int \<Rightarrow> string \<Rightarrow> string option \<Rightarrow> instant \<Rightarrow> db \<Rightarrow>
   side_effect_intent result \<times> db" where
  "mark_uncertain sha sensitive i attempt_id owner_id fencing_token expected_version reason decision_id updated_at d =
     (case decision_id of
        None \<Rightarrow> (and_then (require_current_authority attempt_id owner_id fencing_token updated_at d) (\<lambda>_.
                   Inl (SideEffectConflict ''side-effect uncertainty requires a durable decision'')), d)
      | Some q \<Rightarrow> atomically (mark_uncertain_current sha sensitive i attempt_id owner_id fencing_token
                    expected_version reason q updated_at) d)"

end
