(* ===== verification/Managed_Effects.thy ===== *)
theory Managed_Effects
  imports Side_Effect_Journal Decision_Service
begin

text \<open>
  \<open>executor/side_effects.py\<close>: the managed boundary around one external effect. It journals the intent,
  calls the provider, journals the receipt; an effect no provider can reconcile is turned into a decision
  and the run is suspended on it. The provider is a parameter (\<open>boundary\<close>) acting on a world of its own,
  and \<open>hook\<close> is the service's boundary hook, which may raise at the points where it is called.
\<close>

section \<open>Data\<close>

record attempt_authority =
  aa_attempt :: string
  aa_memorial :: string
  aa_owner :: string
  aa_fence :: int

record provider_receipt =
  pv_id :: string
  pv_metadata :: payload
  pv_effective :: instant

record managed_result =
  mr_receipt :: "side_effect_receipt option"
  mr_decision :: "string option"
  mr_uncertain :: bool
  mr_reconciled :: bool

record 'w boundary =
  bd_name :: string
  bd_semantics :: side_effect_semantics
  bd_invoke :: "side_effect_intent \<Rightarrow> 'w \<Rightarrow> provider_receipt result \<times> 'w"
  bd_lookup :: "string \<Rightarrow> 'w \<Rightarrow> provider_receipt option result \<times> 'w"

text \<open>What the clocks of the two services read at the points where they are read.\<close>

record effect_clock =
  ck_begin :: instant
  ck_check :: instant
  ck_record :: instant
  ck_suspend :: instant
  ck_request :: instant

text \<open>The optional arguments an unsupported effect needs.\<close>

record suspension_inputs =
  su_run_state :: "run_state option"
  su_auth :: "auth_context option"
  su_expires :: "instant option"

section \<open>Checks\<close>

definition validate_boundary :: "side_effect_intent \<Rightarrow> 'w boundary \<Rightarrow> unit result" where
  "validate_boundary i b =
     raise_unless (bd_name b = in_boundary i \<and> bd_semantics b = in_semantics i)
       (ValueError ''managed side-effect boundary does not match intent'')"

definition validate_uncertainty_inputs :: "side_effect_intent \<Rightarrow> suspension_inputs \<Rightarrow> (run_state \<times> auth_context \<times> instant) result" where
  "validate_uncertainty_inputs i inputs =
     (case (su_run_state inputs, su_auth inputs, su_expires inputs) of
        (Some s, Some auth, Some t) \<Rightarrow>
          if rs_memorial s = in_memorial i \<and> rs_edict s = in_edict i then Inr (s, auth, t)
          else Inl (ValueError ''unsupported effect requires durable Decision suspension inputs'')
      | _ \<Rightarrow> Inl (ValueError ''unsupported effect requires durable Decision suspension inputs''))"

definition require_authority_matches_requested :: "attempt_authority \<Rightarrow> side_effect_intent \<Rightarrow> unit result" where
  "require_authority_matches_requested au i =
     raise_unless (aa_attempt au = in_attempt i \<and> aa_memorial au = in_memorial i \<and> aa_owner au = in_owner i \<and>
                   aa_fence au = in_fence i)
       (SideEffectConflict ''side-effect originating authority conflict'')"

definition same_business_intent :: "side_effect_intent \<Rightarrow> side_effect_intent \<Rightarrow> bool" where
  "same_business_intent existing requested =
     (in_id existing = in_id requested \<and> in_effect existing = in_effect requested \<and>
      in_edict existing = in_edict requested \<and> in_memorial existing = in_memorial requested \<and>
      in_sequence existing = in_sequence requested \<and> in_boundary existing = in_boundary requested \<and>
      in_operation existing = in_operation requested \<and> in_semantics existing = in_semantics requested \<and>
      in_request_hash existing = in_request_hash requested \<and> in_provider_key existing = in_provider_key requested)"

definition authority_current :: "attempt_authority \<Rightarrow> instant \<Rightarrow> db \<Rightarrow> unit result" where
  "authority_current au now d = require_current (aa_attempt au) (aa_owner au) (aa_fence au) now d"

section \<open>Journalling\<close>

definition recover_intent ::
  "attempt_authority \<Rightarrow> side_effect_intent \<Rightarrow> instant \<Rightarrow> side_effect_intent \<Rightarrow> db \<Rightarrow> (side_effect_intent \<times> db) result" where
  "recover_intent au requested now existing d =
     (if \<not> same_business_intent existing requested
      then Inl (SideEffectConflict ''side-effect replay identity conflict'')
      else
        (let exact_origin = (aa_attempt au = in_attempt existing \<and> aa_owner au = in_owner existing \<and> aa_fence au = in_fence existing)
         in and_then (if in_status existing = Intended \<or> \<not> exact_origin
                      then require_reconciliation_authority_current existing (aa_attempt au) (aa_owner au) (aa_fence au) now d
                      else Inr ()) (\<lambda>_. Inr (existing, d))))"

definition begin_or_recover ::
  "(string \<Rightarrow> string) \<Rightarrow> (json \<Rightarrow> bool) \<Rightarrow> attempt_authority \<Rightarrow> side_effect_intent \<Rightarrow> instant \<Rightarrow> db \<Rightarrow> side_effect_intent result \<times> db" where
  "begin_or_recover sha sensitive au requested now d =
     (case require_authority_matches_requested au requested of
        Inl e \<Rightarrow> (Inl e, d)
      | Inr _ \<Rightarrow>
          atomically (\<lambda>d. and_then (load_by_position_current sha sensitive (in_memorial requested) (in_sequence requested) d)
            (\<lambda>found. case found of
               None \<Rightarrow> begin_intent_current sha sensitive requested d
             | Some existing \<Rightarrow> recover_intent au requested now existing d)) d)"

text \<open>The receipt of a provider's answer; building the model validates it.\<close>

definition receipt_for ::
  "(string \<Rightarrow> string) \<Rightarrow> (json \<Rightarrow> bool) \<Rightarrow> attempt_authority \<Rightarrow> side_effect_intent \<Rightarrow> provider_receipt \<Rightarrow> instant \<Rightarrow>
   side_effect_receipt result" where
  "receipt_for sha sensitive au i p now =
     and_then (canonical_sha256 sha (JObj (pv_metadata p))) (\<lambda>h.
       let r = \<lparr>rt_intent = in_id i, rt_effect = in_effect i, rt_schema_version = 1, rt_edict = in_edict i,
                rt_memorial = in_memorial i, rt_attempt = aa_attempt au, rt_owner = aa_owner au, rt_fence = aa_fence au,
                rt_provider_receipt = pv_id p, rt_metadata = pv_metadata p, rt_result_hash = h,
                rt_version = in_version i + 1, rt_effective = pv_effective p, rt_recorded = now\<rparr>
       in if valid_receipt sha sensitive r then Inr r else Inl (ValueError ''side-effect receipt is invalid''))"

definition record_effect ::
  "(string \<Rightarrow> string) \<Rightarrow> (json \<Rightarrow> bool) \<Rightarrow> attempt_authority \<Rightarrow> side_effect_intent \<Rightarrow> provider_receipt \<Rightarrow> instant \<Rightarrow> db \<Rightarrow>
   side_effect_receipt result \<times> db" where
  "record_effect sha sensitive au i p now d =
     (case receipt_for sha sensitive au i p now of
        Inl e \<Rightarrow> (Inl e, d)
      | Inr r \<Rightarrow> record_receipt sha sensitive r (in_version i) d)"

section \<open>Suspension\<close>

definition effect_arguments :: "side_effect_intent \<Rightarrow> payload" where
  "effect_arguments i =
     [(''effect_id'', JStr (in_effect i)), (''intent_id'', JStr (in_id i)), (''request_hash'', JStr (in_request_hash i)),
      (''semantics'', JStr (semantics_value (in_semantics i)))]"

definition effect_tool :: "side_effect_intent \<Rightarrow> string" where
  "effect_tool i = in_boundary i @ '':'' @ in_operation i"

definition effect_command :: "side_effect_intent \<Rightarrow> instant \<Rightarrow> request_decision_command" where
  "effect_command i expires =
     \<lparr>rc_kind = KTool, rc_edict = in_edict i, rc_memorial = in_memorial i, rc_key = ''side-effect:'' @ in_id i,
      rc_payload = [(''arguments'', JObj (effect_arguments i)), (''policy_rule_id'', JStr ''managed_side_effect_unsupported''),
                    (''schema_version'', JInt 1), (''tool_name'', JStr (effect_tool i)), (''tool_tier'', JStr ''uncertain'')],
      rc_expires = expires\<rparr>"

definition effect_proposal :: "(string \<Rightarrow> string) \<Rightarrow> side_effect_intent \<Rightarrow> instant \<Rightarrow> tool_proposal result" where
  "effect_proposal sha i proposed_at =
     and_then (canonical_sha256 sha (JObj (effect_arguments i))) (\<lambda>h.
       let p = \<lparr>tp_call_id = in_effect i, tp_tool_name = effect_tool i, tp_arguments = effect_arguments i,
                tp_arguments_hash = h, tp_tier = ''uncertain'', tp_policy_rule = Some ''managed_side_effect_unsupported'',
                tp_proposed_at = proposed_at\<rparr>
       in if valid_tool_proposal sha p then Inr p else Inl (ValueError ''tool proposal is invalid''))"

definition suspended_state :: "run_state \<Rightarrow> agent_continuation \<Rightarrow> tool_proposal \<Rightarrow> string \<Rightarrow> instant \<Rightarrow> run_state" where
  "suspended_state current a p q now =
     current\<lparr>rs_phase := PWaitingDecision,
       rs_continuation := Agent (a\<lparr>ac_pending_tool := Some p, ac_pending_decision := Some q, ac_resolved_decision := None\<rparr>),
       rs_updated := now\<rparr>"

definition decision_requested_event :: "auth_context \<Rightarrow> side_effect_intent \<Rightarrow> decision_request \<Rightarrow> instant \<Rightarrow> event_envelope" where
  "decision_requested_event auth i q now =
     \<lparr>ee_id = dq_id q @ '':decision.requested'', ee_type = ''decision.requested'', ee_edict = Some (in_edict i),
      ee_memorial = Some (in_memorial i), ee_attempt = 1, ee_timestamp = now, ee_producer = ''managed-side-effect.v1'',
      ee_payload = [(''correlation_id'', JStr (ax_correlation auth)), (''decision_request_id'', JStr (dq_id q)),
                    (''intent_id'', JStr (in_id i)), (''kind'', JStr (kind_value (dq_kind q))), (''schema_version'', JInt 1)]\<rparr>"

definition suspended_outcome :: "instant \<Rightarrow> attempt_outcome" where
  "suspended_outcome now = \<lparr>out_disposition = DSuspended, out_completed_at = now, out_failure = None, out_retry_at = None\<rparr>"

text \<open>The agent continuation of a run that may be suspended.\<close>

definition suspendable :: "run_state \<Rightarrow> agent_continuation option" where
  "suspendable s =
     (case rs_continuation s of
        Agent a \<Rightarrow> if rs_phase s = PExecuting \<and> ac_pending_decision a = None \<and> ac_pending_tool a = None then Some a else None
      | OuterLoop l \<Rightarrow> None)"

text \<open>
  The transaction of \<open>_suspend_uncertain\<close>. \<open>request_in_transaction\<close> may append a denial to the audit log
  before it raises; here that append is undone with the rest of the transaction.
\<close>

definition suspend_body ::
  "(string \<Rightarrow> string) \<Rightarrow> (string \<Rightarrow> string) \<Rightarrow> (run_state \<Rightarrow> bool) \<Rightarrow> (json \<Rightarrow> bool) \<Rightarrow> (string \<Rightarrow> unit result) \<Rightarrow> fresh \<Rightarrow> string \<Rightarrow>
   effect_clock \<Rightarrow> attempt_authority \<Rightarrow> side_effect_intent \<Rightarrow> run_state \<Rightarrow> auth_context \<Rightarrow> instant \<Rightarrow> db \<Rightarrow> (decision_request \<times> db) result" where
  "suspend_body sha redact secret sensitive hook fr new_id clk au i s auth expires d =
     and_then (authority_current au (ck_suspend clk) d) (\<lambda>_.
     and_then (load sha redact (in_memorial i) d) (\<lambda>current.
       if current \<noteq> Some s then Inl (SideEffectConflict ''side-effect RunState changed before suspension'')
       else case suspendable s of
         None \<Rightarrow> Inl (SideEffectConflict ''side-effect RunState cannot be suspended'')
       | Some a \<Rightarrow>
           (case request_in_transaction sha fr (effect_command i expires) auth (ck_request clk) d of
              (Inl e, _) \<Rightarrow> Inl e
            | (Inr q, d1) \<Rightarrow>
                and_then (effect_proposal sha i (dq_created q)) (\<lambda>p.
                and_then (compare_and_swap sha redact secret (suspended_state s a p (dq_id q) (ck_suspend clk)) (rs_version s) d1) (\<lambda>(_, d2).
                and_then (mark_uncertain_current sha sensitive (in_id i) (aa_attempt au) (aa_owner au) (aa_fence au) (in_version i)
                   (''unsupported_'' @ semantics_value (in_semantics i)) (dq_id q) (ck_suspend clk) d2) (\<lambda>(_, d3).
                and_then (hook ''before_decision_outbox'') (\<lambda>_.
                and_then (outbox_add sha (decision_requested_event auth i q (ck_suspend clk)) d3) (\<lambda>d4.
                and_then (hook ''before_suspend_attempt'') (\<lambda>_.
                and_then (complete_current sha new_id (aa_attempt au) (aa_owner au) (aa_fence au) (suspended_outcome (ck_suspend clk)) d4) (\<lambda>(done, d5).
                  if done then Inr (q, d5)
                  else Inl (AttemptFenceLost ''attempt authority is no longer current'')))))))))))"

definition suspend_uncertain ::
  "(string \<Rightarrow> string) \<Rightarrow> (string \<Rightarrow> string) \<Rightarrow> (run_state \<Rightarrow> bool) \<Rightarrow> (json \<Rightarrow> bool) \<Rightarrow> (string \<Rightarrow> unit result) \<Rightarrow> fresh \<Rightarrow> string \<Rightarrow>
   effect_clock \<Rightarrow> attempt_authority \<Rightarrow> side_effect_intent \<Rightarrow> run_state \<Rightarrow> auth_context \<Rightarrow> instant \<Rightarrow> db \<Rightarrow> managed_result result \<times> db" where
  "suspend_uncertain sha redact secret sensitive hook fr new_id clk au i s auth expires d =
     (case atomically (suspend_body sha redact secret sensitive hook fr new_id clk au i s auth expires) d of
        (Inl e, d') \<Rightarrow> (Inl e, d')
      | (Inr q, d') \<Rightarrow> (Inr \<lparr>mr_receipt = None, mr_decision = Some (dq_id q), mr_uncertain = True, mr_reconciled = False\<rparr>, d'))"

section \<open>Execution\<close>

text \<open>Ask the provider: look a receipt up where the semantics provide it, invoke otherwise.\<close>

definition ask_provider ::
  "'w boundary \<Rightarrow> (string \<Rightarrow> unit result) \<Rightarrow> side_effect_intent \<Rightarrow> 'w \<Rightarrow> (provider_receipt \<times> bool) result \<times> 'w" where
  "ask_provider b hook i w =
     (let (found, w1) = (if in_semantics i = ReceiptLookup then bd_lookup b (the (in_provider_key i)) w else (Inr None, w))
      in case found of
           Inl e \<Rightarrow> (Inl e, w1)
         | Inr (Some p) \<Rightarrow> (Inr (p, True), w1)
         | Inr None \<Rightarrow>
             (let (answer, w2) = bd_invoke b i w1
              in (and_then answer (\<lambda>p. and_then (hook ''after_provider'') (\<lambda>_. Inr (p, False))), w2)))"

definition perform_effect ::
  "(string \<Rightarrow> string) \<Rightarrow> (json \<Rightarrow> bool) \<Rightarrow> 'w boundary \<Rightarrow> (string \<Rightarrow> unit result) \<Rightarrow> effect_clock \<Rightarrow> attempt_authority \<Rightarrow>
   side_effect_intent \<Rightarrow> db \<Rightarrow> 'w \<Rightarrow> managed_result result \<times> db \<times> 'w" where
  "perform_effect sha sensitive b hook clk au i d w =
     (case authority_current au (ck_check clk) d of
        Inl e \<Rightarrow> (Inl e, d, w)
      | Inr _ \<Rightarrow>
          (case ask_provider b hook i w of
             (Inl e, w') \<Rightarrow> (Inl e, d, w')
           | (Inr (p, reconciled), w') \<Rightarrow>
               (case record_effect sha sensitive au i p (ck_record clk) d of
                  (Inl e, d') \<Rightarrow> (Inl e, d', w')
                | (Inr r, d') \<Rightarrow>
                    (and_then (hook ''after_receipt'') (\<lambda>_. Inr \<lparr>mr_receipt = Some r, mr_decision = None, mr_uncertain = False,
                       mr_reconciled = reconciled\<rparr>), d', w'))))"

definition settled_result ::
  "(string \<Rightarrow> string) \<Rightarrow> (json \<Rightarrow> bool) \<Rightarrow> side_effect_intent \<Rightarrow> db \<Rightarrow> managed_result result" where
  "settled_result sha sensitive i d =
     (if in_status i = Receipted
      then and_then (load_receipt_current sha sensitive (in_id i) d) (\<lambda>found.
        case found of
          None \<Rightarrow> Inl (SideEffectConflict ''receipted intent has no durable receipt'')
        | Some r \<Rightarrow> Inr \<lparr>mr_receipt = Some r, mr_decision = None, mr_uncertain = False, mr_reconciled = True\<rparr>)
      else case uncertainty_decision_id_current (in_id i) d of
          None \<Rightarrow> Inl (SideEffectConflict ''uncertain intent has no durable decision'')
        | Some q \<Rightarrow> Inr \<lparr>mr_receipt = None, mr_decision = Some q, mr_uncertain = True, mr_reconciled = False\<rparr>)"

definition execute ::
  "(string \<Rightarrow> string) \<Rightarrow> (string \<Rightarrow> string) \<Rightarrow> (run_state \<Rightarrow> bool) \<Rightarrow> (json \<Rightarrow> bool) \<Rightarrow> 'w boundary \<Rightarrow> (string \<Rightarrow> unit result) \<Rightarrow>
   fresh \<Rightarrow> string \<Rightarrow> effect_clock \<Rightarrow> attempt_authority \<Rightarrow> side_effect_intent \<Rightarrow> suspension_inputs \<Rightarrow> db \<Rightarrow> 'w \<Rightarrow>
   managed_result result \<times> db \<times> 'w" where
  "execute sha redact secret sensitive b hook fr new_id clk au requested inputs d w =
     (let unsupported = \<not> supported_provider_semantics (in_semantics requested);
          checked = and_then (validate_boundary requested b) (\<lambda>_.
            if unsupported then and_then (validate_uncertainty_inputs requested inputs) (\<lambda>x. Inr (Some x)) else Inr None)
      in case checked of
           Inl e \<Rightarrow> (Inl e, d, w)
         | Inr suspension \<Rightarrow>
             (case begin_or_recover sha sensitive au requested (ck_begin clk) d of
                (Inl e, d1) \<Rightarrow> (Inl e, d1, w)
              | (Inr durable, d1) \<Rightarrow>
                  if in_status durable \<noteq> Intended then (settled_result sha sensitive durable d1, d1, w)
                  else
                    (case hook ''after_intent'' of
                       Inl e \<Rightarrow> (Inl e, d1, w)
                     | Inr _ \<Rightarrow>
                         (case suspension of
                            Some (s, auth, expires) \<Rightarrow>
                              (let (res, d2) = suspend_uncertain sha redact secret sensitive hook fr new_id clk au durable s auth expires d1
                               in (res, d2, w))
                          | None \<Rightarrow> perform_effect sha sensitive b hook clk au durable d1 w))))"

end
