(* ===== verification/Effect_Safety.thy ===== *)
theory Effect_Safety
  imports Side_Effect_Journal Attempt_Safety
begin

text \<open>
  What the side-effect journal guarantees: its entries are settled at most once and never rewritten, and
  only a live execution authority settles them.
\<close>

section \<open>The journal's invariant\<close>

abbreviation effect_key :: "effect_row \<Rightarrow> string" where
  "effect_key r \<equiv> in_id (ef_intent r)"

abbreviation effect_position :: "effect_row \<Rightarrow> string \<times> int" where
  "effect_position r \<equiv> (in_memorial (ef_intent r), in_sequence (ef_intent r))"

text \<open>
  A receipt may carry an earlier time than its intent: the update of a receipted row is not compared
  with the creation of its intent, so the order of the two is not part of the invariant there.
\<close>

definition effect_ok :: "(string \<Rightarrow> string) \<Rightarrow> (json \<Rightarrow> bool) \<Rightarrow> effect_row \<Rightarrow> bool" where
  "effect_ok sha sensitive r =
     (valid_intent sha sensitive ((ef_intent r)\<lparr>in_updated := max (in_created (ef_intent r)) (in_updated (ef_intent r))\<rparr>) \<and>
      (in_status (ef_intent r) \<noteq> Receipted \<longrightarrow> in_created (ef_intent r) \<le> in_updated (ef_intent r)) \<and>
      effect_shape r \<and>
      (\<forall>c. ef_receipt r = Some c \<longrightarrow> valid_receipt sha sensitive (receipt_of (ef_intent r) c)))"

definition effects_ok :: "(string \<Rightarrow> string) \<Rightarrow> (json \<Rightarrow> bool) \<Rightarrow> db \<Rightarrow> bool" where
  "effects_ok sha sensitive d =
     (distinct (map effect_key (db_effects d)) \<and> distinct (map effect_position (db_effects d)) \<and>
      distinct (map (\<lambda>r. in_effect (ef_intent r)) (db_effects d)) \<and>
      (\<forall>r \<in> set (db_effects d). effect_ok sha sensitive r))"

definition effect_moves :: "effect_row \<Rightarrow> effect_row \<Rightarrow> bool" where
  "effect_moves r r' =
     (r' = r \<or>
      (in_status (ef_intent r) = Intended \<and> in_status (ef_intent r') \<noteq> Intended \<and>
       (\<exists>s q t. ef_intent r' = (ef_intent r)\<lparr>in_status := s, in_reason := q, in_version := in_version (ef_intent r) + 1,
                                            in_updated := t\<rparr>)))"

definition effects_evolve :: "db \<Rightarrow> db \<Rightarrow> bool" where
  "effects_evolve d d' = (\<forall>r \<in> set (db_effects d). \<exists>r' \<in> set (db_effects d'). effect_moves r r')"

lemma effect_moves_refl [simp]: "effect_moves r r"
  by (simp add: effect_moves_def)

lemma effect_moves_trans: "effect_moves r s \<Longrightarrow> effect_moves s t \<Longrightarrow> effect_moves r t"
  unfolding effect_moves_def by metis

lemma effects_evolve_refl [simp]: "effects_evolve d d"
  by (auto simp: effects_evolve_def intro: effect_moves_refl)

lemma effects_evolve_trans: "effects_evolve d d' \<Longrightarrow> effects_evolve d' d'' \<Longrightarrow> effects_evolve d d''"
  unfolding effects_evolve_def using effect_moves_trans by metis

lemma effect_row_unique:
  "effects_ok sha sensitive d \<Longrightarrow> r \<in> set (db_effects d) \<Longrightarrow> effect_key r = i \<Longrightarrow> row_by effect_key i (db_effects d) = Some r"
  by (rule row_by_unique) (auto simp: effects_ok_def)

lemma effect_same_key:
  assumes "effects_ok sha sensitive d" "r \<in> set (db_effects d)" "s \<in> set (db_effects d)" "effect_key r = effect_key s"
  shows "r = s"
  using effect_row_unique [OF assms(1,2) assms(4)] effect_row_unique [OF assms(1,3) refl] by (metis option.inject)

lemma find_effect: "find (\<lambda>r. in_id (ef_intent r) = i) rows = row_by effect_key i rows"
  by (simp add: row_by_def)

lemma decode_intent_Inr: "decode_intent sha sensitive r = Inr i \<longleftrightarrow> valid_intent sha sensitive (ef_intent r) \<and> i = ef_intent r"
  by (auto simp: decode_intent_def)

lemma effect_ok_open:
  assumes "effect_ok sha sensitive r" "in_status (ef_intent r) \<noteq> Receipted"
  shows "valid_intent sha sensitive (ef_intent r)"
proof -
  have "max (in_created (ef_intent r)) (in_updated (ef_intent r)) = in_updated (ef_intent r)"
    using assms by (simp add: effect_ok_def)
  then show ?thesis using assms(1) by (simp add: effect_ok_def)
qed

lemma valid_intent_move:
  assumes "valid_intent sha sensitive i" "1 \<le> v" "s = Uncertain \<longleftrightarrow> q \<noteq> None" "opt_nonblank q" "in_created i \<le> t"
  shows "valid_intent sha sensitive (i\<lparr>in_status := s, in_reason := q, in_version := v, in_updated := t\<rparr>)"
  using assms by (simp add: valid_intent_def)

section \<open>Updates of one entry\<close>

text \<open>One entry moves; the others stay.\<close>

definition effect_settled :: "effect_row \<Rightarrow> effect_row \<Rightarrow> db \<Rightarrow> db \<Rightarrow> bool" where
  "effect_settled r r' d d' =
     (r \<in> set (db_effects d) \<and> in_status (ef_intent r) = Intended \<and> effect_moves r r' \<and> r' \<noteq> r \<and>
      d' = d\<lparr>db_effects := update_rows (\<lambda>x. x = r) (\<lambda>_. r') (db_effects d)\<rparr>)"

lemma update_effects_Inr:
  assumes ok: "effects_ok sha sensitive d" and r: "r \<in> set (db_effects d)" "intended_at i v r"
    and u: "update_effects (intended_at i v) f d = Inr (n, d')"
  shows "n = 1 \<and> d' = d\<lparr>db_effects := update_rows (\<lambda>x. x = r) (\<lambda>_. f r) (db_effects d)\<rparr> \<and> effect_checks (f r)"
proof -
  have p: "intended_at i v = (\<lambda>x. effect_key x = i \<and> (in_status (ef_intent x) = Intended \<and> in_version (ef_intent x) = v))"
    by (rule ext) (simp add: intended_at_def)
  have k: "effect_key r = i" "in_status (ef_intent r) = Intended \<and> in_version (ef_intent r) = v"
    using r(2) by (auto simp: intended_at_def)
  have dist: "distinct (map effect_key (db_effects d))" using ok by (simp add: effects_ok_def)
  have n: "n = count_rows (intended_at i v) (db_effects d)" and
    d': "d' = d\<lparr>db_effects := update_rows (intended_at i v) f (db_effects d)\<rparr>"
    and c: "\<forall>x \<in> set (db_effects d). intended_at i v x \<longrightarrow> effect_checks (f x)"
    using u by (auto simp: update_effects_def list_all_iff split: if_split_asm)
  have "update_rows (\<lambda>x. x = r) f (db_effects d) = update_rows (\<lambda>x. x = r) (\<lambda>_. f r) (db_effects d)"
    by (simp add: update_rows_def cong: map_cong)
  then show ?thesis
    using update_one_row [OF dist r(1) k(1), of "\<lambda>x. in_status (ef_intent x) = Intended \<and> in_version (ef_intent x) = v"] k(2) n d' c r
    unfolding p by simp
qed

lemma update_effects_row:
  assumes "update_effects p f d = Inr (n, d')" "\<And>r. effect_key (f r) = effect_key r"
    and "row_by effect_key i (db_effects d) = Some r" "p r"
  shows "row_by effect_key i (db_effects d') = Some (f r)"
  using assms by (auto simp: update_effects_def row_by_update_rows split: if_split_asm)

lemma effect_settled_keeps:
  assumes ok: "effects_ok sha sensitive d" and s: "effect_settled r r' d d'" and r': "effect_ok sha sensitive r'"
  shows "effects_ok sha sensitive d' \<and> effects_evolve d d' \<and> r' \<in> set (db_effects d') \<and> row_by effect_key (effect_key r) (db_effects d') = Some r'"
proof -
  have r: "r \<in> set (db_effects d)" and m: "effect_moves r r'" and ne: "r' \<noteq> r"
    and d': "db_effects d' = update_rows (\<lambda>x. x = r) (\<lambda>_. r') (db_effects d)" using s by (auto simp: effect_settled_def)
  have id: "effect_key r' = effect_key r" "effect_position r' = effect_position r" "in_effect (ef_intent r') = in_effect (ef_intent r)"
    using m ne by (auto simp: effect_moves_def)
  have set': "set (db_effects d') = (\<lambda>x. if x = r then r' else x) ` set (db_effects d)" by (simp add: d' set_update_rows)
  have "map effect_key (db_effects d') = map effect_key (db_effects d)"
    "map effect_position (db_effects d') = map effect_position (db_effects d)"
    "map (\<lambda>r. in_effect (ef_intent r)) (db_effects d') = map (\<lambda>r. in_effect (ef_intent r)) (db_effects d)"
    unfolding d' using id by (auto simp: update_rows_def)
  then have ok': "effects_ok sha sensitive d'" using ok r' unfolding effects_ok_def set' by auto
  have mem: "r' \<in> set (db_effects d')" using r unfolding set' by force
  moreover have "effects_evolve d d'"
    unfolding effects_evolve_def
  proof
    fix x assume "x \<in> set (db_effects d)"
    then show "\<exists>y \<in> set (db_effects d'). effect_moves x y"
      unfolding set' using m by (intro bexI [of _ "if x = r then r' else x"]) auto
  qed
  ultimately show ?thesis using ok' effect_row_unique [OF ok' mem] id(1) by simp
qed

section \<open>The operations\<close>

lemma same_effect_fresh:
  "\<not> list_ex (same_effect i) rows \<longleftrightarrow>
     in_id i \<notin> effect_key ` set rows \<and> in_effect i \<notin> (\<lambda>r. in_effect (ef_intent r)) ` set rows \<and>
     (in_memorial i, in_sequence i) \<notin> effect_position ` set rows"
  unfolding list_ex_iff same_effect_def image_iff by fastforce

lemma new_effect_row_intent:
  "valid_intent sha sensitive i \<Longrightarrow> in_status i = Intended \<Longrightarrow> in_version i = 1 \<Longrightarrow> ef_intent (new_effect_row i c) = i"
  by (simp add: new_effect_row_def valid_intent_def)

lemma find_none_iff_list_ex: "find p xs = None \<longleftrightarrow> \<not> list_ex p xs"
  by (auto simp: find_None_iff list_ex_iff)

lemma except_fence_lost_Inr [simp]: "except_fence_lost e r = Inr x \<longleftrightarrow> r = Inr x"
  by (cases "(e, r)" rule: except_fence_lost.cases) auto

lemma require_current_authority_Inr [simp]:
  "require_current_authority a ow f t d = Inr () \<longleftrightarrow> require_current a ow f t d = Inr ()"
  by (simp add: require_current_authority_def)

lemma begin_Inr:
  assumes "begin_intent_current sha sensitive i d = Inr (j, d')"
  shows "j = i \<and> in_status i = Intended \<and> in_version i = 1 \<and>
         ((d' = d \<and> (\<exists>r \<in> set (db_effects d). ef_intent r = i)) \<or>
          (\<not> list_ex (same_effect i) (db_effects d) \<and>
           require_current (in_attempt i) (in_owner i) (in_fence i) (in_created i) d = Inr () \<and>
           (\<exists>c. effect_checks (new_effect_row i c) \<and> d' = d\<lparr>db_effects := db_effects d @ [new_effect_row i c]\<rparr>)))"
proof (cases "find (same_effect i) (db_effects d)")
  case None
  have new: "\<not> list_ex (same_effect i) (db_effects d)" using None by (simp add: find_none_iff_list_ex)
  obtain c where st: "in_status i = Intended" "in_version i = 1" "j = i" and o: "require_current_origin i d = Inr ()"
    and ins: "insert_effect (new_effect_row i c) d = Inr d'"
    using assms None by (auto simp: begin_intent_current_def split: if_split_asm)
  have "require_current (in_attempt i) (in_owner i) (in_fence i) (in_created i) d = Inr ()"
    using o by (simp add: require_current_origin_def split: if_split_asm)
  moreover have "effect_checks (new_effect_row i c)" "d' = d\<lparr>db_effects := db_effects d @ [new_effect_row i c]\<rparr>"
    using ins by (auto simp: insert_effect_def split: if_split_asm)
  ultimately show ?thesis using st new by blast
next
  case (Some r)
  then have r: "r \<in> set (db_effects d)" by (auto simp: find_Some_iff)
  have "j = i" "d' = d" "ef_intent r = i" "in_status i = Intended" "in_version i = 1"
    using assms Some by (auto simp: begin_intent_current_def decode_intent_Inr split: if_split_asm)
  with r show ?thesis by blast
qed

lemma begin_keeps:
  assumes ok: "effects_ok sha sensitive d" and v: "valid_intent sha sensitive i"
    and b: "begin_intent_current sha sensitive i d = Inr (j, d')"
  shows "effects_ok sha sensitive d' \<and> effects_evolve d d' \<and> (\<exists>r \<in> set (db_effects d'). ef_intent r = i)"
proof -
  from begin_Inr [OF b] have st: "in_status i = Intended" "in_version i = 1" and alt: "(d' = d \<and> (\<exists>r \<in> set (db_effects d). ef_intent r = i)) \<or>
          (\<not> list_ex (same_effect i) (db_effects d) \<and>
           (\<exists>c. effect_checks (new_effect_row i c) \<and> d' = d\<lparr>db_effects := db_effects d @ [new_effect_row i c]\<rparr>))" by auto
  from alt show ?thesis
  proof
    assume "d' = d \<and> (\<exists>r \<in> set (db_effects d). ef_intent r = i)"
    then show ?thesis using ok by simp
  next
    assume "\<not> list_ex (same_effect i) (db_effects d) \<and> (\<exists>c. effect_checks (new_effect_row i c) \<and> d' = d\<lparr>db_effects := db_effects d @ [new_effect_row i c]\<rparr>)"
    then obtain c where new: "\<not> list_ex (same_effect i) (db_effects d)" and ch: "effect_checks (new_effect_row i c)"
      and d': "d' = d\<lparr>db_effects := db_effects d @ [new_effect_row i c]\<rparr>" by blast
    have ei: "ef_intent (new_effect_row i c) = i" by (rule new_effect_row_intent [OF v st])
    have up: "in_created i \<le> in_updated i" using v by (simp add: valid_intent_def)
    then have "effect_ok sha sensitive (new_effect_row i c)"
      using v ch ei by (simp add: effect_ok_def effect_checks_def Let_def max_def new_effect_row_def)
    then have "effects_ok sha sensitive d'"
      using ok new unfolding effects_ok_def d' same_effect_fresh by (simp add: ei)
    moreover have "effects_evolve d d'" by (auto simp: effects_evolve_def d' intro: effect_moves_refl)
    ultimately show ?thesis using ei by (auto simp: d')
  qed
qed

lemma receipt_of_receipted:
  assumes "valid_receipt sha sensitive r" "receipt_matches r v (ef_intent row)" "rt_intent r = effect_key row" "in_schema_version (ef_intent row) = 1"
  shows "receipt_of (ef_intent (receipted_row r row)) (columns_of r) = r"
  using assms by (cases r) (simp add: receipt_of_def receipted_row_def columns_of_def receipt_matches_def valid_receipt_def)

lemma receipted_moves:
  assumes "in_status (ef_intent row) = Intended" "in_reason (ef_intent row) = None"
  shows "effect_moves row (receipted_row r row) \<and> receipted_row r row \<noteq> row"
proof -
  have e: "ef_intent (receipted_row r row) = (ef_intent row)\<lparr>in_status := Receipted, in_reason := None,
      in_version := in_version (ef_intent row) + 1, in_updated := rt_recorded r\<rparr>"
    using assms by (simp add: receipted_row_def)
  have "in_status (ef_intent (receipted_row r row)) = Receipted" by (simp add: receipted_row_def)
  with assms(1) e show ?thesis unfolding effect_moves_def by (metis side_effect_status.distinct(1))
qed

lemma receipted_ok:
  assumes ok: "effect_ok sha sensitive row" and v: "valid_receipt sha sensitive r" "receipt_matches r n (ef_intent row)" "rt_intent r = effect_key row"
    and ch: "effect_checks (receipted_row r row)"
  shows "effect_ok sha sensitive (receipted_row r row)"
proof -
  let ?i = "ef_intent row"
  have i: "valid_intent sha sensitive ?i" using v(2) by (intro effect_ok_open [OF ok]) (simp add: receipt_matches_def)
  have st: "in_status ?i = Intended" using v(2) by (simp add: receipt_matches_def)
  then have rn: "in_reason ?i = None" using ok by (simp add: effect_ok_def effect_shape_def)
  have "valid_intent sha sensitive (?i\<lparr>in_status := Receipted, in_reason := None, in_version := in_version ?i + 1,
           in_updated := max (in_created ?i) (rt_recorded r)\<rparr>)"
    using i by (intro valid_intent_move) (auto simp: valid_intent_def opt_nonblank_def)
  moreover have "(ef_intent (receipted_row r row))\<lparr>in_updated := max (in_created ?i) (rt_recorded r)\<rparr> =
      ?i\<lparr>in_status := Receipted, in_reason := None, in_version := in_version ?i + 1, in_updated := max (in_created ?i) (rt_recorded r)\<rparr>"
    using rn by (simp add: receipted_row_def)
  moreover have "receipt_of (ef_intent (receipted_row r row)) (columns_of r) = r"
    using i by (intro receipt_of_receipted [OF v]) (simp add: valid_intent_def)
  moreover have "effect_shape (receipted_row r row)" using ch by (simp add: effect_checks_def Let_def)
  ultimately show ?thesis using v(1) by (simp add: effect_ok_def receipted_row_def)
qed

lemma require_current_receipt_Inr:
  "require_current_receipt r d = Inr () \<longleftrightarrow>
     (\<exists>a. row_by at_id (rt_attempt r) (db_attempts d) = Some a \<and> at_memorial a = rt_memorial r) \<and>
     require_current (rt_attempt r) (rt_owner r) (rt_fence r) (rt_recorded r) d = Inr ()"
  by (auto simp: require_current_receipt_def split: option.splits)

definition receipt_stored :: "side_effect_receipt \<Rightarrow> int \<Rightarrow> effect_row \<Rightarrow> db \<Rightarrow> db \<Rightarrow> bool" where
  "receipt_stored r v row d d' =
     (effect_settled row (receipted_row r row) d d' \<and> effect_key row = rt_intent r \<and> receipt_matches r v (ef_intent row) \<and>
      require_current_receipt r d = Inr () \<and> effect_checks (receipted_row r row))"

lemma record_Inr:
  assumes ok: "effects_ok sha sensitive d" and v: "valid_receipt sha sensitive r"
    and rec: "record_receipt_current sha sensitive r n d = Inr (x, d')"
  shows "x = r \<and> ((d' = d \<and> load_receipt_current sha sensitive (rt_intent r) d = Inr (Some r)) \<or>
                  (\<exists>row. receipt_stored r n row d d'))"
proof -
  obtain row where row: "row_by effect_key (rt_intent r) (db_effects d) = Some row"
    using rec by (auto simp: record_receipt_current_def find_effect split: option.split_asm)
  then have rin: "row \<in> set (db_effects d)" "effect_key row = rt_intent r" using row_by_SomeD by fastforce+
  obtain existing where ex: "decode_receipt sha sensitive row = Inr existing"
    using rec row by (auto simp: record_receipt_current_def find_effect)
  show ?thesis
  proof (cases existing)
    case (Some e)
    then have "x = r" "d' = d" "e = r" using rec row ex by (auto simp: record_receipt_current_def find_effect split: if_split_asm)
    then show ?thesis using row ex Some by (simp add: load_receipt_current_def find_effect)
  next
    case None
    have m: "receipt_matches r n (ef_intent row)" and cur: "require_current_receipt r d = Inr ()"
      and st: "store_receipt sha sensitive r n d = Inr (x, d')"
      using rec row ex None by (auto simp: record_receipt_current_def find_effect decode_intent_Inr)
    have int: "intended_at (rt_intent r) n row" using m rin(2) by (simp add: intended_at_def receipt_matches_def)
    obtain k where u: "update_effects (intended_at (rt_intent r) n) (receipted_row r) d = Inr (k, d')"
      and ld: "load_receipt_current sha sensitive (rt_intent r) d' = Inr (Some x)"
      using st by (auto simp: store_receipt_def split: if_split_asm option.split_asm)
    note one = update_effects_Inr [OF ok rin(1) int u]
    have eok: "effect_ok sha sensitive row" using ok rin(1) by (simp add: effects_ok_def)
    have ist: "in_status (ef_intent row) = Intended" using m by (simp add: receipt_matches_def)
    then have "in_reason (ef_intent row) = None" using eok by (simp add: effect_ok_def effect_shape_def)
    then have settled: "effect_settled row (receipted_row r row) d d'"
      using rin(1) ist one receipted_moves [OF ist] by (simp add: effect_settled_def)
    have ok': "effect_ok sha sensitive (receipted_row r row)"
      using one rin(2) by (intro receipted_ok [OF eok v m]) auto
    have row': "row_by effect_key (rt_intent r) (db_effects d') = Some (receipted_row r row)"
      using effect_settled_keeps [OF ok settled ok'] rin(2) by simp
    have "valid_intent sha sensitive (ef_intent row)" using eok ist by (intro effect_ok_open) auto
    then have rt: "receipt_of (ef_intent (receipted_row r row)) (columns_of r) = r"
      using rin(2) by (intro receipt_of_receipted [OF v m]) (auto simp: valid_intent_def)
    have "x = r" using ld row' rt by (auto simp: load_receipt_current_def find_effect decode_receipt_def receipted_row_def split: if_split_asm)
    then show ?thesis using settled rin(2) m cur one by (auto simp: receipt_stored_def)
  qed
qed

lemma receipt_stored_ok:
  assumes ok: "effects_ok sha sensitive d" and v: "valid_receipt sha sensitive r" and st: "receipt_stored r n row d d'"
  shows "effects_ok sha sensitive d' \<and> effects_evolve d d' \<and> row_by effect_key (rt_intent r) (db_effects d') = Some (receipted_row r row) \<and>
         load_receipt_current sha sensitive (rt_intent r) d' = Inr (Some r)"
proof -
  have s: "effect_settled row (receipted_row r row) d d'" and k: "effect_key row = rt_intent r" and m: "receipt_matches r n (ef_intent row)"
    and ch: "effect_checks (receipted_row r row)" using st by (auto simp: receipt_stored_def)
  have eok: "effect_ok sha sensitive row" using ok s by (auto simp: effects_ok_def effect_settled_def)
  have "effect_ok sha sensitive (receipted_row r row)" using k ch by (intro receipted_ok [OF eok v m]) auto
  note kept = effect_settled_keeps [OF ok s this]
  have "in_status (ef_intent row) = Intended" using m by (simp add: receipt_matches_def)
  then have "valid_intent sha sensitive (ef_intent row)" using eok by (intro effect_ok_open) auto
  then have rt: "receipt_of (ef_intent (receipted_row r row)) (columns_of r) = r"
    using k by (intro receipt_of_receipted [OF v m]) (auto simp: valid_intent_def)
  have "in_reason (ef_intent row) = None" using eok m by (simp add: effect_ok_def effect_shape_def receipt_matches_def)
  then have "decode_receipt sha sensitive (receipted_row r row) = Inr (Some r)"
    using rt v by (simp add: decode_receipt_def receipted_row_def)
  then show ?thesis using kept k by (simp add: load_receipt_current_def find_effect)
qed

definition uncertainty_stored ::
  "string \<Rightarrow> string \<Rightarrow> string \<Rightarrow> int \<Rightarrow> int \<Rightarrow> string \<Rightarrow> string \<Rightarrow> instant \<Rightarrow> effect_row \<Rightarrow> db \<Rightarrow> db \<Rightarrow> bool" where
  "uncertainty_stored i a ow f n reason q t row d d' =
     (effect_settled row (uncertain_row reason q t row) d d' \<and> effect_key row = i \<and> in_version (ef_intent row) = n \<and>
      require_current a ow f t d = Inr () \<and> effect_checks (uncertain_row reason q t row))"

lemma uncertain_moves:
  assumes "in_status (ef_intent row) = Intended"
  shows "effect_moves row (uncertain_row reason q t row) \<and> uncertain_row reason q t row \<noteq> row"
proof -
  have e: "ef_intent (uncertain_row reason q t row) = (ef_intent row)\<lparr>in_status := Uncertain, in_reason := Some reason,
      in_version := in_version (ef_intent row) + 1, in_updated := t\<rparr>"
    by (simp add: uncertain_row_def)
  have "in_status (ef_intent (uncertain_row reason q t row)) = Uncertain" by (simp add: uncertain_row_def)
  with assms(1) e show ?thesis unfolding effect_moves_def by (metis side_effect_status.distinct(3))
qed

lemma mark_Inr:
  assumes ok: "effects_ok sha sensitive d"
    and mk: "mark_uncertain_current sha sensitive i a ow f n reason q t d = Inr (x, d')"
  shows "(d' = d \<and> in_status x = Uncertain \<and> uncertainty_decision_id_current i d = Some q) \<or>
         (\<exists>row. uncertainty_stored i a ow f n reason q t row d d' \<and> x = ef_intent (uncertain_row reason q t row) \<and>
                effect_ok sha sensitive (uncertain_row reason q t row))"
proof -
  obtain current where ld: "load_intent_current sha sensitive i d = Inr (Some current)"
    using mk by (auto simp: mark_uncertain_current_def split: option.split_asm)
  then obtain row where row: "row_by effect_key i (db_effects d) = Some row" and cur: "current = ef_intent row"
    by (auto simp: load_intent_current_def load_effect_def find_effect decode_intent_Inr split: option.split_asm)
  then have rin: "row \<in> set (db_effects d)" "effect_key row = i" using row_by_SomeD by fastforce+
  show ?thesis
  proof (cases "in_status current = Uncertain")
    case True
    then show ?thesis using mk ld by (auto simp: mark_uncertain_current_def split: if_split_asm)
  next
    case False
    then have st: "in_status current = Intended" "in_version current = n" and au: "require_current a ow f t d = Inr ()"
      and "\<exists>k. update_effects (intended_at i n) (uncertain_row reason q t) d = Inr (k, d') \<and> load_intent_current sha sensitive i d' = Inr (Some x)"
      using mk ld by (auto simp: mark_uncertain_current_def split: if_split_asm option.split_asm)
    then obtain k where u: "update_effects (intended_at i n) (uncertain_row reason q t) d = Inr (k, d')"
      and ld': "load_intent_current sha sensitive i d' = Inr (Some x)" by blast
    have int: "intended_at i n row" using st cur rin(2) by (simp add: intended_at_def)
    note one = update_effects_Inr [OF ok rin(1) int u]
    have settled: "effect_settled row (uncertain_row reason q t row) d d'"
      using rin(1) st cur one uncertain_moves [of row] by (simp add: effect_settled_def)
    have "row_by effect_key i (db_effects d') = Some (uncertain_row reason q t row)"
      by (rule update_effects_row [where f = "uncertain_row reason q t", OF u _ row int]) (simp add: uncertain_row_def)
    then have x: "x = ef_intent (uncertain_row reason q t row)" "valid_intent sha sensitive x"
      using ld' by (auto simp: load_intent_current_def load_effect_def find_effect decode_intent_Inr)
    have "in_created x \<le> in_updated x" using x(2) by (simp add: valid_intent_def)
    then have "effect_ok sha sensitive (uncertain_row reason q t row)"
      using x one rin(1) ok by (auto simp: effect_ok_def effects_ok_def effect_checks_def Let_def max_def uncertain_row_def effect_shape_def)
    then show ?thesis using settled st cur au one rin(2) x by (auto simp: uncertainty_stored_def)
  qed
qed

section \<open>Runs of the journal\<close>

text \<open>
  One transaction: an intent, a receipt or an uncertainty journalled (the arguments are validated model
  values), or work on other tables.
\<close>

inductive effect_step :: "(string \<Rightarrow> string) \<Rightarrow> (json \<Rightarrow> bool) \<Rightarrow> db \<Rightarrow> db \<Rightarrow> bool" for sha sensitive where
  es_begin: "valid_intent sha sensitive i \<Longrightarrow> begin_intent_current sha sensitive i d = Inr (j, d') \<Longrightarrow> effect_step sha sensitive d d'"
| es_receipt: "valid_receipt sha sensitive r \<Longrightarrow> record_receipt_current sha sensitive r n d = Inr (x, d') \<Longrightarrow>
    effect_step sha sensitive d d'"
| es_uncertain: "mark_uncertain_current sha sensitive k a ow f n reason q t d = Inr (j, d') \<Longrightarrow> effect_step sha sensitive d d'"
| es_other: "db_effects d' = db_effects d \<Longrightarrow> effect_step sha sensitive d d'"

inductive_cases effect_stepE: "effect_step sha sensitive d d'"

lemma effect_step_keeps:
  assumes ok: "effects_ok sha sensitive d" and st: "effect_step sha sensitive d d'"
  shows "effects_ok sha sensitive d' \<and> effects_evolve d d'"
  using st
proof cases
  case (es_begin i j)
  then show ?thesis using begin_keeps [OF ok] by blast
next
  case (es_receipt r n x)
  from record_Inr [OF ok es_receipt] show ?thesis using receipt_stored_ok [OF ok es_receipt(1)] ok by auto
next
  case (es_uncertain k a ow f n reason q t j)
  from mark_Inr [OF ok this] show ?thesis
    using effect_settled_keeps [OF ok] ok by (auto simp: uncertainty_stored_def)
next
  case es_other
  then show ?thesis using ok by (auto simp: effects_ok_def effects_evolve_def intro: effect_moves_refl)
qed

definition open_effect :: "db \<Rightarrow> string \<Rightarrow> bool" where
  "open_effect d i = (\<exists>r \<in> set (db_effects d). effect_key r = i \<and> in_status (ef_intent r) = Intended)"

definition settled_effect :: "db \<Rightarrow> string \<Rightarrow> bool" where
  "settled_effect d i = (\<exists>r \<in> set (db_effects d). effect_key r = i \<and> in_status (ef_intent r) \<noteq> Intended)"

interpretation effects: revocable_authority "effect_step sha sensitive" "effects_ok sha sensitive" effects_evolve
  open_effect settled_effect
  for sha sensitive
proof unfold_locales
  show "effects_ok sha sensitive d \<Longrightarrow> effect_step sha sensitive d d' \<Longrightarrow> effects_ok sha sensitive d'"
    and "effects_ok sha sensitive d \<Longrightarrow> effect_step sha sensitive d d' \<Longrightarrow> effects_evolve d d'" for d d'
    using effect_step_keeps by blast+
  show "effects_evolve d d" for d by simp
  show "effects_evolve d d' \<Longrightarrow> effects_evolve d' d'' \<Longrightarrow> effects_evolve d d''" for d d' d'' by (rule effects_evolve_trans)
  show "effects_evolve d d' \<Longrightarrow> settled_effect d i \<Longrightarrow> settled_effect d' i" for d d' i
    unfolding effects_evolve_def settled_effect_def effect_moves_def by metis
  show "effects_ok sha sensitive d \<Longrightarrow> settled_effect d i \<Longrightarrow> \<not> open_effect d i" for d i
    using effect_same_key unfolding settled_effect_def open_effect_def by metis
qed

text \<open>A settled entry is the same entry in every later state.\<close>

lemma settled_row_stays:
  assumes ok: "effects_ok sha sensitive d" and run: "(effect_step sha sensitive)\<^sup>*\<^sup>* d d'"
    and r: "row_by effect_key i (db_effects d) = Some r" "in_status (ef_intent r) \<noteq> Intended"
  shows "row_by effect_key i (db_effects d') = Some r"
proof -
  have ok': "effects_ok sha sensitive d'" and ev: "effects_evolve d d'" using effects.steps_inv_evo [OF run ok] by auto
  have "r \<in> set (db_effects d)" "effect_key r = i" using row_by_SomeD [OF r(1)] by auto
  then have "r \<in> set (db_effects d')" using ev r(2) unfolding effects_evolve_def effect_moves_def by metis
  then show ?thesis by (rule effect_row_unique [OF ok']) fact
qed

lemma record_needs_open:
  assumes "effects_ok sha sensitive d" "receipt_stored r n row d d'"
  shows "open_effect d (rt_intent r)"
  using assms(2) by (auto simp: receipt_stored_def effect_settled_def open_effect_def)

lemma mark_on_receipted:
  assumes "row_by effect_key i (db_effects d) = Some r" "in_status (ef_intent r) = Receipted"
  shows "\<exists>e. mark_uncertain_current sha sensitive i a ow f n reason q t d = Inl e"
  using assms by (cases "decode_intent sha sensitive r")
    (auto simp: mark_uncertain_current_def load_intent_current_def load_effect_def find_effect decode_intent_def split: if_split_asm)

lemma receipt_row:
  assumes ok: "effects_ok sha sensitive d" and v: "valid_receipt sha sensitive r"
    and rec: "record_receipt_current sha sensitive r n d = Inr (x, d')"
  shows "\<exists>row. row_by effect_key (rt_intent r) (db_effects d') = Some row \<and> in_status (ef_intent row) = Receipted \<and>
           decode_receipt sha sensitive row = Inr (Some r)"
proof -
  have "load_receipt_current sha sensitive (rt_intent r) d' = Inr (Some r)"
    using record_Inr [OF ok v rec] receipt_stored_ok [OF ok v] by auto
  then show ?thesis
    by (auto simp: load_receipt_current_def find_effect decode_receipt_def split: option.split_asm if_split_asm)
qed

section \<open>Progress\<close>

lemma trim_of_nonblank: "\<not> blank s \<Longrightarrow> trim_nonempty s"
proof -
  assume "\<not> blank s"
  then obtain c where "c \<in> set s" "\<not> is_space c" by (auto simp: blank_iff)
  moreover have "is_space (CHR '' '')" by (simp add: is_space_def)
  ultimately show ?thesis unfolding trim_nonempty_def list_ex_iff by metis
qed

lemma receipted_checks:
  assumes "valid_intent sha sensitive (ef_intent row)" "in_reason (ef_intent row) = None" "ef_decision row = None"
    and "valid_receipt sha sensitive r"
  shows "effect_checks (receipted_row r row)"
  using assms
  by (auto simp: effect_checks_def effect_shape_def receipted_row_def columns_of_def valid_intent_def valid_receipt_def Let_def
      intro: trim_of_nonblank)

lemma record_succeeds:
  assumes ok: "effects_ok sha sensitive d" and row: "row_by effect_key (rt_intent r) (db_effects d) = Some row"
    and v: "valid_receipt sha sensitive r" and m: "receipt_matches r n (ef_intent row)"
    and cur: "require_current_receipt r d = Inr ()" and ref: "effect_references d row"
  shows "\<exists>d'. record_receipt_current sha sensitive r n d = Inr (r, d') \<and> receipt_stored r n row d d'"
proof -
  have rin: "row \<in> set (db_effects d)" "effect_key row = rt_intent r" using row_by_SomeD [OF row] by auto
  have eok: "effect_ok sha sensitive row" using ok rin(1) by (simp add: effects_ok_def)
  have ist: "in_status (ef_intent row) = Intended" using m by (simp add: receipt_matches_def)
  then have sh: "in_reason (ef_intent row) = None" "ef_decision row = None" using eok by (auto simp: effect_ok_def effect_shape_def)
  have vi: "valid_intent sha sensitive (ef_intent row)" using eok ist by (intro effect_ok_open) auto
  have ch: "effect_checks (receipted_row r row)" by (rule receipted_checks [OF vi sh v])
  have only: "x = row" if "x \<in> set (db_effects d)" "intended_at (rt_intent r) n x" for x
    using effect_same_key [OF ok that(1) rin(1)] that(2) rin(2) by (simp add: intended_at_def)
  obtain a where "row_by at_id (rt_attempt r) (db_attempts d) = Some a" using cur by (auto simp: require_current_receipt_Inr)
  then have "list_ex (\<lambda>a. at_id a = rt_attempt r) (db_attempts d)" using row_by_SomeD by (fastforce simp: list_ex_iff)
  then have ref': "effect_references d (receipted_row r row)"
    using ref sh by (simp add: effect_references_def receipted_row_def columns_of_def)
  obtain k d' where u: "update_effects (intended_at (rt_intent r) n) (receipted_row r) d = Inr (k, d')"
  proof -
    have "list_all (\<lambda>x. intended_at (rt_intent r) n x \<longrightarrow> effect_checks (receipted_row r x)) (db_effects d)"
      "list_all (\<lambda>x. intended_at (rt_intent r) n x \<longrightarrow> effect_references d (receipted_row r x)) (db_effects d)"
      using only ch ref' unfolding list_all_iff by blast+
    then show thesis using that by (simp add: update_effects_def)
  qed
  have int: "intended_at (rt_intent r) n row" using m rin(2) by (simp add: intended_at_def receipt_matches_def)
  note one = update_effects_Inr [OF ok rin(1) int u]
  have st: "receipt_stored r n row d d'"
    using rin m cur ch one receipted_moves [OF ist sh(1)] ist by (simp add: receipt_stored_def effect_settled_def)
  have ld: "load_receipt_current sha sensitive (rt_intent r) d' = Inr (Some r)" using receipt_stored_ok [OF ok v st] by simp
  have "\<exists>b. canonical_json_bytes (JObj (rt_metadata r)) = Inr b" using v
    by (auto simp: valid_receipt_def safe_metadata_def split: sum.split_asm)
  then have "store_receipt sha sensitive r n d = Inr (r, d')" using u one ld by (auto simp: store_receipt_def)
  then have "record_receipt_current sha sensitive r n d = Inr (r, d')"
    using row ist vi m cur by (simp add: record_receipt_current_def find_effect decode_receipt_def decode_intent_def)
  with st show ?thesis by blast
qed

section \<open>A small journal\<close>

abbreviation zeros :: string where
  "zeros \<equiv> replicate 64 (CHR ''0'')"

definition demo_intent :: side_effect_intent where
  "demo_intent = \<lparr>in_id = zeros, in_effect = ''f1'', in_schema_version = 1, in_edict = ''e1'', in_memorial = ''m1'',
     in_attempt = ''a1'', in_owner = ''w1'', in_fence = 1, in_sequence = 0, in_boundary = ''b'', in_operation = ''op'',
     in_semantics = ProviderIdempotent, in_provider_key = Some zeros, in_metadata = [], in_request_hash = zeros,
     in_intent_hash = zeros, in_status = Intended, in_reason = None, in_version = 1, in_created = 20, in_updated = 20\<rparr>"

definition demo_receipt :: "instant \<Rightarrow> side_effect_receipt" where
  "demo_receipt t = \<lparr>rt_intent = zeros, rt_effect = ''f1'', rt_schema_version = 1, rt_edict = ''e1'', rt_memorial = ''m1'',
     rt_attempt = ''a1'', rt_owner = ''w1'', rt_fence = 1, rt_provider_receipt = ''p1'', rt_metadata = [],
     rt_result_hash = zeros, rt_version = 2, rt_effective = t, rt_recorded = t\<rparr>"

definition demo_journal :: db where
  "demo_journal = demo_leased\<lparr>db_edicts := [\<lparr>ed_id = ''e1'', ed_submitter = ''u'', ed_title = ''t'', ed_goal = ''g'', ed_archived = False,
     ed_acceptance = False, ed_runtime = [], ed_status = EdOpen, ed_schedule = None, ed_retry_limit = Some 0\<rparr>],
     db_effects := [\<lparr>ef_intent = demo_intent, ef_decision = None, ef_receipt = None, ef_correlation = Some ''c1''\<rparr>]\<rparr>"

lemma zero_sha: "normalizable v \<Longrightarrow> canonical_sha256 zero_hash v = Inr zeros"
  by (simp add: canonical_sha256_def canonical_json_bytes_def zero_hash_def)

lemma hex64_zeros: "hex64 zeros"
  by (simp add: hex64_def is_hex_digit_def list_all_iff)

lemma safe_empty: "safe_metadata (\<lambda>_. False) []"
  by (simp add: safe_metadata_def canonical_json_bytes_def utf8_def object_text_def utf8_char_code)

lemma not_blank_short [simp]: "\<not> is_space c \<Longrightarrow> \<not> blank (c # cs)"
  by (simp add: blank_iff)

lemma not_blank_zeros: "\<not> blank zeros"
  by (simp add: blank_iff is_space_def)

lemma demo_intent_valid: "valid_intent zero_hash (\<lambda>_. False) demo_intent"
  using hex64_zeros safe_empty not_blank_zeros
  by (simp add: valid_intent_def demo_intent_def zero_sha intent_identity_def intent_envelope_def identity_payload_def
      intent_payload_def json_opt_str_def opt_nonblank_def is_space_def supported_provider_semantics_def)

lemma demo_receipt_valid: "valid_receipt zero_hash (\<lambda>_. False) (demo_receipt t)"
  using hex64_zeros safe_empty
  by (simp add: valid_receipt_def demo_receipt_def zero_sha blank_code is_space_def)

lemma demo_journal_ok: "effects_ok zero_hash (\<lambda>_. False) demo_journal"
  using demo_intent_valid
  by (simp add: effects_ok_def demo_journal_def effect_ok_def effect_shape_def, simp add: demo_intent_def)

lemma demo_record:
  assumes "10 \<le> t" "t < 1000010"
  shows "\<exists>d'. record_receipt_current zero_hash (\<lambda>_. False) (demo_receipt t) 1 demo_journal = Inr (demo_receipt t, d')"
proof -
  let ?row = "\<lparr>ef_intent = demo_intent, ef_decision = None, ef_receipt = None, ef_correlation = Some ''c1''\<rparr>"
  have row: "row_by effect_key (rt_intent (demo_receipt t)) (db_effects demo_journal) = Some ?row"
    by (simp add: demo_journal_def demo_receipt_def demo_intent_def)
  have m: "receipt_matches (demo_receipt t) 1 (ef_intent ?row)" by (simp add: receipt_matches_def demo_receipt_def demo_intent_def)
  have cur: "require_current_receipt (demo_receipt t) demo_journal = Inr ()"
    using assms by (simp add: require_current_receipt_def require_current_authority_def require_current_def demo_journal_def demo_defs
        demo_receipt_def blank_code is_space_def seconds_def)
  have ref: "effect_references demo_journal ?row"
    by (simp add: effect_references_def demo_journal_def demo_defs demo_intent_def has_edict_def has_memorial_def)
  from record_succeeds [OF demo_journal_ok row demo_receipt_valid m cur ref] show ?thesis by blast
qed

section \<open>Properties\<close>

text \<open>
  A receipt is final. Once a receipt has been recorded for an intent, every later state of the journal
  returns that receipt, no other receipt for the intent can be recorded, and the intent can no longer be
  marked uncertain.
\<close>

theorem receipt_is_final:
  assumes ok: "effects_ok sha sensitive d" and v: "valid_receipt sha sensitive r"
    and rec: "record_receipt_current sha sensitive r n d = Inr (x, d1)"
    and run: "(effect_step sha sensitive)\<^sup>*\<^sup>* d1 d2"
  shows "load_receipt_current sha sensitive (rt_intent r) d2 = Inr (Some r) \<and>
         (valid_receipt sha sensitive r' \<and> rt_intent r' = rt_intent r \<and> r' \<noteq> r \<longrightarrow>
            (\<exists>e. record_receipt_current sha sensitive r' n' d2 = Inl e)) \<and>
         (\<exists>e. mark_uncertain_current sha sensitive (rt_intent r) a ow f n' reason q t d2 = Inl e)"
proof -
  obtain row where row: "row_by effect_key (rt_intent r) (db_effects d1) = Some row" "in_status (ef_intent row) = Receipted"
    "decode_receipt sha sensitive row = Inr (Some r)" using receipt_row [OF ok v rec] by blast
  have ok1: "effects_ok sha sensitive d1" using effect_step_keeps [OF ok es_receipt [OF v rec]] by simp
  have ok2: "effects_ok sha sensitive d2" using effects.steps_inv_evo [OF run ok1] by simp
  have row2: "row_by effect_key (rt_intent r) (db_effects d2) = Some row"
    using row by (intro settled_row_stays [OF ok1 run]) auto
  then have ld: "load_receipt_current sha sensitive (rt_intent r) d2 = Inr (Some r)"
    using row(3) by (simp add: load_receipt_current_def find_effect)
  have "\<exists>e. record_receipt_current sha sensitive r' n' d2 = Inl e" if "valid_receipt sha sensitive r'" "rt_intent r' = rt_intent r" "r' \<noteq> r"
  proof (rule ccontr)
    assume "\<not> ?thesis"
    then obtain y d3 where y: "record_receipt_current sha sensitive r' n' d2 = Inr (y, d3)" by (metis sum.exhaust surj_pair)
    have "settled_effect d2 (rt_intent r)"
      unfolding settled_effect_def using row_by_SomeD [OF row2] row(2) by (intro bexI [of _ row]) auto
    then have "\<not> open_effect d2 (rt_intent r)" by (rule effects.lost_not_held [OF ok2])
    with record_Inr [OF ok2 that(1) y] record_needs_open [OF ok2] that(2,3) ld show False by fastforce
  qed
  then show ?thesis using ld mark_on_receipted [OF row2 row(2)] by blast
qed

theorem receipt_is_final_witness:
  "\<exists>d'. record_receipt_current zero_hash (\<lambda>_. False) (demo_receipt 25) 1 demo_journal = Inr (demo_receipt 25, d') \<and>
     (\<exists>e. record_receipt_current zero_hash (\<lambda>_. False) (demo_receipt 30) 1 d' = Inl e)"
proof -
  obtain d' where d': "record_receipt_current zero_hash (\<lambda>_. False) (demo_receipt 25) 1 demo_journal = Inr (demo_receipt 25, d')"
    using demo_record [of 25] by auto
  have "rt_intent (demo_receipt 30) = rt_intent (demo_receipt 25)" "demo_receipt 30 \<noteq> demo_receipt 25" by (simp_all add: demo_receipt_def)
  with receipt_is_final [OF demo_journal_ok demo_receipt_valid d' rtranclp.rtrancl_refl] demo_receipt_valid d' show ?thesis by blast
qed

definition execution_step :: "(string \<Rightarrow> string) \<Rightarrow> (json \<Rightarrow> bool) \<Rightarrow> db \<Rightarrow> db \<Rightarrow> bool" where
  "execution_step sha sensitive d d' = (ledger_step sha d d' \<and> effect_step sha sensitive d d')"

lemma execution_steps:
  assumes "(execution_step sha sensitive)\<^sup>*\<^sup>* d d'"
  shows "(ledger_step sha)\<^sup>*\<^sup>* d d'" "(effect_step sha sensitive)\<^sup>*\<^sup>* d d'"
  using assms by (auto elim!: rtranclp_mono [THEN predicate2D, rotated] simp: execution_step_def)

text \<open>
  A fenced attempt settles nothing. After a claim has been granted on a memorial, no authority issued
  before it, on any attempt of that memorial, can store a receipt or an uncertainty: in every state the
  ledger and the journal reach together, such a call fails or finds the journal already in the state it
  asks for and changes nothing.
\<close>

theorem fenced_attempt_settles_nothing:
  assumes ok: "ledger_ok d" and eok: "effects_ok sha sensitive d'" and ni: "\<not> blank ni"
    and c: "claim sha ni m ow now l d = (Inr (Some a), d')"
    and x: "x \<in> set (db_attempts d)" "at_memorial x = m" and f: "f \<le> at_fence x"
    and run: "(execution_step sha sensitive)\<^sup>*\<^sup>* d' d''"
  shows "(valid_receipt sha sensitive r \<and> rt_attempt r = at_id x \<and> rt_fence r = f \<and>
            record_receipt_current sha sensitive r n d'' = Inr (y, d3) \<longrightarrow> d3 = d'') \<and>
         (mark_uncertain_current sha sensitive i (at_id x) ow' f n reason q t d'' = Inr (j, d4) \<longrightarrow> d4 = d'')"
proof -
  have ok'': "effects_ok sha sensitive d''" using effects.steps_inv_evo [OF execution_steps(2) [OF run] eok] by simp
  have no: "require_current (at_id x) o2 f t2 d'' \<noteq> Inr ()" for o2 t2
    by (rule stale_fence_rejected [OF ok ni c x f execution_steps(1) [OF run]])
  have "d3 = d''" if "valid_receipt sha sensitive r" "rt_attempt r = at_id x" "rt_fence r = f"
    "record_receipt_current sha sensitive r n d'' = Inr (y, d3)"
    using record_Inr [OF ok'' that(1,4)] no [of "rt_owner r" "rt_recorded r"] that(2,3)
    by (auto simp: receipt_stored_def require_current_receipt_Inr)
  moreover have "d4 = d''" if "mark_uncertain_current sha sensitive i (at_id x) ow' f n reason q t d'' = Inr (j, d4)"
    using mark_Inr [OF ok'' that] no by (auto simp: uncertainty_stored_def)
  ultimately show ?thesis by blast
qed

definition demo_overtaken :: "attempt_lease option result \<times> db" where
  "demo_overtaken = claim zero_hash ''a2'' ''m1'' ''w2'' 2000010 30 demo_journal"

lemma demo_overtaken_facts:
  "claim zero_hash ''a2'' ''m1'' ''w2'' 2000010 30 demo_journal = (Inr (Some (the (projr (fst demo_overtaken)))), snd demo_overtaken)"
  "db_effects (snd demo_overtaken) = db_effects demo_journal"
  by code_simp+

theorem fenced_attempt_settles_nothing_witness:
  "\<exists>a d'. claim zero_hash ''a2'' ''m1'' ''w2'' 2000010 30 demo_journal = (Inr (Some a), d') \<and>
     (\<forall>y d3. record_receipt_current zero_hash (\<lambda>_. False) (demo_receipt 25) 1 d' = Inr (y, d3) \<longrightarrow> d3 = d')"
proof -
  let ?x = "claimed_row ''w1'' 10 1 demo_attempt"
  have l: "ledger_ok demo_journal"
    by (simp add: demo_journal_def ledger_ok_def demo_defs row_defs has_memorial_def siblings_ok_def seconds_def)
  have e: "effects_ok zero_hash (\<lambda>_. False) (snd demo_overtaken)"
    using demo_journal_ok demo_overtaken_facts(2) by (simp add: effects_ok_def)
  have x: "?x \<in> set (db_attempts demo_journal)" "at_memorial ?x = ''m1''" "1 \<le> at_fence ?x" "rt_attempt (demo_receipt 25) = at_id ?x"
    "rt_fence (demo_receipt 25) = 1"
    by (simp_all add: demo_journal_def demo_defs demo_receipt_def)
  have "d3 = snd demo_overtaken"
    if "record_receipt_current zero_hash (\<lambda>_. False) (demo_receipt 25) 1 (snd demo_overtaken) = Inr (y, d3)" for y d3
    using fenced_attempt_settles_nothing [OF l e demo_taken_grants(2) demo_overtaken_facts(1) x(1,2,3) rtranclp.rtrancl_refl]
      demo_receipt_valid x(4,5) that by blast
  then show ?thesis using demo_overtaken_facts(1) by blast
qed

text \<open>
  A receipt may break its entry. The journal does not compare the time a receipt is recorded with the
  creation of its intent, and reads back only the receipt: when the clock of the recording process is
  behind, the update succeeds and the entry's intent can no longer be decoded.
\<close>

theorem receipt_before_creation_breaks_row:
  assumes ok: "effects_ok sha sensitive d" and v: "valid_receipt sha sensitive r"
    and i: "load_intent_current sha sensitive (rt_intent r) d = Inr (Some i)" "in_status i = Intended"
    and rec: "record_receipt_current sha sensitive r n d = Inr (x, d')" and t: "rt_recorded r < in_created i"
  shows "x = r \<and> load_intent_current sha sensitive (rt_intent r) d' = Inl (SideEffectDecodeError ''persisted side-effect intent violates v1'')"
proof -
  obtain row where row: "row_by effect_key (rt_intent r) (db_effects d) = Some row" and ri: "ef_intent row = i"
    using i by (auto simp: load_intent_current_def load_effect_def find_effect decode_intent_Inr split: option.split_asm)
  have "load_receipt_current sha sensitive (rt_intent r) d = Inr None"
    using row ri i(2) by (simp add: load_receipt_current_def find_effect decode_receipt_def)
  with record_Inr [OF ok v rec] obtain row' where x: "x = r" and st: "receipt_stored r n row' d d'" by auto
  have "row' = row"
    using st row_by_SomeD [OF row] by (intro effect_same_key [OF ok]) (auto simp: receipt_stored_def effect_settled_def)
  then have "row_by effect_key (rt_intent r) (db_effects d') = Some (receipted_row r row)" using receipt_stored_ok [OF ok v st] by simp
  moreover have "\<not> valid_intent sha sensitive (ef_intent (receipted_row r row))"
    using t ri by (simp add: valid_intent_def receipted_row_def)
  ultimately show ?thesis using x by (simp add: load_intent_current_def load_effect_def find_effect decode_intent_def)
qed

theorem receipt_before_creation_breaks_row_witness:
  "\<exists>d'. record_receipt_current zero_hash (\<lambda>_. False) (demo_receipt 15) 1 demo_journal = Inr (demo_receipt 15, d') \<and>
     load_intent_current zero_hash (\<lambda>_. False) zeros d' = Inl (SideEffectDecodeError ''persisted side-effect intent violates v1'')"
proof -
  obtain d' where d': "record_receipt_current zero_hash (\<lambda>_. False) (demo_receipt 15) 1 demo_journal = Inr (demo_receipt 15, d')"
    using demo_record [of 15] by auto
  have i: "load_intent_current zero_hash (\<lambda>_. False) (rt_intent (demo_receipt 15)) demo_journal = Inr (Some demo_intent)"
    using demo_intent_valid
    by (simp add: load_intent_current_def load_effect_def demo_journal_def demo_receipt_def decode_intent_def, simp add: demo_intent_def)
  have t: "in_status demo_intent = Intended" "rt_recorded (demo_receipt 15) < in_created demo_intent"
    by (simp_all add: demo_intent_def demo_receipt_def)
  from receipt_before_creation_breaks_row [OF demo_journal_ok demo_receipt_valid i t(1) d' t(2)] d'
  show ?thesis by (auto simp: demo_receipt_def)
qed

end
