(* ===== verification/Managed_Safety.thy ===== *)
theory Managed_Safety
  imports Managed_Effects Effect_Safety Decision_Authority
begin

text \<open>
  The managed boundary around side effects, end to end: an effect is applied to the outside world at most
  once however often its execution is repeated, a settled effect is never asked for again, and the
  suspension of an effect nobody can reconcile happens in one piece or not at all.
\<close>

section \<open>One execution\<close>

lemma position_row:
  assumes ok: "effects_ok sha sensitive d" and r: "r \<in> set (db_effects d)" "effect_position r = (m, n)"
    and s: "s \<in> set (db_effects d)" "effect_position s = (m, n)"
  shows "s = r"
  using row_by_unique [of effect_position "db_effects d", OF _ r] row_by_unique [of effect_position "db_effects d", OF _ s] ok
  by (auto simp: effects_ok_def)

lemma load_position_Inr:
  assumes "load_by_position_current sha sensitive m n d = Inr (Some i)"
  shows "\<exists>r \<in> set (db_effects d). effect_position r = (m, n) \<and> ef_intent r = i \<and> valid_intent sha sensitive i"
proof -
  obtain r where f: "find (\<lambda>r. in_memorial (ef_intent r) = m \<and> in_sequence (ef_intent r) = n) (db_effects d) = Some r"
    and i: "ef_intent r = i" "valid_intent sha sensitive i"
    using assms by (auto simp: load_by_position_current_def load_effect_def decode_intent_Inr split: option.split_asm)
  have "r \<in> set (db_effects d) \<and> effect_position r = (m, n)" using f by (auto simp: find_Some_iff)
  with i show ?thesis by blast
qed

lemma begin_or_recover_cases:
  assumes "begin_or_recover sha sensitive au req now d = (res, d')"
  shows "(\<exists>e. res = Inl e) \<and> d' = d \<or>
         (\<exists>i. res = Inr i \<and> same_business_intent i req \<and>
           ((load_by_position_current sha sensitive (in_memorial req) (in_sequence req) d = Inr (Some i) \<and> d' = d) \<or>
            (i = req \<and> begin_intent_current sha sensitive req d = Inr (i, d'))))"
proof -
  let ?ld = "load_by_position_current sha sensitive (in_memorial req) (in_sequence req) d"
  have refl: "same_business_intent i i" for i by (simp add: same_business_intent_def)
  show ?thesis
  proof (cases "require_authority_matches_requested au req")
    case (Inl e)
    then have "res = Inl e" "d' = d" using assms by (simp_all add: begin_or_recover_def)
    then show ?thesis by blast
  next
    case m: (Inr u)
    show ?thesis
    proof (cases ?ld)
      case (Inl e)
      then have "res = Inl e" "d' = d" using assms m by (simp_all add: begin_or_recover_def atomically_def)
      then show ?thesis by blast
    next
      case (Inr found)
      show ?thesis
      proof (cases found)
        case None
        then show ?thesis using assms m Inr refl
          by (cases "begin_intent_current sha sensitive req d")
             (auto simp: begin_or_recover_def atomically_def dest: begin_Inr)
      next
        case (Some i)
        have "(\<exists>e. recover_intent au req now i d = Inl e) \<or> (recover_intent au req now i d = Inr (i, d) \<and> same_business_intent i req)"
          by (cases "require_reconciliation_authority_current i (aa_attempt au) (aa_owner au) (aa_fence au) now d")
             (auto simp: recover_intent_def Let_def)
        then show ?thesis using assms m Inr Some by (auto simp: begin_or_recover_def atomically_def)
      qed
    qed
  qed
qed

text \<open>The durable intent of an execution is the journal's entry at its position.\<close>

lemma durable_entry:
  assumes ok: "effects_ok sha sensitive d" and v: "valid_intent sha sensitive req"
    and b: "begin_or_recover sha sensitive au req now d = (Inr i, d')"
  shows "effects_ok sha sensitive d' \<and> effects_evolve d d' \<and> same_business_intent i req \<and> valid_intent sha sensitive i \<and>
         (\<exists>r \<in> set (db_effects d'). effect_position r = (in_memorial req, in_sequence req) \<and> ef_intent r = i)"
proof -
  have same: "same_business_intent i req" and alt: "(load_by_position_current sha sensitive (in_memorial req) (in_sequence req) d = Inr (Some i) \<and> d' = d) \<or>
      (i = req \<and> begin_intent_current sha sensitive req d = Inr (i, d'))"
    using begin_or_recover_cases [OF b] by auto
  from alt show ?thesis
  proof
    assume h: "load_by_position_current sha sensitive (in_memorial req) (in_sequence req) d = Inr (Some i) \<and> d' = d"
    then show ?thesis using load_position_Inr [of sha sensitive "in_memorial req" "in_sequence req" d i] ok same by auto
  next
    assume h: "i = req \<and> begin_intent_current sha sensitive req d = Inr (i, d')"
    then show ?thesis using begin_keeps [OF ok v, of i d'] same v by auto
  qed
qed

section \<open>At most one application\<close>

text \<open>
  What the semantics of a managed boundary promise. Looking a receipt up does not change the world. An
  idempotent provider ignores a repeated key; a provider with receipt lookup finds the receipt of a key
  it has been invoked with.
\<close>

definition provider_contract :: "'w boundary \<Rightarrow> bool" where
  "provider_contract b =
     ((\<forall>k w. snd (bd_lookup b k w) = w) \<and>
      (bd_semantics b = ProviderIdempotent \<longrightarrow>
         (\<forall>i j w. in_provider_key i = in_provider_key j \<longrightarrow> snd (bd_invoke b j (snd (bd_invoke b i w))) = snd (bd_invoke b i w))) \<and>
      (bd_semantics b = ReceiptLookup \<longrightarrow>
         (\<forall>i k w. in_provider_key i = Some k \<longrightarrow> (\<exists>p. fst (bd_lookup b k (snd (bd_invoke b i w))) = Inr (Some p)))))"

lemma ask_provider_world:
  assumes con: "provider_contract b" and b: "bd_semantics b = in_semantics i" "in_semantics i \<in> {ProviderIdempotent, ReceiptLookup}"
    and key: "in_provider_key i \<noteq> None"
  shows "snd (ask_provider b hook i w) \<in> {w, snd (bd_invoke b i w)}"
    and "in_provider_key j = in_provider_key i \<Longrightarrow> snd (ask_provider b hook i (snd (bd_invoke b j w))) = snd (bd_invoke b j w)"
proof -
  have lk: "snd (bd_lookup b k w) = w" for k w using con by (simp add: provider_contract_def)
  show "snd (ask_provider b hook i w) \<in> {w, snd (bd_invoke b i w)}"
  proof (cases "in_semantics i = ReceiptLookup")
    case True
    obtain f where f: "bd_lookup b (the (in_provider_key i)) w = (f, w)" using lk by (metis prod.collapse)
    then show ?thesis using True by (cases f) (auto simp: ask_provider_def split: option.split prod.split)
  next
    case False
    then show ?thesis by (auto simp: ask_provider_def split: prod.split)
  qed
  assume kj: "in_provider_key j = in_provider_key i"
  show "snd (ask_provider b hook i (snd (bd_invoke b j w))) = snd (bd_invoke b j w)"
  proof (cases "in_semantics i = ReceiptLookup")
    case True
    obtain k where k: "in_provider_key i = Some k" using key by blast
    have "\<forall>i k w. in_provider_key i = Some k \<longrightarrow> (\<exists>p. fst (bd_lookup b k (snd (bd_invoke b i w))) = Inr (Some p))"
      using con True b(1) by (simp add: provider_contract_def)
    then obtain p where "fst (bd_lookup b k (snd (bd_invoke b j w))) = Inr (Some p)" using k kj by metis
    then have "bd_lookup b k (snd (bd_invoke b j w)) = (Inr (Some p), snd (bd_invoke b j w))" using lk by (metis prod.collapse)
    then show ?thesis using True k by (simp add: ask_provider_def)
  next
    case False
    then have "\<forall>i j w. in_provider_key i = in_provider_key j \<longrightarrow> snd (bd_invoke b j (snd (bd_invoke b i w))) = snd (bd_invoke b i w)"
      using con b by (simp add: provider_contract_def)
    then have "snd (bd_invoke b i (snd (bd_invoke b j w))) = snd (bd_invoke b j w)" using kj by blast
    then show ?thesis using False by (auto simp: ask_provider_def split: prod.split)
  qed
qed

lemma record_effect_step:
  assumes "record_effect sha sensitive au i p now d = (res, d')"
  shows "effect_step sha sensitive d d'"
proof (cases "receipt_for sha sensitive au i p now")
  case (Inl e)
  then show ?thesis using assms by (simp add: record_effect_def es_other)
next
  case (Inr r)
  then have v: "valid_receipt sha sensitive r" by (auto simp: receipt_for_def Let_def split: if_split_asm)
  show ?thesis
  proof (cases "record_receipt_current sha sensitive r (in_version i) d")
    case (Inl e)
    then show ?thesis using assms Inr by (simp add: record_effect_def record_receipt_def atomically_def es_other)
  next
    case rec: (Inr x)
    then have "record_receipt_current sha sensitive r (in_version i) d = Inr (fst x, d')"
      using assms Inr by (cases x) (simp add: record_effect_def record_receipt_def atomically_def)
    then show ?thesis by (rule es_receipt [OF v])
  qed
qed

lemma perform_effect_cases:
  assumes "perform_effect sha sensitive b hook clk au i d w = (res, d', w')"
  shows "effect_step sha sensitive d d' \<and> (w' = w \<or> w' = snd (ask_provider b hook i w))"
proof (cases "authority_current au (ck_check clk) d")
  case (Inl e)
  then show ?thesis using assms by (simp add: perform_effect_def es_other)
next
  case (Inr u)
  obtain a w1 where a: "ask_provider b hook i w = (a, w1)" by fastforce
  show ?thesis
  proof (cases a)
    case (Inl e)
    then show ?thesis using assms \<open>authority_current au (ck_check clk) d = Inr u\<close> a by (simp add: perform_effect_def es_other)
  next
    case (Inr p)
    obtain r d1 where r: "record_effect sha sensitive au i (fst p) (ck_record clk) d = (r, d1)" by fastforce
    then have "d' = d1" "w' = w1"
      using assms \<open>authority_current au (ck_check clk) d = Inr u\<close> a Inr
      by (cases r; cases p; simp add: perform_effect_def)+
    then show ?thesis using record_effect_step [OF r] a by simp
  qed
qed

section \<open>Suspension\<close>

lemma suspend_body_Inr:
  assumes "suspend_body sha redact secret sensitive hook fr ni clk au i s auth expires d = Inr (q, d')"
  shows "\<exists>a p t j d1 d2 d3 d4. authority_current au (ck_suspend clk) d = Inr () \<and> load sha redact (in_memorial i) d = Inr (Some s) \<and>
     suspendable s = Some a \<and> request_in_transaction sha fr (effect_command i expires) auth (ck_request clk) d = (Inr q, d1) \<and>
     compare_and_swap sha redact secret (suspended_state s a p (dq_id q) (ck_suspend clk)) (rs_version s) d1 = Inr (t, d2) \<and>
     mark_uncertain_current sha sensitive (in_id i) (aa_attempt au) (aa_owner au) (aa_fence au) (in_version i)
       (''unsupported_'' @ semantics_value (in_semantics i)) (dq_id q) (ck_suspend clk) d2 = Inr (j, d3) \<and>
     outbox_add sha (decision_requested_event auth i q (ck_suspend clk)) d3 = Inr d4 \<and>
     complete_current sha ni (aa_attempt au) (aa_owner au) (aa_fence au) (suspended_outcome (ck_suspend clk)) d4 = Inr (True, d')"
proof -
  have au: "authority_current au (ck_suspend clk) d = Inr ()" and ld: "load sha redact (in_memorial i) d = Inr (Some s)"
    using assms by (auto simp: suspend_body_def split: if_split_asm)
  obtain a where a: "suspendable s = Some a" using assms au ld by (auto simp: suspend_body_def split: option.split_asm)
  obtain res d1 where rq: "request_in_transaction sha fr (effect_command i expires) auth (ck_request clk) d = (res, d1)" by fastforce
  obtain q' where q': "res = Inr q'" using assms au ld a rq by (cases res) (auto simp: suspend_body_def)
  obtain p t d2 j d3 d4 where "effect_proposal sha i (dq_created q') = Inr p"
    and cas: "compare_and_swap sha redact secret (suspended_state s a p (dq_id q') (ck_suspend clk)) (rs_version s) d1 = Inr (t, d2)"
    and mk: "mark_uncertain_current sha sensitive (in_id i) (aa_attempt au) (aa_owner au) (aa_fence au) (in_version i)
       (''unsupported_'' @ semantics_value (in_semantics i)) (dq_id q') (ck_suspend clk) d2 = Inr (j, d3)"
    and ob: "outbox_add sha (decision_requested_event auth i q' (ck_suspend clk)) d3 = Inr d4"
    and co: "q' = q" "complete_current sha ni (aa_attempt au) (aa_owner au) (aa_fence au) (suspended_outcome (ck_suspend clk)) d4 = Inr (True, d')"
    using assms au ld a rq q' by (auto simp: suspend_body_def split: if_split_asm)
  then show ?thesis using au ld a rq q' by blast
qed

lemma request_in_transaction_Inr:
  assumes "request_in_transaction sha fr c auth now d = (Inr q, d')"
  shows "\<exists>r. new_request sha fr c auth now = Inr r \<and> add_or_get sha r (Some (ax_correlation auth)) d = Inr (q, d') \<and>
             (\<exists>rows. d' = d\<lparr>db_decisions := rows\<rparr>)"
proof -
  obtain r where r: "new_request sha fr c auth now = Inr r" using assms by (auto simp: request_in_transaction_def split: sum.split_asm)
  have "add_or_get sha r (Some (ax_correlation auth)) d = Inr (q, d')"
    using assms r by (auto simp: request_in_transaction_def split: sum.split_asm option.split_asm)
  moreover have "\<exists>rows. d = d\<lparr>db_decisions := rows\<rparr>" by (rule exI [of _ "db_decisions d"]) simp
  with add_or_get_Inr [OF \<open>add_or_get sha r (Some (ax_correlation auth)) d = Inr (q, d')\<close>] have "\<exists>rows. d' = d\<lparr>db_decisions := rows\<rparr>" by (auto simp: adds_def)
  ultimately show ?thesis using r by blast
qed

lemma complete_only_attempts:
  assumes "complete_current sha ni i ow f o' d = Inr (b, d')"
  shows "\<exists>rows. d' = d\<lparr>db_attempts := rows\<rparr>"
proof -
  have upd: "\<exists>rows. d1 = e\<lparr>db_attempts := rows\<rparr>" if "update_attempts p g e = Inr (n, d1)" for p g e n d1
    using that by (auto simp: update_attempts_def Let_def split: if_split_asm)
  have ins: "\<exists>rows. d1 = e\<lparr>db_attempts := rows\<rparr>" if "insert_retry_attempt sha ni prev t1 t2 e = Inr (a, d1)" for prev t1 t2 e a d1
    using that by (auto simp: insert_retry_attempt_def insert_attempt_def split: if_split_asm option.split_asm)
  have triv: "\<exists>rows. d = d\<lparr>db_attempts := rows\<rparr>" by (rule exI [of _ "db_attempts d"]) simp
  obtain sel where sel: "select_attempt d i = Inr sel" and nb: "\<not> blank i" "\<not> blank ow" "0 < f"
    using assms by (auto simp: complete_current_def split: if_split_asm)
  show ?thesis
  proof (cases sel)
    case None
    then show ?thesis using assms sel nb triv by (simp add: complete_current_def)
  next
    case (Some c)
    show ?thesis
    proof (cases "authority_at c ow f (out_completed_at o')")
      case False
      then show ?thesis using assms sel nb triv Some by (simp add: complete_current_def)
    next
      case True
      obtain n d1 where u: "update_attempts (\<lambda>a. at_id a = i \<and> authority_at a ow f (out_completed_at o') \<and> at_version a = at_version c)
          (completed_row (completion_status c o') o') d = Inr (n, d1)"
        and alt: "d' = d1 \<or> (\<exists>a. insert_retry_attempt sha ni c (the (out_retry_at o')) (out_completed_at o') d1 = Inr (a, d'))"
        using assms sel nb Some True by (auto simp: complete_current_def Let_def split: if_split_asm)
      obtain rows where d1: "d1 = d\<lparr>db_attempts := rows\<rparr>" using upd [OF u] by blast
      from alt show ?thesis using d1 ins by fastforce
    qed
  qed
qed

lemma mark_only_effects:
  assumes "mark_uncertain_current sha sensitive i a ow f n reason q t d = Inr (x, d')"
  shows "\<exists>rows. d' = d\<lparr>db_effects := rows\<rparr>"
proof -
  obtain current where ld: "load_intent_current sha sensitive i d = Inr (Some current)"
    using assms by (auto simp: mark_uncertain_current_def split: option.split_asm)
  show ?thesis
  proof (cases "in_status current = Uncertain")
    case True
    then have "d' = d" using assms ld by (auto simp: mark_uncertain_current_def split: if_split_asm)
    then show ?thesis by (intro exI [of _ "db_effects d"]) simp
  next
    case False
    then obtain k where "update_effects (intended_at i n) (uncertain_row reason q t) d = Inr (k, d')"
      using assms ld by (auto simp: mark_uncertain_current_def split: if_split_asm option.split_asm)
    then show ?thesis by (auto simp: update_effects_def split: if_split_asm)
  qed
qed

lemma uncertain_entry:
  assumes ok: "effects_ok sha sensitive d" and mk: "mark_uncertain_current sha sensitive i a ow f n reason q t d = Inr (x, d')"
  shows "\<exists>r \<in> set (db_effects d'). effect_key r = i \<and> in_status (ef_intent r) = Uncertain \<and> ef_decision r = Some q"
proof -
  from mark_Inr [OF ok mk] show ?thesis
  proof
    assume h: "d' = d \<and> in_status x = Uncertain \<and> uncertainty_decision_id_current i d = Some q"
    have "load_intent_current sha sensitive i d = Inr (Some x)"
      using mk h by (auto simp: mark_uncertain_current_def split: option.split_asm if_split_asm)
    then obtain r where r: "row_by effect_key i (db_effects d) = Some r" "ef_intent r = x"
      by (auto simp: load_intent_current_def load_effect_def find_effect decode_intent_Inr split: option.split_asm)
    then show ?thesis using h row_by_SomeD [OF r(1)] by (auto simp: uncertainty_decision_id_current_def find_effect)
  next
    assume "\<exists>row. uncertainty_stored i a ow f n reason q t row d d' \<and> x = ef_intent (uncertain_row reason q t row) \<and>
                effect_ok sha sensitive (uncertain_row reason q t row)"
    then obtain row where st: "uncertainty_stored i a ow f n reason q t row d d'" and ok': "effect_ok sha sensitive (uncertain_row reason q t row)" by blast
    have "effect_settled row (uncertain_row reason q t row) d d'" "effect_key row = i" using st by (auto simp: uncertainty_stored_def)
    then show ?thesis using effect_settled_keeps [OF ok _ ok'] by (intro bexI [of _ "uncertain_row reason q t row"]) (auto simp: uncertain_row_def)
  qed
qed

lemma suspended_run:
  assumes ok: "states_ok sha redact d"
    and cas: "compare_and_swap sha redact secret (suspended_state s a p q now) (rs_version s) d = Inr (t, d')"
  shows "\<exists>r \<in> set (db_run_states d'). row_memorial r = rs_memorial s \<and> rs_phase (rr_state r) = PWaitingDecision \<and>
           cont_pending (rs_continuation (rr_state r)) = Some q"
proof -
  from compare_and_swap_Inr [OF ok cas] obtain r where t: "t = (suspended_state s a p q now)\<lparr>rs_version := rs_version s + 1\<rparr>"
    and sw: "swapped r t d d'" and tv: "valid_run_state sha redact t" "decision_binding_ok t" by blast
  have "r\<lparr>rr_state := t\<rparr> \<in> set (db_run_states d')" using swapped_keeps [OF ok sw tv] by simp
  then show ?thesis by (rule rev_bexI) (simp add: row_memorial_def t suspended_state_def)
qed

lemma suspended_attempt:
  assumes ok: "ledger_ok d" and ni: "\<not> blank ni"
    and co: "complete_current sha ni i ow f (suspended_outcome now) d = Inr (True, d')"
  shows "\<exists>a \<in> set (db_attempts d'). at_id a = i \<and> at_status a = Suspended \<and> at_fence a = f \<and> at_owner a = None"
proof -
  have vo: "valid_outcome (suspended_outcome now)" by (simp add: valid_outcome_def suspended_outcome_def)
  from complete_current_cases [OF ok vo ni co] obtain a where a: "a \<in> set (db_attempts d)" "at_id a = i" "authority_at a ow f now"
    and d': "d' = d\<lparr>db_attempts := update_rows (\<lambda>b. b = a) (completed_row Suspended (suspended_outcome now)) (db_attempts d)\<rparr>"
    by (auto simp: suspended_outcome_def completion_status_def Let_def)
  let ?c = "completed_row Suspended (suspended_outcome now) a"
  have "?c \<in> set (db_attempts d')" using a(1) by (auto simp: d' set_update_rows)
  then show ?thesis by (rule rev_bexI) (use a in \<open>simp add: completed_row_def authority_at_iff\<close>)
qed

text \<open>An execution moves the journal by one or two of its steps, and the world by what the provider does.\<close>

lemma suspend_effect_step:
  assumes "suspend_uncertain sha redact secret sensitive hook fr ni clk au i s auth expires d = (res, d')"
  shows "(effect_step sha sensitive)\<^sup>*\<^sup>* d d'"
proof (cases "suspend_body sha redact secret sensitive hook fr ni clk au i s auth expires d")
  case (Inl e)
  then show ?thesis using assms by (simp add: suspend_uncertain_def atomically_def)
next
  case (Inr x)
  then obtain q where q: "suspend_body sha redact secret sensitive hook fr ni clk au i s auth expires d = Inr (q, d')"
    using assms by (cases x) (simp add: suspend_uncertain_def atomically_def)
  from suspend_body_Inr [OF q] obtain a p t j d1 d2 d3 d4 where
    rq: "request_in_transaction sha fr (effect_command i expires) auth (ck_request clk) d = (Inr q, d1)"
    and cas: "compare_and_swap sha redact secret (suspended_state s a p (dq_id q) (ck_suspend clk)) (rs_version s) d1 = Inr (t, d2)"
    and mk: "mark_uncertain_current sha sensitive (in_id i) (aa_attempt au) (aa_owner au) (aa_fence au) (in_version i)
       (''unsupported_'' @ semantics_value (in_semantics i)) (dq_id q) (ck_suspend clk) d2 = Inr (j, d3)"
    and ob: "outbox_add sha (decision_requested_event auth i q (ck_suspend clk)) d3 = Inr d4"
    and co: "complete_current sha ni (aa_attempt au) (aa_owner au) (aa_fence au) (suspended_outcome (ck_suspend clk)) d4 = Inr (True, d')"
    by blast
  have e2: "db_effects d2 = db_effects d"
    using request_in_transaction_Inr [OF rq] compare_and_swap_same [OF cas] by auto
  have e4: "db_effects d' = db_effects d3"
    using outbox_add_Inr [OF ob] complete_only_attempts [OF co] by auto
  have "effect_step sha sensitive d d2" by (rule es_other) (fact e2)
  then have "(effect_step sha sensitive)\<^sup>*\<^sup>* d d3" using es_uncertain [OF mk] by (rule rtranclp.rtrancl_into_rtrancl [OF r_into_rtranclp])
  moreover have "effect_step sha sensitive d3 d'" by (rule es_other) (fact e4)
  ultimately show ?thesis by (rule rtranclp.rtrancl_into_rtrancl)
qed

lemma execute_world:
  assumes ok: "effects_ok sha sensitive d" and v: "valid_intent sha sensitive req"
    and x: "execute sha redact secret sensitive b hook fr ni clk au req inputs d w = (res, d', w')"
  shows "effects_ok sha sensitive d' \<and> effects_evolve d d' \<and>
         (w' = w \<or> (\<exists>i r. bd_semantics b = in_semantics i \<and> in_semantics i \<in> {ProviderIdempotent, ReceiptLookup} \<and> in_provider_key i \<noteq> None \<and>
                     r \<in> set (db_effects d') \<and> effect_position r = (in_memorial req, in_sequence req) \<and>
                     in_provider_key (ef_intent r) = in_provider_key i \<and> w' = snd (ask_provider b hook i w)))"
proof -
  define checked where "checked = and_then (validate_boundary req b) (\<lambda>_. if \<not> supported_provider_semantics (in_semantics req)
      then and_then (validate_uncertainty_inputs req inputs) (\<lambda>x. Inr (Some x)) else Inr None)"
  obtain bres d1 where br: "begin_or_recover sha sensitive au req (ck_begin clk) d = (bres, d1)" by fastforce
  have step: "effects_ok sha sensitive e' \<and> effects_evolve e e'" if "(effect_step sha sensitive)\<^sup>*\<^sup>* e e'" "effects_ok sha sensitive e" for e e'
    using effects.steps_inv_evo [OF that] by simp
  show ?thesis
  proof (cases checked)
    case (Inl e)
    then show ?thesis using x ok unfolding execute_def Let_def checked_def [symmetric] by simp
  next
    case (Inr suspension)
    note ch = Inr
    show ?thesis
    proof (cases bres)
      case (Inl e)
      then have "d' = d" "w' = w" using x ch br begin_or_recover_cases [OF br] unfolding execute_def Let_def checked_def [symmetric] by auto
      then show ?thesis using ok by simp
    next
      case (Inr i)
      note en = durable_entry [OF ok v br [unfolded Inr]]
      then obtain r where r: "r \<in> set (db_effects d1)" "effect_position r = (in_memorial req, in_sequence req)" "ef_intent r = i" by blast
      show ?thesis
      proof (cases "in_status i = Intended \<and> (\<exists>u. hook ''after_intent'' = Inr u)")
        case False
        have "d' = d1 \<and> w' = w"
        proof (cases "in_status i = Intended")
          case True
          then obtain e where "hook ''after_intent'' = Inl e" using False by (cases "hook ''after_intent''") auto
          then show ?thesis using x ch br Inr True unfolding execute_def Let_def checked_def [symmetric] by simp
        next
          case False
          then show ?thesis using x ch br Inr unfolding execute_def Let_def checked_def [symmetric] by simp
        qed
        then show ?thesis using en by simp
      next
        case True
        then obtain u where hk: "in_status i = Intended" "hook ''after_intent'' = Inr u" by blast
        show ?thesis
        proof (cases suspension)
          case (Some sx)
          obtain s auth expires where sx: "sx = (s, auth, expires)" by (cases sx)
          have "\<exists>res2. suspend_uncertain sha redact secret sensitive hook fr ni clk au i s auth expires d1 = (res2, d')" and w: "w' = w"
            using x ch br Inr hk Some sx unfolding execute_def Let_def checked_def [symmetric] by (auto split: prod.split_asm)
          then have "(effect_step sha sensitive)\<^sup>*\<^sup>* d1 d'" using suspend_effect_step by blast
          then show ?thesis using step en effects_evolve_trans w by blast
        next
          case None
          then have pf: "perform_effect sha sensitive b hook clk au i d1 w = (res, d', w')"
            using x ch br Inr hk unfolding execute_def Let_def checked_def [symmetric] by simp
          have sup: "supported_provider_semantics (in_semantics req)" "bd_semantics b = in_semantics req"
            using ch None by (auto simp: checked_def validate_boundary_def split: if_split_asm)
          have sem: "in_semantics i = in_semantics req" using en by (simp add: same_business_intent_def)
          have key: "in_provider_key i = Some (in_id i)" using en sup(1) sem by (simp add: valid_intent_def)
          note pc = perform_effect_cases [OF pf]
          have kept: "effects_ok sha sensitive d' \<and> effects_evolve d1 d'" using step [OF r_into_rtranclp] pc en by blast
          then obtain r' where r': "r' \<in> set (db_effects d')" "effect_moves r r'" using r(1) unfolding effects_evolve_def by blast
          then have at: "effect_position r' = (in_memorial req, in_sequence req)" "in_provider_key (ef_intent r') = in_provider_key i"
            using r(2,3) by (auto simp: effect_moves_def)
          have ev: "effects_evolve d d'" using en kept effects_evolve_trans by blast
          have bs: "bd_semantics b = in_semantics i" "in_semantics i \<in> {ProviderIdempotent, ReceiptLookup}" "in_provider_key i \<noteq> None"
            using sup sem key by (auto simp: supported_provider_semantics_def)
          from pc show ?thesis using ev kept bs at r'(1) by blast
        qed
      qed
    qed
  qed
qed

section \<open>Runs at one position\<close>

text \<open>
  Executions for the effect at one position of one memorial, by any authority, with any clock, crashing
  wherever the hook raises, interleaved with any other work on the journal.
\<close>

inductive managed_step ::
  "(string \<Rightarrow> string) \<Rightarrow> (string \<Rightarrow> string) \<Rightarrow> (run_state \<Rightarrow> bool) \<Rightarrow> (json \<Rightarrow> bool) \<Rightarrow> 'w boundary \<Rightarrow> string \<Rightarrow> int \<Rightarrow>
   db \<times> 'w \<Rightarrow> db \<times> 'w \<Rightarrow> bool" for sha redact secret sensitive b m n where
  ms_execute: "valid_intent sha sensitive req \<Longrightarrow> in_memorial req = m \<Longrightarrow> in_sequence req = n \<Longrightarrow>
    execute sha redact secret sensitive b hook fr ni clk au req inputs d w = (res, d', w') \<Longrightarrow>
    managed_step sha redact secret sensitive b m n (d, w) (d', w')"
| ms_other: "effect_step sha sensitive d d' \<Longrightarrow> managed_step sha redact secret sensitive b m n (d, w) (d', w)"

text \<open>The world is the first one, or the first one after an invocation under the key journalled for the position.\<close>

definition applied_once :: "'w boundary \<Rightarrow> string \<Rightarrow> int \<Rightarrow> 'w \<Rightarrow> db \<Rightarrow> 'w \<Rightarrow> bool" where
  "applied_once b m n w d w' =
     (w' = w \<or> (\<exists>r \<in> set (db_effects d). effect_position r = (m, n) \<and> in_provider_key (ef_intent r) \<noteq> None \<and>
                 (\<exists>i. in_provider_key i = in_provider_key (ef_intent r) \<and> w' = snd (bd_invoke b i w))))"

lemma applied_once_evolve:
  assumes "applied_once b m n w d w'" "effects_evolve d d'"
  shows "applied_once b m n w d' w'"
proof (cases "w' = w")
  case False
  then obtain r i where r: "r \<in> set (db_effects d)" "effect_position r = (m, n)" "in_provider_key (ef_intent r) \<noteq> None"
    and i: "in_provider_key i = in_provider_key (ef_intent r)" "w' = snd (bd_invoke b i w)" using assms(1) unfolding applied_once_def by blast
  obtain r' where r': "r' \<in> set (db_effects d')" "effect_moves r r'" using assms(2) r(1) unfolding effects_evolve_def by blast
  then have "effect_position r' = (m, n)" "in_provider_key (ef_intent r') = in_provider_key (ef_intent r)"
    using r(2) by (auto simp: effect_moves_def)
  then show ?thesis using r'(1) r(3) i unfolding applied_once_def by metis
qed (simp add: applied_once_def)

lemma managed_step_keeps:
  assumes con: "provider_contract b" and st: "managed_step sha redact secret sensitive b m n (d, w1) (d', w2)"
    and ok: "effects_ok sha sensitive d" and ap: "applied_once b m n w d w1"
  shows "effects_ok sha sensitive d' \<and> applied_once b m n w d' w2"
  using st
proof cases
  case (ms_execute req hook fr ni clk au inputs res)
  note x = execute_world [OF ok ms_execute(1,4)]
  have ap': "applied_once b m n w d' w1" using applied_once_evolve [OF ap] x by blast
  show ?thesis
  proof (cases "w2 = w1")
    case True
    then show ?thesis using ap' x by simp
  next
    case False
    then obtain i r where i: "bd_semantics b = in_semantics i" "in_semantics i \<in> {ProviderIdempotent, ReceiptLookup}" "in_provider_key i \<noteq> None"
      and r: "r \<in> set (db_effects d')" "effect_position r = (m, n)" "in_provider_key (ef_intent r) = in_provider_key i"
      and w2: "w2 = snd (ask_provider b hook i w1)" using x ms_execute(2,3) by blast
    have ok': "effects_ok sha sensitive d'" using x by simp
    show ?thesis
    proof (cases "w1 = w")
      case True
      then have "w2 = w \<or> w2 = snd (bd_invoke b i w)" using ask_provider_world(1) [OF con i, of hook w] w2 by simp
      then show ?thesis using r i(3) ok' unfolding applied_once_def by metis
    next
      case False
      then obtain s j where s: "s \<in> set (db_effects d')" "effect_position s = (m, n)" and j: "in_provider_key j = in_provider_key (ef_intent s)"
        "w1 = snd (bd_invoke b j w)" using ap' unfolding applied_once_def by blast
      have "s = r" by (rule position_row [OF ok' r(1,2) s])
      then have "w2 = w1" using ask_provider_world(2) [OF con i, of j hook w] j r(3) w2 by simp
      then show ?thesis using ap' ok' by simp
    qed
  qed
next
  case ms_other
  then show ?thesis using effect_step_keeps [OF ok] applied_once_evolve [OF ap] by blast
qed

lemma managed_run_keeps:
  assumes con: "provider_contract b" and run: "(managed_step sha redact secret sensitive b m n)\<^sup>*\<^sup>* (d, w) (d', w')"
    and ok: "effects_ok sha sensitive d"
  shows "effects_ok sha sensitive d' \<and> applied_once b m n w d' w'"
  using run
proof (induction "(d', w')" arbitrary: d' w' rule: rtranclp_induct)
  case base
  then show ?case using ok by (simp add: applied_once_def)
next
  case (step y)
  obtain d1 w1 where y: "y = (d1, w1)" by fastforce
  show ?case using managed_step_keeps [OF con step(2) [unfolded y]] step(3) y by blast
qed

section \<open>A small boundary\<close>

text \<open>A provider that remembers the keys it has applied.\<close>

definition demo_boundary :: "string list boundary" where
  "demo_boundary = \<lparr>bd_name = ''b'', bd_semantics = ProviderIdempotent,
     bd_invoke = (\<lambda>i w. (Inr \<lparr>pv_id = ''p1'', pv_metadata = [], pv_effective = 25\<rparr>,
        (let k = the (in_provider_key i) in if k \<in> set w then w else k # w))),
     bd_lookup = (\<lambda>k w. (Inr None, w))\<rparr>"

definition demo_clock :: effect_clock where
  "demo_clock = \<lparr>ck_begin = 20, ck_check = 21, ck_record = 25, ck_suspend = 22, ck_request = 22\<rparr>"

definition demo_authority :: attempt_authority where
  "demo_authority = \<lparr>aa_attempt = ''a1'', aa_memorial = ''m1'', aa_owner = ''w1'', aa_fence = 1\<rparr>"

definition no_inputs :: suspension_inputs where
  "no_inputs = \<lparr>su_run_state = None, su_auth = None, su_expires = None\<rparr>"

definition crash_after_provider :: "string \<Rightarrow> unit result" where
  "crash_after_provider p = (if p = ''after_provider'' then Inl (RuntimeError ''crash'') else Inr ())"

lemma demo_contract: "provider_contract demo_boundary"
  by (simp add: provider_contract_def demo_boundary_def Let_def)

lemma demo_current:
  assumes "10 \<le> t" "t < 1000010"
  shows "require_current ''a1'' ''w1'' 1 t demo_journal = Inr ()"
  using assms by (simp add: require_current_def demo_journal_def demo_defs blank_code is_space_def seconds_def)

lemma demo_recover:
  "begin_or_recover zero_hash (\<lambda>_. False) demo_authority demo_intent 20 demo_journal = (Inr demo_intent, demo_journal)"
proof -
  have au: "require_authority_matches_requested demo_authority demo_intent = Inr ()"
    by (simp add: require_authority_matches_requested_def demo_authority_def demo_intent_def)
  have ld: "load_by_position_current zero_hash (\<lambda>_. False) (in_memorial demo_intent) (in_sequence demo_intent) demo_journal = Inr (Some demo_intent)"
    using demo_intent_valid by (simp add: load_by_position_current_def load_effect_def demo_journal_def decode_intent_def)
  have "require_reconciliation_authority_current demo_intent ''a1'' ''w1'' 1 20 demo_journal = Inr ()"
    using demo_current [of 20]
    by (simp add: require_reconciliation_authority_current_def require_current_authority_def demo_journal_def demo_defs demo_intent_def Let_def)
  then have "recover_intent demo_authority demo_intent 20 demo_intent demo_journal = Inr (demo_intent, demo_journal)"
    by (simp add: recover_intent_def same_business_intent_def demo_authority_def)
  then show ?thesis using au ld by (simp add: begin_or_recover_def atomically_def)
qed

lemma demo_execute:
  assumes "hook ''after_intent'' = Inr ()"
  shows "execute zero_hash id (\<lambda>_. False) (\<lambda>_. False) demo_boundary hook demo_fresh ''x'' demo_clock demo_authority demo_intent no_inputs demo_journal w =
           perform_effect zero_hash (\<lambda>_. False) demo_boundary hook demo_clock demo_authority demo_intent demo_journal w"
proof -
  have b: "validate_boundary demo_intent demo_boundary = Inr ()" by (simp add: validate_boundary_def demo_boundary_def demo_intent_def)
  have s: "supported_provider_semantics (in_semantics demo_intent)" "in_status demo_intent = Intended"
    by (simp_all add: supported_provider_semantics_def demo_intent_def)
  have c: "ck_begin demo_clock = 20" by (simp add: demo_clock_def)
  show ?thesis using assms s demo_recover by (simp add: execute_def b c Let_def)
qed

lemma demo_ask:
  "ask_provider demo_boundary hook demo_intent w =
     (and_then (hook ''after_provider'') (\<lambda>_. Inr (\<lparr>pv_id = ''p1'', pv_metadata = [], pv_effective = 25\<rparr>, False)), if zeros \<in> set w then w else zeros # w)"
  by (simp add: ask_provider_def demo_boundary_def demo_intent_def Let_def)

lemma demo_crash:
  "perform_effect zero_hash (\<lambda>_. False) demo_boundary crash_after_provider demo_clock demo_authority demo_intent demo_journal [] =
     (Inl (RuntimeError ''crash''), demo_journal, [zeros])"
proof -
  have "authority_current demo_authority (ck_check demo_clock) demo_journal = Inr ()"
    using demo_current [of 21] by (simp add: authority_current_def demo_authority_def demo_clock_def)
  then show ?thesis by (simp add: perform_effect_def demo_ask crash_after_provider_def)
qed

lemma demo_perform:
  "\<exists>d'. perform_effect zero_hash (\<lambda>_. False) demo_boundary (\<lambda>_. Inr ()) demo_clock demo_authority demo_intent demo_journal [zeros] =
     (Inr \<lparr>mr_receipt = Some (demo_receipt 25), mr_decision = None, mr_uncertain = False, mr_reconciled = False\<rparr>, d', [zeros])"
proof -
  obtain d' where d': "record_receipt_current zero_hash (\<lambda>_. False) (demo_receipt 25) 1 demo_journal = Inr (demo_receipt 25, d')"
    using demo_record [of 25] by auto
  have "authority_current demo_authority (ck_check demo_clock) demo_journal = Inr ()"
    using demo_current [of 21] by (simp add: authority_current_def demo_authority_def demo_clock_def)
  moreover have "receipt_for zero_hash (\<lambda>_. False) demo_authority demo_intent \<lparr>pv_id = ''p1'', pv_metadata = [], pv_effective = 25\<rparr> 25 = Inr (demo_receipt 25)"
    using demo_receipt_valid [of 25] by (simp add: receipt_for_def zero_sha demo_receipt_def demo_intent_def demo_authority_def Let_def)
  moreover have "in_version demo_intent = 1" "ck_record demo_clock = 25" by (simp_all add: demo_intent_def demo_clock_def)
  ultimately show ?thesis using d' by (simp add: perform_effect_def demo_ask record_effect_def record_receipt_def atomically_def)
qed

section \<open>Properties\<close>



text \<open>
  A settled effect is never asked for again. When the journal holds a receipt or an uncertainty for the
  position of the requested effect, an execution reaches neither the provider nor the journal, and what it
  returns is the recorded receipt or the recorded decision.
\<close>

theorem settled_effect_not_repeated:
  assumes ld: "load_by_position_current sha sensitive (in_memorial req) (in_sequence req) d = Inr (Some e)"
    and st: "in_status e \<noteq> Intended"
    and x: "execute sha redact secret sensitive b hook fr ni clk au req inputs d w = (res, d', w')"
  shows "d' = d \<and> w' = w \<and>
         (\<forall>v. res = Inr v \<longrightarrow>
            (in_status e = Receipted \<longrightarrow> mr_receipt v \<noteq> None \<and> load_receipt_current sha sensitive (in_id e) d = Inr (mr_receipt v)) \<and>
            (in_status e = Uncertain \<longrightarrow> mr_decision v \<noteq> None \<and> mr_decision v = uncertainty_decision_id_current (in_id e) d))"
proof -
  define checked where "checked = and_then (validate_boundary req b) (\<lambda>_. if \<not> supported_provider_semantics (in_semantics req)
      then and_then (validate_uncertainty_inputs req inputs) (\<lambda>x. Inr (Some x)) else Inr None)"
  obtain bres d1 where br: "begin_or_recover sha sensitive au req (ck_begin clk) d = (bres, d1)" by fastforce
  have b1: "d1 = d \<and> (\<forall>i. bres = Inr i \<longrightarrow> i = e)"
    using br ld by (auto simp: begin_or_recover_def recover_intent_def atomically_def Let_def split: sum.split_asm if_split_asm)
  have "(\<exists>er. res = Inl er) \<and> d' = d \<and> w' = w \<or> res = settled_result sha sensitive e d \<and> d' = d \<and> w' = w"
  proof (cases checked)
    case (Inl er)
    then show ?thesis using x unfolding execute_def Let_def checked_def [symmetric] by auto
  next
    case (Inr s)
    then show ?thesis using x br b1 st unfolding execute_def Let_def checked_def [symmetric] by (cases bres) auto
  qed
  moreover have "(in_status e = Receipted \<longrightarrow> mr_receipt v \<noteq> None \<and> load_receipt_current sha sensitive (in_id e) d = Inr (mr_receipt v)) \<and>
            (in_status e = Uncertain \<longrightarrow> mr_decision v \<noteq> None \<and> mr_decision v = uncertainty_decision_id_current (in_id e) d)"
    if "settled_result sha sensitive e d = Inr v" for v
    using that by (auto simp: settled_result_def split: if_split_asm option.split_asm)
  ultimately show ?thesis by auto
qed

definition demo_settled :: db where
  "demo_settled = demo_journal\<lparr>db_effects := [receipted_row (demo_receipt 25)
     \<lparr>ef_intent = demo_intent, ef_decision = None, ef_receipt = None, ef_correlation = Some ''c1''\<rparr>]\<rparr>"

theorem settled_effect_not_repeated_witness:
  "snd (execute zero_hash id (\<lambda>_. False) (\<lambda>_. False) demo_boundary (\<lambda>_. Inr ()) demo_fresh ''x'' demo_clock demo_authority demo_intent no_inputs
     demo_settled []) = (demo_settled, [])"
proof -
  let ?e = "demo_intent\<lparr>in_status := Receipted, in_version := 2, in_updated := 25\<rparr>"
  have "in_reason demo_intent = None" "in_created demo_intent = 20" by (simp_all add: demo_intent_def)
  then have "valid_intent zero_hash (\<lambda>_. False) ?e"
    using valid_intent_move [OF demo_intent_valid, of 2 Receipted None 25] by (simp add: opt_nonblank_def demo_intent_def)
  then have ld: "load_by_position_current zero_hash (\<lambda>_. False) (in_memorial demo_intent) (in_sequence demo_intent) demo_settled = Inr (Some ?e)"
    by (simp add: load_by_position_current_def load_effect_def demo_settled_def receipted_row_def demo_receipt_def decode_intent_def,
        simp add: demo_intent_def)
  have st: "in_status ?e \<noteq> Intended" by simp
  from settled_effect_not_repeated [OF ld st] show ?thesis by (metis prod.collapse)
qed

text \<open>
  C22: A suspension happens in one piece. When an effect that cannot be reconciled is suspended, either
  nothing at all has changed, or in one transaction the decision exists, the run state waits on it, the
  journal entry is uncertain under it, the \<open>decision.requested\<close> event is in the outbox and the attempt is
  suspended, so that no worker holds the run any more.
\<close>

theorem suspension_in_one_piece:
  assumes states: "states_ok sha redact d" and effects: "effects_ok sha sensitive d" and ledger: "ledger_ok d"
    and dec: "decisions_ok sha d" and ni: "\<not> blank ni"
    and x: "suspend_uncertain sha redact secret sensitive hook fr ni clk au i s auth expires d = (res, d')"
  shows "((\<exists>e. res = Inl e) \<and> d' = d) \<or>
    (\<exists>v q. res = Inr v \<and> mr_decision v = Some q \<and>
       (\<exists>r \<in> set (db_decisions d'). row_id r = q) \<and>
       (\<exists>r \<in> set (db_run_states d'). row_memorial r = rs_memorial s \<and> rs_phase (rr_state r) = PWaitingDecision \<and>
          cont_pending (rs_continuation (rr_state r)) = Some q) \<and>
       (\<exists>r \<in> set (db_effects d'). effect_key r = in_id i \<and> in_status (ef_intent r) = Uncertain \<and> ef_decision r = Some q) \<and>
       (\<exists>r \<in> set (db_outbox d'). ob_type r = ''decision.requested'' \<and> ob_memorial r = Some (in_memorial i) \<and> ob_status r = OPending) \<and>
       (\<exists>a \<in> set (db_attempts d'). at_id a = aa_attempt au \<and> at_status a = Suspended \<and> at_fence a = aa_fence au \<and> at_owner a = None))"
proof (cases "suspend_body sha redact secret sensitive hook fr ni clk au i s auth expires d")
  case (Inl e)
  then show ?thesis using x by (auto simp: suspend_uncertain_def atomically_def)
next
  case (Inr y)
  then obtain q where q: "suspend_body sha redact secret sensitive hook fr ni clk au i s auth expires d = Inr (q, d')"
    and res: "res = Inr \<lparr>mr_receipt = None, mr_decision = Some (dq_id q), mr_uncertain = True, mr_reconciled = False\<rparr>"
    using x by (cases y) (auto simp: suspend_uncertain_def atomically_def)
  from suspend_body_Inr [OF q] obtain a p t j d1 d2 d3 d4 where
    rq: "request_in_transaction sha fr (effect_command i expires) auth (ck_request clk) d = (Inr q, d1)"
    and cas: "compare_and_swap sha redact secret (suspended_state s a p (dq_id q) (ck_suspend clk)) (rs_version s) d1 = Inr (t, d2)"
    and mk: "mark_uncertain_current sha sensitive (in_id i) (aa_attempt au) (aa_owner au) (aa_fence au) (in_version i)
       (''unsupported_'' @ semantics_value (in_semantics i)) (dq_id q) (ck_suspend clk) d2 = Inr (j, d3)"
    and ob: "outbox_add sha (decision_requested_event auth i q (ck_suspend clk)) d3 = Inr d4"
    and co: "complete_current sha ni (aa_attempt au) (aa_owner au) (aa_fence au) (suspended_outcome (ck_suspend clk)) d4 = Inr (True, d')"
    by blast
  obtain r where nr: "new_request sha fr (effect_command i expires) auth (ck_request clk) = Inr r"
    and ag: "add_or_get sha r (Some (ax_correlation auth)) d = Inr (q, d1)" and f1: "\<exists>rows. d1 = d\<lparr>db_decisions := rows\<rparr>"
    using request_in_transaction_Inr [OF rq] by blast
  obtain c where d4: "d4 = d3\<lparr>db_outbox := db_outbox d3 @ [new_outbox_row (decision_requested_event auth i q (ck_suspend clk)) c]\<rparr>"
    using outbox_add_Inr [OF ob] by blast
  note frames = f1 compare_and_swap_same [OF cas] mark_only_effects [OF mk] complete_only_attempts [OF co]
  have "valid_decision_request sha r" using new_request_Inr [OF nr] by simp
  from add_or_get_keeps [OF dec this ag] obtain rd where "rd \<in> set (db_decisions d1)" "qr_request rd = q" by blast
  then have decision: "\<exists>r \<in> set (db_decisions d'). row_id r = dq_id q" using frames d4 by (auto simp: row_id_def)
  have ok1: "states_ok sha redact d1" using states f1 by (auto simp: states_ok_def)
  have "db_run_states d' = db_run_states d2" using frames d4 by auto
  then have state: "\<exists>r \<in> set (db_run_states d'). row_memorial r = rs_memorial s \<and> rs_phase (rr_state r) = PWaitingDecision \<and>
      cont_pending (rs_continuation (rr_state r)) = Some (dq_id q)" using suspended_run [OF ok1 cas] by simp
  have e2: "effects_ok sha sensitive d2" "db_effects d' = db_effects d3" using effects frames d4 by (auto simp: effects_ok_def)
  have entry: "\<exists>r \<in> set (db_effects d'). effect_key r = in_id i \<and> in_status (ef_intent r) = Uncertain \<and> ef_decision r = Some (dq_id q)"
    unfolding e2(2) by (rule uncertain_entry [OF e2(1) mk])
  have event: "\<exists>r \<in> set (db_outbox d'). ob_type r = ''decision.requested'' \<and> ob_memorial r = Some (in_memorial i) \<and> ob_status r = OPending"
    using frames d4 by (auto simp: new_outbox_row_def decision_requested_event_def)
  have l4: "ledger_ok d4" using ledger frames d4 by (auto simp: ledger_ok_def has_memorial_def)
  have attempt: "\<exists>a \<in> set (db_attempts d'). at_id a = aa_attempt au \<and> at_status a = Suspended \<and> at_fence a = aa_fence au \<and> at_owner a = None"
    by (rule suspended_attempt [OF l4 ni co])
  show ?thesis using res decision state entry event attempt by auto
qed

definition demo_opaque :: side_effect_intent where
  "demo_opaque = demo_intent\<lparr>in_semantics := OpaqueCli, in_provider_key := None\<rparr>"

definition demo_opaque_db :: db where
  "demo_opaque_db = demo_journal\<lparr>db_run_states := [\<lparr>rr_state = demo_state, rr_correlation = Some ''c1''\<rparr>],
     db_effects := [\<lparr>ef_intent = demo_opaque, ef_decision = None, ef_receipt = None, ef_correlation = Some ''c1''\<rparr>]\<rparr>"

definition demo_effect_request :: decision_request where
  "demo_effect_request = \<lparr>dq_id = ''q2'', dq_schema_version = 1, dq_kind = KTool, dq_edict = ''e1'', dq_memorial = ''m1'',
     dq_key = ''side-effect:'' @ zeros, dq_payload = rc_payload (effect_command demo_opaque 100), dq_payload_hash = zeros,
     dq_requested_by = ''u'', dq_expires = 100, dq_status = Pending, dq_version = 1, dq_created = 22, dq_updated = 22\<rparr>"

definition demo_proposal :: tool_proposal where
  "demo_proposal = \<lparr>tp_call_id = ''f1'', tp_tool_name = ''b:op'', tp_arguments = effect_arguments demo_opaque, tp_arguments_hash = zeros,
     tp_tier = ''uncertain'', tp_policy_rule = Some ''managed_side_effect_unsupported'', tp_proposed_at = 22\<rparr>"

definition demo_requested_db :: db where
  "demo_requested_db = demo_opaque_db\<lparr>db_decisions := [\<lparr>qr_request = demo_effect_request, qr_correlation = Some ''c1''\<rparr>]\<rparr>"

definition demo_waiting_db :: db where
  "demo_waiting_db = demo_requested_db\<lparr>db_run_states :=
     [\<lparr>rr_state = (suspended_state demo_state demo_agent demo_proposal ''q2'' 22)\<lparr>rs_version := 2\<rparr>, rr_correlation = Some ''c1''\<rparr>]\<rparr>"

definition demo_uncertain_db :: db where
  "demo_uncertain_db = demo_waiting_db\<lparr>db_effects := map (uncertain_row ''unsupported_opaque_cli'' ''q2'' 22) (db_effects demo_opaque_db)\<rparr>"

text \<open>The five writes of the suspension, one after the other.\<close>

lemma demo_requested:
  "request_in_transaction zero_hash demo_fresh (effect_command demo_opaque 100) demo_auth 22 demo_opaque_db = (Inr demo_effect_request, demo_requested_db)"
  by code_simp

lemma demo_proposed: "effect_proposal zero_hash demo_opaque 22 = Inr demo_proposal"
  by code_simp

lemma demo_suspended_state:
  "compare_and_swap zero_hash id (\<lambda>_. False) (suspended_state demo_state demo_agent demo_proposal ''q2'' 22) 1 demo_requested_db =
     Inr ((suspended_state demo_state demo_agent demo_proposal ''q2'' 22)\<lparr>rs_version := 2\<rparr>, demo_waiting_db)"
  by code_simp

lemma demo_marked:
  "mark_uncertain_current zero_hash (\<lambda>_. False) zeros ''a1'' ''w1'' 1 1 ''unsupported_opaque_cli'' ''q2'' 22 demo_waiting_db =
     Inr (ef_intent (hd (db_effects demo_uncertain_db)), demo_uncertain_db)"
  by code_simp

lemma demo_handed_over:
  "case outbox_add zero_hash (decision_requested_event demo_auth demo_opaque demo_effect_request 22) demo_uncertain_db of
     Inl e \<Rightarrow> False
   | Inr d \<Rightarrow> (case complete_current zero_hash ''x'' ''a1'' ''w1'' 1 (suspended_outcome 22) d of Inl e \<Rightarrow> False | Inr (b, d') \<Rightarrow> b)"
  by code_simp

lemma demo_ready:
  "authority_current demo_authority 22 demo_opaque_db = Inr ()" "load zero_hash id ''m1'' demo_opaque_db = Inr (Some demo_state)"
  "suspendable demo_state = Some demo_agent"
  by code_simp+

lemma demo_suspends:
  "\<exists>d'. suspend_uncertain zero_hash id (\<lambda>_. False) (\<lambda>_. False) (\<lambda>_. Inr ()) demo_fresh ''x'' demo_clock demo_authority demo_opaque demo_state
     demo_auth 100 demo_opaque_db = (Inr \<lparr>mr_receipt = None, mr_decision = Some ''q2'', mr_uncertain = True, mr_reconciled = False\<rparr>, d')"
proof -
  obtain d4 d5 where out: "outbox_add zero_hash (decision_requested_event demo_auth demo_opaque demo_effect_request 22) demo_uncertain_db = Inr d4"
    and co: "complete_current zero_hash ''x'' ''a1'' ''w1'' 1 (suspended_outcome 22) d4 = Inr (True, d5)"
    using demo_handed_over by (auto split: sum.split_asm)
  have q: "dq_id demo_effect_request = ''q2''" "dq_created demo_effect_request = 22" by (simp_all add: demo_effect_request_def)
  have au: "aa_attempt demo_authority = ''a1''" "aa_owner demo_authority = ''w1''" "aa_fence demo_authority = 1" by (simp_all add: demo_authority_def)
  have ck: "ck_suspend demo_clock = 22" "ck_request demo_clock = 22" by (simp_all add: demo_clock_def)
  have i: "in_memorial demo_opaque = ''m1''" "in_id demo_opaque = zeros" "in_version demo_opaque = 1" "semantics_value (in_semantics demo_opaque) = ''opaque_cli''"
    "rs_version demo_state = 1"
    by (simp_all add: demo_opaque_def demo_intent_def demo_state_def)
  have "suspend_body zero_hash id (\<lambda>_. False) (\<lambda>_. False) (\<lambda>_. Inr ()) demo_fresh ''x'' demo_clock demo_authority demo_opaque demo_state
     demo_auth 100 demo_opaque_db = Inr (demo_effect_request, d5)"
    using out co demo_ready demo_marked
    by (simp add: suspend_body_def ck i demo_requested q demo_proposed demo_suspended_state au)
  then show ?thesis by (simp add: suspend_uncertain_def atomically_def q)
qed

theorem suspension_in_one_piece_witness:
  "\<exists>v d'. suspend_uncertain zero_hash id (\<lambda>_. False) (\<lambda>_. False) (\<lambda>_. Inr ()) demo_fresh ''x'' demo_clock demo_authority demo_opaque demo_state
          demo_auth 100 demo_opaque_db = (Inr v, d') \<and>
        (\<exists>r \<in> set (db_effects d'). effect_key r = zeros \<and> in_status (ef_intent r) = Uncertain \<and> ef_decision r = Some ''q2'') \<and>
        (\<exists>a \<in> set (db_attempts d'). at_id a = ''a1'' \<and> at_status a = Suspended)"
proof -
  have states: "states_ok zero_hash id demo_opaque_db" and dec: "decisions_ok zero_hash demo_opaque_db"
    by (simp_all add: states_ok_def decisions_ok_def demo_opaque_db_def demo_journal_def demo_defs demo_state_def demo_agent_def demo_usage_def
        valid_run_state_def valid_agent_def valid_usage_def opt_hex64_def plan_binding_def opt_nonblank_def blank_code is_space_def Let_def
        decision_binding_ok_def)
  have "valid_intent zero_hash (\<lambda>_. False) demo_opaque" by code_simp
  then have effects: "effects_ok zero_hash (\<lambda>_. False) demo_opaque_db"
    by (simp add: effects_ok_def demo_opaque_db_def effect_ok_def effect_shape_def, simp add: demo_opaque_def demo_intent_def)
  have ledger: "ledger_ok demo_opaque_db"
    by (simp add: demo_opaque_db_def demo_journal_def ledger_ok_def demo_defs row_defs has_memorial_def siblings_ok_def seconds_def)
  obtain d' where x: "suspend_uncertain zero_hash id (\<lambda>_. False) (\<lambda>_. False) (\<lambda>_. Inr ()) demo_fresh ''x'' demo_clock demo_authority demo_opaque demo_state
     demo_auth 100 demo_opaque_db = (Inr \<lparr>mr_receipt = None, mr_decision = Some ''q2'', mr_uncertain = True, mr_reconciled = False\<rparr>, d')"
    using demo_suspends by blast
  have nb: "\<not> blank ''x''" by (simp add: blank_code is_space_def)
  have "in_id demo_opaque = zeros" "aa_attempt demo_authority = ''a1''" by (simp_all add: demo_opaque_def demo_intent_def demo_authority_def)
  with suspension_in_one_piece [OF states effects ledger dec nb x]
  have "\<exists>r \<in> set (db_effects d'). effect_key r = zeros \<and> in_status (ef_intent r) = Uncertain \<and> ef_decision r = Some ''q2''"
    and "\<exists>a \<in> set (db_attempts d'). at_id a = ''a1'' \<and> at_status a = Suspended" by auto
  with x show ?thesis by blast
qed

end
