(* ===== verification/Dag_Graph.thy ===== *)
theory Dag_Graph
  imports Canonical "HOL-Library.AList"
begin

text \<open>
  \<open>models/dag.py\<close> and \<open>dag/graph.py\<close>: the nodes of a task graph, the validation of its structure,
  Kahn's topological sort, the nodes that are ready to run and the propagation of a failure.

  A Python \<open>dict\<close> is an association list in insertion order, written with \<open>AList.update\<close>. The class
  \<open>DAG\<close> keeps references to the nodes of its execution; the model holds each node once, in the graph.
  The two readings agree because node ids are distinct: \<open>validate_dag_structure\<close> checks it and the
  primary key of \<open>dag_nodes\<close> ensures it.
\<close>

section \<open>Nodes and executions\<close>

datatype dag_node_status = NPending | NReady | NRunning | NCompleted | NFailed | NCancelled

record dag_node =
  nd_id :: string
  nd_execution :: string
  nd_description :: string
  nd_depends :: "string list"
  nd_status :: dag_node_status
  nd_official :: "string option"
  nd_worker :: "string option"
  nd_tools :: "string list"
  nd_memorial :: "string option"
  nd_checkpoint :: "json option"
  nd_started :: "instant option"
  nd_completed :: "instant option"
  nd_error :: "string option"

section \<open>The graph\<close>

record dag =
  dg_nodes :: "(string \<times> dag_node) list"
  dg_edges :: "(string \<times> string list) list"
  dg_reverse :: "(string \<times> string list) list"

text \<open>\<open>d.get(k, [])\<close>\<close>

definition entries :: "(string \<times> string list) list \<Rightarrow> string \<Rightarrow> string list" where
  "entries m k = (case map_of m k of None \<Rightarrow> [] | Some xs \<Rightarrow> xs)"

text \<open>\<open>d.setdefault(k, []).append(x)\<close>\<close>

definition append_entry :: "string \<Rightarrow> string \<Rightarrow> (string \<times> string list) list \<Rightarrow> (string \<times> string list) list" where
  "append_entry k x m = AList.update k (entries m k @ [x]) m"

definition reverse_edges :: "(string \<times> string list) list \<Rightarrow> (string \<times> string list) list" where
  "reverse_edges edges = fold (\<lambda>(nid, deps) m. fold (\<lambda>dep. append_entry dep nid) deps m) edges []"

definition make_dag :: "(string \<times> dag_node) list \<Rightarrow> (string \<times> string list) list \<Rightarrow> dag" where
  "make_dag nodes edges = \<lparr>dg_nodes = nodes, dg_edges = edges, dg_reverse = reverse_edges edges\<rparr>"

text \<open>\<open>{n.node_id: f(n) for n in nodes}\<close>\<close>

definition dict_by_id :: "(dag_node \<Rightarrow> 'v) \<Rightarrow> dag_node list \<Rightarrow> (string \<times> 'v) list" where
  "dict_by_id f nodes = fold (\<lambda>n. AList.update (nd_id n) (f n)) nodes []"

definition from_execution :: "dag_node list \<Rightarrow> dag" where
  "from_execution nodes = make_dag (dict_by_id (\<lambda>n. n) nodes) (dict_by_id nd_depends nodes)"

section \<open>Kahn's algorithm\<close>

text \<open>
  The inner loop of \<open>topological_sort\<close>: each child loses one open dependency and is queued when that
  was the last. A child that is not a node is the \<open>KeyError\<close> of \<open>in_degree[child]\<close>.
\<close>

fun relax :: "string list \<Rightarrow> (string \<times> int) list \<Rightarrow> string list \<Rightarrow> ((string \<times> int) list \<times> string list) result" where
  "relax [] in_degree queue = Inr (in_degree, queue)"
| "relax (child # children) in_degree queue =
     (case map_of in_degree child of
        None \<Rightarrow> Inl (KeyError child)
      | Some k \<Rightarrow> relax children (AList.update child (k - 1) in_degree)
                    (if k - 1 = 0 then queue @ [child] else queue))"

definition positive_entries :: "(string \<times> int) list \<Rightarrow> nat" where
  "positive_entries in_degree = length (filter (\<lambda>e. 0 < snd e) in_degree)"

lemma positive_entries_update:
  "map_of m c = Some k \<Longrightarrow>
   positive_entries (AList.update c (k - 1) m) + (if k = 1 then 1 else 0) = positive_entries m"
  by (induction m) (auto simp: positive_entries_def split: if_splits)

lemma relax_measure:
  "relax cs m q = Inr (m', q') \<Longrightarrow> positive_entries m' + length q' \<le> positive_entries m + length q"
proof (induction cs m q rule: relax.induct)
  case (2 c cs m q)
  from "2.prems" obtain k where k: "map_of m c = Some k" by (cases "map_of m c") auto
  with "2.prems" have "relax cs (AList.update c (k - 1) m) (if k - 1 = 0 then q @ [c] else q) = Inr (m', q')" by simp
  from "2.IH" [OF k this] positive_entries_update [OF k] show ?case by (cases "k = 1") simp_all
qed simp

function kahn :: "(string \<times> string list) list \<Rightarrow> (string \<times> int) list \<Rightarrow> string list \<Rightarrow> string list \<Rightarrow> string list result" where
  "kahn reverse in_degree [] res = Inr res"
| "kahn reverse in_degree (nid # queue) res =
     (case relax (entries reverse nid) in_degree queue of
        Inl e \<Rightarrow> Inl e
      | Inr (in_degree', queue') \<Rightarrow> kahn reverse in_degree' queue' (res @ [nid]))"
  by pat_completeness auto
termination
  by (relation "measure (\<lambda>(_, m, q, _). positive_entries m + length q)") (auto dest!: relax_measure)

definition topological_sort :: "dag \<Rightarrow> string list result" where
  "topological_sort g =
     (let in_degree = map (\<lambda>(nid, _). (nid, int (length (entries (dg_edges g) nid)))) (dg_nodes g);
          queue = map fst (filter (\<lambda>(_, deg). deg = 0) in_degree)
      in and_then (kahn (dg_reverse g) in_degree queue [])
           (\<lambda>res. if length res \<noteq> length (dg_nodes g) then Inl (ValueError ''Cycle detected in DAG'')
                  else Inr res))"

section \<open>Validation\<close>

definition join_names :: "string list \<Rightarrow> string" where
  "join_names xs = concat (case xs of [] \<Rightarrow> [] | y # ys \<Rightarrow> y # map (\<lambda>z. '', '' @ z) ys)"

definition duplicate_ids :: "dag_node list \<Rightarrow> string list" where
  "duplicate_ids nodes =
     (let ids = map nd_id nodes in sorted_list_of_set (set (filter (\<lambda>i. 1 < count_list ids i) ids)))"

definition unknown_dependencies :: "dag_node list \<Rightarrow> string list" where
  "unknown_dependencies nodes = sorted_list_of_set (set (concat (map nd_depends nodes)) - set (map nd_id nodes))"

definition validate_dag_structure :: "dag_node list \<Rightarrow> unit result" where
  "validate_dag_structure nodes =
     (if duplicate_ids nodes \<noteq> [] then Inl (ValueError (''Duplicate DAG node ids: '' @ join_names (duplicate_ids nodes)))
      else if unknown_dependencies nodes \<noteq> []
      then Inl (ValueError (''Unknown DAG dependencies: '' @ join_names (unknown_dependencies nodes)))
      else and_then (topological_sort (from_execution nodes)) (\<lambda>_. Inr ()))"

section \<open>Statuses\<close>

fun all_completed :: "(string \<times> dag_node) list \<Rightarrow> string list \<Rightarrow> bool result" where
  "all_completed nodes [] = Inr True"
| "all_completed nodes (d # ds) =
     (case map_of nodes d of
        None \<Rightarrow> Inl (KeyError d)
      | Some n \<Rightarrow> if nd_status n = NCompleted then all_completed nodes ds else Inr False)"

fun ready_among :: "dag \<Rightarrow> (string \<times> dag_node) list \<Rightarrow> dag_node list result" where
  "ready_among g [] = Inr []"
| "ready_among g ((nid, node) # rest) =
     (if nd_status node \<noteq> NPending then ready_among g rest
      else and_then (all_completed (dg_nodes g) (entries (dg_edges g) nid))
             (\<lambda>b. and_then (ready_among g rest) (\<lambda>ns. Inr (if b then node # ns else ns))))"

definition get_ready_nodes :: "dag \<Rightarrow> dag_node list result" where
  "get_ready_nodes g = ready_among g (dg_nodes g)"

text \<open>\<open>self._nodes[node_id]\<close> with its fields assigned.\<close>

definition on_node :: "string \<Rightarrow> (dag_node \<Rightarrow> dag_node) \<Rightarrow> dag \<Rightarrow> dag result" where
  "on_node nid f g =
     (case map_of (dg_nodes g) nid of
        None \<Rightarrow> Inl (KeyError nid)
      | Some n \<Rightarrow> Inr (g\<lparr>dg_nodes := AList.update nid (f n) (dg_nodes g)\<rparr>))"

definition mark_running :: "string \<Rightarrow> dag \<Rightarrow> dag result" where
  "mark_running nid = on_node nid (\<lambda>n. n\<lparr>nd_status := NRunning\<rparr>)"

definition mark_completed :: "string \<Rightarrow> dag \<Rightarrow> dag result" where
  "mark_completed nid = on_node nid (\<lambda>n. n\<lparr>nd_status := NCompleted\<rparr>)"

definition mark_node_failed :: "string \<Rightarrow> string option \<Rightarrow> dag \<Rightarrow> dag result" where
  "mark_node_failed nid err =
     on_node nid (\<lambda>n. let n' = n\<lparr>nd_status := NFailed\<rparr>
                      in if err = None \<or> err = Some '''' then n' else n'\<lparr>nd_error := err\<rparr>)"

definition cancellable :: "dag_node_status \<Rightarrow> bool" where
  "cancellable s = (s = NPending \<or> s = NReady)"

definition terminal :: "dag_node_status \<Rightarrow> bool" where
  "terminal s = (s = NCompleted \<or> s = NFailed \<or> s = NCancelled)"

definition open_nodes :: "(string \<times> dag_node) list \<Rightarrow> nat" where
  "open_nodes nodes = length (filter (\<lambda>e. cancellable (nd_status (snd e))) nodes)"

lemma open_nodes_cancel:
  assumes "map_of m c = Some n" "cancellable (nd_status n)"
  shows "open_nodes (AList.update c (n\<lparr>nd_status := NCancelled\<rparr>) m) < open_nodes m"
  using assms by (induction m) (auto simp: open_nodes_def cancellable_def split: if_splits)

text \<open>
  The loop of \<open>propagate_failure\<close>. It ends because a node is expanded only when it was pending or
  ready, and is not afterwards.
\<close>

function propagate :: "(string \<times> string list) list \<Rightarrow> (string \<times> dag_node) list \<Rightarrow> string list \<Rightarrow> string list \<Rightarrow> string list
    \<Rightarrow> (string list \<times> (string \<times> dag_node) list) result" where
  "propagate reverse nodes [] visited cancelled = Inr (cancelled, nodes)"
| "propagate reverse nodes (nid # queue) visited cancelled =
     (if nid \<in> set visited then propagate reverse nodes queue visited cancelled
      else case map_of nodes nid of
             None \<Rightarrow> Inl (KeyError nid)
           | Some node \<Rightarrow>
               if cancellable (nd_status node)
               then propagate reverse (AList.update nid (node\<lparr>nd_status := NCancelled\<rparr>) nodes)
                      (queue @ entries reverse nid) (nid # visited) (cancelled @ [nid])
               else propagate reverse nodes queue (nid # visited) cancelled)"
  by pat_completeness auto
termination
  by (relation "measures [\<lambda>(_, m, _). open_nodes m, \<lambda>(_, _, q, _). length q]") (auto dest: open_nodes_cancel)

definition propagate_failure :: "string \<Rightarrow> dag \<Rightarrow> (string list \<times> dag) result" where
  "propagate_failure nid g =
     and_then (propagate (dg_reverse g) (dg_nodes g) (entries (dg_reverse g) nid) [] [])
       (\<lambda>(cancelled, nodes). Inr (cancelled, g\<lparr>dg_nodes := nodes\<rparr>))"

definition is_complete :: "dag \<Rightarrow> bool" where
  "is_complete g = (\<forall>e \<in> set (dg_nodes g). terminal (nd_status (snd e)))"

definition has_failures :: "dag \<Rightarrow> bool" where
  "has_failures g = (\<exists>e \<in> set (dg_nodes g). nd_status (snd e) = NFailed)"

end
