(* ===== verification/Dag_Correct.thy ===== *)
theory Dag_Correct
  imports Dag_Graph
begin

text \<open>
  What the graph operations compute: the reverse edges are the converse of the dependencies, Kahn's
  algorithm orders every acyclic graph and rejects every other one, and a propagated failure cancels
  exactly the open nodes that depend on the failed one through open nodes.
\<close>

section \<open>Dictionaries\<close>

lemma entries_update [simp]: "entries (AList.update k xs m) k' = (if k' = k then xs else entries m k')"
  by (simp add: entries_def update_conv')

lemma entries_append_entry [simp]: "entries (append_entry k x m) k' = entries m k' @ (if k' = k then [x] else [])"
  by (simp add: append_entry_def)

lemma entries_Nil [simp]: "entries [] k = []"
  by (simp add: entries_def)

lemma entries_Cons [simp]: "entries ((k, xs) # m) k' = (if k' = k then xs else entries m k')"
  by (simp add: entries_def)

lemma entries_notin: "k \<notin> fst ` set m \<Longrightarrow> entries m k = []"
  by (induction m) auto

lemma filter_count: "length (filter (\<lambda>d. d \<noteq> i) xs) + count_list xs i = length xs"
  by (induction xs) auto

lemma entries_fold_append_entry:
  "entries (fold (\<lambda>dep. append_entry dep n) deps m) d = entries m d @ replicate (count_list deps d) n"
  by (induction deps arbitrary: m) (auto simp: replicate_append_same [symmetric])

lemma entries_reverse_edges:
  "entries (reverse_edges edges) d = concat (map (\<lambda>(n, deps). replicate (count_list deps d) n) edges)"
proof -
  have "entries (fold (\<lambda>(nid, deps) m. fold (\<lambda>dep. append_entry dep nid) deps m) edges m) d =
        entries m d @ concat (map (\<lambda>(n, deps). replicate (count_list deps d) n) edges)" for m
    by (induction edges arbitrary: m) (auto simp: entries_fold_append_entry)
  from this [of "[]"] show ?thesis by (simp add: reverse_edges_def)
qed

lemma update_fresh: "k \<notin> fst ` set m \<Longrightarrow> AList.update k v m = m @ [(k, v)]"
  by (induction m) auto

lemma dict_by_id_distinct:
  assumes "distinct (map nd_id ns)"
  shows "dict_by_id f ns = map (\<lambda>n. (nd_id n, f n)) ns"
proof -
  have "distinct (map fst m @ map nd_id ns) \<Longrightarrow>
        fold (\<lambda>n. AList.update (nd_id n) (f n)) ns m = m @ map (\<lambda>n. (nd_id n, f n)) ns" for m
    by (induction ns arbitrary: m) (auto simp: update_fresh)
  with assms show ?thesis by (simp add: dict_by_id_def)
qed

section \<open>Graphs\<close>

text \<open>A graph of nodes with distinct ids whose dependencies are nodes.\<close>

definition closed_nodes :: "dag_node list \<Rightarrow> bool" where
  "closed_nodes ns = (distinct (map nd_id ns) \<and> (\<forall>n \<in> set ns. set (nd_depends n) \<subseteq> set (map nd_id ns)))"

text \<open>The dependency relation: \<open>(d, n)\<close> when \<open>n\<close> depends on \<open>d\<close>.\<close>

definition dependency :: "dag_node list \<Rightarrow> (string \<times> string) set" where
  "dependency ns = {(d, nd_id n) | d n. n \<in> set ns \<and> d \<in> set (nd_depends n)}"

lemma from_execution_distinct:
  assumes "distinct (map nd_id ns)"
  shows "dg_nodes (from_execution ns) = map (\<lambda>n. (nd_id n, n)) ns"
    and "dg_edges (from_execution ns) = map (\<lambda>n. (nd_id n, nd_depends n)) ns"
    and "dg_reverse (from_execution ns) = reverse_edges (map (\<lambda>n. (nd_id n, nd_depends n)) ns)"
  using assms by (simp_all add: from_execution_def make_dag_def dict_by_id_distinct)

lemma map_of_nodes:
  "distinct (map nd_id ns) \<Longrightarrow> n \<in> set ns \<Longrightarrow> map_of (map (\<lambda>n. (nd_id n, f n)) ns) (nd_id n) = Some (f n)"
  by (rule map_of_is_SomeI) (auto simp: comp_def)

lemma count_reverse:
  assumes "distinct (map nd_id ns)"
  shows "count_list (entries (reverse_edges (map (\<lambda>n. (nd_id n, nd_depends n)) ns)) d) i =
         (if i \<in> nd_id ` set ns then count_list (entries (map (\<lambda>n. (nd_id n, nd_depends n)) ns) i) d else 0)"
proof -
  have c: "count_list (replicate k x) y = (if x = y then k else 0)" for k and x y :: string
    by (induction k) auto
  show ?thesis using assms
    by (induction ns) (auto simp: entries_reverse_edges c count_list_append)
qed

section \<open>Kahn's algorithm\<close>

lemma relax_spec:
  assumes "\<And>c. c \<in> set cs \<Longrightarrow> \<exists>k. map_of m c = Some k \<and> int (count_list cs c) \<le> k"
  shows "\<exists>m' new. relax cs m q = Inr (m', q @ new) \<and> distinct new \<and>
           set new = {c \<in> set cs. map_of m c = Some (int (count_list cs c))} \<and>
           (\<forall>n. map_of m' n = map_option (\<lambda>k. k - int (count_list cs n)) (map_of m n))"
  using assms
proof (induction cs arbitrary: m q)
  case Nil
  then show ?case by (simp add: option.map_ident)
next
  case (Cons c cs)
  from Cons.prems [of c] obtain k where k: "map_of m c = Some k" "int (count_list cs c) + 1 \<le> k" by auto
  define m1 where "m1 = AList.update c (k - 1) m"
  define q1 where "q1 = (if k - 1 = 0 then q @ [c] else q)"
  have m1: "map_of m1 n = (if n = c then Some (k - 1) else map_of m n)" for n
    by (simp add: m1_def update_conv')
  have "\<exists>j. map_of m1 x = Some j \<and> int (count_list cs x) \<le> j" if "x \<in> set cs" for x
    using Cons.prems [of x] that k by (cases "x = c") (auto simp: m1)
  from Cons.IH [OF this, of q1] obtain m' new where IH: "relax cs m1 q1 = Inr (m', q1 @ new)" "distinct new"
    "set new = {x \<in> set cs. map_of m1 x = Some (int (count_list cs x))}"
    "\<And>n. map_of m' n = map_option (\<lambda>k. k - int (count_list cs n)) (map_of m1 n)" by blast
  have "c \<notin> set cs" if "k = 1"
    using k that count_list_0_iff [of cs c] by auto
  then have "distinct ((if k = 1 then [c] else []) @ new)" using IH(2,3) by auto
  moreover have "x \<in> set ((if k = 1 then [c] else []) @ new) \<longleftrightarrow>
      x \<in> set (c # cs) \<and> map_of m x = Some (int (count_list (c # cs) x))" for x
    using IH(3) k by (cases "x = c"; cases "c \<in> set cs") (auto simp: m1 count_notin)
  then have "set ((if k = 1 then [c] else []) @ new) = {x \<in> set (c # cs). map_of m x = Some (int (count_list (c # cs) x))}"
    by blast
  ultimately have new: "distinct ((if k = 1 then [c] else []) @ new)"
    "set ((if k = 1 then [c] else []) @ new) = {x \<in> set (c # cs). map_of m x = Some (int (count_list (c # cs) x))}"
    by blast+
  have "relax (c # cs) m q = Inr (m', q @ ((if k = 1 then [c] else []) @ new))"
    using IH(1) k by (simp add: m1_def q1_def)
  moreover have "map_of m' n = map_option (\<lambda>k. k - int (count_list (c # cs) n)) (map_of m n)" for n
    using IH(4) [of n] k by (auto simp: m1)
  ultimately show ?case using new by blast
qed

text \<open>
  Between two turns of the loop: \<open>res\<close> and the queue hold, without repetition, exactly the nodes whose
  dependencies are all in \<open>res\<close>; every counter is the number of open dependencies of its node; and each
  node of \<open>res\<close> stands behind its dependencies.
\<close>

definition open_deps :: "(string \<Rightarrow> string list) \<Rightarrow> string list \<Rightarrow> string \<Rightarrow> string list" where
  "open_deps deps res n = filter (\<lambda>d. d \<notin> set res) (deps n)"

definition ordered :: "(string \<Rightarrow> string list) \<Rightarrow> string list \<Rightarrow> bool" where
  "ordered deps res = (\<forall>xs n ys. res = xs @ n # ys \<longrightarrow> set (deps n) \<subseteq> set xs)"

definition kahn_inv :: "string set \<Rightarrow> (string \<Rightarrow> string list) \<Rightarrow> (string \<times> int) list \<Rightarrow> string list \<Rightarrow> string list \<Rightarrow> bool" where
  "kahn_inv N deps m q res =
     (distinct (res @ q) \<and> set (res @ q) = {n \<in> N. open_deps deps res n = []} \<and>
      (\<forall>n \<in> N. map_of m n = Some (int (length (open_deps deps res n)))) \<and> ordered deps res)"

lemma ordered_snoc: "ordered deps (res @ [n]) \<longleftrightarrow> ordered deps res \<and> set (deps n) \<subseteq> set res"
proof
  assume a: "ordered deps (res @ [n])"
  have "ordered deps res" unfolding ordered_def
  proof (intro allI impI)
    fix xs m ys assume "res = xs @ m # ys"
    then have "res @ [n] = xs @ m # (ys @ [n])" by simp
    with a show "set (deps m) \<subseteq> set xs" unfolding ordered_def by blast
  qed
  with a show "ordered deps res \<and> set (deps n) \<subseteq> set res" unfolding ordered_def by blast
next
  assume a: "ordered deps res \<and> set (deps n) \<subseteq> set res"
  show "ordered deps (res @ [n])" unfolding ordered_def
  proof (intro allI impI)
    fix xs m ys assume b: "res @ [n] = xs @ m # ys"
    show "set (deps m) \<subseteq> set xs"
    proof (cases ys rule: rev_cases)
      case Nil with a b show ?thesis by simp
    next
      case (snoc zs z)
      with b have "res = xs @ m # zs" by simp
      with a show ?thesis unfolding ordered_def by blast
    qed
  qed
qed

lemma open_deps_snoc:
  "length (open_deps deps (res @ [i]) n) = length (open_deps deps res n) - count_list (open_deps deps res n) i"
  "count_list (open_deps deps res n) i \<le> length (open_deps deps res n)"
  "open_deps deps (res @ [i]) n = filter (\<lambda>d. d \<noteq> i) (open_deps deps res n)"
proof -
  show f: "open_deps deps (res @ [i]) n = filter (\<lambda>d. d \<noteq> i) (open_deps deps res n)"
    by (auto simp: open_deps_def intro: filter_cong)
  show "length (open_deps deps (res @ [i]) n) = length (open_deps deps res n) - count_list (open_deps deps res n) i"
    "count_list (open_deps deps res n) i \<le> length (open_deps deps res n)"
    using filter_count [of i "open_deps deps res n"] by (simp_all add: f)
qed

lemma kahn_step:
  assumes inv: "kahn_inv N deps m (i # q) res"
    and rev: "\<And>d n. count_list (entries reverse d) n = (if n \<in> N then count_list (deps n) d else 0)"
  shows "\<exists>m' q'. relax (entries reverse i) m q = Inr (m', q') \<and> kahn_inv N deps m' q' (res @ [i])"
proof -
  let ?cs = "entries reverse i"
  note k = inv [unfolded kahn_inv_def]
  have i: "i \<in> N" "open_deps deps res i = []" "i \<notin> set res" using k by auto
  have cnt: "count_list ?cs n = count_list (open_deps deps res n) i" if "n \<in> N" for n
  proof -
    have "count_list (filter (\<lambda>d. d \<notin> set res) xs) i = count_list xs i" for xs
      using i(3) by (induction xs) auto
    then show ?thesis using that by (simp add: rev open_deps_def)
  qed
  have csN: "c \<in> N" if "c \<in> set ?cs" for c using rev [of i c] that by (auto simp: count_list_0_iff split: if_splits)
  have "\<exists>j. map_of m c = Some j \<and> int (count_list ?cs c) \<le> j" if "c \<in> set ?cs" for c
    using k csN [OF that] cnt [OF csN [OF that]] open_deps_snoc(2) [of deps res c i] by auto
  from relax_spec [OF this, of q] obtain m' new where r: "relax ?cs m q = Inr (m', q @ new)" "distinct new"
    "set new = {c \<in> set ?cs. map_of m c = Some (int (count_list ?cs c))}"
    "\<And>n. map_of m' n = map_option (\<lambda>k. k - int (count_list ?cs n)) (map_of m n)" by blast
  have cs: "c \<in> set ?cs \<longleftrightarrow> c \<in> N \<and> i \<in> set (open_deps deps res c)" for c
    using csN cnt by (metis count_list_0_iff)
  have set_new: "set new = {n \<in> N. open_deps deps res n \<noteq> [] \<and> open_deps deps (res @ [i]) n = []}"
  proof (rule set_eqI)
    fix n
    show "n \<in> set new \<longleftrightarrow> n \<in> {n \<in> N. open_deps deps res n \<noteq> [] \<and> open_deps deps (res @ [i]) n = []}"
    proof (cases "n \<in> N")
      case True
      then have "map_of m n = Some (int (length (open_deps deps res n)))" using k by blast
      then have "n \<in> set new \<longleftrightarrow> i \<in> set (open_deps deps res n) \<and> open_deps deps (res @ [i]) n = []"
        using True cs [of n] filter_count [of i "open_deps deps res n"]
        by (simp add: r(3) cnt open_deps_snoc(3)) (metis add_cancel_right_left length_0_conv)
      then show ?thesis using True
        by (cases "open_deps deps res n") (auto simp: open_deps_snoc(3))
    qed (use r(3) cs in auto)
  qed
  have keep: "open_deps deps (res @ [i]) n = []" if "open_deps deps res n = []" for n
    using that by (simp add: open_deps_snoc(3))
  have "set ((res @ [i]) @ q @ new) = {n \<in> N. open_deps deps (res @ [i]) n = []}"
    using k set_new keep by auto
  moreover have "distinct ((res @ [i]) @ q @ new)" using k set_new r(2) by auto
  moreover have "map_of m' n = Some (int (length (open_deps deps (res @ [i]) n)))" if "n \<in> N" for n
    using k that r(4) [of n] cnt [OF that] open_deps_snoc(1,2) [of deps res i n] open_deps_snoc(2) [of deps res n i]
    by (auto simp: open_deps_snoc(1))
  moreover have "ordered deps (res @ [i])"
    using k i(2) by (auto simp: ordered_snoc open_deps_def filter_empty_conv)
  ultimately show ?thesis using r(1) by (auto simp: kahn_inv_def)
qed

lemma kahn_result:
  assumes "kahn_inv N deps m q res"
    and "\<And>d n. count_list (entries reverse d) n = (if n \<in> N then count_list (deps n) d else 0)"
  shows "\<exists>r m'. kahn reverse m q res = Inr r \<and> kahn_inv N deps m' [] r"
  using assms
proof (induction reverse m q res rule: kahn.induct)
  case (2 reverse m i q res)
  from kahn_step [OF "2.prems"] obtain m' q' where s: "relax (entries reverse i) m q = Inr (m', q')"
    "kahn_inv N deps m' q' (res @ [i])" by blast
  from "2.IH" [OF s(1) refl s(2) "2.prems"(2)] s(1) show ?case by simp
qed auto

lemma kahn_inv_start:
  assumes "distinct (map fst edges)"
    and "m = map (\<lambda>n. (n, int (length (entries edges n)))) (map fst edges)"
    and "q = map fst (filter (\<lambda>(_, deg). deg = 0) m)"
  shows "kahn_inv (fst ` set edges) (entries edges) m q []"
proof -
  have f: "map fst (filter (\<lambda>(_, deg). deg = 0) (map (\<lambda>n. (n, f n)) ns)) = filter (\<lambda>n. f n = 0) ns"
    for f :: "string \<Rightarrow> int" and ns by (induction ns) auto
  have q: "q = filter (\<lambda>n. entries edges n = []) (map fst edges)" unfolding assms(3,2) f by simp
  have "map_of m n = Some (int (length (entries edges n)))" if "n \<in> fst ` set edges" for n
    unfolding assms(2) using that assms(1) by (auto simp: map_of_map_restrict restrict_map_def comp_def
        intro!: map_of_is_SomeI)
  with assms(1) show ?thesis by (auto simp: kahn_inv_def q open_deps_def ordered_def)
qed

lemma topological_sort_result:
  assumes d: "distinct (map nd_id ns)"
  defines "deps \<equiv> entries (map (\<lambda>n. (nd_id n, nd_depends n)) ns)"
  shows "\<exists>r. topological_sort (from_execution ns) =
               (if length r \<noteq> length ns then Inl (ValueError ''Cycle detected in DAG'') else Inr r) \<and>
             distinct r \<and> set r = {n \<in> nd_id ` set ns. set (deps n) \<subseteq> set r} \<and> ordered deps r"
proof -
  let ?edges = "map (\<lambda>n. (nd_id n, nd_depends n)) ns"
  define m where "m = map (\<lambda>n. (n, int (length (deps n)))) (map nd_id ns)"
  define q where "q = map fst (filter (\<lambda>(_, deg). deg = 0) m)"
  have N: "fst ` set ?edges = nd_id ` set ns" by force
  have "kahn_inv (fst ` set ?edges) deps m q []" unfolding deps_def
    by (rule kahn_inv_start) (use d in \<open>simp_all add: m_def q_def deps_def comp_def\<close>)
  from kahn_result [OF this [unfolded N], of "reverse_edges ?edges"] count_reverse [OF d]
  obtain r m' where r: "kahn (reverse_edges ?edges) m q [] = Inr r" "kahn_inv (nd_id ` set ns) deps m' [] r"
    unfolding deps_def by blast
  have "topological_sort (from_execution ns) =
          (if length r \<noteq> length ns then Inl (ValueError ''Cycle detected in DAG'') else Inr r)"
    using r(1) d by (simp add: topological_sort_def from_execution_distinct m_def q_def deps_def comp_def)
  moreover have "open_deps deps r n = [] \<longleftrightarrow> set (deps n) \<subseteq> set r" for n
    by (auto simp: open_deps_def filter_empty_conv)
  ultimately show ?thesis using r(2) by (auto simp: kahn_inv_def)
qed

section \<open>Acyclic graphs\<close>

lemma dependency_deps:
  assumes "distinct (map nd_id ns)"
  shows "(d, n) \<in> dependency ns \<longleftrightarrow> n \<in> nd_id ` set ns \<and> d \<in> set (entries (map (\<lambda>n. (nd_id n, nd_depends n)) ns) n)"
  using assms by (auto simp: dependency_def entries_def map_of_nodes)

text \<open>A list in which every element stands behind its predecessors shows that the relation has no cycle.\<close>

lemma ordered_acyclic:
  assumes "ordered deps r" "distinct r" "\<And>d n. (d, n) \<in> R \<Longrightarrow> n \<in> set r \<and> d \<in> set (deps n)"
  shows "acyclic R"
proof -
  define ix where "ix x = (LEAST i. i < length r \<and> r ! i = x)" for x
  have ix: "ix (r ! i) = i" if "i < length r" for i unfolding ix_def
    using that assms(2) by (intro Least_equality) (auto simp: nth_eq_iff_index_eq)
  have "R \<subseteq> measure ix"
  proof (clarify)
    fix d n assume "(d, n) \<in> R"
    then have n: "n \<in> set r" "d \<in> set (deps n)" using assms(3) by auto
    then obtain xs ys where r: "r = xs @ n # ys" by (auto simp: in_set_conv_decomp)
    with assms(1) n(2) have "d \<in> set xs" unfolding ordered_def by blast
    then obtain j where j: "j < length xs" "d = xs ! j" by (auto simp: in_set_conv_nth)
    have "ix d = j" "ix n = length xs" using ix [of j] ix [of "length xs"] j r by (auto simp: nth_append)
    with j show "(d, n) \<in> measure ix" by simp
  qed
  then show ?thesis by (meson acyclic_subset wf_acyclic wf_measure)
qed

text \<open>A finite nonempty set in which every element has a predecessor contains a cycle.\<close>

lemma all_have_predecessor_cyclic:
  assumes "finite S" "S \<noteq> {}" "\<And>n. n \<in> S \<Longrightarrow> \<exists>d \<in> S. (d, n) \<in> R"
  shows "\<not> acyclic R"
proof
  assume "acyclic R"
  let ?R = "R \<inter> S \<times> S"
  have "finite ?R" "acyclic ?R" using assms(1) \<open>acyclic R\<close> by (auto intro: acyclic_subset)
  then have "wf ?R" by (simp add: finite_acyclic_wf)
  moreover obtain x where "x \<in> S" using assms(2) by blast
  ultimately obtain z where "z \<in> S" "\<And>y. (y, z) \<in> ?R \<Longrightarrow> y \<notin> S" by (meson wfE_min)
  with assms(3) [of z] show False by blast
qed

lemma topological_sort_acyclic:
  assumes "closed_nodes ns" "acyclic (dependency ns)"
  obtains r where "topological_sort (from_execution ns) = Inr r" "distinct r" "set r = nd_id ` set ns"
    "ordered (entries (map (\<lambda>n. (nd_id n, nd_depends n)) ns)) r"
proof -
  let ?deps = "entries (map (\<lambda>n. (nd_id n, nd_depends n)) ns)"
  have d: "distinct (map nd_id ns)" using assms(1) by (simp add: closed_nodes_def)
  obtain r where r: "topological_sort (from_execution ns) =
      (if length r \<noteq> length ns then Inl (ValueError ''Cycle detected in DAG'') else Inr r)"
    "distinct r" "set r = {n \<in> nd_id ` set ns. set (?deps n) \<subseteq> set r}" "ordered ?deps r"
    using topological_sort_result [OF d] by blast
  have "nd_id ` set ns - set r = {}"
  proof (rule ccontr)
    assume "nd_id ` set ns - set r \<noteq> {}"
    then have "\<not> acyclic (dependency ns)"
    proof (rule all_have_predecessor_cyclic [rotated])
      fix n assume n: "n \<in> nd_id ` set ns - set r"
      then obtain x where x: "x \<in> set (?deps n)" "x \<notin> set r" using r(3) by blast
      with n d have e: "(x, n) \<in> dependency ns" by (simp add: dependency_deps)
      then have "x \<in> nd_id ` set ns" using assms(1) by (auto simp: dependency_def closed_nodes_def)
      with e x(2) show "\<exists>x \<in> nd_id ` set ns - set r. (x, n) \<in> dependency ns" by blast
    qed simp
    with assms(2) show False by blast
  qed
  then have s: "set r = nd_id ` set ns" using r(3) by blast
  have "length r = length ns"
    using distinct_card [OF r(2)] distinct_card [OF d] s by simp
  with r s show thesis by (auto intro: that)
qed

lemma topological_sort_sound:
  assumes "distinct (map nd_id ns)" "topological_sort (from_execution ns) = Inr r"
  shows "distinct r" "set r = nd_id ` set ns" "ordered (entries (map (\<lambda>n. (nd_id n, nd_depends n)) ns)) r"
    "acyclic (dependency ns)"
proof -
  let ?deps = "entries (map (\<lambda>n. (nd_id n, nd_depends n)) ns)"
  from topological_sort_result [OF assms(1)] assms(2)
  have r: "distinct r" "set r = {n \<in> nd_id ` set ns. set (?deps n) \<subseteq> set r}" "ordered ?deps r" "length r = length ns"
    by (auto split: if_splits)
  have "card (set r) = card (nd_id ` set ns)"
    using distinct_card [OF r(1)] distinct_card [OF assms(1)] r(4) by simp
  moreover have "set r \<subseteq> nd_id ` set ns" using r(2) by blast
  ultimately show s: "set r = nd_id ` set ns" by (simp add: card_subset_eq)
  show "acyclic (dependency ns)"
    by (rule ordered_acyclic [OF r(3,1)]) (use s assms(1) in \<open>simp add: dependency_deps\<close>)
  show "distinct r" "ordered ?deps r" using r by blast+
qed

section \<open>Validation\<close>

lemma distinct_counts: "distinct xs \<longleftrightarrow> (\<forall>x \<in> set xs. count_list xs x \<le> 1)"
proof (induction xs)
  case (Cons a xs)
  have "count_list xs x \<le> count_list (a # xs) x" for x by simp
  with Cons show ?case by (auto simp: count_list_0_iff dest: le_trans)
qed simp

lemma duplicate_ids_Nil: "duplicate_ids ns = [] \<longleftrightarrow> distinct (map nd_id ns)"
  unfolding duplicate_ids_def Let_def distinct_counts by (auto simp: filter_empty_conv not_less)

lemma unknown_dependencies_Nil:
  "unknown_dependencies ns = [] \<longleftrightarrow> (\<forall>n \<in> set ns. set (nd_depends n) \<subseteq> set (map nd_id ns))"
  unfolding unknown_dependencies_def by auto

lemma validate_closed: "validate_dag_structure ns = Inr () \<Longrightarrow> closed_nodes ns"
  by (auto simp: validate_dag_structure_def closed_nodes_def duplicate_ids_Nil unknown_dependencies_Nil
      split: if_split_asm)

lemma validate_iff:
  "validate_dag_structure ns = Inr () \<longleftrightarrow>
   distinct (map nd_id ns) \<and> (\<Union>n \<in> set ns. set (nd_depends n)) \<subseteq> nd_id ` set ns \<and> acyclic (dependency ns)"
  (is "?l \<longleftrightarrow> ?r")
proof
  assume v: ?l
  then have c: "closed_nodes ns" by (rule validate_closed)
  then have d: "distinct (map nd_id ns)" by (simp add: closed_nodes_def)
  from v obtain r where "topological_sort (from_execution ns) = Inr r"
    by (auto simp: validate_dag_structure_def split: if_split_asm)
  with topological_sort_sound(4) [OF d] c d show ?r by (auto simp: closed_nodes_def)
next
  assume r: ?r
  then have c: "closed_nodes ns" unfolding closed_nodes_def by auto
  from r obtain rs where "topological_sort (from_execution ns) = Inr rs"
    by (meson topological_sort_acyclic [OF c])
  with c show ?l
    by (simp add: validate_dag_structure_def duplicate_ids_Nil unknown_dependencies_Nil closed_nodes_def)
qed

text \<open>
  C26: \<open>validate_dag_structure\<close> accepts a list of nodes exactly when the ids are distinct, every dependency
  is a node and the dependency relation has no cycle: Kahn's algorithm, which the code runs, ends on every
  input and decides acyclicity.
\<close>

theorem validate_accepts_exactly_dags:
  "validate_dag_structure ns = Inr () \<longleftrightarrow>
   distinct (map nd_id ns) \<and> (\<Union>n \<in> set ns. set (nd_depends n)) \<subseteq> nd_id ` set ns \<and> acyclic (dependency ns)"
  by (rule validate_iff)

lemma ordered_before:
  assumes "ordered deps r" "n \<in> set r" "d \<in> set (deps n)"
  shows "\<exists>xs ys. r = xs @ n # ys \<and> d \<in> set xs"
proof -
  obtain xs ys where "r = xs @ n # ys" using split_list [OF assms(2)] by blast
  moreover from this assms(1) have "set (deps n) \<subseteq> set xs" unfolding ordered_def by blast
  ultimately show ?thesis using assms(3) by blast
qed

text \<open>
  Of a validated list of nodes, \<open>topological_sort\<close> returns an order: every node once, each behind
  all its dependencies.
\<close>

theorem topological_sort_orders:
  assumes "validate_dag_structure ns = Inr ()"
  shows "\<exists>r. topological_sort (from_execution ns) = Inr r \<and> distinct r \<and> set r = nd_id ` set ns \<and>
           (\<forall>n \<in> set ns. \<forall>d \<in> set (nd_depends n). \<exists>xs ys. r = xs @ nd_id n # ys \<and> d \<in> set xs)"
proof -
  have d: "distinct (map nd_id ns)" using validate_closed [OF assms] by (simp add: closed_nodes_def)
  from assms obtain r where r: "topological_sort (from_execution ns) = Inr r"
    by (auto simp: validate_dag_structure_def split: if_split_asm)
  note s = topological_sort_sound [OF d r]
  have "\<exists>xs ys. r = xs @ nd_id n # ys \<and> x \<in> set xs" if n: "n \<in> set ns" "x \<in> set (nd_depends n)" for n x
  proof (rule ordered_before [OF s(3)])
    show "nd_id n \<in> set r" using n s(2) by simp
    show "x \<in> set (entries (map (\<lambda>n. (nd_id n, nd_depends n)) ns) (nd_id n))"
      using n by (simp add: entries_def map_of_nodes [OF d])
  qed
  with r s show ?thesis by blast
qed

section \<open>Propagation\<close>

text \<open>One step of the propagation: from a node to a dependent that was pending or ready at the start.\<close>

definition open_edge :: "(string \<times> string list) list \<Rightarrow> (string \<times> dag_node) list \<Rightarrow> (string \<times> string) set" where
  "open_edge reverse nodes =
     {(p, c). c \<in> set (entries reverse p) \<and> (\<exists>n. map_of nodes c = Some n \<and> cancellable (nd_status n))}"

definition cancel_nodes :: "string list \<Rightarrow> (string \<times> dag_node) list \<Rightarrow> (string \<times> dag_node) list" where
  "cancel_nodes cs nodes = map (\<lambda>(i, n). (i, if i \<in> set cs then n\<lparr>nd_status := NCancelled\<rparr> else n)) nodes"

lemma cancel_nodes_Nil [simp]: "cancel_nodes [] nodes = nodes"
  by (simp add: cancel_nodes_def)

lemma map_of_cancel_nodes:
  "map_of (cancel_nodes cs nodes) i =
   map_option (\<lambda>n. if i \<in> set cs then n\<lparr>nd_status := NCancelled\<rparr> else n) (map_of nodes i)"
  by (induction nodes) (auto simp: cancel_nodes_def)

lemma cancel_nodes_fst [simp]: "map fst (cancel_nodes cs nodes) = map fst nodes"
  by (simp add: cancel_nodes_def comp_def case_prod_unfold)

lemma cancel_nodes_snoc:
  "distinct (map fst nodes) \<Longrightarrow> map_of nodes i = Some n \<Longrightarrow> i \<notin> set cs \<Longrightarrow>
   AList.update i (n\<lparr>nd_status := NCancelled\<rparr>) (cancel_nodes cs nodes) = cancel_nodes (cs @ [i]) nodes"
proof (induction nodes)
  case (Cons e nodes)
  obtain j m where e: "e = (j, m)" by force
  show ?case
  proof (cases "j = i")
    case True
    with Cons.prems e have "i \<notin> fst ` set nodes" "m = n" by auto
    then have "cancel_nodes (cs @ [i]) nodes = cancel_nodes cs nodes"
      unfolding cancel_nodes_def by (intro map_cong) (auto simp: rev_image_eqI)
    with True e \<open>m = n\<close> Cons.prems(3) show ?thesis by (simp add: cancel_nodes_def)
  next
    case False
    with Cons e show ?thesis by (auto simp: cancel_nodes_def)
  qed
qed simp

text \<open>
  Between two turns of the loop: what has been cancelled is reachable over open edges, what was visited
  is cancelled or was not open, and every dependent of the failed node or of a cancelled one has been
  visited or is queued.
\<close>

definition propagate_inv :: "(string \<times> string list) list \<Rightarrow> (string \<times> dag_node) list \<Rightarrow> string \<Rightarrow> string list \<Rightarrow> string list \<Rightarrow> string list \<Rightarrow> bool" where
  "propagate_inv reverse nodes s q visited cancelled =
     (distinct cancelled \<and> set cancelled \<subseteq> set visited \<and>
      set cancelled \<subseteq> {c. (s, c) \<in> (open_edge reverse nodes)\<^sup>+} \<and>
      (\<forall>v \<in> set visited. v \<in> set cancelled \<or> (\<forall>n. map_of nodes v = Some n \<longrightarrow> \<not> cancellable (nd_status n))) \<and>
      set q \<subseteq> (\<Union>p \<in> insert s (set cancelled). set (entries reverse p)) \<and>
      (\<Union>p \<in> insert s (set cancelled). set (entries reverse p)) \<subseteq> set visited \<union> set q)"

lemma propagate_inv_done:
  assumes "propagate_inv reverse nodes s [] visited cancelled"
  shows "set cancelled = {c. (s, c) \<in> (open_edge reverse nodes)\<^sup>+}"
proof -
  note i = assms [unfolded propagate_inv_def]
  have edge: "c \<in> set cancelled" if "p \<in> insert s (set cancelled)" "(p, c) \<in> open_edge reverse nodes" for p c
  proof -
    from that(2) obtain n where n: "c \<in> set (entries reverse p)" "map_of nodes c = Some n" "cancellable (nd_status n)"
      unfolding open_edge_def by blast
    have "(\<Union>p \<in> insert s (set cancelled). set (entries reverse p)) \<subseteq> set visited" using i by simp
    then have "c \<in> set visited" using that(1) n(1) by blast
    with i n(2,3) show ?thesis by blast
  qed
  have "c \<in> set cancelled" if "(s, c) \<in> (open_edge reverse nodes)\<^sup>+" for c
    using that
  proof (induction rule: trancl_induct)
    case (base c)
    then show ?case using edge [of s c] by simp
  next
    case (step b c)
    then show ?case using edge [of b c] by simp
  qed
  moreover have "set cancelled \<subseteq> {c. (s, c) \<in> (open_edge reverse nodes)\<^sup>+}" using i by simp
  ultimately show ?thesis by blast
qed

lemma propagate_spec:
  assumes "propagate_inv reverse nodes s q visited cancelled" "cur = cancel_nodes cancelled nodes"
    and "distinct (map fst nodes)" and "\<And>p c. c \<in> set (entries reverse p) \<Longrightarrow> map_of nodes c \<noteq> None"
  shows "\<exists>cs. propagate reverse cur q visited cancelled = Inr (cs, cancel_nodes cs nodes) \<and> distinct cs \<and>
           set cs = {c. (s, c) \<in> (open_edge reverse nodes)\<^sup>+}"
  using assms
proof (induction reverse cur q visited cancelled rule: propagate.induct)
  case (1 reverse cur visited cancelled)
  then show ?case using propagate_inv_done [OF "1"(1)] by (auto simp: propagate_inv_def)
next
  case (2 reverse cur i q visited cancelled)
  note inv = "2.prems"(1) [unfolded propagate_inv_def]
  show ?case
  proof (cases "i \<in> set visited")
    case True
    with inv have "propagate_inv reverse nodes s q visited cancelled" unfolding propagate_inv_def by auto
    from "2.IH"(1) [OF True this "2.prems"(2-4)] True show ?thesis by simp
  next
    case False
    then have ic: "i \<notin> set cancelled" using inv by blast
    from inv obtain p where p: "p \<in> insert s (set cancelled)" "i \<in> set (entries reverse p)" by auto
    with "2.prems"(4) obtain n where n: "map_of nodes i = Some n" by blast
    have cur: "map_of cur i = Some n" using "2.prems"(2) n ic by (simp add: map_of_cancel_nodes)
    show ?thesis
    proof (cases "cancellable (nd_status n)")
      case True
      with p n have "(p, i) \<in> open_edge reverse nodes" by (simp add: open_edge_def)
      then have "(s, i) \<in> (open_edge reverse nodes)\<^sup>+" using p(1) inv by (auto intro: trancl_into_trancl)
      with inv ic have "propagate_inv reverse nodes s (q @ entries reverse i) (i # visited) (cancelled @ [i])"
        unfolding propagate_inv_def by auto
      moreover have "AList.update i (n\<lparr>nd_status := NCancelled\<rparr>) cur = cancel_nodes (cancelled @ [i]) nodes"
        using "2.prems"(2,3) n ic by (simp add: cancel_nodes_snoc)
      ultimately show ?thesis using "2.IH"(2) [OF False cur True] "2.prems"(3,4) False cur True by simp
    next
      case not: False
      with inv n have "propagate_inv reverse nodes s q (i # visited) cancelled" unfolding propagate_inv_def by auto
      from "2.IH"(3) [OF False cur not this "2.prems"(2-4)] False cur not show ?thesis by simp
    qed
  qed
qed

section \<open>The operations as operations on the list of nodes\<close>

text \<open>
  A graph whose nodes have distinct ids is determined by the list of its nodes, and each operation on the
  graph is an operation on that list.
\<close>

lemma update_rows_structure:
  assumes "\<And>n. nd_id (f n) = nd_id n" "\<And>n. nd_depends (f n) = nd_depends n"
  shows "map nd_id (update_rows p f ns) = map nd_id ns"
    "map (\<lambda>n. (nd_id n, nd_depends n)) (update_rows p f ns) = map (\<lambda>n. (nd_id n, nd_depends n)) ns"
  using assms by (auto simp: update_rows_def comp_def)

lemma dict_update:
  assumes "distinct (map nd_id ns)" "\<And>n. nd_id (f n) = nd_id n" "n0 \<in> set ns"
  shows "AList.update (nd_id n0) (f n0) (map (\<lambda>n. (nd_id n, n)) ns) =
         map (\<lambda>n. (nd_id n, n)) (update_rows (\<lambda>n. nd_id n = nd_id n0) f ns)"
  using assms
proof (induction ns)
  case (Cons a ns)
  show ?case
  proof (cases "nd_id a = nd_id n0")
    case True
    then have "a = n0" using Cons.prems by (auto simp: image_iff)
    moreover have "update_rows (\<lambda>n. nd_id n = nd_id n0) f ns = ns"
      using Cons.prems(1) True by (auto simp: update_rows_def rev_image_eqI intro!: map_idI)
    ultimately show ?thesis using True Cons.prems(2) by (simp add: update_rows_def)
  next
    case False
    with Cons show ?thesis by (auto simp: update_rows_def)
  qed
qed simp

lemma on_node_list:
  assumes "distinct (map nd_id ns)" "i \<in> nd_id ` set ns"
    "\<And>n. nd_id (f n) = nd_id n" "\<And>n. nd_depends (f n) = nd_depends n"
  shows "on_node i f (from_execution ns) = Inr (from_execution (update_rows (\<lambda>n. nd_id n = i) f ns))"
proof -
  obtain n0 where n0: "n0 \<in> set ns" "nd_id n0 = i" using assms(2) by blast
  let ?ns = "update_rows (\<lambda>n. nd_id n = i) f ns"
  have d: "distinct (map nd_id ?ns)" using assms(1) update_rows_structure(1) [OF assms(3,4)] by simp
  have "map_of (dg_nodes (from_execution ns)) i = Some n0"
    using map_of_nodes [OF assms(1) n0(1), of "\<lambda>n. n"] n0(2) by (simp add: from_execution_distinct [OF assms(1)])
  moreover have "(from_execution ns)\<lparr>dg_nodes := AList.update i (f n0) (dg_nodes (from_execution ns))\<rparr> = from_execution ?ns"
    using dict_update [where f = f, OF assms(1,3) n0(1)] n0(2) update_rows_structure(2) [OF assms(3,4)]
    by (simp add: from_execution_distinct [OF assms(1)] from_execution_distinct [OF d])
  ultimately show ?thesis by (simp add: on_node_def)
qed

definition completed_in :: "dag_node list \<Rightarrow> string \<Rightarrow> bool" where
  "completed_in ns d = (\<exists>m \<in> set ns. nd_id m = d \<and> nd_status m = NCompleted)"

definition is_ready :: "dag_node list \<Rightarrow> dag_node \<Rightarrow> bool" where
  "is_ready ns n = (nd_status n = NPending \<and> (\<forall>d \<in> set (nd_depends n). completed_in ns d))"

lemma all_completed_list:
  assumes "distinct (map nd_id ns)" "set ds \<subseteq> nd_id ` set ns"
  shows "all_completed (map (\<lambda>n. (nd_id n, n)) ns) ds = Inr (\<forall>d \<in> set ds. completed_in ns d)"
  using assms(2)
proof (induction ds)
  case (Cons d ds)
  then obtain n where n: "n \<in> set ns" "nd_id n = d" by auto
  have m: "map_of (map (\<lambda>n. (nd_id n, n)) ns) d = Some n" using map_of_nodes [OF assms(1) n(1), of "\<lambda>n. n"] n(2) by simp
  have "completed_in ns d \<longleftrightarrow> nd_status n = NCompleted"
    using n assms(1) by (auto simp: completed_in_def distinct_map dest: inj_onD)
  with Cons m show ?case by simp
qed simp

lemma get_ready_nodes_list:
  assumes "closed_nodes ns"
  shows "get_ready_nodes (from_execution ns) = Inr (filter (is_ready ns) ns)"
proof -
  have d: "distinct (map nd_id ns)" and c: "\<And>n. n \<in> set ns \<Longrightarrow> set (nd_depends n) \<subseteq> nd_id ` set ns"
    using assms by (auto simp: closed_nodes_def)
  have "ready_among (from_execution ns) (map (\<lambda>n. (nd_id n, n)) xs) = Inr (filter (is_ready ns) xs)" if "set xs \<subseteq> set ns" for xs
    using that
  proof (induction xs)
    case (Cons n xs)
    then have n: "n \<in> set ns" by simp
    have "entries (dg_edges (from_execution ns)) (nd_id n) = nd_depends n"
      using map_of_nodes [OF d n, of nd_depends] by (simp add: from_execution_distinct [OF d] entries_def)
    with Cons all_completed_list [OF d c [OF n]] show ?case
      by (auto simp: from_execution_distinct [OF d] is_ready_def)
  qed simp
  from this [of ns] show ?thesis by (simp add: get_ready_nodes_def from_execution_distinct [OF d])
qed

text \<open>An edge to a node that is still pending or ready.\<close>

definition open_dependency :: "dag_node list \<Rightarrow> (string \<times> string) set" where
  "open_dependency ns = {(d, nd_id n) | d n. n \<in> set ns \<and> d \<in> set (nd_depends n) \<and> cancellable (nd_status n)}"

lemma propagate_failure_list:
  assumes d: "distinct (map nd_id ns)"
  obtains cs where
    "propagate_failure i (from_execution ns) =
       Inr (cs, from_execution (update_rows (\<lambda>n. nd_id n \<in> set cs) (\<lambda>n. n\<lparr>nd_status := NCancelled\<rparr>) ns))"
    "distinct cs" "set cs = {c. (i, c) \<in> (open_dependency ns)\<^sup>+}"
proof -
  let ?edges = "map (\<lambda>n. (nd_id n, nd_depends n)) ns" and ?nodes = "map (\<lambda>n. (nd_id n, n)) ns"
  let ?rev = "reverse_edges ?edges"
  have child: "c \<in> set (entries ?rev p) \<longleftrightarrow> (p, c) \<in> dependency ns" for p c
    using count_reverse [OF d, of p c] count_list_0_iff [of "entries ?rev p" c] dependency_deps [OF d, of p c]
      count_list_0_iff [of "entries ?edges c" p] by (auto split: if_split_asm)
  have nodes: "map_of ?nodes c = Some n \<longleftrightarrow> n \<in> set ns \<and> nd_id n = c" for c n
    using map_of_nodes [OF d, of n "\<lambda>n. n"] by (auto dest!: map_of_SomeD)
  have o: "open_edge ?rev ?nodes = open_dependency ns"
    using d by (auto simp: open_edge_def open_dependency_def child nodes dependency_def distinct_map dest: inj_onD)
  have "propagate_inv ?rev ?nodes i (entries ?rev i) [] []" by (simp add: propagate_inv_def)
  moreover have "map_of ?nodes c \<noteq> None" if "c \<in> set (entries ?rev p)" for p c
    using that by (auto simp: child dependency_def map_of_eq_None_iff image_image)
  ultimately obtain cs where cs: "propagate ?rev ?nodes (entries ?rev i) [] [] = Inr (cs, cancel_nodes cs ?nodes)"
    "distinct cs" "set cs = {c. (i, c) \<in> (open_dependency ns)\<^sup>+}"
    using propagate_spec [of ?rev ?nodes i "entries ?rev i" "[]" "[]" ?nodes] d by (auto simp: o comp_def)
  let ?ns = "update_rows (\<lambda>n. nd_id n \<in> set cs) (\<lambda>n. n\<lparr>nd_status := NCancelled\<rparr>) ns"
  have d': "distinct (map nd_id ?ns)" and e: "map (\<lambda>n. (nd_id n, nd_depends n)) ?ns = ?edges"
    using d by (simp_all add: update_rows_structure)
  have "cancel_nodes cs ?nodes = map (\<lambda>n. (nd_id n, n)) ?ns" by (auto simp: cancel_nodes_def update_rows_def)
  then have "propagate_failure i (from_execution ns) = Inr (cs, from_execution ?ns)"
    using cs(1) by (simp add: propagate_failure_def from_execution_distinct [OF d] from_execution_distinct [OF d'] e)
  from this cs(2,3) show thesis by (rule that)
qed

lemma is_complete_list:
  "distinct (map nd_id ns) \<Longrightarrow> is_complete (from_execution ns) \<longleftrightarrow> (\<forall>n \<in> set ns. terminal (nd_status n))"
  by (auto simp: is_complete_def from_execution_distinct)

text \<open>
  A propagated failure cancels exactly the nodes that depend on the failed one through nodes that are
  pending or ready, each once; it leaves every other node as it is.
\<close>

theorem propagate_failure_cancels_downstream:
  assumes "distinct (map nd_id ns)"
  shows "\<exists>cs. propagate_failure i (from_execution ns) =
           Inr (cs, from_execution (map (\<lambda>n. if nd_id n \<in> set cs then n\<lparr>nd_status := NCancelled\<rparr> else n) ns)) \<and>
         distinct cs \<and>
         set cs = {c. (i, c) \<in> {(d, nd_id n) | d n. n \<in> set ns \<and> d \<in> set (nd_depends n) \<and> nd_status n \<in> {NPending, NReady}}\<^sup>+}"
proof -
  have o: "open_dependency ns = {(d, nd_id n) | d n. n \<in> set ns \<and> d \<in> set (nd_depends n) \<and> nd_status n \<in> {NPending, NReady}}"
    by (simp add: open_dependency_def cancellable_def)
  obtain cs where "propagate_failure i (from_execution ns) =
       Inr (cs, from_execution (update_rows (\<lambda>n. nd_id n \<in> set cs) (\<lambda>n. n\<lparr>nd_status := NCancelled\<rparr>) ns))"
    "distinct cs" "set cs = {c. (i, c) \<in> (open_dependency ns)\<^sup>+}"
    by (rule propagate_failure_list [OF assms])
  then show ?thesis unfolding o update_rows_def by blast
qed

section \<open>Examples\<close>

definition example_node :: "string \<Rightarrow> string list \<Rightarrow> dag_node" where
  "example_node i deps =
     \<lparr>nd_id = i, nd_execution = '''', nd_description = i, nd_depends = deps, nd_status = NPending, nd_official = None,
      nd_worker = None, nd_tools = [], nd_memorial = None, nd_checkpoint = None, nd_started = None,
      nd_completed = None, nd_error = None\<rparr>"

definition diamond :: "dag_node list" where
  "diamond = [example_node ''d'' [''b'', ''c''], example_node ''b'' [''a''], example_node ''c'' [''a''], example_node ''a'' []]"

theorem topological_sort_orders_witness:
  "validate_dag_structure diamond = Inr () \<and>
   (\<exists>r. topological_sort (from_execution diamond) = Inr r \<and> distinct r \<and> set r = nd_id ` set diamond \<and>
      (\<forall>n \<in> set diamond. \<forall>d \<in> set (nd_depends n). \<exists>xs ys. r = xs @ nd_id n # ys \<and> d \<in> set xs))"
proof -
  have v: "validate_dag_structure diamond = Inr ()" by code_simp
  from topological_sort_orders [OF v] v show ?thesis by blast
qed

theorem propagate_failure_cancels_downstream_witness:
  "distinct (map nd_id diamond) \<and>
   (\<exists>cs. propagate_failure ''a'' (from_execution diamond) =
           Inr (cs, from_execution (map (\<lambda>n. if nd_id n \<in> set cs then n\<lparr>nd_status := NCancelled\<rparr> else n) diamond)) \<and>
         distinct cs \<and>
         set cs = {c. (''a'', c) \<in> {(d, nd_id n) | d n. n \<in> set diamond \<and> d \<in> set (nd_depends n) \<and> nd_status n \<in> {NPending, NReady}}\<^sup>+})"
proof -
  have d: "distinct (map nd_id diamond)" by code_simp
  from propagate_failure_cancels_downstream [OF d, of "''a''"] d show ?thesis by blast
qed

end
