(* ===== verification/Dag_Repo.thy ===== *)
theory Dag_Repo
  imports Dag_Graph Database
begin

text \<open>
  \<open>models/dag.py\<close> (executions), \<open>storage/dag_repo.py\<close> and \<open>executor/checkpoint.py\<close>: the tables of task
  graphs and their nodes, the claim of a retry, and the checkpoints of nodes. JSON columns hold the value
  their text decodes to; \<open>with self._lock, self._conn\<close> is one transaction. SQL leaves the order of rows
  without an \<open>ORDER BY\<close> open; here it is the order of insertion.
\<close>

section \<open>Rows\<close>

record dag_execution_row =
  dx_id :: string
  dx_edict :: string
  dx_plan :: "json option"
  dx_status :: string
  dx_root :: "string option"
  dx_max_concurrency :: int
  dx_created :: instant
  dx_completed :: "instant option"

record dag_execution = dag_execution_row +
  dx_nodes :: "dag_node list"

record dag_store =
  ds_executions :: "dag_execution_row list"
  ds_nodes :: "dag_node list"
  ds_memorials :: "memorial_row list"

definition execution_row :: "dag_execution \<Rightarrow> dag_execution_row" where
  "execution_row x =
     \<lparr>dx_id = dx_id x, dx_edict = dx_edict x, dx_plan = dx_plan x, dx_status = dx_status x, dx_root = dx_root x,
      dx_max_concurrency = dx_max_concurrency x, dx_created = dx_created x, dx_completed = dx_completed x\<rparr>"

text \<open>\<open>_row_to_dag_execution\<close>\<close>

definition row_to_dag_execution :: "dag_execution_row \<Rightarrow> dag_node list \<Rightarrow> dag_execution" where
  "row_to_dag_execution r nodes =
     \<lparr>dx_id = dx_id r, dx_edict = dx_edict r, dx_plan = dx_plan r, dx_status = dx_status r, dx_root = dx_root r,
      dx_max_concurrency = dx_max_concurrency r, dx_created = dx_created r, dx_completed = dx_completed r,
      dx_nodes = nodes\<rparr>"

definition node_key :: "dag_node \<Rightarrow> string \<times> string" where
  "node_key n = (nd_execution n, nd_id n)"

section \<open>Saving and loading\<close>

definition insert_node :: "dag_node \<Rightarrow> dag_store \<Rightarrow> dag_store result" where
  "insert_node n s =
     (if row_by node_key (node_key n) (ds_nodes s) \<noteq> None then Inl (IntegrityError ''dag_nodes'')
      else Inr (s\<lparr>ds_nodes := ds_nodes s @ [n]\<rparr>))"

fun insert_nodes :: "dag_node list \<Rightarrow> dag_store \<Rightarrow> dag_store result" where
  "insert_nodes [] s = Inr s"
| "insert_nodes (n # ns) s = and_then (insert_node n s) (insert_nodes ns)"

definition bind_nodes :: "dag_execution \<Rightarrow> dag_node list" where
  "bind_nodes x = map (\<lambda>n. n\<lparr>nd_execution := dx_id x\<rparr>) (dx_nodes x)"

definition save_dag_execution :: "dag_execution \<Rightarrow> dag_store \<Rightarrow> unit result \<times> dag_store" where
  "save_dag_execution x = atomically (\<lambda>s.
     if row_by dx_id (dx_id x) (ds_executions s) \<noteq> None then Inl (IntegrityError ''dag_executions'')
     else and_then (insert_nodes (bind_nodes x) (s\<lparr>ds_executions := ds_executions s @ [execution_row x]\<rparr>))
            (\<lambda>s'. Inr ((), s')))"

text \<open>\<open>canonical_nodes.setdefault(node.node_id, node)\<close>: the first node of each id.\<close>

fun canonical_nodes :: "dag_node list \<Rightarrow> dag_node list \<Rightarrow> dag_node list" where
  "canonical_nodes acc [] = acc"
| "canonical_nodes acc (n # ns) =
     canonical_nodes (if nd_id n \<in> nd_id ` set acc then acc else acc @ [n]) ns"

definition save_failed_dag_execution :: "dag_execution \<Rightarrow> dag_store \<Rightarrow> unit result \<times> dag_store" where
  "save_failed_dag_execution x s =
     (if dx_status x \<noteq> ''failed'' \<or> dx_completed x = None
      then (Inl (ValueError ''failed DAG persistence requires a completed failed execution''), s)
      else save_dag_execution (x\<lparr>dx_nodes := canonical_nodes [] (dx_nodes x)\<rparr>) s)"

definition get_dag_nodes :: "dag_store \<Rightarrow> string \<Rightarrow> dag_node list" where
  "get_dag_nodes s i = filter (\<lambda>n. nd_execution n = i) (ds_nodes s)"

definition get_dag_execution :: "dag_store \<Rightarrow> string \<Rightarrow> dag_execution option" where
  "get_dag_execution s i =
     (case row_by dx_id i (ds_executions s) of
        None \<Rightarrow> None
      | Some r \<Rightarrow> Some (row_to_dag_execution r (get_dag_nodes s i)))"

definition get_dag_by_edict :: "dag_store \<Rightarrow> string \<Rightarrow> dag_execution option" where
  "get_dag_by_edict s e =
     (case first_of (select_ordered (\<lambda>r. dx_edict r = e) (\<lambda>r. - dx_created r) (ds_executions s)) of
        None \<Rightarrow> None
      | Some r \<Rightarrow> Some (row_to_dag_execution r (get_dag_nodes s (dx_id r))))"

section \<open>Updates\<close>

definition update_dag_execution_status :: "string \<Rightarrow> string \<Rightarrow> instant option \<Rightarrow> dag_store \<Rightarrow> dag_store" where
  "update_dag_execution_status i status completed_at s =
     s\<lparr>ds_executions := update_rows (\<lambda>r. dx_id r = i)
         (\<lambda>r. case completed_at of
                None \<Rightarrow> r\<lparr>dx_status := status\<rparr>
              | Some t \<Rightarrow> r\<lparr>dx_status := status, dx_completed := Some t\<rparr>) (ds_executions s)\<rparr>"

definition update_node_rows :: "string \<Rightarrow> string \<Rightarrow> (dag_node \<Rightarrow> dag_node) \<Rightarrow> dag_store \<Rightarrow> dag_store" where
  "update_node_rows x i f s = s\<lparr>ds_nodes := update_rows (\<lambda>n. nd_execution n = x \<and> nd_id n = i) f (ds_nodes s)\<rparr>"

definition set_node_status :: "instant \<Rightarrow> dag_node_status \<Rightarrow> string option \<Rightarrow> dag_node \<Rightarrow> dag_node" where
  "set_node_status now status err n =
     (if status = NRunning then n\<lparr>nd_status := status, nd_started := Some now\<rparr>
      else if terminal status then n\<lparr>nd_status := status, nd_completed := Some now, nd_error := err\<rparr>
      else n\<lparr>nd_status := status, nd_error := err\<rparr>)"

definition update_dag_node_status ::
  "instant \<Rightarrow> string \<Rightarrow> string \<Rightarrow> dag_node_status \<Rightarrow> string option \<Rightarrow> dag_store \<Rightarrow> dag_store" where
  "update_dag_node_status now x i status err = update_node_rows x i (set_node_status now status err)"

text \<open>The \<open>EXISTS\<close> of the binding: the memorial belongs to the node, the edict and the root of this graph.\<close>

definition binds_child :: "dag_store \<Rightarrow> string \<Rightarrow> string \<Rightarrow> string \<Rightarrow> bool" where
  "binds_child s x i m =
     list_ex (\<lambda>d. dx_id d = x \<and>
        list_ex (\<lambda>c. mem_edict c = dx_edict d \<and> mem_id c = m \<and> mem_dag_node c = Some i \<and>
                     (dx_root d = None \<or> mem_parent c \<noteq> None \<and> mem_parent c = dx_root d)) (ds_memorials s))
       (ds_executions s)"

definition update_dag_node_memorial :: "string \<Rightarrow> string \<Rightarrow> string \<Rightarrow> dag_store \<Rightarrow> bool \<times> dag_store" where
  "update_dag_node_memorial x i m s =
     (let p = (\<lambda>n. nd_execution n = x \<and> nd_id n = i \<and> binds_child s x i m)
      in (count_rows p (ds_nodes s) = 1,
          s\<lparr>ds_nodes := update_rows p (\<lambda>n. n\<lparr>nd_memorial := Some m\<rparr>) (ds_nodes s)\<rparr>))"

definition update_dag_node_checkpoint :: "string \<Rightarrow> string \<Rightarrow> json option \<Rightarrow> dag_store \<Rightarrow> dag_store" where
  "update_dag_node_checkpoint x i c = update_node_rows x i (\<lambda>n. n\<lparr>nd_checkpoint := c\<rparr>)"

text \<open>\<open>INSERT OR REPLACE\<close> deletes the row of the key and inserts the new one.\<close>

definition save_dag_node :: "dag_node \<Rightarrow> dag_store \<Rightarrow> dag_store" where
  "save_dag_node n s = s\<lparr>ds_nodes := filter (\<lambda>r. node_key r \<noteq> node_key n) (ds_nodes s) @ [n]\<rparr>"

section \<open>The evidence of a completed node\<close>

text \<open>The completed node \<open>i\<close> of the graph, joined with the row of the graph.\<close>

definition completed_node :: "dag_store \<Rightarrow> string \<Rightarrow> string \<Rightarrow> (dag_node \<times> dag_execution_row) list" where
  "completed_node s x i =
     concat (map (\<lambda>n. map (\<lambda>d. (n, d)) (filter (\<lambda>d. dx_id d = nd_execution n) (ds_executions s)))
       (filter (\<lambda>n. nd_execution n = x \<and> nd_id n = i \<and> nd_status n = NCompleted) (ds_nodes s)))"

definition is_evidence :: "dag_node \<Rightarrow> dag_execution_row \<Rightarrow> memorial_row \<Rightarrow> bool" where
  "is_evidence n d m = (mem_edict m = dx_edict d \<and> mem_dag_node m = Some (nd_id n) \<and> mem_status m = TCompleted)"

definition later_than :: "instant \<times> string \<Rightarrow> instant \<times> string \<Rightarrow> bool" where
  "later_than a b = (fst b < fst a \<or> fst a = fst b \<and> snd b < snd a)"

text \<open>
  The fallback for rows without a memorial pointer: the memorial was created after this graph and before
  any later graph of the edict.
\<close>

definition in_time_window :: "dag_store \<Rightarrow> dag_execution_row \<Rightarrow> memorial_row \<Rightarrow> bool" where
  "in_time_window s d m =
     (later_than (mem_created m, mem_id m) (dx_created d, dx_id d) \<and>
      \<not> list_ex (\<lambda>later. dx_edict later = dx_edict d \<and>
                     later_than (dx_created later, dx_id later) (dx_created d, dx_id d) \<and>
                     later_than (mem_created m, mem_id m) (dx_created later, dx_id later)) (ds_executions s))"

definition get_completed_dag_node_memorial :: "dag_store \<Rightarrow> string \<Rightarrow> string \<Rightarrow> memorial_row option" where
  "get_completed_dag_node_memorial s x i =
     (case concat (map (\<lambda>(n, d). filter (\<lambda>m. nd_memorial n = Some (mem_id m) \<and> is_evidence n d m) (ds_memorials s))
             (completed_node s x i)) of
        m # _ \<Rightarrow> Some m
      | [] \<Rightarrow>
          first_of (rev (sort_key (\<lambda>m. (mem_created m, mem_id m))
            (concat (map (\<lambda>(n, d). filter (\<lambda>m. nd_memorial n = None \<and> is_evidence n d m \<and> in_time_window s d m)
                                     (ds_memorials s)) (completed_node s x i))))))"

section \<open>Retries\<close>

definition retryable :: "dag_node_status \<Rightarrow> bool" where
  "retryable s = (s = NFailed \<or> s = NCancelled)"

text \<open>One pass of the inner \<open>for\<close> over the rows, with the flag \<open>changed\<close>.\<close>

fun reset_pass :: "dag_node list \<Rightarrow> string list \<Rightarrow> bool \<Rightarrow> string list \<times> bool" where
  "reset_pass [] reset_ids changed = (reset_ids, changed)"
| "reset_pass (row # rows) reset_ids changed =
     (if nd_id row \<in> set reset_ids \<or> \<not> retryable (nd_status row) then reset_pass rows reset_ids changed
      else if list_ex (\<lambda>d. d \<in> set reset_ids) (nd_depends row) then reset_pass rows (nd_id row # reset_ids) True
      else reset_pass rows reset_ids changed)"

lemma reset_pass_grows:
  "reset_pass rows r c = (r', c') \<Longrightarrow>
   set r \<subseteq> set r' \<and> set r' \<subseteq> set r \<union> nd_id ` set rows \<and> (c \<longrightarrow> c') \<and> (c' \<longrightarrow> c \<or> set r \<subset> set r') \<and> (\<not> c' \<longrightarrow> r' = r)"
proof (induction rows r c arbitrary: r' c' rule: reset_pass.induct)
  case (2 row rows r c)
  show ?case
  proof (cases "nd_id row \<in> set r \<or> \<not> retryable (nd_status row)")
    case True
    with "2.IH"(1) [of r' c'] "2.prems" show ?thesis by auto
  next
    case no: False
    show ?thesis
    proof (cases "list_ex (\<lambda>d. d \<in> set r) (nd_depends row)")
      case True
      with no "2.prems" have "reset_pass rows (nd_id row # r) True = (r', c')" by simp
      with "2.IH"(2) [of r' c'] no True show ?thesis by auto
    next
      case False
      with no "2.IH"(3) [of r' c'] "2.prems" show ?thesis by auto
    qed
  qed
qed simp

lemma reset_pass_measure:
  assumes "reset_pass rows r False = (r', True)"
  shows "card (nd_id ` set rows - set r') < card (nd_id ` set rows - set r)"
proof -
  from reset_pass_grows [OF assms] have "set r \<subset> set r'" "set r' \<subseteq> set r \<union> nd_id ` set rows" by auto
  then have "nd_id ` set rows - set r' \<subset> nd_id ` set rows - set r" by blast
  then show ?thesis by (simp add: psubset_card_mono)
qed

function reset_closure :: "dag_node list \<Rightarrow> string list \<Rightarrow> string list" where
  "reset_closure rows reset_ids =
     (case reset_pass rows reset_ids False of
        (reset_ids', changed) \<Rightarrow> if changed then reset_closure rows reset_ids' else reset_ids')"
  by pat_completeness auto
termination
  by (relation "measure (\<lambda>(rows, r). card (nd_id ` set rows - set r))")
     (auto intro: reset_pass_measure dest: sym)

declare reset_closure.simps [simp del]

text \<open>
  The \<open>SELECT\<close> that checks the new root: a submitted memorial of the same edict whose parent is the old
  root, one attempt later, the old root being failed or cancelled.
\<close>

definition retry_root_ok :: "dag_store \<Rightarrow> string \<Rightarrow> string \<Rightarrow> string \<Rightarrow> bool" where
  "retry_root_ok s e old new =
     list_ex (\<lambda>parent. mem_id parent = old \<and>
        list_ex (\<lambda>child. mem_id child = new \<and> mem_edict child = e \<and> mem_parent child = Some old \<and>
                         mem_attempt child = mem_attempt parent + 1 \<and> mem_status child = TSubmitted \<and>
                         mem_edict parent = mem_edict child \<and> mem_status parent \<in> {TFailed, TCancelled})
          (ds_memorials s)) (ds_memorials s)"

definition reset_node :: "dag_node \<Rightarrow> dag_node" where
  "reset_node n = n\<lparr>nd_status := NPending, nd_error := None, nd_started := None, nd_completed := None\<rparr>"

definition retry_targets :: "dag_node list \<Rightarrow> string list option \<Rightarrow> string list result" where
  "retry_targets rows from_node_ids =
     (case from_node_ids of
        None \<Rightarrow> Inr (map nd_id (filter (\<lambda>n. nd_status n = NFailed) rows))
      | Some ids \<Rightarrow>
          (let unknown = sorted_list_of_set (set ids - nd_id ` set rows)
           in if unknown \<noteq> [] then Inl (ValueError (''unknown DAG nodes: '' @ join_names unknown)) else Inr ids))"

definition retry_claimable :: "string \<Rightarrow> string \<Rightarrow> dag_execution_row \<Rightarrow> bool" where
  "retry_claimable i expected r = (dx_id r = i \<and> dx_root r = Some expected \<and> dx_status r \<in> {''failed'', ''cancelled''})"

text \<open>
  \<open>Inr None\<close> is the lost compare-and-swap, \<open>Inr (Some [])\<close> a claim without a target; both roll back, as
  an exception does.
\<close>

definition claim_dag_retry ::
  "string \<Rightarrow> string \<Rightarrow> string \<Rightarrow> string list option \<Rightarrow> dag_store \<Rightarrow> string list option result \<times> dag_store" where
  "claim_dag_retry i expected_root new_root from_node_ids s =
     (case row_by dx_id i (ds_executions s) of
        None \<Rightarrow> (Inr None, s)
      | Some x \<Rightarrow>
          if \<not> retry_claimable i expected_root x then (Inr None, s)
          else (case retry_targets (get_dag_nodes s i) from_node_ids of
                  Inl e \<Rightarrow> (Inl e, s)
                | Inr [] \<Rightarrow> (Inr (Some []), s)
                | Inr targets \<Rightarrow>
                    if \<not> retry_root_ok s (dx_edict x) expected_root new_root then (Inr None, s)
                    else if count_rows (retry_claimable i expected_root) (ds_executions s) \<noteq> 1 then (Inr None, s)
                    else
                      (let ordered_ids = sorted_list_of_set (set (reset_closure (get_dag_nodes s i) targets));
                           hit = (\<lambda>n. nd_execution n = i \<and> nd_id n \<in> set ordered_ids)
                       in if count_rows hit (ds_nodes s) \<noteq> length ordered_ids
                          then (Inl (RuntimeError ''DAG retry reset set changed during claim''), s)
                          else (Inr (Some ordered_ids),
                                s\<lparr>ds_executions := update_rows (retry_claimable i expected_root)
                                     (\<lambda>r. r\<lparr>dx_root := Some new_root, dx_status := ''pending'', dx_completed := None\<rparr>)
                                     (ds_executions s),
                                  ds_nodes := update_rows hit reset_node (ds_nodes s)\<rparr>))))"

section \<open>Checkpoints\<close>

text \<open>
  \<open>Checkpoint\<close> takes the iteration and the messages as they come out of the JSON text; only the usage is
  a model. \<open>dump\<close> and \<open>load\<close> stand for \<open>UsageSummary.model_dump\<close> and \<open>UsageSummary(**...)\<close>.
\<close>

record checkpoint =
  cp_iteration :: json
  cp_messages :: json
  cp_usage :: usage_summary

definition checkpoint_to_json :: "(usage_summary \<Rightarrow> json) \<Rightarrow> checkpoint \<Rightarrow> json" where
  "checkpoint_to_json dump c =
     JObj [(''iteration'', cp_iteration c), (''messages'', cp_messages c), (''usage'', dump (cp_usage c))]"

definition subscript :: "json \<Rightarrow> string \<Rightarrow> json result" where
  "subscript d k =
     (case d of
        JObj kvs \<Rightarrow> (case map_of kvs k of None \<Rightarrow> Inl (KeyError k) | Some v \<Rightarrow> Inr v)
      | _ \<Rightarrow> Inl (TypeError ''indices must be integers''))"

definition checkpoint_from_json :: "(json \<Rightarrow> usage_summary result) \<Rightarrow> json \<Rightarrow> checkpoint result" where
  "checkpoint_from_json load d =
     and_then (subscript d ''iteration'') (\<lambda>i.
     and_then (subscript d ''messages'') (\<lambda>m.
     and_then (subscript d ''usage'') (\<lambda>u.
     and_then (load u) (\<lambda>us. Inr \<lparr>cp_iteration = i, cp_messages = m, cp_usage = us\<rparr>))))"

definition save_checkpoint :: "(usage_summary \<Rightarrow> json) \<Rightarrow> string \<Rightarrow> string \<Rightarrow> checkpoint \<Rightarrow> dag_store \<Rightarrow> dag_store" where
  "save_checkpoint dump x i c = update_dag_node_checkpoint x i (Some (checkpoint_to_json dump c))"

definition load_checkpoint ::
  "(json \<Rightarrow> usage_summary result) \<Rightarrow> string \<Rightarrow> string \<Rightarrow> dag_store \<Rightarrow> checkpoint option result" where
  "load_checkpoint load x i s =
     (case filter (\<lambda>n. nd_id n = i \<and> nd_checkpoint n \<noteq> None) (get_dag_nodes s x) of
        [] \<Rightarrow> Inr None
      | n # _ \<Rightarrow> and_then (checkpoint_from_json load (the (nd_checkpoint n))) (\<lambda>c. Inr (Some c)))"

definition clear_checkpoint :: "string \<Rightarrow> string \<Rightarrow> dag_store \<Rightarrow> dag_store" where
  "clear_checkpoint x i = update_dag_node_checkpoint x i None"

end
