(* ===== verification/Failure_Reason.thy ===== *)
theory Failure_Reason
  imports Prelude "HOL-Library.Sublist" Database
begin

text \<open>
  \<open>models/failure.py\<close>: the classification of free error texts into the canonical failure reasons, and
  the decision what a write of a memorial stores as its failure reason. Texts are over the code points
  below 256, so the one pattern with a typographic apostrophe has no counterpart here.
\<close>

datatype failure_reason =
    Budget_Exceeded | Iteration_Limit | Orphan_Recovered
  | Provider_Auth_Or_Access | Provider_Quota_Limit | Provider_Capacity_Or_Rate_Limit
  | Provider_Server_Error | Provider_Network | Process_Failure | Empty_Or_Unparseable_Output
  | Agent_Timeout | Context_Overflow | Missing_Config | Model_Not_Found_Or_Unavailable
  | Runtime_Version_Unsupported | Runtime_Missing_Executable | Unknown_Failure

fun reason_value :: "failure_reason \<Rightarrow> string" where
  "reason_value Budget_Exceeded = ''budget_exceeded''"
| "reason_value Iteration_Limit = ''iteration_limit''"
| "reason_value Orphan_Recovered = ''orphan_recovered''"
| "reason_value Provider_Auth_Or_Access = ''agent_error.provider_auth_or_access''"
| "reason_value Provider_Quota_Limit = ''agent_error.provider_quota_limit''"
| "reason_value Provider_Capacity_Or_Rate_Limit = ''agent_error.provider_capacity_or_rate_limit''"
| "reason_value Provider_Server_Error = ''agent_error.provider_server_error''"
| "reason_value Provider_Network = ''agent_error.provider_network''"
| "reason_value Process_Failure = ''agent_error.process_failure''"
| "reason_value Empty_Or_Unparseable_Output = ''agent_error.empty_or_unparseable_output''"
| "reason_value Agent_Timeout = ''agent_error.agent_timeout''"
| "reason_value Context_Overflow = ''agent_error.context_overflow''"
| "reason_value Missing_Config = ''agent_error.missing_config''"
| "reason_value Model_Not_Found_Or_Unavailable = ''agent_error.model_not_found_or_unavailable''"
| "reason_value Runtime_Version_Unsupported = ''agent_error.runtime_version_unsupported''"
| "reason_value Runtime_Missing_Executable = ''agent_error.runtime_missing_executable''"
| "reason_value Unknown_Failure = ''agent_error.unknown''"

definition is_agent_error :: "failure_reason \<Rightarrow> bool" where
  "is_agent_error r = prefix ''agent_error.'' (reason_value r)"

section \<open>Texts\<close>

text \<open>\<open>str.lower\<close> on the code points below 256.\<close>

definition lower_char :: "char \<Rightarrow> char" where
  "lower_char c =
     (let n = of_char c :: nat
      in if 65 \<le> n \<and> n \<le> 90 \<or> 192 \<le> n \<and> n \<le> 222 \<and> n \<noteq> 215 then char_of (n + 32) else c)"

definition lower :: "string \<Rightarrow> string" where
  "lower s = map lower_char s"

text \<open>\<open>sub in s\<close>\<close>

definition contains :: "string \<Rightarrow> string \<Rightarrow> bool" where
  "contains s sub = sublist sub s"

definition contains_any :: "string \<Rightarrow> string list \<Rightarrow> bool" where
  "contains_any s subs = list_ex (contains s) subs"

text \<open>
  \<open>re.search\<close> of \<open>_HTTP_5XX_RE\<close>: a 5 and two more digits with no digit before and none after. \<open>$\<close>
  also matches before a final newline, which is no digit either.
\<close>

fun starts_5xx :: "string \<Rightarrow> bool" where
  "starts_5xx (a # b # c # rest) =
     (a = CHR ''5'' \<and> is_digit b \<and> is_digit c \<and> (case rest of [] \<Rightarrow> True | d # _ \<Rightarrow> \<not> is_digit d))"
| "starts_5xx _ = False"

fun search_5xx :: "bool \<Rightarrow> string \<Rightarrow> bool" where
  "search_5xx after_digit [] = False"
| "search_5xx after_digit (c # s) = (\<not> after_digit \<and> starts_5xx (c # s) \<or> search_5xx (is_digit c) s)"

section \<open>Classification\<close>

definition context_patterns :: "string list" where
  "context_patterns =
     [''context length'', ''context_length_exceeded'', ''maximum context'', ''prompt is too long'',
      ''context size has been exceeded'', ''context window'']"

definition auth_patterns :: "string list" where
  "auth_patterns =
     [''401'', ''403'', ''unauthorized'', ''login required'', ''not logged in'', ''please login again'',
      ''invalid api key'', ''authenticationerror'', ''does not have access'', ''you may not have access'']"

definition quota_patterns :: "string list" where
  "quota_patterns =
     [''402'', ''insufficient_balance'', ''balance is too low'', ''monthly usage limit'', ''usage limit'',
      ''you've hit your limit'', ''credits'', ''quota'']"

definition server_patterns :: "string list" where
  "server_patterns =
     [''server had an error'', ''provider returned error'', ''internal error'', ''internal server error'',
      ''service unavailable'', ''bad gateway'']"

definition network_patterns :: "string list" where
  "network_patterns =
     [''stream disconnected'', ''error sending request'', ''unable to connect'', ''dial tcp'',
      ''connection refused'', ''connection error'', ''apiconnectionerror'', ''dns'', ''i/o timeout'']"

definition process_patterns :: "string list" where
  "process_patterns =
     [''exit status'', ''sigsegv'', ''panic'', ''process exited'', ''pipe has been ended'',
      ''file already closed'', ''traceback (most recent call last)'']"

definition classify_text :: "string \<Rightarrow> failure_reason" where
  "classify_text t =
     (if t = '''' then Unknown_Failure
      else if contains t ''budget_exhausted'' then Budget_Exceeded
      else if contains t ''max iterations'' \<or> contains t ''iteration limit'' then Iteration_Limit
      else if contains t ''orphaned'' \<and> contains t ''heartbeat'' then Orphan_Recovered
      else if contains_any t context_patterns \<or> contains t ''token'' \<and> contains t ''limit'' then Context_Overflow
      else if contains t ''missing environment variable'' \<or> contains t ''missing'' \<and> contains t ''api_key'' \<or>
              contains t ''api key'' \<and> contains t ''required'' \<or> contains t ''no llm provider configured'' \<or>
              contains t ''no provider configured'' then Missing_Config
      else if contains_any t auth_patterns then Provider_Auth_Or_Access
      else if contains_any t quota_patterns then Provider_Quota_Limit
      else if contains_any t [''429'', ''rate limit'', ''ratelimit'', ''overloaded'', ''529'']
           then Provider_Capacity_Or_Rate_Limit
      else if contains_any t server_patterns \<or> search_5xx False t then Provider_Server_Error
      else if contains_any t network_patterns then Provider_Network
      else if contains t ''model'' \<and> contains t ''not found'' \<or>
              contains_any t [''unknown model'', ''http 404'', ''404 page not found'']
           then Model_Not_Found_Or_Unavailable
      else if contains_any t [''returned empty output'', ''returned no parseable output'', ''empty response'']
           then Empty_Or_Unparseable_Output
      else if contains_any t [''timed out'', ''timeout''] then Agent_Timeout
      else if contains t ''executable not found'' \<or> contains t ''command not found'' then Runtime_Missing_Executable
      else if contains_any t [''below the minimum supported version'', ''requires a newer version'']
           then Runtime_Version_Unsupported
      else if contains_any t process_patterns then Process_Failure
      else Unknown_Failure)"

definition classify_failure :: "string option \<Rightarrow> failure_reason" where
  "classify_failure raw_error =
     classify_text (lower (strip (case raw_error of None \<Rightarrow> '''' | Some e \<Rightarrow> e)))"

definition resolve_failure_reason :: "task_status \<Rightarrow> string option \<Rightarrow> string option \<Rightarrow> string option" where
  "resolve_failure_reason status err explicit =
     (if explicit \<noteq> None \<and> explicit \<noteq> Some '''' then explicit
      else if status \<noteq> TFailed then None
      else Some (reason_value (classify_failure err)))"

section \<open>Properties\<close>

lemma reason_value_inj: "reason_value a = reason_value b \<Longrightarrow> a = b"
  by (cases a; cases b) simp_all

lemma lower_char_space: "is_space (lower_char c) \<longleftrightarrow> is_space c"
proof (cases "lower_char c = c")
  case False
  define n where "n = (of_char c :: nat)"
  have n: "65 \<le> n \<and> n \<le> 90 \<or> 192 \<le> n \<and> n \<le> 222" and l: "lower_char c = char_of (n + 32)"
    using False by (auto simp: lower_char_def n_def Let_def split: if_split_asm)
  then have "of_char (lower_char c) = n + 32" by (auto simp: l)
  with n show ?thesis unfolding is_space_def Let_def n_def [symmetric] by auto
qed simp

lemma lower_strip: "lower (strip s) = strip (lower s)"
proof -
  have "lower (lstrip s) = lstrip (lower s)" for s
    by (simp add: lower_def lstrip_def dropWhile_map comp_def lower_char_space)
  moreover have "lower (rstrip s) = rstrip (lower s)" for s
    by (simp add: lower_def rstrip_def dropWhile_map comp_def lower_char_space rev_map)
  ultimately show ?thesis by (simp add: strip_def)
qed

lemma starts_5xx_iff:
  "starts_5xx s \<longleftrightarrow>
   (\<exists>b c q. s = CHR ''5'' # b # c # q \<and> is_digit b \<and> is_digit c \<and> (q = [] \<or> \<not> is_digit (hd q)))"
  by (cases s rule: starts_5xx.cases) (auto split: list.splits)

text \<open>The scan finds exactly what the anchored expression describes.\<close>

lemma search_5xx_iff:
  "search_5xx after s \<longleftrightarrow>
   (\<exists>p q. s = p @ q \<and> starts_5xx q \<and> (if p = [] then \<not> after else \<not> is_digit (last p)))"
proof (induction s arbitrary: after)
  case (Cons c s)
  note IH = Cons.IH
  show ?case
  proof
    assume "search_5xx after (c # s)"
    then consider "\<not> after" "starts_5xx (c # s)" | "search_5xx (is_digit c) s" by auto
    then show "\<exists>p q. c # s = p @ q \<and> starts_5xx q \<and> (if p = [] then \<not> after else \<not> is_digit (last p))"
    proof cases
      case 1
      then show ?thesis by (intro exI [of _ "[]"] exI [of _ "c # s"]) simp
    next
      case 2
      then obtain p q where "s = p @ q" "starts_5xx q" "if p = [] then \<not> is_digit c else \<not> is_digit (last p)"
        unfolding Cons.IH by blast
      then show ?thesis by (intro exI [of _ "c # p"] exI [of _ q]) (simp split: if_split_asm)
    qed
  next
    assume "\<exists>p q. c # s = p @ q \<and> starts_5xx q \<and> (if p = [] then \<not> after else \<not> is_digit (last p))"
    then obtain p q where pq: "c # s = p @ q" "starts_5xx q" "if p = [] then \<not> after else \<not> is_digit (last p)" by blast
    show "search_5xx after (c # s)"
    proof (cases p)
      case Nil
      with pq have "q = c # s" "\<not> after" by simp_all
      with pq(2) show ?thesis by simp
    next
      case (Cons c' p')
      with pq have "s = p' @ q" "if p' = [] then \<not> is_digit c else \<not> is_digit (last p')" by (auto split: if_split_asm)
      then have "search_5xx (is_digit c) s" unfolding IH using pq(2) by blast
      then show ?thesis by simp
    qed
  qed
qed (auto simp: starts_5xx_iff)

lemma classify_failure_cong:
  "lower e = lower e' \<Longrightarrow> classify_failure (Some e) = classify_failure (Some e')"
  by (simp add: classify_failure_def lower_strip)

end
