(* ===== verification/Dag_Scheduler.thy ===== *)
theory Dag_Scheduler
  imports Dag_Repo Failure_Reason Run_State_Repo
begin

text \<open>
  \<open>models/plan.py\<close>, \<open>executor/dag_scheduler.py\<close>, the callback contract of \<open>executor/worker_pool.py\<close>,
  and \<open>executor/cancel.py\<close>: how the nodes of a task graph are started, finished and cancelled.

  A run is a state between the points at which the event loop may switch tasks. The work of a node is
  opaque: what the scheduler sees of it is the outcome of \<open>_run_node\<close>. The callback of a finished node has
  two parts, because it awaits the event bus in between: \<open>node_finished\<close> records the outcome and
  \<open>after_node\<close> schedules what became ready; other callbacks may run between them. One clock reading
  serves all timestamps of such a part.
\<close>

section \<open>Plans\<close>

record plan_task =
  pt_id :: string
  pt_description :: string
  pt_depends :: "string list"
  pt_tools :: "string list"
  pt_parallel :: bool
  pt_tokens :: "int option"
  pt_official :: "string option"

definition fresh_node :: "plan_task \<Rightarrow> dag_node" where
  "fresh_node t =
     \<lparr>nd_id = pt_id t, nd_execution = '''', nd_description = pt_description t, nd_depends = pt_depends t,
      nd_status = NPending, nd_official = pt_official t, nd_worker = None, nd_tools = pt_tools t,
      nd_memorial = None, nd_checkpoint = None, nd_started = None, nd_completed = None, nd_error = None\<rparr>"

text \<open>\<open>Plan.to_dag\<close>; the id, the creation time and the dump of the plan are arguments.\<close>

definition to_dag :: "string \<Rightarrow> instant \<Rightarrow> json \<Rightarrow> plan_task list \<Rightarrow> string \<Rightarrow> int \<Rightarrow> dag_execution" where
  "to_dag new_id now dump tasks edict_id max_concurrency =
     \<lparr>dx_id = new_id, dx_edict = edict_id, dx_plan = Some dump, dx_status = ''pending'', dx_root = None,
      dx_max_concurrency = max_concurrency, dx_created = now, dx_completed = None,
      dx_nodes = map fresh_node tasks\<rparr>"

section \<open>The plan revision of a run\<close>

definition node_projection :: "dag_node list \<Rightarrow> (string \<times> string \<times> string list \<times> string list \<times> string option) list" where
  "node_projection nodes =
     map (\<lambda>n. (nd_id n, nd_description n, nd_depends n, nd_tools n, nd_official n)) nodes"

text \<open>The continuation of a state that carries plan revisions.\<close>

definition plan_continuation :: "run_state option \<Rightarrow> agent_continuation option" where
  "plan_continuation state =
     (case state of
        Some s \<Rightarrow> (case rs_continuation s of
                     Agent a \<Rightarrow> if ac_plan_revisions a \<noteq> [] then Some a else None
                   | OuterLoop _ \<Rightarrow> None)
      | None \<Rightarrow> None)"

text \<open>\<open>plan_model\<close> stands for \<open>Plan.model_validate\<close>: the tasks of the plan, or a validation error.\<close>

definition validate_plan_revision_binding ::
  "(string \<Rightarrow> string) \<Rightarrow> (json option \<Rightarrow> plan_task list option) \<Rightarrow> dag_execution \<Rightarrow> run_state option \<Rightarrow> unit result" where
  "validate_plan_revision_binding sha plan_model x state =
     (case (state, plan_continuation state) of
        (Some s, Some a) \<Rightarrow>
          if rs_edict s \<noteq> dx_edict x then Inl (RuntimeError ''DAG plan revision has an invalid Edict binding'')
          else (case dx_plan x of
                  None \<Rightarrow> Inl (RuntimeError ''DAG plan revision projection is not valid JSON'')
                | Some (JObj kvs) \<Rightarrow>
                    and_then (canonical_sha256 sha (JObj kvs)) (\<lambda>h.
                      if h \<noteq> rev_plan_hash (last (ac_plan_revisions a))
                      then Inl (RuntimeError ''DAG plan revision projection does not match durable evidence'')
                      else case plan_model (map_option JObj (ac_plan_snapshot a)) of
                             None \<Rightarrow> Inl (RuntimeError ''DAG plan revision snapshot is invalid'')
                           | Some tasks \<Rightarrow>
                               raise_unless (node_projection (dx_nodes x) = node_projection (map fresh_node tasks))
                                 (RuntimeError ''DAG node projection does not match durable plan revision''))
                | Some _ \<Rightarrow> Inl (RuntimeError ''DAG plan revision projection is not an object''))
      | _ \<Rightarrow> Inr ())"

definition activate_plan_revision ::
  "(string \<Rightarrow> string) \<Rightarrow> (string \<Rightarrow> string) \<Rightarrow> (run_state \<Rightarrow> bool) \<Rightarrow> (json option \<Rightarrow> plan_task list option) \<Rightarrow>
   instant \<Rightarrow> dag_execution \<Rightarrow> db \<Rightarrow> unit result \<times> db" where
  "activate_plan_revision sha redact secret plan_model now x d =
     (case dx_root x of
        None \<Rightarrow> (Inr (), d)
      | Some m \<Rightarrow> atomically (\<lambda>d.
          and_then (load sha redact m d) (\<lambda>state.
          and_then (validate_plan_revision_binding sha plan_model x state) (\<lambda>_.
            case (state, plan_continuation state) of
              (Some s, Some a) \<Rightarrow>
                if rs_phase s = PExecuting then Inr ((), d)
                else if rs_phase s \<notin> {PPlanning, PPaused}
                then Inl (RuntimeError ''DAG plan revision is not at an executable boundary'')
                else and_then (compare_and_swap sha redact secret
                                 (s\<lparr>rs_phase := PExecuting, rs_updated := max (rs_updated s) now\<rparr>) (rs_version s) d)
                       (\<lambda>(_, d'). Inr ((), d'))
            | _ \<Rightarrow> Inr ((), d)))) d)"

section \<open>Runs\<close>

record agent_result =
  ar_status :: task_status
  ar_result :: "string option"
  ar_usage :: usage_summary
  ar_error :: "string option"

datatype node_outcome = Returned agent_result | Raised string | Task_cancelled

text \<open>A submitted node with the results of its dependencies that its work is given.\<close>

record work_item =
  wi_node :: string
  wi_upstream :: "(string \<times> string) list"

record dag_run =
  rn_dag :: dag
  rn_store :: dag_store
  rn_results :: "(string \<times> string) list"
  rn_usage :: "(string \<times> usage_summary) list"
  rn_tasks :: "work_item list"
  rn_tails :: "string list"
  rn_stopping :: bool
  rn_complete :: bool
  rn_events :: "(string \<times> string) list"

text \<open>Truth of a string: \<open>if x\<close> for \<open>x: str | None\<close>.\<close>

definition truthy :: "string option \<Rightarrow> bool" where
  "truthy v = (v \<noteq> None \<and> v \<noteq> Some '''')"

definition upstream_of :: "(string \<times> string) list \<Rightarrow> string list \<Rightarrow> (string \<times> string) list" where
  "upstream_of results deps =
     fold (\<lambda>dep m. case map_of results dep of None \<Rightarrow> m | Some t \<Rightarrow> AList.update dep t m) deps []"

fun submit_nodes :: "instant \<Rightarrow> string \<Rightarrow> dag_node list \<Rightarrow> dag_run \<Rightarrow> dag_run result" where
  "submit_nodes now x [] r = Inr r"
| "submit_nodes now x (node # nodes) r =
     and_then (mark_running (nd_id node) (rn_dag r)) (\<lambda>g.
     and_then (on_node (nd_id node) (\<lambda>n. n\<lparr>nd_started := Some now\<rparr>) g) (\<lambda>g'.
       submit_nodes now x nodes
         (r\<lparr>rn_dag := g',
            rn_store := update_dag_node_status now x (nd_id node) NRunning None (rn_store r),
            rn_tasks := rn_tasks r @ [\<lparr>wi_node = nd_id node, wi_upstream = upstream_of (rn_results r) (nd_depends node)\<rparr>]\<rparr>)))"

definition schedule_ready :: "instant \<Rightarrow> string \<Rightarrow> dag_run \<Rightarrow> dag_run result" where
  "schedule_ready now x r =
     (if rn_stopping r then Inr r
      else and_then (get_ready_nodes (rn_dag r)) (\<lambda>nodes. submit_nodes now x nodes r))"

subsection \<open>The beginning of a run\<close>

text \<open>What completed nodes of an earlier run left: their results and their usage.\<close>

definition recover_node :: "dag_store \<Rightarrow> string \<Rightarrow> dag_node \<Rightarrow> dag_run \<Rightarrow> dag_run" where
  "recover_node s x n r =
     (if nd_status n \<noteq> NCompleted then r
      else case get_completed_dag_node_memorial s x (nd_id n) of
             None \<Rightarrow> r
           | Some m \<Rightarrow>
               (let r' = (if truthy (mem_result m) then r\<lparr>rn_results := AList.update (nd_id n) (the (mem_result m)) (rn_results r)\<rparr> else r)
                in r'\<lparr>rn_usage := AList.update (nd_id n) (case mem_usage m of None \<Rightarrow> zero_usage | Some u \<Rightarrow> u) (rn_usage r')\<rparr>))"

definition start_scheduling :: "instant \<Rightarrow> dag_execution \<Rightarrow> dag_store \<Rightarrow> dag_run result" where
  "start_scheduling now x s =
     (let r = \<lparr>rn_dag = from_execution (dx_nodes x), rn_store = s, rn_results = [], rn_usage = [], rn_tasks = [],
               rn_tails = [], rn_stopping = False, rn_complete = False, rn_events = []\<rparr>;
          recovered = fold (recover_node s (dx_id x)) (dx_nodes x) r;
          running = recovered\<lparr>rn_store := update_dag_execution_status (dx_id x) ''running'' None s,
                              rn_events := [(''dag.started'', '''')]\<rparr>
      in and_then (schedule_ready now (dx_id x) running) (\<lambda>r'.
           Inr (r'\<lparr>rn_complete := (rn_tasks r' = [] \<and> is_complete (rn_dag r'))\<rparr>)))"

definition begin_run ::
  "(string \<Rightarrow> string) \<Rightarrow> (string \<Rightarrow> string) \<Rightarrow> (run_state \<Rightarrow> bool) \<Rightarrow> (json option \<Rightarrow> plan_task list option) \<Rightarrow>
   instant \<Rightarrow> dag_execution \<Rightarrow> dag_store \<Rightarrow> db \<Rightarrow> dag_run result \<times> db" where
  "begin_run sha redact secret plan_model now x s d =
     (case validate_dag_structure (dx_nodes x) of
        Inl (ValueError m) \<Rightarrow> (Inl (ValueError (''DAG validation failed: '' @ m)), d)
      | Inl e \<Rightarrow> (Inl e, d)
      | Inr _ \<Rightarrow>
          (case activate_plan_revision sha redact secret plan_model now x d of
             (Inl e, d') \<Rightarrow> (Inl e, d')
           | (Inr _, d') \<Rightarrow> (start_scheduling now x s, d')))"

subsection \<open>The end of a node\<close>

text \<open>
  \<open>_run_node\<close> and \<open>WorkerPool._run\<close>: the error the pool hands to the callback. A failed result raises
  \<open>RuntimeError(result.error or "Node execution failed")\<close>, a cancelled one \<open>CancelledError\<close>.
\<close>

fun pool_error :: "node_outcome \<Rightarrow> string option" where
  "pool_error (Returned a) =
     (if ar_status a = TFailed then Some (if truthy (ar_error a) then the (ar_error a) else ''Node execution failed'')
      else if ar_status a = TCancelled then Some ''Cancelled''
      else None)"
| "pool_error (Raised m) = Some m"
| "pool_error Task_cancelled = Some ''Cancelled''"

fun record_result :: "string \<Rightarrow> node_outcome \<Rightarrow> dag_run \<Rightarrow> dag_run" where
  "record_result i (Returned a) r =
     (let r' = (if truthy (ar_result a) then r\<lparr>rn_results := AList.update i (the (ar_result a)) (rn_results r)\<rparr> else r)
      in r'\<lparr>rn_usage := AList.update i (ar_usage a) (rn_usage r')\<rparr>)"
| "record_result i _ r = r"

definition fail_node :: "instant \<Rightarrow> string \<Rightarrow> string \<Rightarrow> string \<Rightarrow> dag_run \<Rightarrow> dag_run result" where
  "fail_node now x i err r =
     (let by_runtime = (err = ''Cancelled'')
      in and_then (if by_runtime then on_node i (\<lambda>n. n\<lparr>nd_status := NCancelled, nd_error := Some err\<rparr>) (rn_dag r)
                   else mark_node_failed i (Some err) (rn_dag r)) (\<lambda>g.
         and_then (propagate_failure i g) (\<lambda>(cancelled, g').
           Inr (r\<lparr>rn_dag := g',
                  rn_store := update_dag_node_status now x i (if by_runtime then NCancelled else NFailed) (Some err)
                                (fold (\<lambda>c. update_dag_node_status now x c NCancelled None) cancelled (rn_store r)),
                  rn_events := rn_events r @ [(if by_runtime then ''dag.node.cancelled'' else ''dag.node.failed'', i)]\<rparr>))))"

definition complete_node :: "instant \<Rightarrow> string \<Rightarrow> string \<Rightarrow> dag_run \<Rightarrow> dag_run result" where
  "complete_node now x i r =
     and_then (mark_completed i (rn_dag r)) (\<lambda>g.
       Inr (r\<lparr>rn_dag := g, rn_store := update_dag_node_status now x i NCompleted None (rn_store r),
              rn_events := rn_events r @ [(''dag.node.completed'', i)]\<rparr>))"

text \<open>The task of the node has ended: \<open>on_node_complete\<close> up to the await of the event bus.\<close>

definition node_finished :: "instant \<Rightarrow> string \<Rightarrow> string \<Rightarrow> node_outcome \<Rightarrow> dag_run \<Rightarrow> dag_run result" where
  "node_finished now x i outcome r =
     (let r1 = (record_result i outcome r)\<lparr>rn_tasks := filter (\<lambda>w. wi_node w \<noteq> i) (rn_tasks r)\<rparr>;
          err = pool_error outcome
      in and_then (if truthy err then fail_node now x i (the err) r1 else complete_node now x i r1)
           (\<lambda>r2. Inr (r2\<lparr>rn_tails := rn_tails r2 @ [i]\<rparr>)))"

text \<open>The rest of \<open>on_node_complete\<close>.\<close>

definition after_node :: "instant \<Rightarrow> string \<Rightarrow> string \<Rightarrow> dag_run \<Rightarrow> dag_run result" where
  "after_node now x i r =
     (let r1 = r\<lparr>rn_tails := remove1 i (rn_tails r)\<rparr>
      in if is_complete (rn_dag r1) then Inr (r1\<lparr>rn_complete := True\<rparr>)
         else if \<not> rn_stopping r1 then schedule_ready now x r1
         else Inr r1)"

text \<open>
  A task that is cancelled while it waits for a slot of the pool ends without its callback: \<open>_run\<close> enters
  its \<open>try\<close> only after the semaphore was acquired.
\<close>

definition task_dropped :: "string \<Rightarrow> dag_run \<Rightarrow> dag_run" where
  "task_dropped i r = r\<lparr>rn_tasks := filter (\<lambda>w. wi_node w \<noteq> i) (rn_tasks r)\<rparr>"

subsection \<open>The end of a run\<close>

definition final_status :: "dag \<Rightarrow> string" where
  "final_status g =
     (if has_failures g then ''failed''
      else if \<exists>e \<in> set (dg_nodes g). nd_status (snd e) = NCancelled then ''cancelled''
      else ''completed'')"

definition add_usage :: "usage_summary \<Rightarrow> usage_summary \<Rightarrow> usage_summary" where
  "add_usage t u =
     zero_usage\<lparr>us_prompt_tokens := us_prompt_tokens t + us_prompt_tokens u,
       us_completion_tokens := us_completion_tokens t + us_completion_tokens u,
       us_total_tokens := us_total_tokens t + us_total_tokens u\<rparr>"

definition newline :: string where
  "newline = [CHR 0x0A]"

definition join_parts :: "string list \<Rightarrow> string" where
  "join_parts xs =
     concat (case xs of [] \<Rightarrow> [] | y # ys \<Rightarrow> y # map (\<lambda>z. newline @ newline @ ''---'' @ newline @ newline @ z) ys)"

definition combined_result :: "dag_node list \<Rightarrow> (string \<times> string) list \<Rightarrow> string option" where
  "combined_result nodes results =
     (let parts = map (\<lambda>n. ''## '' @ nd_id n @ '': '' @ nd_description n @ newline @ newline @ the (map_of results (nd_id n)))
                    (filter (\<lambda>n. truthy (map_of results (nd_id n))) nodes)
      in if parts = [] then None else Some (join_parts parts))"

definition final_output :: "dag_node list \<Rightarrow> (string \<times> string) list \<Rightarrow> string option" where
  "final_output nodes results =
     (let depended_on = concat (map nd_depends nodes);
          leaves = map (\<lambda>n. the (map_of results (nd_id n)))
                     (filter (\<lambda>n. nd_id n \<notin> set depended_on \<and> truthy (map_of results (nd_id n))) nodes)
      in if leaves = [] then None else Some (join_parts leaves))"

definition root_status :: "string \<Rightarrow> task_status" where
  "root_status status = (if status = ''completed'' then TCompleted else if status = ''cancelled'' then TCancelled else TFailed)"

text \<open>\<open>update_memorial\<close>, on the columns the model has.\<close>

definition update_memorial :: "memorial_row \<Rightarrow> dag_store \<Rightarrow> dag_store" where
  "update_memorial m s =
     s\<lparr>ds_memorials := update_rows (\<lambda>r. mem_id r = mem_id m)
         (\<lambda>r. r\<lparr>mem_status := mem_status m, mem_summary := mem_summary m, mem_result := mem_result m,
                mem_usage := mem_usage m, mem_error := mem_error m, mem_completed := mem_completed m,
                mem_attempt := mem_attempt m, mem_dag_node := mem_dag_node m, mem_reasoning := mem_reasoning m,
                mem_final_output := mem_final_output m,
                mem_failure_reason := resolve_failure_reason (mem_status m) (mem_error m) (mem_failure_reason m)\<rparr>)
         (ds_memorials s)\<rparr>"

text \<open>After the last callback: the status of the execution, the root memorial and the tables.\<close>

definition finish_run ::
  "instant \<Rightarrow> dag_execution \<Rightarrow> bool \<Rightarrow> dag_run \<Rightarrow> string \<times> memorial_row option \<times> dag_store" where
  "finish_run now x persist_root r =
     (let status = final_status (rn_dag r);
          s = update_dag_execution_status (dx_id x) status (Some now) (rn_store r);
          nodes = map snd (dg_nodes (rn_dag r))
      in case dx_root x of
           None \<Rightarrow> (status, None, s)
         | Some m \<Rightarrow>
             (case row_by mem_id m (ds_memorials s) of
                None \<Rightarrow> (status, None, s)
              | Some old \<Rightarrow>
                  (let root' = old\<lparr>mem_usage := Some (fold (\<lambda>(_, u) t. add_usage t u) (rn_usage r) zero_usage),
                         mem_result := combined_result nodes (rn_results r),
                         mem_final_output := final_output nodes (rn_results r),
                         mem_status := root_status status, mem_completed := Some now\<rparr>
                   in (status, Some root', if persist_root then update_memorial root' s else s))))"

text \<open>The run was cancelled from outside and every task has ended.\<close>

definition abort_run :: "instant \<Rightarrow> dag_execution \<Rightarrow> dag_run \<Rightarrow> dag_store" where
  "abort_run now x r = update_dag_execution_status (dx_id x) ''cancelled'' (Some now) (rn_store r)"

section \<open>Steps\<close>

text \<open>
  What may happen next in a run: a task ends, a callback goes on after the event bus, the run is
  cancelled from outside, or a task that waits for its slot is cancelled.
\<close>

inductive run_step :: "string \<Rightarrow> dag_run \<Rightarrow> dag_run \<Rightarrow> bool" for x where
  finished: "i \<in> wi_node ` set (rn_tasks r) \<Longrightarrow> node_finished now x i outcome r = Inr r' \<Longrightarrow> run_step x r r'"
| continued: "i \<in> set (rn_tails r) \<Longrightarrow> after_node now x i r = Inr r' \<Longrightarrow> run_step x r r'"

inductive cancel_step :: "string \<Rightarrow> dag_run \<Rightarrow> dag_run \<Rightarrow> bool" for x where
  stopped: "cancel_step x r (r\<lparr>rn_stopping := True\<rparr>)"
| dropped: "i \<in> wi_node ` set (rn_tasks r) \<Longrightarrow> cancel_step x r (task_dropped i r)"
| ran: "run_step x r r' \<Longrightarrow> cancel_step x r r'"

section \<open>Cancelling an execution\<close>

text \<open>
  One node of \<open>CascadeCanceller.cancel\<close>: its status is read when the loop reaches it. \<open>WorkerPool.cancel\<close>
  only asks the task of the node to end.
\<close>

definition cancel_node :: "instant \<Rightarrow> string \<Rightarrow> string \<Rightarrow> string list \<times> dag \<times> dag_store \<Rightarrow> (string list \<times> dag \<times> dag_store) result" where
  "cancel_node now x i = (\<lambda>(cancelled, g, s).
     case map_of (dg_nodes g) i of
       None \<Rightarrow> Inl (KeyError i)
     | Some n \<Rightarrow>
         if nd_status n = NRunning
         then and_then (mark_node_failed i (Some ''Cancelled by user'') g) (\<lambda>g1.
              and_then (propagate_failure i g1) (\<lambda>(downstream, g2).
                Inr (cancelled @ [i] @ downstream, g2,
                     fold (\<lambda>c. update_dag_node_status now x c NCancelled None) downstream
                       (update_dag_node_status now x i NCancelled (Some ''Cancelled by user'') s))))
         else if cancellable (nd_status n)
         then and_then (on_node i (\<lambda>n. n\<lparr>nd_status := NCancelled\<rparr>) g) (\<lambda>g1.
                Inr (cancelled @ [i], g1, update_dag_node_status now x i NCancelled None s))
         else Inr (cancelled, g, s))"

fun cancel_loop :: "instant \<Rightarrow> string \<Rightarrow> string list \<Rightarrow> string list \<times> dag \<times> dag_store \<Rightarrow> (string list \<times> dag \<times> dag_store) result" where
  "cancel_loop now x [] st = Inr st"
| "cancel_loop now x (i # is) st = and_then (cancel_node now x i st) (cancel_loop now x is)"

definition cascade_cancel :: "instant \<Rightarrow> dag_execution \<Rightarrow> dag_store \<Rightarrow> (string list \<times> dag \<times> dag_store) result" where
  "cascade_cancel now x s =
     and_then (cancel_loop now (dx_id x) (map nd_id (dx_nodes x)) ([], from_execution (dx_nodes x), s))
       (\<lambda>(cancelled, g, s'). Inr (remdups cancelled, g, update_dag_execution_status (dx_id x) ''cancelled'' (Some now) s'))"

end
