(* ===== verification/Dag_Safety.thy ===== *)
theory Dag_Safety
  imports Dag_Correct Dag_Scheduler
begin

text \<open>
  What the scheduler promises about a task graph: nodes run only after their dependencies, a run of a
  sound graph neither stalls nor goes on for ever, the tables follow the graph, and where a run that starts
  from a partial retry stalls.
\<close>

section \<open>Sound node lists\<close>

definition failed_in :: "dag_node list \<Rightarrow> string \<Rightarrow> bool" where
  "failed_in ns d = (\<exists>m \<in> set ns. nd_id m = d \<and> nd_status m \<in> {NFailed, NCancelled})"

text \<open>
  A validated graph in which no node is marked ready, nodes that were started have completed
  dependencies, and pending ones have no failed or cancelled dependency.
\<close>

definition started :: "dag_node \<Rightarrow> bool" where
  "started n = (nd_status n \<in> {NRunning, NCompleted, NFailed})"

definition sound_nodes :: "dag_node list \<Rightarrow> bool" where
  "sound_nodes ns =
     (validate_dag_structure ns = Inr () \<and>
      (\<forall>n \<in> set ns. nd_status n \<noteq> NReady \<and>
         (started n \<longrightarrow> (\<forall>d \<in> set (nd_depends n). completed_in ns d)) \<and>
         (nd_status n = NPending \<longrightarrow> (\<forall>d \<in> set (nd_depends n). \<not> failed_in ns d))))"

lemma sound_distinct: "sound_nodes ns \<Longrightarrow> distinct (map nd_id ns)"
  and sound_closed: "sound_nodes ns \<Longrightarrow> closed_nodes ns"
  and sound_acyclic: "sound_nodes ns \<Longrightarrow> acyclic (dependency ns)"
  using validate_iff [of ns] by (auto simp: sound_nodes_def closed_nodes_def)

text \<open>Validity looks only at ids and dependencies.\<close>

definition shape :: "dag_node list \<Rightarrow> (string \<times> string list) list" where
  "shape ns = map (\<lambda>n. (nd_id n, nd_depends n)) ns"

lemma shape_determines:
  assumes "shape ns = shape ns'"
  shows "map nd_id ns = map nd_id ns'" "map nd_depends ns = map nd_depends ns'" "dependency ns = dependency ns'"
    "validate_dag_structure ns = Inr () \<longleftrightarrow> validate_dag_structure ns' = Inr ()"
proof -
  show i: "map nd_id ns = map nd_id ns'" using arg_cong [OF assms, of "map fst"] by (simp add: shape_def comp_def)
  show d: "map nd_depends ns = map nd_depends ns'" using arg_cong [OF assms, of "map snd"] by (simp add: shape_def comp_def)
  have "dependency ns = {(d, n) | d n ds. (n, ds) \<in> set (shape ns) \<and> d \<in> set ds}" for ns
    by (force simp: dependency_def shape_def)
  then show r: "dependency ns = dependency ns'" using assms by simp
  have "nd_id ` set ns = nd_id ` set ns'" "(\<Union>n \<in> set ns. set (nd_depends n)) = (\<Union>n \<in> set ns'. set (nd_depends n))"
    using arg_cong [OF i, of set] arg_cong [OF d, of "\<lambda>l. \<Union> (set ` set l)"] by simp_all
  then show "validate_dag_structure ns = Inr () \<longleftrightarrow> validate_dag_structure ns' = Inr ()"
    unfolding validate_iff using i r by simp
qed

lemma shape_update:
  assumes "\<And>n. nd_id (f n) = nd_id n" "\<And>n. nd_depends (f n) = nd_depends n"
  shows "shape (update_rows p f ns) = shape ns"
  using update_rows_structure(2) [OF assms] by (simp add: shape_def)

section \<open>The three moves\<close>

text \<open>Nodes that are ready are started.\<close>

definition start_node :: "instant \<Rightarrow> dag_node \<Rightarrow> dag_node" where
  "start_node now n = n\<lparr>nd_status := NRunning, nd_started := Some now\<rparr>"

definition start_nodes :: "instant \<Rightarrow> string set \<Rightarrow> dag_node list \<Rightarrow> dag_node list" where
  "start_nodes now I ns = update_rows (\<lambda>n. nd_id n \<in> I) (start_node now) ns"

definition finish_node :: "string \<Rightarrow> dag_node list \<Rightarrow> dag_node list" where
  "finish_node i ns = update_rows (\<lambda>n. nd_id n = i) (\<lambda>n. n\<lparr>nd_status := NCompleted\<rparr>) ns"

definition break_node :: "string \<Rightarrow> string \<Rightarrow> string list \<Rightarrow> dag_node list \<Rightarrow> dag_node list" where
  "break_node i err cs ns =
     update_rows (\<lambda>n. nd_id n \<in> set cs) (\<lambda>n. n\<lparr>nd_status := NCancelled\<rparr>)
       (update_rows (\<lambda>n. nd_id n = i)
          (\<lambda>n. n\<lparr>nd_status := (if err = ''Cancelled'' then NCancelled else NFailed), nd_error := Some err\<rparr>) ns)"

lemma move_shape [simp]:
  "shape (start_nodes now I ns) = shape ns"
  "shape (finish_node i ns) = shape ns"
  "shape (break_node i err cs ns) = shape ns"
  by (simp_all add: start_nodes_def finish_node_def break_node_def shape_update start_node_def)

lemma completed_in_update:
  assumes "distinct (map nd_id ns)" "n \<in> set ns"
  shows "completed_in ns (nd_id n) \<longleftrightarrow> nd_status n = NCompleted"
    and "failed_in ns (nd_id n) \<longleftrightarrow> nd_status n \<in> {NFailed, NCancelled}"
  using assms by (auto simp: completed_in_def failed_in_def distinct_map dest: inj_onD)

text \<open>The status of a node in a list with distinct ids.\<close>

definition status_of :: "dag_node list \<Rightarrow> string \<Rightarrow> dag_node_status option" where
  "status_of ns i = map_option nd_status (row_by nd_id i ns)"

lemma status_of_eq: "distinct (map nd_id ns) \<Longrightarrow> n \<in> set ns \<Longrightarrow> status_of ns (nd_id n) = Some (nd_status n)"
  by (simp add: status_of_def row_by_unique)

lemma status_of_iff: "distinct (map nd_id ns) \<Longrightarrow> status_of ns i = Some s \<longleftrightarrow> (\<exists>n \<in> set ns. nd_id n = i \<and> nd_status n = s)"
  by (auto simp: status_of_def dest: row_by_SomeD simp: row_by_unique)

lemma completed_in_status: "distinct (map nd_id ns) \<Longrightarrow> completed_in ns d \<longleftrightarrow> status_of ns d = Some NCompleted"
  by (auto simp: completed_in_def status_of_iff)

lemma failed_in_status:
  "distinct (map nd_id ns) \<Longrightarrow> failed_in ns d \<longleftrightarrow> status_of ns d \<in> {Some NFailed, Some NCancelled}"
  by (auto simp: failed_in_def status_of_iff)

text \<open>Soundness in terms of ids: statuses and dependencies.\<close>

definition node_sound :: "(string \<Rightarrow> dag_node_status option) \<Rightarrow> string \<Rightarrow> string list \<Rightarrow> bool" where
  "node_sound st i deps =
     (st i \<noteq> Some NReady \<and>
      (st i \<in> {Some NRunning, Some NCompleted, Some NFailed} \<longrightarrow> (\<forall>d \<in> set deps. st d = Some NCompleted)) \<and>
      (st i = Some NPending \<longrightarrow> (\<forall>d \<in> set deps. st d \<notin> {Some NFailed, Some NCancelled})))"

definition sound_statuses :: "(string \<times> string list) list \<Rightarrow> (string \<Rightarrow> dag_node_status option) \<Rightarrow> bool" where
  "sound_statuses str st = (\<forall>i deps. (i, deps) \<in> set str \<longrightarrow> node_sound st i deps)"

lemma node_soundD:
  assumes "node_sound st i deps"
  shows "st i \<noteq> Some NReady"
    "st i \<in> {Some NRunning, Some NCompleted, Some NFailed} \<Longrightarrow> d \<in> set deps \<Longrightarrow> st d = Some NCompleted"
    "st i = Some NPending \<Longrightarrow> d \<in> set deps \<Longrightarrow> st d \<notin> {Some NFailed, Some NCancelled}"
  using assms unfolding node_sound_def by blast+

lemma node_soundI:
  assumes "st i \<noteq> Some NReady"
    "\<And>d. st i \<in> {Some NRunning, Some NCompleted, Some NFailed} \<Longrightarrow> d \<in> set deps \<Longrightarrow> st d = Some NCompleted"
    "\<And>d. st i = Some NPending \<Longrightarrow> d \<in> set deps \<Longrightarrow> st d \<notin> {Some NFailed, Some NCancelled}"
  shows "node_sound st i deps"
  using assms unfolding node_sound_def by blast

lemma sound_nodes_iff:
  "sound_nodes ns \<longleftrightarrow> validate_dag_structure ns = Inr () \<and> sound_statuses (shape ns) (status_of ns)"
proof (cases "validate_dag_structure ns = Inr ()")
  case True
  then have d: "distinct (map nd_id ns)" using validate_iff [of ns] by blast
  have "node_sound (status_of ns) (nd_id n) (nd_depends n) \<longleftrightarrow>
     nd_status n \<noteq> NReady \<and>
         (started n \<longrightarrow> (\<forall>d \<in> set (nd_depends n). completed_in ns d)) \<and>
         (nd_status n = NPending \<longrightarrow> (\<forall>d \<in> set (nd_depends n). \<not> failed_in ns d))" if "n \<in> set ns" for n
    unfolding node_sound_def status_of_eq [OF d that] completed_in_status [OF d] failed_in_status [OF d] started_def by simp
  then have "sound_statuses (shape ns) (status_of ns) \<longleftrightarrow>
    (\<forall>n \<in> set ns. nd_status n \<noteq> NReady \<and>
         (started n \<longrightarrow> (\<forall>d \<in> set (nd_depends n). completed_in ns d)) \<and>
         (nd_status n = NPending \<longrightarrow> (\<forall>d \<in> set (nd_depends n). \<not> failed_in ns d)))"
    unfolding sound_statuses_def shape_def by auto
  with True show ?thesis by (simp add: sound_nodes_def)
qed (simp add: sound_nodes_def)

text \<open>The moves on statuses: ready nodes start, a running node completes, a running node fails.\<close>

lemma start_statuses:
  assumes "sound_statuses str st"
    and "\<And>i. i \<in> I \<Longrightarrow> st i = Some NPending" "\<And>i deps d. i \<in> I \<Longrightarrow> (i, deps) \<in> set str \<Longrightarrow> d \<in> set deps \<Longrightarrow> st d = Some NCompleted"
  shows "sound_statuses str (\<lambda>i. if i \<in> I then Some NRunning else st i)" (is "sound_statuses str ?st")
  unfolding sound_statuses_def
proof (intro allI impI)
  fix i deps assume i: "(i, deps) \<in> set str"
  then have n: "node_sound st i deps" using assms(1) unfolding sound_statuses_def by blast
  have c: "?st d = Some NCompleted" if "st d = Some NCompleted" for d
  proof -
    have "d \<notin> I" using assms(2) [of d] that by force
    with that show ?thesis by simp
  qed
  show "node_sound ?st i deps"
  proof (rule node_soundI)
    show "?st i \<noteq> Some NReady" using node_soundD(1) [OF n] by simp
    show "?st d = Some NCompleted" if "?st i \<in> {Some NRunning, Some NCompleted, Some NFailed}" "d \<in> set deps" for d
      using that assms(3) [OF _ i that(2)] node_soundD(2) [OF n _ that(2)] c by (cases "i \<in> I") simp_all
    show "?st d \<notin> {Some NFailed, Some NCancelled}" if "?st i = Some NPending" "d \<in> set deps" for d
      using that node_soundD(3) [OF n _ that(2)] by (cases "i \<in> I") simp_all
  qed
qed

lemma finish_statuses:
  assumes "sound_statuses str st" "st i = Some NRunning"
  shows "sound_statuses str (\<lambda>j. if j = i then Some NCompleted else st j)" (is "sound_statuses str ?st")
  unfolding sound_statuses_def
proof (intro allI impI)
  fix j deps assume "(j, deps) \<in> set str"
  then have n: "node_sound st j deps" using assms(1) unfolding sound_statuses_def by blast
  show "node_sound ?st j deps"
  proof (rule node_soundI)
    show "?st j \<noteq> Some NReady" using node_soundD(1) [OF n] by simp
    show "?st d = Some NCompleted" if "?st j \<in> {Some NRunning, Some NCompleted, Some NFailed}" "d \<in> set deps" for d
      using that node_soundD(2) [OF n _ that(2)] assms(2) by (cases "j = i") simp_all
    show "?st d \<notin> {Some NFailed, Some NCancelled}" if "?st j = Some NPending" "d \<in> set deps" for d
      using that node_soundD(3) [OF n _ that(2)] by (cases "j = i") simp_all
  qed
qed

lemma break_statuses:
  assumes "sound_statuses str st" "st i = Some NRunning" "s \<in> {NFailed, NCancelled}"
    and "\<And>c. c \<in> C \<Longrightarrow> st c = Some NPending"
    and "\<And>c deps d. (c, deps) \<in> set str \<Longrightarrow> st c = Some NPending \<Longrightarrow> d \<in> set deps \<Longrightarrow> d = i \<or> d \<in> C \<Longrightarrow> c \<in> C"
  shows "sound_statuses str (\<lambda>j. if j \<in> C then Some NCancelled else if j = i then Some s else st j)" (is "sound_statuses str ?st")
  unfolding sound_statuses_def
proof (intro allI impI)
  fix j deps assume j: "(j, deps) \<in> set str"
  then have n: "node_sound st j deps" using assms(1) unfolding sound_statuses_def by blast
  have c: "?st d = Some NCompleted" if "st d = Some NCompleted" for d
  proof -
    have "d \<notin> C" "d \<noteq> i" using assms(2) assms(4) [of d] that by force+
    with that show ?thesis by simp
  qed
  show "node_sound ?st j deps"
  proof (rule node_soundI)
    show "?st j \<noteq> Some NReady" using node_soundD(1) [OF n] assms(3) by auto
    show "?st d = Some NCompleted" if "?st j \<in> {Some NRunning, Some NCompleted, Some NFailed}" "d \<in> set deps" for d
    proof -
      have "st j \<in> {Some NRunning, Some NCompleted, Some NFailed}"
        using that(1) assms(2) by (cases "j \<in> C"; cases "j = i") simp_all
      then show ?thesis by (rule c [OF node_soundD(2) [OF n _ that(2)]])
    qed
    show "?st d \<notin> {Some NFailed, Some NCancelled}" if "?st j = Some NPending" "d \<in> set deps" for d
    proof -
      have p: "st j = Some NPending" "j \<notin> C" using that(1) assms(3) by (cases "j \<in> C"; cases "j = i"; auto)+
      then have "d \<noteq> i" "d \<notin> C" using assms(5) [OF j p(1) that(2)] by blast+
      with node_soundD(3) [OF n p(1) that(2)] show ?thesis by simp
    qed
  qed
qed

lemma status_update_rows:
  assumes "\<And>n. nd_id (f n) = nd_id n" "\<And>n. nd_status (f n) = s"
  shows "status_of (update_rows (\<lambda>n. P (nd_id n)) f ns) i = (if P i then map_option (\<lambda>_. s) (status_of ns i) else status_of ns i)"
  using assms by (induction ns) (auto simp: status_of_def update_rows_def)

lemma open_dependency_status:
  assumes "distinct (map nd_id ns)"
  shows "(d, c) \<in> open_dependency ns \<longleftrightarrow>
         (\<exists>deps. (c, deps) \<in> set (shape ns) \<and> d \<in> set deps \<and> status_of ns c \<in> {Some NPending, Some NReady})" (is "?l \<longleftrightarrow> ?r")
proof
  assume ?l
  then obtain n where n: "n \<in> set ns" "c = nd_id n" "d \<in> set (nd_depends n)" "cancellable (nd_status n)"
    by (auto simp: open_dependency_def)
  then show ?r using status_of_eq [OF assms n(1)] by (intro exI [of _ "nd_depends n"]) (auto simp: shape_def cancellable_def)
next
  assume ?r
  then obtain n where n: "n \<in> set ns" "c = nd_id n" "d \<in> set (nd_depends n)" "status_of ns c \<in> {Some NPending, Some NReady}"
    by (auto simp: shape_def)
  with status_of_eq [OF assms n(1)] show ?l by (auto simp: open_dependency_def cancellable_def)
qed

subsection \<open>They keep the graph sound\<close>

lemma sound_move:
  assumes "sound_nodes ns" "shape ns' = shape ns" "sound_statuses (shape ns) st" "\<And>i. status_of ns' i = st i"
  shows "sound_nodes ns'"
proof -
  have "status_of ns' = st" using assms(4) by blast
  with assms(1-3) shape_determines(4) [OF assms(2)] show ?thesis by (simp add: sound_nodes_iff)
qed

lemma sound_statusesI: "sound_nodes ns \<Longrightarrow> sound_statuses (shape ns) (status_of ns)"
  by (simp add: sound_nodes_iff)

lemma status_start:
  assumes "\<And>i. i \<in> I \<Longrightarrow> status_of ns i \<noteq> None"
  shows "status_of (start_nodes now I ns) i = (if i \<in> I then Some NRunning else status_of ns i)"
proof -
  have "status_of (start_nodes now I ns) i = (if i \<in> I then map_option (\<lambda>_. NRunning) (status_of ns i) else status_of ns i)"
    unfolding start_nodes_def by (rule status_update_rows) (simp_all add: start_node_def)
  with assms [of i] show ?thesis by auto
qed

lemma sound_start:
  assumes s: "sound_nodes ns" and I: "\<And>i. i \<in> I \<Longrightarrow> \<exists>n \<in> set ns. nd_id n = i \<and> is_ready ns n"
  shows "sound_nodes (start_nodes now I ns)"
proof (rule sound_move [OF s move_shape(1) start_statuses [OF sound_statusesI [OF s]] status_start])
  note d = sound_distinct [OF s]
  show p: "status_of ns i = Some NPending" if i: "i \<in> I" for i
    using I [OF i] by (auto simp: is_ready_def status_of_eq [OF d])
  show "status_of ns x = Some NCompleted" if i: "i \<in> I" "(i, deps) \<in> set (shape ns)" "x \<in> set deps" for i deps x
  proof -
    obtain n where n: "n \<in> set ns" "nd_id n = i" "is_ready ns n" using I [OF i(1)] by blast
    obtain m where m: "m \<in> set ns" "nd_id m = i" "nd_depends m = deps" using i(2) by (auto simp: shape_def)
    have "m = n" using n m d by (metis distinct_map inj_on_eq_iff)
    with n m i(3) show ?thesis by (auto simp: is_ready_def completed_in_status [OF d])
  qed
  show "status_of ns i \<noteq> None" if "i \<in> I" for i using p [OF that] by simp
qed

lemma status_finish:
  assumes "status_of ns i \<noteq> None"
  shows "status_of (finish_node i ns) j = (if j = i then Some NCompleted else status_of ns j)"
proof -
  have "status_of (finish_node i ns) j = (if j = i then map_option (\<lambda>_. NCompleted) (status_of ns j) else status_of ns j)"
    unfolding finish_node_def by (rule status_update_rows) simp_all
  with assms show ?thesis by auto
qed

lemma sound_finish:
  assumes "sound_nodes ns" "status_of ns i = Some NRunning"
  shows "sound_nodes (finish_node i ns)"
  by (rule sound_move [OF assms(1) move_shape(2) finish_statuses [OF sound_statusesI [OF assms(1)] assms(2)] status_finish])
     (simp add: assms(2))

lemma status_break:
  assumes "status_of ns i \<noteq> None" "i \<notin> set cs" "\<And>c. c \<in> set cs \<Longrightarrow> status_of ns c \<noteq> None"
  shows "status_of (break_node i err cs ns) j =
    (if j \<in> set cs then Some NCancelled
     else if j = i then Some (if err = ''Cancelled'' then NCancelled else NFailed) else status_of ns j)"
proof -
  let ?ns = "update_rows (\<lambda>n. nd_id n = i) (\<lambda>n. n\<lparr>nd_status := (if err = ''Cancelled'' then NCancelled else NFailed), nd_error := Some err\<rparr>) ns"
  have "status_of ?ns j = (if j = i then map_option (\<lambda>_. if err = ''Cancelled'' then NCancelled else NFailed) (status_of ns j) else status_of ns j)"
    by (rule status_update_rows [where P = "\<lambda>j. j = i"]) simp_all
  moreover have "status_of (break_node i err cs ns) j =
      (if j \<in> set cs then map_option (\<lambda>_. NCancelled) (status_of ?ns j) else status_of ?ns j)"
    unfolding break_node_def by (rule status_update_rows [where P = "\<lambda>j. j \<in> set cs"]) simp_all
  ultimately show ?thesis using assms(1,2) assms(3) [of j] by auto
qed

text \<open>The nodes a failure of \<open>i\<close> cancels.\<close>

definition downstream :: "dag_node list \<Rightarrow> string \<Rightarrow> string set" where
  "downstream ns i = {c. (i, c) \<in> (open_dependency ns)\<^sup>+}"

lemma downstream_pending:
  assumes "sound_nodes ns" "c \<in> downstream ns i"
  shows "status_of ns c = Some NPending"
proof -
  from assms(2) have "(i, c) \<in> (open_dependency ns)\<^sup>+" by (simp add: downstream_def)
  then obtain p where "(p, c) \<in> open_dependency ns" by (auto elim: tranclE)
  then obtain deps where "(c, deps) \<in> set (shape ns)" "status_of ns c \<in> {Some NPending, Some NReady}"
    using open_dependency_status [OF sound_distinct [OF assms(1)]] by blast
  moreover from this(1) have "node_sound (status_of ns) c deps"
    using sound_statusesI [OF assms(1)] by (simp add: sound_statuses_def)
  ultimately show ?thesis using node_soundD(1) by blast
qed

lemma downstream_step:
  assumes "sound_nodes ns" "(c, deps) \<in> set (shape ns)" "status_of ns c = Some NPending"
    "p \<in> set deps" "p = i \<or> p \<in> downstream ns i"
  shows "c \<in> downstream ns i"
proof -
  have "(p, c) \<in> open_dependency ns"
    using assms(2-4) open_dependency_status [OF sound_distinct [OF assms(1)]] by blast
  with assms(5) show ?thesis by (auto simp: downstream_def)
qed

lemma sound_break:
  assumes "sound_nodes ns" "status_of ns i = Some NRunning" "set cs = downstream ns i"
  shows "sound_nodes (break_node i err cs ns)"
proof (rule sound_move [OF assms(1) move_shape(3) break_statuses [OF sound_statusesI [OF assms(1)] assms(2)] status_break])
  show p: "status_of ns c = Some NPending" if "c \<in> set cs" for c
    using downstream_pending [OF assms(1)] that assms(3) by blast
  show "i \<notin> set cs" using p [of i] assms(2) by auto
  show "status_of ns c \<noteq> None" if "c \<in> set cs" for c using p [OF that] by simp
  show "c \<in> set cs" if "(c, deps) \<in> set (shape ns)" "status_of ns c = Some NPending" "x \<in> set deps" "x = i \<or> x \<in> set cs" for c deps x
    using downstream_step [OF assms(1) that(1-3)] that(4) assms(3) by blast
qed (simp_all add: assms(2))

section \<open>The tables\<close>

definition stored_status :: "dag_store \<Rightarrow> string \<Rightarrow> string \<Rightarrow> dag_node_status option" where
  "stored_status s x i = map_option nd_status (row_by node_key (x, i) (ds_nodes s))"

text \<open>The rows of execution \<open>x\<close> have the statuses of the graph.\<close>

definition mirrors :: "dag_store \<Rightarrow> string \<Rightarrow> dag_node list \<Rightarrow> bool" where
  "mirrors s x ns = (\<forall>i. status_of ns i \<noteq> None \<longrightarrow> stored_status s x i = status_of ns i)"

lemma mirrors_iff:
  assumes "distinct (map nd_id ns)"
  shows "mirrors s x ns \<longleftrightarrow> (\<forall>n \<in> set ns. stored_status s x (nd_id n) = Some (nd_status n))"
proof
  assume "mirrors s x ns"
  then show "\<forall>n \<in> set ns. stored_status s x (nd_id n) = Some (nd_status n)"
    by (simp add: mirrors_def status_of_eq [OF assms])
next
  assume a: "\<forall>n \<in> set ns. stored_status s x (nd_id n) = Some (nd_status n)"
  show "mirrors s x ns" unfolding mirrors_def
  proof (intro allI impI)
    fix i assume "status_of ns i \<noteq> None"
    then obtain n where "n \<in> set ns" "i = nd_id n" using status_of_iff [OF assms, of i] by auto
    with a show "stored_status s x i = status_of ns i" by (simp add: status_of_eq [OF assms])
  qed
qed

lemma stored_status_update:
  "stored_status (update_dag_node_status now x i st err s) x j =
   (if j = i then map_option (\<lambda>_. st) (stored_status s x j) else stored_status s x j)"
proof -
  have "node_key (set_node_status now st err n) = node_key n" "nd_status (set_node_status now st err n) = st" for n
    by (simp_all add: set_node_status_def node_key_def)
  then show ?thesis
    by (cases "row_by node_key (x, j) (ds_nodes s)")
       (auto simp: stored_status_def update_dag_node_status_def update_node_rows_def row_by_update_rows
         node_key_def dest: row_by_SomeD)
qed

lemma stored_status_fold:
  "stored_status (fold (\<lambda>i. update_dag_node_status now x i st err) is s) x j =
   (if j \<in> set is then map_option (\<lambda>_. st) (stored_status s x j) else stored_status s x j)"
  by (induction "is" arbitrary: s) (auto simp: stored_status_update option.map_comp comp_def)

section \<open>The steps on the list of nodes\<close>

lemma update_rows_twice:
  assumes "\<And>n. nd_id (f n) = nd_id n"
  shows "update_rows (\<lambda>n. P (nd_id n)) g (update_rows (\<lambda>n. P (nd_id n)) f ns) = update_rows (\<lambda>n. P (nd_id n)) (\<lambda>n. g (f n)) ns"
  using assms by (auto simp: update_rows_def)

lemma start_node_eq: "start_node now = (\<lambda>n. n\<lparr>nd_status := NRunning, nd_started := Some now\<rparr>)"
  by (rule ext) (simp add: start_node_def)

lemma start_nodes_insert: "start_nodes now I (start_nodes now {i} ns) = start_nodes now (insert i I) ns"
  by (auto simp: start_nodes_def update_rows_def start_node_def)

lemma start_nodes_empty [simp]: "start_nodes now {} ns = ns"
  by (simp add: start_nodes_def update_rows_def)

lemma ids_start [simp]: "map nd_id (start_nodes now I ns) = map nd_id ns"
  and ids_finish [simp]: "map nd_id (finish_node i ns) = map nd_id ns"
  and ids_break [simp]: "map nd_id (break_node i err cs ns) = map nd_id ns"
  by (rule shape_determines(1), simp)+

lemma id_set_start [simp]: "nd_id ` set (start_nodes now I ns) = nd_id ` set ns"
  by (metis ids_start list.set_map)

definition work_of :: "dag_run \<Rightarrow> dag_node \<Rightarrow> work_item" where
  "work_of r n = \<lparr>wi_node = nd_id n, wi_upstream = upstream_of (rn_results r) (nd_depends n)\<rparr>"

lemma submit_nodes_list:
  assumes "rn_dag r = from_execution ns" "distinct (map nd_id ns)" "nd_id ` set nodes \<subseteq> nd_id ` set ns"
  shows "submit_nodes now x nodes r =
    Inr (r\<lparr>rn_dag := from_execution (start_nodes now (nd_id ` set nodes) ns),
           rn_store := fold (\<lambda>i. update_dag_node_status now x i NRunning None) (map nd_id nodes) (rn_store r),
           rn_tasks := rn_tasks r @ map (work_of r) nodes\<rparr>)"
  using assms
proof (induction nodes arbitrary: r ns)
  case (Cons node nodes)
  let ?i = "nd_id node"
  let ?ns = "start_nodes now {?i} ns"
  have i: "?i \<in> nd_id ` set ns" using Cons.prems(3) by simp
  let ?n1 = "update_rows (\<lambda>n. nd_id n = ?i) (\<lambda>n. n\<lparr>nd_status := NRunning\<rparr>) ns"
  have ids: "map nd_id ?n1 = map nd_id ns" by (simp add: update_rows_structure)
  then have "nd_id ` set ?n1 = nd_id ` set ns" by (metis list.set_map)
  with i ids Cons.prems(2) have d1: "distinct (map nd_id ?n1)" "?i \<in> nd_id ` set ?n1" by simp_all
  have "mark_running ?i (rn_dag r) = Inr (from_execution ?n1)"
    unfolding mark_running_def Cons.prems(1) by (rule on_node_list [OF Cons.prems(2) i]) simp_all
  moreover have "on_node ?i (\<lambda>n. n\<lparr>nd_started := Some now\<rparr>) (from_execution ?n1) = Inr (from_execution ?ns)"
    using on_node_list [OF d1, of "\<lambda>n. n\<lparr>nd_started := Some now\<rparr>"]
      update_rows_twice [where P = "\<lambda>j. j = ?i" and f = "\<lambda>n. n\<lparr>nd_status := NRunning\<rparr>" and g = "\<lambda>n. n\<lparr>nd_started := Some now\<rparr>" and ns = ns]
    by (simp add: start_nodes_def start_node_eq)
  moreover have "nd_id ` set nodes \<subseteq> nd_id ` set ?ns"
    using Cons.prems(3) by simp
  ultimately show ?case using Cons.prems(2)
    by (simp add: Cons.IH [where ns = ?ns] start_nodes_insert work_of_def)
qed simp

definition ready_ids :: "dag_node list \<Rightarrow> string set" where
  "ready_ids ns = nd_id ` set (filter (is_ready ns) ns)"

lemma schedule_ready_list:
  assumes "rn_dag r = from_execution ns" "closed_nodes ns" "\<not> rn_stopping r"
  shows "schedule_ready now x r =
    Inr (r\<lparr>rn_dag := from_execution (start_nodes now (ready_ids ns) ns),
           rn_store := fold (\<lambda>i. update_dag_node_status now x i NRunning None) (map nd_id (filter (is_ready ns) ns)) (rn_store r),
           rn_tasks := rn_tasks r @ map (work_of r) (filter (is_ready ns) ns)\<rparr>)"
proof -
  have "distinct (map nd_id ns)" using assms(2) by (simp add: closed_nodes_def)
  with submit_nodes_list [OF assms(1) this, of "filter (is_ready ns) ns" now x] show ?thesis
    using assms(1,3) get_ready_nodes_list [OF assms(2)]
    by (auto simp: schedule_ready_def ready_ids_def)
qed

lemma complete_node_list:
  assumes "rn_dag r = from_execution ns" "distinct (map nd_id ns)" "status_of ns i \<noteq> None"
  shows "complete_node now x i r =
    Inr (r\<lparr>rn_dag := from_execution (finish_node i ns), rn_store := update_dag_node_status now x i NCompleted None (rn_store r),
           rn_events := rn_events r @ [(''dag.node.completed'', i)]\<rparr>)"
proof -
  have "i \<in> nd_id ` set ns" using assms(3) by (auto simp: status_of_def dest!: row_by_SomeD)
  then have "mark_completed i (from_execution ns) = Inr (from_execution (finish_node i ns))"
    unfolding mark_completed_def finish_node_def by (rule on_node_list [OF assms(2)]) simp_all
  with assms(1) show ?thesis by (simp add: complete_node_def)
qed

lemma downstream_broken:
  assumes "distinct (map nd_id ns)" "status_of ns i = Some NRunning" "\<not> cancellable s"
  shows "downstream (update_rows (\<lambda>n. nd_id n = i) (\<lambda>n. n\<lparr>nd_status := s, nd_error := e\<rparr>) ns) i = downstream ns i"
proof -
  let ?ns = "update_rows (\<lambda>n. nd_id n = i) (\<lambda>n. n\<lparr>nd_status := s, nd_error := e\<rparr>) ns"
  have sh: "shape ?ns = shape ns" by (rule shape_update) simp_all
  have d: "distinct (map nd_id ?ns)" using assms(1) shape_determines(1) [OF sh] by simp
  have "status_of ?ns c = (if c = i then map_option (\<lambda>_. s) (status_of ns c) else status_of ns c)" for c
    by (rule status_update_rows [where P = "\<lambda>j. j = i"]) simp_all
  then have "status_of ?ns c \<in> {Some NPending, Some NReady} \<longleftrightarrow> status_of ns c \<in> {Some NPending, Some NReady}" for c
    using assms(2,3) by (auto simp: cancellable_def)
  then have "(p, c) \<in> open_dependency ?ns \<longleftrightarrow> (p, c) \<in> open_dependency ns" for p c
    unfolding open_dependency_status [OF d] open_dependency_status [OF assms(1)] sh by simp
  then have "open_dependency ?ns = open_dependency ns" by auto
  then show ?thesis by (simp add: downstream_def)
qed

lemma fail_node_list:
  assumes "rn_dag r = from_execution ns" "distinct (map nd_id ns)" "status_of ns i = Some NRunning" "err \<noteq> ''''"
  obtains cs where "set cs = downstream ns i"
    "fail_node now x i err r =
       Inr (r\<lparr>rn_dag := from_execution (break_node i err cs ns),
              rn_store := update_dag_node_status now x i (if err = ''Cancelled'' then NCancelled else NFailed) (Some err)
                            (fold (\<lambda>c. update_dag_node_status now x c NCancelled None) cs (rn_store r)),
              rn_events := rn_events r @ [(if err = ''Cancelled'' then ''dag.node.cancelled'' else ''dag.node.failed'', i)]\<rparr>)"
proof -
  let ?s = "if err = ''Cancelled'' then NCancelled else NFailed"
  let ?ns = "update_rows (\<lambda>n. nd_id n = i) (\<lambda>n. n\<lparr>nd_status := ?s, nd_error := Some err\<rparr>) ns"
  have i: "i \<in> nd_id ` set ns" using assms(3) by (auto simp: status_of_def dest!: row_by_SomeD)
  have g: "(if err = ''Cancelled'' then on_node i (\<lambda>n. n\<lparr>nd_status := NCancelled, nd_error := Some err\<rparr>) (rn_dag r)
            else mark_node_failed i (Some err) (rn_dag r)) = Inr (from_execution ?ns)"
    unfolding mark_node_failed_def assms(1) using on_node_list [OF assms(2) i, of "\<lambda>n. n\<lparr>nd_status := ?s, nd_error := Some err\<rparr>"] assms(4)
    by (cases "err = ''Cancelled''") (simp_all add: Let_def)
  have d: "distinct (map nd_id ?ns)" using assms(2) by (simp add: update_rows_structure)
  obtain cs where cs: "propagate_failure i (from_execution ?ns) =
       Inr (cs, from_execution (update_rows (\<lambda>n. nd_id n \<in> set cs) (\<lambda>n. n\<lparr>nd_status := NCancelled\<rparr>) ?ns))"
    "set cs = downstream ?ns i"
    unfolding downstream_def by (rule propagate_failure_list [OF d])
  have "set cs = downstream ns i" using cs(2) downstream_broken [OF assms(2,3), of ?s] by (simp add: cancellable_def)
  then show thesis
    by (rule that) (use g cs(1) in \<open>simp add: fail_node_def Let_def break_node_def\<close>)
qed

section \<open>The invariant of a run\<close>

definition task_ids :: "dag_run \<Rightarrow> string set" where
  "task_ids r = wi_node ` set (rn_tasks r)"

definition run_inv :: "string \<Rightarrow> dag_node list \<Rightarrow> dag_run \<Rightarrow> bool" where
  "run_inv x ns r =
     (rn_dag r = from_execution ns \<and> sound_nodes ns \<and> distinct (map wi_node (rn_tasks r)) \<and>
      (\<forall>i \<in> task_ids r. status_of ns i = Some NRunning) \<and> mirrors (rn_store r) x ns)"

text \<open>
  What keeps a run going as long as no task is cancelled: every running node has its task, and when no
  callback is on its way, nothing is left to schedule and a finished run is marked as complete.
\<close>

definition run_live :: "dag_node list \<Rightarrow> dag_run \<Rightarrow> bool" where
  "run_live ns r =
     (\<not> rn_stopping r \<and> (\<forall>i. status_of ns i = Some NRunning \<longrightarrow> i \<in> task_ids r) \<and>
      (rn_tails r = [] \<longrightarrow> ready_ids ns = {}) \<and>
      (rn_tails r = [] \<longrightarrow> (\<forall>n \<in> set ns. terminal (nd_status n)) \<longrightarrow> rn_complete r))"

lemma run_liveI:
  assumes "\<not> rn_stopping r" "\<And>i. status_of ns i = Some NRunning \<Longrightarrow> i \<in> task_ids r" "rn_tails r = [] \<Longrightarrow> ready_ids ns = {}"
    "rn_tails r = [] \<Longrightarrow> \<forall>n \<in> set ns. terminal (nd_status n) \<Longrightarrow> rn_complete r"
  shows "run_live ns r"
  using assms unfolding run_live_def by blast

definition pending_ids :: "dag_node list \<Rightarrow> string set" where
  "pending_ids ns = {i. status_of ns i = Some NPending}"

definition run_measure :: "dag_node list \<Rightarrow> dag_run \<Rightarrow> nat" where
  "run_measure ns r = 3 * card (pending_ids ns) + 2 * length (rn_tasks r) + length (rn_tails r)"

lemma finite_pending [simp]: "finite (pending_ids ns)"
proof (rule finite_subset)
  show "pending_ids ns \<subseteq> nd_id ` set ns" by (auto simp: pending_ids_def status_of_def dest!: row_by_SomeD)
qed simp

lemma record_result_fields [simp]:
  "rn_dag (record_result i out r) = rn_dag r" "rn_store (record_result i out r) = rn_store r"
  "rn_tails (record_result i out r) = rn_tails r" "rn_stopping (record_result i out r) = rn_stopping r"
  "rn_complete (record_result i out r) = rn_complete r" "rn_tasks (record_result i out r) = rn_tasks r"
  by (cases out; simp add: Let_def)+

lemma drop_task:
  assumes "distinct (map wi_node ts)" "i \<in> wi_node ` set ts"
  shows "length (filter (\<lambda>w. wi_node w \<noteq> i) ts) < length ts"
    "wi_node ` set (filter (\<lambda>w. wi_node w \<noteq> i) ts) = wi_node ` set ts - {i}"
    "distinct (map wi_node (filter (\<lambda>w. wi_node w \<noteq> i) ts))"
proof -
  obtain w where "w \<in> set ts" "\<not> wi_node w \<noteq> i" using assms(2) by blast
  then show "length (filter (\<lambda>w. wi_node w \<noteq> i) ts) < length ts" by (rule length_filter_less)
  show "distinct (map wi_node (filter (\<lambda>w. wi_node w \<noteq> i) ts))" using assms(1) by (rule distinct_map_filter)
qed auto

lemma mirrors_cong:
  assumes "mirrors s x ns" "\<And>i. status_of ns i = None \<longleftrightarrow> status_of ns' i = None"
    and "\<And>i. stored_status s x i = status_of ns i \<Longrightarrow> stored_status s' x i = status_of ns' i"
  shows "mirrors s' x ns'"
  unfolding mirrors_def
proof (intro allI impI)
  fix i assume "status_of ns' i \<noteq> None"
  then have "status_of ns i \<noteq> None" using assms(2) [of i] by simp
  then have "stored_status s x i = status_of ns i" using assms(1) by (simp add: mirrors_def)
  then show "stored_status s' x i = status_of ns' i" by (rule assms(3))
qed

lemma mirrors_set:
  assumes "mirrors s x ns" "\<And>j. j \<in> J \<Longrightarrow> status_of ns j \<noteq> None"
    and "\<And>j. status_of ns' j = (if j \<in> J then Some st else status_of ns j)"
    and "\<And>j. stored_status s' x j = (if j \<in> J then map_option (\<lambda>_. st) (stored_status s x j) else stored_status s x j)"
  shows "mirrors s' x ns'"
proof (rule mirrors_cong [OF assms(1)])
  show "status_of ns j = None \<longleftrightarrow> status_of ns' j = None" for j
    using assms(2) [of j] assms(3) [of j] by (cases "j \<in> J") simp_all
  show "stored_status s' x j = status_of ns' j" if "stored_status s x j = status_of ns j" for j
    using assms(2) [of j] assms(3) [of j] assms(4) [of j] that by (cases "j \<in> J") auto
qed

text \<open>A task ends well.\<close>

lemma finish_step:
  assumes inv: "run_inv x ns r" and i: "i \<in> task_ids r" and e: "\<not> truthy (pool_error out)"
  shows "\<exists>r'. node_finished now x i out r = Inr r' \<and> run_inv x (finish_node i ns) r' \<and>
    (run_live ns r \<longrightarrow> run_live (finish_node i ns) r') \<and> run_measure (finish_node i ns) r' < run_measure ns r"
proof -
  note v = inv [unfolded run_inv_def]
  have run: "status_of ns i = Some NRunning" using v i by blast
  have st: "status_of (finish_node i ns) j = (if j = i then Some NCompleted else status_of ns j)" for j
    using run by (simp add: status_finish)
  define r1 where "r1 = (record_result i out r)\<lparr>rn_tasks := filter (\<lambda>w. wi_node w \<noteq> i) (rn_tasks r)\<rparr>"
  define r' where "r' = r1\<lparr>rn_dag := from_execution (finish_node i ns),
    rn_store := update_dag_node_status now x i NCompleted None (rn_store r),
    rn_events := rn_events r1 @ [(''dag.node.completed'', i)], rn_tails := rn_tails r @ [i]\<rparr>"
  have "complete_node now x i r1 = Inr (r1\<lparr>rn_dag := from_execution (finish_node i ns),
    rn_store := update_dag_node_status now x i NCompleted None (rn_store r1), rn_events := rn_events r1 @ [(''dag.node.completed'', i)]\<rparr>)"
    by (rule complete_node_list) (use v run sound_distinct [of ns] in \<open>simp_all add: r1_def\<close>)
  then have 1: "node_finished now x i out r = Inr r'"
    using e by (simp add: node_finished_def r1_def [symmetric] r'_def Let_def) (simp add: r1_def)
  have t: "task_ids r' = task_ids r - {i}" "distinct (map wi_node (rn_tasks r'))" "length (rn_tasks r') < length (rn_tasks r)"
    using drop_task [of "rn_tasks r" i] v i by (simp_all add: task_ids_def r'_def r1_def)
  have "mirrors (rn_store r') x (finish_node i ns)"
    by (rule mirrors_set [of "rn_store r" x ns "{i}" _ NCompleted]) (use v run in \<open>simp_all add: st r'_def stored_status_update\<close>)
  then have 2: "run_inv x (finish_node i ns) r'"
    using v t sound_finish [OF _ run] by (auto simp: run_inv_def st r'_def)
  have "rn_tails r' \<noteq> []" "rn_stopping r' = rn_stopping r" by (simp_all add: r'_def r1_def)
  moreover have "status_of ns j = Some NRunning \<and> j \<noteq> i" if "status_of (finish_node i ns) j = Some NRunning" for j
    using that by (cases "j = i") (simp_all add: st)
  ultimately have 3: "run_live ns r \<longrightarrow> run_live (finish_node i ns) r'" using t(1) unfolding run_live_def by blast
  have "pending_ids (finish_node i ns) = pending_ids ns" using run by (auto simp: pending_ids_def st)
  then have 4: "run_measure (finish_node i ns) r' < run_measure ns r"
    using t(3) by (simp add: run_measure_def) (simp add: r'_def)
  from 1 2 3 4 show ?thesis by blast
qed

text \<open>A task fails or is cancelled.\<close>

lemma break_step:
  assumes inv: "run_inv x ns r" and i: "i \<in> task_ids r" and e: "pool_error out = Some err" "err \<noteq> ''''"
  shows "\<exists>r' cs. set cs = downstream ns i \<and> node_finished now x i out r = Inr r' \<and> run_inv x (break_node i err cs ns) r' \<and>
    (run_live ns r \<longrightarrow> run_live (break_node i err cs ns) r') \<and> run_measure (break_node i err cs ns) r' < run_measure ns r"
proof -
  note v = inv [unfolded run_inv_def]
  have run: "status_of ns i = Some NRunning" using v i by blast
  let ?s = "if err = ''Cancelled'' then NCancelled else NFailed"
  define r1 where "r1 = (record_result i out r)\<lparr>rn_tasks := filter (\<lambda>w. wi_node w \<noteq> i) (rn_tasks r)\<rparr>"
  obtain cs where cs: "set cs = downstream ns i" "fail_node now x i err r1 =
       Inr (r1\<lparr>rn_dag := from_execution (break_node i err cs ns),
              rn_store := update_dag_node_status now x i ?s (Some err)
                            (fold (\<lambda>c. update_dag_node_status now x c NCancelled None) cs (rn_store r1)),
              rn_events := rn_events r1 @ [(if err = ''Cancelled'' then ''dag.node.cancelled'' else ''dag.node.failed'', i)]\<rparr>)"
    by (rule fail_node_list [of r1 ns i err now x]) (use v run e sound_distinct [of ns] in \<open>simp_all add: r1_def\<close>)
  let ?ns = "break_node i err cs ns"
  have pend: "status_of ns c = Some NPending" if "c \<in> set cs" for c using downstream_pending v that cs(1) by blast
  then have ics: "i \<notin> set cs" using run by force
  have st: "status_of ?ns j = (if j \<in> set cs then Some NCancelled else if j = i then Some ?s else status_of ns j)" for j
    by (rule status_break) (use pend ics run in auto)
  define r' where "r' = r1\<lparr>rn_dag := from_execution ?ns,
    rn_store := update_dag_node_status now x i ?s (Some err) (fold (\<lambda>c. update_dag_node_status now x c NCancelled None) cs (rn_store r)),
    rn_events := rn_events r1 @ [(if err = ''Cancelled'' then ''dag.node.cancelled'' else ''dag.node.failed'', i)],
    rn_tails := rn_tails r @ [i]\<rparr>"
  have 1: "node_finished now x i out r = Inr r'"
    using e cs(2) by (simp add: node_finished_def r1_def [symmetric] r'_def Let_def truthy_def) (simp add: r1_def)
  have t: "task_ids r' = task_ids r - {i}" "distinct (map wi_node (rn_tasks r'))" "length (rn_tasks r') < length (rn_tasks r)"
    using drop_task [of "rn_tasks r" i] v i by (simp_all add: task_ids_def r'_def r1_def)
  have S: "stored_status (rn_store r') x j =
      (if j = i then map_option (\<lambda>_. ?s) (stored_status (rn_store r) x j)
       else if j \<in> set cs then map_option (\<lambda>_. NCancelled) (stored_status (rn_store r) x j) else stored_status (rn_store r) x j)" for j
    using ics by (simp add: r'_def stored_status_update stored_status_fold)
  have m: "mirrors (rn_store r') x ?ns"
  proof (rule mirrors_cong [of "rn_store r" x ns])
    show "mirrors (rn_store r) x ns" using v by blast
    show "status_of ns j = None \<longleftrightarrow> status_of ?ns j = None" for j using run pend [of j] by (auto simp: st)
    show "stored_status (rn_store r') x j = status_of ?ns j" if "stored_status (rn_store r) x j = status_of ns j" for j
      using S [of j] st [of j] run pend [of j] ics that by (cases "j = i"; cases "j \<in> set cs") simp_all
  qed
  have "status_of ?ns j = Some NRunning" if "j \<in> task_ids r'" for j
  proof -
    have j: "status_of ns j = Some NRunning" "j \<noteq> i" using that t(1) v by auto
    moreover have "j \<notin> set cs" using pend [of j] j(1) by auto
    ultimately show ?thesis by (simp add: st)
  qed
  moreover have "rn_dag r' = from_execution ?ns" by (simp add: r'_def)
  ultimately have 2: "run_inv x ?ns r'"
    using v t m sound_break [OF _ run cs(1)] by (simp add: run_inv_def)
  have "rn_tails r' \<noteq> []" "rn_stopping r' = rn_stopping r" by (simp_all add: r'_def r1_def)
  moreover have "status_of ns j = Some NRunning \<and> j \<noteq> i" if "status_of ?ns j = Some NRunning" for j
    using that by (cases "j \<in> set cs"; cases "j = i") (simp_all add: st split: if_split_asm)
  ultimately have 3: "run_live ns r \<longrightarrow> run_live ?ns r'" using t(1) unfolding run_live_def by blast
  have "pending_ids ?ns \<subseteq> pending_ids ns" by (auto simp: pending_ids_def st split: if_split_asm)
  then have "card (pending_ids ?ns) \<le> card (pending_ids ns)" by (rule card_mono [rotated]) simp
  then have 4: "run_measure ?ns r' < run_measure ns r"
    using t(3) by (simp add: run_measure_def) (simp add: r'_def)
  from cs(1) 1 2 3 4 show ?thesis by blast
qed

text \<open>A callback goes on: the run is complete, or what is ready is started.\<close>

lemma ready_status:
  assumes "sound_nodes ns" "i \<in> ready_ids ns"
  shows "status_of ns i = Some NPending"
  using assms by (auto simp: ready_ids_def is_ready_def status_of_eq sound_distinct)

lemma ready_after_start:
  assumes s: "sound_nodes ns"
  shows "ready_ids (start_nodes now (ready_ids ns) ns) = {}"
proof (rule ccontr)
  let ?ns = "start_nodes now (ready_ids ns) ns"
  assume "ready_ids ?ns \<noteq> {}"
  then obtain i n where n: "n \<in> set ?ns" "is_ready ?ns n" "nd_id n = i" by (auto simp: ready_ids_def)
  note d = sound_distinct [OF s]
  have d': "distinct (map nd_id ?ns)" using d by simp
  have st: "status_of ?ns j = (if j \<in> ready_ids ns then Some NRunning else status_of ns j)" for j
    by (rule status_start) (simp add: ready_status [OF s])
  obtain m where m: "m \<in> set ns" "n = (if nd_id m \<in> ready_ids ns then start_node now m else m)"
    using n(1) by (auto simp: start_nodes_def set_update_rows)
  have "n = m" using n(2) m(2) by (auto simp: is_ready_def start_node_def split: if_split_asm)
  have "completed_in ns dd" if "dd \<in> set (nd_depends m)" for dd
  proof -
    have "status_of ?ns dd = Some NCompleted" using n(2) that \<open>n = m\<close> by (simp add: is_ready_def completed_in_status [OF d'])
    then show ?thesis by (simp add: st completed_in_status [OF d] split: if_split_asm)
  qed
  then have "is_ready ns m" using n(2) \<open>n = m\<close> by (simp add: is_ready_def)
  with m(1) have "nd_id m \<in> ready_ids ns" by (auto simp: ready_ids_def)
  with m(2) \<open>n = m\<close> n(2) show False by (auto simp: is_ready_def start_node_def dest: arg_cong [where f = nd_status])
qed

lemma start_step:
  assumes inv: "run_inv x ns r" and "\<not> rn_stopping r"
  shows "\<exists>r'. schedule_ready now x r = Inr r' \<and> run_inv x (start_nodes now (ready_ids ns) ns) r' \<and>
    rn_tails r' = rn_tails r \<and> rn_stopping r' = rn_stopping r \<and> rn_complete r' = rn_complete r \<and>
    task_ids r' = task_ids r \<union> ready_ids ns \<and>
    run_measure (start_nodes now (ready_ids ns) ns) r' \<le> run_measure ns r"
proof -
  note v = inv [unfolded run_inv_def]
  have s: "sound_nodes ns" using v by blast
  note d = sound_distinct [OF s]
  let ?ready = "filter (is_ready ns) ns" and ?ns = "start_nodes now (ready_ids ns) ns"
  have st: "status_of ?ns j = (if j \<in> ready_ids ns then Some NRunning else status_of ns j)" for j
    by (rule status_start) (simp add: ready_status [OF s])
  define r' where "r' = r\<lparr>rn_dag := from_execution ?ns,
           rn_store := fold (\<lambda>i. update_dag_node_status now x i NRunning None) (map nd_id ?ready) (rn_store r),
           rn_tasks := rn_tasks r @ map (work_of r) ?ready\<rparr>"
  have 1: "schedule_ready now x r = Inr r'"
    unfolding r'_def by (rule schedule_ready_list) (use v assms(2) sound_closed [OF s] in auto)
  have w: "map wi_node (map (work_of r) ?ready) = map nd_id ?ready" by (simp add: work_of_def comp_def)
  have t: "task_ids r' = task_ids r \<union> ready_ids ns"
    using arg_cong [OF w, of set] by (auto simp: task_ids_def r'_def ready_ids_def image_Un)
  have dr: "distinct (map nd_id ?ready)" using d by (rule distinct_map_filter)
  have disj: "task_ids r \<inter> ready_ids ns = {}" using v ready_status [OF s] by force
  moreover have "map wi_node (rn_tasks r') = map wi_node (rn_tasks r) @ map nd_id ?ready"
    unfolding w [symmetric] by (simp add: r'_def)
  ultimately have dt: "distinct (map wi_node (rn_tasks r'))"
    using v dr by (simp add: task_ids_def ready_ids_def)
  have S: "stored_status (rn_store r') x j =
      (if j \<in> ready_ids ns then map_option (\<lambda>_. NRunning) (stored_status (rn_store r) x j) else stored_status (rn_store r) x j)" for j
    by (simp add: r'_def stored_status_fold ready_ids_def)
  have m: "mirrors (rn_store r') x ?ns"
  proof (rule mirrors_set [OF _ _ st S])
    show "mirrors (rn_store r) x ns" using v by blast
    show "status_of ns j \<noteq> None" if "j \<in> ready_ids ns" for j using ready_status [OF s that] by simp
  qed
  have "sound_nodes ?ns" by (rule sound_start [OF s]) (auto simp: ready_ids_def)
  moreover have "\<forall>i \<in> task_ids r'. status_of ?ns i = Some NRunning" using v t by (auto simp: st)
  ultimately have 2: "run_inv x ?ns r'" using dt m by (simp add: run_inv_def) (simp add: r'_def)
  have "pending_ids ?ns = pending_ids ns - ready_ids ns" by (auto simp: pending_ids_def st split: if_split_asm)
  moreover have sub: "ready_ids ns \<subseteq> pending_ids ns" using ready_status [OF s] by (auto simp: pending_ids_def)
  moreover have c: "card (ready_ids ns) = length ?ready" using distinct_card [OF dr] by (simp add: ready_ids_def)
  ultimately have "card (pending_ids ?ns) + length ?ready = card (pending_ids ns)"
    using card_Diff_subset [OF finite_subset [OF sub finite_pending] sub] card_mono [OF finite_pending sub] by simp
  then have 3: "run_measure ?ns r' \<le> run_measure ns r" by (simp add: run_measure_def r'_def)
  from 1 2 3 t show ?thesis by (intro exI [of _ r']) (simp add: r'_def)
qed

lemma after_step:
  assumes inv: "run_inv x ns r" and i: "i \<in> set (rn_tails r)"
  shows "\<exists>r' ns'. after_node now x i r = Inr r' \<and> run_inv x ns' r' \<and> shape ns' = shape ns \<and>
    (run_live ns r \<longrightarrow> run_live ns' r') \<and> run_measure ns' r' < run_measure ns r"
proof -
  note v = inv [unfolded run_inv_def]
  have s: "sound_nodes ns" using v by blast
  note d = sound_distinct [OF s]
  define r1 where "r1 = r\<lparr>rn_tails := remove1 i (rn_tails r)\<rparr>"
  have inv1: "run_inv x ns r1" using v by (simp add: run_inv_def r1_def task_ids_def)
  have m1: "run_measure ns r1 < run_measure ns r"
    using i length_remove1 [of i "rn_tails r"] length_pos_if_in_set [OF i] by (simp add: run_measure_def r1_def)
  have c: "is_complete (rn_dag r1) \<longleftrightarrow> (\<forall>n \<in> set ns. terminal (nd_status n))"
    using v is_complete_list [OF d] by (simp add: r1_def)
  consider (complete) "is_complete (rn_dag r1)" | (start) "\<not> is_complete (rn_dag r1)" "\<not> rn_stopping r1"
    | (stop) "\<not> is_complete (rn_dag r1)" "rn_stopping r1" by blast
  then show ?thesis
  proof cases
    case complete
    let ?r = "r1\<lparr>rn_complete := True\<rparr>"
    have "ready_ids ns = {}" using complete c by (auto simp: ready_ids_def is_ready_def terminal_def)
    then have "run_live ns r \<longrightarrow> run_live ns ?r" by (simp add: run_live_def r1_def task_ids_def)
    moreover have "after_node now x i r = Inr ?r" using complete by (simp add: after_node_def r1_def Let_def)
    moreover have "run_inv x ns ?r" using inv1 by (simp add: run_inv_def task_ids_def)
    moreover have "run_measure ns ?r < run_measure ns r" using m1 by (simp add: run_measure_def)
    ultimately show ?thesis by blast
  next
    case start
    let ?ns = "start_nodes now (ready_ids ns) ns"
    obtain r' where r': "schedule_ready now x r1 = Inr r'" "run_inv x ?ns r'" "rn_tails r' = rn_tails r1"
      "rn_stopping r' = rn_stopping r1" "rn_complete r' = rn_complete r1" "task_ids r' = task_ids r1 \<union> ready_ids ns"
      "run_measure ?ns r' \<le> run_measure ns r1"
      using start_step [OF inv1 start(2)] by blast
    have st: "status_of ?ns j = (if j \<in> ready_ids ns then Some NRunning else status_of ns j)" for j
      by (rule status_start) (simp add: ready_status [OF s])
    obtain n where n: "n \<in> set ns" "\<not> terminal (nd_status n)" using start(1) c by blast
    have d': "distinct (map nd_id ?ns)" using d by simp
    let ?n = "if nd_id n \<in> ready_ids ns then start_node now n else n"
    have "?n \<in> set ?ns" "\<not> terminal (nd_status ?n)"
      using n by (auto simp: start_nodes_def set_update_rows) (auto simp: start_node_def terminal_def)
    then have unfinished: "\<not> (\<forall>n \<in> set ?ns. terminal (nd_status n))" by blast
    have "run_live ?ns r'" if l: "run_live ns r"
    proof (rule run_liveI)
      show "i \<in> task_ids r'" if "status_of ?ns i = Some NRunning" for i
        using that l r'(6) by (auto simp: st run_live_def r1_def task_ids_def split: if_split_asm)
    qed (use r'(4) ready_after_start [OF s, of now] start(2) unfinished in blast)+
    moreover have "after_node now x i r = Inr r'" using start r'(1) by (simp add: after_node_def r1_def Let_def)
    moreover have "run_measure ?ns r' < run_measure ns r" using r'(7) m1 by simp
    ultimately show ?thesis using r'(2) move_shape(1) by blast
  next
    case stop
    then have "after_node now x i r = Inr r1" by (simp add: after_node_def r1_def Let_def)
    moreover have "run_live ns r \<longrightarrow> run_live ns r1" using stop(2) by (simp add: run_live_def r1_def)
    ultimately show ?thesis using inv1 m1 by blast
  qed
qed

section \<open>Runs\<close>

text \<open>A graph a run may start from: sound, with no node left running.\<close>

definition resumable :: "dag_node list \<Rightarrow> bool" where
  "resumable ns = (sound_nodes ns \<and> (\<forall>n \<in> set ns. nd_status n \<noteq> NRunning))"

lemma fresh_resumable:
  assumes "validate_dag_structure ns = Inr ()" "\<forall>n \<in> set ns. nd_status n = NPending"
  shows "resumable ns"
  using assms by (auto simp: resumable_def sound_nodes_def started_def failed_in_def)

lemma recover_node_fields:
  "rn_dag (recover_node s x n r) = rn_dag r \<and> rn_store (recover_node s x n r) = rn_store r \<and>
   rn_tasks (recover_node s x n r) = rn_tasks r \<and> rn_tails (recover_node s x n r) = rn_tails r \<and>
   rn_stopping (recover_node s x n r) = rn_stopping r \<and> rn_complete (recover_node s x n r) = rn_complete r"
  by (simp add: recover_node_def Let_def split: option.split)

lemma recover_fields:
  "rn_dag (fold (recover_node s x) ns r) = rn_dag r \<and> rn_store (fold (recover_node s x) ns r) = rn_store r \<and>
   rn_tasks (fold (recover_node s x) ns r) = rn_tasks r \<and> rn_tails (fold (recover_node s x) ns r) = rn_tails r \<and>
   rn_stopping (fold (recover_node s x) ns r) = rn_stopping r \<and> rn_complete (fold (recover_node s x) ns r) = rn_complete r"
  by (induction ns arbitrary: r) (simp_all add: recover_node_fields)

lemma stored_status_execution [simp]:
  "stored_status (update_dag_execution_status y st c s) x i = stored_status s x i"
  by (simp add: stored_status_def update_dag_execution_status_def)

lemma mirrors_execution [simp]: "mirrors (update_dag_execution_status y st c s) x ns \<longleftrightarrow> mirrors s x ns"
  by (simp add: mirrors_def)

lemma not_running:
  assumes "resumable ns" shows "status_of ns i \<noteq> Some NRunning"
  using assms by (auto simp: resumable_def status_of_iff sound_distinct)

lemma start_scheduling_ok:
  assumes res: "resumable (dx_nodes x)" and m: "mirrors s (dx_id x) (dx_nodes x)"
  obtains r ns where "start_scheduling now x s = Inr r" "run_inv (dx_id x) ns r" "run_live ns r"
    "shape ns = shape (dx_nodes x)" "run_measure ns r \<le> 3 * length (dx_nodes x)"
proof -
  let ?ns = "dx_nodes x"
  define r0 where "r0 = (fold (recover_node s (dx_id x)) ?ns
     \<lparr>rn_dag = from_execution ?ns, rn_store = s, rn_results = [], rn_usage = [], rn_tasks = [], rn_tails = [],
      rn_stopping = False, rn_complete = False, rn_events = []\<rparr>)
     \<lparr>rn_store := update_dag_execution_status (dx_id x) ''running'' None s, rn_events := [(''dag.started'', '''')]\<rparr>"
  have f: "rn_dag r0 = from_execution ?ns" "rn_tasks r0 = []" "rn_tails r0 = []" "\<not> rn_stopping r0"
    "rn_store r0 = update_dag_execution_status (dx_id x) ''running'' None s"
    by (simp_all add: r0_def recover_fields)
  have s: "sound_nodes ?ns" using res by (simp add: resumable_def)
  then have inv: "run_inv (dx_id x) ?ns r0" using m by (simp add: run_inv_def f task_ids_def)
  let ?ns' = "start_nodes now (ready_ids ?ns) ?ns"
  obtain r where r: "schedule_ready now (dx_id x) r0 = Inr r" "run_inv (dx_id x) ?ns' r" "rn_tails r = rn_tails r0"
    "rn_stopping r = rn_stopping r0" "task_ids r = task_ids r0 \<union> ready_ids ?ns" "run_measure ?ns' r \<le> run_measure ?ns r0"
    using start_step [OF inv f(4)] by blast
  let ?r = "r\<lparr>rn_complete := (rn_tasks r = [] \<and> is_complete (rn_dag r))\<rparr>"
  have dag: "rn_dag r = from_execution ?ns'" and d: "distinct (map nd_id ?ns')"
    using r(2) sound_distinct [OF s] by (simp_all add: run_inv_def)
  have 1: "start_scheduling now x s = Inr ?r" using r(1) by (simp add: start_scheduling_def r0_def Let_def)
  have 2: "run_inv (dx_id x) ?ns' ?r" using r(2) by (simp add: run_inv_def task_ids_def)
  have 3: "run_live ?ns' ?r"
  proof (rule run_liveI)
    show "i \<in> task_ids ?r" if "status_of ?ns' i = Some NRunning" for i
    proof -
      have "i \<in> ready_ids ?ns"
        using that status_start [of "ready_ids ?ns" ?ns now i] ready_status [OF s] not_running [OF res, of i]
        by (auto split: if_split_asm)
      then show ?thesis using r(5) by (simp add: task_ids_def)
    qed
    show "rn_complete ?r" if t: "\<forall>n \<in> set ?ns'. terminal (nd_status n)"
    proof -
      have "rn_tasks r = []"
      proof (rule ccontr)
        assume "rn_tasks r \<noteq> []"
        then obtain i where "i \<in> task_ids r" by (cases "rn_tasks r") (auto simp: task_ids_def)
        then have "status_of ?ns' i = Some NRunning" using r(2) by (simp add: run_inv_def)
        then obtain n where "n \<in> set ?ns'" "nd_status n = NRunning" using status_of_iff [OF d] by blast
        with t show False by (auto simp: terminal_def)
      qed
      then show ?thesis using t by (simp add: dag is_complete_list [OF d])
    qed
  qed (use r(4) f(4) ready_after_start [OF s, of now] in simp_all)
  have "card (pending_ids ?ns) \<le> card (nd_id ` set ?ns)"
    by (rule card_mono) (auto simp: pending_ids_def status_of_def dest!: row_by_SomeD)
  then have "card (pending_ids ?ns) \<le> length ?ns" using card_image_le [of "set ?ns" nd_id] card_length [of ?ns] by simp
  then have 4: "run_measure ?ns' ?r \<le> 3 * length ?ns" using r(6) f by (simp add: run_measure_def)
  from 1 2 3 _ 4 show thesis by (rule that) simp
qed

subsection \<open>What every step keeps\<close>

lemma run_step_inv:
  assumes "run_step x r r'" "run_inv x ns r"
  shows "\<exists>ns'. run_inv x ns' r' \<and> shape ns' = shape ns \<and> (run_live ns r \<longrightarrow> run_live ns' r') \<and>
           run_measure ns' r' < run_measure ns r"
  using assms
proof cases
  case (finished i now out)
  then have i: "i \<in> task_ids r" by (simp add: task_ids_def)
  show ?thesis
  proof (cases "truthy (pool_error out)")
    case True
    then obtain err where "pool_error out = Some err" "err \<noteq> ''''" by (auto simp: truthy_def)
    from break_step [OF assms(2) i this, of now] finished(2) show ?thesis using move_shape(3) by fastforce
  next
    case False
    from finish_step [OF assms(2) i this, of now] finished(2) show ?thesis using move_shape(2) by fastforce
  qed
next
  case (continued i now)
  from after_step [OF assms(2) continued(1), of now] continued(2) show ?thesis by auto
qed

lemma cancel_step_inv:
  assumes "cancel_step x r r'" "run_inv x ns r"
  shows "\<exists>ns'. run_inv x ns' r' \<and> shape ns' = shape ns"
  using assms
proof cases
  case stopped
  with assms(2) show ?thesis by (auto simp: run_inv_def task_ids_def)
next
  case (dropped i)
  then have "run_inv x ns r'"
    using assms(2) by (auto simp: run_inv_def task_dropped_def task_ids_def intro: distinct_map_filter)
  then show ?thesis by blast
next
  case ran
  from run_step_inv [OF this assms(2)] show ?thesis by blast
qed

lemma cancel_steps_inv:
  assumes "(cancel_step x)\<^sup>*\<^sup>* r r'" "run_inv x ns r"
  shows "\<exists>ns'. run_inv x ns' r' \<and> shape ns' = shape ns"
  using assms
proof (induction rule: rtranclp_induct)
  case (step r1 r2)
  then obtain ns1 where "run_inv x ns1 r1" "shape ns1 = shape ns" by blast
  with cancel_step_inv [OF step(2)] show ?case by metis
qed blast

lemma run_steps_inv:
  assumes "((run_step x) ^^ k) r r'" "run_inv x ns r" "run_live ns r"
  shows "\<exists>ns'. run_inv x ns' r' \<and> run_live ns' r' \<and> shape ns' = shape ns \<and> run_measure ns' r' + k \<le> run_measure ns r"
  using assms
proof (induction k arbitrary: r')
  case (Suc k)
  then obtain r1 where "((run_step x) ^^ k) r r1" "run_step x r1 r'" by auto
  with Suc.IH [of r1] Suc.prems(2,3) run_step_inv obtain ns1 ns2 where
    "run_inv x ns1 r1" "run_live ns1 r1" "shape ns1 = shape ns" "run_measure ns1 r1 + k \<le> run_measure ns r"
    "run_inv x ns2 r'" "shape ns2 = shape ns1" "run_live ns2 r'" "run_measure ns2 r' < run_measure ns1 r1" by blast
  then show ?case by (intro exI [of _ ns2]) simp
qed auto

subsection \<open>Order, tables, progress\<close>

text \<open>
  C23: In every state of a run that was started on a sound graph, whatever tasks finish, fail or are
  cancelled and in whatever order their callbacks run: a node that is running, completed or failed has only
  completed dependencies, and a node that is still pending has no failed or cancelled one.
\<close>

theorem nodes_wait_for_dependencies:
  assumes "resumable (dx_nodes x)" "mirrors s (dx_id x) (dx_nodes x)" "start_scheduling now x s = Inr r0"
    and "(cancel_step (dx_id x))\<^sup>*\<^sup>* r0 r"
  shows "\<exists>ns. rn_dag r = from_execution ns \<and>
           map (\<lambda>n. (nd_id n, nd_depends n)) ns = map (\<lambda>n. (nd_id n, nd_depends n)) (dx_nodes x) \<and>
           (\<forall>n \<in> set ns. \<forall>d \<in> set (nd_depends n). \<forall>m \<in> set ns. nd_id m = d \<longrightarrow>
              (nd_status n \<in> {NRunning, NCompleted, NFailed} \<longrightarrow> nd_status m = NCompleted) \<and>
              (nd_status n = NPending \<longrightarrow> nd_status m \<in> {NPending, NRunning, NCompleted}))"
proof -
  obtain ns0 where "run_inv (dx_id x) ns0 r0" "shape ns0 = shape (dx_nodes x)"
    using start_scheduling_ok [OF assms(1,2)] assms(3) by (metis sum.inject(2))
  with cancel_steps_inv [OF assms(4)] obtain ns where ns: "run_inv (dx_id x) ns r" "shape ns = shape (dx_nodes x)" by metis
  then have s: "sound_nodes ns" and g: "rn_dag r = from_execution ns" by (auto simp: run_inv_def)
  note d = sound_distinct [OF s]
  have "(nd_status n \<in> {NRunning, NCompleted, NFailed} \<longrightarrow> nd_status m = NCompleted) \<and>
        (nd_status n = NPending \<longrightarrow> nd_status m \<in> {NPending, NRunning, NCompleted})"
    if n: "n \<in> set ns" "nd_id m \<in> set (nd_depends n)" "m \<in> set ns" for n m
  proof -
    have "(nd_id n, nd_depends n) \<in> set (shape ns)" "(nd_id m, nd_depends m) \<in> set (shape ns)"
      using n(1,3) by (auto simp: shape_def)
    then have "node_sound (status_of ns) (nd_id n) (nd_depends n)" "node_sound (status_of ns) (nd_id m) (nd_depends m)"
      using sound_statusesI [OF s] by (simp_all add: sound_statuses_def)
    from node_soundD(2,3) [OF this(1) _ n(2)] node_soundD(1) [OF this(2)] show ?thesis
      unfolding status_of_eq [OF d n(1)] status_of_eq [OF d n(3)] by (cases "nd_status m") auto
  qed
  with g ns(2) show ?thesis by (intro exI [of _ ns]) (auto simp: shape_def)
qed


text \<open>With no task and no callback left, every node is at its end.\<close>

lemma all_terminal:
  assumes s: "sound_nodes ns" and "\<And>i. status_of ns i \<noteq> Some NRunning" "ready_ids ns = {}"
  shows "\<forall>n \<in> set ns. terminal (nd_status n)"
proof (rule ccontr)
  note d = sound_distinct [OF s]
  assume "\<not> (\<forall>n \<in> set ns. terminal (nd_status n))"
  then obtain n0 where n0: "n0 \<in> set ns" "\<not> terminal (nd_status n0)" by blast
  have pend: "nd_status n = NPending" if "n \<in> set ns" "\<not> terminal (nd_status n)" for n
  proof -
    have "nd_status n \<noteq> NReady" using s that(1) by (simp add: sound_nodes_def)
    moreover have "nd_status n \<noteq> NRunning" using assms(2) [of "nd_id n"] status_of_eq [OF d that(1)] by simp
    ultimately show ?thesis using that(2) by (cases "nd_status n") (simp_all add: terminal_def)
  qed
  have "\<exists>y \<in> pending_ids ns. (y, i) \<in> dependency ns" if "i \<in> pending_ids ns" for i
  proof (rule ccontr)
    assume none: "\<not> (\<exists>y \<in> pending_ids ns. (y, i) \<in> dependency ns)"
    from that obtain n where n: "n \<in> set ns" "nd_id n = i" "nd_status n = NPending"
      using status_of_iff [OF d] by (auto simp: pending_ids_def)
    have "completed_in ns dd" if dd: "dd \<in> set (nd_depends n)" for dd
    proof -
      have e: "(dd, i) \<in> dependency ns" using n dd by (auto simp: dependency_def)
      obtain m where m: "m \<in> set ns" "nd_id m = dd" using sound_closed [OF s] n(1) dd by (auto simp: closed_nodes_def)
      have "\<not> failed_in ns dd" using s n dd by (auto simp: sound_nodes_def)
      moreover have "nd_status m \<noteq> NPending" using none e m status_of_eq [OF d m(1)] by (auto simp: pending_ids_def)
      ultimately have "nd_status m = NCompleted"
        using pend [OF m(1)] m by (cases "nd_status m") (auto simp: terminal_def failed_in_def)
      with m show ?thesis by (auto simp: completed_in_def)
    qed
    then have "i \<in> ready_ids ns" using n by (auto simp: ready_ids_def is_ready_def)
    with assms(3) show False by blast
  qed
  moreover have "pending_ids ns \<noteq> {}" using pend [OF n0] n0(1) status_of_eq [OF d n0(1)] by (auto simp: pending_ids_def)
  ultimately show False using all_have_predecessor_cyclic [OF finite_pending] sound_acyclic [OF s] by blast
qed

lemma live_run_progress:
  assumes inv: "run_inv x ns r" and live: "run_live ns r"
  shows "(\<exists>r'. run_step x r r') \<or> rn_complete r \<and> is_complete (rn_dag r)"
proof (cases "rn_tasks r = [] \<and> rn_tails r = []")
  case True
  have s: "sound_nodes ns" and g: "rn_dag r = from_execution ns" using inv by (auto simp: run_inv_def)
  have "\<forall>n \<in> set ns. terminal (nd_status n)"
    by (rule all_terminal [OF s]) (use live True in \<open>auto simp: run_live_def task_ids_def\<close>)
  moreover from this have "rn_complete r" using live True unfolding run_live_def by blast
  ultimately show ?thesis using g is_complete_list [OF sound_distinct [OF s]] by simp
next
  case False
  then consider i where "i \<in> task_ids r" | i where "i \<in> set (rn_tails r)"
    by (cases "rn_tasks r"; cases "rn_tails r") (auto simp: task_ids_def)
  then show ?thesis
  proof cases
    case 1
    have "\<not> truthy (pool_error (Returned \<lparr>ar_status = TCompleted, ar_result = None, ar_usage = zero_usage, ar_error = None\<rparr>))"
      by (simp add: truthy_def)
    from finish_step [OF inv 1 this, of 0] 1 show ?thesis by (auto simp: task_ids_def intro: run_step.finished)
  next
    case 2
    from after_step [OF inv 2, of 0] 2 show ?thesis by (auto intro: run_step.continued)
  qed
qed

text \<open>
  C24: A run that was started on a sound graph ends: as long as no task is cancelled before it starts, it
  makes at most three steps per node, it never stalls before the completion event is set, and when it can
  go no further every node has completed, failed or been cancelled.
\<close>

theorem run_ends:
  assumes "resumable (dx_nodes x)" "mirrors s (dx_id x) (dx_nodes x)"
  shows "\<exists>r0. start_scheduling now x s = Inr r0 \<and>
    (\<forall>k r. ((run_step (dx_id x)) ^^ k) r0 r \<longrightarrow>
       k \<le> 3 * length (dx_nodes x) \<and>
       ((\<exists>r'. run_step (dx_id x) r r') \<or> rn_complete r \<and> is_complete (rn_dag r)))"
proof -
  obtain r0 ns where r0: "start_scheduling now x s = Inr r0" "run_inv (dx_id x) ns r0" "run_live ns r0"
    "run_measure ns r0 \<le> 3 * length (dx_nodes x)"
    by (rule start_scheduling_ok [OF assms])
  have "k \<le> 3 * length (dx_nodes x) \<and> ((\<exists>r'. run_step (dx_id x) r r') \<or> rn_complete r \<and> is_complete (rn_dag r))"
    if steps: "((run_step (dx_id x)) ^^ k) r0 r" for k r
  proof -
    obtain ns' where ns': "run_inv (dx_id x) ns' r" "run_live ns' r" "run_measure ns' r + k \<le> run_measure ns r0"
      using run_steps_inv [OF steps r0(2,3)] by blast
    with live_run_progress [OF ns'(1,2)] r0(4) show ?thesis by simp
  qed
  with r0(1) show ?thesis by blast
qed

end
