(* ===== verification/Dag_Retry.thy ===== *)
theory Dag_Retry
  imports Dag_Safety
begin

text \<open>
  What the tables of task graphs promise: saved executions and checkpoints are read back, a retry is
  claimed once and resets the targets with everything that failed or was cancelled behind them. Then two
  cases in which a run does not do what it should: a partial retry behind a failed node stalls, and an
  exception without a message counts as success. Examples for the properties of runs stand at the end.
\<close>

section \<open>Reading back\<close>

lemma insert_nodes_Inr:
  "insert_nodes ns s = Inr s' \<Longrightarrow> s' = s\<lparr>ds_nodes := ds_nodes s @ ns\<rparr>"
proof (induction ns arbitrary: s)
  case (Cons n ns)
  then have "insert_nodes ns (s\<lparr>ds_nodes := ds_nodes s @ [n]\<rparr>) = Inr s'" by (auto simp: insert_node_def split: if_split_asm)
  from Cons.IH [OF this] show ?case by simp
qed simp

lemma saved_store:
  assumes "save_dag_execution x s = (Inr (), s')"
  shows "s' = s\<lparr>ds_executions := ds_executions s @ [execution_row x], ds_nodes := ds_nodes s @ bind_nodes x\<rparr>"
    "row_by dx_id (dx_id x) (ds_executions s) = None"
  using assms unfolding save_dag_execution_def atomically_Inr_iff by (auto dest: insert_nodes_Inr split: if_split_asm)

text \<open>
  An execution that was saved is loaded as it was, its nodes bound to it, when the node table held no
  row of that id before.
\<close>

theorem saved_execution_loads:
  assumes "save_dag_execution x s = (Inr (), s')" "dx_id x \<notin> nd_execution ` set (ds_nodes s)"
  shows "get_dag_execution s' (dx_id x) = Some (x\<lparr>dx_nodes := map (\<lambda>n. n\<lparr>nd_execution := dx_id x\<rparr>) (dx_nodes x)\<rparr>)"
proof -
  note s' = saved_store [OF assms(1)]
  have "filter (\<lambda>n. nd_execution n = dx_id x) (ds_nodes s) = []" using assms(2) by (force simp: filter_empty_conv)
  moreover have "filter (\<lambda>n. nd_execution n = dx_id x) (bind_nodes x) = bind_nodes x" by (simp add: bind_nodes_def)
  ultimately have n: "get_dag_nodes s' (dx_id x) = bind_nodes x" by (simp add: s'(1) get_dag_nodes_def)
  have "row_by dx_id (dx_id x) (ds_executions s') = Some (execution_row x)"
    using s'(2) by (simp add: s'(1) row_by_append execution_row_def)
  then show ?thesis unfolding get_dag_execution_def n
    by (cases x) (simp add: row_to_dag_execution_def execution_row_def bind_nodes_def)
qed

lemma saved_mirrors:
  assumes "save_dag_execution x s = (Inr (), s')" "dx_id x \<notin> nd_execution ` set (ds_nodes s)" "distinct (map nd_id (dx_nodes x))"
  shows "mirrors s' (dx_id x) (dx_nodes x)"
  unfolding mirrors_iff [OF assms(3)]
proof
  fix n assume n: "n \<in> set (dx_nodes x)"
  let ?n = "n\<lparr>nd_execution := dx_id x\<rparr>"
  have "map node_key (bind_nodes x) = map (\<lambda>i. (dx_id x, i)) (map nd_id (dx_nodes x))"
    by (simp add: bind_nodes_def node_key_def comp_def)
  then have "distinct (map node_key (bind_nodes x))" using assms(3) by (simp add: distinct_map inj_on_def)
  then have "row_by node_key (node_key ?n) (bind_nodes x) = Some ?n"
    by (rule row_by_unique) (use n in \<open>auto simp: bind_nodes_def\<close>)
  moreover have "row_by node_key (node_key ?n) (ds_nodes s) = None"
    using assms(2) by (auto simp: row_by_None_iff node_key_def)
  ultimately show "stored_status s' (dx_id x) (nd_id n) = Some (nd_status n)"
    by (simp add: stored_status_def saved_store(1) [OF assms(1)] row_by_append node_key_def)
qed

section \<open>The reset set\<close>

definition retry_edge :: "dag_node list \<Rightarrow> (string \<times> string) set" where
  "retry_edge rows = {(d, nd_id r) | d r. r \<in> set rows \<and> d \<in> set (nd_depends r) \<and> retryable (nd_status r)}"

lemma retry_edge_Cons:
  "retry_edge (row # rows) = {(d, nd_id row) | d. d \<in> set (nd_depends row) \<and> retryable (nd_status row)} \<union> retry_edge rows"
  by (auto simp: retry_edge_def)

lemma reset_pass_reaches:
  assumes "reset_pass rows r c = (r', c')" "set r \<subseteq> R" "retry_edge rows `` R \<subseteq> R"
  shows "set r' \<subseteq> R"
  using assms
proof (induction rows r c arbitrary: r' c' rule: reset_pass.induct)
  case (2 row rows r c)
  have e: "retry_edge rows `` R \<subseteq> R" using "2.prems"(3) by (auto simp: retry_edge_Cons)
  show ?case
  proof (cases "nd_id row \<in> set r \<or> \<not> retryable (nd_status row)")
    case True
    with "2.IH"(1) [of r' c'] "2.prems" e show ?thesis by simp
  next
    case no: False
    show ?thesis
    proof (cases "list_ex (\<lambda>d. d \<in> set r) (nd_depends row)")
      case True
      then obtain d where "d \<in> R" "d \<in> set (nd_depends row)" using "2.prems"(2) by (auto simp: list_ex_iff)
      then have "nd_id row \<in> R" using no "2.prems"(3) by (auto simp: retry_edge_Cons)
      with no True "2.IH"(2) [of r' c'] "2.prems" e show ?thesis by simp
    next
      case False
      with no "2.IH"(3) [of r' c'] "2.prems" e show ?thesis by simp
    qed
  qed
qed simp

lemma reset_pass_closed:
  assumes "reset_pass rows r c = (r', False)"
  shows "retry_edge rows `` set r \<subseteq> set r"
  using assms
proof (induction rows r c arbitrary: r' rule: reset_pass.induct)
  case (1 r c)
  then show ?case by (simp add: retry_edge_def)
next
  case (2 row rows r c)
  have no_add: "nd_id row \<in> set r \<or> \<not> retryable (nd_status row) \<or> \<not> list_ex (\<lambda>d. d \<in> set r) (nd_depends row)"
    using "2.prems" reset_pass_grows [of rows "nd_id row # r" True r' False] by auto
  then have "retry_edge rows `` set r \<subseteq> set r"
    using "2.IH"(1,3) [of r'] "2.prems"
    by (cases "nd_id row \<in> set r \<or> \<not> retryable (nd_status row)") simp_all
  with no_add show ?case by (auto simp: retry_edge_Cons list_ex_iff)
qed

lemma reset_closure_least:
  "set ts \<subseteq> R \<Longrightarrow> retry_edge rows `` R \<subseteq> R \<Longrightarrow> set (reset_closure rows ts) \<subseteq> R"
proof (induction rows ts rule: reset_closure.induct)
  case (1 rows ts)
  obtain r' c where p: "reset_pass rows ts False = (r', c)" by force
  have "set r' \<subseteq> R" by (rule reset_pass_reaches [OF p "1.prems"])
  with "1.IH" [OF p [symmetric]] "1.prems"(2) show ?case by (simp add: reset_closure.simps [of rows ts] p)
qed

lemma reset_closure_fixpoint:
  "set ts \<subseteq> set (reset_closure rows ts) \<and> retry_edge rows `` set (reset_closure rows ts) \<subseteq> set (reset_closure rows ts)"
proof (induction rows ts rule: reset_closure.induct)
  case (1 rows ts)
  obtain r' c where p: "reset_pass rows ts False = (r', c)" by force
  note g = reset_pass_grows [OF p]
  show ?case
  proof (cases c)
    case True
    then show ?thesis using "1.IH" [OF p [symmetric] True] g by (auto simp: reset_closure.simps [of rows ts] p)
  next
    case False
    then have "r' = ts" "reset_closure rows ts = ts" using g by (simp_all add: reset_closure.simps [of rows ts] p)
    then show ?thesis using reset_pass_closed [of rows ts False r'] p False by simp
  qed
qed

lemma reset_closure_set: "set (reset_closure rows ts) = (retry_edge rows)\<^sup>* `` set ts"
proof
  show "set (reset_closure rows ts) \<subseteq> (retry_edge rows)\<^sup>* `` set ts"
    by (rule reset_closure_least) (auto intro: rtrancl_into_rtrancl)
  note f = reset_closure_fixpoint [of ts rows]
  have "c \<in> set (reset_closure rows ts)" if "(t, c) \<in> (retry_edge rows)\<^sup>*" "t \<in> set ts" for t c
    using that by (induction rule: rtrancl_induct) (use f in auto)
  then show "(retry_edge rows)\<^sup>* `` set ts \<subseteq> set (reset_closure rows ts)" by auto
qed

section \<open>Claims\<close>

lemma claim_dag_retry_Some:
  assumes "claim_dag_retry i old new from_ids s = (Inr (Some ids), s')" "ids \<noteq> []"
  obtains x targets where "row_by dx_id i (ds_executions s) = Some x" "retry_claimable i old x"
    "retry_targets (get_dag_nodes s i) from_ids = Inr targets" "targets \<noteq> []"
    "retry_root_ok s (dx_edict x) old new"
    "ids = sorted_list_of_set (set (reset_closure (get_dag_nodes s i) targets))"
    "s' = s\<lparr>ds_executions := update_rows (retry_claimable i old)
               (\<lambda>r. r\<lparr>dx_root := Some new, dx_status := ''pending'', dx_completed := None\<rparr>) (ds_executions s),
            ds_nodes := update_rows (\<lambda>n. nd_execution n = i \<and> nd_id n \<in> set ids) reset_node (ds_nodes s)\<rparr>"
proof -
  obtain x where x: "row_by dx_id i (ds_executions s) = Some x" "retry_claimable i old x"
    using assms(1) by (auto simp: claim_dag_retry_def split: option.split_asm if_split_asm)
  obtain t ts where t: "retry_targets (get_dag_nodes s i) from_ids = Inr (t # ts)"
    using assms x by (cases "retry_targets (get_dag_nodes s i) from_ids")
      (auto simp: claim_dag_retry_def split: list.split_asm)
  have r: "retry_root_ok s (dx_edict x) old new"
    using assms(1) x t by (simp add: claim_dag_retry_def split: if_split_asm)
  show thesis
    by (rule that [OF x t _ r]) (use assms(1) x t r in \<open>auto simp: claim_dag_retry_def Let_def split: if_split_asm\<close>)
qed

text \<open>
  A retry is claimed at most once: once a claim has succeeded, every claim that expects the same old
  root fails and changes nothing. The claim moves the execution to its new root and resets exactly the
  targets and the failed or cancelled nodes that depend on them through such nodes.
\<close>

theorem retry_claimed_once:
  assumes "claim_dag_retry i old new from_ids s = (Inr (Some ids), s')" "ids \<noteq> []"
  shows "claim_dag_retry i old new' from_ids' s' = (Inr None, s') \<and>
    (\<exists>targets. retry_targets (get_dag_nodes s i) from_ids = Inr targets \<and>
       set ids = {(d, nd_id r) | d r. r \<in> set (get_dag_nodes s i) \<and> d \<in> set (nd_depends r) \<and>
                    nd_status r \<in> {NFailed, NCancelled}}\<^sup>* `` set targets) \<and>
    ds_nodes s' = map (\<lambda>n. if nd_execution n = i \<and> nd_id n \<in> set ids then reset_node n else n) (ds_nodes s)"
proof -
  obtain x targets where x: "row_by dx_id i (ds_executions s) = Some x" "retry_claimable i old x"
    and t: "retry_targets (get_dag_nodes s i) from_ids = Inr targets"
    and ids: "ids = sorted_list_of_set (set (reset_closure (get_dag_nodes s i) targets))"
    and s': "s' = s\<lparr>ds_executions := update_rows (retry_claimable i old)
               (\<lambda>r. r\<lparr>dx_root := Some new, dx_status := ''pending'', dx_completed := None\<rparr>) (ds_executions s),
            ds_nodes := update_rows (\<lambda>n. nd_execution n = i \<and> nd_id n \<in> set ids) reset_node (ds_nodes s)\<rparr>"
    by (rule claim_dag_retry_Some [OF assms])
  have "row_by dx_id i (ds_executions s') = Some (x\<lparr>dx_root := Some new, dx_status := ''pending'', dx_completed := None\<rparr>)"
    using x by (simp add: s' row_by_update_rows)
  then have c: "claim_dag_retry i old new' from_ids' s' = (Inr None, s')" by (simp add: claim_dag_retry_def retry_claimable_def)
  have e: "retry_edge rows = {(d, nd_id r) | d r. r \<in> set rows \<and> d \<in> set (nd_depends r) \<and> nd_status r \<in> {NFailed, NCancelled}}" for rows
    by (auto simp: retry_edge_def retryable_def)
  have "set ids = set (reset_closure (get_dag_nodes s i) targets)" unfolding ids by simp
  then have k: "set ids = (retry_edge (get_dag_nodes s i))\<^sup>* `` set targets" unfolding reset_closure_set .
  have n: "ds_nodes s' = map (\<lambda>n. if nd_execution n = i \<and> nd_id n \<in> set ids then reset_node n else n) (ds_nodes s)"
    by (simp add: s' update_rows_def)
  from c n t k [unfolded e] show ?thesis by blast
qed

section \<open>Where a run goes wrong\<close>

text \<open>
  A run stalls when every open node has a failed or cancelled dependency: nothing is started, no step
  is possible and the completion event, which the caller waits for, is never set. A retry of selected nodes
  leads there when a dependency of the selected nodes has failed and is not selected.
\<close>

theorem blocked_nodes_stall:
  assumes "validate_dag_structure (dx_nodes x) = Inr ()"
    and "\<forall>n \<in> set (dx_nodes x). terminal (nd_status n) \<or>
           nd_status n = NPending \<and> (\<exists>d \<in> set (nd_depends n). \<exists>m \<in> set (dx_nodes x). nd_id m = d \<and> nd_status m \<in> {NFailed, NCancelled})"
    and "\<exists>n \<in> set (dx_nodes x). \<not> terminal (nd_status n)"
  shows "\<exists>r. start_scheduling now x s = Inr r \<and> \<not> rn_complete r \<and> rn_tasks r = [] \<and> \<not> (\<exists>r'. run_step (dx_id x) r r')"
proof -
  let ?ns = "dx_nodes x"
  have c: "closed_nodes ?ns" using assms(1) by (rule validate_closed)
  then have d: "distinct (map nd_id ?ns)" by (simp add: closed_nodes_def)
  define r0 where "r0 = (fold (recover_node s (dx_id x)) ?ns
     \<lparr>rn_dag = from_execution ?ns, rn_store = s, rn_results = [], rn_usage = [], rn_tasks = [], rn_tails = [],
      rn_stopping = False, rn_complete = False, rn_events = []\<rparr>)
     \<lparr>rn_store := update_dag_execution_status (dx_id x) ''running'' None s, rn_events := [(''dag.started'', '''')]\<rparr>"
  have f: "rn_dag r0 = from_execution ?ns" "rn_tasks r0 = []" "rn_tails r0 = []" "\<not> rn_stopping r0"
    by (simp_all add: r0_def recover_fields)
  have "\<not> is_ready ?ns n" if n: "n \<in> set ?ns" for n
  proof
    assume r: "is_ready ?ns n"
    then have "nd_status n = NPending" by (simp add: is_ready_def)
    with assms(2) n obtain m where m: "m \<in> set ?ns" "nd_id m \<in> set (nd_depends n)" "nd_status m \<in> {NFailed, NCancelled}"
      by (auto simp: terminal_def)
    with r have "completed_in ?ns (nd_id m)" by (simp add: is_ready_def)
    with m(3) completed_in_update(1) [OF d m(1)] show False by auto
  qed
  then have none: "filter (is_ready ?ns) ?ns = []" by (simp add: filter_empty_conv)
  let ?r = "r0\<lparr>rn_dag := from_execution (start_nodes now (ready_ids ?ns) ?ns)\<rparr>"
  have "schedule_ready now (dx_id x) r0 = Inr ?r"
    using schedule_ready_list [OF f(1) c f(4), of now "dx_id x"] by (simp add: none)
  moreover have "ready_ids ?ns = {}" by (simp add: ready_ids_def none del: filter_empty_conv)
  ultimately have "schedule_ready now (dx_id x) r0 = Inr r0" using f(1) by simp
  then have "start_scheduling now x s = Inr (r0\<lparr>rn_complete := False\<rparr>)"
    using assms(3) f is_complete_list [OF d] by (simp add: start_scheduling_def r0_def [symmetric] Let_def)
  moreover have "\<not> (\<exists>r'. run_step (dx_id x) (r0\<lparr>rn_complete := False\<rparr>) r')"
    using f by (auto elim!: run_step.cases)
  ultimately show ?thesis using f by (intro exI [of _ "r0\<lparr>rn_complete := False\<rparr>"]) simp
qed

text \<open>
  An exception whose text is empty counts as success: the pool hands the callback the empty string, which
  the callback takes for no error. The node is completed, and so are the conditions of its dependents.
\<close>

theorem empty_error_completes_node:
  assumes "resumable (dx_nodes x)" "mirrors s (dx_id x) (dx_nodes x)" "start_scheduling now x s = Inr r0"
    and "(cancel_step (dx_id x))\<^sup>*\<^sup>* r0 r" "i \<in> wi_node ` set (rn_tasks r)"
  shows "\<exists>r' n. node_finished later (dx_id x) i (Raised '''') r = Inr r' \<and> (i, n) \<in> set (dg_nodes (rn_dag r')) \<and>
           nd_status n = NCompleted"
proof -
  obtain ns0 where "run_inv (dx_id x) ns0 r0"
    using start_scheduling_ok [OF assms(1,2)] assms(3) by (metis sum.inject(2))
  with cancel_steps_inv [OF assms(4)] obtain ns where ns: "run_inv (dx_id x) ns r" by metis
  have i: "i \<in> task_ids r" using assms(5) by (simp add: task_ids_def)
  have "\<not> truthy (pool_error (Raised ''''))" by (simp add: truthy_def)
  from finish_step [OF ns i this, of later] obtain r' where r': "node_finished later (dx_id x) i (Raised '''') r = Inr r'"
    "run_inv (dx_id x) (finish_node i ns) r'" by blast
  then have f: "rn_dag r' = from_execution (finish_node i ns)" "distinct (map nd_id (finish_node i ns))"
    using sound_distinct by (auto simp: run_inv_def simp del: ids_finish)
  have "status_of (finish_node i ns) i = Some NCompleted"
    using ns i by (simp add: status_finish run_inv_def)
  then obtain n where "n \<in> set (finish_node i ns)" "nd_id n = i" "nd_status n = NCompleted" using status_of_iff [OF f(2)] by blast
  with r'(1) f show ?thesis by (intro exI [of _ r'] exI [of _ n]) (auto simp: from_execution_distinct)
qed

section \<open>Checkpoints\<close>

lemma row_of_saved_checkpoint:
  assumes "row_by node_key (x, i) (ds_nodes s) = Some n" "distinct (map node_key (ds_nodes s))"
  shows "filter (\<lambda>n. nd_id n = i \<and> nd_checkpoint n \<noteq> None) (get_dag_nodes (update_dag_node_checkpoint x i (Some c) s) x) =
         [n\<lparr>nd_checkpoint := Some c\<rparr>]"
proof -
  have n: "n \<in> set (ds_nodes s)" "nd_execution n = x" "nd_id n = i" using row_by_SomeD [OF assms(1)] by (auto simp: node_key_def)
  obtain as bs where ns: "ds_nodes s = as @ n # bs" using split_list [OF n(1)] by blast
  have other: "\<not> (nd_execution m = x \<and> nd_id m = i)" if "m \<in> set as \<union> set bs" for m
    using assms(2) that n(2,3) by (auto simp: ns node_key_def image_iff)
  have "update_rows (\<lambda>n. nd_execution n = x \<and> nd_id n = i) f ms = ms" if "set ms \<subseteq> set as \<union> set bs" for f ms
    unfolding update_rows_def by (rule map_idI, rule if_not_P, rule other) (use that in blast)
  then have "ds_nodes (update_dag_node_checkpoint x i (Some c) s) = as @ n\<lparr>nd_checkpoint := Some c\<rparr> # bs"
    using n by (simp add: update_dag_node_checkpoint_def update_node_rows_def ns update_rows_def)
  moreover have "filter (\<lambda>n. nd_execution n = x \<and> nd_id n = i \<and> nd_checkpoint n \<noteq> None) ms = []"
    if "set ms \<subseteq> set as \<union> set bs" for ms
    unfolding filter_empty_conv using other that by blast
  ultimately show ?thesis using n by (simp add: get_dag_nodes_def)
qed

text \<open>
  A checkpoint that was saved for a node of the table is loaded as it was, as long as loading a dumped
  usage summary gives that summary back; after it was cleared, none is found.
\<close>

theorem checkpoint_roundtrip:
  assumes "row_by node_key (x, i) (ds_nodes s) = Some n" "distinct (map node_key (ds_nodes s))"
    and "read_usage (dump (cp_usage c)) = Inr (cp_usage c)"
  shows "load_checkpoint read_usage x i (save_checkpoint dump x i c s) = Inr (Some c) \<and>
         load_checkpoint read_usage x i (clear_checkpoint x i (save_checkpoint dump x i c s)) = Inr None"
proof
  have "checkpoint_from_json read_usage (checkpoint_to_json dump c) = Inr c"
    using assms(3) by (simp add: checkpoint_from_json_def checkpoint_to_json_def subscript_def)
  with row_of_saved_checkpoint [OF assms(1,2)] show "load_checkpoint read_usage x i (save_checkpoint dump x i c s) = Inr (Some c)"
    by (simp add: load_checkpoint_def save_checkpoint_def)
  have "filter (\<lambda>n. nd_id n = i \<and> nd_checkpoint n \<noteq> None) (get_dag_nodes (clear_checkpoint x i t) x) = []" for t
  proof -
    have "\<not> (nd_id m = i \<and> nd_checkpoint m \<noteq> None)" if "m \<in> set (get_dag_nodes (clear_checkpoint x i t) x)" for m
    proof -
      from that have "nd_execution m = x"
        "m \<in> set (update_rows (\<lambda>n. nd_execution n = x \<and> nd_id n = i) (\<lambda>n. n\<lparr>nd_checkpoint := None\<rparr>) (ds_nodes t))"
        by (simp_all add: clear_checkpoint_def update_dag_node_checkpoint_def update_node_rows_def get_dag_nodes_def)
      then obtain m' where "nd_execution m = x" "m = (if nd_execution m' = x \<and> nd_id m' = i then m'\<lparr>nd_checkpoint := None\<rparr> else m')"
        unfolding set_update_rows by blast
      then show ?thesis by (cases "nd_execution m' = x \<and> nd_id m' = i") auto
    qed
    then show ?thesis unfolding filter_empty_conv by blast
  qed
  then show "load_checkpoint read_usage x i (clear_checkpoint x i (save_checkpoint dump x i c s)) = Inr None"
    by (simp add: load_checkpoint_def)
qed

section \<open>Examples\<close>

definition demo_dag :: dag_execution where
  "demo_dag =
     \<lparr>dx_id = ''x'', dx_edict = ''e'', dx_plan = None, dx_status = ''pending'', dx_root = Some ''m1'',
      dx_max_concurrency = 2, dx_created = 0, dx_completed = None, dx_nodes = diamond\<rparr>"

definition empty_dag_store :: dag_store where
  "empty_dag_store = \<lparr>ds_executions = [], ds_nodes = [], ds_memorials = []\<rparr>"

definition demo_dag_store :: dag_store where
  "demo_dag_store = snd (save_dag_execution demo_dag empty_dag_store)"

lemma demo_saved: "save_dag_execution demo_dag empty_dag_store = (Inr (), demo_dag_store)"
proof -
  have "fst (save_dag_execution demo_dag empty_dag_store) = Inr ()" by code_simp
  then show ?thesis by (cases "save_dag_execution demo_dag empty_dag_store") (simp add: demo_dag_store_def)
qed

lemma demo_resumable: "resumable (dx_nodes demo_dag)"
proof (rule fresh_resumable)
  show "validate_dag_structure (dx_nodes demo_dag) = Inr ()" by code_simp
  show "\<forall>n \<in> set (dx_nodes demo_dag). nd_status n = NPending" by code_simp
qed

lemma demo_mirrors: "mirrors demo_dag_store (dx_id demo_dag) (dx_nodes demo_dag)"
proof (rule saved_mirrors [OF demo_saved])
  show "dx_id demo_dag \<notin> nd_execution ` set (ds_nodes empty_dag_store)" by (simp add: empty_dag_store_def)
  show "distinct (map nd_id (dx_nodes demo_dag))" by code_simp
qed

definition demo_dag_run :: dag_run where
  "demo_dag_run = (case start_scheduling 5 demo_dag demo_dag_store of Inr r \<Rightarrow> r)"

lemma demo_started: "start_scheduling 5 demo_dag demo_dag_store = Inr demo_dag_run"
  by (rule start_scheduling_ok [OF demo_resumable demo_mirrors, of 5]) (simp add: demo_dag_run_def)

theorem nodes_wait_for_dependencies_witness:
  "start_scheduling 5 demo_dag demo_dag_store = Inr demo_dag_run \<and>
   (\<exists>ns. rn_dag demo_dag_run = from_execution ns \<and>
           map (\<lambda>n. (nd_id n, nd_depends n)) ns = map (\<lambda>n. (nd_id n, nd_depends n)) (dx_nodes demo_dag) \<and>
           (\<forall>n \<in> set ns. \<forall>d \<in> set (nd_depends n). \<forall>m \<in> set ns. nd_id m = d \<longrightarrow>
              (nd_status n \<in> {NRunning, NCompleted, NFailed} \<longrightarrow> nd_status m = NCompleted) \<and>
              (nd_status n = NPending \<longrightarrow> nd_status m \<in> {NPending, NRunning, NCompleted})))"
  using nodes_wait_for_dependencies [OF demo_resumable demo_mirrors demo_started rtranclp.rtrancl_refl] demo_started by blast


theorem run_ends_witness:
  "\<exists>r0. start_scheduling 5 demo_dag demo_dag_store = Inr r0 \<and>
    (\<forall>k r. ((run_step (dx_id demo_dag)) ^^ k) r0 r \<longrightarrow>
       k \<le> 3 * length (dx_nodes demo_dag) \<and>
       ((\<exists>r'. run_step (dx_id demo_dag) r r') \<or> rn_complete r \<and> is_complete (rn_dag r)))"
  by (rule run_ends [OF demo_resumable demo_mirrors])

theorem saved_execution_loads_witness:
  "get_dag_execution demo_dag_store ''x'' = Some (demo_dag\<lparr>dx_nodes := map (\<lambda>n. n\<lparr>nd_execution := ''x''\<rparr>) diamond\<rparr>)"
  using saved_execution_loads [OF demo_saved] by (simp add: demo_dag_def empty_dag_store_def)

theorem empty_error_completes_node_witness:
  "''a'' \<in> wi_node ` set (rn_tasks demo_dag_run) \<and>
   (\<exists>r' n. node_finished 7 (dx_id demo_dag) ''a'' (Raised '''') demo_dag_run = Inr r' \<and>
      (''a'', n) \<in> set (dg_nodes (rn_dag r')) \<and> nd_status n = NCompleted)"
proof -
  have a: "''a'' \<in> wi_node ` set (rn_tasks demo_dag_run)" by code_simp
  from empty_error_completes_node [OF demo_resumable demo_mirrors demo_started rtranclp.rtrancl_refl a, of 7] a show ?thesis by blast
qed

text \<open>
  A graph of three nodes after a failed run: the first failed, the second was cancelled with it, the third
  had completed. The old root \<open>m1\<close> has failed, the new root \<open>m2\<close> is submitted.
\<close>

definition demo_memorial :: "string \<Rightarrow> task_status \<Rightarrow> string option \<Rightarrow> int \<Rightarrow> memorial_row" where
  "demo_memorial i st p k =
     \<lparr>mem_id = i, mem_edict = ''e'', mem_status = st, mem_dag_node = None, mem_summary = None, mem_result = None,
      mem_final_output = None, mem_usage = None, mem_reasoning = None, mem_error = None, mem_failure_reason = None,
      mem_completed = None, mem_instruction = ''g'', mem_parent = p, mem_attempt = k, mem_created = 0,
      mem_runtime_override = None, mem_acceptance_override = None\<rparr>"

definition failed_store :: dag_store where
  "failed_store =
     \<lparr>ds_executions = [\<lparr>dx_id = ''x'', dx_edict = ''e'', dx_plan = None, dx_status = ''failed'', dx_root = Some ''m1'',
                         dx_max_concurrency = 2, dx_created = 0, dx_completed = Some 9\<rparr>],
      ds_nodes = [(example_node ''a'' [])\<lparr>nd_execution := ''x'', nd_status := NFailed\<rparr>,
                  (example_node ''b'' [''a''])\<lparr>nd_execution := ''x'', nd_status := NCancelled\<rparr>,
                  (example_node ''c'' [])\<lparr>nd_execution := ''x'', nd_status := NCompleted\<rparr>],
      ds_memorials = [demo_memorial ''m1'' TFailed None 1, demo_memorial ''m2'' TSubmitted (Some ''m1'') 2]\<rparr>"

definition retried_store :: dag_store where
  "retried_store = snd (claim_dag_retry ''x'' ''m1'' ''m2'' (Some [''b'']) failed_store)"

lemma demo_retry_claim: "claim_dag_retry ''x'' ''m1'' ''m2'' (Some [''b'']) failed_store = (Inr (Some [''b'']), retried_store)"
proof -
  have "fst (claim_dag_retry ''x'' ''m1'' ''m2'' (Some [''b'']) failed_store) = Inr (Some [''b''])" by code_simp
  then show ?thesis
    by (cases "claim_dag_retry ''x'' ''m1'' ''m2'' (Some [''b'']) failed_store") (simp add: retried_store_def)
qed

theorem retry_claimed_once_witness:
  "claim_dag_retry ''x'' ''m1'' ''m2'' (Some [''b'']) failed_store = (Inr (Some [''b'']), retried_store) \<and>
   claim_dag_retry ''x'' ''m1'' ''m3'' None retried_store = (Inr None, retried_store)"
  using retry_claimed_once [OF demo_retry_claim, of "''m3''" None] demo_retry_claim by simp

theorem blocked_nodes_stall_witness:
  "claim_dag_retry ''x'' ''m1'' ''m2'' (Some [''b'']) failed_store = (Inr (Some [''b'']), retried_store) \<and>
   (\<exists>x r. get_dag_execution retried_store ''x'' = Some x \<and> start_scheduling 20 x retried_store = Inr r \<and>
      \<not> rn_complete r \<and> rn_tasks r = [] \<and> \<not> (\<exists>r'. run_step (dx_id x) r r'))"
proof -
  obtain x where x: "get_dag_execution retried_store ''x'' = Some x" and e: "x = the (get_dag_execution retried_store ''x'')"
  proof -
    have "get_dag_execution retried_store ''x'' \<noteq> None" by code_simp
    then show thesis using that by auto
  qed
  have "\<exists>r. start_scheduling 20 x retried_store = Inr r \<and> \<not> rn_complete r \<and> rn_tasks r = [] \<and> \<not> (\<exists>r'. run_step (dx_id x) r r')"
    by (rule blocked_nodes_stall; unfold e; code_simp)
  with x demo_retry_claim show ?thesis by blast
qed

definition demo_dump :: "usage_summary \<Rightarrow> json" where
  "demo_dump u =
     JList [JInt (us_prompt_tokens u), JInt (us_completion_tokens u), JInt (us_total_tokens u), JInt (us_cache_read_tokens u)]"

definition demo_load :: "json \<Rightarrow> usage_summary result" where
  "demo_load j =
     (case j of
        JList [JInt a, JInt b, JInt c, JInt d] \<Rightarrow>
          Inr (zero_usage\<lparr>us_prompt_tokens := a, us_completion_tokens := b, us_total_tokens := c, us_cache_read_tokens := d\<rparr>)
      | _ \<Rightarrow> Inl (ValueError ''usage''))"

definition demo_checkpoint :: checkpoint where
  "demo_checkpoint = \<lparr>cp_iteration = JInt 3, cp_messages = JList [JStr ''hi''], cp_usage = zero_usage\<lparr>us_total_tokens := 42\<rparr>\<rparr>"

theorem checkpoint_roundtrip_witness:
  "load_checkpoint demo_load ''x'' ''b'' (save_checkpoint demo_dump ''x'' ''b'' demo_checkpoint failed_store) = Inr (Some demo_checkpoint) \<and>
   load_checkpoint demo_load ''x'' ''b'' (clear_checkpoint ''x'' ''b'' (save_checkpoint demo_dump ''x'' ''b'' demo_checkpoint failed_store)) = Inr None"
proof (rule checkpoint_roundtrip)
  show "row_by node_key (''x'', ''b'') (ds_nodes failed_store) =
    Some ((example_node ''b'' [''a''])\<lparr>nd_execution := ''x'', nd_status := NCancelled\<rparr>)" by code_simp
  show "distinct (map node_key (ds_nodes failed_store))" by code_simp
  show "demo_load (demo_dump (cp_usage demo_checkpoint)) = Inr (cp_usage demo_checkpoint)"
    by (simp add: demo_load_def demo_dump_def demo_checkpoint_def zero_usage_def)
qed

end
