(* ===== verification/Python_Lib.thy ===== *)
theory Python_Lib
  imports Canonical Failure_Reason
begin

text \<open>
  What the tool policy uses of Python's standard library: truth of a JSON value, \<open>str.split\<close>, \<open>str.upper\<close>,
  \<open>str.partition\<close>, \<open>os.path.dirname\<close>, \<open>fnmatch.fnmatchcase\<close> (which \<open>fnmatch.fnmatch\<close> is on POSIX),
  \<open>json.dumps\<close> with its default separators, the parsing of POSIX paths by \<open>pathlib\<close> and the host of
  \<open>urllib.parse.urlparse\<close>.
\<close>

section \<open>Truth and text\<close>

text \<open>\<open>bool(v)\<close> for a JSON value.\<close>

fun truthy :: "json \<Rightarrow> bool" where
  "truthy JNull = False"
| "truthy (JBool b) = b"
| "truthy (JInt i) = (i \<noteq> 0)"
| "truthy (JFloat t) = (t \<notin> {''0.0'', ''-0.0''})"
| "truthy (JStr s) = (s \<noteq> [])"
| "truthy (JList vs) = (vs \<noteq> [])"
| "truthy (JObj kvs) = (kvs \<noteq> [])"

type_synonym args = "(string \<times> json) list"

text \<open>
  \<open>args.get(key) or default\<close> where the code goes on to call a method of \<open>str\<close>: \<open>None\<close> stands for the
  \<open>AttributeError\<close> that a true value of another type gives.
\<close>

definition str_arg :: "args \<Rightarrow> string \<Rightarrow> string \<Rightarrow> string option" where
  "str_arg args key dflt =
     (case map_of args key of
        None \<Rightarrow> Some dflt
      | Some v \<Rightarrow> if \<not> truthy v then Some dflt else (case v of JStr s \<Rightarrow> Some s | _ \<Rightarrow> None))"

text \<open>\<open>str.split()\<close>: the words between runs of white space.\<close>

fun split_loop_ws :: "string \<Rightarrow> string \<Rightarrow> string list" where
  "split_loop_ws w [] = (if w = [] then [] else [w])"
| "split_loop_ws w (c # cs) =
     (if is_space c then (if w = [] then [] else [w]) @ split_loop_ws [] cs else split_loop_ws (w @ [c]) cs)"

definition split_ws :: "string \<Rightarrow> string list" where
  "split_ws s = split_loop_ws [] s"

text \<open>\<open>' '.join\<close>\<close>

definition join_sp :: "string list \<Rightarrow> string" where
  "join_sp = join_with (CHR '' '')"

text \<open>\<open>str.split(sep)\<close> for a one-character separator, and \<open>str.partition\<close> / \<open>str.rpartition\<close>.\<close>

fun split_on :: "char \<Rightarrow> string \<Rightarrow> string list" where
  "split_on c [] = [[]]"
| "split_on c (d # ds) = (if d = c then [] # split_on c ds
     else (case split_on c ds of [] \<Rightarrow> [[d]] | w # ws \<Rightarrow> (d # w) # ws))"

definition before :: "char \<Rightarrow> string \<Rightarrow> string" where
  "before c s = takeWhile (\<lambda>d. d \<noteq> c) s"

definition after :: "char \<Rightarrow> string \<Rightarrow> string" where
  "after c s = tl (dropWhile (\<lambda>d. d \<noteq> c) s)"

definition after_last :: "char \<Rightarrow> string \<Rightarrow> string" where
  "after_last c s = rev (takeWhile (\<lambda>d. d \<noteq> c) (rev s))"

text \<open>
  \<open>str.upper\<close>. Of the code points below 256, the micro sign and y with diaeresis have capitals above 255;
  they are left as they are here, and no comparison of the code tells the difference.
\<close>

definition upper_char :: "char \<Rightarrow> string" where
  "upper_char c =
     (let n = of_char c :: nat
      in if 97 \<le> n \<and> n \<le> 122 \<or> 224 \<le> n \<and> n \<le> 254 \<and> n \<noteq> 247 then [char_of (n - 32)]
         else if n = 223 then ''SS'' else [c])"

definition upper :: "string \<Rightarrow> string" where
  "upper s = concat (map upper_char s)"

text \<open>\<open>os.path.dirname\<close> on POSIX.\<close>

definition dirname :: "string \<Rightarrow> string" where
  "dirname p =
     (let head = take (length p - length (after_last (CHR ''/'') p)) p
      in if list_all (\<lambda>c. c = CHR ''/'') head then head
         else rev (dropWhile (\<lambda>c. c = CHR ''/'') (rev head)))"

section \<open>Dictionaries in insertion order\<close>

text \<open>\<open>d[k] = v\<close>: the value of a key that is there is replaced in place, a new key goes to the end.\<close>

fun dict_set :: "string \<Rightarrow> 'v \<Rightarrow> (string \<times> 'v) list \<Rightarrow> (string \<times> 'v) list" where
  "dict_set k v [] = [(k, v)]"
| "dict_set k v ((k', v') # kvs) = (if k' = k then (k, v) # kvs else (k', v') # dict_set k v kvs)"

lemma dict_set_set: "distinct (map fst d) \<Longrightarrow> set (dict_set k v d) = {(k, v)} \<union> {e \<in> set d. fst e \<noteq> k}"
proof (induction d)
  case Nil
  then show ?case by simp
next
  case (Cons e d)
  then show ?case by (cases e; cases "fst e = k") (auto simp: image_iff)
qed

lemma dict_set_distinct: "distinct (map fst d) \<Longrightarrow> distinct (map fst (dict_set k v d))"
proof (induction d)
  case Nil
  then show ?case by simp
next
  case (Cons e d)
  then show ?case by (cases e) (auto simp: dict_set_set)
qed

section \<open>fnmatch\<close>

text \<open>
  A pattern is a list of items. In a bracket expression a leading \<open>!\<close> negates, a bracket directly after
  the opening one (or after the \<open>!\<close>) is literal, \<open>a-c\<close> is a range, and an opening bracket that is never closed is
  literal, as \<open>fnmatch.translate\<close> has it.
\<close>

datatype glob_item = Star | AnyChar | Lit char | Class bool "(char \<times> char) list"

fun class_ranges :: "string \<Rightarrow> (char \<times> char) list" where
  "class_ranges (a # b # c # cs) =
     (if b = CHR ''-'' then (a, c) # class_ranges cs else (a, a) # class_ranges (b # c # cs))"
| "class_ranges (a # cs) = (a, a) # class_ranges cs"
| "class_ranges [] = []"

text \<open>\<open>class_end\<close> looks for the closing bracket: the first character is skipped when it is one.\<close>

definition class_body :: "string \<Rightarrow> (string \<times> string) option" where
  "class_body s =
     (let (first, rest) = (case s of [] \<Rightarrow> ([], []) | c # cs \<Rightarrow> if c = CHR '']'' then ([c], cs) else ([], s));
          body = takeWhile (\<lambda>c. c \<noteq> CHR '']'') rest
      in if length body < length rest then Some (first @ body, drop (length body + 1) rest) else None)"

lemma class_body_shorter: "class_body s = Some (b, r) \<Longrightarrow> length r < length s"
  by (auto simp: class_body_def Let_def split: list.splits if_splits)

definition class_item :: "string \<Rightarrow> (glob_item \<times> string) option" where
  "class_item s =
     (let neg = (s \<noteq> [] \<and> hd s = CHR ''!'')
      in map_option (\<lambda>(b, r). (Class neg (class_ranges b), r)) (class_body (if neg then tl s else s)))"

lemma class_item_shorter: "class_item s = Some (g, r) \<Longrightarrow> length r \<le> length s"
  using class_body_shorter [of s] class_body_shorter [of "tl s"]
  by (fastforce simp: class_item_def Let_def split: if_splits)

function glob_items :: "string \<Rightarrow> glob_item list" where
  "glob_items [] = []"
| "glob_items (c # cs) =
     (if c = CHR ''*'' then Star # glob_items cs
      else if c = CHR ''?'' then AnyChar # glob_items cs
      else if c = CHR ''['' then
        (case class_item cs of None \<Rightarrow> Lit c # glob_items cs | Some (g, r) \<Rightarrow> g # glob_items r)
      else Lit c # glob_items cs)"
  by pat_completeness auto
termination
  by (relation "measure length") (auto dest: class_item_shorter)

fun item_matches :: "glob_item \<Rightarrow> char \<Rightarrow> bool" where
  "item_matches Star c = False"
| "item_matches AnyChar c = True"
| "item_matches (Lit d) c = (c = d)"
| "item_matches (Class neg rs) c = (list_ex (\<lambda>(a, b). a \<le> c \<and> c \<le> b) rs \<noteq> neg)"

fun glob_match :: "glob_item list \<Rightarrow> string \<Rightarrow> bool" where
  "glob_match [] s = (s = [])"
| "glob_match (Star # gs) [] = glob_match gs []"
| "glob_match (Star # gs) (c # cs) = (glob_match gs (c # cs) \<or> glob_match (Star # gs) cs)"
| "glob_match (g # gs) [] = False"
| "glob_match (g # gs) (c # cs) = (item_matches g c \<and> glob_match gs cs)"

definition fnmatchcase :: "string \<Rightarrow> string \<Rightarrow> bool" where
  "fnmatchcase name pat = glob_match (glob_items pat) name"

text \<open>A pattern with no wildcard matches only itself.\<close>

lemma glob_match_Lits: "glob_match (map Lit p) s \<longleftrightarrow> s = p"
proof (induction p arbitrary: s)
  case Nil
  then show ?case by simp
next
  case (Cons c p)
  then show ?case by (cases s) auto
qed

lemma fnmatchcase_literal:
  assumes "set p \<inter> {CHR ''*'', CHR ''?'', CHR ''[''} = {}"
  shows "fnmatchcase s p \<longleftrightarrow> s = p"
proof -
  have "glob_items p = map Lit p" using assms by (induction p) auto
  then show ?thesis by (simp add: fnmatchcase_def glob_match_Lits)
qed

section \<open>Paths\<close>

text \<open>
  The parts of a \<open>PurePosixPath\<close>: the root (\<open>/\<close>, or \<open>//\<close> for exactly two slashes) when there is one, then the
  components without the empty ones and the dots.
\<close>

type_synonym path = "string list"

definition path_root :: "string \<Rightarrow> string" where
  "path_root s =
     (let n = length (takeWhile (\<lambda>c. c = CHR ''/'') s)
      in if n = 0 then [] else if n = 2 then ''//'' else ''/'')"

definition parse_path :: "string \<Rightarrow> path" where
  "parse_path s =
     (if path_root s = [] then [] else [path_root s]) @
     filter (\<lambda>c. c \<noteq> [] \<and> c \<noteq> ''.'') (split_on (CHR ''/'') s)"

definition is_absolute :: "path \<Rightarrow> bool" where
  "is_absolute p = (p \<noteq> [] \<and> hd p \<in> {''/'', ''//''})"

definition path_str :: "path \<Rightarrow> string" where
  "path_str p =
     (if p = [] then ''.''
      else if is_absolute p then hd p @ join_with (CHR ''/'') (tl p) else join_with (CHR ''/'') p)"

text \<open>\<open>.name\<close>: the last component; a bare root has none.\<close>

definition path_name :: "path \<Rightarrow> string" where
  "path_name p = (let cs = (if is_absolute p then tl p else p) in if cs = [] then [] else last cs)"

text \<open>\<open>a / b\<close>: an absolute right operand wins.\<close>

definition path_join :: "path \<Rightarrow> path \<Rightarrow> path" where
  "path_join a b = (if is_absolute b then b else a @ b)"

text \<open>\<open>child.relative_to(parent)\<close> does not raise.\<close>

definition is_relative_to :: "path \<Rightarrow> path \<Rightarrow> bool" where
  "is_relative_to child parent = prefix parent child"

text \<open>Splitting undoes joining.\<close>

lemma split_on_not_Nil [simp]: "split_on c s \<noteq> []"
  by (cases s) (auto split: list.splits)

lemma split_on_append: "split_on c (a @ c # b) = split_on c a @ split_on c b"
  by (induction a) (auto split: list.splits)

lemma split_on_single: "c \<notin> set a \<Longrightarrow> split_on c a = [a]"
  by (induction a) auto

lemma split_on_join:
  assumes "cs \<noteq> []" and "\<forall>x \<in> set cs. c \<notin> set x"
  shows "split_on c (join_with c cs) = cs"
  using assms by (induction c cs rule: join_with.induct) (auto simp: split_on_single split_on_append)

lemma join_with_append: "ws \<noteq> [] \<Longrightarrow> join_with c (ws @ x # xs) = join_with c ws @ c # join_with c (x # xs)"
  by (induction c ws rule: join_with.induct) auto

lemma join_prefix_iff:
  assumes "ws \<noteq> []" and "\<forall>x \<in> set (ws @ rs). c \<notin> set x"
  shows "prefix (join_with c ws @ [c]) (join_with c rs) \<longleftrightarrow> strict_prefix ws rs"
proof
  assume "prefix (join_with c ws @ [c]) (join_with c rs)"
  then obtain t where t: "join_with c rs = join_with c ws @ c # t" by (auto simp: prefix_def)
  then have "rs \<noteq> []" by auto
  with assms have "rs = split_on c (join_with c rs)" by (simp add: split_on_join)
  also have "\<dots> = ws @ split_on c t" using assms by (simp add: t split_on_append split_on_join)
  finally show "strict_prefix ws rs" by (metis append_self_conv prefixI split_on_not_Nil strict_prefix_def)
next
  assume "strict_prefix ws rs"
  then obtain x xs where "rs = ws @ x # xs" by (metis append_Nil2 list.exhaust prefixE strict_prefix_def)
  with assms(1) show "prefix (join_with c ws @ [c]) (join_with c rs)" by (simp add: join_with_append)
qed

section \<open>json.dumps with the default separators\<close>

definition ascii_escape :: "char \<Rightarrow> string" where
  "ascii_escape c =
     (let n = of_char c :: nat
      in if n < 127 then escape_char c
         else [CHR 0x5C, CHR ''u'', CHR ''0'', CHR ''0'', digit_char (n div 16), digit_char (n mod 16)])"

definition ascii_string :: "string \<Rightarrow> string" where
  "ascii_string s = CHR 0x22 # concat (map ascii_escape s) @ [CHR 0x22]"

fun join_comma :: "string list \<Rightarrow> string" where
  "join_comma [] = []"
| "join_comma [s] = s"
| "join_comma (s # t # ss) = s @ '', '' @ join_comma (t # ss)"

primrec dumps_default :: "json \<Rightarrow> string" where
  "dumps_default JNull = ''null''"
| "dumps_default (JBool b) = (if b then ''true'' else ''false'')"
| "dumps_default (JInt i) = int_text i"
| "dumps_default (JFloat t) = (if t = ''nan'' then ''NaN'' else if t = ''inf'' then ''Infinity''
     else if t = ''-inf'' then ''-Infinity'' else t)"
| "dumps_default (JStr s) = ascii_string s"
| "dumps_default (JList vs) = CHR ''['' # join_comma (map dumps_default vs) @ '']''"
| "dumps_default (JObj kvs) =
     CHR ''{'' # join_comma (map (\<lambda>(k, t). ascii_string k @ '': '' @ t) (sort_key fst (map (map_prod id dumps_default) kvs)))
       @ ''}''"

section \<open>The host of a URL\<close>

definition scheme_char :: "char \<Rightarrow> bool" where
  "scheme_char c = (is_alnum c \<or> c \<in> set ''+-.'')"

definition is_ascii_letter :: "char \<Rightarrow> bool" where
  "is_ascii_letter c = (is_alnum c \<and> \<not> is_digit c)"

text \<open>\<open>urlsplit\<close> up to the network location: leading control characters go, tabs and line ends too.\<close>

definition after_scheme :: "string \<Rightarrow> string" where
  "after_scheme url =
     (let s = before (CHR '':'') url
      in if s \<noteq> url \<and> s \<noteq> [] \<and> is_ascii_letter (hd s) \<and> list_all scheme_char s then after (CHR '':'') url else url)"

definition netloc :: "string \<Rightarrow> string" where
  "netloc url =
     (let u = filter (\<lambda>c. c \<notin> {CHR 0x09, CHR 0x0A, CHR 0x0D}) (dropWhile (\<lambda>c. (of_char c :: nat) \<le> 32) url);
          r = after_scheme u
      in if take 2 r = ''//'' then takeWhile (\<lambda>c. c \<notin> set ''/?#'') (drop 2 r) else [])"

text \<open>
  \<open>urlparse(url).hostname or ""\<close>. \<open>netloc_ok\<close> stands for the two checks of \<open>urlsplit\<close> that can only raise
  \<open>ValueError\<close>: that a bracketed host is an IP address and that a host outside ASCII is in normal form.
\<close>

definition hostname :: "(string \<Rightarrow> bool) \<Rightarrow> string \<Rightarrow> string option" where
  "hostname netloc_ok url =
     (let n = netloc url
      in if (CHR ''['' \<in> set n) \<noteq> (CHR '']'' \<in> set n) \<or> \<not> netloc_ok n then None
         else
           (let info = after_last (CHR ''@'') n;
                h = (if CHR ''['' \<in> set info then before (CHR '']'') (after (CHR ''['') info) else before (CHR '':'') info);
                name = before (CHR ''%'') h
            in Some (lower name @ drop (length name) h)))"

end
