(* ===== verification/Run_Completion.thy ===== *)
theory Run_Completion
  imports Managed_Effects Outbox_Repo Run_State_Repo Failure_Reason Python_Lib
begin

text \<open>
  \<open>application/fenced_run_completion.py\<close>: how a run ends. A completion, a cancellation or an exhausted retry
  changes the attempt, the root memorial, the run state, the loop state of the edict and the outbox in one unit
  of work. \<open>hook\<close> is the boundary hook, which may raise where it is called; \<open>repr\<close> is the text Python writes for a
  float; \<open>secret\<close> and \<open>redact\<close> are as in the run-state repository.
\<close>

section \<open>Data\<close>

record completion_command =
  cc_authority :: attempt_authority
  cc_outcome :: attempt_outcome
  cc_status :: task_status
  cc_summary :: "string option"
  cc_result :: "string option"
  cc_final_output :: "string option"
  cc_usage :: "usage_summary option"
  cc_reasoning :: "string option"
  cc_error :: "string option"
  cc_failure_reason :: "string option"
  cc_run_state :: "run_state option"
  cc_expected_version :: "int option"

fun task_value :: "task_status \<Rightarrow> string" where
  "task_value TSubmitted = ''submitted''"
| "task_value TRunning = ''running''"
| "task_value TCompleted = ''completed''"
| "task_value TFailed = ''failed''"
| "task_value TCancelled = ''cancelled''"
| "task_value TScheduled = ''scheduled''"
| "task_value TPlanning = ''planning''"
| "task_value TAuditing = ''auditing''"
| "task_value TNeedsReview = ''needs_review''"

fun disposition_value :: "attempt_disposition \<Rightarrow> string" where
  "disposition_value DSucceeded = ''succeeded''"
| "disposition_value DFailed = ''failed''"
| "disposition_value DRetry = ''retry''"
| "disposition_value DSuspended = ''suspended''"

text \<open>\<open>_event_id\<close>: the identity of the terminal event, from the authority and the disposition.\<close>

definition completion_event_id :: "(string \<Rightarrow> string) \<Rightarrow> completion_command \<Rightarrow> string" where
  "completion_event_id sha c =
     (let au = cc_authority c
      in ''run-event-'' @ sha (utf8 (aa_attempt au @ [CHR 0x00] @ aa_owner au @ [CHR 0x00] @
           int_text (aa_fence au) @ [CHR 0x00] @ disposition_value (out_disposition (cc_outcome c)))))"

text \<open>\<open>model_dump(mode="json")\<close> of a usage summary.\<close>

definition opt_str :: "string option \<Rightarrow> json" where
  "opt_str v = (case v of None \<Rightarrow> JNull | Some s \<Rightarrow> JStr s)"

definition usage_json :: "(rat \<Rightarrow> string) \<Rightarrow> usage_summary \<Rightarrow> json" where
  "usage_json repr u =
     JObj [(''prompt_tokens'', JInt (us_prompt_tokens u)), (''completion_tokens'', JInt (us_completion_tokens u)),
           (''total_tokens'', JInt (us_total_tokens u)), (''cache_read_tokens'', JInt (us_cache_read_tokens u)),
           (''cost_cny'', JFloat (repr (us_cost_cny u))), (''actual_model'', opt_str (us_actual_model u)),
           (''upstream_provider'', opt_str (us_upstream_provider u))]"

section \<open>Validation of the command\<close>

text \<open>The memorial status and the phase that belong to a terminal disposition.\<close>

definition expected_terminal :: "attempt_disposition \<Rightarrow> (task_status \<times> run_phase) option" where
  "expected_terminal p =
     (case p of DSucceeded \<Rightarrow> Some (TCompleted, PCompleted) | DFailed \<Rightarrow> Some (TFailed, PFailed) | _ \<Rightarrow> None)"

definition validate_command :: "completion_command \<Rightarrow> unit result" where
  "validate_command c =
     (case expected_terminal (out_disposition (cc_outcome c)) of
        None \<Rightarrow> Inl (ValueError ''fenced terminal completion requires a terminal outcome'')
      | Some (status, phase) \<Rightarrow>
          if cc_status c \<noteq> status
          then Inl (ValueError ''Memorial terminal status conflicts with attempt outcome'')
          else if (cc_run_state c = None) \<noteq> (cc_expected_version c = None)
          then Inl (ValueError ''RunState and its expected version must be supplied together'')
          else
            (case cc_run_state c of
               None \<Rightarrow> Inr ()
             | Some s \<Rightarrow>
                 if rs_memorial s \<noteq> aa_memorial (cc_authority c)
                 then Inl (ValueError ''RunState does not belong to the attempt Memorial'')
                 else if rs_phase s \<noteq> phase
                 then Inl (ValueError ''RunState terminal phase conflicts with attempt outcome'')
                 else Inr ()))"

section \<open>Statements\<close>

definition open_status :: "task_status \<Rightarrow> bool" where
  "open_status s = (s \<in> {TSubmitted, TScheduled, TPlanning, TRunning, TAuditing, TNeedsReview})"

text \<open>\<open>UPDATE memorials\<close>, giving the \<open>rowcount\<close>.\<close>

definition update_memorials ::
  "(memorial_row \<Rightarrow> bool) \<Rightarrow> (memorial_row \<Rightarrow> memorial_row) \<Rightarrow> db \<Rightarrow> nat \<times> db" where
  "update_memorials p f d =
     (count_rows p (db_memorials d), d\<lparr>db_memorials := update_rows p f (db_memorials d)\<rparr>)"

text \<open>The guard of the statements that close a root.\<close>

definition open_root :: "string \<Rightarrow> string \<Rightarrow> memorial_row \<Rightarrow> bool" where
  "open_root m e r = (mem_id r = m \<and> mem_edict r = e \<and> mem_dag_node r = None \<and> open_status (mem_status r))"

text \<open>\<open>COALESCE(?, column)\<close>\<close>

definition coalesce :: "'a option \<Rightarrow> 'a option \<Rightarrow> 'a option" where
  "coalesce v column = (case v of None \<Rightarrow> column | Some x \<Rightarrow> Some x)"

definition resolved_reason :: "completion_command \<Rightarrow> string option" where
  "resolved_reason c = resolve_failure_reason (cc_status c) (cc_error c) (cc_failure_reason c)"

definition projected_memorial :: "completion_command \<Rightarrow> memorial_row \<Rightarrow> memorial_row" where
  "projected_memorial c r =
     r\<lparr>mem_status := cc_status c, mem_summary := coalesce (cc_summary c) (mem_summary r),
       mem_result := coalesce (cc_result c) (mem_result r),
       mem_final_output := coalesce (cc_final_output c) (mem_final_output r),
       mem_usage := coalesce (cc_usage c) (mem_usage r),
       mem_reasoning := coalesce (cc_reasoning c) (mem_reasoning r), mem_error := cc_error c,
       mem_failure_reason := resolved_reason c, mem_completed := Some (out_completed_at (cc_outcome c))\<rparr>"

definition closed_memorial :: "task_status \<Rightarrow> string \<Rightarrow> string \<Rightarrow> instant \<Rightarrow> memorial_row \<Rightarrow> memorial_row" where
  "closed_memorial status error reason now r =
     r\<lparr>mem_status := status, mem_error := Some error, mem_failure_reason := Some reason, mem_completed := Some now\<rparr>"

text \<open>
  \<open>finalize_outer_loop_terminal\<close> of \<open>storage/orchestrator_repo.py\<close>: the loop's checkpoint and pending steers are
  dropped, and an edict with acceptance criteria and no recurring job is marked complete.
\<close>

definition recurring_job :: "string \<Rightarrow> job_row \<Rightarrow> bool" where
  "recurring_job e j =
     (jb_edict j = e \<and> jb_status j \<in> {JobActive, JobPaused} \<and> jb_type j \<in> {SchedCron, SchedInterval})"

definition lifecycle_complete :: "edict_row \<Rightarrow> edict_row" where
  "lifecycle_complete r = r\<lparr>ed_runtime := dict_set ''lifecycle_phase'' (JStr ''complete'') (ed_runtime r)\<rparr>"

definition finalize_outer_loop_terminal :: "string \<Rightarrow> db \<Rightarrow> db" where
  "finalize_outer_loop_terminal e d =
     (let d1 = d\<lparr>db_checkpoints := filter (\<lambda>x. x \<noteq> e) (db_checkpoints d),
                 db_steers := filter (\<lambda>x. x \<noteq> e) (db_steers d)\<rparr>
      in case row_by ed_id e (db_edicts d1) of
           None \<Rightarrow> d1
         | Some row \<Rightarrow>
             if \<not> ed_acceptance row \<or> list_ex (recurring_job e) (db_jobs d1) then d1
             else d1\<lparr>db_edicts := update_rows (\<lambda>r. ed_id r = e) lifecycle_complete (db_edicts d1)\<rparr>)"

section \<open>The run state\<close>

text \<open>The state \<open>_cas_existing_run_state\<close> stores: terminal, waiting for nothing, and not older than before.\<close>

definition terminal_state :: "run_phase \<Rightarrow> instant \<Rightarrow> run_state \<Rightarrow> run_state" where
  "terminal_state phase updated_at current =
     (let c = rs_continuation current
      in current\<lparr>rs_phase := phase,
           rs_continuation := (if cont_pending c \<noteq> None then set_decisions None (cont_resolved c) c else c),
           rs_updated := max updated_at (rs_updated current)\<rparr>)"

definition cas_existing_run_state ::
  "(string \<Rightarrow> string) \<Rightarrow> (string \<Rightarrow> string) \<Rightarrow> (run_state \<Rightarrow> bool) \<Rightarrow> string \<Rightarrow> string \<Rightarrow> run_phase \<Rightarrow> instant \<Rightarrow>
   db \<Rightarrow> (bool \<times> db) result" where
  "cas_existing_run_state sha redact secret m e phase updated_at d =
     and_then (load sha redact m d) (\<lambda>loaded.
       case loaded of
         None \<Rightarrow> Inr (False, d)
       | Some current \<Rightarrow>
           if rs_edict current \<noteq> e
           then Inl (AttemptConflict ''RunState does not bind the root Memorial Edict'')
           else and_then (compare_and_swap sha redact secret (terminal_state phase updated_at current)
                  (rs_version current) d) (\<lambda>(s, d'). Inr (True, d')))"

section \<open>Completion\<close>

definition terminal_event_type :: "attempt_disposition \<Rightarrow> string" where
  "terminal_event_type p = (if p = DSucceeded then ''execution.completed'' else ''execution.failed'')"

definition outcome_phase :: "attempt_disposition \<Rightarrow> run_phase" where
  "outcome_phase p = (if p = DSucceeded then PCompleted else PFailed)"

definition completion_event ::
  "(string \<Rightarrow> string) \<Rightarrow> (rat \<Rightarrow> string) \<Rightarrow> completion_command \<Rightarrow> string \<Rightarrow> event_envelope" where
  "completion_event sha repr c e =
     (let au = cc_authority c
      in \<lparr>ee_id = completion_event_id sha c, ee_type = terminal_event_type (out_disposition (cc_outcome c)),
          ee_edict = Some e, ee_memorial = Some (aa_memorial au), ee_attempt = 1,
          ee_timestamp = out_completed_at (cc_outcome c), ee_producer = ''run-dispatcher'',
          ee_payload =
            [(''attempt_id'', JStr (aa_attempt au)), (''fencing_token'', JInt (aa_fence au)),
             (''status'', JStr (task_value (cc_status c))), (''summary'', opt_str (cc_summary c)),
             (''result'', opt_str (cc_result c)), (''final_output'', opt_str (cc_final_output c)),
             (''usage'', case cc_usage c of None \<Rightarrow> JNull | Some u \<Rightarrow> usage_json repr u),
             (''error'', opt_str (cc_error c)), (''failure_reason'', opt_str (resolved_reason c))]\<rparr>)"

text \<open>The root memorial an authority is bound to: the row, or the exception the source raises.\<close>

definition bound_root :: "attempt_authority \<Rightarrow> db \<Rightarrow> memorial_row result" where
  "bound_root au d =
     (case row_by at_id (aa_attempt au) (db_attempts d) of
        None \<Rightarrow> Inl (AttemptFenceLost ''attempt authority does not bind the Memorial'')
      | Some a \<Rightarrow>
          if at_memorial a \<noteq> aa_memorial au
          then Inl (AttemptFenceLost ''attempt authority does not bind the Memorial'')
          else
            (case row_by mem_id (aa_memorial au) (db_memorials d) of
               None \<Rightarrow> Inl (AttemptConflict ''attempt authority does not bind a root Memorial'')
             | Some r \<Rightarrow>
                 if mem_dag_node r \<noteq> None
                 then Inl (AttemptConflict ''attempt authority does not bind a root Memorial'')
                 else Inr r))"

definition complete_body ::
  "(string \<Rightarrow> string) \<Rightarrow> (string \<Rightarrow> string) \<Rightarrow> (run_state \<Rightarrow> bool) \<Rightarrow> (rat \<Rightarrow> string) \<Rightarrow> (string \<Rightarrow> unit result) \<Rightarrow> string \<Rightarrow>
   completion_command \<Rightarrow> db \<Rightarrow> (string \<times> db) result" where
  "complete_body sha redact secret repr hook new_id c d =
     (let au = cc_authority c; completed_at = out_completed_at (cc_outcome c)
      in and_then (authority_current au completed_at d) (\<lambda>_.
         and_then (bound_root au d) (\<lambda>memorial.
           let e = mem_edict memorial
           in case update_memorials (open_root (aa_memorial au) e) (projected_memorial c) d of
                (n, d1) \<Rightarrow>
                  if n \<noteq> 1 then Inl (AttemptConflict ''root Memorial projection conflict'')
                  else
                    and_then (hook ''after_memorial'') (\<lambda>_.
                    and_then (cas_existing_run_state sha redact secret (aa_memorial au) e
                                (outcome_phase (out_disposition (cc_outcome c))) completed_at d1) (\<lambda>(swapped, d2).
                    and_then (if swapped then hook ''after_run_state'' else Inr ()) (\<lambda>_.
                    let d3 = finalize_outer_loop_terminal e d2
                    in and_then (hook ''after_terminal_cleanup'') (\<lambda>_.
                       and_then (outbox_add sha (completion_event sha repr c e) d3) (\<lambda>d4.
                       and_then (hook ''after_outbox'') (\<lambda>_.
                       and_then (hook ''before_attempt'') (\<lambda>_.
                       and_then (complete_current sha new_id (aa_attempt au) (aa_owner au) (aa_fence au)
                                   (cc_outcome c) d4) (\<lambda>(completed, d5).
                         if \<not> completed then Inl (AttemptFenceLost ''attempt authority is no longer current'')
                         else Inr (completion_event_id sha c, d5))))))))))))"

definition complete_run ::
  "(string \<Rightarrow> string) \<Rightarrow> (string \<Rightarrow> string) \<Rightarrow> (run_state \<Rightarrow> bool) \<Rightarrow> (rat \<Rightarrow> string) \<Rightarrow> (string \<Rightarrow> unit result) \<Rightarrow> string \<Rightarrow>
   completion_command \<Rightarrow> db \<Rightarrow> string result \<times> db" where
  "complete_run sha redact secret repr hook new_id c d =
     (case validate_command c of
        Inl e \<Rightarrow> (Inl e, d)
      | Inr _ \<Rightarrow> atomically (\<lambda>d. except_integrity (AttemptConflict ''fenced completion projection conflict'')
          (complete_body sha redact secret repr hook new_id c d)) d)"

section \<open>Cancellation\<close>

definition cancelled_error :: redacted_error where
  "cancelled_error =
     \<lparr>err_code = ''execution_cancelled'', err_message = ''Execution was cancelled'', err_retryable = False,
      err_details_hash = None\<rparr>"

definition revoked_row :: "instant \<Rightarrow> attempt_lease \<Rightarrow> attempt_lease" where
  "revoked_row now a =
     a\<lparr>at_status := Failed, at_owner := None, at_expires := None, at_heartbeat := None,
       at_failure := Some cancelled_error, at_version := at_version a + 1, at_updated := now\<rparr>"

definition cancellation_event :: "string \<Rightarrow> string \<Rightarrow> string \<Rightarrow> instant \<Rightarrow> event_envelope" where
  "cancellation_event m e reason now =
     \<lparr>ee_id = m @ '':execution.cancelled'', ee_type = ''execution.cancelled'', ee_edict = Some e,
      ee_memorial = Some m, ee_attempt = 1, ee_timestamp = now, ee_producer = ''fenced-run-cancellation'',
      ee_payload = [(''status'', JStr ''cancelled''), (''error'', JStr ''Execution was cancelled''),
                    (''failure_reason'', JStr ''execution_cancelled''), (''reason'', JStr reason)]\<rparr>"

definition cancel_body ::
  "(string \<Rightarrow> string) \<Rightarrow> (string \<Rightarrow> string) \<Rightarrow> (run_state \<Rightarrow> bool) \<Rightarrow> (string \<Rightarrow> unit result) \<Rightarrow> string \<Rightarrow> string \<Rightarrow> instant \<Rightarrow>
   db \<Rightarrow> (bool \<times> db) result" where
  "cancel_body sha redact secret hook m reason now d =
     (case row_by mem_id m (db_memorials d) of
        None \<Rightarrow> Inl (ValueError ''cancellation root is unavailable'')
      | Some memorial \<Rightarrow>
          if mem_dag_node memorial \<noteq> None then Inl (ValueError ''cancellation root is unavailable'')
          else
            let e = mem_edict memorial
            in and_then (update_attempts (\<lambda>a. at_memorial a = m \<and> active a) (revoked_row now) d) (\<lambda>(k, d1).
               and_then (hook ''after_attempt'') (\<lambda>_.
                 case update_memorials
                        (\<lambda>r. mem_id r = m \<and> mem_edict r = e \<and> mem_dag_node r = None \<and>
                             mem_status r \<notin> {TCompleted, TFailed, TCancelled})
                        (closed_memorial TCancelled ''Execution was cancelled'' ''execution_cancelled'' now) d1 of
                   (n, d2) \<Rightarrow>
                     if n \<noteq> 1 then Inr (False, d2)
                     else
                       and_then (hook ''after_memorial'') (\<lambda>_.
                       and_then (cas_existing_run_state sha redact secret m e PFailed now d2) (\<lambda>(swapped, d3).
                       and_then (if swapped then hook ''after_run_state'' else Inr ()) (\<lambda>_.
                       let d4 = finalize_outer_loop_terminal e d3
                       in and_then (hook ''after_terminal_cleanup'') (\<lambda>_.
                          and_then (outbox_add sha (cancellation_event m e reason now) d4) (\<lambda>d5.
                          and_then (hook ''after_outbox'') (\<lambda>_. Inr (True, d5))))))))))"

definition cancel_root ::
  "(string \<Rightarrow> string) \<Rightarrow> (string \<Rightarrow> string) \<Rightarrow> (run_state \<Rightarrow> bool) \<Rightarrow> (string \<Rightarrow> unit result) \<Rightarrow> string \<Rightarrow> string \<Rightarrow> instant \<Rightarrow>
   db \<Rightarrow> bool result \<times> db" where
  "cancel_root sha redact secret hook m reason now d =
     (if blank m \<or> blank reason then (Inl (ValueError ''cancellation identity and reason must be non-blank''), d)
      else atomically (cancel_body sha redact secret hook m reason now) d)"

section \<open>Retry and dead letter\<close>

definition exhausted_reason :: string where
  "exhausted_reason = ''attempt_budget_exhausted''"

definition dead_letter_event ::
  "string \<Rightarrow> string \<Rightarrow> string \<Rightarrow> int \<Rightarrow> string \<Rightarrow> string \<Rightarrow> instant \<Rightarrow> event_envelope" where
  "dead_letter_event producer attempt m fence e message now =
     \<lparr>ee_id = attempt @ '':execution.failed:dead-letter'', ee_type = ''execution.failed'', ee_edict = Some e,
      ee_memorial = Some m, ee_attempt = 1, ee_timestamp = now, ee_producer = producer,
      ee_payload = [(''attempt_id'', JStr attempt), (''fencing_token'', JInt fence), (''status'', JStr ''failed''),
                    (''error'', JStr message), (''failure_reason'', JStr exhausted_reason)]\<rparr>"

definition retry_body ::
  "(string \<Rightarrow> string) \<Rightarrow> (string \<Rightarrow> string) \<Rightarrow> (run_state \<Rightarrow> bool) \<Rightarrow> (string \<Rightarrow> unit result) \<Rightarrow> string \<Rightarrow>
   attempt_authority \<Rightarrow> attempt_outcome \<Rightarrow> redacted_error \<Rightarrow> db \<Rightarrow> (bool \<times> db) result" where
  "retry_body sha redact secret hook new_id au outcome failure d =
     (let completed_at = out_completed_at outcome
      in and_then (authority_current au completed_at d) (\<lambda>_.
         case (row_by at_id (aa_attempt au) (db_attempts d), row_by mem_id (aa_memorial au) (db_memorials d)) of
           (Some a, Some memorial) \<Rightarrow>
             if at_memorial a \<noteq> aa_memorial au \<or> mem_dag_node memorial \<noteq> None
             then Inl (AttemptConflict ''attempt authority does not bind a root Memorial'')
             else
               let e = mem_edict memorial
               in and_then (complete_current sha new_id (aa_attempt au) (aa_owner au) (aa_fence au) outcome d) (\<lambda>(completed, d1).
                  if \<not> completed then Inl (AttemptFenceLost ''attempt authority is no longer current'')
                  else if (case row_by at_id (aa_attempt au) (db_attempts d1) of
                             None \<Rightarrow> False | Some b \<Rightarrow> at_status b = DeadLetter)
                  then
                    (case update_memorials (open_root (aa_memorial au) e)
                            (closed_memorial TFailed (err_message failure) exhausted_reason completed_at) d1 of
                       (n, d2) \<Rightarrow>
                         if n \<noteq> 1 then Inl (AttemptConflict ''dead-letter root projection conflict'')
                         else
                           and_then (cas_existing_run_state sha redact secret (aa_memorial au) e PFailed completed_at d2)
                             (\<lambda>(swapped, d3).
                           let d4 = finalize_outer_loop_terminal e d3
                           in and_then (hook ''after_terminal_cleanup'') (\<lambda>_.
                              and_then (outbox_add sha (dead_letter_event ''run-dispatcher'' (aa_attempt au)
                                 (aa_memorial au) (aa_fence au) e (err_message failure) completed_at) d4) (\<lambda>d5.
                                Inr (True, d5)))))
                  else Inr (True, d1))
         | _ \<Rightarrow> Inl (AttemptConflict ''attempt authority does not bind a root Memorial'')))"

definition retry_or_dead_letter ::
  "(string \<Rightarrow> string) \<Rightarrow> (string \<Rightarrow> string) \<Rightarrow> (run_state \<Rightarrow> bool) \<Rightarrow> (string \<Rightarrow> unit result) \<Rightarrow> string \<Rightarrow>
   attempt_authority \<Rightarrow> attempt_outcome \<Rightarrow> db \<Rightarrow> bool result \<times> db" where
  "retry_or_dead_letter sha redact secret hook new_id au outcome d =
     (case out_failure outcome of
        None \<Rightarrow> (Inl (ValueError ''managed retry requires a retry outcome with redacted failure''), d)
      | Some failure \<Rightarrow>
          if out_disposition outcome \<noteq> DRetry
          then (Inl (ValueError ''managed retry requires a retry outcome with redacted failure''), d)
          else atomically (retry_body sha redact secret hook new_id au outcome failure) d)"

section \<open>Reconciliation of dead letters\<close>

text \<open>The join: a dead-lettered attempt whose root is still open.\<close>

definition unprojected :: "db \<Rightarrow> attempt_lease \<Rightarrow> bool" where
  "unprojected d a =
     (at_status a = DeadLetter \<and>
      (case row_by mem_id (at_memorial a) (db_memorials d) of
         None \<Rightarrow> False | Some r \<Rightarrow> mem_dag_node r = None \<and> open_status (mem_status r)))"

text \<open>One row of the join, with the edict it was read with.\<close>

definition reconcile_row ::
  "(string \<Rightarrow> string) \<Rightarrow> (string \<Rightarrow> string) \<Rightarrow> (run_state \<Rightarrow> bool) \<Rightarrow> instant \<Rightarrow> attempt_lease \<times> string \<Rightarrow> db \<Rightarrow>
   (bool \<times> db) result" where
  "reconcile_row sha redact secret now row d =
     (case row of (a, e) \<Rightarrow>
        (case at_failure a of
           None \<Rightarrow> Inl (AttemptConflict ''dead-letter attempt failure is invalid'')
         | Some failure \<Rightarrow>
             (case update_memorials (open_root (at_memorial a) e)
                     (closed_memorial TFailed (err_message failure) exhausted_reason now) d of
                (n, d1) \<Rightarrow>
                  if n \<noteq> 1 then Inr (False, d1)
                  else
                    and_then (cas_existing_run_state sha redact secret (at_memorial a) e PFailed now d1) (\<lambda>(swapped, d2).
                    and_then (outbox_add sha (dead_letter_event ''run-reconciler'' (at_id a) (at_memorial a) (at_fence a) e
                       (err_message failure) now) (finalize_outer_loop_terminal e d2)) (\<lambda>d3.
                      Inr (True, d3))))))"

fun reconcile_rows ::
  "(string \<Rightarrow> string) \<Rightarrow> (string \<Rightarrow> string) \<Rightarrow> (run_state \<Rightarrow> bool) \<Rightarrow> instant \<Rightarrow> (attempt_lease \<times> string) list \<Rightarrow> nat \<Rightarrow>
   db \<Rightarrow> (nat \<times> db) result" where
  "reconcile_rows sha redact secret now [] changed d = Inr (changed, d)"
| "reconcile_rows sha redact secret now (row # rows) changed d =
     and_then (reconcile_row sha redact secret now row d) (\<lambda>(b, d').
       reconcile_rows sha redact secret now rows (if b then changed + 1 else changed) d')"

definition dead_letter_rows :: "int \<Rightarrow> db \<Rightarrow> (attempt_lease \<times> string) list" where
  "dead_letter_rows limit d =
     map (\<lambda>a. (a, case row_by mem_id (at_memorial a) (db_memorials d) of None \<Rightarrow> [] | Some r \<Rightarrow> mem_edict r))
       (take (nat limit) (select_ordered (unprojected d) (\<lambda>a. (at_updated a, at_id a)) (db_attempts d)))"

definition reconcile_dead_lettered_roots ::
  "(string \<Rightarrow> string) \<Rightarrow> (string \<Rightarrow> string) \<Rightarrow> (run_state \<Rightarrow> bool) \<Rightarrow> int \<Rightarrow> instant \<Rightarrow> db \<Rightarrow> nat result \<times> db" where
  "reconcile_dead_lettered_roots sha redact secret limit now d =
     (if limit \<le> 0 then (Inl (ValueError ''limit must be a positive integer''), d)
      else atomically (\<lambda>d. reconcile_rows sha redact secret now (dead_letter_rows limit d) 0 d) d)"

end
