(* ===== verification/Run_Dispatch.thy ===== *)
theory Run_Dispatch
  imports Run_Completion
begin

text \<open>
  \<open>application/run_execution.py\<close>, \<open>application/run_dispatcher.py\<close> and the scan of \<open>application/run_reconciler.py\<close>: how a
  due attempt is claimed, run and concluded. The two business stages are opaque: what the runner sees of them is a
  \<open>stage_result\<close>. An asyncio task is a number; the heartbeat and the runner race, and \<open>task_end\<close> says which of them
  ended the task and how.
\<close>

section \<open>Results of the runner\<close>

record run_result =
  rn_disposition :: attempt_disposition
  rn_failure :: "redacted_error option"
  rn_retry_at :: "instant option"

text \<open>\<open>AttemptRunResult.to_outcome\<close>; building the model validates it.\<close>

definition to_outcome :: "instant \<Rightarrow> run_result \<Rightarrow> attempt_outcome result" where
  "to_outcome completed_at r =
     (let o' = \<lparr>out_disposition = rn_disposition r, out_completed_at = completed_at, out_failure = rn_failure r,
                out_retry_at = rn_retry_at r\<rparr>
      in if valid_outcome o' then Inr o' else Inl (ValueError ''AttemptOutcomeV1''))"

record projection =
  pj_status :: task_status
  pj_summary :: "string option"
  pj_result :: "string option"
  pj_final_output :: "string option"
  pj_usage :: "usage_summary option"
  pj_reasoning :: "string option"
  pj_failure_reason :: "string option"
  pj_error :: "redacted_error option"

text \<open>\<open>ManagedExecutionProjection(status=..., error=..., failure_reason=...)\<close>\<close>

definition error_projection :: "redacted_error option \<Rightarrow> string option \<Rightarrow> projection" where
  "error_projection err reason =
     \<lparr>pj_status = TFailed, pj_summary = None, pj_result = None, pj_final_output = None, pj_usage = None,
      pj_reasoning = None, pj_failure_reason = reason, pj_error = err\<rparr>"

type_synonym projections = "((string \<times> string \<times> int) \<times> projection) list"

definition authority_key :: "attempt_authority \<Rightarrow> string \<times> string \<times> int" where
  "authority_key au = (aa_attempt au, aa_owner au, aa_fence au)"

definition store_projection :: "attempt_authority \<Rightarrow> projection \<Rightarrow> projections \<Rightarrow> projections" where
  "store_projection au p ps = AList.update (authority_key au) p ps"

definition take_projection :: "attempt_authority \<Rightarrow> projections \<Rightarrow> projection option \<times> projections" where
  "take_projection au ps = (map_of ps (authority_key au), AList.delete (authority_key au) ps)"

definition discard_projection :: "attempt_authority \<Rightarrow> projections \<Rightarrow> projections" where
  "discard_projection au ps = AList.delete (authority_key au) ps"

text \<open>What the stages did: planning or a tool suspended the run, an exception of the named class, or a projection.\<close>

datatype stage_result = StageSuspended | StageRaised string bool | StageProjected projection

text \<open>\<open>_redacted_failure\<close>; the flag says whether the exception is a \<open>ConnectionError\<close> or a \<open>TimeoutError\<close>.\<close>

definition redacted_failure :: "(string \<Rightarrow> string) \<Rightarrow> string \<Rightarrow> bool \<Rightarrow> redacted_error" where
  "redacted_failure sha cls retryable =
     \<lparr>err_code = (if retryable then ''managed_execution_retryable'' else ''managed_execution_error''),
      err_message = ''Managed execution failed'', err_retryable = retryable, err_details_hash = Some (sha (utf8 cls))\<rparr>"

definition failure_result :: "instant \<Rightarrow> redacted_error \<Rightarrow> run_result" where
  "failure_result now failure =
     (if err_retryable failure
      then \<lparr>rn_disposition = DRetry, rn_failure = Some failure, rn_retry_at = Some (now + seconds 1)\<rparr>
      else \<lparr>rn_disposition = DFailed, rn_failure = Some failure, rn_retry_at = None\<rparr>)"

definition default_failure :: redacted_error where
  "default_failure =
     \<lparr>err_code = ''execution_failed'', err_message = ''Managed execution failed'', err_retryable = False,
      err_details_hash = None\<rparr>"

text \<open>\<open>ProductionRunRunner.__call__\<close> after its awaits: the result, and the projection it keeps for the completer.\<close>

definition run_attempt ::
  "(string \<Rightarrow> string) \<Rightarrow> instant \<Rightarrow> attempt_authority \<Rightarrow> stage_result \<Rightarrow> projections \<Rightarrow> run_result \<times> projections" where
  "run_attempt sha now au stage ps =
     (case stage of
        StageSuspended \<Rightarrow> (\<lparr>rn_disposition = DSuspended, rn_failure = None, rn_retry_at = None\<rparr>, ps)
      | StageRaised cls retryable \<Rightarrow>
          (let failure = redacted_failure sha cls retryable
           in (failure_result now failure, store_projection au (error_projection (Some failure) None) ps))
      | StageProjected p \<Rightarrow>
          (let ps' = store_projection au p ps
           in if pj_status p = TCompleted then (\<lparr>rn_disposition = DSucceeded, rn_failure = None, rn_retry_at = None\<rparr>, ps')
              else (failure_result now (case pj_error p of None \<Rightarrow> default_failure | Some e \<Rightarrow> e), ps')))"

section \<open>The completer\<close>

definition or_else :: "'a option \<Rightarrow> 'a option \<Rightarrow> 'a option" where
  "or_else x y = (case x of None \<Rightarrow> y | Some _ \<Rightarrow> x)"

text \<open>\<open>projection.failure_reason or (failure.code if failure else None)\<close>\<close>

definition reason_or_code :: "string option \<Rightarrow> redacted_error option \<Rightarrow> string option" where
  "reason_or_code reason failure =
     (if reason \<noteq> None \<and> reason \<noteq> Some [] then reason else map_option err_code failure)"

definition completion_of :: "attempt_authority \<Rightarrow> attempt_outcome \<Rightarrow> projection \<Rightarrow> completion_command" where
  "completion_of au o' p =
     (let failure = or_else (out_failure o') (pj_error p)
      in \<lparr>cc_authority = au, cc_outcome = o',
          cc_status = (if out_disposition o' = DSucceeded then TCompleted else TFailed),
          cc_summary = pj_summary p, cc_result = pj_result p, cc_final_output = pj_final_output p, cc_usage = pj_usage p,
          cc_reasoning = pj_reasoning p, cc_error = map_option err_message failure,
          cc_failure_reason = reason_or_code (pj_failure_reason p) failure, cc_run_state = None, cc_expected_version = None\<rparr>)"

text \<open>\<open>ProductionAttemptCompleter.__call__\<close>: the answer, the projections that are left and the database.\<close>

definition complete_attempt ::
  "(string \<Rightarrow> string) \<Rightarrow> (string \<Rightarrow> string) \<Rightarrow> (run_state \<Rightarrow> bool) \<Rightarrow> (rat \<Rightarrow> string) \<Rightarrow> (string \<Rightarrow> unit result) \<Rightarrow> string \<Rightarrow>
   attempt_authority \<Rightarrow> attempt_outcome \<Rightarrow> projections \<times> db \<Rightarrow> bool result \<times> projections \<times> db" where
  "complete_attempt sha redact secret repr hook new_id au o' st =
     (case st of (ps, d) \<Rightarrow>
        if out_disposition o' = DSuspended then
          (case is_suspended (aa_attempt au) (aa_memorial au) (aa_fence au) d of
             (Inl e, d1) \<Rightarrow> (Inl e, ps, d1)
           | (Inr b, d1) \<Rightarrow>
               if b then (Inr True, ps, d1)
               else (case complete sha new_id (aa_attempt au) (aa_owner au) (aa_fence au) o' d1 of (r, d2) \<Rightarrow> (r, ps, d2)))
        else if out_disposition o' = DRetry then
          (case retry_or_dead_letter sha redact secret hook new_id au o' d of (r, d1) \<Rightarrow> (r, ps, d1))
        else
          (case take_projection au ps of
             (found, ps1) \<Rightarrow>
               if found = None \<and> out_disposition o' \<noteq> DFailed then (Inr False, ps1, d)
               else
                 let p = (case found of Some p \<Rightarrow> p
                          | None \<Rightarrow> error_projection (out_failure o') (map_option err_code (out_failure o')))
                 in case complete_run sha redact secret repr hook new_id (completion_of au o' p) d of
                      (Inl e, d1) \<Rightarrow> (Inl e, ps1, d1)
                    | (Inr i, d1) \<Rightarrow> (Inr True, ps1, d1)))"

section \<open>The dispatcher\<close>

text \<open>The two dictionaries of tasks, by attempt and by memorial, and the number of the next task.\<close>

record run_dispatcher =
  dp_owner :: string
  dp_lease_seconds :: int
  dp_router :: bool
  dp_tasks :: "(string \<times> nat) list"
  dp_memorial_tasks :: "(string \<times> nat) list"
  dp_next :: nat
  dp_stop :: bool

text \<open>A float argument; \<open>None\<close> is one that is not finite.\<close>

definition positive_finite :: "rat option \<Rightarrow> string \<Rightarrow> rat result" where
  "positive_finite v field =
     (case v of
        None \<Rightarrow> Inl (ValueError (field @ '' must be a positive finite number''))
      | Some q \<Rightarrow> if q \<le> 0 then Inl (ValueError (field @ '' must be a positive finite number'')) else Inr q)"

definition create_run_dispatcher ::
  "string \<Rightarrow> int \<Rightarrow> rat option \<Rightarrow> rat option \<Rightarrow> bool \<Rightarrow> run_dispatcher result" where
  "create_run_dispatcher owner_id lease_seconds interval shutdown router =
     (if blank owner_id then Inl (ValueError ''owner_id must be non-blank'')
      else if lease_seconds \<le> 0 then Inl (ValueError ''lease_seconds must be a positive integer'')
      else and_then (positive_finite interval ''heartbeat_interval_seconds'') (\<lambda>h.
        if of_int lease_seconds \<le> h then Inl (ValueError ''heartbeat_interval_seconds must be below lease_seconds'')
        else and_then (positive_finite shutdown ''shutdown_timeout_seconds'') (\<lambda>_.
          Inr \<lparr>dp_owner = owner_id, dp_lease_seconds = lease_seconds, dp_router = router, dp_tasks = [],
               dp_memorial_tasks = [], dp_next = 0, dp_stop = False\<rparr>)))"

definition lease_authority :: "attempt_lease \<Rightarrow> string \<Rightarrow> attempt_authority" where
  "lease_authority a owner = \<lparr>aa_attempt = at_id a, aa_memorial = at_memorial a, aa_owner = owner, aa_fence = at_fence a\<rparr>"

definition add_task :: "attempt_authority \<Rightarrow> run_dispatcher \<Rightarrow> run_dispatcher" where
  "add_task au dp =
     dp\<lparr>dp_tasks := AList.update (aa_attempt au) (dp_next dp) (dp_tasks dp),
        dp_memorial_tasks := AList.update (aa_memorial au) (dp_next dp) (dp_memorial_tasks dp),
        dp_next := dp_next dp + 1\<rparr>"

text \<open>\<open>dispatch\<close>: the authority of the task it started, if it won one.\<close>

definition dispatch_run ::
  "(string \<Rightarrow> string) \<Rightarrow> string \<Rightarrow> instant \<Rightarrow> string \<Rightarrow> run_dispatcher \<times> db \<Rightarrow> attempt_authority option result \<times> run_dispatcher \<times> db" where
  "dispatch_run sha new_id now m st =
     (case st of (dp, d) \<Rightarrow>
        if \<not> dp_router dp then (Inl (RuntimeError ''challenger_router_required''), dp, d)
        else if dp_stop dp \<or> map_of (dp_memorial_tasks dp) m \<noteq> None then (Inr None, dp, d)
        else
          (case claim sha new_id m (dp_owner dp) now (dp_lease_seconds dp) d of
             (Inl e, d1) \<Rightarrow> (Inl e, dp, d1)
           | (Inr None, d1) \<Rightarrow> (Inr None, dp, d1)
           | (Inr (Some a), d1) \<Rightarrow>
               (let au = lease_authority a (the (at_owner a)) in (Inr (Some au), add_task au dp, d1))))"

text \<open>\<open>_observe_task\<close>: the callback of a task that is done.\<close>

definition pop_if :: "'k \<Rightarrow> nat \<Rightarrow> ('k \<times> nat) list \<Rightarrow> ('k \<times> nat) list" where
  "pop_if k task m = (if map_of m k = Some task then AList.delete k m else m)"

definition observe_task :: "string \<Rightarrow> string \<Rightarrow> nat \<Rightarrow> run_dispatcher \<Rightarrow> run_dispatcher" where
  "observe_task attempt_id memorial_id task dp =
     dp\<lparr>dp_tasks := pop_if attempt_id task (dp_tasks dp),
        dp_memorial_tasks := pop_if memorial_id task (dp_memorial_tasks dp)\<rparr>"

text \<open>\<open>_reap_completed_tasks\<close>, and the first statements of \<open>stop\<close>.\<close>

definition reap_completed_tasks :: "(nat \<Rightarrow> bool) \<Rightarrow> run_dispatcher \<Rightarrow> run_dispatcher" where
  "reap_completed_tasks finished dp =
     dp\<lparr>dp_tasks := filter (\<lambda>(k, t). \<not> finished t) (dp_tasks dp),
        dp_memorial_tasks := filter (\<lambda>(k, t). \<not> (finished t \<and> t \<in> snd ` set (dp_tasks dp))) (dp_memorial_tasks dp)\<rparr>"

definition request_stop :: "(nat \<Rightarrow> bool) \<Rightarrow> run_dispatcher \<Rightarrow> run_dispatcher" where
  "request_stop finished dp = reap_completed_tasks finished (dp\<lparr>dp_stop := True\<rparr>)"

definition active_count :: "run_dispatcher \<Rightarrow> nat" where
  "active_count dp = length (dp_tasks dp)"

definition is_stopped :: "run_dispatcher \<Rightarrow> bool" where
  "is_stopped dp = (dp_stop dp \<and> dp_tasks dp = [])"

section \<open>The end of a task\<close>

text \<open>
  How \<open>_execute\<close> ends: the heartbeat lost its fence, the task was cancelled, the heartbeat raised something else, the
  runner returned, or the governed runtime of the memorial was not available (the flag: its assignment, rather than its
  overlay).
\<close>

datatype task_end = HeartbeatLost | TaskCancelled | TaskRaised exn | RunnerReturned run_result | RuntimeUnavailable bool

definition unavailable_outcome :: "bool \<Rightarrow> instant \<Rightarrow> attempt_outcome" where
  "unavailable_outcome assignment now =
     \<lparr>out_disposition = DFailed, out_completed_at = now,
      out_failure = Some \<lparr>err_code = (if assignment then ''run_assignment_unavailable'' else ''candidate_overlay_unavailable''),
                          err_message = ''governed evolution runtime is unavailable'', err_retryable = False,
                          err_details_hash = None\<rparr>,
      out_retry_at = None\<rparr>"

text \<open>A completion whose answer is \<open>False\<close> raises.\<close>

definition acknowledged ::
  "(attempt_authority \<Rightarrow> attempt_outcome \<Rightarrow> 's \<Rightarrow> bool result \<times> 's) \<Rightarrow> attempt_authority \<Rightarrow> attempt_outcome \<Rightarrow> 's \<Rightarrow> unit result \<times> 's" where
  "acknowledged completer au o' s =
     (case completer au o' s of
        (Inl e, s') \<Rightarrow> (Inl e, s')
      | (Inr b, s') \<Rightarrow> (if b then Inr () else Inl (AttemptFenceLost ''attempt completion lost its fence''), s'))"

text \<open>
  The rest of \<open>_execute\<close>. \<open>now\<close> and \<open>now'\<close> are the two readings of the clock; a \<open>LookupError\<close> out of the completer is handled
  like one out of the runtime.
\<close>

definition conclude_task ::
  "(attempt_authority \<Rightarrow> attempt_outcome \<Rightarrow> 's \<Rightarrow> bool result \<times> 's) \<Rightarrow> instant \<Rightarrow> instant \<Rightarrow> attempt_authority \<Rightarrow> task_end \<Rightarrow> 's \<Rightarrow>
   unit result \<times> 's" where
  "conclude_task completer now now' au end' s =
     (case end' of
        HeartbeatLost \<Rightarrow> (Inr (), s)
      | TaskCancelled \<Rightarrow> (Inr (), s)
      | TaskRaised e \<Rightarrow> (Inl e, s)
      | RuntimeUnavailable assignment \<Rightarrow> acknowledged completer au (unavailable_outcome assignment now') s
      | RunnerReturned r \<Rightarrow>
          (case to_outcome now r of
             Inl e \<Rightarrow> (Inl e, s)
           | Inr o' \<Rightarrow>
               (case acknowledged completer au o' s of
                  (Inl (KeyError k), s1) \<Rightarrow> acknowledged completer au (unavailable_outcome True now') s1
                | res \<Rightarrow> res)))"

text \<open>The task of the production wiring: its completer, and \<open>discard_projection\<close> as the clean-up of every exit.\<close>

definition conclude_attempt ::
  "(string \<Rightarrow> string) \<Rightarrow> (string \<Rightarrow> string) \<Rightarrow> (run_state \<Rightarrow> bool) \<Rightarrow> (rat \<Rightarrow> string) \<Rightarrow> (string \<Rightarrow> unit result) \<Rightarrow> string \<Rightarrow> instant \<Rightarrow> instant \<Rightarrow>
   attempt_authority \<Rightarrow> task_end \<Rightarrow> projections \<times> db \<Rightarrow> unit result \<times> projections \<times> db" where
  "conclude_attempt sha redact secret repr hook new_id now now' au end' st =
     (case conclude_task (complete_attempt sha redact secret repr hook new_id) now now' au end' st of
        (r, ps, d) \<Rightarrow> (r, discard_projection au ps, d))"

section \<open>The scan\<close>

text \<open>
  The loop of \<open>reconcile_once\<close>, with a clock reading and a fresh id per dispatch: the authorities of the tasks it
  started, in order. An exception ends it.
\<close>

fun dispatch_all ::
  "(string \<Rightarrow> string) \<Rightarrow> (string \<times> instant \<times> string) list \<Rightarrow> run_dispatcher \<times> db \<Rightarrow> attempt_authority list result \<times> run_dispatcher \<times> db" where
  "dispatch_all sha [] st = (Inr [], st)"
| "dispatch_all sha ((new_id, now, m) # rest) st =
     (case dispatch_run sha new_id now m st of
        (Inl e, st1) \<Rightarrow> (Inl e, st1)
      | (Inr won, st1) \<Rightarrow>
          (case dispatch_all sha rest st1 of
             (Inl e, st2) \<Rightarrow> (Inl e, st2)
           | (Inr aus, st2) \<Rightarrow> (Inr (case won of None \<Rightarrow> aus | Some au \<Rightarrow> au # aus), st2)))"

text \<open>\<open>before_scan\<close> is a parameter; \<open>clock\<close> and \<open>ids\<close> give the readings and identifiers of the dispatches by position.\<close>

definition reconcile_once ::
  "(string \<Rightarrow> string) \<Rightarrow> (db \<Rightarrow> unit result \<times> db) \<Rightarrow> instant \<Rightarrow> (nat \<Rightarrow> instant) \<Rightarrow> (nat \<Rightarrow> string) \<Rightarrow> int \<Rightarrow> bool \<Rightarrow> run_dispatcher \<times> db \<Rightarrow>
   attempt_authority list result \<times> run_dispatcher \<times> db" where
  "reconcile_once sha before_scan now clock ids scan_limit stop_requested st =
     (case st of (dp, d) \<Rightarrow>
        if stop_requested then (Inr [], dp, d)
        else
          (case before_scan d of
             (Inl e, d1) \<Rightarrow> (Inl e, dp, d1)
           | (Inr _, d1) \<Rightarrow>
               (case list_dispatchable_memorial_ids now scan_limit d1 of
                  (Inl e, d2) \<Rightarrow> (Inl e, dp, d2)
                | (Inr ms, d2) \<Rightarrow>
                    dispatch_all sha (map (\<lambda>(k, m). (ids k, clock k, m)) (enumerate 0 ms)) (dp, d2))))"

end
