(* ===== verification/Run_Closing.thy ===== *)
theory Run_Closing
  imports Run_Completion Attempt_Safety Run_State_Safety
begin

text \<open>
  What the statements that close a run have in common: one open root is replaced, the run state becomes
  terminal, and one event is appended. The lemmas here are about single statements and their sequence; the
  operations are composed of them in the next theory.
\<close>

section \<open>Work on attempts\<close>

definition active_memorials :: "db \<Rightarrow> string set" where
  "active_memorials d = at_memorial ` {a \<in> set (db_attempts d). active a}"

text \<open>A dead-lettered attempt has used up the budget.\<close>

definition dead_final :: "db \<Rightarrow> bool" where
  "dead_final d = (\<forall>a \<in> set (db_attempts d). at_status a = DeadLetter \<longrightarrow> at_max a \<le> at_no a)"

text \<open>
  An operation of the ledger that revives no memorial: it changes attempts only, those active after it belong to
  memorials that had one before, and it dead-letters only the last attempt of a budget.
\<close>

definition ledger_work :: "db \<Rightarrow> db \<Rightarrow> bool" where
  "ledger_work d d' =
     (\<exists>rows. d' = d\<lparr>db_attempts := rows\<rparr> \<and> active_memorials d' \<subseteq> active_memorials d \<and> (dead_final d \<longrightarrow> dead_final d'))"

lemma ledger_work_refl [simp]: "ledger_work d d"
  by (auto simp: ledger_work_def intro: exI [of _ "db_attempts d"])

lemma ledger_work_trans: "ledger_work d d' \<Longrightarrow> ledger_work d' d'' \<Longrightarrow> ledger_work d d''"
  by (auto simp: ledger_work_def)

lemma ledger_work_same:
  assumes "ledger_work d d'"
  shows "db_memorials d' = db_memorials d" "db_outbox d' = db_outbox d" "db_run_states d' = db_run_states d"
    "db_edicts d' = db_edicts d" "db_checkpoints d' = db_checkpoints d" "active_memorials d' \<subseteq> active_memorials d"
    "dead_final d \<Longrightarrow> dead_final d'"
  using assms by (auto simp: ledger_work_def)

lemma update_work:
  assumes "update_attempts p f d = Inr (n, d')"
    and "\<And>a. p a \<Longrightarrow> active (f a) \<Longrightarrow> active a \<and> at_memorial (f a) = at_memorial a"
    and "\<And>a. a \<in> set (db_attempts d) \<Longrightarrow> p a \<Longrightarrow> at_status (f a) = DeadLetter \<Longrightarrow> at_max (f a) \<le> at_no (f a)"
  shows "ledger_work d d'"
proof -
  have d': "d' = d\<lparr>db_attempts := update_rows p f (db_attempts d)\<rparr>" using update_attempts_Inr [OF assms(1)] by simp
  have "active_memorials d' \<subseteq> active_memorials d"
    using assms(2) by (fastforce simp: d' active_memorials_def set_update_rows split: if_split_asm)
  moreover have "dead_final d'" if "dead_final d"
    using that assms(3) by (auto simp: d' dead_final_def set_update_rows split: if_split_asm)
  ultimately show ?thesis using d' by (auto simp: ledger_work_def)
qed

lemma insert_retry_frame:
  assumes "insert_retry_attempt sha ni prev av cr d = Inr (a, d')"
  shows "\<exists>c. d' = d\<lparr>db_attempts := db_attempts d @
    [new_attempt ni (at_memorial prev) (at_no prev + 1) (at_fence prev) av (at_max prev) cr c]\<rparr>"
  using assms by (auto simp: insert_retry_attempt_def insert_attempt_def split: if_split_asm option.split_asm)

lemma retry_work:
  assumes "ledger_work d d1" "insert_retry_attempt sha ni prev av cr d1 = Inr (a, d')"
    and "at_memorial prev \<in> active_memorials d"
  shows "ledger_work d d'"
proof -
  obtain c where d': "d' = d1\<lparr>db_attempts := db_attempts d1 @
      [new_attempt ni (at_memorial prev) (at_no prev + 1) (at_fence prev) av (at_max prev) cr c]\<rparr>"
    using insert_retry_frame [OF assms(2)] by blast
  then have "active_memorials d' \<subseteq> insert (at_memorial prev) (active_memorials d1)"
    by (auto simp: active_memorials_def new_attempt_def)
  moreover have "dead_final d'" if "dead_final d1" using that by (auto simp: dead_final_def d' new_attempt_def)
  ultimately show ?thesis using assms(1,3) d' by (auto simp: ledger_work_def)
qed

lemma select_attemptD: "select_attempt d i = Inr (Some a) \<Longrightarrow> a \<in> set (db_attempts d) \<and> at_id a = i"
  by (auto simp: select_attempt_def split: option.splits dest: row_by_SomeD)

lemma active_memorialsI: "a \<in> set (db_attempts d) \<Longrightarrow> active a \<Longrightarrow> at_memorial a \<in> active_memorials d"
  by (auto simp: active_memorials_def)

lemma claim_row_work:
  assumes "claim_row ow now l c d = Inr (r, d')"
  shows "ledger_work d d'"
proof (cases "now < at_available c")
  case True
  then show ?thesis using assms by (simp add: claim_row_def)
next
  case False
  let ?p = "\<lambda>a. at_id a = at_id c \<and> at_status a = Claimable \<and> at_version a = at_version c \<and> at_available a \<le> now"
  obtain n d1 where "update_attempts ?p (claimed_row ow now l) d = Inr (n, d1)" "d' = d1"
    using assms False by (auto simp: claim_row_def split: if_split_asm option.split_asm)
  then show ?thesis by (auto intro!: update_work [where p = ?p] simp: active_def claimed_row_def dest: sym)
qed

lemma expire_claim_work:
  assumes r: "expire_claim sha ni c now d = Inr (r, d')" and ok: "ledger_ok d" and c: "c \<in> set (db_attempts d)" "active c"
  shows "ledger_work d d'"
proof -
  let ?p = "\<lambda>a. at_id a = at_id c \<and> at_status a = Claimed \<and> at_owner a = at_owner c \<and>
                at_fence a = at_fence c \<and> at_version a = at_version c \<and>
                (case at_expires a of None \<Rightarrow> False | Some e \<Rightarrow> e \<le> now)"
  let ?f = "expired_row (at_max c \<le> at_no c) now"
  obtain n d1 where u: "update_attempts ?p ?f d = Inr (n, d1)"
    and alt: "d' = d1 \<or> (\<exists>a. insert_retry_attempt sha ni c now now d1 = Inr (a, d'))"
    using r by (auto simp: expire_claim_def Let_def split: if_split_asm)
  have "ledger_work d d1" using u
  proof (rule update_work)
    show "at_max (?f a) \<le> at_no (?f a)" if "a \<in> set (db_attempts d)" "?p a" "at_status (?f a) = DeadLetter" for a
      using same_id_eq [OF ok c(1) that(1)] that(2,3) by (auto simp: expired_row_def split: if_split_asm)
  qed (simp add: active_def expired_row_def split: if_split_asm)
  with alt show ?thesis using retry_work active_memorialsI [OF c] by blast
qed

lemma claim_work:
  assumes ok: "ledger_ok d" and "claim sha ni m ow now l d = (res, d')"
  shows "ledger_work d d'"
proof (cases res)
  case (Inl e)
  with assms have "d' = d"
    using atomically_error_keeps [of "\<lambda>d. except_integrity (AttemptConflict ''attempt claim or retry conflict'')
      (claim_body sha ni m ow now l d)" d e] by (auto simp: claim_def split: if_split_asm)
  then show ?thesis by simp
next
  case (Inr r)
  then have body: "claim_body sha ni m ow now l d = Inr (r, d')" using assms by (auto simp: claim_def split: if_split_asm)
  show ?thesis
  proof (cases "first_of (select_ordered (\<lambda>a. at_memorial a = m \<and> active a) (\<lambda>a. (at_available a, at_created a, at_id a)) (db_attempts d))")
    case None
    then show ?thesis using body by (auto simp: claim_body_def split: if_split_asm)
  next
    case (Some c)
    then have c: "c \<in> set (db_attempts d)" "active c" using first_of_select_Some [OF Some] by auto
    consider "d' = d" | "claim_row ow now l c d = Inr (r, d')"
      | rep d1 where "expire_claim sha ni c now d = Inr (rep, d1)"
          "(case rep of None \<Rightarrow> Inr (None, d1) | Some n \<Rightarrow> claim_row ow now l n d1) = Inr (r, d')"
      using body Some by (auto simp: claim_body_def split: if_split_asm)
    then show ?thesis
    proof cases
      case 2
      then show ?thesis by (rule claim_row_work)
    next
      case 3
      have w: "ledger_work d d1" using expire_claim_work [OF 3(1) ok c] .
      show ?thesis
      proof (cases rep)
        case None
        then show ?thesis using 3(2) w by simp
      next
        case (Some n)
        then have "claim_row ow now l n d1 = Inr (r, d')" using 3(2) by simp
        from ledger_work_trans [OF w claim_row_work [OF this]] show ?thesis .
      qed
    qed simp
  qed
qed

lemma heartbeat_work:
  assumes "heartbeat i ow f now d = (res, d')"
  shows "ledger_work d d'"
proof (cases res)
  case (Inl e)
  with assms have "d' = d" by (auto simp: heartbeat_def atomically_def split: if_split_asm sum.split_asm)
  then show ?thesis by simp
next
  case (Inr b)
  then have body: "heartbeat_body i ow f now d = Inr (b, d')" using assms by (auto simp: heartbeat_def split: if_split_asm)
  obtain sel where sel: "select_attempt d i = Inr sel" using body by (auto simp: heartbeat_body_def)
  show ?thesis
  proof (cases "\<exists>c. sel = Some c \<and> authority_at c ow f now")
    case False
    then show ?thesis using body sel by (cases sel) (auto simp: heartbeat_body_def)
  next
    case True
    then obtain c where c: "sel = Some c" "authority_at c ow f now" by blast
    let ?p = "\<lambda>a. at_id a = i \<and> authority_at a ow f now \<and> at_version a = at_version c"
    let ?f = "renewed_row now (the (at_expires c) - the (at_heartbeat c))"
    obtain n d1 where u: "update_attempts ?p ?f d = Inr (n, d1)"
      and rest: "(if n = 1 then and_then (select_attempt d1 i) (\<lambda>durable.
         if durable = None then Inl (AttemptConflict ''heartbeat attempt disappeared'') else Inr (True, d1)) else Inr (False, d1)) = Inr (b, d')"
      using body sel c by (auto simp: heartbeat_body_def Let_def)
    have "d' = d1" using rest by (auto split: if_split_asm)
    then show ?thesis using u by (auto intro!: update_work [OF u] simp: active_def authority_at_def renewed_row_def)
  qed
qed

lemma complete_current_work:
  assumes ok: "ledger_ok d" and "complete_current sha ni i ow f o' d = Inr (b, d')"
  shows "ledger_work d d'"
proof -
  obtain sel where sel: "select_attempt d i = Inr sel" and nb: "\<not> blank i" "\<not> blank ow" "0 < f"
    using assms by (auto simp: complete_current_def split: if_split_asm)
  show ?thesis
  proof (cases "\<exists>c. sel = Some c \<and> authority_at c ow f (out_completed_at o')")
    case False
    then show ?thesis using assms sel nb by (cases sel) (auto simp: complete_current_def)
  next
    case True
    then obtain c where c: "sel = Some c" "authority_at c ow f (out_completed_at o')" by blast
    let ?p = "\<lambda>a. at_id a = i \<and> authority_at a ow f (out_completed_at o') \<and> at_version a = at_version c"
    obtain n d1 where u: "update_attempts ?p (completed_row (completion_status c o') o') d = Inr (n, d1)"
      and alt: "d' = d1 \<or> (\<exists>a. insert_retry_attempt sha ni c (the (out_retry_at o')) (out_completed_at o') d1 = Inr (a, d'))"
      using assms sel nb c by (auto simp: complete_current_def Let_def split: if_split_asm)
    have cin: "c \<in> set (db_attempts d)" "at_id c = i" using select_attemptD sel c(1) by auto
    have w: "ledger_work d d1" using u
    proof (rule update_work)
      let ?f = "completed_row (completion_status c o') o'"
      show "at_max (?f a) \<le> at_no (?f a)" if "a \<in> set (db_attempts d)" "?p a" "at_status (?f a) = DeadLetter" for a
        using same_id_eq [OF ok cin(1) that(1)] that(2,3) cin(2)
        by (auto simp: completed_row_def completion_status_def split: if_split_asm attempt_disposition.split_asm)
    qed (auto simp: active_def authority_at_def completed_row_def)
    have "active c" using c(2) by (simp add: authority_at_def active_def)
    then have "at_memorial c \<in> active_memorials d" using select_attemptD sel c(1) active_memorialsI by blast
    with alt w show ?thesis using retry_work by blast
  qed
qed

lemma complete_work:
  assumes "ledger_ok d" "complete sha ni i ow f o' d = (res, d')"
  shows "ledger_work d d'"
  using assms complete_current_work [OF assms(1)]
  by (cases res) (auto simp: complete_def atomically_def split: sum.split_asm prod.split_asm)

lemma resume_work:
  assumes "resume_suspended_current i m v av d = Inr (b, d')"
  shows "ledger_work d d'"
proof -
  let ?p = "\<lambda>a. at_id a = i \<and> at_memorial a = m \<and> at_status a = Suspended \<and> at_version a = v"
  obtain n where "update_attempts ?p (resumed_row av) d = Inr (n, d')"
    using assms by (auto simp: resume_suspended_current_def split: if_split_asm)
  then show ?thesis by (rule update_work) (auto simp: active_def resumed_row_def)
qed

section \<open>Closing a root\<close>

lemma open_status_iff: "s \<notin> {TCompleted, TFailed, TCancelled} \<longleftrightarrow> open_status s"
  by (cases s) (simp_all add: open_status_def)

definition terminal_types :: "string set" where
  "terminal_types = {''execution.completed'', ''execution.failed'', ''execution.cancelled''}"

text \<open>The terminal events of a run that the outbox has.\<close>

definition terminal_events :: "db \<Rightarrow> string \<Rightarrow> outbox_row list" where
  "terminal_events d m = filter (\<lambda>o'. ob_memorial o' = Some m \<and> ob_type o' \<in> terminal_types) (db_outbox d)"

text \<open>
  The open root \<open>m\<close> was replaced by \<open>f\<close> of it, its run state, if there is one, is terminal and waits for nothing, the
  loop state of its edict is gone, and the event was appended.
\<close>

definition root_closed ::
  "(string \<Rightarrow> string) \<Rightarrow> (string \<Rightarrow> string) \<Rightarrow> string \<Rightarrow> (memorial_row \<Rightarrow> memorial_row) \<Rightarrow> run_phase \<Rightarrow> event_envelope \<Rightarrow> db \<Rightarrow> db \<Rightarrow> bool" where
  "root_closed sha redact m f phase ev d d' =
     ((\<exists>r \<in> set (db_memorials d). mem_id r = m \<and> mem_dag_node r = None \<and> open_status (mem_status r) \<and>
         db_memorials d' = update_rows (\<lambda>x. x = r) f (db_memorials d) \<and>
         mem_edict r \<notin> set (db_checkpoints d') \<union> set (db_steers d')) \<and>
      db_attempts d' = db_attempts d \<and>
      (\<exists>c. db_outbox d' = db_outbox d @ [new_outbox_row ev c]) \<and> ee_id ev \<notin> ob_id ` set (db_outbox d) \<and>
      states_ok sha redact d' \<and> states_evolve d d' \<and>
      (\<forall>s \<in> set (db_run_states d'). row_memorial s = m \<longrightarrow>
         rs_phase (rr_state s) = phase \<and> cont_pending (rs_continuation (rr_state s)) = None))"

text \<open>
  The part of it that every way to end a run has, also those that leave the loop state of the edict alone: the attempts
  are as they were, the open root is closed, the run states are well-formed and the event is the only new one.
\<close>

definition root_ended ::
  "(string \<Rightarrow> string) \<Rightarrow> (string \<Rightarrow> string) \<Rightarrow> string \<Rightarrow> (memorial_row \<Rightarrow> memorial_row) \<Rightarrow> event_envelope \<Rightarrow> db \<Rightarrow> db \<Rightarrow> bool" where
  "root_ended sha redact m f ev d d' =
     ((\<exists>r \<in> set (db_memorials d). mem_id r = m \<and> mem_dag_node r = None \<and> open_status (mem_status r) \<and>
         db_memorials d' = update_rows (\<lambda>x. x = r) f (db_memorials d)) \<and>
      db_attempts d' = db_attempts d \<and> (\<exists>c. db_outbox d' = db_outbox d @ [new_outbox_row ev c]) \<and> states_ok sha redact d')"

lemma root_closed_ended: "root_closed sha redact m f phase ev d d' \<Longrightarrow> root_ended sha redact m f ev d d'"
  unfolding root_closed_def root_ended_def by blast

lemma finalize_frame [simp]:
  "db_memorials (finalize_outer_loop_terminal e d) = db_memorials d"
  "db_attempts (finalize_outer_loop_terminal e d) = db_attempts d"
  "db_run_states (finalize_outer_loop_terminal e d) = db_run_states d"
  "db_outbox (finalize_outer_loop_terminal e d) = db_outbox d"
  "e \<notin> set (db_checkpoints (finalize_outer_loop_terminal e d))"
  "e \<notin> set (db_steers (finalize_outer_loop_terminal e d))"
  by (simp_all add: finalize_outer_loop_terminal_def Let_def split: option.split)

lemma terminal_state_pending [simp]: "cont_pending (rs_continuation (terminal_state phase t s)) = None"
  by (cases "rs_continuation s") (simp_all add: terminal_state_def Let_def)

lemma terminal_state_sel [simp]:
  "rs_memorial (terminal_state phase t s) = rs_memorial s" "rs_phase (terminal_state phase t s) = phase"
  "rs_edict (terminal_state phase t s) = rs_edict s" "rs_version (terminal_state phase t s) = rs_version s"
  by (simp_all add: terminal_state_def Let_def)

lemma cas_existing_Inr:
  assumes ok: "states_ok sha redact d"
    and cas: "cas_existing_run_state sha redact secret m e phase t d = Inr (b, d')"
  shows "(\<exists>rows. d' = d\<lparr>db_run_states := rows\<rparr>) \<and> states_ok sha redact d' \<and> states_evolve d d' \<and>
    (\<forall>s \<in> set (db_run_states d'). row_memorial s = m \<longrightarrow>
       rs_phase (rr_state s) = phase \<and> cont_pending (rs_continuation (rr_state s)) = None)"
proof -
  obtain loaded where ld: "load sha redact m d = Inr loaded"
    and rest: "(case loaded of None \<Rightarrow> Inr (False, d)
       | Some current \<Rightarrow> if rs_edict current \<noteq> e then Inl (AttemptConflict ''RunState does not bind the root Memorial Edict'')
           else and_then (compare_and_swap sha redact secret (terminal_state phase t current) (rs_version current) d) (\<lambda>(s, d'). Inr (True, d'))) = Inr (b, d')"
    using cas by (auto simp: cas_existing_run_state_def)
  show ?thesis
  proof (cases loaded)
    case None
    then have "row_by row_memorial m (db_run_states d) = None" using ld by (simp add: load_eq [OF ok])
    moreover have "d' = d" using rest None by simp
    ultimately show ?thesis using ok by (auto simp: row_by_None_iff intro: exI [of _ "db_run_states d"])
  next
    case (Some cur)
    then obtain s where cas': "compare_and_swap sha redact secret (terminal_state phase t cur) (rs_version cur) d = Inr (s, d')"
      using rest by (auto split: if_split_asm)
    have m: "rs_memorial cur = m" using load_SomeD(1) [of sha redact m d cur] ld Some by (auto simp: row_memorial_def)
    from compare_and_swap_Inr [OF ok cas'] obtain r where
      s: "s = (terminal_state phase t cur)\<lparr>rs_version := rs_version cur + 1\<rparr>" "valid_run_state sha redact s" "decision_binding_ok s"
      and sw: "swapped r s d d'" and r: "row_memorial r = m"
      using m by auto
    note k = swapped_keeps [OF ok sw s(2,3)]
    have d': "d' = d\<lparr>db_run_states := update_rows (\<lambda>x. x = r) (\<lambda>x. x\<lparr>rr_state := s\<rparr>) (db_run_states d)\<rparr>"
      using sw by (simp add: swapped_def)
    have "x = r" if "x \<in> set (db_run_states d)" "row_memorial x = m" for x
    proof -
      have "distinct (map row_memorial (db_run_states d))" "r \<in> set (db_run_states d)"
        using ok sw by (auto simp: states_ok_def swapped_def)
      then show ?thesis using that r by (auto simp: distinct_map inj_on_def)
    qed
    then have "rs_phase (rr_state x) = phase \<and> cont_pending (rs_continuation (rr_state x)) = None"
      if "x \<in> set (db_run_states d')" "row_memorial x = m" for x
      using that by (auto simp: d' set_update_rows s(1) split: if_split_asm)
    with k d' show ?thesis by blast
  qed
qed

text \<open>The sequence of statements every closing operation has.\<close>

lemma closing_statements:
  assumes ok: "states_ok sha redact d" and dist: "distinct (map mem_id (db_memorials d))"
    and upd: "update_memorials (\<lambda>r. mem_id r = m \<and> mem_edict r = e \<and> mem_dag_node r = None \<and> open_status (mem_status r)) f d = (1, d1)"
    and cas: "cas_existing_run_state sha redact secret m e phase t d1 = Inr (b, d2)"
    and add: "outbox_add sha ev (finalize_outer_loop_terminal e d2) = Inr d'"
  shows "root_closed sha redact m f phase ev d d'"
proof -
  let ?p = "\<lambda>r. mem_id r = m \<and> (mem_edict r = e \<and> mem_dag_node r = None \<and> open_status (mem_status r))"
  have one: "count_rows ?p (db_memorials d) = 1"
    and d1: "d1 = d\<lparr>db_memorials := update_rows ?p f (db_memorials d)\<rparr>"
    using upd by (auto simp: update_memorials_def)
  obtain r where r: "row_by mem_id m (db_memorials d) = Some r" and pr: "mem_edict r = e \<and> mem_dag_node r = None \<and> open_status (mem_status r)"
    using one unfolding count_rows_by_key [OF dist] by (auto split: option.split_asm if_split_asm)
  have rin: "r \<in> set (db_memorials d)" "mem_id r = m" using row_by_SomeD [OF r] by auto
  have "?p x \<longleftrightarrow> x = r" if "x \<in> set (db_memorials d)" for x
    using row_by_unique [OF dist that, of m] r rin(2) pr by auto
  then have rows: "update_rows ?p f (db_memorials d) = update_rows (\<lambda>x. x = r) f (db_memorials d)"
    by (simp add: update_rows_def cong: map_cong)
  have ok1: "states_ok sha redact d1" using ok by (simp add: d1 states_ok_def)
  obtain rows2 where d2: "d2 = d1\<lparr>db_run_states := rows2\<rparr>"
    and s2: "states_ok sha redact d2" "states_evolve d1 d2"
      "\<And>s. s \<in> set (db_run_states d2) \<Longrightarrow> row_memorial s = m \<Longrightarrow>
         rs_phase (rr_state s) = phase \<and> cont_pending (rs_continuation (rr_state s)) = None"
    using cas_existing_Inr [OF ok1 cas] by blast
  obtain c where d': "d' = (finalize_outer_loop_terminal e d2)\<lparr>db_outbox := db_outbox (finalize_outer_loop_terminal e d2) @ [new_outbox_row ev c]\<rparr>"
    and new: "ee_id ev \<notin> ob_id ` set (db_outbox d2)"
    using outbox_add_Inr [OF add] by auto
  have "db_run_states d' = db_run_states d2" by (simp add: d')
  moreover have "states_evolve d d2" using s2(2) by (simp add: states_evolve_def d1)
  ultimately show ?thesis
    unfolding root_closed_def using s2(1,3) rin pr new rows
    by (auto simp: d' d2 d1 states_ok_def states_evolve_def intro!: bexI [of _ r])
qed

end
