(* ===== verification/Run_Lifecycle.thy ===== *)
theory Run_Lifecycle
  imports Run_Closing
begin

text \<open>
  What the end of a run promises: completion, cancellation and exhausted retries close the root, retire its
  attempts, finish its run state and announce it with one event, all or nothing; and a root that was closed stays
  closed, without a live attempt and with exactly one terminal event, whatever is done afterwards.
\<close>

section \<open>The invariant\<close>

definition closed_root :: "memorial_row \<Rightarrow> bool" where
  "closed_root r = (mem_dag_node r = None \<and> \<not> open_status (mem_status r))"

text \<open>
  The invariant of runs, with a set of roots whose last attempt is still to be retired: an open root has no terminal
  event, a closed one has exactly one and no active attempt.
\<close>

definition runs_inv :: "(string \<Rightarrow> string) \<Rightarrow> (string \<Rightarrow> string) \<Rightarrow> string set \<Rightarrow> db \<Rightarrow> bool" where
  "runs_inv sha redact X d =
     (ledger_ok d \<and> dead_final d \<and> states_ok sha redact d \<and> distinct (map mem_id (db_memorials d)) \<and>
      (\<forall>o' \<in> set (db_outbox d). \<forall>m. ob_memorial o' = Some m \<longrightarrow> m \<in> mem_id ` set (db_memorials d)) \<and>
      (\<forall>r \<in> set (db_memorials d). mem_dag_node r = None \<longrightarrow>
         length (terminal_events d (mem_id r)) = (if open_status (mem_status r) then 0 else 1)) \<and>
      (\<forall>r \<in> set (db_memorials d). closed_root r \<longrightarrow> mem_id r \<in> active_memorials d \<longrightarrow> mem_id r \<in> X))"

definition runs_ok :: "(string \<Rightarrow> string) \<Rightarrow> (string \<Rightarrow> string) \<Rightarrow> db \<Rightarrow> bool" where
  "runs_ok sha redact d = runs_inv sha redact {} d"

definition run_evolves :: "db \<Rightarrow> db \<Rightarrow> bool" where
  "run_evolves d d' =
     (evolves d d' \<and> (\<forall>r \<in> set (db_memorials d). closed_root r \<longrightarrow> r \<in> set (db_memorials d')))"

lemma run_evolves_refl [simp]: "run_evolves d d"
  by (simp add: run_evolves_def)

lemma run_evolves_trans: "run_evolves d d' \<Longrightarrow> run_evolves d' d'' \<Longrightarrow> run_evolves d d''"
  unfolding run_evolves_def using evolves_trans by blast

text \<open>A function that closes a row: the row keeps its identity and is not open any more.\<close>

definition closes_row :: "(memorial_row \<Rightarrow> memorial_row) \<Rightarrow> bool" where
  "closes_row f = (\<forall>r. mem_id (f r) = mem_id r \<and> mem_edict (f r) = mem_edict r \<and> mem_dag_node (f r) = mem_dag_node r \<and> \<not> open_status (mem_status (f r)))"

lemma runs_invD:
  assumes "runs_inv sha redact X d"
  shows "ledger_ok d" "states_ok sha redact d" "distinct (map mem_id (db_memorials d))"
    and "r \<in> set (db_memorials d) \<Longrightarrow> mem_dag_node r = None \<Longrightarrow>
           length (terminal_events d (mem_id r)) = (if open_status (mem_status r) then 0 else 1)"
    and "dead_final d"
    and "r \<in> set (db_memorials d) \<Longrightarrow> closed_root r \<Longrightarrow> mem_id r \<in> active_memorials d \<Longrightarrow> mem_id r \<in> X"
  using assms by (simp_all add: runs_inv_def)

lemma ledger_work_inv:
  assumes inv: "runs_inv sha redact X d" and w: "ledger_work d d'" and ok: "ledger_ok d'"
  shows "runs_inv sha redact X d'"
proof -
  note same = ledger_work_same [OF w]
  have "terminal_events d' m = terminal_events d m" for m by (simp add: terminal_events_def same)
  moreover have "states_ok sha redact d'" using runs_invD(2) [OF inv] by (simp add: states_ok_def same)
  moreover have "mem_id r \<in> X" if "r \<in> set (db_memorials d)" "closed_root r" "mem_id r \<in> active_memorials d'" for r
    using runs_invD(6) [OF inv that(1,2)] same(6) that(3) by blast
  ultimately show ?thesis using inv ok same(7) [OF runs_invD(5) [OF inv]] unfolding runs_inv_def by (simp add: same)
qed

lemma ledger_work_evolves: "ledger_work d d' \<Longrightarrow> evolves d d' \<Longrightarrow> run_evolves d d'"
  by (auto simp: run_evolves_def dest: ledger_work_same(1))

lemma memorials_row_eq:
  "distinct (map mem_id (db_memorials d)) \<Longrightarrow> r \<in> set (db_memorials d) \<Longrightarrow> x \<in> set (db_memorials d) \<Longrightarrow>
     mem_id x = mem_id r \<Longrightarrow> x = r"
  by (auto simp: distinct_map inj_on_def)

text \<open>Closing a root keeps the invariant, except that its attempt may still be active.\<close>

lemma root_ended_inv:
  assumes inv: "runs_inv sha redact X d" and rc: "root_ended sha redact m f ev d d'"
    and f: "closes_row f" and ev: "ee_memorial ev = Some m" "ee_type ev \<in> terminal_types"
  shows "runs_inv sha redact (insert m X) d'" "run_evolves d d'"
    "\<exists>r \<in> set (db_memorials d'). mem_id r = m \<and> closed_root r"
proof -
  obtain r c where r: "r \<in> set (db_memorials d)" "mem_id r = m" "mem_dag_node r = None" "open_status (mem_status r)"
    and mems: "db_memorials d' = update_rows (\<lambda>x. x = r) f (db_memorials d)"
    and att: "db_attempts d' = db_attempts d" and out: "db_outbox d' = db_outbox d @ [new_outbox_row ev c]"
    and st: "states_ok sha redact d'"
    using rc unfolding root_ended_def by blast
  have fr: "mem_id (f r) = m" "mem_dag_node (f r) = None" "\<not> open_status (mem_status (f r))"
    using f r by (auto simp: closes_row_def)
  have ids: "map mem_id (db_memorials d') = map mem_id (db_memorials d)"
    unfolding mems using f by (intro map_update_rows) (auto simp: closes_row_def)
  then have idset: "mem_id ` set (db_memorials d') = mem_id ` set (db_memorials d)" by (metis list.set_map)
  have led: "ledger_ok d'" using runs_invD(1) [OF inv] att idset by (simp add: ledger_ok_def has_memorial_iff)
  have te: "terminal_events d' m' = terminal_events d m' @ (if m' = m then [new_outbox_row ev c] else [])" for m'
    using ev by (simp add: terminal_events_def out new_outbox_row_def)
  have rows: "x = f r \<or> (x \<in> set (db_memorials d) \<and> mem_id x \<noteq> m)" if "x \<in> set (db_memorials d')" for x
    using that memorials_row_eq [OF runs_invD(3) [OF inv] r(1)] r(2) by (auto simp: mems set_update_rows split: if_split_asm)
  have act: "active_memorials d' = active_memorials d" by (simp add: active_memorials_def att)
  have m0: "terminal_events d m = []" using runs_invD(4) [OF inv r(1,3)] r(2,4) by simp
  have "length (terminal_events d' (mem_id x)) = (if open_status (mem_status x) then 0 else 1)"
    if "x \<in> set (db_memorials d')" "mem_dag_node x = None" for x
    using rows [OF that(1)] that(2) fr m0 runs_invD(4) [OF inv, of x] by (auto simp: te)
  moreover have "mem_id x \<in> insert m X" if "x \<in> set (db_memorials d')" "closed_root x" "mem_id x \<in> active_memorials d'" for x
    using rows [OF that(1)] that(2,3) fr runs_invD(6) [OF inv, of x] by (auto simp: act)
  moreover have "\<forall>o' \<in> set (db_outbox d'). \<forall>m. ob_memorial o' = Some m \<longrightarrow> m \<in> mem_id ` set (db_memorials d')"
    using inv r(1,2) ev(1) unfolding idset by (auto simp: out new_outbox_row_def runs_inv_def)
  ultimately show "runs_inv sha redact (insert m X) d'"
    unfolding runs_inv_def using led st ids runs_invD(3,5) [OF inv] by (simp add: dead_final_def att)
  have "x \<in> set (db_memorials d')" if "x \<in> set (db_memorials d)" "closed_root x" for x
    using that r(4) by (auto simp: mems set_update_rows closed_root_def image_iff)
  then show "run_evolves d d'" by (simp add: run_evolves_def evolves_mono att)
  show "\<exists>r \<in> set (db_memorials d'). mem_id r = m \<and> closed_root r"
    using r(1) fr by (intro bexI [of _ "f r"]) (auto simp: mems set_update_rows closed_root_def image_iff)
qed

lemmas root_closed_inv = root_ended_inv [OF _ root_closed_ended]

lemma runs_inv_retired:
  assumes "runs_inv sha redact (insert m X) d" "m \<notin> active_memorials d"
  shows "runs_inv sha redact X d"
  using assms unfolding runs_inv_def by blast

section \<open>Steps that leave the roots as they are\<close>

lemma progress_keeps:
  assumes inv: "runs_ok sha redact d" and p: "\<And>r. p r \<Longrightarrow> open_status (mem_status r)"
    and f: "\<And>r. p r \<Longrightarrow> mem_id (f r) = mem_id r \<and> mem_dag_node (f r) = mem_dag_node r \<and> open_status (mem_status (f r))"
  shows "runs_ok sha redact (d\<lparr>db_memorials := update_rows p f (db_memorials d)\<rparr>)"
    "run_evolves d (d\<lparr>db_memorials := update_rows p f (db_memorials d)\<rparr>)"
proof -
  let ?d = "d\<lparr>db_memorials := update_rows p f (db_memorials d)\<rparr>"
  have inv0: "runs_inv sha redact {} d" using inv by (simp add: runs_ok_def)
  have te: "terminal_events ?d m = terminal_events d m" for m by (simp add: terminal_events_def)
  have ids: "map mem_id (db_memorials ?d) = map mem_id (db_memorials d)" using f by (auto simp: update_rows_def)
  then have idset: "mem_id ` set (db_memorials ?d) = mem_id ` set (db_memorials d)" by (metis list.set_map)
  have led: "ledger_ok ?d" using runs_invD(1) [OF inv0] idset by (simp add: ledger_ok_def has_memorial_iff)
  have rows: "\<exists>x. x \<in> set (db_memorials d) \<and> mem_id x = mem_id y \<and> mem_dag_node x = mem_dag_node y \<and>
      (open_status (mem_status x) \<longleftrightarrow> open_status (mem_status y))" if "y \<in> set (db_memorials ?d)" for y
    using that p f by (auto simp: set_update_rows split: if_split_asm)
  have "length (terminal_events d (mem_id y)) = (if open_status (mem_status y) then 0 else 1)"
    if "y \<in> set (db_memorials ?d)" "mem_dag_node y = None" for y
    using rows [OF that(1)] that(2) runs_invD(4) [OF inv0] by metis
  moreover have "mem_id y \<notin> active_memorials ?d" if "y \<in> set (db_memorials ?d)" "closed_root y" for y
    using rows [OF that(1)] that(2) runs_invD(6) [OF inv0] by (fastforce simp: closed_root_def active_memorials_def)
  moreover have "states_ok sha redact ?d" "dead_final ?d" using runs_invD(2,5) [OF inv0] by (simp_all add: states_ok_def dead_final_def)
  ultimately show "runs_ok sha redact ?d"
    using led ids runs_invD(3) [OF inv0] inv0 unfolding runs_ok_def runs_inv_def te idset by simp
  show "run_evolves d ?d"
    using p by (auto simp: run_evolves_def evolves_mono set_update_rows closed_root_def image_iff)
qed

lemma other_keeps:
  assumes inv: "runs_ok sha redact d" and same: "db_attempts d' = db_attempts d" "db_memorials d' = db_memorials d"
    and te: "\<And>r. r \<in> set (db_memorials d) \<Longrightarrow> mem_dag_node r = None \<Longrightarrow> terminal_events d' (mem_id r) = terminal_events d (mem_id r)"
    and fk: "\<And>o' m. o' \<in> set (db_outbox d') \<Longrightarrow> ob_memorial o' = Some m \<Longrightarrow> m \<in> mem_id ` set (db_memorials d)"
    and st: "states_ok sha redact d'"
  shows "runs_ok sha redact d'" "run_evolves d d'"
proof -
  have "active_memorials d' = active_memorials d" "dead_final d' = dead_final d" "ledger_ok d' = ledger_ok d"
    by (simp_all add: active_memorials_def dead_final_def ledger_ok_def has_memorial_def same)
  then show "runs_ok sha redact d'" using inv st fk unfolding runs_ok_def runs_inv_def by (simp add: same te)
  show "run_evolves d d'" by (simp add: run_evolves_def evolves_mono same)
qed

section \<open>The attempt that ends the run\<close>

text \<open>A completion that is not retried leaves the memorial without an active attempt.\<close>

lemma completion_retires:
  assumes ok: "ledger_ok d" and o': "valid_outcome o'" and ni: "\<not> blank ni"
    and r: "complete_current sha ni i ow f o' d = Inr (True, d')"
    and a: "row_by at_id i (db_attempts d) = Some a"
    and b: "out_disposition o' \<in> {DSucceeded, DFailed} \<or>
            (case row_by at_id i (db_attempts d') of None \<Rightarrow> False | Some b \<Rightarrow> at_status b = DeadLetter)"
  shows "at_memorial a \<notin> active_memorials d'" and "completed_row (completion_status a o') o' a \<in> set (db_attempts d')"
    and "ledger_ok d'" "evolves d d'" "authority_at a ow f (out_completed_at o')"
proof -
  let ?c = "completed_row (completion_status a o') o' a"
  have ain: "a \<in> set (db_attempts d)" "at_id a = i" using row_by_SomeD [OF a] by auto
  from complete_current_cases [OF ok o' ni r] obtain a' where a': "a' \<in> set (db_attempts d)" "at_id a' = i"
    and au': "authority_at a' ow f (out_completed_at o')" and ok': "ledger_ok d'" and ev: "evolves d d'"
    and res: "let rows = update_rows (\<lambda>b. b = a') (completed_row (completion_status a' o') o') (db_attempts d)
              in if out_disposition o' = DRetry \<and> at_no a' < at_max a'
                 then \<exists>c. db_attempts d' = rows @ [new_attempt ni (at_memorial a') (at_no a' + 1) (at_fence a')
                              (the (out_retry_at o')) (at_max a') (out_completed_at o') c]
                 else d' = d\<lparr>db_attempts := rows\<rparr>" by blast
  have eq: "a' = a" using same_id_eq [OF ok ain(1) a'(1)] a'(2) ain(2) by simp
  have au: "authority_at a ow f (out_completed_at o')" using au' eq by simp
  have act: "active a" using au by (simp add: active_def authority_at_def)
  let ?rows = "update_rows (\<lambda>b. b = a) (completed_row (completion_status a o') o') (db_attempts d)"
  have crow: "?c \<in> set ?rows" using ain(1) by (auto simp: set_update_rows image_iff)
  then have cin: "?c \<in> set (db_attempts d')" using res unfolding eq Let_def by (auto split: if_split_asm)
  have "row_by at_id i (db_attempts d') = Some ?c"
    using row_by_id [OF ok' cin] ain(2) by (simp add: completed_row_def)
  with b have fin: "out_disposition o' \<in> {DSucceeded, DFailed} \<or> completion_status a o' = DeadLetter"
    by (simp add: completed_row_def)
  then have nr: "\<not> (out_disposition o' = DRetry \<and> at_no a < at_max a)"
    by (auto simp: completion_status_def)
  have d': "db_attempts d' = ?rows" using res nr unfolding eq Let_def by (auto split: if_split_asm)
  have "\<not> active ?c" using fin by (auto simp: active_def completed_row_def completion_status_def split: attempt_disposition.split)
  then have "at_memorial x \<noteq> at_memorial a" if "x \<in> set (db_attempts d')" "active x" for x
    using that active_same [OF ok _ ain(1) _ act] by (auto simp: d' set_update_rows split: if_split_asm)
  then show "at_memorial a \<notin> active_memorials d'" by (fastforce simp: active_memorials_def)
  show "?c \<in> set (db_attempts d')" "ledger_ok d'" "evolves d d'" "authority_at a ow f (out_completed_at o')"
    using cin ok' ev au by simp_all
qed

section \<open>What the operations do\<close>

lemma closes_projected [simp]: "cc_status c \<in> {TCompleted, TFailed} \<Longrightarrow> closes_row (projected_memorial c)"
  by (auto simp: closes_row_def projected_memorial_def open_status_def)

lemma closes_closed [simp]: "status \<in> {TFailed, TCancelled} \<Longrightarrow> closes_row (closed_memorial status msg reason now)"
  by (auto simp: closes_row_def closed_memorial_def open_status_def)

lemma validate_command_Inr:
  assumes "validate_command c = Inr ()"
  shows "out_disposition (cc_outcome c) \<in> {DSucceeded, DFailed}" "cc_status c \<in> {TCompleted, TFailed}"
    "cc_status c = (if out_disposition (cc_outcome c) = DSucceeded then TCompleted else TFailed)"
  using assms by (auto simp: validate_command_def expected_terminal_def split: attempt_disposition.splits if_split_asm)

lemma event_sel [simp]:
  "ee_memorial (completion_event sha repr c e) = Some (aa_memorial (cc_authority c))"
  "ee_type (completion_event sha repr c e) \<in> terminal_types"
  "ee_id (completion_event sha repr c e) = completion_event_id sha c"
  "ee_memorial (cancellation_event m e reason now) = Some m" "ee_type (cancellation_event m e reason now) \<in> terminal_types"
  "ee_memorial (dead_letter_event p i m k e msg now) = Some m" "ee_type (dead_letter_event p i m k e msg now) \<in> terminal_types"
  by (simp_all add: completion_event_def terminal_event_type_def Let_def cancellation_event_def dead_letter_event_def terminal_types_def)

text \<open>The authority a completion ran under, its root, and the two halves of its work.\<close>

lemma complete_run_Inr:
  assumes inv: "runs_ok sha redact d"
    and run: "complete_run sha redact secret repr hook ni c d = (Inr i, d')"
  shows "\<exists>a e d1. row_by at_id (aa_attempt (cc_authority c)) (db_attempts d) = Some a \<and>
      at_memorial a = aa_memorial (cc_authority c) \<and> i = completion_event_id sha c \<and> validate_command c = Inr () \<and>
      root_closed sha redact (aa_memorial (cc_authority c)) (projected_memorial c)
        (outcome_phase (out_disposition (cc_outcome c))) (completion_event sha repr c e) d d1 \<and>
      complete_current sha ni (aa_attempt (cc_authority c)) (aa_owner (cc_authority c)) (aa_fence (cc_authority c))
        (cc_outcome c) d1 = Inr (True, d')"
proof -
  let ?au = "cc_authority c" and ?t = "out_completed_at (cc_outcome c)"
  have val: "validate_command c = Inr ()" and body: "complete_body sha redact secret repr hook ni c d = Inr (i, d')"
    using run by (auto simp: complete_run_def split: sum.split_asm)
  obtain r where br: "bound_root ?au d = Inr r"
    and rest: "(case update_memorials (open_root (aa_memorial ?au) (mem_edict r)) (projected_memorial c) d of
        (n, d1) \<Rightarrow> if n \<noteq> 1 then Inl (AttemptConflict ''root Memorial projection conflict'')
        else and_then (hook ''after_memorial'') (\<lambda>_.
          and_then (cas_existing_run_state sha redact secret (aa_memorial ?au) (mem_edict r)
             (outcome_phase (out_disposition (cc_outcome c))) ?t d1) (\<lambda>(swapped, d2).
          and_then (if swapped then hook ''after_run_state'' else Inr ()) (\<lambda>_.
          let d3 = finalize_outer_loop_terminal (mem_edict r) d2
          in and_then (hook ''after_terminal_cleanup'') (\<lambda>_.
             and_then (outbox_add sha (completion_event sha repr c (mem_edict r)) d3) (\<lambda>d4.
             and_then (hook ''after_outbox'') (\<lambda>_.
             and_then (hook ''before_attempt'') (\<lambda>_.
             and_then (complete_current sha ni (aa_attempt ?au) (aa_owner ?au) (aa_fence ?au) (cc_outcome c) d4)
               (\<lambda>(completed, d5). if \<not> completed then Inl (AttemptFenceLost ''attempt authority is no longer current'')
                 else Inr (completion_event_id sha c, d5)))))))))) = Inr (i, d')"
    using body unfolding complete_body_def Let_def and_then_Inr_iff by blast
  obtain d1 where u: "update_memorials (open_root (aa_memorial ?au) (mem_edict r)) (projected_memorial c) d = (1, d1)"
    using rest by (auto split: prod.split_asm if_split_asm)
  obtain b d2 d4 where
    cas: "cas_existing_run_state sha redact secret (aa_memorial ?au) (mem_edict r) (outcome_phase (out_disposition (cc_outcome c))) ?t d1 = Inr (b, d2)"
    and add: "outbox_add sha (completion_event sha repr c (mem_edict r)) (finalize_outer_loop_terminal (mem_edict r) d2) = Inr d4"
    and co: "complete_current sha ni (aa_attempt ?au) (aa_owner ?au) (aa_fence ?au) (cc_outcome c) d4 = Inr (True, d')"
    and i: "i = completion_event_id sha c"
    using rest unfolding u Let_def by (auto split: if_split_asm)
  obtain a where a: "row_by at_id (aa_attempt ?au) (db_attempts d) = Some a" "at_memorial a = aa_memorial ?au"
    using br by (auto simp: bound_root_def split: option.split_asm if_split_asm)
  have "root_closed sha redact (aa_memorial ?au) (projected_memorial c) (outcome_phase (out_disposition (cc_outcome c)))
      (completion_event sha repr c (mem_edict r)) d d4"
    using inv u cas add unfolding runs_ok_def open_root_def
    by (intro closing_statements [OF runs_invD(2,3)])
  with a i val co show ?thesis by blast
qed

lemma complete_run_keeps:
  assumes inv: "runs_ok sha redact d" and o': "valid_outcome (cc_outcome c)" and ni: "\<not> blank ni"
    and run: "complete_run sha redact secret repr hook ni c d = (res, d')"
  shows "runs_ok sha redact d' \<and> run_evolves d d' \<and>
    (\<forall>i. res = Inr i \<longrightarrow> (\<exists>r \<in> set (db_memorials d'). mem_id r = aa_memorial (cc_authority c) \<and> closed_root r))"
proof (cases res)
  case (Inl e)
  then have "d' = d" using run by (auto simp: complete_run_def atomically_def split: sum.split_asm)
  then show ?thesis using inv Inl by simp
next
  case (Inr i)
  let ?m = "aa_memorial (cc_authority c)"
  obtain a e d1 where a: "row_by at_id (aa_attempt (cc_authority c)) (db_attempts d) = Some a" "at_memorial a = ?m"
    and val: "validate_command c = Inr ()"
    and rc: "root_closed sha redact ?m (projected_memorial c) (outcome_phase (out_disposition (cc_outcome c))) (completion_event sha repr c e) d d1"
    and co: "complete_current sha ni (aa_attempt (cc_authority c)) (aa_owner (cc_authority c)) (aa_fence (cc_authority c)) (cc_outcome c) d1 = Inr (True, d')"
    using complete_run_Inr [OF inv] run Inr by blast
  note v = validate_command_Inr [OF val]
  have inv0: "runs_inv sha redact {} d" using inv by (simp add: runs_ok_def)
  note k = root_closed_inv [OF inv0 rc closes_projected [OF v(2)] event_sel(1,2)]
  have a1: "row_by at_id (aa_attempt (cc_authority c)) (db_attempts d1) = Some a"
    using a(1) rc by (simp add: root_closed_def)
  note ret = completion_retires [OF runs_invD(1) [OF k(1)] o' ni co a1 disjI1 [OF v(1)]]
  note w = complete_current_work [OF runs_invD(1) [OF k(1)] co]
  have "runs_inv sha redact {} d'"
    using runs_inv_retired [OF ledger_work_inv [OF k(1) w ret(3)]] ret(1) a(2) by simp
  moreover have "run_evolves d d'" using run_evolves_trans [OF k(2) ledger_work_evolves [OF w ret(4)]] .
  moreover have "\<exists>r \<in> set (db_memorials d'). mem_id r = ?m \<and> closed_root r"
    using k(3) by (simp add: ledger_work_same(1) [OF w])
  ultimately show ?thesis by (simp add: runs_ok_def)
qed

section \<open>Cancellation\<close>

lemma revoked_row_ok:
  assumes "row_ok a" "active a" "at_created a \<le> now"
  shows "row_ok (revoked_row now a)" "row_evolves a (revoked_row now a)" "\<not> active (revoked_row now a)"
  using assms
  by (auto simp: row_ok_def valid_attempt_def attempt_shape_def revoked_row_def row_evolves_def transition_ok_def active_def
      status_failed_def opt_nonblank_def)

lemma revoke_work:
  assumes ok: "ledger_ok d"
    and t: "\<And>a. a \<in> set (db_attempts d) \<Longrightarrow> at_memorial a = m \<Longrightarrow> at_created a \<le> now"
    and upd: "update_attempts (\<lambda>a. at_memorial a = m \<and> active a) (revoked_row now) d = Inr (n, d')"
  shows "ledger_work d d'" "ledger_ok d'" "evolves d d'" "m \<notin> active_memorials d'"
proof -
  let ?p = "\<lambda>a. at_memorial a = m \<and> active a"
  have d': "d' = d\<lparr>db_attempts := update_rows ?p (revoked_row now) (db_attempts d)\<rparr>"
    using update_attempts_Inr [OF upd] by simp
  have rows: "row_ok (revoked_row now a)" "row_evolves a (revoked_row now a)" "\<not> active (revoked_row now a)"
    if "a \<in> set (db_attempts d)" "?p a" for a
    using revoked_row_ok [OF ledger_okD(2) [OF ok that(1)] _ t [OF that(1)]] that(2) by auto
  show "ledger_work d d'" using upd by (rule update_work) (simp_all add: active_def revoked_row_def)
  show "ledger_ok d'" unfolding d' using rows by (intro ledger_ok_update [OF ok]) (auto simp: row_evolves_def)
  show "evolves d d'" unfolding d' using rows by (intro evolves_update) auto
  show "m \<notin> active_memorials d'" using rows(3) by (auto simp: active_memorials_def d' set_update_rows split: if_split_asm)
qed

text \<open>The root a cancellation found, and what it did to the attempts before it looked at the root's status.\<close>

lemma cancel_root_Inr:
  assumes inv: "runs_ok sha redact d"
    and t: "\<And>a. a \<in> set (db_attempts d) \<Longrightarrow> at_memorial a = m \<Longrightarrow> at_created a \<le> now"
    and can: "cancel_root sha redact secret hook m reason now d = (Inr b, d')"
  shows "\<exists>r n d1. row_by mem_id m (db_memorials d) = Some r \<and> mem_dag_node r = None \<and>
     update_attempts (\<lambda>a. at_memorial a = m \<and> active a) (revoked_row now) d = Inr (n, d1) \<and>
     (if b then root_closed sha redact m (closed_memorial TCancelled ''Execution was cancelled'' ''execution_cancelled'' now) PFailed
               (cancellation_event m (mem_edict r) reason now) d1 d'
      else d' = d1 \<and> \<not> open_status (mem_status r))"
proof -
  let ?f = "closed_memorial TCancelled ''Execution was cancelled'' ''execution_cancelled'' now"
  have body: "cancel_body sha redact secret hook m reason now d = Inr (b, d')"
    using can by (auto simp: cancel_root_def split: if_split_asm)
  obtain r where r: "row_by mem_id m (db_memorials d) = Some r" "mem_dag_node r = None"
    using body by (auto simp: cancel_body_def split: option.split_asm if_split_asm)
  let ?p = "\<lambda>x. mem_id x = m \<and> mem_edict x = mem_edict r \<and> mem_dag_node x = None \<and> mem_status x \<notin> {TCompleted, TFailed, TCancelled}"
  obtain n d1 where u: "update_attempts (\<lambda>a. at_memorial a = m \<and> active a) (revoked_row now) d = Inr (n, d1)"
    and rest: "(case update_memorials ?p ?f d1 of (n, d2) \<Rightarrow>
        if n \<noteq> 1 then Inr (False, d2)
        else and_then (hook ''after_memorial'') (\<lambda>_.
          and_then (cas_existing_run_state sha redact secret m (mem_edict r) PFailed now d2) (\<lambda>(swapped, d3).
          and_then (if swapped then hook ''after_run_state'' else Inr ()) (\<lambda>_.
          let d4 = finalize_outer_loop_terminal (mem_edict r) d3
          in and_then (hook ''after_terminal_cleanup'') (\<lambda>_.
             and_then (outbox_add sha (cancellation_event m (mem_edict r) reason now) d4) (\<lambda>d5.
             and_then (hook ''after_outbox'') (\<lambda>_. Inr (True, d5)))))))) = Inr (b, d')"
    using body r unfolding cancel_body_def Let_def by auto
  have inv0: "runs_inv sha redact {} d" using inv by (simp add: runs_ok_def)
  note w = revoke_work [OF runs_invD(1) [OF inv0] t u]
  have inv1: "runs_inv sha redact {} d1" using ledger_work_inv [OF inv0 w(1,2)] .
  have mems: "db_memorials d1 = db_memorials d" using ledger_work_same(1) [OF w(1)] .
  show ?thesis
  proof (cases "open_status (mem_status r)")
    case True
    have cnt: "count_rows ?p (db_memorials d1) = 1"
      using r True unfolding mems count_rows_by_key [OF runs_invD(3) [OF inv0]] by (auto simp: open_status_def)
    then obtain d2 d3 swapped where u2: "update_memorials ?p ?f d1 = (1, d2)"
      and cas: "cas_existing_run_state sha redact secret m (mem_edict r) PFailed now d2 = Inr (swapped, d3)"
      and add: "outbox_add sha (cancellation_event m (mem_edict r) reason now) (finalize_outer_loop_terminal (mem_edict r) d3) = Inr d'"
      and b: "b"
      using rest unfolding update_memorials_def Let_def by (auto split: if_split_asm)
    have "root_closed sha redact m ?f PFailed (cancellation_event m (mem_edict r) reason now) d1 d'"
      using u2 cas add unfolding open_status_iff by (intro closing_statements [OF runs_invD(2,3) [OF inv1]])
    with b r u show ?thesis by auto
  next
    case False
    have cnt: "count_rows ?p (db_memorials d1) = 0"
      using r False open_status_iff unfolding mems count_rows_by_key [OF runs_invD(3) [OF inv0]] by simp
    then have "update_memorials ?p ?f d1 = (0, d1)" unfolding update_memorials_def by (simp add: update_rows_none)
    then have "\<not> b \<and> d' = d1" using rest by simp
    with False r u show ?thesis by auto
  qed
qed

lemma cancel_root_keeps:
  assumes inv: "runs_ok sha redact d"
    and t: "\<And>a. a \<in> set (db_attempts d) \<Longrightarrow> at_memorial a = m \<Longrightarrow> at_created a \<le> now"
    and can: "cancel_root sha redact secret hook m reason now d = (res, d')"
  shows "runs_ok sha redact d' \<and> run_evolves d d' \<and>
    (\<forall>b. res = Inr b \<longrightarrow> (\<exists>r \<in> set (db_memorials d'). mem_id r = m \<and> closed_root r))"
proof (cases res)
  case (Inl e)
  then have "d' = d" using can by (auto simp: cancel_root_def atomically_def split: sum.split_asm if_split_asm)
  then show ?thesis using inv Inl by simp
next
  case (Inr b)
  obtain r n d1 where r: "row_by mem_id m (db_memorials d) = Some r" "mem_dag_node r = None"
    and u: "update_attempts (\<lambda>a. at_memorial a = m \<and> active a) (revoked_row now) d = Inr (n, d1)"
    and alt: "if b then root_closed sha redact m (closed_memorial TCancelled ''Execution was cancelled'' ''execution_cancelled'' now) PFailed
               (cancellation_event m (mem_edict r) reason now) d1 d'
      else d' = d1 \<and> \<not> open_status (mem_status r)"
    using cancel_root_Inr [OF inv t] can Inr by blast
  have inv0: "runs_inv sha redact {} d" using inv by (simp add: runs_ok_def)
  note w = revoke_work [OF runs_invD(1) [OF inv0] t u]
  have inv1: "runs_inv sha redact {} d1" using ledger_work_inv [OF inv0 w(1,2)] .
  have ev1: "run_evolves d d1" using ledger_work_evolves [OF w(1,3)] .
  show ?thesis
  proof (cases b)
    case True
    then have rc: "root_closed sha redact m (closed_memorial TCancelled ''Execution was cancelled'' ''execution_cancelled'' now) PFailed
               (cancellation_event m (mem_edict r) reason now) d1 d'" using alt by simp
    note k = root_closed_inv [OF inv1 rc closes_closed event_sel(4,5)]
    have "active_memorials d' = active_memorials d1" using rc by (simp add: root_closed_def active_memorials_def)
    then have "runs_inv sha redact {} d'" using runs_inv_retired [OF k(1)] w(4) by simp
    then show ?thesis using k(2,3) run_evolves_trans [OF ev1] by (simp add: runs_ok_def)
  next
    case False
    then have "d' = d1" "closed_root r" using alt r(2) by (simp_all add: closed_root_def)
    moreover have "r \<in> set (db_memorials d1)" "mem_id r = m"
      using row_by_SomeD [OF r(1)] by (simp_all add: ledger_work_same(1) [OF w(1)])
    ultimately show ?thesis using inv1 ev1 by (auto simp: runs_ok_def)
  qed
qed

section \<open>Exhausted retries\<close>

lemma retry_body_Inr:
  assumes inv: "runs_ok sha redact d" and o': "valid_outcome outcome" and ni: "\<not> blank ni"
    and ret: "retry_or_dead_letter sha redact secret hook ni au outcome d = (Inr b, d')"
  shows "\<exists>a e msg d1. b \<and> row_by at_id (aa_attempt au) (db_attempts d) = Some a \<and> at_memorial a = aa_memorial au \<and>
     complete_current sha ni (aa_attempt au) (aa_owner au) (aa_fence au) outcome d = Inr (True, d1) \<and>
     (if (case row_by at_id (aa_attempt au) (db_attempts d1) of None \<Rightarrow> False | Some x \<Rightarrow> at_status x = DeadLetter)
      then root_closed sha redact (aa_memorial au) (closed_memorial TFailed msg exhausted_reason (out_completed_at outcome)) PFailed
             (dead_letter_event ''run-dispatcher'' (aa_attempt au) (aa_memorial au) (aa_fence au) e msg (out_completed_at outcome)) d1 d'
      else d' = d1)"
proof -
  obtain failure where body: "retry_body sha redact secret hook ni au outcome failure d = Inr (b, d')"
    using ret by (auto simp: retry_or_dead_letter_def split: option.split_asm if_split_asm)
  let ?f = "closed_memorial TFailed (err_message failure) exhausted_reason (out_completed_at outcome)"
  obtain a r where a: "row_by at_id (aa_attempt au) (db_attempts d) = Some a" "at_memorial a = aa_memorial au"
    and r: "row_by mem_id (aa_memorial au) (db_memorials d) = Some r" "mem_dag_node r = None"
    using body by (auto simp: retry_body_def Let_def split: option.split_asm if_split_asm)
  let ?dead = "\<lambda>d1. case row_by at_id (aa_attempt au) (db_attempts d1) of None \<Rightarrow> False | Some x \<Rightarrow> at_status x = DeadLetter"
  let ?ev = "dead_letter_event ''run-dispatcher'' (aa_attempt au) (aa_memorial au) (aa_fence au) (mem_edict r) (err_message failure) (out_completed_at outcome)"
  obtain d1 where co: "complete_current sha ni (aa_attempt au) (aa_owner au) (aa_fence au) outcome d = Inr (True, d1)"
    and rest: "(if ?dead d1 then
        (case update_memorials (open_root (aa_memorial au) (mem_edict r)) ?f d1 of (n, d2) \<Rightarrow>
           if n \<noteq> 1 then Inl (AttemptConflict ''dead-letter root projection conflict'')
           else and_then (cas_existing_run_state sha redact secret (aa_memorial au) (mem_edict r) PFailed (out_completed_at outcome) d2)
             (\<lambda>(swapped, d3). let d4 = finalize_outer_loop_terminal (mem_edict r) d3
               in and_then (hook ''after_terminal_cleanup'') (\<lambda>_. and_then (outbox_add sha ?ev d4) (\<lambda>d5. Inr (True, d5)))))
      else Inr (True, d1)) = Inr (b, d')"
    using body a r unfolding retry_body_def Let_def by (auto split: if_split_asm)
  have inv0: "runs_inv sha redact {} d" using inv by (simp add: runs_ok_def)
  have ok1: "ledger_ok d1" using complete_current_cases [OF runs_invD(1) [OF inv0] o' ni co] by blast
  have inv1: "runs_inv sha redact {} d1" using ledger_work_inv [OF inv0 complete_current_work [OF runs_invD(1) [OF inv0] co] ok1] .
  show ?thesis
  proof (cases "?dead d1")
    case False
    then have "b \<and> d' = d1" using rest by (simp only: if_False) simp
    with a co False show ?thesis by (intro exI [of _ a] exI [of _ d1]) simp
  next
    case True
    then have rest': "(case update_memorials (open_root (aa_memorial au) (mem_edict r)) ?f d1 of (n, d2) \<Rightarrow>
           if n \<noteq> 1 then Inl (AttemptConflict ''dead-letter root projection conflict'')
           else and_then (cas_existing_run_state sha redact secret (aa_memorial au) (mem_edict r) PFailed (out_completed_at outcome) d2)
             (\<lambda>(swapped, d3). let d4 = finalize_outer_loop_terminal (mem_edict r) d3
               in and_then (hook ''after_terminal_cleanup'') (\<lambda>_. and_then (outbox_add sha ?ev d4) (\<lambda>d5. Inr (True, d5))))) = Inr (b, d')"
      using rest by (simp only: if_True)
    obtain d2 where u: "update_memorials (open_root (aa_memorial au) (mem_edict r)) ?f d1 = (1, d2)"
      using rest' by (auto split: prod.split_asm if_split_asm)
    obtain sw d3 where cas: "cas_existing_run_state sha redact secret (aa_memorial au) (mem_edict r) PFailed (out_completed_at outcome) d2 = Inr (sw, d3)"
      and add: "outbox_add sha ?ev (finalize_outer_loop_terminal (mem_edict r) d3) = Inr d'" and b: b
      using rest' unfolding u Let_def by auto
    have "root_closed sha redact (aa_memorial au) ?f PFailed ?ev d1 d'"
      using u cas add unfolding open_root_def by (intro closing_statements [OF runs_invD(2,3) [OF inv1]])
    with a co True b show ?thesis by (intro exI [of _ a] exI [of _ "mem_edict r"] exI [of _ "err_message failure"] exI [of _ d1]) simp
  qed
qed

lemma retry_keeps:
  assumes inv: "runs_ok sha redact d" and o': "valid_outcome outcome" and ni: "\<not> blank ni"
    and ret: "retry_or_dead_letter sha redact secret hook ni au outcome d = (res, d')"
  shows "runs_ok sha redact d' \<and> run_evolves d d'"
proof (cases res)
  case (Inl e)
  then have "d' = d" using ret by (auto simp: retry_or_dead_letter_def atomically_def split: option.split_asm sum.split_asm if_split_asm)
  then show ?thesis using inv by simp
next
  case (Inr b)
  let ?dead = "\<lambda>d1. case row_by at_id (aa_attempt au) (db_attempts d1) of None \<Rightarrow> False | Some x \<Rightarrow> at_status x = DeadLetter"
  obtain a e msg d1 where a: "row_by at_id (aa_attempt au) (db_attempts d) = Some a" "at_memorial a = aa_memorial au"
    and co: "complete_current sha ni (aa_attempt au) (aa_owner au) (aa_fence au) outcome d = Inr (True, d1)"
    and alt: "if ?dead d1 then root_closed sha redact (aa_memorial au) (closed_memorial TFailed msg exhausted_reason (out_completed_at outcome)) PFailed
             (dead_letter_event ''run-dispatcher'' (aa_attempt au) (aa_memorial au) (aa_fence au) e msg (out_completed_at outcome)) d1 d'
      else d' = d1"
    using retry_body_Inr [OF inv o' ni] ret Inr by blast
  have inv0: "runs_inv sha redact {} d" using inv by (simp add: runs_ok_def)
  have k1: "ledger_ok d1" "evolves d d1" using complete_current_cases [OF runs_invD(1) [OF inv0] o' ni co] by auto
  note w = complete_current_work [OF runs_invD(1) [OF inv0] co]
  have inv1: "runs_inv sha redact {} d1" using ledger_work_inv [OF inv0 w k1(1)] .
  have ev1: "run_evolves d d1" using ledger_work_evolves [OF w k1(2)] .
  show ?thesis
  proof (cases "?dead d1")
    case False
    then have "d' = d1" using alt by (simp only: if_False)
    then show ?thesis using inv1 ev1 by (simp add: runs_ok_def)
  next
    case True
    then have rc: "root_closed sha redact (aa_memorial au) (closed_memorial TFailed msg exhausted_reason (out_completed_at outcome)) PFailed
             (dead_letter_event ''run-dispatcher'' (aa_attempt au) (aa_memorial au) (aa_fence au) e msg (out_completed_at outcome)) d1 d'"
      using alt by (simp only: if_True)
    note k = root_closed_inv [OF inv1 rc closes_closed event_sel(6,7)]
    have "aa_memorial au \<notin> active_memorials d1"
      using completion_retires(1) [OF runs_invD(1) [OF inv0] o' ni co a(1) disjI2 [OF True]] a(2) by simp
    moreover have "active_memorials d' = active_memorials d1" using rc by (simp add: root_closed_def active_memorials_def)
    ultimately have "runs_inv sha redact {} d'" using runs_inv_retired [OF k(1)] by simp
    then show ?thesis using k(2) run_evolves_trans [OF ev1] by (simp add: runs_ok_def)
  qed
qed

section \<open>Reconciliation of dead letters\<close>

lemma dead_letter_not_active:
  assumes ok: "ledger_ok d" "dead_final d" and a: "a \<in> set (db_attempts d)" "at_status a = DeadLetter"
  shows "at_memorial a \<notin> active_memorials d"
proof
  assume "at_memorial a \<in> active_memorials d"
  then obtain x where x: "x \<in> set (db_attempts d)" "active x" "at_memorial x = at_memorial a"
    by (auto simp: active_memorials_def)
  have sib: "siblings_ok a x" "siblings_ok x a" using ledger_okD(5) [OF ok(1)] a(1) x(1) by auto
  have "at_max a \<le> at_no a" using ok(2) a by (auto simp: dead_final_def)
  moreover have "at_no x \<le> at_max x" using ledger_okD(3) [OF ok(1) x(1)] by (simp add: valid_attempt_def attempt_shape_def)
  ultimately have "\<not> at_no a < at_no x" using sib(1) x(3) by (auto simp: siblings_ok_def)
  moreover have "\<not> at_no x < at_no a" using sib(2) x(2,3) by (auto simp: siblings_ok_def)
  ultimately have "at_id x = at_id a" using sib(1) x(3) by (auto simp: siblings_ok_def)
  then have "x = a" using same_id_eq [OF ok(1) a(1) x(1)] by simp
  with a(2) x(2) show False by (simp add: active_def)
qed

text \<open>A row of the join that is still to be treated: the attempt is dead-lettered and its root has the edict that was read.\<close>

definition pending_row :: "db \<Rightarrow> attempt_lease \<times> string \<Rightarrow> bool" where
  "pending_row d row =
     (case row of (a, e) \<Rightarrow> a \<in> set (db_attempts d) \<and> at_status a = DeadLetter \<and>
        (\<exists>r. row_by mem_id (at_memorial a) (db_memorials d) = Some r \<and> mem_edict r = e \<and> mem_dag_node r = None))"

text \<open>Between two states of a reconciliation: the attempts are the same, and roots are at most closed.\<close>

definition only_closed :: "db \<Rightarrow> db \<Rightarrow> bool" where
  "only_closed d d' =
     (db_attempts d' = db_attempts d \<and>
      (\<forall>m r. row_by mem_id m (db_memorials d) = Some r \<longrightarrow>
         (\<exists>r'. row_by mem_id m (db_memorials d') = Some r' \<and> mem_edict r' = mem_edict r \<and> mem_dag_node r' = mem_dag_node r \<and>
               (open_status (mem_status r') \<longrightarrow> open_status (mem_status r)))) \<and>
      (\<forall>m. row_by mem_id m (db_memorials d) = None \<longrightarrow> row_by mem_id m (db_memorials d') = None))"

lemma only_closed_refl [simp]: "only_closed d d"
  by (simp add: only_closed_def)

lemma only_closed_row:
  assumes "only_closed d d'" "row_by mem_id m (db_memorials d) = Some r"
  shows "\<exists>r'. row_by mem_id m (db_memorials d') = Some r' \<and> mem_edict r' = mem_edict r \<and> mem_dag_node r' = mem_dag_node r \<and>
     (open_status (mem_status r') \<longrightarrow> open_status (mem_status r))"
  using assms by (simp add: only_closed_def)

lemma only_closed_trans:
  assumes "only_closed d d'" "only_closed d' d''"
  shows "only_closed d d''"
proof -
  have "\<exists>r'. row_by mem_id m (db_memorials d'') = Some r' \<and> mem_edict r' = mem_edict r \<and> mem_dag_node r' = mem_dag_node r \<and>
     (open_status (mem_status r') \<longrightarrow> open_status (mem_status r))" if "row_by mem_id m (db_memorials d) = Some r" for m r
    using only_closed_row [OF assms(1) that] only_closed_row [OF assms(2), of m] by force
  then show ?thesis using assms by (simp add: only_closed_def)
qed

lemma only_closed_pending:
  assumes "only_closed d d'" "pending_row d row"
  shows "pending_row d' row"
proof -
  obtain a e r where row: "row = (a, e)" and a: "a \<in> set (db_attempts d)" "at_status a = DeadLetter"
    and r: "row_by mem_id (at_memorial a) (db_memorials d) = Some r" "mem_edict r = e" "mem_dag_node r = None"
    using assms(2) by (auto simp: pending_row_def)
  from only_closed_row [OF assms(1) r(1)] r a assms(1) show ?thesis by (auto simp: row pending_row_def only_closed_def)
qed

lemma only_closed_unprojected:
  assumes "only_closed d d'" "unprojected d' a"
  shows "unprojected d a"
proof (cases "row_by mem_id (at_memorial a) (db_memorials d)")
  case None
  then show ?thesis using assms by (simp add: only_closed_def unprojected_def)
next
  case (Some r)
  then obtain r' where "row_by mem_id (at_memorial a) (db_memorials d') = Some r'" "mem_dag_node r' = mem_dag_node r"
    "open_status (mem_status r') \<longrightarrow> open_status (mem_status r)"
    using assms(1) unfolding only_closed_def by blast
  with Some assms(2) show ?thesis by (simp add: unprojected_def)
qed

lemma root_closed_only:
  assumes rc: "root_closed sha redact m f phase ev d d'" and f: "closes_row f" and dist: "distinct (map mem_id (db_memorials d))"
  shows "only_closed d d'"
    "\<exists>r'. row_by mem_id m (db_memorials d') = Some r' \<and> \<not> open_status (mem_status r')"
proof -
  obtain r where r: "r \<in> set (db_memorials d)" "mem_id r = m"
    and mems: "db_memorials d' = update_rows (\<lambda>x. x = r) f (db_memorials d)" and att: "db_attempts d' = db_attempts d"
    using rc unfolding root_closed_def by blast
  have rb: "row_by mem_id k (db_memorials d') = map_option (\<lambda>x. if x = r then f x else x) (row_by mem_id k (db_memorials d))" for k
    unfolding mems using f by (intro row_by_update_rows) (simp add: closes_row_def)
  show "only_closed d d'" using f by (auto simp: only_closed_def att rb closes_row_def)
  show "\<exists>r'. row_by mem_id m (db_memorials d') = Some r' \<and> \<not> open_status (mem_status r')"
    using row_by_unique [OF dist r] f by (simp add: rb closes_row_def)
qed

lemma reconcile_row_keeps:
  assumes inv: "runs_ok sha redact d" and p: "pending_row d (a, e)"
    and rr: "reconcile_row sha redact secret now (a, e) d = Inr (b, d')"
  shows "runs_ok sha redact d' \<and> run_evolves d d' \<and> only_closed d d' \<and> \<not> unprojected d' a"
proof -
  let ?m = "at_memorial a"
  have inv0: "runs_inv sha redact {} d" using inv by (simp add: runs_ok_def)
  obtain r where a: "a \<in> set (db_attempts d)" "at_status a = DeadLetter"
    and r: "row_by mem_id ?m (db_memorials d) = Some r" "mem_edict r = e" "mem_dag_node r = None"
    using p by (auto simp: pending_row_def)
  obtain msg where rest: "(case update_memorials (open_root ?m e) (closed_memorial TFailed msg exhausted_reason now) d of
      (n, d1) \<Rightarrow> if n \<noteq> 1 then Inr (False, d1)
        else and_then (cas_existing_run_state sha redact secret ?m e PFailed now d1) (\<lambda>(swapped, d2).
          and_then (outbox_add sha (dead_letter_event ''run-reconciler'' (at_id a) ?m (at_fence a) e msg now)
             (finalize_outer_loop_terminal e d2)) (\<lambda>d3. Inr (True, d3)))) = Inr (b, d')"
    using rr by (auto simp: reconcile_row_def split: option.split_asm)
  let ?f = "closed_memorial TFailed msg exhausted_reason now"
  show ?thesis
  proof (cases "open_status (mem_status r)")
    case True
    have "count_rows (open_root ?m e) (db_memorials d) = 1"
      using r True unfolding open_root_def count_rows_by_key [OF runs_invD(3) [OF inv0]] by simp
    then obtain d1 d2 sw where u: "update_memorials (open_root ?m e) ?f d = (1, d1)"
      and cas: "cas_existing_run_state sha redact secret ?m e PFailed now d1 = Inr (sw, d2)"
      and add: "outbox_add sha (dead_letter_event ''run-reconciler'' (at_id a) ?m (at_fence a) e msg now) (finalize_outer_loop_terminal e d2) = Inr d'"
      using rest unfolding update_memorials_def by auto
    have rc: "root_closed sha redact ?m ?f PFailed (dead_letter_event ''run-reconciler'' (at_id a) ?m (at_fence a) e msg now) d d'"
      using u cas add unfolding open_root_def by (intro closing_statements [OF runs_invD(2,3) [OF inv0]])
    note k = root_closed_inv [OF inv0 rc closes_closed event_sel(6,7)]
    note oc = root_closed_only [OF rc closes_closed runs_invD(3) [OF inv0]]
    have "active_memorials d' = active_memorials d" using rc by (simp add: root_closed_def active_memorials_def)
    then have "runs_inv sha redact {} d'"
      using runs_inv_retired [OF k(1)] dead_letter_not_active [OF runs_invD(1,5) [OF inv0] a] by simp
    then show ?thesis using k(2) oc by (auto simp: runs_ok_def unprojected_def)
  next
    case False
    have "count_rows (open_root ?m e) (db_memorials d) = 0"
      using r False unfolding open_root_def count_rows_by_key [OF runs_invD(3) [OF inv0]] by simp
    then have "d' = d" using rest unfolding update_memorials_def by (simp add: update_rows_none)
    then show ?thesis using inv r False by (simp add: unprojected_def)
  qed
qed

lemma reconcile_rows_keeps:
  assumes "runs_ok sha redact d" "\<And>row. row \<in> set rows \<Longrightarrow> pending_row d row"
    and "reconcile_rows sha redact secret now rows k d = Inr (n, d')"
  shows "runs_ok sha redact d' \<and> run_evolves d d' \<and> only_closed d d' \<and> (\<forall>row \<in> set rows. \<not> unprojected d' (fst row))"
  using assms
proof (induction rows arbitrary: k d)
  case Nil
  then show ?case by simp
next
  case (Cons row rows)
  obtain a e where row: "row = (a, e)" by (cases row)
  obtain b d1 where rr: "reconcile_row sha redact secret now (a, e) d = Inr (b, d1)"
    and rest: "reconcile_rows sha redact secret now rows (if b then k + 1 else k) d1 = Inr (n, d')"
    using Cons.prems(3) by (auto simp: row)
  have "pending_row d (a, e)" using Cons.prems(2) by (simp add: row)
  note k1 = reconcile_row_keeps [OF Cons.prems(1) this rr]
  have "pending_row d1 x" if "x \<in> set rows" for x
    using only_closed_pending [of d d1 x] k1 Cons.prems(2) [of x] that by simp
  note k2 = Cons.IH [OF conjunct1 [OF k1] this rest]
  show ?case
    using k1 k2 run_evolves_trans only_closed_trans only_closed_unprojected by (auto simp: row)
qed

lemma dead_letter_rows_pending: "row \<in> set (dead_letter_rows limit d) \<Longrightarrow> pending_row d row"
  by (auto simp: dead_letter_rows_def pending_row_def unprojected_def select_ordered_def split: option.splits dest!: in_set_takeD)

lemma reconcile_keeps:
  assumes "runs_ok sha redact d" "reconcile_dead_lettered_roots sha redact secret limit now d = (res, d')"
  shows "runs_ok sha redact d' \<and> run_evolves d d' \<and>
    (\<forall>n. res = Inr n \<longrightarrow> only_closed d d' \<and> (\<forall>row \<in> set (dead_letter_rows limit d). \<not> unprojected d' (fst row)))"
proof (cases res)
  case (Inl e)
  then have "d' = d" using assms(2) by (auto simp: reconcile_dead_lettered_roots_def atomically_def split: sum.split_asm if_split_asm)
  then show ?thesis using assms(1) Inl by simp
next
  case (Inr n)
  then have "reconcile_rows sha redact secret now (dead_letter_rows limit d) 0 d = Inr (n, d')"
    using assms(2) by (auto simp: reconcile_dead_lettered_roots_def split: if_split_asm)
  from reconcile_rows_keeps [OF assms(1) dead_letter_rows_pending this] show ?thesis by simp
qed

end
