(* ===== verification/Run_Recovery.thy ===== *)
theory Run_Recovery
  imports Run_Completion
begin

text \<open>
  \<open>application/plan_review_lifecycle.py\<close> and \<open>application/continuation_recovery.py\<close>: how a suspended attempt is taken up
  again. The coordinator of plan reviews scans the suspended attempts; the recovery of continuations is called with
  the event of a resolved decision. Both resume the attempt or end the run in one unit of work. \<open>sensitive\<close> is as in
  the side-effect journal, \<open>hook\<close> is the boundary hook.
\<close>

section \<open>Plan reviews: the binding of a run to its decision\<close>

definition review_decision_id :: "run_state option \<Rightarrow> string option" where
  "review_decision_id state =
     (case state of
        None \<Rightarrow> None
      | Some s \<Rightarrow>
          if rs_phase s = PWaitingDecision then cont_pending (rs_continuation s)
          else if rs_phase s \<in> {PPlanning, PFailed} then cont_resolved (rs_continuation s)
          else None)"

definition approved :: "decision_record \<Rightarrow> bool" where
  "approved r =
     (dq_status (rec_request r) = Resolved \<and>
      (case rec_resolution r of None \<Rightarrow> False | Some v \<Rightarrow> dr_action v = ''approve''))"

text \<open>The last part of \<open>_binding_error\<close>: the decisions the continuation names, by the phase.\<close>

definition phase_binding_error :: "run_state \<Rightarrow> decision_record \<Rightarrow> string \<Rightarrow> string option" where
  "phase_binding_error s r i =
     (let c = rs_continuation s
      in if rs_phase s = PWaitingDecision
         then (if cont_pending c \<noteq> Some i \<or> cont_resolved c \<noteq> None then Some ''pending'' else None)
         else if dq_status (rec_request r) = Pending \<or> rs_phase s \<noteq> (if approved r then PPlanning else PFailed) \<or>
                 cont_pending c \<noteq> None \<or> cont_resolved c \<noteq> Some i
         then Some ''projected'' else None)"

definition plan_binding_error ::
  "(string \<Rightarrow> string) \<Rightarrow> agent_continuation \<Rightarrow> payload \<Rightarrow> bool result" where
  "plan_binding_error sha c p =
     (case (map_of p ''plan'', map_of p ''plan_ref'', map_of p ''plan_hash'') of
        (Some (JObj plan), Some (JStr ref), Some (JStr h)) \<Rightarrow>
          if ac_plan_ref c \<noteq> Some ref \<or> ac_plan_hash c \<noteq> Some h then Inr True
          else and_then (canonical_sha256 sha (JObj plan)) (\<lambda>x. Inr (x \<noteq> h))
      | _ \<Rightarrow> Inr True)"

definition binding_error ::
  "(string \<Rightarrow> string) \<Rightarrow> run_state option \<Rightarrow> decision_record option \<Rightarrow> string \<Rightarrow> string option \<Rightarrow> string option \<Rightarrow>
   string option result" where
  "binding_error sha state record m did memorial_edict =
     (case (state, record, did) of
        (Some s, Some r, Some i) \<Rightarrow>
          (let q = rec_request r
           in if dq_id q \<noteq> i \<or> dq_kind q \<noteq> KPlanReview \<or> dq_memorial q \<noteq> m \<or> dq_edict q \<noteq> rs_edict s \<or>
                 memorial_edict \<noteq> Some (dq_edict q)
              then Inr (Some ''identity'')
              else
                (case rs_continuation s of
                   OuterLoop _ \<Rightarrow> Inr (Some ''continuation'')
                 | Agent c \<Rightarrow>
                     and_then (plan_binding_error sha c (dq_payload q)) (\<lambda>bad.
                       Inr (if bad then Some ''plan'' else phase_binding_error s r i))))
      | _ \<Rightarrow> Inr (Some ''missing''))"

text \<open>The edict of a root memorial.\<close>

definition root_edict :: "string \<Rightarrow> db \<Rightarrow> string option" where
  "root_edict m d =
     (case row_by mem_id m (db_memorials d) of
        None \<Rightarrow> None | Some r \<Rightarrow> if mem_dag_node r = None then Some (mem_edict r) else None)"

section \<open>Plan reviews: resuming and failing an attempt\<close>

definition suspended_at :: "attempt_lease \<Rightarrow> attempt_lease \<Rightarrow> bool" where
  "suspended_at row a =
     (at_id a = at_id row \<and> at_memorial a = at_memorial row \<and> at_status a = Suspended \<and> at_version a = at_version row)"

definition reviewed_row :: "instant \<Rightarrow> instant \<Rightarrow> attempt_lease \<Rightarrow> attempt_lease" where
  "reviewed_row now available_at a =
     a\<lparr>at_status := Claimable, at_heartbeat := None, at_available := available_at, at_version := at_version a + 1,
       at_updated := now\<rparr>"

definition review_resume :: "instant \<Rightarrow> instant \<Rightarrow> attempt_lease \<Rightarrow> db \<Rightarrow> db result" where
  "review_resume now available_at row d =
     and_then (update_attempts (suspended_at row) (reviewed_row now available_at) d) (\<lambda>(n, d').
       if n \<noteq> 1 then Inl (RuntimeError ''plan review attempt changed during resume'') else Inr d')"

definition review_failed_row :: "redacted_error \<Rightarrow> instant \<Rightarrow> attempt_lease \<Rightarrow> attempt_lease" where
  "review_failed_row failure now a =
     a\<lparr>at_status := Failed, at_heartbeat := None, at_failure := Some failure, at_version := at_version a + 1,
       at_updated := now\<rparr>"

definition detected_identity_hash :: "(string \<Rightarrow> string) \<Rightarrow> run_state option \<Rightarrow> string \<Rightarrow> string option result" where
  "detected_identity_hash sha state e =
     (case state of
        None \<Rightarrow> Inr None
      | Some s \<Rightarrow>
          if rs_edict s \<noteq> e
          then and_then (canonical_sha256 sha (JObj [(''detected_run_state_edict_id'', JStr (rs_edict s))])) (\<lambda>h. Inr (Some h))
          else Inr None)"

definition fail_run_state ::
  "(string \<Rightarrow> string) \<Rightarrow> (string \<Rightarrow> string) \<Rightarrow> (run_state \<Rightarrow> bool) \<Rightarrow> instant \<Rightarrow> run_state option \<Rightarrow> string \<Rightarrow> db \<Rightarrow> db result" where
  "fail_run_state sha redact secret now state e d =
     (case state of
        None \<Rightarrow> Inr d
      | Some s \<Rightarrow>
          let t = (terminal_state PFailed now s)\<lparr>rs_edict := e\<rparr>
          in and_then (if rs_edict s = e then compare_and_swap sha redact secret t (rs_version s) d
                       else recover_terminal_identity sha redact secret t (rs_version s) d) (\<lambda>(_, d'). Inr d'))"

definition review_failed_event ::
  "attempt_lease \<Rightarrow> string \<Rightarrow> string option \<Rightarrow> instant \<Rightarrow> string \<Rightarrow> string \<Rightarrow> event_envelope" where
  "review_failed_event row e did now code message =
     \<lparr>ee_id = (case did of None \<Rightarrow> at_id row | Some i \<Rightarrow> if i = [] then at_id row else i) @ '':execution.failed:'' @ code,
      ee_type = ''execution.failed'', ee_edict = (if e \<noteq> ''unknown'' then Some e else None),
      ee_memorial = Some (at_memorial row), ee_attempt = 1, ee_timestamp = now,
      ee_producer = ''plan-review-attempt-coordinator'',
      ee_payload = [(''status'', JStr ''failed''), (''error'', JStr message), (''failure_reason'', JStr code),
                    (''decision_request_id'', opt_str did)]\<rparr>"

text \<open>\<open>_terminalize\<close>; the statement on the memorial checks no row count.\<close>

definition review_terminalize ::
  "(string \<Rightarrow> string) \<Rightarrow> (string \<Rightarrow> string) \<Rightarrow> (run_state \<Rightarrow> bool) \<Rightarrow> instant \<Rightarrow> attempt_lease \<Rightarrow> run_state option \<Rightarrow>
   string option \<Rightarrow> string \<Rightarrow> string \<Rightarrow> db \<Rightarrow> db result" where
  "review_terminalize sha redact secret now row state did code message d =
     (let e = (case root_edict (at_memorial row) d of None \<Rightarrow> ''unknown'' | Some e \<Rightarrow> e)
      in and_then (detected_identity_hash sha state e) (\<lambda>hash.
         and_then (update_attempts (suspended_at row)
            (review_failed_row \<lparr>err_code = code, err_message = message, err_retryable = False, err_details_hash = hash\<rparr> now) d)
            (\<lambda>(n, d1).
           if n \<noteq> 1 then Inl (RuntimeError ''plan review attempt changed during terminalization'')
           else
             and_then (fail_run_state sha redact secret now state e d1) (\<lambda>d2.
               outbox_add sha (review_failed_event row e did now code message)
                 (snd (update_memorials
                    (\<lambda>r. mem_id r = at_memorial row \<and> mem_dag_node r = None \<and> mem_status r \<notin> {TCompleted, TCancelled})
                    (closed_memorial TFailed message code now) d2))))))"

section \<open>Plan reviews: the scan\<close>

definition reviewed_state :: "decision_record \<Rightarrow> string \<Rightarrow> run_state \<Rightarrow> run_state" where
  "reviewed_state r i s =
     s\<lparr>rs_phase := (if approved r then PPlanning else PFailed),
       rs_continuation := set_decisions None (Some i) (rs_continuation s),
       rs_updated := max (rs_updated s) (case rec_resolution r of None \<Rightarrow> dq_updated (rec_request r) | Some v \<Rightarrow> dr_at v)\<rparr>"

definition planning_memorial :: "string \<Rightarrow> string \<Rightarrow> db \<Rightarrow> db" where
  "planning_memorial m e d =
     snd (update_memorials (\<lambda>r. mem_id r = m \<and> mem_edict r = e \<and> mem_dag_node r = None \<and>
        mem_status r \<notin> {TCompleted, TFailed, TCancelled}) (\<lambda>r. r\<lparr>mem_status := TPlanning\<rparr>) d)"

definition settle_review ::
  "(string \<Rightarrow> string) \<Rightarrow> (string \<Rightarrow> string) \<Rightarrow> (run_state \<Rightarrow> bool) \<Rightarrow> instant \<Rightarrow> attempt_lease \<Rightarrow> run_state \<Rightarrow> decision_record \<Rightarrow>
   string \<Rightarrow> db \<Rightarrow> (bool \<times> db) result" where
  "settle_review sha redact secret now row s r i d =
     (if dq_status (rec_request r) = Pending then Inr (False, d)
      else
        let decided = (case rec_resolution r of None \<Rightarrow> dq_updated (rec_request r) | Some v \<Rightarrow> dr_at v)
        in and_then (if rs_phase s = PWaitingDecision
                     then compare_and_swap sha redact secret (reviewed_state r i s) (rs_version s) d else Inr (s, d))
             (\<lambda>(s', d1).
           if approved r
           then and_then (review_resume now (max now decided) row d1) (\<lambda>d2.
                  Inr (True, planning_memorial (at_memorial row) (rs_edict s') d2))
           else and_then (review_terminalize sha redact secret now row (Some s') (Some i) ''plan_review_rejected''
                  ''Plan review did not approve execution'' d1) (\<lambda>d2. Inr (True, d2))))"

definition fail_unbound ::
  "(string \<Rightarrow> string) \<Rightarrow> (string \<Rightarrow> string) \<Rightarrow> (run_state \<Rightarrow> bool) \<Rightarrow> instant \<Rightarrow> attempt_lease \<Rightarrow> run_state option \<Rightarrow> string option \<Rightarrow>
   db \<Rightarrow> (bool \<times> db) result" where
  "fail_unbound sha redact secret now row state did d =
     and_then (review_terminalize sha redact secret now row state did ''plan_review_binding_invalid''
        ''Plan review binding is invalid'' d) (\<lambda>d'. Inr (True, d'))"

definition review_row ::
  "(string \<Rightarrow> string) \<Rightarrow> (string \<Rightarrow> string) \<Rightarrow> (run_state \<Rightarrow> bool) \<Rightarrow> instant \<Rightarrow> attempt_lease \<Rightarrow> db \<Rightarrow> (bool \<times> db) result" where
  "review_row sha redact secret now row d =
     (case load sha redact (at_memorial row) d of
        Inl (RunStateDecodeError _) \<Rightarrow> fail_unbound sha redact secret now row None None d
      | Inl e \<Rightarrow> Inl e
      | Inr state \<Rightarrow>
          let did = review_decision_id state
          in and_then (case did of None \<Rightarrow> Inr None | Some i \<Rightarrow> decision_get sha i d) (\<lambda>record.
             and_then (binding_error sha state record (at_memorial row) did (root_edict (at_memorial row) d)) (\<lambda>error.
               case (error, state, record, did) of
                 (None, Some s, Some r, Some i) \<Rightarrow> settle_review sha redact secret now row s r i d
               | _ \<Rightarrow> fail_unbound sha redact secret now row state did d)))"

fun review_rows ::
  "(string \<Rightarrow> string) \<Rightarrow> (string \<Rightarrow> string) \<Rightarrow> (run_state \<Rightarrow> bool) \<Rightarrow> instant \<Rightarrow> attempt_lease list \<Rightarrow> nat \<Rightarrow> db \<Rightarrow> (nat \<times> db) result" where
  "review_rows sha redact secret now [] changed d = Inr (changed, d)"
| "review_rows sha redact secret now (row # rows) changed d =
     and_then (review_row sha redact secret now row d) (\<lambda>(b, d').
       review_rows sha redact secret now rows (if b then changed + 1 else changed) d')"

text \<open>\<open>LIMIT ?\<close>: a negative limit is none.\<close>

definition sql_limit :: "int \<Rightarrow> 'a list \<Rightarrow> 'a list" where
  "sql_limit n xs = (if n < 0 then xs else take (nat n) xs)"

definition review_candidates :: "int \<Rightarrow> db \<Rightarrow> attempt_lease list" where
  "review_candidates limit d =
     sql_limit limit (select_ordered (\<lambda>a. at_status a = Suspended) (\<lambda>a. (at_available a, at_created a, at_id a)) (db_attempts d))"

definition review_once ::
  "(string \<Rightarrow> string) \<Rightarrow> (string \<Rightarrow> string) \<Rightarrow> (run_state \<Rightarrow> bool) \<Rightarrow> int \<Rightarrow> instant \<Rightarrow> db \<Rightarrow> nat result \<times> db" where
  "review_once sha redact secret limit now d =
     atomically (\<lambda>d. review_rows sha redact secret now (review_candidates limit d) 0 d) d"

section \<open>Recovery of a continuation\<close>

definition effect_prefix :: string where
  "effect_prefix = ''side-effect:''"

definition is_supported :: "decision_record option \<Rightarrow> bool" where
  "is_supported record =
     (case record of
        None \<Rightarrow> False
      | Some r \<Rightarrow>
          dq_status (rec_request r) = Resolved \<and> rec_resolution r \<noteq> None \<and>
          (dq_kind (rec_request r) = KOuterLoop \<or>
           dq_kind (rec_request r) = KTool \<and> prefix effect_prefix (dq_key (rec_request r))))"

definition is_cancel :: "decision_record \<Rightarrow> bool" where
  "is_cancel r =
     (case rec_resolution r of
        None \<Rightarrow> False
      | Some v \<Rightarrow> dq_kind (rec_request r) = KOuterLoop \<and> dr_action v = ''abort'' \<or>
                  dq_kind (rec_request r) = KTool \<and> dr_action v = ''reject'')"

definition state_binding :: "run_state \<Rightarrow> decision_record \<Rightarrow> bool" where
  "state_binding s r =
     (let i = dq_id (rec_request r); c = rs_continuation s
      in rs_edict s = dq_edict (rec_request r) \<and> rs_memorial s = dq_memorial (rec_request r) \<and>
         (rs_phase s = PWaitingDecision \<and> cont_pending c = Some i \<and> cont_resolved c = None \<or>
          rs_phase s = PExecuting \<and> cont_pending c = None \<and> cont_resolved c = Some i))"

fun drop_tool :: "continuation \<Rightarrow> continuation" where
  "drop_tool (Agent c) = Agent (c\<lparr>ac_pending_tool := None\<rparr>)"
| "drop_tool (OuterLoop c) = OuterLoop c"

fun set_cursor :: "int \<Rightarrow> continuation \<Rightarrow> continuation" where
  "set_cursor n (Agent c) = Agent (c\<lparr>ac_cursor := n\<rparr>)"
| "set_cursor n (OuterLoop c) = OuterLoop (c\<lparr>oc_cursor := n\<rparr>)"

definition decision_closed_at :: "decision_record \<Rightarrow> instant \<Rightarrow> run_state \<Rightarrow> instant" where
  "decision_closed_at r now s =
     max (max (rs_updated s) (case rec_resolution r of None \<Rightarrow> rs_updated s | Some v \<Rightarrow> dr_at v)) now"

text \<open>The cursor after the effect the decision was about.\<close>

definition resumed_cursor ::
  "(string \<Rightarrow> string) \<Rightarrow> (json \<Rightarrow> bool) \<Rightarrow> decision_record \<Rightarrow> run_state \<Rightarrow> db \<Rightarrow> int result" where
  "resumed_cursor sha sensitive r s d =
     (if dq_kind (rec_request r) = KTool
      then and_then (load_intent_current sha sensitive (drop (length effect_prefix) (dq_key (rec_request r))) d) (\<lambda>intent.
        case intent of
          None \<Rightarrow> Inl (ContinuationRecoveryError ''managed-effect intent binding is unavailable'')
        | Some x \<Rightarrow>
            if in_memorial x \<noteq> rs_memorial s
            then Inl (ContinuationRecoveryError ''managed-effect intent binding is unavailable'')
            else Inr (max (rs_cursor s) (in_sequence x + 1)))
      else Inr (rs_cursor s))"

definition recovered_state :: "decision_record \<Rightarrow> int \<Rightarrow> instant \<Rightarrow> run_state \<Rightarrow> run_state" where
  "recovered_state r cursor now s =
     (let c = set_decisions None (Some (dq_id (rec_request r))) (rs_continuation s)
      in s\<lparr>rs_phase := PExecuting,
           rs_continuation := (if dq_kind (rec_request r) = KTool then set_cursor cursor (drop_tool c) else c),
           rs_cursor := cursor, rs_updated := decision_closed_at r now s\<rparr>)"

definition resume_state ::
  "(string \<Rightarrow> string) \<Rightarrow> (string \<Rightarrow> string) \<Rightarrow> (run_state \<Rightarrow> bool) \<Rightarrow> (json \<Rightarrow> bool) \<Rightarrow> decision_record \<Rightarrow> run_state \<Rightarrow> instant \<Rightarrow>
   db \<Rightarrow> (run_state \<times> db) result" where
  "resume_state sha redact secret sensitive r s now d =
     (if rs_phase s = PExecuting then Inr (s, d)
      else and_then (resumed_cursor sha sensitive r s d) (\<lambda>cursor.
        compare_and_swap sha redact secret (recovered_state r cursor now s) (rs_version s) d))"

definition cancelled_state :: "decision_record \<Rightarrow> instant \<Rightarrow> run_state \<Rightarrow> run_state" where
  "cancelled_state r now s =
     s\<lparr>rs_phase := PFailed,
       rs_continuation := drop_tool (set_decisions None (Some (dq_id (rec_request r))) (rs_continuation s)),
       rs_updated := decision_closed_at r now s\<rparr>"

definition decision_cancelled_error :: redacted_error where
  "decision_cancelled_error =
     \<lparr>err_code = ''decision_cancelled'', err_message = ''Execution was cancelled by durable decision'',
      err_retryable = False, err_details_hash = None\<rparr>"

definition decision_cancelled_row :: "instant \<Rightarrow> attempt_lease \<Rightarrow> attempt_lease" where
  "decision_cancelled_row now a =
     a\<lparr>at_status := Failed, at_owner := None, at_heartbeat := None, at_expires := None,
       at_failure := Some decision_cancelled_error, at_version := at_version a + 1, at_updated := now\<rparr>"

definition decision_cancelled_event :: "decision_record \<Rightarrow> attempt_lease \<Rightarrow> instant \<Rightarrow> event_envelope" where
  "decision_cancelled_event r a now =
     (let q = rec_request r
      in \<lparr>ee_id = dq_id q @ '':execution.cancelled'', ee_type = ''execution.cancelled'', ee_edict = Some (dq_edict q),
          ee_memorial = Some (dq_memorial q), ee_attempt = 1, ee_timestamp = now, ee_producer = ''continuation-recovery.v1'',
          ee_payload = [(''schema_version'', JInt 1), (''decision_request_id'', JStr (dq_id q)), (''attempt_id'', JStr (at_id a)),
                        (''status'', JStr ''cancelled''), (''failure_reason'', JStr ''decision_cancelled'')]\<rparr>)"

definition recovery_cancel ::
  "(string \<Rightarrow> string) \<Rightarrow> (string \<Rightarrow> string) \<Rightarrow> (run_state \<Rightarrow> bool) \<Rightarrow> (string \<Rightarrow> unit result) \<Rightarrow> decision_record \<Rightarrow> run_state \<Rightarrow>
   attempt_lease \<Rightarrow> instant \<Rightarrow> db \<Rightarrow> db result" where
  "recovery_cancel sha redact secret hook r s a now d =
     (let m = dq_memorial (rec_request r)
      in and_then (compare_and_swap sha redact secret (cancelled_state r now s) (rs_version s) d) (\<lambda>(_, d1).
         and_then (hook ''after_run_state'') (\<lambda>_.
         and_then (update_attempts (\<lambda>x. at_id x = at_id a \<and> at_memorial x = m \<and> active x \<and> at_version x = at_version a)
            (decision_cancelled_row now) d1) (\<lambda>(n, d2).
           if n \<noteq> 1 then Inl (ContinuationRecoveryError ''attempt changed during cancellation'')
           else
             (case update_memorials
                     (\<lambda>x. mem_id x = m \<and> mem_edict x = dq_edict (rec_request r) \<and> mem_dag_node x = None \<and>
                          mem_status x \<notin> {TCompleted, TFailed, TCancelled})
                     (closed_memorial TCancelled ''Execution was cancelled'' ''decision_cancelled'' now) d2 of
                (k, d3) \<Rightarrow>
                  if k \<noteq> 1 then Inl (ContinuationRecoveryError ''root changed during cancellation'')
                  else and_then (hook ''before_resume_outbox'') (\<lambda>_. outbox_add sha (decision_cancelled_event r a now) d3))))))"

definition resume_event :: "decision_record \<Rightarrow> attempt_lease \<Rightarrow> run_state \<Rightarrow> instant \<Rightarrow> event_envelope" where
  "resume_event r a s now =
     (let q = rec_request r
      in \<lparr>ee_id = dq_id q @ '':execution.resume.requested'', ee_type = ''execution.resume.requested'',
          ee_edict = Some (dq_edict q), ee_memorial = Some (dq_memorial q), ee_attempt = 1, ee_timestamp = now,
          ee_producer = ''continuation-recovery.v1'',
          ee_payload = [(''schema_version'', JInt 1), (''decision_request_id'', JStr (dq_id q)), (''attempt_id'', JStr (at_id a)),
                        (''run_state_version'', JInt (rs_version s))]\<rparr>)"

definition recovery_resume ::
  "(string \<Rightarrow> string) \<Rightarrow> (string \<Rightarrow> string) \<Rightarrow> (run_state \<Rightarrow> bool) \<Rightarrow> (json \<Rightarrow> bool) \<Rightarrow> (string \<Rightarrow> unit result) \<Rightarrow> decision_record \<Rightarrow>
   run_state \<Rightarrow> attempt_lease \<Rightarrow> instant \<Rightarrow> db \<Rightarrow> db result" where
  "recovery_resume sha redact secret sensitive hook r s a now d =
     and_then (resume_state sha redact secret sensitive r s now d) (\<lambda>(s', d1).
     and_then (hook ''after_run_state'') (\<lambda>_.
     and_then (if at_status a = Suspended
               then and_then (resume_suspended_current (at_id a) (dq_memorial (rec_request r)) (at_version a) now d1) (\<lambda>(ok, d2).
                 if ok then Inr d2 else Inl (ContinuationRecoveryError ''suspended attempt changed during resume''))
               else if at_status a \<notin> {Claimable, Claimed} then Inl (ContinuationRecoveryError ''attempt cannot resume'')
               else Inr d1) (\<lambda>d2.
     and_then (hook ''before_resume_outbox'') (\<lambda>_.
       outbox_add sha (resume_event r a s' now) d2))))"

text \<open>The live attempt of a memorial, the latest first.\<close>

definition live_attempt :: "string \<Rightarrow> db \<Rightarrow> attempt_lease option" where
  "live_attempt m d =
     first_of (select_ordered (\<lambda>a. at_memorial a = m \<and> active a) (\<lambda>a. (- at_no a, - at_created a)) (db_attempts d))"

definition event_matches :: "event_envelope \<Rightarrow> decision_record \<Rightarrow> bool" where
  "event_matches ev r =
     (ee_edict ev = Some (dq_edict (rec_request r)) \<and> ee_memorial ev = Some (dq_memorial (rec_request r)) \<and>
      map_of (ee_payload ev) ''kind'' = Some (JStr (kind_value (dq_kind (rec_request r)))) \<and>
      (case rec_resolution r of None \<Rightarrow> False | Some v \<Rightarrow> map_of (ee_payload ev) ''action'' = Some (JStr (dr_action v))))"

definition recovery_settle ::
  "(string \<Rightarrow> string) \<Rightarrow> (string \<Rightarrow> string) \<Rightarrow> (run_state \<Rightarrow> bool) \<Rightarrow> (json \<Rightarrow> bool) \<Rightarrow> (string \<Rightarrow> unit result) \<Rightarrow> decision_record \<Rightarrow>
   instant \<Rightarrow> db \<Rightarrow> (bool \<times> db) result" where
  "recovery_settle sha redact secret sensitive hook r now d =
     (let m = dq_memorial (rec_request r)
      in and_then (load sha redact m d) (\<lambda>state.
           case state of
             None \<Rightarrow> Inl (ContinuationRecoveryError ''decision RunState is unavailable'')
           | Some s \<Rightarrow>
               if \<not> state_binding s r then Inl (ContinuationRecoveryError ''decision RunState binding is invalid'')
               else
                 (case live_attempt m d of
                    None \<Rightarrow> Inl (ContinuationRecoveryError ''decision suspension has no live attempt'')
                  | Some a \<Rightarrow>
                      and_then (if is_cancel r then recovery_cancel sha redact secret hook r s a now d
                                else recovery_resume sha redact secret sensitive hook r s a now d) (\<lambda>d'. Inr (True, d')))))"

definition recovery_body ::
  "(string \<Rightarrow> string) \<Rightarrow> (string \<Rightarrow> string) \<Rightarrow> (run_state \<Rightarrow> bool) \<Rightarrow> (json \<Rightarrow> bool) \<Rightarrow> (string \<Rightarrow> unit result) \<Rightarrow> event_envelope \<Rightarrow>
   string \<Rightarrow> instant \<Rightarrow> db \<Rightarrow> (bool \<times> db) result" where
  "recovery_body sha redact secret sensitive hook ev i now d =
     and_then (decision_get sha i d) (\<lambda>record.
       case record of
         None \<Rightarrow> Inr (False, d)
       | Some r \<Rightarrow>
           if \<not> is_supported record then Inr (False, d)
           else if \<not> event_matches ev r
           then Inl (ContinuationRecoveryError ''resolved event does not match durable authority'')
           else
             (case row_by mem_id (dq_memorial (rec_request r)) (db_memorials d) of
                None \<Rightarrow> Inl (ContinuationRecoveryError ''decision root binding is unavailable'')
              | Some mem \<Rightarrow>
                  if mem_dag_node mem \<noteq> None \<or> mem_edict mem \<noteq> dq_edict (rec_request r)
                  then Inl (ContinuationRecoveryError ''decision root binding is unavailable'')
                  else if mem_status mem \<in> {TCompleted, TFailed, TCancelled} then Inr (False, d)
                  else
                    and_then (select_outbox_record sha d (i @ '':execution.resume.requested'')) (\<lambda>resumed.
                    and_then (if resumed \<noteq> None then Inr True
                              else and_then (select_outbox_record sha d (i @ '':execution.cancelled'')) (\<lambda>cancelled.
                                Inr (cancelled \<noteq> None))) (\<lambda>done.
                      if done then Inr (False, d)
                      else recovery_settle sha redact secret sensitive hook r now d))))"

definition handle_decision_resolved ::
  "(string \<Rightarrow> string) \<Rightarrow> (string \<Rightarrow> string) \<Rightarrow> (run_state \<Rightarrow> bool) \<Rightarrow> (json \<Rightarrow> bool) \<Rightarrow> (string \<Rightarrow> unit result) \<Rightarrow> event_envelope \<Rightarrow>
   instant \<Rightarrow> db \<Rightarrow> bool result \<times> db" where
  "handle_decision_resolved sha redact secret sensitive hook ev now d =
     (if ee_type ev \<noteq> ''decision.resolved'' then (Inr False, d)
      else
        (case map_of (ee_payload ev) ''decision_request_id'' of
           Some (JStr i) \<Rightarrow>
             if blank i then (Inl (ContinuationRecoveryError ''resolved event is missing decision identity''), d)
             else atomically (recovery_body sha redact secret sensitive hook ev i now) d
         | _ \<Rightarrow> (Inl (ContinuationRecoveryError ''resolved event is missing decision identity''), d)))"

end
