(* ===== verification/Run_Recovery_Keeps.thy ===== *)
theory Run_Recovery_Keeps
  imports Run_Lifecycle Run_Recovery
begin

text \<open>
  The operations of the two recovery services, statement by statement, and that they keep the invariant of runs: a
  suspended attempt is given back to the dispatcher, or it is retired together with its root.
\<close>

section \<open>Statements on attempts\<close>

lemma update_keeps:
  assumes ok: "ledger_ok d" and u: "update_attempts p f d = Inr (n, d')"
    and f: "\<And>a. a \<in> set (db_attempts d) \<Longrightarrow> p a \<Longrightarrow> row_ok (f a) \<and> row_evolves a (f a) \<and> at_status (f a) \<noteq> DeadLetter"
  shows "ledger_work d d'" "ledger_ok d'" "evolves d d'"
proof -
  have d': "d' = d\<lparr>db_attempts := update_rows p f (db_attempts d)\<rparr>" using update_attempts_Inr [OF u] by simp
  have "active_memorials d' \<subseteq> active_memorials d"
    using f by (fastforce simp: d' active_memorials_def set_update_rows row_evolves_def transition_ok_def split: if_split_asm)
  moreover have "dead_final d'" if "dead_final d" using that f by (auto simp: d' dead_final_def set_update_rows)
  ultimately show "ledger_work d d'" using d' by (auto simp: ledger_work_def)
  show "ledger_ok d'" unfolding d' using f by (intro ledger_ok_update [OF ok]) (auto simp: row_evolves_def)
  show "evolves d d'" unfolding d' using f by (intro evolves_update) auto
qed

text \<open>The same statement on a database with the same attempts.\<close>

lemma update_attempts_same:
  assumes "update_attempts p f d = Inr (n, d')" "db_attempts e = db_attempts d"
  shows "update_attempts p f e = Inr (n, e\<lparr>db_attempts := db_attempts d'\<rparr>)"
  using assms update_attempts_Inr [OF assms(1)] by (auto simp: update_attempts_def Let_def split: if_split_asm)

lemma one_active:
  assumes ok: "ledger_ok d" and a: "a \<in> set (db_attempts d)" "active a" and b: "b \<in> set (db_attempts d)" "active b"
    and m: "at_memorial a = at_memorial b"
  shows "a = b"
proof -
  have "siblings_ok a b" "siblings_ok b a" using ledger_okD(5) [OF ok] a(1) b(1) by auto
  then have "at_id a = at_id b" using a(2) b(2) m by (cases "at_no a" "at_no b" rule: linorder_cases) (auto simp: siblings_ok_def)
  then show ?thesis using same_id_eq [OF ok b(1) a(1)] by simp
qed

text \<open>An update that retires the one row it finds leaves the memorial without an active attempt.\<close>

lemma update_retires:
  assumes ok: "ledger_ok d" and u: "update_attempts p f d = Inr (n, d')" and n: "n = 1"
    and p: "\<And>a. p a \<Longrightarrow> at_memorial a = m \<and> active a" and f: "\<And>a. p a \<Longrightarrow> \<not> active (f a)"
  shows "m \<notin> active_memorials d'" "\<exists>a \<in> set (db_attempts d). p a \<and> f a \<in> set (db_attempts d')"
proof -
  have d': "db_attempts d' = update_rows p f (db_attempts d)" and "count_rows p (db_attempts d) = 1"
    using update_attempts_Inr [OF u] n by simp_all
  then have "filter p (db_attempts d) \<noteq> []" by (auto simp: count_rows_def)
  then obtain a where a: "a \<in> set (db_attempts d)" "p a" by (auto simp: filter_empty_conv)
  have one: "x = a" if "x \<in> set (db_attempts d)" "active x" "at_memorial x = m" for x
    using one_active [OF ok that(1,2) a(1)] p [OF a(2)] that(3) by simp
  have "\<not> active x" if x: "x \<in> set (db_attempts d')" "at_memorial x = m" for x
  proof -
    obtain y where y: "y \<in> set (db_attempts d)" "x = (if p y then f y else y)"
      using x(1) by (auto simp: d' set_update_rows)
    show ?thesis
    proof (cases "p y")
      case True
      then show ?thesis using y(2) f by simp
    next
      case False
      then have "x = y" using y(2) by simp
      then show ?thesis using one [of y] y(1) x(2) False a(2) by blast
    qed
  qed
  then show "m \<notin> active_memorials d'" by (auto simp: active_memorials_def)
  show "\<exists>a \<in> set (db_attempts d). p a \<and> f a \<in> set (db_attempts d')" using a by (auto simp: d' set_update_rows image_iff intro!: bexI [of _ a])
qed

lemma reviewed_row_ok:
  assumes "row_ok a" "at_status a = Suspended" "at_created a \<le> now" "now \<le> av"
  shows "row_ok (reviewed_row now av a) \<and> row_evolves a (reviewed_row now av a) \<and> at_status (reviewed_row now av a) \<noteq> DeadLetter"
  using assms by (auto simp: row_ok_def valid_attempt_def attempt_shape_def reviewed_row_def row_evolves_def transition_ok_def
      active_def status_failed_def opt_nonblank_def)

lemma review_failed_row_ok:
  assumes "row_ok a" "at_status a = Suspended" "at_created a \<le> now"
  shows "row_ok (review_failed_row e now a) \<and> row_evolves a (review_failed_row e now a) \<and>
    at_status (review_failed_row e now a) \<noteq> DeadLetter"
  using assms by (auto simp: row_ok_def valid_attempt_def attempt_shape_def review_failed_row_def row_evolves_def transition_ok_def
      active_def status_failed_def opt_nonblank_def)

lemma decision_cancelled_row_ok:
  assumes "row_ok a" "active a" "at_created a \<le> now"
  shows "row_ok (decision_cancelled_row now a) \<and> row_evolves a (decision_cancelled_row now a) \<and>
    at_status (decision_cancelled_row now a) \<noteq> DeadLetter"
  using assms by (auto simp: row_ok_def valid_attempt_def attempt_shape_def decision_cancelled_row_def row_evolves_def
      transition_ok_def active_def status_failed_def opt_nonblank_def)

section \<open>Ending a run\<close>

text \<open>
  An attempt is retired, and then its root is ended; or, for an attempt of a memorial that is no root, an event is
  added. The two halves are independent, so that it does not matter in which order the code writes them.
\<close>

lemma ended_keeps:
  assumes inv: "runs_ok sha redact d" and w: "ledger_work d d1" "ledger_ok d1" "evolves d d1" "m \<notin> active_memorials d1"
    and re: "root_ended sha redact m f ev d1 d'" and f: "closes_row f"
    and ev: "ee_memorial ev = Some m" "ee_type ev \<in> terminal_types"
  shows "runs_ok sha redact d' \<and> run_evolves d d' \<and> (\<exists>r \<in> set (db_memorials d'). mem_id r = m \<and> closed_root r)"
proof -
  have inv1: "runs_inv sha redact {} d1" using ledger_work_inv [OF _ w(1,2)] inv by (simp add: runs_ok_def)
  note k = root_ended_inv [OF inv1 re f ev]
  have "active_memorials d' = active_memorials d1" using re by (simp add: root_ended_def active_memorials_def)
  then have "runs_ok sha redact d'" using runs_inv_retired [OF k(1)] w(4) by (simp add: runs_ok_def)
  then show ?thesis using k(2,3) run_evolves_trans [OF ledger_work_evolves [OF w(1,3)]] by blast
qed

lemma root_row:
  assumes inv: "runs_ok sha redact d" and m: "m \<in> active_memorials d" and r: "row_by mem_id m (db_memorials d) = Some r"
    and root: "mem_dag_node r = None"
  shows "r \<in> set (db_memorials d)" "mem_id r = m" "open_status (mem_status r)"
proof -
  show r': "r \<in> set (db_memorials d)" "mem_id r = m" using row_by_SomeD [OF r] by auto
  show "open_status (mem_status r)"
    using runs_invD(6) [of sha redact "{}" d r] inv r' m root by (auto simp: runs_ok_def closed_root_def)
qed

lemma update_one_memorial:
  assumes dist: "distinct (map mem_id (db_memorials d))" and r: "row_by mem_id m (db_memorials d) = Some r"
    and q: "\<And>x. q x \<Longrightarrow> mem_id x = m"
  shows "update_rows q f (db_memorials d) = (if q r then update_rows (\<lambda>x. x = r) f (db_memorials d) else db_memorials d)"
proof -
  have "q x \<longleftrightarrow> x = r \<and> q r" if "x \<in> set (db_memorials d)" for x
    using row_by_unique [OF dist that] r q [of x] by auto
  then show ?thesis by (auto simp: update_rows_def map_idI cong: map_cong)
qed

text \<open>The instants attempts were created at do not change.\<close>

definition created_kept :: "db \<Rightarrow> db \<Rightarrow> bool" where
  "created_kept d d' = (at_created ` set (db_attempts d') \<subseteq> at_created ` set (db_attempts d))"

lemma created_kept_refl [simp]: "db_attempts d' = db_attempts d \<Longrightarrow> created_kept d d'"
  by (simp add: created_kept_def)

lemma created_kept_trans: "created_kept d d' \<Longrightarrow> created_kept d' d'' \<Longrightarrow> created_kept d d''"
  by (auto simp: created_kept_def)

lemma created_keptD: "created_kept d d' \<Longrightarrow> (\<And>a. a \<in> set (db_attempts d) \<Longrightarrow> at_created a \<le> now) \<Longrightarrow> a \<in> set (db_attempts d') \<Longrightarrow> at_created a \<le> now"
  unfolding created_kept_def by force

lemma update_created:
  "update_attempts p f d = Inr (n, d') \<Longrightarrow> (\<And>a. p a \<Longrightarrow> at_created (f a) = at_created a) \<Longrightarrow> created_kept d d'"
  by (auto simp: created_kept_def set_update_rows dest!: update_attempts_Inr)

section \<open>Plan reviews\<close>

lemma swap_frame:
  assumes "states_ok sha redact d" "compare_and_swap sha redact secret s v d = Inr (t, d')"
  shows "states_ok sha redact d' \<and> (\<exists>rows. d' = d\<lparr>db_run_states := rows\<rparr>)"
  using compare_and_swap_Inr [OF assms] swapped_keeps [OF assms(1)] by (auto simp: swapped_def)

lemma fail_run_state_frame:
  assumes ok: "states_ok sha redact d" and f: "fail_run_state sha redact secret now state e d = Inr d'"
  shows "states_ok sha redact d' \<and> (\<exists>rows. d' = d\<lparr>db_run_states := rows\<rparr>)"
proof (cases state)
  case None
  then show ?thesis using ok f by (auto simp: fail_run_state_def intro: exI [of _ "db_run_states d"])
next
  case (Some s)
  let ?t = "(terminal_state PFailed now s)\<lparr>rs_edict := e\<rparr>"
  consider t where "compare_and_swap sha redact secret ?t (rs_version s) d = Inr (t, d')"
    | t where "recover_terminal_identity sha redact secret ?t (rs_version s) d = Inr (t, d')"
    using f Some by (auto simp: fail_run_state_def Let_def split: if_split_asm)
  then show ?thesis
  proof cases
    case 1
    then show ?thesis using swap_frame [OF ok] by blast
  next
    case 2
    from recover_Inr [OF ok 2] swapped_keeps [OF ok] show ?thesis by (auto simp: swapped_def)
  qed
qed

lemma review_event_sel [simp]:
  "ee_memorial (review_failed_event row e did now code msg) = Some (at_memorial row)"
  "ee_type (review_failed_event row e did now code msg) \<in> terminal_types"
  by (simp_all add: review_failed_event_def terminal_types_def)

text \<open>The statements of \<open>_terminalize\<close>, taken apart.\<close>

lemma review_terminalize_Inr:
  assumes ok: "states_ok sha redact d" and r: "review_terminalize sha redact secret now row state did code msg d = Inr d'"
  shows "\<exists>err d1 rows e c. update_attempts (suspended_at row) (review_failed_row err now) d = Inr (1, d1) \<and> err_code err = code \<and>
    d' = d1\<lparr>db_run_states := rows,
      db_memorials := update_rows (\<lambda>r. mem_id r = at_memorial row \<and> mem_dag_node r = None \<and> mem_status r \<notin> {TCompleted, TCancelled})
         (closed_memorial TFailed msg code now) (db_memorials d),
      db_outbox := db_outbox d @ [new_outbox_row (review_failed_event row e did now code msg) c]\<rparr> \<and> states_ok sha redact d'"
proof -
  let ?e = "case root_edict (at_memorial row) d of None \<Rightarrow> ''unknown'' | Some e \<Rightarrow> e"
  let ?q = "\<lambda>r. mem_id r = at_memorial row \<and> mem_dag_node r = None \<and> mem_status r \<notin> {TCompleted, TCancelled}"
  obtain hash n d1 d2 where u: "update_attempts (suspended_at row)
        (review_failed_row \<lparr>err_code = code, err_message = msg, err_retryable = False, err_details_hash = hash\<rparr> now) d = Inr (n, d1)"
    and n: "n = 1" and fs: "fail_run_state sha redact secret now state ?e d1 = Inr d2"
    and add: "outbox_add sha (review_failed_event row ?e did now code msg)
        (snd (update_memorials ?q (closed_memorial TFailed msg code now) d2)) = Inr d'"
    using r unfolding review_terminalize_def Let_def by (auto split: if_split_asm)
  have d1: "d1 = d\<lparr>db_attempts := db_attempts d1\<rparr>" using update_attempts_Inr [OF u] by simp
  then have ok1: "states_ok sha redact d1" using ok by (metis db.select_convs(4) db.surjective db.update_convs(3) states_ok_def)
  obtain rows where d2: "d2 = d1\<lparr>db_run_states := rows\<rparr>" and ok2: "states_ok sha redact d2"
    using fail_run_state_frame [OF ok1 fs] by blast
  obtain c where d': "d' = (snd (update_memorials ?q (closed_memorial TFailed msg code now) d2))\<lparr>db_outbox := db_outbox d2 @ [new_outbox_row (review_failed_event row ?e did now code msg) c]\<rparr>"
    using outbox_add_Inr [OF add] by (auto simp: update_memorials_def)
  have mems: "db_memorials d2 = db_memorials d" "db_outbox d2 = db_outbox d" by (simp_all add: d2) (subst d1, simp)+
  have "states_ok sha redact d'" using ok2 by (simp add: d' update_memorials_def states_ok_def)
  moreover have "d' = d1\<lparr>db_run_states := rows, db_memorials := update_rows ?q (closed_memorial TFailed msg code now) (db_memorials d),
      db_outbox := db_outbox d @ [new_outbox_row (review_failed_event row ?e did now code msg) c]\<rparr>"
    unfolding d' update_memorials_def mems snd_conv unfolding d2 by simp
  ultimately show ?thesis using u n by fastforce
qed

lemma suspended_atD: "suspended_at row a \<Longrightarrow> at_memorial a = at_memorial row \<and> active a"
  by (simp add: suspended_at_def active_def)

lemma review_terminalize_keeps:
  assumes inv: "runs_ok sha redact d" and t: "\<And>a. a \<in> set (db_attempts d) \<Longrightarrow> at_created a \<le> now"
    and r: "review_terminalize sha redact secret now row state did code msg d = Inr d'"
  shows "runs_ok sha redact d' \<and> run_evolves d d' \<and> created_kept d d'"
proof -
  let ?m = "at_memorial row" and ?g = "closed_memorial TFailed msg code now"
  let ?q = "\<lambda>r. mem_id r = ?m \<and> mem_dag_node r = None \<and> mem_status r \<notin> {TCompleted, TCancelled}"
  have inv0: "runs_inv sha redact {} d" using inv by (simp add: runs_ok_def)
  note ok = runs_invD(1) [OF inv0]
  obtain err d1 rows e c where u: "update_attempts (suspended_at row) (review_failed_row err now) d = Inr (1, d1)"
    and d': "d' = d1\<lparr>db_run_states := rows, db_memorials := update_rows ?q ?g (db_memorials d),
      db_outbox := db_outbox d @ [new_outbox_row (review_failed_event row e did now code msg) c]\<rparr>"
    and st: "states_ok sha redact d'"
    using review_terminalize_Inr [OF runs_invD(2) [OF inv0] r] by blast
  have d1: "db_memorials d1 = db_memorials d" "db_outbox d1 = db_outbox d" using update_attempts_Inr [OF u] by simp_all
  have w: "ledger_work d d1" "ledger_ok d1" "evolves d d1"
    using u review_failed_row_ok [OF ledger_okD(2) [OF ok] _ t] by (auto intro!: update_keeps [OF ok u] simp: suspended_at_def)
  have out: "?m \<notin> active_memorials d1"
    using update_retires(1) [OF ok u refl suspended_atD] by (simp add: review_failed_row_def active_def)
  obtain a where a: "a \<in> set (db_attempts d)" "suspended_at row a"
    using update_retires(2) [OF ok u refl suspended_atD] by (auto simp: review_failed_row_def active_def)
  then have act: "?m \<in> active_memorials d" using active_memorialsI [OF a(1)] suspended_atD [OF a(2)] by simp
  have cre: "created_kept d d'" using update_created [OF u] by (auto simp: created_kept_def d' review_failed_row_def)
  have "has_memorial d ?m" using ledger_okD(4) [OF ok a(1)] suspended_atD [OF a(2)] by simp
  then obtain r where row: "row_by mem_id ?m (db_memorials d) = Some r"
    by (cases "row_by mem_id ?m (db_memorials d)") (auto simp: has_memorial_iff row_by_None_iff)
  show ?thesis
  proof (cases "mem_dag_node r = None")
    case True
    note rr = root_row [OF inv act row True]
    have "mem_status r \<notin> {TCompleted, TCancelled}" using rr(3) by (auto simp: open_status_def)
    then have mems: "db_memorials d' = update_rows (\<lambda>x. x = r) ?g (db_memorials d1)"
      using update_one_memorial [OF runs_invD(3) [OF inv0] row, of ?q ?g] True rr(2) by (simp add: d' d1)
    have "root_ended sha redact ?m ?g (review_failed_event row e did now code msg) d1 d'"
      unfolding root_ended_def using rr True mems st by (auto simp: d' d1)
    from ended_keeps [OF inv w out this closes_closed review_event_sel] cre show ?thesis by simp
  next
    case False
    have mems: "db_memorials d' = db_memorials d1"
      using update_one_memorial [OF runs_invD(3) [OF inv0] row, of ?q ?g] False by (simp add: d' d1)
    have inv1: "runs_ok sha redact d1" using ledger_work_inv [OF inv0 w(1,2)] by (simp add: runs_ok_def)
    have nr: "mem_id x \<noteq> ?m" if "x \<in> set (db_memorials d1)" "mem_dag_node x = None" for x
      using row_by_unique [OF runs_invD(3) [OF inv0], of x ?m] that row False by (auto simp: d1)
    have te: "terminal_events d' (mem_id x) = terminal_events d1 (mem_id x)" if "x \<in> set (db_memorials d1)" "mem_dag_node x = None" for x
      using nr [OF that] by (simp add: terminal_events_def d' d1 new_outbox_row_def)
    have fk: "m \<in> mem_id ` set (db_memorials d1)" if "o' \<in> set (db_outbox d')" "ob_memorial o' = Some m" for o' m
    proof -
      have "?m \<in> mem_id ` set (db_memorials d)" using row_by_SomeD [OF row] by (intro image_eqI [of _ _ r]) simp_all
      then show ?thesis using that inv0 by (auto simp: runs_inv_def d' d1 new_outbox_row_def)
    qed
    have att: "db_attempts d' = db_attempts d1" by (simp add: d')
    have "runs_ok sha redact d' \<and> run_evolves d1 d'"
      by (intro conjI other_keeps [OF inv1 att mems _ _ st]) (erule te fk, assumption)+
    then show ?thesis using run_evolves_trans [OF ledger_work_evolves [OF w(1,3)]] cre by blast
  qed
qed

lemma review_resume_keeps:
  assumes inv: "runs_ok sha redact d" and t: "\<And>a. a \<in> set (db_attempts d) \<Longrightarrow> at_created a \<le> now" and av: "now \<le> av"
    and r: "review_resume now av row d = Inr d'"
  shows "runs_ok sha redact d' \<and> run_evolves d d' \<and> created_kept d d'"
proof -
  have inv0: "runs_inv sha redact {} d" using inv by (simp add: runs_ok_def)
  note ok = runs_invD(1) [OF inv0]
  obtain n where u: "update_attempts (suspended_at row) (reviewed_row now av) d = Inr (n, d')"
    using r by (auto simp: review_resume_def split: if_split_asm)
  have w: "ledger_work d d'" "ledger_ok d'" "evolves d d'"
    using reviewed_row_ok [OF ledger_okD(2) [OF ok] _ t av] by (auto intro!: update_keeps [OF ok u] simp: suspended_at_def)
  have "created_kept d d'" using update_created [OF u] by (simp add: reviewed_row_def)
  then show ?thesis using ledger_work_inv [OF inv0 w(1,2)] ledger_work_evolves [OF w(1,3)] by (simp add: runs_ok_def)
qed

lemma planning_memorial_keeps:
  assumes "runs_ok sha redact d"
  shows "runs_ok sha redact (planning_memorial m e d) \<and> run_evolves d (planning_memorial m e d) \<and> created_kept d (planning_memorial m e d)"
  unfolding planning_memorial_def update_memorials_def snd_conv open_status_iff
  by (intro conjI progress_keeps [OF assms]) (simp_all add: open_status_def [of TPlanning] created_kept_def)

lemma swap_keeps_runs:
  assumes inv: "runs_ok sha redact d" and r: "compare_and_swap sha redact secret s v d = Inr (t, d')"
  shows "runs_ok sha redact d' \<and> run_evolves d d' \<and> created_kept d d'"
proof -
  have inv0: "runs_inv sha redact {} d" using inv by (simp add: runs_ok_def)
  obtain rows where st: "states_ok sha redact d'" and d': "d' = d\<lparr>db_run_states := rows\<rparr>"
    using swap_frame [OF runs_invD(2) [OF inv0] r] by blast
  have "m \<in> mem_id ` set (db_memorials d)" if "o' \<in> set (db_outbox d')" "ob_memorial o' = Some m" for o' m
    using that inv0 by (auto simp: runs_inv_def d')
  with other_keeps [OF inv _ _ _ _ st] show ?thesis by (auto simp: d' terminal_events_def)
qed

lemma settle_review_keeps:
  assumes inv: "runs_ok sha redact d" and t: "\<And>a. a \<in> set (db_attempts d) \<Longrightarrow> at_created a \<le> now"
    and r: "settle_review sha redact secret now row s rec i d = Inr (b, d')"
  shows "runs_ok sha redact d' \<and> run_evolves d d' \<and> created_kept d d'"
proof (cases "dq_status (rec_request rec) = Pending")
  case True
  then show ?thesis using r inv by (simp add: settle_review_def)
next
  case False
  let ?at = "case rec_resolution rec of None \<Rightarrow> dq_updated (rec_request rec) | Some v \<Rightarrow> dr_at v"
  obtain s' d1 where s: "(if rs_phase s = PWaitingDecision then compare_and_swap sha redact secret (reviewed_state rec i s) (rs_version s) d
        else Inr (s, d)) = Inr (s', d1)"
    and rest: "(if approved rec then and_then (review_resume now (max now ?at) row d1) (\<lambda>d2.
          Inr (True, planning_memorial (at_memorial row) (rs_edict s') d2))
       else and_then (review_terminalize sha redact secret now row (Some s') (Some i) ''plan_review_rejected''
                  ''Plan review did not approve execution'' d1) (\<lambda>d2. Inr (True, d2))) = Inr (b, d')"
    using r False by (auto simp: settle_review_def Let_def)
  have k1: "runs_ok sha redact d1 \<and> run_evolves d d1 \<and> created_kept d d1"
    using s swap_keeps_runs [OF inv] inv by (auto split: if_split_asm)
  have t1: "at_created a \<le> now" if "a \<in> set (db_attempts d1)" for a using created_keptD [OF _ t that] k1 by blast
  have "runs_ok sha redact d' \<and> run_evolves d1 d' \<and> created_kept d1 d'"
  proof (cases "approved rec")
    case True
    then obtain d2 where d2: "review_resume now (max now ?at) row d1 = Inr d2" "d' = planning_memorial (at_memorial row) (rs_edict s') d2"
      using rest by auto
    have k2: "runs_ok sha redact d2 \<and> run_evolves d1 d2 \<and> created_kept d1 d2"
      using review_resume_keeps [OF conjunct1 [OF k1] t1 _ d2(1)] by simp
    show ?thesis unfolding d2(2)
      using k2 planning_memorial_keeps [OF conjunct1 [OF k2]] run_evolves_trans created_kept_trans by blast
  next
    case False
    then show ?thesis using rest review_terminalize_keeps [OF conjunct1 [OF k1] t1] by auto
  qed
  then show ?thesis using k1 run_evolves_trans created_kept_trans by blast
qed

text \<open>What the loop does with a row: it fails it, or it settles the review it is bound to.\<close>

lemma review_row_cases:
  assumes r: "review_row sha redact secret now row d = Inr (b, d')"
  shows "(\<exists>state did. fail_unbound sha redact secret now row state did d = Inr (b, d') \<and>
       (state = None \<or> load sha redact (at_memorial row) d = Inr state)) \<or>
    (\<exists>s rec i. load sha redact (at_memorial row) d = Inr (Some s) \<and> review_decision_id (Some s) = Some i \<and>
       decision_get sha i d = Inr (Some rec) \<and>
       binding_error sha (Some s) (Some rec) (at_memorial row) (Some i) (root_edict (at_memorial row) d) = Inr None \<and>
       settle_review sha redact secret now row s rec i d = Inr (b, d'))"
proof (cases "load sha redact (at_memorial row) d")
  case (Inl e)
  then show ?thesis using r by (cases e) (auto simp: review_row_def)
next
  case (Inr state)
  let ?did = "review_decision_id state"
  obtain rec err where g: "(case ?did of None \<Rightarrow> Inr None | Some i \<Rightarrow> decision_get sha i d) = Inr rec"
    and be: "binding_error sha state rec (at_memorial row) ?did (root_edict (at_memorial row) d) = Inr err"
    and rest: "(case (err, state, rec, ?did) of (None, Some s, Some r, Some i) \<Rightarrow> settle_review sha redact secret now row s r i d
       | _ \<Rightarrow> fail_unbound sha redact secret now row state ?did d) = Inr (b, d')"
    using r Inr by (auto simp: review_row_def Let_def)
  show ?thesis
  proof (cases "err = None \<and> state \<noteq> None \<and> rec \<noteq> None \<and> ?did \<noteq> None")
    case True
    then obtain s rc i where "err = None" "state = Some s" "rec = Some rc" "?did = Some i" by auto
    then show ?thesis using Inr g be rest by auto
  next
    case False
    then have "fail_unbound sha redact secret now row state ?did d = Inr (b, d')"
      using rest by (auto split: option.split_asm)
    then show ?thesis using Inr by blast
  qed
qed

lemma review_row_keeps:
  assumes inv: "runs_ok sha redact d" and t: "\<And>a. a \<in> set (db_attempts d) \<Longrightarrow> at_created a \<le> now"
    and r: "review_row sha redact secret now row d = Inr (b, d')"
  shows "runs_ok sha redact d' \<and> run_evolves d d' \<and> created_kept d d'"
proof -
  consider state did where "fail_unbound sha redact secret now row state did d = Inr (b, d')"
    | s rec i where "settle_review sha redact secret now row s rec i d = Inr (b, d')"
    using review_row_cases [OF r] by blast
  then show ?thesis
  proof cases
    case 1
    then show ?thesis using review_terminalize_keeps [OF inv t] by (auto simp: fail_unbound_def)
  next
    case 2
    then show ?thesis using settle_review_keeps [OF inv t] by blast
  qed
qed

lemma review_rows_keeps:
  assumes "runs_ok sha redact d" "\<And>a. a \<in> set (db_attempts d) \<Longrightarrow> at_created a \<le> now"
    and "review_rows sha redact secret now rows k d = Inr (n, d')"
  shows "runs_ok sha redact d' \<and> run_evolves d d' \<and> created_kept d d'"
  using assms
proof (induction rows arbitrary: k d)
  case (Cons row rows)
  obtain b d1 where rr: "review_row sha redact secret now row d = Inr (b, d1)"
    and rest: "review_rows sha redact secret now rows (if b then k + 1 else k) d1 = Inr (n, d')"
    using Cons.prems(3) by auto
  have k1: "runs_ok sha redact d1 \<and> run_evolves d d1 \<and> created_kept d d1" using review_row_keeps [OF Cons.prems(1,2) rr] by blast
  have "at_created a \<le> now" if "a \<in> set (db_attempts d1)" for a using created_keptD [OF _ Cons.prems(2) that] k1 by blast
  from Cons.IH [OF conjunct1 [OF k1] this rest] k1 show ?case using run_evolves_trans created_kept_trans by blast
qed simp

lemma review_once_keeps:
  assumes inv: "runs_ok sha redact d" and t: "\<And>a. a \<in> set (db_attempts d) \<Longrightarrow> at_created a \<le> now"
    and r: "review_once sha redact secret limit now d = (res, d')"
  shows "runs_ok sha redact d' \<and> run_evolves d d'"
proof (cases res)
  case (Inl e)
  then show ?thesis using r inv by (auto simp: review_once_def atomically_def split: sum.split_asm)
next
  case (Inr n)
  then show ?thesis using r review_rows_keeps [OF inv t] by (auto simp: review_once_def)
qed

section \<open>Recovery of a continuation\<close>

lemma decision_event_sel [simp]:
  "ee_memorial (decision_cancelled_event r a now) = Some (dq_memorial (rec_request r))"
  "ee_type (decision_cancelled_event r a now) \<in> terminal_types"
  "ee_memorial (resume_event r a s now) = Some (dq_memorial (rec_request r))"
  "ee_type (resume_event r a s now) \<notin> terminal_types"
  by (simp_all add: decision_cancelled_event_def resume_event_def terminal_types_def Let_def)

lemma add_event_keeps:
  assumes inv: "runs_ok sha redact d" and add: "outbox_add sha ev d = Inr d'" and ty: "ee_type ev \<notin> terminal_types"
  shows "runs_ok sha redact d' \<and> run_evolves d d'"
proof -
  have inv0: "runs_inv sha redact {} d" using inv by (simp add: runs_ok_def)
  obtain c where d': "d' = d\<lparr>db_outbox := db_outbox d @ [new_outbox_row ev c]\<rparr>" using outbox_add_Inr [OF add] by blast
  have fk: "m \<in> mem_id ` set (db_memorials d)" if "ee_memorial ev = Some m" for m
    using add that by (auto simp: outbox_add_def insert_outbox_def new_outbox_row_def has_memorial_iff split: if_split_asm)
  have "m \<in> mem_id ` set (db_memorials d)" if "o' \<in> set (db_outbox d')" "ob_memorial o' = Some m" for o' m
    using that inv0 fk by (auto simp: runs_inv_def d' new_outbox_row_def)
  moreover have "states_ok sha redact d'" using runs_invD(2) [OF inv0] by (simp add: d' states_ok_def)
  moreover have "terminal_events d' m = terminal_events d m" for m using ty by (simp add: d' terminal_events_def new_outbox_row_def)
  ultimately show ?thesis using other_keeps [OF inv, of d'] by (simp add: d')
qed

lemma recovery_cancel_Inr:
  assumes ok: "states_ok sha redact d" and dist: "distinct (map mem_id (db_memorials d))"
    and r: "recovery_cancel sha redact secret hook rec s a now d = Inr d'"
  defines "m \<equiv> dq_memorial (rec_request rec)"
  shows "\<exists>e1. update_attempts (\<lambda>x. at_id x = at_id a \<and> at_memorial x = m \<and> active x \<and> at_version x = at_version a)
       (decision_cancelled_row now) d = Inr (1, e1) \<and>
     root_ended sha redact m (closed_memorial TCancelled ''Execution was cancelled'' ''decision_cancelled'' now)
       (decision_cancelled_event rec a now) e1 d' \<and>
     (\<exists>t d1. compare_and_swap sha redact secret (cancelled_state rec now s) (rs_version s) d = Inr (t, d1) \<and>
        db_run_states d' = db_run_states d1)"
proof -
  let ?P = "\<lambda>x. at_id x = at_id a \<and> at_memorial x = m \<and> active x \<and> at_version x = at_version a"
  let ?Q = "\<lambda>x. mem_id x = m \<and> (mem_edict x = dq_edict (rec_request rec) \<and> mem_dag_node x = None \<and> mem_status x \<notin> {TCompleted, TFailed, TCancelled})"
  let ?G = "closed_memorial TCancelled ''Execution was cancelled'' ''decision_cancelled'' now"
  obtain t d1 n d2 k d3 where cas: "compare_and_swap sha redact secret (cancelled_state rec now s) (rs_version s) d = Inr (t, d1)"
    and u: "update_attempts ?P (decision_cancelled_row now) d1 = Inr (n, d2)" "n = 1"
    and mu: "update_memorials ?Q ?G d2 = (k, d3)" "k = 1" and add: "outbox_add sha (decision_cancelled_event rec a now) d3 = Inr d'"
    using r unfolding recovery_cancel_def Let_def m_def [symmetric] by (auto split: if_split_asm prod.split_asm)
  obtain rows where d1: "d1 = d\<lparr>db_run_states := rows\<rparr>" and ok1: "states_ok sha redact d1" using swap_frame [OF ok cas] by blast
  define e1 where "e1 = d\<lparr>db_attempts := db_attempts d2\<rparr>"
  have ue: "update_attempts ?P (decision_cancelled_row now) d = Inr (1, e1)"
    using update_attempts_same [OF u(1), of d] u(2) by (simp add: d1 e1_def)
  have d2: "d2 = d1\<lparr>db_attempts := db_attempts d2\<rparr>" using update_attempts_Inr [OF u(1)] by simp
  have mem2: "db_memorials d2 = db_memorials d" "db_outbox d2 = db_outbox d" "db_run_states d2 = rows"
    by (subst d2, simp add: d1)+
  have d3: "d3 = d2\<lparr>db_memorials := update_rows ?Q ?G (db_memorials d)\<rparr>" and one: "count_rows ?Q (db_memorials d) = 1"
    using mu by (auto simp: update_memorials_def mem2)
  obtain x where x: "row_by mem_id m (db_memorials d) = Some x" "mem_dag_node x = None" "mem_status x \<notin> {TCompleted, TFailed, TCancelled}"
      "mem_edict x = dq_edict (rec_request rec)"
    using one unfolding count_rows_by_key [OF dist] by (auto split: option.split_asm if_split_asm)
  have xin: "x \<in> set (db_memorials d)" "mem_id x = m" using row_by_SomeD [OF x(1)] by auto
  have rows': "update_rows ?Q ?G (db_memorials d) = update_rows (\<lambda>y. y = x) ?G (db_memorials d)"
    using update_one_memorial [OF dist x(1), of ?Q ?G] x(2-4) xin(2) by simp
  obtain c where d': "d' = d3\<lparr>db_outbox := db_outbox d @ [new_outbox_row (decision_cancelled_event rec a now) c]\<rparr>"
    using outbox_add_Inr [OF add] by (auto simp: d3 mem2)
  have mems': "db_memorials d' = update_rows (\<lambda>y. y = x) ?G (db_memorials e1)"
    unfolding d' d3 rows' e1_def by simp
  have "states_ok sha redact d'" using ok1 by (simp add: states_ok_def d' d3 mem2(3) d1)
  then have "root_ended sha redact m ?G (decision_cancelled_event rec a now) e1 d'"
    unfolding root_ended_def using xin x(2,3) mems' unfolding open_status_iff by (auto simp: e1_def d' d3)
  moreover have "db_run_states d' = db_run_states d1" by (simp add: d' d3 mem2(3) d1)
  ultimately show ?thesis using ue cas by blast
qed

lemma recovery_cancel_keeps:
  assumes inv: "runs_ok sha redact d" and t: "\<And>a. a \<in> set (db_attempts d) \<Longrightarrow> at_created a \<le> now"
    and r: "recovery_cancel sha redact secret hook rec s a now d = Inr d'"
  shows "runs_ok sha redact d' \<and> run_evolves d d' \<and>
    (\<exists>r \<in> set (db_memorials d'). mem_id r = dq_memorial (rec_request rec) \<and> closed_root r)"
proof -
  let ?m = "dq_memorial (rec_request rec)"
  let ?P = "\<lambda>x. at_id x = at_id a \<and> at_memorial x = ?m \<and> active x \<and> at_version x = at_version a"
  have inv0: "runs_inv sha redact {} d" using inv by (simp add: runs_ok_def)
  note ok = runs_invD(1) [OF inv0]
  obtain e1 where u: "update_attempts ?P (decision_cancelled_row now) d = Inr (1, e1)"
    and re: "root_ended sha redact ?m (closed_memorial TCancelled ''Execution was cancelled'' ''decision_cancelled'' now)
       (decision_cancelled_event rec a now) e1 d'"
    using recovery_cancel_Inr [OF runs_invD(2,3) [OF inv0] r] by blast
  have w: "ledger_work d e1" "ledger_ok e1" "evolves d e1"
    using decision_cancelled_row_ok [OF ledger_okD(2) [OF ok] _ t] by (auto intro!: update_keeps [OF ok u])
  have "?m \<notin> active_memorials e1"
    using update_retires(1) [OF ok u refl] by (simp add: decision_cancelled_row_def active_def)
  from ended_keeps [OF inv w this re closes_closed decision_event_sel(1,2)] show ?thesis by simp
qed

lemma resume_state_keeps:
  assumes "runs_ok sha redact d" "resume_state sha redact secret sensitive rec s now d = Inr (s', d')"
  shows "runs_ok sha redact d' \<and> run_evolves d d' \<and> db_attempts d' = db_attempts d"
proof (cases "rs_phase s = PExecuting")
  case True
  then show ?thesis using assms by (simp add: resume_state_def)
next
  case False
  then obtain c where cas: "compare_and_swap sha redact secret (recovered_state rec c now s) (rs_version s) d = Inr (s', d')"
    using assms(2) by (auto simp: resume_state_def)
  then show ?thesis using swap_keeps_runs [OF assms(1) cas] swap_frame [OF _ cas] assms(1)
    by (auto simp: runs_ok_def runs_inv_def)
qed

text \<open>The three writes of a resumption.\<close>

lemma recovery_resume_Inr:
  assumes r: "recovery_resume sha redact secret sensitive hook rec s a now d = Inr d'"
  shows "\<exists>s' d1 d2. resume_state sha redact secret sensitive rec s now d = Inr (s', d1) \<and>
    (if at_status a = Suspended
     then resume_suspended_current (at_id a) (dq_memorial (rec_request rec)) (at_version a) now d1 = Inr (True, d2)
     else at_status a \<in> {Claimable, Claimed} \<and> d2 = d1) \<and>
    outbox_add sha (resume_event rec a s' now) d2 = Inr d'"
  using r unfolding recovery_resume_def by (auto split: if_split_asm)

lemma recovery_resume_keeps:
  assumes inv: "runs_ok sha redact d" and t: "\<And>a. a \<in> set (db_attempts d) \<Longrightarrow> at_created a \<le> now"
    and r: "recovery_resume sha redact secret sensitive hook rec s a now d = Inr d'"
  shows "runs_ok sha redact d' \<and> run_evolves d d'"
proof -
  obtain s' d1 d2 where rs: "resume_state sha redact secret sensitive rec s now d = Inr (s', d1)"
    and ra: "if at_status a = Suspended
     then resume_suspended_current (at_id a) (dq_memorial (rec_request rec)) (at_version a) now d1 = Inr (True, d2)
     else at_status a \<in> {Claimable, Claimed} \<and> d2 = d1"
    and add: "outbox_add sha (resume_event rec a s' now) d2 = Inr d'"
    using recovery_resume_Inr [OF r] by blast
  have k1: "runs_ok sha redact d1" "run_evolves d d1" "db_attempts d1 = db_attempts d" using resume_state_keeps [OF inv rs] by auto
  have k2: "runs_ok sha redact d2 \<and> run_evolves d1 d2"
  proof (cases "at_status a = Suspended")
    case True
    then have res: "resume_suspended_current (at_id a) (dq_memorial (rec_request rec)) (at_version a) now d1 = Inr (True, d2)"
      using ra by simp
    have inv1: "runs_inv sha redact {} d1" using k1(1) by (simp add: runs_ok_def)
    note o = resume_ok [OF runs_invD(1) [OF inv1] res] and w = resume_work [OF res]
    then show ?thesis using ledger_work_inv [OF inv1 w] ledger_work_evolves [OF w] t k1(3) by (simp add: runs_ok_def)
  next
    case False
    then show ?thesis using ra k1(1) by simp
  qed
  have "runs_ok sha redact d' \<and> run_evolves d2 d'" using add_event_keeps [OF _ add decision_event_sel(4)] k2 by blast
  then show ?thesis using k1(2) k2 run_evolves_trans by blast
qed

lemma recovery_settle_Inr:
  assumes r: "recovery_settle sha redact secret sensitive hook rec now d = Inr (b, d')"
  shows "b \<and> (\<exists>s a. load sha redact (dq_memorial (rec_request rec)) d = Inr (Some s) \<and> state_binding s rec \<and>
       live_attempt (dq_memorial (rec_request rec)) d = Some a \<and>
       (if is_cancel rec then recovery_cancel sha redact secret hook rec s a now d = Inr d'
        else recovery_resume sha redact secret sensitive hook rec s a now d = Inr d'))"
proof -
  obtain st where ld: "load sha redact (dq_memorial (rec_request rec)) d = Inr st" using r by (auto simp: recovery_settle_def Let_def)
  obtain s where st: "st = Some s" and sb: "state_binding s rec"
    using r ld by (cases st) (auto simp: recovery_settle_def Let_def split: if_split_asm)
  obtain a where la: "live_attempt (dq_memorial (rec_request rec)) d = Some a"
    using r ld st sb by (cases "live_attempt (dq_memorial (rec_request rec)) d") (auto simp: recovery_settle_def Let_def)
  show ?thesis using r ld st sb la by (cases "is_cancel rec") (auto simp: recovery_settle_def Let_def)
qed

lemma recovery_body_cases:
  assumes "recovery_body sha redact secret sensitive hook ev i now d = Inr (b, d')"
  shows "\<not> b \<and> d' = d \<or>
    b \<and> (\<exists>rec s a. decision_get sha i d = Inr (Some rec) \<and> is_supported (Some rec) \<and> event_matches ev rec \<and>
       load sha redact (dq_memorial (rec_request rec)) d = Inr (Some s) \<and> state_binding s rec \<and>
       live_attempt (dq_memorial (rec_request rec)) d = Some a \<and>
       (if is_cancel rec then recovery_cancel sha redact secret hook rec s a now d = Inr d'
        else recovery_resume sha redact secret sensitive hook rec s a now d = Inr d'))"
proof -
  obtain rc where g: "decision_get sha i d = Inr rc" using assms by (auto simp: recovery_body_def)
  show ?thesis
  proof (cases "\<not> b \<and> d' = d")
    case False
    then obtain rec where rc: "rc = Some rec" using assms g by (cases rc) (auto simp: recovery_body_def)
    have sup: "is_supported (Some rec)" and em: "event_matches ev rec"
      using assms g rc False by (auto simp: recovery_body_def split: if_split_asm)
    have "recovery_settle sha redact secret sensitive hook rec now d = Inr (b, d')"
      using assms g rc False sup em by (auto simp: recovery_body_def split: option.split_asm if_split_asm)
    from recovery_settle_Inr [OF this] g rc sup em show ?thesis by blast
  qed simp
qed

lemma handle_decision_resolved_keeps:
  assumes inv: "runs_ok sha redact d" and t: "\<And>a. a \<in> set (db_attempts d) \<Longrightarrow> at_created a \<le> now"
    and r: "handle_decision_resolved sha redact secret sensitive hook ev now d = (res, d')"
  shows "runs_ok sha redact d' \<and> run_evolves d d'"
proof -
  consider "d' = d" | i b where "recovery_body sha redact secret sensitive hook ev i now d = Inr (b, d')"
    using r by (auto simp: handle_decision_resolved_def atomically_def
        split: if_split_asm option.split_asm json.split_asm sum.split_asm prod.split_asm)
  then show ?thesis
  proof cases
    case 2
    from recovery_body_cases [OF this] show ?thesis
      using recovery_cancel_keeps [OF inv t] recovery_resume_keeps [OF inv t] inv by (auto split: if_split_asm)
  qed (use inv in simp)
qed

end
