(* ===== verification/Run_Safety.thy ===== *)
theory Run_Safety
  imports Run_Recovery_Keeps
begin

text \<open>
  The life of runs as a step relation: submission, the operations of the attempt ledger, progress of open roots,
  the recovery of suspended attempts and the ways a run is closed, in any order and by any callers. The theorems say what a closing does, and
  that a closed run stays closed.
\<close>

section \<open>Steps\<close>

text \<open>
  A step is one committed or failed operation. A memorial is submitted open; its first attempt is enqueued while it
  is open; identifiers that are drawn are not blank; outcomes satisfy their model; a resumption, a cancellation and a
  recovery are not dated before the attempts they touch. Work on other tables leaves attempts, memorials and terminal events
  alone and keeps the run states well-formed.
\<close>

inductive life_step ::
  "(string \<Rightarrow> string) \<Rightarrow> (string \<Rightarrow> string) \<Rightarrow> (run_state \<Rightarrow> bool) \<Rightarrow> (rat \<Rightarrow> string) \<Rightarrow> db \<Rightarrow> db \<Rightarrow> bool"
  for sha redact secret repr where
  submit: "mem_id r \<notin> mem_id ` set (db_memorials d) \<Longrightarrow> open_status (mem_status r) \<Longrightarrow>
    d' = d\<lparr>db_memorials := db_memorials d @ [r]\<rparr> \<Longrightarrow> life_step sha redact secret repr d d'"
| progress: "(\<And>r. p r \<Longrightarrow> open_status (mem_status r)) \<Longrightarrow>
    (\<And>r. p r \<Longrightarrow> mem_id (f r) = mem_id r \<and> mem_dag_node (f r) = mem_dag_node r \<and> open_status (mem_status (f r))) \<Longrightarrow>
    d' = d\<lparr>db_memorials := update_rows p f (db_memorials d)\<rparr> \<Longrightarrow> life_step sha redact secret repr d d'"
| enqueue: "\<not> blank ni \<Longrightarrow> enqueue_initial sha now ni m av mx i d = Inr (a, d') \<Longrightarrow>
    (\<And>r. r \<in> set (db_memorials d) \<Longrightarrow> mem_id r = m \<Longrightarrow> \<not> closed_root r) \<Longrightarrow> life_step sha redact secret repr d d'"
| claim: "\<not> blank ni \<Longrightarrow> claim sha ni m ow now l d = (res, d') \<Longrightarrow> life_step sha redact secret repr d d'"
| heartbeat: "heartbeat i ow k now d = (res', d') \<Longrightarrow> life_step sha redact secret repr d d'"
| complete: "\<not> blank ni \<Longrightarrow> valid_outcome o' \<Longrightarrow> complete sha ni i ow k o' d = (res', d') \<Longrightarrow> life_step sha redact secret repr d d'"
| resume: "resume_suspended_current i m v av d = Inr (b, d') \<Longrightarrow>
    (\<And>a. a \<in> set (db_attempts d) \<Longrightarrow> at_id a = i \<Longrightarrow> at_created a \<le> av) \<Longrightarrow> life_step sha redact secret repr d d'"
| finish: "\<not> blank ni \<Longrightarrow> valid_outcome (cc_outcome c) \<Longrightarrow>
    complete_run sha redact secret repr hook ni c d = (res'', d') \<Longrightarrow> life_step sha redact secret repr d d'"
| cancel: "(\<And>a. a \<in> set (db_attempts d) \<Longrightarrow> at_memorial a = m \<Longrightarrow> at_created a \<le> now) \<Longrightarrow>
    cancel_root sha redact secret hook m reason now d = (res', d') \<Longrightarrow> life_step sha redact secret repr d d'"
| retry: "\<not> blank ni \<Longrightarrow> valid_outcome o' \<Longrightarrow>
    retry_or_dead_letter sha redact secret hook ni au o' d = (res', d') \<Longrightarrow> life_step sha redact secret repr d d'"
| reconcile: "reconcile_dead_lettered_roots sha redact secret limit now d = (res3, d') \<Longrightarrow> life_step sha redact secret repr d d'"
| review: "(\<And>a. a \<in> set (db_attempts d) \<Longrightarrow> at_created a \<le> now) \<Longrightarrow>
    review_once sha redact secret limit now d = (res3, d') \<Longrightarrow> life_step sha redact secret repr d d'"
| recover: "(\<And>a. a \<in> set (db_attempts d) \<Longrightarrow> at_created a \<le> now) \<Longrightarrow>
    handle_decision_resolved sha redact secret sensitive hook ev now d = (res', d') \<Longrightarrow> life_step sha redact secret repr d d'"
| other: "db_attempts d' = db_attempts d \<Longrightarrow> db_memorials d' = db_memorials d \<Longrightarrow>
    (\<And>m. terminal_events d' m = terminal_events d m) \<Longrightarrow>
    (\<And>o' m. o' \<in> set (db_outbox d') \<Longrightarrow> ob_memorial o' = Some m \<Longrightarrow> m \<in> mem_id ` set (db_memorials d)) \<Longrightarrow>
    states_ok sha redact d' \<Longrightarrow> life_step sha redact secret repr d d'"

lemma submit_keeps:
  assumes inv: "runs_ok sha redact d" and new: "mem_id r \<notin> mem_id ` set (db_memorials d)" and o': "open_status (mem_status r)"
  shows "runs_ok sha redact (d\<lparr>db_memorials := db_memorials d @ [r]\<rparr>)" "run_evolves d (d\<lparr>db_memorials := db_memorials d @ [r]\<rparr>)"
proof -
  let ?d = "d\<lparr>db_memorials := db_memorials d @ [r]\<rparr>"
  have inv0: "runs_inv sha redact {} d" using inv by (simp add: runs_ok_def)
  have te: "terminal_events ?d m = terminal_events d m" for m by (simp add: terminal_events_def)
  have "terminal_events d (mem_id r) = []"
    using inv0 new by (auto simp: runs_inv_def terminal_events_def filter_empty_conv)
  moreover have "ledger_ok ?d" using runs_invD(1) [OF inv0] by (auto simp: ledger_ok_def has_memorial_iff)
  moreover have "active_memorials ?d = active_memorials d" by (simp add: active_memorials_def)
  ultimately show "runs_ok sha redact ?d"
    using inv0 new o' unfolding runs_ok_def runs_inv_def te
    by (auto simp: dead_final_def states_ok_def closed_root_def)
  show "run_evolves d ?d" by (simp add: run_evolves_def evolves_mono)
qed

lemma enqueue_keeps:
  assumes inv: "runs_ok sha redact d" and ni: "\<not> blank ni" and e: "enqueue_initial sha now ni m av mx i d = Inr (a, d')"
    and m: "\<And>r. r \<in> set (db_memorials d) \<Longrightarrow> mem_id r = m \<Longrightarrow> \<not> closed_root r"
  shows "runs_ok sha redact d'" "run_evolves d d'"
proof -
  have inv0: "runs_inv sha redact {} d" using inv by (simp add: runs_ok_def)
  have k: "ledger_ok d'" "evolves d d'" using enqueue_ok [OF runs_invD(1) [OF inv0] ni e] by auto
  have "d' = d \<or> (\<exists>j c. d' = d\<lparr>db_attempts := db_attempts d @ [new_attempt j m 1 0 av mx (min now av) c]\<rparr>)"
    using e by (auto simp: enqueue_initial_def insert_attempt_def Let_def split: if_split_asm option.split_asm)
  then show "runs_ok sha redact d'"
  proof
    assume "\<exists>j c. d' = d\<lparr>db_attempts := db_attempts d @ [new_attempt j m 1 0 av mx (min now av) c]\<rparr>"
    then obtain j c where d': "d' = d\<lparr>db_attempts := db_attempts d @ [new_attempt j m 1 0 av mx (min now av) c]\<rparr>" by blast
    have "active_memorials d' \<subseteq> insert m (active_memorials d)"
      by (auto simp: active_memorials_def d' new_attempt_def)
    moreover have "terminal_events d' x = terminal_events d x" for x by (simp add: terminal_events_def d')
    moreover have "dead_final d'" using runs_invD(5) [OF inv0] by (auto simp: dead_final_def d' new_attempt_def)
    moreover have "states_ok sha redact d'" using runs_invD(2) [OF inv0] by (simp add: states_ok_def d')
    moreover have "db_memorials d' = db_memorials d" "db_outbox d' = db_outbox d" by (simp_all add: d')
    ultimately show ?thesis
      using inv0 k(1) m unfolding runs_ok_def runs_inv_def by auto
  qed (use inv in simp)
  show "run_evolves d d'" using k(2) \<open>d' = d \<or> _\<close> by (auto simp: run_evolves_def)
qed

lemma life_step_keeps:
  assumes inv: "runs_ok sha redact d" and st: "life_step sha redact secret repr d d'"
  shows "runs_ok sha redact d' \<and> run_evolves d d'"
proof -
  have inv0: "runs_inv sha redact {} d" using inv by (simp add: runs_ok_def)
  note ok = runs_invD(1) [OF inv0]
  have work: ?thesis if "ledger_work d d'" "ledger_ok d' \<and> evolves d d'"
    using ledger_work_inv [OF inv0 that(1)] ledger_work_evolves [OF that(1)] that(2) by (simp add: runs_ok_def)
  from st show ?thesis
  proof cases
    case (submit r)
    then show ?thesis using submit_keeps [OF inv] by simp
  next
    case (progress p f)
    then show ?thesis using progress_keeps [OF inv, of p f] by simp
  next
    case (enqueue ni now m av mx i a)
    then show ?thesis using enqueue_keeps [OF inv] by blast
  next
    case (claim ni m ow now l res)
    then show ?thesis using work claim_work [OF ok] claim_ok [OF ok] by blast
  next
    case (heartbeat i ow k now res')
    then show ?thesis using work heartbeat_work heartbeat_ok [OF ok] by blast
  next
    case (complete ni o' i ow k res')
    then show ?thesis using work complete_work [OF ok] complete_ok [OF ok] by blast
  next
    case (resume i m v av b)
    then show ?thesis using work resume_work resume_ok [OF ok] by blast
  next
    case (finish ni c hook res'')
    then show ?thesis using complete_run_keeps [OF inv] by blast
  next
    case (cancel m now hook reason res')
    then show ?thesis using cancel_root_keeps [OF inv] by blast
  next
    case (retry ni o' hook au res')
    then show ?thesis using retry_keeps [OF inv] by blast
  next
    case (reconcile limit now res3)
    then show ?thesis using reconcile_keeps [OF inv] by blast
  next
    case (review now limit res3)
    then show ?thesis using review_once_keeps [OF inv] by blast
  next
    case (recover now sensitive hook ev res')
    then show ?thesis using handle_decision_resolved_keeps [OF inv] by blast
  next
    case other
    then show ?thesis using other_keeps [OF inv] by blast
  qed
qed

text \<open>
  The contract of a revocable authority once more: what is held is a live attempt of a memorial, and it is lost
  when the root is closed.
\<close>

definition run_alive :: "db \<Rightarrow> string \<Rightarrow> bool" where
  "run_alive d m = (m \<in> active_memorials d)"

definition run_closed :: "db \<Rightarrow> string \<Rightarrow> bool" where
  "run_closed d m = (\<exists>r \<in> set (db_memorials d). mem_id r = m \<and> closed_root r)"

interpretation runs: revocable_authority "life_step sha redact secret repr" "runs_ok sha redact" run_evolves run_alive run_closed
  for sha redact secret repr
proof unfold_locales
  show "runs_ok sha redact d \<Longrightarrow> life_step sha redact secret repr d d' \<Longrightarrow> runs_ok sha redact d'"
    and "runs_ok sha redact d \<Longrightarrow> life_step sha redact secret repr d d' \<Longrightarrow> run_evolves d d'" for d d'
    using life_step_keeps by blast+
  show "run_evolves d d" for d by simp
  show "run_evolves d d' \<Longrightarrow> run_evolves d' d'' \<Longrightarrow> run_evolves d d''" for d d' d'' by (rule run_evolves_trans)
  show "runs_ok sha redact d \<Longrightarrow> runs_ok sha redact d' \<Longrightarrow> run_evolves d d' \<Longrightarrow> run_closed d m \<Longrightarrow> run_closed d' m" for d d' m
    by (auto simp: run_evolves_def run_closed_def)
  show "runs_ok sha redact d \<Longrightarrow> run_closed d m \<Longrightarrow> \<not> run_alive d m" for d m
    using runs_invD(6) [of sha redact "{}" d] by (auto simp: runs_ok_def run_closed_def run_alive_def)
qed

lemma authority_live:
  assumes "ledger_ok d" "a \<in> set (db_attempts d)" "require_current (at_id a) ow k t d = Inr ()"
  shows "run_alive d (at_memorial a)"
proof -
  obtain b where "b \<in> set (db_attempts d)" "at_id b = at_id a" "authority_at b ow k t"
    using assms(3) require_current_iff [OF assms(1)] by blast
  then have "b = a" "active a" using same_id_eq [OF assms(1,2)] by (auto simp: authority_at_def active_def)
  then show ?thesis using active_memorialsI [OF assms(2)] by (simp add: run_alive_def)
qed

section \<open>A run and its end\<close>

definition demo_running :: db where
  "demo_running = demo_leased\<lparr>db_edicts := [demo_edict], db_checkpoints := [''e1''],
     db_run_states := [\<lparr>rr_state = demo_state, rr_correlation = Some ''c1''\<rparr>]\<rparr>"

definition demo_worker :: attempt_authority where
  "demo_worker = \<lparr>aa_attempt = ''a1'', aa_memorial = ''m1'', aa_owner = ''w1'', aa_fence = 1\<rparr>"

definition demo_completion :: completion_command where
  "demo_completion =
     \<lparr>cc_authority = demo_worker,
      cc_outcome = \<lparr>out_disposition = DSucceeded, out_completed_at = 20, out_failure = None, out_retry_at = None\<rparr>,
      cc_status = TCompleted, cc_summary = Some ''ok'', cc_result = None, cc_final_output = None, cc_usage = None,
      cc_reasoning = None, cc_error = None, cc_failure_reason = None, cc_run_state = None, cc_expected_version = None\<rparr>"

definition no_hook :: "string \<Rightarrow> unit result" where
  "no_hook boundary = Inr ()"

definition demo_finish :: "string result \<times> db" where
  "demo_finish = complete_run id id (\<lambda>_. False) (\<lambda>_. ''0.0'') no_hook ''a2'' demo_completion demo_running"

definition demo_cancel :: "bool result \<times> db" where
  "demo_cancel = cancel_root id id (\<lambda>_. False) no_hook ''m1'' ''stop'' 20 demo_running"

lemma demo_running_ok: "runs_ok id id demo_running"
proof -
  have "ledger_ok demo_running" using demo_ok(2) by (simp add: demo_running_def ledger_ok_def has_memorial_def)
  moreover have "states_ok id id demo_running" using demo_state_valid by (simp add: states_ok_def demo_running_def)
  moreover have "dead_final demo_running" "distinct (map mem_id (db_memorials demo_running))" "db_outbox demo_running = []"
    "db_memorials demo_running = [demo_memorial]" "open_status (mem_status demo_memorial)"
    by (simp_all add: dead_final_def demo_running_def demo_defs open_status_def)
  ultimately show ?thesis by (simp add: runs_ok_def runs_inv_def terminal_events_def closed_root_def)
qed

lemma demo_results:
  "demo_finish = (Inr (projr (fst demo_finish)), snd demo_finish)" "demo_cancel = (Inr True, snd demo_cancel)"
  by code_simp+

lemma demo_valid: "valid_outcome (cc_outcome demo_completion)" "\<not> blank ''a2''"
  by code_simp+

lemma demo_created: "a \<in> set (db_attempts demo_running) \<Longrightarrow> at_created a \<le> 20"
  by (simp add: demo_running_def demo_defs)

section \<open>Properties\<close>

text \<open>
  C6: \<open>complete\<close> either changes nothing or does everything: the caller held the lease of an attempt of the root at the
  time of completion and the attempt is closed with the outcome; the open root carries the projection; the run state, if
  there is one, is terminal and waits for no decision; and the terminal event is pending in the outbox.
\<close>

theorem completion_in_one_piece:
  assumes "runs_ok sha redact d" and "valid_outcome (cc_outcome c)" and "\<not> blank ni"
    and "complete_run sha redact secret repr hook ni c d = (res, d')"
  shows "case res of
      Inl e \<Rightarrow> d' = d
    | Inr i \<Rightarrow>
        (let au = cc_authority c; m = aa_memorial au; o' = cc_outcome c
         in (\<exists>a \<in> set (db_attempts d). at_id a = aa_attempt au \<and> at_memorial a = m \<and>
               authority_at a (aa_owner au) (aa_fence au) (out_completed_at o') \<and>
               completed_row (if out_disposition o' = DSucceeded then Succeeded else Failed) o' a \<in> set (db_attempts d')) \<and>
            (\<exists>r \<in> set (db_memorials d). mem_id r = m \<and> mem_dag_node r = None \<and> open_status (mem_status r) \<and>
               projected_memorial c r \<in> set (db_memorials d') \<and> mem_edict r \<notin> set (db_checkpoints d')) \<and>
            (\<forall>s \<in> set (db_run_states d'). row_memorial s = m \<longrightarrow>
               rs_phase (rr_state s) = outcome_phase (out_disposition o') \<and> cont_pending (rs_continuation (rr_state s)) = None) \<and>
            (\<exists>e \<in> set (db_outbox d'). ob_id e = i \<and> ob_type e = terminal_event_type (out_disposition o') \<and>
               ob_memorial e = Some m \<and> ob_status e = OPending))"
proof (cases res)
  case (Inl e)
  then have "d' = d" using assms(4) by (auto simp: complete_run_def atomically_def split: sum.split_asm)
  then show ?thesis using Inl by simp
next
  case (Inr i)
  let ?au = "cc_authority c" and ?o = "cc_outcome c"
  obtain a e d1 where a: "row_by at_id (aa_attempt ?au) (db_attempts d) = Some a" "at_memorial a = aa_memorial ?au"
    and i: "i = completion_event_id sha c" and val: "validate_command c = Inr ()"
    and rc: "root_closed sha redact (aa_memorial ?au) (projected_memorial c) (outcome_phase (out_disposition ?o)) (completion_event sha repr c e) d d1"
    and co: "complete_current sha ni (aa_attempt ?au) (aa_owner ?au) (aa_fence ?au) ?o d1 = Inr (True, d')"
    using complete_run_Inr [OF assms(1)] assms(4) Inr by blast
  note v = validate_command_Inr [OF val]
  have inv0: "runs_inv sha redact {} d" using assms(1) by (simp add: runs_ok_def)
  have ok1: "ledger_ok d1" using runs_invD(1) [OF root_closed_inv(1) [OF inv0 rc closes_projected [OF v(2)] event_sel(1,2)]] .
  have att: "db_attempts d1 = db_attempts d" using rc by (simp add: root_closed_def)
  have a1: "row_by at_id (aa_attempt ?au) (db_attempts d1) = Some a" using a(1) att by simp
  note ret = completion_retires [OF ok1 assms(2,3) co a1 disjI1 [OF v(1)]]
  note same = ledger_work_same [OF complete_current_work [OF ok1 co]]
  have ain: "a \<in> set (db_attempts d)" "at_id a = aa_attempt ?au" using row_by_SomeD [OF a(1)] by auto
  have stat: "completion_status a ?o = (if out_disposition ?o = DSucceeded then Succeeded else Failed)"
    using v(1) by (auto simp: completion_status_def)
  obtain r k where r: "r \<in> set (db_memorials d)" "mem_id r = aa_memorial ?au" "mem_dag_node r = None" "open_status (mem_status r)"
    and mems: "db_memorials d1 = update_rows (\<lambda>x. x = r) (projected_memorial c) (db_memorials d)"
    and cp: "mem_edict r \<notin> set (db_checkpoints d1)" and out: "db_outbox d1 = db_outbox d @ [new_outbox_row (completion_event sha repr c e) k]"
    and st: "\<forall>s \<in> set (db_run_states d1). row_memorial s = aa_memorial ?au \<longrightarrow>
               rs_phase (rr_state s) = outcome_phase (out_disposition ?o) \<and> cont_pending (rs_continuation (rr_state s)) = None"
    using rc unfolding root_closed_def by blast
  have "projected_memorial c r \<in> set (db_memorials d')" using r(1) by (auto simp: same mems set_update_rows image_iff)
  moreover have "new_outbox_row (completion_event sha repr c e) k \<in> set (db_outbox d')" by (simp add: same out)
  moreover have "ob_id (new_outbox_row (completion_event sha repr c e) k) = i"
    "ob_type (new_outbox_row (completion_event sha repr c e) k) = terminal_event_type (out_disposition ?o)"
    "ob_memorial (new_outbox_row (completion_event sha repr c e) k) = Some (aa_memorial ?au)"
    "ob_status (new_outbox_row (completion_event sha repr c e) k) = OPending"
    by (simp_all add: new_outbox_row_def i) (simp add: completion_event_def Let_def)
  ultimately show ?thesis
    using ain a(2) ret(2,5) stat r cp st unfolding Inr Let_def by (auto simp: same)
qed

theorem completion_in_one_piece_witness:
  "fst demo_finish = Inr (projr (fst demo_finish)) \<and>
   (\<exists>e \<in> set (db_outbox (snd demo_finish)). ob_type e = ''execution.completed'' \<and> ob_memorial e = Some ''m1'' \<and> ob_status e = OPending)"
proof -
  have run: "complete_run id id (\<lambda>_. False) (\<lambda>_. ''0.0'') no_hook ''a2'' demo_completion demo_running = (Inr (projr (fst demo_finish)), snd demo_finish)"
    using demo_results(1) by (simp only: demo_finish_def [symmetric])
  from completion_in_one_piece [OF demo_running_ok demo_valid run] demo_results(1) show ?thesis
    by (auto simp: Let_def demo_completion_def demo_worker_def terminal_event_type_def) (metis fst_conv)+
qed



text \<open>
  C7: once \<open>cancel_root\<close> has returned, whether or not it found the root open, the root is closed and no worker is ever
  again current for any of its attempts, through all later operations: claims, heartbeats, resumptions, completions and
  retries included.
\<close>

theorem cancelled_run_never_resumes:
  assumes "runs_ok sha redact d"
    and "\<forall>a \<in> set (db_attempts d). at_memorial a = m \<longrightarrow> at_created a \<le> now"
    and "cancel_root sha redact secret hook m reason now d = (Inr b, d')"
    and "(life_step sha redact secret repr)\<^sup>*\<^sup>* d' d''" and "a \<in> set (db_attempts d'')" and "at_memorial a = m"
  shows "run_closed d'' m \<and> require_current (at_id a) ow k t d'' \<noteq> Inr ()"
proof -
  have c: "runs_ok sha redact d'" "run_closed d' m"
    using cancel_root_keeps [OF assms(1) _ assms(3)] assms(2) by (auto simp: run_closed_def)
  have inv: "runs_ok sha redact d''" and ev: "run_evolves d' d''" using runs.steps_inv_evo [OF assms(4) c(1)] by auto
  have "\<not> run_alive d'' m" using runs.lost_forever [OF c assms(4)] .
  moreover have "ledger_ok d''" using inv by (simp add: runs_ok_def runs_inv_def)
  ultimately have "require_current (at_id a) ow k t d'' \<noteq> Inr ()" using authority_live assms(5,6) by blast
  moreover have "run_closed d'' m" using c(2) ev by (auto simp: run_closed_def run_evolves_def)
  ultimately show ?thesis by simp
qed

theorem cancelled_run_never_resumes_witness:
  "run_closed (snd demo_cancel) ''m1'' \<and> require_current ''a1'' ''w1'' 1 30 (snd demo_cancel) \<noteq> Inr ()"
proof -
  have can: "cancel_root id id (\<lambda>_. False) no_hook ''m1'' ''stop'' 20 demo_running = (Inr True, snd demo_cancel)"
    using demo_results(2) by (simp only: demo_cancel_def [symmetric])
  have a: "revoked_row 20 (claimed_row ''w1'' 10 1 demo_attempt) \<in> set (db_attempts (snd demo_cancel))" by code_simp
  from cancelled_run_never_resumes [where repr = "\<lambda>_. ''0.0''", OF demo_running_ok _ can rtranclp.rtrancl_refl a] demo_created
  show ?thesis by (simp add: revoked_row_def demo_defs)
qed

text \<open>
  C18: a reconciliation that returns has closed the root of every dead-lettered attempt it selected, in the order of their
  age and up to its limit, and reopened none; so no root is left open behind a dead letter after enough passes.
\<close>

theorem dead_letters_are_projected:
  assumes "runs_ok sha redact d" and "reconcile_dead_lettered_roots sha redact secret limit now d = (Inr n, d')"
  shows "count_rows (unprojected d') (db_attempts d') \<le> count_rows (unprojected d) (db_attempts d) - nat limit"
proof -
  let ?sel = "take (nat limit) (select_ordered (unprojected d) (\<lambda>a. (at_updated a, at_id a)) (db_attempts d))"
  have k: "only_closed d d'" "\<forall>row \<in> set (dead_letter_rows limit d). \<not> unprojected d' (fst row)"
    using reconcile_keeps [OF assms] by auto
  have att: "db_attempts d' = db_attempts d" using k(1) by (simp add: only_closed_def)
  have sel: "\<not> unprojected d' a" if "a \<in> set ?sel" for a using k(2) that by (force simp: dead_letter_rows_def)
  have dist: "distinct (db_attempts d)" using assms(1) by (auto simp: runs_ok_def runs_inv_def ledger_ok_def distinct_map)
  let ?ord = "select_ordered (unprojected d) (\<lambda>a. (at_updated a, at_id a)) (db_attempts d)"
  have perm: "set ?ord = set (filter (unprojected d) (db_attempts d))" "distinct ?ord" "length ?ord = count_rows (unprojected d) (db_attempts d)"
    using dist by (simp_all add: select_ordered_def count_rows_def)
  have split: "set ?ord = set ?sel \<union> set (drop (nat limit) ?ord)"
    unfolding set_append [symmetric] append_take_drop_id ..
  have "set (filter (unprojected d') (db_attempts d)) \<subseteq> set (drop (nat limit) ?ord)"
  proof
    fix a assume "a \<in> set (filter (unprojected d') (db_attempts d))"
    then have "a \<in> set ?ord" "a \<notin> set ?sel" using only_closed_unprojected [OF k(1)] sel perm(1) by auto
    then show "a \<in> set (drop (nat limit) ?ord)" using split by blast
  qed
  then have "card (set (filter (unprojected d') (db_attempts d))) \<le> card (set (drop (nat limit) ?ord))" by (intro card_mono) simp_all
  then have "length (filter (unprojected d') (db_attempts d)) \<le> length (drop (nat limit) ?ord)"
    unfolding distinct_card [OF distinct_filter [OF dist]] distinct_card [OF distinct_drop [OF perm(2)]] .
  then show ?thesis using perm(3) by (simp add: att count_rows_def)
qed

definition demo_dead :: db where
  "demo_dead = demo_running\<lparr>db_attempts := [(expired_row True 2000000 (claimed_row ''w1'' 10 1 demo_attempt))\<lparr>at_max := 1\<rparr>]\<rparr>"

definition demo_reconciled :: "nat result \<times> db" where
  "demo_reconciled = reconcile_dead_lettered_roots id id (\<lambda>_. False) 100 3000000 demo_dead"

lemma demo_dead_ok: "runs_ok id id demo_dead"
proof -
  have "ledger_ok demo_dead"
    by (simp add: demo_dead_def demo_running_def ledger_ok_def demo_defs row_defs has_memorial_def siblings_ok_def seconds_def expired_row_def)
  moreover have "states_ok id id demo_dead" using demo_running_ok by (simp add: runs_ok_def runs_inv_def states_ok_def demo_dead_def)
  moreover have "dead_final demo_dead" "distinct (map mem_id (db_memorials demo_dead))" "db_outbox demo_dead = []"
    "db_memorials demo_dead = [demo_memorial]" "open_status (mem_status demo_memorial)"
    by (simp_all add: dead_final_def demo_dead_def demo_running_def demo_defs expired_row_def open_status_def)
  ultimately show ?thesis by (simp add: runs_ok_def runs_inv_def terminal_events_def closed_root_def)
qed

theorem dead_letters_are_projected_witness:
  "count_rows (unprojected demo_dead) (db_attempts demo_dead) = 1 \<and>
   count_rows (unprojected (snd demo_reconciled)) (db_attempts (snd demo_reconciled)) = 0"
proof -
  have r: "demo_reconciled = (Inr 1, snd demo_reconciled)" by code_simp
  then have "reconcile_dead_lettered_roots id id (\<lambda>_. False) 100 3000000 demo_dead = (Inr 1, snd demo_reconciled)"
    by (simp only: demo_reconciled_def [symmetric])
  from dead_letters_are_projected [OF demo_dead_ok this] have "count_rows (unprojected (snd demo_reconciled)) (db_attempts (snd demo_reconciled)) \<le>
      count_rows (unprojected demo_dead) (db_attempts demo_dead) - 100" by simp
  moreover have "count_rows (unprojected demo_dead) (db_attempts demo_dead) = 1" by code_simp
  ultimately show ?thesis by simp
qed

end
