(* ===== verification/Run_Dispatch_Safety.thy ===== *)
theory Run_Dispatch_Safety
  imports Run_Dispatch Run_Safety
begin

text \<open>
  What the dispatcher promises: a due run is claimed and started, once; a completion that is acknowledged is durable; and
  where the outcome of a run gets lost on its way to the ledger.
\<close>

section \<open>Starting\<close>

lemma granted_current:
  assumes "ledger_ok d'" "granted m ow now l d d' a" "0 < l"
  shows "require_current (at_id a) ow (at_fence a) now d' = Inr ()"
proof -
  have a: "a \<in> set (db_attempts d')" "at_status a = Claimed" "at_owner a = Some ow" "at_heartbeat a = Some now"
    "at_expires a = Some (now + seconds l)" using assms(2) by (auto simp: granted_def)
  have v: "valid_attempt a" using ledger_okD(3) [OF assms(1) a(1)] .
  have "authority_at a ow (at_fence a) now" using a seconds_pos [of l] assms(3) by (simp add: authority_at_def)
  moreover have "\<not> blank (at_id a)" "\<not> blank ow" "0 < at_fence a"
    using v a(2,3) by (auto simp: valid_attempt_def attempt_shape_def opt_nonblank_def)
  ultimately show ?thesis using a(1) unfolding require_current_iff [OF assms(1)] by blast
qed

lemma dispatch_run_started:
  assumes ok: "ledger_ok d" and ni: "\<not> blank ni"
    and run: "dispatch_run sha ni now m (dp, d) = (Inr (Some au), dp', d')"
  shows "aa_memorial au = m \<and> aa_owner au = dp_owner dp \<and> authority_current au now d' = Inr () \<and>
    map_of (dp_memorial_tasks dp) m = None \<and> map_of (dp_memorial_tasks dp') m = Some (dp_next dp) \<and>
    map_of (dp_tasks dp') (aa_attempt au) = Some (dp_next dp) \<and> \<not> dp_stop dp \<and> ledger_ok d' \<and> evolves d d'"
proof -
  have pre: "dp_router dp" "\<not> dp_stop dp" "map_of (dp_memorial_tasks dp) m = None"
    using run by (auto simp: dispatch_run_def split: if_split_asm)
  obtain a where cl: "claim sha ni m (dp_owner dp) now (dp_lease_seconds dp) d = (Inr (Some a), d')"
    and au: "au = lease_authority a (the (at_owner a))" and dp': "dp' = add_task au dp"
    using run pre by (auto simp: dispatch_run_def Let_def split: sum.split_asm option.split_asm prod.split_asm)
  have l: "0 < dp_lease_seconds dp" using cl by (auto simp: claim_def split: if_split_asm)
  have k: "ledger_ok d'" "evolves d d'" "granted m (dp_owner dp) now (dp_lease_seconds dp) d d' a"
    using claim_ok [OF ok ni cl] by auto
  have "at_memorial a = m" "at_owner a = Some (dp_owner dp)" using k(3) by (auto simp: granted_def)
  then show ?thesis
    using granted_current [OF k(1,3) l] pre k(1,2)
    by (simp add: au dp' lease_authority_def add_task_def authority_current_def update_conv')
qed

lemma dispatch_run_succeeds:
  assumes ok: "ledger_ok d" and a: "a \<in> set (db_attempts d)" "at_status a = Claimable" "at_available a \<le> now"
    and root: "is_root d (at_memorial a)"
    and dp: "dp_router dp" "\<not> dp_stop dp" "map_of (dp_memorial_tasks dp) (at_memorial a) = None"
      "\<not> blank (dp_owner dp)" "0 < dp_lease_seconds dp"
  shows "\<exists>d'. dispatch_run sha ni now (at_memorial a) (dp, d) =
    (Inr (Some (lease_authority (claimed_row (dp_owner dp) now (dp_lease_seconds dp) a) (dp_owner dp))),
     add_task (lease_authority (claimed_row (dp_owner dp) now (dp_lease_seconds dp) a) (dp_owner dp)) dp, d')"
proof -
  have v: "valid_attempt a" using ledger_okD(3) [OF ok a(1)] .
  then have m: "\<not> blank (at_memorial a)" by (simp add: valid_attempt_def)
  have act: "active a" "at_status a \<noteq> Suspended" using a(2) by (simp_all add: active_def)
  have "claim sha ni (at_memorial a) (dp_owner dp) now (dp_lease_seconds dp) d =
    (Inr (Some (claimed_row (dp_owner dp) now (dp_lease_seconds dp) a)),
     d\<lparr>db_attempts := update_rows (\<lambda>b. b = a) (claimed_row (dp_owner dp) now (dp_lease_seconds dp)) (db_attempts d)\<rparr>)"
    unfolding claim_unfold [OF ok a(1) refl act m dp(4,5) root]
    using claim_row_succeeds [OF ok a dp(5,4)] a(2) by (simp add: atomically_def)
  then show ?thesis using dp by (simp add: dispatch_run_def Let_def claimed_row_def)
qed

section \<open>Ending\<close>

text \<open>The statuses an acknowledged outcome leaves its attempt in.\<close>

fun settled_status :: "attempt_disposition \<Rightarrow> attempt_status set" where
  "settled_status DSucceeded = {Succeeded}"
| "settled_status DFailed = {Failed}"
| "settled_status DRetry = {Failed, DeadLetter}"
| "settled_status DSuspended = {Suspended}"

lemma completion_settles:
  assumes ok: "ledger_ok d" and o': "valid_outcome o'" and ni: "\<not> blank ni"
    and r: "complete_current sha ni i ow f o' d = Inr (True, d')"
  shows "ledger_ok d' \<and> (\<exists>a \<in> set (db_attempts d'). at_id a = i \<and> at_status a \<in> settled_status (out_disposition o'))"
proof -
  from complete_current_cases [OF ok o' ni r] obtain a where ok': "ledger_ok d'" and a: "a \<in> set (db_attempts d)" "at_id a = i"
    and res: "let rows = update_rows (\<lambda>b. b = a) (completed_row (completion_status a o') o') (db_attempts d)
              in if out_disposition o' = DRetry \<and> at_no a < at_max a
                 then \<exists>c. db_attempts d' = rows @ [new_attempt ni (at_memorial a) (at_no a + 1) (at_fence a)
                              (the (out_retry_at o')) (at_max a) (out_completed_at o') c]
                 else d' = d\<lparr>db_attempts := rows\<rparr>" by blast
  let ?c = "completed_row (completion_status a o') o' a"
  have "?c \<in> set (update_rows (\<lambda>b. b = a) (completed_row (completion_status a o') o') (db_attempts d))"
    using a(1) by (auto simp: set_update_rows image_iff)
  then have "?c \<in> set (db_attempts d')" using res by (auto simp: Let_def split: if_split_asm)
  moreover have "at_id ?c = i" "at_status ?c \<in> settled_status (out_disposition o')"
    using a(2) by (auto simp: completed_row_def completion_status_def split: attempt_disposition.split)
  ultimately show ?thesis using ok' by blast
qed

lemma settled_not_current:
  assumes "ledger_ok d" "a \<in> set (db_attempts d)" "at_id a = i" "at_status a \<noteq> Claimed"
  shows "require_current i ow f t d \<noteq> Inr ()"
proof
  assume "require_current i ow f t d = Inr ()"
  then obtain b where "b \<in> set (db_attempts d)" "at_id b = i" "authority_at b ow f t"
    using require_current_iff [OF assms(1)] by blast
  then show False using same_id_eq [OF assms(1,2)] assms(3,4) by (auto simp: authority_at_def)
qed

lemma suspended_settles:
  assumes "is_suspended i m f d = (Inr True, d')"
  shows "d' = d \<and> (\<exists>a \<in> set (db_attempts d). at_id a = i \<and> at_status a = Suspended)"
  using assms by (auto simp: is_suspended_def split: option.split_asm dest!: select_attemptD)

lemma complete_run_settles:
  assumes inv: "runs_ok sha redact d" and o': "valid_outcome (cc_outcome c)" and ni: "\<not> blank ni"
    and run: "complete_run sha redact secret repr hook ni c d = (Inr i, d')"
  shows "ledger_ok d' \<and> (\<exists>a \<in> set (db_attempts d'). at_id a = aa_attempt (cc_authority c) \<and>
     at_status a \<in> settled_status (out_disposition (cc_outcome c)))"
proof -
  obtain e d1 where val: "validate_command c = Inr ()"
    and rc: "root_closed sha redact (aa_memorial (cc_authority c)) (projected_memorial c)
        (outcome_phase (out_disposition (cc_outcome c))) (completion_event sha repr c e) d d1"
    and co: "complete_current sha ni (aa_attempt (cc_authority c)) (aa_owner (cc_authority c)) (aa_fence (cc_authority c)) (cc_outcome c) d1 = Inr (True, d')"
    using complete_run_Inr [OF inv run] by blast
  have inv0: "runs_inv sha redact {} d" using inv by (simp add: runs_ok_def)
  have "ledger_ok d1"
    using runs_invD(1) [OF root_closed_inv(1) [OF inv0 rc closes_projected [OF validate_command_Inr(2) [OF val]] event_sel(1,2)]] .
  from completion_settles [OF this o' ni co] show ?thesis .
qed

lemma retry_settles:
  assumes inv: "runs_ok sha redact d" and o': "valid_outcome o'" and ni: "\<not> blank ni"
    and ret: "retry_or_dead_letter sha redact secret hook ni au o' d = (Inr b, d')"
  shows "ledger_ok d' \<and> (\<exists>a \<in> set (db_attempts d'). at_id a = aa_attempt au \<and> at_status a \<in> settled_status (out_disposition o'))"
proof -
  have ok: "ledger_ok d" "ledger_ok d'" using inv retry_keeps [OF inv o' ni ret] by (auto simp: runs_ok_def runs_inv_def)
  obtain d1 where co: "complete_current sha ni (aa_attempt au) (aa_owner au) (aa_fence au) o' d = Inr (True, d1)"
    and same: "db_attempts d' = db_attempts d1"
    using retry_body_Inr [OF inv o' ni ret] by (auto simp: root_closed_def split: if_split_asm)
  from completion_settles [OF ok(1) o' ni co] ok(2) same show ?thesis by simp
qed

lemma complete_attempt_settles:
  assumes inv: "runs_ok sha redact d" and o': "valid_outcome o'" and ni: "\<not> blank ni"
    and ca: "complete_attempt sha redact secret repr hook ni au o' (ps, d) = (Inr True, ps', d')"
  shows "ledger_ok d' \<and> (\<exists>a \<in> set (db_attempts d'). at_id a = aa_attempt au \<and> at_status a \<in> settled_status (out_disposition o'))"
proof -
  have ok: "ledger_ok d" using inv by (simp add: runs_ok_def runs_inv_def)
  consider (suspended) "out_disposition o' = DSuspended" | (retry) "out_disposition o' = DRetry"
    | (final) "out_disposition o' \<in> {DSucceeded, DFailed}" by (cases "out_disposition o'") auto
  then show ?thesis
  proof cases
    case suspended
    obtain r d1 where s: "is_suspended (aa_attempt au) (aa_memorial au) (aa_fence au) d = (r, d1)"
      using prod.exhaust by blast
    obtain b where r: "r = Inr b" using ca suspended s by (cases r) (auto simp: complete_attempt_def)
    have d1: "d1 = d" using s r by (auto simp: is_suspended_def)
    show ?thesis
    proof (cases b)
      case True
      then show ?thesis using suspended_settles [of _ _ _ d d1] s r ca suspended ok by (auto simp: complete_attempt_def)
    next
      case False
      then have "complete sha ni (aa_attempt au) (aa_owner au) (aa_fence au) o' d = (Inr True, d')"
        using ca suspended s r d1 by (auto simp: complete_attempt_def split: prod.split_asm)
      then have "complete_current sha ni (aa_attempt au) (aa_owner au) (aa_fence au) o' d = Inr (True, d')"
        by (simp add: complete_def)
      from completion_settles [OF ok o' ni this] show ?thesis .
    qed
  next
    case retry
    then have "retry_or_dead_letter sha redact secret hook ni au o' d = (Inr True, d')"
      using ca by (auto simp: complete_attempt_def split: prod.split_asm)
    from retry_settles [OF inv o' ni this] show ?thesis .
  next
    case final
    then obtain p i where "complete_run sha redact secret repr hook ni (completion_of au o' p) d = (Inr i, d')"
      using ca by (auto simp: complete_attempt_def take_projection_def Let_def split: if_split_asm prod.split_asm sum.split_asm option.split_asm)
    from complete_run_settles [OF inv _ ni this] o' show ?thesis by (simp add: completion_of_def Let_def)
  qed
qed

section \<open>A dispatcher\<close>

definition demo_run_dispatcher :: run_dispatcher where
  "demo_run_dispatcher = \<lparr>dp_owner = ''w1'', dp_lease_seconds = 30, dp_router = True, dp_tasks = [], dp_memorial_tasks = [],
     dp_next = 0, dp_stop = False\<rparr>"

definition demo_projection :: projection where
  "demo_projection = (error_projection None None)\<lparr>pj_status := TCompleted\<rparr>"

definition demo_acknowledged :: "bool result \<times> projections \<times> db" where
  "demo_acknowledged = complete_attempt id id (\<lambda>_. False) (\<lambda>_. ''0.0'') no_hook ''a2'' demo_worker (cc_outcome demo_completion)
     (store_projection demo_worker demo_projection [], demo_running)"

section \<open>Properties\<close>

text \<open>
  C17: the dispatcher starts a due run. When a root has an attempt that is claimable and due, the dispatcher is not stopping
  and runs no task for that root, \<open>dispatch\<close> claims the attempt and registers one task for it, under an authority that is
  current in the ledger.
\<close>

theorem due_run_is_started:
  assumes "ledger_ok d" and "a \<in> set (db_attempts d)" and "at_status a = Claimable" and "at_available a \<le> now"
    and "is_root d (at_memorial a)" and "dp_router dp" and "\<not> dp_stop dp"
    and "map_of (dp_memorial_tasks dp) (at_memorial a) = None" and "\<not> blank (dp_owner dp)" and "0 < dp_lease_seconds dp"
    and "\<not> blank ni"
  shows "\<exists>au dp' d'. dispatch_run sha ni now (at_memorial a) (dp, d) = (Inr (Some au), dp', d') \<and>
      aa_attempt au = at_id a \<and> aa_memorial au = at_memorial a \<and> aa_fence au = at_fence a + 1 \<and>
      authority_current au now d' = Inr () \<and> map_of (dp_memorial_tasks dp') (at_memorial a) = Some (dp_next dp) \<and>
      (\<forall>now' ni'. dispatch_run sha ni' now' (at_memorial a) (dp', d') = (Inr None, dp', d'))"
proof -
  let ?au = "lease_authority (claimed_row (dp_owner dp) now (dp_lease_seconds dp) a) (dp_owner dp)"
  obtain d' where run: "dispatch_run sha ni now (at_memorial a) (dp, d) = (Inr (Some ?au), add_task ?au dp, d')"
    using dispatch_run_succeeds [OF assms(1-5) assms(6-10)] by blast
  note st = dispatch_run_started [OF assms(1,11) run]
  have "dispatch_run sha ni' now' (at_memorial a) (add_task ?au dp, d') = (Inr None, add_task ?au dp, d')" for now' ni'
    using st assms(6) by (simp add: dispatch_run_def add_task_def update_conv')
  with run st show ?thesis
    by (intro exI [of _ ?au] exI [of _ "add_task ?au dp"] exI [of _ d']) (simp add: lease_authority_def claimed_row_def)
qed

theorem due_run_is_started_witness:
  "\<exists>au dp' d'. dispatch_run zero_hash ''a2'' 6 ''m1'' (demo_run_dispatcher, demo_ledger) = (Inr (Some au), dp', d') \<and>
     authority_current au 6 d' = Inr ()"
proof -
  have pre: "demo_attempt \<in> set (db_attempts demo_ledger)" "at_status demo_attempt = Claimable" "at_available demo_attempt \<le> 6"
    "is_root demo_ledger (at_memorial demo_attempt)" "dp_router demo_run_dispatcher" "\<not> dp_stop demo_run_dispatcher"
    "map_of (dp_memorial_tasks demo_run_dispatcher) (at_memorial demo_attempt) = None" "\<not> blank (dp_owner demo_run_dispatcher)"
    "0 < dp_lease_seconds demo_run_dispatcher"
    by code_simp+
  have "at_memorial demo_attempt = ''m1''" by (simp add: demo_defs)
  with due_run_is_started [OF demo_ok(1) pre demo_valid(2), of zero_hash] show ?thesis by auto
qed

text \<open>
  C16: an acknowledged completion is durable. When the completer of the production wiring answers \<open>True\<close>, the attempt is
  stored in the status the outcome stands for, and the authority it was reported under is not current any more, at any
  time.
\<close>

theorem acknowledged_completion_is_durable:
  assumes "runs_ok sha redact d" and "valid_outcome o'" and "\<not> blank ni"
    and "complete_attempt sha redact secret repr hook ni au o' (ps, d) = (Inr True, ps', d')"
  shows "(\<exists>a \<in> set (db_attempts d'). at_id a = aa_attempt au \<and> at_status a \<in> settled_status (out_disposition o')) \<and>
    authority_current au t d' \<noteq> Inr ()"
proof -
  obtain a where ok: "ledger_ok d'" and a: "a \<in> set (db_attempts d')" "at_id a = aa_attempt au"
    "at_status a \<in> settled_status (out_disposition o')"
    using complete_attempt_settles [OF assms] by blast
  have "at_status a \<noteq> Claimed" using a(3) by (cases "out_disposition o'") auto
  with settled_not_current [OF ok a(1,2)] a show ?thesis by (auto simp: authority_current_def)
qed

theorem acknowledged_completion_is_durable_witness:
  "fst demo_acknowledged = Inr True \<and> authority_current demo_worker 30 (snd (snd demo_acknowledged)) \<noteq> Inr ()"
proof -
  have t: "fst demo_acknowledged = Inr True" by code_simp
  then have "complete_attempt id id (\<lambda>_. False) (\<lambda>_. ''0.0'') no_hook ''a2'' demo_worker (cc_outcome demo_completion)
     (store_projection demo_worker demo_projection [], demo_running) = (Inr True, fst (snd demo_acknowledged), snd (snd demo_acknowledged))"
    unfolding demo_acknowledged_def by (metis prod.collapse)
  from acknowledged_completion_is_durable [OF demo_running_ok demo_valid this, of 30] t show ?thesis by simp
qed

text \<open>
  A retry can get lost. The runner dates the retry one second after it failed; when the dispatcher reads its own clock
  later than that, the outcome violates its model, the task ends with the exception, and the ledger is as it was: the
  attempt stays claimed until its lease expires and the failure is not recorded.
\<close>

theorem late_retry_is_lost:
  assumes "now + seconds 1 < now1"
    and "run_attempt sha now au (StageRaised cls True) ps = (r, ps1)"
  shows "conclude_attempt sha redact secret repr hook ni now1 now2 au (RunnerReturned r) (ps1, d) =
    (Inl (ValueError ''AttemptOutcomeV1''), discard_projection au ps1, d)"
proof -
  have "r = failure_result now (redacted_failure sha cls True)" using assms(2) by (simp add: run_attempt_def Let_def)
  then have "to_outcome now1 r = Inl (ValueError ''AttemptOutcomeV1'')"
    using assms(1) by (simp add: to_outcome_def failure_result_def redacted_failure_def valid_outcome_def Let_def)
  then show ?thesis by (simp add: conclude_attempt_def conclude_task_def)
qed

theorem late_retry_is_lost_witness:
  "conclude_attempt id id (\<lambda>_. False) (\<lambda>_. ''0.0'') no_hook ''a2'' 2000000 2000000 demo_worker
     (RunnerReturned (fst (run_attempt id 20 demo_worker (StageRaised ''TimeoutError'' True) []))) (snd (run_attempt id 20 demo_worker (StageRaised ''TimeoutError'' True) []), demo_running) =
   (Inl (ValueError ''AttemptOutcomeV1''),
    discard_projection demo_worker (snd (run_attempt id 20 demo_worker (StageRaised ''TimeoutError'' True) [])), demo_running)"
  by (rule late_retry_is_lost [where now = 20 and sha = id]) (simp_all add: seconds_def)

end
