(* ===== verification/Run_Recovery_Safety.thy ===== *)
theory Run_Recovery_Safety
  imports Run_Safety
begin

text \<open>
  What the recovery services promise: a resolved decision is carried out once and as a whole, and a scan of plan
  reviews settles every suspended attempt it selects. The second is also where they collide: the scan treats every
  suspension as a plan review.
\<close>

section \<open>Rows of other memorials\<close>

text \<open>What a row of the scan reads and writes for one memorial is as it was.\<close>

definition apart :: "string \<Rightarrow> db \<Rightarrow> db \<Rightarrow> bool" where
  "apart m d d' =
     (filter (\<lambda>a. at_memorial a = m) (db_attempts d') = filter (\<lambda>a. at_memorial a = m) (db_attempts d) \<and>
      row_by row_memorial m (db_run_states d') = row_by row_memorial m (db_run_states d) \<and>
      row_by mem_id m (db_memorials d') = row_by mem_id m (db_memorials d) \<and>
      db_decisions d' = db_decisions d \<and> db_resolutions d' = db_resolutions d \<and> db_edicts d' = db_edicts d)"

lemma apart_refl [simp]: "apart m d d"
  by (simp add: apart_def)

lemma apart_trans: "apart m d d' \<Longrightarrow> apart m d' d'' \<Longrightarrow> apart m d d''"
  by (simp add: apart_def)

lemma apart_reads:
  assumes "apart m d d'"
  shows "load sha redact m d' = load sha redact m d" "decision_get sha i d' = decision_get sha i d" "root_edict m d' = root_edict m d"
  using assms
  by (simp_all add: apart_def load_def decision_get_def decode_first_def decode_record_def joined_def edict_of_def root_edict_def Let_def
      cong: option.case_cong)

lemma apart_attempt:
  assumes "apart m d d'" "at_memorial a = m"
  shows "a \<in> set (db_attempts d') \<longleftrightarrow> a \<in> set (db_attempts d)"
proof -
  have "a \<in> set (filter (\<lambda>a. at_memorial a = m) (db_attempts d')) \<longleftrightarrow> a \<in> set (filter (\<lambda>a. at_memorial a = m) (db_attempts d))"
    using assms(1) by (simp only: apart_def)
  then show ?thesis using assms(2) by simp
qed

lemma row_by_update_apart:
  assumes "\<And>x. p x \<Longrightarrow> key x \<noteq> k \<and> key (f x) \<noteq> k"
  shows "row_by key k (update_rows p f xs) = row_by key k xs"
  using assms by (induction xs) (auto simp: row_by_def update_rows_def)

lemma filter_update_apart:
  assumes "\<And>a. p a \<Longrightarrow> at_memorial a \<noteq> m \<and> at_memorial (f a) = at_memorial a"
  shows "filter (\<lambda>a. at_memorial a = m) (update_rows p f xs) = filter (\<lambda>a. at_memorial a = m) xs"
  using assms by (induction xs) (auto simp: update_rows_def)

lemma update_attempts_apart:
  assumes "update_attempts p f d = Inr (n, d')" "\<And>a. p a \<Longrightarrow> at_memorial a \<noteq> m \<and> at_memorial (f a) = at_memorial a"
  shows "apart m d d'"
  using update_attempts_Inr [OF assms(1)] filter_update_apart [of p m f] assms(2) by (simp add: apart_def)

lemma swapped_apart:
  assumes "swapped r t d d'" "row_memorial r \<noteq> m"
  shows "apart m d d'"
proof -
  have d': "d' = d\<lparr>db_run_states := update_rows (\<lambda>x. x = r) (\<lambda>x. x\<lparr>rr_state := t\<rparr>) (db_run_states d)\<rparr>"
    and ev: "state_evolves (rr_state r) t" using assms(1) by (auto simp: swapped_def)
  have "row_by row_memorial m (db_run_states d') = row_by row_memorial m (db_run_states d)"
    unfolding d' using ev assms(2) by (simp, intro row_by_update_apart) (auto simp: row_memorial_def state_evolves_def)
  then show ?thesis by (simp add: apart_def d')
qed

lemma update_memorials_apart:
  assumes "\<And>r. q r \<Longrightarrow> mem_id r \<noteq> m \<and> mem_id (g r) = mem_id r"
  shows "apart m d (snd (update_memorials q g d))"
  using row_by_update_apart [of q mem_id m g] assms by (simp add: apart_def update_memorials_def)

lemma fail_run_state_apart:
  assumes ok: "states_ok sha redact d" and f: "fail_run_state sha redact secret now state e d = Inr d'"
    and s: "\<And>s. state = Some s \<Longrightarrow> rs_memorial s \<noteq> m"
  shows "apart m d d'"
proof (cases state)
  case None
  then show ?thesis using f by (simp add: fail_run_state_def)
next
  case (Some s)
  let ?t = "(terminal_state PFailed now s)\<lparr>rs_edict := e\<rparr>"
  have mt: "rs_memorial ?t \<noteq> m" using s [OF Some] by simp
  consider t where "compare_and_swap sha redact secret ?t (rs_version s) d = Inr (t, d')"
    | t where "recover_terminal_identity sha redact secret ?t (rs_version s) d = Inr (t, d')"
    using f Some by (auto simp: fail_run_state_def Let_def split: if_split_asm)
  then show ?thesis
  proof cases
    case 1
    from compare_and_swap_Inr [OF ok 1] mt show ?thesis using swapped_apart by metis
  next
    case 2
    from recover_Inr [OF ok 2] mt show ?thesis using swapped_apart by metis
  qed
qed

lemma review_terminalize_apart:
  assumes ok: "states_ok sha redact d" and r: "review_terminalize sha redact secret now row state did code msg d = Inr d'"
    and m: "at_memorial row \<noteq> m" and s: "\<And>s. state = Some s \<Longrightarrow> rs_memorial s = at_memorial row"
  shows "apart m d d'"
proof -
  let ?e = "case root_edict (at_memorial row) d of None \<Rightarrow> ''unknown'' | Some e \<Rightarrow> e"
  let ?q = "\<lambda>r. mem_id r = at_memorial row \<and> mem_dag_node r = None \<and> mem_status r \<notin> {TCompleted, TCancelled}"
  obtain err n d1 d2 where u: "update_attempts (suspended_at row) (review_failed_row err now) d = Inr (n, d1)"
    and fs: "fail_run_state sha redact secret now state ?e d1 = Inr d2"
    and add: "outbox_add sha (review_failed_event row ?e did now code msg)
        (snd (update_memorials ?q (closed_memorial TFailed msg code now) d2)) = Inr d'"
    using r unfolding review_terminalize_def Let_def by (auto split: if_split_asm)
  have "db_run_states d1 = db_run_states d" using update_attempts_Inr [OF u] by simp
  then have ok1: "states_ok sha redact d1" using ok by (simp add: states_ok_def)
  have 1: "apart m d d1" using m by (intro update_attempts_apart [OF u]) (auto simp: suspended_at_def review_failed_row_def)
  have 2: "apart m d1 d2" using s m by (intro fail_run_state_apart [OF ok1 fs]) auto
  have 3: "apart m d2 (snd (update_memorials ?q (closed_memorial TFailed msg code now) d2))"
    using m by (intro update_memorials_apart) (auto simp: closed_memorial_def)
  have 4: "apart m (snd (update_memorials ?q (closed_memorial TFailed msg code now) d2)) d'"
    using outbox_add_Inr [OF add] by (auto simp: apart_def)
  show ?thesis using 1 2 3 4 apart_trans by blast
qed

lemma review_row_apart:
  assumes inv: "runs_ok sha redact d" and r: "review_row sha redact secret now row d = Inr (b, d')" and m: "at_memorial row \<noteq> m"
  shows "apart m d d'"
proof -
  have ok: "states_ok sha redact d" using inv by (simp add: runs_ok_def runs_inv_def)
  have mem: "rs_memorial s = at_memorial row" if "load sha redact (at_memorial row) d = Inr (Some s)" for s
    using load_SomeD(1) [OF that] by (auto simp: row_memorial_def)
  from review_row_cases [OF r] consider
    state did where "fail_unbound sha redact secret now row state did d = Inr (b, d')" "state = None \<or> load sha redact (at_memorial row) d = Inr state"
  | s rec i where "load sha redact (at_memorial row) d = Inr (Some s)" "settle_review sha redact secret now row s rec i d = Inr (b, d')"
    by blast
  then show ?thesis
  proof cases
    case 1
    then obtain d'' where "review_terminalize sha redact secret now row state did ''plan_review_binding_invalid''
        ''Plan review binding is invalid'' d = Inr d''" "d' = d''" by (auto simp: fail_unbound_def)
    then show ?thesis using review_terminalize_apart [OF ok _ m] 1(2) mem by blast
  next
    case 2
    note ms = mem [OF 2(1)]
    show ?thesis
    proof (cases "dq_status (rec_request rec) = Pending")
      case True
      then show ?thesis using 2(2) by (simp add: settle_review_def)
    next
      case False
      let ?at = "case rec_resolution rec of None \<Rightarrow> dq_updated (rec_request rec) | Some v \<Rightarrow> dr_at v"
      obtain s' d1 where s': "(if rs_phase s = PWaitingDecision then compare_and_swap sha redact secret (reviewed_state rec i s) (rs_version s) d
            else Inr (s, d)) = Inr (s', d1)"
        and rest: "(if approved rec then and_then (review_resume now (max now ?at) row d1) (\<lambda>d2.
              Inr (True, planning_memorial (at_memorial row) (rs_edict s') d2))
           else and_then (review_terminalize sha redact secret now row (Some s') (Some i) ''plan_review_rejected''
                      ''Plan review did not approve execution'' d1) (\<lambda>d2. Inr (True, d2))) = Inr (b, d')"
        using 2(2) False by (auto simp: settle_review_def Let_def)
      have 1: "apart m d d1 \<and> states_ok sha redact d1 \<and> rs_memorial s' = at_memorial row"
      proof (cases "rs_phase s = PWaitingDecision")
        case True
        then have cas: "compare_and_swap sha redact secret (reviewed_state rec i s) (rs_version s) d = Inr (s', d1)" using s' by simp
        have rm: "rs_memorial (reviewed_state rec i s) = at_memorial row" using ms by (simp add: reviewed_state_def)
        from compare_and_swap_Inr [OF ok cas] obtain r where "swapped r s' d d1" "row_memorial r = at_memorial row"
          "s' = (reviewed_state rec i s)\<lparr>rs_version := rs_version s + 1\<rparr>" by (auto simp: rm)
        then show ?thesis using swapped_apart m swap_frame [OF ok cas] rm by auto
      qed (use s' ok ms in simp)
      have "apart m d1 d'"
      proof (cases "approved rec")
        case True
        then obtain d2 where d2: "review_resume now (max now ?at) row d1 = Inr d2" "d' = planning_memorial (at_memorial row) (rs_edict s') d2"
          using rest by auto
        obtain n where u: "update_attempts (suspended_at row) (reviewed_row now (max now ?at)) d1 = Inr (n, d2)"
          using d2(1) by (auto simp: review_resume_def split: if_split_asm)
        have "apart m d1 d2" using m by (intro update_attempts_apart [OF u]) (auto simp: suspended_at_def reviewed_row_def)
        moreover have "apart m d2 d'" unfolding d2(2) planning_memorial_def using m by (intro update_memorials_apart) auto
        ultimately show ?thesis using apart_trans by blast
      next
        case False
        then have "review_terminalize sha redact secret now row (Some s') (Some i) ''plan_review_rejected''
            ''Plan review did not approve execution'' d1 = Inr d'" using rest by auto
        from review_terminalize_apart [OF _ this m] 1 show ?thesis by blast
      qed
      then show ?thesis using 1 apart_trans by blast
    qed
  qed
qed

lemma review_rows_apart:
  assumes "runs_ok sha redact d" "\<And>a. a \<in> set (db_attempts d) \<Longrightarrow> at_created a \<le> now"
    and "review_rows sha redact secret now rows k d = Inr (n, d')" "\<And>row. row \<in> set rows \<Longrightarrow> at_memorial row \<noteq> m"
  shows "apart m d d'"
  using assms
proof (induction rows arbitrary: k d)
  case (Cons row rows)
  obtain b d1 where rr: "review_row sha redact secret now row d = Inr (b, d1)"
    and rest: "review_rows sha redact secret now rows (if b then k + 1 else k) d1 = Inr (n, d')"
    using Cons.prems(3) by auto
  have k1: "runs_ok sha redact d1 \<and> run_evolves d d1 \<and> created_kept d d1" using review_row_keeps [OF Cons.prems(1,2) rr] by blast
  have t1: "at_created a \<le> now" if "a \<in> set (db_attempts d1)" for a using created_keptD [OF _ Cons.prems(2) that] k1 by blast
  have "apart m d d1" using review_row_apart [OF Cons.prems(1) rr] Cons.prems(4) by simp
  then show ?case using Cons.IH [OF conjunct1 [OF k1] t1 rest] Cons.prems(4) apart_trans by simp
qed simp

lemma review_rows_append:
  "review_rows sha redact secret now (xs @ ys) k d =
     and_then (review_rows sha redact secret now xs k d) (\<lambda>(n, d1). review_rows sha redact secret now ys n d1)"
  by (induction xs arbitrary: k d) (auto simp: and_then_assoc split_def)

section \<open>A row of the scan\<close>

lemma review_candidatesD:
  assumes "a \<in> set (review_candidates limit d)"
  shows "a \<in> set (db_attempts d)" "at_status a = Suspended" "active a"
  using assms by (auto simp: review_candidates_def sql_limit_def select_ordered_def active_def split: if_split_asm dest!: in_set_takeD)

text \<open>A selected row splits the list into rows of other memorials.\<close>

lemma review_candidates_split:
  assumes ok: "ledger_ok d" and a: "a \<in> set (review_candidates limit d)"
  obtains xs ys where "review_candidates limit d = xs @ a # ys"
    "\<And>b. b \<in> set xs \<union> set ys \<Longrightarrow> at_memorial b \<noteq> at_memorial a"
proof -
  obtain xs ys where eq: "review_candidates limit d = xs @ a # ys" using a by (meson split_list)
  have "distinct (db_attempts d)" using ledger_okD(1) [OF ok] by (simp add: distinct_map)
  then have "distinct (review_candidates limit d)" by (simp add: review_candidates_def sql_limit_def select_ordered_def)
  then have "b \<noteq> a" if "b \<in> set xs \<union> set ys" for b using that unfolding eq by auto
  moreover have "b \<in> set (review_candidates limit d)" if "b \<in> set xs \<union> set ys" for b using that unfolding eq by auto
  ultimately have "at_memorial b \<noteq> at_memorial a" if "b \<in> set xs \<union> set ys" for b
    using one_active [OF ok review_candidatesD(1,3) [OF a], of b] review_candidatesD(1,3) [of b limit d] that by metis
  then show ?thesis using that eq by blast
qed

text \<open>A suspension that is no plan review fails the test of its binding.\<close>

lemma other_decision_unbound:
  assumes "dq_kind (rec_request rec) \<noteq> KPlanReview"
  shows "binding_error sha (Some s) (Some rec) m (Some i) e = Inr (Some ''identity'')"
  using assms by (simp add: binding_error_def Let_def)

lemma review_fails_row:
  assumes inv: "runs_ok sha redact d" and r: "review_row sha redact secret now a d = Inr (b, d')"
    and ld: "load sha redact (at_memorial a) d = Inr (Some s)" and i: "review_decision_id (Some s) = Some i"
    and q: "decision_get sha i d = Inr (Some rec)" "dq_kind (rec_request rec) \<noteq> KPlanReview"
    and a: "a \<in> set (db_attempts d)"
  shows "(\<exists>err. err_code err = ''plan_review_binding_invalid'' \<and> review_failed_row err now a \<in> set (db_attempts d'))"
    "mr \<in> set (db_memorials d) \<Longrightarrow> mem_id mr = at_memorial a \<Longrightarrow> mem_dag_node mr = None \<Longrightarrow>
       row_by mem_id (at_memorial a) (db_memorials d') =
         Some (closed_memorial TFailed ''Plan review binding is invalid'' ''plan_review_binding_invalid'' now mr)"
proof -
  let ?msg = "''Plan review binding is invalid''" and ?code = "''plan_review_binding_invalid''" and ?m = "at_memorial a"
  have inv0: "runs_inv sha redact {} d" using inv by (simp add: runs_ok_def)
  note ok = runs_invD(1) [OF inv0]
  have "fail_unbound sha redact secret now a (Some s) (Some i) d = Inr (b, d')"
    using r by (simp add: review_row_def ld i q(1) other_decision_unbound [OF q(2)])
  then have "review_terminalize sha redact secret now a (Some s) (Some i) ?code ?msg d = Inr d'" by (auto simp: fail_unbound_def)
  from review_terminalize_Inr [OF runs_invD(2) [OF inv0] this] obtain err d1 where
    u: "update_attempts (suspended_at a) (review_failed_row err now) d = Inr (1, d1)" and c: "err_code err = ?code"
    and att: "db_attempts d' = db_attempts d1"
    and mems: "db_memorials d' = update_rows (\<lambda>r. mem_id r = ?m \<and> mem_dag_node r = None \<and> mem_status r \<notin> {TCompleted, TCancelled})
         (closed_memorial TFailed ?msg ?code now) (db_memorials d)"
    by auto
  obtain x where x: "x \<in> set (db_attempts d)" "suspended_at a x" "review_failed_row err now x \<in> set (db_attempts d')"
    using update_retires(2) [OF ok u refl suspended_atD] unfolding att by (auto simp: review_failed_row_def active_def)
  then have "x = a" using same_id_eq [OF ok a x(1)] by (simp add: suspended_at_def)
  then show "\<exists>err. err_code err = ?code \<and> review_failed_row err now a \<in> set (db_attempts d')" using x c by blast
  assume mr: "mr \<in> set (db_memorials d)" "mem_id mr = ?m" "mem_dag_node mr = None"
  have act: "?m \<in> active_memorials d" using active_memorialsI [OF x(1)] suspended_atD [OF x(2)] by simp
  have rb: "row_by mem_id ?m (db_memorials d) = Some mr" using row_by_unique [OF runs_invD(3) [OF inv0] mr(1,2)] by simp
  have "mem_status mr \<notin> {TCompleted, TCancelled}" using root_row(3) [OF inv act rb mr(3)] by (auto simp: open_status_def)
  then show "row_by mem_id ?m (db_memorials d') = Some (closed_memorial TFailed ?msg ?code now mr)"
    unfolding mems using mr rb by (subst row_by_update_rows) (auto simp: closed_memorial_def)
qed

section \<open>What a recovery leaves behind\<close>

text \<open>An event just added is found by its id.\<close>

lemma outbox_add_found:
  assumes "outbox_add sha e d = Inr d'"
  shows "\<exists>r. select_outbox_record sha d' (ee_id e) = Inr (Some r) \<and> r \<in> set (db_outbox d') \<and> ob_id r = ee_id e \<and>
    ob_type r = ee_type e \<and> ob_memorial r = ee_memorial e \<and> ob_status r = OPending"
proof -
  obtain c where d': "d' = d\<lparr>db_outbox := db_outbox d @ [new_outbox_row e c]\<rparr>" and new: "ee_id e \<notin> ob_id ` set (db_outbox d)"
    using outbox_add_Inr [OF assms] by blast
  have "row_by ob_id (ee_id e) (db_outbox d) = None" using new by (simp add: row_by_None_iff)
  then have "row_by ob_id (ee_id e) (db_outbox d') = Some (new_outbox_row e c)"
    by (simp add: d' row_by_append new_outbox_row_def)
  then have "select_outbox_record sha d' (ee_id e) = Inr (Some (new_outbox_row e c))"
    by (simp add: select_outbox_record_def new_outbox_row_def)
  then show ?thesis by (auto simp: d' new_outbox_row_def)
qed

lemma swap_loaded:
  assumes ok: "states_ok sha redact d" and cas: "compare_and_swap sha redact secret s v d = Inr (t, d')"
  shows "load sha redact (rs_memorial s) d' = Inr (Some t)"
proof -
  obtain r where sw: "swapped r t d d'" and r: "row_memorial r = rs_memorial s" and t: "t = s\<lparr>rs_version := v + 1\<rparr>"
    using compare_and_swap_Inr [OF ok cas] by blast
  have dist: "distinct (map row_memorial (db_run_states d'))" using swap_frame [OF ok cas] by (simp add: states_ok_def)
  have "r\<lparr>rr_state := t\<rparr> \<in> set (db_run_states d')" using sw by (auto simp: swapped_def set_update_rows image_iff)
  moreover have "row_memorial (r\<lparr>rr_state := t\<rparr>) = rs_memorial s" by (simp add: row_memorial_def t)
  ultimately have "row_by row_memorial (rs_memorial s) (db_run_states d') = Some (r\<lparr>rr_state := t\<rparr>)" using row_by_unique [OF dist] by blast
  then show ?thesis using load_eq swap_frame [OF ok cas] by auto
qed

lemma live_attemptD:
  assumes "live_attempt m d = Some a"
  shows "a \<in> set (db_attempts d)" "at_memorial a = m" "active a"
proof -
  have "a \<in> set (select_ordered (\<lambda>a. at_memorial a = m \<and> active a) (\<lambda>a. (- at_no a, - at_created a)) (db_attempts d))"
    using assms unfolding live_attempt_def by (auto simp: first_of_def split: list.split_asm)
  then show "a \<in> set (db_attempts d)" "at_memorial a = m" "active a" by (auto simp: select_ordered_def)
qed

lemma dec_set_decisions [simp]:
  "cont_pending (set_decisions p q c) = p" "cont_resolved (set_decisions p q c) = q"
  "cont_pending (drop_tool c) = cont_pending c" "cont_resolved (drop_tool c) = cont_resolved c"
  "cont_pending (set_cursor n c) = cont_pending c" "cont_resolved (set_cursor n c) = cont_resolved c"
  by (cases c; simp)+

text \<open>The run carries the decision, in a phase, and waits for none.\<close>

definition carries :: "(string \<Rightarrow> string) \<Rightarrow> (string \<Rightarrow> string) \<Rightarrow> db \<Rightarrow> string \<Rightarrow> string \<Rightarrow> run_phase \<Rightarrow> bool" where
  "carries sha redact d m i phase =
     (\<exists>t. load sha redact m d = Inr (Some t) \<and> rs_phase t = phase \<and> cont_pending (rs_continuation t) = None \<and>
          cont_resolved (rs_continuation t) = Some i)"

definition announced :: "db \<Rightarrow> string \<Rightarrow> string \<Rightarrow> string \<Rightarrow> bool" where
  "announced d m i ty = (\<exists>e \<in> set (db_outbox d). ob_id e = i @ '':'' @ ty \<and> ob_type e = ty \<and> ob_memorial e = Some m \<and> ob_status e = OPending)"

lemma recovery_cancel_effect:
  assumes inv: "runs_ok sha redact d" and sb: "state_binding s rec" and la: "live_attempt (dq_memorial (rec_request rec)) d = Some a"
    and r: "recovery_cancel sha redact secret hook rec s a now d = Inr d'"
  shows "decision_cancelled_row now a \<in> set (db_attempts d')"
    "\<exists>r \<in> set (db_memorials d). mem_id r = dq_memorial (rec_request rec) \<and> mem_dag_node r = None \<and>
       db_memorials d' = update_rows (\<lambda>x. x = r) (closed_memorial TCancelled ''Execution was cancelled'' ''decision_cancelled'' now) (db_memorials d)"
    "carries sha redact d' (dq_memorial (rec_request rec)) (dq_id (rec_request rec)) PFailed"
    "announced d' (dq_memorial (rec_request rec)) (dq_id (rec_request rec)) ''execution.cancelled''"
proof -
  let ?m = "dq_memorial (rec_request rec)"
  let ?P = "\<lambda>x. at_id x = at_id a \<and> at_memorial x = ?m \<and> active x \<and> at_version x = at_version a"
  have inv0: "runs_inv sha redact {} d" using inv by (simp add: runs_ok_def)
  obtain e1 t d1 where u: "update_attempts ?P (decision_cancelled_row now) d = Inr (1, e1)"
    and re: "root_ended sha redact ?m (closed_memorial TCancelled ''Execution was cancelled'' ''decision_cancelled'' now)
       (decision_cancelled_event rec a now) e1 d'"
    and cas: "compare_and_swap sha redact secret (cancelled_state rec now s) (rs_version s) d = Inr (t, d1)" and rs: "db_run_states d' = db_run_states d1"
    using recovery_cancel_Inr [OF runs_invD(2,3) [OF inv0] r] by blast
  note la' = live_attemptD [OF la]
  have e1: "e1 = d\<lparr>db_attempts := update_rows ?P (decision_cancelled_row now) (db_attempts d)\<rparr>" using update_attempts_Inr [OF u] by simp
  show "decision_cancelled_row now a \<in> set (db_attempts d')" using re la' by (auto simp: root_ended_def e1 set_update_rows image_iff)
  show "\<exists>r \<in> set (db_memorials d). mem_id r = ?m \<and> mem_dag_node r = None \<and>
       db_memorials d' = update_rows (\<lambda>x. x = r) (closed_memorial TCancelled ''Execution was cancelled'' ''decision_cancelled'' now) (db_memorials d)"
    using re by (auto simp: root_ended_def e1)
  have mem: "rs_memorial (cancelled_state rec now s) = ?m" using sb by (simp add: cancelled_state_def state_binding_def Let_def)
  have ld: "load sha redact ?m d1 = Inr (Some t)" using swap_loaded [OF runs_invD(2) [OF inv0] cas] by (simp only: mem)
  then have "load sha redact ?m d' = Inr (Some t)" by (simp add: load_def rs)
  moreover have "t = (cancelled_state rec now s)\<lparr>rs_version := rs_version s + 1\<rparr>" using compare_and_swap_Inr [OF runs_invD(2) [OF inv0] cas] by simp
  ultimately show "carries sha redact d' ?m (dq_id (rec_request rec)) PFailed" by (simp add: carries_def cancelled_state_def)
  show "announced d' ?m (dq_id (rec_request rec)) ''execution.cancelled''"
    using re by (auto simp: root_ended_def announced_def new_outbox_row_def decision_cancelled_event_def Let_def)
qed

lemma recovery_resume_effect:
  assumes inv: "runs_ok sha redact d" and sb: "state_binding s rec" and ld: "load sha redact (dq_memorial (rec_request rec)) d = Inr (Some s)"
    and la: "live_attempt (dq_memorial (rec_request rec)) d = Some a"
    and r: "recovery_resume sha redact secret sensitive hook rec s a now d = Inr d'"
  shows "(if at_status a = Suspended then resumed_row now a else a) \<in> set (db_attempts d')" "db_memorials d' = db_memorials d"
    "carries sha redact d' (dq_memorial (rec_request rec)) (dq_id (rec_request rec)) PExecuting"
    "announced d' (dq_memorial (rec_request rec)) (dq_id (rec_request rec)) ''execution.resume.requested''"
proof -
  let ?m = "dq_memorial (rec_request rec)" and ?i = "dq_id (rec_request rec)"
  have ok: "states_ok sha redact d" using inv by (simp add: runs_ok_def runs_inv_def)
  obtain s' d1 d2 where rs: "resume_state sha redact secret sensitive rec s now d = Inr (s', d1)"
    and ra: "if at_status a = Suspended then resume_suspended_current (at_id a) ?m (at_version a) now d1 = Inr (True, d2)
             else at_status a \<in> {Claimable, Claimed} \<and> d2 = d1"
    and add: "outbox_add sha (resume_event rec a s' now) d2 = Inr d'"
    using recovery_resume_Inr [OF r] by blast
  have s': "load sha redact ?m d1 = Inr (Some s') \<and> rs_phase s' = PExecuting \<and> cont_pending (rs_continuation s') = None \<and>
      cont_resolved (rs_continuation s') = Some ?i \<and> (\<exists>rows. d1 = d\<lparr>db_run_states := rows\<rparr>)"
  proof (cases "rs_phase s = PExecuting")
    case True
    then have "s' = s" "d1 = d" using rs by (simp_all add: resume_state_def)
    then show ?thesis using ld sb True by (auto simp: state_binding_def Let_def intro: exI [of _ "db_run_states d"])
  next
    case False
    then obtain c where cas: "compare_and_swap sha redact secret (recovered_state rec c now s) (rs_version s) d = Inr (s', d1)"
      using rs by (auto simp: resume_state_def)
    have mem: "rs_memorial (recovered_state rec c now s) = ?m" using sb by (simp add: recovered_state_def state_binding_def Let_def)
    have t: "s' = (recovered_state rec c now s)\<lparr>rs_version := rs_version s + 1\<rparr>" using compare_and_swap_Inr [OF ok cas] by simp
    have "load sha redact ?m d1 = Inr (Some s')" using swap_loaded [OF ok cas] by (simp only: mem)
    then show ?thesis using swap_frame [OF ok cas] by (simp add: t recovered_state_def Let_def)
  qed
  obtain c where d': "d' = d2\<lparr>db_outbox := db_outbox d2 @ [new_outbox_row (resume_event rec a s' now) c]\<rparr>"
    using outbox_add_Inr [OF add] by blast
  have d2: "(if at_status a = Suspended then resumed_row now a else a) \<in> set (db_attempts d2) \<and> db_memorials d2 = db_memorials d1 \<and>
      db_run_states d2 = db_run_states d1"
  proof (cases "at_status a = Suspended")
    case True
    let ?p = "\<lambda>x. at_id x = at_id a \<and> at_memorial x = ?m \<and> at_status x = Suspended \<and> at_version x = at_version a"
    obtain n where u: "update_attempts ?p (resumed_row now) d1 = Inr (n, d2)"
      using ra True by (auto simp: resume_suspended_current_def split: if_split_asm)
    then show ?thesis using update_attempts_Inr [OF u] True live_attemptD [OF la] s' by (auto simp: set_update_rows image_iff)
  next
    case False
    then show ?thesis using ra live_attemptD [OF la] s' by auto
  qed
  show "(if at_status a = Suspended then resumed_row now a else a) \<in> set (db_attempts d')" using d2 by (simp add: d')
  show "db_memorials d' = db_memorials d" using d2 s' by (auto simp: d')
  have "load sha redact ?m d' = load sha redact ?m d1" using d2 by (simp add: load_def d')
  then show "carries sha redact d' ?m ?i PExecuting" using s' by (simp add: carries_def)
  show "announced d' ?m ?i ''execution.resume.requested''"
    by (auto simp: d' announced_def new_outbox_row_def resume_event_def Let_def)
qed

text \<open>The tables of decisions are read only.\<close>

lemma recovery_reads:
  assumes ok: "states_ok sha redact d" and b: "recovery_body sha redact secret sensitive hook ev i now d = Inr (b, d')"
  shows "decision_get sha j d' = decision_get sha j d"
proof -
  have cas: "db_decisions d1 = db_decisions d \<and> db_resolutions d1 = db_resolutions d \<and> db_edicts d1 = db_edicts d"
    if "compare_and_swap sha redact secret t v d = Inr (x, d1)" for t v x d1 using swap_frame [OF ok that] by auto
  have "db_decisions d' = db_decisions d \<and> db_resolutions d' = db_resolutions d \<and> db_edicts d' = db_edicts d"
    using recovery_body_cases [OF b]
  proof (elim disjE conjE exE)
    fix rec s a
    assume "if is_cancel rec then recovery_cancel sha redact secret hook rec s a now d = Inr d'
        else recovery_resume sha redact secret sensitive hook rec s a now d = Inr d'"
    then consider "recovery_cancel sha redact secret hook rec s a now d = Inr d'" | "recovery_resume sha redact secret sensitive hook rec s a now d = Inr d'"
      by (auto split: if_split_asm)
    then show ?thesis
    proof cases
      case 1
      then show ?thesis unfolding recovery_cancel_def Let_def
        by (auto simp: update_memorials_def split: if_split_asm dest!: outbox_add_Inr update_attempts_Inr cas)
    next
      case 2
      then show ?thesis unfolding recovery_resume_def
        by (auto simp: resume_state_def resume_suspended_current_def split: if_split_asm
            dest!: outbox_add_Inr update_attempts_Inr cas)
    qed
  qed simp
  then show ?thesis by (simp add: decision_get_def decode_first_def decode_record_def joined_def edict_of_def Let_def cong: option.case_cong)
qed

lemma recovery_body_root:
  assumes "recovery_body sha redact secret sensitive hook ev i now d = Inr (True, d')" "decision_get sha i d = Inr (Some rec)"
  shows "\<exists>r. row_by mem_id (dq_memorial (rec_request rec)) (db_memorials d) = Some r \<and> mem_dag_node r = None \<and>
    mem_edict r = dq_edict (rec_request rec)"
proof -
  have "is_supported (Some rec)" "event_matches ev rec" using assms by (auto simp: recovery_body_def split: if_split_asm)
  then show ?thesis using assms by (cases "row_by mem_id (dq_memorial (rec_request rec)) (db_memorials d)")
      (auto simp: recovery_body_def split: if_split_asm)
qed

lemma handle_body:
  assumes "handle_decision_resolved sha redact secret sensitive hook ev now d = (Inr True, d')"
  shows "\<exists>i. \<not> blank i \<and> ee_type ev = ''decision.resolved'' \<and> map_of (ee_payload ev) ''decision_request_id'' = Some (JStr i) \<and>
    recovery_body sha redact secret sensitive hook ev i now d = Inr (True, d')"
  using assms by (auto simp: handle_decision_resolved_def atomically_def
      split: if_split_asm option.split_asm json.split_asm sum.split_asm prod.split_asm)

lemma decision_get_key:
  assumes "decision_get sha i d = Inr (Some rec)"
  shows "dq_id (rec_request rec) = i"
proof -
  let ?rows = "filter (\<lambda>r. row_id r = i \<and> joined d (\<lambda>_. True) r) (db_decisions d)"
  obtain r where r: "first_of ?rows = Some r" and dec: "decode_record sha d r = Inr rec"
    using assms by (auto simp: decision_get_def decode_first_def split: option.split_asm)
  obtain rest where "?rows = r # rest" using r by (auto simp: first_of_def split: list.split_asm)
  then have "r \<in> set ?rows" by (simp only: list.set_intros)
  then have "row_id r = i" by simp
  then show ?thesis using dec by (auto simp: decode_record_def row_id_def Let_def split: if_split_asm)
qed

lemma recovery_resume_found:
  assumes "recovery_resume sha redact secret sensitive hook rec s a now d = Inr d'"
  shows "\<exists>r. select_outbox_record sha d' (dq_id (rec_request rec) @ '':execution.resume.requested'') = Inr (Some r)"
proof -
  obtain s' d2 where "outbox_add sha (resume_event rec a s' now) d2 = Inr d'" using recovery_resume_Inr [OF assms] by blast
  from outbox_add_found [OF this] show ?thesis by (auto simp: resume_event_def Let_def)
qed

section \<open>A run that waits\<close>

definition waiting_state :: run_state where
  "waiting_state = demo_state\<lparr>rs_phase := PWaitingDecision, rs_continuation := set_decisions (Some ''q1'') None (Agent demo_agent)\<rparr>"

definition waiting_attempt :: attempt_lease where
  "waiting_attempt = completed_row Suspended (suspended_outcome 15) (claimed_row ''w1'' 10 1 demo_attempt)"

definition waiting_request :: "decision_status \<Rightarrow> decision_request" where
  "waiting_request status =
     \<lparr>dq_id = ''q1'', dq_schema_version = 1, dq_kind = KOuterLoop, dq_edict = ''e1'', dq_memorial = ''m1'', dq_key = ''k1'',
      dq_payload = [], dq_payload_hash = replicate 64 CHR ''0'', dq_requested_by = ''w1'', dq_expires = 100, dq_status = status,
      dq_version = 1, dq_created = 12, dq_updated = 12\<rparr>"

definition waiting_db :: db where
  "waiting_db = demo_running\<lparr>db_attempts := [waiting_attempt], db_run_states := [\<lparr>rr_state = waiting_state, rr_correlation = Some ''c1''\<rparr>],
     db_decisions := [\<lparr>qr_request = waiting_request Pending, qr_correlation = Some ''c1''\<rparr>]\<rparr>"

definition answered_db :: db where
  "answered_db = waiting_db\<lparr>db_decisions := [\<lparr>qr_request = waiting_request Resolved, qr_correlation = Some ''c1''\<rparr>],
     db_resolutions := [\<lparr>dr_id = ''q1'', dr_action = ''continue'', dr_reason = ''ok'', dr_payload = [(''schema_version'', JInt 1)],
        dr_actor_id = ''u'', dr_actor_name = ''u'', dr_at = 18\<rparr>]\<rparr>"

definition answered_record :: decision_record where
  "answered_record = \<lparr>rec_request = waiting_request Resolved, rec_resolution = first_of (db_resolutions answered_db)\<rparr>"

definition answered_event :: event_envelope where
  "answered_event =
     \<lparr>ee_id = ''q1:decision.resolved'', ee_type = ''decision.resolved'', ee_edict = Some ''e1'', ee_memorial = Some ''m1'', ee_attempt = 1,
      ee_timestamp = 18, ee_producer = ''decisions'',
      ee_payload = [(''decision_request_id'', JStr ''q1''), (''kind'', JStr (kind_value KOuterLoop)), (''action'', JStr ''continue'')]\<rparr>"

definition scanned :: "nat result \<times> db" where
  "scanned = review_once zero_hash id (\<lambda>_. False) 100 20 waiting_db"

definition recovered :: "bool result \<times> db" where
  "recovered = handle_decision_resolved zero_hash id (\<lambda>_. False) (\<lambda>_. False) no_hook answered_event 20 answered_db"

lemma waiting_results: "scanned = (Inr 1, snd scanned)" "recovered = (Inr True, snd recovered)"
  by code_simp+

lemma waiting_ok: "runs_ok zero_hash id waiting_db" "runs_ok zero_hash id answered_db"
proof -
  have st: "states_ok zero_hash id waiting_db"
  proof -
    have "valid_run_state zero_hash id waiting_state" "decision_binding_ok waiting_state" by code_simp+
    then show ?thesis by (simp add: states_ok_def waiting_db_def)
  qed
  have "row_ok waiting_attempt" by code_simp
  then have l: "ledger_ok waiting_db"
    by (simp add: waiting_db_def ledger_ok_def waiting_attempt_def completed_row_def claimed_row_def suspended_outcome_def demo_running_def
        demo_defs has_memorial_def siblings_ok_def)
  have m: "dead_final waiting_db" "distinct (map mem_id (db_memorials waiting_db))" "db_outbox waiting_db = []"
    "db_memorials waiting_db = [demo_memorial]" "open_status (mem_status demo_memorial)"
    by (simp_all add: dead_final_def waiting_db_def waiting_attempt_def completed_row_def demo_running_def demo_defs open_status_def)
  show w: "runs_ok zero_hash id waiting_db" using st l m by (simp add: runs_ok_def runs_inv_def terminal_events_def closed_root_def)
  have "runs_ok zero_hash id answered_db = runs_ok zero_hash id waiting_db"
    by (simp add: answered_db_def runs_ok_def runs_inv_def terminal_events_def closed_root_def ledger_ok_def states_ok_def dead_final_def
        active_memorials_def has_memorial_def)
  then show "runs_ok zero_hash id answered_db" using w by simp
qed

section \<open>Properties\<close>

text \<open>
  C8: a resolved decision is carried out as a whole or not at all. When \<open>handle_decision_resolved\<close> returns true, the
  memorial of the decision had a live attempt, and either the decision cancelled the run (the attempt is failed, the open
  root is closed, the run state is failed and waits for nothing, the cancellation is pending in the outbox) or it resumed
  it (a suspended attempt can be claimed again, the run state executes with the decision as resolved, the resumption is
  pending in the outbox). In every other case the database is as it was.
\<close>

theorem recovery_in_one_piece:
  assumes "runs_ok sha redact d" and "handle_decision_resolved sha redact secret sensitive hook ev now d = (res, d')"
  shows "if res \<noteq> Inr True then d' = d
     else \<exists>i rec. \<exists>a \<in> set (db_attempts d). let m = dq_memorial (rec_request rec) in
       map_of (ee_payload ev) ''decision_request_id'' = Some (JStr i) \<and> decision_get sha i d = Inr (Some rec) \<and> dq_status (rec_request rec) = Resolved \<and> at_memorial a = m \<and> active a \<and>
       (if is_cancel rec
        then decision_cancelled_row now a \<in> set (db_attempts d') \<and> carries sha redact d' m i PFailed \<and>
             announced d' m i ''execution.cancelled'' \<and>
             (\<exists>r \<in> set (db_memorials d'). mem_id r = m \<and> mem_dag_node r = None \<and> mem_status r = TCancelled)
        else (if at_status a = Suspended then resumed_row now a else a) \<in> set (db_attempts d') \<and>
             carries sha redact d' m i PExecuting \<and> announced d' m i ''execution.resume.requested'' \<and>
             db_memorials d' = db_memorials d)"
proof (cases "res = Inr True")
  case False
  then consider "d' = d" | i b where "res = Inr b" "recovery_body sha redact secret sensitive hook ev i now d = Inr (b, d')"
    using assms(2) by (auto simp: handle_decision_resolved_def atomically_def
        split: if_split_asm option.split_asm json.split_asm sum.split_asm prod.split_asm)
  then show ?thesis
  proof cases
    case 2
    then show ?thesis using recovery_body_cases [OF 2(2)] False by auto
  qed (use False in simp)
next
  case True
  then obtain i where b: "recovery_body sha redact secret sensitive hook ev i now d = Inr (True, d')"
    and p: "map_of (ee_payload ev) ''decision_request_id'' = Some (JStr i)" using handle_body assms(2) by blast
  obtain rec s a where g: "decision_get sha i d = Inr (Some rec)" and sup: "is_supported (Some rec)"
    and ld: "load sha redact (dq_memorial (rec_request rec)) d = Inr (Some s)" and sb: "state_binding s rec"
    and la: "live_attempt (dq_memorial (rec_request rec)) d = Some a"
    and run: "if is_cancel rec then recovery_cancel sha redact secret hook rec s a now d = Inr d'
        else recovery_resume sha redact secret sensitive hook rec s a now d = Inr d'"
    using recovery_body_cases [OF b] by blast
  have i: "dq_id (rec_request rec) = i" by (rule decision_get_key [OF g])
  note la' = live_attemptD [OF la]
  have st: "dq_status (rec_request rec) = Resolved" using sup by (simp add: is_supported_def)
  show ?thesis
  proof (cases "is_cancel rec")
    case c: True
    then have rc: "recovery_cancel sha redact secret hook rec s a now d = Inr d'" using run by simp
    note e = recovery_cancel_effect [OF assms(1) sb la rc]
    obtain r where "r \<in> set (db_memorials d)" "mem_id r = dq_memorial (rec_request rec)" "mem_dag_node r = None"
      "db_memorials d' = update_rows (\<lambda>x. x = r) (closed_memorial TCancelled ''Execution was cancelled'' ''decision_cancelled'' now) (db_memorials d)"
      using e(2) by blast
    then have "\<exists>r \<in> set (db_memorials d'). mem_id r = dq_memorial (rec_request rec) \<and> mem_dag_node r = None \<and> mem_status r = TCancelled"
      by (auto simp: set_update_rows closed_memorial_def image_iff)
    then show ?thesis using True c e(1,3,4) la' g st p by (auto simp: Let_def i intro!: exI [of _ i] exI [of _ rec] bexI [of _ a])
  next
    case c: False
    then have rr: "recovery_resume sha redact secret sensitive hook rec s a now d = Inr d'" using run by simp
    show ?thesis using True c recovery_resume_effect [OF assms(1) sb ld la rr] la' g st p
      by (auto simp: Let_def i split: if_split_asm intro!: exI [of _ i] exI [of _ rec] bexI [of _ a])
  qed
qed

theorem recovery_in_one_piece_witness:
  "carries zero_hash id (snd recovered) ''m1'' ''q1'' PExecuting \<and> resumed_row 20 waiting_attempt \<in> set (db_attempts (snd recovered)) \<and>
   announced (snd recovered) ''m1'' ''q1'' ''execution.resume.requested''"
proof -
  have run: "handle_decision_resolved zero_hash id (\<lambda>_. False) (\<lambda>_. False) no_hook answered_event 20 answered_db = (Inr True, snd recovered)"
    using waiting_results(2) by (simp only: recovered_def [symmetric])
  have q: "decision_get zero_hash ''q1'' answered_db = Inr (Some answered_record)" "\<not> is_cancel answered_record"
    "dq_memorial (rec_request answered_record) = ''m1''" by code_simp+
  have a: "db_attempts answered_db = [waiting_attempt]" "at_status waiting_attempt = Suspended"
    "map_of (ee_payload answered_event) ''decision_request_id'' = Some (JStr ''q1'')" by code_simp+
  from recovery_in_one_piece [OF waiting_ok(2) run] q a show ?thesis by (auto simp: Let_def)
qed

text \<open>
  C9: a resolved decision is carried out once. After \<open>handle_decision_resolved\<close> has returned true for an event, every later
  delivery of it, at any time, returns false and writes nothing: there is no second resumption and no second cancellation.
\<close>

theorem recovery_is_idempotent:
  assumes "runs_ok sha redact d" and "handle_decision_resolved sha redact secret sensitive hook ev now d = (Inr True, d')"
  shows "handle_decision_resolved sha redact secret sensitive hook' ev now' d' = (Inr False, d')"
proof -
  have inv0: "runs_inv sha redact {} d" using assms(1) by (simp add: runs_ok_def)
  obtain i where ev: "\<not> blank i" "ee_type ev = ''decision.resolved''" "map_of (ee_payload ev) ''decision_request_id'' = Some (JStr i)"
    and b: "recovery_body sha redact secret sensitive hook ev i now d = Inr (True, d')"
    using handle_body [OF assms(2)] by blast
  obtain rec s a where g: "decision_get sha i d = Inr (Some rec)" and sup: "is_supported (Some rec)" "event_matches ev rec"
    and sb: "state_binding s rec" "load sha redact (dq_memorial (rec_request rec)) d = Inr (Some s)"
    and la: "live_attempt (dq_memorial (rec_request rec)) d = Some a"
    and run: "if is_cancel rec then recovery_cancel sha redact secret hook rec s a now d = Inr d'
        else recovery_resume sha redact secret sensitive hook rec s a now d = Inr d'"
    using recovery_body_cases [OF b] by blast
  let ?m = "dq_memorial (rec_request rec)"
  obtain r where r: "row_by mem_id ?m (db_memorials d) = Some r" "mem_dag_node r = None" "mem_edict r = dq_edict (rec_request rec)"
    using recovery_body_root [OF b g] by blast
  have g': "decision_get sha i d' = Inr (Some rec)" using recovery_reads [OF runs_invD(2) [OF inv0] b] g by simp
  have "recovery_body sha redact secret sensitive hook' ev i now' d' = Inr (False, d')"
  proof (cases "is_cancel rec")
    case True
    then have rc: "recovery_cancel sha redact secret hook rec s a now d = Inr d'" using run by simp
    let ?g = "closed_memorial TCancelled ''Execution was cancelled'' ''decision_cancelled'' now"
    obtain x where x: "x \<in> set (db_memorials d)" "mem_id x = ?m" "db_memorials d' = update_rows (\<lambda>y. y = x) ?g (db_memorials d)"
      using recovery_cancel_effect(2) [OF assms(1) sb(1) la rc] by blast
    have "x = r" using row_by_unique [OF runs_invD(3) [OF inv0] x(1,2)] r(1) by simp
    then have "row_by mem_id ?m (db_memorials d') = Some (?g r)" using x r(1) by (simp add: row_by_update_rows closed_memorial_def)
    then show ?thesis using g' sup r(2,3) by (simp add: recovery_body_def closed_memorial_def)
  next
    case False
    then have rr: "recovery_resume sha redact secret sensitive hook rec s a now d = Inr d'" using run by simp
    have "row_by mem_id ?m (db_memorials d') = Some r" using recovery_resume_effect(2) [OF assms(1) sb la rr] r(1) by simp
    moreover obtain o' where "select_outbox_record sha d' (i @ '':execution.resume.requested'') = Inr (Some o')"
      using recovery_resume_found [OF rr] by (auto simp: decision_get_key [OF g])
    ultimately show ?thesis using g' sup r(2,3) by (simp add: recovery_body_def)
  qed
  then show ?thesis using ev by (simp add: handle_decision_resolved_def atomically_def)
qed

theorem recovery_is_idempotent_witness:
  "handle_decision_resolved zero_hash id (\<lambda>_. False) (\<lambda>_. False) no_hook answered_event 30 (snd recovered) = (Inr False, snd recovered)"
proof -
  have run: "handle_decision_resolved zero_hash id (\<lambda>_. False) (\<lambda>_. False) no_hook answered_event 20 answered_db = (Inr True, snd recovered)"
    using waiting_results(2) by (simp only: recovered_def [symmetric])
  show ?thesis by (rule recovery_is_idempotent [OF waiting_ok(2) run])
qed

text \<open>
  C19: the scan of plan reviews selects every suspended attempt, and fails those that wait for something else. An attempt that
  is suspended for a decision of another kind, pending or already resolved, is failed by the next scan that commits, with
  the code \<open>plan_review_binding_invalid\<close>, and its root with it.
\<close>

theorem scan_fails_other_suspensions:
  assumes "runs_ok sha redact d" and "\<forall>a \<in> set (db_attempts d). at_created a \<le> now"
    and "review_once sha redact secret limit now d = (Inr n, d')" and "a \<in> set (review_candidates limit d)"
    and "load sha redact (at_memorial a) d = Inr (Some s)" and "review_decision_id (Some s) = Some i"
    and "decision_get sha i d = Inr (Some rec)" and "dq_kind (rec_request rec) \<noteq> KPlanReview"
    and "r \<in> set (db_memorials d)" and "mem_id r = at_memorial a" and "mem_dag_node r = None"
  shows "(\<exists>err. err_code err = ''plan_review_binding_invalid'' \<and> review_failed_row err now a \<in> set (db_attempts d')) \<and>
    row_by mem_id (at_memorial a) (db_memorials d') =
      Some (closed_memorial TFailed ''Plan review binding is invalid'' ''plan_review_binding_invalid'' now r)"
proof -
  let ?m = "at_memorial a"
  have created: "\<And>a. a \<in> set (db_attempts d) \<Longrightarrow> at_created a \<le> now" using assms(2) by blast
  have ok: "ledger_ok d" using assms(1) by (simp add: runs_ok_def runs_inv_def)
  obtain xs ys where sp: "review_candidates limit d = xs @ a # ys" "\<And>b. b \<in> set xs \<union> set ys \<Longrightarrow> at_memorial b \<noteq> ?m"
    using review_candidates_split [OF ok assms(4)] by blast
  have "review_rows sha redact secret now (xs @ a # ys) 0 d = Inr (n, d')"
    using assms(3) sp(1) by (auto simp: review_once_def atomically_def split: sum.split_asm)
  then obtain k b d1 d2 where 1: "review_rows sha redact secret now xs 0 d = Inr (k, d1)" and 2: "review_row sha redact secret now a d1 = Inr (b, d2)"
    and 3: "review_rows sha redact secret now ys (if b then k + 1 else k) d2 = Inr (n, d')"
    by (auto simp: review_rows_append)
  have k1: "runs_ok sha redact d1" "created_kept d d1" using review_rows_keeps [OF assms(1) _ 1] created by auto
  have ap1: "apart ?m d d1" using review_rows_apart [OF assms(1) created 1] sp(2) by blast
  have created1: "\<And>x. x \<in> set (db_attempts d1) \<Longrightarrow> at_created x \<le> now" using created_keptD [OF k1(2)] created by blast
  have k2: "runs_ok sha redact d2" "created_kept d1 d2" using review_row_keeps [OF k1(1) _ 2] created1 by auto
  have created2: "\<And>x. x \<in> set (db_attempts d2) \<Longrightarrow> at_created x \<le> now" using created_keptD [OF k2(2)] created1 by blast
  have ap2: "apart ?m d2 d'" using review_rows_apart [OF k2(1) created2 3] sp(2) by blast
  have a1: "a \<in> set (db_attempts d1)" using apart_attempt [OF ap1 refl] review_candidatesD(1) [OF assms(4)] by simp
  have inv0: "runs_inv sha redact {} d" using assms(1) by (simp add: runs_ok_def)
  have "row_by mem_id ?m (db_memorials d1) = Some r"
    using ap1 row_by_unique [OF runs_invD(3) [OF inv0] assms(9,10)] by (simp add: apart_def)
  then have r1: "r \<in> set (db_memorials d1)" using row_by_SomeD by fast
  note f = review_fails_row [OF k1(1) 2 _ assms(6) _ assms(8) a1]
  have ld: "load sha redact ?m d1 = Inr (Some s)" "decision_get sha i d1 = Inr (Some rec)" using apart_reads [OF ap1] assms(5,7) by simp_all
  obtain err where err: "err_code err = ''plan_review_binding_invalid''" "review_failed_row err now a \<in> set (db_attempts d2)"
    using f(1) [OF ld] by blast
  have "review_failed_row err now a \<in> set (db_attempts d')"
    using err(2) apart_attempt [OF ap2, of "review_failed_row err now a"] by (simp add: review_failed_row_def)
  then show ?thesis using err(1) f(2) [OF ld r1 assms(10,11)] ap2 by (auto simp: apart_def)
qed

theorem scan_fails_other_suspensions_witness:
  "dq_status (waiting_request Pending) = Pending \<and>
   row_by mem_id ''m1'' (db_memorials (snd scanned)) =
     Some (closed_memorial TFailed ''Plan review binding is invalid'' ''plan_review_binding_invalid'' 20 demo_memorial)"
proof -
  have run: "review_once zero_hash id (\<lambda>_. False) 100 20 waiting_db = (Inr 1, snd scanned)"
    using waiting_results(1) by (simp only: scanned_def [symmetric])
  have c: "\<forall>a \<in> set (db_attempts waiting_db). at_created a \<le> 20" "waiting_attempt \<in> set (review_candidates 100 waiting_db)"
    "load zero_hash id (at_memorial waiting_attempt) waiting_db = Inr (Some waiting_state)" "review_decision_id (Some waiting_state) = Some ''q1''"
    "decision_get zero_hash ''q1'' waiting_db = Inr (Some \<lparr>rec_request = waiting_request Pending, rec_resolution = None\<rparr>)"
    "dq_kind (rec_request \<lparr>rec_request = waiting_request Pending, rec_resolution = None\<rparr>) \<noteq> KPlanReview"
    "demo_memorial \<in> set (db_memorials waiting_db)" "mem_id demo_memorial = at_memorial waiting_attempt" "mem_dag_node demo_memorial = None"
    "at_memorial waiting_attempt = ''m1''" "dq_status (waiting_request Pending) = Pending"
    by code_simp+
  from scan_fails_other_suspensions [OF waiting_ok(1) c(1) run c(2-9)] c(10,11) show ?thesis by simp
qed

end
