(* ===== verification/Evolution_Repo.thy ===== *)
theory Evolution_Repo
  imports Decision_Repo
begin

text \<open>
  \<open>storage/evolution_repo.py\<close>: candidates, the journal of their lifecycle, the routing authority and the assignments
  of runs. The JSON columns are held as the values they encode; \<open>dumps\<close> gives their text. The numbers of these
  values are finite (\<open>evolution_json_finite\<close>), so that the digest of one is always defined.
\<close>

section \<open>Texts and digests\<close>

definition json_digest :: "(string \<Rightarrow> string) \<Rightarrow> json \<Rightarrow> string" where
  "json_digest sha v = sha (utf8 (dumps v))"

lemma json_digest_canonical: "normalizable v \<Longrightarrow> canonical_sha256 sha v = Inr (json_digest sha v)"
  by (simp add: canonical_sha256_def canonical_json_bytes_def json_digest_def)

text \<open>\<open>length(trim(v)) BETWEEN 1 AND n\<close>; SQLite's \<open>trim\<close> removes spaces.\<close>

definition sql_trim :: "string \<Rightarrow> string" where
  "sql_trim v = rev (dropWhile (\<lambda>c. c = CHR '' '') (rev (dropWhile (\<lambda>c. c = CHR '' '') v)))"

definition sql_text :: "nat \<Rightarrow> string \<Rightarrow> bool" where
  "sql_text n v = (1 \<le> length (sql_trim v) \<and> length (sql_trim v) \<le> n)"

section \<open>Decoding\<close>

definition candidate_id :: "candidate_row \<Rightarrow> string" where
  "candidate_id r = cd_id (cr_candidate r)"

definition decode_candidate :: "(string \<Rightarrow> string) \<Rightarrow> candidate_row \<Rightarrow> evolution_candidate result" where
  "decode_candidate sha r =
     (if cr_provenance_hash r \<noteq> json_digest sha (provenance_json (cd_provenance (cr_candidate r)))
      then Inl (EvolutionRepositoryDecodeError ''persisted candidate provenance hash does not match'')
      else if valid_candidate sha (cr_candidate r) then Inr (cr_candidate r)
      else Inl (EvolutionRepositoryDecodeError ''persisted evolution candidate violates the v1 contract''))"

fun decode_candidates :: "(string \<Rightarrow> string) \<Rightarrow> candidate_row list \<Rightarrow> evolution_candidate list result" where
  "decode_candidates sha [] = Inr []"
| "decode_candidates sha (r # rs) =
     and_then (decode_candidate sha r) (\<lambda>c. and_then (decode_candidates sha rs) (\<lambda>cs. Inr (c # cs)))"

definition get_candidate :: "(string \<Rightarrow> string) \<Rightarrow> string \<Rightarrow> db \<Rightarrow> evolution_candidate option result" where
  "get_candidate sha i d =
     (case row_by candidate_id i (db_candidates d) of
        None \<Rightarrow> Inr None
      | Some r \<Rightarrow> and_then (decode_candidate sha r) (\<lambda>c. Inr (Some c)))"

section \<open>The journal of the lifecycle\<close>

definition journal_id :: "(string \<Rightarrow> string) \<Rightarrow> string \<Rightarrow> int \<Rightarrow> lifecycle \<Rightarrow> string" where
  "journal_id sha i version l = sha (utf8 (i @ '':'' @ int_text version @ '':'' @ lifecycle_value l))"

definition entry_json :: "evolution_candidate \<Rightarrow> lifecycle option \<Rightarrow> string option \<Rightarrow> json" where
  "entry_json c previous decision =
     JObj [(''schema_version'', JInt 1), (''candidate_id'', JStr (cd_id c)), (''candidate_version'', JInt (cd_version c)),
           (''from_lifecycle'', null_or_str (map_option lifecycle_value previous)),
           (''to_lifecycle'', JStr (lifecycle_value (cd_lifecycle c))), (''decision_request_id'', null_or_str decision),
           (''created_at'', JStr (isoformat (cd_updated c)))]"

definition lifecycle_row :: "(string \<Rightarrow> string) \<Rightarrow> evolution_candidate \<Rightarrow> lifecycle option \<Rightarrow> string option \<Rightarrow> lifecycle_entry" where
  "lifecycle_row sha c previous decision =
     \<lparr>le_id = journal_id sha (cd_id c) (cd_version c) (cd_lifecycle c), le_candidate = cd_id c, le_version = cd_version c,
      le_from = previous, le_to = cd_lifecycle c, le_decision = decision,
      le_hash = json_digest sha (entry_json c previous decision), le_created = cd_updated c\<rparr>"

text \<open>The table: primary key, \<open>UNIQUE (candidate_id, candidate_version)\<close>, checks and foreign keys.\<close>

definition insert_lifecycle :: "lifecycle_entry \<Rightarrow> db \<Rightarrow> db result" where
  "insert_lifecycle e d =
     (if list_ex (\<lambda>x. le_id x = le_id e \<or> le_candidate x = le_candidate e \<and> le_version x = le_version e) (db_lifecycle d)
      then Inl (IntegrityError ''UNIQUE constraint failed: evolution_lifecycle_journal'')
      else if \<not> (sql_text 256 (le_id e) \<and> 0 < le_version e \<and> length (le_hash e) = 64)
      then Inl (IntegrityError ''CHECK constraint failed: evolution_lifecycle_journal'')
      else if \<not> list_ex (\<lambda>r. candidate_id r = le_candidate e) (db_candidates d) \<or>
              (case le_decision e of None \<Rightarrow> False | Some q \<Rightarrow> \<not> list_ex (\<lambda>r. row_id r = q) (db_decisions d))
      then Inl (IntegrityError ''FOREIGN KEY constraint failed'')
      else Inr (d\<lparr>db_lifecycle := db_lifecycle d @ [e]\<rparr>))"

definition append_lifecycle_journal ::
  "(string \<Rightarrow> string) \<Rightarrow> evolution_candidate \<Rightarrow> lifecycle option \<Rightarrow> string option \<Rightarrow> db \<Rightarrow> db result" where
  "append_lifecycle_journal sha c previous decision d = insert_lifecycle (lifecycle_row sha c previous decision) d"

section \<open>The decision behind a promotion of code\<close>

text \<open>\<open>_CodePromotionDecisionBindingV1\<close>: exactly its fields, of their types.\<close>

record promotion_binding =
  pb_candidate :: string
  pb_version :: int
  pb_digest :: string
  pb_gates :: int

definition promotion_binding_of :: "payload \<Rightarrow> promotion_binding option" where
  "promotion_binding_of p =
     (case (map_of p ''schema_version'', map_of p ''candidate_id'', map_of p ''candidate_version'',
            map_of p ''candidate_artifact_digest'', map_of p ''gate_snapshot_version'', map_of p ''action'', map_of p ''risk_tier'') of
        (Some (JInt s), Some (JStr i), Some (JInt v), Some (JStr a), Some (JInt g), Some (JStr act), Some (JStr risk)) \<Rightarrow>
          if s = 1 \<and> 1 \<le> v \<and> hex64 a \<and> 0 \<le> g \<and> act = ''promote'' \<and> risk = ''high'' \<and>
             only_keys [''schema_version'', ''candidate_id'', ''candidate_version'', ''candidate_artifact_digest'',
                        ''gate_snapshot_version'', ''action'', ''risk_tier''] p
          then Some \<lparr>pb_candidate = i, pb_version = v, pb_digest = a, pb_gates = g\<rparr> else None
      | _ \<Rightarrow> None)"

definition promotion_approved :: "decision_record \<Rightarrow> evolution_candidate \<Rightarrow> bool" where
  "promotion_approved r c =
     (dq_kind (rec_request r) = KGovernedApply \<and> dq_status (rec_request r) = Resolved \<and>
      (case rec_resolution r of None \<Rightarrow> False | Some v \<Rightarrow> dr_action v = ''approve'') \<and>
      (case promotion_binding_of (dq_payload (rec_request r)) of
         None \<Rightarrow> False
       | Some b \<Rightarrow> pb_candidate b = cd_id c \<and> pb_version b = cd_version c \<and> pb_digest b = vr_artifact (cd_candidate c) \<and>
                   pb_gates b = cd_gate_version c))"

definition require_high_risk_decision ::
  "(string \<Rightarrow> string) \<Rightarrow> evolution_candidate \<Rightarrow> string option \<Rightarrow> db \<Rightarrow> unit result" where
  "require_high_risk_decision sha c decision d =
     (let refused = EvolutionRepositoryConflict ''code promotion requires an explicit resolved high-risk Decision''
      in case decision of
           None \<Rightarrow> Inl refused
         | Some i \<Rightarrow>
             if blank i then Inl refused
             else
               (case decision_get sha i d of
                  Inl (DecisionDecodeError _) \<Rightarrow> Inl refused
                | Inl e \<Rightarrow> Inl e
                | Inr None \<Rightarrow> Inl refused
                | Inr (Some r) \<Rightarrow> raise_unless (promotion_approved r c) refused))"

definition require_code_promotion_decision ::
  "(string \<Rightarrow> string) \<Rightarrow> evolution_candidate \<Rightarrow> string option \<Rightarrow> db \<Rightarrow> unit result" where
  "require_code_promotion_decision sha c decision d =
     (if cd_kind c \<noteq> CCode then Inl (ValueError ''code promotion Decision validation requires a code candidate'')
      else require_high_risk_decision sha c decision d)"

section \<open>Writing candidates\<close>

definition require_immutable_core :: "evolution_candidate \<Rightarrow> evolution_candidate \<Rightarrow> unit result" where
  "require_immutable_core current c =
     (if cd_provenance current \<noteq> cd_provenance c then Inl (EvolutionRepositoryConflict ''candidate provenance is immutable'')
      else if cd_id current \<noteq> cd_id c \<or> cd_kind current \<noteq> cd_kind c \<or> cd_subject current \<noteq> cd_subject c \<or>
              cd_base current \<noteq> cd_base c \<or> cd_candidate current \<noteq> cd_candidate c \<or> cd_diff current \<noteq> cd_diff c \<or>
              cd_contract current \<noteq> cd_contract c \<or> cd_contract_hash current \<noteq> cd_contract_hash c \<or>
              cd_rollback current \<noteq> cd_rollback c \<or> cd_created current \<noteq> cd_created c
      then Inl (EvolutionRepositoryConflict ''candidate canonical identity is immutable'')
      else if take (length (cd_evidence current)) (cd_evidence c) \<noteq> cd_evidence current
      then Inl (EvolutionRepositoryConflict ''candidate evidence provenance is immutable'')
      else if cd_gate_version c < cd_gate_version current
      then Inl (EvolutionRepositoryConflict ''candidate gate snapshot version cannot move backwards'')
      else if cd_updated c < cd_updated current
      then Inl (EvolutionRepositoryConflict ''candidate updated_at cannot move backwards'')
      else Inr ())"

definition candidate_row_checks :: "candidate_row \<Rightarrow> bool" where
  "candidate_row_checks r =
     (let c = cr_candidate r
      in sql_text 256 (cd_id c) \<and> sql_text 512 (cd_subject c) \<and> length (cr_provenance_hash r) = 64 \<and> length (cd_diff c) = 64 \<and>
         length (cd_contract_hash c) = 64 \<and> 0 \<le> cd_gate_version c \<and> 0 < cd_version c)"

definition insert_candidate_row :: "candidate_row \<Rightarrow> db \<Rightarrow> db result" where
  "insert_candidate_row r d =
     (if list_ex (\<lambda>x. candidate_id x = candidate_id r) (db_candidates d)
      then Inl (IntegrityError ''UNIQUE constraint failed: evolution_candidates'')
      else if \<not> candidate_row_checks r then Inl (IntegrityError ''CHECK constraint failed: evolution_candidates'')
      else Inr (d\<lparr>db_candidates := db_candidates d @ [r]\<rparr>))"

definition insert_candidate ::
  "(string \<Rightarrow> string) \<Rightarrow> evolution_candidate \<Rightarrow> db \<Rightarrow> (evolution_candidate \<times> db) result" where
  "insert_candidate sha c d =
     and_then (raise_unless (cd_version c = 1) (ValueError ''new evolution candidate must start at version 1'')) (\<lambda>_.
     and_then (raise_unless (cd_lifecycle c = LProposed) (ValueError ''new evolution candidate must start as proposed'')) (\<lambda>_.
     and_then (except_integrity (EvolutionRepositoryConflict ''evolution candidate identity conflict'')
        (and_then (insert_candidate_row
             \<lparr>cr_candidate = c, cr_provenance_hash = json_digest sha (provenance_json (cd_provenance c))\<rparr> d)
           (append_lifecycle_journal sha c None None))) (\<lambda>d'.
     and_then (get_candidate sha (cd_id c) d') (\<lambda>durable.
       case durable of
         None \<Rightarrow> Inl (EvolutionRepositoryConflict ''evolution candidate disappeared after insert'')
       | Some x \<Rightarrow> Inr (x, d')))))"

text \<open>The columns the \<open>UPDATE\<close> of \<open>save_candidate\<close> sets.\<close>

definition saved_row :: "evolution_candidate \<Rightarrow> candidate_row \<Rightarrow> candidate_row" where
  "saved_row c r =
     r\<lparr>cr_candidate := (cr_candidate r)\<lparr>cd_gate_version := cd_gate_version c, cd_evidence := cd_evidence c,
        cd_routing := cd_routing c, cd_lifecycle := cd_lifecycle c, cd_version := cd_version c, cd_updated := cd_updated c\<rparr>\<rparr>"

definition update_candidates ::
  "(candidate_row \<Rightarrow> bool) \<Rightarrow> (candidate_row \<Rightarrow> candidate_row) \<Rightarrow> db \<Rightarrow> (nat \<times> db) result" where
  "update_candidates p f d =
     (if list_all (\<lambda>r. p r \<longrightarrow> candidate_row_checks (f r)) (db_candidates d)
      then Inr (count_rows p (db_candidates d), d\<lparr>db_candidates := update_rows p f (db_candidates d)\<rparr>)
      else Inl (IntegrityError ''CHECK constraint failed: evolution_candidates''))"

definition require_legal_change ::
  "(string \<Rightarrow> string) \<Rightarrow> evolution_candidate \<Rightarrow> evolution_candidate \<Rightarrow> string option \<Rightarrow> db \<Rightarrow> unit result" where
  "require_legal_change sha current c decision d =
     (if cd_lifecycle c = cd_lifecycle current then Inr ()
      else
        (case validate_lifecycle_transition (cd_lifecycle current) (cd_lifecycle c) of
           Inl _ \<Rightarrow> Inl (EvolutionRepositoryConflict ''illegal lifecycle transition'')
         | Inr _ \<Rightarrow>
             if cd_kind c = CCode \<and> cd_lifecycle c = LPromoted then require_code_promotion_decision sha current decision d
             else Inr ()))"

definition save_candidate ::
  "(string \<Rightarrow> string) \<Rightarrow> evolution_candidate \<Rightarrow> int \<Rightarrow> string option \<Rightarrow> db \<Rightarrow> (evolution_candidate \<times> db) result" where
  "save_candidate sha c expected decision d =
     (let conflict = EvolutionRepositoryConflict ''evolution candidate compare-and-swap conflict''
      in and_then (get_candidate sha (cd_id c) d) (\<lambda>found.
           case found of
             None \<Rightarrow> Inl conflict
           | Some current \<Rightarrow>
               and_then (raise_unless (cd_version current = expected) conflict) (\<lambda>_.
               and_then (raise_unless (cd_version c = expected) conflict) (\<lambda>_.
               and_then (require_immutable_core current c) (\<lambda>_.
               and_then (require_legal_change sha current c decision d) (\<lambda>_.
                 let saved = c\<lparr>cd_version := expected + 1\<rparr>
                 in and_then (update_candidates (\<lambda>r. candidate_id r = cd_id c \<and> cd_version (cr_candidate r) = expected)
                       (saved_row saved) d) (\<lambda>(n, d1).
                    and_then (raise_unless (n = 1) conflict) (\<lambda>_.
                    and_then (if cd_lifecycle saved = cd_lifecycle current then Inr d1
                              else except_integrity (EvolutionRepositoryConflict ''candidate lifecycle journal conflict'')
                                (append_lifecycle_journal sha saved (Some (cd_lifecycle current)) decision d1)) (\<lambda>d2.
                    and_then (get_candidate sha (cd_id saved) d2) (\<lambda>durable.
                      case durable of
                        None \<Rightarrow> Inl (EvolutionRepositoryConflict ''evolution candidate disappeared after save'')
                      | Some x \<Rightarrow> Inr (x, d2)))))))))))"

section \<open>Routing\<close>

definition get_routable_candidate :: "(string \<Rightarrow> string) \<Rightarrow> db \<Rightarrow> evolution_candidate option result" where
  "get_routable_candidate sha d =
     and_then (decode_candidates sha (select_ordered (\<lambda>r. cd_lifecycle (cr_candidate r) = LCanary)
        (\<lambda>r. (cd_created (cr_candidate r), candidate_id r)) (db_candidates d))) (\<lambda>cs.
       case cs of
         [] \<Rightarrow> Inr None
       | [c] \<Rightarrow>
           (case (cd_routing c, row_by ra_candidate (cd_id c) (db_routing d)) of
              (Some p, Some r) \<Rightarrow>
                if ra_version r \<noteq> rp_version p \<or> ra_basis_points r \<noteq> rp_basis_points p \<or> ra_seed r \<noteq> rp_seed p \<or>
                   ra_json r \<noteq> dumps (routing_json p) \<or> ra_hash r \<noteq> json_digest sha (routing_json p)
                then Inl (EvolutionRepositoryConflict ''canary routing authority conflicts'')
                else Inr (Some c)
            | _ \<Rightarrow> Inl (EvolutionRepositoryConflict ''canary routing authority is incomplete''))
       | _ \<Rightarrow> Inl (EvolutionRepositoryConflict ''multiple canary routing authorities''))"

section \<open>Assignments\<close>

definition legacy_marker :: json where
  "legacy_marker = JObj [(''mode'', JStr ''legacy_unmanaged'')]"

definition assignment_memorial :: "assignment \<Rightarrow> string" where
  "assignment_memorial a = (case a of Governed g \<Rightarrow> asn_memorial g | Legacy l \<Rightarrow> lg_memorial l)"

text \<open>The overlay of a decoded assignment; its parts are valid because those of the assignment and the candidate are.\<close>

definition overlay_of :: "run_assignment \<Rightarrow> evolution_candidate \<Rightarrow> overlay" where
  "overlay_of g c =
     \<lparr>ov_assignment = asn_id g, ov_kind = Some (cd_kind c), ov_subject = Some (cd_subject c),
      ov_artifact = vr_artifact (asn_selected g), ov_canonical = vr_canonical (asn_selected g)\<rparr>"

definition legacy_row :: "(string \<Rightarrow> string) \<Rightarrow> legacy_assignment \<Rightarrow> assignment_row" where
  "legacy_row sha l =
     \<lparr>ag_id = lg_id l, ag_memorial = lg_memorial l, ag_candidate = None, ag_routing_version = 1, ag_bucket = 0,
      ag_champion = dumps legacy_marker, ag_selected = dumps legacy_marker, ag_overlay_digest = json_digest sha legacy_marker,
      ag_assignment = Legacy l, ag_hash = json_digest sha (assignment_json (Legacy l)), ag_created = lg_created l\<rparr>"

definition governed_row :: "(string \<Rightarrow> string) \<Rightarrow> run_assignment \<Rightarrow> overlay \<Rightarrow> assignment_row" where
  "governed_row sha g v =
     \<lparr>ag_id = asn_id g, ag_memorial = asn_memorial g, ag_candidate = Some (asn_candidate g),
      ag_routing_version = asn_routing_version g, ag_bucket = asn_bucket g,
      ag_champion = dumps (version_ref_json (asn_champion g)), ag_selected = dumps (version_ref_json (asn_selected g)),
      ag_overlay_digest = json_digest sha (overlay_json v), ag_assignment = Governed g,
      ag_hash = json_digest sha (assignment_json (Governed g)), ag_created = asn_created g\<rparr>"

text \<open>The comparison of the columns with the assignment they were written from.\<close>

definition legacy_columns :: "(string \<Rightarrow> string) \<Rightarrow> assignment_row \<Rightarrow> legacy_assignment \<Rightarrow> bool" where
  "legacy_columns sha r l =
     (ag_id r = lg_id l \<and> ag_memorial r = lg_memorial l \<and> ag_candidate r = None \<and> ag_routing_version r = 1 \<and> ag_bucket r = 0 \<and>
      ag_champion r = dumps legacy_marker \<and> ag_selected r = dumps legacy_marker \<and>
      ag_overlay_digest r = json_digest sha legacy_marker \<and> ag_created r = lg_created l)"

definition governed_columns :: "assignment_row \<Rightarrow> run_assignment \<Rightarrow> bool" where
  "governed_columns r g =
     (ag_id r = asn_id g \<and> ag_memorial r = asn_memorial g \<and> ag_candidate r = Some (asn_candidate g) \<and>
      ag_routing_version r = asn_routing_version g \<and> ag_bucket r = asn_bucket g \<and>
      ag_champion r = dumps (version_ref_json (asn_champion g)) \<and> ag_selected r = dumps (version_ref_json (asn_selected g)) \<and>
      ag_created r = asn_created g)"

definition decode_governed ::
  "(string \<Rightarrow> string) \<Rightarrow> assignment_row \<Rightarrow> run_assignment \<Rightarrow> db \<Rightarrow> (assignment \<times> overlay option) result" where
  "decode_governed sha r g d =
     (if \<not> governed_columns r g then Inl (EvolutionRepositoryDecodeError ''assignment columns conflict with assignment_json'')
      else and_then (get_candidate sha (asn_candidate g) d) (\<lambda>found.
        case found of
          None \<Rightarrow> Inl (EvolutionRepositoryDecodeError ''assignment candidate attribution conflicts'')
        | Some c \<Rightarrow>
            if cd_base c \<noteq> asn_champion g \<or> asn_selected g \<notin> {cd_base c, cd_candidate c}
            then Inl (EvolutionRepositoryDecodeError ''assignment candidate attribution conflicts'')
            else if ag_overlay_digest r \<noteq> json_digest sha (overlay_json (overlay_of g c))
            then Inl (EvolutionRepositoryDecodeError ''assignment overlay digest conflicts'')
            else Inr (Governed g, Some (overlay_of g c))))"

definition decode_assignment :: "(string \<Rightarrow> string) \<Rightarrow> assignment_row \<Rightarrow> db \<Rightarrow> (assignment \<times> overlay option) result" where
  "decode_assignment sha r d =
     (if ag_hash r \<noteq> json_digest sha (assignment_json (ag_assignment r))
      then Inl (EvolutionRepositoryDecodeError ''persisted assignment hash does not match'')
      else if \<not> valid_assignment (ag_assignment r)
      then Inl (EvolutionRepositoryDecodeError ''persisted run assignment violates the v1 contract'')
      else
        (case ag_assignment r of
           Legacy l \<Rightarrow>
             if legacy_columns sha r l then Inr (Legacy l, None)
             else Inl (EvolutionRepositoryDecodeError ''legacy assignment columns conflict with assignment_json'')
         | Governed g \<Rightarrow> decode_governed sha r g d))"

definition get_assignment :: "(string \<Rightarrow> string) \<Rightarrow> string \<Rightarrow> db \<Rightarrow> (assignment \<times> overlay option) option result" where
  "get_assignment sha m d =
     (case row_by ag_memorial m (db_assignments d) of
        None \<Rightarrow> Inr None
      | Some r \<Rightarrow> and_then (decode_assignment sha r d) (\<lambda>x. Inr (Some x)))"

definition insert_assignment_row :: "assignment_row \<Rightarrow> db \<Rightarrow> db result" where
  "insert_assignment_row r d =
     (if list_ex (\<lambda>x. ag_id x = ag_id r \<or> ag_memorial x = ag_memorial r) (db_assignments d)
      then Inl (IntegrityError ''UNIQUE constraint failed: run_evolution_assignments'')
      else if \<not> (sql_text 256 (ag_id r) \<and> 0 < ag_routing_version r \<and> 0 \<le> ag_bucket r \<and> ag_bucket r \<le> 9999 \<and>
                 length (ag_overlay_digest r) = 64 \<and> length (ag_hash r) = 64)
      then Inl (IntegrityError ''CHECK constraint failed: run_evolution_assignments'')
      else if \<not> has_memorial d (ag_memorial r) \<or>
              (case ag_candidate r of None \<Rightarrow> False | Some i \<Rightarrow> \<not> list_ex (\<lambda>x. candidate_id x = i) (db_candidates d))
      then Inl (IntegrityError ''FOREIGN KEY constraint failed'')
      else Inr (d\<lparr>db_assignments := db_assignments d @ [r]\<rparr>))"

text \<open>
  What the two inserts share: an existing assignment must be the same; a lost race is resolved by reading again; a
  stored one is read back, and \<open>same_class\<close> is the final \<open>isinstance\<close>.
\<close>

definition insert_once ::
  "(string \<Rightarrow> string) \<Rightarrow> (assignment \<Rightarrow> bool) \<Rightarrow> assignment \<times> overlay option \<Rightarrow> assignment_row \<Rightarrow> db \<Rightarrow> (assignment \<times> db) result" where
  "insert_once sha same_class wanted row d =
     (let m = assignment_memorial (fst wanted)
      in and_then (get_assignment sha m d) (\<lambda>existing.
           case existing of
             Some x \<Rightarrow>
               if x \<noteq> wanted then Inl (EvolutionAssignmentConflict ''Memorial assignment is immutable'') else Inr (fst x, d)
           | None \<Rightarrow>
               (case insert_assignment_row row d of
                  Inl (IntegrityError _) \<Rightarrow>
                    and_then (get_assignment sha m d) (\<lambda>replay.
                      if replay = Some wanted then Inr (fst wanted, d)
                      else Inl (EvolutionAssignmentConflict ''Memorial assignment identity conflict''))
                | Inl e \<Rightarrow> Inl e
                | Inr d' \<Rightarrow>
                    and_then (get_assignment sha m d') (\<lambda>durable.
                      case durable of
                        None \<Rightarrow> Inl (EvolutionAssignmentConflict ''Memorial assignment disappeared'')
                      | Some x \<Rightarrow>
                          if same_class (fst x) then Inr (fst x, d')
                          else Inl (EvolutionAssignmentConflict ''Memorial assignment disappeared'')))))"

definition is_legacy :: "assignment \<Rightarrow> bool" where
  "is_legacy a = (case a of Legacy _ \<Rightarrow> True | Governed _ \<Rightarrow> False)"

definition insert_legacy_assignment :: "(string \<Rightarrow> string) \<Rightarrow> legacy_assignment \<Rightarrow> db \<Rightarrow> (assignment \<times> db) result" where
  "insert_legacy_assignment sha l d = insert_once sha is_legacy (Legacy l, None) (legacy_row sha l) d"

definition insert_assignment ::
  "(string \<Rightarrow> string) \<Rightarrow> run_assignment \<Rightarrow> overlay \<Rightarrow> db \<Rightarrow> (assignment \<times> db) result" where
  "insert_assignment sha g v d =
     (if ov_assignment v \<noteq> asn_id g \<or> ov_artifact v \<noteq> vr_artifact (asn_selected g) \<or> ov_canonical v \<noteq> vr_canonical (asn_selected g)
      then Inl (ValueError ''effective overlay does not match assignment'')
      else insert_once sha (\<lambda>a. \<not> is_legacy a) (Governed g, Some v) (governed_row sha g v) d)"

end
