(* ===== verification/Challenger_Router.thy ===== *)
theory Challenger_Router
  imports Evolution_Repo
begin

text \<open>
  \<open>universe/router.py\<close>: which version of a governed resource a run uses. A run is assigned once; the bucket of a
  memorial is the keyed hash \<open>hmac\<close> of its identity. Parameters: the bucket calculator, the resolver of payloads and
  the hook before an insert.
\<close>

section \<open>Buckets\<close>

text \<open>\<open>int.from_bytes(digest[:8], "big")\<close>\<close>

definition big_endian :: "string \<Rightarrow> int" where
  "big_endian bytes = foldl (\<lambda>n c. n * 256 + of_char c) 0 bytes"

definition allocation_bucket :: "(string \<Rightarrow> string \<Rightarrow> string) \<Rightarrow> string \<Rightarrow> string \<Rightarrow> string \<Rightarrow> int result" where
  "allocation_bucket hmac memorial seed key =
     (if blank memorial \<or> blank seed then Inl (ValueError ''routing identities must be non-blank'')
      else if key = [] then Inl (ValueError ''allocation secret must not be empty'')
      else and_then (canonical_json_bytes (JObj [(''allocation_seed_id'', JStr seed), (''memorial_id'', JStr memorial),
                                                 (''schema_version'', JInt 2)])) (\<lambda>identity.
        Inr (big_endian (take 8 (hmac key identity)) mod 10000)))"

definition selects_challenger :: "int \<Rightarrow> int \<Rightarrow> bool result" where
  "selects_challenger bucket basis_points =
     (if \<not> (0 \<le> bucket \<and> bucket < 10000) then Inl (ValueError ''bucket must be in the range 0..9999'')
      else if \<not> (0 \<le> basis_points \<and> basis_points \<le> 10000)
      then Inl (ValueError ''allocation_basis_points must be in the range 0..10000'')
      else Inr (0 < basis_points \<and> bucket < basis_points))"

section \<open>The router\<close>

type_synonym bucket_calculator = "string \<Rightarrow> string \<Rightarrow> string \<Rightarrow> int result"

type_synonym payload_resolver = "db \<Rightarrow> version_ref \<Rightarrow> overlay \<Rightarrow> payload result"

record router =
  ro_secret :: "string option"
  ro_calculator :: bucket_calculator
  ro_resolver :: "payload_resolver option"
  ro_before_insert :: "assignment \<Rightarrow> unit result"

definition router_bucket :: "router \<Rightarrow> string \<Rightarrow> string \<Rightarrow> int result" where
  "router_bucket ro memorial seed =
     and_then (ro_calculator ro memorial seed (case ro_secret ro of None \<Rightarrow> [] | Some k \<Rightarrow> k)) (\<lambda>b.
       if 0 \<le> b \<and> b < 10000 then Inr b
       else Inl (ValueError ''bucket calculator returned an out-of-range value''))"

definition assignment_id :: "(string \<Rightarrow> string) \<Rightarrow> string \<Rightarrow> string" where
  "assignment_id sha memorial = ''assignment:'' @ sha (utf8 memorial)"

text \<open>
  \<open>except (LookupError, RuntimeError, TypeError, ValueError)\<close>: of the exceptions of the model all but the one of
  the database driver.
\<close>

definition resolver_error :: "exn \<Rightarrow> bool" where
  "resolver_error e = (case e of IntegrityError _ \<Rightarrow> False | _ \<Rightarrow> True)"

definition resolve_payload :: "router \<Rightarrow> version_ref \<Rightarrow> overlay \<Rightarrow> db \<Rightarrow> payload result" where
  "resolve_payload ro selected v d =
     (case ro_resolver ro of
        None \<Rightarrow> Inl (EvolutionRuntimeUnavailable ''candidate_overlay_unavailable'')
      | Some resolver \<Rightarrow>
          (case resolver d selected v of
             Inr p \<Rightarrow> Inr p
           | Inl e \<Rightarrow>
               if resolver_error e then Inl (EvolutionRuntimeUnavailable ''candidate_overlay_unavailable'') else Inl e))"

definition assign_legacy :: "(string \<Rightarrow> string) \<Rightarrow> router \<Rightarrow> string \<Rightarrow> instant \<Rightarrow> db \<Rightarrow> (assignment \<times> db) result" where
  "assign_legacy sha ro memorial assigned_at d =
     (let l = \<lparr>lg_id = assignment_id sha memorial, lg_memorial = memorial, lg_created = assigned_at\<rparr>
      in and_then (ro_before_insert ro (Legacy l)) (\<lambda>_. insert_legacy_assignment sha l d))"

definition assign_governed ::
  "(string \<Rightarrow> string) \<Rightarrow> router \<Rightarrow> string \<Rightarrow> instant \<Rightarrow> evolution_candidate \<Rightarrow> routing_policy \<Rightarrow> db \<Rightarrow> (assignment \<times> db) result" where
  "assign_governed sha ro memorial assigned_at c p d =
     and_then (router_bucket ro memorial (rp_seed p)) (\<lambda>bucket.
     and_then (selects_challenger bucket (rp_basis_points p)) (\<lambda>challenger.
       let selected = (if challenger then cd_candidate c else cd_base c);
           g = \<lparr>asn_id = assignment_id sha memorial, asn_memorial = memorial, asn_candidate = cd_id c, asn_champion = cd_base c,
                asn_selected = selected, asn_routing_version = rp_version p, asn_bucket = bucket, asn_created = assigned_at\<rparr>
       in and_then (raise_unless (valid_assignment (Governed g)) (ValueError ''value must not be blank'')) (\<lambda>_.
          and_then (resolve_payload ro selected (overlay_of g c) d) (\<lambda>_.
          and_then (ro_before_insert ro (Governed g)) (\<lambda>_.
            insert_assignment sha g (overlay_of g c) d)))))"

text \<open>\<open>now\<close> is the reading of the clock that \<open>created_at or self._clock()\<close> makes when it has to.\<close>

definition assign_current ::
  "(string \<Rightarrow> string) \<Rightarrow> router \<Rightarrow> string \<Rightarrow> instant option \<Rightarrow> instant \<Rightarrow> db \<Rightarrow> (assignment \<times> db) result" where
  "assign_current sha ro memorial created_at now d =
     (if blank memorial then Inl (ValueError ''memorial_id must be non-blank'')
      else and_then (get_assignment sha memorial d) (\<lambda>existing.
        case existing of
          Some x \<Rightarrow> Inr (fst x, d)
        | None \<Rightarrow>
            and_then (get_routable_candidate sha d) (\<lambda>candidate.
              let assigned_at = (case created_at of None \<Rightarrow> now | Some t \<Rightarrow> t)
              in case candidate of
                   None \<Rightarrow> assign_legacy sha ro memorial assigned_at d
                 | Some c \<Rightarrow>
                     (case cd_routing c of
                        None \<Rightarrow> Inl (TypeError ''routing'')
                      | Some p \<Rightarrow> assign_governed sha ro memorial assigned_at c p d))))"

definition assign :: "(string \<Rightarrow> string) \<Rightarrow> router \<Rightarrow> string \<Rightarrow> instant \<Rightarrow> db \<Rightarrow> assignment result \<times> db" where
  "assign sha ro memorial now d = atomically (assign_current sha ro memorial None now) d"

section \<open>Reading\<close>

definition assigned :: "(string \<Rightarrow> string) \<Rightarrow> string \<Rightarrow> db \<Rightarrow> assignment option result" where
  "assigned sha memorial d = and_then (get_assignment sha memorial d) (\<lambda>x. Inr (map_option fst x))"

definition overlay_for :: "(string \<Rightarrow> string) \<Rightarrow> string \<Rightarrow> db \<Rightarrow> overlay option result" where
  "overlay_for sha memorial d =
     and_then (get_assignment sha memorial d) (\<lambda>x. Inr (case x of None \<Rightarrow> None | Some (_, v) \<Rightarrow> v))"

record run_evidence =
  re_assignment :: run_assignment
  re_overlay :: overlay
  re_candidate :: string
  re_routing_version :: int

definition evidence_for :: "(string \<Rightarrow> string) \<Rightarrow> string \<Rightarrow> db \<Rightarrow> run_evidence result" where
  "evidence_for sha memorial d =
     and_then (get_assignment sha memorial d) (\<lambda>x.
       case x of
         None \<Rightarrow> Inl (LookupError ''run assignment not found'')
       | Some (Governed g, Some v) \<Rightarrow>
           Inr \<lparr>re_assignment = g, re_overlay = v, re_candidate = asn_candidate g, re_routing_version = asn_routing_version g\<rparr>
       | Some _ \<Rightarrow> Inl (LookupError ''run has no governed evolution assignment''))"

record runtime_context =
  rx_assignment :: run_assignment
  rx_overlay :: overlay
  rx_payload :: payload

text \<open>\<open>bind_runtime\<close>: the context that is bound while the body of the \<open>with\<close> statement runs.\<close>

definition bind_runtime :: "(string \<Rightarrow> string) \<Rightarrow> router \<Rightarrow> string \<Rightarrow> db \<Rightarrow> runtime_context option result" where
  "bind_runtime sha ro memorial d =
     (case get_assignment sha memorial d of
        Inl (EvolutionRepositoryDecodeError _) \<Rightarrow> Inl (RunAssignmentUnavailable ''run_assignment_unavailable'')
      | Inl e \<Rightarrow> Inl e
      | Inr None \<Rightarrow> Inl (LookupError ''run assignment not found'')
      | Inr (Some (Legacy _, _)) \<Rightarrow> Inr None
      | Inr (Some (Governed g, None)) \<Rightarrow> Inl (TypeError ''overlay'')
      | Inr (Some (Governed g, Some v)) \<Rightarrow>
          and_then (resolve_payload ro (asn_selected g) v d) (\<lambda>p.
            Inr (Some \<lparr>rx_assignment = g, rx_overlay = v, rx_payload = p\<rparr>)))"

end
