(* ===== verification/Scheduler_Repo.thy ===== *)
theory Scheduler_Repo
  imports Challenger_Router Outbox_Repo Attempt_Ledger
begin

text \<open>
  \<open>storage/scheduler_repo.py\<close>: the jobs of the scheduler, each with the cursor of its next fire, and the ledger of
  fires; with \<open>insert_memorial\<close> of \<open>storage/memorial_repo.py\<close>. Every operation but the first three is a
  transaction of its own.
\<close>

section \<open>Memorials\<close>

text \<open>A submitted \<open>Memorial\<close> with the defaults of its model; an empty override is stored as none.\<close>

definition submitted_memorial ::
  "string \<Rightarrow> string \<Rightarrow> string \<Rightarrow> string option \<Rightarrow> int \<Rightarrow> payload option \<Rightarrow> json option \<Rightarrow> instant \<Rightarrow> memorial_row" where
  "submitted_memorial i e instruction parent attempt runtime acceptance created =
     \<lparr>mem_id = i, mem_edict = e, mem_status = TSubmitted, mem_dag_node = None, mem_summary = None, mem_result = None,
      mem_final_output = None, mem_usage = Some zero_usage, mem_reasoning = None, mem_error = None, mem_failure_reason = None,
      mem_completed = None, mem_instruction = instruction, mem_parent = parent, mem_attempt = attempt, mem_created = created,
      mem_runtime_override = (if runtime = Some [] then None else runtime), mem_acceptance_override = acceptance\<rparr>"

definition insert_memorial :: "memorial_row \<Rightarrow> db \<Rightarrow> db result" where
  "insert_memorial r d =
     (if has_memorial d (mem_id r) then Inl (IntegrityError ''UNIQUE constraint failed: memorials.id'')
      else if \<not> has_edict d (mem_edict r) then Inl (IntegrityError ''FOREIGN KEY constraint failed'')
      else Inr (d\<lparr>db_memorials := db_memorials d @ [r]\<rparr>))"

section \<open>In the transaction of the caller\<close>

fun schedule_value :: "schedule_type \<Rightarrow> string" where
  "schedule_value SchedImmediate = ''immediate''"
| "schedule_value SchedOnce = ''once''"
| "schedule_value SchedCron = ''cron''"
| "schedule_value SchedInterval = ''interval''"

definition load_scheduler_job :: "string \<Rightarrow> db \<Rightarrow> job_row option" where
  "load_scheduler_job j d = row_by jb_id j (db_jobs d)"

definition insert_schedule_run :: "schedule_run_row \<Rightarrow> db \<Rightarrow> db result" where
  "insert_schedule_run r d =
     (if list_ex (\<lambda>x. sr_id x = sr_id r) (db_schedule_runs d) then Inl (IntegrityError ''UNIQUE constraint failed: schedule_run.id'')
      else Inr (d\<lparr>db_schedule_runs := db_schedule_runs d @ [r]\<rparr>))"

definition update_jobs :: "(job_row \<Rightarrow> bool) \<Rightarrow> (job_row \<Rightarrow> job_row) \<Rightarrow> db \<Rightarrow> nat \<times> db" where
  "update_jobs p f d = (count_rows p (db_jobs d), d\<lparr>db_jobs := update_rows p f (db_jobs d)\<rparr>)"

definition compare_and_set_scheduler_cursor ::
  "string \<Rightarrow> instant \<Rightarrow> instant option \<Rightarrow> job_status \<Rightarrow> db \<Rightarrow> bool \<times> db" where
  "compare_and_set_scheduler_cursor j expected next_run status d =
     (case update_jobs (\<lambda>r. jb_id r = j \<and> jb_status r = JobActive \<and> jb_next r = Some expected)
             (\<lambda>r. r\<lparr>jb_next := next_run, jb_status := status\<rparr>) d of
        (n, d') \<Rightarrow> (n = 1, d'))"

section \<open>Jobs\<close>

definition new_job ::
  "string \<Rightarrow> string \<Rightarrow> schedule_type \<Rightarrow> string option \<Rightarrow> instant option \<Rightarrow> int option \<Rightarrow> instant \<Rightarrow> job_row" where
  "new_job j e type cron next_run interval now =
     \<lparr>jb_id = j, jb_edict = e, jb_type = type, jb_cron = cron, jb_next = next_run, jb_status = JobActive, jb_created = now,
      jb_interval = interval\<rparr>"

text \<open>\<open>INSERT OR REPLACE\<close> and \<open>INSERT OR IGNORE\<close> on the primary key.\<close>

definition save_scheduler_job :: "job_row \<Rightarrow> db \<Rightarrow> db" where
  "save_scheduler_job r d = d\<lparr>db_jobs := filter (\<lambda>x. jb_id x \<noteq> jb_id r) (db_jobs d) @ [r]\<rparr>"

definition save_scheduler_job_if_absent :: "job_row \<Rightarrow> db \<Rightarrow> bool \<times> db" where
  "save_scheduler_job_if_absent r d =
     (if list_ex (\<lambda>x. jb_id x = jb_id r) (db_jobs d) then (False, d) else (True, d\<lparr>db_jobs := db_jobs d @ [r]\<rparr>))"

definition update_scheduler_job_next_run :: "string \<Rightarrow> instant option \<Rightarrow> db \<Rightarrow> db" where
  "update_scheduler_job_next_run j next_run d = snd (update_jobs (\<lambda>r. jb_id r = j) (\<lambda>r. r\<lparr>jb_next := next_run\<rparr>) d)"

definition set_scheduler_job_status :: "string \<Rightarrow> job_status \<Rightarrow> db \<Rightarrow> db" where
  "set_scheduler_job_status j status d = snd (update_jobs (\<lambda>r. jb_id r = j) (\<lambda>r. r\<lparr>jb_status := status\<rparr>) d)"

text \<open>The new schedule comes as the JSON text of the edict and as the columns of the job.\<close>

definition update_scheduler_job_schedule ::
  "string \<Rightarrow> string \<Rightarrow> edict_schedule option \<Rightarrow> schedule_type \<Rightarrow> string option \<Rightarrow> int option \<Rightarrow> instant \<Rightarrow> job_status \<Rightarrow> db \<Rightarrow> bool \<times> db" where
  "update_scheduler_job_schedule j e schedule type cron interval next_run status d =
     (case row_by jb_id j (db_jobs d) of
        None \<Rightarrow> (False, d)
      | Some r \<Rightarrow>
          (case row_by ed_id (jb_edict r) (db_edicts d) of
             None \<Rightarrow> (False, d)
           | Some x \<Rightarrow>
               if jb_edict r \<noteq> e \<or> jb_status r \<notin> {JobActive, JobPaused} \<or> ed_status x \<noteq> EdOpen then (False, d)
               else
                 (case update_jobs (\<lambda>y. jb_id y = j \<and> jb_status y \<in> {JobActive, JobPaused})
                         (\<lambda>y. y\<lparr>jb_type := type, jb_cron := cron, jb_interval := interval, jb_next := Some next_run, jb_status := status\<rparr>)
                         (d\<lparr>db_edicts := update_rows (\<lambda>y. ed_id y = e) (\<lambda>y. y\<lparr>ed_schedule := schedule\<rparr>) (db_edicts d)\<rparr>) of
                    (n, d') \<Rightarrow> (n = 1, d'))))"

definition compare_and_set_scheduler_next_run :: "string \<Rightarrow> instant \<Rightarrow> instant \<Rightarrow> db \<Rightarrow> bool \<times> db" where
  "compare_and_set_scheduler_next_run j expected next_run d =
     (case update_jobs (\<lambda>r. jb_id r = j \<and> jb_status r = JobActive \<and> jb_next r = Some expected)
             (\<lambda>r. r\<lparr>jb_next := Some next_run\<rparr>) d of
        (n, d') \<Rightarrow> (n = 1, d'))"

definition delete_scheduler_job :: "string \<Rightarrow> db \<Rightarrow> db" where
  "delete_scheduler_job j d = snd (update_jobs (\<lambda>r. jb_id r = j) (\<lambda>r. r\<lparr>jb_status := JobCancelled\<rparr>) d)"

definition complete_scheduler_job :: "string \<Rightarrow> db \<Rightarrow> db" where
  "complete_scheduler_job j d = snd (update_jobs (\<lambda>r. jb_id r = j) (\<lambda>r. r\<lparr>jb_status := JobCompleted, jb_next := None\<rparr>) d)"

definition list_scheduler_jobs :: "job_status list \<Rightarrow> db \<Rightarrow> job_row list" where
  "list_scheduler_jobs statuses d =
     (if statuses = [] then [] else select_ordered (\<lambda>r. jb_status r \<in> set statuses) jb_created (db_jobs d))"

definition list_active_scheduler_jobs :: "db \<Rightarrow> job_row list" where
  "list_active_scheduler_jobs d = select_ordered (\<lambda>r. jb_status r = JobActive) jb_created (db_jobs d)"

section \<open>The ledger of fires\<close>

definition create_schedule_run :: "string \<Rightarrow> instant \<Rightarrow> string \<Rightarrow> string \<Rightarrow> string \<Rightarrow> string option \<Rightarrow> db \<Rightarrow> string result \<times> db" where
  "create_schedule_run new_id now source kind status e d =
     (case insert_schedule_run \<lparr>sr_id = new_id, sr_source = source, sr_kind = kind, sr_status = status, sr_edict = e, sr_note = None,
              sr_started = now, sr_finished = None\<rparr> d of
        Inl x \<Rightarrow> (Inl x, d)
      | Inr d' \<Rightarrow> (Inr new_id, d'))"

definition update_schedule_runs :: "(schedule_run_row \<Rightarrow> bool) \<Rightarrow> (schedule_run_row \<Rightarrow> schedule_run_row) \<Rightarrow> db \<Rightarrow> nat \<times> db" where
  "update_schedule_runs p f d = (count_rows p (db_schedule_runs d), d\<lparr>db_schedule_runs := update_rows p f (db_schedule_runs d)\<rparr>)"

definition finished_run :: "instant \<Rightarrow> string \<Rightarrow> string option \<Rightarrow> schedule_run_row \<Rightarrow> schedule_run_row" where
  "finished_run now status error r = r\<lparr>sr_status := status, sr_note := map_option Note error, sr_finished := Some now\<rparr>"

definition finish_schedule_run :: "instant \<Rightarrow> string \<Rightarrow> string \<Rightarrow> string option \<Rightarrow> db \<Rightarrow> db" where
  "finish_schedule_run now i status error d = snd (update_schedule_runs (\<lambda>r. sr_id r = i) (finished_run now status error) d)"

definition has_running_system_job :: "string \<Rightarrow> db \<Rightarrow> bool" where
  "has_running_system_job source d =
     (0 < count_rows (\<lambda>r. sr_source r = source \<and> sr_kind r = ''system'' \<and> sr_status r = ''running'') (db_schedule_runs d))"

text \<open>\<open>ORDER BY started_at DESC LIMIT ?\<close>; a negative limit is none.\<close>

definition list_schedule_runs :: "string option \<Rightarrow> int \<Rightarrow> db \<Rightarrow> schedule_run_row list" where
  "list_schedule_runs source limit d =
     (let rows = select_ordered (\<lambda>r. case source of None \<Rightarrow> True | Some s \<Rightarrow> s = [] \<or> sr_source r = s) (\<lambda>r. - sr_started r) (db_schedule_runs d)
      in if limit < 0 then rows else take (nat limit) rows)"

definition fail_running_system_schedule_runs :: "instant \<Rightarrow> string \<Rightarrow> db \<Rightarrow> nat \<times> db" where
  "fail_running_system_schedule_runs now reason d =
     update_schedule_runs (\<lambda>r. sr_kind r = ''system'' \<and> sr_status r = ''running'') (finished_run now ''failed'' (Some reason)) d"

end
