(* ===== verification/Scheduled_Runs.thy ===== *)
theory Scheduled_Runs
  imports Scheduler_Repo
begin

text \<open>
  \<open>application/scheduled_runs.py\<close>: how a due job becomes a run. A fire creates the memorial, its assignment, its first
  attempt and the entry of the ledger, and moves the cursor of the job, in one unit of work; the identities of all of
  them are derived from the job and the instant. Parameters: the router, the boundary hook, and \<open>cron_next\<close>, the next
  instant of an expression of the package \<open>croniter\<close> in a time zone after a given one (\<open>None\<close> where it raises).
\<close>

type_synonym cron = "string \<Rightarrow> string \<Rightarrow> instant \<Rightarrow> instant option"

record prepared_fire =
  pf_fire :: string
  pf_job :: string
  pf_edict :: string
  pf_scheduled :: instant
  pf_next :: "instant option"
  pf_status :: string
  pf_memorial :: "string option"
  pf_attempt :: "string option"
  pf_run :: string
  pf_deduplicated :: bool

section \<open>Identities\<close>

definition fire_identity :: "(string \<Rightarrow> string) \<Rightarrow> string \<Rightarrow> string \<Rightarrow> instant \<Rightarrow> string" where
  "fire_identity sha kind j t = kind @ ''-'' @ sha (utf8 (j @ [CHR 0x00] @ isoformat t))"

definition submission_job_id :: "(string \<Rightarrow> string) \<Rightarrow> string \<Rightarrow> string" where
  "submission_job_id sha event = ''submitted-'' @ sha (utf8 event)"

definition opt_int :: "int option \<Rightarrow> json" where
  "opt_int v = (case v of None \<Rightarrow> JNull | Some n \<Rightarrow> JInt n)"

definition opt_time :: "instant option \<Rightarrow> json" where
  "opt_time v = (case v of None \<Rightarrow> JNull | Some t \<Rightarrow> JStr (isoformat t))"

definition schedule_json :: "edict_schedule \<Rightarrow> json" where
  "schedule_json s =
     JObj [(''type'', JStr (schedule_value (es_type s))), (''at'', null_or_str (map_option snd (es_at s))),
           (''cron'', null_or_str (es_cron s)), (''interval_seconds'', opt_int (es_interval s)), (''timezone'', JStr (es_timezone s)),
           (''concurrency_policy'', JStr (if es_skip s then ''skip'' else ''allow'')), (''misfire_policy'', JStr ''coalesce'')]"

definition fire_json :: "job_row \<Rightarrow> edict_schedule \<Rightarrow> instant \<Rightarrow> instant option \<Rightarrow> string option \<Rightarrow> string \<Rightarrow> int \<Rightarrow> json" where
  "fire_json job s t next_run initial status max_attempts =
     JObj [(''schema_version'', JInt 1),
           (''job'', JObj [(''job_id'', JStr (jb_id job)), (''edict_id'', JStr (jb_edict job)),
              (''schedule_type'', JStr (schedule_value (jb_type job))), (''cron_expr'', null_or_str (jb_cron job)),
              (''interval_seconds'', opt_int (jb_interval job))]),
           (''edict_schedule'', schedule_json s), (''scheduled_at'', JStr (isoformat t)), (''next_run'', opt_time next_run),
           (''initial_memorial_id'', null_or_str initial), (''status'', JStr status), (''max_attempts'', JInt max_attempts)]"

definition fire_fingerprint ::
  "(string \<Rightarrow> string) \<Rightarrow> job_row \<Rightarrow> edict_schedule \<Rightarrow> instant \<Rightarrow> instant option \<Rightarrow> string option \<Rightarrow> string \<Rightarrow> int \<Rightarrow> string" where
  "fire_fingerprint sha job s t next_run initial status max_attempts =
     ''fire-envelope-sha256:'' @ json_digest sha (fire_json job s t next_run initial status max_attempts)"

lemma fire_json_finite [simp]: "normalizable (fire_json job s t next_run initial status n)"
  by (auto simp: fire_json_def schedule_json_def null_or_str_def opt_int_def opt_time_def split: option.split)

section \<open>The next cursor\<close>

definition agreed :: "instant option \<Rightarrow> instant \<Rightarrow> string \<Rightarrow> instant option result" where
  "agreed requested derived message =
     (if requested \<noteq> None \<and> requested \<noteq> Some derived then Inl (ScheduledFireConflict message) else Inr (Some derived))"

definition next_cursor :: "cron \<Rightarrow> job_row \<Rightarrow> edict_schedule \<Rightarrow> instant \<Rightarrow> instant option \<Rightarrow> instant option result" where
  "next_cursor cron_next job s t requested =
     (case es_type s of
        SchedInterval \<Rightarrow>
          (case jb_interval job of
             None \<Rightarrow> Inl (ScheduledFireConflict ''interval scheduler envelope is invalid'')
           | Some n \<Rightarrow>
               if n \<le> 0 \<or> es_interval s \<noteq> Some n then Inl (ScheduledFireConflict ''interval scheduler envelope is invalid'')
               else agreed requested (t + seconds n) ''next cursor conflicts with interval envelope'')
      | SchedCron \<Rightarrow>
          (case jb_cron job of
             None \<Rightarrow> Inl (ScheduledFireConflict ''cron scheduler envelope is invalid'')
           | Some e \<Rightarrow>
               if es_cron s \<noteq> Some e then Inl (ScheduledFireConflict ''cron scheduler envelope is invalid'')
               else
                 (case cron_next e (es_timezone s) t of
                    None \<Rightarrow> Inl (ScheduledFireConflict ''cron scheduler envelope is invalid'')
                  | Some u \<Rightarrow> agreed requested u ''next cursor conflicts with cron envelope''))
      | _ \<Rightarrow>
          if requested \<noteq> None then Inl (ScheduledFireConflict ''terminal fire cannot have a next cursor'')
          else if es_type s = SchedOnce \<and> map_option fst (es_at s) \<noteq> Some t
          then Inl (ScheduledFireConflict ''terminal scheduler envelope is invalid'')
          else Inr None)"

section \<open>The memorial of a fire\<close>

definition expected_memorial_id :: "(string \<Rightarrow> string) \<Rightarrow> string \<Rightarrow> instant \<Rightarrow> string option \<Rightarrow> edict_schedule \<Rightarrow> string result" where
  "expected_memorial_id sha j t initial s =
     (case initial of
        Some m \<Rightarrow> Inr m
      | None \<Rightarrow>
          if es_type s \<in> {SchedImmediate, SchedOnce} then Inl (ScheduledFireConflict ''initial fire requires its submitted Memorial'')
          else Inr (fire_identity sha ''memorial'' j t))"

definition is_bound_submission :: "(string \<Rightarrow> string) \<Rightarrow> string \<Rightarrow> string \<Rightarrow> string \<Rightarrow> db \<Rightarrow> bool" where
  "is_bound_submission sha j e m d =
     list_ex (\<lambda>r. ob_type r = ''edict.submitted'' \<and> ob_edict r = Some e \<and> ob_memorial r = Some m \<and> submission_job_id sha (ob_id r) = j)
       (db_outbox d)"

definition validate_initial_memorial :: "(string \<Rightarrow> string) \<Rightarrow> string \<Rightarrow> string \<Rightarrow> string \<Rightarrow> string \<Rightarrow> db \<Rightarrow> unit result" where
  "validate_initial_memorial sha j e m goal d =
     raise_unless
       (case row_by mem_id m (db_memorials d) of
          None \<Rightarrow> False
        | Some r \<Rightarrow> mem_edict r = e \<and> mem_instruction r = goal \<and> mem_status r = TSubmitted \<and> mem_dag_node r = None \<and>
                    mem_parent r = None \<and> is_bound_submission sha j e m d)
       (ScheduledFireConflict ''initial Memorial conflicts with durable envelope'')"

definition prepare_memorial ::
  "(string \<Rightarrow> string) \<Rightarrow> string \<Rightarrow> string \<Rightarrow> string \<Rightarrow> instant \<Rightarrow> string option \<Rightarrow> edict_schedule \<Rightarrow> db \<Rightarrow> (string \<times> db) result" where
  "prepare_memorial sha j e goal t initial s d =
     and_then (expected_memorial_id sha j t initial s) (\<lambda>m.
       if has_memorial d m
       then
         (if initial = None then Inl (ScheduledFireConflict ''scheduled periodic Memorial already exists'')
          else and_then (validate_initial_memorial sha j e m goal d) (\<lambda>_. Inr (m, d)))
       else if initial \<noteq> None then Inl (ScheduledFireConflict ''initial Memorial does not exist'')
       else and_then (insert_memorial (submitted_memorial m e goal None 1 None None t) d) (\<lambda>d'. Inr (m, d')))"

definition has_active_root :: "string \<Rightarrow> string option \<Rightarrow> db \<Rightarrow> bool" where
  "has_active_root e excluded d =
     list_ex (\<lambda>r. mem_edict r = e \<and> mem_dag_node r = None \<and> mem_status r \<notin> {TCompleted, TFailed, TCancelled} \<and>
                  excluded \<noteq> Some (mem_id r)) (db_memorials d)"

section \<open>Replays\<close>

definition resolve_replay ::
  "(string \<Rightarrow> string) \<Rightarrow> schedule_run_row \<Rightarrow> string \<Rightarrow> string \<Rightarrow> instant \<Rightarrow> instant option \<Rightarrow> string option \<Rightarrow> edict_schedule \<Rightarrow>
   string \<Rightarrow> int \<Rightarrow> db \<Rightarrow> prepared_fire result" where
  "resolve_replay sha row j e t next_run initial s fingerprint max_attempts d =
     (let conflict = ScheduledFireConflict ''stored fire conflicts with durable envelope'';
          fire = (\<lambda>m a. \<lparr>pf_fire = fire_identity sha ''fire'' j t, pf_job = j, pf_edict = e, pf_scheduled = t, pf_next = next_run,
                    pf_status = sr_status row, pf_memorial = m, pf_attempt = a, pf_run = fire_identity sha ''schedule-run'' j t,
                    pf_deduplicated = True\<rparr>)
      in if sr_source row \<noteq> j \<or> sr_kind row \<noteq> schedule_value (es_type s) \<or> sr_edict row \<noteq> Some e \<or> sr_started row \<noteq> t \<or>
            sr_status row \<notin> {''prepared'', ''skipped''} \<or> sr_note row \<noteq> Some (Note fingerprint)
         then Inl conflict
         else if sr_status row = ''skipped'' then Inr (fire None None)
         else and_then (expected_memorial_id sha j t initial s) (\<lambda>m.
           case find (\<lambda>a. at_id a = fire_identity sha ''attempt'' j t \<and> at_memorial a = m \<and> at_no a = 1) (db_attempts d) of
             None \<Rightarrow> Inl conflict
           | Some a \<Rightarrow> if at_max a \<noteq> max_attempts then Inl conflict else Inr (fire (Some m) (Some (at_id a)))))"

definition replay_fire ::
  "(string \<Rightarrow> string) \<Rightarrow> router \<Rightarrow> job_row \<Rightarrow> edict_schedule \<Rightarrow> instant \<Rightarrow> instant option \<Rightarrow> string option \<Rightarrow> int \<Rightarrow> instant \<Rightarrow>
   schedule_run_row \<Rightarrow> db \<Rightarrow> (prepared_fire \<times> db) result" where
  "replay_fire sha ro job s t next_run initial max_attempts now row d =
     and_then (resolve_replay sha row (jb_id job) (jb_edict job) t next_run initial s
        (fire_fingerprint sha job s t next_run initial (sr_status row) max_attempts) max_attempts d) (\<lambda>f.
       case pf_memorial f of
         None \<Rightarrow> Inr (f, d)
       | Some m \<Rightarrow> and_then (assign_current sha ro m (Some t) now d) (\<lambda>(_, d'). Inr (f, d')))"

section \<open>Preparing a fire\<close>

definition terminal_schedule :: "edict_schedule \<Rightarrow> bool" where
  "terminal_schedule s = (es_type s \<in> {SchedImmediate, SchedOnce})"

text \<open>The root, its assignment and its first attempt.\<close>

definition prepare_run ::
  "(string \<Rightarrow> string) \<Rightarrow> router \<Rightarrow> (string \<Rightarrow> unit result) \<Rightarrow> job_row \<Rightarrow> edict_schedule \<Rightarrow> string \<Rightarrow> instant \<Rightarrow> string option \<Rightarrow> int \<Rightarrow>
   instant \<Rightarrow> db \<Rightarrow> ((string \<times> string) \<times> db) result" where
  "prepare_run sha ro hook job s goal t initial max_attempts now d =
     and_then (prepare_memorial sha (jb_id job) (jb_edict job) goal t initial s d) (\<lambda>(m, d1).
     and_then (assign_current sha ro m (Some t) now d1) (\<lambda>(_, d2).
     and_then (hook ''after_memorial'') (\<lambda>_.
     and_then (enqueue_initial sha now [] m t max_attempts (Some (fire_identity sha ''attempt'' (jb_id job) t)) d2) (\<lambda>(a, d3).
     and_then (hook ''after_attempt'') (\<lambda>_. Inr ((m, at_id a), d3))))))"

definition fire_row :: "(string \<Rightarrow> string) \<Rightarrow> job_row \<Rightarrow> instant \<Rightarrow> string \<Rightarrow> string \<Rightarrow> schedule_run_row" where
  "fire_row sha job t status fingerprint =
     \<lparr>sr_id = fire_identity sha ''schedule-run'' (jb_id job) t, sr_source = jb_id job, sr_kind = schedule_value (jb_type job),
      sr_status = status, sr_edict = Some (jb_edict job), sr_note = Some (Note fingerprint), sr_started = t, sr_finished = None\<rparr>"

definition check_initial ::
  "(string \<Rightarrow> string) \<Rightarrow> job_row \<Rightarrow> string \<Rightarrow> string option \<Rightarrow> db \<Rightarrow> unit result" where
  "check_initial sha job goal initial d =
     (case initial of
        None \<Rightarrow> Inr ()
      | Some m \<Rightarrow>
          if list_ex (\<lambda>r. sr_source r = jb_id job) (db_schedule_runs d)
          then Inl (ScheduledFireConflict ''initial Memorial is allowed only for the job's first fire'')
          else validate_initial_memorial sha (jb_id job) (jb_edict job) m goal d)"

definition new_fire ::
  "(string \<Rightarrow> string) \<Rightarrow> router \<Rightarrow> (string \<Rightarrow> unit result) \<Rightarrow> job_row \<Rightarrow> edict_schedule \<Rightarrow> string \<Rightarrow> instant \<Rightarrow> instant option \<Rightarrow>
   string option \<Rightarrow> int \<Rightarrow> instant \<Rightarrow> db \<Rightarrow> (prepared_fire \<times> db) result" where
  "new_fire sha ro hook job s goal t next_run initial max_attempts now d =
     and_then (raise_unless (jb_status job = JobActive \<and> jb_next job = Some t)
        (ScheduledFireConflict ''scheduler cursor is no longer current'')) (\<lambda>_.
     and_then (check_initial sha job goal initial d) (\<lambda>_.
       let skip = es_type s \<in> {SchedCron, SchedInterval} \<and> es_skip s \<and> has_active_root (jb_edict job) initial d;
           status = (if skip then ''skipped'' else ''prepared'')
       in and_then (if skip then Inr (None, d)
                    else and_then (prepare_run sha ro hook job s goal t initial max_attempts now d) (\<lambda>(x, d1). Inr (Some x, d1)))
            (\<lambda>(run, d1).
          and_then (insert_schedule_run
             (fire_row sha job t status (fire_fingerprint sha job s t next_run initial status max_attempts)) d1) (\<lambda>d2.
          and_then (hook ''after_schedule_run'') (\<lambda>_.
          and_then (hook ''before_cursor_cas'') (\<lambda>_.
            case compare_and_set_scheduler_cursor (jb_id job) t (if terminal_schedule s then None else next_run)
                   (if terminal_schedule s then JobCompleted else JobActive) d2 of
              (moved, d3) \<Rightarrow>
                if \<not> moved then Inl (ScheduledFireConflict ''scheduler cursor changed during preparation'')
                else Inr (\<lparr>pf_fire = fire_identity sha ''fire'' (jb_id job) t, pf_job = jb_id job, pf_edict = jb_edict job,
                           pf_scheduled = t, pf_next = (if terminal_schedule s then None else next_run), pf_status = status,
                           pf_memorial = map_option fst run, pf_attempt = map_option snd run,
                           pf_run = fire_identity sha ''schedule-run'' (jb_id job) t, pf_deduplicated = False\<rparr>, d3)))))))"

definition prepare_body ::
  "(string \<Rightarrow> string) \<Rightarrow> router \<Rightarrow> cron \<Rightarrow> (string \<Rightarrow> unit result) \<Rightarrow> string \<Rightarrow> instant \<Rightarrow> string option \<Rightarrow> instant option \<Rightarrow> instant \<Rightarrow>
   db \<Rightarrow> (prepared_fire \<times> db) result" where
  "prepare_body sha ro cron_next hook j t initial requested now d =
     (case load_scheduler_job j d of
        None \<Rightarrow> Inl (ScheduledFireConflict ''scheduler job does not exist'')
      | Some job \<Rightarrow>
          (case row_by ed_id (jb_edict job) (db_edicts d) of
             None \<Rightarrow> Inl (ScheduledFireConflict ''scheduler edict does not exist'')
           | Some e \<Rightarrow>
               if ed_status e \<noteq> EdOpen \<or> ed_archived e then Inl (ScheduledFireConflict ''scheduler edict is no longer active'')
               else
                 (case (ed_schedule e, ed_retry_limit e) of
                    (Some s, Some limit) \<Rightarrow>
                      if es_type s \<noteq> jb_type job
                      then Inl (ScheduledFireConflict ''scheduler envelope conflicts with durable job'')
                      else and_then (next_cursor cron_next job s t requested) (\<lambda>next_run.
                        case row_by sr_id (fire_identity sha ''schedule-run'' j t) (db_schedule_runs d) of
                          Some row \<Rightarrow> replay_fire sha ro job s t next_run initial (limit + 1) now row d
                        | None \<Rightarrow> new_fire sha ro hook job s (ed_goal e) t next_run initial (limit + 1) now d)
                  | _ \<Rightarrow> Inl (ScheduledFireConflict ''scheduler envelope is invalid''))))"

definition prepare ::
  "(string \<Rightarrow> string) \<Rightarrow> router \<Rightarrow> cron \<Rightarrow> (string \<Rightarrow> unit result) \<Rightarrow> string \<Rightarrow> instant \<Rightarrow> string option \<Rightarrow> instant option \<Rightarrow> instant \<Rightarrow>
   db \<Rightarrow> prepared_fire result \<times> db" where
  "prepare sha ro cron_next hook j t initial requested now d =
     (if blank j then (Inl (ValueError ''job_id must be non-blank''), d)
      else atomically (\<lambda>d. except_integrity (ScheduledFireConflict ''scheduled fire identity conflict'')
             (prepare_body sha ro cron_next hook j t initial requested now d)) d)"

section \<open>Manual fires\<close>

definition manual_identity :: "(string \<Rightarrow> string) \<Rightarrow> string \<Rightarrow> string \<Rightarrow> string \<Rightarrow> string" where
  "manual_identity sha kind j key = kind @ ''-'' @ sha (utf8 (j @ [CHR 0x00] @ ''run-now'' @ [CHR 0x00] @ key))"

definition manual_json :: "string \<Rightarrow> string \<Rightarrow> string \<Rightarrow> int \<Rightarrow> json" where
  "manual_json j e key max_attempts =
     JObj [(''schema_version'', JInt 1), (''job_id'', JStr j), (''edict_id'', JStr e), (''idempotency_key'', JStr key),
           (''max_attempts'', JInt max_attempts)]"

definition manual_fire ::
  "(string \<Rightarrow> string) \<Rightarrow> string \<Rightarrow> string \<Rightarrow> string \<Rightarrow> instant \<Rightarrow> instant option \<Rightarrow> bool \<Rightarrow> prepared_fire" where
  "manual_fire sha j e key t next_run deduplicated =
     \<lparr>pf_fire = manual_identity sha ''fire'' j key, pf_job = j, pf_edict = e, pf_scheduled = t, pf_next = next_run,
      pf_status = ''prepared'', pf_memorial = Some (manual_identity sha ''memorial'' j key),
      pf_attempt = Some (manual_identity sha ''attempt'' j key), pf_run = manual_identity sha ''schedule-run'' j key,
      pf_deduplicated = deduplicated\<rparr>"

definition manual_replay ::
  "(string \<Rightarrow> string) \<Rightarrow> router \<Rightarrow> job_row \<Rightarrow> string \<Rightarrow> int \<Rightarrow> string \<Rightarrow> instant \<Rightarrow> schedule_run_row \<Rightarrow> db \<Rightarrow> (prepared_fire \<times> db) result" where
  "manual_replay sha ro job key max_attempts fingerprint now row d =
     (let conflict = ScheduledFireConflict ''stored manual fire conflicts with envelope'';
          m = manual_identity sha ''memorial'' (jb_id job) key
      in case sr_note row of
           Some (Envelope v) \<Rightarrow>
             (case find (\<lambda>a. at_id a = manual_identity sha ''attempt'' (jb_id job) key \<and> at_memorial a = m) (db_attempts d) of
                None \<Rightarrow> Inl conflict
              | Some a \<Rightarrow>
                  if sr_source row \<noteq> jb_id job \<or> sr_kind row \<noteq> ''run_now'' \<or> sr_edict row \<noteq> Some (jb_edict job) \<or>
                     me_fingerprint v \<noteq> fingerprint \<or> sr_started row \<noteq> me_scheduled v \<or> at_max a \<noteq> max_attempts
                  then Inl conflict
                  else and_then (assign_current sha ro m (Some (me_scheduled v)) now d) (\<lambda>(_, d').
                    Inr (manual_fire sha (jb_id job) (jb_edict job) key (me_scheduled v) (me_next v) True, d')))
         | _ \<Rightarrow> Inl conflict)"

definition manual_new ::
  "(string \<Rightarrow> string) \<Rightarrow> router \<Rightarrow> job_row \<Rightarrow> string \<Rightarrow> string \<Rightarrow> int \<Rightarrow> string \<Rightarrow> instant \<Rightarrow> instant \<Rightarrow> db \<Rightarrow> (prepared_fire \<times> db) result" where
  "manual_new sha ro job goal key max_attempts fingerprint t now d =
     (let m = manual_identity sha ''memorial'' (jb_id job) key
      in and_then (insert_memorial (submitted_memorial m (jb_edict job) goal None 1 None None t) d) (\<lambda>d1.
         and_then (assign_current sha ro m (Some t) now d1) (\<lambda>(_, d2).
         and_then (enqueue_initial sha now [] m t max_attempts (Some (manual_identity sha ''attempt'' (jb_id job) key)) d2) (\<lambda>(_, d3).
         and_then (insert_schedule_run
            \<lparr>sr_id = manual_identity sha ''schedule-run'' (jb_id job) key, sr_source = jb_id job, sr_kind = ''run_now'',
             sr_status = ''prepared'', sr_edict = Some (jb_edict job),
             sr_note = Some (Envelope \<lparr>me_fingerprint = fingerprint, me_scheduled = t, me_next = jb_next job\<rparr>), sr_started = t,
             sr_finished = None\<rparr> d3) (\<lambda>d4.
           Inr (manual_fire sha (jb_id job) (jb_edict job) key t (jb_next job) False, d4))))))"

definition prepare_manual_body ::
  "(string \<Rightarrow> string) \<Rightarrow> router \<Rightarrow> (string \<Rightarrow> unit result) \<Rightarrow> string \<Rightarrow> string \<Rightarrow> instant \<Rightarrow> instant \<Rightarrow> db \<Rightarrow> (prepared_fire \<times> db) result" where
  "prepare_manual_body sha ro hook j key t now d =
     (case load_scheduler_job j d of
        None \<Rightarrow> Inl (ScheduledFireConflict ''manual scheduler job is unavailable'')
      | Some job \<Rightarrow>
          if jb_status job \<notin> {JobActive, JobPaused} then Inl (ScheduledFireConflict ''manual scheduler job is unavailable'')
          else
            (case row_by ed_id (jb_edict job) (db_edicts d) of
               None \<Rightarrow> Inl (ScheduledFireConflict ''manual scheduler edict is unavailable'')
             | Some e \<Rightarrow>
                 (case ed_retry_limit e of
                    None \<Rightarrow> Inl (ScheduledFireConflict ''manual scheduler envelope is invalid'')
                  | Some limit \<Rightarrow>
                      if ed_status e \<noteq> EdOpen \<or> ed_archived e
                      then Inl (ScheduledFireConflict ''manual scheduler edict is no longer active'')
                      else and_then (hook ''after_manual_edict_validation'') (\<lambda>_.
                        let fingerprint = json_digest sha (manual_json j (jb_edict job) key (limit + 1))
                        in case row_by sr_id (manual_identity sha ''schedule-run'' j key) (db_schedule_runs d) of
                             Some row \<Rightarrow> manual_replay sha ro job key (limit + 1) fingerprint now row d
                           | None \<Rightarrow> manual_new sha ro job (ed_goal e) key (limit + 1) fingerprint t now d))))"

definition prepare_manual ::
  "(string \<Rightarrow> string) \<Rightarrow> router \<Rightarrow> (string \<Rightarrow> unit result) \<Rightarrow> string \<Rightarrow> string \<Rightarrow> instant \<Rightarrow> instant \<Rightarrow> db \<Rightarrow> prepared_fire result \<times> db" where
  "prepare_manual sha ro hook j key t now d =
     (if blank j \<or> blank key then (Inl (ValueError ''manual fire identity must be non-blank''), d)
      else atomically (\<lambda>d. except_integrity (ScheduledFireConflict ''manual fire identity conflict'')
             (prepare_manual_body sha ro hook j key t now d)) d)"

end
