(* ===== verification/Evolution_Safety.thy ===== *)
theory Evolution_Safety
  imports Challenger_Router Decision_Safety "HOL-Library.Sublist"
begin

text \<open>
  What the governance of evolution promises. A candidate moves only along the graph of the lifecycle, one version per
  write, with its identity unchanged, and code is promoted only under an approved decision about exactly that
  version. A run is assigned to a version once, and nothing that happens to the candidate later changes it.
\<close>

section \<open>The invariant\<close>

text \<open>A list of journal entries is a path of the graph.\<close>

fun path_from :: "lifecycle \<Rightarrow> lifecycle_entry list \<Rightarrow> bool" where
  "path_from l [] = True"
| "path_from l (e # es) = (le_from e = Some l \<and> le_to e \<in> set (legal_transitions l) \<and> path_from (le_to e) es)"

fun lifecycle_path :: "lifecycle_entry list \<Rightarrow> bool" where
  "lifecycle_path [] = False"
| "lifecycle_path (e # es) = (le_from e = None \<and> le_to e = LProposed \<and> path_from LProposed es)"

definition journal_of :: "db \<Rightarrow> string \<Rightarrow> lifecycle_entry list" where
  "journal_of d i = filter (\<lambda>e. le_candidate e = i) (db_lifecycle d)"

text \<open>A promotion of code is backed by the approval of that candidate at the version before.\<close>

definition promotion_backed :: "(string \<Rightarrow> string) \<Rightarrow> db \<Rightarrow> evolution_candidate \<Rightarrow> lifecycle_entry \<Rightarrow> bool" where
  "promotion_backed sha d c e =
     (\<exists>q rec g. le_decision e = Some q \<and> decision_get sha q d = Inr (Some rec) \<and>
        promotion_approved rec (c\<lparr>cd_version := le_version e - 1, cd_gate_version := g\<rparr>))"

definition candidate_ok :: "(string \<Rightarrow> string) \<Rightarrow> db \<Rightarrow> candidate_row \<Rightarrow> bool" where
  "candidate_ok sha d r =
     (let c = cr_candidate r; j = journal_of d (cd_id c)
      in cr_provenance_hash r = json_digest sha (provenance_json (cd_provenance c)) \<and> valid_candidate sha c \<and>
         lifecycle_path j \<and> le_to (last j) = cd_lifecycle c \<and> sorted_wrt (<) (map le_version j) \<and>
         (\<forall>e \<in> set j. le_version e \<le> cd_version c \<and> (cd_kind c = CCode \<and> le_to e = LPromoted \<longrightarrow> promotion_backed sha d c e)))"

definition candidates_ok :: "(string \<Rightarrow> string) \<Rightarrow> db \<Rightarrow> bool" where
  "candidates_ok sha d =
     (decisions_ok sha d \<and> distinct (map candidate_id (db_candidates d)) \<and>
      (\<forall>r \<in> set (db_candidates d). candidate_ok sha d r) \<and>
      le_candidate ` set (db_lifecycle d) \<subseteq> candidate_id ` set (db_candidates d))"

definition evolution_ok :: "(string \<Rightarrow> string) \<Rightarrow> db \<Rightarrow> bool" where
  "evolution_ok sha d =
     (candidates_ok sha d \<and> distinct (map ag_memorial (db_assignments d)) \<and>
      (\<forall>a \<in> set (db_assignments d). \<exists>x. decode_assignment sha a d = Inr x))"

lemma candidates_okD:
  assumes "candidates_ok sha d"
  shows "decisions_ok sha d" "distinct (map candidate_id (db_candidates d))"
    "r \<in> set (db_candidates d) \<Longrightarrow> candidate_ok sha d r"
    "e \<in> set (db_lifecycle d) \<Longrightarrow> le_candidate e \<in> candidate_id ` set (db_candidates d)"
  using assms by (auto simp: candidates_ok_def)

lemma evolution_okD:
  assumes "evolution_ok sha d"
  shows "candidates_ok sha d" "distinct (map ag_memorial (db_assignments d))"
    "a \<in> set (db_assignments d) \<Longrightarrow> \<exists>x. decode_assignment sha a d = Inr x"
  using assms by (auto simp: evolution_ok_def)

lemma decode_candidate_ok: "candidate_ok sha d r \<Longrightarrow> decode_candidate sha r = Inr (cr_candidate r)"
  by (simp add: candidate_ok_def decode_candidate_def Let_def)

lemma get_candidate_eq:
  assumes "candidates_ok sha d"
  shows "get_candidate sha i d = Inr (map_option cr_candidate (row_by candidate_id i (db_candidates d)))"
  using candidates_okD(3) [OF assms] decode_candidate_ok
  by (auto simp: get_candidate_def split: option.split dest!: row_by_SomeD)

section \<open>What a write keeps of a candidate\<close>

definition core_kept :: "evolution_candidate \<Rightarrow> evolution_candidate \<Rightarrow> bool" where
  "core_kept c c' =
     (cd_provenance c' = cd_provenance c \<and> cd_id c' = cd_id c \<and> cd_kind c' = cd_kind c \<and> cd_subject c' = cd_subject c \<and>
      cd_base c' = cd_base c \<and> cd_candidate c' = cd_candidate c \<and> cd_diff c' = cd_diff c \<and> cd_contract c' = cd_contract c \<and>
      cd_contract_hash c' = cd_contract_hash c \<and> cd_rollback c' = cd_rollback c \<and> cd_created c' = cd_created c \<and>
      prefix (cd_evidence c) (cd_evidence c') \<and> cd_gate_version c \<le> cd_gate_version c' \<and> cd_updated c \<le> cd_updated c')"

lemma core_kept_refl [simp]: "core_kept c c"
  by (simp add: core_kept_def)

lemma core_kept_trans: "core_kept c c' \<Longrightarrow> core_kept c' c'' \<Longrightarrow> core_kept c c''"
  by (auto simp: core_kept_def)

lemma immutable_core_kept: "require_immutable_core c c' = Inr u \<Longrightarrow> core_kept c c'"
  by (auto simp: require_immutable_core_def core_kept_def split: if_split_asm) (metis take_is_prefix)

lemma saved_row_sel:
  assumes "core_kept (cr_candidate r) c"
  shows "cr_candidate (saved_row c r) = c" "cr_provenance_hash (saved_row c r) = cr_provenance_hash r"
  using assms by (auto simp: saved_row_def core_kept_def)

lemma saved_row_id [simp]: "candidate_id (saved_row c r) = candidate_id r"
  by (simp add: saved_row_def candidate_id_def)

section \<open>The statements of a save\<close>

lemma update_candidates_Inr:
  "update_candidates p f d = Inr (n, d') \<Longrightarrow>
     n = count_rows p (db_candidates d) \<and> d' = d\<lparr>db_candidates := update_rows p f (db_candidates d)\<rparr>"
  by (auto simp: update_candidates_def split: if_split_asm)

lemma insert_lifecycle_Inr:
  "insert_lifecycle e d = Inr d' \<Longrightarrow> d' = d\<lparr>db_lifecycle := db_lifecycle d @ [e]\<rparr> \<and> le_candidate e \<in> candidate_id ` set (db_candidates d)"
  by (auto simp: insert_lifecycle_def list_ex_iff image_iff split: if_split_asm) metis

text \<open>The state after a save: one row replaced, and an entry of the journal when the lifecycle changed.\<close>

definition saved_db :: "(string \<Rightarrow> string) \<Rightarrow> candidate_row \<Rightarrow> evolution_candidate \<Rightarrow> string option \<Rightarrow> db \<Rightarrow> db" where
  "saved_db sha r c decision d =
     d\<lparr>db_candidates := update_rows (\<lambda>x. x = r) (saved_row c) (db_candidates d),
       db_lifecycle := db_lifecycle d @
         (if cd_lifecycle c = cd_lifecycle (cr_candidate r) then []
          else [lifecycle_row sha c (Some (cd_lifecycle (cr_candidate r))) decision])\<rparr>"

lemma save_candidate_Inr:
  assumes ok: "candidates_ok sha d" and s: "save_candidate sha c v decision d = Inr (x, d')"
  shows "\<exists>r. r \<in> set (db_candidates d) \<and> candidate_id r = cd_id c \<and> cd_version (cr_candidate r) = v \<and> cd_version c = v \<and>
    core_kept (cr_candidate r) c \<and> require_legal_change sha (cr_candidate r) c decision d = Inr () \<and>
    d' = saved_db sha r (c\<lparr>cd_version := v + 1\<rparr>) decision d \<and> x = c\<lparr>cd_version := v + 1\<rparr> \<and> valid_candidate sha x"
proof -
  let ?c = "c\<lparr>cd_version := v + 1\<rparr>"
  let ?p = "\<lambda>r. candidate_id r = cd_id c \<and> cd_version (cr_candidate r) = v"
  obtain r where row: "row_by candidate_id (cd_id c) (db_candidates d) = Some r"
    using s by (cases "row_by candidate_id (cd_id c) (db_candidates d)") (auto simp: save_candidate_def get_candidate_eq [OF ok] Let_def)
  have r: "r \<in> set (db_candidates d)" "candidate_id r = cd_id c" using row_by_SomeD [OF row] by auto
  obtain n d1 where v: "cd_version (cr_candidate r) = v" "cd_version c = v" and core: "require_immutable_core (cr_candidate r) c = Inr ()"
    and legal: "require_legal_change sha (cr_candidate r) c decision d = Inr ()"
    and u: "update_candidates ?p (saved_row ?c) d = Inr (n, d1)"
    and j: "(if cd_lifecycle c = cd_lifecycle (cr_candidate r) then Inr d1
             else except_integrity (EvolutionRepositoryConflict ''candidate lifecycle journal conflict'')
               (append_lifecycle_journal sha ?c (Some (cd_lifecycle (cr_candidate r))) decision d1)) = Inr d'"
    and g: "get_candidate sha (cd_id c) d' = Inr (Some x)"
    using s row by (auto simp: save_candidate_def get_candidate_eq [OF ok] Let_def split: option.split_asm)
  have ck: "core_kept (cr_candidate r) c" by (rule immutable_core_kept [OF core])
  then have ck': "core_kept (cr_candidate r) ?c" by (simp add: core_kept_def)
  have one: "?p y \<longleftrightarrow> y = r" if "y \<in> set (db_candidates d)" for y
    using row_by_unique [OF candidates_okD(2) [OF ok] that, of "cd_id c"] row r v by auto
  have upd: "update_rows ?p (saved_row ?c) (db_candidates d) = update_rows (\<lambda>y. y = r) (saved_row ?c) (db_candidates d)"
    using one by (auto simp: update_rows_def)
  have d1: "d1 = d\<lparr>db_candidates := update_rows (\<lambda>y. y = r) (saved_row ?c) (db_candidates d)\<rparr>"
    using update_candidates_Inr [OF u] by (simp add: upd)
  have d': "d' = saved_db sha r ?c decision d"
  proof (cases "cd_lifecycle c = cd_lifecycle (cr_candidate r)")
    case True
    then show ?thesis using j by (auto simp: saved_db_def d1)
  next
    case False
    then have "insert_lifecycle (lifecycle_row sha ?c (Some (cd_lifecycle (cr_candidate r))) decision) d1 = Inr d'"
      using j by (simp add: append_lifecycle_journal_def except_integrity_Inr)
    from insert_lifecycle_Inr [OF this] False show ?thesis by (simp add: saved_db_def d1)
  qed
  have "row_by candidate_id (cd_id c) (db_candidates d') = Some (saved_row ?c r)"
    unfolding d' saved_db_def using row by (simp add: row_by_update_rows)
  then have "decode_candidate sha (saved_row ?c r) = Inr x" using g by (simp add: get_candidate_def)
  then have "x = ?c" "valid_candidate sha x" using saved_row_sel(1) [OF ck'] by (auto simp: decode_candidate_def split: if_split_asm)
  then show ?thesis using r v ck legal d' by blast
qed

section \<open>Candidates only evolve\<close>

definition candidates_evolve :: "db \<Rightarrow> db \<Rightarrow> bool" where
  "candidates_evolve d d' =
     ((\<forall>r \<in> set (db_candidates d). \<exists>r' \<in> set (db_candidates d').
         core_kept (cr_candidate r) (cr_candidate r') \<and> cd_version (cr_candidate r) \<le> cd_version (cr_candidate r')) \<and>
      (\<forall>i. prefix (journal_of d i) (journal_of d' i)))"

lemma candidates_evolve_refl: "candidates_evolve d d"
  unfolding candidates_evolve_def using core_kept_refl order_refl prefix_order.refl by blast

lemma candidates_evolve_trans: "candidates_evolve d d' \<Longrightarrow> candidates_evolve d' d'' \<Longrightarrow> candidates_evolve d d''"
  unfolding candidates_evolve_def by (meson core_kept_trans order_trans prefix_order.trans)

lemma candidates_evolve_same:
  "db_candidates d' = db_candidates d \<Longrightarrow> db_lifecycle d' = db_lifecycle d \<Longrightarrow> candidates_evolve d d'"
  using candidates_evolve_refl [of d] by (simp add: candidates_evolve_def journal_of_def)

lemma candidate_kept:
  assumes "candidates_ok sha d" "candidates_ok sha d'" "candidates_evolve d d'" "get_candidate sha i d = Inr (Some c)"
  shows "\<exists>c'. get_candidate sha i d' = Inr (Some c') \<and> core_kept c c' \<and> cd_version c \<le> cd_version c'"
proof -
  obtain r where r: "r \<in> set (db_candidates d)" "candidate_id r = i" "cr_candidate r = c"
    using assms(4) by (auto simp: get_candidate_eq [OF assms(1)] dest!: row_by_SomeD)
  obtain r' where r': "r' \<in> set (db_candidates d')" "core_kept c (cr_candidate r')" "cd_version c \<le> cd_version (cr_candidate r')"
    using assms(3) r(1,3) by (auto simp: candidates_evolve_def)
  have "candidate_id r' = i" using r r' by (simp add: candidate_id_def core_kept_def)
  then show ?thesis using row_by_unique [OF candidates_okD(2) [OF assms(2)] r'(1)] r'(2,3) by (simp add: get_candidate_eq [OF assms(2)])
qed

text \<open>What was attributed to a candidate stays attributed to it.\<close>

lemma decode_kept:
  assumes "candidates_ok sha d" "candidates_ok sha d'" "candidates_evolve d d'" "decode_assignment sha a d = Inr x"
  shows "decode_assignment sha a d' = Inr x"
proof (cases "ag_assignment a")
  case (Legacy l)
  then show ?thesis using assms(4) by (simp add: decode_assignment_def split: if_split_asm)
next
  case (Governed g)
  have dg: "decode_governed sha a g d = Inr x" using assms(4) Governed by (simp add: decode_assignment_def split: if_split_asm)
  obtain c where c: "get_candidate sha (asn_candidate g) d = Inr (Some c)"
    using dg by (auto simp: decode_governed_def split: if_split_asm option.split_asm)
  obtain c' where c': "get_candidate sha (asn_candidate g) d' = Inr (Some c')" "core_kept c c'"
    using candidate_kept [OF assms(1-3) c] by blast
  have "overlay_of g c' = overlay_of g c" using c'(2) by (simp add: overlay_of_def core_kept_def)
  then have "decode_governed sha a g d' = decode_governed sha a g d"
    using c c' by (simp add: decode_governed_def core_kept_def)
  then show ?thesis using assms(4) Governed dg by (simp add: decode_assignment_def split: if_split_asm)
qed

section \<open>Paths\<close>

lemma path_from_snoc:
  "path_from l (es @ [e]) \<longleftrightarrow>
     path_from l es \<and> le_from e = Some (if es = [] then l else le_to (last es)) \<and>
     le_to e \<in> set (legal_transitions (if es = [] then l else le_to (last es)))"
  by (induction es arbitrary: l) auto

lemma lifecycle_path_snoc:
  "lifecycle_path j \<Longrightarrow> le_from e = Some (le_to (last j)) \<Longrightarrow> le_to e \<in> set (legal_transitions (le_to (last j))) \<Longrightarrow> lifecycle_path (j @ [e])"
  by (cases j) (auto simp: path_from_snoc split: if_split_asm)

lemma promotion_backed_kept:
  assumes "promotion_backed sha d c e" "core_kept c c'" "\<And>q rec. decision_get sha q d = Inr (Some rec) \<Longrightarrow>
     dq_status (rec_request rec) = Resolved \<Longrightarrow> decision_get sha q d' = Inr (Some rec)"
  shows "promotion_backed sha d' c' e"
proof -
  obtain q rec g where q: "le_decision e = Some q" "decision_get sha q d = Inr (Some rec)"
    "promotion_approved rec (c\<lparr>cd_version := le_version e - 1, cd_gate_version := g\<rparr>)" using assms(1) by (auto simp: promotion_backed_def)
  have st: "dq_status (rec_request rec) = Resolved" using q(3) by (simp add: promotion_approved_def)
  have "promotion_approved rec (c'\<lparr>cd_version := le_version e - 1, cd_gate_version := g\<rparr>)"
    using q(3) assms(2) by (simp add: promotion_approved_def core_kept_def cong: option.case_cong)
  then show ?thesis unfolding promotion_backed_def using q(1) assms(3) [OF q(2) st] by blast
qed

section \<open>Writes of candidates keep the invariant\<close>

lemma same_decisions_read: "same_decisions d d' \<Longrightarrow> decisions_ok sha d \<Longrightarrow> decision_get sha q d' = decision_get sha q d"
  using same_decisions_keeps [of sha d d'] rec_of_same [of d' d]
  by (simp add: decision_get_eq same_decisions_def)

lemma journal_saved:
  "journal_of (saved_db sha r c q d) i = journal_of d i @
     (if cd_lifecycle c = cd_lifecycle (cr_candidate r) \<or> cd_id c \<noteq> i then []
      else [lifecycle_row sha c (Some (cd_lifecycle (cr_candidate r))) q])"
  by (simp add: journal_of_def saved_db_def lifecycle_row_def)

text \<open>A row that is not written and whose journal does not grow stays as it is.\<close>

lemma candidate_ok_frame:
  assumes "candidate_ok sha d r" "journal_of d' (candidate_id r) = journal_of d (candidate_id r)"
    "\<And>q rec. decision_get sha q d = Inr (Some rec) \<Longrightarrow> dq_status (rec_request rec) = Resolved \<Longrightarrow> decision_get sha q d' = Inr (Some rec)"
  shows "candidate_ok sha d' r"
  using assms promotion_backed_kept [OF _ core_kept_refl assms(3)]
  by (auto simp: candidate_ok_def candidate_id_def Let_def)

lemma legal_changeD:
  assumes "require_legal_change sha c c' q d = Inr ()" "cd_lifecycle c' \<noteq> cd_lifecycle c"
  shows "cd_lifecycle c' \<in> set (legal_transitions (cd_lifecycle c))"
    "cd_kind c' = CCode \<Longrightarrow> cd_lifecycle c' = LPromoted \<Longrightarrow>
       \<exists>i rec. q = Some i \<and> decision_get sha i d = Inr (Some rec) \<and> promotion_approved rec c"
proof -
  show "cd_lifecycle c' \<in> set (legal_transitions (cd_lifecycle c))"
    using assms by (auto simp: require_legal_change_def validate_lifecycle_transition_def raise_unless_def split: if_split_asm)
  assume "cd_kind c' = CCode" "cd_lifecycle c' = LPromoted"
  then have "require_code_promotion_decision sha c q d = Inr ()"
    using assms by (auto simp: require_legal_change_def split: sum.split_asm)
  then have h: "require_high_risk_decision sha c q d = Inr ()" by (simp add: require_code_promotion_decision_def split: if_split_asm)
  then obtain i where i: "q = Some i" "\<not> blank i" by (auto simp: require_high_risk_decision_def Let_def split: option.split_asm if_split_asm)
  obtain x where x: "decision_get sha i d = Inr x"
    using h i by (auto simp: require_high_risk_decision_def Let_def split: sum.split_asm exn.split_asm)
  then obtain rec where "x = Some rec" "promotion_approved rec c"
    using h i by (auto simp: require_high_risk_decision_def Let_def split: option.split_asm)
  then show "\<exists>i rec. q = Some i \<and> decision_get sha i d = Inr (Some rec) \<and> promotion_approved rec c" using i x by blast
qed

lemma saved_candidate_ok:
  assumes ok: "candidate_ok sha d r" and ck: "core_kept (cr_candidate r) c" and v: "cd_version (cr_candidate r) = v" "cd_version c = v"
    and legal: "require_legal_change sha (cr_candidate r) c q d = Inr ()" and val: "valid_candidate sha (c\<lparr>cd_version := v + 1\<rparr>)"
    and dec: "\<And>i. decision_get sha i d' = decision_get sha i d"
    and d': "d' = saved_db sha r (c\<lparr>cd_version := v + 1\<rparr>) q d"
  shows "candidate_ok sha d' (saved_row (c\<lparr>cd_version := v + 1\<rparr>) r)"
proof -
  let ?c = "c\<lparr>cd_version := v + 1\<rparr>" and ?o = "cr_candidate r"
  let ?e = "lifecycle_row sha ?c (Some (cd_lifecycle ?o)) q"
  have ck': "core_kept ?o ?c" using ck by (simp add: core_kept_def)
  have id: "cd_id c = cd_id ?o" "cd_kind c = cd_kind ?o" "cd_provenance c = cd_provenance ?o" using ck by (simp_all add: core_kept_def)
  define j where "j = journal_of d (cd_id ?o)"
  have oj: "lifecycle_path j" "le_to (last j) = cd_lifecycle ?o" "sorted_wrt (<) (map le_version j)"
    "\<And>e. e \<in> set j \<Longrightarrow> le_version e \<le> v" "\<And>e. e \<in> set j \<Longrightarrow> cd_kind ?o = CCode \<Longrightarrow> le_to e = LPromoted \<Longrightarrow> promotion_backed sha d ?o e"
    and hash: "cr_provenance_hash r = json_digest sha (provenance_json (cd_provenance ?o))"
    using ok v by (auto simp: candidate_ok_def Let_def j_def)
  have old: "promotion_backed sha d' ?c e" if "e \<in> set j" "cd_kind ?o = CCode" "le_to e = LPromoted" for e
    by (rule promotion_backed_kept [OF oj(5) [OF that] ck']) (simp add: dec)
  show ?thesis
  proof (cases "cd_lifecycle c = cd_lifecycle ?o")
    case True
    then have "journal_of d' (cd_id c) = j" by (simp add: d' journal_saved j_def id)
    then show ?thesis using oj old hash val True id unfolding candidate_ok_def Let_def saved_row_sel [OF ck'] by fastforce
  next
    case False
    then have j': "journal_of d' (cd_id c) = j @ [?e]" by (simp add: d' journal_saved j_def id)
    have e: "le_from ?e = Some (le_to (last j))" "le_to ?e = cd_lifecycle c" "le_version ?e = v + 1" "le_decision ?e = q"
      by (simp_all add: lifecycle_row_def oj(2))
    have "lifecycle_path (j @ [?e])" using legal_changeD(1) [OF legal False] e oj(1,2) by (intro lifecycle_path_snoc) auto
    moreover have "sorted_wrt (<) (map le_version (j @ [?e]))" using oj(3,4) e(3) by (auto simp: sorted_wrt_append)
    moreover have "promotion_backed sha d' ?c ?e" if new: "cd_kind ?o = CCode" "cd_lifecycle c = LPromoted"
    proof -
      obtain i rec where "q = Some i" "decision_get sha i d = Inr (Some rec)" "promotion_approved rec ?o"
        using legal_changeD(2) [OF legal False] new id(2) by auto
      moreover from this have "promotion_approved rec (?c\<lparr>cd_version := v, cd_gate_version := cd_gate_version ?o\<rparr>)"
        using ck v by (simp add: promotion_approved_def core_kept_def cong: option.case_cong)
      moreover have "le_version ?e - 1 = v" by (simp add: e(3))
      ultimately show ?thesis unfolding promotion_backed_def e(4) dec by metis
    qed
    ultimately show ?thesis using e(2,3) oj(4) old hash val id unfolding candidate_ok_def Let_def saved_row_sel [OF ck']
      by (auto simp: j' [unfolded id(1)]) force
  qed
qed

lemma save_candidate_keeps:
  assumes ok: "candidates_ok sha d" and s: "save_candidate sha c v q d = Inr (x, d')"
  shows "candidates_ok sha d' \<and> candidates_evolve d d' \<and> db_assignments d' = db_assignments d"
proof -
  let ?c = "c\<lparr>cd_version := v + 1\<rparr>"
  obtain r where r: "r \<in> set (db_candidates d)" "candidate_id r = cd_id c" and v: "cd_version (cr_candidate r) = v" "cd_version c = v"
    and ck: "core_kept (cr_candidate r) c" and legal: "require_legal_change sha (cr_candidate r) c q d = Inr ()"
    and d': "d' = saved_db sha r ?c q d" and val: "valid_candidate sha ?c"
    using save_candidate_Inr [OF ok s] by blast
  have ck': "core_kept (cr_candidate r) ?c" using ck by (simp add: core_kept_def)
  have same: "same_decisions d d'" by (simp add: d' saved_db_def same_decisions_def)
  have dec: "decision_get sha i d' = decision_get sha i d" for i by (rule same_decisions_read [OF same candidates_okD(1) [OF ok]])
  have rows: "db_candidates d' = update_rows (\<lambda>y. y = r) (saved_row ?c) (db_candidates d)" by (simp add: d' saved_db_def)
  have new: "candidate_ok sha d' (saved_row ?c r)" by (rule saved_candidate_ok [OF candidates_okD(3) [OF ok r(1)] ck v legal val dec d'])
  have old: "candidate_ok sha d' y" if "y \<in> set (db_candidates d)" "y \<noteq> r" for y
  proof -
    have "candidate_id y \<noteq> cd_id c" using row_by_unique [OF candidates_okD(2) [OF ok]] that r by (metis option.inject)
    then have "journal_of d' (candidate_id y) = journal_of d (candidate_id y)" by (simp add: d' journal_saved)
    then show ?thesis using candidate_ok_frame [OF candidates_okD(3) [OF ok that(1)]] dec by simp
  qed
  have ids: "map candidate_id (db_candidates d') = map candidate_id (db_candidates d)" unfolding rows by (simp add: update_rows_def)
  then have ids': "candidate_id ` set (db_candidates d') = candidate_id ` set (db_candidates d)" unfolding set_map [symmetric] by simp
  have "le_candidate ` set (db_lifecycle d') \<subseteq> candidate_id ` set (db_candidates d)"
    using candidates_okD(4) [OF ok] imageI [OF r(1), of candidate_id] by (auto simp: d' saved_db_def lifecycle_row_def r(2))
  then have "candidates_ok sha d'"
    using same_decisions_keeps [OF candidates_okD(1) [OF ok] same] candidates_okD(2) [OF ok] new old ids
    unfolding candidates_ok_def ids' ids by (simp add: rows set_update_rows ball_Un)
  moreover have "candidates_evolve d d'"
    unfolding candidates_evolve_def
  proof (intro conjI ballI allI)
    fix y assume "y \<in> set (db_candidates d)"
    then show "\<exists>r'\<in>set (db_candidates d'). core_kept (cr_candidate y) (cr_candidate r') \<and> cd_version (cr_candidate y) \<le> cd_version (cr_candidate r')"
      using saved_row_sel(1) [OF ck'] ck' v unfolding rows set_update_rows by (intro bexI [of _ "if y = r then saved_row ?c r else y"]) auto
  qed (simp add: d' journal_saved)
  ultimately show ?thesis by (simp add: d' saved_db_def)
qed

lemma insert_candidate_Inr:
  assumes "insert_candidate sha c d = Inr (x, d')"
  shows "cd_version c = 1 \<and> cd_lifecycle c = LProposed \<and> cd_id c \<notin> candidate_id ` set (db_candidates d) \<and>
    d' = d\<lparr>db_candidates := db_candidates d @ [\<lparr>cr_candidate = c, cr_provenance_hash = json_digest sha (provenance_json (cd_provenance c))\<rparr>],
           db_lifecycle := db_lifecycle d @ [lifecycle_row sha c None None]\<rparr> \<and> x = c \<and> valid_candidate sha c"
proof -
  let ?r = "\<lparr>cr_candidate = c, cr_provenance_hash = json_digest sha (provenance_json (cd_provenance c))\<rparr>"
  obtain d1 where v: "cd_version c = 1" "cd_lifecycle c = LProposed" and i: "insert_candidate_row ?r d = Inr d1"
    and j: "append_lifecycle_journal sha c None None d1 = Inr d'" and g: "get_candidate sha (cd_id c) d' = Inr (Some x)"
    using assms by (auto simp: insert_candidate_def split: option.split_asm)
  have new: "cd_id c \<notin> candidate_id ` set (db_candidates d)" and d1: "d1 = d\<lparr>db_candidates := db_candidates d @ [?r]\<rparr>"
    using i by (auto simp: insert_candidate_row_def list_ex_iff candidate_id_def split: if_split_asm)
  have d': "d' = d1\<lparr>db_lifecycle := db_lifecycle d @ [lifecycle_row sha c None None]\<rparr>"
    using insert_lifecycle_Inr [OF j [unfolded append_lifecycle_journal_def]] by (simp add: d1)
  have "row_by candidate_id (cd_id c) (db_candidates d') = Some ?r"
    using new by (simp add: d' d1 row_by_append row_by_None_iff [THEN iffD2] candidate_id_def)
  then have "decode_candidate sha ?r = Inr x" using g by (simp add: get_candidate_def)
  then have "x = c" "valid_candidate sha c" by (auto simp: decode_candidate_def split: if_split_asm)
  then show ?thesis using v new by (simp add: d' d1)
qed

lemma insert_candidate_keeps:
  assumes ok: "candidates_ok sha d" and i: "insert_candidate sha c d = Inr (x, d')"
  shows "candidates_ok sha d' \<and> candidates_evolve d d' \<and> db_assignments d' = db_assignments d"
proof -
  let ?r = "\<lparr>cr_candidate = c, cr_provenance_hash = json_digest sha (provenance_json (cd_provenance c))\<rparr>"
  note I = insert_candidate_Inr [OF i]
  have d': "d' = d\<lparr>db_candidates := db_candidates d @ [?r], db_lifecycle := db_lifecycle d @ [lifecycle_row sha c None None]\<rparr>"
    and new: "cd_id c \<notin> candidate_id ` set (db_candidates d)" and c: "cd_version c = 1" "cd_lifecycle c = LProposed" "valid_candidate sha c"
    using I by auto
  have same: "same_decisions d d'" by (simp add: d' same_decisions_def)
  note dec = same_decisions_read [OF same candidates_okD(1) [OF ok]]
  have j: "journal_of d' i = journal_of d i @ (if cd_id c = i then [lifecycle_row sha c None None] else [])" for i
    by (simp add: d' journal_of_def lifecycle_row_def)
  have "journal_of d (cd_id c) = []" using candidates_okD(4) [OF ok] new by (auto simp: journal_of_def filter_empty_conv) metis
  then have "candidate_ok sha d' ?r" using c by (simp add: candidate_ok_def Let_def j) (simp add: lifecycle_row_def)
  moreover have "candidate_ok sha d' r" if "r \<in> set (db_candidates d)" for r
  proof -
    have "cd_id c \<noteq> candidate_id r" using that new by auto
    then show ?thesis using candidate_ok_frame [OF candidates_okD(3) [OF ok that], of d'] dec by (simp add: j)
  qed
  ultimately have "candidates_ok sha d'"
    using same_decisions_keeps [OF candidates_okD(1) [OF ok] same] candidates_okD(2,4) [OF ok] new
    unfolding candidates_ok_def by (auto simp: d' candidate_id_def lifecycle_row_def)
  moreover have "candidates_evolve d d'" unfolding candidates_evolve_def
  proof (intro conjI ballI allI)
    fix r assume "r \<in> set (db_candidates d)"
    then show "\<exists>r'\<in>set (db_candidates d'). core_kept (cr_candidate r) (cr_candidate r') \<and> cd_version (cr_candidate r) \<le> cd_version (cr_candidate r')"
      by (intro bexI [of _ r]) (simp_all add: d')
  qed (simp add: j)
  ultimately show ?thesis by (simp add: d')
qed

section \<open>Assignments keep the invariant\<close>

lemma insert_assignment_row_Inr:
  "insert_assignment_row r d = Inr d' \<Longrightarrow>
     d' = d\<lparr>db_assignments := db_assignments d @ [r]\<rparr> \<and> ag_memorial r \<notin> ag_memorial ` set (db_assignments d)"
  by (auto simp: insert_assignment_row_def list_ex_iff split: if_split_asm)

text \<open>An insert returns what is stored for the memorial, and stores it when there was nothing.\<close>

lemma insert_once_Inr:
  assumes r: "ag_memorial row = assignment_memorial (fst w)" and i: "insert_once sha cls w row d = Inr (x, d')"
  shows "(\<exists>v. get_assignment sha (ag_memorial row) d' = Inr (Some (x, v))) \<and>
    (d' = d \<or> d' = d\<lparr>db_assignments := db_assignments d @ [row]\<rparr> \<and> ag_memorial row \<notin> ag_memorial ` set (db_assignments d))"
proof -
  let ?m = "ag_memorial row"
  obtain e where e: "get_assignment sha ?m d = Inr e" using i by (auto simp: insert_once_def r Let_def)
  show ?thesis
  proof (cases e)
    case (Some y)
    then have "x = fst y" "d' = d" using i e by (auto simp: insert_once_def r Let_def split: if_split_asm)
    then show ?thesis using e Some by (cases y) auto
  next
    case None
    show ?thesis
    proof (cases "insert_assignment_row row d")
      case (Inl err)
      then have "x = fst w" "d' = d" "get_assignment sha ?m d = Inr (Some w)"
        using i e None by (cases err; auto simp: insert_once_def r Let_def split: if_split_asm)+
      then show ?thesis by (cases w) auto
    next
      case (Inr d1)
      then obtain z where z: "get_assignment sha ?m d1 = Inr z" using i e None by (auto simp: insert_once_def r Let_def)
      then obtain y where "z = Some y" "x = fst y" "d' = d1"
        using i e None Inr by (cases z) (auto simp: insert_once_def r Let_def split: if_split_asm)
      with z have "get_assignment sha ?m d1 = Inr (Some y)" "x = fst y" "d' = d1" by auto
      then show ?thesis using insert_assignment_row_Inr [OF Inr] by (cases y) auto
    qed
  qed
qed

text \<open>Where nothing was stored, the insert returns what it was asked to store.\<close>

lemma fresh_insert:
  assumes r: "ag_memorial row = m" "assignment_memorial (fst w) = m \<and> ag_assignment row = fst w" and n: "get_assignment sha m d = Inr None"
    and i: "insert_once sha cls w row d = Inr (x, d')"
  shows "\<exists>v. get_assignment sha m d' = Inr (Some (fst w, v)) \<and> x = fst w"
proof -
  have rw: "ag_memorial row = assignment_memorial (fst w)" using r by simp
  obtain d1 where d1: "insert_assignment_row row d = Inr d1" "d' = d1"
  proof (cases "insert_assignment_row row d")
    case (Inl err)
    then have False using i n r by (cases err; auto simp: insert_once_def Let_def)
    then show ?thesis ..
  next
    case (Inr d1)
    then show ?thesis using that i n r by (auto simp: insert_once_def Let_def split: option.split_asm if_split_asm)
  qed
  have d': "d' = d\<lparr>db_assignments := db_assignments d @ [row]\<rparr>" and new: "m \<notin> ag_memorial ` set (db_assignments d)"
    using insert_assignment_row_Inr [OF d1(1)] r(1) d1(2) by auto
  have row: "row_by ag_memorial m (db_assignments d') = Some row" using new r(1) by (simp add: d' row_by_append row_by_None_iff [THEN iffD2])
  obtain v where v: "get_assignment sha m d' = Inr (Some (x, v))" using insert_once_Inr [OF rw i] r(1) by auto
  then have "decode_assignment sha row d' = Inr (x, v)" by (simp add: get_assignment_def row)
  then have "x = ag_assignment row"
    by (auto simp: decode_assignment_def decode_governed_def split: if_split_asm assignment.split_asm option.split_asm)
  then show ?thesis using v r(2) by auto
qed

text \<open>The assignment a run is given: the bucket of its memorial and the version the bucket selects.\<close>

definition routed :: "(string \<Rightarrow> string) \<Rightarrow> string \<Rightarrow> instant \<Rightarrow> evolution_candidate \<Rightarrow> routing_policy \<Rightarrow> int \<Rightarrow> run_assignment" where
  "routed sha m t c p bucket =
     \<lparr>asn_id = assignment_id sha m, asn_memorial = m, asn_candidate = cd_id c, asn_champion = cd_base c,
      asn_selected = (if 0 < rp_basis_points p \<and> bucket < rp_basis_points p then cd_candidate c else cd_base c),
      asn_routing_version = rp_version p, asn_bucket = bucket, asn_created = t\<rparr>"

lemma routed_memorial [simp]: "asn_memorial (routed sha m t c p b) = m" "asn_bucket (routed sha m t c p b) = b"
  by (simp_all add: routed_def)

lemma assign_governed_bucket:
  assumes "assign_governed sha ro m t c p d = Inr (x, d')"
  shows "\<exists>b. router_bucket ro m (rp_seed p) = Inr b \<and> 0 \<le> b \<and> b < 10000 \<and>
    insert_once sha (\<lambda>a. \<not> is_legacy a) (Governed (routed sha m t c p b), Some (overlay_of (routed sha m t c p b) c))
      (governed_row sha (routed sha m t c p b) (overlay_of (routed sha m t c p b) c)) d = Inr (x, d')"
proof -
  obtain b ch where b: "router_bucket ro m (rp_seed p) = Inr b" and ch: "selects_challenger b (rp_basis_points p) = Inr ch"
    using assms by (auto simp: assign_governed_def)
  have range: "0 \<le> b" "b < 10000" and ch': "ch = (0 < rp_basis_points p \<and> b < rp_basis_points p)"
    using ch by (auto simp: selects_challenger_def split: if_split_asm)
  have "insert_assignment sha (routed sha m t c p b) (overlay_of (routed sha m t c p b) c) d = Inr (x, d')"
    using assms b ch by (simp add: assign_governed_def Let_def routed_def ch')
  then show ?thesis using b range by (auto simp: insert_assignment_def split: if_split_asm)
qed

lemma assign_governed_Inr:
  assumes "assign_governed sha ro m t c p d = Inr (x, d')"
  shows "\<exists>g v. asn_memorial g = m \<and> insert_once sha (\<lambda>a. \<not> is_legacy a) (Governed g, Some v) (governed_row sha g v) d = Inr (x, d')"
  using assign_governed_bucket [OF assms] routed_memorial by metis

lemma assign_current_Inr:
  assumes "assign_current sha ro m created now d = Inr (x, d')"
  shows "(\<exists>v. get_assignment sha m d' = Inr (Some (x, v))) \<and>
    (d' = d \<or> (\<exists>row. d' = d\<lparr>db_assignments := db_assignments d @ [row]\<rparr> \<and> ag_memorial row = m \<and> m \<notin> ag_memorial ` set (db_assignments d)))"
proof -
  obtain e where e: "get_assignment sha m d = Inr e" using assms by (auto simp: assign_current_def split: if_split_asm)
  show ?thesis
  proof (cases e)
    case (Some y)
    then show ?thesis using assms e by (cases y) (auto simp: assign_current_def split: if_split_asm)
  next
    case None
    then obtain c where c: "get_routable_candidate sha d = Inr c" using assms e by (auto simp: assign_current_def split: if_split_asm)
    show ?thesis
    proof (cases c)
      case None
      let ?l = "\<lparr>lg_id = assignment_id sha m, lg_memorial = m, lg_created = (case created of None \<Rightarrow> now | Some t \<Rightarrow> t)\<rparr>"
      have "insert_once sha is_legacy (Legacy ?l, None) (legacy_row sha ?l) d = Inr (x, d')"
        using assms e \<open>e = None\<close> c None by (auto simp: assign_current_def assign_legacy_def insert_legacy_assignment_def Let_def split: if_split_asm)
      from insert_once_Inr [OF _ this] show ?thesis by (auto simp: assignment_memorial_def legacy_row_def)
    next
      case (Some y)
      then obtain p where "assign_governed sha ro m (case created of None \<Rightarrow> now | Some t \<Rightarrow> t) y p d = Inr (x, d')"
        using assms e \<open>e = None\<close> c by (auto simp: assign_current_def Let_def split: if_split_asm option.split_asm)
      from assign_governed_Inr [OF this] obtain g v where g: "asn_memorial g = m"
        "insert_once sha (\<lambda>a. \<not> is_legacy a) (Governed g, Some v) (governed_row sha g v) d = Inr (x, d')" by blast
      from insert_once_Inr [OF _ g(2)] g(1) show ?thesis by (auto simp: assignment_memorial_def governed_row_def)
    qed
  qed
qed

definition evolves_to :: "db \<Rightarrow> db \<Rightarrow> bool" where
  "evolves_to d d' =
     (candidates_evolve d d' \<and> (\<forall>a \<in> set (db_assignments d). ag_candidate a \<noteq> None \<longrightarrow> a \<in> set (db_assignments d')))"

lemma evolves_to_refl [simp]: "evolves_to d d"
  by (simp add: evolves_to_def candidates_evolve_refl)

lemma evolves_to_trans: "evolves_to d d' \<Longrightarrow> evolves_to d' d'' \<Longrightarrow> evolves_to d d''"
  unfolding evolves_to_def using candidates_evolve_trans by blast

text \<open>A write of candidates keeps every assignment readable.\<close>

lemma candidate_write_keeps:
  assumes ok: "evolution_ok sha d" and k: "candidates_ok sha d' \<and> candidates_evolve d d' \<and> db_assignments d' = db_assignments d"
  shows "evolution_ok sha d' \<and> evolves_to d d'"
  using ok k decode_kept [of sha d d'] unfolding evolution_ok_def evolves_to_def by auto

lemma get_candidate_same: "db_candidates d' = db_candidates d \<Longrightarrow> get_candidate sha i d' = get_candidate sha i d"
  by (simp add: get_candidate_def)

lemma decode_same: "db_candidates d' = db_candidates d \<Longrightarrow> decode_assignment sha a d' = decode_assignment sha a d"
  using get_candidate_same [of d' d sha]
  by (auto simp: decode_assignment_def decode_governed_def split: assignment.split)

lemma candidates_ok_same:
  assumes ok: "candidates_ok sha d" and same: "db_candidates d' = db_candidates d" "db_lifecycle d' = db_lifecycle d"
    and dec: "decisions_ok sha d'" "decisions_evolve d d'"
  shows "candidates_ok sha d'"
proof -
  have kept: "decision_get sha q d' = Inr (Some rec)" if g: "decision_get sha q d = Inr (Some rec)" and st: "dq_status (rec_request rec) = Resolved" for q rec
  proof -
    obtain r where r: "r \<in> set (db_decisions d)" "row_id r = q" "rec = rec_of d r" "record_ok sha rec" using decision_get_SomeD [OF g] by blast
    obtain r' where r': "r' \<in> set (db_decisions d')" "decision_moves r r'" using dec(2) r(1) by (auto simp: decisions_evolve_def)
    have "r' = r" using r'(2) st r(3) by (simp add: decision_moves_def rec_of_def)
    then have row: "row_by row_id q (db_decisions d') = Some r" using row_by_unique [OF decisions_okD(1) [OF dec(1)] r'(1)] r(2) by simp
    obtain v where v: "row_by dr_id q (db_resolutions d) = Some v" using r st by (auto simp: record_ok_def valid_decision_record_def rec_of_def)
    then have "v \<in> set (db_resolutions d')" "dr_id v = q" using dec(2) row_by_SomeD [OF v] by (auto simp: decisions_evolve_def)
    then have "row_by dr_id q (db_resolutions d') = Some v" using row_by_unique [OF decisions_okD(6) [OF dec(1)]] by blast
    then have "rec_of d' r = rec" using v r(2,3) by (simp add: rec_of_def)
    then show ?thesis by (simp add: decision_get_eq [OF dec(1)] row)
  qed
  have "candidate_ok sha d' r" if "r \<in> set (db_candidates d)" for r
    using candidate_ok_frame [OF candidates_okD(3) [OF ok that], of d'] kept same(2) by (simp add: journal_of_def)
  then show ?thesis using ok dec(1) by (simp add: candidates_ok_def same)
qed

lemma assign_current_keeps:
  assumes ok: "evolution_ok sha d" and a: "assign_current sha ro m created now d = Inr (x, d')"
  shows "evolution_ok sha d' \<and> evolves_to d d'"
proof -
  note I = assign_current_Inr [OF a]
  show ?thesis
  proof (cases "d' = d")
    case False
    then obtain row where d': "d' = d\<lparr>db_assignments := db_assignments d @ [row]\<rparr>" and m: "ag_memorial row = m" "m \<notin> ag_memorial ` set (db_assignments d)"
      using I by blast
    have tab: "db_candidates d' = db_candidates d" "db_lifecycle d' = db_lifecycle d" by (simp_all add: d')
    have same: "same_decisions d d'" by (simp add: d' same_decisions_def)
    have cok: "candidates_ok sha d'"
      using candidates_ok_same [OF evolution_okD(1) [OF ok] tab] same_decisions_keeps [OF candidates_okD(1) [OF evolution_okD(1) [OF ok]] same] by blast
    have dist: "distinct (map ag_memorial (db_assignments d'))" using evolution_okD(2) [OF ok] m by (simp add: d')
    have "row_by ag_memorial m (db_assignments d') = Some row" using row_by_unique [OF dist, of row] m(1) by (simp add: d')
    then obtain z where "decode_assignment sha row d' = Inr z" using I by (auto simp: get_assignment_def)
    moreover have "decode_assignment sha b d' = decode_assignment sha b d" for b by (rule decode_same) (simp add: tab)
    ultimately have "\<forall>b \<in> set (db_assignments d'). \<exists>z. decode_assignment sha b d' = Inr z"
      using evolution_okD(3) [OF ok] by (auto simp: d')
    then show ?thesis using cok dist candidates_evolve_same [OF tab] by (auto simp: evolution_ok_def evolves_to_def d')
  qed (use ok in simp)
qed

section \<open>Steps\<close>

text \<open>
  The operations on candidates and assignments, in any order and by any callers. The last rule is the rest of the
  program: it leaves the candidates and their journal alone, closes and adds decisions as the decision authority
  does, changes the routing table as it likes and deletes at most assignments without a candidate, which is what
  the trigger of the table allows and what the deletion of an edict does.
\<close>

inductive evolution_step :: "(string \<Rightarrow> string) \<Rightarrow> db \<Rightarrow> db \<Rightarrow> bool" for sha where
  propose: "insert_candidate sha c d = Inr (x, d') \<Longrightarrow> evolution_step sha d d'"
| save: "save_candidate sha c v q d = Inr (x, d') \<Longrightarrow> evolution_step sha d d'"
| assign: "assign_current sha ro m created now d = Inr (a, d') \<Longrightarrow> evolution_step sha d d'"
| other: "db_candidates d' = db_candidates d \<Longrightarrow> db_lifecycle d' = db_lifecycle d \<Longrightarrow>
    db_assignments d' = filter (\<lambda>a. ag_candidate a \<noteq> None \<or> keep a) (db_assignments d) \<Longrightarrow>
    decisions_ok sha d' \<Longrightarrow> decisions_evolve d d' \<Longrightarrow> evolution_step sha d d'"

lemma evolution_step_keeps:
  assumes "evolution_step sha d d'" "evolution_ok sha d"
  shows "evolution_ok sha d' \<and> evolves_to d d'"
  using assms
proof cases
  case (propose c x)
  then show ?thesis using candidate_write_keeps [OF assms(2) insert_candidate_keeps [OF evolution_okD(1) [OF assms(2)]]] by blast
next
  case (save c v q x)
  then show ?thesis using candidate_write_keeps [OF assms(2) save_candidate_keeps [OF evolution_okD(1) [OF assms(2)]]] by blast
next
  case (assign ro m created now a)
  then show ?thesis using assign_current_keeps [OF assms(2)] by blast
next
  case (other keep)
  have "candidates_ok sha d'" using candidates_ok_same [OF evolution_okD(1) [OF assms(2)] other(1,2,4,5)] .
  moreover have "decode_assignment sha a d' = decode_assignment sha a d" for a by (rule decode_same [OF other(1)])
  moreover have "distinct (map ag_memorial (db_assignments d'))"
    using evolution_okD(2) [OF assms(2)] unfolding other(3) by (simp add: distinct_map_filter)
  ultimately show ?thesis using evolution_okD(3) [OF assms(2)] candidates_evolve_same [OF other(1,2)]
    by (auto simp: evolution_ok_def evolves_to_def other(3))
qed

interpretation evolution: evolving_system "evolution_step sha" "evolution_ok sha" evolves_to
  by unfold_locales (auto dest: evolution_step_keeps intro: evolves_to_trans)

text \<open>Candidates are a store with a compare-and-swap: of all saves that name one version, at most one happens.\<close>

definition candidate_version :: "db \<Rightarrow> string \<Rightarrow> int option" where
  "candidate_version d i = map_option (\<lambda>r. cd_version (cr_candidate r)) (row_by candidate_id i (db_candidates d))"

definition candidate_swap ::
  "(string \<Rightarrow> string) \<Rightarrow> string \<Rightarrow> int \<Rightarrow> evolution_candidate \<times> string option \<Rightarrow> db \<Rightarrow> db option" where
  "candidate_swap sha i v x d =
     (if cd_id (fst x) = i then (case save_candidate sha (fst x) v (snd x) d of Inl _ \<Rightarrow> None | Inr (_, d') \<Rightarrow> Some d') else None)"

lemma candidate_swapD:
  assumes "candidate_swap sha i v x d = Some d'"
  shows "\<exists>y. save_candidate sha (fst x) v (snd x) d = Inr (y, d') \<and> cd_id (fst x) = i"
  using assms by (auto simp: candidate_swap_def split: if_split_asm sum.split_asm)

lemma save_version:
  assumes ok: "candidates_ok sha d" and s: "save_candidate sha c v q d = Inr (x, d')"
  shows "candidate_version d (cd_id c) = Some v \<and> candidate_version d' (cd_id c) = Some (v + 1)"
proof -
  obtain r where r: "r \<in> set (db_candidates d)" "candidate_id r = cd_id c" "cd_version (cr_candidate r) = v" "core_kept (cr_candidate r) c"
    "d' = saved_db sha r (c\<lparr>cd_version := v + 1\<rparr>) q d" using save_candidate_Inr [OF ok s] by blast
  have row: "row_by candidate_id (cd_id c) (db_candidates d) = Some r" using row_by_unique [OF candidates_okD(2) [OF ok] r(1,2)] .
  then have "row_by candidate_id (cd_id c) (db_candidates d') = Some (saved_row (c\<lparr>cd_version := v + 1\<rparr>) r)"
    by (simp add: r(5) saved_db_def row_by_update_rows)
  then show ?thesis using row r(3) by (simp add: candidate_version_def saved_row_def)
qed

interpretation candidate_store: versioned_store "evolution_step sha" "evolution_ok sha" evolves_to candidate_version "candidate_swap sha"
proof unfold_locales
  fix s k v x s'
  assume ok: "evolution_ok sha s" and sw: "candidate_swap sha k v x s = Some s'"
  then obtain y where y: "save_candidate sha (fst x) v (snd x) s = Inr (y, s')" "cd_id (fst x) = k" using candidate_swapD by blast
  show "candidate_version s k = Some v \<and> candidate_version s' k = Some (v + 1)"
    using save_version [OF evolution_okD(1) [OF ok] y(1)] y(2) by simp
  show "evolution_ok sha s'" using evolution_step_keeps [OF evolution_step.save [OF y(1)] ok] by simp
next
  fix s s' k v
  assume ok: "evolution_ok sha s" "evolution_ok sha s'" and ev: "evolves_to s s'" and v: "candidate_version s k = Some v"
  obtain r where r: "row_by candidate_id k (db_candidates s) = Some r" "cd_version (cr_candidate r) = v"
    using v by (auto simp: candidate_version_def)
  then have g: "get_candidate sha k s = Inr (Some (cr_candidate r))" by (simp add: get_candidate_eq [OF evolution_okD(1) [OF ok(1)]])
  obtain c' where "get_candidate sha k s' = Inr (Some c')" "v \<le> cd_version c'"
    using candidate_kept [OF evolution_okD(1) [OF ok(1)] evolution_okD(1) [OF ok(2)] _ g] ev r(2) by (auto simp: evolves_to_def)
  then show "\<exists>v'. candidate_version s' k = Some v' \<and> v \<le> v'"
    by (auto simp: get_candidate_eq [OF evolution_okD(1) [OF ok(2)]] candidate_version_def)
qed

section \<open>What lies behind a lifecycle\<close>

text \<open>The stations every candidate in a lifecycle has passed.\<close>

fun stations :: "lifecycle \<Rightarrow> lifecycle list" where
  "stations LProposed = [LProposed]"
| "stations LStaged = [LProposed, LStaged]"
| "stations LEvaluating = [LProposed, LStaged, LEvaluating]"
| "stations LBlocked = [LProposed, LStaged, LEvaluating, LBlocked]"
| "stations LReady = [LProposed, LStaged, LEvaluating, LReady]"
| "stations LCanary = [LProposed, LStaged, LEvaluating, LReady, LCanary]"
| "stations LPromoted = [LProposed, LStaged, LEvaluating, LReady, LCanary, LPromoted]"
| "stations LRollbackPending = [LProposed, LStaged, LEvaluating, LReady, LCanary, LRollbackPending]"
| "stations LRolledBack = [LProposed, LStaged, LEvaluating, LReady, LCanary, LRollbackPending, LRolledBack]"
| "stations LRejected = [LProposed, LStaged, LEvaluating, LRejected]"
| "stations LArchived = [LProposed, LStaged, LEvaluating, LArchived]"

lemma stations_step: "l' \<in> set (legal_transitions l) \<Longrightarrow> subseq (stations l') (stations l @ [l'])"
  by (cases l) auto

lemma path_stations:
  assumes "path_from l es" "subseq (stations l) ls"
  shows "subseq (stations (last (l # map le_to es))) (ls @ map le_to es)"
  using assms
proof (induction es arbitrary: l ls)
  case (Cons e es)
  have "subseq (stations (le_to e)) (stations l @ [le_to e])" using stations_step [of "le_to e" l] Cons.prems(1) by simp
  moreover have "subseq (stations l @ [le_to e]) (ls @ [le_to e])" by (rule list_emb_append_mono [OF Cons.prems(2)]) simp
  ultimately have "subseq (stations (le_to e)) (ls @ [le_to e])" by (rule subseq_order.trans)
  from Cons.IH [OF _ this] Cons.prems(1) show ?case by simp
qed simp

lemma lifecycle_path_stations: "lifecycle_path j \<Longrightarrow> subseq (stations (le_to (last j))) (map le_to j)"
  using path_stations [of LProposed "tl j" "[LProposed]"] by (cases j) (auto simp: last_map split: if_split_asm)

lemma decode_candidates_valid: "decode_candidates sha rs = Inr cs \<Longrightarrow> c \<in> set cs \<Longrightarrow> valid_candidate sha c"
  by (induction rs arbitrary: cs) (auto simp: decode_candidate_def split: if_split_asm)

lemma routable_valid:
  assumes "get_routable_candidate sha d = Inr (Some c)"
  shows "valid_candidate sha c"
proof -
  obtain cs where cs: "decode_candidates sha (select_ordered (\<lambda>r. cd_lifecycle (cr_candidate r) = LCanary)
        (\<lambda>r. (cd_created (cr_candidate r), candidate_id r)) (db_candidates d)) = Inr cs"
    using assms by (auto simp: get_routable_candidate_def)
  then obtain y where y: "cs = [y]" using assms by (cases cs rule: remdups_adj.cases) (auto simp: get_routable_candidate_def)
  then have "c = y" using assms cs by (auto simp: get_routable_candidate_def split: option.split_asm if_split_asm)
  then show ?thesis using decode_candidates_valid [OF cs] y by simp
qed

section \<open>A candidate for code\<close>

definition zeros64 :: string where
  "zeros64 = replicate 64 CHR ''0''"

definition flat_digest :: "string \<Rightarrow> string" where
  "flat_digest s = zeros64"

definition demo_ref :: "string \<Rightarrow> version_ref" where
  "demo_ref v = \<lparr>vr_version = v, vr_artifact = zeros64, vr_canonical = zeros64\<rparr>"

definition demo_contract :: evolution_contract where
  "demo_contract =
     \<lparr>ct_kind = CCode, ct_subject = ''s'', ct_governance_hash = zeros64, ct_gates = [GSchema],
      ct_regression_digest = zeros64, ct_sample_digest = zeros64, ct_budget_digest = zeros64,
      ct_min_samples = 1, ct_max_basis_points = 1000, ct_rollback_slo = 60\<rparr>"

definition demo_candidate :: "lifecycle \<Rightarrow> evolution_candidate" where
  "demo_candidate l =
     \<lparr>cd_id = ''c1'', cd_kind = CCode, cd_subject = ''s'',
      cd_provenance = \<lparr>pv_channel = ChApi, pv_uri = None, pv_digest = zeros64, pv_actor = ''u'', pv_actor_name = ''u'',
        pv_edict = None, pv_memorial = None, pv_producer = ''p'', pv_producer_version = ''1'', pv_received = 0\<rparr>,
      cd_base = demo_ref ''1'', cd_candidate = demo_ref ''2'', cd_diff = zeros64, cd_contract = demo_contract,
      cd_contract_hash = zeros64, cd_gate_version = 1, cd_evidence = [],
      cd_routing = Some \<lparr>rp_basis_points = 1000, rp_seed = ''seed'', rp_version = 1\<rparr>,
      cd_rollback = \<lparr>rb_champion = demo_ref ''1'', rb_restore_point = ''r'', rb_adapter = ''a'', rb_max_seconds = 60\<rparr>,
      cd_lifecycle = l, cd_version = 5, cd_created = 0, cd_updated = 9\<rparr>"

definition demo_entry :: "int \<Rightarrow> lifecycle option \<Rightarrow> lifecycle \<Rightarrow> lifecycle_entry" where
  "demo_entry v from_l to_l =
     \<lparr>le_id = int_text v, le_candidate = ''c1'', le_version = v, le_from = from_l, le_to = to_l, le_decision = None,
      le_hash = zeros64, le_created = v\<rparr>"

definition demo_approval :: decision_request where
  "demo_approval =
     \<lparr>dq_id = ''q1'', dq_schema_version = 1, dq_kind = KGovernedApply, dq_edict = ''e1'', dq_memorial = ''m1'', dq_key = ''k1'',
      dq_payload = [(''schema_version'', JInt 1), (''candidate_id'', JStr ''c1''), (''candidate_version'', JInt 5),
        (''candidate_artifact_digest'', JStr (zeros64)), (''gate_snapshot_version'', JInt 1), (''action'', JStr ''promote''),
        (''risk_tier'', JStr ''high'')],
      dq_payload_hash = zeros64, dq_requested_by = ''u'', dq_expires = 100, dq_status = Resolved, dq_version = 2,
      dq_created = 5, dq_updated = 6\<rparr>"

definition demo_evolution :: db where
  "demo_evolution =
     demo_runs\<lparr>db_candidates := [\<lparr>cr_candidate = demo_candidate LCanary, cr_provenance_hash = zeros64\<rparr>],
       db_lifecycle := [demo_entry 1 None LProposed, demo_entry 2 (Some LProposed) LStaged, demo_entry 3 (Some LStaged) LEvaluating,
         demo_entry 4 (Some LEvaluating) LReady, demo_entry 5 (Some LReady) LCanary],
       db_routing := [\<lparr>ra_candidate = ''c1'', ra_version = 1, ra_basis_points = 1000, ra_seed = ''seed'',
         ra_json = dumps (routing_json \<lparr>rp_basis_points = 1000, rp_seed = ''seed'', rp_version = 1\<rparr>), ra_hash = zeros64\<rparr>],
       db_decisions := [\<lparr>qr_request = demo_approval, qr_correlation = Some ''c1''\<rparr>],
       db_resolutions := [\<lparr>dr_id = ''q1'', dr_action = ''approve'', dr_reason = ''ok'', dr_payload = [(''schema_version'', JInt 1)],
         dr_actor_id = ''u'', dr_actor_name = ''u'', dr_at = 6\<rparr>]\<rparr>"

definition demo_router :: router where
  "demo_router =
     \<lparr>ro_secret = Some ''key'', ro_calculator = (\<lambda>m seed key. Inr 700), ro_resolver = Some (\<lambda>d r v. Inr []), ro_before_insert = (\<lambda>a. Inr ())\<rparr>"

definition demo_promotion :: "(evolution_candidate \<times> db) result" where
  "demo_promotion = save_candidate flat_digest (demo_candidate LPromoted) 5 (Some ''q1'') demo_evolution"

definition demo_routed :: "(assignment \<times> db) result" where
  "demo_routed = assign_current flat_digest demo_router ''m1'' (Some 10) 11 demo_evolution"

lemma zeros64_hex [simp]: "hex64 zeros64" "length zeros64 = 64" "sql_text 256 zeros64" "\<not> blank zeros64"
  by code_simp+

lemma flat_digest_json [simp]:
  "json_digest flat_digest v = zeros64" "normalizable v \<Longrightarrow> canonical_sha256 flat_digest v = Inr zeros64"
  "journal_id flat_digest i n l = zeros64"
  by (simp_all add: json_digest_def flat_digest_def canonical_sha256_def canonical_json_bytes_def journal_id_def)

lemma demo_blank [simp]: "\<not> blank ''c1''" "\<not> blank ''s''" "\<not> blank ''u''" "\<not> blank ''p''" "\<not> blank ''1''" "\<not> blank ''2''" "\<not> blank ''seed''"
  "\<not> blank ''r''" "\<not> blank ''a''" "\<not> blank ''q1''" "sql_text 256 ''c1''" "sql_text 512 ''s''" "\<not> blank ''m1''"
  by code_simp+

lemma demo_candidate_valid: "l = LCanary \<or> l = LPromoted \<Longrightarrow> v = 5 \<or> v = 6 \<Longrightarrow> valid_candidate flat_digest ((demo_candidate l)\<lparr>cd_version := v\<rparr>)"
  by (auto simp: valid_candidate_def demo_candidate_def valid_provenance_def valid_version_ref_def demo_ref_def valid_contract_def
      demo_contract_def valid_routing_def valid_rollback_def opt_nonblank_def)

lemma demo_evolution_ok: "evolution_ok flat_digest demo_evolution"
proof -
  have "valid_decision_request flat_digest demo_approval" "validate_resolution_payload KGovernedApply ''approve'' [(''schema_version'', JInt 1)] = Inr ()"
    "\<not> blank ''ok''" "\<not> blank ''approve''" by (simp add: valid_decision_request_def demo_approval_def, code_simp) code_simp+
  then have dec: "decisions_ok flat_digest demo_evolution"
    by (simp add: decisions_ok_def demo_evolution_def demo_runs_def has_edict_def row_id_def demo_edict_def record_ok_def rec_of_def
        valid_decision_record_def valid_decision_resolution_def) (simp add: demo_approval_def)
  have j: "journal_of demo_evolution ''c1'' = db_lifecycle demo_evolution" by (simp add: journal_of_def demo_evolution_def demo_entry_def)
  have "candidate_ok flat_digest demo_evolution \<lparr>cr_candidate = demo_candidate LCanary, cr_provenance_hash = zeros64\<rparr>"
    using demo_candidate_valid [of LCanary 5] j
    by (simp add: candidate_ok_def Let_def demo_candidate_def) (simp add: demo_evolution_def demo_entry_def)
  then have "candidates_ok flat_digest demo_evolution" using dec
    by (simp add: candidates_ok_def) (simp add: demo_evolution_def candidate_id_def demo_candidate_def demo_entry_def)
  then show ?thesis by (simp add: evolution_ok_def demo_evolution_def demo_runs_def empty_db_def)
qed

definition demo_candidate_row :: candidate_row where
  "demo_candidate_row = \<lparr>cr_candidate = demo_candidate LCanary, cr_provenance_hash = zeros64\<rparr>"

lemma demo_found:
  "db_candidates demo_evolution = [demo_candidate_row]" "get_candidate flat_digest ''c1'' demo_evolution = Inr (Some (demo_candidate LCanary))"
proof -
  show c: "db_candidates demo_evolution = [demo_candidate_row]" by (simp add: demo_evolution_def demo_candidate_row_def)
  show "get_candidate flat_digest ''c1'' demo_evolution = Inr (Some (demo_candidate LCanary))"
    using get_candidate_eq [OF evolution_okD(1) [OF demo_evolution_ok]] by (simp add: c demo_candidate_row_def candidate_id_def demo_candidate_def)
qed

lemma demo_promotion_saved: "\<exists>x d'. demo_promotion = Inr (x, d')"
proof -
  let ?p = "demo_candidate LPromoted" and ?s = "(demo_candidate LPromoted)\<lparr>cd_version := 6\<rparr>"
  have sel: "cd_id (demo_candidate l) = ''c1''" "cd_version (demo_candidate l) = 5" "cd_lifecycle (demo_candidate l) = l" "cd_kind (demo_candidate l) = CCode" for l
    by (simp_all add: demo_candidate_def)
  have core: "require_immutable_core (demo_candidate LCanary) ?p = Inr ()" by (simp add: require_immutable_core_def demo_candidate_def)
  have "decision_get flat_digest ''q1'' demo_evolution = Inr (Some (rec_of demo_evolution \<lparr>qr_request = demo_approval, qr_correlation = Some ''c1''\<rparr>))"
    using decision_get_eq [OF candidates_okD(1) [OF evolution_okD(1) [OF demo_evolution_ok]]]
    by (simp add: demo_evolution_def row_id_def demo_approval_def)
  moreover have "promotion_approved (rec_of demo_evolution \<lparr>qr_request = demo_approval, qr_correlation = Some ''c1''\<rparr>) (demo_candidate LCanary)"
    by (simp add: promotion_approved_def rec_of_def demo_evolution_def row_id_def demo_approval_def promotion_binding_of_def only_keys_def
        demo_candidate_def demo_ref_def)
  ultimately have legal: "require_legal_change flat_digest (demo_candidate LCanary) ?p (Some ''q1'') demo_evolution = Inr ()"
    by (simp add: require_legal_change_def validate_lifecycle_transition_def require_code_promotion_decision_def require_high_risk_decision_def
        raise_unless_def sel)
  let ?d = "demo_evolution\<lparr>db_candidates := [saved_row ?s demo_candidate_row]\<rparr>"
  have upd: "update_candidates (\<lambda>r. candidate_id r = ''c1'' \<and> cd_version (cr_candidate r) = 5) (saved_row ?s) demo_evolution = Inr (1, ?d)"
    by (simp add: update_candidates_def demo_found(1) count_rows_def update_rows_def candidate_row_checks_def Let_def)
       (simp add: saved_row_def demo_candidate_row_def demo_candidate_def candidate_id_def)
  have "\<exists>d'. append_lifecycle_journal flat_digest ?s (Some LCanary) (Some ''q1'') ?d = Inr d' \<and> db_candidates d' = [saved_row ?s demo_candidate_row]"
    by (simp add: append_lifecycle_journal_def insert_lifecycle_def lifecycle_row_def demo_evolution_def demo_entry_def candidate_id_def saved_row_def
        demo_candidate_row_def demo_candidate_def row_id_def demo_approval_def) code_simp
  then obtain d' where j: "append_lifecycle_journal flat_digest ?s (Some LCanary) (Some ''q1'') ?d = Inr d'" "db_candidates d' = [saved_row ?s demo_candidate_row]" by blast
  have "cr_candidate (saved_row ?s demo_candidate_row) = ?s" by (simp add: saved_row_def demo_candidate_row_def demo_candidate_def)
  then have "get_candidate flat_digest ''c1'' d' = Inr (Some ?s)"
    using demo_candidate_valid [of LPromoted 6]
    by (simp add: get_candidate_def j(2) decode_candidate_def) (simp add: candidate_id_def saved_row_def demo_candidate_row_def demo_candidate_def)
  then have "demo_promotion = Inr (?s, d')"
    using core legal upd j(1) by (simp add: demo_promotion_def save_candidate_def demo_found(2) sel Let_def)
  then show ?thesis by blast
qed

lemma demo_routable: "get_routable_candidate flat_digest demo_evolution = Inr (Some (demo_candidate LCanary))"
  using demo_candidate_valid [of LCanary 5]
  by (simp add: get_routable_candidate_def demo_found(1) select_ordered_def demo_candidate_row_def decode_candidate_def)
     (simp add: demo_evolution_def demo_candidate_def)

lemma demo_routed_stored:
  "\<exists>d'. demo_routed = Inr (Governed (routed flat_digest ''m1'' 10 (demo_candidate LCanary)
      \<lparr>rp_basis_points = 1000, rp_seed = ''seed'', rp_version = 1\<rparr> 700), d')"
proof -
  let ?p = "\<lparr>rp_basis_points = 1000, rp_seed = ''seed'', rp_version = 1\<rparr>" and ?c = "demo_candidate LCanary"
  let ?g = "routed flat_digest ''m1'' 10 ?c ?p 700"
  have none: "get_assignment flat_digest ''m1'' demo_evolution = Inr None" by (simp add: get_assignment_def demo_evolution_def demo_runs_def empty_db_def)
  have c: "cd_routing ?c = Some ?p" "cd_id ?c = ''c1''" "cd_lifecycle ?c = LCanary" by (simp_all add: demo_candidate_def)
  have va: "valid_assignment (Governed ?g)"
    by (simp add: valid_assignment_def routed_def assignment_id_def flat_digest_def demo_candidate_def demo_ref_def valid_version_ref_def) code_simp
  have ins: "insert_assignment_row (governed_row flat_digest ?g (overlay_of ?g ?c)) demo_evolution =
      Inr (demo_evolution\<lparr>db_assignments := [governed_row flat_digest ?g (overlay_of ?g ?c)]\<rparr>)"
    by (simp add: insert_assignment_row_def governed_row_def routed_def demo_evolution_def demo_runs_def empty_db_def has_memorial_def
        demo_run_memorial_def candidate_id_def demo_candidate_def assignment_id_def flat_digest_def) code_simp
  let ?d = "demo_evolution\<lparr>db_assignments := [governed_row flat_digest ?g (overlay_of ?g ?c)]\<rparr>"
  have "get_assignment flat_digest ''m1'' ?d = Inr (Some (Governed ?g, Some (overlay_of ?g ?c)))"
    using va demo_found(2) get_candidate_same [of ?d demo_evolution flat_digest "''c1''"]
    by (simp add: get_assignment_def decode_assignment_def decode_governed_def governed_columns_def governed_row_def)
       (simp add: routed_def demo_candidate_def)
  then have "insert_assignment flat_digest ?g (overlay_of ?g ?c) demo_evolution = Inr (Governed ?g, ?d)"
    using none ins by (simp add: insert_assignment_def insert_once_def assignment_memorial_def is_legacy_def overlay_of_def Let_def)
  then have "assign_governed flat_digest demo_router ''m1'' 10 ?c ?p demo_evolution = Inr (Governed ?g, ?d)"
    using va by (simp add: assign_governed_def router_bucket_def demo_router_def selects_challenger_def resolve_payload_def routed_def Let_def)
  then show ?thesis using none demo_routable c by (simp add: demo_routed_def assign_current_def Let_def)
qed

section \<open>Properties\<close>

text \<open>
  C28: a promoted candidate has gone through the whole process. Whatever sequence of operations led to a state, the journal
  of a promoted candidate contains, in this order, that it was proposed, staged, evaluated, ready and a canary; and if
  it is code, the journal names a decision that was resolved with an approval and bound to this candidate, to the
  version before the promotion and to the digest of its artifact.
\<close>

theorem promotion_follows_governance:
  assumes "evolution_ok sha d" and "(evolution_step sha)\<^sup>*\<^sup>* d d'" and "r \<in> set (db_candidates d')"
    and "c = cr_candidate r" and "cd_lifecycle c = LPromoted"
  shows "subseq [LProposed, LStaged, LEvaluating, LReady, LCanary, LPromoted] (map le_to (journal_of d' (cd_id c))) \<and>
    (cd_kind c = CCode \<longrightarrow>
      (\<exists>e \<in> set (journal_of d' (cd_id c)). \<exists>q rec b. le_to e = LPromoted \<and> le_decision e = Some q \<and>
         decision_get sha q d' = Inr (Some rec) \<and> dq_kind (rec_request rec) = KGovernedApply \<and>
         dq_status (rec_request rec) = Resolved \<and> map_option dr_action (rec_resolution rec) = Some ''approve'' \<and>
         promotion_binding_of (dq_payload (rec_request rec)) = Some b \<and> pb_candidate b = cd_id c \<and>
         pb_version b = le_version e - 1 \<and> pb_digest b = vr_artifact (cd_candidate c)))"
proof -
  have ok: "evolution_ok sha d'" using evolution.steps_inv_evo [OF assms(2,1)] by blast
  let ?j = "journal_of d' (cd_id c)"
  have c: "lifecycle_path ?j" "le_to (last ?j) = LPromoted"
    "\<And>e. e \<in> set ?j \<Longrightarrow> cd_kind c = CCode \<Longrightarrow> le_to e = LPromoted \<Longrightarrow> promotion_backed sha d' c e"
    using candidates_okD(3) [OF evolution_okD(1) [OF ok] assms(3)] assms(4,5) by (auto simp: candidate_ok_def Let_def)
  have e: "last ?j \<in> set ?j" using c(1) by (cases ?j) auto
  have "\<exists>q rec b. le_decision (last ?j) = Some q \<and> decision_get sha q d' = Inr (Some rec) \<and> dq_kind (rec_request rec) = KGovernedApply \<and>
         dq_status (rec_request rec) = Resolved \<and> map_option dr_action (rec_resolution rec) = Some ''approve'' \<and>
         promotion_binding_of (dq_payload (rec_request rec)) = Some b \<and> pb_candidate b = cd_id c \<and>
         pb_version b = le_version (last ?j) - 1 \<and> pb_digest b = vr_artifact (cd_candidate c)" if "cd_kind c = CCode"
    using c(3) [OF e that c(2)] by (auto simp: promotion_backed_def promotion_approved_def split: option.split_asm)
  then show ?thesis using lifecycle_path_stations [OF c(1)] c(2) e by auto
qed

theorem promotion_follows_governance_witness:
  "\<exists>d' e. demo_promotion = Inr (demo_candidate LPromoted\<lparr>cd_version := 6\<rparr>, d') \<and> e \<in> set (journal_of d' ''c1'') \<and>
     le_to e = LPromoted \<and> le_decision e = Some ''q1'' \<and>
     subseq [LProposed, LStaged, LEvaluating, LReady, LCanary, LPromoted] (map le_to (journal_of d' ''c1''))"
proof -
  obtain x d' where p: "demo_promotion = Inr (x, d')" using demo_promotion_saved by blast
  then have s: "save_candidate flat_digest (demo_candidate LPromoted) 5 (Some ''q1'') demo_evolution = Inr (x, d')" by (simp add: demo_promotion_def)
  obtain r where r: "r \<in> set (db_candidates demo_evolution)" "core_kept (cr_candidate r) (demo_candidate LPromoted)"
    and d': "d' = saved_db flat_digest r ((demo_candidate LPromoted)\<lparr>cd_version := 6\<rparr>) (Some ''q1'') demo_evolution"
    and x: "x = (demo_candidate LPromoted)\<lparr>cd_version := 6\<rparr>"
    using save_candidate_Inr [OF evolution_okD(1) [OF demo_evolution_ok] s] by auto
  have r': "saved_row ((demo_candidate LPromoted)\<lparr>cd_version := 6\<rparr>) r \<in> set (db_candidates d')"
    using r(1) by (auto simp: d' saved_db_def set_update_rows)
  have steps: "(evolution_step flat_digest)\<^sup>*\<^sup>* demo_evolution d'" using evolution_step.save [OF s] by (rule r_into_rtranclp)
  have core: "core_kept (cr_candidate r) ((demo_candidate LPromoted)\<lparr>cd_version := 6\<rparr>)" using r(2) by (simp add: core_kept_def)
  have sel: "cd_id (demo_candidate l) = ''c1''" "cd_lifecycle (demo_candidate l) = l" "cd_kind (demo_candidate l) = CCode" for l by (simp_all add: demo_candidate_def)
  have j: "journal_of d' ''c1'' = journal_of demo_evolution ''c1'' @ [lifecycle_row flat_digest ((demo_candidate LPromoted)\<lparr>cd_version := 6\<rparr>) (Some LCanary) (Some ''q1'')]"
    using r(1) by (simp add: d' journal_saved sel) (simp add: demo_found demo_candidate_row_def sel)
  have "subseq [LProposed, LStaged, LEvaluating, LReady, LCanary, LPromoted] (map le_to (journal_of d' ''c1''))"
    using promotion_follows_governance [OF demo_evolution_ok steps r' refl] saved_row_sel(1) [OF core] by (simp add: sel)
  moreover have "lifecycle_row flat_digest ((demo_candidate LPromoted)\<lparr>cd_version := 6\<rparr>) (Some LCanary) (Some ''q1'') \<in> set (journal_of d' ''c1'')"
    by (simp add: j)
  moreover have "le_to (lifecycle_row flat_digest ((demo_candidate LPromoted)\<lparr>cd_version := 6\<rparr>) (Some LCanary) (Some ''q1'')) = LPromoted"
    "le_decision (lifecycle_row flat_digest ((demo_candidate LPromoted)\<lparr>cd_version := 6\<rparr>) (Some LCanary) (Some ''q1'')) = Some ''q1''"
    by (simp_all add: lifecycle_row_def sel)
  ultimately show ?thesis using p x by blast
qed

text \<open>
  C29: a run keeps the version it was given. Once a memorial is assigned to a version of a candidate, every later reading of
  the assignment and every later call of the router return the same assignment and write nothing, whatever is
  done to the candidate, to its routing or to any decision in between.
\<close>

theorem assignment_is_permanent:
  assumes "evolution_ok sha d" and "get_assignment sha m d = Inr (Some (Governed g, v))" and "(evolution_step sha)\<^sup>*\<^sup>* d d'"
  shows "get_assignment sha m d' = Inr (Some (Governed g, v)) \<and> assign_current sha ro m created now d' = Inr (Governed g, d')"
proof -
  have ok: "evolution_ok sha d'" and ev: "evolves_to d d'" using evolution.steps_inv_evo [OF assms(3,1)] by auto
  obtain a where a: "row_by ag_memorial m (db_assignments d) = Some a" and dec: "decode_assignment sha a d = Inr (Governed g, v)"
    using assms(2) by (auto simp: get_assignment_def split: option.split_asm)
  have am: "a \<in> set (db_assignments d)" "ag_memorial a = m" using row_by_SomeD [OF a] by auto
  have gov: "ag_assignment a = Governed g" "valid_assignment (Governed g)" "governed_columns a g"
    using dec by (auto simp: decode_assignment_def decode_governed_def split: if_split_asm assignment.split_asm option.split_asm)
  have "a \<in> set (db_assignments d')" using ev am(1) gov(3) by (simp add: evolves_to_def governed_columns_def)
  then have "row_by ag_memorial m (db_assignments d') = Some a" using row_by_unique [OF evolution_okD(2) [OF ok]] am(2) by blast
  moreover have "decode_assignment sha a d' = Inr (Governed g, v)"
    using decode_kept [OF evolution_okD(1) [OF assms(1)] evolution_okD(1) [OF ok] _ dec] ev by (simp add: evolves_to_def)
  ultimately have get: "get_assignment sha m d' = Inr (Some (Governed g, v))" by (simp add: get_assignment_def)
  have "\<not> blank m" using gov am(2) by (simp add: valid_assignment_def governed_columns_def)
  then show ?thesis using get by (simp add: assign_current_def)
qed

theorem assignment_is_permanent_witness:
  "\<exists>d' g. demo_routed = Inr (Governed g, d') \<and>
     assign_current flat_digest demo_router ''m1'' None 99 (d'\<lparr>db_routing := []\<rparr>) = Inr (Governed g, d'\<lparr>db_routing := []\<rparr>)"
proof -
  obtain d' g where r: "demo_routed = Inr (Governed g, d')" using demo_routed_stored by blast
  then have a: "assign_current flat_digest demo_router ''m1'' (Some 10) 11 demo_evolution = Inr (Governed g, d')" by (simp add: demo_routed_def)
  have ok: "evolution_ok flat_digest d'" using assign_current_keeps [OF demo_evolution_ok a] by blast
  obtain v where get: "get_assignment flat_digest ''m1'' d' = Inr (Some (Governed g, v))" using assign_current_Inr [OF a] by blast
  have dec: "decisions_ok flat_digest d'" using candidates_okD(1) [OF evolution_okD(1) [OF ok]] .
  have same: "same_decisions d' (d'\<lparr>db_routing := []\<rparr>)" by (simp add: same_decisions_def)
  have "evolution_step flat_digest d' (d'\<lparr>db_routing := []\<rparr>)"
    using same_decisions_keeps [OF dec same] by (intro evolution_step.other [where keep = "\<lambda>_. True"]) auto
  then have steps: "(evolution_step flat_digest)\<^sup>*\<^sup>* d' (d'\<lparr>db_routing := []\<rparr>)" by (rule r_into_rtranclp)
  from assignment_is_permanent [OF ok get steps] r show ?thesis by blast
qed

text \<open>
  C30: how a run is routed. A run that is assigned while a candidate is the canary gets the bucket its memorial has under the
  seed of the routing policy; it gets the challenger if the bucket is below the allocation, and the champion otherwise.
  Of the ten thousand buckets exactly as many select the challenger as the allocation has basis points, and these
  are never more than the contract of the candidate allows, nor more than a thousand.
\<close>

theorem routing_follows_policy:
  assumes "evolution_ok sha d" and "get_assignment sha m d = Inr None" and "get_routable_candidate sha d = Inr (Some c)"
    and "cd_routing c = Some p" and "assign_current sha ro m created now d = Inr (x, d')"
  shows "(\<exists>g b. x = Governed g \<and> router_bucket ro m (rp_seed p) = Inr b \<and> asn_bucket g = b \<and> asn_candidate g = cd_id c \<and>
      asn_selected g = (if b < rp_basis_points p then cd_candidate c else cd_base c) \<and>
      (\<exists>v. get_assignment sha m d' = Inr (Some (Governed g, v)))) \<and>
    card {b. selects_challenger b (rp_basis_points p) = Inr True} = nat (rp_basis_points p) \<and>
    rp_basis_points p \<le> ct_max_basis_points (cd_contract c) \<and> rp_basis_points p \<le> 1000"
proof -
  let ?t = "case created of None \<Rightarrow> now | Some t \<Rightarrow> t"
  have nb: "\<not> blank m" using assms(5) by (auto simp: assign_current_def)
  have val: "valid_candidate sha c" by (rule routable_valid [OF assms(3)])
  have bp: "0 \<le> rp_basis_points p" "rp_basis_points p \<le> 10000" "rp_basis_points p \<le> ct_max_basis_points (cd_contract c)"
    "ct_max_basis_points (cd_contract c) \<le> 1000"
    using val assms(4) by (auto simp: valid_candidate_def valid_routing_def valid_contract_def)
  have "assign_governed sha ro m ?t c p d = Inr (x, d')" using assms(2-5) nb by (simp add: assign_current_def Let_def)
  from assign_governed_bucket [OF this] obtain b where b: "router_bucket ro m (rp_seed p) = Inr b" "0 \<le> b" "b < 10000"
    and ins: "insert_once sha (\<lambda>a. \<not> is_legacy a) (Governed (routed sha m ?t c p b), Some (overlay_of (routed sha m ?t c p b) c))
      (governed_row sha (routed sha m ?t c p b) (overlay_of (routed sha m ?t c p b) c)) d = Inr (x, d')" by blast
  let ?g = "routed sha m ?t c p b"
  have "\<exists>v. get_assignment sha m d' = Inr (Some (Governed ?g, v)) \<and> x = Governed ?g"
    using fresh_insert [OF _ _ assms(2) ins] by (simp add: assignment_memorial_def governed_row_def)
  moreover have "asn_selected ?g = (if b < rp_basis_points p then cd_candidate c else cd_base c)" "asn_candidate ?g = cd_id c"
    using b(2) by (auto simp: routed_def)
  ultimately have "\<exists>g b. x = Governed g \<and> router_bucket ro m (rp_seed p) = Inr b \<and> asn_bucket g = b \<and> asn_candidate g = cd_id c \<and>
      asn_selected g = (if b < rp_basis_points p then cd_candidate c else cd_base c) \<and>
      (\<exists>v. get_assignment sha m d' = Inr (Some (Governed g, v)))"
    using b(1) routed_memorial(2) by metis
  moreover have "{b. selects_challenger b (rp_basis_points p) = Inr True} = {0..<rp_basis_points p}"
    using bp by (auto simp: selects_challenger_def split: if_split_asm)
  ultimately show ?thesis using bp by simp
qed

theorem routing_follows_policy_witness:
  "\<exists>g d'. demo_routed = Inr (Governed g, d') \<and> asn_bucket g = 700 \<and> asn_selected g = demo_ref ''2'' \<and>
     card {b. selects_challenger b 1000 = Inr True} = 1000"
proof -
  let ?p = "\<lparr>rp_basis_points = 1000, rp_seed = ''seed'', rp_version = 1\<rparr>" and ?c = "demo_candidate LCanary"
  obtain d' x where r: "demo_routed = Inr (x, d')" using demo_routed_stored by blast
  then have a: "assign_current flat_digest demo_router ''m1'' (Some 10) 11 demo_evolution = Inr (x, d')" by (simp add: demo_routed_def)
  have none: "get_assignment flat_digest ''m1'' demo_evolution = Inr None" by (simp add: get_assignment_def demo_evolution_def demo_runs_def empty_db_def)
  have c: "cd_routing ?c = Some ?p" "cd_candidate ?c = demo_ref ''2''" by (simp_all add: demo_candidate_def)
  from routing_follows_policy [OF demo_evolution_ok none demo_routable c(1) a] r c(2) show ?thesis
    by (auto simp: router_bucket_def demo_router_def)
qed

end
