(* ===== verification/Scheduled_Fires.thy ===== *)
theory Scheduled_Fires
  imports Scheduled_Runs Evolution_Safety Run_Safety
begin

text \<open>
  What a fire of the scheduler does, piece by piece, and that a fire that stands in the ledger is replayed. A fire is a
  sequence of steps of the life of runs, so that their invariant and theorems hold of the runs it creates.
\<close>

section \<open>The pieces of a fire\<close>

lemma compare_and_set_cursorD:
  assumes "compare_and_set_scheduler_cursor j t u st d = (True, d')" and job: "load_scheduler_job j d = Some job"
  shows "\<exists>jobs. d' = d\<lparr>db_jobs := jobs\<rparr> \<and> row_by jb_id j jobs =
           Some (if jb_status job = JobActive \<and> jb_next job = Some t then job\<lparr>jb_next := u, jb_status := st\<rparr> else job) \<and>
         (\<forall>i. i \<noteq> j \<longrightarrow> row_by jb_id i jobs = row_by jb_id i (db_jobs d))"
proof -
  let ?p = "\<lambda>r. jb_id r = j \<and> jb_status r = JobActive \<and> jb_next r = Some t"
  let ?jobs = "update_rows ?p (\<lambda>r. r\<lparr>jb_next := u, jb_status := st\<rparr>) (db_jobs d)"
  have d': "d' = d\<lparr>db_jobs := ?jobs\<rparr>" using assms(1) by (simp add: compare_and_set_scheduler_cursor_def update_jobs_def)
  have row: "row_by jb_id i ?jobs = map_option (\<lambda>r. if ?p r then r\<lparr>jb_next := u, jb_status := st\<rparr> else r) (row_by jb_id i (db_jobs d))" for i
    by (rule row_by_update_rows) simp
  have "row_by jb_id i ?jobs = row_by jb_id i (db_jobs d)" if "i \<noteq> j" for i
    using that row_by_SomeD [of jb_id i "db_jobs d"] by (cases "row_by jb_id i (db_jobs d)") (auto simp: row)
  moreover have "jb_id job = j" "row_by jb_id j (db_jobs d) = Some job"
    using job row_by_SomeD [of jb_id j "db_jobs d"] by (auto simp: load_scheduler_job_def)
  moreover from this have "row_by jb_id j ?jobs =
      Some (if jb_status job = JobActive \<and> jb_next job = Some t then job\<lparr>jb_next := u, jb_status := st\<rparr> else job)" by (simp add: row)
  ultimately show ?thesis using d' by blast
qed

lemma enqueue_named:
  assumes ok: "ledger_ok d" and e: "enqueue_initial sha now ni m t mx (Some i) d = Inr (a, d')"
  shows "ledger_ok d' \<and> evolves d d' \<and> a \<in> set (db_attempts d') \<and> at_memorial a = m \<and> at_no a = 1 \<and> at_available a = t \<and> at_max a = mx \<and>
    at_id a = i \<and> d' = d\<lparr>db_attempts := db_attempts d'\<rparr>"
proof -
  have "enqueue_initial sha now ''x'' m t mx (Some i) d = enqueue_initial sha now ni m t mx (Some i) d"
    unfolding enqueue_initial_def option.case ..
  then have "enqueue_initial sha now ''x'' m t mx (Some i) d = Inr (a, d')" using e by simp
  from enqueue_ok [OF ok _ this] have k: "ledger_ok d' \<and> evolves d d' \<and> a \<in> set (db_attempts d') \<and> at_memorial a = m \<and> at_no a = 1 \<and>
    at_available a = t \<and> at_max a = mx" by (simp add: blank_code is_space_def)
  obtain memorial where mem: "row_by mem_id m (db_memorials d) = Some memorial"
    using e by (cases "row_by mem_id m (db_memorials d)") (auto simp: enqueue_initial_def split: if_split_asm)
  have "at_id a = i \<and> d' = d\<lparr>db_attempts := db_attempts d'\<rparr>"
  proof (cases "find (\<lambda>a. at_memorial a = m \<and> at_no a = 1) (db_attempts d)")
    case (Some row)
    then show ?thesis using e mem by (auto simp: enqueue_initial_def split: if_split_asm)
  next
    case None
    then obtain c where ins: "insert_attempt (new_attempt i m 1 0 t mx (min now t) c) d = Inr d'" and sel: "select_attempt d' i = Inr (Some a)"
      using e mem by (auto simp: enqueue_initial_def Let_def split: if_split_asm option.split_asm)
    have "at_id a = i" using sel row_by_SomeD [of at_id i "db_attempts d'"]
      by (auto simp: select_attempt_def decode_attempt_def split: option.split_asm if_split_asm)
    then show ?thesis using insert_attempt_Inr(1) [OF ins] by simp
  qed
  with k show ?thesis by blast
qed

text \<open>The root of a fire: the submitted memorial that was given, or a new one.\<close>

definition fire_root :: "string \<Rightarrow> string \<Rightarrow> memorial_row \<Rightarrow> bool" where
  "fire_root e goal r = (mem_edict r = e \<and> mem_instruction r = goal \<and> mem_status r = TSubmitted \<and> mem_dag_node r = None \<and> mem_parent r = None)"

lemma prepare_memorial_Inr:
  assumes "prepare_memorial sha j e goal t initial s d = Inr (m, d')"
  shows "expected_memorial_id sha j t initial s = Inr m \<and> (\<exists>r. row_by mem_id m (db_memorials d') = Some r \<and> fire_root e goal r) \<and>
    (d' = d \<or> (\<exists>r. d' = d\<lparr>db_memorials := db_memorials d @ [r]\<rparr> \<and> mem_id r \<notin> mem_id ` set (db_memorials d) \<and> mem_status r = TSubmitted))"
proof -
  obtain m' where m': "expected_memorial_id sha j t initial s = Inr m'" using assms by (auto simp: prepare_memorial_def)
  show ?thesis
  proof (cases "has_memorial d m'")
    case True
    then have v: "validate_initial_memorial sha j e m' goal d = Inr ()" "m = m'" "d' = d"
      using assms m' by (auto simp: prepare_memorial_def split: if_split_asm)
    then show ?thesis using m' by (auto simp: validate_initial_memorial_def fire_root_def split: option.split_asm)
  next
    case False
    let ?r = "submitted_memorial m e goal None 1 None None t"
    have v: "insert_memorial ?r d = Inr d'" "m = m'" using assms m' False by (auto simp: prepare_memorial_def split: if_split_asm)
    then have d': "d' = d\<lparr>db_memorials := db_memorials d @ [?r]\<rparr>" and new: "mem_id ?r \<notin> mem_id ` set (db_memorials d)"
      by (auto simp: insert_memorial_def has_memorial_iff split: if_split_asm)
    have "row_by mem_id m (db_memorials d') = Some ?r"
      using new by (simp add: d' row_by_append row_by_None_iff [THEN iffD2] submitted_memorial_def)
    then show ?thesis using m' v(2) d' new by (auto simp: fire_root_def submitted_memorial_def)
  qed
qed

lemma assign_current_frame:
  assumes "assign_current sha ro m created now d = Inr (x, d')"
  shows "d' = d\<lparr>db_assignments := db_assignments d'\<rparr>" "\<not> blank m"
  using assign_current_Inr [OF assms] assms by (auto simp: assign_current_def split: if_split_asm)

text \<open>What a fire leaves for the run it starts.\<close>

definition run_prepared :: "(string \<Rightarrow> string) \<Rightarrow> string \<Rightarrow> string \<Rightarrow> (memorial_row \<Rightarrow> bool) \<Rightarrow> instant \<Rightarrow> int \<Rightarrow> db \<Rightarrow> bool" where
  "run_prepared sha m a fresh t max_attempts d =
     ((\<exists>r. row_by mem_id m (db_memorials d) = Some r \<and> fresh r) \<and>
      (\<exists>x. get_assignment sha m d = Inr (Some x)) \<and>
      (\<exists>b \<in> set (db_attempts d). at_id b = a \<and> at_memorial b = m \<and> at_no b = 1 \<and> at_available b = t \<and> at_max b = max_attempts))"

lemma get_assignment_same:
  "db_candidates d' = db_candidates d \<Longrightarrow> db_assignments d' = db_assignments d \<Longrightarrow> get_assignment sha m d' = get_assignment sha m d"
  using decode_same [of d' d] by (cases "row_by ag_memorial m (db_assignments d)") (simp_all add: get_assignment_def)

lemma run_prepared_same:
  assumes "run_prepared sha m a fresh t mx d" "db_memorials d' = db_memorials d" "db_attempts d' = db_attempts d"
    "db_candidates d' = db_candidates d" "db_assignments d' = db_assignments d"
  shows "run_prepared sha m a fresh t mx d'"
  using assms by (simp add: run_prepared_def get_assignment_same [OF assms(4,5)])

text \<open>The memorials, assignments and attempts a fire writes.\<close>

definition only_runs_differ :: "db \<Rightarrow> db \<Rightarrow> bool" where
  "only_runs_differ d d' = (\<exists>ms gs as. d' = d\<lparr>db_memorials := ms, db_assignments := gs, db_attempts := as\<rparr>)"

lemma only_runs_differ_refl [simp]: "only_runs_differ d d"
proof -
  have "d = d\<lparr>db_memorials := db_memorials d, db_assignments := db_assignments d, db_attempts := db_attempts d\<rparr>" by simp
  then show ?thesis unfolding only_runs_differ_def by blast
qed

lemma ledger_ok_memorials:
  assumes "ledger_ok d" "db_attempts d' = db_attempts d" "mem_id ` set (db_memorials d) \<subseteq> mem_id ` set (db_memorials d')"
  shows "ledger_ok d'"
  using assms by (auto simp: ledger_ok_def has_memorial_iff)

lemma start_of_run:
  assumes ok: "ledger_ok d" and root: "\<exists>r. row_by mem_id m (db_memorials d1) = Some r \<and> fire_root e goal r"
    and d1: "d1 = d \<or> (\<exists>r. d1 = d\<lparr>db_memorials := db_memorials d @ [r]\<rparr> \<and> P r)"
    and a: "assign_current sha ro m created now d1 = Inr (x, d2)"
    and q: "enqueue_initial sha now ni m t mx (Some i) d2 = Inr (b, d3)"
  shows "at_id b = i" "run_prepared sha m i (fire_root e goal) t mx d3" "only_runs_differ d d3" "ledger_ok d3" "evolves d d3"
proof -
  have one: "db_attempts d1 = db_attempts d" "mem_id ` set (db_memorials d) \<subseteq> mem_id ` set (db_memorials d1)" using d1 by auto
  note d2 = assign_current_frame(1) [OF a]
  have two: "db_attempts d2 = db_attempts d1" "db_memorials d2 = db_memorials d1" by (subst d2, simp)+
  have ok2: "ledger_ok d2" using ledger_ok_memorials [OF ok] one two by simp
  note k = enqueue_named [OF ok2 q]
  have d3: "d3 = d2\<lparr>db_attempts := db_attempts d3\<rparr>" using k by blast
  have three: "db_candidates d3 = db_candidates d2" "db_assignments d3 = db_assignments d2" "db_memorials d3 = db_memorials d2" by (subst d3, simp)+
  show "at_id b = i" "ledger_ok d3" using k by blast+
  show "evolves d d3" using k one two by (simp add: evolves_def)
  obtain v where "get_assignment sha m d2 = Inr (Some (x, v))" using assign_current_Inr [OF a] by blast
  then have "get_assignment sha m d3 = Inr (Some (x, v))" using get_assignment_same [OF three(1,2)] by simp
  then show "run_prepared sha m i (fire_root e goal) t mx d3" using root k three two unfolding run_prepared_def by auto
  obtain ms where ms: "d1 = d\<lparr>db_memorials := ms\<rparr>" 
  proof (cases "d1 = d")
    case True
    then have "d1 = d\<lparr>db_memorials := db_memorials d\<rparr>" by simp
    then show ?thesis by (rule that)
  next
    case False
    then show ?thesis using d1 that by blast
  qed
  obtain gs as where "d2 = d1\<lparr>db_assignments := gs\<rparr>" "d3 = d2\<lparr>db_attempts := as\<rparr>" using d2 d3 by blast
  then show "only_runs_differ d d3" unfolding only_runs_differ_def ms by auto
qed

lemma prepare_run_Inr:
  assumes ok: "ledger_ok d" and p: "prepare_run sha ro hook job s goal t initial mx now d = Inr ((m, a), d')"
  shows "expected_memorial_id sha (jb_id job) t initial s = Inr m" "a = fire_identity sha ''attempt'' (jb_id job) t" "\<not> blank m"
    and "run_prepared sha m a (fire_root (jb_edict job) goal) t mx d'" "only_runs_differ d d'" "ledger_ok d'" "evolves d d'"
proof -
  obtain d1 x d2 b where m: "prepare_memorial sha (jb_id job) (jb_edict job) goal t initial s d = Inr (m, d1)"
    and a: "assign_current sha ro m (Some t) now d1 = Inr (x, d2)"
    and q: "enqueue_initial sha now [] m t mx (Some (fire_identity sha ''attempt'' (jb_id job) t)) d2 = Inr (b, d')" and b: "a = at_id b"
    using p by (auto simp: prepare_run_def)
  note M = prepare_memorial_Inr [OF m]
  have root: "\<exists>r. row_by mem_id m (db_memorials d1) = Some r \<and> fire_root (jb_edict job) goal r"
    and d1: "d1 = d \<or> (\<exists>r. d1 = d\<lparr>db_memorials := db_memorials d @ [r]\<rparr> \<and> mem_id r \<notin> mem_id ` set (db_memorials d) \<and> mem_status r = TSubmitted)"
    using M by blast+
  note S = start_of_run [OF ok root d1 a q]
  show "expected_memorial_id sha (jb_id job) t initial s = Inr m" using M by blast
  show "\<not> blank m" by (rule assign_current_frame(2) [OF a])
  show "a = fire_identity sha ''attempt'' (jb_id job) t" using b S(1) by simp
  then show "run_prepared sha m a (fire_root (jb_edict job) goal) t mx d'" "only_runs_differ d d'" "ledger_ok d'" "evolves d d'" using S by simp_all
qed

lemma insert_schedule_run_Inr:
  "insert_schedule_run r d = Inr d' \<Longrightarrow> d' = d\<lparr>db_schedule_runs := db_schedule_runs d @ [r]\<rparr> \<and> sr_id r \<notin> sr_id ` set (db_schedule_runs d)"
  by (auto simp: insert_schedule_run_def list_ex_iff split: if_split_asm)

section \<open>A fire\<close>

text \<open>The fire a preparation answers with, by the run it started.\<close>

definition fire_of ::
  "(string \<Rightarrow> string) \<Rightarrow> job_row \<Rightarrow> instant \<Rightarrow> instant option \<Rightarrow> string \<Rightarrow> (string \<times> string) option \<Rightarrow> bool \<Rightarrow> prepared_fire" where
  "fire_of sha job t next_run status run deduplicated =
     \<lparr>pf_fire = fire_identity sha ''fire'' (jb_id job) t, pf_job = jb_id job, pf_edict = jb_edict job, pf_scheduled = t,
      pf_next = next_run, pf_status = status, pf_memorial = map_option fst run, pf_attempt = map_option snd run,
      pf_run = fire_identity sha ''schedule-run'' (jb_id job) t, pf_deduplicated = deduplicated\<rparr>"

definition skips :: "job_row \<Rightarrow> edict_schedule \<Rightarrow> string option \<Rightarrow> db \<Rightarrow> bool" where
  "skips job s initial d = (es_type s \<in> {SchedCron, SchedInterval} \<and> es_skip s \<and> has_active_root (jb_edict job) initial d)"

text \<open>What a new fire has done, \<open>run\<close> being the run it started, if it did.\<close>

definition fired ::
  "(string \<Rightarrow> string) \<Rightarrow> job_row \<Rightarrow> edict_schedule \<Rightarrow> string \<Rightarrow> instant \<Rightarrow> instant option \<Rightarrow> string option \<Rightarrow> int \<Rightarrow>
   (string \<times> string) option \<Rightarrow> db \<Rightarrow> db \<Rightarrow> bool" where
  "fired sha job s goal t next_run initial mx run d d' =
     (let status = (if run = None then ''skipped'' else ''prepared'')
      in jb_status job = JobActive \<and> jb_next job = Some t \<and>
         db_schedule_runs d' =
           db_schedule_runs d @ [fire_row sha job t status (fire_fingerprint sha job s t next_run initial status mx)] \<and>
         fire_identity sha ''schedule-run'' (jb_id job) t \<notin> sr_id ` set (db_schedule_runs d) \<and>
         row_by jb_id (jb_id job) (db_jobs d') =
           Some (job\<lparr>jb_next := next_run, jb_status := (if terminal_schedule s then JobCompleted else JobActive)\<rparr>) \<and>
         (\<forall>i. i \<noteq> jb_id job \<longrightarrow> row_by jb_id i (db_jobs d') = row_by jb_id i (db_jobs d)) \<and>
         db_edicts d' = db_edicts d \<and> db_candidates d' = db_candidates d \<and>
         (case run of
            None \<Rightarrow> skips job s initial d \<and> db_memorials d' = db_memorials d \<and> db_assignments d' = db_assignments d \<and>
                    db_attempts d' = db_attempts d
          | Some (m, a) \<Rightarrow> \<not> skips job s initial d \<and> expected_memorial_id sha (jb_id job) t initial s = Inr m \<and> \<not> blank m \<and>
              a = fire_identity sha ''attempt'' (jb_id job) t \<and> run_prepared sha m a (fire_root (jb_edict job) goal) t mx d'))"

lemma new_fireD:
  assumes f: "new_fire sha ro hook job s goal t next_run initial mx now d = Inr (f, d')"
  obtains run d1 d2 status where "jb_status job = JobActive" "jb_next job = Some t"
    "status = (if skips job s initial d then ''skipped'' else ''prepared'')"
    "(if skips job s initial d then Inr (None, d)
        else and_then (prepare_run sha ro hook job s goal t initial mx now d) (\<lambda>(x, d1). Inr (Some x, d1))) = Inr (run, d1)"
    "insert_schedule_run (fire_row sha job t status (fire_fingerprint sha job s t next_run initial status mx)) d1 = Inr d2"
    "compare_and_set_scheduler_cursor (jb_id job) t (if terminal_schedule s then None else next_run)
        (if terminal_schedule s then JobCompleted else JobActive) d2 = (True, d')"
    "f = fire_of sha job t (if terminal_schedule s then None else next_run) status run False"
proof -
  let ?status = "if skips job s initial d then ''skipped'' else ''prepared''"
  obtain run d1 d2 where act: "jb_status job = JobActive" "jb_next job = Some t"
    and run: "(if skips job s initial d then Inr (None, d)
        else and_then (prepare_run sha ro hook job s goal t initial mx now d) (\<lambda>(x, d1). Inr (Some x, d1))) = Inr (run, d1)"
    and ins: "insert_schedule_run (fire_row sha job t ?status (fire_fingerprint sha job s t next_run initial ?status mx)) d1 = Inr d2"
    and rest: "(case compare_and_set_scheduler_cursor (jb_id job) t (if terminal_schedule s then None else next_run)
        (if terminal_schedule s then JobCompleted else JobActive) d2 of (moved, d3) \<Rightarrow>
           if \<not> moved then Inl (ScheduledFireConflict ''scheduler cursor changed during preparation'')
           else Inr (fire_of sha job t (if terminal_schedule s then None else next_run) ?status run False, d3)) = Inr (f, d')"
    using f unfolding new_fire_def Let_def skips_def [symmetric] fire_of_def by auto
  have "compare_and_set_scheduler_cursor (jb_id job) t (if terminal_schedule s then None else next_run)
        (if terminal_schedule s then JobCompleted else JobActive) d2 = (True, d')"
    "f = fire_of sha job t (if terminal_schedule s then None else next_run) ?status run False"
    using rest by (simp_all split: prod.split_asm if_split_asm)
  then show ?thesis by (rule that [OF act refl run ins])
qed

lemma new_fire_Inr:
  assumes ok: "ledger_ok d" and job: "load_scheduler_job (jb_id job) d = Some job"
    and n: "terminal_schedule s \<Longrightarrow> next_run = None"
    and f: "new_fire sha ro hook job s goal t next_run initial mx now d = Inr (f, d')"
  shows "\<exists>run. f = fire_of sha job t next_run (if run = None then ''skipped'' else ''prepared'') run False \<and>
    fired sha job s goal t next_run initial mx run d d' \<and> ledger_ok d' \<and> evolves d d'"
proof -
  let ?skip = "skips job s initial d"
  let ?status = "if ?skip then ''skipped'' else ''prepared''"
  let ?row = "fire_row sha job t ?status (fire_fingerprint sha job s t next_run initial ?status mx)"
  obtain run d1 d2 where act: "jb_status job = JobActive" "jb_next job = Some t"
    and run: "(if ?skip then Inr (None, d)
        else and_then (prepare_run sha ro hook job s goal t initial mx now d) (\<lambda>(x, d1). Inr (Some x, d1))) = Inr (run, d1)"
    and ins: "insert_schedule_run ?row d1 = Inr d2"
    and cas: "compare_and_set_scheduler_cursor (jb_id job) t (if terminal_schedule s then None else next_run)
        (if terminal_schedule s then JobCompleted else JobActive) d2 = (True, d')"
    and f': "f = fire_of sha job t (if terminal_schedule s then None else next_run) ?status run False"
    using new_fireD [OF f] by blast
  have nx: "(if terminal_schedule s then None else next_run) = next_run" using n by simp
  have st: "run = None \<longleftrightarrow> ?skip" using run by (auto split: if_split_asm)
  have one: "ledger_ok d1 \<and> evolves d d1 \<and> only_runs_differ d d1 \<and>
    (case run of None \<Rightarrow> d1 = d | Some (m, a) \<Rightarrow> expected_memorial_id sha (jb_id job) t initial s = Inr m \<and> \<not> blank m \<and>
       a = fire_identity sha ''attempt'' (jb_id job) t \<and> run_prepared sha m a (fire_root (jb_edict job) goal) t mx d1)"
  proof (cases run)
    case None
    then show ?thesis using run ok by (auto split: if_split_asm)
  next
    case (Some x)
    then obtain m a where "run = Some (m, a)" "prepare_run sha ro hook job s goal t initial mx now d = Inr ((m, a), d1)"
      using run by (cases x) (auto split: if_split_asm)
    then show ?thesis using prepare_run_Inr [OF ok] by simp
  qed
  note I = insert_schedule_run_Inr [OF ins]
  have eq1: "db_jobs d1 = db_jobs d" "db_edicts d1 = db_edicts d" "db_candidates d1 = db_candidates d" "db_schedule_runs d1 = db_schedule_runs d"
    using one by (auto simp: only_runs_differ_def)
  have "load_scheduler_job (jb_id job) d2 = Some job" using job I eq1(1) by (simp add: load_scheduler_job_def)
  from compare_and_set_cursorD [OF cas this] obtain jobs where d': "d' = d2\<lparr>db_jobs := jobs\<rparr>"
    and jobs: "row_by jb_id (jb_id job) jobs = Some (job\<lparr>jb_next := next_run, jb_status := (if terminal_schedule s then JobCompleted else JobActive)\<rparr>)"
      "\<forall>i. i \<noteq> jb_id job \<longrightarrow> row_by jb_id i jobs = row_by jb_id i (db_jobs d2)" using act nx by auto
  have d2: "d2 = d1\<lparr>db_schedule_runs := db_schedule_runs d1 @ [?row]\<rparr>" using I by blast
  have same: "db_memorials d' = db_memorials d1" "db_attempts d' = db_attempts d1" "db_candidates d' = db_candidates d1"
    "db_assignments d' = db_assignments d1" by (simp_all add: d' d2)
  have "fired sha job s goal t next_run initial mx run d d'"
    unfolding fired_def Let_def using act jobs I eq1 st one run_prepared_same [OF _ same]
    by (cases run) (auto simp: d' d2 fire_row_def)
  moreover have "ledger_ok d'" using one same(1,2) by (simp add: ledger_ok_def has_memorial_iff)
  moreover have "evolves d d'" using one same(2) by (simp add: evolves_def)
  moreover have "f = fire_of sha job t next_run (if run = None then ''skipped'' else ''prepared'') run False" using f' nx st by simp
  ultimately show ?thesis by blast
qed

section \<open>Replays\<close>

text \<open>A fire that stands in the ledger: the envelope of the job agrees with what is stored, and the run has its assignment.\<close>

definition fire_stands ::
  "(string \<Rightarrow> string) \<Rightarrow> cron \<Rightarrow> string \<Rightarrow> instant \<Rightarrow> string option \<Rightarrow> instant option \<Rightarrow> prepared_fire \<Rightarrow> db \<Rightarrow> bool" where
  "fire_stands sha cron_next j t initial requested f d =
     (\<exists>job e s limit next_run row.
        load_scheduler_job j d = Some job \<and> row_by ed_id (jb_edict job) (db_edicts d) = Some e \<and> ed_status e = EdOpen \<and>
        \<not> ed_archived e \<and> ed_schedule e = Some s \<and> ed_retry_limit e = Some limit \<and> es_type s = jb_type job \<and>
        next_cursor cron_next job s t requested = Inr next_run \<and>
        row_by sr_id (fire_identity sha ''schedule-run'' j t) (db_schedule_runs d) = Some row \<and>
        resolve_replay sha row (jb_id job) (jb_edict job) t next_run initial s
          (fire_fingerprint sha job s t next_run initial (sr_status row) (limit + 1)) (limit + 1) d = Inr f \<and>
        (\<forall>m. pf_memorial f = Some m \<longrightarrow> \<not> blank m \<and> (\<exists>x. get_assignment sha m d = Inr (Some x))))"

lemma standing_fire_replays:
  assumes "fire_stands sha cron_next j t initial requested f d" and "\<not> blank j"
  shows "prepare sha ro cron_next hook j t initial requested now d = (Inr f, d)"
proof -
  obtain job e s limit next_run row where k: "load_scheduler_job j d = Some job" "row_by ed_id (jb_edict job) (db_edicts d) = Some e"
    "ed_status e = EdOpen" "\<not> ed_archived e" "ed_schedule e = Some s" "ed_retry_limit e = Some limit" "es_type s = jb_type job"
    "next_cursor cron_next job s t requested = Inr next_run"
    "row_by sr_id (fire_identity sha ''schedule-run'' j t) (db_schedule_runs d) = Some row"
    and r: "resolve_replay sha row (jb_id job) (jb_edict job) t next_run initial s
        (fire_fingerprint sha job s t next_run initial (sr_status row) (limit + 1)) (limit + 1) d = Inr f"
    and m: "\<And>m. pf_memorial f = Some m \<Longrightarrow> \<not> blank m \<and> (\<exists>x. get_assignment sha m d = Inr (Some x))"
    using assms(1) unfolding fire_stands_def by blast
  have "replay_fire sha ro job s t next_run initial (limit + 1) now row d = Inr (f, d)"
    using m unfolding replay_fire_def r by (cases "pf_memorial f") (auto simp: assign_current_def)
  then show ?thesis using k assms(2) by (simp add: prepare_def prepare_body_def atomically_def)
qed

text \<open>What a preparation reads before it decides between a replay and a new fire.\<close>

lemma prepareD:
  assumes "prepare sha ro cron_next hook j t initial requested now d = (Inr f, d')"
  obtains job e s limit next_run where "\<not> blank j" "load_scheduler_job j d = Some job" "jb_id job = j"
    "row_by ed_id (jb_edict job) (db_edicts d) = Some e" "ed_status e = EdOpen" "\<not> ed_archived e" "ed_schedule e = Some s"
    "ed_retry_limit e = Some limit" "es_type s = jb_type job" "next_cursor cron_next job s t requested = Inr next_run"
    "(case row_by sr_id (fire_identity sha ''schedule-run'' j t) (db_schedule_runs d) of
        Some row \<Rightarrow> replay_fire sha ro job s t next_run initial (limit + 1) now row d
      | None \<Rightarrow> new_fire sha ro hook job s (ed_goal e) t next_run initial (limit + 1) now d) = Inr (f, d')"
proof -
  have j: "\<not> blank j" and b: "prepare_body sha ro cron_next hook j t initial requested now d = Inr (f, d')"
    using assms by (auto simp: prepare_def split: if_split_asm)
  obtain job where job: "load_scheduler_job j d = Some job" using b by (cases "load_scheduler_job j d") (auto simp: prepare_body_def)
  then have id: "jb_id job = j" using row_by_SomeD [of jb_id j "db_jobs d"] by (simp add: load_scheduler_job_def)
  obtain e where e: "row_by ed_id (jb_edict job) (db_edicts d) = Some e"
    using b job by (cases "row_by ed_id (jb_edict job) (db_edicts d)") (auto simp: prepare_body_def)
  then have open_edict: "ed_status e = EdOpen" "\<not> ed_archived e" using b job by (auto simp: prepare_body_def split: if_split_asm)
  then obtain s limit where s: "ed_schedule e = Some s" "ed_retry_limit e = Some limit"
    using b job e by (cases "ed_schedule e"; cases "ed_retry_limit e") (auto simp: prepare_body_def)
  have ty: "es_type s = jb_type job" using b job e open_edict s by (auto simp: prepare_body_def split: if_split_asm)
  then obtain n where n: "next_cursor cron_next job s t requested = Inr n" using b job e open_edict s by (auto simp: prepare_body_def)
  show ?thesis using that [OF j job id e open_edict s ty n] b job e open_edict s ty n by (simp add: prepare_body_def)
qed

lemma resolve_replay_Inr:
  assumes "resolve_replay sha row j e t next_run initial s fingerprint mx d = Inr f"
  shows "pf_deduplicated f" "pf_next f = next_run" "pf_memorial f \<noteq> None \<Longrightarrow> expected_memorial_id sha j t initial s = Inr (the (pf_memorial f))"
  using assms by (auto simp: resolve_replay_def Let_def split: if_split_asm option.split_asm)

lemma resolve_replay_evolves:
  assumes r: "resolve_replay sha row j e t next_run initial s fingerprint mx d = Inr f" and ev: "evolves d d'" and ok: "ledger_ok d'"
  shows "resolve_replay sha row j e t next_run initial s fingerprint mx d' = Inr f"
proof (cases "sr_status row = ''skipped''")
  case True
  then show ?thesis using r by (auto simp: resolve_replay_def Let_def split: if_split_asm)
next
  case False
  let ?i = "fire_identity sha ''attempt'' j t"
  obtain m where m: "expected_memorial_id sha j t initial s = Inr m" using r False by (auto simp: resolve_replay_def Let_def split: if_split_asm)
  obtain a where a: "find (\<lambda>a. at_id a = ?i \<and> at_memorial a = m \<and> at_no a = 1) (db_attempts d) = Some a"
    using r False m by (auto simp: resolve_replay_def Let_def split: if_split_asm option.split_asm)
  then have a': "a \<in> set (db_attempts d)" "at_id a = ?i" "at_memorial a = m" "at_no a = 1" by (auto simp: find_Some_iff)
  obtain b where b: "b \<in> set (db_attempts d')" "row_evolves a b" using ev a'(1) by (auto simp: evolves_def)
  then have b': "at_id b = ?i" "at_memorial b = m" "at_no b = 1" "at_max b = at_max a" using a' by (auto simp: row_evolves_def transition_ok_def)
  then obtain c where c: "find (\<lambda>a. at_id a = ?i \<and> at_memorial a = m \<and> at_no a = 1) (db_attempts d') = Some c"
    using b(1) by (cases "find (\<lambda>a. at_id a = ?i \<and> at_memorial a = m \<and> at_no a = 1) (db_attempts d')") (auto simp: find_None_iff)
  then have "c \<in> set (db_attempts d')" "at_id c = ?i" by (auto simp: find_Some_iff)
  then have "c = b" using ledger_okD(1) [OF ok] b(1) b'(1) by (metis (no_types) distinct_map inj_on_eq_iff)
  then show ?thesis using r m a c a'(2) b' by (simp add: resolve_replay_def Let_def split: if_split_asm)
qed

text \<open>The tables a replay reads, apart from the attempts.\<close>

definition same_schedule :: "db \<Rightarrow> db \<Rightarrow> bool" where
  "same_schedule d d' =
     (db_jobs d' = db_jobs d \<and> db_edicts d' = db_edicts d \<and> db_schedule_runs d' = db_schedule_runs d \<and>
      db_candidates d' = db_candidates d \<and> db_assignments d' = db_assignments d)"

lemma fire_stands_on:
  assumes f: "fire_stands sha cron_next j t initial requested f d" and same: "same_schedule d d'" and ev: "evolves d d'" and ok: "ledger_ok d'"
  shows "fire_stands sha cron_next j t initial requested f d'"
proof -
  have eq: "load_scheduler_job i d' = load_scheduler_job i d" "db_edicts d' = db_edicts d" "db_schedule_runs d' = db_schedule_runs d"
    "get_assignment sha m d' = get_assignment sha m d" for i m
    using same by (auto simp: same_schedule_def load_scheduler_job_def intro: get_assignment_same)
  show ?thesis using f resolve_replay_evolves [OF _ ev ok] unfolding fire_stands_def eq by blast
qed

lemma moved_job:
  "next_cursor cron_next (job\<lparr>jb_next := u, jb_status := st\<rparr>) s t requested = next_cursor cron_next job s t requested"
  "fire_fingerprint sha (job\<lparr>jb_next := u, jb_status := st\<rparr>) = fire_fingerprint sha job"
  by (cases "es_type s"; simp add: next_cursor_def) (simp add: fire_fingerprint_def fire_json_def fun_eq_iff)

lemma fire_row_status: "sr_status (fire_row sha job t status fingerprint) = status"
  by (simp add: fire_row_def)

lemma new_fire_stands:
  assumes f: "fired sha job s goal t next_run initial mx run d d'" and job: "load_scheduler_job (jb_id job) d = Some job"
    and e: "row_by ed_id (jb_edict job) (db_edicts d) = Some e" "ed_status e = EdOpen" "\<not> ed_archived e" "ed_schedule e = Some s"
      "ed_retry_limit e = Some limit" "es_type s = jb_type job" and mx: "mx = limit + 1"
    and n: "next_cursor cron_next job s t requested = Inr next_run" and ok: "ledger_ok d'"
  shows "fire_stands sha cron_next (jb_id job) t initial requested
    (fire_of sha job t next_run (if run = None then ''skipped'' else ''prepared'') run True) d'"
proof -
  let ?status = "if run = None then ''skipped'' else ''prepared''"
  let ?row = "fire_row sha job t ?status (fire_fingerprint sha job s t next_run initial ?status mx)"
  let ?job = "job\<lparr>jb_next := next_run, jb_status := (if terminal_schedule s then JobCompleted else JobActive)\<rparr>"
  let ?f = "fire_of sha job t next_run ?status run True"
  have runs: "db_schedule_runs d' = db_schedule_runs d @ [?row]" and new: "sr_id ?row \<notin> sr_id ` set (db_schedule_runs d)"
    and job': "load_scheduler_job (jb_id job) d' = Some ?job" and ed: "db_edicts d' = db_edicts d"
    using f by (simp_all add: fired_def Let_def load_scheduler_job_def fire_row_def)
  have row: "row_by sr_id (fire_identity sha ''schedule-run'' (jb_id job) t) (db_schedule_runs d') = Some ?row"
    using new by (simp add: runs row_by_append row_by_None_iff [THEN iffD2] fire_row_def)
  have r: "resolve_replay sha ?row (jb_id job) (jb_edict job) t next_run initial s
      (fire_fingerprint sha job s t next_run initial ?status mx) mx d' = Inr ?f"
  proof (cases run)
    case None
    then show ?thesis by (simp add: resolve_replay_def fire_row_def e(6) fire_of_def)
  next
    case (Some x)
    then obtain m a where x: "run = Some (m, a)" by (cases x) simp
    then have m: "expected_memorial_id sha (jb_id job) t initial s = Inr m" "a = fire_identity sha ''attempt'' (jb_id job) t"
      "run_prepared sha m a (fire_root (jb_edict job) goal) t mx d'" using f by (auto simp: fired_def Let_def)
    then obtain b where b: "b \<in> set (db_attempts d')" "at_id b = a" "at_memorial b = m" "at_no b = 1" "at_max b = mx" by (auto simp: run_prepared_def)
    let ?P = "\<lambda>x. at_id x = a \<and> at_memorial x = m \<and> at_no x = 1"
    obtain c where c: "find ?P (db_attempts d') = Some c" using b by (cases "find ?P (db_attempts d')") (auto simp: find_None_iff)
    then have "c \<in> set (db_attempts d')" "at_id c = a" by (auto simp: find_Some_iff)
    then have "c = b" using ledger_okD(1) [OF ok] b(1,2) by (metis (no_types) distinct_map inj_on_eq_iff)
    then show ?thesis using m(1) c b(2,5) by (simp add: resolve_replay_def fire_row_def e(6) fire_of_def x Let_def m(2) [symmetric])
  qed
  have "\<forall>m. pf_memorial ?f = Some m \<longrightarrow> \<not> blank m \<and> (\<exists>x. get_assignment sha m d' = Inr (Some x))"
    using f by (cases run) (auto simp: fire_of_def fired_def Let_def run_prepared_def)
  then show ?thesis unfolding fire_stands_def using job' e n row r ed mx
    by (intro exI [of _ ?job] exI [of _ e] exI [of _ s] exI [of _ limit] exI [of _ next_run] exI [of _ ?row]) (simp add: moved_job fire_row_status split del: if_split)
qed

lemma next_cursor_terminal: "next_cursor cron_next job s t requested = Inr next_run \<Longrightarrow> terminal_schedule s \<Longrightarrow> next_run = None"
  by (cases "es_type s") (auto simp: next_cursor_def terminal_schedule_def split: if_split_asm)

text \<open>A preparation that succeeds replays a standing fire or makes a new one, and leaves it standing.\<close>

lemma prepare_Inr:
  assumes ok: "ledger_ok d" and p: "prepare sha ro cron_next hook j t initial requested now d = (Inr f, d')"
  shows "fire_stands sha cron_next j t initial requested (f\<lparr>pf_deduplicated := True\<rparr>) d'" "ledger_ok d'" "evolves d d'" "\<not> blank j"
    and "if pf_deduplicated f then d' = d\<lparr>db_assignments := db_assignments d'\<rparr>
         else \<exists>job e s limit run. load_scheduler_job j d = Some job \<and> row_by ed_id (jb_edict job) (db_edicts d) = Some e \<and> ed_status e = EdOpen \<and>
           ed_schedule e = Some s \<and> ed_retry_limit e = Some limit \<and> next_cursor cron_next job s t requested = Inr (pf_next f) \<and>
           f = fire_of sha job t (pf_next f) (if run = None then ''skipped'' else ''prepared'') run False \<and>
           fired sha job s (ed_goal e) t (pf_next f) initial (limit + 1) run d d'"
proof -
  obtain job e s limit n where j: "\<not> blank j" and job: "load_scheduler_job j d = Some job" and id: "jb_id job = j"
    and e: "row_by ed_id (jb_edict job) (db_edicts d) = Some e" "ed_status e = EdOpen" "\<not> ed_archived e" "ed_schedule e = Some s"
      "ed_retry_limit e = Some limit" "es_type s = jb_type job" and n: "next_cursor cron_next job s t requested = Inr n"
    and b: "(case row_by sr_id (fire_identity sha ''schedule-run'' j t) (db_schedule_runs d) of
        Some row \<Rightarrow> replay_fire sha ro job s t n initial (limit + 1) now row d
      | None \<Rightarrow> new_fire sha ro hook job s (ed_goal e) t n initial (limit + 1) now d) = Inr (f, d')"
    using prepareD [OF p] by blast
  have K: "fire_stands sha cron_next j t initial requested (f\<lparr>pf_deduplicated := True\<rparr>) d' \<and> ledger_ok d' \<and> evolves d d' \<and>
    (if pf_deduplicated f then d' = d\<lparr>db_assignments := db_assignments d'\<rparr>
     else \<exists>run. pf_next f = n \<and> f = fire_of sha job t n (if run = None then ''skipped'' else ''prepared'') run False \<and>
       fired sha job s (ed_goal e) t n initial (limit + 1) run d d')"
  proof (cases "row_by sr_id (fire_identity sha ''schedule-run'' j t) (db_schedule_runs d)")
    case None
    then have f: "new_fire sha ro hook job s (ed_goal e) t n initial (limit + 1) now d = Inr (f, d')" using b by simp
    from new_fire_Inr [OF ok _ _ f] job id next_cursor_terminal [OF n] obtain run
      where run: "f = fire_of sha job t n (if run = None then ''skipped'' else ''prepared'') run False"
        and fi: "fired sha job s (ed_goal e) t n initial (limit + 1) run d d'" and ok': "ledger_ok d'" "evolves d d'" by auto
    have "fire_stands sha cron_next j t initial requested (f\<lparr>pf_deduplicated := True\<rparr>) d'"
      using new_fire_stands [OF fi _ e refl n ok'(1)] job id by (simp add: run fire_of_def)
    then show ?thesis using run fi ok' by (auto simp: fire_of_def)
  next
    case (Some row)
    then have rep: "replay_fire sha ro job s t n initial (limit + 1) now row d = Inr (f, d')" using b by simp
    then have r: "resolve_replay sha row (jb_id job) (jb_edict job) t n initial s
        (fire_fingerprint sha job s t n initial (sr_status row) (limit + 1)) (limit + 1) d = Inr f"
      unfolding replay_fire_def by (auto split: option.split_asm)
    have m: "d' = d\<lparr>db_assignments := db_assignments d'\<rparr>" "\<forall>m. pf_memorial f = Some m \<longrightarrow> \<not> blank m \<and> (\<exists>x. get_assignment sha m d' = Inr (Some x))"
      using rep r assign_current_frame assign_current_Inr unfolding replay_fire_def by (cases "pf_memorial f"; fastforce)+
    have same: "db_jobs d' = db_jobs d" "db_edicts d' = db_edicts d" "db_schedule_runs d' = db_schedule_runs d" "db_attempts d' = db_attempts d"
      "db_memorials d' = db_memorials d" by (subst m(1), simp)+
    have ok': "ledger_ok d'" "evolves d d'" using ok same by (simp_all add: ledger_ok_def has_memorial_iff evolves_mono)
    have dd: "f\<lparr>pf_deduplicated := True\<rparr> = f" using resolve_replay_Inr(1) [OF r] by simp
    have "fire_stands sha cron_next j t initial requested f d'"
      unfolding fire_stands_def using job e n Some resolve_replay_evolves [OF r ok'(2,1)] m(2)
      by (intro exI [of _ job] exI [of _ e] exI [of _ s] exI [of _ limit] exI [of _ n] exI [of _ row]) (simp add: same load_scheduler_job_def)
    then have "fire_stands sha cron_next j t initial requested (f\<lparr>pf_deduplicated := True\<rparr>) d'" unfolding dd .
    then show ?thesis using resolve_replay_Inr(1) [OF r] ok' m(1) by simp
  qed
  then show "fire_stands sha cron_next j t initial requested (f\<lparr>pf_deduplicated := True\<rparr>) d'" "ledger_ok d'" "evolves d d'" "\<not> blank j"
    using j by blast+
  show "if pf_deduplicated f then d' = d\<lparr>db_assignments := db_assignments d'\<rparr>
         else \<exists>job e s limit run. load_scheduler_job j d = Some job \<and> row_by ed_id (jb_edict job) (db_edicts d) = Some e \<and> ed_status e = EdOpen \<and>
           ed_schedule e = Some s \<and> ed_retry_limit e = Some limit \<and> next_cursor cron_next job s t requested = Inr (pf_next f) \<and>
           f = fire_of sha job t (pf_next f) (if run = None then ''skipped'' else ''prepared'') run False \<and>
           fired sha job s (ed_goal e) t (pf_next f) initial (limit + 1) run d d'"
  proof (cases "pf_deduplicated f")
    case True
    then show ?thesis using K by simp
  next
    case False
    then have "\<exists>run. pf_next f = n \<and> f = fire_of sha job t n (if run = None then ''skipped'' else ''prepared'') run False \<and>
       fired sha job s (ed_goal e) t n initial (limit + 1) run d d'" using K by presburger
    then obtain run where "n = pf_next f" "f = fire_of sha job t n (if run = None then ''skipped'' else ''prepared'') run False"
      "fired sha job s (ed_goal e) t n initial (limit + 1) run d d'" by blast
    then show ?thesis unfolding if_not_P [OF False] using job e n by blast
  qed
qed

section \<open>Fires as steps of the life of runs\<close>

lemma bystander_step:
  assumes inv: "runs_ok sha redact d" and d': "d' = d\<lparr>db_assignments := gs, db_schedule_runs := rs, db_jobs := js\<rparr>"
  shows "life_step sha redact secret repr d d'"
proof (rule life_step.other)
  have inv0: "runs_inv sha redact {} d" using inv by (simp add: runs_ok_def)
  show "db_attempts d' = db_attempts d" "db_memorials d' = db_memorials d" by (simp_all add: d')
  show "terminal_events d' m = terminal_events d m" for m by (simp add: d' terminal_events_def)
  show "m \<in> mem_id ` set (db_memorials d)" if "o' \<in> set (db_outbox d')" "ob_memorial o' = Some m" for o' m
    using inv0 that by (simp add: runs_inv_def d')
  show "states_ok sha redact d'" using runs_invD(2) [OF inv0] by (simp add: states_ok_def d')
qed

lemma assign_step:
  assumes inv: "runs_ok sha redact d" and a: "assign_current sha ro m created now d = Inr (x, d')"
  shows "life_step sha redact secret repr d d'"
proof (rule bystander_step [OF inv])
  show "d' = d\<lparr>db_assignments := db_assignments d', db_schedule_runs := db_schedule_runs d, db_jobs := db_jobs d\<rparr>"
    by (subst assign_current_frame(1) [OF a]) simp
qed

lemma enqueue_step:
  assumes inv: "runs_ok sha redact d" and r: "row_by mem_id m (db_memorials d) = Some r" "open_status (mem_status r)"
    and q: "enqueue_initial sha now ni m t mx (Some i) d = Inr (b, d')"
  shows "life_step sha redact secret repr d d'"
proof -
  have dist: "distinct (map mem_id (db_memorials d))" using runs_invD(3) inv by (simp add: runs_ok_def)
  have "\<not> closed_root r'" if "r' \<in> set (db_memorials d)" "mem_id r' = m" for r'
    using row_by_unique [OF dist, of r'] that r by (auto simp: closed_root_def)
  moreover have "enqueue_initial sha now ''x'' m t mx (Some i) d = enqueue_initial sha now ni m t mx (Some i) d"
    unfolding enqueue_initial_def option.case ..
  ultimately show ?thesis using q by (intro life_step.enqueue [of "''x''"]) (auto simp: blank_code is_space_def)
qed

lemma start_life:
  assumes inv: "runs_ok sha redact d" and root: "\<exists>r. row_by mem_id m (db_memorials d1) = Some r \<and> fire_root e goal r"
    and d1: "d1 = d \<or> (\<exists>r. d1 = d\<lparr>db_memorials := db_memorials d @ [r]\<rparr> \<and> mem_id r \<notin> mem_id ` set (db_memorials d) \<and> mem_status r = TSubmitted)"
    and a: "assign_current sha ro m created now d1 = Inr (x, d2)"
    and q: "enqueue_initial sha now ni m t mx (Some i) d2 = Inr (b, d3)"
  shows "(life_step sha redact secret repr)\<^sup>*\<^sup>* d d3 \<and> runs_ok sha redact d3"
proof -
  let ?L = "life_step sha redact secret repr"
  have "?L d d1" if "d1 = d\<lparr>db_memorials := db_memorials d @ [r]\<rparr>" "mem_id r \<notin> mem_id ` set (db_memorials d)" "mem_status r = TSubmitted" for r
    using life_step.submit [OF that(2) _ that(1)] that(3) by (simp add: open_status_def)
  then have one: "?L\<^sup>*\<^sup>* d d1" using d1 by blast
  then have inv1: "runs_ok sha redact d1" using runs.steps_inv_evo [OF _ inv] by blast
  have two: "?L d1 d2" by (rule assign_step [OF inv1 a])
  have inv2: "runs_ok sha redact d2" using runs.step_inv [OF inv1 two] .
  have mem: "db_memorials d2 = db_memorials d1" by (subst assign_current_frame(1) [OF a]) simp
  obtain r where r: "row_by mem_id m (db_memorials d1) = Some r" "fire_root e goal r" using root by blast
  then have three: "?L d2 d3" using enqueue_step [OF inv2 _ _ q] by (simp add: mem fire_root_def open_status_def)
  then have "runs_ok sha redact d3" using runs.step_inv [OF inv2] by blast
  then show ?thesis using one two three by auto
qed

lemma prepare_run_life:
  assumes inv: "runs_ok sha redact d" and p: "prepare_run sha ro hook job s goal t initial mx now d = Inr ((m, a), d')"
  shows "(life_step sha redact secret repr)\<^sup>*\<^sup>* d d' \<and> runs_ok sha redact d'"
proof -
  obtain d1 x d2 b where m: "prepare_memorial sha (jb_id job) (jb_edict job) goal t initial s d = Inr (m, d1)"
    and a: "assign_current sha ro m (Some t) now d1 = Inr (x, d2)"
    and q: "enqueue_initial sha now [] m t mx (Some (fire_identity sha ''attempt'' (jb_id job) t)) d2 = Inr (b, d')"
    using p by (auto simp: prepare_run_def)
  show ?thesis using start_life [OF inv _ _ a q] prepare_memorial_Inr [OF m] by blast
qed

lemma prepare_life:
  assumes inv: "runs_ok sha redact d" and p: "prepare sha ro cron_next hook j t initial requested now d = (res, d')"
  shows "(life_step sha redact secret repr)\<^sup>*\<^sup>* d d'"
proof (cases res)
  case (Inl e)
  then have "d' = d" using p by (auto simp: prepare_def atomically_def split: if_split_asm sum.split_asm)
  then show ?thesis by simp
next
  case (Inr f)
  obtain job goal s limit n where b: "(case row_by sr_id (fire_identity sha ''schedule-run'' j t) (db_schedule_runs d) of
        Some row \<Rightarrow> replay_fire sha ro job s t n initial (limit + 1) now row d
      | None \<Rightarrow> new_fire sha ro hook job s goal t n initial (limit + 1) now d) = Inr (f, d')"
    by (rule prepareD [OF p [unfolded Inr]]) (rule that)
  show ?thesis
  proof (cases "row_by sr_id (fire_identity sha ''schedule-run'' j t) (db_schedule_runs d)")
    case (Some row)
    then obtain g where g: "(case pf_memorial g of None \<Rightarrow> Inr (g, d)
        | Some m \<Rightarrow> and_then (assign_current sha ro m (Some t) now d) (\<lambda>(_, d'). Inr (g, d'))) = Inr (f, d')"
      using b by (auto simp: replay_fire_def)
    show ?thesis
    proof (cases "pf_memorial g")
      case (Some m)
      then show ?thesis using g assign_step [OF inv] by (auto intro: r_into_rtranclp)
    qed (use g in simp)
  next
    case None
    then have "new_fire sha ro hook job s goal t n initial (limit + 1) now d = Inr (f, d')" using b by simp
    then obtain run d1 d2 row u st where run: "(if skips job s initial d then Inr (None, d)
        else and_then (prepare_run sha ro hook job s goal t initial (limit + 1) now d) (\<lambda>(x, d1). Inr (Some x, d1))) = Inr (run, d1)"
      and ins: "insert_schedule_run row d1 = Inr d2" and cas: "compare_and_set_scheduler_cursor (jb_id job) t u st d2 = (True, d')"
      by (rule new_fireD)
    have one: "(life_step sha redact secret repr)\<^sup>*\<^sup>* d d1 \<and> runs_ok sha redact d1"
      using run prepare_run_life [OF inv] inv by (auto split: if_split_asm)
    have "d' = d1\<lparr>db_assignments := db_assignments d1, db_schedule_runs := db_schedule_runs d1 @ [row], db_jobs := db_jobs d'\<rparr>"
      using insert_schedule_run_Inr [OF ins] cas by (auto simp: compare_and_set_scheduler_cursor_def update_jobs_def)
    then show ?thesis using one bystander_step [of sha redact d1 d'] by (meson rtranclp.rtrancl_into_rtrancl)
  qed
qed

section \<open>Manual fires\<close>

lemma prepare_manualD:
  assumes "prepare_manual sha ro hook j key t now d = (Inr f, d')"
  obtains job e limit fingerprint where "load_scheduler_job j d = Some job" "jb_id job = j" "jb_status job \<in> {JobActive, JobPaused}"
    "row_by ed_id (jb_edict job) (db_edicts d) = Some e" "ed_status e = EdOpen" "\<not> ed_archived e" "ed_retry_limit e = Some limit"
    "(case row_by sr_id (manual_identity sha ''schedule-run'' j key) (db_schedule_runs d) of
        Some row \<Rightarrow> manual_replay sha ro job key (limit + 1) fingerprint now row d
      | None \<Rightarrow> manual_new sha ro job (ed_goal e) key (limit + 1) fingerprint t now d) = Inr (f, d')"
proof -
  have b: "prepare_manual_body sha ro hook j key t now d = Inr (f, d')" using assms by (auto simp: prepare_manual_def split: if_split_asm)
  obtain job where job: "load_scheduler_job j d = Some job" using b by (cases "load_scheduler_job j d") (auto simp: prepare_manual_body_def)
  then have id: "jb_id job = j" using row_by_SomeD [of jb_id j "db_jobs d"] by (simp add: load_scheduler_job_def)
  have st: "jb_status job \<in> {JobActive, JobPaused}" using b job by (auto simp: prepare_manual_body_def split: if_split_asm)
  obtain e where e: "row_by ed_id (jb_edict job) (db_edicts d) = Some e"
    using b job st by (cases "row_by ed_id (jb_edict job) (db_edicts d)") (auto simp: prepare_manual_body_def)
  obtain limit where limit: "ed_retry_limit e = Some limit"
    using b job st e by (cases "ed_retry_limit e") (auto simp: prepare_manual_body_def)
  have ed: "ed_status e = EdOpen" "\<not> ed_archived e" using b job st e limit by (auto simp: prepare_manual_body_def split: if_split_asm)
  show ?thesis
    using that [OF job id st e ed limit] b job st e limit ed by (auto simp: prepare_manual_body_def Let_def)
qed

lemma manual_replay_Inr:
  assumes "manual_replay sha ro job key mx fingerprint now row d = Inr (f, d')"
  obtains m created x where "assign_current sha ro m created now d = Inr (x, d')" "pf_deduplicated f"
  using assms by (auto simp: manual_replay_def Let_def manual_fire_def split: option.split_asm run_note.split_asm if_split_asm)

definition manual_row :: "(string \<Rightarrow> string) \<Rightarrow> job_row \<Rightarrow> string \<Rightarrow> string \<Rightarrow> instant \<Rightarrow> schedule_run_row" where
  "manual_row sha job key fingerprint t =
     \<lparr>sr_id = manual_identity sha ''schedule-run'' (jb_id job) key, sr_source = jb_id job, sr_kind = ''run_now'',
      sr_status = ''prepared'', sr_edict = Some (jb_edict job),
      sr_note = Some (Envelope \<lparr>me_fingerprint = fingerprint, me_scheduled = t, me_next = jb_next job\<rparr>), sr_started = t,
      sr_finished = None\<rparr>"

lemma manual_new_Inr:
  assumes "manual_new sha ro job goal key mx fingerprint t now d = Inr (f, d')"
  obtains d1 x d2 b d3 where
    "\<exists>r. row_by mem_id (manual_identity sha ''memorial'' (jb_id job) key) (db_memorials d1) = Some r \<and> fire_root (jb_edict job) goal r"
    "d1 = d \<or> (\<exists>r. d1 = d\<lparr>db_memorials := db_memorials d @ [r]\<rparr> \<and> mem_id r \<notin> mem_id ` set (db_memorials d) \<and> mem_status r = TSubmitted)"
    "assign_current sha ro (manual_identity sha ''memorial'' (jb_id job) key) (Some t) now d1 = Inr (x, d2)"
    "enqueue_initial sha now [] (manual_identity sha ''memorial'' (jb_id job) key) t mx
       (Some (manual_identity sha ''attempt'' (jb_id job) key)) d2 = Inr (b, d3)"
    "insert_schedule_run (manual_row sha job key fingerprint t) d3 = Inr d'" "\<not> pf_deduplicated f"
proof -
  let ?m = "manual_identity sha ''memorial'' (jb_id job) key"
  let ?r = "submitted_memorial ?m (jb_edict job) goal None 1 None None t"
  obtain d1 x d2 b d3 where i: "insert_memorial ?r d = Inr d1" and a: "assign_current sha ro ?m (Some t) now d1 = Inr (x, d2)"
    and q: "enqueue_initial sha now [] ?m t mx (Some (manual_identity sha ''attempt'' (jb_id job) key)) d2 = Inr (b, d3)"
    and s: "insert_schedule_run (manual_row sha job key fingerprint t) d3 = Inr d'" and f: "\<not> pf_deduplicated f"
    using assms by (auto simp: manual_new_def Let_def manual_row_def manual_fire_def)
  have d1: "d1 = d\<lparr>db_memorials := db_memorials d @ [?r]\<rparr>" and new: "mem_id ?r \<notin> mem_id ` set (db_memorials d)"
    using i by (auto simp: insert_memorial_def has_memorial_iff split: if_split_asm)
  have "row_by mem_id ?m (db_memorials d1) = Some ?r" using new by (simp add: d1 row_by_append row_by_None_iff [THEN iffD2] submitted_memorial_def)
  then have "\<exists>r. row_by mem_id ?m (db_memorials d1) = Some r \<and> fire_root (jb_edict job) goal r" by (simp add: fire_root_def submitted_memorial_def)
  moreover have "mem_status ?r = TSubmitted" by (simp add: submitted_memorial_def)
  ultimately show ?thesis using that [OF _ _ a q s f] d1 new by blast
qed

lemma prepare_manual_life:
  assumes inv: "runs_ok sha redact d" and p: "prepare_manual sha ro hook j key t now d = (res, d')"
  shows "(life_step sha redact secret repr)\<^sup>*\<^sup>* d d'"
proof (cases res)
  case (Inl e)
  then have "d' = d" using p by (auto simp: prepare_manual_def atomically_def split: if_split_asm sum.split_asm)
  then show ?thesis by simp
next
  case (Inr f)
  obtain job goal limit fingerprint where b: "(case row_by sr_id (manual_identity sha ''schedule-run'' j key) (db_schedule_runs d) of
        Some row \<Rightarrow> manual_replay sha ro job key (limit + 1) fingerprint now row d
      | None \<Rightarrow> manual_new sha ro job goal key (limit + 1) fingerprint t now d) = Inr (f, d')"
    by (rule prepare_manualD [OF p [unfolded Inr]]) (rule that)
  show ?thesis
  proof (cases "row_by sr_id (manual_identity sha ''schedule-run'' j key) (db_schedule_runs d)")
    case (Some row)
    then have "manual_replay sha ro job key (limit + 1) fingerprint now row d = Inr (f, d')" using b by simp
    then obtain m created x where "assign_current sha ro m created now d = Inr (x, d')" by (rule manual_replay_Inr)
    then show ?thesis using assign_step [OF inv] by blast
  next
    case None
    then have "manual_new sha ro job goal key (limit + 1) fingerprint t now d = Inr (f, d')" using b by simp
    then obtain d1 x d2 c d3 where n: "\<exists>r. row_by mem_id (manual_identity sha ''memorial'' (jb_id job) key) (db_memorials d1) = Some r \<and> fire_root (jb_edict job) goal r"
      "d1 = d \<or> (\<exists>r. d1 = d\<lparr>db_memorials := db_memorials d @ [r]\<rparr> \<and> mem_id r \<notin> mem_id ` set (db_memorials d) \<and> mem_status r = TSubmitted)"
      "assign_current sha ro (manual_identity sha ''memorial'' (jb_id job) key) (Some t) now d1 = Inr (x, d2)"
      "enqueue_initial sha now [] (manual_identity sha ''memorial'' (jb_id job) key) t (limit + 1)
         (Some (manual_identity sha ''attempt'' (jb_id job) key)) d2 = Inr (c, d3)"
      and s: "insert_schedule_run (manual_row sha job key fingerprint t) d3 = Inr d'" by (rule manual_new_Inr)
    note L = start_life [OF inv n, where secret = secret and repr = repr]
    have "d' = d3\<lparr>db_assignments := db_assignments d3, db_schedule_runs := db_schedule_runs d3 @ [manual_row sha job key fingerprint t], db_jobs := db_jobs d3\<rparr>"
      using insert_schedule_run_Inr [OF s] by simp
    then have "life_step sha redact secret repr d3 d'" using L bystander_step by blast
    then show ?thesis using L by (meson rtranclp.rtrancl_into_rtrancl)
  qed
qed

end
