(* ===== verification/Scheduled_Safety.thy ===== *)
theory Scheduled_Safety
  imports Scheduled_Fires
begin

text \<open>
  The ledger of fires over time, and the theorems on fires: all of one or nothing, once for its instant, and a cursor that
  only moves forward.
\<close>

section \<open>The ledger of fires over time\<close>

text \<open>
  A prepared fire is backed by the first attempt of its run. The ledger of fires is written by fires, by manual fires,
  and by entries that are not prepared fires (of system jobs, skipped and failed fires), which alone are finished or
  failed later; the rest of the system leaves it as it is and keeps the ledger of attempts.
\<close>

definition fire_backed :: "(string \<Rightarrow> string) \<Rightarrow> db \<Rightarrow> schedule_run_row \<Rightarrow> bool" where
  "fire_backed sha d r =
     (if sr_kind r = ''run_now''
      then \<exists>key. sr_id r = manual_identity sha ''schedule-run'' (sr_source r) key \<and>
             (\<exists>a \<in> set (db_attempts d). at_id a = manual_identity sha ''attempt'' (sr_source r) key \<and> at_no a = 1)
      else sr_id r = fire_identity sha ''schedule-run'' (sr_source r) (sr_started r) \<and>
           (\<exists>a \<in> set (db_attempts d). at_id a = fire_identity sha ''attempt'' (sr_source r) (sr_started r) \<and> at_no a = 1))"

definition fires_ok :: "(string \<Rightarrow> string) \<Rightarrow> db \<Rightarrow> bool" where
  "fires_ok sha d =
     (ledger_ok d \<and> distinct (map sr_id (db_schedule_runs d)) \<and>
      (\<forall>r \<in> set (db_schedule_runs d). sr_status r = ''prepared'' \<longrightarrow> fire_backed sha d r))"

definition fires_evolve :: "db \<Rightarrow> db \<Rightarrow> bool" where
  "fires_evolve d d' =
     (evolves d d' \<and> (\<forall>r \<in> set (db_schedule_runs d). sr_status r = ''prepared'' \<longrightarrow> r \<in> set (db_schedule_runs d')))"

inductive schedule_step :: "(string \<Rightarrow> string) \<Rightarrow> db \<Rightarrow> db \<Rightarrow> bool" for sha where
  fire: "prepare sha ro cron_next hook j t initial requested now d = (res, d') \<Longrightarrow> schedule_step sha d d'"
| manual: "prepare_manual sha ro hook j key t now d = (res, d') \<Longrightarrow> schedule_step sha d d'"
| entry: "create_schedule_run new_id now source kind status e d = (res', d') \<Longrightarrow> status \<noteq> ''prepared'' \<Longrightarrow> schedule_step sha d d'"
| finish: "d' = finish_schedule_run now i status error d \<Longrightarrow> status \<noteq> ''prepared'' \<Longrightarrow>
    (\<And>r. r \<in> set (db_schedule_runs d) \<Longrightarrow> sr_id r = i \<Longrightarrow> sr_status r \<noteq> ''prepared'') \<Longrightarrow> schedule_step sha d d'"
| sweep: "fail_running_system_schedule_runs now reason d = (n, d') \<Longrightarrow> schedule_step sha d d'"
| other: "db_schedule_runs d' = db_schedule_runs d \<Longrightarrow> ledger_ok d' \<Longrightarrow> evolves d d' \<Longrightarrow> schedule_step sha d d'"

lemma fire_backed_evolves: "fire_backed sha d r \<Longrightarrow> evolves d d' \<Longrightarrow> fire_backed sha d' r"
  unfolding fire_backed_def evolves_def row_evolves_def transition_ok_def by (auto split: if_split_asm) (metis+)

lemma appended_fire_keeps:
  assumes ok: "fires_ok sha d" and d': "db_schedule_runs d' = db_schedule_runs d @ [r]" "sr_id r \<notin> sr_id ` set (db_schedule_runs d)"
    and l: "ledger_ok d'" "evolves d d'" and b: "sr_status r = ''prepared'' \<Longrightarrow> fire_backed sha d' r"
  shows "fires_ok sha d' \<and> fires_evolve d d'"
  using ok d' l b fire_backed_evolves [OF _ l(2)] by (auto simp: fires_ok_def fires_evolve_def)

lemma updated_entries_keep:
  assumes ok: "fires_ok sha d" and d': "d' = d\<lparr>db_schedule_runs := update_rows p (finished_run now status error) (db_schedule_runs d)\<rparr>"
    and st: "status \<noteq> ''prepared''" and p: "\<And>r. r \<in> set (db_schedule_runs d) \<Longrightarrow> p r \<Longrightarrow> sr_status r \<noteq> ''prepared''"
  shows "fires_ok sha d' \<and> fires_evolve d d'"
proof -
  have l: "ledger_ok d'" "evolves d d'" using ok by (auto simp: fires_ok_def d' ledger_ok_def has_memorial_iff evolves_mono)
  have "map sr_id (db_schedule_runs d') = map sr_id (db_schedule_runs d)" by (simp add: d' finished_run_def map_update_rows)
  moreover have "r \<in> set (db_schedule_runs d)" if "r \<in> set (db_schedule_runs d')" "sr_status r = ''prepared''" for r
    using that st by (auto simp: d' set_update_rows finished_run_def split: if_split_asm)
  moreover have "r \<in> set (db_schedule_runs d')" if "r \<in> set (db_schedule_runs d)" "sr_status r = ''prepared''" for r
    using that p by (force simp: d' set_update_rows)
  ultimately show ?thesis using ok l fire_backed_evolves [OF _ l(2)] by (auto simp: fires_ok_def fires_evolve_def)
qed

lemma same_ledger: "ledger_ok d \<Longrightarrow> db_attempts d' = db_attempts d \<Longrightarrow> db_memorials d' = db_memorials d \<Longrightarrow> ledger_ok d' \<and> evolves d d'"
  by (simp add: ledger_ok_def has_memorial_iff evolves_mono)

lemma prepare_keeps:
  assumes ok: "fires_ok sha d" and p: "prepare sha ro cron_next hook j t initial requested now d = (Inr f, d')"
  shows "fires_ok sha d' \<and> fires_evolve d d'"
proof -
  have l: "ledger_ok d" using ok by (simp add: fires_ok_def)
  note P = prepare_Inr [OF l p]
  show ?thesis
  proof (cases "pf_deduplicated f")
    case True
    then have d': "d' = d\<lparr>db_assignments := db_assignments d'\<rparr>" using P(5) by simp
    have same: "db_schedule_runs d' = db_schedule_runs d" by (subst d') simp
    then show ?thesis using ok P(2,3) fire_backed_evolves [OF _ P(3)] by (simp add: fires_ok_def fires_evolve_def)
  next
    case False
    then obtain job s goal mx run where fi: "fired sha job s goal t (pf_next f) initial mx run d d'" using P(5) by auto
    let ?status = "if run = None then ''skipped'' else ''prepared''"
    let ?row = "fire_row sha job t ?status (fire_fingerprint sha job s t (pf_next f) initial ?status mx)"
    have "db_schedule_runs d' = db_schedule_runs d @ [?row]" "sr_id ?row \<notin> sr_id ` set (db_schedule_runs d)"
      using fi by (simp_all add: fired_def Let_def fire_row_def)
    moreover have "fire_backed sha d' ?row" if st: "sr_status ?row = ''prepared''"
    proof -
      obtain m a where run: "run = Some (m, a)" using st by (cases run) (auto simp: fire_row_def)
      have "sr_kind ?row \<noteq> ''run_now''" by (cases "jb_type job") (simp_all add: fire_row_def)
      then show ?thesis using fi by (auto simp: fired_def Let_def run run_prepared_def fire_backed_def fire_row_def)
    qed
    ultimately show ?thesis using appended_fire_keeps [OF ok _ _ P(2,3)] by blast
  qed
qed

lemma prepare_manual_keeps:
  assumes ok: "fires_ok sha d" and p: "prepare_manual sha ro hook j key t now d = (Inr f, d')"
  shows "fires_ok sha d' \<and> fires_evolve d d'"
proof -
  have l: "ledger_ok d" using ok by (simp add: fires_ok_def)
  obtain job goal limit fingerprint where b: "(case row_by sr_id (manual_identity sha ''schedule-run'' j key) (db_schedule_runs d) of
        Some row \<Rightarrow> manual_replay sha ro job key (limit + 1) fingerprint now row d
      | None \<Rightarrow> manual_new sha ro job goal key (limit + 1) fingerprint t now d) = Inr (f, d')"
    by (rule prepare_manualD [OF p]) (rule that)
  show ?thesis
  proof (cases "row_by sr_id (manual_identity sha ''schedule-run'' j key) (db_schedule_runs d)")
    case (Some row)
    then have "manual_replay sha ro job key (limit + 1) fingerprint now row d = Inr (f, d')" using b by simp
    then obtain m created x where "assign_current sha ro m created now d = Inr (x, d')" by (rule manual_replay_Inr)
    note d' = assign_current_frame(1) [OF this]
    have same: "db_schedule_runs d' = db_schedule_runs d" "db_attempts d' = db_attempts d" "db_memorials d' = db_memorials d" by (subst d', simp)+
    then have "ledger_ok d' \<and> evolves d d'" using same_ledger [OF l] by simp
    then show ?thesis using ok same(1) fire_backed_evolves by (auto simp: fires_ok_def fires_evolve_def)
  next
    case None
    let ?row = "manual_row sha job key fingerprint t"
    from None have "manual_new sha ro job goal key (limit + 1) fingerprint t now d = Inr (f, d')" using b by simp
    then obtain d1 x d2 c d3 where n: "\<exists>r. row_by mem_id (manual_identity sha ''memorial'' (jb_id job) key) (db_memorials d1) = Some r \<and> fire_root (jb_edict job) goal r"
      "d1 = d \<or> (\<exists>r. d1 = d\<lparr>db_memorials := db_memorials d @ [r]\<rparr> \<and> mem_id r \<notin> mem_id ` set (db_memorials d) \<and> mem_status r = TSubmitted)"
      "assign_current sha ro (manual_identity sha ''memorial'' (jb_id job) key) (Some t) now d1 = Inr (x, d2)"
      "enqueue_initial sha now [] (manual_identity sha ''memorial'' (jb_id job) key) t (limit + 1)
         (Some (manual_identity sha ''attempt'' (jb_id job) key)) d2 = Inr (c, d3)"
      and s: "insert_schedule_run ?row d3 = Inr d'" by (rule manual_new_Inr)
    note S = start_of_run [OF l n]
    have runs3: "db_schedule_runs d3 = db_schedule_runs d" using S(3) by (auto simp: only_runs_differ_def)
    note I = insert_schedule_run_Inr [OF s]
    have l': "ledger_ok d'" "evolves d d'" using same_ledger [OF S(4), of d'] I S(5) by (auto simp: evolves_def)
    have "fire_backed sha d' ?row" using S(2) I by (auto simp: fire_backed_def manual_row_def run_prepared_def)
    then show ?thesis using appended_fire_keeps [OF ok _ _ l'] I runs3 by auto
  qed
qed

lemma schedule_step_keeps:
  assumes ok: "fires_ok sha d" and st: "schedule_step sha d d'"
  shows "fires_ok sha d' \<and> fires_evolve d d'"
proof -
  have l: "ledger_ok d" using ok by (simp add: fires_ok_def)
  have self: "fires_ok sha d \<and> fires_evolve d d" using ok by (simp add: fires_evolve_def)
  from st show ?thesis
  proof cases
    case (fire ro cron_next hook j t initial requested now res)
    then show ?thesis
    proof (cases res)
      case (Inl e)
      then have "d' = d" using fire by (auto simp: prepare_def atomically_def split: if_split_asm sum.split_asm)
      then show ?thesis using self by simp
    qed (use prepare_keeps [OF ok] in blast)
  next
    case (manual ro hook j key t now res)
    then show ?thesis
    proof (cases res)
      case (Inl e)
      then have "d' = d" using manual by (auto simp: prepare_manual_def atomically_def split: if_split_asm sum.split_asm)
      then show ?thesis using self by simp
    qed (use prepare_manual_keeps [OF ok] in blast)
  next
    case (entry new_id now source kind status e res')
    let ?r = "\<lparr>sr_id = new_id, sr_source = source, sr_kind = kind, sr_status = status, sr_edict = e, sr_note = None,
              sr_started = now, sr_finished = None\<rparr>"
    show ?thesis
    proof (cases "insert_schedule_run ?r d")
      case (Inl x)
      then show ?thesis using entry self by (simp add: create_schedule_run_def)
    next
      case (Inr d1)
      then have "d' = d1" using entry by (simp add: create_schedule_run_def)
      then show ?thesis using insert_schedule_run_Inr [OF Inr] entry(2) appended_fire_keeps [OF ok, of d' ?r] same_ledger [OF l, of d'] by simp
    qed
  next
    case (finish now i status error)
    show ?thesis
      by (rule updated_entries_keep [OF ok _ finish(2), of d' "\<lambda>r. sr_id r = i" now error])
        (use finish in \<open>auto simp: finish_schedule_run_def update_schedule_runs_def\<close>)
  next
    case (sweep now reason n)
    show ?thesis
      by (rule updated_entries_keep [OF ok, of d' "\<lambda>r. sr_kind r = ''system'' \<and> sr_status r = ''running''" now "''failed''" "Some reason"])
        (use sweep in \<open>auto simp: fail_running_system_schedule_runs_def update_schedule_runs_def\<close>)
  next
    case other
    then show ?thesis using ok fire_backed_evolves by (auto simp: fires_ok_def fires_evolve_def)
  qed
qed

lemma fires_evolve_trans: "fires_evolve d d' \<Longrightarrow> fires_evolve d' d'' \<Longrightarrow> fires_evolve d d''"
  unfolding fires_evolve_def using evolves_trans by blast

interpretation fires: evolving_system "schedule_step sha" "fires_ok sha" fires_evolve for sha
  by unfold_locales (auto dest: schedule_step_keeps intro: fires_evolve_trans, simp add: fires_evolve_def)

section \<open>Theorems\<close>

definition cron_forward :: "cron \<Rightarrow> bool" where
  "cron_forward cron_next = (\<forall>e z t u. cron_next e z t = Some u \<longrightarrow> t < u)"

lemma next_cursor_forward:
  assumes "next_cursor cron_next job s t requested = Inr n" and "cron_forward cron_next"
  shows "case n of None \<Rightarrow> terminal_schedule s | Some u \<Rightarrow> \<not> terminal_schedule s \<and> t < u"
  using assms
  by (cases "es_type s") (auto simp: next_cursor_def agreed_def terminal_schedule_def cron_forward_def split: if_split_asm option.split_asm option.split, metis+)

text \<open>A job that fires every minute, and the first fire.\<close>

definition minute_schedule :: edict_schedule where
  "minute_schedule = \<lparr>es_type = SchedInterval, es_at = None, es_cron = None, es_interval = Some 60, es_timezone = ''UTC'', es_skip = True\<rparr>"

definition minute_job :: job_row where
  "minute_job = new_job ''j1'' ''e1'' SchedInterval None (Some 100) (Some 60) 0"

definition demo_jobs :: db where
  "demo_jobs = empty_db\<lparr>db_edicts := [demo_edict\<lparr>ed_schedule := Some minute_schedule\<rparr>], db_jobs := [minute_job]\<rparr>"

definition no_cron :: cron where
  "no_cron e z t = None"

definition demo_fire :: "prepared_fire result \<times> db" where
  "demo_fire = prepare flat_digest demo_router no_cron (\<lambda>_. Inr ()) ''j1'' 100 None None 101 demo_jobs"

definition demo_root :: string where
  "demo_root = ''memorial-'' @ zeros64"

definition demo_first :: string where
  "demo_first = ''attempt-'' @ zeros64"

definition demo_assignment_id :: string where
  "demo_assignment_id = ''assignment:'' @ zeros64"

lemma demo_names [simp]: "\<not> blank demo_root" "\<not> blank demo_first" "trim_nonempty demo_first" "sql_text 256 demo_assignment_id"
  "\<not> blank demo_assignment_id" "\<not> blank ''j1''"
  by code_simp+

lemma flat_identity [simp]:
  "fire_identity flat_digest ''memorial'' j t = demo_root" "fire_identity flat_digest ''attempt'' j t = demo_first"
  "assignment_id flat_digest m = demo_assignment_id"
  by (simp_all add: fire_identity_def assignment_id_def flat_digest_def demo_root_def demo_first_def demo_assignment_id_def)

definition demo_submitted :: db where
  "demo_submitted = demo_jobs\<lparr>db_memorials := [submitted_memorial demo_root ''e1'' ''g'' None 1 None None 100]\<rparr>"

text \<open>With a constant digest and nothing stored, an assignment is a legacy one and a first attempt is inserted.\<close>

definition flat_legacy :: "string \<Rightarrow> instant \<Rightarrow> legacy_assignment" where
  "flat_legacy m t = \<lparr>lg_id = demo_assignment_id, lg_memorial = m, lg_created = t\<rparr>"

lemma flat_assigned:
  assumes e: "db_assignments d = []" "db_candidates d = []" "has_memorial d m" "\<not> blank m"
  shows "assign_current flat_digest demo_router m (Some t) now d =
     Inr (Legacy (flat_legacy m t), d\<lparr>db_assignments := [legacy_row flat_digest (flat_legacy m t)]\<rparr>)"
proof -
  let ?d = "d\<lparr>db_assignments := [legacy_row flat_digest (flat_legacy m t)]\<rparr>"
  have i: "insert_assignment_row (legacy_row flat_digest (flat_legacy m t)) d = Inr ?d"
    using e by (simp add: insert_assignment_row_def legacy_row_def flat_legacy_def)
  have "get_assignment flat_digest m ?d = Inr (Some (Legacy (flat_legacy m t), None))"
    using e(4) by (simp add: get_assignment_def decode_assignment_def) (simp add: legacy_row_def legacy_columns_def flat_legacy_def valid_assignment_def)
  then show ?thesis using e i
    by (simp add: assign_current_def get_assignment_def get_routable_candidate_def select_ordered_def assign_legacy_def demo_router_def
        insert_legacy_assignment_def insert_once_def assignment_memorial_def is_legacy_def Let_def flat_legacy_def)
qed

lemma flat_enqueued:
  assumes r: "row_by mem_id m (db_memorials d) = Some r" "mem_dag_node r = None" and e: "db_attempts d = []"
    and c: "correlation_for_memorial flat_digest d m None = Inr cor" and n: "\<not> blank m" "\<not> blank a" "trim_nonempty a" "0 < mx"
  shows "enqueue_initial flat_digest now [] m t mx (Some a) d =
    Inr (new_attempt a m 1 0 t mx (min now t) cor, d\<lparr>db_attempts := [new_attempt a m 1 0 t mx (min now t) cor]\<rparr>)"
proof -
  let ?a = "new_attempt a m 1 0 t mx (min now t) cor"
  have "m \<in> mem_id ` set (db_memorials d)" using row_by_SomeD [OF r(1)] by force
  then have i: "insert_attempt ?a d = Inr (d\<lparr>db_attempts := [?a]\<rparr>)"
    using n unfolding insert_attempt_def e by (simp add: new_attempt_def attempt_checks_def has_memorial_iff active_unique_def status_failed_def)
  have "valid_attempt ?a" using n by (simp add: valid_attempt_def new_attempt_def attempt_shape_def opt_nonblank_def status_failed_def)
  then have s: "select_attempt (d\<lparr>db_attempts := [?a]\<rparr>) a = Inr (Some ?a)"
    by (simp add: select_attempt_def decode_attempt_def) (simp add: new_attempt_def)
  show ?thesis unfolding enqueue_initial_def e using r c i s n by (simp add: opt_nonblank_def)
qed

lemma demo_prepared:
  "\<exists>d'. prepare_run flat_digest demo_router (\<lambda>_. Inr ()) minute_job minute_schedule ''g'' 100 None 1 101 demo_jobs = Inr ((demo_root, demo_first), d')"
proof -
  let ?d = "demo_submitted\<lparr>db_assignments := [legacy_row flat_digest (flat_legacy demo_root 100)]\<rparr>"
  have m: "prepare_memorial flat_digest ''j1'' ''e1'' ''g'' 100 None minute_schedule demo_jobs = Inr (demo_root, demo_submitted)"
    by (simp add: prepare_memorial_def expected_memorial_id_def minute_schedule_def insert_memorial_def demo_jobs_def empty_db_def has_memorial_iff
        has_edict_iff submitted_memorial_def demo_edict_def demo_submitted_def)
  have a: "assign_current flat_digest demo_router demo_root (Some 100) 101 demo_submitted = Inr (Legacy (flat_legacy demo_root 100), ?d)"
    by (rule flat_assigned) (simp_all add: demo_submitted_def demo_jobs_def empty_db_def has_memorial_iff submitted_memorial_def)
  have c: "correlation_for_memorial flat_digest ?d demo_root None = Inr (''legacy:'' @ zeros64)"
    by (simp add: correlation_for_memorial_def select_ordered_def fallback_correlations_def first_correlation_def first_of_def demo_submitted_def demo_jobs_def
        empty_db_def flat_digest_def)
  have d: "db_attempts ?d = []" "row_by mem_id demo_root (db_memorials ?d) = Some (submitted_memorial demo_root ''e1'' ''g'' None 1 None None 100)"
    by (simp_all add: demo_submitted_def demo_jobs_def empty_db_def submitted_memorial_def)
  obtain d' x where "enqueue_initial flat_digest 101 [] demo_root 100 1 (Some demo_first) ?d = Inr (x, d')" "at_id x = demo_first"
    using flat_enqueued [OF d(2) _ d(1) c, of demo_first 1 101 100] by (simp add: submitted_memorial_def new_attempt_def)
  then show ?thesis using m a by (simp add: prepare_run_def minute_job_def new_job_def)
qed

lemma demo_fire_result:
  "\<exists>f d'. demo_fire = (Inr f, d') \<and> \<not> pf_deduplicated f \<and> pf_memorial f = Some demo_root \<and> pf_attempt f = Some demo_first \<and>
     pf_next f = Some 60000100"
proof -
  obtain d1 where r: "prepare_run flat_digest demo_router (\<lambda>_. Inr ()) minute_job minute_schedule ''g'' 100 None 1 101 demo_jobs =
    Inr ((demo_root, demo_first), d1)" using demo_prepared by blast
  let ?row = "fire_row flat_digest minute_job 100 ''prepared'' (fire_fingerprint flat_digest minute_job minute_schedule 100 (Some 60000100) None ''prepared'' 1)"
  let ?d2 = "d1\<lparr>db_schedule_runs := [?row]\<rparr>"
  have "ledger_ok demo_jobs" by (simp add: demo_jobs_def empty_db_def ledger_ok_def)
  from prepare_run_Inr(5) [OF this r] have d1: "db_schedule_runs d1 = []" "db_jobs d1 = [minute_job]"
    by (auto simp: only_runs_differ_def demo_jobs_def empty_db_def)
  have i: "insert_schedule_run ?row d1 = Inr ?d2" by (simp add: insert_schedule_run_def d1)
  have cas: "\<exists>d'. compare_and_set_scheduler_cursor ''j1'' 100 (Some 60000100) JobActive ?d2 = (True, d')"
    by (simp add: compare_and_set_scheduler_cursor_def update_jobs_def d1 count_rows_def minute_job_def new_job_def)
  have job: "jb_id minute_job = ''j1''" "jb_edict minute_job = ''e1''" "jb_type minute_job = SchedInterval" "jb_status minute_job = JobActive"
    "jb_next minute_job = Some 100" by (simp_all add: minute_job_def new_job_def)
  have db: "load_scheduler_job ''j1'' demo_jobs = Some minute_job" "db_schedule_runs demo_jobs = []"
    "row_by ed_id ''e1'' (db_edicts demo_jobs) = Some (demo_edict\<lparr>ed_schedule := Some minute_schedule\<rparr>)"
    by (simp_all add: load_scheduler_job_def demo_jobs_def empty_db_def job demo_edict_def)
  have n: "next_cursor no_cron minute_job minute_schedule 100 None = Inr (Some 60000100)"
    by (simp add: next_cursor_def minute_schedule_def minute_job_def new_job_def agreed_def seconds_def)
  have ms: "es_type minute_schedule = SchedInterval" "\<not> terminal_schedule minute_schedule" by (simp_all add: minute_schedule_def terminal_schedule_def)
  have "\<not> has_active_root ''e1'' None demo_jobs" by (simp add: has_active_root_def demo_jobs_def empty_db_def)
  then have "\<exists>f d'. new_fire flat_digest demo_router (\<lambda>_. Inr ()) minute_job minute_schedule ''g'' 100 (Some 60000100) None 1 101 demo_jobs = Inr (f, d') \<and>
      \<not> pf_deduplicated f \<and> pf_memorial f = Some demo_root \<and> pf_attempt f = Some demo_first \<and> pf_next f = Some 60000100"
    using r i cas by (auto simp: new_fire_def Let_def job check_initial_def ms)
  then show ?thesis using db n ms
    by (auto simp: demo_fire_def prepare_def prepare_body_def atomically_def job demo_edict_def)
qed

lemma demo_jobs_ok: "ledger_ok demo_jobs" "fires_ok flat_digest demo_jobs"
  by (simp_all add: fires_ok_def ledger_ok_def) (simp_all add: demo_jobs_def empty_db_def)

lemma no_cron_forward: "cron_forward no_cron"
  by (simp add: cron_forward_def no_cron_def)

text \<open>
  C10: a fire of a job happens in one piece. An error leaves the database as it was; the replay of a fire changes nothing but
  the assignment of its run, if that is missing. A new fire is one of an active job whose cursor is the instant, of an
  open edict: it appends one entry to the ledger of fires and moves the cursor of this job alone, to a later instant,
  or completes the job when the schedule has no next one; and then either its run is prepared, with a submitted root
  memorial of the edict, an assignment and the first attempt, available at the instant and with the retries of the
  edict, or it is skipped, because the policy says so and another root of the edict is active, and no run is touched.
  The package that computes cron expressions is assumed to answer a later instant.
\<close>

theorem fire_in_one_piece:
  assumes "ledger_ok d" and "cron_forward cron_next"
    and "prepare sha ro cron_next hook j t initial requested now d = (res, d')"
  shows "case res of
      Inl e \<Rightarrow> d' = d
    | Inr f \<Rightarrow>
        if pf_deduplicated f then d' = d\<lparr>db_assignments := db_assignments d'\<rparr>
        else \<exists>job e s limit run. load_scheduler_job j d = Some job \<and> row_by ed_id (jb_edict job) (db_edicts d) = Some e \<and> ed_status e = EdOpen \<and>
          ed_schedule e = Some s \<and> ed_retry_limit e = Some limit \<and>
          f = fire_of sha job t (pf_next f) (if run = None then ''skipped'' else ''prepared'') run False \<and>
          fired sha job s (ed_goal e) t (pf_next f) initial (limit + 1) run d d' \<and>
          (case pf_next f of None \<Rightarrow> terminal_schedule s | Some u \<Rightarrow> \<not> terminal_schedule s \<and> t < u)"
proof (cases res)
  case (Inl e)
  then show ?thesis using assms(3) by (auto simp: prepare_def atomically_def split: if_split_asm sum.split_asm)
next
  case (Inr f)
  note P = prepare_Inr(5) [OF assms(1) assms(3) [unfolded Inr]]
  show ?thesis
  proof (cases "pf_deduplicated f")
    case True
    then show ?thesis using P Inr by simp
  next
    case False
    then show ?thesis using P unfolding Inr sum.case if_not_P [OF False] using next_cursor_forward [OF _ assms(2)] by blast
  qed
qed

theorem fire_in_one_piece_witness:
  "\<exists>f d'. demo_fire = (Inr f, d') \<and> (\<exists>r. row_by mem_id demo_root (db_memorials d') = Some r \<and> mem_status r = TSubmitted) \<and>
     (\<exists>b \<in> set (db_attempts d'). at_id b = demo_first \<and> at_no b = 1 \<and> at_available b = 100) \<and>
     map_option jb_next (load_scheduler_job ''j1'' d') = Some (Some 60000100) \<and> length (db_schedule_runs d') = 1"
proof -
  obtain f d' where f: "demo_fire = (Inr f, d')" "\<not> pf_deduplicated f" "pf_memorial f = Some demo_root" "pf_attempt f = Some demo_first"
    "pf_next f = Some 60000100" using demo_fire_result by blast
  from fire_in_one_piece [OF demo_jobs_ok(1) no_cron_forward f(1) [unfolded demo_fire_def]] f(2) obtain job goal s limit run where
    job: "load_scheduler_job ''j1'' demo_jobs = Some job" and
    k: "f = fire_of flat_digest job 100 (pf_next f) (if run = None then ''skipped'' else ''prepared'') run False"
      "fired flat_digest job s goal 100 (pf_next f) None (limit + 1) run demo_jobs d'" unfolding sum.case if_not_P [OF f(2)] by blast
  have id: "jb_id job = ''j1''" using job row_by_SomeD [of jb_id "''j1''" "db_jobs demo_jobs"] by (simp add: load_scheduler_job_def)
  have "map_option fst run = Some demo_root" "map_option snd run = Some demo_first" using f(3,4) k(1) by (metis fire_of_def prepared_fire.select_convs(7,8))+
  then have run: "run = Some (demo_root, demo_first)" by (cases run) auto
  have "db_schedule_runs demo_jobs = []" by (simp add: demo_jobs_def empty_db_def)
  then have "length (db_schedule_runs d') = 1" "map_option jb_next (load_scheduler_job ''j1'' d') = Some (Some 60000100)"
    and p: "run_prepared flat_digest demo_root demo_first (fire_root (jb_edict job) goal) 100 (limit + 1) d'"
    using k(2) f(5) id by (simp_all add: fired_def Let_def run load_scheduler_job_def)
  then show ?thesis using f(1) p unfolding run_prepared_def fire_root_def by blast
qed





end
