(* ===== verification/Run_Ingress.thy ===== *)
theory Run_Ingress
  imports Scheduled_Runs Run_Recovery Dag_Repo
begin

text \<open>
  \<open>application/managed_run_ingress.py\<close>: the ways in which a request becomes a run of the dispatcher. Each commits the root
  memorial, its assignment, its first attempt and its event in one unit of work, under identities derived from the
  request, and then wakes the reconciler, which is not part of the model: an operation here ends when it has read the
  committed memorial. The JSON of the command's acceptance criteria stands for the model.
\<close>

section \<open>Commands\<close>

record run_command =
  mc_edict :: string
  mc_key :: string
  mc_instruction :: string
  mc_event_type :: string
  mc_payload :: payload
  mc_parent :: "string option"
  mc_runtime :: "payload option"
  mc_acceptance :: "json option"

record ingress_result =
  rz_memorial :: memorial_row
  rz_attempt :: string
  rz_event :: string
  rz_deduplicated :: bool

definition validate_run_command :: "run_command \<Rightarrow> unit result" where
  "validate_run_command c =
     and_then (raise_unless (\<not> blank (mc_edict c)) (ValueError ''edict_id must be non-blank'')) (\<lambda>_.
     and_then (raise_unless (\<not> blank (mc_key c)) (ValueError ''idempotency_key must be non-blank'')) (\<lambda>_.
     and_then (raise_unless (\<not> blank (mc_instruction c)) (ValueError ''instruction must be non-blank'')) (\<lambda>_.
       raise_unless (\<not> blank (mc_event_type c)) (ValueError ''event_type must be non-blank''))))"

definition managed_digest :: "(string \<Rightarrow> string) \<Rightarrow> string \<Rightarrow> string \<Rightarrow> string" where
  "managed_digest sha owner key = sha (utf8 (owner @ [CHR 0x00] @ key))"

definition command_json :: "run_command \<Rightarrow> json" where
  "command_json c =
     JObj [(''schema_version'', JInt 1), (''edict_id'', JStr (mc_edict c)), (''idempotency_key'', JStr (mc_key c)),
           (''instruction'', JStr (mc_instruction c)), (''event_type'', JStr (mc_event_type c)),
           (''event_payload'', JObj (mc_payload c)), (''parent_memorial_id'', null_or_str (mc_parent c)),
           (''runtime_override'', (case mc_runtime c of None \<Rightarrow> JNull | Some p \<Rightarrow> JObj p)),
           (''acceptance_override'', (case mc_acceptance c of None \<Rightarrow> JNull | Some v \<Rightarrow> v))]"

definition request_payload :: "string \<Rightarrow> run_command \<Rightarrow> payload" where
  "request_payload fingerprint c = dict_set ''managed_request_hash'' (JStr fingerprint) (mc_payload c)"

text \<open>\<open>EdictRuntime.model_validate(...).retry_limit + 1\<close>\<close>

definition budget :: "edict_row \<Rightarrow> int result" where
  "budget e = (case ed_retry_limit e of None \<Rightarrow> Inl (ValueError ''EdictRuntime'') | Some limit \<Rightarrow> Inr (limit + 1))"

text \<open>\<open>ORDER BY created_at DESC, id DESC LIMIT 1\<close>\<close>

definition latest_root :: "string \<Rightarrow> db \<Rightarrow> string option" where
  "latest_root e d =
     (case rev (select_ordered (\<lambda>r. mem_edict r = e \<and> mem_dag_node r = None) (\<lambda>r. (mem_created r, mem_id r)) (db_memorials d)) of
        [] \<Rightarrow> None | r # _ \<Rightarrow> Some (mem_id r))"

definition followup_type :: string where
  "followup_type = ''followup.submitted''"

definition resolve_parent :: "run_command \<Rightarrow> db \<Rightarrow> string option result" where
  "resolve_parent c d =
     (if mc_event_type c \<noteq> followup_type then Inr (mc_parent c)
      else if has_active_root (mc_edict c) None d then Inl (ManagedRunBusy ''managed run has active work'')
      else Inr (if mc_parent c = None then latest_root (mc_edict c) d else mc_parent c))"

section \<open>Starting a run\<close>

definition request_event :: "string \<Rightarrow> string \<Rightarrow> run_command \<Rightarrow> string \<Rightarrow> instant \<Rightarrow> event_envelope" where
  "request_event i m c fingerprint now =
     \<lparr>ee_id = i, ee_type = mc_event_type c, ee_edict = Some (mc_edict c), ee_memorial = Some m, ee_attempt = 1,
      ee_timestamp = now, ee_producer = ''managed-run-ingress'', ee_payload = request_payload fingerprint c\<rparr>"

definition admit_new ::
  "(string \<Rightarrow> string) \<Rightarrow> router \<Rightarrow> run_command \<Rightarrow> string \<Rightarrow> string \<Rightarrow> string \<Rightarrow> instant \<Rightarrow> db \<Rightarrow> (instant \<times> db) result" where
  "admit_new sha ro c m i fingerprint now d =
     and_then (resolve_parent c d) (\<lambda>parent.
     and_then (insert_memorial
        (submitted_memorial m (mc_edict c) (mc_instruction c) parent 1 (mc_runtime c) (mc_acceptance c) now) d) (\<lambda>d1.
     and_then (assign_current sha ro m (Some now) now d1) (\<lambda>(_, d2).
     and_then (outbox_add sha (request_event i m c fingerprint now) d2) (\<lambda>d3. Inr (now, d3)))))"

definition same_request :: "run_command \<Rightarrow> string \<Rightarrow> memorial_row \<Rightarrow> outbox_row option \<Rightarrow> bool" where
  "same_request c fingerprint existing stored =
     (mem_edict existing = mc_edict c \<and> mem_instruction existing = mc_instruction c \<and>
      (mc_parent c \<noteq> None \<longrightarrow> mem_parent existing = mc_parent c) \<and>
      (case stored of
         None \<Rightarrow> False
       | Some r \<Rightarrow> ob_type r = mc_event_type c \<and>
           (case ob_payload r of None \<Rightarrow> False | Some p \<Rightarrow> dumps p = dumps (JObj (request_payload fingerprint c)))))"

definition admit_again ::
  "(string \<Rightarrow> string) \<Rightarrow> router \<Rightarrow> run_command \<Rightarrow> string \<Rightarrow> string \<Rightarrow> string \<Rightarrow> instant \<Rightarrow> memorial_row \<Rightarrow> db \<Rightarrow> (instant \<times> db) result" where
  "admit_again sha ro c m i fingerprint now existing d =
     and_then (assign_current sha ro m None now d) (\<lambda>(_, d1).
     and_then (select_outbox_record sha d1 i) (\<lambda>stored.
     and_then (raise_unless (normalizable (JObj (request_payload fingerprint c))) (ValueError ''canonical JSON numbers must be finite'')) (\<lambda>_.
     and_then (raise_unless (same_request c fingerprint existing stored)
        (RuntimeError ''managed run idempotency key conflicts with durable envelope'')) (\<lambda>_.
       Inr (mem_created existing, d1)))))"

text \<open>The unit of work; its answer is the id of the attempt and whether the root was there.\<close>

definition start_body ::
  "(string \<Rightarrow> string) \<Rightarrow> router \<Rightarrow> run_command \<Rightarrow> string \<Rightarrow> instant \<Rightarrow> db \<Rightarrow> ((string \<times> bool) \<times> db) result" where
  "start_body sha ro c fingerprint now d =
     (let digest = managed_digest sha (mc_edict c) (mc_key c);
          m = ''managed-root-'' @ digest; a = ''managed-attempt-'' @ digest; i = ''managed-event-'' @ digest
      in case row_by ed_id (mc_edict c) (db_edicts d) of
           None \<Rightarrow> Inl (RuntimeError ''managed run edict is unavailable'')
         | Some e \<Rightarrow>
             and_then (budget e) (\<lambda>max_attempts.
               let existing = row_by mem_id m (db_memorials d)
               in and_then (case existing of None \<Rightarrow> admit_new sha ro c m i fingerprint now d
                                           | Some r \<Rightarrow> admit_again sha ro c m i fingerprint now r d) (\<lambda>(available_at, d1).
                  and_then (enqueue_initial sha now [] m available_at max_attempts (Some a) d1) (\<lambda>(attempt, d2).
                    Inr ((at_id attempt, existing \<noteq> None), d2)))))"

definition after_commit :: "string \<Rightarrow> string \<Rightarrow> string \<Rightarrow> bool \<Rightarrow> string \<Rightarrow> db \<Rightarrow> ingress_result result \<times> db" where
  "after_commit m attempt event deduplicated message d =
     (case row_by mem_id m (db_memorials d) of
        None \<Rightarrow> (Inl (RuntimeError message), d)
      | Some r \<Rightarrow> (Inr \<lparr>rz_memorial = r, rz_attempt = attempt, rz_event = event, rz_deduplicated = deduplicated\<rparr>, d))"

definition start_run :: "(string \<Rightarrow> string) \<Rightarrow> router \<Rightarrow> run_command \<Rightarrow> instant \<Rightarrow> db \<Rightarrow> ingress_result result \<times> db" where
  "start_run sha ro c now d =
     (case and_then (validate_run_command c) (\<lambda>_. canonical_sha256 sha (command_json c)) of
        Inl e \<Rightarrow> (Inl e, d)
      | Inr fingerprint \<Rightarrow>
          (case start_body sha ro c fingerprint now d of
             Inl e \<Rightarrow> (Inl e, d)
           | Inr ((attempt, deduplicated), d') \<Rightarrow>
               after_commit (''managed-root-'' @ managed_digest sha (mc_edict c) (mc_key c)) attempt
                 (''managed-event-'' @ managed_digest sha (mc_edict c) (mc_key c)) deduplicated
                 ''managed run root disappeared after commit'' d'))"

section \<open>Adopting what an earlier version left\<close>

definition event_json :: "event_envelope \<Rightarrow> json" where
  "event_json e =
     JObj [(''event_id'', JStr (ee_id e)), (''event_type'', JStr (ee_type e)), (''edict_id'', null_or_str (ee_edict e)),
           (''memorial_id'', null_or_str (ee_memorial e)), (''attempt'', JInt (ee_attempt e)), (''timestamp'', json_time (ee_timestamp e)),
           (''producer'', JStr (ee_producer e)), (''payload'', JObj (ee_payload e))]"

definition require_restart_safe_legacy_plan ::
  "(string \<Rightarrow> string) \<Rightarrow> (string \<Rightarrow> string) \<Rightarrow> event_envelope \<Rightarrow> db \<Rightarrow> unit result" where
  "require_restart_safe_legacy_plan sha redact ev d =
     (case (map_of (ee_payload ev) ''decision_request_id'', ee_memorial ev) of
        (Some (JStr q), Some m) \<Rightarrow>
          and_then (load sha redact m d) (\<lambda>state.
          and_then (decision_get sha q d) (\<lambda>record.
          and_then (binding_error sha state record m (Some q) (map_option mem_edict (row_by mem_id m (db_memorials d)))) (\<lambda>bad.
            raise_unless (bad = None)
              (RuntimeError ''legacy plan.completed retained: canonical plan binding conflicts with durable state''))))
      | _ \<Rightarrow> Inl (RuntimeError ''legacy plan.completed retained: restart-safe canonical plan binding is missing''))"

definition closed_status :: "task_status \<Rightarrow> bool" where
  "closed_status s = (s \<in> {TCompleted, TFailed, TCancelled})"

text \<open>The join of memorials and edicts, for a root.\<close>

definition joined_root :: "string \<Rightarrow> db \<Rightarrow> (memorial_row \<times> edict_row) option" where
  "joined_root m d =
     (case row_by mem_id m (db_memorials d) of
        None \<Rightarrow> None
      | Some r \<Rightarrow>
          (case row_by ed_id (mem_edict r) (db_edicts d) of
             None \<Rightarrow> None | Some e \<Rightarrow> if mem_dag_node r = None then Some (r, e) else None))"

definition first_attempt :: "string \<Rightarrow> db \<Rightarrow> attempt_lease option" where
  "first_attempt m d = find (\<lambda>a. at_memorial a = m \<and> at_no a = 1) (db_attempts d)"

definition adopt_legacy_body ::
  "(string \<Rightarrow> string) \<Rightarrow> (string \<Rightarrow> string) \<Rightarrow> router \<Rightarrow> event_envelope \<Rightarrow> string \<Rightarrow> string \<Rightarrow> string \<Rightarrow> instant \<Rightarrow> db \<Rightarrow>
   ((string \<times> bool) \<times> db) result" where
  "adopt_legacy_body sha redact ro ev m edict requested now d =
     (case joined_root m d of
        None \<Rightarrow> Inl (RuntimeError ''legacy managed root is unavailable'')
      | Some (r, e) \<Rightarrow>
          if mem_edict r \<noteq> edict then Inl (RuntimeError ''legacy managed root is unavailable'')
          else
            (let existing = first_attempt m d
             in and_then (budget e) (\<lambda>max_attempts.
                and_then (assign_current sha ro m None now d) (\<lambda>(_, d1).
                and_then (raise_unless (case existing of None \<Rightarrow> True | Some a \<Rightarrow> at_id a = requested)
                   (RuntimeError ''legacy managed event conflicts with prior adoption'')) (\<lambda>_.
                and_then (raise_unless (existing \<noteq> None \<or> \<not> closed_status (mem_status r))
                   (RuntimeError ''legacy managed root is already terminal'')) (\<lambda>_.
                and_then (if existing = None \<and> ee_type ev = ''plan.completed'' then require_restart_safe_legacy_plan sha redact ev d1
                          else Inr ()) (\<lambda>_.
                and_then (enqueue_initial sha now [] m (ee_timestamp ev) max_attempts (Some requested) d1) (\<lambda>(attempt, d2).
                  Inr ((at_id attempt, existing \<noteq> None), d2)))))))))"

definition adopt_legacy ::
  "(string \<Rightarrow> string) \<Rightarrow> (string \<Rightarrow> string) \<Rightarrow> router \<Rightarrow> event_envelope \<Rightarrow> instant \<Rightarrow> db \<Rightarrow> ingress_result result \<times> db" where
  "adopt_legacy sha redact ro ev now d =
     (if ee_type ev \<notin> {''edict.scheduled'', ''plan.completed'', ''edict.resume''}
      then (Inl (ValueError ''unsupported legacy managed event''), d)
      else
        (case (blank (ee_id ev), ee_memorial ev, ee_edict ev) of
           (False, Some m, Some edict) \<Rightarrow>
             (case canonical_sha256 sha (event_json ev) of
                Inl x \<Rightarrow> (Inl x, d)
              | Inr hash \<Rightarrow>
                  (case adopt_legacy_body sha redact ro ev m edict (''legacy-attempt-'' @ hash) now d of
                     Inl x \<Rightarrow> (Inl x, d)
                   | Inr ((attempt, deduplicated), d') \<Rightarrow>
                       after_commit m attempt (ee_id ev) deduplicated ''legacy managed root disappeared after commit'' d'))
         | _ \<Rightarrow> (Inl (ValueError ''legacy managed event identity is incomplete''), d)))"

definition adopt_existing_body ::
  "(string \<Rightarrow> string) \<Rightarrow> router \<Rightarrow> string \<Rightarrow> string \<Rightarrow> instant \<Rightarrow> instant \<Rightarrow> db \<Rightarrow> ((string \<times> bool) \<times> db) result" where
  "adopt_existing_body sha ro m requested available_at now d =
     (case joined_root m d of
        None \<Rightarrow> Inl (RuntimeError ''managed adoption root is unavailable'')
      | Some (r, e) \<Rightarrow>
          if closed_status (mem_status r) then Inl (RuntimeError ''managed adoption root is already terminal'')
          else
            (let existing = first_attempt m d
             in and_then (budget e) (\<lambda>max_attempts.
                and_then (assign_current sha ro m None now d) (\<lambda>(_, d1).
                and_then (enqueue_initial sha now [] m
                   (case existing of
                      None \<Rightarrow> available_at
                    | Some x \<Rightarrow> (case row_by at_id (at_id x) (db_attempts d1) of None \<Rightarrow> available_at | Some y \<Rightarrow> at_available y))
                   max_attempts (Some (case existing of None \<Rightarrow> requested | Some x \<Rightarrow> at_id x)) d1) (\<lambda>(attempt, d2).
                  Inr ((at_id attempt, existing \<noteq> None), d2))))))"

definition adopt_existing ::
  "(string \<Rightarrow> string) \<Rightarrow> router \<Rightarrow> string \<Rightarrow> string \<Rightarrow> instant \<Rightarrow> instant \<Rightarrow> db \<Rightarrow> ingress_result result \<times> db" where
  "adopt_existing sha ro m key available_at now d =
     (if blank m \<or> blank key then (Inl (ValueError ''managed adoption identity must be non-blank''), d)
      else
        (case adopt_existing_body sha ro m (''managed-attempt-'' @ managed_digest sha m key) available_at now d of
           Inl x \<Rightarrow> (Inl x, d)
         | Inr ((attempt, deduplicated), d') \<Rightarrow>
             after_commit m attempt key deduplicated ''managed adoption root disappeared after commit'' d'))"

section \<open>Retrying a task graph\<close>

text \<open>The tables of task graphs beside the rest of the database.\<close>

record graph_db =
  gd_base :: db
  gd_executions :: "dag_execution_row list"
  gd_nodes :: "dag_node list"

definition retry_json :: "string \<Rightarrow> string \<Rightarrow> string list option \<Rightarrow> json" where
  "retry_json dag key requested =
     JObj [(''schema_version'', JInt 1), (''dag_id'', JStr dag), (''idempotency_key'', JStr key),
           (''from_node_ids'', (case requested of None \<Rightarrow> JNull | Some ids \<Rightarrow> JList (map JStr ids)))]"

lemma retry_json_finite [simp]: "normalizable (retry_json dag key requested)"
  by (auto simp: retry_json_def split: option.split)

text \<open>\<open>str(item)\<close>; the events of this module list strings, and of other values a container alone is written differently here.\<close>

definition listed_text :: "json \<Rightarrow> string" where
  "listed_text v =
     (case v of
        JStr t \<Rightarrow> t | JInt n \<Rightarrow> int_text n | JFloat t \<Rightarrow> t | JNull \<Rightarrow> ''None'' | JBool b \<Rightarrow> if b then ''True'' else ''False''
      | _ \<Rightarrow> dumps v)"

definition stored_reset :: "string \<Rightarrow> json \<Rightarrow> string list option" where
  "stored_reset fingerprint p =
     (case p of
        JObj kvs \<Rightarrow>
          (case (map_of kvs ''managed_request_hash'', map_of kvs ''reset_node_ids'') of
             (Some (JStr h), Some (JList items)) \<Rightarrow>
               if h = fingerprint then Some (map listed_text items) else None
           | _ \<Rightarrow> None)
      | _ \<Rightarrow> None)"

definition replay_retry ::
  "(string \<Rightarrow> string) \<Rightarrow> router \<Rightarrow> string \<Rightarrow> string \<Rightarrow> string \<Rightarrow> string \<Rightarrow> instant \<Rightarrow> db \<Rightarrow> (string list \<times> db) result" where
  "replay_retry sha ro m a i fingerprint now d =
     (let conflict = RuntimeError ''managed DAG retry idempotency key conflicts with durable envelope''
      in and_then (assign_current sha ro m None now d) (\<lambda>(_, d1).
         and_then (select_outbox_record sha d1 i) (\<lambda>stored.
           case stored of
             None \<Rightarrow> Inl conflict
           | Some r \<Rightarrow>
               (case ob_payload r of
                  None \<Rightarrow> Inl (ValueError ''json'')
                | Some p \<Rightarrow>
                    if \<not> list_ex (\<lambda>x. at_id x = a \<and> at_memorial x = m) (db_attempts d1) then Inl conflict
                    else (case stored_reset fingerprint p of None \<Rightarrow> Inl conflict | Some ids \<Rightarrow> Inr (ids, d1))))))"

definition failed_or_cancelled :: "task_status \<Rightarrow> bool" where
  "failed_or_cancelled s = (s \<in> {TFailed, TCancelled})"

text \<open>The old root of a graph that ended badly, with its execution and edict.\<close>

definition retry_parent :: "string \<Rightarrow> graph_db \<Rightarrow> (dag_execution_row \<times> edict_row \<times> memorial_row) result" where
  "retry_parent dag g =
     (case row_by dx_id dag (gd_executions g) of
        None \<Rightarrow> Inl (ValueError ''DAG execution must be failed or cancelled to retry'')
      | Some x \<Rightarrow>
          (case row_by ed_id (dx_edict x) (db_edicts (gd_base g)) of
             None \<Rightarrow> Inl (ValueError ''DAG execution must be failed or cancelled to retry'')
           | Some e \<Rightarrow>
               if dx_status x \<notin> {''failed'', ''cancelled''} then Inl (ValueError ''DAG execution must be failed or cancelled to retry'')
               else
                 (case find (\<lambda>r. dx_root x = Some (mem_id r) \<and> mem_edict r = dx_edict x \<and> mem_dag_node r = None \<and>
                                 failed_or_cancelled (mem_status r)) (db_memorials (gd_base g)) of
                    None \<Rightarrow> Inl (ValueError ''DAG retry root is unavailable'')
                  | Some r \<Rightarrow> Inr (x, e, r))))"

definition reset_set :: "dag_node list \<Rightarrow> string list option \<Rightarrow> string list result" where
  "reset_set rows requested =
     and_then (retry_targets rows requested) (\<lambda>targets.
       if targets = [] then Inl (ValueError ''DAG retry has no retryable nodes'')
       else Inr (sorted_list_of_set (set (reset_closure rows targets))))"

text \<open>The two \<open>UPDATE\<close>s that claim the graph for its new root.\<close>

definition claim_graph :: "string \<Rightarrow> string \<Rightarrow> string \<Rightarrow> string list \<Rightarrow> graph_db \<Rightarrow> graph_db result" where
  "claim_graph dag old new ids g =
     (let hit = (\<lambda>n. nd_execution n = dag \<and> nd_id n \<in> set ids)
      in if count_rows (retry_claimable dag old) (gd_executions g) \<noteq> 1 then Inl (RuntimeError ''DAG retry lost the atomic claim'')
         else if count_rows hit (gd_nodes g) \<noteq> length ids then Inl (RuntimeError ''DAG retry reset set changed during claim'')
         else Inr (g\<lparr>gd_executions := update_rows (retry_claimable dag old)
                       (\<lambda>r. r\<lparr>dx_root := Some new, dx_status := ''pending'', dx_completed := None\<rparr>) (gd_executions g),
                     gd_nodes := update_rows hit reset_node (gd_nodes g)\<rparr>))"

definition retry_event :: "string \<Rightarrow> string \<Rightarrow> string \<Rightarrow> string \<Rightarrow> string list \<Rightarrow> string \<Rightarrow> instant \<Rightarrow> event_envelope" where
  "retry_event i e m dag ids fingerprint now =
     \<lparr>ee_id = i, ee_type = ''dag.retry_requested'', ee_edict = Some e, ee_memorial = Some m, ee_attempt = 1, ee_timestamp = now,
      ee_producer = ''managed-run-ingress'',
      ee_payload = [(''dag_id'', JStr dag), (''reset_node_ids'', JList (map JStr ids)), (''managed_request_hash'', JStr fingerprint)]\<rparr>"

definition new_retry ::
  "(string \<Rightarrow> string) \<Rightarrow> router \<Rightarrow> (string \<Rightarrow> unit result) \<Rightarrow> string \<Rightarrow> string list option \<Rightarrow> string \<Rightarrow> string \<Rightarrow> string \<Rightarrow> string \<Rightarrow>
   instant \<Rightarrow> graph_db \<Rightarrow> (string list \<times> graph_db) result" where
  "new_retry sha ro hook dag requested m a i fingerprint now g =
     and_then (retry_parent dag g) (\<lambda>(x, e, old).
     and_then (reset_set (filter (\<lambda>n. nd_execution n = dag) (gd_nodes g)) requested) (\<lambda>ids.
     and_then (insert_memorial
        (submitted_memorial m (dx_edict x) (mem_instruction old) (Some (mem_id old)) (mem_attempt old + 1)
           (mem_runtime_override old) (mem_acceptance_override old) now) (gd_base g)) (\<lambda>d1.
     and_then (assign_current sha ro m (Some now) now d1) (\<lambda>(_, d2).
     and_then (hook ''after_root'') (\<lambda>_.
     and_then (claim_graph dag (mem_id old) m ids (g\<lparr>gd_base := d2\<rparr>)) (\<lambda>g2.
     and_then (hook ''after_dag'') (\<lambda>_.
     and_then (budget e) (\<lambda>max_attempts.
     and_then (enqueue_initial sha now [] m now max_attempts (Some a) d2) (\<lambda>(_, d3).
     and_then (hook ''after_attempt'') (\<lambda>_.
     and_then (outbox_add sha (retry_event i (dx_edict x) m dag ids fingerprint now) d3) (\<lambda>d4.
     and_then (hook ''after_outbox'') (\<lambda>_. Inr (ids, g2\<lparr>gd_base := d4\<rparr>)))))))))))))"

record retry_result =
  gz_memorial :: memorial_row
  gz_attempt :: string
  gz_reset :: "string list"

definition retry_dag ::
  "(string \<Rightarrow> string) \<Rightarrow> router \<Rightarrow> (string \<Rightarrow> unit result) \<Rightarrow> string \<Rightarrow> string \<Rightarrow> string list option \<Rightarrow> instant \<Rightarrow> graph_db \<Rightarrow>
   retry_result result \<times> graph_db" where
  "retry_dag sha ro hook dag key from_node_ids now g =
     (if blank dag \<or> blank key then (Inl (ValueError ''DAG retry identity must be non-blank''), g)
      else
        (let requested = map_option (\<lambda>ids. sorted_list_of_set (set ids)) from_node_ids;
             digest = managed_digest sha dag key;
             m = ''managed-dag-retry-root-'' @ digest; a = ''managed-dag-retry-attempt-'' @ digest;
             i = ''managed-dag-retry-event-'' @ digest; fingerprint = json_digest sha (retry_json dag key requested)
         in case (if has_memorial (gd_base g) m
                  then and_then (replay_retry sha ro m a i fingerprint now (gd_base g)) (\<lambda>(ids, d). Inr (ids, g\<lparr>gd_base := d\<rparr>))
                  else new_retry sha ro hook dag requested m a i fingerprint now g) of
              Inl e \<Rightarrow> (Inl e, g)
            | Inr (ids, g') \<Rightarrow>
                (case row_by mem_id m (db_memorials (gd_base g')) of
                   None \<Rightarrow> (Inl (RuntimeError ''managed DAG retry root disappeared after commit''), g')
                 | Some r \<Rightarrow> (Inr \<lparr>gz_memorial = r, gz_attempt = a, gz_reset = ids\<rparr>, g'))))"

end
