(* ===== verification/Ingress_Safety.thy ===== *)
theory Ingress_Safety
  imports Run_Ingress Scheduled_Safety
begin

text \<open>
  What a request for a run leaves behind: all of a run or nothing, once for its idempotency key, and for a follow-up only
  when no other root of the edict is at work.
\<close>

section \<open>The identities of a request\<close>

definition request_root :: "(string \<Rightarrow> string) \<Rightarrow> run_command \<Rightarrow> string" where
  "request_root sha c = ''managed-root-'' @ managed_digest sha (mc_edict c) (mc_key c)"

definition request_attempt :: "(string \<Rightarrow> string) \<Rightarrow> run_command \<Rightarrow> string" where
  "request_attempt sha c = ''managed-attempt-'' @ managed_digest sha (mc_edict c) (mc_key c)"

definition request_event_id :: "(string \<Rightarrow> string) \<Rightarrow> run_command \<Rightarrow> string" where
  "request_event_id sha c = ''managed-event-'' @ managed_digest sha (mc_edict c) (mc_key c)"

lemma budget_Inr: "budget e = Inr n \<longleftrightarrow> ed_retry_limit e = Some (n - 1)"
  by (auto simp: budget_def split: option.split)

section \<open>A new run\<close>

text \<open>What a request that starts a run does to the database.\<close>

definition run_started ::
  "(string \<Rightarrow> string) \<Rightarrow> run_command \<Rightarrow> string \<Rightarrow> string option \<Rightarrow> int \<Rightarrow> instant \<Rightarrow> db \<Rightarrow> db \<Rightarrow> bool" where
  "run_started sha c fingerprint parent mx now d d' =
     (let root = submitted_memorial (request_root sha c) (mc_edict c) (mc_instruction c) parent 1 (mc_runtime c) (mc_acceptance c) now
      in request_root sha c \<notin> mem_id ` set (db_memorials d) \<and>
         run_prepared sha (request_root sha c) (request_attempt sha c) (\<lambda>r. r = root) now mx d' \<and>
         (\<exists>correlation assignments attempts.
            request_event_id sha c \<notin> ob_id ` set (db_outbox d) \<and>
            d' = d\<lparr>db_memorials := db_memorials d @ [root], db_assignments := assignments, db_attempts := attempts,
              db_outbox := db_outbox d @ [new_outbox_row (request_event (request_event_id sha c) (request_root sha c) c fingerprint now) correlation]\<rparr>))"

lemma insert_memorial_Inr:
  assumes "insert_memorial r d = Inr d'"
  shows "d' = d\<lparr>db_memorials := db_memorials d @ [r]\<rparr>" "mem_id r \<notin> mem_id ` set (db_memorials d)"
    and "row_by mem_id (mem_id r) (db_memorials d') = Some r"
  using assms by (auto simp: insert_memorial_def has_memorial_iff row_by_append row_by_None_iff [THEN iffD2] split: if_split_asm)

lemma admit_newD:
  assumes "admit_new sha ro c m i fingerprint now d = Inr (t, d')"
  obtains parent d1 x d2 where "resolve_parent c d = Inr parent" "t = now"
    "insert_memorial (submitted_memorial m (mc_edict c) (mc_instruction c) parent 1 (mc_runtime c) (mc_acceptance c) now) d = Inr d1"
    "assign_current sha ro m (Some now) now d1 = Inr (x, d2)" "outbox_add sha (request_event i m c fingerprint now) d2 = Inr d'"
  using assms by (auto simp: admit_new_def)

lemma start_new:
  assumes ok: "ledger_ok d" and n: "admit_new sha ro c (request_root sha c) (request_event_id sha c) fingerprint now d = Inr (t, d1)"
    and q: "enqueue_initial sha now [] (request_root sha c) t mx (Some (request_attempt sha c)) d1 = Inr (b, d2)"
  shows "\<exists>parent. resolve_parent c d = Inr parent \<and> run_started sha c fingerprint parent mx now d d2 \<and> at_id b = request_attempt sha c \<and>
    ledger_ok d2 \<and> evolves d d2"
proof -
  let ?m = "request_root sha c"
  obtain parent e1 x e2 where p: "resolve_parent c d = Inr parent" and t: "t = now"
    and i: "insert_memorial (submitted_memorial ?m (mc_edict c) (mc_instruction c) parent 1 (mc_runtime c) (mc_acceptance c) now) d = Inr e1"
      (is "insert_memorial ?root d = _")
    and a: "assign_current sha ro ?m (Some now) now e1 = Inr (x, e2)"
    and o': "outbox_add sha (request_event (request_event_id sha c) ?m c fingerprint now) e2 = Inr d1" by (rule admit_newD [OF n])
  have id: "mem_id ?root = ?m" by (simp add: submitted_memorial_def)
  note I = insert_memorial_Inr [OF i, unfolded id]
  note A = assign_current_frame(1) [OF a]
  obtain cor where O: "d1 = e2\<lparr>db_outbox := db_outbox e2 @ [new_outbox_row (request_event (request_event_id sha c) ?m c fingerprint now) cor]\<rparr>"
      "ee_id (request_event (request_event_id sha c) ?m c fingerprint now) \<notin> ob_id ` set (db_outbox e2)"
    using outbox_add_Inr [OF o'] by blast
  have two: "db_attempts e2 = db_attempts d" "db_memorials e2 = db_memorials d @ [?root]" "db_outbox e2 = db_outbox d"
    by (subst A, simp add: I(1))+
  have one: "db_attempts d1 = db_attempts d" "db_memorials d1 = db_memorials d @ [?root]" using O two by simp_all
  have ok1: "ledger_ok d1" by (rule ledger_ok_memorials [OF ok]) (auto simp: one)
  note k = enqueue_named [OF ok1 q]
  obtain ats where d2: "d2 = d1\<lparr>db_attempts := ats\<rparr>" using k by blast
  obtain gs where gs: "e2 = e1\<lparr>db_assignments := gs\<rparr>" using A by blast
  obtain v where v: "get_assignment sha ?m e2 = Inr (Some (x, v))" using assign_current_Inr [OF a] by blast
  have "get_assignment sha ?m d2 = Inr (Some (x, v))" by (subst get_assignment_same [of _ e2]) (simp_all add: d2 O v)
  moreover have "row_by mem_id ?m (db_memorials d2) = Some ?root" using I(3) by (simp add: d2 one I(1))
  ultimately have r: "run_prepared sha ?m (request_attempt sha c) (\<lambda>r. r = ?root) now mx d2" using k t unfolding run_prepared_def by auto
  have full: "d2 = d\<lparr>db_memorials := db_memorials d @ [?root], db_assignments := gs, db_attempts := ats,
      db_outbox := db_outbox d @ [new_outbox_row (request_event (request_event_id sha c) ?m c fingerprint now) cor]\<rparr>"
    unfolding d2 O(1) two(3) gs I(1) by simp
  have "run_started sha c fingerprint parent mx now d d2"
    unfolding run_started_def Let_def using I(2) r full O(2) two(3) by (auto simp: request_event_def)
  moreover have "evolves d d2" using k one by (simp add: evolves_def)
  ultimately show ?thesis using p k by blast
qed

text \<open>What the unit of work reads before it decides.\<close>

lemma start_bodyD:
  assumes "start_body sha ro c fingerprint now d = Inr ((attempt, dup), d')"
  obtains e mx t d1 b where "row_by ed_id (mc_edict c) (db_edicts d) = Some e" "budget e = Inr mx"
    "(case row_by mem_id (request_root sha c) (db_memorials d) of
        None \<Rightarrow> admit_new sha ro c (request_root sha c) (request_event_id sha c) fingerprint now d
      | Some r \<Rightarrow> admit_again sha ro c (request_root sha c) (request_event_id sha c) fingerprint now r d) = Inr (t, d1)"
    "enqueue_initial sha now [] (request_root sha c) t mx (Some (request_attempt sha c)) d1 = Inr (b, d')"
    "attempt = at_id b" "dup = (row_by mem_id (request_root sha c) (db_memorials d) \<noteq> None)"
proof -
  obtain e where e: "row_by ed_id (mc_edict c) (db_edicts d) = Some e"
    using assms by (cases "row_by ed_id (mc_edict c) (db_edicts d)") (auto simp: start_body_def Let_def)
  show ?thesis using that [OF e] assms e by (auto simp: start_body_def Let_def request_root_def request_event_id_def request_attempt_def)
qed

lemma admit_again_frame:
  assumes "admit_again sha ro c m i fingerprint now r d = Inr (t, d')"
  obtains x where "t = mem_created r" "assign_current sha ro m None now d = Inr (x, d')"
  using assms by (auto simp: admit_again_def)

text \<open>The unit of work of a request: a run that is run_started, or one that is there already.\<close>

lemma start_body_cases:
  assumes ok: "ledger_ok d" and s: "start_body sha ro c fingerprint now d = Inr ((attempt, dup), d')"
  shows "attempt = request_attempt sha c" "\<exists>r. row_by mem_id (request_root sha c) (db_memorials d') = Some r"
    and "if dup then request_root sha c \<in> mem_id ` set (db_memorials d) \<and>
           (\<exists>assignments attempts. d' = d\<lparr>db_assignments := assignments, db_attempts := attempts\<rparr>)
         else \<exists>parent limit e. resolve_parent c d = Inr parent \<and> row_by ed_id (mc_edict c) (db_edicts d) = Some e \<and> ed_retry_limit e = Some limit \<and>
           run_started sha c fingerprint parent (limit + 1) now d d'"
    and "ledger_ok d'" "evolves d d'"
proof -
  obtain e mx t d1 b where e: "row_by ed_id (mc_edict c) (db_edicts d) = Some e" "budget e = Inr mx"
    and n: "(case row_by mem_id (request_root sha c) (db_memorials d) of
        None \<Rightarrow> admit_new sha ro c (request_root sha c) (request_event_id sha c) fingerprint now d
      | Some r \<Rightarrow> admit_again sha ro c (request_root sha c) (request_event_id sha c) fingerprint now r d) = Inr (t, d1)"
    and q: "enqueue_initial sha now [] (request_root sha c) t mx (Some (request_attempt sha c)) d1 = Inr (b, d')"
    and at: "attempt = at_id b" and dup: "dup = (row_by mem_id (request_root sha c) (db_memorials d) \<noteq> None)"
    by (rule start_bodyD [OF s])
  have "attempt = request_attempt sha c \<and> (\<exists>r. row_by mem_id (request_root sha c) (db_memorials d') = Some r) \<and> ledger_ok d' \<and> evolves d d' \<and>
    (if dup then request_root sha c \<in> mem_id ` set (db_memorials d) \<and>
       (\<exists>assignments attempts. d' = d\<lparr>db_assignments := assignments, db_attempts := attempts\<rparr>)
     else \<exists>parent. resolve_parent c d = Inr parent \<and> run_started sha c fingerprint parent mx now d d')"
  proof (cases "row_by mem_id (request_root sha c) (db_memorials d)")
    case None
    then have a: "admit_new sha ro c (request_root sha c) (request_event_id sha c) fingerprint now d = Inr (t, d1)" using n by simp
    from start_new [OF ok a q] show ?thesis using None at dup by (auto simp: run_started_def Let_def run_prepared_def)
  next
    case (Some r)
    then obtain x where "assign_current sha ro (request_root sha c) None now d = Inr (x, d1)" using n by (auto elim: admit_again_frame)
    then obtain gs where gs: "d1 = d\<lparr>db_assignments := gs\<rparr>" using assign_current_frame(1) by blast
    have ok1: "ledger_ok d1" by (rule ledger_ok_memorials [OF ok]) (simp_all add: gs)
    note k = enqueue_named [OF ok1 q]
    then obtain ats where d': "d' = d1\<lparr>db_attempts := ats\<rparr>" by blast
    have "request_root sha c \<in> mem_id ` set (db_memorials d)" using row_by_SomeD [OF Some] by force
    moreover have "evolves d d'" using k by (simp add: evolves_def gs)
    moreover have "d' = d\<lparr>db_assignments := gs, db_attempts := ats\<rparr>" by (simp add: d' gs)
    ultimately show ?thesis using k at dup Some by (auto simp: d' gs)
  qed
  moreover have "ed_retry_limit e = Some (mx - 1)" "mx = (mx - 1) + 1" using e(2) by (auto simp: budget_Inr)
  ultimately show "attempt = request_attempt sha c" "\<exists>r. row_by mem_id (request_root sha c) (db_memorials d') = Some r"
    and "if dup then request_root sha c \<in> mem_id ` set (db_memorials d) \<and>
           (\<exists>assignments attempts. d' = d\<lparr>db_assignments := assignments, db_attempts := attempts\<rparr>)
         else \<exists>parent limit e. resolve_parent c d = Inr parent \<and> row_by ed_id (mc_edict c) (db_edicts d) = Some e \<and> ed_retry_limit e = Some limit \<and>
           run_started sha c fingerprint parent (limit + 1) now d d'"
    and "ledger_ok d'" "evolves d d'"
    using e(1) by (auto split: if_split_asm)
qed

lemma start_run_cases:
  assumes ok: "ledger_ok d" and s: "start_run sha ro c now d = (res, d')"
  shows "case res of
      Inl e \<Rightarrow> d' = d
    | Inr z \<Rightarrow> \<exists>fingerprint. canonical_sha256 sha (command_json c) = Inr fingerprint \<and> validate_run_command c = Inr () \<and>
        start_body sha ro c fingerprint now d = Inr ((rz_attempt z, rz_deduplicated z), d') \<and> rz_event z = request_event_id sha c \<and>
        row_by mem_id (request_root sha c) (db_memorials d') = Some (rz_memorial z)"
proof (cases "and_then (validate_run_command c) (\<lambda>_. canonical_sha256 sha (command_json c))")
  case (Inl e)
  then show ?thesis using s by (auto simp: start_run_def)
next
  case (Inr fingerprint)
  show ?thesis
  proof (cases "start_body sha ro c fingerprint now d")
    case (Inl e)
    then show ?thesis using s Inr by (auto simp: start_run_def)
  next
    case b: (Inr x)
    obtain attempt dup d1 where x: "x = ((attempt, dup), d1)" by (cases x) auto
    obtain r where r: "row_by mem_id (request_root sha c) (db_memorials d1) = Some r"
      using start_body_cases(2) [OF ok b [unfolded x]] by blast
    then have "res = Inr \<lparr>rz_memorial = r, rz_attempt = attempt, rz_event = request_event_id sha c, rz_deduplicated = dup\<rparr>" "d' = d1"
      using s Inr b unfolding x by (auto simp: start_run_def after_commit_def request_root_def request_event_id_def)
    then show ?thesis using Inr b r by (auto simp: x)
  qed
qed

section \<open>Repeated requests\<close>

text \<open>What later work keeps of a request: its envelope, whatever the status of the run.\<close>

definition request_kept :: "(string \<Rightarrow> string) \<Rightarrow> run_command \<Rightarrow> db \<Rightarrow> db \<Rightarrow> bool" where
  "request_kept sha c d d' =
     (db_candidates d' = db_candidates d \<and> db_assignments d' = db_assignments d \<and>
      map_option ed_retry_limit (row_by ed_id (mc_edict c) (db_edicts d')) = map_option ed_retry_limit (row_by ed_id (mc_edict c) (db_edicts d)) \<and>
      map_option (\<lambda>r. (mem_edict r, mem_instruction r, mem_parent r, mem_created r, mem_dag_node r))
        (row_by mem_id (request_root sha c) (db_memorials d')) =
      map_option (\<lambda>r. (mem_edict r, mem_instruction r, mem_parent r, mem_created r, mem_dag_node r))
        (row_by mem_id (request_root sha c) (db_memorials d)) \<and>
      map_option (\<lambda>r. (ob_type r, ob_payload r, ob_correlation r)) (row_by ob_id (request_event_id sha c) (db_outbox d')) =
      map_option (\<lambda>r. (ob_type r, ob_payload r, ob_correlation r)) (row_by ob_id (request_event_id sha c) (db_outbox d)))"

lemma request_names [simp]: "\<not> blank (request_root sha c)" "\<not> blank (request_attempt sha c)"
  by (simp_all add: request_root_def request_attempt_def blank_code is_space_def)

lemma dict_set_finite:
  "normalizable (JObj p) \<Longrightarrow> normalizable v \<Longrightarrow> normalizable (JObj (dict_set k v p))"
  by (induction k v p rule: dict_set.induct) auto

lemma request_payload_finite:
  assumes "canonical_sha256 sha (command_json c) = Inr fingerprint"
  shows "normalizable (JObj (request_payload h c))"
proof -
  have "normalizable (command_json c)" using assms by (auto simp: canonical_sha256_def canonical_json_bytes_def split: if_split_asm)
  then have "normalizable (JObj (mc_payload c))" by (simp add: command_json_def)
  then show ?thesis unfolding request_payload_def by (rule dict_set_finite) simp
qed

lemma start_again:
  assumes st: "run_started sha c fingerprint parent mx now d d'" and par: "resolve_parent c d = Inr parent"
    and v: "validate_run_command c = Inr ()" "canonical_sha256 sha (command_json c) = Inr fingerprint"
    and e: "row_by ed_id (mc_edict c) (db_edicts d) = Some e" "ed_retry_limit e = Some (mx - 1)"
    and kept: "request_kept sha c d' d''" and ev: "evolves d' d''" and ok: "ledger_ok d''" and b: "first_attempt (request_root sha c) d'' = Some b"
    and r: "row_by mem_id (request_root sha c) (db_memorials d'') = Some r"
  shows "start_run sha ro c now' d'' =
    (if at_available b = now
     then (Inr \<lparr>rz_memorial = r, rz_attempt = request_attempt sha c, rz_event = request_event_id sha c, rz_deduplicated = True\<rparr>, d'')
     else (Inl (AttemptConflict ''initial attempt replay does not match durable envelope''), d''))"
proof -
  let ?m = "request_root sha c" and ?i = "request_event_id sha c" and ?a = "request_attempt sha c"
  let ?root = "submitted_memorial ?m (mc_edict c) (mc_instruction c) parent 1 (mc_runtime c) (mc_acceptance c) now"
  obtain cor where out: "db_outbox d' = db_outbox d @ [new_outbox_row (request_event ?i ?m c fingerprint now) cor]" "?i \<notin> ob_id ` set (db_outbox d)"
    and ed: "db_edicts d' = db_edicts d" using st unfolding run_started_def Let_def by auto
  have p: "run_prepared sha ?m ?a (\<lambda>r. r = ?root) now mx d'" using st by (simp add: run_started_def Let_def)
  have root: "row_by mem_id ?m (db_memorials d') = Some ?root" using p by (auto simp: run_prepared_def)
  have rr: "mem_edict r = mc_edict c" "mem_instruction r = mc_instruction c" "mem_parent r = parent" "mem_created r = now" "mem_dag_node r = None"
    using kept root r by (simp_all add: request_kept_def submitted_memorial_def)
  have "row_by ob_id ?i (db_outbox d') = Some (new_outbox_row (request_event ?i ?m c fingerprint now) cor)"
    using out(2) by (simp add: out(1) row_by_append row_by_None_iff [THEN iffD2] new_outbox_row_def request_event_def)
  then obtain o' where o': "row_by ob_id ?i (db_outbox d'') = Some o'" "ob_type o' = mc_event_type c"
    "ob_payload o' = Some (JObj (request_payload fingerprint c))" "ob_correlation o' = Some cor"
    using kept by (auto simp: request_kept_def new_outbox_row_def request_event_def)
  have sel: "select_outbox_record sha d'' ?i = Inr (Some o')" using o'(1,4) by (simp add: select_outbox_record_def)
  have req: "same_request c fingerprint r (Some o')" using rr o'(2,3) par by (auto simp: same_request_def resolve_parent_def split: if_split_asm)
  obtain x where "get_assignment sha ?m d' = Inr (Some x)" using p by (auto simp: run_prepared_def)
  then have "get_assignment sha ?m d'' = Inr (Some x)" using get_assignment_same [of d'' d' sha ?m] kept by (simp add: request_kept_def)
  then have asg: "assign_current sha ro ?m None now' d'' = Inr (fst x, d'')" by (simp add: assign_current_def)
  have adm: "admit_again sha ro c ?m ?i fingerprint now' r d'' = Inr (now, d'')"
    using asg sel req request_payload_finite [OF v(2)] rr(4) by (simp add: admit_again_def)
  have b': "b \<in> set (db_attempts d'')" "at_memorial b = ?m" "at_no b = 1" "find (\<lambda>a. at_memorial a = ?m \<and> at_no a = 1) (db_attempts d'') = Some b"
    using b by (auto simp: first_attempt_def find_Some_iff)
  obtain f where f: "f \<in> set (db_attempts d')" "at_id f = ?a" "at_memorial f = ?m" "at_no f = 1" "at_max f = mx" using p by (auto simp: run_prepared_def)
  then obtain f' where f': "f' \<in> set (db_attempts d'')" "row_evolves f f'" using ev by (auto simp: evolves_def)
  then have "at_id f' = ?a" "at_memorial f' = ?m" "at_no f' = 1" "at_max f' = mx" using f by (auto simp: row_evolves_def transition_ok_def)
  then have bb: "at_id b = ?a" "at_max b = mx" using ledger_okD(5) [OF ok b'(1) f'(1)] b'(2,3) by (auto simp: siblings_ok_def)
  have val: "decode_attempt b = Inr b" using ledger_okD(3) [OF ok b'(1)] by (simp add: decode_attempt_def)
  have mx: "\<not> mx \<le> 0" using ledger_okD(3) [OF ok b'(1)] bb(2) by (simp add: valid_attempt_def)
  have q: "enqueue_initial sha now' [] ?m now mx (Some ?a) d'' =
    (if at_available b = now then Inr (b, d'') else Inl (AttemptConflict ''initial attempt replay does not match durable envelope''))"
    using r rr(5) b'(4) val mx bb by (simp add: enqueue_initial_def opt_nonblank_def decode_attempt_def)
  obtain e' where e': "row_by ed_id (mc_edict c) (db_edicts d'') = Some e'" "budget e' = Inr mx"
    using kept e by (auto simp: request_kept_def ed budget_def)
  have "start_body sha ro c fingerprint now' d'' =
    (if at_available b = now then Inr ((?a, True), d'') else Inl (AttemptConflict ''initial attempt replay does not match durable envelope''))"
    unfolding start_body_def Let_def request_root_def [symmetric] request_event_id_def [symmetric] request_attempt_def [symmetric] e'(1)
    by (simp add: e'(2) r adm q bb)
  then show ?thesis using v r by (simp add: start_run_def after_commit_def request_root_def request_event_id_def)
qed

section \<open>Requests as steps of the life of runs\<close>

lemma request_life:
  assumes inv: "runs_ok sha redact d" and ty: "mc_event_type c \<notin> terminal_types"
    and at: "\<And>r. row_by mem_id (request_root sha c) (db_memorials d) = Some r \<Longrightarrow> open_status (mem_status r) \<or> first_attempt (request_root sha c) d \<noteq> None"
    and s: "start_run sha ro c now d = (res, d')"
  shows "(life_step sha redact secret repr)\<^sup>*\<^sup>* d d'"
proof -
  let ?L = "life_step sha redact secret repr" and ?m = "request_root sha c" and ?i = "request_event_id sha c"
  have ok: "ledger_ok d" using inv runs_invD(1) by (simp add: runs_ok_def)
  show ?thesis
  proof (cases res)
    case (Inl e)
    then show ?thesis using start_run_cases [OF ok s] by simp
  next
    case (Inr z)
    then obtain fingerprint attempt dup where "start_body sha ro c fingerprint now d = Inr ((attempt, dup), d')"
      using start_run_cases [OF ok s] by auto
    then obtain e mx t d1 b where n: "(case row_by mem_id ?m (db_memorials d) of
        None \<Rightarrow> admit_new sha ro c ?m ?i fingerprint now d | Some r \<Rightarrow> admit_again sha ro c ?m ?i fingerprint now r d) = Inr (t, d1)"
      and q: "enqueue_initial sha now [] ?m t mx (Some (request_attempt sha c)) d1 = Inr (b, d')" by (rule start_bodyD)
    show ?thesis
    proof (cases "row_by mem_id ?m (db_memorials d)")
      case None
      then have "admit_new sha ro c ?m ?i fingerprint now d = Inr (t, d1)" using n by simp
      then obtain parent e1 x e2 where i: "insert_memorial (submitted_memorial ?m (mc_edict c) (mc_instruction c) parent 1 (mc_runtime c) (mc_acceptance c) now) d = Inr e1"
          (is "insert_memorial ?root d = _")
        and a: "assign_current sha ro ?m (Some now) now e1 = Inr (x, e2)" and o': "outbox_add sha (request_event ?i ?m c fingerprint now) e2 = Inr d1"
        by (rule admit_newD)
      have root: "mem_id ?root = ?m" "mem_status ?root = TSubmitted" by (simp_all add: submitted_memorial_def)
      note I = insert_memorial_Inr [OF i]
      have one: "?L d e1" using life_step.submit [OF I(2) _ I(1)] root(2) by (simp add: open_status_def)
      have inv1: "runs_ok sha redact e1" by (rule runs.step_inv [OF inv one])
      have two: "?L e1 e2" by (rule assign_step [OF inv1 a])
      have inv2: "runs_ok sha redact e2" by (rule runs.step_inv [OF inv1 two])
      have mem: "db_memorials e2 = db_memorials e1" by (subst assign_current_frame(1) [OF a]) simp
      obtain cor where O: "d1 = e2\<lparr>db_outbox := db_outbox e2 @ [new_outbox_row (request_event ?i ?m c fingerprint now) cor]\<rparr>"
        using outbox_add_Inr [OF o'] by blast
      have three: "?L e2 d1"
      proof (rule life_step.other)
        have inv0: "runs_inv sha redact {} e2" using inv2 by (simp add: runs_ok_def)
        show "db_attempts d1 = db_attempts e2" "db_memorials d1 = db_memorials e2" by (simp_all add: O)
        show "terminal_events d1 m = terminal_events e2 m" for m using ty by (simp add: O terminal_events_def new_outbox_row_def request_event_def)
        have "?m \<in> mem_id ` set (db_memorials e2)" using I(1) root(1) by (simp add: mem)
        then show "m \<in> mem_id ` set (db_memorials e2)" if "w \<in> set (db_outbox d1)" "ob_memorial w = Some m" for w m
          using inv0 that by (auto simp: runs_inv_def O new_outbox_row_def request_event_def)
        show "states_ok sha redact d1" using runs_invD(2) [OF inv0] by (simp add: states_ok_def O)
      qed
      have inv3: "runs_ok sha redact d1" by (rule runs.step_inv [OF inv2 three])
      have "row_by mem_id ?m (db_memorials d1) = Some ?root" using I(3) by (simp add: O mem root)
      then have four: "?L d1 d'" using enqueue_step [OF inv3 _ _ q] root(2) by (simp add: open_status_def)
      show ?thesis using one two three four by (meson converse_rtranclp_into_rtranclp r_into_rtranclp)
    next
      case (Some r)
      then obtain x where a: "assign_current sha ro ?m None now d = Inr (x, d1)" using n by (auto elim: admit_again_frame)
      have one: "?L d d1" by (rule assign_step [OF inv a])
      have inv1: "runs_ok sha redact d1" by (rule runs.step_inv [OF inv one])
      have same: "db_memorials d1 = db_memorials d" "db_attempts d1 = db_attempts d" by (subst assign_current_frame(1) [OF a], simp)+
      show ?thesis
      proof (cases "first_attempt ?m d")
        case None
        then have "?L d1 d'" using enqueue_step [OF inv1 _ _ q] Some at [OF Some] by (simp add: same)
        then show ?thesis using one by (meson converse_rtranclp_into_rtranclp r_into_rtranclp)
      next
        case (Some f)
        then have "d' = d1" using q by (auto simp: enqueue_initial_def first_attempt_def same split: if_split_asm option.split_asm)
        then show ?thesis using one by blast
      qed
    qed
  qed
qed

section \<open>An example\<close>

definition demo_followup :: run_command where
  "demo_followup =
     \<lparr>mc_edict = ''e1'', mc_key = ''k1'', mc_instruction = ''more'', mc_event_type = followup_type, mc_payload = [(''text'', JStr ''more'')],
      mc_parent = None, mc_runtime = None, mc_acceptance = None\<rparr>"

lemma demo_followup_sel [simp]:
  "mc_edict demo_followup = ''e1''" "mc_key demo_followup = ''k1''" "mc_instruction demo_followup = ''more''" "mc_event_type demo_followup = followup_type"
  "mc_payload demo_followup = [(''text'', JStr ''more'')]" "mc_parent demo_followup = None" "mc_runtime demo_followup = None" "mc_acceptance demo_followup = None"
  by (simp_all add: demo_followup_def)

definition idle_db :: db where
  "idle_db = empty_db\<lparr>db_edicts := [demo_edict]\<rparr>"

definition demo_start :: "ingress_result result \<times> db" where
  "demo_start = start_run flat_digest demo_router demo_followup 100 idle_db"

lemma demo_followup_hash: "canonical_sha256 flat_digest (command_json demo_followup) = Inr zeros64" "validate_run_command demo_followup = Inr ()"
  by (simp_all add: command_json_def null_or_str_def) (simp add: validate_run_command_def followup_type_def blank_code is_space_def raise_unless_def)

lemma demo_start_result: "\<exists>z d'. demo_start = (Inr z, d') \<and> \<not> rz_deduplicated z"
proof -
  let ?m = "request_root flat_digest demo_followup" and ?i = "request_event_id flat_digest demo_followup"
  let ?root = "submitted_memorial ?m ''e1'' ''more'' None 1 None None 100"
  let ?d1 = "idle_db\<lparr>db_memorials := [?root]\<rparr>"
  let ?d2 = "?d1\<lparr>db_assignments := [legacy_row flat_digest (flat_legacy ?m 100)]\<rparr>"
  let ?row = "new_outbox_row (request_event ?i ?m demo_followup zeros64 100) (''legacy:'' @ zeros64)"
  let ?d3 = "?d2\<lparr>db_outbox := [?row]\<rparr>"
  note em = idle_db_def empty_db_def
  have root: "mem_id ?root = ?m" "mem_dag_node ?root = None" by (simp_all add: submitted_memorial_def)
  have i: "insert_memorial ?root idle_db = Inr ?d1"
    by (simp add: insert_memorial_def has_memorial_iff has_edict_iff em submitted_memorial_def demo_edict_def)
  have a: "assign_current flat_digest demo_router ?m (Some 100) 100 ?d1 = Inr (Legacy (flat_legacy ?m 100), ?d2)"
    by (rule flat_assigned) (simp_all add: em has_memorial_iff root)
  have cor: "correlation_for_memorial flat_digest ?d2 ?m None = Inr (''legacy:'' @ zeros64)"
    by (simp add: correlation_for_memorial_def select_ordered_def fallback_correlations_def first_correlation_def first_of_def em flat_digest_def)
  have pay: "request_payload zeros64 demo_followup = [(''text'', JStr ''more''), (''managed_request_hash'', JStr zeros64)]"
    by (simp add: request_payload_def)
  then have "event_correlation flat_digest (request_event ?i ?m demo_followup zeros64 100) ?d2 = Inr (''legacy:'' @ zeros64)"
    using cor by (simp add: event_correlation_def request_event_def explicit_correlation_def)
  moreover have "insert_outbox ?row ?d2 = Inr ?d3"
    by (simp add: insert_outbox_def new_outbox_row_def request_event_def em has_edict_iff has_memorial_iff root demo_edict_def)
  moreover have "normalizable (JObj (ee_payload (request_event ?i ?m demo_followup zeros64 100)))" by (simp add: request_event_def pay)
  ultimately have o': "outbox_add flat_digest (request_event ?i ?m demo_followup zeros64 100) ?d2 = Inr ?d3" by (simp add: outbox_add_def del: append.simps)
  have "resolve_parent demo_followup idle_db = Inr None"
    by (simp add: resolve_parent_def has_active_root_def latest_root_def select_ordered_def em)
  then have n: "admit_new flat_digest demo_router demo_followup ?m ?i zeros64 100 idle_db = Inr (100, ?d3)"
    using i a o' by (simp add: admit_new_def)
  have "first_correlation (\<lambda>_. True) ob_correlation (select_ordered (\<lambda>r. ob_memorial r = Some ?m \<and> ob_correlation r \<noteq> None)
      (\<lambda>r. (ob_occurred r, ob_id r)) (db_outbox ?d3)) = Some (''legacy:'' @ zeros64)"
    by (simp add: select_ordered_def first_correlation_def first_of_def new_outbox_row_def request_event_def)
  moreover have "is_identifier (''legacy:'' @ zeros64)" by code_simp
  ultimately have cor3: "correlation_for_memorial flat_digest ?d3 ?m None = Inr (''legacy:'' @ zeros64)"
    by (simp add: correlation_for_memorial_def del: append.simps)
  have d3: "row_by mem_id ?m (db_memorials ?d3) = Some ?root" "db_attempts ?d3 = []" by (simp_all add: root em)
  have tn: "trim_nonempty (request_attempt flat_digest demo_followup)" by (simp add: trim_nonempty_def request_attempt_def)
  obtain b d' where q: "enqueue_initial flat_digest 100 [] ?m 100 1 (Some (request_attempt flat_digest demo_followup)) ?d3 = Inr (b, d')"
    and mem: "db_memorials d' = [?root]"
    using flat_enqueued [OF d3(1) root(2) d3(2) cor3 request_names tn, of 1 100 100] by (simp add: em)
  have "start_body flat_digest demo_router demo_followup zeros64 100 idle_db = Inr ((at_id b, False), d')"
    using n q unfolding start_body_def Let_def request_root_def [symmetric] request_event_id_def [symmetric] request_attempt_def [symmetric]
    by (simp add: em budget_def demo_edict_def)
  then show ?thesis unfolding demo_start_def start_run_def
    using demo_followup_hash mem root by (simp add: after_commit_def request_root_def)
qed

lemma idle_db_ok: "ledger_ok idle_db"
  by (simp add: idle_db_def empty_db_def ledger_ok_def)

section \<open>Theorems\<close>





text \<open>
  C14: a follow-up waits for the edict. While a root of the edict is at work, a follow-up with a new key starts nothing; and when
  one starts a run, then its root is the only one of the edict at work, and the parent of it is the one the request
  names or, without one, the latest root of the edict.
\<close>

theorem followup_waits_for_the_edict:
  assumes "ledger_ok d" and "start_run sha ro c now d = (res, d')" and "mc_event_type c = followup_type"
    and "request_root sha c \<notin> mem_id ` set (db_memorials d)"
  shows "case res of
      Inl e \<Rightarrow> d' = d
    | Inr z \<Rightarrow> \<not> has_active_root (mc_edict c) None d \<and>
        {r \<in> set (db_memorials d'). mem_edict r = mc_edict c \<and> mem_dag_node r = None \<and> mem_status r \<notin> {TCompleted, TFailed, TCancelled}} = {rz_memorial z} \<and>
        mem_parent (rz_memorial z) = (if mc_parent c = None then latest_root (mc_edict c) d else mc_parent c)"
proof (cases res)
  case (Inl e)
  then show ?thesis using start_run_cases [OF assms(1,2)] by simp
next
  case (Inr z)
  then obtain fingerprint where b: "start_body sha ro c fingerprint now d = Inr ((rz_attempt z, rz_deduplicated z), d')"
    and z: "row_by mem_id (request_root sha c) (db_memorials d') = Some (rz_memorial z)" using start_run_cases [OF assms(1,2)] by auto
  have dup: "\<not> rz_deduplicated z" using start_body_cases(3) [OF assms(1) b] assms(4) by (auto split: if_split_asm)
  then obtain parent mx where p: "resolve_parent c d = Inr parent" and st: "run_started sha c fingerprint parent mx now d d'"
    using start_body_cases(3) [OF assms(1) b] unfolding if_not_P [OF dup] by blast
  let ?root = "submitted_memorial (request_root sha c) (mc_edict c) (mc_instruction c) parent 1 (mc_runtime c) (mc_acceptance c) now"
  have idle: "\<not> has_active_root (mc_edict c) None d" and par: "parent = (if mc_parent c = None then latest_root (mc_edict c) d else mc_parent c)"
    using p assms(3) by (auto simp: resolve_parent_def split: if_split_asm)
  have mem: "db_memorials d' = db_memorials d @ [?root]" and root: "rz_memorial z = ?root"
    using st z by (auto simp: run_started_def Let_def run_prepared_def)
  have "{r \<in> set (db_memorials d'). mem_edict r = mc_edict c \<and> mem_dag_node r = None \<and> mem_status r \<notin> {TCompleted, TFailed, TCancelled}} = {?root}"
    using idle by (auto simp: mem has_active_root_def list_ex_iff submitted_memorial_def)
  then show ?thesis using idle root par Inr by (simp add: submitted_memorial_def)
qed

theorem followup_waits_for_the_edict_witness:
  "\<exists>z d'. demo_start = (Inr z, d') \<and> \<not> has_active_root ''e1'' None idle_db \<and> mem_parent (rz_memorial z) = latest_root ''e1'' idle_db"
proof -
  obtain z d' where z: "demo_start = (Inr z, d')" using demo_start_result by blast
  have "request_root flat_digest demo_followup \<notin> mem_id ` set (db_memorials idle_db)" by (simp add: idle_db_def empty_db_def)
  from followup_waits_for_the_edict [OF idle_db_ok z [unfolded demo_start_def] _ this] show ?thesis
    using z by (intro exI [of _ z] exI [of _ d']) simp
qed

end
