(* ===== verification/Graph_Retry.thy ===== *)
theory Graph_Retry
  imports Ingress_Safety Dag_Retry
begin

text \<open>
  What the retry of a task graph leaves behind: a new root, the graph claimed for it with exactly the nodes to run again
  reset, and the first attempt, in one piece.
\<close>

definition retry_root :: "(string \<Rightarrow> string) \<Rightarrow> string \<Rightarrow> string \<Rightarrow> string" where
  "retry_root sha dag key = ''managed-dag-retry-root-'' @ managed_digest sha dag key"

definition retry_attempt :: "(string \<Rightarrow> string) \<Rightarrow> string \<Rightarrow> string \<Rightarrow> string" where
  "retry_attempt sha dag key = ''managed-dag-retry-attempt-'' @ managed_digest sha dag key"

text \<open>The graph after a retry: claimed for the new root, the nodes \<open>ids\<close> reset.\<close>

definition graph_claimed :: "string \<Rightarrow> string \<Rightarrow> string \<Rightarrow> string list \<Rightarrow> graph_db \<Rightarrow> graph_db \<Rightarrow> bool" where
  "graph_claimed dag old new ids g g' =
     (gd_executions g' = map (\<lambda>r. if retry_claimable dag old r then r\<lparr>dx_root := Some new, dx_status := ''pending'', dx_completed := None\<rparr> else r)
        (gd_executions g) \<and>
      gd_nodes g' = map (\<lambda>n. if nd_execution n = dag \<and> nd_id n \<in> set ids then reset_node n else n) (gd_nodes g))"

lemma claim_graph_Inr:
  "claim_graph dag old new ids g = Inr g' \<Longrightarrow> graph_claimed dag old new ids g g' \<and> gd_base g' = gd_base g \<and>
     count_rows (retry_claimable dag old) (gd_executions g) = 1"
  by (auto simp: claim_graph_def graph_claimed_def Let_def update_rows_def split: if_split_asm)

lemma reset_set_Inr:
  assumes "reset_set rows requested = Inr ids"
  obtains targets where "retry_targets rows requested = Inr targets" "targets \<noteq> []" "set ids = (retry_edge rows)\<^sup>* `` set targets"
proof -
  obtain targets where t: "retry_targets rows requested = Inr targets" "targets \<noteq> []" "ids = sorted_list_of_set (set (reset_closure rows targets))"
    using assms by (auto simp: reset_set_def split: if_split_asm)
  then have "set ids = set (reset_closure rows targets)" by simp
  then show ?thesis using that [OF t(1,2)] by (simp add: reset_closure_set)
qed

lemma retry_parentD:
  assumes "retry_parent dag g = Inr (x, e, old)"
  shows "row_by dx_id dag (gd_executions g) = Some x" "row_by ed_id (dx_edict x) (db_edicts (gd_base g)) = Some e"
    "dx_status x \<in> {''failed'', ''cancelled''}" "dx_root x = Some (mem_id old)" "old \<in> set (db_memorials (gd_base g))" "mem_edict old = dx_edict x"
    "mem_dag_node old = None" "mem_status old \<in> {TFailed, TCancelled}"
proof -
  obtain x' where x: "row_by dx_id dag (gd_executions g) = Some x'" using assms by (cases "row_by dx_id dag (gd_executions g)") (auto simp: retry_parent_def)
  obtain e' where e: "row_by ed_id (dx_edict x') (db_edicts (gd_base g)) = Some e'"
    using assms x by (cases "row_by ed_id (dx_edict x') (db_edicts (gd_base g))") (auto simp: retry_parent_def)
  let ?P = "\<lambda>r. dx_root x' = Some (mem_id r) \<and> mem_edict r = dx_edict x' \<and> mem_dag_node r = None \<and> failed_or_cancelled (mem_status r)"
  obtain o' where o': "find ?P (db_memorials (gd_base g)) = Some o'" "dx_status x' \<in> {''failed'', ''cancelled''}"
    using assms x e by (cases "find ?P (db_memorials (gd_base g))") (auto simp: retry_parent_def split: if_split_asm)
  then have eq: "x = x'" "e = e'" "old = o'" using assms x e by (auto simp: retry_parent_def)
  have "old \<in> set (db_memorials (gd_base g)) \<and> ?P old" using o'(1) unfolding eq by (auto simp: find_Some_iff)
  then show "row_by dx_id dag (gd_executions g) = Some x" "row_by ed_id (dx_edict x) (db_edicts (gd_base g)) = Some e"
    "dx_status x \<in> {''failed'', ''cancelled''}" "dx_root x = Some (mem_id old)" "old \<in> set (db_memorials (gd_base g))" "mem_edict old = dx_edict x"
    "mem_dag_node old = None" "mem_status old \<in> {TFailed, TCancelled}"
    using x e o'(2) eq by (auto simp: failed_or_cancelled_def)
qed

definition retry_memorial :: "string \<Rightarrow> dag_execution_row \<Rightarrow> memorial_row \<Rightarrow> instant \<Rightarrow> memorial_row" where
  "retry_memorial m x old now =
     submitted_memorial m (dx_edict x) (mem_instruction old) (Some (mem_id old)) (mem_attempt old + 1) (mem_runtime_override old)
       (mem_acceptance_override old) now"

lemma retry_memorial_root [simp]: "mem_id (retry_memorial m x old now) = m" "mem_dag_node (retry_memorial m x old now) = None"
  by (simp_all add: retry_memorial_def submitted_memorial_def)

lemma new_retryD:
  assumes ok: "ledger_ok (gd_base g)" and n: "new_retry sha ro hook dag requested m a i fingerprint now g = Inr (ids, g')"
  obtains x e old limit targets where "retry_parent dag g = Inr (x, e, old)" "ed_retry_limit e = Some limit"
    "retry_targets (filter (\<lambda>n. nd_execution n = dag) (gd_nodes g)) requested = Inr targets" "targets \<noteq> []"
    "set ids = (retry_edge (filter (\<lambda>n. nd_execution n = dag) (gd_nodes g)))\<^sup>* `` set targets"
    "graph_claimed dag (mem_id old) m ids g g'" "count_rows (retry_claimable dag (mem_id old)) (gd_executions g) = 1"
    "db_memorials (gd_base g') = db_memorials (gd_base g) @ [retry_memorial m x old now]"
    "run_prepared sha m a (\<lambda>r. r = retry_memorial m x old now) now (limit + 1) (gd_base g')"
    "\<exists>c. db_outbox (gd_base g') = db_outbox (gd_base g) @ [new_outbox_row (retry_event i (dx_edict x) m dag ids fingerprint now) c]"
proof -
  let ?rows = "filter (\<lambda>n. nd_execution n = dag) (gd_nodes g)"
  obtain x e old d1 y d2 g2 mx b d3 d4 where p: "retry_parent dag g = Inr (x, e, old)" and r: "reset_set ?rows requested = Inr ids"
    and ins: "insert_memorial (retry_memorial m x old now) (gd_base g) = Inr d1" and a: "assign_current sha ro m (Some now) now d1 = Inr (y, d2)"
    and cl: "claim_graph dag (mem_id old) m ids (g\<lparr>gd_base := d2\<rparr>) = Inr g2" and bu: "budget e = Inr mx"
    and q: "enqueue_initial sha now [] m now mx (Some a) d2 = Inr (b, d3)"
    and o': "outbox_add sha (retry_event i (dx_edict x) m dag ids fingerprint now) d3 = Inr d4" and g': "g' = g2\<lparr>gd_base := d4\<rparr>"
    using n by (auto simp: new_retry_def retry_memorial_def)
  obtain targets where t: "retry_targets ?rows requested = Inr targets" "targets \<noteq> []" "set ids = (retry_edge ?rows)\<^sup>* `` set targets"
    by (rule reset_set_Inr [OF r])
  note I = insert_memorial_Inr [OF ins, unfolded retry_memorial_root]
  note A = assign_current_frame(1) [OF a]
  have two: "db_attempts d2 = db_attempts (gd_base g)" "db_memorials d2 = db_memorials d1" "db_outbox d2 = db_outbox (gd_base g)"
    by (subst A, simp add: I(1))+
  have ok2: "ledger_ok d2" by (rule ledger_ok_memorials [OF ok]) (auto simp: two I(1))
  note k = enqueue_named [OF ok2 q]
  obtain ats where d3: "d3 = d2\<lparr>db_attempts := ats\<rparr>" using k by blast
  obtain c where O: "d4 = d3\<lparr>db_outbox := db_outbox d3 @ [new_outbox_row (retry_event i (dx_edict x) m dag ids fingerprint now) c]\<rparr>"
    using outbox_add_Inr [OF o'] by blast
  obtain v where v: "get_assignment sha m d2 = Inr (Some (y, v))" using assign_current_Inr [OF a] by blast
  have "get_assignment sha m d4 = Inr (Some (y, v))" by (subst get_assignment_same [of _ d2]) (simp_all add: O d3 v)
  moreover have "row_by mem_id m (db_memorials d4) = Some (retry_memorial m x old now)" using I(3) by (simp add: O d3 two)
  ultimately have rp: "run_prepared sha m a (\<lambda>r. r = retry_memorial m x old now) now mx d4" using k unfolding run_prepared_def by (auto simp: O)
  obtain limit where lim: "ed_retry_limit e = Some limit" "mx = limit + 1" using bu by (cases "ed_retry_limit e") (auto simp: budget_def)
  have cg: "graph_claimed dag (mem_id old) m ids g g'" "count_rows (retry_claimable dag (mem_id old)) (gd_executions g) = 1"
    using claim_graph_Inr [OF cl] by (simp_all add: g' graph_claimed_def)
  show ?thesis by (rule that [OF p lim(1) t cg]) (use rp lim(2) I(1) two in \<open>auto simp: g' O d3\<close>)
qed

text \<open>A replay changes at most the assignment of the root.\<close>

lemma replay_retry_frame:
  assumes "replay_retry sha ro m a i fingerprint now d = Inr (ids, d')"
  shows "d' = d\<lparr>db_assignments := db_assignments d'\<rparr>"
proof -
  obtain x d1 where a: "assign_current sha ro m None now d = Inr (x, d1)" and
    r: "(\<lambda>(_, d1). and_then (select_outbox_record sha d1 i) (\<lambda>stored.
           case stored of
             None \<Rightarrow> Inl (RuntimeError ''managed DAG retry idempotency key conflicts with durable envelope'')
           | Some r \<Rightarrow>
               (case ob_payload r of
                  None \<Rightarrow> Inl (ValueError ''json'')
                | Some p \<Rightarrow>
                    if \<not> list_ex (\<lambda>x. at_id x = a \<and> at_memorial x = m) (db_attempts d1)
                    then Inl (RuntimeError ''managed DAG retry idempotency key conflicts with durable envelope'')
                    else (case stored_reset fingerprint p of
                            None \<Rightarrow> Inl (RuntimeError ''managed DAG retry idempotency key conflicts with durable envelope'')
                          | Some ids \<Rightarrow> Inr (ids, d1))))) (x, d1) = Inr (ids, d')"
    using assms by (auto simp: replay_retry_def Let_def)
  have "d' = d1" using r by (auto split: option.split_asm if_split_asm)
  then show ?thesis using assign_current_frame(1) [OF a] by simp
qed

lemma retry_dagD:
  assumes ok: "ledger_ok (gd_base g)" and r: "retry_dag sha ro hook dag key from_ids now g = (res, g')"
  shows "case res of
      Inl e \<Rightarrow> g' = g
    | Inr z \<Rightarrow> gz_attempt z = retry_attempt sha dag key \<and> row_by mem_id (retry_root sha dag key) (db_memorials (gd_base g')) = Some (gz_memorial z) \<and>
        (if has_memorial (gd_base g) (retry_root sha dag key)
         then g' = g\<lparr>gd_base := (gd_base g)\<lparr>db_assignments := db_assignments (gd_base g')\<rparr>\<rparr>
         else \<exists>i fingerprint. new_retry sha ro hook dag (map_option (\<lambda>ids. sorted_list_of_set (set ids)) from_ids) (retry_root sha dag key)
                (retry_attempt sha dag key) i fingerprint now g = Inr (gz_reset z, g'))"
proof (cases "blank dag \<or> blank key")
  case True
  then show ?thesis using r by (auto simp: retry_dag_def)
next
  case False
  define m where "m = retry_root sha dag key"
  define a where "a = retry_attempt sha dag key"
  define i where "i = ''managed-dag-retry-event-'' @ managed_digest sha dag key"
  define requested where "requested = map_option (\<lambda>ids. sorted_list_of_set (set ids)) from_ids"
  define fingerprint where "fingerprint = json_digest sha (retry_json dag key requested)"
  define body where "body = (if has_memorial (gd_base g) m
      then and_then (replay_retry sha ro m a i fingerprint now (gd_base g)) (\<lambda>(ids, d). Inr (ids, g\<lparr>gd_base := d\<rparr>))
      else new_retry sha ro hook dag requested m a i fingerprint now g)"
  have eq: "(res, g') = (case body of Inl e \<Rightarrow> (Inl e, g)
      | Inr (ids, g') \<Rightarrow> (case row_by mem_id m (db_memorials (gd_base g')) of
            None \<Rightarrow> (Inl (RuntimeError ''managed DAG retry root disappeared after commit''), g')
          | Some r \<Rightarrow> (Inr \<lparr>gz_memorial = r, gz_attempt = a, gz_reset = ids\<rparr>, g')))"
    using r False unfolding retry_dag_def Let_def body_def m_def a_def i_def requested_def fingerprint_def retry_root_def retry_attempt_def by simp
  show ?thesis
  proof (cases body)
    case (Inl e)
    then show ?thesis using eq by simp
  next
    case (Inr w)
    obtain ids g2 where w: "w = (ids, g2)" by (cases w)
    have root: "\<exists>r. row_by mem_id m (db_memorials (gd_base g2)) = Some r" and
      shape: "if has_memorial (gd_base g) m then g2 = g\<lparr>gd_base := (gd_base g)\<lparr>db_assignments := db_assignments (gd_base g2)\<rparr>\<rparr>
        else new_retry sha ro hook dag requested m a i fingerprint now g = Inr (ids, g2)"
    proof -
      show "\<exists>r. row_by mem_id m (db_memorials (gd_base g2)) = Some r"
      proof (cases "has_memorial (gd_base g) m")
        case True
        then obtain d where d: "replay_retry sha ro m a i fingerprint now (gd_base g) = Inr (ids, d)" "g2 = g\<lparr>gd_base := d\<rparr>"
          using Inr w by (auto simp: body_def)
        have "db_memorials d = db_memorials (gd_base g)" by (subst replay_retry_frame [OF d(1)]) simp
        then show ?thesis using True row_by_None_iff [of mem_id m "db_memorials (gd_base g)"]
          by (cases "row_by mem_id m (db_memorials (gd_base g))") (auto simp: d(2) has_memorial_iff)
      next
        case False
        then have "new_retry sha ro hook dag requested m a i fingerprint now g = Inr (ids, g2)" using Inr w by (simp add: body_def)
        then show ?thesis using new_retryD [OF ok] by (metis (no_types, lifting) run_prepared_def)
      qed
      show "if has_memorial (gd_base g) m then g2 = g\<lparr>gd_base := (gd_base g)\<lparr>db_assignments := db_assignments (gd_base g2)\<rparr>\<rparr>
        else new_retry sha ro hook dag requested m a i fingerprint now g = Inr (ids, g2)"
      proof (cases "has_memorial (gd_base g) m")
        case True
        then obtain d where d: "replay_retry sha ro m a i fingerprint now (gd_base g) = Inr (ids, d)" "g2 = g\<lparr>gd_base := d\<rparr>"
          using Inr w by (auto simp: body_def)
        then show ?thesis using replay_retry_frame [OF d(1)] True by simp
      qed (use Inr w in \<open>simp add: body_def\<close>)
    qed
    then obtain r where "row_by mem_id m (db_memorials (gd_base g2)) = Some r" by blast
    then have "res = Inr \<lparr>gz_memorial = r, gz_attempt = a, gz_reset = ids\<rparr>" "g' = g2" using eq Inr w by simp_all
    then show ?thesis using shape \<open>row_by mem_id m (db_memorials (gd_base g2)) = Some r\<close>
      unfolding m_def [symmetric] a_def [symmetric] requested_def [symmetric] by (cases "has_memorial (gd_base g) m") (simp_all, blast)
  qed
qed

section \<open>An example\<close>

definition failed_graph :: graph_db where
  "failed_graph =
     \<lparr>gd_base = idle_db\<lparr>db_memorials := [(demo_memorial ''m1'' TFailed None 1)\<lparr>mem_edict := ''e1''\<rparr>]\<rparr>,
      gd_executions = [\<lparr>dx_id = ''x'', dx_edict = ''e1'', dx_plan = None, dx_status = ''failed'', dx_root = Some ''m1'',
        dx_max_concurrency = 2, dx_created = 0, dx_completed = Some 9\<rparr>],
      gd_nodes = ds_nodes failed_store\<rparr>"

definition demo_retry :: "retry_result result \<times> graph_db" where
  "demo_retry = retry_dag flat_digest demo_router (\<lambda>_. Inr ()) ''x'' ''k1'' None 100 failed_graph"

lemma retry_names [simp]: "\<not> blank (retry_root sha dag key)" "\<not> blank (retry_attempt sha dag key)" "trim_nonempty (retry_attempt sha dag key)"
  by (simp_all add: retry_root_def retry_attempt_def blank_code is_space_def trim_nonempty_def)

lemma demo_reset: "reset_set (filter (\<lambda>n. nd_execution n = ''x'') (gd_nodes failed_graph)) None = Inr [''a'', ''b'']"
  by code_simp

lemma demo_retry_result: "\<exists>z g'. demo_retry = (Inr z, g') \<and> gz_reset z = [''a'', ''b'']"
proof -
  let ?m = "retry_root flat_digest ''x'' ''k1''" and ?a = "retry_attempt flat_digest ''x'' ''k1''"
  let ?i = "''managed-dag-retry-event-'' @ zeros64"
  let ?old = "(demo_memorial ''m1'' TFailed None 1)\<lparr>mem_edict := ''e1''\<rparr>"
  let ?x = "\<lparr>dx_id = ''x'', dx_edict = ''e1'', dx_plan = None, dx_status = ''failed'', dx_root = Some ''m1'',
        dx_max_concurrency = 2, dx_created = 0, dx_completed = Some 9\<rparr>"
  let ?root = "retry_memorial ?m ?x ?old 100"
  let ?d = "gd_base failed_graph"
  let ?d1 = "?d\<lparr>db_memorials := [?old, ?root]\<rparr>"
  let ?d2 = "?d1\<lparr>db_assignments := [legacy_row flat_digest (flat_legacy ?m 100)]\<rparr>"
  let ?new = "new_attempt ?a ?m 1 0 100 1 100 (''legacy:'' @ zeros64)"
  let ?d3 = "?d2\<lparr>db_attempts := [?new]\<rparr>"
  let ?ev = "retry_event ?i ''e1'' ?m ''x'' [''a'', ''b''] zeros64 100"
  note em = failed_graph_def idle_db_def empty_db_def
  have old: "mem_id ?old = ''m1''" and bu: "budget demo_edict = Inr 1" by (simp_all add: demo_memorial_def budget_def demo_edict_def)
  have mm: "?m \<noteq> ''m1''" by (simp add: retry_root_def)
  have p: "retry_parent ''x'' failed_graph = Inr (?x, demo_edict, ?old)"
    by (simp add: retry_parent_def em demo_edict_def demo_memorial_def failed_or_cancelled_def)
  have i: "insert_memorial ?root ?d = Inr ?d1" using mm
    by (simp add: insert_memorial_def has_memorial_iff has_edict_iff) (simp add: em demo_edict_def demo_memorial_def retry_memorial_def submitted_memorial_def)
  have a: "assign_current flat_digest demo_router ?m (Some 100) 100 ?d1 = Inr (Legacy (flat_legacy ?m 100), ?d2)"
    by (rule flat_assigned) (simp_all add: em has_memorial_iff)
  have cl: "\<exists>g2. claim_graph ''x'' ''m1'' ?m [''a'', ''b''] (failed_graph\<lparr>gd_base := ?d2\<rparr>) = Inr g2"
    by (simp add: claim_graph_def em failed_store_def count_rows_def retry_claimable_def example_node_def)
  have cor: "correlation_for_memorial flat_digest ?d2 ?m None = Inr (''legacy:'' @ zeros64)"
    by (simp add: correlation_for_memorial_def select_ordered_def fallback_correlations_def first_correlation_def first_of_def em flat_digest_def)
  have d2: "row_by mem_id ?m (db_memorials ?d2) = Some ?root" "db_attempts ?d2 = []" using mm by (simp_all add: demo_memorial_def em)
  have q: "enqueue_initial flat_digest 100 [] ?m 100 1 (Some ?a) ?d2 = Inr (?new, ?d3)"
    using flat_enqueued [OF d2(1) retry_memorial_root(2) d2(2) cor, of ?a 1 100 100] by simp
  have "is_identifier (''legacy:'' @ zeros64)" by code_simp
  then have cor3: "correlation_for_memorial flat_digest ?d3 ?m None = Inr (''legacy:'' @ zeros64)"
    by (simp add: correlation_for_memorial_def select_ordered_def fallback_correlations_def first_correlation_def first_of_def em new_attempt_def
        del: append.simps)
  have ev: "ee_payload ?ev = [(''dag_id'', JStr ''x''), (''reset_node_ids'', JList [JStr ''a'', JStr ''b'']), (''managed_request_hash'', JStr zeros64)]"
    "ee_memorial ?ev = Some ?m" by (simp_all add: retry_event_def)
  then have "event_correlation flat_digest ?ev ?d3 = Inr (''legacy:'' @ zeros64)"
    using cor3 by (simp add: event_correlation_def explicit_correlation_def)
  moreover have "\<exists>d4. insert_outbox (new_outbox_row ?ev c) ?d3 = Inr d4 \<and> db_memorials d4 = [?old, ?root]" for c
    by (simp add: insert_outbox_def new_outbox_row_def retry_event_def has_edict_iff has_memorial_iff) (simp add: em demo_edict_def)
  ultimately obtain d4 where o': "outbox_add flat_digest ?ev ?d3 = Inr d4" "db_memorials d4 = [?old, ?root]"
    using ev(1) by (auto simp: outbox_add_def simp del: append.simps)
  have "\<exists>g'. new_retry flat_digest demo_router (\<lambda>_. Inr ()) ''x'' None ?m ?a ?i zeros64 100 failed_graph = Inr ([''a'', ''b''], g') \<and>
      db_memorials (gd_base g') = [?old, ?root]"
    unfolding new_retry_def retry_memorial_def [symmetric] using p demo_reset i a cl q o' old bu
    by (auto simp del: append.simps)
  then obtain g' where g': "new_retry flat_digest demo_router (\<lambda>_. Inr ()) ''x'' None ?m ?a ?i zeros64 100 failed_graph = Inr ([''a'', ''b''], g')"
    "db_memorials (gd_base g') = [?old, ?root]" by blast
  have "\<not> has_memorial (gd_base failed_graph) ?m" using mm by (simp add: has_memorial_iff em demo_memorial_def)
  moreover have "row_by mem_id ?m (db_memorials (gd_base g')) = Some ?root" using mm by (simp add: g'(2) demo_memorial_def)
  moreover have "\<not> blank ''x''" "\<not> blank ''k1''" by code_simp+
  moreover have dg: "managed_digest flat_digest ''x'' ''k1'' = zeros64" by (simp add: managed_digest_def flat_digest_def)
  ultimately show ?thesis using g'(1) unfolding demo_retry_def retry_dag_def Let_def retry_root_def [symmetric] retry_attempt_def [symmetric] by (simp add: dg)
qed

text \<open>
  C27: the retry of a task graph is one piece. An error leaves everything as it was, and a retry whose root is there already
  changes at most the assignment of that root. A new one is of a graph that failed or was cancelled, whose root is
  closed so: it appends a submitted root, one attempt later and with the old root as its parent, with its assignment
  and its first attempt; it moves the execution, the one row there is for it, to the new root; and it resets the
  nodes that were named, or the failed ones, and the failed or cancelled nodes that depend on these through such
  nodes, and no others.
\<close>

theorem graph_retry_in_one_piece:
  assumes "ledger_ok (gd_base g)" and "retry_dag sha ro hook dag key from_ids now g = (res, g')"
  shows "case res of
      Inl e \<Rightarrow> g' = g
    | Inr z \<Rightarrow> gz_attempt z = retry_attempt sha dag key \<and> row_by mem_id (retry_root sha dag key) (db_memorials (gd_base g')) = Some (gz_memorial z) \<and>
        (if has_memorial (gd_base g) (retry_root sha dag key)
         then g' = g\<lparr>gd_base := (gd_base g)\<lparr>db_assignments := db_assignments (gd_base g')\<rparr>\<rparr>
         else \<exists>x e old limit targets. retry_parent dag g = Inr (x, e, old) \<and> ed_retry_limit e = Some limit \<and>
           dx_status x \<in> {''failed'', ''cancelled''} \<and> dx_root x = Some (mem_id old) \<and> mem_status old \<in> {TFailed, TCancelled} \<and>
           gz_memorial z = retry_memorial (retry_root sha dag key) x old now \<and>
           db_memorials (gd_base g') = db_memorials (gd_base g) @ [gz_memorial z] \<and>
           run_prepared sha (retry_root sha dag key) (retry_attempt sha dag key) (\<lambda>r. r = gz_memorial z) now (limit + 1) (gd_base g') \<and>
           retry_targets (filter (\<lambda>n. nd_execution n = dag) (gd_nodes g)) (map_option (\<lambda>ids. sorted_list_of_set (set ids)) from_ids) = Inr targets \<and>
           set (gz_reset z) = (retry_edge (filter (\<lambda>n. nd_execution n = dag) (gd_nodes g)))\<^sup>* `` set targets \<and>
           graph_claimed dag (mem_id old) (retry_root sha dag key) (gz_reset z) g g' \<and>
           count_rows (retry_claimable dag (mem_id old)) (gd_executions g) = 1)"
proof (cases res)
  case (Inl e)
  then show ?thesis using retry_dagD [OF assms] by simp
next
  case (Inr z)
  let ?m = "retry_root sha dag key"
  note D = retry_dagD [OF assms, unfolded Inr sum.case]
  show ?thesis
  proof (cases "has_memorial (gd_base g) ?m")
    case True
    then show ?thesis using D Inr by simp
  next
    case False
    then obtain i fingerprint where n: "new_retry sha ro hook dag (map_option (\<lambda>ids. sorted_list_of_set (set ids)) from_ids) ?m
        (retry_attempt sha dag key) i fingerprint now g = Inr (gz_reset z, g')" using D unfolding if_not_P [OF False] by blast
    obtain x e old limit targets where k: "retry_parent dag g = Inr (x, e, old)" "ed_retry_limit e = Some limit"
      "retry_targets (filter (\<lambda>n. nd_execution n = dag) (gd_nodes g)) (map_option (\<lambda>ids. sorted_list_of_set (set ids)) from_ids) = Inr targets" "targets \<noteq> []"
      "set (gz_reset z) = (retry_edge (filter (\<lambda>n. nd_execution n = dag) (gd_nodes g)))\<^sup>* `` set targets"
      "graph_claimed dag (mem_id old) ?m (gz_reset z) g g'" "count_rows (retry_claimable dag (mem_id old)) (gd_executions g) = 1"
      "db_memorials (gd_base g') = db_memorials (gd_base g) @ [retry_memorial ?m x old now]"
      "run_prepared sha ?m (retry_attempt sha dag key) (\<lambda>r. r = retry_memorial ?m x old now) now (limit + 1) (gd_base g')"
      by (rule new_retryD [OF assms(1) n])
    have z: "gz_memorial z = retry_memorial ?m x old now" using D k(9) by (auto simp: run_prepared_def)
    show ?thesis unfolding Inr sum.case if_not_P [OF False] using D k retry_parentD [OF k(1)] unfolding z by blast
  qed
qed

theorem graph_retry_in_one_piece_witness:
  "\<exists>z g'. demo_retry = (Inr z, g') \<and> gz_reset z = [''a'', ''b''] \<and> map nd_status (gd_nodes g') = [NPending, NPending, NCompleted] \<and>
     map dx_root (gd_executions g') = [Some (retry_root flat_digest ''x'' ''k1'')]"
proof -
  obtain z g' where z: "demo_retry = (Inr z, g')" "gz_reset z = [''a'', ''b'']" using demo_retry_result by blast
  have ok: "ledger_ok (gd_base failed_graph)" by (simp add: failed_graph_def idle_db_def empty_db_def ledger_ok_def)
  have no: "\<not> has_memorial (gd_base failed_graph) (retry_root flat_digest ''x'' ''k1'')"
    by (simp add: failed_graph_def has_memorial_iff demo_memorial_def retry_root_def)
  from graph_retry_in_one_piece [OF ok z(1) [unfolded demo_retry_def]] obtain x e old
    where p: "retry_parent ''x'' failed_graph = Inr (x, e, old)" and c: "graph_claimed ''x'' (mem_id old) (retry_root flat_digest ''x'' ''k1'') [''a'', ''b''] failed_graph g'"
    unfolding sum.case if_not_P [OF no] z(2) by blast
  have "mem_id old = ''m1''" using retry_parentD(5) [OF p] by (simp add: failed_graph_def demo_memorial_def)
  then have "map nd_status (gd_nodes g') = [NPending, NPending, NCompleted]" "map dx_root (gd_executions g') = [Some (retry_root flat_digest ''x'' ''k1'')]"
    using c by (simp_all add: graph_claimed_def failed_graph_def failed_store_def retry_claimable_def example_node_def reset_node_def)
  then show ?thesis using z by (intro exI [of _ z] exI [of _ g']) simp
qed

end
