(* ===== verification/Policy_Engine.thy ===== *)
theory Policy_Engine
  imports Python_Lib
begin

text \<open>
  \<open>tools/types.py\<close> (\<open>ToolTier\<close>), \<open>tools/policy.py\<close>: the data of a policy decision and the engine that
  asks the rules in the order of their priorities. A rule's \<open>evaluate\<close> is a function of the context; what its
  coroutine gives back is an \<open>answer\<close> together with the time it stays suspended, which is what
  \<open>asyncio.wait_for\<close> limits.
\<close>

section \<open>Tiers\<close>

datatype tool_tier = T0_READONLY | T1_WORKSPACE | T2_NETWORK | T3_WRITE | T4_DANGEROUS

fun tier_value :: "tool_tier \<Rightarrow> int" where
  "tier_value T0_READONLY = 0"
| "tier_value T1_WORKSPACE = 1"
| "tier_value T2_NETWORK = 2"
| "tier_value T3_WRITE = 3"
| "tier_value T4_DANGEROUS = 4"

lemma tier_value_eq_iff: "tier_value s = tier_value t \<longleftrightarrow> s = t"
  by (cases s; cases t) simp_all

text \<open>The order of the \<open>IntEnum\<close>.\<close>

instantiation tool_tier :: linorder
begin

definition less_eq_tool_tier :: "tool_tier \<Rightarrow> tool_tier \<Rightarrow> bool" where
  "s \<le> t \<longleftrightarrow> tier_value s \<le> tier_value t"

definition less_tool_tier :: "tool_tier \<Rightarrow> tool_tier \<Rightarrow> bool" where
  "s < t \<longleftrightarrow> tier_value s < tier_value t"

instance
  by standard (auto simp: less_eq_tool_tier_def less_tool_tier_def tier_value_eq_iff)

end

text \<open>\<open>ToolTier(int(v))\<close>, \<open>None\<close> for the \<open>ValueError\<close>.\<close>

definition tool_tier :: "int \<Rightarrow> tool_tier option" where
  "tool_tier v = find (\<lambda>t. tier_value t = v) [T0_READONLY, T1_WORKSPACE, T2_NETWORK, T3_WRITE, T4_DANGEROUS]"

fun tier_name :: "tool_tier \<Rightarrow> string" where
  "tier_name T0_READONLY = ''T0_READONLY''"
| "tier_name T1_WORKSPACE = ''T1_WORKSPACE''"
| "tier_name T2_NETWORK = ''T2_NETWORK''"
| "tier_name T3_WRITE = ''T3_WRITE''"
| "tier_name T4_DANGEROUS = ''T4_DANGEROUS''"

lemma tool_tier_value [simp]: "tool_tier (tier_value t) = Some t"
  by (cases t) (simp_all add: tool_tier_def)

lemma tier_T4_max [simp]: "t \<le> T4_DANGEROUS" "\<not> T4_DANGEROUS < t"
  by (cases t; simp add: less_eq_tool_tier_def less_tool_tier_def)+

section \<open>The edict's runtime configuration\<close>

text \<open>\<open>PolicyProfilePayload\<close> and the fields of \<open>EdictRuntime\<close> that the policy reads (\<open>models/edict.py\<close>).\<close>

record profile_payload =
  pl_allowed_paths :: "string list"
  pl_bash_prefixes :: "string list"
  pl_tier_overrides :: "(string \<times> int) list"
  pl_auto_approve_max_tier :: int
  pl_expires_after_seconds :: "int option"
  pl_template_name :: "string option"

record edict_runtime =
  rt_approval_required_tools :: "string list"
  rt_policy_profile :: "profile_payload option"
  rt_tier_overrides :: "(string \<times> int) list"
  rt_api_request_hosts :: "string list"
  rt_api_request_write_hosts :: "string list"

record policy_edict =
  pe_id :: string
  pe_runtime :: edict_runtime

section \<open>Decisions\<close>

datatype verdict = Allow | Deny | RequireApproval

text \<open>The reason of a decision: one constructor per message of the code, with the values put into it.\<close>

datatype reason =
    AllRulesAbstained
  | EngineTimedOut
  | EngineFailed
  | MatchedDenySubstring string
  | StructuralRisk "string list"
  | AllSegmentsAllowed
  | BashNeedsApproval string
  | ListedForApproval
  | TierEscalated tool_tier tool_tier
  | ProtectedPath string
  | OutsideWorkspace string path path
  | PersonaDenies string string
  | PersonaDoesNotAllow string string
  | PersonaTierExceeded string int string tool_tier
  | LarkInteractive string
  | LarkWriteOp string
  | NetworkDenied string
  | ApiWriteNeedsApproval string string
  | TierAutoApproved tool_tier tool_tier
  | TierNeedsApproval tool_tier
  | TierSafe tool_tier
  | MatchedSessionRule string string

record policy_decision =
  pd_verdict :: verdict
  pd_rule_id :: string
  pd_reason :: reason
  pd_metadata :: "(string \<times> json) list"

record policy_context =
  px_tool_name :: string
  px_tool_tier :: tool_tier
  px_args :: args
  px_edict :: policy_edict
  px_memorial :: "string option"
  px_workspace_root :: string
  px_iteration :: int

section \<open>The engine\<close>

text \<open>
  What \<open>await rule.evaluate(ctx)\<close> gives: a decision or \<open>None\<close>, an exception, or an object without the
  attribute \<open>verdict\<close>, which the engine's own code fails on.
\<close>

datatype answer = Decided "policy_decision option" | Raised | NoDecision

record 'c policy_rule =
  rl_id :: string
  rl_priority :: int
  rl_evaluate :: "'c \<Rightarrow> answer \<times> int"

definition POLICY_RULE_TIMEOUT :: int where
  "POLICY_RULE_TIMEOUT = seconds 1"

definition POLICY_ENGINE_TIMEOUT :: int where
  "POLICY_ENGINE_TIMEOUT = seconds 3"

text \<open>\<open>PolicyEngine.__init__\<close>: Python's \<open>sorted\<close> is stable, also in reverse.\<close>

definition engine_rules :: "'c policy_rule list \<Rightarrow> 'c policy_rule list" where
  "engine_rules rules = sort_key (\<lambda>r. - rl_priority r) rules"

definition default_decision :: policy_decision where
  "default_decision =
     \<lparr>pd_verdict = Allow, pd_rule_id = ''default'', pd_reason = AllRulesAbstained, pd_metadata = []\<rparr>"

definition stops :: "policy_decision \<Rightarrow> bool" where
  "stops d = (pd_verdict d = Deny \<or> pd_verdict d = RequireApproval)"

text \<open>\<open>_evaluate_inner\<close>: \<open>None\<close> is the exception of an answer that is no decision; the time is accumulated.\<close>

fun evaluate_inner ::
  "'c \<Rightarrow> policy_decision option \<Rightarrow> int \<Rightarrow> 'c policy_rule list \<Rightarrow> policy_decision option \<times> int" where
  "evaluate_inner ctx last_allow t [] =
     (Some (case last_allow of Some d \<Rightarrow> d | None \<Rightarrow> default_decision), t)"
| "evaluate_inner ctx last_allow t (rule # rules) =
     (case rl_evaluate rule ctx of (a, dt) \<Rightarrow>
        if POLICY_RULE_TIMEOUT < dt then evaluate_inner ctx last_allow (t + POLICY_RULE_TIMEOUT) rules
        else
          (case a of
             Raised \<Rightarrow> evaluate_inner ctx last_allow (t + dt) rules
           | NoDecision \<Rightarrow> (None, t + dt)
           | Decided None \<Rightarrow> evaluate_inner ctx last_allow (t + dt) rules
           | Decided (Some d) \<Rightarrow>
               if stops d then (Some d, t + dt) else evaluate_inner ctx (Some d) (t + dt) rules))"

definition evaluate :: "'c policy_rule list \<Rightarrow> 'c \<Rightarrow> policy_decision" where
  "evaluate rules ctx =
     (case evaluate_inner ctx None 0 (engine_rules rules) of (result, t) \<Rightarrow>
        if POLICY_ENGINE_TIMEOUT < t then
          \<lparr>pd_verdict = Deny, pd_rule_id = ''engine_timeout'', pd_reason = EngineTimedOut, pd_metadata = []\<rparr>
        else
          (case result of
             None \<Rightarrow> \<lparr>pd_verdict = Deny, pd_rule_id = ''engine_error'', pd_reason = EngineFailed, pd_metadata = []\<rparr>
           | Some d \<Rightarrow> d))"

section \<open>The engine against a reference\<close>

text \<open>The decision a rule contributes: nothing when it abstains, raises or takes too long.\<close>

definition contribution :: "'c \<Rightarrow> 'c policy_rule \<Rightarrow> policy_decision option" where
  "contribution ctx r =
     (case rl_evaluate r ctx of (a, dt) \<Rightarrow>
        if POLICY_RULE_TIMEOUT < dt then None else (case a of Decided d \<Rightarrow> d | _ \<Rightarrow> None))"

definition contributions :: "'c \<Rightarrow> 'c policy_rule list \<Rightarrow> policy_decision list" where
  "contributions ctx rules = List.map_filter (contribution ctx) rules"

text \<open>The first decision that stops, else the last of the others, else the default.\<close>

definition combine :: "policy_decision \<Rightarrow> policy_decision list \<Rightarrow> policy_decision" where
  "combine dflt ds = (case find stops ds of Some d \<Rightarrow> d | None \<Rightarrow> last (dflt # ds))"

text \<open>A rule that answers at once.\<close>

definition prompt_rule :: "'c \<Rightarrow> 'c policy_rule \<Rightarrow> bool" where
  "prompt_rule ctx r = (case rl_evaluate r ctx of (a, dt) \<Rightarrow> a \<noteq> NoDecision \<and> dt = 0)"

lemma contributions_simps [simp]:
  "contributions ctx [] = []"
  "contributions ctx (r # rs) = (case contribution ctx r of None \<Rightarrow> contributions ctx rs | Some d \<Rightarrow> d # contributions ctx rs)"
  by (simp_all add: contributions_def map_filter_simps split: option.splits)

lemma set_contributions: "set (contributions ctx rules) = {d. \<exists>r \<in> set rules. contribution ctx r = Some d}"
  by (induction rules) (auto split: option.splits)

lemma combine_simps:
  "combine d [] = d"
  "combine d (e # ds) = (if stops e then e else combine e ds)"
  by (auto simp: combine_def split: option.splits)

lemma evaluate_inner_Some:
  assumes "evaluate_inner ctx la t rules = (Some d, t')"
  shows "d = combine (case la of Some a \<Rightarrow> a | None \<Rightarrow> default_decision) (contributions ctx rules)"
  using assms
proof (induction rules arbitrary: la t)
  case Nil
  then show ?case by (simp add: combine_simps)
next
  case (Cons r rules)
  obtain a dt where r: "rl_evaluate r ctx = (a, dt)" by fastforce
  show ?case
  proof (cases "POLICY_RULE_TIMEOUT < dt")
    case True
    with Cons r show ?thesis by (simp add: contribution_def)
  next
    case False
    show ?thesis
    proof (cases a)
      case (Decided od)
      show ?thesis
      proof (cases od)
        case None
        with Cons.prems Cons.IH [of la "t + dt"] r False Decided show ?thesis by (simp add: contribution_def)
      next
        case (Some e)
        with Cons.prems Cons.IH [of "Some e" "t + dt"] r False Decided show ?thesis
          by (cases "stops e") (simp_all add: contribution_def combine_simps)
      qed
    next
      case Raised
      with Cons.prems Cons.IH [of la "t + dt"] r False show ?thesis by (simp add: contribution_def)
    next
      case NoDecision
      with Cons.prems r False show ?thesis by simp
    qed
  qed
qed

lemma evaluate_inner_prompt:
  assumes "list_all (prompt_rule ctx) rules"
  shows "evaluate_inner ctx la t rules =
    (Some (combine (case la of Some a \<Rightarrow> a | None \<Rightarrow> default_decision) (contributions ctx rules)), t)"
  using assms
proof (induction rules arbitrary: la)
  case Nil
  then show ?case by (simp add: combine_simps)
next
  case (Cons r rules)
  obtain a dt where r: "rl_evaluate r ctx = (a, dt)" by fastforce
  with Cons.prems have p: "dt = 0" "a \<noteq> NoDecision" "list_all (prompt_rule ctx) rules" by (auto simp: prompt_rule_def [of ctx r])
  with Cons.IH [OF p(3)] r show ?case
    by (auto simp: contribution_def combine_simps POLICY_RULE_TIMEOUT_def seconds_def split: answer.splits option.splits)
qed

lemma evaluate_prompt:
  assumes "list_all (prompt_rule ctx) rules"
  shows "evaluate rules ctx = combine default_decision (contributions ctx (engine_rules rules))"
proof -
  have "list_all (prompt_rule ctx) (engine_rules rules)" using assms by (simp add: list_all_iff engine_rules_def)
  from evaluate_inner_prompt [OF this, of None 0] show ?thesis
    by (simp add: evaluate_def POLICY_ENGINE_TIMEOUT_def seconds_def)
qed

lemma combine_not_stops: "\<not> stops (combine d ds) \<Longrightarrow> e \<in> set ds \<Longrightarrow> \<not> stops e"
  by (induction ds arbitrary: d) (auto simp: combine_simps split: if_splits)

lemma combine_mem: "combine d ds = d \<or> combine d ds \<in> set ds"
  by (induction ds arbitrary: d) (auto simp: combine_simps)

lemma evaluate_cases:
  obtains "evaluate rules ctx = combine default_decision (contributions ctx (engine_rules rules))"
  | "pd_verdict (evaluate rules ctx) = Deny"
proof -
  obtain res t where e: "evaluate_inner ctx None 0 (engine_rules rules) = (res, t)" by fastforce
  with evaluate_inner_Some [of ctx None 0 "engine_rules rules"] that show thesis
    by (cases res; cases "POLICY_ENGINE_TIMEOUT < t") (auto simp: evaluate_def)
qed

text \<open>
  The engine is fail-secure and lets no rule overrule a refusal: when it allows a call, no rule that
  answered in time denied it or asked for approval.
\<close>

theorem allow_needs_every_rule:
  assumes "pd_verdict (evaluate rules ctx) = Allow" and "rule \<in> set rules" and "contribution ctx rule = Some d"
  shows "pd_verdict d = Allow"
proof -
  from assms(1) have eq: "evaluate rules ctx = combine default_decision (contributions ctx (engine_rules rules))"
    by (cases rule: evaluate_cases [of rules ctx]) simp_all
  have "d \<in> set (contributions ctx (engine_rules rules))"
    using assms(2,3) by (auto simp: set_contributions engine_rules_def)
  moreover have "\<not> stops (combine default_decision (contributions ctx (engine_rules rules)))"
    using assms(1) by (simp add: eq stops_def)
  ultimately have "\<not> stops d" by (rule combine_not_stops [rotated])
  then show ?thesis by (cases "pd_verdict d") (simp_all add: stops_def)
qed

text \<open>
  With rules that answer at once the verdict is that of the reference: the first refusal in the order of
  priorities (rules of equal priority in the order they were given), else the last allow, else the default.
\<close>

theorem evaluate_by_priority:
  assumes "list_all (prompt_rule ctx) rules"
  shows "evaluate rules ctx =
    (case find stops (contributions ctx (engine_rules rules)) of
       Some d \<Rightarrow> d | None \<Rightarrow> last (default_decision # contributions ctx (engine_rules rules))) \<and>
    mset (engine_rules rules) = mset rules \<and>
    sorted_wrt (\<lambda>r s. rl_priority r \<ge> rl_priority s) (engine_rules rules)"
proof -
  have "sorted (map (\<lambda>r. - rl_priority r) (engine_rules rules))" by (simp add: engine_rules_def)
  then have "sorted_wrt (\<lambda>r s. rl_priority r \<ge> rl_priority s) (engine_rules rules)"
    by (simp add: sorted_map)
  moreover have "mset (engine_rules rules) = mset rules" by (simp add: engine_rules_def)
  ultimately show ?thesis using evaluate_prompt [OF assms, unfolded combine_def] by blast
qed

end
