(* ===== verification/Policy_Profile.thy ===== *)
theory Policy_Profile
  imports Policy_Engine
begin

text \<open>
  \<open>tools/hongluisi/policy.py\<close> and the first half of \<open>tools/policy_profile.py\<close>: network policies, the three
  built-in profiles, the system-wide engine overrides, and the network policy in force for an edict. The
  expansion of a profile into session rules is in \<open>Session_Rules\<close>.
\<close>

record network_policy =
  np_fetch_engines :: "string list"
  np_fallback_mode :: string
  np_search_provider :: "string option"
  np_max_fallback_depth :: int
  np_web_fetch_rate :: int
  np_web_search_rate :: int
  np_allow_api_request :: bool
  np_api_request_methods :: "string list"
  np_api_request_rate :: int
  np_web_extract_rate :: int

definition NetworkPolicy :: network_policy where
  "NetworkPolicy =
     \<lparr>np_fetch_engines = [''local''], np_fallback_mode = ''none'', np_search_provider = None,
      np_max_fallback_depth = 3, np_web_fetch_rate = 20, np_web_search_rate = 10,
      np_allow_api_request = False, np_api_request_methods = [''GET'', ''HEAD''],
      np_api_request_rate = 30, np_web_extract_rate = 10\<rparr>"

definition NETWORK_OFFLINE :: network_policy where
  "NETWORK_OFFLINE = NetworkPolicy\<lparr>np_fetch_engines := [], np_search_provider := None,
     np_allow_api_request := False, np_api_request_methods := []\<rparr>"

definition NETWORK_DEFAULT :: network_policy where
  "NETWORK_DEFAULT = NetworkPolicy\<lparr>np_fetch_engines := [''scrapling'', ''local''],
     np_fallback_mode := ''on_error_or_empty'', np_search_provider := Some ''duckduckgo'',
     np_allow_api_request := False, np_api_request_methods := []\<rparr>"

definition NETWORK_RESEARCH :: network_policy where
  "NETWORK_RESEARCH = NetworkPolicy\<lparr>np_fetch_engines := [''scrapling'', ''local'', ''jina'', ''firecrawl''],
     np_fallback_mode := ''on_error_or_empty'', np_search_provider := Some ''duckduckgo'',
     np_allow_api_request := True, np_api_request_methods := [''GET'', ''HEAD'']\<rparr>"

record policy_profile =
  pp_allowed_paths :: "string list"
  pp_bash_prefixes :: "string list"
  pp_tier_overrides :: "(string \<times> int) list"
  pp_auto_approve_max_tier :: int
  pp_expires_after_seconds :: "int option"
  pp_template_name :: "string option"
  pp_network :: network_policy

definition PolicyProfile :: policy_profile where
  "PolicyProfile =
     \<lparr>pp_allowed_paths = [], pp_bash_prefixes = [], pp_tier_overrides = [],
      pp_auto_approve_max_tier = tier_value T1_WORKSPACE, pp_expires_after_seconds = None,
      pp_template_name = None, pp_network = NetworkPolicy\<rparr>"

definition BUILTIN_TEMPLATES :: "(string \<times> policy_profile) list" where
  "BUILTIN_TEMPLATES =
     [(''safe-explore'', PolicyProfile\<lparr>pp_auto_approve_max_tier := tier_value T0_READONLY,
         pp_template_name := Some ''safe-explore'', pp_network := NETWORK_OFFLINE\<rparr>),
      (''refactor-in-place'', PolicyProfile\<lparr>pp_allowed_paths := [''**/*''],
         pp_bash_prefixes := [''git status'', ''git diff''], pp_auto_approve_max_tier := tier_value T1_WORKSPACE,
         pp_template_name := Some ''refactor-in-place'', pp_network := NETWORK_DEFAULT\<rparr>),
      (''trusted-automation'', PolicyProfile\<lparr>pp_allowed_paths := [''**/*''],
         pp_bash_prefixes := [''git '', ''pytest'', ''ruff'', ''black'', ''mypy''],
         pp_auto_approve_max_tier := tier_value T3_WRITE,
         pp_template_name := Some ''trusted-automation'', pp_network := NETWORK_RESEARCH\<rparr>)]"

section \<open>System-wide overrides\<close>

record engine_overrides =
  eo_fetch_chain :: "string list"
  eo_search_provider :: "string option"
  eo_fallback_mode :: "string option"

definition no_overrides :: engine_overrides where
  "no_overrides = \<lparr>eo_fetch_chain = [], eo_search_provider = None, eo_fallback_mode = None\<rparr>"

definition set_system_engine_overrides ::
  "string list option \<Rightarrow> string option \<Rightarrow> string option \<Rightarrow> engine_overrides \<Rightarrow> engine_overrides" where
  "set_system_engine_overrides fetch_chain search_provider fallback_mode o1 =
     (let o2 = (case fetch_chain of None \<Rightarrow> o1 | Some c \<Rightarrow> o1\<lparr>eo_fetch_chain := c\<rparr>);
          o3 = (case search_provider of None \<Rightarrow> o2
                | Some s \<Rightarrow> o2\<lparr>eo_search_provider := (if s = [] then None else Some s)\<rparr>)
      in case fallback_mode of None \<Rightarrow> o3
         | Some m \<Rightarrow> o3\<lparr>eo_fallback_mode := (if m = [] then None else Some m)\<rparr>)"

definition template_of :: "policy_edict \<Rightarrow> string option" where
  "template_of e = (case rt_policy_profile (pe_runtime e) of None \<Rightarrow> None | Some p \<Rightarrow> pl_template_name p)"

definition base_network :: "string option \<Rightarrow> network_policy" where
  "base_network tmpl =
     (case (case tmpl of None \<Rightarrow> None | Some n \<Rightarrow> if n = [] then None else map_of BUILTIN_TEMPLATES n) of
        Some p \<Rightarrow> pp_network p
      | None \<Rightarrow> (case map_of BUILTIN_TEMPLATES ''refactor-in-place'' of Some p \<Rightarrow> pp_network p | None \<Rightarrow> NetworkPolicy))"

definition resolve_network_for_edict :: "engine_overrides \<Rightarrow> policy_edict \<Rightarrow> network_policy" where
  "resolve_network_for_edict ov e =
     (let n1 = base_network (template_of e);
          n2 = (if eo_fetch_chain ov \<noteq> [] then n1\<lparr>np_fetch_engines := eo_fetch_chain ov\<rparr> else n1);
          n3 = (case eo_search_provider ov of None \<Rightarrow> n2 | Some s \<Rightarrow> n2\<lparr>np_search_provider := Some s\<rparr>)
      in case eo_fallback_mode ov of None \<Rightarrow> n3 | Some m \<Rightarrow> n3\<lparr>np_fallback_mode := m\<rparr>)"

section \<open>What a template grants and what an override does not touch\<close>

lemma base_network_eq:
  "base_network t =
     (if t = Some ''safe-explore'' then NETWORK_OFFLINE
      else if t = Some ''trusted-automation'' then NETWORK_RESEARCH else NETWORK_DEFAULT)"
  by (cases t) (simp_all add: base_network_def BUILTIN_TEMPLATES_def)

lemma network_fields [simp]:
  "\<not> np_allow_api_request NETWORK_OFFLINE" "\<not> np_allow_api_request NETWORK_DEFAULT"
  "np_allow_api_request NETWORK_RESEARCH" "np_api_request_methods NETWORK_RESEARCH = [''GET'', ''HEAD'']"
  by (simp_all add: NETWORK_OFFLINE_def NETWORK_DEFAULT_def NETWORK_RESEARCH_def NetworkPolicy_def)

lemma resolve_network_api:
  "np_allow_api_request (resolve_network_for_edict ov e) = np_allow_api_request (base_network (template_of e))"
  "np_api_request_methods (resolve_network_for_edict ov e) = np_api_request_methods (base_network (template_of e))"
  by (auto simp: resolve_network_for_edict_def Let_def split: option.splits)

text \<open>Only the template for trusted automation opens \<open>api_request\<close>, and then for reading methods alone.\<close>

lemma api_request_template:
  assumes "np_allow_api_request (base_network t)"
  shows "t = Some ''trusted-automation'' \<and> np_api_request_methods (base_network t) = [''GET'', ''HEAD'']"
  using assms by (auto simp: base_network_eq split: if_splits)

lemma set_overrides_none [simp]: "set_system_engine_overrides None None None ov = ov"
  by (simp add: set_system_engine_overrides_def)

end
