(* ===== verification/Bash_Analysis.thy ===== *)
theory Bash_Analysis
  imports Failure_Reason
begin

text \<open>
  \<open>security/bash_analysis.py\<close>: the quote-aware scanners the shell policy rule is built on. Each
  \<open>while\<close> loop of the source is a recursion over the rest of the command that carries the loop's
  variables \<open>quote\<close> and \<open>escaped\<close>. The reference is the automaton \<open>advance\<close> on those two variables:
  a position is \<open>live\<close> when it is neither quoted nor escaped, and the lemmas relate every scanner to
  the live positions of the command.
\<close>

section \<open>The scanners\<close>

datatype quote = NoQuote | SingleQuote | DoubleQuote

text \<open>\<open>i + 1 < n and command[i + 1] == c\<close>\<close>

definition next_is :: "char \<Rightarrow> string \<Rightarrow> bool" where
  "next_is c rest = (case rest of [] \<Rightarrow> False | d # _ \<Rightarrow> d = c)"

text \<open>\<open>flush\<close>\<close>

definition flush :: "string \<Rightarrow> string list \<Rightarrow> string list" where
  "flush current segments =
     (let seg = strip current in if seg \<noteq> [] then segments @ [seg] else segments)"

fun split_loop :: "quote \<Rightarrow> bool \<Rightarrow> string \<Rightarrow> string list \<Rightarrow> string \<Rightarrow> string list" where
  "split_loop quote escaped current segments [] = flush current segments"
| "split_loop quote escaped current segments (ch # rest) =
     (case quote of
        SingleQuote \<Rightarrow>
          split_loop (if ch = CHR 0x27 then NoQuote else SingleQuote) escaped (current @ [ch]) segments rest
      | DoubleQuote \<Rightarrow>
          if escaped then split_loop quote False (current @ [ch]) segments rest
          else if ch = CHR 0x5C then split_loop quote True (current @ [ch]) segments rest
          else if ch = CHR 0x22 then split_loop NoQuote escaped (current @ [ch]) segments rest
          else split_loop quote escaped (current @ [ch]) segments rest
      | NoQuote \<Rightarrow>
          if escaped then split_loop quote False (current @ [ch]) segments rest
          else if ch = CHR 0x5C then split_loop quote True (current @ [ch]) segments rest
          else if ch = CHR 0x27 then split_loop SingleQuote escaped (current @ [ch]) segments rest
          else if ch = CHR 0x22 then split_loop DoubleQuote escaped (current @ [ch]) segments rest
          else if ch = CHR '';'' \<or> ch = CHR 0x0A then split_loop quote escaped [] (flush current segments) rest
          else if ch = CHR ''|'' then
            split_loop quote escaped [] (flush current segments)
              (if next_is (CHR ''|'') rest then tl rest else rest)
          else if ch = CHR ''&'' then
            if next_is (CHR ''&'') rest then split_loop quote escaped [] (flush current segments) (tl rest)
            else split_loop quote escaped (current @ [ch]) segments rest
          else split_loop quote escaped (current @ [ch]) segments rest)"

definition split_unquoted_segments :: "string \<Rightarrow> string list" where
  "split_unquoted_segments command = split_loop NoQuote False [] [] command"

fun contains_loop :: "char list \<Rightarrow> quote \<Rightarrow> bool \<Rightarrow> string \<Rightarrow> bool" where
  "contains_loop targets quote escaped [] = False"
| "contains_loop targets quote escaped (ch # rest) =
     (case quote of
        SingleQuote \<Rightarrow>
          contains_loop targets (if ch = CHR 0x27 then NoQuote else SingleQuote) escaped rest
      | DoubleQuote \<Rightarrow>
          if escaped then contains_loop targets quote False rest
          else if ch = CHR 0x5C then contains_loop targets quote True rest
          else if ch = CHR 0x22 then contains_loop targets NoQuote escaped rest
          else contains_loop targets quote escaped rest
      | NoQuote \<Rightarrow>
          if escaped then contains_loop targets quote False rest
          else if ch = CHR 0x5C then contains_loop targets quote True rest
          else if ch = CHR 0x27 then contains_loop targets SingleQuote escaped rest
          else if ch = CHR 0x22 then contains_loop targets DoubleQuote escaped rest
          else if ch \<in> set targets then True
          else contains_loop targets quote escaped rest)"

definition contains_unquoted :: "string \<Rightarrow> char list \<Rightarrow> bool" where
  "contains_unquoted command targets = contains_loop targets NoQuote False command"

fun ampersand_loop :: "quote \<Rightarrow> bool \<Rightarrow> string \<Rightarrow> bool" where
  "ampersand_loop quote escaped [] = False"
| "ampersand_loop quote escaped (ch # rest) =
     (case quote of
        SingleQuote \<Rightarrow> ampersand_loop (if ch = CHR 0x27 then NoQuote else SingleQuote) escaped rest
      | DoubleQuote \<Rightarrow>
          if escaped then ampersand_loop quote False rest
          else if ch = CHR 0x5C then ampersand_loop quote True rest
          else if ch = CHR 0x22 then ampersand_loop NoQuote escaped rest
          else ampersand_loop quote escaped rest
      | NoQuote \<Rightarrow>
          if escaped then ampersand_loop quote False rest
          else if ch = CHR 0x5C then ampersand_loop quote True rest
          else if ch = CHR 0x27 then ampersand_loop SingleQuote escaped rest
          else if ch = CHR 0x22 then ampersand_loop DoubleQuote escaped rest
          else if ch = CHR ''&'' then
            if next_is (CHR ''&'') rest then ampersand_loop quote escaped (tl rest) else True
          else ampersand_loop quote escaped rest)"

definition has_unquoted_single_ampersand :: "string \<Rightarrow> bool" where
  "has_unquoted_single_ampersand command = ampersand_loop NoQuote False command"

fun substitution_loop :: "quote \<Rightarrow> bool \<Rightarrow> string \<Rightarrow> bool" where
  "substitution_loop quote escaped [] = False"
| "substitution_loop quote escaped (ch # rest) =
     (case quote of
        SingleQuote \<Rightarrow> substitution_loop (if ch = CHR 0x27 then NoQuote else SingleQuote) escaped rest
      | DoubleQuote \<Rightarrow>
          if escaped then substitution_loop quote False rest
          else if ch = CHR 0x5C then substitution_loop quote True rest
          else if ch = CHR 0x22 then substitution_loop NoQuote escaped rest
          else if ch = CHR ''$'' \<and> next_is (CHR ''('') rest then True
          else substitution_loop quote escaped rest
      | NoQuote \<Rightarrow>
          if escaped then substitution_loop quote False rest
          else if ch = CHR 0x5C then substitution_loop quote True rest
          else if ch = CHR 0x27 then substitution_loop SingleQuote escaped rest
          else if ch = CHR 0x22 then substitution_loop DoubleQuote escaped rest
          else if ch = CHR ''$'' \<and> next_is (CHR ''('') rest then True
          else substitution_loop quote escaped rest)"

definition has_unquoted_command_substitution :: "string \<Rightarrow> bool" where
  "has_unquoted_command_substitution command =
     (contains_unquoted command [CHR 0x60] \<or> substitution_loop NoQuote False command)"

definition has_unquoted_redirection :: "string \<Rightarrow> bool" where
  "has_unquoted_redirection command = contains_unquoted command [CHR ''>'', CHR ''<'']"

record bash_analysis =
  ba_segments :: "string list"
  ba_background :: bool
  ba_substitution :: bool
  ba_redirection :: bool

definition has_structural_risk :: "bash_analysis \<Rightarrow> bool" where
  "has_structural_risk a = (ba_background a \<or> ba_substitution a \<or> ba_redirection a)"

definition structural_notes :: "bash_analysis \<Rightarrow> string list" where
  "structural_notes a =
     (if ba_background a then [''background '' @ [CHR 0x27, CHR ''&'', CHR 0x27]] else []) @
     (if ba_substitution a then [''command substitution''] else []) @
     (if ba_redirection a then [''redirection''] else [])"

definition analyze_command :: "string \<Rightarrow> bash_analysis" where
  "analyze_command command =
     \<lparr>ba_segments = split_unquoted_segments command,
      ba_background = has_unquoted_single_ampersand command,
      ba_substitution = has_unquoted_command_substitution command,
      ba_redirection = has_unquoted_redirection command\<rparr>"

section \<open>The reference: the quoting state of every position\<close>

text \<open>One character moves the quoting state; the pair is the source's \<open>quote\<close> and \<open>escaped\<close>.\<close>

fun advance :: "char \<Rightarrow> quote \<times> bool \<Rightarrow> quote \<times> bool" where
  "advance ch (SingleQuote, e) = (if ch = CHR 0x27 then NoQuote else SingleQuote, e)"
| "advance ch (DoubleQuote, e) =
     (if e then (DoubleQuote, False) else if ch = CHR 0x5C then (DoubleQuote, True)
      else if ch = CHR 0x22 then (NoQuote, e) else (DoubleQuote, e))"
| "advance ch (NoQuote, e) =
     (if e then (NoQuote, False) else if ch = CHR 0x5C then (NoQuote, True)
      else if ch = CHR 0x27 then (SingleQuote, e) else if ch = CHR 0x22 then (DoubleQuote, e)
      else (NoQuote, e))"

text \<open>\<open>marks s cs\<close> pairs every character of \<open>cs\<close> with the state it is read in.\<close>

fun marks :: "quote \<times> bool \<Rightarrow> string \<Rightarrow> ((quote \<times> bool) \<times> char) list" where
  "marks s [] = []"
| "marks s (ch # rest) = (s, ch) # marks (advance ch s) rest"

definition start :: "quote \<times> bool" where
  "start = (NoQuote, False)"

text \<open>The characters a shell acts on: those read outside quotes and not escaped.\<close>

definition live :: "string \<Rightarrow> char set" where
  "live command = {ch. (start, ch) \<in> set (marks start command)}"

definition separators :: "char list" where
  "separators = [CHR '';'', CHR 0x0A, CHR ''|'']"

text \<open>
  What is left of a command without its live separators, its live ampersands and its white space.
\<close>

definition is_visible :: "(quote \<times> bool) \<times> char \<Rightarrow> bool" where
  "is_visible m = (\<not> is_space (snd m) \<and> \<not> (fst m = start \<and> snd m \<in> set (CHR ''&'' # separators)))"

definition visible_from :: "quote \<times> bool \<Rightarrow> string \<Rightarrow> string" where
  "visible_from s command = map snd (filter is_visible (marks s command))"

definition visible :: "string \<Rightarrow> string" where
  "visible = visible_from start"

text \<open>Two live ampersands in a row.\<close>

definition no_pair :: "(quote \<times> bool) \<times> char \<Rightarrow> (quote \<times> bool) \<times> char \<Rightarrow> bool" where
  "no_pair m m' = (\<not> (m = (start, CHR ''&'') \<and> snd m' = CHR ''&''))"

definition not_separator :: "(quote \<times> bool) \<times> char \<Rightarrow> bool" where
  "not_separator m = (\<not> (fst m = start \<and> snd m \<in> set separators))"

definition quiet :: "((quote \<times> bool) \<times> char) list \<Rightarrow> bool" where
  "quiet ms = (list_all not_separator ms \<and> successively no_pair ms)"

section \<open>Marks\<close>

lemma marks_append: "marks s (xs @ ys) = marks s xs @ marks (fold advance xs s) ys"
  by (induction xs arbitrary: s) auto

lemma map_snd_marks [simp]: "map snd (marks s xs) = xs"
  by (induction xs arbitrary: s) auto

lemma marks_Nil_iff [simp]: "marks s xs = [] \<longleftrightarrow> xs = []"
  by (cases xs) auto

lemma is_space_not_special:
  assumes "is_space ch"
  shows "ch \<noteq> CHR 0x27" and "ch \<noteq> CHR 0x22" and "ch \<noteq> CHR 0x5C"
  using assms by (auto simp: is_space_def)

lemma advance_space [simp]: "is_space ch \<Longrightarrow> advance ch start = start"
  by (simp add: start_def is_space_not_special)

lemma marks_lstrip: "marks start (lstrip xs) = dropWhile (is_space \<circ> snd) (marks start xs)"
  by (induction xs) (auto simp: lstrip_def)

lemma rstrip_append: "\<exists>ys. xs = rstrip xs @ ys \<and> (\<forall>y \<in> set ys. is_space y)"
proof -
  have "xs = rev (takeWhile is_space (rev xs) @ dropWhile is_space (rev xs))" by simp
  then have "xs = rstrip xs @ rev (takeWhile is_space (rev xs))" by (simp add: rstrip_def del: takeWhile_dropWhile_id)
  then show ?thesis by (metis set_rev set_takeWhileD)
qed

text \<open>Stripping a text removes marks of white space from both ends and changes no other mark.\<close>

lemma marks_strip:
  obtains pre suf where "marks start xs = pre @ marks start (strip xs) @ suf"
    and "\<And>m. m \<in> set (pre @ suf) \<Longrightarrow> is_space (snd m)"
proof -
  let ?ms = "marks start xs"
  obtain ys where ys: "lstrip xs = strip xs @ ys" "\<forall>y \<in> set ys. is_space y"
    using rstrip_append [of "lstrip xs"] by (auto simp: strip_def)
  let ?suf = "marks (fold advance (strip xs) start) ys"
  have "?ms = takeWhile (is_space \<circ> snd) ?ms @ marks start (lstrip xs)"
    by (simp add: marks_lstrip)
  also have "\<dots> = takeWhile (is_space \<circ> snd) ?ms @ marks start (strip xs) @ ?suf"
    by (simp add: ys(1) marks_append)
  finally have split: "?ms = takeWhile (is_space \<circ> snd) ?ms @ marks start (strip xs) @ ?suf" .
  have "snd m \<in> set ys" if "m \<in> set ?suf" for m
    using that by (metis map_snd_marks image_eqI set_map)
  then have "is_space (snd m)" if "m \<in> set (takeWhile (is_space \<circ> snd) ?ms @ ?suf)" for m
    using that ys(2) set_takeWhileD [of m "is_space \<circ> snd" ?ms] by (metis UnE comp_apply set_append)
  with split show thesis by (rule that)
qed

lemma visible_strip: "visible (strip xs) = visible xs"
proof -
  obtain pre suf where eq: "marks start xs = pre @ marks start (strip xs) @ suf"
    and sp: "\<And>m. m \<in> set (pre @ suf) \<Longrightarrow> is_space (snd m)" using marks_strip [of xs] by metis
  have "filter is_visible pre = []" "filter is_visible suf = []"
    using sp by (auto simp: filter_empty_conv is_visible_def)
  then show ?thesis by (simp add: visible_def visible_from_def eq)
qed

lemma quiet_strip: "quiet (marks start xs) \<Longrightarrow> quiet (marks start (strip xs))"
  using marks_strip [of xs] by (metis (no_types, lifting) list_all_append quiet_def successively_append_iff)

lemma set_marks_strip: "set (marks start (strip xs)) \<subseteq> set (marks start xs)"
  using marks_strip [of xs] by (metis Un_iff set_append subsetI)

section \<open>The splitter against the reference\<close>

lemma flush_append: "flush cur segs = segs @ flush cur []"
  by (simp add: flush_def Let_def)

lemma split_loop_append: "segs \<noteq> [] \<Longrightarrow> split_loop q e cur segs rest = segs @ split_loop q e cur [] rest"
proof (induction rest arbitrary: q e cur segs rule: length_induct)
  case (1 rest)
  show ?case
  proof (cases rest)
    case Nil
    then show ?thesis using flush_append [of cur segs] by simp
  next
    case (Cons ch r)
    have ne: "flush c segs \<noteq> []" for c using "1.prems" by (simp add: flush_def Let_def)
    have step: "split_loop q' e' c s y = s @ split_loop q' e' c [] y" if "length y \<le> length r" "s \<noteq> []" for q' e' c s y
      using "1.IH" that Cons by (metis le_imp_less_Suc length_Cons)
    have flushed: "split_loop q' e' c (flush d segs) y = segs @ split_loop q' e' c (flush d []) y"
      if "length y \<le> length r" for q' e' c d y
    proof (cases "flush d [] = []")
      case True
      with step [OF that "1.prems"] show ?thesis by (subst flush_append) simp
    next
      case False
      with step [OF that ne] step [OF that False] show ?thesis by (metis append_assoc flush_append)
    qed
    show ?thesis
      by (cases q) (simp_all add: Cons step [OF _ "1.prems"] flushed)
  qed
qed

lemma split_loop_flush: "split_loop q e cur (flush c []) rest = flush c [] @ split_loop q e cur [] rest"
  by (cases "flush c [] = []") (simp_all add: split_loop_append)

lemma next_is_Cons: "next_is c rest \<longleftrightarrow> (\<exists>r. rest = c # r)"
  by (auto simp: next_is_def split: list.splits)

text \<open>Away from the live separators and ampersands a character joins the current segment.\<close>

lemma split_loop_keep:
  assumes "\<not> ((q, e) = start \<and> ch \<in> set (CHR ''&'' # separators))"
  shows "split_loop q e cur segs (ch # r) = split_loop (fst (advance ch (q, e))) (snd (advance ch (q, e))) (cur @ [ch]) segs r"
  using assms by (cases q; cases e) (simp_all add: start_def separators_def)

lemma split_loop_cut:
  "split_loop NoQuote False cur segs (CHR '';'' # r) = split_loop NoQuote False [] (flush cur segs) r"
  "split_loop NoQuote False cur segs (CHR 0x0A # r) = split_loop NoQuote False [] (flush cur segs) r"
  "split_loop NoQuote False cur segs (CHR ''|'' # r) =
     split_loop NoQuote False [] (flush cur segs) (if next_is (CHR ''|'') r then tl r else r)"
  "split_loop NoQuote False cur segs (CHR ''&'' # r) =
     (if next_is (CHR ''&'') r then split_loop NoQuote False [] (flush cur segs) (tl r)
      else split_loop NoQuote False (cur @ [CHR ''&'']) segs r)"
  by simp_all

lemma advance_start: "ch \<in> set (CHR ''&'' # separators) \<Longrightarrow> advance ch start = start"
  by (auto simp: start_def separators_def)

text \<open>No character is lost: the segments show what the command shows.\<close>

lemma visible_from_Cons:
  "visible_from s (ch # rest) = (if is_visible (s, ch) then [ch] else []) @ visible_from (advance ch s) rest"
  by (simp add: visible_from_def)

lemma visible_snoc:
  "fold advance cur start = s \<Longrightarrow> visible (cur @ [ch]) = visible cur @ (if is_visible (s, ch) then [ch] else [])"
  by (simp add: visible_def visible_from_def marks_append)

lemma visible_flush: "concat (map visible (flush cur [])) = visible cur"
proof (cases "strip cur = []")
  case True
  then show ?thesis using visible_strip [of cur] by (simp add: flush_def visible_def visible_from_def)
next
  case False
  then show ?thesis by (simp add: flush_def Let_def visible_strip)
qed

lemma not_visible_start:
  "\<not> is_visible (start, CHR '';'')" "\<not> is_visible (start, CHR 0x0A)"
  "\<not> is_visible (start, CHR ''|'')" "\<not> is_visible (start, CHR ''&'')"
  by (simp_all add: is_visible_def separators_def)

lemma split_loop_visible:
  "fold advance cur start = (q, e) \<Longrightarrow>
   concat (map visible (split_loop q e cur [] rest)) = visible cur @ visible_from (q, e) rest"
proof (induction rest arbitrary: q e cur rule: length_induct)
  case (1 rest)
  show ?case
  proof (cases rest)
    case Nil
    then show ?thesis by (simp add: visible_flush) (simp add: visible_from_def)
  next
    case (Cons ch r)
    let ?s = "(q, e)"
    have keep: "concat (map visible (split_loop q' e' (cur @ [ch]) [] r)) = visible cur @ visible_from ?s rest"
      if "advance ch ?s = (q', e')" for q' e'
    proof -
      have "fold advance (cur @ [ch]) start = (q', e')" using "1.prems" that by simp
      with "1.IH" Cons have "concat (map visible (split_loop q' e' (cur @ [ch]) [] r)) = visible (cur @ [ch]) @ visible_from (q', e') r"
        by simp
      then show ?thesis by (simp add: visible_snoc [OF "1.prems"] Cons visible_from_Cons that)
    qed
    have cut: "concat (map visible (split_loop q e [] (flush cur []) y)) = visible cur @ visible_from start y"
      if "length y < length rest" "?s = start" for y
      using "1.IH" that by (simp add: split_loop_flush visible_flush start_def) (simp add: visible_def visible_from_def)
    show ?thesis
    proof (cases "?s = start \<and> ch \<in> set (CHR ''&'' # separators)")
      case False
      with keep [of "fst (advance ch ?s)" "snd (advance ch ?s)"] show ?thesis
        by (simp add: Cons split_loop_keep del: split_loop.simps)
    next
      case True
      then have st: "q = NoQuote" "\<not> e" and ch: "ch = CHR ''&'' \<or> ch = CHR '';'' \<or> ch = CHR 0x0A \<or> ch = CHR ''|''"
        by (auto simp: start_def separators_def)
      have drop: "visible_from ?s rest = visible_from start r"
        using True not_visible_start advance_start by (auto simp: Cons visible_from_Cons separators_def)
      have tl: "visible_from start (tl r) = visible_from start r" if "next_is d r" "d = CHR ''&'' \<or> d = CHR ''|''" for d
        using that not_visible_start advance_start [of d] by (auto simp: next_is_Cons visible_from_Cons separators_def)
      have "length (tl r) < length rest" "length r < length rest" by (simp_all add: Cons)
      note cuts = cut [OF this(1)] cut [OF this(2)]
      show ?thesis
        using ch cuts tl [of "CHR ''&''"] tl [of "CHR ''|''"] True keep [of NoQuote False] drop st
        by (auto simp: split_loop_cut start_def Cons simp del: split_loop.simps split: if_splits)
    qed
  qed
qed

lemma split_visible: "concat (map visible (split_unquoted_segments c)) = visible c"
  using split_loop_visible [of "[]" NoQuote False c]
  by (simp add: split_unquoted_segments_def start_def visible_def) (simp add: visible_from_def)

text \<open>
  A property of texts that a segment under construction keeps, and that stripping keeps, holds of every
  segment. \<open>good s rest\<close> relates the marks read so far to the rest of the command.
\<close>

lemma split_loop_segments:
  assumes cut1: "\<And>cur ch rest. good cur (ch # rest) \<Longrightarrow> fold advance cur start = start \<Longrightarrow> ch \<in> set separators \<Longrightarrow> good [] rest"
    and cut2: "\<And>cur ch rest. good cur (ch # ch # rest) \<Longrightarrow> fold advance cur start = start \<Longrightarrow> ch \<in> {CHR ''|'', CHR ''&''} \<Longrightarrow>
        good [] rest"
    and keep: "\<And>cur ch rest. good cur (ch # rest) \<Longrightarrow>
        \<not> (fold advance cur start = start \<and> (ch \<in> set separators \<or> ch = CHR ''&'' \<and> next_is (CHR ''&'') rest)) \<Longrightarrow>
        good (cur @ [ch]) rest"
    and stripped: "\<And>cur rest. good cur rest \<Longrightarrow> strip cur \<noteq> [] \<Longrightarrow> P (strip cur)"
  shows "good cur rest \<Longrightarrow> fold advance cur start = (q, e) \<Longrightarrow> seg \<in> set (split_loop q e cur [] rest) \<Longrightarrow> P seg"
proof (induction rest arbitrary: q e cur rule: length_induct)
  case (1 rest)
  have flushed: "P seg" if "seg \<in> set (flush cur [])"
    using that stripped [OF "1.prems"(1)] by (simp add: flush_def Let_def split: if_splits)
  show ?case
  proof (cases rest)
    case Nil
    with "1.prems"(3) flushed show ?thesis by simp
  next
    case (Cons ch r)
    have cut: "P seg" if "seg \<in> set (split_loop NoQuote False [] (flush cur []) y)" "length y < length rest" "good [] y" for y
    proof -
      from that(1) have "seg \<in> set (flush cur []) \<or> seg \<in> set (split_loop NoQuote False [] [] y)"
        by (simp add: split_loop_flush)
      moreover have "seg \<in> set (split_loop NoQuote False [] [] y) \<Longrightarrow> P seg"
        using "1.IH" [rule_format, OF that(2), of "[]" NoQuote False] that(3) by (simp add: start_def)
      ultimately show ?thesis using flushed by blast
    qed
    have kept: "P seg" if "seg \<in> set (split_loop q' e' (cur @ [ch]) [] r)" "advance ch (q, e) = (q', e')"
        "\<not> ((q, e) = start \<and> (ch \<in> set separators \<or> ch = CHR ''&'' \<and> next_is (CHR ''&'') r))" for q' e'
    proof -
      have "good (cur @ [ch]) r" using keep "1.prems"(1,2) that(3) by (simp add: Cons)
      moreover have "fold advance (cur @ [ch]) start = (q', e')" using "1.prems"(2) that(2) by simp
      moreover have "length r < length rest" by (simp add: Cons)
      ultimately show ?thesis using "1.IH" that(1) by blast
    qed
    show ?thesis
    proof (cases "(q, e) = start \<and> ch \<in> set (CHR ''&'' # separators)")
      case False
      with "1.prems"(3) kept [of "fst (advance ch (q, e))" "snd (advance ch (q, e))"] show ?thesis
        by (auto simp: Cons split_loop_keep simp del: split_loop.simps)
    next
      case True
      then have st: "q = NoQuote" "\<not> e" and ch: "ch = CHR ''&'' \<or> ch = CHR '';'' \<or> ch = CHR 0x0A \<or> ch = CHR ''|''"
        by (auto simp: start_def separators_def)
      have s: "fold advance cur start = start" using "1.prems"(2) st by (simp add: start_def)
      have good2: "good [] (tl r)" if "next_is ch r" "ch = CHR ''|'' \<or> ch = CHR ''&''"
        using cut2 [OF _ s, of ch "tl r"] "1.prems"(1) that by (auto simp: Cons next_is_Cons)
      have cuts: "ch \<in> set separators \<Longrightarrow> seg \<in> set (split_loop NoQuote False [] (flush cur []) r) \<Longrightarrow> P seg"
        "next_is ch r \<Longrightarrow> ch = CHR ''|'' \<or> ch = CHR ''&'' \<Longrightarrow> seg \<in> set (split_loop NoQuote False [] (flush cur []) (tl r)) \<Longrightarrow> P seg"
        using cut [of r] cut [of "tl r"] cut1 [OF _ s] "1.prems"(1) good2 by (simp_all add: Cons)
      have amp: "P seg" if "ch = CHR ''&''" "\<not> next_is (CHR ''&'') r" "seg \<in> set (split_loop NoQuote False (cur @ [CHR ''&'']) [] r)"
        using kept [of NoQuote False] that st by (simp add: start_def separators_def)
      show ?thesis
        using ch "1.prems"(3) cuts [unfolded separators_def] amp st
        by (auto simp: Cons split_loop_cut simp del: split_loop.simps split: if_splits)
    qed
  qed
qed

lemma quiet_snoc:
  "quiet (ms @ [m]) \<longleftrightarrow> quiet ms \<and> not_separator m \<and> (ms \<noteq> [] \<longrightarrow> no_pair (last ms) m)"
  by (auto simp: quiet_def successively_append_iff)

lemma marks_snoc: "marks s (xs @ [ch]) = marks s xs @ [(fold advance xs s, ch)]"
  by (simp add: marks_append)

lemma strip_strip [simp]: "strip (strip xs) = strip xs"
proof (cases "strip xs = []")
  case True
  show ?thesis unfolding True by (simp add: strip_def rstrip_def lstrip_def)
next
  case False
  obtain ys where ys: "lstrip xs = strip xs @ ys" using rstrip_append [of "lstrip xs"] by (auto simp: strip_def)
  with False have ne: "lstrip xs \<noteq> []" and hd: "hd (strip xs) = hd (lstrip xs)" by auto
  from ne have "\<not> is_space (hd (lstrip xs))" unfolding lstrip_def by (rule hd_dropWhile)
  with hd False have l: "lstrip (strip xs) = strip xs" by (cases "strip xs") (auto simp: lstrip_def)
  from False have "dropWhile is_space (rev (lstrip xs)) \<noteq> []" by (auto simp: strip_def rstrip_def)
  then have "\<not> is_space (hd (dropWhile is_space (rev (lstrip xs))))" by (rule hd_dropWhile)
  then have "dropWhile is_space (rev (strip xs)) = rev (strip xs)"
    by (simp add: strip_def rstrip_def dropWhile_idem)
  with l show ?thesis by (simp add: strip_def [of "strip xs"] rstrip_def)
qed

lemma split_quiet:
  assumes "seg \<in> set (split_unquoted_segments c)"
  shows "quiet (marks start seg) \<and> strip seg = seg \<and> seg \<noteq> []"
proof -
  let ?good = "\<lambda>cur rest. quiet (marks start cur) \<and>
    (cur \<noteq> [] \<and> last (marks start cur) = (start, CHR ''&'') \<longrightarrow> \<not> next_is (CHR ''&'') rest)"
  show ?thesis
  proof (rule split_loop_segments [where good = ?good and P = "\<lambda>seg. quiet (marks start seg) \<and> strip seg = seg \<and> seg \<noteq> []"])
    show "seg \<in> set (split_loop NoQuote False [] [] c)" using assms by (simp add: split_unquoted_segments_def)
  next
    fix cur ch rest
    assume g: "?good cur (ch # rest)"
      and n: "\<not> (fold advance cur start = start \<and> (ch \<in> set separators \<or> ch = CHR ''&'' \<and> next_is (CHR ''&'') rest))"
    have "no_pair (last (marks start cur)) (fold advance cur start, ch)" if "cur \<noteq> []"
      using g that by (auto simp: no_pair_def next_is_def)
    with g n show "?good (cur @ [ch]) rest"
      by (auto simp: marks_snoc quiet_snoc not_separator_def)
  qed (auto simp: quiet_def [of "[]"] start_def intro: quiet_strip [unfolded start_def])
qed

text \<open>A quiet text is one segment.\<close>

lemma split_loop_quiet:
  "quiet (marks (q, e) rest) \<Longrightarrow> split_loop q e cur segs rest = flush (cur @ rest) segs"
proof (induction rest arbitrary: q e cur)
  case Nil
  then show ?case by simp
next
  case (Cons ch r)
  have q: "quiet (marks (advance ch (q, e)) r)"
    using Cons.prems by (cases r) (auto simp: quiet_def)
  note step = Cons.IH [of "fst (advance ch (q, e))" "snd (advance ch (q, e))" "cur @ [ch]", simplified, OF q]
  have sep: "\<not> ((q, e) = start \<and> ch \<in> set separators)"
    using Cons.prems by (auto simp: quiet_def not_separator_def)
  show ?case
  proof (cases "(q, e) = start \<and> ch = CHR ''&''")
    case False
    with sep step show ?thesis by (subst split_loop_keep) auto
  next
    case True
    then have "\<not> next_is (CHR ''&'') r"
      using Cons.prems by (auto simp: quiet_def no_pair_def next_is_Cons start_def)
    with True step show ?thesis by (simp add: start_def split_loop_cut del: split_loop.simps)
  qed
qed

section \<open>The other scanners against the reference\<close>

lemma contains_loop_iff:
  assumes "set targets \<inter> {CHR 0x27, CHR 0x22, CHR 0x5C} = {}"
  shows "contains_loop targets q e rest \<longleftrightarrow> (\<exists>ch \<in> set targets. (start, ch) \<in> set (marks (q, e) rest))"
proof (induction rest arbitrary: q e)
  case Nil
  then show ?case by simp
next
  case (Cons ch rest)
  show ?case
  proof (cases "(q, e) = start")
    case False
    with Cons.IH show ?thesis by (cases q) (auto simp: start_def)
  next
    case True
    with assms Cons.IH show ?thesis by (auto simp: start_def)
  qed
qed

lemma contains_unquoted_iff:
  assumes "set targets \<inter> {CHR 0x27, CHR 0x22, CHR 0x5C} = {}"
  shows "contains_unquoted c targets \<longleftrightarrow> set targets \<inter> live c \<noteq> {}"
  using contains_loop_iff [OF assms, of NoQuote False c]
  by (auto simp: contains_unquoted_def live_def start_def)

text \<open>
  A dollar sign expands outside single quotes, also inside double ones, unless it is escaped. \<open>pairs\<close>
  are the neighbours of a text with the state each is read in.
\<close>

definition expands :: "quote \<times> bool \<Rightarrow> bool" where
  "expands s = (fst s \<noteq> SingleQuote \<and> \<not> snd s)"

definition pairs :: "quote \<times> bool \<Rightarrow> string \<Rightarrow> (((quote \<times> bool) \<times> char) \<times> (quote \<times> bool) \<times> char) list" where
  "pairs s c = zip (marks s c) (tl (marks s c))"

definition substitutes :: "((quote \<times> bool) \<times> char) \<times> (quote \<times> bool) \<times> char \<Rightarrow> bool" where
  "substitutes p = (expands (fst (fst p)) \<and> snd (fst p) = CHR ''$'' \<and> snd (snd p) = CHR ''('')"

lemma pairs_Cons: "pairs s (ch # rest) = (case rest of [] \<Rightarrow> [] | ch' # _ \<Rightarrow> [((s, ch), (advance ch s, ch'))]) @ pairs (advance ch s) rest"
  by (cases rest) (simp_all add: pairs_def)

lemma substitution_loop_iff: "substitution_loop q e rest \<longleftrightarrow> (\<exists>p \<in> set (pairs (q, e) rest). substitutes p)"
proof (induction rest arbitrary: q e)
  case Nil
  then show ?case by (simp add: pairs_def)
next
  case (Cons ch rest)
  have "(\<exists>p \<in> set (pairs (q, e) (ch # rest)). substitutes p) \<longleftrightarrow>
      expands (q, e) \<and> ch = CHR ''$'' \<and> next_is (CHR ''('') rest \<or> (\<exists>p \<in> set (pairs (advance ch (q, e)) rest). substitutes p)"
    by (auto simp: pairs_Cons substitutes_def next_is_def split: list.splits)
  then show ?case using Cons.IH by (cases q; cases e) (auto simp: expands_def)
qed

text \<open>Without a lone ampersand no segment has a live one, and what is live in a segment is live in the command.\<close>

lemma ampersand_loop_keep:
  assumes "\<not> ((q, e) = start \<and> ch = CHR ''&'')"
  shows "ampersand_loop q e (ch # r) = ampersand_loop (fst (advance ch (q, e))) (snd (advance ch (q, e))) r"
  using assms by (cases q; cases e) (simp_all add: start_def)

lemma ampersand_free:
  assumes "\<not> has_unquoted_single_ampersand c" and "seg \<in> set (split_unquoted_segments c)"
  shows "CHR ''&'' \<notin> live seg"
proof -
  let ?good = "\<lambda>cur rest. (start, CHR ''&'') \<notin> set (marks start cur) \<and>
    \<not> ampersand_loop (fst (fold advance cur start)) (snd (fold advance cur start)) rest"
  have "(start, CHR ''&'') \<notin> set (marks start seg)"
  proof (rule split_loop_segments [where good = ?good and cur = "[]" and rest = c and q = NoQuote and e = False])
    fix cur ch rest
    assume g: "?good cur (ch # rest)"
      and n: "\<not> (fold advance cur start = start \<and> (ch \<in> set separators \<or> ch = CHR ''&'' \<and> next_is (CHR ''&'') rest))"
    obtain q e where qe: "fold advance cur start = (q, e)" by fastforce
    have ch: "\<not> ((q, e) = start \<and> ch = CHR ''&'')"
      using g n unfolding qe fst_conv snd_conv by (auto simp: start_def)
    with g show "?good (cur @ [ch]) rest"
      by (auto simp: marks_snoc qe ampersand_loop_keep simp del: ampersand_loop.simps)
  qed (use assms set_marks_strip in \<open>auto simp: split_unquoted_segments_def has_unquoted_single_ampersand_def start_def separators_def next_is_def\<close>)
  then show ?thesis by (simp add: live_def)
qed

section \<open>What the policy rule relies on\<close>

lemma segment_not_live:
  assumes "seg \<in> set (split_unquoted_segments c)" and "ch \<in> set separators"
  shows "ch \<notin> live seg"
  using split_quiet [OF assms(1)] assms(2) by (auto simp: quiet_def list_all_iff not_separator_def live_def)

text \<open>What is live in a segment is live in the command.\<close>

lemma live_segment:
  assumes "seg \<in> set (split_unquoted_segments c)"
  shows "live seg \<subseteq> live c"
proof -
  let ?good = "\<lambda>cur rest. set (marks start (cur @ rest)) \<subseteq> set (marks start c)"
  have "set (marks start seg) \<subseteq> set (marks start c)"
  proof (rule split_loop_segments [where good = ?good and P = "\<lambda>seg. set (marks start seg) \<subseteq> set (marks start c)" and cur = "[]" and rest = c and q = NoQuote and e = False])
    fix cur rest
    assume "?good cur rest" and "strip cur \<noteq> []"
    then show "set (marks start (strip cur)) \<subseteq> set (marks start c)"
      using set_marks_strip [of cur] by (auto simp: marks_append)
  next
    fix cur ch rest
    assume "?good cur (ch # ch # rest)" "fold advance cur start = start" "ch \<in> {CHR ''|'', CHR ''&''}"
    then show "?good [] rest" using advance_start [of ch] by (auto simp: marks_append separators_def)
  qed (use assms in \<open>auto simp: marks_append advance_start split_unquoted_segments_def start_def [symmetric]\<close>)
  then show ?thesis by (auto simp: live_def)
qed

text \<open>
  C38: The splitter loses nothing and leaves nothing to split: put together, the segments show exactly the
  characters of the command other than white space, live separators and live ampersands, in order; and
  every segment is non-empty, stripped, has no live semicolon, newline or bar, and splits into itself.
\<close>

theorem segments_partition_command:
  "concat (map visible (split_unquoted_segments c)) = visible c \<and>
   list_all (\<lambda>seg. seg \<noteq> [] \<and> strip seg = seg \<and> live seg \<inter> set separators = {} \<and>
                   split_unquoted_segments seg = [seg]) (split_unquoted_segments c)"
proof (intro conjI, rule split_visible)
  have "split_unquoted_segments seg = [seg]" if "quiet (marks start seg)" "strip seg = seg" "seg \<noteq> []" for seg
    using split_loop_quiet [of NoQuote False seg "[]" "[]"] that
    by (simp add: split_unquoted_segments_def start_def flush_def)
  then show "list_all (\<lambda>seg. seg \<noteq> [] \<and> strip seg = seg \<and> live seg \<inter> set separators = {} \<and>
      split_unquoted_segments seg = [seg]) (split_unquoted_segments c)"
    using split_quiet segment_not_live by (fastforce simp: list_all_iff)
qed

text \<open>
  The scan for structural risk finds exactly what the reference finds: a live ampersand that stands alone,
  a live backtick or angle bracket, or a \<open>$(\<close> whose dollar sign is neither escaped nor in single quotes.
\<close>

lemma structural_risk_iff:
  "has_structural_risk (analyze_command c) \<longleftrightarrow>
     has_unquoted_single_ampersand c \<or> live c \<inter> {CHR 0x60, CHR ''>'', CHR ''<''} \<noteq> {} \<or>
     (\<exists>p \<in> set (pairs start c). substitutes p)"
  using substitution_loop_iff [of NoQuote False c]
  by (auto simp: has_structural_risk_def analyze_command_def has_unquoted_command_substitution_def
      has_unquoted_redirection_def contains_unquoted_iff start_def)

end
