(* ===== verification/Policy_Rules.thy ===== *)
theory Policy_Rules
  imports Policy_Profile Bash_Analysis
begin

text \<open>
  \<open>persona/match.py\<close>, \<open>tools/path_utils.py\<close> and \<open>tools/policy_rules/*.py\<close>: the nine built-in rules. What
  a rule reads besides its context is a \<open>policy_env\<close>: the ambient persona, the system-wide overrides,
  \<open>Path.resolve\<close> (which looks at the file system) and the two checks inside \<open>urlsplit\<close>. An exception in a rule's
  code is the answer \<open>Raised\<close>. No built-in rule awaits anything, so none is ever suspended.
\<close>

section \<open>Personas\<close>

record persona =
  ps_id :: string
  ps_tools_allowed :: "string list"
  ps_tools_denied :: "string list"
  ps_tool_tier_max :: int

datatype clause = ClauseDenied | ClauseNotAllowed | ClauseTierExceeded

definition matches_any :: "string list \<Rightarrow> string \<Rightarrow> bool" where
  "matches_any patterns tool_name = list_ex (fnmatchcase tool_name) patterns"

definition persona_tool_verdict :: "persona \<Rightarrow> string \<Rightarrow> int \<Rightarrow> clause option" where
  "persona_tool_verdict p tool_name tier =
     (if ps_tools_denied p \<noteq> [] \<and> matches_any (ps_tools_denied p) tool_name then Some ClauseDenied
      else if ps_tools_allowed p \<noteq> [] then
        (if matches_any (ps_tools_allowed p) tool_name then None else Some ClauseNotAllowed)
      else if tier \<le> ps_tool_tier_max p then None else Some ClauseTierExceeded)"

definition persona_can_use :: "persona \<Rightarrow> string \<Rightarrow> int \<Rightarrow> bool" where
  "persona_can_use p tool_name tier = (persona_tool_verdict p tool_name tier = None)"

section \<open>Paths\<close>

text \<open>What \<open>Path.resolve\<close> does: it gives a path, raises \<open>OSError\<close>, or raises something else.\<close>

datatype resolution = Resolved path | ResolveOSError | ResolveError

record policy_env =
  pv_persona :: "persona option"
  pv_overrides :: engine_overrides
  pv_resolve :: "path \<Rightarrow> resolution"
  pv_netloc_ok :: "string \<Rightarrow> bool"

definition SENSITIVE_DIR_NAMES :: "string list" where
  "SENSITIVE_DIR_NAMES = [''.ssh'', ''.aws'', ''.gnupg'', ''.password-store'', ''.kube'', ''.docker'']"

definition SENSITIVE_FILE_NAMES :: "string list" where
  "SENSITIVE_FILE_NAMES = [''.env'', ''.netrc'', ''.pypirc'', ''.npmrc'', ''.git-credentials'', ''tianshu.db'',
     ''tianshu.db-wal'', ''tianshu.db-shm'']"

definition SENSITIVE_FILE_PREFIXES :: "string list" where
  "SENSITIVE_FILE_PREFIXES = [''id_rsa'', ''id_ed25519'', ''id_ecdsa'', ''id_dsa'']"

definition is_sensitive_path :: "path \<Rightarrow> bool" where
  "is_sensitive_path p =
     (list_ex (\<lambda>c. c \<in> set SENSITIVE_DIR_NAMES) p \<or>
      path_name p \<in> set SENSITIVE_FILE_NAMES \<or>
      list_ex (\<lambda>x. prefix x (path_name p)) SENSITIVE_FILE_PREFIXES)"

datatype glob_problem = NotAbsolute | RootDirectory | WildcardFirst | CredentialDirectory

definition validate_allowed_path_glob :: "string \<Rightarrow> glob_problem option" where
  "validate_allowed_path_glob glob =
     (let segments = filter (\<lambda>s. s \<noteq> []) (split_on (CHR ''/'') glob)
      in if \<not> prefix ''/'' glob then Some NotAbsolute
         else if segments = [] then Some RootDirectory
         else if list_ex (\<lambda>ch. ch \<in> set (hd segments)) ''*?['' then Some WildcardFirst
         else if list_ex (\<lambda>s. s \<in> set SENSITIVE_DIR_NAMES) segments then Some CredentialDirectory
         else None)"

definition path_allowed_outside :: "path \<Rightarrow> string list \<Rightarrow> bool" where
  "path_allowed_outside resolved globs =
     list_ex (\<lambda>glob. prefix ''/'' glob \<and> fnmatchcase (path_str resolved) glob) globs"

text \<open>\<open>edict.runtime.policy_profile.allowed_paths\<close>, read by \<open>ambient_allowed_globs\<close> and by the boundary rule.\<close>

definition profile_globs :: "policy_edict \<Rightarrow> string list" where
  "profile_globs e = (case rt_policy_profile (pe_runtime e) of None \<Rightarrow> [] | Some p \<Rightarrow> pl_allowed_paths p)"

definition ambient_allowed_globs :: "policy_edict option \<Rightarrow> string list" where
  "ambient_allowed_globs e = (case e of None \<Rightarrow> [] | Some e \<Rightarrow> profile_globs e)"

datatype path_error = ProtectedCredential | OutsideOfWorkspace | CannotResolve

definition safe_path :: "(path \<Rightarrow> resolution) \<Rightarrow> policy_edict option \<Rightarrow> path \<Rightarrow> string \<Rightarrow> path_error + path" where
  "safe_path resolve e workspace path_str1 =
     (case resolve (path_join workspace (parse_path path_str1)) of
        Resolved resolved \<Rightarrow>
          if is_sensitive_path resolved then Inl ProtectedCredential
          else
            (case resolve workspace of
               Resolved w \<Rightarrow>
                 if (resolved \<noteq> w \<and> \<not> prefix (path_str w @ ''/'') (path_str resolved)) \<and>
                    \<not> path_allowed_outside resolved (ambient_allowed_globs e)
                 then Inl OutsideOfWorkspace else Inr resolved
             | _ \<Rightarrow> Inl CannotResolve)
      | _ \<Rightarrow> Inl CannotResolve)"

section \<open>The rules\<close>

definition decide :: "verdict \<Rightarrow> string \<Rightarrow> reason \<Rightarrow> (string \<times> json) list \<Rightarrow> answer" where
  "decide v rule_id r meta =
     Decided (Some \<lparr>pd_verdict = v, pd_rule_id = rule_id, pd_reason = r, pd_metadata = meta\<rparr>)"

definition abstain :: answer where
  "abstain = Decided None"

subsection \<open>persona_tool.py\<close>

definition persona_clause :: "policy_env \<Rightarrow> policy_context \<Rightarrow> clause option" where
  "persona_clause env ctx =
     (case pv_persona env of None \<Rightarrow> None
      | Some p \<Rightarrow> persona_tool_verdict p (px_tool_name ctx) (tier_value (px_tool_tier ctx)))"

definition persona_meta :: "persona \<Rightarrow> string \<Rightarrow> (string \<times> json) list" where
  "persona_meta p c =
     [(''persona_id'', JStr (ps_id p)), (''clause'', JStr c), (''tool_tier_max'', JInt (ps_tool_tier_max p))]"

definition persona_tool_acl :: "policy_env \<Rightarrow> policy_context \<Rightarrow> answer" where
  "persona_tool_acl env ctx =
     (case pv_persona env of None \<Rightarrow> abstain
      | Some p \<Rightarrow>
          (case persona_clause env ctx of
             Some ClauseDenied \<Rightarrow>
               decide Deny ''persona_tool_acl'' (PersonaDenies (px_tool_name ctx) (ps_id p)) (persona_meta p ''denied'')
           | Some ClauseNotAllowed \<Rightarrow>
               decide Deny ''persona_tool_acl'' (PersonaDoesNotAllow (px_tool_name ctx) (ps_id p)) (persona_meta p ''not_allowed'')
           | _ \<Rightarrow> abstain))"

definition persona_tier :: "policy_env \<Rightarrow> policy_context \<Rightarrow> answer" where
  "persona_tier env ctx =
     (case pv_persona env of None \<Rightarrow> abstain
      | Some p \<Rightarrow>
          if persona_clause env ctx = Some ClauseTierExceeded then
            decide RequireApproval ''persona_tier''
              (PersonaTierExceeded (ps_id p) (ps_tool_tier_max p) (px_tool_name ctx) (px_tool_tier ctx))
              (persona_meta p ''tier_exceeded'')
          else abstain)"

subsection \<open>tier_escalation.py\<close>

definition tier_escalation :: "policy_env \<Rightarrow> policy_context \<Rightarrow> answer" where
  "tier_escalation env ctx =
     (case map_of (rt_tier_overrides (pe_runtime (px_edict ctx))) (px_tool_name ctx) of
        None \<Rightarrow> abstain
      | Some v \<Rightarrow>
          (case tool_tier v of
             None \<Rightarrow> abstain
           | Some t \<Rightarrow>
               if t \<le> px_tool_tier ctx then abstain
               else decide RequireApproval ''tier_escalation'' (TierEscalated (px_tool_tier ctx) t)
                      [(''original_tier'', JStr (tier_name (px_tool_tier ctx))), (''escalated_tier'', JStr (tier_name t))]))"

subsection \<open>workspace_boundary.py\<close>

definition PATH_ARG_KEYS :: "string list" where
  "PATH_ARG_KEYS = [''path'', ''cwd'', ''file_path'', ''filename'', ''dir'', ''directory'']"

text \<open>\<open>_resolve\<close>: \<open>None\<close> is an exception other than \<open>OSError\<close>.\<close>

definition resolve_arg :: "(path \<Rightarrow> resolution) \<Rightarrow> string \<Rightarrow> path \<Rightarrow> path option" where
  "resolve_arg resolve raw workspace =
     (let p = path_join workspace (parse_path raw)
      in case resolve p of Resolved r \<Rightarrow> Some r | ResolveOSError \<Rightarrow> Some p | ResolveError \<Rightarrow> None)"

fun boundary_loop :: "policy_env \<Rightarrow> policy_context \<Rightarrow> path \<Rightarrow> string list \<Rightarrow> answer" where
  "boundary_loop env ctx workspace [] = abstain"
| "boundary_loop env ctx workspace (key # keys) =
     (case map_of (px_args ctx) key of
        Some (JStr raw) \<Rightarrow>
          if raw = [] then boundary_loop env ctx workspace keys
          else
            (case resolve_arg (pv_resolve env) raw workspace of
               None \<Rightarrow> Raised
             | Some resolved \<Rightarrow>
                 if is_sensitive_path resolved then
                   decide Deny ''workspace_boundary'' (ProtectedPath raw)
                     [(''arg_key'', JStr key), (''resolved'', JStr (path_str resolved))]
                 else if is_relative_to resolved workspace then boundary_loop env ctx workspace keys
                 else if path_allowed_outside resolved (profile_globs (px_edict ctx)) then boundary_loop env ctx workspace keys
                 else decide Deny ''workspace_boundary'' (OutsideWorkspace raw resolved workspace)
                        [(''arg_key'', JStr key), (''resolved'', JStr (path_str resolved))])
      | _ \<Rightarrow> boundary_loop env ctx workspace keys)"

definition workspace_boundary :: "policy_env \<Rightarrow> policy_context \<Rightarrow> answer" where
  "workspace_boundary env ctx =
     (case pv_resolve env (parse_path (px_workspace_root ctx)) of
        Resolved workspace \<Rightarrow> boundary_loop env ctx workspace PATH_ARG_KEYS
      | _ \<Rightarrow> Raised)"

subsection \<open>bash_safety.py\<close>

definition BASH_TOOL_NAMES :: "string list" where
  "BASH_TOOL_NAMES = [''shell_exec'', ''bash'']"

definition BASH_DENYLIST_SUBSTRINGS :: "string list" where
  "BASH_DENYLIST_SUBSTRINGS =
     [''rm -rf /'', ''rm -rf /*'', ''mkfs'', ''dd if='', ''dd of=/dev'', '':(){:|:&};:'', ''sudo '', ''curl | sh'',
      ''curl|sh'', ''wget | sh'', ''wget|sh'', ''git push --force'', ''git push -f '', ''chmod 777 /'', ''> /dev/sda'']"

definition denied_pair :: "string list \<Rightarrow> (string \<times> string) option" where
  "denied_pair candidates =
     find (\<lambda>(c, needle). contains (lower c) needle)
       (concat (map (\<lambda>c. map (Pair c) BASH_DENYLIST_SUBSTRINGS) candidates))"

definition profile_prefixes :: "policy_edict \<Rightarrow> string list" where
  "profile_prefixes e = (case rt_policy_profile (pe_runtime e) of None \<Rightarrow> [] | Some p \<Rightarrow> pl_bash_prefixes p)"

text \<open>\<open>analysis.segments or (command,)\<close>\<close>

definition checked_segments :: "string \<Rightarrow> string list" where
  "checked_segments command =
     (let segments = ba_segments (analyze_command command) in if segments = [] then [command] else segments)"

definition bash_verdict :: "policy_edict \<Rightarrow> string \<Rightarrow> answer" where
  "bash_verdict e command =
     (let analysis = analyze_command command;
          segments = checked_segments command;
          prefixes = profile_prefixes e
      in case denied_pair (command # segments) of
           Some (candidate, needle) \<Rightarrow>
             decide Deny ''bash_safety'' (MatchedDenySubstring needle)
               [(''matched_pattern'', JStr needle), (''segment'', JStr (take 120 candidate))]
         | None \<Rightarrow>
             if has_structural_risk analysis then
               decide RequireApproval ''bash_safety'' (StructuralRisk (structural_notes analysis))
                 [(''command_preview'', JStr (take 200 command)),
                  (''structural_notes'', JList (map JStr (structural_notes analysis)))]
             else if prefixes \<noteq> [] \<and> list_all (\<lambda>seg. list_ex (\<lambda>p. prefix p seg) prefixes) segments then
               decide Allow ''bash_safety'' AllSegmentsAllowed [(''segments'', JList (map JStr segments))]
             else
               decide RequireApproval ''bash_safety'' (BashNeedsApproval (take 80 command))
                 [(''command_preview'', JStr (take 200 command)), (''segments'', JList (map JStr segments))])"

definition bash_safety :: "policy_env \<Rightarrow> policy_context \<Rightarrow> answer" where
  "bash_safety env ctx =
     (if px_tool_name ctx \<notin> set BASH_TOOL_NAMES then abstain
      else
        (case str_arg (px_args ctx) ''command'' '''' of
           None \<Rightarrow> Raised
         | Some c \<Rightarrow> if strip c = [] then abstain else bash_verdict (px_edict ctx) (strip c)))"

subsection \<open>lark_cli_safety.py\<close>

definition WRITE_VERBS :: "string list" where
  "WRITE_VERBS =
     [''send'', ''reply'', ''create'', ''update'', ''delete'', ''remove'', ''add'', ''set'', ''edit'', ''patch'', ''post'',
      ''upload'', ''import'', ''complete'', ''cancel'', ''move'', ''copy'', ''share'', ''grant'', ''revoke'', ''archive'',
      ''rename'', ''invite'', ''kick'', ''transfer'', ''approve'', ''reject'', ''submit'', ''publish'', ''write'',
      ''insert'', ''append'', ''modify'', ''comment'']"

definition BLOCKED_PREFIXES :: "string list list" where
  "BLOCKED_PREFIXES =
     [[''auth'', ''login''], [''auth'', ''logout''], [''config'', ''init''], [''config'', ''reset''], [''config'', ''delete'']]"

fun non_flag_token :: "json \<Rightarrow> string option" where
  "non_flag_token (JStr a) =
     (if prefix ''-'' a then None else Some (lower (dropWhile (\<lambda>c. c = CHR ''+'') a)))"
| "non_flag_token _ = None"

definition non_flag_tokens :: "json list \<Rightarrow> string list" where
  "non_flag_tokens vs = List.map_filter non_flag_token vs"

definition lark_verdict :: "string list \<Rightarrow> answer" where
  "lark_verdict tokens =
     (if tokens = [] then abstain
      else if list_ex (\<lambda>p. take (length p) (take 2 tokens) = p) BLOCKED_PREFIXES then
        decide Deny ''lark_cli_safety'' (LarkInteractive (join_sp (take 2 tokens)))
          [(''command'', JStr (join_sp (take 2 tokens)))]
      else
        (case find (\<lambda>t. t \<in> set WRITE_VERBS) tokens of
           Some hit \<Rightarrow>
             decide RequireApproval ''lark_cli_safety'' (LarkWriteOp hit)
               [(''verb'', JStr hit), (''cmd_preview'', JStr (join_sp (take 6 tokens)))]
         | None \<Rightarrow> abstain))"

definition lark_cli_safety :: "policy_env \<Rightarrow> policy_context \<Rightarrow> answer" where
  "lark_cli_safety env ctx =
     (if px_tool_name ctx \<noteq> ''lark_cli'' then abstain
      else (case map_of (px_args ctx) ''args'' of Some (JList raw) \<Rightarrow> lark_verdict (non_flag_tokens raw) | _ \<Rightarrow> abstain))"

subsection \<open>network_safety.py\<close>

definition WRITE_METHODS :: "string list" where
  "WRITE_METHODS = [''POST'', ''PUT'', ''DELETE'', ''PATCH'']"

definition network_deny :: "string \<Rightarrow> (string \<times> json) list \<Rightarrow> answer" where
  "network_deny code meta = decide Deny ''network_safety'' (NetworkDenied code) meta"

definition api_verdict :: "network_policy \<Rightarrow> edict_runtime \<Rightarrow> string \<Rightarrow> string \<Rightarrow> answer" where
  "api_verdict net runtime host method =
     (if host \<notin> set (rt_api_request_hosts runtime) then network_deny ''host_not_whitelisted'' [(''host'', JStr host)]
      else if method \<in> set WRITE_METHODS then
        (if host \<notin> set (rt_api_request_write_hosts runtime) then
           network_deny ''write_method_host_not_whitelisted'' [(''host'', JStr host), (''method'', JStr method)]
         else decide RequireApproval ''network_safety'' (ApiWriteNeedsApproval method host)
                [(''host'', JStr host), (''method'', JStr method)])
      else if method \<notin> set (np_api_request_methods net) then
        network_deny (''method_not_allowed:'' @ method) [(''method'', JStr method)]
      else abstain)"

definition evaluate_api_request :: "policy_env \<Rightarrow> policy_context \<Rightarrow> network_policy \<Rightarrow> answer" where
  "evaluate_api_request env ctx net =
     (if \<not> np_allow_api_request net then network_deny ''api_request_not_allowed_in_profile'' []
      else
        (case str_arg (px_args ctx) ''method'' ''GET'' of
           None \<Rightarrow> Raised
         | Some m \<Rightarrow>
             (case str_arg (px_args ctx) ''url'' '''' of
                None \<Rightarrow> Raised
              | Some url \<Rightarrow>
                  (case hostname (pv_netloc_ok env) url of
                     None \<Rightarrow> Raised
                   | Some host \<Rightarrow> api_verdict net (pe_runtime (px_edict ctx)) host (upper m)))))"

definition network_safety :: "policy_env \<Rightarrow> policy_context \<Rightarrow> answer" where
  "network_safety env ctx =
     (let net = resolve_network_for_edict (pv_overrides env) (px_edict ctx); tool = px_tool_name ctx
      in if tool = ''web_fetch'' then
           (if np_fetch_engines net = [] then network_deny ''fetch_not_allowed_in_profile'' [] else abstain)
         else if tool = ''web_search'' then
           (if np_search_provider net = None then network_deny ''search_not_allowed_in_profile'' [] else abstain)
         else if tool = ''api_request'' then evaluate_api_request env ctx net
         else if tool = ''web_extract'' then
           (if ''firecrawl'' \<notin> set (np_fetch_engines net) then network_deny ''web_extract_not_allowed_in_profile'' [] else abstain)
         else abstain)"

subsection \<open>approval_required_list.py and default_tier.py\<close>

definition approval_required_list :: "policy_env \<Rightarrow> policy_context \<Rightarrow> answer" where
  "approval_required_list env ctx =
     (if px_tool_name ctx \<in> set (rt_approval_required_tools (pe_runtime (px_edict ctx)))
      then decide RequireApproval ''approval_required_list'' ListedForApproval [] else abstain)"

definition max_auto_tier :: "policy_edict \<Rightarrow> tool_tier option" where
  "max_auto_tier e =
     (case rt_policy_profile (pe_runtime e) of None \<Rightarrow> None | Some p \<Rightarrow> tool_tier (pl_auto_approve_max_tier p))"

definition tier_default :: "tool_tier \<Rightarrow> answer" where
  "tier_default t =
     (if t = T4_DANGEROUS \<or> t = T3_WRITE then decide RequireApproval ''default_tier'' (TierNeedsApproval t) []
      else decide Allow ''default_tier'' (TierSafe t) [])"

definition default_tier :: "policy_env \<Rightarrow> policy_context \<Rightarrow> answer" where
  "default_tier env ctx =
     (case max_auto_tier (px_edict ctx) of
        Some m \<Rightarrow>
          if px_tool_tier ctx \<le> m then decide Allow ''default_tier'' (TierAutoApproved (px_tool_tier ctx) m) []
          else tier_default (px_tool_tier ctx)
      | None \<Rightarrow> tier_default (px_tool_tier ctx))"

subsection \<open>build_default_rules\<close>

definition builtin :: "string \<Rightarrow> int \<Rightarrow> (policy_context \<Rightarrow> answer) \<Rightarrow> policy_context policy_rule" where
  "builtin rule_id priority f = \<lparr>rl_id = rule_id, rl_priority = priority, rl_evaluate = (\<lambda>ctx. (f ctx, 0))\<rparr>"

definition build_default_rules :: "policy_env \<Rightarrow> policy_context policy_rule list" where
  "build_default_rules env =
     [builtin ''persona_tool_acl'' 110 (persona_tool_acl env),
      builtin ''tier_escalation'' 100 (tier_escalation env),
      builtin ''workspace_boundary'' 90 (workspace_boundary env),
      builtin ''bash_safety'' 80 (bash_safety env),
      builtin ''lark_cli_safety'' 80 (lark_cli_safety env),
      builtin ''network_safety'' 75 (network_safety env),
      builtin ''approval_required_list'' 70 (approval_required_list env),
      builtin ''persona_tier'' 15 (persona_tier env),
      builtin ''default_tier'' 10 (default_tier env)]"

end
