(* ===== verification/Policy_Safety.thy ===== *)
theory Policy_Safety
  imports Policy_Rules
begin

text \<open>
  What the built-in rules guarantee together, under the engine of \<open>Policy_Engine\<close>: refusals that hold whatever
  the profile says, what an allowed shell command looks like, how far \<open>api_request\<close> reaches, and that the
  boundary rule and the sandbox of the tools draw the same line. One theorem shows what a raised tier does to
  the refusals behind it.
\<close>

section \<open>The rules in their order\<close>

text \<open>What the rules contribute, in order.\<close>

definition rule_answers :: "policy_env \<Rightarrow> policy_context \<Rightarrow> answer list" where
  "rule_answers env ctx =
     [persona_tool_acl env ctx, tier_escalation env ctx, workspace_boundary env ctx, bash_safety env ctx,
      lark_cli_safety env ctx, network_safety env ctx, approval_required_list env ctx, persona_tier env ctx,
      default_tier env ctx]"

definition decision_of :: "answer \<Rightarrow> policy_decision option" where
  "decision_of a = (case a of Decided d \<Rightarrow> d | _ \<Rightarrow> None)"

lemma decision_of_simps [simp]:
  "decision_of abstain = None"
  "decision_of Raised = None"
  "decision_of (decide v i r m) = Some \<lparr>pd_verdict = v, pd_rule_id = i, pd_reason = r, pd_metadata = m\<rparr>"
  by (simp_all add: decision_of_def abstain_def decide_def)

lemma answer_not_NoDecision [simp]:
  "abstain \<noteq> NoDecision" "decide v i r m \<noteq> NoDecision"
  by (simp_all add: abstain_def decide_def)

lemma boundary_loop_decides: "boundary_loop env ctx w keys \<noteq> NoDecision"
  by (induction keys) (auto split: option.splits json.splits)

lemma bash_verdict_decides: "bash_verdict e c \<noteq> NoDecision"
  by (auto simp: bash_verdict_def Let_def split: option.splits)

lemma api_verdict_decides: "evaluate_api_request env ctx net \<noteq> NoDecision"
  by (auto simp: evaluate_api_request_def api_verdict_def network_deny_def split: option.splits)

lemma rules_decide:
  "persona_tool_acl env ctx \<noteq> NoDecision" "tier_escalation env ctx \<noteq> NoDecision"
  "workspace_boundary env ctx \<noteq> NoDecision" "bash_safety env ctx \<noteq> NoDecision"
  "lark_cli_safety env ctx \<noteq> NoDecision" "network_safety env ctx \<noteq> NoDecision"
  "approval_required_list env ctx \<noteq> NoDecision" "persona_tier env ctx \<noteq> NoDecision"
  "default_tier env ctx \<noteq> NoDecision"
proof -
  show "persona_tool_acl env ctx \<noteq> NoDecision"
    by (simp add: persona_tool_acl_def split: option.split clause.split)
  show "tier_escalation env ctx \<noteq> NoDecision" by (simp add: tier_escalation_def split: option.split)
  show "workspace_boundary env ctx \<noteq> NoDecision"
    by (simp add: workspace_boundary_def boundary_loop_decides split: resolution.split)
  show "bash_safety env ctx \<noteq> NoDecision" by (simp add: bash_safety_def bash_verdict_decides split: option.split)
  have "lark_verdict ts \<noteq> NoDecision" for ts by (simp add: lark_verdict_def split: option.split)
  then show "lark_cli_safety env ctx \<noteq> NoDecision" by (simp add: lark_cli_safety_def split: option.split json.split)
  show "network_safety env ctx \<noteq> NoDecision"
    by (simp add: network_safety_def Let_def api_verdict_decides network_deny_def)
  show "approval_required_list env ctx \<noteq> NoDecision" by (simp add: approval_required_list_def)
  show "persona_tier env ctx \<noteq> NoDecision" by (simp add: persona_tier_def split: option.split)
  have "tier_default t \<noteq> NoDecision" for t by (simp add: tier_default_def)
  then show "default_tier env ctx \<noteq> NoDecision" by (simp add: default_tier_def split: option.split)
qed

lemma default_rules_sorted [simp]: "engine_rules (build_default_rules env) = build_default_rules env"
  unfolding engine_rules_def by (rule sort_key_id_if_sorted) (simp add: build_default_rules_def builtin_def)

lemma contributions_builtin:
  "contributions ctx (map (\<lambda>(i, p, f). builtin i p f) rs) = List.map_filter decision_of (map (\<lambda>(i, p, f). f ctx) rs)"
  by (induction rs)
    (auto simp: contribution_def builtin_def decision_of_def POLICY_RULE_TIMEOUT_def seconds_def map_filter_simps
      split: answer.splits option.splits)

lemma contributions_default:
  "contributions ctx (build_default_rules env) = List.map_filter decision_of (rule_answers env ctx)"
  using contributions_builtin [of ctx
    "[(''persona_tool_acl'', 110, persona_tool_acl env), (''tier_escalation'', 100, tier_escalation env),
      (''workspace_boundary'', 90, workspace_boundary env), (''bash_safety'', 80, bash_safety env),
      (''lark_cli_safety'', 80, lark_cli_safety env), (''network_safety'', 75, network_safety env),
      (''approval_required_list'', 70, approval_required_list env), (''persona_tier'', 15, persona_tier env),
      (''default_tier'', 10, default_tier env)]"]
  by (simp add: build_default_rules_def rule_answers_def del: contributions_simps)

text \<open>The verdict of the default rules: the first refusal in the list, else the last allow.\<close>

fun settle :: "policy_decision \<Rightarrow> answer list \<Rightarrow> policy_decision" where
  "settle d [] = d"
| "settle d (a # as) =
     (case decision_of a of None \<Rightarrow> settle d as | Some e \<Rightarrow> if stops e then e else settle e as)"

lemma combine_settle: "combine d (List.map_filter decision_of as) = settle d as"
  by (induction as arbitrary: d) (auto simp: map_filter_simps combine_simps split: option.splits)

lemma evaluate_default: "evaluate (build_default_rules env) ctx = settle default_decision (rule_answers env ctx)"
proof -
  have "list_all (prompt_rule ctx) (build_default_rules env)"
    by (simp add: prompt_rule_def build_default_rules_def builtin_def rules_decide)
  from evaluate_prompt [OF this] show ?thesis by (simp add: contributions_default combine_settle)
qed

text \<open>A denial stands unless a rule before it asks for approval.\<close>

definition asks :: "answer \<Rightarrow> bool" where
  "asks a = (case decision_of a of None \<Rightarrow> False | Some d \<Rightarrow> pd_verdict d = RequireApproval)"

definition denies :: "answer \<Rightarrow> bool" where
  "denies a = (case decision_of a of None \<Rightarrow> False | Some d \<Rightarrow> pd_verdict d = Deny)"

lemma asks_denies_simps [simp]:
  "\<not> asks abstain" "\<not> asks Raised" "asks (decide v i r m) \<longleftrightarrow> v = RequireApproval"
  "\<not> denies abstain" "\<not> denies Raised" "denies (decide v i r m) \<longleftrightarrow> v = Deny"
  by (simp_all add: asks_def denies_def)

lemma settle_denied: "\<not> list_ex asks pre \<Longrightarrow> denies a \<Longrightarrow> pd_verdict (settle d (pre @ a # post)) = Deny"
  by (induction pre arbitrary: d) (auto simp: asks_def denies_def stops_def split: option.splits)

lemma settle_allowed: "pd_verdict (settle d as) = Allow \<Longrightarrow> a \<in> set as \<Longrightarrow> \<not> asks a \<and> \<not> denies a"
  by (induction as arbitrary: d) (auto simp: asks_def denies_def stops_def split: option.splits if_splits)

lemma allowed_answer:
  assumes "pd_verdict (evaluate (build_default_rules env) ctx) = Allow" and "a \<in> set (rule_answers env ctx)"
  shows "\<not> asks a \<and> \<not> denies a"
  using assms unfolding evaluate_default by (rule settle_allowed)

lemma never_asks:
  "\<not> asks (persona_tool_acl env ctx)" "\<not> asks (workspace_boundary env ctx)" "\<not> asks (boundary_loop env ctx w keys)"
proof -
  show loop: "\<not> asks (boundary_loop env ctx w keys)" for w keys
    by (induction keys) (auto split: option.splits json.splits)
  show "\<not> asks (workspace_boundary env ctx)"
    by (auto simp: workspace_boundary_def loop split: resolution.splits)
  show "\<not> asks (persona_tool_acl env ctx)"
    by (auto simp: persona_tool_acl_def split: option.splits clause.splits)
qed

section \<open>Refusals\<close>

text \<open>
  A persona's list of tools is binding: when the persona's lists exclude a tool, the verdict is a denial by
  \<open>persona_tool_acl\<close>, whatever the edict, its profile and the other rules say.
\<close>

theorem persona_lists_are_binding:
  assumes "pv_persona env = Some p"
    and "persona_tool_verdict p (px_tool_name ctx) (tier_value (px_tool_tier ctx)) \<in> {Some ClauseDenied, Some ClauseNotAllowed}"
  shows "pd_verdict (evaluate (build_default_rules env) ctx) = Deny \<and>
    pd_rule_id (evaluate (build_default_rules env) ctx) = ''persona_tool_acl''"
  using assms
  by (auto simp: evaluate_default rule_answers_def persona_tool_acl_def persona_clause_def stops_def)

lemma denied_pair_Some:
  assumes "c \<in> set cs" and "needle \<in> set BASH_DENYLIST_SUBSTRINGS" and "contains (lower c) needle"
  shows "\<exists>p. denied_pair cs = Some p"
proof -
  have "(c, needle) \<in> set (concat (map (\<lambda>c. map (Pair c) BASH_DENYLIST_SUBSTRINGS) cs))" using assms(1,2) by auto
  with assms(3) show ?thesis unfolding denied_pair_def by (metis (mono_tags, lifting) case_prodI find_None_iff not_None_eq)
qed

lemma bash_verdict_denies:
  assumes "c = command \<or> c \<in> set (split_unquoted_segments command)"
    and "needle \<in> set BASH_DENYLIST_SUBSTRINGS" and "contains (lower c) needle"
  shows "denies (bash_verdict e command)"
proof -
  have "c \<in> set (command # checked_segments command)"
    using assms(1) by (auto simp: checked_segments_def analyze_command_def Let_def)
  from denied_pair_Some [OF this assms(2,3)] obtain x y where "denied_pair (command # checked_segments command) = Some (x, y)" by fastforce
  then show ?thesis by (simp add: bash_verdict_def Let_def)
qed

text \<open>The answers before the shell rule never ask for approval when the tier is not raised.\<close>

lemma default_denied_by_boundary:
  assumes "\<not> asks (tier_escalation env ctx)" and "denies (workspace_boundary env ctx)"
  shows "pd_verdict (evaluate (build_default_rules env) ctx) = Deny"
  using settle_denied [of "[persona_tool_acl env ctx, tier_escalation env ctx]", OF _ assms(2)] assms(1)
  by (simp add: evaluate_default rule_answers_def never_asks del: settle.simps)

lemma default_denied_by_bash:
  assumes "\<not> asks (tier_escalation env ctx)" and "denies (bash_safety env ctx)"
  shows "pd_verdict (evaluate (build_default_rules env) ctx) = Deny"
  using settle_denied [of "[persona_tool_acl env ctx, tier_escalation env ctx, workspace_boundary env ctx]", OF _ assms(2)] assms(1)
  by (simp add: evaluate_default rule_answers_def never_asks del: settle.simps)

lemma no_escalation_T4: "px_tool_tier ctx = T4_DANGEROUS \<Longrightarrow> \<not> asks (tier_escalation env ctx)"
  by (auto simp: tier_escalation_def split: option.splits)

lemma bash_safety_denies:
  assumes "px_tool_name ctx \<in> {''shell_exec'', ''bash''}" and "str_arg (px_args ctx) ''command'' '''' = Some c"
    and "part = strip c \<or> part \<in> set (split_unquoted_segments (strip c))"
    and "needle \<in> set BASH_DENYLIST_SUBSTRINGS" and "contains (lower part) needle"
  shows "denies (bash_safety env ctx)"
proof -
  have "part \<noteq> []"
  proof
    assume "part = []"
    with assms(5) have "needle = []" by (simp add: contains_def lower_def)
    with assms(4) show False by (simp add: BASH_DENYLIST_SUBSTRINGS_def)
  qed
  moreover have "split_unquoted_segments [] = []" by (simp add: split_unquoted_segments_def flush_def strip_def lstrip_def rstrip_def)
  ultimately have "strip c \<noteq> []" using assms(3) by (metis emptyE list.set(1))
  with assms(1,2) bash_verdict_denies [OF assms(3-5)] show ?thesis
    by (auto simp: bash_safety_def BASH_TOOL_NAMES_def)
qed

text \<open>
  A command of the deny list is denied, whatever the persona, the profile and the other rules say: when a
  deny-listed text occurs, in any case, in the command of a shell tool of the highest tier or in one of its
  segments, the verdict is a denial.
\<close>

theorem denylisted_command_denied:
  assumes "px_tool_name ctx \<in> {''shell_exec'', ''bash''}" and "px_tool_tier ctx = T4_DANGEROUS"
    and "str_arg (px_args ctx) ''command'' '''' = Some c"
    and "part = strip c \<or> part \<in> set (split_unquoted_segments (strip c))"
    and "needle \<in> set BASH_DENYLIST_SUBSTRINGS" and "contains (lower part) needle"
  shows "pd_verdict (evaluate (build_default_rules env) ctx) = Deny"
proof (rule default_denied_by_bash)
  show "\<not> asks (tier_escalation env ctx)" using assms(2) by (rule no_escalation_T4)
  show "denies (bash_safety env ctx)" by (rule bash_safety_denies [OF assms(1,3-6)])
qed

section \<open>What a raised tier hides\<close>

text \<open>
  A tier override hides the refusals behind it: when the edict raises the tier of a tool (and the persona's
  lists do not exclude it), the verdict is a request for approval by \<open>tier_escalation\<close>, even where the
  boundary rule or the shell rule denies the call.
\<close>

theorem raised_tier_hides_denials:
  assumes "map_of (rt_tier_overrides (pe_runtime (px_edict ctx))) (px_tool_name ctx) = Some v"
    and "tool_tier v = Some t" and "px_tool_tier ctx < t"
    and "persona_clause env ctx \<in> {None, Some ClauseTierExceeded}"
  shows "pd_verdict (evaluate (build_default_rules env) ctx) = RequireApproval \<and>
    pd_rule_id (evaluate (build_default_rules env) ctx) = ''tier_escalation''"
proof -
  have "persona_tool_acl env ctx = abstain" using assms(4) by (auto simp: persona_tool_acl_def split: option.splits)
  moreover have "\<not> t \<le> px_tool_tier ctx" using assms(3) by simp
  ultimately show ?thesis using assms(1,2)
    by (simp add: evaluate_default rule_answers_def tier_escalation_def stops_def)
qed

section \<open>An allowed shell command\<close>

lemma denied_pair_None:
  "denied_pair cs = None \<longleftrightarrow> (\<forall>c \<in> set cs. \<forall>needle \<in> set BASH_DENYLIST_SUBSTRINGS. \<not> contains (lower c) needle)"
  by (auto simp: denied_pair_def find_None_iff)

lemma bash_verdict_allows:
  assumes "\<not> asks (bash_verdict e command)" and "\<not> denies (bash_verdict e command)"
  shows "denied_pair (command # checked_segments command) = None"
    and "\<not> has_structural_risk (analyze_command command)"
    and "list_all (\<lambda>seg. list_ex (\<lambda>p. prefix p seg) (profile_prefixes e)) (checked_segments command)"
  using assms unfolding bash_verdict_def Let_def
  by (auto split: option.split_asm prod.split_asm if_split_asm)

text \<open>
  C37: An allowed shell command is made of allowed commands: when the verdict on a shell tool with a non-empty command
  is to allow it, every segment of the command starts with a prefix of the edict's profile and carries no live
  separator, ampersand, backtick or angle bracket; no dollar sign expands a command; and no deny-listed text
  occurs in it.
\<close>

theorem allowed_command_is_covered:
  assumes "px_tool_name ctx \<in> {''shell_exec'', ''bash''}"
    and "str_arg (px_args ctx) ''command'' '''' = Some c" and "strip c \<noteq> []"
    and "pd_verdict (evaluate (build_default_rules env) ctx) = Allow"
  shows "(\<forall>seg \<in> set (split_unquoted_segments (strip c)).
            (\<exists>p \<in> set (profile_prefixes (px_edict ctx)). prefix p seg) \<and>
            live seg \<inter> set (''&;|<>'' @ [CHR 0x0A, CHR 0x60]) = {}) \<and>
    (\<forall>p \<in> set (pairs start (strip c)). \<not> substitutes p) \<and>
    (\<forall>needle \<in> set BASH_DENYLIST_SUBSTRINGS. \<not> contains (lower (strip c)) needle)"
proof -
  have bash: "bash_safety env ctx = bash_verdict (px_edict ctx) (strip c)"
    using assms(1-3) by (auto simp: bash_safety_def BASH_TOOL_NAMES_def)
  have quiet: "\<not> asks (bash_verdict (px_edict ctx) (strip c))" "\<not> denies (bash_verdict (px_edict ctx) (strip c))"
    using allowed_answer [OF assms(4), of "bash_safety env ctx"] by (simp_all add: rule_answers_def bash)
  note ok = bash_verdict_allows [OF quiet]
  from ok(2) have risk: "\<not> has_unquoted_single_ampersand (strip c)" "live (strip c) \<inter> {CHR 0x60, CHR ''>'', CHR ''<''} = {}"
    "\<not> (\<exists>p \<in> set (pairs start (strip c)). substitutes p)"
    using structural_risk_iff [of "strip c"] by auto
  have "live seg \<inter> set (''&;|<>'' @ [CHR 0x0A, CHR 0x60]) = {}" if "seg \<in> set (split_unquoted_segments (strip c))" for seg
    using ampersand_free [OF risk(1) that] segment_not_live [OF that] live_segment [OF that] risk(2)
    by (auto simp: separators_def)
  moreover have "set (split_unquoted_segments (strip c)) \<subseteq> set (checked_segments (strip c))"
    by (simp add: checked_segments_def analyze_command_def Let_def)
  ultimately show ?thesis using ok(1,3) risk(3) by (auto simp: list_all_iff list_ex_iff denied_pair_None)
qed

section \<open>How far api requests reach\<close>

text \<open>
  \<open>api_request\<close> reaches only what the edict lists: unless the call is denied, the edict runs under the template
  for trusted automation, the host is one of its hosts, and a call by a writing method needs an approval and a host
  of the write list; any other method is \<open>GET\<close> or \<open>HEAD\<close>.
\<close>

theorem api_request_confined:
  assumes "px_tool_name ctx = ''api_request''" and "\<not> asks (tier_escalation env ctx)"
    and "str_arg (px_args ctx) ''url'' '''' = Some url" and "str_arg (px_args ctx) ''method'' ''GET'' = Some m"
    and "hostname (pv_netloc_ok env) url = Some host"
    and "pd_verdict (evaluate (build_default_rules env) ctx) \<noteq> Deny"
  shows "template_of (px_edict ctx) = Some ''trusted-automation'' \<and>
    host \<in> set (rt_api_request_hosts (pe_runtime (px_edict ctx))) \<and>
    (if upper m \<in> {''POST'', ''PUT'', ''DELETE'', ''PATCH''}
     then host \<in> set (rt_api_request_write_hosts (pe_runtime (px_edict ctx))) \<and>
          pd_verdict (evaluate (build_default_rules env) ctx) = RequireApproval
     else upper m \<in> {''GET'', ''HEAD''})"
proof -
  let ?net = "resolve_network_for_edict (pv_overrides env) (px_edict ctx)"
  let ?v = "api_verdict ?net (pe_runtime (px_edict ctx)) host (upper m)"
  have others: "bash_safety env ctx = abstain" "lark_cli_safety env ctx = abstain"
    using assms(1) by (simp_all add: bash_safety_def BASH_TOOL_NAMES_def lark_cli_safety_def)
  have nd: "\<not> denies (network_safety env ctx)"
    using settle_denied [of "[persona_tool_acl env ctx, tier_escalation env ctx, workspace_boundary env ctx, abstain, abstain]"
        "network_safety env ctx"] assms(2,6) others
    by (auto simp: evaluate_default rule_answers_def never_asks simp del: settle.simps)
  have eq: "network_safety env ctx = evaluate_api_request env ctx ?net"
    using assms(1) by (simp add: network_safety_def)
  have allow: "np_allow_api_request ?net"
  proof (rule ccontr)
    assume "\<not> np_allow_api_request ?net"
    with eq nd show False by (simp add: evaluate_api_request_def network_deny_def)
  qed
  with eq assms(3-5) have eq2: "network_safety env ctx = ?v" by (simp add: evaluate_api_request_def)
  from allow have tm: "template_of (px_edict ctx) = Some ''trusted-automation''" "np_api_request_methods ?net = [''GET'', ''HEAD'']"
    using api_request_template unfolding resolve_network_api by blast+
  have host: "host \<in> set (rt_api_request_hosts (pe_runtime (px_edict ctx)))"
    using nd unfolding eq2 by (auto simp: api_verdict_def network_deny_def split: if_split_asm)
  show ?thesis
  proof (cases "upper m \<in> {''POST'', ''PUT'', ''DELETE'', ''PATCH''}")
    case True
    then have w: "upper m \<in> set WRITE_METHODS" by (simp add: WRITE_METHODS_def)
    with nd host have "host \<in> set (rt_api_request_write_hosts (pe_runtime (px_edict ctx)))" "asks ?v"
      unfolding eq2 by (auto simp: api_verdict_def network_deny_def split: if_split_asm)
    moreover have "pd_verdict (evaluate (build_default_rules env) ctx) \<noteq> Allow"
      using allowed_answer [of env ctx ?v] \<open>asks ?v\<close> by (auto simp: rule_answers_def eq2)
    ultimately show ?thesis using tm(1) host True assms(6) by (cases "pd_verdict (evaluate (build_default_rules env) ctx)") auto
  next
    case False
    then have w: "upper m \<notin> set WRITE_METHODS" by (simp add: WRITE_METHODS_def)
    with nd host tm(2) have "upper m \<in> {''GET'', ''HEAD''}"
      unfolding eq2 by (auto simp: api_verdict_def network_deny_def split: if_split_asm)
    with False tm(1) host show ?thesis by auto
  qed
qed

section \<open>The boundary rule and the sandbox draw the same line\<close>

text \<open>What \<open>Path.resolve\<close> gives: an absolute path whose components are non-empty and have no slash.\<close>

definition canonical_path :: "path \<Rightarrow> bool" where
  "canonical_path p = (p \<noteq> [] \<and> hd p = ''/'' \<and> list_all (\<lambda>c. c \<noteq> [] \<and> CHR ''/'' \<notin> set c) (tl p))"

lemma inside_iff:
  assumes "canonical_path w" and "canonical_path r" and "w \<noteq> [''/'']"
  shows "(r = w \<or> prefix (path_str w @ ''/'') (path_str r)) \<longleftrightarrow> is_relative_to r w"
proof -
  obtain ws where ws: "w = ''/'' # ws" "\<forall>x \<in> set ws. CHR ''/'' \<notin> set x" "ws \<noteq> []"
    using assms(1,3) by (cases w) (auto simp: canonical_path_def list_all_iff)
  obtain rs where rs: "r = ''/'' # rs" "\<forall>x \<in> set rs. CHR ''/'' \<notin> set x"
    using assms(2) by (cases r) (auto simp: canonical_path_def list_all_iff)
  have "prefix (join_with (CHR ''/'') ws @ [CHR ''/'']) (join_with (CHR ''/'') rs) \<longleftrightarrow> strict_prefix ws rs"
    using ws rs by (intro join_prefix_iff) auto
  then show ?thesis
    by (auto simp: ws(1) rs(1) path_str_def is_absolute_def is_relative_to_def strict_prefix_def)
qed

text \<open>The arguments of a call that the rule takes for paths.\<close>

definition path_arg :: "args \<Rightarrow> string \<Rightarrow> string option" where
  "path_arg args key =
     (case map_of args key of Some (JStr raw) \<Rightarrow> (if raw = [] then None else Some raw) | _ \<Rightarrow> None)"

definition path_args :: "args \<Rightarrow> string list" where
  "path_args args = List.map_filter (path_arg args) PATH_ARG_KEYS"

lemma boundary_loop_denies:
  assumes w: "canonical_path w" "w \<noteq> [''/'']" "pv_resolve env w = Resolved w"
    and res: "\<And>raw. raw \<in> set (List.map_filter (path_arg (px_args ctx)) keys) \<Longrightarrow>
        \<exists>r. pv_resolve env (path_join w (parse_path raw)) = Resolved r \<and> canonical_path r"
  shows "denies (boundary_loop env ctx w keys) \<longleftrightarrow>
    (\<exists>raw \<in> set (List.map_filter (path_arg (px_args ctx)) keys).
       \<exists>err. safe_path (pv_resolve env) (Some (px_edict ctx)) w raw = Inl err)"
  using res
proof (induction keys)
  case Nil
  then show ?case by (simp add: map_filter_simps)
next
  case (Cons k keys)
  show ?case
  proof (cases "\<exists>raw. map_of (px_args ctx) k = Some (JStr raw) \<and> raw \<noteq> []")
    case False
    have "boundary_loop env ctx w (k # keys) = boundary_loop env ctx w keys"
      using False by (auto split: option.splits json.splits)
    moreover have "path_arg (px_args ctx) k = None"
      using False by (auto simp: path_arg_def split: option.splits json.splits)
    ultimately show ?thesis using Cons by (simp add: map_filter_simps del: boundary_loop.simps)
  next
    case True
    then obtain raw where raw: "map_of (px_args ctx) k = Some (JStr raw)" "raw \<noteq> []" by blast
    then have arg: "path_arg (px_args ctx) k = Some raw" by (simp add: path_arg_def)
    obtain r where r: "pv_resolve env (path_join w (parse_path raw)) = Resolved r" "canonical_path r"
      using Cons.prems [of raw] arg by (auto simp: map_filter_simps)
    have IH: "denies (boundary_loop env ctx w keys) \<longleftrightarrow>
        (\<exists>raw \<in> set (List.map_filter (path_arg (px_args ctx)) keys).
       \<exists>err. safe_path (pv_resolve env) (Some (px_edict ctx)) w raw = Inl err)"
      using Cons.prems arg by (intro Cons.IH) (simp add: map_filter_simps)
    have sp: "(\<exists>err. safe_path (pv_resolve env) (Some (px_edict ctx)) w raw = Inl err) \<longleftrightarrow>
        is_sensitive_path r \<or> \<not> is_relative_to r w \<and> \<not> path_allowed_outside r (profile_globs (px_edict ctx))"
      using inside_iff [OF w(1) r(2) w(2)]
      by (auto simp: safe_path_def r(1) w(3) ambient_allowed_globs_def)
    show ?thesis
      using raw IH sp by (simp add: arg map_filter_simps resolve_arg_def r(1))
  qed
qed

text \<open>
  The two walls around the workspace agree: for path arguments that resolve, the boundary rule denies a call
  exactly when one of them is refused by the sandbox \<open>safe_path\<close> the tools call, for every workspace but the root
  directory.
\<close>

theorem boundary_matches_sandbox:
  assumes "pv_resolve env (parse_path (px_workspace_root ctx)) = Resolved w" and "pv_resolve env w = Resolved w"
    and "canonical_path w" and "w \<noteq> [''/'']"
    and "\<And>raw. raw \<in> set (path_args (px_args ctx)) \<Longrightarrow>
      \<exists>r. pv_resolve env (path_join w (parse_path raw)) = Resolved r \<and> canonical_path r"
  shows "denies (workspace_boundary env ctx) \<longleftrightarrow>
    (\<exists>raw \<in> set (path_args (px_args ctx)). \<exists>err. safe_path (pv_resolve env) (Some (px_edict ctx)) w raw = Inl err)"
  using boundary_loop_denies [OF assms(3,4,2), where ctx = ctx and keys = PATH_ARG_KEYS] assms(1,5)
  by (simp add: workspace_boundary_def path_args_def)

section \<open>The theorems on concrete calls\<close>

definition demo_resolve :: "path \<Rightarrow> resolution" where
  "demo_resolve p = Resolved (''/'' # filter (\<lambda>c. c \<noteq> [] \<and> CHR ''/'' \<notin> set c) p)"

definition demo_persona :: persona where
  "demo_persona = \<lparr>ps_id = ''hanlin'', ps_tools_allowed = [''read_*''], ps_tools_denied = [], ps_tool_tier_max = 2\<rparr>"

definition demo_env :: "persona option \<Rightarrow> policy_env" where
  "demo_env p = \<lparr>pv_persona = p, pv_overrides = no_overrides, pv_resolve = demo_resolve, pv_netloc_ok = (\<lambda>_. True)\<rparr>"

definition demo_payload :: profile_payload where
  "demo_payload = \<lparr>pl_allowed_paths = [], pl_bash_prefixes = [''git ''], pl_tier_overrides = [], pl_auto_approve_max_tier = 4,
     pl_expires_after_seconds = None, pl_template_name = Some ''trusted-automation''\<rparr>"

definition demo_policy_edict :: "(string \<times> int) list \<Rightarrow> policy_edict" where
  "demo_policy_edict ov = \<lparr>pe_id = ''e1'', pe_runtime = \<lparr>rt_approval_required_tools = [], rt_policy_profile = Some demo_payload,
     rt_tier_overrides = ov, rt_api_request_hosts = [''api.example''], rt_api_request_write_hosts = []\<rparr>\<rparr>"

definition demo_call :: "string \<Rightarrow> tool_tier \<Rightarrow> args \<Rightarrow> (string \<times> int) list \<Rightarrow> policy_context" where
  "demo_call tool tier args ov = \<lparr>px_tool_name = tool, px_tool_tier = tier, px_args = args, px_edict = demo_policy_edict ov,
     px_memorial = Some ''m1'', px_workspace_root = ''/w'', px_iteration = 1\<rparr>"

lemmas demo_simps = demo_env_def demo_payload_def demo_policy_edict_def demo_call_def

theorem persona_lists_are_binding_witness:
  "pd_verdict (evaluate (build_default_rules (demo_env (Some demo_persona))) (demo_call ''edit_file'' T1_WORKSPACE [] [])) = Deny"
proof -
  have "pv_persona (demo_env (Some demo_persona)) = Some demo_persona" by (simp add: demo_env_def)
  moreover have "persona_tool_verdict demo_persona (px_tool_name (demo_call ''edit_file'' T1_WORKSPACE [] []))
      (tier_value (px_tool_tier (demo_call ''edit_file'' T1_WORKSPACE [] []))) \<in> {Some ClauseDenied, Some ClauseNotAllowed}"
    by code_simp
  ultimately show ?thesis using persona_lists_are_binding by blast
qed

theorem denylisted_command_denied_witness:
  "pd_verdict (evaluate (build_default_rules (demo_env None))
     (demo_call ''shell_exec'' T4_DANGEROUS [(''command'', JStr ''git log; SUDO rm x'')] [])) = Deny"
proof (rule denylisted_command_denied)
  let ?c = "demo_call ''shell_exec'' T4_DANGEROUS [(''command'', JStr ''git log; SUDO rm x'')] []"
  show "px_tool_name ?c \<in> {''shell_exec'', ''bash''}" "px_tool_tier ?c = T4_DANGEROUS" by (simp_all add: demo_call_def)
  show "str_arg (px_args ?c) ''command'' '''' = Some ''git log; SUDO rm x''" by (simp add: demo_call_def str_arg_def)
  show "''SUDO rm x'' = strip ''git log; SUDO rm x'' \<or> ''SUDO rm x'' \<in> set (split_unquoted_segments (strip ''git log; SUDO rm x''))"
    by code_simp
  show "''sudo '' \<in> set BASH_DENYLIST_SUBSTRINGS" by code_simp
  show "contains (lower ''SUDO rm x'') ''sudo ''" by code_simp
qed

theorem raised_tier_hides_denials_witness:
  "pd_verdict (evaluate (build_default_rules (demo_env None))
     (demo_call ''edit_file'' T1_WORKSPACE [(''path'', JStr ''/etc/passwd'')] [])) = Deny \<and>
   pd_verdict (evaluate (build_default_rules (demo_env None))
     (demo_call ''edit_file'' T1_WORKSPACE [(''path'', JStr ''/etc/passwd'')] [(''edit_file'', 3)])) = RequireApproval"
proof
  show "pd_verdict (evaluate (build_default_rules (demo_env None))
     (demo_call ''edit_file'' T1_WORKSPACE [(''path'', JStr ''/etc/passwd'')] [])) = Deny" by code_simp
  let ?c = "demo_call ''edit_file'' T1_WORKSPACE [(''path'', JStr ''/etc/passwd'')] [(''edit_file'', 3)]"
  have "map_of (rt_tier_overrides (pe_runtime (px_edict ?c))) (px_tool_name ?c) = Some 3" by (simp add: demo_simps)
  moreover have "tool_tier 3 = Some T3_WRITE" by code_simp
  moreover have "px_tool_tier ?c < T3_WRITE" by (simp add: demo_call_def less_tool_tier_def)
  moreover have "persona_clause (demo_env None) ?c \<in> {None, Some ClauseTierExceeded}" by (simp add: persona_clause_def demo_env_def)
  ultimately show "pd_verdict (evaluate (build_default_rules (demo_env None)) ?c) = RequireApproval"
    using raised_tier_hides_denials by blast
qed

theorem allowed_command_is_covered_witness:
  "pd_verdict (evaluate (build_default_rules (demo_env None))
     (demo_call ''shell_exec'' T4_DANGEROUS [(''command'', JStr ''git log && git diff'')] [])) = Allow \<and>
   live ''git diff'' \<inter> set (''&;|<>'' @ [CHR 0x0A, CHR 0x60]) = {}"
proof -
  let ?c = "demo_call ''shell_exec'' T4_DANGEROUS [(''command'', JStr ''git log && git diff'')] []"
  have v: "pd_verdict (evaluate (build_default_rules (demo_env None)) ?c) = Allow" by code_simp
  have "px_tool_name ?c \<in> {''shell_exec'', ''bash''}" by (simp add: demo_call_def)
  moreover have "str_arg (px_args ?c) ''command'' '''' = Some ''git log && git diff''" by (simp add: demo_call_def str_arg_def)
  moreover have "strip ''git log && git diff'' \<noteq> []" by code_simp
  moreover have "''git diff'' \<in> set (split_unquoted_segments (strip ''git log && git diff''))" by code_simp
  ultimately show ?thesis using allowed_command_is_covered [of ?c _ "demo_env None"] v by blast
qed

theorem api_request_confined_witness:
  "pd_verdict (evaluate (build_default_rules (demo_env None))
     (demo_call ''api_request'' T2_NETWORK [(''url'', JStr ''https://API.example:443/v1'')] [])) = Allow \<and>
   ''api.example'' \<in> set (rt_api_request_hosts (pe_runtime (demo_policy_edict [])))"
proof -
  let ?c = "demo_call ''api_request'' T2_NETWORK [(''url'', JStr ''https://API.example:443/v1'')] []"
  have v: "pd_verdict (evaluate (build_default_rules (demo_env None)) ?c) = Allow" by code_simp
  have "px_tool_name ?c = ''api_request''" by (simp add: demo_call_def)
  moreover have "\<not> asks (tier_escalation (demo_env None) ?c)" by code_simp
  moreover have "str_arg (px_args ?c) ''url'' '''' = Some ''https://API.example:443/v1''"
    "str_arg (px_args ?c) ''method'' ''GET'' = Some ''GET''" by (simp_all add: demo_call_def str_arg_def)
  moreover have "hostname (pv_netloc_ok (demo_env None)) ''https://API.example:443/v1'' = Some ''api.example''" by code_simp
  ultimately have "''api.example'' \<in> set (rt_api_request_hosts (pe_runtime (px_edict ?c)))"
    using api_request_confined v by (metis verdict.distinct(1))
  with v show ?thesis by (simp add: demo_call_def)
qed

theorem boundary_matches_sandbox_witness:
  "denies (workspace_boundary (demo_env None) (demo_call ''edit_file'' T1_WORKSPACE [(''path'', JStr ''/etc/passwd'')] []))"
proof -
  let ?c = "demo_call ''edit_file'' T1_WORKSPACE [(''path'', JStr ''/etc/passwd'')] []" and ?e = "demo_env None"
  have r: "pv_resolve ?e (parse_path (px_workspace_root ?c)) = Resolved [''/'', ''w'']"
    "pv_resolve ?e [''/'', ''w''] = Resolved [''/'', ''w'']" "canonical_path [''/'', ''w'']" by code_simp+
  have "canonical_path r" if "pv_resolve ?e p = Resolved r" for p r
    using that by (auto simp: demo_env_def demo_resolve_def canonical_path_def list_all_iff)
  moreover have "\<exists>r. pv_resolve ?e p = Resolved r" for p by (simp add: demo_env_def demo_resolve_def)
  ultimately have all: "\<exists>r. pv_resolve ?e (path_join [''/'', ''w''] (parse_path raw)) = Resolved r \<and> canonical_path r" for raw
    by blast
  have "''/etc/passwd'' \<in> set (path_args (px_args ?c))" by code_simp
  moreover have "safe_path (pv_resolve ?e) (Some (px_edict ?c)) [''/'', ''w''] ''/etc/passwd'' = Inl OutsideOfWorkspace" by code_simp
  ultimately show ?thesis using boundary_matches_sandbox [OF r(1-3) _ all] by (metis list.discI list.inject)
qed

definition git_log_call :: policy_context where
  "git_log_call = demo_call ''shell_exec'' T4_DANGEROUS [(''command'', JStr ''git log'')] []"

theorem allow_needs_every_rule_witness:
  "pd_verdict (evaluate (build_default_rules (demo_env None)) git_log_call) = Allow \<and>
   (\<exists>d. contribution git_log_call (build_default_rules (demo_env None) ! 3) = Some d \<and> pd_verdict d = Allow)"
proof -
  let ?rules = "build_default_rules (demo_env None)"
  have v: "pd_verdict (evaluate ?rules git_log_call) = Allow" by code_simp
  have m: "?rules ! 3 \<in> set ?rules" by (simp add: build_default_rules_def)
  have "contribution git_log_call (?rules ! 3) \<noteq> None" by code_simp
  then obtain d where "contribution git_log_call (?rules ! 3) = Some d" by blast
  with allow_needs_every_rule [OF v m this] v show ?thesis by blast
qed

theorem evaluate_by_priority_witness:
  "mset (engine_rules (build_default_rules (demo_env None))) = mset (build_default_rules (demo_env None)) \<and>
   pd_verdict (evaluate (build_default_rules (demo_env None)) git_log_call) = Allow"
proof -
  have p: "list_all (prompt_rule git_log_call) (build_default_rules (demo_env None))"
    by (simp add: prompt_rule_def build_default_rules_def builtin_def rules_decide)
  have "pd_verdict (evaluate (build_default_rules (demo_env None)) git_log_call) = Allow" by code_simp
  then show ?thesis by (rule conjI [OF conjunct1 [OF conjunct2 [OF evaluate_by_priority [OF p]]]])
qed

end
