(* ===== verification/Session_Rules.thy ===== *)
theory Session_Rules
  imports Policy_Profile
begin

text \<open>
  \<open>tools/policy_store.py\<close> and the expansion of \<open>tools/policy_profile.py\<close>: session rules, the fingerprints of a
  call's arguments, the in-memory, SQLite and composite stores, and the rules a profile is turned into. The
  locale \<open>session_rule_store\<close> is the contract a client of a store relies on; the three stores are its
  interpretations. SHA-1 is the parameter \<open>sha\<close> (bytes to hexadecimal), \<open>now\<close> is the clock and \<open>ids\<close> gives
  the fresh rule ids. Timestamps are compared as texts by SQLite; ISO texts in UTC order as the instants do.
\<close>

section \<open>Session rules\<close>

datatype rule_scope = ScopeEdict | ScopeAlways

datatype rule_source = SourceApproval | SourceProfile | SourceManual

text \<open>A reason is a text given by the caller, or one of the two messages of the expansion with its values.\<close>

datatype rule_reason = ReasonText string | ByProfile "string option" | ByPrefix string "string option"

record session_rule =
  sr_id :: string
  sr_tool :: string
  sr_fingerprint :: string
  sr_scope :: rule_scope
  sr_edict :: "string option"
  sr_granted_at :: instant
  sr_decree :: "string option"
  sr_source :: rule_source
  sr_reason :: rule_reason
  sr_expires_at :: "instant option"

section \<open>Fingerprints\<close>

text \<open>\<open>None\<close> is the exception of a value that is not a string.\<close>

definition fingerprint_edit_file :: "args \<Rightarrow> string option" where
  "fingerprint_edit_file args =
     (case str_arg args ''path'' [] of
        None \<Rightarrow> None
      | Some p \<Rightarrow>
          map_option (\<lambda>q. ''dir:'' @ (if dirname q = [] then ''.'' else dirname q))
            (if p \<noteq> [] then Some p else str_arg args ''file_path'' []))"

definition fingerprint_bash :: "args \<Rightarrow> string option" where
  "fingerprint_bash args =
     map_option (\<lambda>cmd. ''bash:'' @ join_sp (take 2 (split_ws (strip cmd)))) (str_arg args ''command'' [])"

definition fingerprint_memory :: "args \<Rightarrow> string" where
  "fingerprint_memory args =
     ''memory:'' @ join_with (CHR '','') (sort (filter (\<lambda>k. k \<notin> {''value'', ''content''}) (map fst args)))"

definition fingerprint_default :: "(string \<Rightarrow> string) \<Rightarrow> args \<Rightarrow> string" where
  "fingerprint_default sha args = ''hash:'' @ take 16 (sha (utf8 (dumps_default (JObj args))))"

definition compute_fingerprint :: "(string \<Rightarrow> string) \<Rightarrow> string \<Rightarrow> args \<Rightarrow> string option" where
  "compute_fingerprint sha tool args =
     (if tool \<in> {''edit_file'', ''write_file''} then fingerprint_edit_file args
      else if tool \<in> {''shell_exec'', ''bash''} then fingerprint_bash args
      else if prefix ''memory_'' tool then Some (fingerprint_memory args)
      else Some (fingerprint_default sha args))"

section \<open>The in-memory store\<close>

type_synonym memory_store = "(string \<times> session_rule) list"

definition mem_create :: "session_rule \<Rightarrow> memory_store \<Rightarrow> memory_store" where
  "mem_create rule rules = dict_set (sr_id rule) rule rules"

definition mem_applies :: "instant \<Rightarrow> string \<Rightarrow> string \<Rightarrow> string option \<Rightarrow> session_rule \<Rightarrow> bool" where
  "mem_applies now tool fp edict rule =
     (sr_tool rule = tool \<and> (sr_fingerprint rule = ''*'' \<or> sr_fingerprint rule = fp) \<and>
      \<not> (sr_scope rule = ScopeEdict \<and> sr_edict rule \<noteq> edict) \<and>
      (case sr_expires_at rule of None \<Rightarrow> True | Some t \<Rightarrow> \<not> t < now))"

definition mem_find :: "instant \<Rightarrow> string \<Rightarrow> string \<Rightarrow> string option \<Rightarrow> memory_store \<Rightarrow> session_rule option" where
  "mem_find now tool fp edict rules = find (mem_applies now tool fp edict) (map snd rules)"

definition mem_list_by_scope :: "rule_scope \<Rightarrow> string option \<Rightarrow> memory_store \<Rightarrow> session_rule list" where
  "mem_list_by_scope scope edict rules =
     filter (\<lambda>r. sr_scope r = scope \<and> (edict = None \<or> sr_edict r = edict)) (map snd rules)"

definition mem_revoke :: "string \<Rightarrow> memory_store \<Rightarrow> memory_store" where
  "mem_revoke rule_id rules = filter (\<lambda>(k, _). k \<noteq> rule_id) rules"

definition mem_clear_edict :: "string \<Rightarrow> memory_store \<Rightarrow> memory_store" where
  "mem_clear_edict edict rules = filter (\<lambda>(_, r). sr_edict r \<noteq> Some edict) rules"

section \<open>The SQLite store\<close>

type_synonym sqlite_store = "session_rule list"

text \<open>\<open>INSERT OR REPLACE\<close>: a row of the same primary key is deleted first.\<close>

definition sql_create :: "session_rule \<Rightarrow> sqlite_store \<Rightarrow> sqlite_store" where
  "sql_create rule rows = filter (\<lambda>r. sr_id r \<noteq> sr_id rule) rows @ [rule]"

definition sql_applies :: "instant \<Rightarrow> string \<Rightarrow> string \<Rightarrow> string option \<Rightarrow> session_rule \<Rightarrow> bool" where
  "sql_applies now tool fp edict rule =
     (sr_tool rule = tool \<and> (sr_fingerprint rule = fp \<or> sr_fingerprint rule = ''*'') \<and>
      sr_scope rule = ScopeAlways \<and>
      (case sr_expires_at rule of None \<Rightarrow> True | Some t \<Rightarrow> now < t))"

definition newest_first :: "session_rule list \<Rightarrow> session_rule list" where
  "newest_first rows = sort_key (\<lambda>r. - sr_granted_at r) rows"

definition sql_find :: "instant \<Rightarrow> string \<Rightarrow> string \<Rightarrow> string option \<Rightarrow> sqlite_store \<Rightarrow> session_rule option" where
  "sql_find now tool fp edict rows = first_of (newest_first (filter (sql_applies now tool fp edict) rows))"

definition sql_list_by_scope :: "rule_scope \<Rightarrow> string option \<Rightarrow> sqlite_store \<Rightarrow> session_rule list" where
  "sql_list_by_scope scope edict rows =
     newest_first (filter (\<lambda>r. sr_scope r = scope \<and> (edict = None \<or> sr_edict r = edict)) rows)"

definition sql_revoke :: "string \<Rightarrow> sqlite_store \<Rightarrow> sqlite_store" where
  "sql_revoke rule_id rows = filter (\<lambda>r. sr_id r \<noteq> rule_id) rows"

definition sql_clear_edict :: "string \<Rightarrow> sqlite_store \<Rightarrow> sqlite_store" where
  "sql_clear_edict edict rows = rows"

section \<open>The composite store\<close>

record composite_store =
  cs_memory :: memory_store
  cs_sqlite :: sqlite_store

definition cs_create :: "session_rule \<Rightarrow> composite_store \<Rightarrow> composite_store" where
  "cs_create rule s =
     (if sr_scope rule = ScopeAlways then s\<lparr>cs_sqlite := sql_create rule (cs_sqlite s)\<rparr>
      else s\<lparr>cs_memory := mem_create rule (cs_memory s)\<rparr>)"

definition cs_find :: "instant \<Rightarrow> string \<Rightarrow> string \<Rightarrow> string option \<Rightarrow> composite_store \<Rightarrow> session_rule option" where
  "cs_find now tool fp edict s =
     (case mem_find now tool fp edict (cs_memory s) of
        Some r \<Rightarrow> Some r
      | None \<Rightarrow> sql_find now tool fp edict (cs_sqlite s))"

text \<open>\<open>find_match\<close> takes the arguments of the call: the fingerprint is computed first.\<close>

definition find_match ::
  "(string \<Rightarrow> string) \<Rightarrow> instant \<Rightarrow> string \<Rightarrow> args \<Rightarrow> string option \<Rightarrow> composite_store \<Rightarrow> session_rule option option" where
  "find_match sha now tool args edict s =
     map_option (\<lambda>fp. cs_find now tool fp edict s) (compute_fingerprint sha tool args)"

definition cs_list_by_scope :: "rule_scope \<Rightarrow> string option \<Rightarrow> composite_store \<Rightarrow> session_rule list" where
  "cs_list_by_scope scope edict s =
     (if scope = ScopeAlways then sql_list_by_scope scope edict (cs_sqlite s)
      else mem_list_by_scope scope edict (cs_memory s))"

definition cs_revoke :: "string \<Rightarrow> composite_store \<Rightarrow> composite_store" where
  "cs_revoke rule_id s = \<lparr>cs_memory = mem_revoke rule_id (cs_memory s), cs_sqlite = sql_revoke rule_id (cs_sqlite s)\<rparr>"

definition cs_clear_edict :: "string \<Rightarrow> composite_store \<Rightarrow> composite_store" where
  "cs_clear_edict edict s = s\<lparr>cs_memory := mem_clear_edict edict (cs_memory s)\<rparr>"

section \<open>Making rules\<close>

definition make_session_rule ::
  "instant \<Rightarrow> string \<Rightarrow> string \<Rightarrow> string \<Rightarrow> rule_scope \<Rightarrow> rule_source \<Rightarrow> rule_reason \<Rightarrow> string option \<Rightarrow>
   string option \<Rightarrow> int option \<Rightarrow> session_rule" where
  "make_session_rule now rule_id tool fp scope source reason edict decree expires_after =
     \<lparr>sr_id = rule_id, sr_tool = tool, sr_fingerprint = fp, sr_scope = scope, sr_edict = edict, sr_granted_at = now,
      sr_decree = decree, sr_source = source, sr_reason = reason,
      sr_expires_at =
        (case expires_after of
           Some d \<Rightarrow> Some (now + d)
         | None \<Rightarrow> if scope = ScopeAlways then Some (now + seconds (30 * 24 * 3600)) else None)\<rparr>"

definition assert_can_grant :: "string \<Rightarrow> rule_scope \<Rightarrow> unit result" where
  "assert_can_grant tool scope =
     raise_unless (\<not> (scope = ScopeAlways \<and> tool \<in> {''shell_exec'', ''bash''}))
       (ValueError (''Cannot grant always scope to bash-family tool '' @ tool))"

section \<open>Expanding a profile\<close>

definition prefix_to_fingerprint :: "string \<Rightarrow> string" where
  "prefix_to_fingerprint p = ''bash:'' @ join_sp (take 2 (split_ws (strip p)))"

text \<open>The rules of a profile, in the order of their creation, without their ids.\<close>

definition path_rules :: "policy_profile \<Rightarrow> (string \<times> string \<times> rule_reason) list" where
  "path_rules profile =
     concat (map (\<lambda>glob. map (\<lambda>tool. (tool, ''glob:'' @ glob, ByProfile (pp_template_name profile)))
       (filter (\<lambda>tool. assert_can_grant tool ScopeEdict = Inr ()) [''edit_file'', ''write_file''])) (pp_allowed_paths profile))"

definition prefix_rules :: "policy_profile \<Rightarrow> (string \<times> string \<times> rule_reason) list" where
  "prefix_rules profile =
     map (\<lambda>p. (''shell_exec'', prefix_to_fingerprint p, ByPrefix p (pp_template_name profile))) (pp_bash_prefixes profile)"

fun create_profile_rules ::
  "instant \<Rightarrow> (nat \<Rightarrow> string) \<Rightarrow> string \<Rightarrow> int option \<Rightarrow> nat \<Rightarrow> (string \<times> string \<times> rule_reason) list \<Rightarrow>
   composite_store \<Rightarrow> nat \<times> composite_store" where
  "create_profile_rules now ids edict expires_after created [] s = (created, s)"
| "create_profile_rules now ids edict expires_after created ((tool, fp, reason) # rs) s =
     create_profile_rules now ids edict expires_after (created + 1) rs
       (cs_create (make_session_rule now (ids created) tool fp ScopeEdict SourceProfile reason (Some edict) None expires_after) s)"

definition expand_profile_to_rules ::
  "instant \<Rightarrow> (nat \<Rightarrow> string) \<Rightarrow> policy_profile option \<Rightarrow> string \<Rightarrow> composite_store \<Rightarrow> nat \<times> composite_store" where
  "expand_profile_to_rules now ids profile edict s =
     (case profile of
        None \<Rightarrow> (0, s)
      | Some p \<Rightarrow>
          let expires_after = (case pp_expires_after_seconds p of None \<Rightarrow> None | Some n \<Rightarrow> if n = 0 then None else Some (seconds n))
          in create_profile_rules now ids edict expires_after 0 (path_rules p @ prefix_rules p) s)"

section \<open>What a client of a store relies on\<close>

text \<open>
  \<open>holds\<close> are the rules a store has, \<open>applies\<close> is when a rule answers a query, \<open>accepts\<close> are the rules that
  may be put into it and \<open>inv\<close> is its invariant.
\<close>

locale session_rule_store =
  fixes inv :: "'st \<Rightarrow> bool" and holds :: "'st \<Rightarrow> session_rule \<Rightarrow> bool" and accepts :: "session_rule \<Rightarrow> bool"
    and applies :: "instant \<Rightarrow> string \<Rightarrow> string \<Rightarrow> string option \<Rightarrow> session_rule \<Rightarrow> bool"
    and create :: "session_rule \<Rightarrow> 'st \<Rightarrow> 'st"
    and lookup :: "instant \<Rightarrow> string \<Rightarrow> string \<Rightarrow> string option \<Rightarrow> 'st \<Rightarrow> session_rule option"
    and revoke :: "string \<Rightarrow> 'st \<Rightarrow> 'st" and clear_edict :: "string \<Rightarrow> 'st \<Rightarrow> 'st"
  assumes create_inv: "inv s \<Longrightarrow> accepts r \<Longrightarrow> inv (create r s)"
    and revoke_inv: "inv s \<Longrightarrow> inv (revoke i s)"
    and clear_inv: "inv s \<Longrightarrow> inv (clear_edict c s)"
    and holds_created: "inv s \<Longrightarrow> accepts r \<Longrightarrow> holds (create r s) r"
    and holds_create_old: "inv s \<Longrightarrow> accepts r \<Longrightarrow> holds (create r s) r' \<Longrightarrow> r' = r \<or> holds s r'"
    and holds_create_keep: "inv s \<Longrightarrow> accepts r \<Longrightarrow> holds s r' \<Longrightarrow> sr_id r' \<noteq> sr_id r \<Longrightarrow> holds (create r s) r'"
    and holds_revoke: "inv s \<Longrightarrow> holds (revoke i s) r \<longleftrightarrow> holds s r \<and> sr_id r \<noteq> i"
    and holds_clear: "inv s \<Longrightarrow> holds (clear_edict c s) r \<longleftrightarrow> holds s r \<and> (sr_scope r = ScopeEdict \<longrightarrow> sr_edict r \<noteq> Some c)"
    and lookup_Some: "inv s \<Longrightarrow> lookup now tool fp e s = Some r \<Longrightarrow> holds s r \<and> applies now tool fp e r"
    and lookup_None: "inv s \<Longrightarrow> lookup now tool fp e s = None \<Longrightarrow> holds s r \<Longrightarrow> \<not> applies now tool fp e r"
    and applies_edict: "applies now tool fp e r \<Longrightarrow> sr_scope r = ScopeEdict \<Longrightarrow> sr_edict r = e"
begin

text \<open>A rule just created is found, or another one that applies.\<close>

lemma created_rule_is_found:
  assumes "inv s" and "accepts r" and "applies now tool fp e r"
  shows "\<exists>r'. lookup now tool fp e (create r s) = Some r'"
proof (cases "lookup now tool fp e (create r s)")
  case None
  from lookup_None [OF create_inv [OF assms(1,2)] None holds_created [OF assms(1,2)]] assms(3) show ?thesis by simp
next
  case (Some r')
  then show ?thesis by blast
qed

text \<open>A revoked rule is never found again by its id.\<close>

lemma revoked_rule_is_not_found:
  assumes "inv s" and "lookup now tool fp e (revoke i s) = Some r"
  shows "sr_id r \<noteq> i"
  using lookup_Some [OF revoke_inv [OF assms(1)] assms(2)] holds_revoke [OF assms(1)] by blast

text \<open>After an edict is cleared, what is found for it is no rule of its own.\<close>

lemma cleared_edict_finds_no_own_rule:
  assumes "inv s" and "lookup now tool fp (Some e) (clear_edict e s) = Some r"
  shows "sr_scope r = ScopeAlways"
proof (cases "sr_scope r")
  case ScopeEdict
  from lookup_Some [OF clear_inv [OF assms(1)] assms(2)] have "holds (clear_edict e s) r" "applies now tool fp (Some e) r" by simp_all
  with holds_clear [OF assms(1)] applies_edict [OF _ ScopeEdict] ScopeEdict show ?thesis by blast
qed

text \<open>Without a rule that applies, creating rules that do not apply changes no answer.\<close>

lemma lookup_create_other:
  assumes "inv s" and "accepts r" and "\<not> applies now tool fp e r" and "lookup now tool fp e s = None"
  shows "lookup now tool fp e (create r s) = None"
proof (cases "lookup now tool fp e (create r s)")
  case (Some r')
  with lookup_Some [OF create_inv [OF assms(1,2)] Some] holds_create_old [OF assms(1,2)] lookup_None [OF assms(1,4)] assms(3)
  show ?thesis by blast
qed

end

section \<open>The three stores keep the contract\<close>

definition mem_inv :: "memory_store \<Rightarrow> bool" where
  "mem_inv d = (distinct (map fst d) \<and> list_all (\<lambda>(k, r). k = sr_id r \<and> sr_scope r = ScopeEdict) d)"

definition mem_holds :: "memory_store \<Rightarrow> session_rule \<Rightarrow> bool" where
  "mem_holds d r = (r \<in> snd ` set d)"

definition edict_scoped :: "session_rule \<Rightarrow> bool" where
  "edict_scoped r = (sr_scope r = ScopeEdict)"

lemma mem_create_inv: "mem_inv d \<Longrightarrow> edict_scoped r \<Longrightarrow> mem_inv (mem_create r d)"
  by (auto simp: mem_inv_def mem_create_def dict_set_distinct dict_set_set list_all_iff edict_scoped_def)

lemma distinct_map_filter_fst: "distinct (map fst d) \<Longrightarrow> distinct (map fst (filter P d))"
  by (simp add: distinct_map_filter)

interpretation memory: session_rule_store mem_inv mem_holds edict_scoped mem_applies mem_create mem_find mem_revoke mem_clear_edict
proof unfold_locales
  show "mem_inv d \<Longrightarrow> edict_scoped r \<Longrightarrow> mem_inv (mem_create r d)" for d r by (rule mem_create_inv)
  show "mem_inv d \<Longrightarrow> mem_inv (mem_revoke i d)" for d i
    by (auto simp: mem_inv_def mem_revoke_def list_all_iff distinct_map_filter_fst)
  show "mem_inv d \<Longrightarrow> mem_inv (mem_clear_edict c d)" for d c
    by (auto simp: mem_inv_def mem_clear_edict_def list_all_iff distinct_map_filter_fst)
  show "mem_inv d \<Longrightarrow> mem_holds (mem_create r d) r" for d r
    by (force simp: mem_inv_def mem_holds_def mem_create_def dict_set_set)
  show "mem_inv d \<Longrightarrow> mem_holds (mem_create r d) r' \<Longrightarrow> r' = r \<or> mem_holds d r'" for d r r'
    by (force simp: mem_inv_def mem_holds_def mem_create_def dict_set_set)
  show "mem_inv d \<Longrightarrow> mem_holds d r' \<Longrightarrow> sr_id r' \<noteq> sr_id r \<Longrightarrow> mem_holds (mem_create r d) r'" for d r r'
    by (force simp: mem_inv_def mem_holds_def mem_create_def dict_set_set list_all_iff)
  show "mem_inv d \<Longrightarrow> mem_holds (mem_revoke i d) r \<longleftrightarrow> mem_holds d r \<and> sr_id r \<noteq> i" for d i r
    by (force simp: mem_inv_def mem_holds_def mem_revoke_def list_all_iff)
  show "mem_inv d \<Longrightarrow> mem_holds (mem_clear_edict c d) r \<longleftrightarrow> mem_holds d r \<and> (sr_scope r = ScopeEdict \<longrightarrow> sr_edict r \<noteq> Some c)" for d c r
    by (force simp: mem_inv_def mem_holds_def mem_clear_edict_def list_all_iff)
  show "mem_find now tool fp e d = Some r \<Longrightarrow> mem_holds d r \<and> mem_applies now tool fp e r" for now tool fp e d r
    by (auto simp: mem_find_def mem_holds_def find_Some_iff)
  show "mem_find now tool fp e d = None \<Longrightarrow> mem_holds d r \<Longrightarrow> \<not> mem_applies now tool fp e r" for now tool fp e d r
    by (auto simp: mem_find_def mem_holds_def find_None_iff)
  show "mem_applies now tool fp e r \<Longrightarrow> sr_scope r = ScopeEdict \<Longrightarrow> sr_edict r = e" for now tool fp e r
    by (simp add: mem_applies_def)
qed

definition sql_inv :: "sqlite_store \<Rightarrow> bool" where
  "sql_inv rows = (distinct (map sr_id rows) \<and> list_all (\<lambda>r. sr_scope r = ScopeAlways) rows)"

definition always_scoped :: "session_rule \<Rightarrow> bool" where
  "always_scoped r = (sr_scope r = ScopeAlways)"

lemma first_of_newest:
  "first_of (newest_first rows) = Some r \<Longrightarrow> r \<in> set rows"
  "first_of (newest_first rows) = None \<longleftrightarrow> rows = []"
proof -
  have "set (newest_first rows) = set rows" by (simp add: newest_first_def)
  then show "first_of (newest_first rows) = Some r \<Longrightarrow> r \<in> set rows"
    "first_of (newest_first rows) = None \<longleftrightarrow> rows = []"
    by (auto simp: first_of_def split: list.splits)
qed

interpretation sqlite: session_rule_store sql_inv "\<lambda>s r. r \<in> set s" always_scoped sql_applies sql_create sql_find sql_revoke sql_clear_edict
proof unfold_locales
  show "sql_inv s \<Longrightarrow> always_scoped r \<Longrightarrow> sql_inv (sql_create r s)" for s r
    by (auto simp: sql_inv_def sql_create_def always_scoped_def list_all_iff distinct_map_filter)
  show "sql_inv s \<Longrightarrow> sql_inv (sql_revoke i s)" for s i
    by (auto simp: sql_inv_def sql_revoke_def list_all_iff distinct_map_filter)
  show "sql_find now tool fp e s = Some r \<Longrightarrow> r \<in> set s \<and> sql_applies now tool fp e r" for now tool fp e s r
    using first_of_newest(1) [of "filter (sql_applies now tool fp e) s" r] by (simp add: sql_find_def)
  show "sql_find now tool fp e s = None \<Longrightarrow> r \<in> set s \<Longrightarrow> \<not> sql_applies now tool fp e r" for now tool fp e s r
    by (simp add: sql_find_def first_of_newest(2) filter_empty_conv)
qed (auto simp: sql_inv_def sql_create_def sql_revoke_def sql_clear_edict_def sql_applies_def list_all_iff)

definition cs_inv :: "composite_store \<Rightarrow> bool" where
  "cs_inv s = (mem_inv (cs_memory s) \<and> sql_inv (cs_sqlite s))"

definition cs_holds :: "composite_store \<Rightarrow> session_rule \<Rightarrow> bool" where
  "cs_holds s r = (mem_holds (cs_memory s) r \<or> r \<in> set (cs_sqlite s))"

definition cs_applies :: "instant \<Rightarrow> string \<Rightarrow> string \<Rightarrow> string option \<Rightarrow> session_rule \<Rightarrow> bool" where
  "cs_applies now tool fp edict r =
     (if sr_scope r = ScopeAlways then sql_applies now tool fp edict r else mem_applies now tool fp edict r)"

lemma mem_holds_scope: "mem_inv d \<Longrightarrow> mem_holds d r \<Longrightarrow> sr_scope r = ScopeEdict"
  by (auto simp: mem_inv_def mem_holds_def list_all_iff)

lemma sql_holds_scope: "sql_inv d \<Longrightarrow> r \<in> set d \<Longrightarrow> sr_scope r = ScopeAlways"
  by (auto simp: sql_inv_def list_all_iff)

interpretation composite: session_rule_store cs_inv cs_holds "\<lambda>_. True" cs_applies cs_create cs_find cs_revoke cs_clear_edict
proof unfold_locales
  have scope: "edict_scoped r \<or> always_scoped r" for r by (cases "sr_scope r") (simp_all add: edict_scoped_def always_scoped_def)
  note defs = edict_scoped_def always_scoped_def cs_inv_def cs_holds_def cs_create_def cs_revoke_def cs_clear_edict_def
  show "cs_inv s \<Longrightarrow> True \<Longrightarrow> cs_inv (cs_create r s)" for s r
    using memory.create_inv [of "cs_memory s" r] sqlite.create_inv [of "cs_sqlite s" r] scope [of r] by (auto simp: defs)
  show "cs_inv s \<Longrightarrow> cs_inv (cs_revoke i s)" for s i
    using memory.revoke_inv sqlite.revoke_inv by (simp add: defs)
  show "cs_inv s \<Longrightarrow> cs_inv (cs_clear_edict c s)" for s c
    using memory.clear_inv by (simp add: defs)
  show "cs_inv s \<Longrightarrow> True \<Longrightarrow> cs_holds (cs_create r s) r" for s r
    using memory.holds_created [of "cs_memory s" r] sqlite.holds_created [of "cs_sqlite s" r] scope [of r] by (auto simp: defs)
  show "cs_inv s \<Longrightarrow> True \<Longrightarrow> cs_holds (cs_create r s) r' \<Longrightarrow> r' = r \<or> cs_holds s r'" for s r r'
    using memory.holds_create_old [of "cs_memory s" r r'] sqlite.holds_create_old [of "cs_sqlite s" r r'] scope [of r]
    by (auto simp: defs split: if_split_asm)
  show "cs_inv s \<Longrightarrow> True \<Longrightarrow> cs_holds s r' \<Longrightarrow> sr_id r' \<noteq> sr_id r \<Longrightarrow> cs_holds (cs_create r s) r'" for s r r'
    using memory.holds_create_keep [of "cs_memory s" r r'] sqlite.holds_create_keep [of "cs_sqlite s" r r'] scope [of r]
    by (auto simp: defs)
  show "cs_inv s \<Longrightarrow> cs_holds (cs_revoke i s) r \<longleftrightarrow> cs_holds s r \<and> sr_id r \<noteq> i" for s i r
    using memory.holds_revoke [where s = "cs_memory s"] sqlite.holds_revoke [where s = "cs_sqlite s"] by (auto simp: defs)
  show "cs_inv s \<Longrightarrow> cs_holds (cs_clear_edict c s) r \<longleftrightarrow> cs_holds s r \<and> (sr_scope r = ScopeEdict \<longrightarrow> sr_edict r \<noteq> Some c)" for s c r
    using memory.holds_clear [where s = "cs_memory s"] sql_holds_scope [of "cs_sqlite s" r] mem_holds_scope [of "cs_memory s" r] by (auto simp: defs)
  show "cs_inv s \<Longrightarrow> cs_find now tool fp e s = Some r \<Longrightarrow> cs_holds s r \<and> cs_applies now tool fp e r" for s now tool fp e r
    using memory.lookup_Some [of "cs_memory s" now tool fp e r] sqlite.lookup_Some [of "cs_sqlite s" now tool fp e r]
      sql_holds_scope [of "cs_sqlite s" r] mem_holds_scope [of "cs_memory s" r]
    by (auto simp: cs_find_def cs_inv_def cs_holds_def cs_applies_def split: option.splits)
  show "cs_inv s \<Longrightarrow> cs_find now tool fp e s = None \<Longrightarrow> cs_holds s r \<Longrightarrow> \<not> cs_applies now tool fp e r" for s now tool fp e r
    using memory.lookup_None [of "cs_memory s" now tool fp e r] sqlite.lookup_None [of "cs_sqlite s" now tool fp e r]
      sql_holds_scope [of "cs_sqlite s" r] mem_holds_scope [of "cs_memory s" r]
    by (auto simp: cs_find_def cs_inv_def cs_holds_def cs_applies_def split: option.splits)
  show "cs_applies now tool fp e r \<Longrightarrow> sr_scope r = ScopeEdict \<Longrightarrow> sr_edict r = e" for now tool fp e r
    by (simp add: cs_applies_def mem_applies_def)
qed

section \<open>The life of a rule\<close>

definition empty_store :: composite_store where
  "empty_store = \<lparr>cs_memory = [], cs_sqlite = []\<rparr>"

lemma empty_store_inv [simp]: "cs_inv empty_store"
  by (simp add: empty_store_def cs_inv_def mem_inv_def sql_inv_def)

text \<open>
  A session rule answers calls from its creation to its revocation: the store keeps its invariant, a call the new
  rule applies to finds a rule, and once an id is revoked no call finds a rule of that id; after an edict is cleared,
  a call of that edict finds no rule of edict scope.
\<close>

theorem session_rule_lifecycle:
  assumes "cs_inv s" and "cs_applies now tool fp e r"
  shows "cs_inv (cs_create r s) \<and>
    (\<exists>r'. cs_find now tool fp e (cs_create r s) = Some r') \<and>
    (\<forall>r'. cs_find now' tool' fp' e' (cs_revoke i (cs_create r s)) = Some r' \<longrightarrow> sr_id r' \<noteq> i) \<and>
    (\<forall>r'. cs_find now' tool' fp' (Some c) (cs_clear_edict c (cs_create r s)) = Some r' \<longrightarrow> sr_scope r' = ScopeAlways)"
proof -
  have inv: "cs_inv (cs_create r s)" by (rule composite.create_inv [OF assms(1) TrueI])
  with composite.created_rule_is_found [OF assms(1) TrueI assms(2)]
    composite.revoked_rule_is_not_found [OF inv] composite.cleared_edict_finds_no_own_rule [OF inv]
  show ?thesis by blast
qed

text \<open>
  A rule that is found is in force: it is held by the store, is for the same tool, for the fingerprint of the call or
  for all, is not expired, and is of the edict of the call or of all edicts.
\<close>

theorem found_rule_is_in_force:
  assumes "cs_inv s" and "find_match sha now tool args edict s = Some (Some r)"
  shows "cs_holds s r \<and> sr_tool r = tool \<and>
    (sr_fingerprint r = ''*'' \<or> compute_fingerprint sha tool args = Some (sr_fingerprint r)) \<and>
    (sr_scope r = ScopeEdict \<longrightarrow> sr_edict r = edict) \<and>
    (\<forall>t. sr_expires_at r = Some t \<longrightarrow> now \<le> t)"
proof -
  obtain fp where fp: "compute_fingerprint sha tool args = Some fp" "cs_find now tool fp edict s = Some r"
    using assms(2) by (auto simp: find_match_def)
  from composite.lookup_Some [OF assms(1) fp(2)] have "cs_holds s r" "cs_applies now tool fp edict r" by simp_all
  with fp(1) show ?thesis
    by (auto simp: cs_applies_def mem_applies_def sql_applies_def split: if_split_asm)
qed

section \<open>Profiles as session rules\<close>

lemma create_profile_rules_inv:
  "cs_inv s \<Longrightarrow> create_profile_rules now ids edict ex n rs s = (m, s') \<Longrightarrow>
   cs_inv s' \<and> m = n + length rs \<and>
   (\<forall>r. cs_holds s' r \<longrightarrow> cs_holds s r \<or> sr_scope r = ScopeEdict \<and> sr_source r = SourceProfile \<and> sr_edict r = Some edict \<and>
      (sr_tool r, sr_fingerprint r, sr_reason r) \<in> set rs)"
proof (induction rs arbitrary: n s)
  case Nil
  then show ?case by simp
next
  case (Cons tfr rs)
  obtain tool fp reason where t: "tfr = (tool, fp, reason)" by (cases tfr)
  let ?r = "make_session_rule now (ids n) tool fp ScopeEdict SourceProfile reason (Some edict) None ex"
  have inv: "cs_inv (cs_create ?r s)" using Cons.prems(1) by (simp add: composite.create_inv)
  from Cons.IH [OF inv, of "n + 1"] Cons.prems(2) t have IH: "cs_inv s'" "m = n + 1 + length rs"
    "\<And>r. cs_holds s' r \<Longrightarrow> cs_holds (cs_create ?r s) r \<or> sr_scope r = ScopeEdict \<and> sr_source r = SourceProfile \<and>
      sr_edict r = Some edict \<and> (sr_tool r, sr_fingerprint r, sr_reason r) \<in> set rs"
    by auto
  have new: "sr_scope ?r = ScopeEdict \<and> sr_source ?r = SourceProfile \<and> sr_edict ?r = Some edict \<and>
      (sr_tool ?r, sr_fingerprint ?r, sr_reason ?r) = (tool, fp, reason)"
    by (simp add: make_session_rule_def)
  have "cs_holds s r \<or> sr_scope r = ScopeEdict \<and> sr_source r = SourceProfile \<and> sr_edict r = Some edict \<and>
      (sr_tool r, sr_fingerprint r, sr_reason r) \<in> set (tfr # rs)" if "cs_holds s' r" for r
    using IH(3) [OF that] composite.holds_create_old [OF Cons.prems(1) TrueI, of ?r r] new t by auto
  with IH(1,2) show ?case by simp
qed

lemma length_path_rules: "length (path_rules p) = 2 * length (pp_allowed_paths p)"
  by (induction "pp_allowed_paths p" arbitrary: p)
    (simp_all add: path_rules_def assert_can_grant_def raise_unless_def length_concat o_def sum_list_triv)


text \<open>
  The path rules of a profile never apply: they carry fingerprints that begin with \<open>glob:\<close>, those of a file edit begin
  with \<open>dir:\<close>, so no edit or write finds a rule after a profile is expanded into a store with none for it.
\<close>

theorem profile_path_rules_never_match:
  assumes "cs_inv s" and "tool \<in> {''edit_file'', ''write_file''}"
    and "expand_profile_to_rules now ids (Some p) edict s = (n, s')"
    and "find_match sha now' tool args e s = Some None"
  shows "find_match sha now' tool args e s' = Some None"
proof -
  obtain fp where fp: "compute_fingerprint sha tool args = Some fp" "cs_find now' tool fp e s = None"
    using assms(4) by (auto simp: find_match_def)
  have dir: "prefix ''dir:'' fp"
    using fp(1) assms(2) by (auto simp: compute_fingerprint_def fingerprint_edit_file_def split: option.splits if_split_asm)
  obtain ex where ex: "create_profile_rules now ids edict ex 0 (path_rules p @ prefix_rules p) s = (n, s')"
    using assms(3) by (auto simp: expand_profile_to_rules_def Let_def)
  note new = create_profile_rules_inv [OF assms(1) ex]
  have "cs_find now' tool fp e s' = None"
  proof (cases "cs_find now' tool fp e s'")
    case (Some r)
    from composite.lookup_Some [OF _ Some] new have r: "cs_holds s' r" "cs_applies now' tool fp e r" by simp_all
    from composite.lookup_None [OF assms(1) fp(2)] r(2) have "\<not> cs_holds s r" by blast
    with new r(1) have "(sr_tool r, sr_fingerprint r, sr_reason r) \<in> set (path_rules p @ prefix_rules p)" by blast
    moreover have t: "sr_tool r = tool" "sr_fingerprint r = ''*'' \<or> sr_fingerprint r = fp"
      using r(2) by (auto simp: cs_applies_def mem_applies_def sql_applies_def split: if_split_asm)
    ultimately have "prefix ''glob:'' (sr_fingerprint r)" using assms(2) by (auto simp: path_rules_def prefix_rules_def)
    with t(2) dir show ?thesis by (auto simp: prefix_def)
  qed
  with fp(1) show ?thesis by (simp add: find_match_def)
qed

section \<open>The theorems on concrete stores\<close>

definition demo_session_rule :: session_rule where
  "demo_session_rule = make_session_rule 0 ''r1'' ''shell_exec'' ''bash:git status'' ScopeEdict SourceApproval (ReasonText '''') (Some ''e1'') None None"

theorem session_rule_lifecycle_witness:
  "\<exists>r'. cs_find 5 ''shell_exec'' ''bash:git status'' (Some ''e1'') (cs_create demo_session_rule empty_store) = Some r'"
proof -
  have "cs_applies 5 ''shell_exec'' ''bash:git status'' (Some ''e1'') demo_session_rule" by code_simp
  from session_rule_lifecycle [OF empty_store_inv this] show ?thesis by blast
qed

theorem found_rule_is_in_force_witness:
  "find_match id 5 ''shell_exec'' [(''command'', JStr ''git status -s'')] (Some ''e1'') (cs_create demo_session_rule empty_store) =
     Some (Some demo_session_rule) \<and> sr_edict demo_session_rule = Some ''e1''"
proof -
  have inv: "cs_inv (cs_create demo_session_rule empty_store)" by (rule composite.create_inv) simp_all
  have f: "find_match id 5 ''shell_exec'' [(''command'', JStr ''git status -s'')] (Some ''e1'') (cs_create demo_session_rule empty_store) =
     Some (Some demo_session_rule)" by code_simp
  have "sr_scope demo_session_rule = ScopeEdict" by code_simp
  with found_rule_is_in_force [OF inv f] f show ?thesis by blast
qed

definition demo_profile :: policy_profile where
  "demo_profile = PolicyProfile\<lparr>pp_allowed_paths := [''**/*''], pp_bash_prefixes := [''git status'']\<rparr>"

definition demo_expanded :: composite_store where
  "demo_expanded = snd (expand_profile_to_rules 0 (\<lambda>n. replicate (n + 1) CHR ''r'') (Some demo_profile) ''e1'' empty_store)"

lemma demo_expansion: "expand_profile_to_rules 0 (\<lambda>n. replicate (n + 1) CHR ''r'') (Some demo_profile) ''e1'' empty_store = (3, demo_expanded)"
proof -
  have "fst (expand_profile_to_rules 0 (\<lambda>n. replicate (n + 1) CHR ''r'') (Some demo_profile) ''e1'' empty_store) = 3" by code_simp
  then show ?thesis unfolding demo_expanded_def by (metis prod.collapse)
qed


theorem profile_path_rules_never_match_witness:
  "find_match id 5 ''edit_file'' [(''path'', JStr ''src/a.py'')] (Some ''e1'') demo_expanded = Some None"
proof (rule profile_path_rules_never_match [OF empty_store_inv _ demo_expansion])
  show "''edit_file'' \<in> {''edit_file'', ''write_file''}" by simp
  show "find_match id 5 ''edit_file'' [(''path'', JStr ''src/a.py'')] (Some ''e1'') empty_store = Some None" by code_simp
qed

end
