(* ===== verification/Policy_Hook.thy ===== *)
theory Policy_Hook
  imports Policy_Safety Session_Rules
begin

text \<open>
  \<open>kernel/hooks.py\<close> and \<open>executor/policy_hook.py\<close>: the hook chain in front of every tool call and the handler
  that puts the policy engine, the session rules and the approvals behind it. The approval manager and
  the Silijian (automatic approval) are ports: records of functions that give what their methods return, \<open>None\<close> for an
  exception. The handler gives back the events it writes and its outcome.
\<close>

section \<open>Hook results\<close>

text \<open>One constructor per message of the code, with the values put into it.\<close>

datatype hook_reason =
    WorkspaceRejected string
  | Refused string reason
  | NoApprovalManager string
  | NoMemorialContext string
  | NoInvocationIdentity string
  | NoContinuationState string
  | TimedOutOrRejected string
  | RejectedWithGuidance string "string option"
  | RejectedByDecision string string
  | HandlerTimedOut string int
  | HandlerRaised string

record hook_result =
  hr_block :: bool
  hr_reason :: "hook_reason option"
  hr_modified_args :: "args option"
  hr_authorized :: bool

definition HookResult :: hook_result where
  "HookResult = \<lparr>hr_block = False, hr_reason = None, hr_modified_args = None, hr_authorized = False\<rparr>"

definition blocked :: "hook_reason \<Rightarrow> hook_result" where
  "blocked r = HookResult\<lparr>hr_block := True, hr_reason := Some r\<rparr>"

definition authorized :: hook_result where
  "authorized = HookResult\<lparr>hr_authorized := True\<rparr>"

datatype outcome = Raises | Returns "hook_result option"

section \<open>The hook registry\<close>

datatype hook_type =
    BEFORE_AGENT_START | BEFORE_TOOL_CALL | AFTER_TOOL_CALL | LLM_INPUT | LLM_OUTPUT | AGENT_END
  | BEFORE_ITERATION | BEFORE_COMPACTION | SESSION_START | SESSION_END

definition hook_timeout :: "hook_type \<Rightarrow> int" where
  "hook_timeout t = (if t = BEFORE_TOOL_CALL then seconds 310 else seconds 5)"

definition fail_secure :: "hook_type \<Rightarrow> bool" where
  "fail_secure t = (t = BEFORE_TOOL_CALL)"

text \<open>A handler has a name, which is its identity, and gives its outcome and the time it is suspended.\<close>

record 'c hook_entry =
  he_name :: string
  he_priority :: int
  he_handler :: "'c \<Rightarrow> outcome \<times> int"

type_synonym 'c hook_registry = "hook_type \<Rightarrow> 'c hook_entry list"

definition register_hook ::
  "hook_type \<Rightarrow> string \<Rightarrow> ('c \<Rightarrow> outcome \<times> int) \<Rightarrow> int \<Rightarrow> 'c hook_registry \<Rightarrow> 'c hook_registry" where
  "register_hook t name handler priority reg =
     reg(t := sort_key he_priority (reg t @ [\<lparr>he_name = name, he_priority = priority, he_handler = handler\<rparr>]))"

definition unregister_hook :: "hook_type \<Rightarrow> string \<Rightarrow> 'c hook_registry \<Rightarrow> 'c hook_registry" where
  "unregister_hook t name reg = reg(t := filter (\<lambda>e. he_name e \<noteq> name) (reg t))"

text \<open>The record \<open>_write_hook_event\<close> writes for a handler: blocked, and the error if there is one.\<close>

type_synonym hook_record = "string \<times> bool \<times> string option"

fun run_entries ::
  "hook_type \<Rightarrow> 'c \<Rightarrow> hook_result \<Rightarrow> 'c hook_entry list \<Rightarrow> hook_record list \<times> hook_result" where
  "run_entries t ctx combined [] = ([], combined)"
| "run_entries t ctx combined (entry # entries) =
     (case he_handler entry ctx of (out, dt) \<Rightarrow>
        if hook_timeout t < dt then
          (if fail_secure t
           then ([(he_name entry, False, Some ''timeout'')], blocked (HandlerTimedOut (he_name entry) (hook_timeout t)))
           else map_prod (Cons (he_name entry, False, Some ''timeout'')) id (run_entries t ctx combined entries))
        else
          (case out of
             Raises \<Rightarrow>
               if fail_secure t then ([(he_name entry, False, Some ''exception'')], blocked (HandlerRaised (he_name entry)))
               else map_prod (Cons (he_name entry, False, Some ''exception'')) id (run_entries t ctx combined entries)
           | Returns None \<Rightarrow> map_prod (Cons (he_name entry, False, None)) id (run_entries t ctx combined entries)
           | Returns (Some result) \<Rightarrow>
               if hr_block result then ([(he_name entry, True, None)], result)
               else
                 (let c1 = (case hr_modified_args result of
                              Some a \<Rightarrow> if a \<noteq> [] then combined\<lparr>hr_modified_args := Some a\<rparr> else combined
                            | None \<Rightarrow> combined);
                      c2 = (if hr_authorized result then c1\<lparr>hr_authorized := True\<rparr> else c1)
                  in map_prod (Cons (he_name entry, False, None)) id (run_entries t ctx c2 entries))))"

definition run_hooks :: "'c hook_registry \<Rightarrow> hook_type \<Rightarrow> 'c \<Rightarrow> hook_record list \<times> hook_result" where
  "run_hooks reg t ctx = run_entries t ctx HookResult (reg t)"

section \<open>The policy hook\<close>

text \<open>The keyword arguments of \<open>on_before_tool_call\<close>.\<close>

record tool_call =
  tc_tool_name :: "string option"
  tc_tool_args :: json
  tc_edict :: "policy_edict option"
  tc_memorial :: "string option"
  tc_iteration :: "int option"
  tc_invocation_id :: "string option"
  tc_messages :: "json list option"
  tc_usage :: "json option"

record tool_request =
  tq_edict :: string
  tq_memorial :: string
  tq_invocation :: string
  tq_tool :: string
  tq_args :: args
  tq_tier :: string
  tq_rule_id :: string
  tq_exceeds_tier :: bool
  tq_messages :: "json list"
  tq_iteration :: int
  tq_usage :: json

record tool_resolution =
  tr_action :: string
  tr_guidance :: "string option"
  tr_reason :: string

record approval_port =
  ap_request :: "tool_request \<Rightarrow> string option"
  ap_resolve_as_silijian :: "string \<Rightarrow> string \<Rightarrow> unit option"
  ap_wait :: "string \<Rightarrow> tool_resolution option option"

record hook_env =
  hk_rules :: "policy_context policy_rule list"
  hk_env :: policy_env
  hk_workspace :: "string + string"
  hk_tiers :: "string \<Rightarrow> int option"
  hk_store :: "composite_store option"
  hk_approvals :: "approval_port option"
  hk_silijian :: "(string \<Rightarrow> tool_tier \<Rightarrow> string \<Rightarrow> string option) option"

datatype hook_event =
    DecisionEvent string policy_decision
  | ApprovalRequired string policy_decision

text \<open>\<open>_emit_event\<close>: nothing is written without an edict id.\<close>

definition emit_event :: "policy_context \<Rightarrow> string \<Rightarrow> policy_decision \<Rightarrow> hook_event list" where
  "emit_event ctx event_type d = (if pe_id (px_edict ctx) = [] then [] else [DecisionEvent event_type d])"

definition persona_exceeds_tier :: "policy_env \<Rightarrow> policy_context \<Rightarrow> bool" where
  "persona_exceeds_tier env ctx = (persona_clause env ctx = Some ClauseTierExceeded)"

text \<open>The tier of the registered tool; what is not registered or has no valid tier counts as dangerous.\<close>

definition call_tier :: "hook_env \<Rightarrow> string \<Rightarrow> tool_tier" where
  "call_tier hk tool =
     (case hk_tiers hk tool of None \<Rightarrow> T4_DANGEROUS
      | Some v \<Rightarrow> (case tool_tier v of None \<Rightarrow> T4_DANGEROUS | Some t \<Rightarrow> t))"

definition call_context :: "hook_env \<Rightarrow> tool_call \<Rightarrow> string \<Rightarrow> policy_edict \<Rightarrow> string \<Rightarrow> policy_context" where
  "call_context hk call tool edict wroot =
     \<lparr>px_tool_name = tool, px_tool_tier = call_tier hk tool,
      px_args = (case tc_tool_args call of JObj kvs \<Rightarrow> kvs | _ \<Rightarrow> []), px_edict = edict, px_memorial = tc_memorial call,
      px_workspace_root = wroot, px_iteration = (case tc_iteration call of None \<Rightarrow> 0 | Some n \<Rightarrow> n)\<rparr>"

text \<open>The end of \<open>_request_approval\<close>: what the awaited resolution makes of the call.\<close>

definition resolved_result :: "string \<Rightarrow> tool_resolution option \<Rightarrow> hook_result" where
  "resolved_result rule_id resolution =
     (case resolution of
        None \<Rightarrow> blocked (TimedOutOrRejected rule_id)
      | Some r \<Rightarrow>
          if tr_action r = ''approve'' then authorized
          else if tr_action r = ''guide'' then
            blocked (RejectedWithGuidance rule_id (case tr_guidance r of None \<Rightarrow> None | Some g \<Rightarrow> if g = [] then None else Some g))
          else blocked (RejectedByDecision rule_id (tr_reason r)))"

text \<open>\<open>maybe_auto_approve\<close> and the resolution as Silijian, whose failure falls back to the human review.\<close>

definition auto_resolved :: "hook_env \<Rightarrow> approval_port \<Rightarrow> policy_context \<Rightarrow> policy_decision \<Rightarrow> bool \<Rightarrow> string \<Rightarrow> string \<Rightarrow> bool" where
  "auto_resolved hk ap ctx d exceeds memorial request =
     (case hk_silijian hk of
        Some propose \<Rightarrow>
          \<not> exceeds \<and>
          (case propose memorial (px_tool_tier ctx) (pd_rule_id d) of
             Some reason \<Rightarrow> ap_resolve_as_silijian ap request reason \<noteq> None
           | None \<Rightarrow> False)
      | None \<Rightarrow> False)"

definition request_approval ::
  "hook_env \<Rightarrow> tool_call \<Rightarrow> policy_context \<Rightarrow> policy_decision \<Rightarrow> bool \<Rightarrow> hook_event list \<times> outcome" where
  "request_approval hk call ctx d exceeds =
     (let rid = pd_rule_id d; stop = (\<lambda>r. ([], Returns (Some (blocked r)))) in
      case hk_approvals hk of
        None \<Rightarrow> stop (NoApprovalManager rid)
      | Some ap \<Rightarrow>
          (case px_memorial ctx of
             None \<Rightarrow> stop (NoMemorialContext rid)
           | Some memorial \<Rightarrow>
               if memorial = [] then stop (NoMemorialContext rid)
               else
                 (case (tc_invocation_id call, tc_messages call, tc_usage call) of
                    (None, _, _) \<Rightarrow> stop (NoInvocationIdentity rid)
                  | (Some i, ms, us) \<Rightarrow>
                      if blank i then stop (NoInvocationIdentity rid)
                      else
                        (case (ms, us) of
                           (Some messages, Some usage) \<Rightarrow>
                             (case ap_request ap
                                \<lparr>tq_edict = pe_id (px_edict ctx), tq_memorial = memorial, tq_invocation = i,
                                 tq_tool = px_tool_name ctx, tq_args = px_args ctx, tq_tier = tier_name (px_tool_tier ctx),
                                 tq_rule_id = rid, tq_exceeds_tier = exceeds, tq_messages = messages,
                                 tq_iteration = px_iteration ctx, tq_usage = usage\<rparr> of
                                None \<Rightarrow> ([], Raises)
                              | Some request \<Rightarrow>
                                  (let auto = auto_resolved hk ap ctx d exceeds memorial request;
                                       events = (if auto then emit_event ctx ''decree.auto_approved'' d else [ApprovalRequired request d])
                                   in (events,
                                       case ap_wait ap request of
                                         None \<Rightarrow> Raises
                                       | Some resolution \<Rightarrow> Returns (Some (resolved_result rid resolution)))))
                         | _ \<Rightarrow> stop (NoContinuationState rid)))))"

text \<open>The decision after the session rules: only a request for approval of a persona within its tier asks them.\<close>

definition session_decision :: "session_rule \<Rightarrow> policy_decision" where
  "session_decision r =
     (let scope = (case sr_scope r of ScopeEdict \<Rightarrow> ''edict'' | ScopeAlways \<Rightarrow> ''always'');
          source = (case sr_source r of SourceApproval \<Rightarrow> ''approval'' | SourceProfile \<Rightarrow> ''profile'' | SourceManual \<Rightarrow> ''manual'')
      in \<lparr>pd_verdict = Allow, pd_rule_id = ''session_rule:'' @ sr_id r, pd_reason = MatchedSessionRule scope source,
          pd_metadata = [(''session_rule_id'', JStr (sr_id r)), (''scope'', JStr scope), (''source'', JStr source)]\<rparr>)"

definition session_lookup ::
  "(string \<Rightarrow> string) \<Rightarrow> instant \<Rightarrow> hook_env \<Rightarrow> policy_context \<Rightarrow> policy_decision \<Rightarrow> session_rule option option" where
  "session_lookup sha now hk ctx d =
     (if pd_verdict d = RequireApproval \<and> \<not> persona_exceeds_tier (hk_env hk) ctx then
        (case hk_store hk of
           None \<Rightarrow> Some None
         | Some s \<Rightarrow> find_match sha now (px_tool_name ctx) (px_args ctx) (Some (pe_id (px_edict ctx))) s)
      else Some None)"

definition conclude :: "hook_env \<Rightarrow> tool_call \<Rightarrow> policy_context \<Rightarrow> policy_decision \<Rightarrow> hook_event list \<times> outcome" where
  "conclude hk call ctx d =
     (case pd_verdict d of
        Allow \<Rightarrow> ([], Returns (Some authorized))
      | Deny \<Rightarrow> ([], Returns (Some (blocked (Refused (pd_rule_id d) (pd_reason d)))))
      | RequireApproval \<Rightarrow> request_approval hk call ctx d (persona_exceeds_tier (hk_env hk) ctx))"

definition on_before_tool_call ::
  "(string \<Rightarrow> string) \<Rightarrow> instant \<Rightarrow> hook_env \<Rightarrow> tool_call \<Rightarrow> hook_event list \<times> outcome" where
  "on_before_tool_call sha now hk call =
     (case (tc_tool_name call, tc_edict call) of
        (Some tool, Some edict) \<Rightarrow>
          if tool = [] then ([], Returns None)
          else
            (case hk_workspace hk of
               Inl e \<Rightarrow> ([], Returns (Some (blocked (WorkspaceRejected e))))
             | Inr wroot \<Rightarrow>
                 (let ctx = call_context hk call tool edict wroot; d = evaluate (hk_rules hk) ctx in
                  case session_lookup sha now hk ctx d of
                    None \<Rightarrow> ([], Raises)
                  | Some hit \<Rightarrow>
                      (let d' = (case hit of None \<Rightarrow> d | Some r \<Rightarrow> session_decision r);
                           first = (case hit of None \<Rightarrow> [] | Some r \<Rightarrow> emit_event ctx ''policy.session_rule_matched'' d')
                       in case conclude hk call ctx d' of (events, out) \<Rightarrow>
                            (first @ emit_event ctx ''policy.decision'' d' @ events, out))))
      | _ \<Rightarrow> ([], Returns None))"

section \<open>What authorizes a call\<close>

lemma block_authorized_simps [simp]:
  "hr_block (blocked r)" "\<not> hr_authorized (blocked r)" "\<not> hr_block authorized" "hr_authorized authorized"
  by (simp_all add: blocked_def authorized_def HookResult_def)

lemma resolved_result_authorized:
  "hr_authorized (resolved_result rid res) \<longleftrightarrow> (\<exists>r. res = Some r \<and> tr_action r = ''approve'')"
  "hr_block (resolved_result rid res) \<longleftrightarrow> \<not> (\<exists>r. res = Some r \<and> tr_action r = ''approve'')"
  by (auto simp: resolved_result_def split: option.splits)

text \<open>The approval of a request for this very call.\<close>

definition approved_request :: "hook_env \<Rightarrow> policy_context \<Rightarrow> bool \<Rightarrow> bool" where
  "approved_request hk ctx exceeds =
     (\<exists>ap request tq res. hk_approvals hk = Some ap \<and> ap_request ap tq = Some request \<and>
        tq_tool tq = px_tool_name ctx \<and> tq_args tq = px_args ctx \<and> tq_exceeds_tier tq = exceeds \<and>
        ap_wait ap request = Some (Some res) \<and> tr_action res = ''approve'')"

text \<open>An outcome that blocks, or authorizes with a ground \<open>P\<close>, or is an exception.\<close>

fun grounded :: "bool \<Rightarrow> outcome \<Rightarrow> bool" where
  "grounded P Raises = True"
| "grounded P (Returns None) = False"
| "grounded P (Returns (Some r)) = ((hr_block r \<longleftrightarrow> \<not> hr_authorized r) \<and> (hr_authorized r \<longrightarrow> P))"

lemma grounded_resolved:
  assumes "hk_approvals hk = Some ap" "ap_request ap tq = Some request" "tq_tool tq = px_tool_name ctx"
    "tq_args tq = px_args ctx" "tq_exceeds_tier tq = ex"
  shows "grounded (approved_request hk ctx ex)
    (case ap_wait ap request of None \<Rightarrow> Raises | Some resolution \<Rightarrow> Returns (Some (resolved_result rid resolution)))"
proof (cases "ap_wait ap request")
  case (Some res)
  have "approved_request hk ctx ex" if "res = Some r" "tr_action r = ''approve''" for r
    using assms that Some by (auto simp: approved_request_def)
  then show ?thesis using Some resolved_result_authorized [of rid res] by auto
qed simp

lemma request_approval_grounded: "grounded (approved_request hk ctx ex) (snd (request_approval hk call ctx d ex))"
proof (cases "hk_approvals hk")
  case None
  then show ?thesis by (simp add: request_approval_def)
next
  case (Some ap)
  note ap = this
  show ?thesis
  proof (cases "px_memorial ctx = None \<or> px_memorial ctx = Some [] \<or> tc_invocation_id call = None \<or>
      (\<exists>i. tc_invocation_id call = Some i \<and> blank i) \<or> tc_messages call = None \<or> tc_usage call = None")
    case True
    then show ?thesis
      by (auto simp: request_approval_def ap Let_def split: option.splits)
  next
    case False
    then obtain m i ms us where c: "px_memorial ctx = Some m" "m \<noteq> []" "tc_invocation_id call = Some i" "\<not> blank i"
      "tc_messages call = Some ms" "tc_usage call = Some us" by auto
    let ?tq = "\<lparr>tq_edict = pe_id (px_edict ctx), tq_memorial = m, tq_invocation = i,
       tq_tool = px_tool_name ctx, tq_args = px_args ctx, tq_tier = tier_name (px_tool_tier ctx),
       tq_rule_id = pd_rule_id d, tq_exceeds_tier = ex, tq_messages = ms,
       tq_iteration = px_iteration ctx, tq_usage = us\<rparr>"
    show ?thesis
    proof (cases "ap_request ap ?tq")
      case None
      then show ?thesis by (simp add: request_approval_def ap c)
    next
      case (Some request)
      with grounded_resolved [OF ap Some, of ctx ex "pd_rule_id d"] show ?thesis
        by (simp add: request_approval_def ap c Let_def)
    qed
  qed
qed

text \<open>The handler's result from the point where the context is known.\<close>

lemma on_before_tool_call_eq:
  assumes "tc_tool_name call = Some tool" "tool \<noteq> []" "tc_edict call = Some edict" "hk_workspace hk = Inr wr"
  shows "snd (on_before_tool_call sha now hk call) =
    (let ctx = call_context hk call tool edict wr; d = evaluate (hk_rules hk) ctx in
     case session_lookup sha now hk ctx d of
       None \<Rightarrow> Raises
     | Some hit \<Rightarrow> snd (conclude hk call ctx (case hit of None \<Rightarrow> d | Some r \<Rightarrow> session_decision r)))"
  using assms by (auto simp: on_before_tool_call_def Let_def split: option.splits prod.splits)

lemma session_decision_verdict [simp]: "pd_verdict (session_decision r) = Allow"
  by (simp add: session_decision_def Let_def)

text \<open>A call the engine denies is blocked, whatever the stores and the approvals hold.\<close>

lemma denied_is_blocked:
  assumes "tc_tool_name call = Some tool" "tool \<noteq> []" "tc_edict call = Some edict" "hk_workspace hk = Inr wr"
    and "pd_verdict (evaluate (hk_rules hk) (call_context hk call tool edict wr)) = Deny"
  shows "\<exists>r. snd (on_before_tool_call sha now hk call) = Returns (Some r) \<and> hr_block r"
  using assms(5) unfolding on_before_tool_call_eq [OF assms(1-4)]
  by (simp add: Let_def session_lookup_def conclude_def)

text \<open>
  C5: Every tool call with a tool and an edict is decided: the policy hook never lets it pass in silence. It raises,
  blocks, or authorizes; and it authorizes only if the engine allows the call, or asks for approval and either a
  session rule in force matches the call of a persona within its tier, or a request for this very call was
  approved.
\<close>

theorem authorized_only_on_grounds:
  assumes "tc_tool_name call = Some tool" "tool \<noteq> []" "tc_edict call = Some edict" "hk_workspace hk = Inr wr"
    and "ctx = call_context hk call tool edict wr" and "d = evaluate (hk_rules hk) ctx"
  shows "grounded
    (pd_verdict d = Allow \<or>
     pd_verdict d = RequireApproval \<and>
       (\<not> persona_exceeds_tier (hk_env hk) ctx \<and>
          (\<exists>s r. hk_store hk = Some s \<and> find_match sha now tool (px_args ctx) (Some (pe_id edict)) s = Some (Some r)) \<or>
        approved_request hk ctx (persona_exceeds_tier (hk_env hk) ctx)))
    (snd (on_before_tool_call sha now hk call))"
  (is "grounded ?P _")
proof -
  have ctx: "px_tool_name ctx = tool" "px_edict ctx = edict" by (simp_all add: assms(5) call_context_def)
  note eq = on_before_tool_call_eq [OF assms(1-4), of sha now, folded assms(5), unfolded Let_def, folded assms(6)]
  have weaken: "grounded Q out \<Longrightarrow> (Q \<Longrightarrow> R) \<Longrightarrow> grounded R out" for Q R out
    by (cases "(R, out)" rule: grounded.cases) auto
  show ?thesis
  proof (cases "session_lookup sha now hk ctx d")
    case None
    then show ?thesis by (simp add: eq)
  next
    case (Some hit)
    show ?thesis
    proof (cases hit)
      case None
      show ?thesis
      proof (cases "pd_verdict d")
        case RequireApproval
        have "grounded (approved_request hk ctx (persona_exceeds_tier (hk_env hk) ctx)) (snd (on_before_tool_call sha now hk call))"
          using request_approval_grounded by (simp add: eq Some None conclude_def RequireApproval)
        then show ?thesis by (rule weaken) (simp add: RequireApproval)
      qed (simp_all add: eq Some None conclude_def)
    next
      case (Some r)
      with \<open>session_lookup sha now hk ctx d = Some hit\<close> have "?P"
        by (auto simp: session_lookup_def ctx split: if_split_asm option.split_asm)
      with Some \<open>session_lookup sha now hk ctx d = Some hit\<close> show ?thesis by (simp add: eq conclude_def)
    qed
  qed
qed

section \<open>The chain\<close>

definition passes :: "'c \<Rightarrow> 'c hook_entry \<Rightarrow> bool" where
  "passes ctx e =
     (case he_handler e ctx of
        (Returns r, dt) \<Rightarrow> dt \<le> hook_timeout BEFORE_TOOL_CALL \<and> (case r of None \<Rightarrow> True | Some x \<Rightarrow> \<not> hr_block x)
      | (Raises, dt) \<Rightarrow> False)"

definition authorizes :: "'c \<Rightarrow> 'c hook_entry \<Rightarrow> bool" where
  "authorizes ctx e = (case fst (he_handler e ctx) of Returns (Some x) \<Rightarrow> hr_authorized x | _ \<Rightarrow> False)"

lemma run_entries_passes:
  assumes "\<not> hr_block (snd (run_entries BEFORE_TOOL_CALL ctx combined entries))"
  shows "list_all (passes ctx) entries \<and>
    (hr_authorized (snd (run_entries BEFORE_TOOL_CALL ctx combined entries)) \<longleftrightarrow>
       hr_authorized combined \<or> list_ex (authorizes ctx) entries)"
  using assms
proof (induction entries arbitrary: combined)
  case Nil
  then show ?case by simp
next
  case (Cons e entries)
  obtain out dt where h: "he_handler e ctx = (out, dt)" by fastforce
  have time: "\<not> hook_timeout BEFORE_TOOL_CALL < dt" using Cons.prems h by (auto simp: fail_secure_def)
  obtain r where r: "out = Returns r" using Cons.prems h time by (cases out) (auto simp: fail_secure_def)
  show ?case
  proof (cases r)
    case None
    with Cons.prems Cons.IH [of combined] h r time show ?thesis by (simp add: passes_def authorizes_def)
  next
    case (Some x)
    have nb: "\<not> hr_block x" using Cons.prems h r time Some by (auto split: if_split_asm)
    define c1 where "c1 = (case hr_modified_args x of
        Some a \<Rightarrow> if a \<noteq> [] then combined\<lparr>hr_modified_args := Some a\<rparr> else combined | None \<Rightarrow> combined)"
    define c2 where "c2 = (if hr_authorized x then c1\<lparr>hr_authorized := True\<rparr> else c1)"
    have eq: "snd (run_entries BEFORE_TOOL_CALL ctx combined (e # entries)) = snd (run_entries BEFORE_TOOL_CALL ctx c2 entries)"
      using h r time Some nb unfolding c2_def c1_def by (simp add: Let_def)
    have c: "hr_authorized c2 \<longleftrightarrow> hr_authorized combined \<or> hr_authorized x"
      by (auto simp: c2_def c1_def split: option.splits)
    have "\<not> hr_block (snd (run_entries BEFORE_TOOL_CALL ctx c2 entries))" using Cons.prems unfolding eq .
    from Cons.IH [OF this] show ?thesis
      unfolding eq by (auto simp: c passes_def authorizes_def h r Some nb time [unfolded not_less])
  qed
qed

text \<open>
  The hook chain in front of a tool call is fail-secure: when it does not block, every handler ended in time, without
  an exception and without blocking; and then the chain authorizes exactly when one of its handlers does.
\<close>

theorem hook_chain_fail_secure:
  assumes "\<not> hr_block (snd (run_hooks reg BEFORE_TOOL_CALL ctx))"
  shows "list_all (passes ctx) (reg BEFORE_TOOL_CALL) \<and>
    (hr_authorized (snd (run_hooks reg BEFORE_TOOL_CALL ctx)) \<longleftrightarrow> list_ex (authorizes ctx) (reg BEFORE_TOOL_CALL))"
  using run_entries_passes [OF assms [unfolded run_hooks_def]] by (simp add: run_hooks_def HookResult_def)

lemma chain_blocks:
  assumes "e \<in> set (reg BEFORE_TOOL_CALL)" "\<not> passes ctx e"
  shows "hr_block (snd (run_hooks reg BEFORE_TOOL_CALL ctx))"
  using run_entries_passes [of ctx HookResult "reg BEFORE_TOOL_CALL"] assms by (auto simp: run_hooks_def list_all_iff)

text \<open>
  C4: A deny-listed shell command does not get through the chain: with the policy hook in the chain under the default
  rules and \<open>shell_exec\<close> registered as dangerous, a call whose command or one of whose segments contains a deny-listed
  text is blocked, whatever the other handlers, the persona, the profile, the session rules and the approvals say.
\<close>

theorem chain_blocks_denylisted_command:
  assumes "tc_tool_name call = Some ''shell_exec''" "tc_edict call = Some edict" "hk_workspace hk = Inr wr"
    and "tc_tool_args call = JObj args" "str_arg args ''command'' '''' = Some c"
    and "part = strip c \<or> part \<in> set (split_unquoted_segments (strip c))"
    and "needle \<in> set BASH_DENYLIST_SUBSTRINGS" "contains (lower part) needle"
    and "hk_rules hk = build_default_rules (hk_env hk)" "hk_tiers hk ''shell_exec'' = Some 4"
    and "e \<in> set (reg BEFORE_TOOL_CALL)" "he_handler e call = (snd (on_before_tool_call sha now hk call), dt)"
  shows "hr_block (snd (run_hooks reg BEFORE_TOOL_CALL call))"
proof (rule chain_blocks)
  show "e \<in> set (reg BEFORE_TOOL_CALL)" by (rule assms(11))
next
  let ?ctx = "call_context hk call ''shell_exec'' edict wr"
  have "tool_tier 4 = Some T4_DANGEROUS" by code_simp
  then have ctx: "px_tool_name ?ctx = ''shell_exec''" "px_tool_tier ?ctx = T4_DANGEROUS" "px_args ?ctx = args"
    by (simp_all add: call_context_def call_tier_def assms(4,10))
  have "\<not> asks (tier_escalation (hk_env hk) ?ctx)" by (rule no_escalation_T4) (rule ctx(2))
  moreover have "denies (bash_safety (hk_env hk) ?ctx)"
    using bash_safety_denies [of ?ctx c part needle] ctx assms(5-8) by simp
  ultimately have "pd_verdict (evaluate (hk_rules hk) ?ctx) = Deny" unfolding assms(9) by (rule default_denied_by_bash)
  from denied_is_blocked [OF assms(1) _ assms(2,3) this] obtain r where
    "snd (on_before_tool_call sha now hk call) = Returns (Some r)" "hr_block r" by auto
  then show "\<not> passes call e" by (simp add: passes_def assms(12))
qed

text \<open>
  A session rule admits longer commands than the one it was granted for: its fingerprint is the first two words, so
  when approval is required for a command and the edict's rule for its first two words is in force, the call is
  authorized, whatever follows those words.
\<close>

theorem session_rule_admits_longer_command:
  assumes "tc_tool_name call = Some ''shell_exec''" "tc_edict call = Some edict" "hk_workspace hk = Inr wr"
    and "tc_tool_args call = JObj args" "str_arg args ''command'' '''' = Some c"
    and "take 2 (split_ws (strip c)) = words"
    and "pd_verdict (evaluate (hk_rules hk) (call_context hk call ''shell_exec'' edict wr)) = RequireApproval"
    and "pv_persona (hk_env hk) = None" "hk_store hk = Some s" "cs_inv s" "mem_holds (cs_memory s) r"
    and "mem_applies now ''shell_exec'' (''bash:'' @ join_sp words) (Some (pe_id edict)) r"
  shows "snd (on_before_tool_call sha now hk call) = Returns (Some authorized)"
proof -
  let ?ctx = "call_context hk call ''shell_exec'' edict wr"
  have ctx: "px_tool_name ?ctx = ''shell_exec''" "px_args ?ctx = args" "px_edict ?ctx = edict"
    by (simp_all add: call_context_def assms(4))
  have fp: "compute_fingerprint sha ''shell_exec'' args = Some (''bash:'' @ join_sp words)"
    by (simp add: compute_fingerprint_def fingerprint_bash_def assms(5,6))
  have "mem_find now ''shell_exec'' (''bash:'' @ join_sp words) (Some (pe_id edict)) (cs_memory s) \<noteq> None"
    using memory.lookup_None [OF _ _ assms(11)] assms(10,12) unfolding cs_inv_def by blast
  then obtain r' where "find_match sha now ''shell_exec'' args (Some (pe_id edict)) s = Some (Some r')"
    by (auto simp: find_match_def fp cs_find_def)
  moreover have "\<not> persona_exceeds_tier (hk_env hk) ?ctx" by (simp add: persona_exceeds_tier_def persona_clause_def assms(8))
  ultimately have "session_lookup sha now hk ?ctx (evaluate (hk_rules hk) ?ctx) = Some (Some r')"
    by (simp add: session_lookup_def assms(7,9) ctx)
  then show ?thesis
    using on_before_tool_call_eq [OF assms(1) _ assms(2,3), of sha now] by (simp add: conclude_def)
qed

section \<open>The theorems on concrete calls\<close>

definition demo_hook :: "composite_store \<Rightarrow> hook_env" where
  "demo_hook s = \<lparr>hk_rules = build_default_rules (demo_env None), hk_env = demo_env None, hk_workspace = Inr ''/w'',
     hk_tiers = (\<lambda>t. if t = ''shell_exec'' then Some 4 else None), hk_store = Some s, hk_approvals = None, hk_silijian = None\<rparr>"

definition shell_call :: "string \<Rightarrow> tool_call" where
  "shell_call c = \<lparr>tc_tool_name = Some ''shell_exec'', tc_tool_args = JObj [(''command'', JStr c)],
     tc_edict = Some (demo_policy_edict []), tc_memorial = Some ''m1'', tc_iteration = Some 1,
     tc_invocation_id = Some ''i1'', tc_messages = Some [], tc_usage = Some JNull\<rparr>"

definition demo_registry :: "composite_store \<Rightarrow> tool_call hook_registry" where
  "demo_registry s = register_hook BEFORE_TOOL_CALL ''PolicyHook.on_before_tool_call''
     (\<lambda>call. (snd (on_before_tool_call id 5 (demo_hook s) call), 0)) 5 (\<lambda>_. [])"

lemma demo_entry:
  "demo_registry s BEFORE_TOOL_CALL = [\<lparr>he_name = ''PolicyHook.on_before_tool_call'', he_priority = 5,
     he_handler = (\<lambda>call. (snd (on_before_tool_call id 5 (demo_hook s) call), 0))\<rparr>]"
  by (simp add: demo_registry_def register_hook_def)

lemma shell_call_simps [simp]:
  "tc_tool_name (shell_call c) = Some ''shell_exec''" "tc_edict (shell_call c) = Some (demo_policy_edict [])"
  "tc_tool_args (shell_call c) = JObj [(''command'', JStr c)]" "hk_workspace (demo_hook s) = Inr ''/w''"
  by (simp_all add: shell_call_def demo_hook_def)

theorem authorized_only_on_grounds_witness:
  "snd (on_before_tool_call id 5 (demo_hook empty_store) (shell_call ''git log'')) = Returns (Some authorized) \<and>
   pd_verdict (evaluate (hk_rules (demo_hook empty_store))
     (call_context (demo_hook empty_store) (shell_call ''git log'') ''shell_exec'' (demo_policy_edict []) ''/w'')) = Allow"
proof -
  have a: "snd (on_before_tool_call id 5 (demo_hook empty_store) (shell_call ''git log'')) = Returns (Some authorized)" by code_simp
  have "find_match id 5 ''shell_exec'' (px_args (call_context (demo_hook empty_store) (shell_call ''git log'') ''shell_exec'' (demo_policy_edict []) ''/w''))
      (Some (pe_id (demo_policy_edict []))) empty_store = Some None" by code_simp
  moreover have "hk_store (demo_hook empty_store) = Some empty_store" "hk_approvals (demo_hook empty_store) = None"
    by (simp_all add: demo_hook_def)
  ultimately show ?thesis
    using authorized_only_on_grounds [of "shell_call ''git log''" "''shell_exec''" "demo_policy_edict []" "demo_hook empty_store" "''/w''" _ _ id 5,
        OF _ _ _ _ refl refl] a
    by (auto simp: approved_request_def)
qed

theorem hook_chain_fail_secure_witness:
  "list_all (passes (shell_call ''git log'')) (demo_registry empty_store BEFORE_TOOL_CALL)"
proof -
  have "\<not> hr_block (snd (run_hooks (demo_registry empty_store) BEFORE_TOOL_CALL (shell_call ''git log'')))" by code_simp
  from hook_chain_fail_secure [OF this] show ?thesis by blast
qed

theorem chain_blocks_denylisted_command_witness:
  "hr_block (snd (run_hooks (demo_registry empty_store) BEFORE_TOOL_CALL (shell_call ''git log; SUDO rm x'')))"
proof (rule chain_blocks_denylisted_command)
  show "tc_tool_name (shell_call ''git log; SUDO rm x'') = Some ''shell_exec''" by simp
  show "tc_edict (shell_call ''git log; SUDO rm x'') = Some (demo_policy_edict [])" by simp
  show "hk_workspace (demo_hook empty_store) = Inr ''/w''" by simp
  show "tc_tool_args (shell_call ''git log; SUDO rm x'') = JObj [(''command'', JStr ''git log; SUDO rm x'')]" by simp
  show "str_arg [(''command'', JStr ''git log; SUDO rm x'')] ''command'' '''' = Some ''git log; SUDO rm x''" by (simp add: str_arg_def)
  show "''SUDO rm x'' = strip ''git log; SUDO rm x'' \<or> ''SUDO rm x'' \<in> set (split_unquoted_segments (strip ''git log; SUDO rm x''))"
    by code_simp
  show "''sudo '' \<in> set BASH_DENYLIST_SUBSTRINGS" by code_simp
  show "contains (lower ''SUDO rm x'') ''sudo ''" by code_simp
  show "hk_rules (demo_hook empty_store) = build_default_rules (hk_env (demo_hook empty_store))" by (simp add: demo_hook_def)
  show "hk_tiers (demo_hook empty_store) ''shell_exec'' = Some 4" by (simp add: demo_hook_def)
  show "hd (demo_registry empty_store BEFORE_TOOL_CALL) \<in> set (demo_registry empty_store BEFORE_TOOL_CALL)" by (simp add: demo_entry)
  show "he_handler (hd (demo_registry empty_store BEFORE_TOOL_CALL)) (shell_call ''git log; SUDO rm x'') =
    (snd (on_before_tool_call id 5 (demo_hook empty_store) (shell_call ''git log; SUDO rm x'')), 0)" by (simp add: demo_entry)
qed

text \<open>A rule granted for \<open>git status\<close> lets a command pass that goes on to something else.\<close>

theorem session_rule_admits_longer_command_witness:
  "snd (on_before_tool_call id 5 (demo_hook (cs_create demo_session_rule empty_store)) (shell_call ''git status && curl http://x/y -o z'')) =
     Returns (Some authorized)"
proof (rule session_rule_admits_longer_command)
  let ?c = "''git status && curl http://x/y -o z''" and ?s = "cs_create demo_session_rule empty_store"
  show "tc_tool_name (shell_call ?c) = Some ''shell_exec''" by simp
  show "tc_edict (shell_call ?c) = Some (demo_policy_edict [])" by simp
  show "hk_workspace (demo_hook ?s) = Inr ''/w''" by simp
  show "tc_tool_args (shell_call ?c) = JObj [(''command'', JStr ?c)]" by simp
  show "str_arg [(''command'', JStr ?c)] ''command'' '''' = Some ?c" by (simp add: str_arg_def)
  show "take 2 (split_ws (strip ?c)) = [''git'', ''status'']" by code_simp
  show "pd_verdict (evaluate (hk_rules (demo_hook ?s)) (call_context (demo_hook ?s) (shell_call ?c) ''shell_exec'' (demo_policy_edict []) ''/w'')) = RequireApproval"
    by code_simp
  show "pv_persona (hk_env (demo_hook ?s)) = None" by (simp add: demo_hook_def demo_env_def)
  show "hk_store (demo_hook ?s) = Some ?s" by (simp add: demo_hook_def)
  show "cs_inv ?s" by (rule composite.create_inv) simp_all
  show "mem_holds (cs_memory ?s) demo_session_rule" by code_simp
  show "mem_applies 5 ''shell_exec'' (''bash:'' @ join_sp [''git'', ''status'']) (Some (pe_id (demo_policy_edict []))) demo_session_rule"
    by code_simp
qed

end
