(* ===== verification/Estop.thy ===== *)
theory Estop
  imports Python_Lib Audit_Chain
begin

text \<open>
  \<open>security/estop.py\<close> and its part of \<open>storage/security_repo.py\<close>: the graded emergency stop. Its state is one row of
  the database, cached in the manager; a change writes the row and an audit event in one transaction and
  then the cache. \<open>sha\<close> is SHA-256, \<open>loads\<close> is \<open>json.loads\<close> of the stored list of tools, \<open>None\<close> for an exception.
\<close>

section \<open>State\<close>

record estop_state =
  es_kill_all :: bool
  es_network_kill :: bool
  es_frozen :: "string set"
  es_updated_at :: "string option"
  es_reason :: "string option"

definition EstopState :: estop_state where
  "EstopState = \<lparr>es_kill_all = False, es_network_kill = False, es_frozen = {}, es_updated_at = None, es_reason = None\<rparr>"

definition engaged :: "estop_state \<Rightarrow> bool" where
  "engaged s = (es_kill_all s \<or> es_network_kill s \<or> es_frozen s \<noteq> {})"

definition fail_closed :: estop_state where
  "fail_closed = EstopState\<lparr>es_kill_all := True, es_reason := Some ''estop state corrupted -- fail closed''\<rparr>"

definition NETWORK_TOOL_NAMES :: "string list" where
  "NETWORK_TOOL_NAMES =
     [''web_fetch'', ''web_search'', ''api_request'', ''web_extract'', ''lark_cli'', ''shell_exec'', ''bash'']"

datatype estop_rejection = KillAll | NetworkKill string | ToolFrozen string

definition estop_check :: "estop_state \<Rightarrow> string \<Rightarrow> estop_rejection option" where
  "estop_check s tool =
     (if \<not> engaged s then None
      else if es_kill_all s then Some KillAll
      else if es_network_kill s \<and> tool \<in> set NETWORK_TOOL_NAMES then Some (NetworkKill tool)
      else if tool \<in> es_frozen s then Some (ToolFrozen tool)
      else None)"

section \<open>The row and the audit log\<close>

record estop_row =
  ew_kill_all :: int
  ew_network_kill :: int
  ew_frozen_json :: string
  ew_updated_at :: "string option"
  ew_reason :: "string option"

record estop_db =
  eb_row :: "estop_row option"
  eb_audit :: "audit_row list"

text \<open>\<open>_save_estop_state_unlocked\<close> with the dictionary \<open>_persist\<close> builds.\<close>

definition frozen_json :: "string set \<Rightarrow> string" where
  "frozen_json ts = dumps_default (JList (map JStr (sorted_list_of_set ts)))"

definition estop_row_of :: "estop_state \<Rightarrow> estop_row" where
  "estop_row_of s =
     \<lparr>ew_kill_all = (if es_kill_all s then 1 else 0), ew_network_kill = (if es_network_kill s then 1 else 0),
      ew_frozen_json = (if frozen_json (es_frozen s) = [] then ''[]'' else frozen_json (es_frozen s)),
      ew_updated_at = es_updated_at s, ew_reason = es_reason s\<rparr>"

definition save_estop_state :: "estop_state \<Rightarrow> estop_db \<Rightarrow> estop_db" where
  "save_estop_state s d = d\<lparr>eb_row := Some (estop_row_of s)\<rparr>"

definition save_estop_state_with_audit ::
  "(string \<Rightarrow> string) \<Rightarrow> string \<Rightarrow> string \<Rightarrow> estop_state \<Rightarrow> audit_request \<Rightarrow> estop_db \<Rightarrow> unit result \<times> estop_db" where
  "save_estop_state_with_audit sha new_id now_iso s req =
     atomically (\<lambda>d. let d1 = save_estop_state s d in
       and_then (append_system_audit sha new_id now_iso req (eb_audit d1)) (\<lambda>(event, rows).
         Inr ((), d1\<lparr>eb_audit := rows\<rparr>)))"

text \<open>\<open>_load\<close>: \<open>row\<close> is \<open>None\<close> when reading the table raises.\<close>

definition load_estop :: "(string \<Rightarrow> string list option) \<Rightarrow> estop_row option option \<Rightarrow> estop_state" where
  "load_estop loads row =
     (case row of
        None \<Rightarrow> fail_closed
      | Some None \<Rightarrow> EstopState
      | Some (Some r) \<Rightarrow>
          (case loads (if ew_frozen_json r = [] then ''[]'' else ew_frozen_json r) of
             None \<Rightarrow> fail_closed
           | Some ts \<Rightarrow>
               \<lparr>es_kill_all = (ew_kill_all r \<noteq> 0), es_network_kill = (ew_network_kill r \<noteq> 0), es_frozen = set ts,
                es_updated_at = ew_updated_at r, es_reason = ew_reason r\<rparr>))"

section \<open>The manager\<close>

record estop_manager =
  em_state :: estop_state

record audit_context =
  ac_correlation :: string
  ac_actor :: "string option"

text \<open>\<open>_audit_request\<close>; \<open>ulid\<close> is the fresh identifier of an internal change.\<close>

definition estop_audit_request ::
  "(string \<Rightarrow> string) \<Rightarrow> string \<Rightarrow> estop_state \<Rightarrow> string \<Rightarrow> audit_context option \<Rightarrow> audit_request" where
  "estop_audit_request sha ulid s action ctx =
     \<lparr>ar_correlation = (case ctx of Some c \<Rightarrow> ac_correlation c | None \<Rightarrow> ''estop-internal:'' @ ulid),
      ar_actor = (case ctx of Some c \<Rightarrow> (case ac_actor c of Some a \<Rightarrow> a | None \<Rightarrow> sha ''system'') | None \<Rightarrow> sha ''system''),
      ar_action = action, ar_outcome = ''succeeded'', ar_reason = ''state_updated'', ar_subject_kind = ''estop_state'',
      ar_subject = sha ''estop-state'',
      ar_metadata = [(''kill_all'', JBool (es_kill_all s)), (''network_kill'', JBool (es_network_kill s)),
                     (''frozen_tool_count'', JInt (int (card (es_frozen s))))]\<rparr>"

text \<open>What is fresh in a change: the audit id and time, the instant of the state and the ULID.\<close>

record estop_fresh =
  ef_audit_id :: string
  ef_audit_time :: string
  ef_now :: string
  ef_ulid :: string

text \<open>\<open>_persist\<close>, with the model of the request validated first: the cache follows the database.\<close>

definition persist_estop ::
  "(string \<Rightarrow> string) \<Rightarrow> estop_fresh \<Rightarrow> estop_state \<Rightarrow> audit_request \<Rightarrow> estop_manager \<times> estop_db \<Rightarrow>
   estop_state result \<times> estop_manager \<times> estop_db" where
  "persist_estop sha fr new req w =
     (if \<not> valid_audit_request req then (Inl (ValueError ''invalid system audit request''), w)
      else
        (case save_estop_state_with_audit sha (ef_audit_id fr) (ef_audit_time fr) new req (snd w) of
           (Inl e, d) \<Rightarrow> (Inl e, fst w, d)
         | (Inr u, d) \<Rightarrow> (Inr new, (fst w)\<lparr>em_state := new\<rparr>, d)))"

definition engaged_state :: "string \<Rightarrow> bool option \<Rightarrow> bool option \<Rightarrow> string list \<Rightarrow> string option \<Rightarrow> estop_state \<Rightarrow> estop_state" where
  "engaged_state now kill_all network_kill freeze reason cur =
     \<lparr>es_kill_all = (case kill_all of None \<Rightarrow> es_kill_all cur | Some b \<Rightarrow> b),
      es_network_kill = (case network_kill of None \<Rightarrow> es_network_kill cur | Some b \<Rightarrow> b),
      es_frozen = es_frozen cur \<union> set freeze, es_updated_at = Some now,
      es_reason = (case reason of None \<Rightarrow> es_reason cur | Some r \<Rightarrow> if r = [] then es_reason cur else Some r)\<rparr>"

definition engage ::
  "(string \<Rightarrow> string) \<Rightarrow> estop_fresh \<Rightarrow> bool option \<Rightarrow> bool option \<Rightarrow> string list \<Rightarrow> string option \<Rightarrow> audit_context option \<Rightarrow>
   estop_manager \<times> estop_db \<Rightarrow> estop_state result \<times> estop_manager \<times> estop_db" where
  "engage sha fr kill_all network_kill freeze reason ctx w =
     (let new = engaged_state (ef_now fr) kill_all network_kill freeze reason (em_state (fst w))
      in persist_estop sha fr new (estop_audit_request sha (ef_ulid fr) new ''estop.engaged'' ctx) w)"

definition resumed_state :: "string \<Rightarrow> bool \<Rightarrow> bool \<Rightarrow> string list \<Rightarrow> bool \<Rightarrow> estop_state \<Rightarrow> estop_state" where
  "resumed_state now kill_all network_kill unfreeze all_clear cur =
     (if all_clear then EstopState\<lparr>es_updated_at := Some now\<rparr>
      else \<lparr>es_kill_all = (if kill_all then False else es_kill_all cur),
            es_network_kill = (if network_kill then False else es_network_kill cur),
            es_frozen = es_frozen cur - set unfreeze, es_updated_at = Some now, es_reason = es_reason cur\<rparr>)"

definition resume_estop ::
  "(string \<Rightarrow> string) \<Rightarrow> estop_fresh \<Rightarrow> bool \<Rightarrow> bool \<Rightarrow> string list \<Rightarrow> bool \<Rightarrow> audit_context option \<Rightarrow>
   estop_manager \<times> estop_db \<Rightarrow> estop_state result \<times> estop_manager \<times> estop_db" where
  "resume_estop sha fr kill_all network_kill unfreeze all_clear ctx w =
     (let new = resumed_state (ef_now fr) kill_all network_kill unfreeze all_clear (em_state (fst w))
      in persist_estop sha fr new (estop_audit_request sha (ef_ulid fr) new ''estop.resumed'' ctx) w)"

section \<open>The cache and the row say the same\<close>

text \<open>\<open>json.loads\<close> undoes \<open>json.dumps\<close> on lists of strings.\<close>

definition loads_undoes_dumps :: "(string \<Rightarrow> string list option) \<Rightarrow> bool" where
  "loads_undoes_dumps loads = (\<forall>ts. loads (dumps_default (JList (map JStr ts))) = Some ts)"

lemma frozen_json_not_Nil [simp]: "frozen_json ts \<noteq> []"
  by (simp add: frozen_json_def)

lemma load_saved:
  assumes "loads_undoes_dumps loads" and "finite (es_frozen s)"
  shows "load_estop loads (Some (Some (estop_row_of s))) = s"
  using assms by (simp add: load_estop_def estop_row_of_def loads_undoes_dumps_def frozen_json_def [of "es_frozen s"])

lemma append_extends:
  assumes "append_system_audit sha i t req rows = Inr (event, rows')"
  shows "\<exists>e. rows' = rows @ [e]"
proof -
  from assms obtain n prev rows'' where a: "insert_audit (new_audit_row sha i t req n prev) rows = Inr rows''" and "rows' = rows''"
    by (auto simp: append_system_audit_def split: option.splits prod.splits)
  moreover from a have "rows'' = rows @ [new_audit_row sha i t req n prev]"
    by (auto simp: insert_audit_def split: if_split_asm)
  ultimately show ?thesis by blast
qed

lemma persist_cases:
  assumes "persist_estop sha fr new req w = (r, w')"
  shows "(\<exists>e. r = Inl e) \<and> w' = w \<or>
    r = Inr new \<and> em_state (fst w') = new \<and> eb_row (snd w') = Some (estop_row_of new) \<and>
      (\<exists>event. append_system_audit sha (ef_audit_id fr) (ef_audit_time fr) req (eb_audit (snd w)) = Inr (event, eb_audit (snd w')))"
proof (cases "valid_audit_request req")
  case False
  with assms show ?thesis by (auto simp: persist_estop_def)
next
  case True
  show ?thesis
  proof (cases "append_system_audit sha (ef_audit_id fr) (ef_audit_time fr) req (eb_audit (snd w))")
    case (Inl e)
    with assms True show ?thesis
      by (auto simp: persist_estop_def save_estop_state_with_audit_def atomically_def Let_def save_estop_state_def)
  next
    case (Inr er)
    with assms True show ?thesis
      by (cases er) (auto simp: persist_estop_def save_estop_state_with_audit_def atomically_def Let_def save_estop_state_def)
  qed
qed

section \<open>The stop over time\<close>

text \<open>
  The steps of the stop: a change by \<open>engage\<close> or \<open>resume\<close>, which may fail, and a restart of the process, which
  loads the row.
\<close>

inductive estop_step :: "(string \<Rightarrow> string) \<Rightarrow> (string \<Rightarrow> string list option) \<Rightarrow> estop_manager \<times> estop_db \<Rightarrow> estop_manager \<times> estop_db \<Rightarrow> bool"
  for sha loads where
  engage: "estop_step sha loads w (snd (engage sha fr k n f r c w))"
| resume: "estop_step sha loads w (snd (resume_estop sha fr k' n' u a c w))"
| restart: "estop_step sha loads w (\<lparr>em_state = load_estop loads (Some (eb_row (snd w)))\<rparr>, snd w)"

definition estop_inv :: "(string \<Rightarrow> string list option) \<Rightarrow> estop_manager \<times> estop_db \<Rightarrow> bool" where
  "estop_inv loads w = (load_estop loads (Some (eb_row (snd w))) = em_state (fst w) \<and> finite (es_frozen (em_state (fst w))))"

lemma load_finite: "finite (es_frozen (load_estop loads row))"
  by (auto simp: load_estop_def fail_closed_def EstopState_def split: option.splits)

lemma persist_inv:
  assumes "loads_undoes_dumps loads" "estop_inv loads w" "finite (es_frozen new)" "persist_estop sha fr new req w = (r, w')"
  shows "estop_inv loads w' \<and> prefix (eb_audit (snd w)) (eb_audit (snd w'))"
  using persist_cases [OF assms(4)]
proof
  assume "(\<exists>e. r = Inl e) \<and> w' = w"
  with assms(2) show ?thesis by simp
next
  assume new: "r = Inr new \<and> em_state (fst w') = new \<and> eb_row (snd w') = Some (estop_row_of new) \<and>
      (\<exists>event. append_system_audit sha (ef_audit_id fr) (ef_audit_time fr) req (eb_audit (snd w)) = Inr (event, eb_audit (snd w')))"
  then have "prefix (eb_audit (snd w)) (eb_audit (snd w'))" using append_extends by fastforce
  with new load_saved [OF assms(1,3)] assms(3) show ?thesis by (simp add: estop_inv_def)
qed

lemma estop_step_inv:
  assumes "loads_undoes_dumps loads" "estop_inv loads w" "estop_step sha loads w w'"
  shows "estop_inv loads w' \<and> prefix (eb_audit (snd w)) (eb_audit (snd w'))"
  using assms(3)
proof cases
  case (engage fr k n f r c)
  have "finite (es_frozen (engaged_state (ef_now fr) k n f r (em_state (fst w))))"
    using assms(2) by (simp add: estop_inv_def engaged_state_def)
  from persist_inv [OF assms(1,2) this] engage show ?thesis by (metis engage_def prod.collapse)
next
  case (resume fr k n u a c)
  have "finite (es_frozen (resumed_state (ef_now fr) k n u a (em_state (fst w))))"
    using assms(2) by (simp add: estop_inv_def resumed_state_def EstopState_def)
  from persist_inv [OF assms(1,2) this] resume show ?thesis by (metis resume_estop_def prod.collapse)
next
  case restart
  with assms(2) show ?thesis by (simp add: estop_inv_def load_finite)
qed

lemma estop_evolves:
  assumes "loads_undoes_dumps loads"
  shows "evolving_system (estop_step sha loads) (estop_inv loads) (\<lambda>w w'. prefix (eb_audit (snd w)) (eb_audit (snd w')))"
  using estop_step_inv [OF assms] by unfold_locales (auto intro: prefix_order.trans)

text \<open>
  C40: The emergency stop survives a restart: from the state a process loads, after any changes (failed ones too) and
  restarts, loading the row gives the state in memory, and the audit log has only grown.
\<close>

theorem estop_survives_restart:
  assumes "loads_undoes_dumps loads"
    and "(estop_step sha loads)\<^sup>*\<^sup>* (\<lparr>em_state = load_estop loads (Some (eb_row d))\<rparr>, d) (m, d')"
  shows "load_estop loads (Some (eb_row d')) = em_state m \<and> prefix (eb_audit d) (eb_audit d')"
proof -
  have "estop_inv loads (\<lparr>em_state = load_estop loads (Some (eb_row d))\<rparr>, d)" by (simp add: estop_inv_def load_finite)
  from evolving_system.steps_inv_evo [OF estop_evolves [OF assms(1)] assms(2) this] show ?thesis by (simp add: estop_inv_def)
qed

text \<open>
  A change of the stop is recorded or does not happen: when \<open>engage\<close> or \<open>resume\<close> succeeds, the cache and the row carry the
  new state and exactly one event was appended to the audit log; when it fails, cache, row and log are as before.
\<close>

theorem estop_change_is_recorded:
  assumes "engage sha fr k n f r c w = (res, w') \<or> resume_estop sha fr k' n' u a c w = (res, w')"
  shows "(case res of
     Inl e \<Rightarrow> w' = w
   | Inr new \<Rightarrow> em_state (fst w') = new \<and> eb_row (snd w') = Some (estop_row_of new) \<and>
       (\<exists>event. eb_audit (snd w') = eb_audit (snd w) @ [event]))"
proof -
  from assms obtain new req where "persist_estop sha fr new req w = (res, w')" by (auto simp: engage_def resume_estop_def Let_def)
  from persist_cases [OF this] append_extends show ?thesis by fastforce
qed

section \<open>What the stop stops\<close>

lemma estop_check_iff:
  "estop_check s tool \<noteq> None \<longleftrightarrow>
     es_kill_all s \<or> es_network_kill s \<and> tool \<in> set NETWORK_TOOL_NAMES \<or> tool \<in> es_frozen s"
  by (auto simp: estop_check_def engaged_def)

text \<open>
  Engaging tightens the stop unless it is told otherwise: what was rejected before stays rejected when neither grade
  is passed as \<open>False\<close>; passing \<open>False\<close> for a grade releases it, so a stop of that grade alone no longer rejects
  anything.
\<close>

theorem engage_tightens_unless_false:
  shows "(k \<noteq> Some False \<and> n \<noteq> Some False \<and> estop_check s tool \<noteq> None \<longrightarrow>
           estop_check (engaged_state t k n f r s) tool \<noteq> None) \<and>
    (\<not> es_network_kill s \<and> es_frozen s = {} \<longrightarrow> estop_check (engaged_state t (Some False) None [] r s) tool = None)"
proof
  show "k \<noteq> Some False \<and> n \<noteq> Some False \<and> estop_check s tool \<noteq> None \<longrightarrow> estop_check (engaged_state t k n f r s) tool \<noteq> None"
    unfolding estop_check_iff by (auto simp: engaged_state_def split: option.splits)
  show "\<not> es_network_kill s \<and> es_frozen s = {} \<longrightarrow> estop_check (engaged_state t (Some False) None [] r s) tool = None"
    by (simp add: estop_check_def engaged_def engaged_state_def)
qed

section \<open>A list of names can be read back\<close>

lemma ascii_escape_length: "escape_length (ascii_escape c @ x) = length (ascii_escape c)"
  by (simp add: ascii_escape_def Let_def escape_length_escape) (simp add: escape_length_def)

lemma ascii_escape_inj: "ascii_escape c = ascii_escape d \<Longrightarrow> c = d"
proof -
  assume e: "ascii_escape c = ascii_escape d"
  have lt: "of_char c < (256::nat)" for c by simp
  have high: "a = b" if "\<not> of_char a < (127::nat)" "\<not> of_char b < (127::nat)" "ascii_escape a = ascii_escape b" for a b
  proof -
    let ?m = "of_char a :: nat" and ?n = "of_char b :: nat"
    have "?m div 16 < 16" "?n div 16 < 16" using lt [of a] lt [of b] by (simp_all add: less_mult_imp_div_less)
    with that have "?m div 16 = ?n div 16" "?m mod 16 = ?n mod 16"
      by (auto simp: ascii_escape_def Let_def intro!: digit_char_inj)
    then have "?m = ?n" by (metis mult_div_mod_eq)
    then show ?thesis by simp
  qed
  have mixed: False if "of_char a < (127::nat)" "\<not> of_char b < (127::nat)" "ascii_escape a = ascii_escape b" for a b
  proof -
    let ?m = "of_char a :: nat" and ?n = "of_char b :: nat"
    have "?m < 32" "digit_char (?m div 16) = digit_char (?n div 16)"
      using that by (auto simp: ascii_escape_def escape_char_def Let_def split: if_splits)
    moreover have "?m div 16 < 16" "?n div 16 < 16" using \<open>?m < 32\<close> lt [of b] by (simp_all add: less_mult_imp_div_less)
    ultimately have "?m div 16 = ?n div 16" using digit_char_inj by blast
    moreover have "?m div 16 \<le> 1" "7 \<le> ?n div 16" using \<open>?m < 32\<close> that(2) by simp_all
    ultimately show False by simp
  qed
  show "c = d"
  proof (cases "of_char c < (127::nat)"; cases "of_char d < (127::nat)")
    assume "of_char c < (127::nat)" "of_char d < (127::nat)"
    with e show ?thesis by (simp add: ascii_escape_def escape_char_inj)
  next
    assume "of_char c < (127::nat)" "\<not> of_char d < (127::nat)"
    with mixed e show ?thesis by blast
  next
    assume "\<not> of_char c < (127::nat)" "of_char d < (127::nat)"
    with mixed e [symmetric] show ?thesis by blast
  next
    assume "\<not> of_char c < (127::nat)" "\<not> of_char d < (127::nat)"
    with high e show ?thesis by blast
  qed
qed

lemma ascii_escape_split: "ascii_escape c @ x = ascii_escape d @ y \<Longrightarrow> c = d \<and> x = y"
  using ascii_escape_length [of c x] ascii_escape_length [of d y] ascii_escape_inj by (metis append_eq_append_conv)

lemma ascii_escape_start: "\<exists>a as. ascii_escape c = a # as \<and> a \<noteq> CHR 0x22"
  using escape_char_start [of c] by (auto simp: ascii_escape_def Let_def)

lemma ascii_string_split: "ascii_string a @ x = ascii_string b @ y \<Longrightarrow> a = b \<and> x = y"
proof -
  have "concat (map ascii_escape a) @ CHR 0x22 # x = concat (map ascii_escape b) @ CHR 0x22 # y \<Longrightarrow> a = b \<and> x = y"
  proof (induction a arbitrary: b)
    case Nil
    then show ?case using ascii_escape_start [of "hd b"] by (cases b) auto
  next
    case (Cons c a)
    show ?case
    proof (cases b)
      case Nil
      with Cons.prems ascii_escape_start [of c] show ?thesis by auto
    next
      case (Cons d b')
      with Cons.prems have "ascii_escape c @ (concat (map ascii_escape a) @ CHR 0x22 # x) =
          ascii_escape d @ (concat (map ascii_escape b') @ CHR 0x22 # y)" by simp
      from ascii_escape_split [OF this] Cons.IH [of b'] Cons show ?thesis by simp
    qed
  qed
  then show "ascii_string a @ x = ascii_string b @ y \<Longrightarrow> a = b \<and> x = y" by (simp add: ascii_string_def)
qed

definition names_text :: "string list \<Rightarrow> string" where
  "names_text ts = dumps_default (JList (map JStr ts))"

lemma join_comma_Cons: "join_comma (s # ss) = s @ concat (map (\<lambda>t. '', '' @ t) ss)"
  by (induction ss arbitrary: s) simp_all

lemma names_tail_inj:
  "concat (map (\<lambda>t. '', '' @ ascii_string t) ts) @ '']'' = concat (map (\<lambda>t. '', '' @ ascii_string t) us) @ '']'' \<Longrightarrow> ts = us"
proof (induction ts arbitrary: us)
  case Nil
  then show ?case by (cases us) auto
next
  case (Cons t ts)
  then show ?case by (cases us) (auto dest!: ascii_string_split)
qed

lemma names_text_inj: "names_text ts = names_text us \<Longrightarrow> ts = us"
proof -
  assume e: "names_text ts = names_text us"
  have cons: "names_text (t # ts) = CHR ''['' # ascii_string t @ concat (map (\<lambda>t. '', '' @ ascii_string t) ts) @ '']''" for t ts
    by (simp add: names_text_def join_comma_Cons o_def)
  have nil: "names_text [] = ''[]''" by (simp add: names_text_def)
  have ne: "names_text (t # ts) \<noteq> ''[]''" for t ts
    unfolding cons by (simp add: ascii_string_def)
  show "ts = us"
  proof (cases ts)
    case Nil
    with e ne show ?thesis by (cases us) (auto simp: nil dest: sym)
  next
    case (Cons t ts')
    note t = this
    show ?thesis
    proof (cases us)
      case Nil
      with e ne t show ?thesis by (auto simp: nil)
    next
      case (Cons u us')
      with e t have "ascii_string t @ concat (map (\<lambda>t. '', '' @ ascii_string t) ts') @ '']'' =
          ascii_string u @ concat (map (\<lambda>t. '', '' @ ascii_string t) us') @ '']''" by (simp add: cons)
      from ascii_string_split [OF this] names_tail_inj t Cons show ?thesis by blast
    qed
  qed
qed

text \<open>A reader that undoes the writer.\<close>

definition demo_loads :: "string \<Rightarrow> string list option" where
  "demo_loads t = (if t \<in> range names_text then Some (inv names_text t) else None)"

lemma demo_loads_ok: "loads_undoes_dumps demo_loads"
proof -
  have "inj names_text" by (rule injI) (rule names_text_inj)
  then have "demo_loads (names_text ts) = Some ts" for ts by (simp add: demo_loads_def inv_f_f)
  then show ?thesis by (simp add: loads_undoes_dumps_def names_text_def)
qed

section \<open>The theorems on concrete stops\<close>

definition demo_fresh :: estop_fresh where
  "demo_fresh = \<lparr>ef_audit_id = ''a1'', ef_audit_time = ''t1'', ef_now = ''t0'', ef_ulid = ''01H''\<rparr>"

definition demo_stop :: "estop_manager \<times> estop_db" where
  "demo_stop = (\<lparr>em_state = EstopState\<rparr>, \<lparr>eb_row = None, eb_audit = []\<rparr>)"

definition demo_new :: estop_state where
  "demo_new = engaged_state ''t0'' (Some True) None [''bash''] None EstopState"

lemma demo_engage:
  "\<exists>d. engage toy_digest demo_fresh (Some True) None [''bash''] None None demo_stop = (Inr demo_new, \<lparr>em_state = demo_new\<rparr>, d)"
proof -
  let ?req = "estop_audit_request toy_digest ''01H'' demo_new ''estop.engaged'' None"
  have v: "valid_audit_request ?req" by code_simp
  from append_succeeds [where sha = toy_digest and i = "''a1''" and t = "''t1''", OF audit_log.empty v toy_digest_hex]
  obtain e where "append_system_audit toy_digest ''a1'' ''t1'' ?req [] = Inr (e, [e])" by auto
  then show ?thesis
    using v by (simp add: engage_def persist_estop_def save_estop_state_with_audit_def save_estop_state_def atomically_def
        demo_fresh_def demo_stop_def demo_new_def [symmetric] Let_def)
qed

theorem estop_survives_restart_witness:
  "\<exists>d. (estop_step toy_digest demo_loads)\<^sup>*\<^sup>* demo_stop (\<lparr>em_state = demo_new\<rparr>, d) \<and>
     load_estop demo_loads (Some (eb_row d)) = demo_new"
proof -
  obtain d where d: "engage toy_digest demo_fresh (Some True) None [''bash''] None None demo_stop = (Inr demo_new, \<lparr>em_state = demo_new\<rparr>, d)"
    using demo_engage by blast
  have "estop_step toy_digest demo_loads demo_stop (\<lparr>em_state = demo_new\<rparr>, d)"
    using estop_step.engage [of toy_digest demo_loads demo_stop demo_fresh "Some True" None "[''bash'']" None None] d by simp
  then have steps: "(estop_step toy_digest demo_loads)\<^sup>*\<^sup>* demo_stop (\<lparr>em_state = demo_new\<rparr>, d)" by (rule r_into_rtranclp)
  have "demo_stop = (\<lparr>em_state = load_estop demo_loads (Some (eb_row (snd demo_stop)))\<rparr>, snd demo_stop)"
    by (simp add: demo_stop_def load_estop_def)
  with estop_survives_restart [OF demo_loads_ok, of toy_digest "snd demo_stop"] steps show ?thesis by (metis estop_manager.select_convs(1))
qed

theorem estop_change_is_recorded_witness:
  "\<exists>w'. engage toy_digest demo_fresh (Some True) None [''bash''] None None demo_stop = (Inr demo_new, w') \<and>
     eb_row (snd w') = Some (estop_row_of demo_new)"
proof -
  obtain d where d: "engage toy_digest demo_fresh (Some True) None [''bash''] None None demo_stop = (Inr demo_new, \<lparr>em_state = demo_new\<rparr>, d)"
    using demo_engage by blast
  from estop_change_is_recorded [OF disjI1 [OF d]] d show ?thesis by auto
qed

theorem engage_tightens_unless_false_witness:
  "estop_check (engaged_state ''t1'' None (Some True) [] None demo_new) ''read_file'' \<noteq> None"
proof -
  have "estop_check demo_new ''read_file'' \<noteq> None" unfolding estop_check_iff by (simp add: demo_new_def engaged_state_def)
  with engage_tightens_unless_false [of None "Some True" demo_new "''read_file''" "''t1''" "[]" None] show ?thesis by blast
qed

end
