(* ===== verification/Tool_Registry.thy ===== *)
theory Tool_Registry
  imports Policy_Rules Estop
begin

text \<open>
  \<open>tools/mcp/naming.py\<close> and \<open>tools/registry.py\<close>: the names of MCP tools and the registry every tool call goes through,
  also the read-only ones that skip the hook chain. \<open>execute\<close> is a sequence of gates; what passes them all is
  invoked. Parameters of a call are what the registry looks up around it: the ambient persona, the workspace
  binding, the managed attempt, \<open>json.loads\<close> and the validation against the tool's schema (package \<open>jsonschema\<close>).
\<close>

section \<open>Names of MCP tools\<close>

definition encode_tool_name :: "string \<Rightarrow> string \<Rightarrow> string result" where
  "encode_tool_name server tool =
     (if server = [] then Inl (ValueError ''server name must be non-empty'')
      else if tool = [] then Inl (ValueError ''tool name must be non-empty'')
      else if CHR ''_'' \<in> set server then Inl (ValueError ''server name must not contain underscore'')
      else Inr (''mcp_'' @ server @ ''_'' @ tool))"

text \<open>\<open>name.split("_", 2)\<close>: at most two splits.\<close>

definition decode_tool_name :: "string \<Rightarrow> (string \<times> string) option" where
  "decode_tool_name name =
     (if count_list name (CHR ''_'') < 2 then None
      else
        (let p0 = before (CHR ''_'') name; rest = after (CHR ''_'') name
         in if p0 = ''mcp'' then Some (before (CHR ''_'') rest, after (CHR ''_'') rest) else None))"

definition is_mcp_tool :: "string \<Rightarrow> bool" where
  "is_mcp_tool name = (decode_tool_name name \<noteq> None)"

section \<open>The registry\<close>

record tool_definition =
  td_name :: string
  td_parameters :: json
  td_tier :: int
  td_max_result_chars :: int
  td_side_effect :: bool
  td_managed :: bool

record tool_result =
  tr_content :: string
  tr_is_error :: bool

text \<open>A tool's function: what it returns on its arguments, \<open>None\<close> for an exception.\<close>

type_synonym tool_func = "args \<Rightarrow> tool_result option"

record tool_registry =
  tg_tools :: "(string \<times> tool_definition \<times> tool_func) list"
  tg_disabled :: "string set"
  tg_estop :: "estop_state option"
  tg_managed_executor :: bool

definition register_tool :: "string \<Rightarrow> tool_func \<Rightarrow> tool_definition \<Rightarrow> tool_registry \<Rightarrow> tool_registry" where
  "register_tool name func defn g = g\<lparr>tg_tools := dict_set name (defn, func) (tg_tools g)\<rparr>"

definition disable_tool :: "string \<Rightarrow> tool_registry \<Rightarrow> tool_registry" where
  "disable_tool name g = g\<lparr>tg_disabled := insert name (tg_disabled g)\<rparr>"

definition enable_tool :: "string \<Rightarrow> tool_registry \<Rightarrow> tool_registry" where
  "enable_tool name g = g\<lparr>tg_disabled := tg_disabled g - {name}\<rparr>"

definition apply_disabled :: "string list \<Rightarrow> tool_registry \<Rightarrow> tool_registry" where
  "apply_disabled names g = g\<lparr>tg_disabled := set names\<rparr>"

definition get_openai_tools :: "tool_registry \<Rightarrow> string list" where
  "get_openai_tools g =
     map td_name (filter (\<lambda>d. td_name d \<notin> tg_disabled g) (map (fst \<circ> snd) (tg_tools g)))"

definition get_definition :: "string \<Rightarrow> tool_registry \<Rightarrow> tool_definition option" where
  "get_definition name g = map_option fst (map_of (tg_tools g) name)"

section \<open>The gates of a call\<close>

datatype call_args = ArgsText string | ArgsValue json

record call_env =
  ce_persona :: "persona option"
  ce_workspace :: "string + bool"
  ce_authority :: bool
  ce_loads :: "string \<Rightarrow> json option"
  ce_validate :: "json \<Rightarrow> args \<Rightarrow> bool"

datatype gate_reason =
    ToolNotFound | StoppedBy estop_rejection | DisabledByAdmin | PersonaContract clause | WorkspaceBindingLost string
  | McpNotIsolated | WindingDown | InvalidJson | NotAnObject | SchemaViolation | NoManagedAdapter | NoManagedAuthority

datatype gate = Reject gate_reason | RunManaged tool_definition args | RunDirect tool_definition args

text \<open>\<open>int(defn.tier)\<close> outside 0 to 4 counts as dangerous for this call.\<close>

definition effective_definition :: "tool_definition \<Rightarrow> tool_definition" where
  "effective_definition d =
     (if td_tier d \<in> {0, 1, 2, 3, 4} then d else d\<lparr>td_tier := tier_value T4_DANGEROUS\<rparr>)"

definition parse_args :: "call_env \<Rightarrow> call_args \<Rightarrow> gate_reason + args" where
  "parse_args env a =
     (let v = (case a of ArgsText t \<Rightarrow> ce_loads env t | ArgsValue v \<Rightarrow> Some v)
      in case v of None \<Rightarrow> Inl InvalidJson | Some (JObj kvs) \<Rightarrow> Inr kvs | Some _ \<Rightarrow> Inl NotAnObject)"

text \<open>Arguments the schema does not declare are dropped.\<close>

fun declared_keys :: "json \<Rightarrow> string list" where
  "declared_keys (JObj kvs) = (case map_of kvs ''properties'' of Some (JObj ps) \<Rightarrow> map fst ps | _ \<Rightarrow> [])"
| "declared_keys _ = []"

definition declared_args :: "tool_definition \<Rightarrow> args \<Rightarrow> args" where
  "declared_args d kvs = filter (\<lambda>(k, v). k \<in> set (declared_keys (td_parameters d))) kvs"

definition persona_gate :: "call_env \<Rightarrow> string \<Rightarrow> tool_definition \<Rightarrow> clause option" where
  "persona_gate env name d =
     (case ce_persona env of None \<Rightarrow> None
      | Some p \<Rightarrow>
          (case persona_tool_verdict p name (td_tier d) of
             Some ClauseTierExceeded \<Rightarrow> None
           | c \<Rightarrow> c))"

definition gate_call :: "call_env \<Rightarrow> tool_registry \<Rightarrow> string \<Rightarrow> call_args \<Rightarrow> string \<Rightarrow> gate" where
  "gate_call env g name a phase =
     (case map_of (tg_tools g) name of
        None \<Rightarrow> Reject ToolNotFound
      | Some (defn, func) \<Rightarrow>
          (case (case tg_estop g of None \<Rightarrow> None | Some s \<Rightarrow> estop_check s name) of
             Some r \<Rightarrow> Reject (StoppedBy r)
           | None \<Rightarrow>
               if name \<in> tg_disabled g then Reject DisabledByAdmin
               else
                 (case persona_gate env name defn of
                    Some c \<Rightarrow> Reject (PersonaContract c)
                  | None \<Rightarrow>
                      (case ce_workspace env of
                         Inl e \<Rightarrow> Reject (WorkspaceBindingLost e)
                       | Inr bound \<Rightarrow>
                           if bound \<and> is_mcp_tool name then Reject McpNotIsolated
                           else
                             (let d = effective_definition defn
                              in if phase = ''winding_down'' \<and> td_side_effect d then Reject WindingDown
                                 else
                                   (case parse_args env a of
                                      Inl r \<Rightarrow> Reject r
                                    | Inr kvs \<Rightarrow>
                                        if \<not> ce_validate env (td_parameters d) kvs then Reject SchemaViolation
                                        else if td_side_effect d \<and> ce_authority env then
                                          (if \<not> tg_managed_executor g then Reject NoManagedAdapter
                                           else RunManaged d (declared_args d kvs))
                                        else if td_managed d then Reject NoManagedAuthority
                                        else RunDirect d (declared_args d kvs)))))))"

text \<open>
  \<open>_invoke\<close>: a read-only tool runs at once, any other one between the \<open>before\<close> and \<open>after\<close> hooks.
\<close>

record tool_hook =
  th_before :: "string \<Rightarrow> args \<Rightarrow> args option"
  th_after :: "string \<Rightarrow> args \<Rightarrow> tool_result \<Rightarrow> tool_result option"

definition failed_call :: tool_result where
  "failed_call = \<lparr>tr_content = ''Error executing tool'', tr_is_error = True\<rparr>"

definition run_before :: "string \<Rightarrow> tool_hook list \<Rightarrow> args \<Rightarrow> args" where
  "run_before name hooks a = fold (\<lambda>h a. case th_before h name a of None \<Rightarrow> a | Some b \<Rightarrow> b) hooks a"

definition run_after :: "string \<Rightarrow> tool_hook list \<Rightarrow> args \<Rightarrow> tool_result \<Rightarrow> tool_result" where
  "run_after name hooks a r = fold (\<lambda>h r. case th_after h name a r of None \<Rightarrow> r | Some x \<Rightarrow> x) hooks r"

definition invoke :: "string \<Rightarrow> tool_hook list \<Rightarrow> tool_definition \<Rightarrow> tool_func \<Rightarrow> args \<Rightarrow> tool_result" where
  "invoke name hooks d func a =
     (if td_tier d = tier_value T0_READONLY then (case func a of None \<Rightarrow> failed_call | Some r \<Rightarrow> r)
      else
        (let a1 = run_before name hooks a
         in case func a1 of None \<Rightarrow> failed_call | Some r \<Rightarrow> run_after name hooks a1 r))"

text \<open>\<open>execute\<close>; \<open>managed\<close> is the managed side-effect executor. A rejection is an error result.\<close>

definition execute_call ::
  "call_env \<Rightarrow> tool_hook list \<Rightarrow> (tool_definition \<Rightarrow> args \<Rightarrow> tool_result) \<Rightarrow> tool_registry \<Rightarrow> string \<Rightarrow> call_args \<Rightarrow> string \<Rightarrow>
   gate_reason + tool_result" where
  "execute_call env hooks managed g name a phase =
     (case gate_call env g name a phase of
        Reject r \<Rightarrow> Inl r
      | RunManaged d kvs \<Rightarrow> Inr (managed d kvs)
      | RunDirect d kvs \<Rightarrow>
          (case map_of (tg_tools g) name of
             None \<Rightarrow> Inl ToolNotFound
           | Some (_, func) \<Rightarrow> Inr (invoke name hooks d func kvs)))"

section \<open>What the gates guarantee\<close>

text \<open>
  The emergency stop comes first: with a stop installed that rejects a tool, a call of the tool is rejected by it, for a
  read-only tool too, whatever its arguments, the persona and the phase; under \<open>kill_all\<close> that is every
  registered tool.
\<close>

theorem estop_rejects_call:
  assumes "map_of (tg_tools g) name = Some df" and "tg_estop g = Some s"
    and "es_kill_all s \<or> es_network_kill s \<and> name \<in> set NETWORK_TOOL_NAMES \<or> name \<in> es_frozen s"
  shows "\<exists>r. execute_call env hooks managed g name a phase = Inl (StoppedBy r)"
proof -
  obtain r where "estop_check s name = Some r" using estop_check_iff [of s name] assms(3) by auto
  then show ?thesis using assms(1,2) by (cases df) (simp add: execute_call_def gate_call_def)
qed

lemma gate_call_passed:
  assumes "gate_call env g name a phase = r" and "\<not> (\<exists>x. r = Reject x)"
  shows "\<exists>defn func kvs. map_of (tg_tools g) name = Some (defn, func) \<and> name \<notin> tg_disabled g \<and>
    (\<forall>s. tg_estop g = Some s \<longrightarrow> estop_check s name = None) \<and> persona_gate env name defn = None \<and>
    (phase = ''winding_down'' \<longrightarrow> \<not> td_side_effect (effective_definition defn)) \<and>
    parse_args env a = Inr kvs \<and> ce_validate env (td_parameters (effective_definition defn)) kvs \<and>
    (td_managed (effective_definition defn) \<longrightarrow> td_side_effect (effective_definition defn) \<and> ce_authority env) \<and>
    (r = RunManaged (effective_definition defn) (declared_args (effective_definition defn) kvs) \<or>
     r = RunDirect (effective_definition defn) (declared_args (effective_definition defn) kvs))"
proof -
  obtain defn func where m: "map_of (tg_tools g) name = Some (defn, func)"
    using assms by (cases "map_of (tg_tools g) name") (auto simp: gate_call_def)
  have stop: "(case tg_estop g of None \<Rightarrow> None | Some s \<Rightarrow> estop_check s name) = None"
    using assms m by (cases "case tg_estop g of None \<Rightarrow> None | Some s \<Rightarrow> estop_check s name") (auto simp: gate_call_def)
  have dis: "name \<notin> tg_disabled g" using assms m stop by (auto simp: gate_call_def)
  have per: "persona_gate env name defn = None"
    using assms m stop dis by (cases "persona_gate env name defn") (auto simp: gate_call_def)
  obtain b where b: "ce_workspace env = Inr b" "\<not> (b \<and> is_mcp_tool name)"
    using assms m stop dis per by (cases "ce_workspace env") (auto simp: gate_call_def split: if_split_asm)
  have wind: "\<not> (phase = ''winding_down'' \<and> td_side_effect (effective_definition defn))"
    using assms m stop dis per b by (auto simp: gate_call_def)
  obtain kvs where kvs: "parse_args env a = Inr kvs"
    using assms m stop dis per b wind by (cases "parse_args env a") (auto simp: gate_call_def Let_def)
  have val: "ce_validate env (td_parameters (effective_definition defn)) kvs"
    using assms m stop dis per b wind kvs by (auto simp: gate_call_def Let_def split: if_split_asm)
  have run: "r = (if td_side_effect (effective_definition defn) \<and> ce_authority env then
        (if \<not> tg_managed_executor g then Reject NoManagedAdapter
         else RunManaged (effective_definition defn) (declared_args (effective_definition defn) kvs))
      else if td_managed (effective_definition defn) then Reject NoManagedAuthority
      else RunDirect (effective_definition defn) (declared_args (effective_definition defn) kvs))"
    using assms(1) m stop dis per b wind kvs val by (auto simp: gate_call_def Let_def)
  with assms(2) have "(td_managed (effective_definition defn) \<longrightarrow> td_side_effect (effective_definition defn) \<and> ce_authority env) \<and>
    (r = RunManaged (effective_definition defn) (declared_args (effective_definition defn) kvs) \<or>
     r = RunDirect (effective_definition defn) (declared_args (effective_definition defn) kvs))"
    by (auto split: if_split_asm)
  moreover have "tg_estop g = Some s \<Longrightarrow> estop_check s name = None" for s using stop by simp
  ultimately show ?thesis using m dis per wind kvs val by blast
qed

lemma effective_definition_fields [simp]:
  "td_side_effect (effective_definition d) = td_side_effect d" "td_managed (effective_definition d) = td_managed d"
  "td_parameters (effective_definition d) = td_parameters d" "declared_args (effective_definition d) = declared_args d"
  by (simp_all add: effective_definition_def declared_args_def fun_eq_iff)

lemma persona_gate_None:
  "persona_gate env name d = None \<longleftrightarrow>
     (\<forall>p. ce_persona env = Some p \<longrightarrow> persona_tool_verdict p name (td_tier d) \<in> {None, Some ClauseTierExceeded})"
  by (auto simp: persona_gate_def split: option.splits clause.splits)

text \<open>
  What runs has passed every gate: when a call is not rejected, the tool is registered, not stopped, not disabled, not
  excluded by the persona's lists; in the closing phase it has no side effect; its arguments satisfy the schema and
  only declared ones are passed on; and a tool with managed effects runs under a managed attempt only.
\<close>

theorem executed_call_passed_gates:
  assumes "execute_call env hooks managed g name a phase = Inr res"
  shows "\<exists>defn func kvs. map_of (tg_tools g) name = Some (defn, func) \<and> name \<notin> tg_disabled g \<and>
    (\<forall>s. tg_estop g = Some s \<longrightarrow> estop_check s name = None) \<and>
    (\<forall>p. ce_persona env = Some p \<longrightarrow> persona_tool_verdict p name (td_tier defn) \<in> {None, Some ClauseTierExceeded}) \<and>
    (phase = ''winding_down'' \<longrightarrow> \<not> td_side_effect defn) \<and>
    parse_args env a = Inr kvs \<and> ce_validate env (td_parameters defn) kvs \<and>
    (td_managed defn \<longrightarrow> td_side_effect defn \<and> ce_authority env) \<and>
    (res = managed (effective_definition defn) (declared_args defn kvs) \<or>
     res = invoke name hooks (effective_definition defn) func (declared_args defn kvs))"
proof -
  let ?r = "gate_call env g name a phase"
  have nr: "\<not> (\<exists>x. ?r = Reject x)" using assms by (auto simp: execute_call_def)
  from gate_call_passed [OF refl nr] obtain defn func kvs where
    k: "map_of (tg_tools g) name = Some (defn, func)" "name \<notin> tg_disabled g"
      "\<forall>s. tg_estop g = Some s \<longrightarrow> estop_check s name = None" "persona_gate env name defn = None"
      "phase = ''winding_down'' \<longrightarrow> \<not> td_side_effect defn" "parse_args env a = Inr kvs"
      "ce_validate env (td_parameters defn) kvs" "td_managed defn \<longrightarrow> td_side_effect defn \<and> ce_authority env"
      "?r = RunManaged (effective_definition defn) (declared_args defn kvs) \<or> ?r = RunDirect (effective_definition defn) (declared_args defn kvs)"
    by auto
  have "res = managed (effective_definition defn) (declared_args defn kvs) \<or>
      res = invoke name hooks (effective_definition defn) func (declared_args defn kvs)"
    using assms k(1,9) by (auto simp: execute_call_def)
  with k(1-8) show ?thesis unfolding persona_gate_None by blast
qed

lemma before_after_append:
  "c \<notin> set xs \<Longrightarrow> before c (xs @ c # ys) = xs \<and> after c (xs @ c # ys) = ys"
  by (induction xs) (auto simp: before_def after_def)

text \<open>
  The name of an MCP tool can be taken apart again: decoding an encoded name gives the server and the tool.
\<close>

theorem mcp_name_roundtrip:
  assumes "encode_tool_name server tool = Inr name"
  shows "decode_tool_name name = Some (server, tool) \<and> is_mcp_tool name"
proof -
  have n: "name = ''mcp'' @ CHR ''_'' # server @ CHR ''_'' # tool" and s: "CHR ''_'' \<notin> set server"
    using assms by (auto simp: encode_tool_name_def split: if_split_asm)
  have "before (CHR ''_'') name = ''mcp'' \<and> after (CHR ''_'') name = server @ CHR ''_'' # tool"
    unfolding n by (rule before_after_append) simp
  moreover have "count_list name (CHR ''_'') \<ge> 2" by (simp add: n)
  ultimately have "decode_tool_name name = Some (server, tool)"
    using before_after_append [OF s, of tool] by (simp add: decode_tool_name_def Let_def)
  then show ?thesis by (simp add: is_mcp_tool_def)
qed

section \<open>The theorems on a concrete registry\<close>

definition demo_tool :: tool_definition where
  "demo_tool = \<lparr>td_name = ''read_file'', td_parameters = JObj [(''properties'', JObj [(''path'', JNull)])], td_tier = 0,
     td_max_result_chars = 8000, td_side_effect = False, td_managed = False\<rparr>"

definition demo_tools :: "estop_state option \<Rightarrow> tool_registry" where
  "demo_tools s = register_tool ''read_file'' (\<lambda>a. Some \<lparr>tr_content = ''ok'', tr_is_error = False\<rparr>) demo_tool
     \<lparr>tg_tools = [], tg_disabled = {}, tg_estop = s, tg_managed_executor = False\<rparr>"

definition demo_call_env :: call_env where
  "demo_call_env = \<lparr>ce_persona = None, ce_workspace = Inr False, ce_authority = False, ce_loads = (\<lambda>_. None),
     ce_validate = (\<lambda>_ _. True)\<rparr>"

theorem estop_rejects_call_witness:
  "\<exists>r. execute_call demo_call_env [] (\<lambda>d a. failed_call) (demo_tools (Some fail_closed)) ''read_file'' (ArgsValue (JObj [])) ''active'' =
     Inl (StoppedBy r)"
proof (rule estop_rejects_call)
  show "map_of (tg_tools (demo_tools (Some fail_closed))) ''read_file'' = Some (demo_tool, \<lambda>a. Some \<lparr>tr_content = ''ok'', tr_is_error = False\<rparr>)"
    "tg_estop (demo_tools (Some fail_closed)) = Some fail_closed"
    by (simp_all add: demo_tools_def register_tool_def)
  show "es_kill_all fail_closed \<or> es_network_kill fail_closed \<and> ''read_file'' \<in> set NETWORK_TOOL_NAMES \<or> ''read_file'' \<in> es_frozen fail_closed"
    by (simp add: fail_closed_def)
qed

theorem executed_call_passed_gates_witness: "''read_file'' \<notin> tg_disabled (demo_tools None)"
proof -
  have "execute_call demo_call_env [] (\<lambda>d a. failed_call) (demo_tools None) ''read_file'' (ArgsValue (JObj [(''path'', JStr ''a''), (''limit'', JNull)])) ''active'' =
     Inr \<lparr>tr_content = ''ok'', tr_is_error = False\<rparr>" by code_simp
  from executed_call_passed_gates [OF this] show ?thesis by blast
qed

theorem mcp_name_roundtrip_witness: "decode_tool_name ''mcp_github_create_issue'' = Some (''github'', ''create_issue'')"
proof -
  have "encode_tool_name ''github'' ''create_issue'' = Inr ''mcp_github_create_issue''" by code_simp
  from mcp_name_roundtrip [OF this] show ?thesis by blast
qed

end
