(* ===== verification/Spec2Isabelle.thy ===== *)
theory Spec2Isabelle
  imports Attempt_Safety Run_State_Safety Audit_Chain Canonical_Injective Unit_Of_Work Outbox_Safety Decision_Authority Managed_Safety Dag_Retry Run_Dispatch_Safety Run_Recovery_Safety Scheduled_Safety Ingress_Safety Graph_Retry Evolution_Safety Policy_Hook Tool_Registry
begin

text \<open>
  \<^bold>\<open>Tianshu: the durable execution core, its entrances, governed evolution and the tool policy.\<close>

  Tianshu runs agents under governance. A user files an edict; the planner turns it into a task graph; every
  piece of work is a memorial that a worker executes as a leased attempt; what the agent does goes through
  tools, each call of which passes a policy; what needs a human becomes a durable decision; what reaches the
  outside world is a journalled side effect; what happened is an event in an outbox and an entry of a
  hash-chained audit log. The state lives in one SQLite database, written by repositories under a unit of
  work. This development models the parts that decide whether that state is right and whether a tool call
  runs. Paths below are relative to \<open>src/src/tianshu\<close>.

  \<^bold>\<open>Conventions.\<close> A Python class of data is a \<open>record\<close>, an enumeration a \<open>datatype\<close>, an SQL table the list
  of its rows. A function that may raise returns \<open>exn + 'a\<close> (type \<open>'a result\<close>); one that owns a
  transaction returns its result and the committed database (\<open>atomically\<close>); one that ends in \<open>_current\<close> or
  \<open>_in_transaction\<close> runs in the caller's. Time is an \<open>int\<close> of microseconds; Python's unbounded integers
  are \<open>int\<close>. Checks of a Python type are carried by the HOL type.

  \<^bold>\<open>Theories and sources.\<close>

  \<^item> \<open>Prelude\<close>: exceptions, results, transactions, the three SQL statements the repositories are written
    with, and the interfaces \<open>evolving_system\<close>, \<open>revocable_authority\<close> and \<open>versioned_store\<close> (below).
  \<^item> \<open>Canonical\<close>, \<open>Canonical_Injective\<close>: \<open>models/canonical.py\<close>. Canonical bytes determine the value.
  \<^item> \<open>Database\<close>: the tables the repositories share, \<open>storage/correlation.py\<close>.
  \<^item> \<open>Unit_Of_Work\<close>: \<open>storage/unit_of_work.py\<close> as a state of connection and lock; the body of a
    \<open>with\<close> statement takes effect as a whole or not at all.
  \<^item> \<open>Attempt_Model\<close>, \<open>Attempt_Ledger\<close>, \<open>Attempt_Safety\<close>: \<open>models/attempt.py\<close>, \<open>storage/attempt_ledger.py\<close>.
    The ledger invariant, fencing (a lost lease never writes again, one authority per memorial, tokens only
    grow), takeover of expired leases, the retry budget, finality.
  \<^item> \<open>System_Audit\<close>, \<open>Audit_Chain\<close>: \<open>models/system_audit.py\<close>, \<open>storage/system_audit_repo.py\<close>. Logs built by
    appends verify; two verified logs with one terminal hash are the same, unless the hash collides.
  \<^item> \<open>Run_State_Model\<close>, \<open>Run_State_Repo\<close>, \<open>Run_State_Safety\<close>: \<open>models/plan_revision.py\<close>,
    \<open>models/run_state.py\<close>, \<open>storage/run_state_repo.py\<close>. Compare-and-swap happens at most once per version;
    identity and lineage are never rewritten.
  \<^item> \<open>Event_Bus\<close>, \<open>Outbox_Repo\<close>, \<open>Outbox_Dispatcher\<close>, \<open>Outbox_Safety\<close>: \<open>bus/event_bus.py\<close>,
    \<open>storage/outbox_repo.py\<close>, \<open>application/outbox.py\<close>. An event is marked published only when every consumer
    took it; an expired lease acknowledges nothing.
  \<^item> \<open>Decision_Model\<close>, \<open>Decision_Repo\<close>, \<open>Decision_Service\<close>, \<open>Decision_Safety\<close>, \<open>Decision_Authority\<close>:
    \<open>models/decision.py\<close>, \<open>storage/decision_repo.py\<close>, \<open>governance/decision_service.py\<close>. A decision is resolved
    once, by an authorised principal, and a refused resolution leaves an audit entry.
  \<^item> \<open>Side_Effect_Model\<close>, \<open>Side_Effect_Journal\<close>, \<open>Effect_Safety\<close>, \<open>Managed_Effects\<close>, \<open>Managed_Safety\<close>:
    \<open>models/side_effect.py\<close>, \<open>storage/side_effect_journal.py\<close>, \<open>executor/side_effects.py\<close>. An effect with an
    idempotent provider is applied at most once over crashes and repetitions; a receipt is final; the suspension
    on an uncertain effect happens in one piece.
  \<^item> \<open>Run_Completion\<close>, \<open>Run_Closing\<close>, \<open>Run_Lifecycle\<close>, \<open>Run_Safety\<close>: \<open>application/fenced_run_completion.py\<close> and the loop
    state of \<open>storage/orchestrator_repo.py\<close>, on the tables of the attempts, memorials, run states and the outbox. A run
    ends all or nothing, with exactly one terminal event, and a run that ended never has a current worker again.
  \<^item> \<open>Run_Dispatch\<close>, \<open>Run_Dispatch_Safety\<close>: \<open>application/run_dispatcher.py\<close>, \<open>application/run_execution.py\<close> and the scan of
    \<open>application/run_reconciler.py\<close>. A due run is started, an acknowledged completion is durable, and a retry that is
    reported late is lost.
  \<^item> \<open>Dag_Graph\<close>, \<open>Dag_Correct\<close>, \<open>Dag_Repo\<close>, \<open>Dag_Scheduler\<close>, \<open>Failure_Reason\<close>, \<open>Dag_Safety\<close>, \<open>Dag_Retry\<close>:
    \<open>models/dag.py\<close>, \<open>dag/graph.py\<close>, \<open>storage/dag_repo.py\<close>, \<open>executor/checkpoint.py\<close>, \<open>models/failure.py\<close>,
    \<open>models/plan.py\<close>, \<open>executor/dag_scheduler.py\<close>, the callbacks of \<open>executor/worker_pool.py\<close>,
    \<open>executor/cancel.py\<close>. Validation accepts exactly the acyclic graphs; nodes wait for their dependencies; a run
    of a sound graph ends with every node settled; a retry is claimed once.
  \<^item> \<open>Run_Recovery\<close>, \<open>Run_Recovery_Keeps\<close>, \<open>Run_Recovery_Safety\<close>: \<open>application/continuation_recovery.py\<close>,
    \<open>application/plan_review_lifecycle.py\<close>. A resolved decision is carried out as a whole and once; the scan of plan
    reviews fails every attempt that is suspended for another reason.
  \<^item> \<open>Run_Ingress\<close>, \<open>Ingress_Safety\<close>, \<open>Graph_Retry\<close>: \<open>application/managed_run_ingress.py\<close>, the entrance of requests: a
    new run, the adoption of a run that is there, the retry of a task graph. A request is one piece; a repeated one
    answers the same run, except that it conflicts once the first attempt was resumed; a follow-up waits until the edict is
    idle; a graph retry moves the execution to the new root and resets exactly what depends on the targets.
  \<^item> \<open>Scheduler_Repo\<close>, \<open>Scheduled_Runs\<close>, \<open>Scheduled_Fires\<close>, \<open>Scheduled_Safety\<close>: \<open>storage/scheduler_repo.py\<close>,
    \<open>application/scheduled_runs.py\<close>. A fire is one piece, moves the cursor of its job forward, is idempotent, and each
    instant of a job runs once.
  \<^item> \<open>Python_Time\<close>, \<open>Evolution_Model\<close>, \<open>Evolution_Repo\<close>, \<open>Challenger_Router\<close>, \<open>Evolution_Safety\<close>: dates as
    Python prints them; \<open>models/evolution.py\<close>, \<open>storage/evolution_repo.py\<close>, \<open>evolution/router.py\<close>. A promoted
    candidate went through every station, code with an approved decision bound to it; an assignment is permanent;
    a run is routed by its bucket, within the contract.
  \<^item> \<open>Python_Lib\<close>, \<open>Bash_Analysis\<close>: what the policy uses of Python's library; \<open>security/bash_analysis.py\<close> against
    a reference automaton for quoting.
  \<^item> \<open>Policy_Engine\<close>, \<open>Policy_Profile\<close>, \<open>Policy_Rules\<close>, \<open>Policy_Safety\<close>: \<open>tools/policy.py\<close>,
    \<open>tools/policy_profile.py\<close>, \<open>tools/policy_rules\<close>, \<open>tools/path_utils.py\<close>, \<open>persona/match.py\<close>. What an allowed
    shell command is made of, that the boundary rule agrees with the sandbox of the file tools, and where a
    raised tier hides a denial.
  \<^item> \<open>Session_Rules\<close>: \<open>tools/policy_store.py\<close> and the expansion of profiles; interface \<open>session_rule_store\<close>.
  \<^item> \<open>Policy_Hook\<close>: \<open>kernel/hooks.py\<close>, \<open>executor/policy_hook.py\<close>. A call goes ahead only on the grounds the code
    names; a denylisted command is blocked whatever the other hooks answer.
  \<^item> \<open>Estop\<close>, \<open>Tool_Registry\<close>: \<open>security/estop.py\<close>, \<open>storage/security_repo.py\<close>, \<open>tools/registry.py\<close>,
    \<open>tools/mcp/naming.py\<close>. The emergency stop survives a restart; what the registry executes passed every gate.

  \<^bold>\<open>Interfaces.\<close> \<open>evolving_system\<close> fixes a step relation, an invariant and an order of states and gives, for
  step sequences, that the invariant holds and the order grows; \<open>evolution\<close> (candidates, their journal and the
  assignments) and \<open>fires\<close> (the ledger of fires) are its own interpretations. \<open>revocable_authority\<close> adds an authority that
  is lost for good; its interpretations are \<open>ledger\<close> (leases of attempts), \<open>decisions\<close> (pending requests),
  \<open>effects\<close> (open intents), \<open>outbox\<close> (leases of events) and \<open>runs\<close> (the live attempts of a root that is not closed). \<open>versioned_store\<close> adds a version that every
  successful write passes; its interpretations are \<open>run_states\<close> and
  \<open>candidate_store\<close>. \<open>session_rule_store\<close> is what a client of a rule
  store relies on, interpreted by the in-memory, the SQLite and the composite store (\<open>memory\<close>, \<open>sqlite\<close>,
  \<open>composite\<close>).

  \<^bold>\<open>Parameters.\<close> Code that is not part of the model is an argument: the hash functions \<open>sha\<close>, the redaction
  \<open>redact\<close> and the scanners \<open>secret\<close> and \<open>sensitive\<close> of \<open>security\<close>, clock readings, fresh identifiers,
  the provider of a side effect, the work of a task node, \<open>Path.resolve\<close>, the checks of a host name,
  \<open>json.loads\<close>, the package \<open>jsonschema\<close>, the answer of the approval port, the keyed
  hash that gives a bucket, the resolver of overlay payloads, the package that computes cron expressions, the hooks at
  the boundary of a transaction. What a theorem needs of one is a
  hypothesis of the theorem.

  \<^bold>\<open>Interleaving and termination.\<close> Each component with concurrent clients has an inductive step relation with
  one rule per public operation, so a sequence of steps is any interleaving of committed operations of any
  callers, failed operations included. All recursions are total. The runs of the task graph are step sequences;
  that they end is proved from a measure, not assumed. No theorem rests on fuel.

  \<^bold>\<open>Not modelled.\<close> The agent loop, planner, orchestrator, consultation and auditor, which converse with language
  models; workspaces, which drive git and file descriptors; the gateway, notifier and channels; the individual
  tools; skills, personas other than their access test, memory, universe; the encryption of secrets. The cost
  accounts work in binary floating point and are left out for that reason. Within
  modelled parts: the asyncio tasks that poll the outbox and the schedule and supervise runs, cancellation that arrives in
  the middle of an \<open>await\<close> of the worker pool, logging, and the upgrade of an old database. Work that remains:
  capabilities, the evidence and evaluation that the promotion of a candidate rests on, and the parser of schedules.
\<close>

end
